(* ===== verification/Prelude.thy ===== *)
theory Prelude
  imports Main "HOL-Library.Word" "HOL-Library.Multiset" "HOL-Library.Sublist"
    "HOL-Library.List_Lexorder" "HOL-Library.Char_ord"
begin

text \<open>
  Shared vocabulary of the development: sequencing of fallible steps, the Go string
  functions the program uses, ordering of query results, and the generic list lemmas the
  component theories rest on.

  A Go \<open>string\<close> is a sequence of bytes, so it is modelled by the type \<open>string\<close>
  (a list of \<open>char\<close>, each one byte); \<open>length\<close> is Go's \<open>len\<close>.  Times are UTC
  Unix milliseconds, the precision the store keeps (\<open>internal/store/sqlite/time.go\<close>).
\<close>

named_theorems row_simps \<open>what an operation leaves unchanged and what it changes\<close>
named_theorems op_defs \<open>definitions of operations, unfolded together in component proofs\<close>

type_synonym msec = int
type_synonym ident = string

section \<open>Fallible steps\<close>

text \<open>
  A Go function that returns \<open>(T, error)\<close> is a value of \<open>'e + 'a\<close>: \<open>Inl\<close> the error,
  \<open>Inr\<close> the result.  \<open>andthen\<close> is the \<open>if err != nil { return err }\<close> idiom, and
  \<open>fail_when c e\<close> is \<open>if c { return e }\<close>.
\<close>

definition andthen :: "'e + 'a \<Rightarrow> ('a \<Rightarrow> 'e + 'b) \<Rightarrow> 'e + 'b" where
  "andthen m f = (case m of Inl e \<Rightarrow> Inl e | Inr v \<Rightarrow> f v)"

definition fail_when :: "bool \<Rightarrow> 'e \<Rightarrow> 'e + unit" where
  "fail_when c e = (if c then Inl e else Inr ())"

definition some_or :: "'e \<Rightarrow> 'a option \<Rightarrow> 'e + 'a" where
  "some_or e x = (case x of None \<Rightarrow> Inl e | Some v \<Rightarrow> Inr v)"

definition map_err :: "('e \<Rightarrow> 'f) \<Rightarrow> 'e + 'a \<Rightarrow> 'f + 'a" where
  "map_err g m = (case m of Inl e \<Rightarrow> Inl (g e) | Inr v \<Rightarrow> Inr v)"

definition succeeds :: "'e + 'a \<Rightarrow> bool" where
  "succeeds m = (case m of Inl _ \<Rightarrow> False | Inr _ \<Rightarrow> True)"

lemma andthen_simps [simp]:
  "andthen (Inl e) f = Inl e"
  "andthen (Inr v) f = f v"
  by (simp_all add: andthen_def)

lemma andthen_Inr_iff [simp]:
  "andthen m f = Inr y \<longleftrightarrow> (\<exists>v. m = Inr v \<and> f v = Inr y)"
  by (cases m) auto

lemma andthen_Inl_iff:
  "andthen m f = Inl e \<longleftrightarrow> m = Inl e \<or> (\<exists>v. m = Inr v \<and> f v = Inl e)"
  by (cases m) auto

lemma andthen_cong [fundef_cong]:
  "m = n \<Longrightarrow> (\<And>v. n = Inr v \<Longrightarrow> f v = g v) \<Longrightarrow> andthen m f = andthen n g"
  by (cases n) auto

lemma fail_when_simps [simp]:
  "fail_when True e = Inl e"
  "fail_when False e = Inr ()"
  by (simp_all add: fail_when_def)

lemma fail_when_Inr_iff [simp]: "fail_when c e = Inr u \<longleftrightarrow> \<not> c"
  by (simp add: fail_when_def)

lemma fail_when_Inl_iff [simp]: "fail_when c e = Inl e' \<longleftrightarrow> c \<and> e' = e"
  by (auto simp: fail_when_def)

lemma some_or_simps [simp]:
  "some_or e None = Inl e"
  "some_or e (Some v) = Inr v"
  by (simp_all add: some_or_def)

lemma some_or_Inr_iff [simp]: "some_or e x = Inr v \<longleftrightarrow> x = Some v"
  by (cases x) auto

lemma some_or_Inl_iff [simp]: "some_or e x = Inl e' \<longleftrightarrow> x = None \<and> e' = e"
  by (cases x) auto

lemma map_err_simps [simp]:
  "map_err g (Inl e) = Inl (g e)"
  "map_err g (Inr v) = Inr v"
  by (simp_all add: map_err_def)

lemma map_err_Inr_iff [simp]: "map_err g m = Inr v \<longleftrightarrow> m = Inr v"
  by (cases m) auto

lemma if_Inl_Inr_iff [simp]: "(if c then Inl e else m) = Inr v \<longleftrightarrow> \<not> c \<and> m = Inr v"
  by simp

lemma option_Inl_Inr_iff [simp]:
  "(case x of None \<Rightarrow> Inl e | Some y \<Rightarrow> f y) = Inr v \<longleftrightarrow> (\<exists>y. x = Some y \<and> f y = Inr v)"
  by (cases x) auto

lemma succeeds_simps [simp]:
  "succeeds (Inl e) = False"
  "succeeds (Inr v) = True"
  by (simp_all add: succeeds_def)

lemma succeeds_iff: "succeeds m \<longleftrightarrow> (\<exists>v. m = Inr v)"
  by (cases m) auto

section \<open>Bytes and Go strings\<close>

definition byte :: "char \<Rightarrow> nat" where
  "byte c = of_char c"

definition bytes_between :: "nat \<Rightarrow> nat \<Rightarrow> char \<Rightarrow> bool" where
  "bytes_between lo hi c \<longleftrightarrow> lo \<le> byte c \<and> byte c \<le> hi"

definition is_lower :: "char \<Rightarrow> bool" where
  "is_lower c \<longleftrightarrow> bytes_between 97 122 c"

definition is_digit :: "char \<Rightarrow> bool" where
  "is_digit c \<longleftrightarrow> bytes_between 48 57 c"

definition is_hex_lower :: "char \<Rightarrow> bool" where
  "is_hex_lower c \<longleftrightarrow> is_digit c \<or> bytes_between 97 102 c"

definition is_ascii :: "char \<Rightarrow> bool" where
  "is_ascii c \<longleftrightarrow> byte c < 128"

text \<open>
  \<open>utf8.DecodeRuneInString\<close>: the rune at the head of a non-empty string and its width in
  bytes; an invalid encoding is \<open>RuneError\<close> (65533) of width 1.  The ranges of the second
  byte (\<open>E0\<close>, \<open>ED\<close>, \<open>F0\<close>, \<open>F4\<close>) exclude overlong forms and surrogates.
\<close>

definition cont :: "char \<Rightarrow> bool" where
  "cont c \<longleftrightarrow> bytes_between 128 191 c"

definition rune_error :: nat where
  "rune_error = 65533"

fun decode_rune :: "string \<Rightarrow> nat \<times> nat" where
  "decode_rune [] = (rune_error, 0)"
| "decode_rune (a # s) =
     (let x = byte a in
      if x < 128 then (x, 1)
      else if 194 \<le> x \<and> x \<le> 223 then
        (case s of b # _ \<Rightarrow>
           if cont b then ((x - 192) * 64 + (byte b - 128), 2) else (rune_error, 1)
         | _ \<Rightarrow> (rune_error, 1))
      else if 224 \<le> x \<and> x \<le> 239 then
        (case s of b # c # _ \<Rightarrow>
           if bytes_between (if x = 224 then 160 else 128) (if x = 237 then 159 else 191) b \<and> cont c
           then ((x - 224) * 4096 + (byte b - 128) * 64 + (byte c - 128), 3) else (rune_error, 1)
         | _ \<Rightarrow> (rune_error, 1))
      else if 240 \<le> x \<and> x \<le> 244 then
        (case s of b # c # d # _ \<Rightarrow>
           if bytes_between (if x = 240 then 144 else 128) (if x = 244 then 143 else 191) b \<and>
              cont c \<and> cont d
           then ((x - 240) * 262144 + (byte b - 128) * 4096 + (byte c - 128) * 64 + (byte d - 128), 4)
           else (rune_error, 1)
         | _ \<Rightarrow> (rune_error, 1))
      else (rune_error, 1))"

lemma decode_rune_width:
  "s \<noteq> [] \<Longrightarrow> 0 < snd (decode_rune s) \<and> snd (decode_rune s) \<le> length s"
  by (cases s) (auto simp: Let_def split: list.splits)

text \<open>The runes of a string with the bytes of each, as \<open>for _, r := range s\<close> reads them.\<close>

function rune_parts :: "string \<Rightarrow> (nat \<times> string) list" where
  "rune_parts s =
     (if s = [] then []
      else let (r, w) = decode_rune s in (r, take w s) # rune_parts (drop w s))"
  by pat_completeness auto
termination
proof (relation "measure length")
  fix s :: string and x r w
  assume "s \<noteq> []" "x = decode_rune s" "(r, w) = x"
  then show "(drop w s, s) \<in> measure length"
    using decode_rune_width [of s] by (auto dest: arg_cong [where f = snd])
qed simp

declare rune_parts.simps [simp del]

definition runes :: "string \<Rightarrow> nat list" where
  "runes s = map fst (rune_parts s)"

definition RuneCountInString :: "string \<Rightarrow> nat" where
  "RuneCountInString s = length (rune_parts s)"

text \<open>\<open>unicode.IsSpace\<close> and \<open>unicode.IsControl\<close>.\<close>

definition IsSpace :: "nat \<Rightarrow> bool" where
  "IsSpace r \<longleftrightarrow> r \<in> {9, 10, 11, 12, 13, 32, 133, 160, 5760, 8232, 8233, 8239, 8287, 12288} \<or>
     8192 \<le> r \<and> r \<le> 8202"

definition IsControl :: "nat \<Rightarrow> bool" where
  "IsControl r \<longleftrightarrow> r < 32 \<or> 127 \<le> r \<and> r < 160"

definition TrimSpace :: "string \<Rightarrow> string" where
  "TrimSpace s =
     concat (map snd (rev (dropWhile (\<lambda>p. IsSpace (fst p)) (rev
       (dropWhile (\<lambda>p. IsSpace (fst p)) (rune_parts s))))))"

text \<open>\<open>strings.Fields\<close>: the maximal runs of runes that are not white space.\<close>

fun fields_of :: "(nat \<times> string) list \<Rightarrow> string \<Rightarrow> string list" where
  "fields_of [] w = (if w = [] then [] else [w])"
| "fields_of ((r, b) # ps) w =
     (if IsSpace r then (if w = [] then fields_of ps [] else w # fields_of ps [])
      else fields_of ps (w @ b))"

definition Fields :: "string \<Rightarrow> string list" where
  "Fields s = fields_of (rune_parts s) []"

fun Join :: "string list \<Rightarrow> string \<Rightarrow> string" where
  "Join [] sep = []"
| "Join [x] sep = x"
| "Join (x # y # xs) sep = x @ sep @ Join (y # xs) sep"

text \<open>\<open>strings.Split\<close> at a one byte separator.\<close>

fun Split :: "string \<Rightarrow> char \<Rightarrow> string list" where
  "Split [] c = [[]]"
| "Split (x # xs) c =
     (if x = c then [] # Split xs c
      else case Split xs c of [] \<Rightarrow> [[x]] | w # ws \<Rightarrow> (x # w) # ws)"

definition HasSuffix :: "string \<Rightarrow> string \<Rightarrow> bool" where
  "HasSuffix s suf \<longleftrightarrow> length suf \<le> length s \<and> drop (length s - length suf) s = suf"

definition HasPrefix :: "string \<Rightarrow> string \<Rightarrow> bool" where
  "HasPrefix s pre \<longleftrightarrow> take (length pre) s = pre"

definition TrimSuffix :: "string \<Rightarrow> string \<Rightarrow> string" where
  "TrimSuffix s suf = (if HasSuffix s suf then take (length s - length suf) s else s)"

definition ContainsAny :: "string \<Rightarrow> char list \<Rightarrow> bool" where
  "ContainsAny s cs \<longleftrightarrow> list_ex (\<lambda>c. c \<in> set cs) s"

text \<open>
  \<open>strings.ToLower\<close> and \<open>ToUpper\<close> on ASCII strings.  For a string with a byte of 128 or more
  Go consults the Unicode case tables; that table is the parameter \<open>u\<close>.
\<close>

definition lower_char :: "char \<Rightarrow> char" where
  "lower_char c = (if bytes_between 65 90 c then char_of (byte c + 32) else c)"

definition upper_char :: "char \<Rightarrow> char" where
  "upper_char c = (if bytes_between 97 122 c then char_of (byte c - 32) else c)"

definition ToLower :: "(string \<Rightarrow> string) \<Rightarrow> string \<Rightarrow> string" where
  "ToLower u s = (if list_all is_ascii s then map lower_char s else u s)"

definition ToUpper :: "(string \<Rightarrow> string) \<Rightarrow> string \<Rightarrow> string" where
  "ToUpper u s = (if list_all is_ascii s then map upper_char s else u s)"

text \<open>SQLite's \<open>COLLATE NOCASE\<close> folds the 26 ASCII letters only.\<close>

definition nocase :: "string \<Rightarrow> string" where
  "nocase s = map lower_char s"

text \<open>\<open>hex.EncodeToString\<close>.\<close>

definition hex_digit :: "nat \<Rightarrow> char" where
  "hex_digit n = (if n < 10 then char_of (48 + n) else char_of (87 + n))"

definition hex_encode :: "8 word list \<Rightarrow> string" where
  "hex_encode bs = concat (map (\<lambda>b. [hex_digit (unat b div 16), hex_digit (unat b mod 16)]) bs)"

text \<open>Decimal rendering, as \<open>%d\<close> prints a number.\<close>

fun nat_text :: "nat \<Rightarrow> string" where
  "nat_text n = (if n < 10 then [char_of (48 + n)] else nat_text (n div 10) @ [char_of (48 + n mod 10)])"

declare nat_text.simps [simp del]

definition int_text :: "int \<Rightarrow> string" where
  "int_text i = (if i < 0 then ''-'' @ nat_text (nat (- i)) else nat_text (nat i))"

section \<open>Query results\<close>

text \<open>
  \<open>ORDER BY k ASC\<close> and \<open>DESC\<close>: SQLite's sorter keeps the order of equal keys, which for
  a table scan is insertion order.
\<close>

definition order_asc :: "('r \<Rightarrow> 'k :: linorder) \<Rightarrow> 'r list \<Rightarrow> 'r list" where
  "order_asc k rs = sort_key k rs"

definition order_desc :: "('r \<Rightarrow> int) \<Rightarrow> 'r list \<Rightarrow> 'r list" where
  "order_desc k rs = sort_key (\<lambda>r. - k r) rs"

text \<open>\<open>LIMIT n OFFSET k\<close>; a negative limit is no limit.\<close>

definition limit_offset :: "int \<Rightarrow> int \<Rightarrow> 'r list \<Rightarrow> 'r list" where
  "limit_offset n k rs =
     (let r = drop (nat k) rs in if n < 0 then r else take (nat n) r)"

lemma set_order_asc [simp]: "set (order_asc k rs) = set rs"
  by (simp add: order_asc_def)

lemma length_order_asc [simp]: "length (order_asc k rs) = length rs"
  by (simp add: order_asc_def)

lemma set_order_desc [simp]: "set (order_desc k rs) = set rs"
  by (simp add: order_desc_def)

lemma length_order_desc [simp]: "length (order_desc k rs) = length rs"
  by (simp add: order_desc_def)

lemma mset_order_desc [simp]: "mset (order_desc k rs) = mset rs"
  by (simp add: order_desc_def)

lemma order_asc_eq_Nil [simp]: "order_asc k rs = [] \<longleftrightarrow> rs = []"
  by (metis length_0_conv length_order_asc)

lemma hd_order_asc_min:
  assumes "rs \<noteq> []"
  shows "hd (order_asc k rs) \<in> set rs \<and> (\<forall>r \<in> set rs. k (hd (order_asc k rs)) \<le> k r)"
proof -
  obtain x xs where e: "order_asc k rs = x # xs"
    using assms by (cases "order_asc k rs") auto
  have "sorted (map k (x # xs))"
    unfolding e [symmetric] order_asc_def by simp
  moreover have "set rs = insert x (set xs)"
    using e by (metis list.simps(15) set_order_asc)
  ultimately show ?thesis
    by (auto simp: e)
qed

section \<open>Lists\<close>

lemma filter_map_if_same:
  "(\<And>r. r \<in> set rs \<Longrightarrow> P (f r) = P r) \<Longrightarrow> length (filter P (map f rs)) = length (filter P rs)"
  by (induction rs) auto

lemma distinct_map_key_update:
  "(\<And>r. r \<in> set rs \<Longrightarrow> k (f r) = k r) \<Longrightarrow> map k (map f rs) = map k rs"
  by (induction rs) auto

lemma find_Some_iff_mem:
  "List.find P xs = Some x \<Longrightarrow> x \<in> set xs \<and> P x"
  by (auto simp: find_Some_iff)

lemma find_None_iff_all: "List.find P xs = None \<longleftrightarrow> (\<forall>x \<in> set xs. \<not> P x)"
  by (auto simp: find_None_iff)

lemma distinct_key_unique:
  "distinct (map k xs) \<Longrightarrow> x \<in> set xs \<Longrightarrow> y \<in> set xs \<Longrightarrow> k x = k y \<Longrightarrow> x = y"
  by (metis distinct_map inj_on_def)

lemma distinct_map_filter_key: "distinct (map k xs) \<Longrightarrow> distinct (map k (filter P xs))"
  by (rule distinct_map_filter)

section \<open>Splitting and joining\<close>

lemma byte_char_of [simp]: "byte (char_of n) = n mod 256"
  by (simp add: byte_def)

lemma char_of_byte [simp]: "char_of (byte c) = c"
  by (simp add: byte_def)

lemma Split_no_sep: "c \<notin> set s \<Longrightarrow> Split s c = [s]"
  by (induction s) auto

lemma Split_append: "c \<notin> set s \<Longrightarrow> Split (s @ c # r) c = s # Split r c"
  by (induction s) auto

lemma Split_chars: "set s \<subseteq> {c} \<union> (\<Union>p \<in> set (Split s c). set p)"
proof (induction s)
  case (Cons a s)
  then show ?case
    by (cases "Split s c") auto
qed simp

lemma Split_neq_Nil [simp]: "Split s c \<noteq> []"
  by (cases s) (auto split: list.split)

lemma Split_snoc: "Split (s @ [c]) c = Split s c @ [[]]"
proof (induction s)
  case (Cons a s)
  then show ?case using Split_neq_Nil [of s c] by (cases "Split s c") auto
qed simp

lemma set_Join: "c \<in> set (Join ws sep) \<Longrightarrow> (\<exists>w \<in> set ws. c \<in> set w) \<or> c \<in> set sep"
  by (induction ws sep rule: Join.induct) auto

lemma length_Join: "\<forall>w \<in> set ws. length w \<le> n \<Longrightarrow> length (Join ws sep) \<le> (n + length sep) * length ws"
  by (induction ws sep rule: Join.induct) (auto simp: algebra_simps)

lemma Join_neq_Nil: "ws \<noteq> [] \<Longrightarrow> \<forall>w \<in> set ws. w \<noteq> [] \<Longrightarrow> Join ws sep \<noteq> []"
  by (induction ws sep rule: Join.induct) auto

lemma nat_text_digits: "c \<in> set (nat_text n) \<Longrightarrow> is_digit c"
proof (induction n rule: nat_text.induct)
  case (1 n)
  then show ?case
    by (subst (asm) nat_text.simps) (auto simp: is_digit_def bytes_between_def split: if_splits)
qed

end
