(* ===== verification/Schema.thy ===== *)
theory Schema
  imports Prelude
begin

text \<open>
  The state of the control plane: the SQLite store opened by \<open>internal/store/sqlite\<close>.
  One record type per table of \<open>migrations/\<close>, with the fields of the Go model type the row
  is converted to, and the record \<open>db\<close> of all tables, each a list of rows in insertion order.
  The nullable text columns \<open>jobs.node_id\<close>, \<open>website_domains.previous_hostname\<close> and their
  kind are the empty string for \<open>NULL\<close>, as \<open>nullString\<close> and \<open>.String\<close> convert them.
  The errors a store or service function returns are the values of \<open>err\<close>.
\<close>

section \<open>Errors\<close>

datatype resource = Websites | Domains | Aliases | Databases | DatabaseUsers
  | ScheduledTasks | BackupPlans | FTPAccounts | BackupRetentionResource

datatype err =
    ErrNoRows
  | UniqueViolation | ForeignKeyViolation | CheckViolation
  | ValidationErr string string
  | LimitErr resource int
  | AgentErr string
  | Plain string
  | Wrapped string err
  | Joined err err
  | ErrNone
  | AccErrForbidden | AccErrNameExists | AccErrBusy | AccErrNotEmpty
  | PkgErrNameExists | PkgErrInUse
  | ErrWebsiteBusy | ErrWebsiteDomainBusy | ErrWebsiteInactive | ErrHostnameExists
  | ErrHostnameSame | ErrPrimaryRequired
  | DbErrBusy | DbErrNameExists | ErrCrossAccount
  | FtpErrNameExists | FtpErrBusy | FtpErrDeleting
  | DnsErrBusy | DnsErrNameExists | ErrRecordExists | ErrRecordConflict | ErrNotConfigured
  | CertErrBusy
  | BackupErrBusy | ErrScope
  | ErrUsernameExists | ErrEmailExists | ErrInvalidCredentials | ErrCurrentPassword
  | ErrUnauthorized
  | ErrQuery

text \<open>\<open>errors.Is\<close>: the target is somewhere on the \<open>%w\<close> chain or among joined errors.\<close>

fun error_is :: "err \<Rightarrow> err \<Rightarrow> bool" where
  "error_is (Wrapped m e) t = (Wrapped m e = t \<or> error_is e t)"
| "error_is (Joined d e) t = (Joined d e = t \<or> error_is d t \<or> error_is e t)"
| "error_is e t = (e = t)"

section \<open>Rows\<close>

datatype status = Pending | Active | Disabled | Errored | Deleting
  | Queued | Running | Succeeded | Failed | Unknown | Online | Offline

datatype job_kind =
    KindAccountCreate | KindAccountDelete | KindAccountDisable | KindAccountEnable
  | KindWebsiteCreate | KindWebsiteDelete | KindWebsiteDisable | KindWebsiteEnable
  | KindWebsiteDomainCreate | KindWebsiteDomainDelete | KindWebsiteDomainDisable
  | KindWebsiteDomainEnable | KindWebsiteDomainUpdate
  | KindNodeProbe | KindCertificateIssue | KindCertificateRenew
  | KindDatabaseCreate | KindDatabaseDelete | KindDatabaseUserCreate | KindDatabaseUserDelete
  | KindDatabaseGrantCreate | KindDatabaseGrantDelete
  | KindTaskSync | KindFTPSync | KindBackupCreate | KindBackupRestore
  | KindDNSZoneCreate | KindDNSZoneDelete | KindDNSRecordSync
  | KindOther string

text \<open>
  A job payload is a JSON object; the model keeps the object, not its text.  A missing field
  decodes to the zero value, a field of another type is a decoding error.
\<close>

datatype jval = JStr string | JBool bool | JObj "(string \<times> bool) list"

type_synonym payload = "(string \<times> jval) list"

record job =
  job_id :: ident
  job_node :: ident
  job_user :: ident
  job_kind_of :: job_kind
  job_status :: status
  job_payload :: payload
  job_attempts :: int
  job_max :: int
  job_error :: string
  job_created :: msec
  job_started :: "msec option"
  job_finished :: "msec option"

record job_step =
  stp_id :: ident
  stp_job :: ident
  stp_name :: job_kind
  stp_status :: status
  stp_message :: string
  stp_started :: msec
  stp_finished :: "msec option"

record audit_event =
  aud_id :: ident
  aud_user :: ident
  aud_action :: string
  aud_resource_type :: string
  aud_resource :: ident
  aud_job :: ident
  aud_result :: string
  aud_created :: msec

record user =
  usr_id :: ident
  usr_username :: string
  usr_email :: string
  usr_name :: string
  usr_timezone :: string
  usr_role :: string
  usr_must_change :: bool
  usr_hash :: string
  usr_created :: msec
  usr_updated :: msec

record session =
  ses_id :: ident
  ses_user :: ident
  ses_token_hash :: string
  ses_csrf :: string
  ses_expires :: msec
  ses_created :: msec

record account =
  acc_id :: ident
  acc_node :: ident
  acc_name :: string
  acc_system_user :: string
  acc_status :: status
  acc_enabled :: bool
  acc_created :: msec
  acc_updated :: msec

record member =
  mem_account :: ident
  mem_user :: ident
  mem_created :: msec

record capability =
  cap_driver :: string
  cap_version :: string
  cap_status :: string

record capabilities =
  cap_webservers :: "capability list"
  cap_runtimes :: "capability list"
  cap_databases :: "capability list"
  cap_schedulers :: "capability list"
  cap_backups :: "capability list"
  cap_dns :: "capability list"

record node =
  nod_id :: ident
  nod_name :: string
  nod_kind :: string
  nod_endpoint :: string
  nod_status :: status
  nod_last_seen :: "msec option"
  nod_capabilities :: "capabilities option"
  nod_capabilities_at :: "msec option"
  nod_created :: msec
  nod_updated :: msec

record limits =
  lim_websites :: int
  lim_domains :: int
  lim_aliases :: int
  lim_databases :: int
  lim_database_users :: int
  lim_scheduled_tasks :: int
  lim_backup_plans :: int
  lim_backup_retention :: int
  lim_ftp_accounts :: int

record pkg =
  pkg_id :: ident
  pkg_name :: string
  pkg_limits :: limits
  pkg_created :: msec
  pkg_updated :: msec

record account_package =
  apk_account :: ident
  apk_package :: ident
  apk_created :: msec
  apk_updated :: msec

record website =
  web_id :: ident
  web_account :: ident
  web_node :: ident
  web_name :: string
  web_kind :: string
  web_document_root :: string
  web_web_driver :: string
  web_runtime_driver :: string
  web_runtime_version :: string
  web_status :: status
  web_enabled :: bool
  web_created :: msec
  web_updated :: msec

datatype domain_kind = Primary | Alias | OtherDomain string

record domain =
  dom_id :: ident
  dom_website :: ident
  dom_hostname :: string
  dom_kind :: domain_kind
  dom_status :: status
  dom_enabled :: bool
  dom_previous :: string
  dom_created :: msec
  dom_updated :: msec

record database =
  dba_id :: ident
  dba_account :: ident
  dba_node :: ident
  dba_name :: string
  dba_system_name :: string
  dba_driver :: string
  dba_status :: status
  dba_created :: msec
  dba_updated :: msec

record database_user =
  dbu_id :: ident
  dbu_account :: ident
  dbu_node :: ident
  dbu_name :: string
  dbu_system_name :: string
  dbu_driver :: string
  dbu_status :: status
  dbu_created :: msec
  dbu_updated :: msec

record grant =
  gra_database :: ident
  gra_user :: ident
  gra_status :: status
  gra_created :: msec
  gra_updated :: msec

record task =
  tsk_id :: ident
  tsk_account :: ident
  tsk_node :: ident
  tsk_name :: string
  tsk_schedule :: string
  tsk_command :: string
  tsk_driver :: string
  tsk_kind :: string
  tsk_enabled :: bool
  tsk_status :: status
  tsk_created :: msec
  tsk_updated :: msec

record ftp_account =
  ftp_id :: ident
  ftp_account_id :: ident
  ftp_node :: ident
  ftp_username :: string
  ftp_hash :: string
  ftp_enabled :: bool
  ftp_deleting :: bool
  ftp_status :: status
  ftp_created :: msec
  ftp_updated :: msec

record dns_provider =
  dpr_id :: ident
  dpr_node :: ident
  dpr_name :: string
  dpr_driver :: string
  dpr_created :: msec

record dns_settings =
  dst_primary :: string
  dst_secondary :: string
  dst_default_ttl :: int
  dst_updated :: msec

record dns_zone =
  dzn_id :: ident
  dzn_account :: ident
  dzn_node :: ident
  dzn_provider :: ident
  dzn_name :: string
  dzn_primary :: string
  dzn_secondary :: string
  dzn_status :: status
  dzn_created :: msec
  dzn_updated :: msec

record dns_record =
  drc_id :: ident
  drc_zone :: ident
  drc_name :: string
  drc_type :: string
  drc_content :: string
  drc_ttl :: int
  drc_priority :: int
  drc_synced_name :: string
  drc_synced_type :: string
  drc_status :: status
  drc_created :: msec
  drc_updated :: msec

record certificate =
  crt_id :: ident
  crt_website :: ident
  crt_node :: ident
  crt_kind :: string
  crt_name :: string
  crt_email :: string
  crt_status :: status
  crt_redirect :: bool
  crt_expires :: "msec option"
  crt_renew_after :: "msec option"
  crt_error :: string
  crt_created :: msec
  crt_updated :: msec

record backup_plan =
  pln_id :: ident
  pln_account :: ident
  pln_node :: ident
  pln_name :: string
  pln_schedule :: string
  pln_driver :: string
  pln_retention :: int
  pln_files :: bool
  pln_databases :: bool
  pln_enabled :: bool
  pln_last_run :: "msec option"
  pln_next_run :: "msec option"
  pln_created :: msec
  pln_updated :: msec

record backup_run =
  run_id :: ident
  run_plan :: ident
  run_account :: ident
  run_node :: ident
  run_driver :: string
  run_status :: status
  run_error :: string
  run_created :: msec
  run_started :: "msec option"
  run_finished :: "msec option"

record manifest_entry =
  ent_path :: string
  ent_size :: int
  ent_checksum :: string

record manifest =
  man_version :: int
  man_run :: ident
  man_account :: ident
  man_created :: msec
  man_files :: bool
  man_databases :: bool
  man_metadata :: bool
  man_entries :: "manifest_entry list"

record artifact =
  art_id :: ident
  art_run :: ident
  art_account :: ident
  art_node :: ident
  art_driver :: string
  art_path :: string
  art_checksum :: string
  art_size :: int
  art_manifest :: manifest
  art_created :: msec

record service_defaults =
  def_web :: string
  def_runtime :: string
  def_runtime_version :: string
  def_database :: string
  def_scheduler :: string
  def_backup :: string

record service_settings =
  svc_defaults :: service_defaults
  svc_updated :: msec

section \<open>The store\<close>

record db =
  users :: "user list"
  sessions :: "session list"
  accounts :: "account list"
  members :: "member list"
  nodes :: "node list"
  jobs :: "job list"
  job_steps :: "job_step list"
  audit_events :: "audit_event list"
  packages :: "pkg list"
  account_packages :: "account_package list"
  websites :: "website list"
  domains :: "domain list"
  databases :: "database list"
  database_users :: "database_user list"
  grants :: "grant list"
  tasks :: "task list"
  ftp_accounts :: "ftp_account list"
  dns_providers :: "dns_provider list"
  dns_settings :: dns_settings
  dns_zones :: "dns_zone list"
  dns_records :: "dns_record list"
  certificates :: "certificate list"
  certificate_names :: "(ident \<times> string) list"
  backup_plans :: "backup_plan list"
  backup_runs :: "backup_run list"
  artifacts :: "artifact list"
  settings :: service_settings

text \<open>A freshly migrated store: the default package and the two settings rows.\<close>

definition default_limits :: limits where
  "default_limits = \<lparr>lim_websites = 10, lim_domains = 10, lim_aliases = 20, lim_databases = 10,
     lim_database_users = 10, lim_scheduled_tasks = 20, lim_backup_plans = 5,
     lim_backup_retention = 7, lim_ftp_accounts = 10\<rparr>"

definition default_package_id :: ident where
  "default_package_id = ''00000000000000000000000000000001''"

definition default_settings :: service_settings where
  "default_settings = \<lparr>svc_defaults = \<lparr>def_web = ''nginx'', def_runtime = ''phpfpm'', def_runtime_version = ''8.3'',
     def_database = ''mysql'', def_scheduler = ''crontab'', def_backup = ''local''\<rparr>,
     svc_updated = 0\<rparr>"

definition empty_db :: db where
  "empty_db = \<lparr>users = [], sessions = [], accounts = [], members = [], nodes = [], jobs = [],
     job_steps = [], audit_events = [],
     packages = [\<lparr>pkg_id = default_package_id, pkg_name = ''Default'', pkg_limits = default_limits,
                  pkg_created = 0, pkg_updated = 0\<rparr>],
     account_packages = [], websites = [], domains = [], databases = [], database_users = [],
     grants = [], tasks = [], ftp_accounts = [], dns_providers = [],
     dns_settings = \<lparr>dst_primary = [], dst_secondary = [], dst_default_ttl = 3600, dst_updated = 0\<rparr>,
     dns_zones = [], dns_records = [], certificates = [], certificate_names = [],
     backup_plans = [], backup_runs = [], artifacts = [], settings = default_settings\<rparr>"

section \<open>Table operations\<close>

text \<open>
  \<open>SELECT ... WHERE key = k LIMIT 1\<close>, \<open>UPDATE ... WHERE key = k\<close>, \<open>DELETE ... WHERE key = k\<close>
  and \<open>EXISTS (SELECT 1 ... WHERE key = k)\<close> on a list of rows.
\<close>

definition find_by :: "('r \<Rightarrow> 'k) \<Rightarrow> 'k \<Rightarrow> 'r list \<Rightarrow> 'r option" where
  "find_by key k rs = List.find (\<lambda>r. key r = k) rs"

definition update_by :: "('r \<Rightarrow> 'k) \<Rightarrow> 'k \<Rightarrow> ('r \<Rightarrow> 'r) \<Rightarrow> 'r list \<Rightarrow> 'r list" where
  "update_by key k f rs = map (\<lambda>r. if key r = k then f r else r) rs"

definition delete_by :: "('r \<Rightarrow> 'k) \<Rightarrow> 'k \<Rightarrow> 'r list \<Rightarrow> 'r list" where
  "delete_by key k rs = filter (\<lambda>r. key r \<noteq> k) rs"

definition exists_by :: "('r \<Rightarrow> 'k) \<Rightarrow> 'k \<Rightarrow> 'r list \<Rightarrow> bool" where
  "exists_by key k rs = list_ex (\<lambda>r. key r = k) rs"

definition count_by :: "('r \<Rightarrow> 'k) \<Rightarrow> 'k \<Rightarrow> 'r list \<Rightarrow> int" where
  "count_by key k rs = int (length (filter (\<lambda>r. key r = k) rs))"

lemma exists_by_iff: "exists_by key k rs \<longleftrightarrow> k \<in> key ` set rs"
  by (auto simp: exists_by_def list_ex_iff)

lemma delete_by_keys: "key ` set (delete_by key k rs) = key ` set rs - {k}"
  by (auto simp: delete_by_def)

lemma update_by_simps [simp]:
  "update_by key k f [] = []"
  "update_by key k f (r # rs) = (if key r = k then f r else r) # update_by key k f rs"
  by (simp_all add: update_by_def)

lemma update_by_keys:
  "(\<And>r. key (f r) = key r) \<Longrightarrow> map key (update_by key' k f rs) = map key rs"
  by (simp add: update_by_def)

lemma update_by_key_set:
  "(\<And>r. key (f r) = key r) \<Longrightarrow> key ` set (update_by key' k f rs) = key ` set rs"
  by (metis set_map update_by_keys)

lemma update_by_mem:
  "r \<in> set rs \<Longrightarrow> (if key r = k then f r else r) \<in> set (update_by key k f rs)"
  by (auto simp: update_by_def)

lemma update_by_cases:
  assumes "r' \<in> set (update_by key k f rs)"
  obtains r where "r \<in> set rs" "key r = k" "r' = f r" | "r' \<in> set rs" "key r' \<noteq> k"
  using assms by (auto simp: update_by_def split: if_splits)

text \<open>Giving one row a value of \<open>g\<close> that no other row has keeps \<open>g\<close> unique.\<close>

lemma update_by_distinct:
  assumes "distinct (map key us)" "distinct (map g us)"
    and "\<And>r. r \<in> set us \<Longrightarrow> key r = i \<Longrightarrow> g (f r) = c"
    and "\<And>r. r \<in> set us \<Longrightarrow> g r = c \<Longrightarrow> key r = i"
  shows "distinct (map g (update_by key i f us))"
  using assms
proof (induction us)
  case (Cons r us)
  have IH: "distinct (map g (update_by key i f us))"
    using Cons by simp
  show ?case
  proof (cases "key r = i")
    case True
    have "key x \<noteq> i" if "x \<in> set us" for x
      using Cons.prems(1) that True by (auto simp: image_iff)
    then have "update_by key i f us = us"
      by (simp add: update_by_def map_idI)
    moreover have "g (f r) \<notin> g ` set us"
    proof
      assume "g (f r) \<in> g ` set us"
      then obtain x where "x \<in> set us" "g x = c"
        using Cons.prems(3) [of r] True by auto
      then show False
        using Cons.prems(1) Cons.prems(4) [of x] True by (auto simp: image_iff)
    qed
    ultimately show ?thesis
      using True Cons.prems(2) by simp
  next
    case False
    have "g r \<notin> g ` set (update_by key i f us)"
    proof
      assume "g r \<in> g ` set (update_by key i f us)"
      then obtain y where y: "y \<in> set (update_by key i f us)" "g r = g y"
        by auto
      from y(1) show False
      proof (rule update_by_cases)
        fix x assume "x \<in> set us" "key x = i" "y = f x"
        then show False
          using Cons.prems(3) [of x] Cons.prems(4) [of r] y(2) False by auto
      next
        assume "y \<in> set us" "key y \<noteq> i"
        then show False
          using Cons.prems(2) y(2) by (auto simp: image_iff)
      qed
    qed
    with False IH show ?thesis by simp
  qed
qed simp

lemma length_update_by [simp]: "length (update_by key k f rs) = length rs"
  by (simp add: update_by_def)

text \<open>
  The contract of a table of the store: reading back what was written.  Every component
  states its table as an instance, and gets the facts about keyed access from here.
\<close>

locale table =
  fixes rows :: "'s \<Rightarrow> 'r list" and put :: "'r list \<Rightarrow> 's \<Rightarrow> 's" and key :: "'r \<Rightarrow> ident"
  assumes rows_put: "rows (put rs s) = rs"
    and put_put: "put rs (put rs' s) = put rs s"
begin

lemma find_mem:
  "find_by key k (rows s) = Some r \<Longrightarrow> r \<in> set (rows s) \<and> key r = k"
  unfolding find_by_def by (rule find_Some_iff_mem)

lemma find_None: "find_by key k (rows s) = None \<longleftrightarrow> k \<notin> key ` set (rows s)"
  by (auto simp: find_by_def find_None_iff)

lemma exists_iff: "exists_by key k (rows s) \<longleftrightarrow> k \<in> key ` set (rows s)"
  by (auto simp: exists_by_def list_ex_iff)

lemma find_unique:
  assumes "distinct (map key (rows s))" "r \<in> set (rows s)"
  shows "find_by key (key r) (rows s) = Some r"
proof -
  obtain r' where r': "find_by key (key r) (rows s) = Some r'"
    using assms(2) find_None [of "key r" s] by (cases "find_by key (key r) (rows s)") auto
  then have "r' = r"
    using find_mem [OF r'] assms by (auto intro: distinct_key_unique)
  with r' show ?thesis by simp
qed

lemma find_after_update:
  assumes "\<And>r. key r = k \<Longrightarrow> key (f r) = k"
  shows "find_by key j (rows (put (update_by key k f (rows s)) s)) =
    map_option (\<lambda>r. if j = k then f r else r) (find_by key j (rows s))"
proof -
  have "find_by key j (update_by key k f rs) =
      map_option (\<lambda>r. if j = k then f r else r) (find_by key j rs)" for rs
    using assms by (induction rs) (auto simp: find_by_def update_by_def)
  then show ?thesis by (simp add: rows_put)
qed

lemma find_after_delete:
  "find_by key j (rows (put (delete_by key k (rows s)) s)) =
    (if j = k then None else find_by key j (rows s))"
proof -
  have "find_by key j (delete_by key k rs) = (if j = k then None else find_by key j rs)" for rs
    by (induction rs) (auto simp: find_by_def delete_by_def)
  then show ?thesis by (simp add: rows_put)
qed

lemma find_after_insert:
  assumes "\<not> exists_by key (key r) (rows s)"
  shows "find_by key j (rows (put (rows s @ [r]) s)) =
    (if j = key r then Some r else find_by key j (rows s))"
proof -
  have "find_by key j (rs @ [r]) = (case find_by key j rs of
      None \<Rightarrow> if j = key r then Some r else None | Some x \<Rightarrow> Some x)" for rs
    by (induction rs) (auto simp: find_by_def)
  moreover have "find_by key (key r) (rows s) = None"
    using assms by (simp add: find_None exists_iff)
  ultimately show ?thesis
    by (auto simp: rows_put split: option.splits)
qed

lemma keys_after_update:
  assumes "\<And>r. key r = k \<Longrightarrow> key (f r) = k"
  shows "map key (rows (put (update_by key k f (rows s)) s)) = map key (rows s)"
  using assms by (simp add: rows_put update_by_def)

lemma distinct_after_insert:
  "distinct (map key (rows s)) \<Longrightarrow> \<not> exists_by key (key r) (rows s) \<Longrightarrow>
    distinct (map key (rows (put (rows s @ [r]) s)))"
  by (auto simp: rows_put exists_iff)

lemma distinct_after_delete:
  "distinct (map key (rows s)) \<Longrightarrow> distinct (map key (rows (put (delete_by key k (rows s)) s)))"
  by (simp add: rows_put delete_by_def distinct_map_filter)

end

end
