(* ===== verification/Netip.thy ===== *)
theory Netip
  imports Prelude
begin

text \<open>
  What the program uses of Go's \<open>net\<close> package: \<open>net.ParseIP\<close>, \<open>IP.To4\<close> and
  \<open>IP.String\<close>.  An address is the list of its eight 16 bit groups; an IPv4 address is the
  mapped form \<open>::ffff:a.b.c.d\<close>, as \<open>net.IP\<close> keeps it.
\<close>

type_synonym ip = "nat list"

definition digit_value :: "char \<Rightarrow> nat" where
  "digit_value c = byte c - 48"

definition dec_value :: "string \<Rightarrow> nat" where
  "dec_value s = foldl (\<lambda>n c. 10 * n + digit_value c) 0 s"

text \<open>One decimal field: 1 to 3 digits, no leading zero, at most 255.\<close>

definition octet :: "string \<Rightarrow> nat option" where
  "octet s =
     (if s \<noteq> [] \<and> list_all is_digit s \<and> (hd s = CHR ''0'' \<longrightarrow> length s = 1) \<and>
         length s \<le> 3 \<and> dec_value s \<le> 255
      then Some (dec_value s) else None)"

fun all_some :: "'a option list \<Rightarrow> 'a list option" where
  "all_some [] = Some []"
| "all_some (None # xs) = None"
| "all_some (Some x # xs) = map_option (Cons x) (all_some xs)"

definition parse_ipv4 :: "string \<Rightarrow> nat list option" where
  "parse_ipv4 s =
     (let fs = Split s (CHR ''.'') in
      if length fs = 4 then all_some (map octet fs) else None)"

definition is_hex :: "char \<Rightarrow> bool" where
  "is_hex c \<longleftrightarrow> is_digit c \<or> bytes_between 97 102 c \<or> bytes_between 65 70 c"

definition hex_value :: "string \<Rightarrow> nat" where
  "hex_value s = foldl (\<lambda>n c. 16 * n +
     (if is_digit c then byte c - 48 else if bytes_between 97 102 c then byte c - 87 else byte c - 55)) 0 s"

text \<open>
  The loop of \<open>netip.parseIPv6\<close>: the rest of the string, the groups read so far and the
  position of the ellipsis.
\<close>

function groups6 :: "string \<Rightarrow> nat list \<Rightarrow> nat option \<Rightarrow> (nat list \<times> nat option) option" where
  "groups6 s g e =
     (if 8 \<le> length g then (if s = [] then Some (g, e) else None)
      else
        let h = takeWhile is_hex s; r = dropWhile is_hex s in
        if h = [] \<or> 4 < length h then None
        else if r \<noteq> [] \<and> hd r = CHR ''.'' then
          (if (e = None \<and> length g \<noteq> 6) \<or> 6 < length g then None
           else case parse_ipv4 s of
             Some [a, b, c, d] \<Rightarrow> Some (g @ [256 * a + b, 256 * c + d], e)
           | _ \<Rightarrow> None)
        else
          let g' = g @ [hex_value h] in
          if r = [] then Some (g', e)
          else if hd r \<noteq> CHR '':'' \<or> length r = 1 then None
          else if hd (tl r) = CHR '':'' then
            (if e \<noteq> None then None
             else if tl (tl r) = [] then Some (g', Some (length g'))
             else groups6 (tl (tl r)) g' (Some (length g')))
          else groups6 (tl r) g' e)"
  by pat_completeness auto
termination
proof (relation "measure (\<lambda>(s, g, e). length s)", goal_cases)
  case (2 s g e h r g')
  then have "s \<noteq> []" "length r \<le> length s" by (auto simp: length_dropWhile_le)
  then have "length (tl (tl r)) < length s" by (cases s) auto
  then show ?case by simp
next
  case (3 s g e h r g')
  then have "s \<noteq> []" "length r \<le> length s" by (auto simp: length_dropWhile_le)
  then have "length (tl r) < length s" by (cases s) auto
  then show ?case by simp
qed simp

declare groups6.simps [simp del]

definition expand6 :: "nat list \<times> nat option \<Rightarrow> ip option" where
  "expand6 p = (case p of (g, e) \<Rightarrow>
     if length g < 8 then
       map_option (\<lambda>k. take k g @ replicate (8 - length g) 0 @ drop k g) e
     else if e \<noteq> None then None else Some g)"

definition parse_ipv6 :: "string \<Rightarrow> ip option" where
  "parse_ipv6 s =
     (if take 2 s = ''::'' then
        (if drop 2 s = [] then Some (replicate 8 0)
         else Option.bind (groups6 (drop 2 s) [] (Some 0)) expand6)
      else Option.bind (groups6 s [] None) expand6)"

definition mapped :: "nat list \<Rightarrow> ip" where
  "mapped v = (case v of [a, b, c, d] \<Rightarrow> [0, 0, 0, 0, 0, 65535, 256 * a + b, 256 * c + d] | _ \<Rightarrow> [])"

text \<open>\<open>net.ParseIP\<close>: the first of \<open>.\<close>, \<open>:\<close> and \<open>%\<close> decides; an address with a zone is refused.\<close>

definition ParseIP :: "string \<Rightarrow> ip option" where
  "ParseIP s =
     (case List.find (\<lambda>c. c = CHR ''.'' \<or> c = CHR '':'' \<or> c = CHR ''%'') s of
        None \<Rightarrow> None
      | Some c \<Rightarrow>
          if c = CHR ''.'' then map_option mapped (parse_ipv4 s)
          else if c = CHR '':'' \<and> CHR ''%'' \<notin> set s then parse_ipv6 s
          else None)"

definition To4 :: "ip \<Rightarrow> (nat list) option" where
  "To4 g =
     (case g of [g0, g1, g2, g3, g4, g5, g6, g7] \<Rightarrow>
        if g0 = 0 \<and> g1 = 0 \<and> g2 = 0 \<and> g3 = 0 \<and> g4 = 0 \<and> g5 = 65535
        then Some [g6 div 256, g6 mod 256, g7 div 256, g7 mod 256] else None
      | _ \<Rightarrow> None)"

definition ipv4_text :: "nat list \<Rightarrow> string" where
  "ipv4_text v = Join (map nat_text v) ''.''"

fun hex_text :: "nat \<Rightarrow> string" where
  "hex_text n = (if n < 16 then [hex_digit n] else hex_text (n div 16) @ [hex_digit (n mod 16)])"

declare hex_text.simps [simp del]

definition zero_run :: "ip \<Rightarrow> nat \<Rightarrow> nat" where
  "zero_run g i = length (takeWhile (\<lambda>x. x = 0) (drop i g))"

text \<open>The first longest run of at least two zero groups is written \<open>::\<close>.\<close>

definition best_run :: "ip \<Rightarrow> (nat \<times> nat) option" where
  "best_run g = foldl (\<lambda>best i.
     let n = zero_run g i in
     case best of
       None \<Rightarrow> if 2 \<le> n then Some (i, n) else None
     | Some (_, m) \<Rightarrow> if m < n then Some (i, n) else best) None [0..<length g]"

definition ipv6_text :: "ip \<Rightarrow> string" where
  "ipv6_text g =
     (case best_run g of
        None \<Rightarrow> Join (map hex_text g) '':''
      | Some (i, n) \<Rightarrow>
          Join (map hex_text (take i g)) '':'' @ ''::'' @ Join (map hex_text (drop (i + n) g)) '':'')"

definition ip_text :: "ip \<Rightarrow> string" where
  "ip_text g = (case To4 g of Some v \<Rightarrow> ipv4_text v | None \<Rightarrow> ipv6_text g)"

lemma ParseIP_ipv4_only:
  assumes "CHR '':'' \<notin> set s" "ParseIP s = Some g"
  shows "parse_ipv4 s \<noteq> None"
proof -
  obtain c where c: "List.find (\<lambda>c. c = CHR ''.'' \<or> c = CHR '':'' \<or> c = CHR ''%'') s = Some c"
    using assms(2) by (cases "List.find (\<lambda>c. c = CHR ''.'' \<or> c = CHR '':'' \<or> c = CHR ''%'') s")
      (auto simp: ParseIP_def)
  then have "c \<in> set s"
    by (auto dest: find_Some_iff_mem)
  with assms(1) have "c \<noteq> CHR '':''" by auto
  with assms(2) c show ?thesis
    by (auto simp: ParseIP_def split: if_splits)
qed

section \<open>Bounds on addresses and their text\<close>

lemma all_some_Some: "all_some xs = Some ys \<Longrightarrow> length ys = length xs \<and> (\<forall>y \<in> set ys. Some y \<in> set xs)"
proof (induction xs arbitrary: ys)
  case (Cons a xs)
  then show ?case by (cases a) auto
qed simp

lemma octet_bound: "octet s = Some n \<Longrightarrow> n \<le> 255"
  by (auto simp: octet_def split: if_splits)

lemma parse_ipv4_bound:
  assumes "parse_ipv4 s = Some v"
  shows "length v = 4 \<and> (\<forall>n \<in> set v. n \<le> 255)"
proof -
  from assms have l: "length (Split s (CHR ''.'')) = 4" and a: "all_some (map octet (Split s (CHR ''.''))) = Some v"
    by (auto simp: parse_ipv4_def Let_def split: if_splits)
  from all_some_Some [OF a] l octet_bound show ?thesis
    by (metis imageE length_map list.set_map)
qed

definition group_ok :: "nat list \<Rightarrow> bool" where
  "group_ok g \<longleftrightarrow> length g \<le> 8 \<and> (\<forall>n \<in> set g. n < 65536)"

lemma hex_value_bound: "list_all is_hex s \<Longrightarrow> hex_value s < 16 ^ length s"
proof (induction s rule: rev_induct)
  case (snoc c s)
  have "hex_value (s @ [c]) = 16 * hex_value s +
      (if is_digit c then byte c - 48 else if bytes_between 97 102 c then byte c - 87 else byte c - 55)"
    by (simp add: hex_value_def)
  moreover have "(if is_digit c then byte c - 48 else if bytes_between 97 102 c then byte c - 87 else byte c - 55) < 16"
    using snoc.prems by (auto simp: is_hex_def is_digit_def bytes_between_def)
  ultimately show ?case
    using snoc by simp
qed (simp add: hex_value_def)

lemma hex_run_bound: "length (takeWhile is_hex s) \<le> 4 \<Longrightarrow> hex_value (takeWhile is_hex s) < 65536"
proof -
  assume l: "length (takeWhile is_hex s) \<le> 4"
  have "list_all is_hex (takeWhile is_hex s)"
    by (auto simp: list_all_iff dest: set_takeWhileD)
  then have "hex_value (takeWhile is_hex s) < 16 ^ length (takeWhile is_hex s)"
    by (rule hex_value_bound)
  also have "\<dots> \<le> 16 ^ 4"
    using l by (intro power_increasing) auto
  finally show ?thesis by simp
qed

lemma groups6_ok: "groups6 s g e = Some (g', e') \<Longrightarrow> group_ok g \<Longrightarrow> group_ok g'"
proof (induction s g e rule: groups6.induct)
  case (1 s g e)
  let ?h = "takeWhile is_hex s" and ?r = "dropWhile is_hex s"
  show ?case
  proof (cases "8 \<le> length g")
    case True
    with 1 show ?thesis by (simp add: groups6.simps [of s] split: if_splits)
  next
    case short: False
    with 1(3) have h: "?h \<noteq> []" "length ?h \<le> 4"
      by (auto simp: groups6.simps [of s] Let_def split: if_splits)
    have ok: "group_ok (g @ [hex_value ?h])"
      using 1(4) short hex_run_bound [OF h(2)] by (auto simp: group_ok_def)
    show ?thesis
    proof (cases "?r \<noteq> [] \<and> hd ?r = CHR ''.''")
      case True
      with 1(3) short h obtain a b c d where v: "parse_ipv4 s = Some [a, b, c, d]" "g' = g @ [256 * a + b, 256 * c + d]"
        "length g \<le> 6"
        by (auto simp: groups6.simps [of s] Let_def split: if_splits option.splits list.splits)
      from parse_ipv4_bound [OF v(1)] v(2,3) 1(4) show ?thesis
        by (auto simp: group_ok_def)
    next
      case False
      then have nodot: "\<not> (?r \<noteq> [] \<and> hd ?r = CHR ''.'')" by simp
      have hh: "\<not> (?h = [] \<or> 4 < length ?h)" using h by simp
      have eq: "groups6 s g e =
          (if ?r = [] then Some (g @ [hex_value ?h], e)
           else if hd ?r \<noteq> CHR '':'' \<or> length ?r = 1 then None
           else if hd (tl ?r) = CHR '':'' then
             (if e \<noteq> None then None
              else if tl (tl ?r) = [] then Some (g @ [hex_value ?h], Some (length (g @ [hex_value ?h])))
              else groups6 (tl (tl ?r)) (g @ [hex_value ?h]) (Some (length (g @ [hex_value ?h]))))
           else groups6 (tl ?r) (g @ [hex_value ?h]) e)"
        unfolding groups6.simps [of s g e] Let_def if_not_P [OF short] if_not_P [OF hh] if_not_P [OF nodot] ..
      note IH = 1(1,2) [OF short refl refl hh nodot refl]
      show ?thesis
        using 1(3) IH ok unfolding eq by (simp split: if_split_asm)
    qed
  qed
qed

lemma expand6_ok:
  assumes "expand6 (g, e) = Some a" "group_ok g"
  shows "length a = 8 \<and> (\<forall>n \<in> set a. n < 65536)"
proof (cases "length g < 8")
  case True
  with assms(1) obtain k where a: "a = take k g @ replicate (8 - length g) 0 @ drop k g"
    by (auto simp: expand6_def)
  then have "set a \<subseteq> insert 0 (set g)"
    using set_take_subset [of k g] set_drop_subset [of k g] by (auto simp: set_replicate_conv_if)
  moreover have "length a = 8"
    using True by (simp add: a)
  ultimately show ?thesis
    using assms(2) unfolding group_ok_def by (metis insert_iff subset_iff zero_less_numeral)
next
  case False
  with assms show ?thesis
    by (auto simp: expand6_def group_ok_def split: if_splits)
qed

lemma parse_ipv6_ok: "parse_ipv6 s = Some a \<Longrightarrow> length a = 8 \<and> (\<forall>n \<in> set a. n < 65536)"
  using groups6_ok [of "drop 2 s" "[]" "Some 0"] groups6_ok [of s "[]" None]
  by (fastforce simp: parse_ipv6_def group_ok_def bind_eq_Some_conv split: if_splits dest!: expand6_ok)

lemma mapped_ok:
  assumes "parse_ipv4 s = Some v"
  shows "length (mapped v) = 8 \<and> (\<forall>n \<in> set (mapped v). n < 65536)"
proof -
  from parse_ipv4_bound [OF assms] obtain a b c d where "v = [a, b, c, d]" "a \<le> 255" "b \<le> 255" "c \<le> 255" "d \<le> 255"
    by (auto simp: length_Suc_conv numeral_eq_Suc)
  then show ?thesis
    by (simp add: mapped_def)
qed

lemma ParseIP_ok: "ParseIP s = Some a \<Longrightarrow> length a = 8 \<and> (\<forall>n \<in> set a. n < 65536)"
  by (auto simp: ParseIP_def split: option.splits if_splits dest: parse_ipv6_ok mapped_ok)

definition ip_char :: "char \<Rightarrow> bool" where
  "ip_char c \<longleftrightarrow> is_digit c \<or> bytes_between 97 102 c \<or> c = CHR ''.'' \<or> c = CHR '':''"

lemma nat_text_octet: "n < 256 \<Longrightarrow> nat_text n \<noteq> [] \<and> length (nat_text n) \<le> 3"
  by (simp add: nat_text.simps)

lemma To4_octets: "length a = 8 \<Longrightarrow> \<forall>n \<in> set a. n < 65536 \<Longrightarrow> To4 a = Some v \<Longrightarrow> length v = 4 \<and> (\<forall>n \<in> set v. n < 256)"
  by (auto simp: To4_def split: list.splits if_splits)

lemma hex_text_ok:
  "n < 65536 \<Longrightarrow> hex_text n \<noteq> [] \<and> length (hex_text n) \<le> 4"
  by (simp add: hex_text.simps)

lemma hex_digit_char: "n < 16 \<Longrightarrow> is_digit (hex_digit n) \<or> bytes_between 97 102 (hex_digit n)"
  by (auto simp: hex_digit_def is_digit_def bytes_between_def)

lemma hex_text_chars: "c \<in> set (hex_text n) \<Longrightarrow> is_digit c \<or> bytes_between 97 102 c"
proof (induction n rule: hex_text.induct)
  case (1 n)
  then show ?case
    using hex_digit_char [of n] hex_digit_char [of "n mod 16"] by (subst (asm) hex_text.simps) (auto split: if_splits)
qed

lemma ip_char_Join: "\<forall>w \<in> set ws. \<forall>c \<in> set w. ip_char c \<Longrightarrow> \<forall>c \<in> set sep. ip_char c \<Longrightarrow> c \<in> set (Join ws sep) \<Longrightarrow> ip_char c"
  using set_Join [of c ws sep] by auto

lemma ipv4_text_ok:
  assumes "length v = 4" "\<forall>n \<in> set v. n < 256"
  shows "ipv4_text v \<noteq> [] \<and> length (ipv4_text v) \<le> 16 \<and> (\<forall>c \<in> set (ipv4_text v). ip_char c)"
proof (intro conjI ballI)
  show "ipv4_text v \<noteq> []"
    using assms nat_text_octet unfolding ipv4_text_def by (intro Join_neq_Nil) auto
  show "length (ipv4_text v) \<le> 16"
    using assms nat_text_octet length_Join [of "map nat_text v" 3 "''.''"] by (auto simp: ipv4_text_def)
  show "ip_char c" if "c \<in> set (ipv4_text v)" for c
    using that nat_text_digits unfolding ipv4_text_def
    by (rule_tac ip_char_Join [OF _ _ that [unfolded ipv4_text_def]]) (auto simp: ip_char_def)
qed

lemma ipv6_text_ok:
  assumes "length a = 8" "\<forall>n \<in> set a. n < 65536"
  shows "length (ipv6_text a) \<le> 100 \<and> (\<forall>c \<in> set (ipv6_text a). ip_char c) \<and> ipv6_text a \<noteq> []"
proof -
  have part: "length (Join (map hex_text b) '':'') \<le> 40 \<and> (\<forall>c \<in> set (Join (map hex_text b) '':''). ip_char c)"
    if "length b \<le> 8" "set b \<subseteq> set a" for b
  proof
    have "\<forall>w \<in> set (map hex_text b). length w \<le> 4"
      using that(2) assms(2) hex_text_ok by auto
    from length_Join [OF this, of "'':''"] that(1) show "length (Join (map hex_text b) '':'') \<le> 40"
      by simp
    have "\<forall>w \<in> set (map hex_text b). \<forall>c \<in> set w. ip_char c"
      using hex_text_chars by (auto simp: ip_char_def)
    then show "\<forall>c \<in> set (Join (map hex_text b) '':''). ip_char c"
      using ip_char_Join [of "map hex_text b" "'':''"] by (auto simp: ip_char_def)
  qed
  show ?thesis
  proof (cases "best_run a")
    case None
    have "Join (map hex_text a) '':'' \<noteq> []"
      using assms hex_text_ok by (intro Join_neq_Nil) auto
    with part [of a] None assms(1) show ?thesis
      by (simp add: ipv6_text_def)
  next
    case (Some p)
    obtain i n where p: "p = (i, n)" by (cases p)
    have "length (Join (map hex_text (take i a)) '':'') \<le> 40 \<and> (\<forall>c \<in> set (Join (map hex_text (take i a)) '':''). ip_char c)"
      using assms(1) by (intro part) (auto dest: in_set_takeD)
    moreover have "length (Join (map hex_text (drop (i + n) a)) '':'') \<le> 40 \<and>
        (\<forall>c \<in> set (Join (map hex_text (drop (i + n) a)) '':''). ip_char c)"
      using assms(1) by (intro part) (auto dest: in_set_dropD)
    ultimately show ?thesis
      using Some p by (auto simp: ipv6_text_def ip_char_def)
  qed
qed

end
