(* ===== verification/Validate.thy ===== *)
theory Validate
  imports Schema Netip
begin

text \<open>
  Package \<open>internal/validate\<close>: the normalising checks every service runs on its input, and
  \<open>internal/idgen\<close>.  Code that is not in the repository is a field of \<open>ext\<close>: the Unicode
  case and printability tables beyond ASCII, \<open>idna.Lookup.ToASCII\<close>, \<open>mail.ParseAddress\<close>, the robfig cron
  parser, the time zone database, SHA-256 and Argon2.  The lemmas give the shape of every
  accepted value: identifiers, host names, database names, cron commands.
\<close>

record ext =
  ext_lower :: "string \<Rightarrow> string"
  ext_upper :: "string \<Rightarrow> string"
  ext_print :: "nat \<Rightarrow> bool"
  ext_idna :: "string \<Rightarrow> string option"
  ext_mail :: "string \<Rightarrow> string option"
  ext_cron :: "string \<Rightarrow> bool"
  ext_cron_next :: "string \<Rightarrow> msec \<Rightarrow> msec option"
  ext_zone :: "string \<Rightarrow> bool"
  ext_sha256 :: "string \<Rightarrow> string"
  ext_argon2 :: "string \<Rightarrow> string \<Rightarrow> nat \<Rightarrow> nat \<Rightarrow> nat \<Rightarrow> nat \<Rightarrow> string"

section \<open>Identifiers\<close>

text \<open>\<open>idgen.ID\<close>: 16 random bytes in hexadecimal; the bytes are the argument.\<close>

definition idgen_ID :: "8 word list \<Rightarrow> ident" where
  "idgen_ID bs = hex_encode bs"

definition idPattern :: "string \<Rightarrow> bool" where
  "idPattern s \<longleftrightarrow> length s = 32 \<and> list_all is_hex_lower s"

definition systemUserPattern :: "string \<Rightarrow> bool" where
  "systemUserPattern s \<longleftrightarrow>
     take 4 s = ''wcp_'' \<and> length s = 16 \<and> list_all is_hex_lower (drop 4 s)"

definition validate_ID :: "string \<Rightarrow> string \<Rightarrow> err + unit" where
  "validate_ID field v = fail_when (\<not> idPattern v) (ValidationErr field ''Invalid resource ID'')"

definition validate_SystemUser :: "string \<Rightarrow> err + unit" where
  "validate_SystemUser v =
     fail_when (\<not> systemUserPattern v) (ValidationErr ''systemUser'' ''Invalid WEBYCP system user'')"

section \<open>Names\<close>

definition usernamePattern :: "string \<Rightarrow> bool" where
  "usernamePattern s \<longleftrightarrow>
     (case s of [] \<Rightarrow> False
      | c # r \<Rightarrow> (is_lower c \<or> is_digit c) \<and> 2 \<le> length r \<and> length r \<le> 31 \<and>
          list_all (\<lambda>x. is_lower x \<or> is_digit x \<or> x \<in> {CHR ''.'', CHR ''_'', CHR ''-''}) r)"

definition databaseNamePattern :: "string \<Rightarrow> bool" where
  "databaseNamePattern s \<longleftrightarrow>
     (case s of [] \<Rightarrow> False
      | c # r \<Rightarrow> is_lower c \<and> length r \<le> 31 \<and>
          list_all (\<lambda>x. is_lower x \<or> is_digit x \<or> x = CHR ''_'') r)"

definition databaseSystemNamePattern :: "string \<Rightarrow> bool" where
  "databaseSystemNamePattern s \<longleftrightarrow>
     take 4 s = ''wcp_'' \<and> length (take 8 (drop 4 s)) = 8 \<and>
     list_all is_hex_lower (take 8 (drop 4 s)) \<and>
     take 1 (drop 12 s) = ''_'' \<and> databaseNamePattern (drop 13 s)"

definition validate_Email :: "ext \<Rightarrow> string \<Rightarrow> err + string" where
  "validate_Email x v =
     (let normalized = ToLower (ext_lower x) (TrimSpace v) in
      if ext_mail x normalized \<noteq> Some normalized \<or> 254 < length normalized
      then Inl (ValidationErr ''email'' ''Enter a valid email address'')
      else Inr normalized)"

definition validate_Name :: "string \<Rightarrow> err + string" where
  "validate_Name v =
     (let normalized = TrimSpace v; n = RuneCountInString normalized in
      if n < 2 \<or> 80 < n then Inl (ValidationErr ''name'' ''Use between 2 and 80 characters'')
      else Inr normalized)"

definition validate_Username :: "ext \<Rightarrow> string \<Rightarrow> err + string" where
  "validate_Username x v =
     (let normalized = ToLower (ext_lower x) (TrimSpace v) in
      if usernamePattern normalized then Inr normalized
      else Inl (ValidationErr ''username''
        ''Use 3 to 32 lowercase letters, numbers, dots, underscores or hyphens''))"

definition validate_Password :: "string \<Rightarrow> err + unit" where
  "validate_Password v =
     (let n = RuneCountInString v in
      fail_when (n < 12 \<or> 128 < n) (ValidationErr ''password'' ''Use between 12 and 128 characters''))"

definition validate_Timezone :: "ext \<Rightarrow> string \<Rightarrow> err + string" where
  "validate_Timezone x v =
     (let normalized = TrimSpace v in
      if normalized = [] \<or> 64 < length normalized \<or> \<not> ext_zone x normalized
      then Inl (ValidationErr ''timezone'' ''Choose a valid timezone'')
      else Inr normalized)"

definition validate_AccountName :: "string \<Rightarrow> err + string" where
  "validate_AccountName v =
     (let normalized = TrimSpace v; n = RuneCountInString normalized in
      if n < 2 \<or> 80 < n then Inl (ValidationErr ''name'' ''Use between 2 and 80 characters'')
      else if list_ex IsControl (runes normalized)
      then Inl (ValidationErr ''name'' ''Control characters are not allowed'')
      else Inr normalized)"

definition validate_ResourceName :: "string \<Rightarrow> err + string" where
  "validate_ResourceName v =
     (let normalized = TrimSpace v; n = RuneCountInString normalized in
      if n < 1 \<or> 80 < n then Inl (ValidationErr ''name'' ''Use between 1 and 80 characters'')
      else if list_ex IsControl (runes normalized)
      then Inl (ValidationErr ''name'' ''Control characters are not allowed'')
      else Inr normalized)"

definition validate_DatabaseName :: "ext \<Rightarrow> string \<Rightarrow> err + string" where
  "validate_DatabaseName x v =
     (let normalized = ToLower (ext_lower x) (TrimSpace v) in
      if databaseNamePattern normalized then Inr normalized
      else Inl (ValidationErr ''name''
        ''Use 1-32 lowercase letters, digits, or underscores, starting with a letter''))"

definition validate_DatabaseSystemName :: "string \<Rightarrow> err + unit" where
  "validate_DatabaseSystemName v =
     fail_when (\<not> databaseSystemNamePattern v \<or> 64 < length v)
       (ValidationErr ''name'' ''Invalid WEBYCP database name'')"

section \<open>Cron entries\<close>

definition cron_command_bad :: "char list" where
  "cron_command_bad = [char_of (0::nat), char_of (13::nat), char_of (10::nat), CHR ''%'']"

definition validate_CronCommand :: "string \<Rightarrow> err + string" where
  "validate_CronCommand v =
     (let command = TrimSpace v in
      if command = [] \<or> 1000 < length command \<or> ContainsAny command cron_command_bad
      then Inl (ValidationErr ''command'' ''Use a single command of at most 1000 bytes'')
      else Inr command)"

definition validate_CronSchedule :: "ext \<Rightarrow> string \<Rightarrow> bool \<Rightarrow> err + string" where
  "validate_CronSchedule x v allow_empty =
     (let schedule = Join (Fields v) '' '' in
      if schedule = [] \<and> allow_empty then Inr []
      else if \<not> ext_cron x schedule
      then Inl (ValidationErr ''schedule'' ''Enter a valid five-field cron schedule'')
      else Inr schedule)"

section \<open>Host names\<close>

definition domain_err :: err where
  "domain_err = ValidationErr ''name'' ''Enter a valid domain name''"

definition domain_rune :: "nat \<Rightarrow> bool" where
  "domain_rune r \<longleftrightarrow> r = 45 \<or> 97 \<le> r \<and> r \<le> 122 \<or> 48 \<le> r \<and> r \<le> 57"

definition domain_label :: "string \<Rightarrow> bool" where
  "domain_label l \<longleftrightarrow>
     l \<noteq> [] \<and> length l \<le> 63 \<and> hd l \<noteq> CHR ''-'' \<and> last l \<noteq> CHR ''-'' \<and>
     list_all domain_rune (runes l)"

definition validate_Domain :: "ext \<Rightarrow> string \<Rightarrow> err + string" where
  "validate_Domain x v =
     (let normalized = TrimSuffix (ToLower (ext_lower x) (TrimSpace v)) ''.'' in
      case ext_idna x normalized of
        None \<Rightarrow> Inl domain_err
      | Some ascii \<Rightarrow>
          if 253 < length ascii \<or> ParseIP ascii \<noteq> None then Inl domain_err
          else
            let labels = Split ascii (CHR ''.'') in
            if length labels < 2 then Inl domain_err
            else if list_all domain_label labels then Inr ascii
            else Inl domain_err)"

definition MaxDomainAliases :: nat where
  "MaxDomainAliases = 100"

text \<open>The loop of \<open>DomainAliases\<close> over the aliases, with the set of names already seen.\<close>

fun alias_loop :: "ext \<Rightarrow> string list \<Rightarrow> string list \<Rightarrow> string list \<Rightarrow> err + string list" where
  "alias_loop x seen [] res = Inr res"
| "alias_loop x seen (a # as) res =
     (if validate_Domain x a \<noteq> Inr a
      then Inl (ValidationErr ''aliases'' ''Domain alias is not normalized'')
      else if a \<in> set seen
      then Inl (ValidationErr ''aliases'' ''Domain aliases must be unique'')
      else alias_loop x (a # seen) as (res @ [a]))"

definition validate_DomainAliases :: "ext \<Rightarrow> string \<Rightarrow> string list \<Rightarrow> err + string list" where
  "validate_DomainAliases x primary aliases =
     andthen (fail_when (validate_Domain x primary \<noteq> Inr primary)
       (ValidationErr ''name'' ''Domain name is not normalized'')) (\<lambda>_.
     andthen (fail_when (MaxDomainAliases < length aliases)
       (ValidationErr ''aliases'' ''Too many domain aliases'')) (\<lambda>_.
     andthen (alias_loop x [primary] aliases []) (\<lambda>res. Inr (sort res))))"

section \<open>Runes of ASCII strings\<close>

lemma byte_less [simp]: "byte c < 256"
  by (simp add: byte_def)

lemma rune_parts_ascii_Cons:
  "byte c < 128 \<Longrightarrow> rune_parts (c # s) = (byte c, [c]) # rune_parts s"
  by (subst rune_parts.simps) (simp add: Let_def)

lemma rune_parts_ascii: "list_all is_ascii s \<Longrightarrow> rune_parts s = map (\<lambda>c. (byte c, [c])) s"
proof (induction s)
  case Nil
  show ?case by (subst rune_parts.simps) simp
next
  case (Cons c s)
  then show ?case by (simp add: rune_parts_ascii_Cons is_ascii_def)
qed

lemma runes_ascii: "list_all is_ascii s \<Longrightarrow> runes s = map byte s"
  by (simp add: runes_def rune_parts_ascii comp_def)

text \<open>Graphic ASCII text is its own trimming, and its runes are its bytes.\<close>

definition graphic :: "string \<Rightarrow> bool" where
  "graphic s \<longleftrightarrow> list_all (bytes_between 33 126) s"

lemma graphic_ascii: "graphic s \<Longrightarrow> list_all is_ascii s"
  by (auto simp: graphic_def list_all_iff bytes_between_def is_ascii_def)

lemma TrimSpace_graphic: "graphic s \<Longrightarrow> TrimSpace s = s"
proof -
  assume g: "graphic s"
  have p: "rune_parts s = map (\<lambda>c. (byte c, [c])) s"
    by (rule rune_parts_ascii) (rule graphic_ascii [OF g])
  have n: "\<not> IsSpace (byte c)" if "c \<in> set s" for c
    using g that by (fastforce simp: graphic_def list_all_iff bytes_between_def IsSpace_def)
  have "dropWhile (\<lambda>p. IsSpace (fst p)) (rune_parts s) = rune_parts s"
    "dropWhile (\<lambda>p. IsSpace (fst p)) (rev (rune_parts s)) = rev (rune_parts s)"
    using n by (auto simp: p dropWhile_eq_self_iff hd_map hd_rev last_map)
  then show ?thesis
    by (simp add: TrimSpace_def p comp_def)
qed

lemma RuneCountInString_ascii: "list_all is_ascii s \<Longrightarrow> RuneCountInString s = length s"
  by (simp add: RuneCountInString_def rune_parts_ascii)

lemmas ascii_eval = TrimSpace_graphic RuneCountInString_ascii graphic_def is_ascii_def ToLower_def
  lower_char_def bytes_between_def byte_def is_lower_def is_digit_def

lemma decode_rune_ge128:
  assumes "128 \<le> byte c"
  shows "128 \<le> fst (decode_rune (c # s))"
proof -
  consider "194 \<le> byte c" "byte c \<le> 223" | "224 \<le> byte c" "byte c \<le> 239"
    | "240 \<le> byte c" "byte c \<le> 244" | "byte c < 194" | "244 < byte c"
    by linarith
  then show ?thesis
  proof cases
    case 1
    then show ?thesis
      by (auto simp: rune_error_def cont_def bytes_between_def split: list.split)
  next
    case 2
    then show ?thesis
      by (cases "byte c = 224")
        (auto simp: Let_def rune_error_def cont_def bytes_between_def split: list.split)
  next
    case 3
    then show ?thesis
      by (cases "byte c = 240")
        (auto simp: Let_def rune_error_def cont_def bytes_between_def split: list.split)
  qed (use assms in \<open>simp_all add: Let_def rune_error_def\<close>)
qed

lemma runes_small_ascii: "list_all (\<lambda>r. r < 128) (runes s) \<Longrightarrow> list_all is_ascii s"
proof (induction s rule: length_induct)
  case (1 s)
  show ?case
  proof (cases s)
    case (Cons c t)
    have "byte c < 128"
    proof (rule ccontr)
      assume "\<not> byte c < 128"
      then have "128 \<le> fst (decode_rune (c # t))"
        using decode_rune_ge128 by auto
      moreover have "runes s = fst (decode_rune (c # t)) # runes (drop (snd (decode_rune (c # t))) s)"
        unfolding Cons runes_def by (subst rune_parts.simps) (simp add: case_prod_beta)
      ultimately show False
        using "1.prems" by simp
    qed
    moreover from this have "list_all (\<lambda>r. r < 128) (runes t)"
      using "1.prems" by (simp add: Cons runes_def rune_parts_ascii_Cons)
    ultimately show ?thesis
      using "1.IH" Cons by (simp add: is_ascii_def)
  qed simp
qed

definition domain_char :: "char \<Rightarrow> bool" where
  "domain_char c \<longleftrightarrow> is_lower c \<or> is_digit c \<or> c = CHR ''-''"

lemma byte_inj: "byte c = byte d \<longleftrightarrow> c = d"
  by (simp add: byte_def of_char_eq_iff)

lemma byte_hyphen: "byte CHR ''-'' = 45"
  by (simp add: byte_def)

lemma domain_rune_byte: "domain_rune (byte c) \<longleftrightarrow> domain_char c"
  using byte_inj [of c "CHR ''-''"]
  by (auto simp: domain_rune_def domain_char_def is_lower_def is_digit_def bytes_between_def byte_hyphen)

lemma runes_list_all_iff:
  assumes "\<And>r. P r \<Longrightarrow> r < 128"
  shows "list_all P (runes l) \<longleftrightarrow> list_all (\<lambda>c. P (byte c)) l"
proof
  assume r: "list_all P (runes l)"
  then have "list_all (\<lambda>r. r < 128) (runes l)"
    using assms by (auto simp: list_all_iff)
  then have "list_all is_ascii l"
    by (rule runes_small_ascii)
  with r show "list_all (\<lambda>c. P (byte c)) l"
    by (simp add: runes_ascii list_all_iff)
next
  assume c: "list_all (\<lambda>c. P (byte c)) l"
  then have "list_all is_ascii l"
    using assms by (auto simp: list_all_iff is_ascii_def)
  with c show "list_all P (runes l)"
    by (simp add: runes_ascii list_all_iff)
qed

lemma domain_runes_iff: "list_all domain_rune (runes l) \<longleftrightarrow> list_all domain_char l"
proof -
  have "domain_rune r \<Longrightarrow> r < 128" for r
    by (auto simp: domain_rune_def)
  then show ?thesis
    using runes_list_all_iff [of domain_rune l] by (simp add: domain_rune_byte)
qed

text \<open>\<open>ToASCII\<close> maps its own results to themselves.\<close>

definition idna_stable :: "ext \<Rightarrow> bool" where
  "idna_stable x \<longleftrightarrow> (\<forall>v a. ext_idna x v = Some a \<longrightarrow> ext_idna x a = Some a)"

lemma validate_Domain_Inr:
  assumes "validate_Domain x v = Inr a"
  shows "length a \<le> 253" "ParseIP a = None" "2 \<le> length (Split a (CHR ''.''))" "list_all domain_label (Split a (CHR ''.''))"
    "\<exists>n. ext_idna x n = Some a"
  using assms by (auto simp: validate_Domain_def Let_def split: option.splits if_splits)

lemma validate_Domain_chars:
  assumes "validate_Domain x v = Inr a" "c \<in> set a"
  shows "domain_char c \<or> c = CHR ''.''"
  using assms(2) Split_chars [of a "CHR ''.''"] validate_Domain_Inr(4) [OF assms(1)]
  by (auto simp: list_all_iff domain_label_def domain_runes_iff [unfolded list_all_iff])

lemma domain_char_graphic: "domain_char c \<or> c = CHR ''.'' \<Longrightarrow> 33 \<le> byte c \<and> byte c < 127 \<and> lower_char c = c"
  by (auto simp: domain_char_def is_lower_def is_digit_def bytes_between_def byte_def lower_char_def)

lemma graphic_chars:
  assumes "\<And>c. c \<in> set s \<Longrightarrow> 33 \<le> byte c \<and> byte c < 127 \<and> lower_char c = c"
  shows "TrimSpace s = s \<and> ToLower u s = s \<and> list_all is_ascii s"
proof -
  have "graphic s" "list_all is_ascii s"
    using assms by (fastforce simp: graphic_def list_all_iff is_ascii_def bytes_between_def)+
  moreover have "map lower_char s = s"
    using assms by (simp add: map_idI)
  ultimately show ?thesis
    by (simp add: TrimSpace_graphic ToLower_def)
qed

lemma TrimSuffix_labels:
  assumes "[] \<notin> set (Split v c)"
  shows "TrimSuffix v [c] = v"
proof (cases v rule: rev_cases)
  case (snoc w d)
  with assms have "d \<noteq> c"
    by (auto simp: Split_snoc)
  then show ?thesis
    by (simp add: snoc TrimSuffix_def HasSuffix_def)
qed (simp add: TrimSuffix_def HasSuffix_def)

lemma validate_Domain_idem:
  assumes "validate_Domain x v = Inr a" "idna_stable x"
  shows "validate_Domain x a = Inr a"
proof -
  note a = validate_Domain_Inr [OF assms(1)]
  have g: "TrimSpace a = a" "ToLower (ext_lower x) a = a"
    using graphic_chars [of a "ext_lower x"] domain_char_graphic validate_Domain_chars [OF assms(1)] by blast+
  have "[] \<notin> set (Split a (CHR ''.''))"
    using a(4) by (auto simp: list_all_iff domain_label_def)
  then have "TrimSuffix a ''.'' = a"
    by (rule TrimSuffix_labels)
  moreover have "ext_idna x a = Some a"
    using a(5) assms(2) by (auto simp: idna_stable_def)
  ultimately show ?thesis
    using a g by (simp add: validate_Domain_def Let_def)
qed

section \<open>Accepted values\<close>

lemma hex_digit_lower: "n < 16 \<Longrightarrow> is_hex_lower (hex_digit n)"
  by (auto simp: hex_digit_def is_hex_lower_def is_digit_def bytes_between_def byte_def)

lemma hex_encode_shape:
  "length (hex_encode bs) = 2 * length bs \<and> list_all is_hex_lower (hex_encode bs)"
proof (induction bs)
  case (Cons b bs)
  have "unat b < 256"
    using unsigned_less [of b] by simp
  then have "unat b div 16 < 16" by simp
  with Cons show ?case
    by (simp add: hex_encode_def hex_digit_lower)
qed (simp add: hex_encode_def)

lemma idgen_ID_valid: "length bs = 16 \<Longrightarrow> idPattern (idgen_ID bs)"
  using hex_encode_shape [of bs] by (simp add: idgen_ID_def idPattern_def)

lemma systemUser_of_id: "idPattern i \<Longrightarrow> systemUserPattern (''wcp_'' @ take 12 i)"
  by (auto simp: systemUserPattern_def idPattern_def list_all_iff dest: in_set_takeD)

lemma databaseNamePattern_length: "databaseNamePattern n \<Longrightarrow> length n \<le> 32"
  by (cases n) (auto simp: databaseNamePattern_def)

lemma systemName_of_id:
  assumes "idPattern i" "databaseNamePattern n"
  shows "validate_DatabaseSystemName (''wcp_'' @ take 8 i @ ''_'' @ n) = Inr ()"
proof -
  have i: "length (take 8 i) = 8" "list_all is_hex_lower (take 8 i)"
    using assms(1) by (auto simp: idPattern_def list_all_iff dest: in_set_takeD)
  define h where "h = take 8 i"
  have "take 8 (h @ ''_'' @ n) = h" "drop 8 (h @ ''_'' @ n) = ''_'' @ n"
    using i by (simp_all add: h_def)
  with i assms(2) databaseNamePattern_length [OF assms(2)] show ?thesis
    unfolding h_def [symmetric]
    by (simp add: validate_DatabaseSystemName_def databaseSystemNamePattern_def)
qed

lemma validate_DatabaseName_shape:
  "validate_DatabaseName x v = Inr n \<Longrightarrow> databaseNamePattern n"
  by (auto simp: validate_DatabaseName_def Let_def split: if_splits)

lemma validate_Username_shape:
  "validate_Username x v = Inr n \<Longrightarrow> usernamePattern n"
  by (auto simp: validate_Username_def Let_def split: if_splits)

text \<open>A character that may stand between backticks or quotes of a SQL statement.\<close>

definition sql_safe :: "char \<Rightarrow> bool" where
  "sql_safe c \<longleftrightarrow> is_lower c \<or> is_digit c \<or> c = CHR ''_''"

lemma databaseNamePattern_safe: "databaseNamePattern n \<Longrightarrow> list_all sql_safe n"
  by (cases n) (auto simp: databaseNamePattern_def sql_safe_def list_all_iff)

lemma hex_lower_safe: "is_hex_lower c \<Longrightarrow> sql_safe c"
  by (auto simp: is_hex_lower_def sql_safe_def is_lower_def bytes_between_def)

lemma list_all_take_drop: "list_all P (take n s) \<Longrightarrow> list_all P (drop n s) \<Longrightarrow> list_all P s"
  by (metis append_take_drop_id list_all_append)

lemma databaseSystemNamePattern_safe:
  assumes "databaseSystemNamePattern s"
  shows "list_all sql_safe s"
proof -
  have u: "list_all sql_safe ''wcp_''" "list_all sql_safe ''_''"
    by (simp_all add: sql_safe_def is_lower_def bytes_between_def byte_def)
  have 1: "list_all sql_safe (take 4 s)"
    using assms u(1) by (simp add: databaseSystemNamePattern_def)
  have 2: "list_all sql_safe (take 8 (drop 4 s))"
    using assms by (auto simp: databaseSystemNamePattern_def list_all_iff hex_lower_safe)
  have 3: "list_all sql_safe (take 1 (drop 12 s))"
    using assms u(2) by (simp add: databaseSystemNamePattern_def)
  have "list_all sql_safe (drop 1 (drop 12 s))"
    using assms by (simp add: databaseSystemNamePattern_def databaseNamePattern_safe)
  with 3 have "list_all sql_safe (drop 12 s)"
    by (rule list_all_take_drop)
  then have "list_all sql_safe (drop 8 (drop 4 s))"
    by simp
  with 2 have "list_all sql_safe (drop 4 s)"
    by (rule list_all_take_drop)
  with 1 show ?thesis
    by (rule list_all_take_drop)
qed

text \<open>A stand-in for the code outside the repository, for concrete examples: identity case tables and
  addresses, and a key that pads the password to the key length.\<close>

definition plain_ext :: ext where
  "plain_ext = \<lparr>ext_lower = id, ext_upper = id, ext_print = (\<lambda>_. False), ext_idna = Some, ext_mail = Some,
     ext_cron = (\<lambda>s. length (Fields s) = 5), ext_cron_next = (\<lambda>_ n. Some (n + 60000)),
     ext_zone = (\<lambda>_. True), ext_sha256 = id,
     ext_argon2 = (\<lambda>pw s t m p n. take n (pw @ replicate n CHR ''0''))\<rparr>"

end
