(* ===== verification/Runes.thy ===== *)
theory Runes
  imports Validate
begin

text \<open>
  Normal forms of the text functions: \<open>strings.TrimSpace\<close> and the join of \<open>strings.Fields\<close> give
  strings they leave alone.  The point is that a UTF-8 decoder cut at a rune boundary, or read up
  to an ASCII byte, decodes the same runes; invalid bytes included.
\<close>

lemma decode_rune_take:
  assumes "snd (decode_rune s) \<le> n" "0 < n"
  shows "decode_rune (take n s) = decode_rune s"
proof (cases s)
  case (Cons a t)
  obtain m where n: "n = Suc m"
    using assms(2) by (cases n) auto
  consider "byte a < 194" | "194 \<le> byte a" "byte a \<le> 223" | "224 \<le> byte a" "byte a \<le> 239"
    | "240 \<le> byte a" "byte a \<le> 244" | "244 < byte a"
    by linarith
  then show ?thesis
  proof cases
    case 2
    then show ?thesis
      using assms(1) by (cases t; cases m) (auto simp: Cons n)
  next
    case 3
    then show ?thesis
      using assms(1)
      by (cases t; cases m; cases "tl t"; cases "m - 1")
        (auto simp: Cons n Let_def split: list.splits if_splits)
  next
    case 4
    then show ?thesis
      using assms(1)
      by (cases t; cases m; cases "tl t"; cases "m - 1"; cases "tl (tl t)"; cases "m - 2")
        (auto simp: Cons n Let_def split: list.splits if_splits)
  qed (use assms(1) in \<open>auto simp: Cons n Let_def\<close>)
qed simp

lemma ascii_no_cont:
  assumes "byte c < 128"
  shows "\<not> cont c" "128 \<le> l \<Longrightarrow> \<not> bytes_between l h c"
  using assms by (auto simp: cont_def bytes_between_def)

lemma decode_rune_ascii_tail:
  assumes "s \<noteq> []" "byte c < 128"
  shows "decode_rune (s @ c # t) = decode_rune s"
proof -
  obtain a u where s: "s = a # u"
    using assms(1) by (cases s) auto
  consider "u = []" | b where "u = [b]" | b d where "u = [b, d]" | b d e r where "u = b # d # e # r"
    by (cases u rule: remdups_adj.cases) (metis list.exhaust)+
  then show ?thesis
    using ascii_no_cont [OF assms(2)]
    by cases (auto simp: s Let_def split: list.splits)
qed

section \<open>Segments\<close>

text \<open>A list of parts that decoding the bytes it holds gives back.\<close>

definition part_bytes :: "(nat \<times> string) list \<Rightarrow> string" where
  "part_bytes ps = concat (map snd ps)"

definition segment :: "(nat \<times> string) list \<Rightarrow> bool" where
  "segment ps \<longleftrightarrow> rune_parts (part_bytes ps) = ps"

lemma part_bytes_simps [simp]:
  "part_bytes [] = []" "part_bytes (p # ps) = snd p @ part_bytes ps"
  "part_bytes (ps @ qs) = part_bytes ps @ part_bytes qs"
  by (simp_all add: part_bytes_def)

lemma rune_parts_Nil [simp]: "rune_parts [] = []"
  by (subst rune_parts.simps) simp

lemma rune_parts_step:
  "s \<noteq> [] \<Longrightarrow> rune_parts s = (fst (decode_rune s), take (snd (decode_rune s)) s) #
    rune_parts (drop (snd (decode_rune s)) s)"
  by (subst rune_parts.simps) (simp add: case_prod_beta)

lemma part_bytes_rune_parts [simp]: "part_bytes (rune_parts s) = s"
proof (induction s rule: length_induct)
  case (1 s)
  show ?case
  proof (cases "s = []")
    case False
    then have "length (drop (snd (decode_rune s)) s) < length s"
      using decode_rune_width [of s] by simp
    with 1 False show ?thesis by (simp add: rune_parts_step)
  qed simp
qed

lemma segment_rune_parts [simp]: "segment (rune_parts s)"
  by (simp add: segment_def)

lemma segment_Nil [simp]: "segment []"
  by (simp add: segment_def)

lemma rune_parts_nonempty: "p \<in> set (rune_parts s) \<Longrightarrow> snd p \<noteq> []"
proof (induction s rule: length_induct)
  case (1 s)
  show ?case
  proof (cases "s = []")
    case False
    then have w: "0 < snd (decode_rune s)" "snd (decode_rune s) \<le> length s"
      using decode_rune_width [of s] by auto
    then have "length (drop (snd (decode_rune s)) s) < length s"
      by simp
    with 1 False w show ?thesis by (auto simp: rune_parts_step)
  qed (use 1 in simp)
qed

lemma segment_Cons:
  assumes "segment (p # ps)"
  shows "segment ps" "snd p \<noteq> []" "decode_rune (snd p @ part_bytes ps) = (fst p, length (snd p))"
proof -
  let ?s = "snd p @ part_bytes ps"
  have r: "rune_parts ?s = p # ps"
    using assms by (simp add: segment_def)
  then have ne: "?s \<noteq> []"
    by auto
  from r show "snd p \<noteq> []"
    using rune_parts_nonempty [of p ?s] by simp
  have p: "p = (fst (decode_rune ?s), take (snd (decode_rune ?s)) ?s)"
    and ps: "ps = rune_parts (drop (snd (decode_rune ?s)) ?s)"
    using r rune_parts_step [OF ne] by simp_all
  have "snd (decode_rune ?s) \<le> length ?s"
    using decode_rune_width [OF ne] by simp
  then have "length (snd p) = snd (decode_rune ?s)"
    by (subst p) simp
  then show "decode_rune (snd p @ part_bytes ps) = (fst p, length (snd p))"
    by (metis p fst_conv prod.collapse)
  show "segment ps"
    by (subst ps, subst (2) ps) (simp add: segment_def)
qed

lemma segment_append:
  assumes "segment (ps @ qs)"
  shows "segment ps" "segment qs"
proof -
  show "segment ps"
    using assms
  proof (induction ps)
    case (Cons p ps)
    have IH: "segment ps"
      using Cons segment_Cons(1) [of p "ps @ qs"] by simp
    have d: "decode_rune (snd p @ part_bytes ps @ part_bytes qs) = (fst p, length (snd p))"
      and ne: "snd p \<noteq> []"
      using segment_Cons(2,3) [of p "ps @ qs"] Cons.prems by simp_all
    have "decode_rune (snd p @ part_bytes ps) = (fst p, length (snd p))"
      using decode_rune_take [of "snd p @ part_bytes ps @ part_bytes qs" "length (snd p @ part_bytes ps)"] d ne
      by simp
    then show ?case
      using ne IH by (simp add: segment_def rune_parts_step)
  qed simp
  show "segment qs"
    using assms by (induction ps) (auto dest: segment_Cons(1))
qed

lemma rune_parts_ascii_tail:
  assumes "byte c < 128"
  shows "rune_parts (s @ c # t) = rune_parts s @ (byte c, [c]) # rune_parts t"
proof (induction s rule: length_induct)
  case (1 s)
  show ?case
  proof (cases "s = []")
    case True
    then show ?thesis
      using assms by (simp add: rune_parts_step Let_def)
  next
    case False
    then have w: "0 < snd (decode_rune s)" "snd (decode_rune s) \<le> length s"
      using decode_rune_width [of s] by auto
    then have "length (drop (snd (decode_rune s)) s) < length s"
      using False by simp
    with 1 have "rune_parts (drop (snd (decode_rune s)) s @ c # t) =
        rune_parts (drop (snd (decode_rune s)) s) @ (byte c, [c]) # rune_parts t"
      by blast
    with False w show ?thesis
      using rune_parts_step [of "s @ c # t"] rune_parts_step [OF False]
      by (simp add: decode_rune_ascii_tail [OF False assms])
  qed
qed

section \<open>Trimming\<close>

definition spaceless :: "(nat \<times> string) list \<Rightarrow> bool" where
  "spaceless ps \<longleftrightarrow> list_all (\<lambda>p. \<not> IsSpace (fst p)) ps"

text \<open>The parts that trimming keeps.\<close>

definition trim_parts :: "(nat \<times> string) list \<Rightarrow> (nat \<times> string) list" where
  "trim_parts ps = rev (dropWhile (\<lambda>p. IsSpace (fst p)) (rev (dropWhile (\<lambda>p. IsSpace (fst p)) ps)))"

lemma TrimSpace_parts: "TrimSpace s = part_bytes (trim_parts (rune_parts s))"
  by (simp add: TrimSpace_def part_bytes_def trim_parts_def)

lemma trim_parts_infix: "\<exists>a b. ps = a @ trim_parts ps @ b"
proof -
  let ?P = "\<lambda>p :: nat \<times> string. IsSpace (fst p)"
  have "rev (takeWhile ?P (rev (dropWhile ?P ps)) @ dropWhile ?P (rev (dropWhile ?P ps))) = dropWhile ?P ps"
    by (simp only: takeWhile_dropWhile_id rev_rev_ident)
  from this [symmetric] have "dropWhile ?P ps = trim_parts ps @ rev (takeWhile ?P (rev (dropWhile ?P ps)))"
    by (simp only: trim_parts_def rev_append)
  then show ?thesis
    by (metis takeWhile_dropWhile_id)
qed

lemma trim_parts_ends:
  "trim_parts ps = [] \<or> \<not> IsSpace (fst (hd (trim_parts ps))) \<and> \<not> IsSpace (fst (last (trim_parts ps)))"
proof (cases "trim_parts ps = []")
  case False
  let ?P = "\<lambda>p :: nat \<times> string. IsSpace (fst p)"
  define d where "d = dropWhile ?P ps"
  define e where "e = dropWhile ?P (rev d)"
  have t: "trim_parts ps = rev e"
    by (simp add: trim_parts_def d_def e_def)
  with False have e: "e \<noteq> []" by simp
  then have d: "d \<noteq> []"
    by (auto simp: e_def)
  have "\<not> ?P (hd d)"
    using d hd_dropWhile [of ?P ps] by (simp add: d_def)
  moreover have "last e = hd d"
    using e d by (metis e_def last_rev last_appendR takeWhile_dropWhile_id)
  moreover have "\<not> ?P (hd e)"
    using e hd_dropWhile [of ?P "rev d"] by (simp add: e_def)
  ultimately show ?thesis
    by (simp add: t e hd_rev last_rev)
qed simp

lemma trim_parts_fixed:
  assumes "ps = [] \<or> \<not> IsSpace (fst (hd ps)) \<and> \<not> IsSpace (fst (last ps))"
  shows "trim_parts ps = ps"
proof (cases ps)
  case (Cons p qs)
  then have "dropWhile (\<lambda>p. IsSpace (fst p)) ps = ps"
    using assms by simp
  moreover have "dropWhile (\<lambda>p. IsSpace (fst p)) (rev ps) = rev ps"
    using assms Cons by (cases qs rule: rev_cases) auto
  ultimately show ?thesis
    by (simp add: trim_parts_def)
qed (simp add: trim_parts_def)

lemma TrimSpace_TrimSpace [simp]: "TrimSpace (TrimSpace s) = TrimSpace s"
proof -
  obtain a b where "rune_parts s = a @ trim_parts (rune_parts s) @ b"
    using trim_parts_infix by blast
  then have "segment (trim_parts (rune_parts s))"
    by (metis segment_append segment_rune_parts)
  then show ?thesis
    using trim_parts_fixed [OF trim_parts_ends] by (simp add: TrimSpace_parts segment_def)
qed

section \<open>Fields\<close>

lemma fields_of_words:
  assumes "segment (qs @ ps)" "spaceless qs" "w = part_bytes qs" "v \<in> set (fields_of ps w)"
  shows "v \<noteq> [] \<and> spaceless (rune_parts v)"
  using assms
proof (induction ps w arbitrary: qs rule: fields_of.induct)
  case (1 w)
  then show ?case
    by (auto simp: segment_def split: if_splits)
next
  case (2 r b ps w)
  have q: "segment qs" "segment ((r, b) # ps)" "segment ps"
    using "2.prems"(1) segment_append [of qs "(r, b) # ps"] segment_append [of "qs @ [(r, b)]" ps] by simp_all
  show ?case
  proof (cases "IsSpace r")
    case True
    then have "v \<in> set (fields_of ps []) \<or> w \<noteq> [] \<and> v = w"
      using "2.prems"(4) by (auto split: if_splits)
    then show ?thesis
    proof
      assume "v \<in> set (fields_of ps [])"
      with True q "2.IH"(1,2) [of "[]"] show ?thesis
        by (cases "w = []") (simp_all add: spaceless_def)
    next
      assume "w \<noteq> [] \<and> v = w"
      then show ?thesis
        using q(1) "2.prems"(2,3) by (simp add: segment_def)
    qed
  next
    case False
    then show ?thesis
      using "2.prems" "2.IH"(3) [of "qs @ [(r, b)]"] by (simp add: spaceless_def)
  qed
qed

lemma fields_of_spaceless: "spaceless ps \<Longrightarrow> fields_of (ps @ qs) w = fields_of qs (w @ part_bytes ps)"
  by (induction ps arbitrary: w) (auto simp: spaceless_def)

lemma Fields_Join:
  assumes "\<And>w. w \<in> set ws \<Longrightarrow> w \<noteq> [] \<and> spaceless (rune_parts w)"
  shows "Fields (Join ws '' '') = ws"
  using assms
proof (induction ws "'' '' :: string" rule: Join.induct)
  case (2 w)
  then show ?case
    using fields_of_spaceless [of "rune_parts w" "[]" "[]"] by (simp add: Fields_def)
next
  case (3 v w ws)
  have "rune_parts (v @ '' '' @ Join (w # ws) '' '') = rune_parts v @ (32, '' '') # rune_parts (Join (w # ws) '' '')"
    using rune_parts_ascii_tail [of "CHR '' ''" v "Join (w # ws) '' ''"] by (simp add: byte_def)
  then have "Fields (Join (v # w # ws) '' '') = fields_of ((32, '' '') # rune_parts (Join (w # ws) '' '')) v"
    using fields_of_spaceless [of "rune_parts v" _ "[]"] 3 by (simp add: Fields_def)
  also have "\<dots> = v # w # ws"
    using 3 by (simp add: IsSpace_def Fields_def)
  finally show ?case .
qed (simp add: Fields_def)

lemma Fields_words: "w \<in> set (Fields s) \<Longrightarrow> w \<noteq> [] \<and> spaceless (rune_parts w)"
  using fields_of_words [of "[]" "rune_parts s" "[]"] by (simp add: Fields_def spaceless_def)

lemma Fields_Join_Fields [simp]: "Fields (Join (Fields s) '' '') = Fields s"
  using Fields_Join Fields_words by blast

text \<open>A byte below 128 is a rune of its own, so a line feed is in no field.\<close>

lemma ascii_in_parts:
  assumes "c \<in> set s" "byte c < 128"
  shows "byte c \<in> fst ` set (rune_parts s)"
proof -
  obtain a b where "s = a @ c # b"
    using assms(1) by (meson split_list)
  then show ?thesis
    using rune_parts_ascii_tail [OF assms(2), of a b] by simp
qed

lemma set_Join_subset: "set (Join ws sep) \<subseteq> \<Union> (set ` set ws) \<union> set sep"
  by (induction ws sep rule: Join.induct) auto

lemma newline_not_in_fields: "CHR 0x0A \<notin> set (Join (Fields s) '' '')"
proof
  assume "CHR 0x0A \<in> set (Join (Fields s) '' '')"
  then obtain w where w: "w \<in> set (Fields s)" "CHR 0x0A \<in> set w"
    using set_Join_subset [of "Fields s" "'' ''"] by auto
  then have "10 \<in> fst ` set (rune_parts w)"
    using ascii_in_parts [of "CHR 0x0A" w] by (simp add: byte_def)
  then show False
    using Fields_words [OF w(1)] by (auto simp: spaceless_def list_all_iff IsSpace_def)
qed

section \<open>Cron entries\<close>

lemma validate_CronSchedule_idem:
  "validate_CronSchedule x v b = Inr s \<Longrightarrow> validate_CronSchedule x s b = Inr s"
  by (auto simp: validate_CronSchedule_def Let_def Fields_def split: if_splits)
    (simp_all flip: Fields_def)

lemma validate_CronSchedule_line:
  "validate_CronSchedule x v b = Inr s \<Longrightarrow> CHR 0x0A \<notin> set s"
  by (auto simp: validate_CronSchedule_def Let_def newline_not_in_fields split: if_splits)

lemma validate_CronCommand_idem:
  "validate_CronCommand v = Inr s \<Longrightarrow> validate_CronCommand s = Inr s"
  by (auto simp: validate_CronCommand_def Let_def split: if_splits)

lemma validate_CronCommand_line:
  "validate_CronCommand v = Inr s \<Longrightarrow> CHR 0x0A \<notin> set s \<and> CHR ''%'' \<notin> set s"
proof -
  assume v: "validate_CronCommand v = Inr s"
  have "char_of (10 :: nat) = CHR 0x0A"
    by (simp add: char_of_def bit_Suc_0_iff)
  with v show ?thesis
    by (auto simp: validate_CronCommand_def Let_def ContainsAny_def cron_command_bad_def list_ex_iff
        split: if_splits)
qed

end
