(* ===== verification/Pagination.thy ===== *)
theory Pagination
  imports Schema
begin

text \<open>
  Package \<open>internal/pagination\<close>: the page and size of a list request, clamping to the number of
  pages, and the offset of the \<open>LIMIT ... OFFSET\<close> window the store reads.  Go's \<open>int\<close> and
  \<open>int64\<close> are 64 bit two's complement: every arithmetic result passes through \<open>wrap64\<close>.
\<close>

definition wrap64 :: "int \<Rightarrow> int" where
  "wrap64 i = sint (word_of_int i :: 64 word)"

text \<open>Go's integer division truncates towards zero.\<close>

definition quot :: "int \<Rightarrow> int \<Rightarrow> int" where
  "quot a b = sgn a * sgn b * (\<bar>a\<bar> div \<bar>b\<bar>)"

record query =
  qry_page :: int
  qry_size :: int

record 'a result =
  res_items :: "'a list"
  res_query :: query
  res_total :: int

definition DefaultPage :: int where "DefaultPage = 1"
definition DefaultSize :: int where "DefaultSize = 10"
definition MaxSize :: int where "MaxSize = 100"

text \<open>\<open>strconv.Atoi\<close>: an optional sign, then decimal digits, in the range of \<open>int64\<close>.\<close>

definition dec_int :: "string \<Rightarrow> int" where
  "dec_int s = foldl (\<lambda>n c. 10 * n + (int (byte c) - 48)) 0 s"

definition Atoi :: "string \<Rightarrow> int option" where
  "Atoi s =
     (let neg = (s \<noteq> [] \<and> hd s = CHR ''-'');
          digits = (if s \<noteq> [] \<and> (hd s = CHR ''-'' \<or> hd s = CHR ''+'') then tl s else s);
          v = (if neg then - dec_int digits else dec_int digits)
      in if digits \<noteq> [] \<and> list_all is_digit digits \<and> - (2 ^ 63) \<le> v \<and> v < 2 ^ 63
         then Some v else None)"

definition number :: "string \<Rightarrow> int \<Rightarrow> int option" where
  "number v fallback = (if v = [] then Some fallback else Atoi v)"

text \<open>\<open>Parse\<close>: the values of the \<open>page\<close> and \<open>size\<close> query parameters, empty when absent.\<close>

definition pagination_Parse :: "string \<Rightarrow> string \<Rightarrow> err + query" where
  "pagination_Parse page_text size_text =
     (case number page_text DefaultPage of
        None \<Rightarrow> Inl ErrQuery
      | Some page \<Rightarrow>
          if page < 1 then Inl ErrQuery
          else case number size_text DefaultSize of
            None \<Rightarrow> Inl ErrQuery
          | Some sz \<Rightarrow>
              if sz < 1 \<or> MaxSize < sz then Inl ErrQuery
              else Inr \<lparr>qry_page = page, qry_size = sz\<rparr>)"

definition TotalPages :: "int \<Rightarrow> int \<Rightarrow> int" where
  "TotalPages tot sz =
     (if tot = 0 then 0 else wrap64 (quot (wrap64 (wrap64 (tot + sz) - 1)) sz))"

definition Clamp :: "query \<Rightarrow> int \<Rightarrow> query" where
  "Clamp q tot =
     (let pages = TotalPages tot (qry_size q) in
      if pages = 0 then q\<lparr>qry_page := DefaultPage\<rparr>
      else if pages < qry_page q then q\<lparr>qry_page := pages\<rparr>
      else q)"

definition Offset :: "query \<Rightarrow> int" where
  "Offset q = wrap64 (wrap64 (qry_page q - 1) * qry_size q)"

text \<open>
  The shape of every \<open>...Page\<close> function of the store: count, clamp, read the window.
  The rows are those the query selects, in its order.
\<close>

definition store_page :: "'a list \<Rightarrow> query \<Rightarrow> 'a result" where
  "store_page rows q =
     (let tot = int (length rows); q' = Clamp q tot in
      \<lparr>res_items = limit_offset (qry_size q') (Offset q') rows, res_query = q', res_total = tot\<rparr>)"

section \<open>No wrap-around\<close>

lemma wrap64_id: "- (2 ^ 63) \<le> i \<Longrightarrow> i < 2 ^ 63 \<Longrightarrow> wrap64 i = i"
  by (simp add: wrap64_def signed_of_int signed_take_bit_int_eq_self)

lemma quot_nonneg: "0 \<le> a \<Longrightarrow> 0 < b \<Longrightarrow> quot a b = a div b"
  by (cases "a = 0") (simp_all add: quot_def)

definition page_size_ok :: "int \<Rightarrow> bool" where
  "page_size_ok sz \<longleftrightarrow> 1 \<le> sz \<and> sz \<le> MaxSize"

definition total_ok :: "int \<Rightarrow> bool" where
  "total_ok tot \<longleftrightarrow> 0 \<le> tot \<and> tot < 2 ^ 62"

lemma TotalPages_eq:
  assumes "page_size_ok sz" "total_ok tot"
  shows "TotalPages tot sz = (tot + sz - 1) div sz"
proof -
  have s: "1 \<le> sz" "sz \<le> 100" and t: "0 \<le> tot" "tot < 2 ^ 62"
    using assms by (auto simp: page_size_ok_def total_ok_def MaxSize_def)
  have w: "wrap64 (tot + sz) = tot + sz" "wrap64 (tot + sz - 1) = tot + sz - 1"
    using s t by (auto intro!: wrap64_id)
  have "(tot + sz - 1) div sz \<le> tot + sz - 1"
    using s t int_div_less_self [of "tot + sz - 1" sz]
    by (cases "sz = 1"; cases "tot + sz - 1 = 0") auto
  moreover have "0 \<le> (tot + sz - 1) div sz"
    using s t by (simp add: pos_imp_zdiv_nonneg_iff)
  ultimately have "wrap64 ((tot + sz - 1) div sz) = (tot + sz - 1) div sz"
    using s t by (intro wrap64_id) auto
  moreover have "tot = 0 \<Longrightarrow> (sz - 1) div sz = 0"
    using s by (simp add: div_pos_pos_trivial)
  ultimately show ?thesis
    using s t by (auto simp: TotalPages_def w quot_nonneg)
qed

lemma TotalPages_bounds:
  assumes "page_size_ok sz" "total_ok tot"
  shows "0 \<le> TotalPages tot sz" "TotalPages tot sz \<le> tot"
    "tot \<le> TotalPages tot sz * sz" "tot > 0 \<Longrightarrow> (TotalPages tot sz - 1) * sz < tot"
proof -
  have s: "1 \<le> sz" and t: "0 \<le> tot"
    using assms by (auto simp: page_size_ok_def total_ok_def)
  let ?p = "(tot + sz - 1) div sz"
  have dm: "?p * sz + (tot + sz - 1) mod sz = tot + sz - 1"
    by simp
  have m: "0 \<le> (tot + sz - 1) mod sz" "(tot + sz - 1) mod sz < sz"
    using s by simp_all
  have e: "TotalPages tot sz = ?p"
    using assms by (rule TotalPages_eq)
  show p0: "0 \<le> TotalPages tot sz"
    using s t by (simp add: e pos_imp_zdiv_nonneg_iff)
  show ge: "tot \<le> TotalPages tot sz * sz"
    using dm m unfolding e by linarith
  show lt: "(TotalPages tot sz - 1) * sz < tot" if "tot > 0"
    unfolding e left_diff_distrib using dm m by linarith
  show "TotalPages tot sz \<le> tot"
  proof (cases "tot = 0")
    case False
    with t lt have "(TotalPages tot sz - 1) * sz < tot" by simp
    moreover have "(TotalPages tot sz - 1) * 1 \<le> (TotalPages tot sz - 1) * sz"
      if "1 \<le> TotalPages tot sz"
      using s that by (intro mult_left_mono) auto
    ultimately show ?thesis using t by (cases "1 \<le> TotalPages tot sz") auto
  qed (simp add: TotalPages_def)
qed

lemma qry_size_Clamp [simp]: "qry_size (Clamp q tot) = qry_size q"
  by (simp add: Clamp_def Let_def)

lemma Clamp_page_bounds:
  assumes "page_size_ok (qry_size q)" "total_ok tot" "1 \<le> qry_page q"
  shows "1 \<le> qry_page (Clamp q tot) \<and> qry_page (Clamp q tot) \<le> max 1 (TotalPages tot (qry_size q))"
  using assms TotalPages_bounds(1) [of "qry_size q" tot]
  by (auto simp: Clamp_def Let_def DefaultPage_def)

lemma Offset_eq:
  assumes "page_size_ok (qry_size q)" "total_ok tot" "1 \<le> qry_page q"
    "qry_page q \<le> max 1 (TotalPages tot (qry_size q))"
  shows "Offset q = (qry_page q - 1) * qry_size q" "0 \<le> Offset q"
    "Offset q \<le> tot" "0 < tot \<Longrightarrow> Offset q < tot"
proof -
  let ?p = "qry_page q" and ?s = "qry_size q"
  have s: "1 \<le> ?s" and t: "0 \<le> tot" "tot < 2 ^ 62"
    using assms by (auto simp: page_size_ok_def total_ok_def)
  note b = TotalPages_bounds [OF assms(1,2)]
  have le: "(?p - 1) * ?s \<le> (max 1 (TotalPages tot ?s) - 1) * ?s"
    using assms(4) s by (intro mult_right_mono) auto
  have lt: "(?p - 1) * ?s < tot" if "0 < tot"
  proof -
    have "0 < TotalPages tot ?s"
    proof (rule ccontr)
      assume "\<not> 0 < TotalPages tot ?s"
      with b(1,3) that show False by simp
    qed
    with b(4) [OF that] le show ?thesis by simp
  qed
  have le': "(?p - 1) * ?s \<le> tot"
    using lt t le b(1,2) by (cases "tot = 0") auto
  have nn: "0 \<le> (?p - 1) * ?s"
    using assms(3) s by simp
  have p1: "?p - 1 \<le> tot"
    using assms(4) b(2) t by auto
  have "wrap64 (?p - 1) = ?p - 1"
    using assms(3) p1 t by (intro wrap64_id) auto
  moreover have "wrap64 ((?p - 1) * ?s) = (?p - 1) * ?s"
    using nn le' t by (intro wrap64_id) auto
  ultimately show e: "Offset q = (?p - 1) * ?s"
    by (simp add: Offset_def)
  show "0 \<le> Offset q" "Offset q \<le> tot" "0 < tot \<Longrightarrow> Offset q < tot"
    using nn le' lt by (simp_all add: e)
qed

lemma concat_windows:
  "concat (map (\<lambda>k. take s (drop (k * s) rows)) [0..<m]) = take (m * s) rows"
proof (induction m)
  case (Suc m)
  then show ?case
    by (simp add: take_add [symmetric] add.commute)
qed simp

section \<open>Properties\<close>

text \<open>A parsed and clamped query stays inside the result set: the page number is between 1 and
  the number of pages, and the offset handed to SQLite is not negative, does not overflow and
  lies before the last row when there is one.\<close>

theorem clamped_query_in_range:
  assumes "pagination_Parse p s = Inr q" and "0 \<le> tot" and "tot < 2 ^ 62"
  shows "1 \<le> qry_page (Clamp q tot) \<and>
    qry_page (Clamp q tot) \<le> max 1 (TotalPages tot (qry_size q)) \<and>
    Offset (Clamp q tot) = (qry_page (Clamp q tot) - 1) * qry_size q \<and>
    0 \<le> Offset (Clamp q tot) \<and> (0 < tot \<longrightarrow> Offset (Clamp q tot) < tot)"
proof -
  have q: "page_size_ok (qry_size q)" "1 \<le> qry_page q"
    using assms(1) by (auto simp: pagination_Parse_def page_size_ok_def split: option.splits if_splits)
  have t: "total_ok tot"
    using assms by (simp add: total_ok_def)
  note c = Clamp_page_bounds [OF q(1) t q(2)]
  then show ?thesis
    using Offset_eq [of "Clamp q tot" tot] q t by simp
qed

theorem clamped_query_in_range_witness:
  "Offset (Clamp \<lparr>qry_page = 9223372036854775807, qry_size = 10\<rparr> 25) < 25"
proof -
  have "pagination_Parse ''9223372036854775807'' ''10'' =
      Inr \<lparr>qry_page = 9223372036854775807, qry_size = 10\<rparr>"
    by code_simp
  from clamped_query_in_range [OF this, of 25] show ?thesis by simp
qed

text \<open>C40: Reading the pages one after another returns every selected row exactly once and in
  order: the windows of pages 1 to the number of pages concatenate to the whole result.\<close>

theorem pages_partition:
  assumes "1 \<le> sz" and "sz \<le> MaxSize" and "int (length rows) < 2 ^ 62"
  shows "concat (map (\<lambda>p. res_items (store_page rows \<lparr>qry_page = p, qry_size = sz\<rparr>))
    [1..TotalPages (int (length rows)) sz]) = rows"
proof -
  let ?n = "int (length rows)" and ?s = "nat sz"
  have ok: "page_size_ok sz" "total_ok ?n"
    using assms by (auto simp: page_size_ok_def total_ok_def)
  note b = TotalPages_bounds [OF ok]
  let ?m = "nat (TotalPages ?n sz)"
  have item: "res_items (store_page rows \<lparr>qry_page = int k + 1, qry_size = sz\<rparr>) =
      take ?s (drop (k * ?s) rows)" if "k < ?m" for k
  proof -
    let ?q = "\<lparr>qry_page = int k + 1, qry_size = sz\<rparr>"
    have "Clamp ?q ?n = ?q"
      using that by (auto simp: Clamp_def Let_def)
    moreover have "Offset ?q = int k * sz"
      using Offset_eq(1) [of ?q ?n] ok that by simp
    ultimately show ?thesis
      using assms(1) by (simp add: store_page_def limit_offset_def nat_mult_distrib)
  qed
  have "[1..TotalPages ?n sz] = map (\<lambda>k. int k + 1) [0..<?m]"
    using b(1) by (intro nth_equalityI) (auto simp: nth_upto)
  then have "concat (map (\<lambda>p. res_items (store_page rows \<lparr>qry_page = p, qry_size = sz\<rparr>))
      [1..TotalPages ?n sz]) = concat (map (\<lambda>k. take ?s (drop (k * ?s) rows)) [0..<?m])"
    using item by (auto intro!: arg_cong [where f = concat] map_cong)
  also have "\<dots> = take (?m * ?s) rows"
    by (rule concat_windows)
  also have "\<dots> = rows"
  proof -
    have "?n \<le> int (?m * ?s)"
      using b(1,3) assms(1) by simp
    then have "length rows \<le> ?m * ?s" by (simp only: of_nat_le_iff)
    then show ?thesis by simp
  qed
  finally show ?thesis .
qed

theorem pages_partition_witness:
  "concat (map (\<lambda>p. res_items (store_page ''abcdefg'' \<lparr>qry_page = p, qry_size = 3\<rparr>))
    [1..TotalPages 7 3]) = ''abcdefg''"
  using pages_partition [of 3 "''abcdefg''"] by (simp add: MaxSize_def)

end
