(* ===== verification/Jobs.thy ===== *)
theory Jobs
  imports Pagination
begin

text \<open>
  The job queue: \<open>internal/jobs\<close> (service and worker), its SQL in
  \<open>internal/store/sqlite/jobs.go\<close> and \<open>queries/jobs.sql\<close>, and the audit trail in
  \<open>audit.go\<close>.  Every change of a host goes through this queue.  The store operations come
  first, then the worker's loop with every fault of the store it handles, then the queue as a
  labelled step relation with its invariant, and the contract (\<open>job_handlers\<close>) under which
  the worker's loop ends.
\<close>

section \<open>Store operations\<close>

interpretation job_table: table jobs "\<lambda>rs s. s\<lparr>jobs := rs\<rparr>" job_id
  by unfold_locales auto

interpretation step_table: table job_steps "\<lambda>rs s. s\<lparr>job_steps := rs\<rparr>" stp_id
  by unfold_locales auto

text \<open>The \<open>INSERT\<close> fixes status and attempts whatever the caller passes.\<close>

definition new_job_row :: "job \<Rightarrow> job" where
  "new_job_row j = j\<lparr>job_status := Queued, job_attempts := 0, job_error := [],
     job_started := None, job_finished := None\<rparr>"

definition store_CreateJob :: "job \<Rightarrow> db \<Rightarrow> err + (job \<times> db)" where
  "store_CreateJob j s =
     (if exists_by job_id (job_id j) (jobs s) then Inl UniqueViolation
      else if (job_node j \<noteq> [] \<and> \<not> exists_by nod_id (job_node j) (nodes s)) \<or>
              (job_user j \<noteq> [] \<and> \<not> exists_by usr_id (job_user j) (users s))
      then Inl ForeignKeyViolation
      else Inr (new_job_row j, s\<lparr>jobs := jobs s @ [new_job_row j]\<rparr>))"

text \<open>\<open>createJob\<close>, the same insert inside the transaction of a resource operation.\<close>

definition createJob :: "job \<Rightarrow> db \<Rightarrow> err + (job \<times> db)" where
  "createJob j s = map_err (Wrapped ''create resource job'') (store_CreateJob j s)"

definition store_Job :: "ident \<Rightarrow> db \<Rightarrow> err + job" where
  "store_Job i s = some_or ErrNoRows (find_by job_id i (jobs s))"

definition store_Jobs :: "int \<Rightarrow> db \<Rightarrow> job list" where
  "store_Jobs limit s = limit_offset limit 0 (order_desc job_created (jobs s))"

definition store_JobPage :: "query \<Rightarrow> db \<Rightarrow> job result" where
  "store_JobPage q s = store_page (order_desc job_created (jobs s)) q"

definition runnable :: "job \<Rightarrow> bool" where
  "runnable j \<longleftrightarrow> job_status j = Queued \<and> job_attempts j < job_max j"

definition claim_target :: "db \<Rightarrow> job option" where
  "claim_target s =
     (case order_asc job_created (filter runnable (jobs s)) of [] \<Rightarrow> None | j # _ \<Rightarrow> Some j)"

definition claim_row :: "msec \<Rightarrow> job \<Rightarrow> job" where
  "claim_row now j = j\<lparr>job_status := Running, job_attempts := job_attempts j + 1,
     job_started := Some now, job_error := []\<rparr>"

definition store_ClaimJob :: "msec \<Rightarrow> db \<Rightarrow> err + (job \<times> db)" where
  "store_ClaimJob now s =
     (case claim_target s of
        None \<Rightarrow> Inl ErrNone
      | Some t \<Rightarrow> Inr (claim_row now t,
          s\<lparr>jobs := update_by job_id (job_id t) (claim_row now) (jobs s)\<rparr>))"

text \<open>\<open>json_remove(payload, '$.password')\<close>.\<close>

definition redact :: "payload \<Rightarrow> payload" where
  "redact p = filter (\<lambda>(k, _). k \<noteq> ''password'') p"

definition complete_row :: "msec \<Rightarrow> job \<Rightarrow> job" where
  "complete_row now j =
     (if job_status j = Running
      then j\<lparr>job_status := Succeeded, job_finished := Some now, job_error := [],
             job_payload := redact (job_payload j)\<rparr>
      else j)"

definition store_CompleteJob :: "ident \<Rightarrow> msec \<Rightarrow> db \<Rightarrow> db" where
  "store_CompleteJob i now s = s\<lparr>jobs := update_by job_id i (complete_row now) (jobs s)\<rparr>"

definition retry_row :: "string \<Rightarrow> job \<Rightarrow> job" where
  "retry_row msg j =
     (if job_status j = Running \<and> job_attempts j < job_max j
      then j\<lparr>job_status := Queued, job_started := None, job_finished := None, job_error := msg\<rparr>
      else j)"

definition store_RetryJob :: "ident \<Rightarrow> string \<Rightarrow> db \<Rightarrow> db" where
  "store_RetryJob i msg s = s\<lparr>jobs := update_by job_id i (retry_row msg) (jobs s)\<rparr>"

definition fail_row :: "string \<Rightarrow> msec \<Rightarrow> job \<Rightarrow> job" where
  "fail_row msg now j =
     (if job_status j = Running
      then j\<lparr>job_status := Failed, job_finished := Some now, job_error := msg,
             job_payload := redact (job_payload j)\<rparr>
      else j)"

definition store_FailJob :: "ident \<Rightarrow> string \<Rightarrow> msec \<Rightarrow> db \<Rightarrow> db" where
  "store_FailJob i msg now s = s\<lparr>jobs := update_by job_id i (fail_row msg now) (jobs s)\<rparr>"

definition recover_row :: "job \<Rightarrow> job" where
  "recover_row j =
     (if job_status j = Running
      then j\<lparr>job_status := Queued, job_started := None, job_error := [],
             job_attempts := (if 0 < job_attempts j then job_attempts j - 1 else 0)\<rparr>
      else j)"

definition store_RecoverJobs :: "db \<Rightarrow> db" where
  "store_RecoverJobs s = s\<lparr>jobs := map recover_row (jobs s)\<rparr>"

definition store_CreateStep :: "job_step \<Rightarrow> db \<Rightarrow> err + (job_step \<times> db)" where
  "store_CreateStep st s =
     (let row = st\<lparr>stp_status := Running, stp_message := [], stp_finished := None\<rparr> in
      if exists_by stp_id (stp_id st) (job_steps s) then Inl UniqueViolation
      else if \<not> exists_by job_id (stp_job st) (jobs s) then Inl ForeignKeyViolation
      else Inr (row, s\<lparr>job_steps := job_steps s @ [row]\<rparr>))"

definition store_FinishStep :: "ident \<Rightarrow> status \<Rightarrow> string \<Rightarrow> msec \<Rightarrow> db \<Rightarrow> db" where
  "store_FinishStep i st msg now s =
     s\<lparr>job_steps := update_by stp_id i
        (\<lambda>r. r\<lparr>stp_status := st, stp_message := msg, stp_finished := Some now\<rparr>) (job_steps s)\<rparr>"

definition store_Steps :: "ident \<Rightarrow> db \<Rightarrow> job_step list" where
  "store_Steps i s = order_asc stp_started (filter (\<lambda>r. stp_job r = i) (job_steps s))"

definition store_Record :: "audit_event \<Rightarrow> db \<Rightarrow> err + db" where
  "store_Record e s =
     (if exists_by aud_id (aud_id e) (audit_events s) then Inl UniqueViolation
      else if aud_user e \<noteq> [] \<and> \<not> exists_by usr_id (aud_user e) (users s)
      then Inl ForeignKeyViolation
      else if aud_result e \<notin> {''success'', ''failure''} then Inl CheckViolation
      else Inr (s\<lparr>audit_events := audit_events s @ [e]\<rparr>))"

text \<open>\<open>ORDER BY created_at DESC, id DESC\<close>: sorting by the minor key, then by the major one.\<close>

definition audit_order :: "audit_event list \<Rightarrow> audit_event list" where
  "audit_order es = order_desc aud_created (rev (order_asc aud_id es))"

definition store_AuditPage :: "query \<Rightarrow> ident \<Rightarrow> db \<Rightarrow> audit_event result" where
  "store_AuditPage q jid s =
     store_page (audit_order (filter (\<lambda>e. jid = [] \<or> aud_job e = jid) (audit_events s))) q"

text \<open>
  Decoding a string field of a payload with \<open>json.Unmarshal\<close>: absent is the empty string,
  another type is an error.
\<close>

definition payload_string :: "string \<Rightarrow> payload \<Rightarrow> string option" where
  "payload_string k p =
     (case map_of p k of None \<Rightarrow> Some [] | Some (JStr v) \<Rightarrow> Some v | Some _ \<Rightarrow> None)"

lemma payload_string_simps [simp]:
  "payload_string k [] = Some []"
  "payload_string k ((k', JStr v) # p) = (if k = k' then Some v else payload_string k p)"
  "k \<noteq> k' \<Longrightarrow> payload_string k ((k', x) # p) = payload_string k p"
  by (simp_all add: payload_string_def)

section \<open>Service\<close>

definition jobs_QueueProbe :: "ident \<Rightarrow> msec \<Rightarrow> ident \<Rightarrow> ident \<Rightarrow> db \<Rightarrow> err + (job \<times> db)" where
  "jobs_QueueProbe i now node uid s =
     map_err (Wrapped ''queue node probe'') (store_CreateJob
       \<lparr>job_id = i, job_node = node, job_user = uid, job_kind_of = KindNodeProbe,
        job_status = Queued, job_payload = [], job_attempts = 0, job_max = 2, job_error = [],
        job_created = now, job_started = None, job_finished = None\<rparr> s)"

definition jobs_Job :: "ident \<Rightarrow> db \<Rightarrow> err + (job \<times> job_step list)" where
  "jobs_Job i s = andthen (store_Job i s) (\<lambda>j. Inr (j, store_Steps i s))"

definition jobs_Jobs :: "db \<Rightarrow> job list" where
  "jobs_Jobs s = store_Jobs 50 s"

definition jobs_JobPage :: "query \<Rightarrow> db \<Rightarrow> job result" where
  "jobs_JobPage q s = store_JobPage q s"

text \<open>\<open>Notify\<close>: a send on a channel of capacity one that never blocks.\<close>

definition Notify :: "nat \<Rightarrow> nat" where
  "Notify pending_wakes = (if pending_wakes < 1 then pending_wakes + 1 else pending_wakes)"

section \<open>Worker\<close>

type_synonym handler = "job \<Rightarrow> db \<Rightarrow> err option \<times> db"
type_synonym dispatcher = "job_kind \<Rightarrow> handler option"

text \<open>
  What one turn of the loop reads from outside: the clock, the random identifiers (\<open>None\<close>
  when the random source fails), which calls of the store return an I/O error without
  taking effect, and the handlers at that moment (they talk to the agent, whose replies vary
  from one turn to the next).
\<close>

record turn =
  trn_now :: msec
  trn_claim_fault :: bool
  trn_step_id :: "ident option"
  trn_step_fault :: bool
  trn_finish_fault :: bool
  trn_end_fault :: bool
  trn_audit_id :: "ident option"
  trn_audit_fault :: bool
  trn_handlers :: dispatcher

definition safeError :: "(err \<Rightarrow> string) \<Rightarrow> err \<Rightarrow> string" where
  "safeError render e = (if 500 < length (render e) then take 500 (render e) else render e)"

definition worker_record :: "turn \<Rightarrow> job \<Rightarrow> string \<Rightarrow> db \<Rightarrow> db" where
  "worker_record t j res s =
     (case trn_audit_id t of
        None \<Rightarrow> s
      | Some i \<Rightarrow>
          if trn_audit_fault t then s
          else case store_Record \<lparr>aud_id = i, aud_user = job_user j, aud_action = ''job.execute'',
                aud_resource_type = ''job'', aud_resource = job_id j, aud_job = job_id j,
                aud_result = res, aud_created = trn_now t\<rparr> s of
              Inl _ \<Rightarrow> s
            | Inr s' \<Rightarrow> s')"

definition worker_fail :: "turn \<Rightarrow> job \<Rightarrow> string \<Rightarrow> db \<Rightarrow> db" where
  "worker_fail t j msg s =
     (if trn_end_fault t then s
      else worker_record t j ''failure'' (store_FailJob (job_id j) msg (trn_now t) s))"

definition worker_finish_step :: "turn \<Rightarrow> ident \<Rightarrow> status \<Rightarrow> string \<Rightarrow> db \<Rightarrow> db" where
  "worker_finish_step t i st msg s =
     (if trn_finish_fault t then s else store_FinishStep i st msg (trn_now t) s)"

fun kind_text :: "job_kind \<Rightarrow> string" where
  "kind_text KindAccountCreate = ''account.create''"
| "kind_text KindAccountDelete = ''account.delete''"
| "kind_text KindAccountDisable = ''account.disable''"
| "kind_text KindAccountEnable = ''account.enable''"
| "kind_text KindWebsiteCreate = ''website.create''"
| "kind_text KindWebsiteDelete = ''website.delete''"
| "kind_text KindWebsiteDisable = ''website.disable''"
| "kind_text KindWebsiteEnable = ''website.enable''"
| "kind_text KindWebsiteDomainCreate = ''website_domain.create''"
| "kind_text KindWebsiteDomainDelete = ''website_domain.delete''"
| "kind_text KindWebsiteDomainDisable = ''website_domain.disable''"
| "kind_text KindWebsiteDomainEnable = ''website_domain.enable''"
| "kind_text KindWebsiteDomainUpdate = ''website_domain.update''"
| "kind_text KindNodeProbe = ''node.probe''"
| "kind_text KindCertificateIssue = ''certificate.issue''"
| "kind_text KindCertificateRenew = ''certificate.renew''"
| "kind_text KindDatabaseCreate = ''database.create''"
| "kind_text KindDatabaseDelete = ''database.delete''"
| "kind_text KindDatabaseUserCreate = ''database_user.create''"
| "kind_text KindDatabaseUserDelete = ''database_user.delete''"
| "kind_text KindDatabaseGrantCreate = ''database_grant.create''"
| "kind_text KindDatabaseGrantDelete = ''database_grant.delete''"
| "kind_text KindTaskSync = ''task.sync''"
| "kind_text KindFTPSync = ''ftp.sync''"
| "kind_text KindBackupCreate = ''backup.create''"
| "kind_text KindBackupRestore = ''backup.restore''"
| "kind_text KindDNSZoneCreate = ''dns_zone.create''"
| "kind_text KindDNSZoneDelete = ''dns_zone.delete''"
| "kind_text KindDNSRecordSync = ''dns_record.sync''"
| "kind_text (KindOther k) = k"

definition worker_run :: "(err \<Rightarrow> string) \<Rightarrow> turn \<Rightarrow> job \<Rightarrow> db \<Rightarrow> bool \<times> db" where
  "worker_run render t j s =
     (case trn_step_id t of
        None \<Rightarrow> (False, worker_fail t j ''generate job step id'' s)
      | Some sid \<Rightarrow>
          (case (if trn_step_fault t then Inl (Plain ''store fault'')
                 else store_CreateStep \<lparr>stp_id = sid, stp_job = job_id j, stp_name = job_kind_of j,
                   stp_status = Running, stp_message = [], stp_started = trn_now t,
                   stp_finished = None\<rparr> s) of
             Inl _ \<Rightarrow> (False, worker_fail t j ''create job step'' s)
           | Inr (st, s1) \<Rightarrow>
               (case (case trn_handlers t (job_kind_of j) of
                        None \<Rightarrow> (Some (Plain (''unsupported job kind: '' @ kind_text (job_kind_of j))), s1)
                      | Some h \<Rightarrow> h j s1) of
                  (None, s2) \<Rightarrow>
                    let s3 = worker_finish_step t (stp_id st) Succeeded [] s2 in
                    (False, if trn_end_fault t then s3
                            else worker_record t j ''success''
                              (store_CompleteJob (job_id j) (trn_now t) s3))
                | (Some e, s2) \<Rightarrow>
                    let msg = safeError render e;
                        s3 = worker_finish_step t (stp_id st) Failed msg s2 in
                    if job_attempts j < job_max j
                    then (True, if trn_end_fault t then s3 else store_RetryJob (job_id j) msg s3)
                    else (False, worker_fail t j msg s3))))"

text \<open>\<open>drain\<close>: claim and run until the queue is empty or an error asks for a later retry.\<close>

partial_function (option) worker_drain ::
  "(err \<Rightarrow> string) \<Rightarrow> (nat \<Rightarrow> turn) \<Rightarrow> nat \<Rightarrow> db \<Rightarrow> (bool \<times> db) option" where
  "worker_drain render ts n s =
     (if trn_claim_fault (ts n) then Some (True, s)
      else case store_ClaimJob (trn_now (ts n)) s of
        Inl _ \<Rightarrow> Some (False, s)
      | Inr (j, s1) \<Rightarrow>
          (let (again, s2) = worker_run render (ts n) j s1 in
           if again then Some (True, s2) else worker_drain render ts (Suc n) s2))"

text \<open>The start of \<open>Run\<close>: jobs a previous process left running go back to the queue.\<close>

definition worker_boot ::
  "(err \<Rightarrow> string) \<Rightarrow> (nat \<Rightarrow> turn) \<Rightarrow> db \<Rightarrow> (bool \<times> db) option" where
  "worker_boot render ts s = worker_drain render ts 0 (store_RecoverJobs s)"

section \<open>The queue as a state machine\<close>

text \<open>
  Requests and the worker interleave on the \<open>jobs\<close> table; each step below is one statement of
  the store, or anything that leaves the table alone.  A resource operation enqueues inside its
  own transaction, so an \<open>Enqueued\<close> step may change other tables too: \<open>queues_one s j s'\<close>
  says that \<open>s'\<close> is a store with exactly the new queued job \<open>j\<close> after those of \<open>s\<close>.
\<close>

definition queues_one :: "db \<Rightarrow> job \<Rightarrow> db \<Rightarrow> bool" where
  "queues_one s j s' \<longleftrightarrow> jobs s' = jobs s @ [j] \<and> new_job_row j = j \<and> 1 \<le> job_max j \<and>
     job_id j \<notin> job_id ` set (jobs s)"

datatype queue_label =
    Enqueued ident | Claimed ident | Ended ident | Requeued ident | Restarted | Internal

inductive queue_step :: "db \<Rightarrow> queue_label \<Rightarrow> db \<Rightarrow> bool" where
  enqueue: "queues_one s j s' \<Longrightarrow> queue_step s (Enqueued (job_id j)) s'"
| claim: "store_ClaimJob now s = Inr (j, s') \<Longrightarrow> queue_step s (Claimed (job_id j)) s'"
| complete: "queue_step s (Ended i) (store_CompleteJob i now s)"
| retry: "queue_step s (Requeued i) (store_RetryJob i msg s)"
| give_up: "queue_step s (Ended i) (store_FailJob i msg now s)"
| restart: "queue_step s Restarted (store_RecoverJobs s)"
| internal: "jobs s' = jobs s \<Longrightarrow> queue_step s Internal s'"

inductive queue_trace :: "db \<Rightarrow> queue_label list \<Rightarrow> db \<Rightarrow> bool" where
  start: "queue_trace s [] s"
| snoc: "queue_trace s ls s' \<Longrightarrow> queue_step s' l s'' \<Longrightarrow> queue_trace s (ls @ [l]) s''"

inductive_cases queue_stepE: "queue_step s l s'"

definition terminal :: "job \<Rightarrow> bool" where
  "terminal j \<longleftrightarrow> job_status j = Succeeded \<or> job_status j = Failed"

definition no_secret :: "job \<Rightarrow> bool" where
  "no_secret j \<longleftrightarrow> ''password'' \<notin> fst ` set (job_payload j)"

definition job_ok :: "job \<Rightarrow> bool" where
  "job_ok j \<longleftrightarrow> 0 \<le> job_attempts j \<and> job_attempts j \<le> job_max j \<and>
     (case job_status j of
        Queued \<Rightarrow> job_attempts j < job_max j \<and> job_started j = None \<and> job_finished j = None
      | Running \<Rightarrow> 1 \<le> job_attempts j \<and> job_started j \<noteq> None \<and> job_finished j = None
      | Succeeded \<Rightarrow> job_finished j \<noteq> None \<and> no_secret j
      | Failed \<Rightarrow> job_finished j \<noteq> None \<and> no_secret j
      | _ \<Rightarrow> False)"

definition queue_inv :: "db \<Rightarrow> bool" where
  "queue_inv s \<longleftrightarrow> distinct (map job_id (jobs s)) \<and> (\<forall>j \<in> set (jobs s). job_ok j)"

lemma redact_no_password [simp]: "''password'' \<notin> fst ` set (redact p)"
  by (auto simp: redact_def)

lemma no_secret_redact [simp]: "no_secret (j\<lparr>job_payload := redact p\<rparr>)"
  by (simp add: no_secret_def)

lemma row_ids [simp]:
  "job_id (new_job_row j) = job_id j"
  "job_id (claim_row now j) = job_id j"
  "job_id (complete_row now j) = job_id j"
  "job_id (retry_row msg j) = job_id j"
  "job_id (fail_row msg now j) = job_id j"
  "job_id (recover_row j) = job_id j"
  by (simp_all add: new_job_row_def claim_row_def complete_row_def retry_row_def fail_row_def
      recover_row_def)

lemma row_max [simp]:
  "job_max (new_job_row j) = job_max j"
  "job_max (claim_row now j) = job_max j"
  "job_max (complete_row now j) = job_max j"
  "job_max (retry_row msg j) = job_max j"
  "job_max (fail_row msg now j) = job_max j"
  "job_max (recover_row j) = job_max j"
  by (simp_all add: new_job_row_def claim_row_def complete_row_def retry_row_def fail_row_def
      recover_row_def)

lemma row_ok:
  "1 \<le> job_max j \<Longrightarrow> job_ok (new_job_row j)"
  "job_ok j \<Longrightarrow> runnable j \<Longrightarrow> job_ok (claim_row now j)"
  "job_ok j \<Longrightarrow> job_ok (complete_row now j)"
  "job_ok j \<Longrightarrow> job_ok (retry_row msg j)"
  "job_ok j \<Longrightarrow> job_ok (fail_row msg now j)"
  "job_ok j \<Longrightarrow> job_ok (recover_row j)"
  by (auto simp: job_ok_def new_job_row_def claim_row_def complete_row_def retry_row_def
      fail_row_def recover_row_def runnable_def no_secret_def split: status.splits)

lemma terminal_rows:
  "terminal j \<Longrightarrow> complete_row now j = j"
  "terminal j \<Longrightarrow> retry_row msg j = j"
  "terminal j \<Longrightarrow> fail_row msg now j = j"
  "terminal j \<Longrightarrow> recover_row j = j"
  by (auto simp: terminal_def complete_row_def retry_row_def fail_row_def recover_row_def)

lemma claim_target_Some:
  assumes "claim_target s = Some t"
  shows "t \<in> set (jobs s)" "runnable t"
    "\<forall>r \<in> set (jobs s). runnable r \<longrightarrow> job_created t \<le> job_created r"
proof -
  let ?q = "filter runnable (jobs s)"
  obtain rest where q: "order_asc job_created ?q = t # rest"
    using assms by (auto simp: claim_target_def split: list.splits)
  then have "?q \<noteq> []" by (metis list.distinct(1) order_asc_eq_Nil)
  from hd_order_asc_min [OF this, of job_created] q
  show "t \<in> set (jobs s)" "runnable t"
    "\<forall>r \<in> set (jobs s). runnable r \<longrightarrow> job_created t \<le> job_created r"
    by auto
qed

lemma claim_target_None: "claim_target s = None \<longleftrightarrow> (\<forall>j \<in> set (jobs s). \<not> runnable j)"
  by (auto simp: claim_target_def filter_empty_conv split: list.splits
      dest: arg_cong [where f = "\<lambda>l. l = []"])

lemma claim_target_first:
  assumes "claim_target s = Some t"
  shows "\<exists>later. filter (\<lambda>r. runnable r \<and> job_created r = job_created t) (jobs s) = t # later"
proof -
  let ?q = "filter runnable (jobs s)"
  obtain rest where q: "sort_key job_created ?q = t # rest"
    using assms by (auto simp: claim_target_def order_asc_def split: list.splits)
  have "filter (\<lambda>r. job_created r = job_created t) (sort_key job_created ?q) =
      filter (\<lambda>r. job_created r = job_created t) ?q"
    by (rule sort_key_stable)
  then have "filter (\<lambda>r. runnable r \<and> job_created r = job_created t) (jobs s) =
      t # filter (\<lambda>r. job_created r = job_created t) rest"
    unfolding q by (simp add: conj_commute)
  then show ?thesis by (rule exI)
qed

lemma ClaimJob_Inr:
  assumes "store_ClaimJob now s = Inr (j, s')"
  obtains t where "claim_target s = Some t" "j = claim_row now t"
    "s' = s\<lparr>jobs := update_by job_id (job_id t) (claim_row now) (jobs s)\<rparr>"
  using assms by (auto simp: store_ClaimJob_def split: option.splits)

lemma CreateJob_Inr:
  assumes "store_CreateJob j s = Inr (r, s')"
  shows "r = new_job_row j" "s' = s\<lparr>jobs := jobs s @ [new_job_row j]\<rparr>"
    "job_id j \<notin> job_id ` set (jobs s)"
  using assms by (auto simp: store_CreateJob_def job_table.exists_iff split: if_splits)

lemma new_job_row_idem [simp]: "new_job_row (new_job_row j) = new_job_row j"
  by (simp add: new_job_row_def)

lemma new_job_row_fixed:
  "new_job_row j = j \<longleftrightarrow> job_status j = Queued \<and> job_attempts j = 0 \<and> job_error j = [] \<and>
     job_started j = None \<and> job_finished j = None"
  by (cases j) (auto simp: new_job_row_def)

lemma CreateJob_queues:
  assumes "store_CreateJob j s1 = Inr (r, s2)" "1 \<le> job_max j" "jobs s1 = jobs s" "jobs s' = jobs s2"
  shows "queues_one s r s'"
  using CreateJob_Inr [OF assms(1)] assms(2-) by (simp add: queues_one_def)

lemma createJob_queues:
  assumes "createJob j s1 = Inr (r, s2)" "1 \<le> job_max j" "jobs s1 = jobs s" "jobs s' = jobs s2"
  shows "queues_one s r s'"
  using assms by (auto simp: createJob_def intro: CreateJob_queues)

lemma CreateJob_eq:
  "store_CreateJob j s = Inr (r, s') \<Longrightarrow> r = new_job_row j \<and> s' = s\<lparr>jobs := jobs s @ [new_job_row j]\<rparr>"
  by (auto dest: CreateJob_Inr(1,2))

lemma createJob_Inr:
  "createJob j s = Inr (r, s') \<Longrightarrow> r = new_job_row j \<and> s' = s\<lparr>jobs := jobs s @ [new_job_row j]\<rparr>"
  by (auto simp: createJob_def dest: CreateJob_Inr(1,2))

section \<open>Invariant of the queue\<close>

lemma queue_inv_update:
  assumes "queue_inv s" "\<And>r. job_id (f r) = job_id r"
    "\<And>r. r \<in> set (jobs s) \<Longrightarrow> job_id r = i \<Longrightarrow> job_ok (f r)"
  shows "queue_inv (s\<lparr>jobs := update_by job_id i f (jobs s)\<rparr>)"
proof -
  have m: "map job_id (update_by job_id i f (jobs s)) = map job_id (jobs s)"
    unfolding update_by_def by (rule distinct_map_key_update) (simp add: assms(2))
  have "\<forall>j \<in> set (update_by job_id i f (jobs s)). job_ok j"
    using assms by (auto simp: update_by_def queue_inv_def)
  with assms(1) m show ?thesis
    by (simp add: queue_inv_def)
qed

lemma queue_step_inv:
  assumes "queue_step s l s'" "queue_inv s"
  shows "queue_inv s'"
  using assms
proof (cases rule: queue_step.cases)
  case (enqueue j)
  have "job_ok j"
    using enqueue row_ok(1) [of j] by (simp add: queues_one_def)
  then show ?thesis
    using assms(2) enqueue by (auto simp: queue_inv_def queues_one_def)
next
  case (claim now j)
  from claim(2) obtain t where t: "claim_target s = Some t"
    and s': "s' = s\<lparr>jobs := update_by job_id (job_id t) (claim_row now) (jobs s)\<rparr>"
    by (rule ClaimJob_Inr)
  have ok: "job_ok (claim_row now t)"
    using assms(2) claim_target_Some(1,2) [OF t] by (auto simp: queue_inv_def row_ok)
  have "r = t" if "r \<in> set (jobs s)" "job_id r = job_id t" for r
    using that assms(2) claim_target_Some(1) [OF t]
    unfolding queue_inv_def by (metis distinct_key_unique)
  with ok show ?thesis
    unfolding s' by (intro queue_inv_update [OF assms(2)]) fastforce+
next
  case (complete i now)
  show ?thesis
    unfolding complete(2) store_CompleteJob_def
    by (rule queue_inv_update [OF assms(2)]) (use assms(2) in \<open>auto simp: queue_inv_def row_ok\<close>)
next
  case (retry i msg)
  show ?thesis
    unfolding retry(2) store_RetryJob_def
    by (rule queue_inv_update [OF assms(2)]) (use assms(2) in \<open>auto simp: queue_inv_def row_ok\<close>)
next
  case (give_up i msg now)
  show ?thesis
    unfolding give_up(2) store_FailJob_def
    by (rule queue_inv_update [OF assms(2)]) (use assms(2) in \<open>auto simp: queue_inv_def row_ok\<close>)
next
  case restart
  then show ?thesis using assms(2)
    by (simp add: store_RecoverJobs_def queue_inv_def row_ok comp_def)
next
  case internal
  then show ?thesis using assms(2) by (simp add: queue_inv_def)
qed

lemma queue_trace_inv: "queue_trace s ls s' \<Longrightarrow> queue_inv s \<Longrightarrow> queue_inv s'"
  by (induction rule: queue_trace.induct) (auto dest: queue_step_inv)

lemma queue_inv_empty [simp]: "queue_inv empty_db"
  by (simp add: queue_inv_def empty_db_def)

section \<open>Operations that queue a job\<close>

text \<open>
  The contract of every request that changes a host: on success it appends exactly one queued
  job, which it returns, and nothing else in the queue changes; on failure the transaction is
  rolled back, which the type already says.
\<close>

locale queued_operation =
  fixes op :: "'a \<Rightarrow> db \<Rightarrow> err + (('b \<times> job) \<times> db)"
  assumes enqueues: "op a s = Inr ((v, j), s') \<Longrightarrow> queues_one s j s'"
begin

lemma one_step: "op a s = Inr ((v, j), s') \<Longrightarrow> queue_step s (Enqueued (job_id j)) s'"
  by (rule queue_step.enqueue) (rule enqueues)

lemma keeps_queue_inv: "op a s = Inr ((v, j), s') \<Longrightarrow> queue_inv s \<Longrightarrow> queue_inv s'"
  using one_step queue_step_inv by blast

lemma returned_job:
  "op a s = Inr ((v, j), s') \<Longrightarrow> jobs s' = jobs s @ [j] \<and> job_status j = Queued \<and> runnable j"
  using enqueues [of a s v j s'] by (auto simp: queues_one_def new_job_row_fixed runnable_def)

end

section \<open>Finished jobs and the number of executions\<close>

lemma queue_step_terminal:
  assumes "queue_step s l s'" "queue_inv s" "j \<in> set (jobs s)" "terminal j"
  shows "j \<in> set (jobs s')"
  using assms(1)
proof (cases rule: queue_step.cases)
  case (enqueue j')
  then show ?thesis using assms(3) by (simp add: queues_one_def)
next
  case (claim now r)
  from claim(2) obtain t where t: "claim_target s = Some t"
    and s': "s' = s\<lparr>jobs := update_by job_id (job_id t) (claim_row now) (jobs s)\<rparr>"
    by (rule ClaimJob_Inr)
  have "j \<noteq> t"
    using claim_target_Some(2) [OF t] assms(4) by (auto simp: runnable_def terminal_def)
  then have "job_id j \<noteq> job_id t"
    using assms(2,3) claim_target_Some(1) [OF t]
    unfolding queue_inv_def by (metis distinct_key_unique)
  then show ?thesis
    using update_by_mem [OF assms(3), of job_id "job_id t" "claim_row now"] by (simp add: s')
next
  case (complete i now)
  then show ?thesis
    using update_by_mem [OF assms(3), of job_id i "complete_row now"] assms(4)
    by (simp add: store_CompleteJob_def terminal_rows split: if_splits)
next
  case (retry i msg)
  then show ?thesis
    using update_by_mem [OF assms(3), of job_id i "retry_row msg"] assms(4)
    by (simp add: store_RetryJob_def terminal_rows split: if_splits)
next
  case (give_up i msg now)
  then show ?thesis
    using update_by_mem [OF assms(3), of job_id i "fail_row msg now"] assms(4)
    by (simp add: store_FailJob_def terminal_rows split: if_splits)
next
  case restart
  then show ?thesis
    using assms(3,4) by (auto simp: store_RecoverJobs_def terminal_rows intro!: image_eqI [where x = j])
next
  case internal
  then show ?thesis using assms(3) by simp
qed

text \<open>
  A job keeps a budget: the number of times it was claimed is at most its attempts plus the
  number of restarts, since a restart takes back the attempt it interrupted.
\<close>

definition claim_budget :: "queue_label list \<Rightarrow> db \<Rightarrow> bool" where
  "claim_budget ls s \<longleftrightarrow>
     (\<forall>j \<in> set (jobs s). int (count_list ls (Claimed (job_id j))) \<le>
        job_attempts j + int (count_list ls Restarted)) \<and>
     (\<forall>i. i \<notin> job_id ` set (jobs s) \<longrightarrow> count_list ls (Claimed i) = 0)"

lemma count_list_snoc [simp]:
  "count_list (ls @ [l]) x = count_list ls x + (if l = x then 1 else 0)"
  by (induction ls) auto

lemma claim_budget_update:
  assumes "claim_budget ls s" "\<And>r. job_id (f r) = job_id r"
    "\<And>r. job_attempts r \<le> job_attempts (f r)" "l \<notin> range Claimed" "l \<noteq> Restarted"
  shows "claim_budget (ls @ [l]) (s\<lparr>jobs := update_by job_id i f (jobs s)\<rparr>)"
proof -
  have keys: "job_id ` set (update_by job_id i f (jobs s)) = job_id ` set (jobs s)"
    by (rule update_by_key_set) (rule assms(2))
  have "int (count_list ls (Claimed (job_id j))) \<le> job_attempts j + int (count_list ls Restarted)"
    if j: "j \<in> set (update_by job_id i f (jobs s))" for j
  proof -
    obtain r where r: "r \<in> set (jobs s)" "j = (if job_id r = i then f r else r)"
      using j by (auto simp: update_by_def)
    then have "job_attempts r \<le> job_attempts j" "job_id j = job_id r"
      using assms(2,3) by auto
    moreover have "int (count_list ls (Claimed (job_id r))) \<le>
        job_attempts r + int (count_list ls Restarted)"
      using assms(1) r(1) by (simp add: claim_budget_def)
    ultimately show ?thesis by simp
  qed
  moreover have "l \<noteq> Claimed k" for k
    using assms(4) by auto
  ultimately show ?thesis
    using assms(1,5) by (simp add: claim_budget_def keys)
qed

lemma claim_budget_claim:
  assumes "claim_budget ls s" "queue_inv s" "claim_target s = Some t"
  shows "claim_budget (ls @ [Claimed (job_id t)])
    (s\<lparr>jobs := update_by job_id (job_id t) (claim_row now) (jobs s)\<rparr>)"
proof -
  have keys: "job_id ` set (update_by job_id (job_id t) (claim_row now) (jobs s)) = job_id ` set (jobs s)"
    by (rule update_by_key_set) simp
  have "int (count_list (ls @ [Claimed (job_id t)]) (Claimed (job_id j))) \<le>
      job_attempts j + int (count_list ls Restarted)"
    if j: "j \<in> set (update_by job_id (job_id t) (claim_row now) (jobs s))" for j
  proof -
    obtain r where r: "r \<in> set (jobs s)" "j = (if job_id r = job_id t then claim_row now r else r)"
      using j by (auto simp: update_by_def)
    moreover have "int (count_list ls (Claimed (job_id r))) \<le>
        job_attempts r + int (count_list ls Restarted)"
      using assms(1) r(1) by (simp add: claim_budget_def)
    ultimately show ?thesis
      by (auto simp: claim_row_def)
  qed
  moreover have "job_id t \<in> job_id ` set (jobs s)"
    using claim_target_Some(1) [OF assms(3)] by simp
  ultimately show ?thesis
    using assms(1) by (auto simp: claim_budget_def keys)
qed

lemma claim_budget_step:
  assumes "queue_step s l s'" "queue_inv s" "claim_budget ls s"
  shows "claim_budget (ls @ [l]) s'"
  using assms(1)
proof (cases rule: queue_step.cases)
  case (enqueue j)
  have "count_list ls (Claimed (job_id j)) = 0"
    using enqueue assms(3) by (simp add: claim_budget_def queues_one_def)
  moreover have "job_attempts j = 0"
    using enqueue by (simp add: queues_one_def new_job_row_fixed)
  ultimately show ?thesis
    using assms(3) enqueue by (auto simp: claim_budget_def queues_one_def)
next
  case (claim now j)
  from claim(2) obtain t where t: "claim_target s = Some t" "j = claim_row now t"
    and s': "s' = s\<lparr>jobs := update_by job_id (job_id t) (claim_row now) (jobs s)\<rparr>"
    by (rule ClaimJob_Inr)
  then show ?thesis
    using claim_budget_claim [OF assms(3,2) t(1)] claim(1) by simp
next
  case (complete i now)
  show ?thesis
    unfolding complete store_CompleteJob_def
    by (rule claim_budget_update [OF assms(3)]) (auto simp: complete_row_def)
next
  case (retry i msg)
  show ?thesis
    unfolding retry store_RetryJob_def
    by (rule claim_budget_update [OF assms(3)]) (auto simp: retry_row_def)
next
  case (give_up i msg now)
  show ?thesis
    unfolding give_up store_FailJob_def
    by (rule claim_budget_update [OF assms(3)]) (auto simp: fail_row_def)
next
  case restart
  have "job_attempts j \<le> job_attempts (recover_row j) + 1" if "j \<in> set (jobs s)" for j
    using assms(2) that by (auto simp: recover_row_def queue_inv_def job_ok_def)
  moreover have "job_id ` set (map recover_row (jobs s)) = job_id ` set (jobs s)"
    by (force simp: image_iff)
  ultimately show ?thesis
    using assms(3) restart by (fastforce simp: claim_budget_def store_RecoverJobs_def)
next
  case internal
  then show ?thesis using assms(3) by (simp add: claim_budget_def)
qed

lemma trace_claim_budget:
  assumes "queue_trace s0 ls s" "s0 = empty_db"
  shows "claim_budget ls s \<and> queue_inv s"
  using assms
proof (induction rule: queue_trace.induct)
  case (start s)
  then show ?case by (simp add: claim_budget_def) (simp add: empty_db_def)
next
  case (snoc s ls s' l s'')
  then show ?case using claim_budget_step queue_step_inv by blast
qed

section \<open>The worker follows the queue\<close>

lemma jobs_FinishStep [row_simps, simp]: "jobs (store_FinishStep i st msg now s) = jobs s"
  by (simp add: store_FinishStep_def)

lemma jobs_finish_step [row_simps, simp]: "jobs (worker_finish_step t i st msg s) = jobs s"
  by (simp add: worker_finish_step_def)

lemma jobs_worker_record [row_simps, simp]: "jobs (worker_record t j res s) = jobs s"
  by (simp add: worker_record_def store_Record_def split: option.split sum.split)

lemma jobs_CreateStep: "store_CreateStep st s = Inr (r, s') \<Longrightarrow> jobs s' = jobs s"
  by (auto simp: store_CreateStep_def Let_def split: if_splits)

text \<open>What one run of a claimed job may do to the table.\<close>

inductive run_effect :: "job \<Rightarrow> db \<Rightarrow> bool \<times> db \<Rightarrow> bool" where
  nothing: "jobs s' = jobs s \<Longrightarrow> run_effect j s (b, s')"
| completed: "jobs s' = jobs (store_CompleteJob (job_id j) now s) \<Longrightarrow> run_effect j s (False, s')"
| failed: "jobs s' = jobs (store_FailJob (job_id j) msg now s) \<Longrightarrow> run_effect j s (False, s')"
| retried: "jobs s' = jobs (store_RetryJob (job_id j) msg s) \<Longrightarrow> run_effect j s (True, s')"

lemma run_effect_fail:
  "jobs s' = jobs s \<Longrightarrow> run_effect j s (False, worker_fail t j msg s')"
  by (cases "trn_end_fault t")
    (auto simp: worker_fail_def store_FailJob_def intro: run_effect.intros)

lemma queue_trace_append:
  "queue_trace s' ks s'' \<Longrightarrow> queue_trace s ls s' \<Longrightarrow> queue_trace s (ls @ ks) s''"
proof (induction rule: queue_trace.induct)
  case (snoc s ks s' l s'')
  then show ?case by (metis append.assoc queue_trace.snoc)
qed simp

lemma run_effect_trace:
  assumes "run_effect j s1 (again, s2)" "queue_trace s ls s1"
  shows "\<exists>ks. queue_trace s (ls @ ks) s2 \<and> Restarted \<notin> set ks \<and> (\<forall>i. Claimed i \<notin> set ks)"
proof -
  have two: "\<exists>ks. queue_trace s (ls @ ks) s2 \<and> Restarted \<notin> set ks \<and> (\<forall>i. Claimed i \<notin> set ks)"
    if "queue_step s1 l s3" "jobs s2 = jobs s3" "l \<noteq> Restarted" "\<forall>i. l \<noteq> Claimed i" for l s3
  proof -
    have "queue_trace s ((ls @ [l]) @ [Internal]) s2"
      by (rule queue_trace.snoc [OF queue_trace.snoc [OF assms(2) that(1)] queue_step.internal [OF that(2)]])
    then show ?thesis
      using that by (intro exI [of _ "[l, Internal]"]) auto
  qed
  from assms(1) show ?thesis
  proof cases
    case nothing
    then show ?thesis
      using assms(2) by (intro exI [of _ "[Internal]"]) (auto intro: queue_trace.snoc internal)
  next
    case (completed now)
    then show ?thesis using two [OF queue_step.complete] by simp
  next
    case (failed msg now)
    then show ?thesis using two [OF queue_step.give_up] by simp
  next
    case (retried msg)
    then show ?thesis using two [OF queue_step.retry] by simp
  qed
qed

definition runnable_count :: "db \<Rightarrow> nat" where
  "runnable_count s = length (filter runnable (jobs s))"

lemma filter_update_le:
  assumes "\<And>r. runnable (f r) \<Longrightarrow> runnable r"
  shows "length (filter runnable (update_by job_id i f rs)) \<le> length (filter runnable rs)"
  using assms by (induction rs) (auto simp: update_by_def)

lemma run_effect_count:
  assumes "run_effect j s (False, s')"
  shows "runnable_count s' \<le> runnable_count s"
  using assms
  by cases (auto simp: runnable_count_def store_CompleteJob_def store_FailJob_def
      complete_row_def fail_row_def runnable_def split: if_splits intro!: filter_update_le)

lemma claim_count:
  assumes "store_ClaimJob now s = Inr (j, s')"
  shows "runnable_count s' < runnable_count s"
proof -
  from assms obtain t where t: "claim_target s = Some t"
    and s': "s' = s\<lparr>jobs := update_by job_id (job_id t) (claim_row now) (jobs s)\<rparr>"
    by (rule ClaimJob_Inr)
  have "length (filter runnable (update_by job_id (job_id t) (claim_row now) rs)) <
      length (filter runnable rs)" if "t \<in> set rs" for rs
    using that
  proof (induction rs)
    case (Cons r rs)
    have "length (filter runnable (update_by job_id (job_id t) (claim_row now) rs)) \<le>
        length (filter runnable rs)"
      by (rule filter_update_le) (simp add: runnable_def claim_row_def)
    moreover have "\<not> runnable (claim_row now q)" for q
      by (simp add: runnable_def claim_row_def)
    ultimately show ?case
      using Cons claim_target_Some(2) [OF t] by auto
  qed simp
  then show ?thesis
    using claim_target_Some(1) [OF t] by (simp add: runnable_count_def s')
qed

text \<open>
  The contract between the worker and the handlers registered in
  \<open>cmd/webycp-server/main.go\<close>: a handler changes resources, never the queue.  The
  environment \<open>e\<close> is what a handler reads from outside (clock, agent replies, new
  identifiers), so it may differ from turn to turn.
\<close>

locale job_handlers =
  fixes dispatch :: "'e \<Rightarrow> dispatcher"
  assumes keeps_jobs: "dispatch e k = Some h \<Longrightarrow> jobs (snd (h j s)) = jobs s"
begin

lemma worker_run_effect:
  assumes "trn_handlers t = dispatch e"
  shows "run_effect j s (worker_run render t j s)"
proof (cases "trn_step_id t")
  case None
  then show ?thesis by (simp add: worker_run_def run_effect_fail)
next
  case (Some sid)
  let ?st = "\<lparr>stp_id = sid, stp_job = job_id j, stp_name = job_kind_of j, stp_status = Running,
    stp_message = [], stp_started = trn_now t, stp_finished = None\<rparr>"
  let ?c = "if trn_step_fault t then Inl (Plain ''store fault'') else store_CreateStep ?st s"
  show ?thesis
  proof (cases ?c)
    case (Inl err)
    then show ?thesis using Some by (simp add: worker_run_def run_effect_fail)
  next
    case (Inr p)
    obtain st s1 where p: "p = (st, s1)" by (cases p)
    have s1: "jobs s1 = jobs s"
      using Inr p by (auto split: if_splits dest: jobs_CreateStep)
    define o2 where "o2 = (case trn_handlers t (job_kind_of j) of
        None \<Rightarrow> (Some (Plain (''unsupported job kind: '' @ kind_text (job_kind_of j))), s1)
      | Some h \<Rightarrow> h j s1)"
    obtain r s2 where o: "o2 = (r, s2)" by (cases o2)
    have s2: "jobs s2 = jobs s"
      using o s1 keeps_jobs assms unfolding o2_def
      by (auto split: option.splits) (metis snd_conv)
    have "worker_run render t j s = (case o2 of
        (None, s2) \<Rightarrow>
          let s3 = worker_finish_step t (stp_id st) Succeeded [] s2 in
          (False, if trn_end_fault t then s3
                  else worker_record t j ''success'' (store_CompleteJob (job_id j) (trn_now t) s3))
      | (Some e, s2) \<Rightarrow>
          let msg = safeError render e;
              s3 = worker_finish_step t (stp_id st) Failed msg s2 in
          if job_attempts j < job_max j
          then (True, if trn_end_fault t then s3 else store_RetryJob (job_id j) msg s3)
          else (False, worker_fail t j msg s3))"
      using Some Inr p by (simp add: worker_run_def o2_def)
    then show ?thesis
      using s2 by (auto simp: o Let_def store_CompleteJob_def store_RetryJob_def run_effect_fail
          split: option.split intro: run_effect.intros)
  qed
qed

lemma drain_ends:
  assumes "\<And>n. \<exists>e. trn_handlers (ts n) = dispatch e"
  shows "\<exists>again s' ls. worker_drain render ts n s = Some (again, s') \<and>
    queue_trace s ls s' \<and> Restarted \<notin> set ls \<and> (\<not> again \<longrightarrow> claim_target s' = None)"
proof (induction "runnable_count s" arbitrary: n s rule: less_induct)
  case less
  show ?case
  proof (cases "trn_claim_fault (ts n)")
    case True
    then have "worker_drain render ts n s = Some (True, s)"
      by (subst worker_drain.simps) simp
    then show ?thesis
      by (intro exI [of _ True] exI [of _ s] exI [of _ "[]"]) (simp add: queue_trace.start)
  next
    case no_fault: False
    show ?thesis
    proof (cases "store_ClaimJob (trn_now (ts n)) s")
      case (Inl err)
      then have "claim_target s = None"
        by (auto simp: store_ClaimJob_def split: option.splits)
      moreover have "worker_drain render ts n s = Some (False, s)"
        using no_fault Inl by (subst worker_drain.simps) simp
      ultimately show ?thesis
        by (intro exI [of _ False] exI [of _ s] exI [of _ "[]"]) (simp add: queue_trace.start)
    next
      case (Inr p)
      obtain j s1 where p: "p = (j, s1)" by (cases p)
      obtain again s2 where run: "worker_run render (ts n) j s1 = (again, s2)"
        by (cases "worker_run render (ts n) j s1")
      obtain e where "trn_handlers (ts n) = dispatch e"
        using assms by blast
      then have eff: "run_effect j s1 (again, s2)"
        using worker_run_effect run by metis
      have "queue_trace s [Claimed (job_id j)] s1"
        using Inr p queue_trace.snoc [OF queue_trace.start queue_step.claim] by fastforce
      from run_effect_trace [OF eff this] obtain ks where
        ks: "queue_trace s (Claimed (job_id j) # ks) s2" "Restarted \<notin> set ks" by auto
      have step: "worker_drain render ts n s =
          (if again then Some (True, s2) else worker_drain render ts (Suc n) s2)"
        using no_fault Inr p run by (subst worker_drain.simps) simp
      show ?thesis
      proof (cases again)
        case True
        then show ?thesis using step ks by fastforce
      next
        case False
        have "runnable_count s2 < runnable_count s"
          using claim_count [of "trn_now (ts n)" s j s1] Inr p run_effect_count [of j s1 s2] eff False
          by simp
        from less [OF this, of "Suc n"] obtain b s' ls where
          "worker_drain render ts (Suc n) s2 = Some (b, s')" "queue_trace s2 ls s'"
          "Restarted \<notin> set ls" "\<not> b \<longrightarrow> claim_target s' = None" by blast
        then show ?thesis
          using step False ks queue_trace_append [OF _ ks(1), of ls s']
          by (intro exI [of _ b] exI [of _ s'] exI [of _ "(Claimed (job_id j) # ks) @ ls"]) auto
      qed
    qed
  qed
qed

end

lemma find_update_same:
  assumes "distinct (map job_id (jobs s))" "j \<in> set (jobs s)"
    "\<And>r. job_id (f r) = job_id r"
  shows "find_by job_id (job_id j) (update_by job_id (job_id j) f (jobs s)) = Some (f j)"
  using job_table.find_after_update [of "job_id j" f "job_id j" s] assms
    job_table.find_unique [OF assms(1,2)] by simp

section \<open>Properties\<close>

definition sample_job :: job where
  "sample_job = \<lparr>job_id = ''a'', job_node = [], job_user = [], job_kind_of = KindDatabaseUserCreate,
     job_status = Queued, job_payload = [(''password'', JStr ''s'')], job_attempts = 0, job_max = 2,
     job_error = [], job_created = 5, job_started = None, job_finished = None\<rparr>"

definition sample_queue :: db where
  "sample_queue = empty_db\<lparr>jobs := [sample_job]\<rparr>"

lemma sample_enqueued: "queue_trace empty_db [Enqueued ''a''] sample_queue"
proof -
  have "store_CreateJob sample_job empty_db = Inr (sample_job, sample_queue)"
    by (simp add: store_CreateJob_def sample_job_def sample_queue_def empty_db_def exists_by_def
        new_job_row_def)
  then have "queue_step empty_db (Enqueued (job_id sample_job)) sample_queue"
    using CreateJob_queues [of sample_job empty_db sample_job sample_queue empty_db sample_queue]
    by (intro queue_step.enqueue) (simp add: sample_job_def)
  from queue_trace.snoc [OF queue_trace.start this] show ?thesis
    by (simp add: sample_job_def)
qed

lemma sample_claim:
  "store_ClaimJob 7 sample_queue = Inr (claim_row 7 sample_job, sample_queue\<lparr>jobs := [claim_row 7 sample_job]\<rparr>)"
  by (simp add: store_ClaimJob_def claim_target_def sample_queue_def sample_job_def runnable_def
      order_asc_def update_by_def)

text \<open>every state the queue reaches is well formed: identifiers are unique, a queued job
  has attempts left, a running job has a start time and no end time, the number of attempts is
  between zero and the maximum, and a finished job has an end time and no password left in its
  payload.\<close>

theorem queue_always_well_formed:
  assumes "queue_trace empty_db ls s"
  shows "queue_inv s"
  using assms by (rule queue_trace_inv) simp

theorem queue_always_well_formed_witness: "queue_inv sample_queue"
  by (rule queue_always_well_formed [OF sample_enqueued])

text \<open>C23: a finished job is final: whatever requests, worker and restarts do afterwards, its
  row is still there, unchanged.\<close>

theorem finished_job_is_final:
  assumes "queue_trace s ls s'" "queue_inv s" "j \<in> set (jobs s)" "terminal j"
  shows "j \<in> set (jobs s')"
  using assms
proof (induction rule: queue_trace.induct)
  case (snoc s ls s' l s'')
  then show ?case using queue_step_terminal queue_trace_inv by blast
qed

definition done_job :: job where
  "done_job = sample_job\<lparr>job_status := Succeeded, job_payload := [], job_attempts := 1,
     job_started := Some 6, job_finished := Some 8\<rparr>"

theorem finished_job_is_final_witness:
  "done_job \<in> set (jobs (store_RecoverJobs (empty_db\<lparr>jobs := [done_job]\<rparr>)))"
proof (rule finished_job_is_final)
  show "queue_trace (empty_db\<lparr>jobs := [done_job]\<rparr>) ([] @ [Restarted])
      (store_RecoverJobs (empty_db\<lparr>jobs := [done_job]\<rparr>))"
    by (rule queue_trace.snoc [OF queue_trace.start queue_step.restart])
qed (simp_all add: queue_inv_def job_ok_def terminal_def no_secret_def done_job_def sample_job_def)

text \<open>C22: a job is handed to a handler at most \<open>max_attempts\<close> times, plus once for every
  restart of the server (a restart gives back the attempt it interrupted).\<close>

theorem executions_bounded:
  assumes "queue_trace empty_db ls s" "j \<in> set (jobs s)"
  shows "int (count_list ls (Claimed (job_id j))) \<le> job_max j + int (count_list ls Restarted)"
proof -
  have "claim_budget ls s" "queue_inv s"
    using trace_claim_budget [OF assms(1)] by auto
  with assms(2) show ?thesis
    by (force simp: claim_budget_def queue_inv_def job_ok_def)
qed

theorem executions_bounded_witness:
  "int (count_list [Enqueued ''a''] (Claimed (job_id sample_job))) \<le>
     job_max sample_job + int (count_list [Enqueued ''a''] Restarted)"
  by (rule executions_bounded [OF sample_enqueued]) (simp add: sample_queue_def)

text \<open>\<open>ClaimJob\<close> is first in, first out: it takes a runnable job with the least creation
  time, of several with that time the one inserted first; the job becomes running with one
  more attempt and a cleared error, and every other row stays as it was.\<close>

theorem claim_takes_oldest:
  assumes "store_ClaimJob now s = Inr (j, s')" "queue_inv s"
  shows "\<exists>t later. j = claim_row now t \<and> t \<in> set (jobs s) \<and> runnable t \<and>
    (\<forall>r \<in> set (jobs s). runnable r \<longrightarrow> job_created t \<le> job_created r) \<and>
    filter (\<lambda>r. runnable r \<and> job_created r = job_created t) (jobs s) = t # later \<and>
    jobs s' = map (\<lambda>r. if r = t then j else r) (jobs s)"
proof -
  from assms(1) obtain t where t: "claim_target s = Some t" "j = claim_row now t"
    and s': "s' = s\<lparr>jobs := update_by job_id (job_id t) (claim_row now) (jobs s)\<rparr>"
    by (rule ClaimJob_Inr)
  have "(job_id r = job_id t) = (r = t)" if "r \<in> set (jobs s)" for r
    using that assms(2) claim_target_Some(1) [OF t(1)]
    unfolding queue_inv_def by (metis distinct_key_unique)
  then have "jobs s' = map (\<lambda>r. if r = t then j else r) (jobs s)"
    by (simp add: s' t(2) update_by_def)
  then show ?thesis
    using claim_target_Some [OF t(1)] claim_target_first [OF t(1)] t(2) by blast
qed

theorem claim_takes_oldest_witness:
  "\<exists>t later. claim_row 7 sample_job = claim_row 7 t \<and> t \<in> set (jobs sample_queue) \<and> runnable t \<and>
    (\<forall>r \<in> set (jobs sample_queue). runnable r \<longrightarrow> job_created t \<le> job_created r) \<and>
    filter (\<lambda>r. runnable r \<and> job_created r = job_created t) (jobs sample_queue) = t # later \<and>
    jobs (sample_queue\<lparr>jobs := [claim_row 7 sample_job]\<rparr>) =
      map (\<lambda>r. if r = t then claim_row 7 sample_job else r) (jobs sample_queue)"
  by (rule claim_takes_oldest [OF sample_claim])
    (simp add: queue_inv_def sample_queue_def sample_job_def job_ok_def)

text \<open>What one execution does to its job when the store answers: success marks it
  succeeded; an error with attempts left puts it back in the queue with the message and stops
  the drain until the next tick; an error on the last attempt marks it failed.  The stored
  message never exceeds 500 bytes.\<close>

theorem worker_run_outcome:
  assumes "queue_inv s" "j \<in> set (jobs s)" "job_status j = Running"
    and "trn_step_id t = Some sid" "\<not> exists_by stp_id sid (job_steps s)"
    and "\<not> trn_step_fault t" "\<not> trn_end_fault t"
    and "trn_handlers t (job_kind_of j) = Some h"
    and "\<And>s1. fst (h j s1) = r" "\<And>s1. jobs (snd (h j s1)) = jobs s1"
  shows "fst (worker_run render t j s) = (r \<noteq> None \<and> job_attempts j < job_max j) \<and>
    find_by job_id (job_id j) (jobs (snd (worker_run render t j s))) = Some (case r of
        None \<Rightarrow> complete_row (trn_now t) j
      | Some e \<Rightarrow>
          if job_attempts j < job_max j then retry_row (safeError render e) j
          else fail_row (safeError render e) (trn_now t) j) \<and>
    length (safeError render e') \<le> 500"
proof -
  let ?st = "\<lparr>stp_id = sid, stp_job = job_id j, stp_name = job_kind_of j, stp_status = Running,
    stp_message = [], stp_started = trn_now t, stp_finished = None\<rparr>"
  have "exists_by job_id (job_id j) (jobs s)"
    using assms(2) by (simp add: job_table.exists_iff)
  then obtain s1 where s1: "store_CreateStep ?st s = Inr (?st, s1)" "jobs s1 = jobs s"
    using assms(5) by (simp add: store_CreateStep_def Let_def)
  obtain s2 where s2: "h j s1 = (r, s2)" "jobs s2 = jobs s"
    using assms(9,10) [of s1] s1(2) by (metis prod.collapse)
  have d: "distinct (map job_id (jobs s))"
    using assms(1) by (simp add: queue_inv_def)
  have run: "worker_run render t j s = (case r of
      None \<Rightarrow> (False, worker_record t j ''success''
        (store_CompleteJob (job_id j) (trn_now t) (worker_finish_step t sid Succeeded [] s2)))
    | Some e \<Rightarrow>
        if job_attempts j < job_max j
        then (True, store_RetryJob (job_id j) (safeError render e)
          (worker_finish_step t sid Failed (safeError render e) s2))
        else (False, worker_fail t j (safeError render e)
          (worker_finish_step t sid Failed (safeError render e) s2)))"
    using assms(4,6,7,8) s1(1) s2(1) by (simp add: worker_run_def Let_def split: option.split)
  have "fst (worker_run render t j s) = (r \<noteq> None \<and> job_attempts j < job_max j)"
    by (simp add: run split: option.split)
  moreover have "find_by job_id (job_id j) (jobs (snd (worker_run render t j s))) = Some (case r of
        None \<Rightarrow> complete_row (trn_now t) j
      | Some e \<Rightarrow>
          if job_attempts j < job_max j then retry_row (safeError render e) j
          else fail_row (safeError render e) (trn_now t) j)"
    using find_update_same [OF d assms(2)] s2(2) assms(7)
    by (auto simp: run store_CompleteJob_def store_RetryJob_def worker_fail_def store_FailJob_def
        split: option.split)
  moreover have "length (safeError render e') \<le> 500"
    by (simp add: safeError_def)
  ultimately show ?thesis by blast
qed

definition failing_turn :: turn where
  "failing_turn = \<lparr>trn_now = 9, trn_claim_fault = False, trn_step_id = Some ''s'',
     trn_step_fault = False, trn_finish_fault = False, trn_end_fault = False,
     trn_audit_id = Some ''e'', trn_audit_fault = False,
     trn_handlers = (\<lambda>k. Some (\<lambda>j s. (Some (Plain ''boom''), s)))\<rparr>"

theorem worker_run_outcome_witness:
  "fst (worker_run (\<lambda>_. ''boom'') failing_turn (claim_row 7 sample_job)
      (sample_queue\<lparr>jobs := [claim_row 7 sample_job]\<rparr>)) \<and>
   find_by job_id ''a'' (jobs (snd (worker_run (\<lambda>_. ''boom'') failing_turn (claim_row 7 sample_job)
      (sample_queue\<lparr>jobs := [claim_row 7 sample_job]\<rparr>)))) =
    Some (sample_job\<lparr>job_attempts := 1, job_error := ''boom''\<rparr>)"
  using worker_run_outcome [where t = failing_turn and j = "claim_row 7 sample_job"
      and s = "sample_queue\<lparr>jobs := [claim_row 7 sample_job]\<rparr>" and sid = "''s''"
      and h = "\<lambda>j s. (Some (Plain ''boom''), s)" and r = "Some (Plain ''boom'')"
      and render = "\<lambda>_. ''boom''"]
  by (simp add: failing_turn_def queue_inv_def job_ok_def claim_row_def sample_job_def
      sample_queue_def empty_db_def exists_by_def retry_row_def safeError_def)

end
