(* ===== verification/Passwords.thy ===== *)
theory Passwords
  imports Validate
begin

text \<open>
  \<open>internal/auth/password.go\<close>: the encoding of password hashes.  The key derivation
  (\<open>argon2.IDKey\<close>) is the parameter \<open>ext_argon2\<close> with its arguments password, salt, time,
  memory, threads and key length; the salt is the random source's output.  Salt and key are
  byte strings.  The lemmas give the base64 and decimal round trips behind
  \<open>VerifyPassword (HashPassword p) = true\<close>.
\<close>

definition passwordMemory :: nat where "passwordMemory = 64 * 1024"
definition passwordTime :: nat where "passwordTime = 3"
definition passwordThreads :: nat where "passwordThreads = 2"
definition passwordSaltLen :: nat where "passwordSaltLen = 16"
definition passwordKeyLen :: nat where "passwordKeyLen = 32"

section \<open>Base64 without padding\<close>

text \<open>\<open>base64.RawStdEncoding\<close>; the decoder skips carriage returns and line feeds.\<close>

definition b64_char :: "nat \<Rightarrow> char" where
  "b64_char n =
     (if n < 26 then char_of (65 + n) else if n < 52 then char_of (71 + n)
      else if n < 62 then char_of (n - 4) else if n = 62 then CHR ''+'' else CHR ''/'')"

definition b64_value :: "char \<Rightarrow> nat option" where
  "b64_value c =
     (if bytes_between 65 90 c then Some (byte c - 65)
      else if bytes_between 97 122 c then Some (byte c - 71)
      else if bytes_between 48 57 c then Some (byte c + 4)
      else if c = CHR ''+'' then Some 62 else if c = CHR ''/'' then Some 63 else None)"

fun b64_encode :: "string \<Rightarrow> string" where
  "b64_encode (a # b # c # s) =
     b64_char (byte a div 4) # b64_char (byte a mod 4 * 16 + byte b div 16) #
     b64_char (byte b mod 16 * 4 + byte c div 64) # b64_char (byte c mod 64) # b64_encode s"
| "b64_encode [a, b] =
     [b64_char (byte a div 4), b64_char (byte a mod 4 * 16 + byte b div 16), b64_char (byte b mod 16 * 4)]"
| "b64_encode [a] = [b64_char (byte a div 4), b64_char (byte a mod 4 * 16)]"
| "b64_encode [] = []"

fun b64_groups :: "nat list \<Rightarrow> string option" where
  "b64_groups (a # b # c # d # s) =
     map_option (\<lambda>r. char_of (a * 4 + b div 16) # char_of (b mod 16 * 16 + c div 4) #
       char_of (c mod 4 * 64 + d) # r) (b64_groups s)"
| "b64_groups [a, b, c] = Some [char_of (a * 4 + b div 16), char_of (b mod 16 * 16 + c div 4)]"
| "b64_groups [a, b] = Some [char_of (a * 4 + b div 16)]"
| "b64_groups [a] = None"
| "b64_groups [] = Some []"

definition b64_decode :: "string \<Rightarrow> string option" where
  "b64_decode s =
     (let cs = filter (\<lambda>c. byte c \<noteq> 10 \<and> byte c \<noteq> 13) s in
      if list_all (\<lambda>c. b64_value c \<noteq> None) cs then b64_groups (map (\<lambda>c. the (b64_value c)) cs)
      else None)"

section \<open>The encoding\<close>

record password_hash =
  ph_memory :: nat
  ph_iterations :: nat
  ph_threads :: nat
  ph_salt :: string
  ph_key :: string

definition cost_text :: "nat \<Rightarrow> nat \<Rightarrow> nat \<Rightarrow> string" where
  "cost_text m t p = ''m='' @ nat_text m @ '',t='' @ nat_text t @ '',p='' @ nat_text p"

definition HashPassword :: "ext \<Rightarrow> string \<Rightarrow> string \<Rightarrow> string" where
  "HashPassword x salt password =
     ''$argon2id$v=19$'' @ cost_text passwordMemory passwordTime passwordThreads @ ''$'' @
     b64_encode salt @ ''$'' @
     b64_encode (ext_argon2 x password salt passwordTime passwordMemory passwordThreads passwordKeyLen)"

text \<open>One \<open>%d\<close> of \<open>Sscanf\<close> after a literal prefix; the caller compares the canonical rendering.\<close>

definition scan_number :: "string \<Rightarrow> string \<Rightarrow> (nat \<times> string) option" where
  "scan_number pre s =
     (if HasPrefix s pre then
        (let r = drop (length pre) s; ds = takeWhile is_digit r in
         if ds = [] then None
         else Some (foldl (\<lambda>n c. 10 * n + (byte c - 48)) 0 ds, dropWhile is_digit r))
      else None)"

definition scan_cost :: "string \<Rightarrow> (nat \<times> nat \<times> nat) option" where
  "scan_cost s =
     (case scan_number ''m='' s of None \<Rightarrow> None | Some (m, r) \<Rightarrow>
      (case scan_number '',t='' r of None \<Rightarrow> None | Some (t, r') \<Rightarrow>
       (case scan_number '',p='' r' of None \<Rightarrow> None | Some (p, _) \<Rightarrow> Some (m, t, p))))"

definition canonical_bytes :: "string \<Rightarrow> nat \<Rightarrow> string option" where
  "canonical_bytes part n =
     (case b64_decode part of
        None \<Rightarrow> None
      | Some bs \<Rightarrow> if length bs = n \<and> b64_encode bs = part then Some bs else None)"

definition parsePasswordHash :: "string \<Rightarrow> password_hash option" where
  "parsePasswordHash encoded =
     (if 128 < length encoded then None
      else case Split encoded (CHR ''$'') of
        [p0, p1, p2, p3, p4, p5] \<Rightarrow>
          if p0 \<noteq> [] \<or> p1 \<noteq> ''argon2id'' \<or> p2 \<noteq> ''v=19'' then None
          else (case scan_cost p3 of
              None \<Rightarrow> None
            | Some (m, t, p) \<Rightarrow>
                if m = 0 \<or> passwordMemory < m \<or> t = 0 \<or> passwordTime < t \<or> p = 0 \<or>
                   passwordThreads < p \<or> p3 \<noteq> cost_text m t p then None
                else (case (canonical_bytes p4 passwordSaltLen, canonical_bytes p5 passwordKeyLen) of
                    (Some salt, Some key) \<Rightarrow>
                      Some \<lparr>ph_memory = m, ph_iterations = t, ph_threads = p, ph_salt = salt, ph_key = key\<rparr>
                  | _ \<Rightarrow> None))
      | _ \<Rightarrow> None)"

definition VerifyPassword :: "ext \<Rightarrow> string \<Rightarrow> string \<Rightarrow> bool" where
  "VerifyPassword x password encoded =
     (case parsePasswordHash encoded of
        None \<Rightarrow> False
      | Some v \<Rightarrow> ext_argon2 x password (ph_salt v) (ph_iterations v) (ph_memory v) (ph_threads v)
          (length (ph_key v)) = ph_key v)"

definition ValidPasswordHash :: "string \<Rightarrow> bool" where
  "ValidPasswordHash encoded \<longleftrightarrow> parsePasswordHash encoded \<noteq> None"

definition validatePasswordHash :: "string \<Rightarrow> err + unit" where
  "validatePasswordHash encoded =
     fail_when (\<not> HasPrefix encoded ''$argon2id$'') (Plain ''unsupported password hash'')"

section \<open>Round trips\<close>

lemma b64_value_char [simp]: "n < 64 \<Longrightarrow> b64_value (b64_char n) = Some n"
  by (auto simp: b64_char_def b64_value_def bytes_between_def byte_def)

lemma b64_value_Some:
  "b64_value c \<noteq> None \<Longrightarrow> byte c \<noteq> 10 \<and> byte c \<noteq> 13 \<and> c \<noteq> CHR ''$''"
  by (auto simp: b64_value_def bytes_between_def byte_def split: if_splits)

lemma sextets [simp]:
  "byte a div 4 < 64" "byte a mod 4 * 16 + byte b div 16 < 64"
  "byte b mod 16 * 4 + byte c div 64 < 64" "byte c mod 64 < 64"
  "byte a mod 4 * 16 < 64" "byte b mod 16 * 4 < 64"
  using byte_less [of a] byte_less [of b] byte_less [of c] by linarith+

lemma b64_encode_values: "c \<in> set (b64_encode s) \<Longrightarrow> b64_value c \<noteq> None"
  by (induction s rule: b64_encode.induct) auto

lemmas b64_encode_plain = b64_value_Some [OF b64_encode_values]

lemma high_bits [simp]:
  "byte a div 16 div 16 = 0" "byte a div 16 mod 16 = byte a div 16"
  "byte a div 64 div 4 = 0" "byte a div 64 mod 4 = byte a div 64"
proof -
  have "byte a div 16 < 16" "byte a div 64 < 4"
    using byte_less [of a] by linarith+
  then show "byte a div 16 div 16 = 0" "byte a div 16 mod 16 = byte a div 16"
    "byte a div 64 div 4 = 0" "byte a div 64 mod 4 = byte a div 64"
    by simp_all
qed

lemma b64_groups_encode:
  "b64_groups (map (\<lambda>c. the (b64_value c)) (b64_encode s)) = Some s"
  by (induction s rule: b64_encode.induct) simp_all

lemma b64_decode_encode: "b64_decode (b64_encode s) = Some s"
proof -
  have "filter (\<lambda>c. byte c \<noteq> 10 \<and> byte c \<noteq> 13) (b64_encode s) = b64_encode s"
    by (rule filter_True) (use b64_encode_plain in blast)
  moreover have "list_all (\<lambda>c. b64_value c \<noteq> None) (b64_encode s)"
    using b64_encode_values by (auto simp: list_all_iff)
  ultimately show ?thesis
    by (simp add: b64_decode_def b64_groups_encode)
qed

lemma canonical_bytes_encode: "length s = n \<Longrightarrow> canonical_bytes (b64_encode s) n = Some s"
  by (simp add: canonical_bytes_def b64_decode_encode)

lemma length_b64_encode: "length (b64_encode s) = (length s * 4 + 2) div 3"
proof (induction s rule: b64_encode.induct)
  case (1 a b c s)
  have "(length (a # b # c # s) * 4 + 2) = (length s * 4 + 2) + 4 * 3"
    by simp
  then have "(length (a # b # c # s) * 4 + 2) div 3 = (length s * 4 + 2) div 3 + 4"
    by presburger
  with 1 show ?case by simp
qed simp_all

lemma cost_text_default: "cost_text passwordMemory passwordTime passwordThreads = ''m=65536,t=3,p=2''"
proof -
  have "char_of (50 :: nat) = CHR ''2''" "char_of (51 :: nat) = CHR ''3''"
    "char_of (53 :: nat) = CHR ''5''" "char_of (54 :: nat) = CHR ''6''"
    by (simp_all add: char_of_def bit_Suc_0_iff)
  then show ?thesis
    by (simp add: cost_text_def passwordMemory_def passwordTime_def passwordThreads_def nat_text.simps)
qed

lemma scan_cost_default: "scan_cost ''m=65536,t=3,p=2'' = Some (65536, 3, 2)"
  by (simp add: scan_cost_def scan_number_def HasPrefix_def Let_def is_digit_def bytes_between_def
      byte_def)

lemma hash_verifies:
  assumes "length salt = passwordSaltLen"
    and "\<And>pw s t m p. length (ext_argon2 x pw s t m p passwordKeyLen) = passwordKeyLen"
  shows "VerifyPassword x pw (HashPassword x salt pw)"
proof -
  let ?key = "ext_argon2 x pw salt passwordTime passwordMemory passwordThreads passwordKeyLen"
  have lens: "length salt = 16" "length ?key = 32"
    using assms by (simp_all add: passwordSaltLen_def passwordKeyLen_def)
  have dollar: "CHR ''$'' \<notin> set (b64_encode s)" for s
    using b64_encode_plain by blast
  have "Split (HashPassword x salt pw) (CHR ''$'') =
      [[], ''argon2id'', ''v=19'', ''m=65536,t=3,p=2'', b64_encode salt, b64_encode ?key]"
    by (simp add: HashPassword_def cost_text_default Split_append Split_no_sep dollar)
  moreover have "length (HashPassword x salt pw) = 97"
    by (simp add: HashPassword_def cost_text_default length_b64_encode lens)
  moreover have "canonical_bytes (b64_encode salt) passwordSaltLen = Some salt"
    "canonical_bytes (b64_encode ?key) passwordKeyLen = Some ?key"
    using lens by (simp_all add: canonical_bytes_encode passwordSaltLen_def passwordKeyLen_def)
  moreover have "cost_text 65536 3 2 = ''m=65536,t=3,p=2''"
    using cost_text_default by (simp add: passwordMemory_def passwordTime_def passwordThreads_def)
  ultimately have "parsePasswordHash (HashPassword x salt pw) = Some \<lparr>ph_memory = 65536,
      ph_iterations = 3, ph_threads = 2, ph_salt = salt, ph_key = ?key\<rparr>"
    by (simp add: parsePasswordHash_def scan_cost_default passwordMemory_def passwordTime_def
        passwordThreads_def)
  then show ?thesis
    using lens by (simp add: VerifyPassword_def passwordMemory_def passwordTime_def
        passwordThreads_def passwordKeyLen_def)
qed

text \<open>The hash the server stores accepts the password it was made from: whatever the salt of
  16 bytes and whatever key of 32 bytes Argon2 derives, \<open>VerifyPassword\<close> parses what
  \<open>HashPassword\<close> rendered, with the same cost, salt and key.\<close>

theorem hash_then_verify:
  assumes "length salt = passwordSaltLen"
    and "\<And>pw s t m p. length (ext_argon2 x pw s t m p passwordKeyLen) = passwordKeyLen"
  shows "VerifyPassword x pw (HashPassword x salt pw)"
  using assms by (rule hash_verifies)

lemma plain_key_length [simp]: "length (ext_argon2 plain_ext pw s t m p n) = n"
  by (simp add: plain_ext_def)

theorem hash_then_verify_witness:
  "VerifyPassword plain_ext ''secret'' (HashPassword plain_ext (replicate 16 CHR ''s'') ''secret'')"
  by (rule hash_then_verify) (simp_all add: plain_ext_def passwordSaltLen_def)

end
