(* ===== verification/Auth.thy ===== *)
theory Auth
  imports Passwords Jobs
begin

text \<open>
  Users and sessions: \<open>internal/auth/service.go\<close>, its SQL in
  \<open>internal/store/sqlite/auth.go\<close>, and the middleware and route table of
  \<open>internal/httpapi/handler.go\<close>.  \<open>users.username\<close> and \<open>users.email\<close> compare with
  \<open>COLLATE NOCASE\<close>.  Random identifiers, tokens, salts and generated passwords are arguments.
\<close>

section \<open>Store operations\<close>

interpretation user_table: table users "\<lambda>rs s. s\<lparr>users := rs\<rparr>" usr_id
  by unfold_locales auto

interpretation session_table: table sessions "\<lambda>rs s. s\<lparr>sessions := rs\<rparr>" ses_id
  by unfold_locales auto

definition insert_user :: "user \<Rightarrow> db \<Rightarrow> err + db" where
  "insert_user u s =
     (if usr_role u \<notin> {''admin'', ''user''} then Inl CheckViolation
      else if exists_by usr_id (usr_id u) (users s) \<or>
        exists_by (nocase \<circ> usr_email) (nocase (usr_email u)) (users s) \<or>
        exists_by (nocase \<circ> usr_username) (nocase (usr_username u)) (users s)
      then Inl UniqueViolation
      else Inr (s\<lparr>users := users s @ [u\<lparr>usr_timezone := ''UTC''\<rparr>]\<rparr>))"

definition store_InitAdmin :: "user \<Rightarrow> db \<Rightarrow> err + (bool \<times> db)" where
  "store_InitAdmin u s =
     (if users s \<noteq> [] then Inr (False, s)
      else case insert_user u s of
          Inl e \<Rightarrow> Inl (Wrapped ''create initial administrator'' e)
        | Inr s' \<Rightarrow> Inr (True, s'))"

definition store_UserByUsername :: "string \<Rightarrow> db \<Rightarrow> err + user" where
  "store_UserByUsername name s =
     some_or ErrNoRows (find_by (nocase \<circ> usr_username) (nocase name) (users s))"

definition store_UserByID :: "ident \<Rightarrow> db \<Rightarrow> err + user" where
  "store_UserByID i s = some_or ErrNoRows (find_by usr_id i (users s))"

record user_update =
  upd_id :: ident
  upd_session :: ident
  upd_username :: string
  upd_email :: string
  upd_name :: string
  upd_timezone :: string
  upd_hash :: string
  upd_at :: msec

definition profile_row :: "user_update \<Rightarrow> user \<Rightarrow> user" where
  "profile_row u r = r\<lparr>usr_username := upd_username u, usr_name := upd_name u,
     usr_email := upd_email u, usr_timezone := upd_timezone u, usr_updated := upd_at u\<rparr>"

definition password_row :: "string \<Rightarrow> bool \<Rightarrow> msec \<Rightarrow> user \<Rightarrow> user" where
  "password_row hash must now r =
     r\<lparr>usr_hash := hash, usr_must_change := must, usr_updated := now\<rparr>"

definition store_UpdateProfile :: "user_update \<Rightarrow> db \<Rightarrow> err + (user \<times> db)" where
  "store_UpdateProfile u s =
     andthen (fail_when (list_ex (\<lambda>r. nocase (usr_username r) = nocase (upd_username u) \<and>
       usr_id r \<noteq> upd_id u) (users s)) ErrUsernameExists) (\<lambda>_.
     andthen (fail_when (list_ex (\<lambda>r. nocase (usr_email r) = nocase (upd_email u) \<and>
       usr_id r \<noteq> upd_id u) (users s)) ErrEmailExists) (\<lambda>_.
     andthen (some_or (Wrapped ''update profile'' ErrNoRows) (find_by usr_id (upd_id u) (users s))) (\<lambda>r.
     let s1 = s\<lparr>users := update_by usr_id (upd_id u) (profile_row u) (users s)\<rparr> in
     if upd_hash u = [] then Inr (profile_row u r, s1)
     else Inr (password_row (upd_hash u) False (upd_at u) (profile_row u r),
       s1\<lparr>users := update_by usr_id (upd_id u) (password_row (upd_hash u) False (upd_at u)) (users s1),
          sessions := filter (\<lambda>x. \<not> (ses_user x = upd_id u \<and> ses_id x \<noteq> upd_session u)) (sessions s1)\<rparr>))))"

definition store_ResetPassword :: "string \<Rightarrow> string \<Rightarrow> msec \<Rightarrow> db \<Rightarrow> err + (user \<times> db)" where
  "store_ResetPassword name hash now s =
     andthen (store_UserByUsername name s) (\<lambda>r.
     Inr (password_row hash True now r,
       s\<lparr>users := update_by usr_id (usr_id r) (password_row hash True now) (users s),
         sessions := filter (\<lambda>x. ses_user x \<noteq> usr_id r) (sessions s)\<rparr>))"

definition store_CreateSession :: "session \<Rightarrow> db \<Rightarrow> err + db" where
  "store_CreateSession x s =
     (if exists_by ses_id (ses_id x) (sessions s) \<or>
        exists_by ses_token_hash (ses_token_hash x) (sessions s) then Inl UniqueViolation
      else if \<not> exists_by usr_id (ses_user x) (users s) then Inl ForeignKeyViolation
      else Inr (s\<lparr>sessions := sessions s @ [x]\<rparr>))"

definition store_SessionByTokenHash :: "string \<Rightarrow> msec \<Rightarrow> db \<Rightarrow> err + session" where
  "store_SessionByTokenHash hash now s =
     some_or ErrNoRows (List.find (\<lambda>x. ses_token_hash x = hash \<and> now < ses_expires x) (sessions s))"

definition store_DeleteSession :: "string \<Rightarrow> db \<Rightarrow> db" where
  "store_DeleteSession hash s = s\<lparr>sessions := delete_by ses_token_hash hash (sessions s)\<rparr>"

section \<open>Service\<close>

record live_session =
  lse_id :: ident
  lse_user :: user
  lse_token :: string
  lse_csrf :: string
  lse_expires :: msec

type_synonym credentials = "string \<times> string"

definition sessionTTL :: msec where
  "sessionTTL = 24 * 60 * 60 * 1000"

definition tokenHash :: "ext \<Rightarrow> string \<Rightarrow> string" where
  "tokenHash x token = ext_sha256 x token"

definition prepareUser ::
  "ext \<Rightarrow> string \<Rightarrow> string \<Rightarrow> string \<Rightarrow> string \<Rightarrow> bool \<Rightarrow> ident \<Rightarrow> string \<Rightarrow> msec \<Rightarrow> err + user" where
  "prepareUser x username name email password must i salt now =
     andthen (validate_Username x username) (\<lambda>username'.
     andthen (validate_Name name) (\<lambda>name'.
     andthen (validate_Email x email) (\<lambda>email'.
     andthen (validate_Password password) (\<lambda>_.
     let hash = HashPassword x salt password in
     andthen (validatePasswordHash hash) (\<lambda>_.
     Inr \<lparr>usr_id = i, usr_username = username', usr_email = email', usr_name = name',
       usr_timezone = ''UTC'', usr_role = ''admin'', usr_must_change = must, usr_hash = hash,
       usr_created = now, usr_updated = now\<rparr>)))))"

text \<open>\<open>InitAdmin\<close>: \<open>None\<close> when the store already has users.\<close>

definition auth_InitAdmin ::
  "ext \<Rightarrow> string \<Rightarrow> ident \<Rightarrow> string \<Rightarrow> msec \<Rightarrow> db \<Rightarrow> err + (credentials option \<times> db)" where
  "auth_InitAdmin x password i salt now s =
     (if users s \<noteq> [] then Inr (None, s)
      else
        andthen (prepareUser x ''admin'' ''Administrator'' ''admin@localhost.invalid'' password True
          i salt now) (\<lambda>u.
        andthen (store_InitAdmin u s) (\<lambda>(created, s').
        if created then Inr (Some (usr_username u, password), s') else Inr (None, s'))))"

definition newSession ::
  "ext \<Rightarrow> user \<Rightarrow> ident \<Rightarrow> string \<Rightarrow> string \<Rightarrow> msec \<Rightarrow> live_session \<times> session" where
  "newSession x u i token csrf now =
     (\<lparr>lse_id = i, lse_user = u, lse_token = token, lse_csrf = csrf, lse_expires = now + sessionTTL\<rparr>,
      \<lparr>ses_id = i, ses_user = usr_id u, ses_token_hash = tokenHash x token, ses_csrf = csrf,
       ses_expires = now + sessionTTL, ses_created = now\<rparr>)"

definition auth_Login ::
  "ext \<Rightarrow> string \<Rightarrow> string \<Rightarrow> ident \<Rightarrow> string \<Rightarrow> string \<Rightarrow> msec \<Rightarrow> db \<Rightarrow> err + (live_session \<times> db)" where
  "auth_Login x username password i token csrf now s =
     andthen (map_err (\<lambda>_. ErrInvalidCredentials) (validate_Username x username)) (\<lambda>normalized.
     andthen (map_err (\<lambda>_. ErrInvalidCredentials) (store_UserByUsername normalized s)) (\<lambda>u.
     andthen (fail_when (\<not> VerifyPassword x password (usr_hash u)) ErrInvalidCredentials) (\<lambda>_.
     let (live, row) = newSession x u i token csrf now in
     andthen (map_err (Wrapped ''create session'') (store_CreateSession row s)) (\<lambda>s'.
     Inr (live, s')))))"

definition auth_UpdateProfile ::
  "ext \<Rightarrow> live_session \<Rightarrow> string \<Rightarrow> string \<Rightarrow> string \<Rightarrow> string \<Rightarrow> string \<Rightarrow> string \<Rightarrow> string \<Rightarrow> msec \<Rightarrow>
    db \<Rightarrow> err + (live_session \<times> db)" where
  "auth_UpdateProfile x live username name email timezone current password salt now s =
     andthen (validate_Username x username) (\<lambda>username'.
     andthen (validate_Name name) (\<lambda>name'.
     andthen (validate_Email x email) (\<lambda>email'.
     andthen (validate_Timezone x timezone) (\<lambda>timezone'.
     andthen (map_err (\<lambda>_. ErrUnauthorized) (store_UserByID (usr_id (lse_user live)) s)) (\<lambda>rec.
     andthen (fail_when (usr_must_change rec \<and> password = [])
       (ValidationErr ''password'' ''Choose a new password'')) (\<lambda>_.
     andthen (fail_when (current \<noteq> [] \<and> password = [])
       (ValidationErr ''password'' ''Enter a new password'')) (\<lambda>_.
     andthen (if password = [] then Inr []
       else
         andthen (validate_Password password) (\<lambda>_.
         andthen (if usr_must_change rec
           then fail_when (VerifyPassword x password (usr_hash rec))
             (ValidationErr ''password'' ''Choose a different password'')
           else fail_when (\<not> VerifyPassword x current (usr_hash rec)) ErrCurrentPassword) (\<lambda>_.
         Inr (HashPassword x salt password)))) (\<lambda>hash.
     andthen (store_UpdateProfile \<lparr>upd_id = usr_id (lse_user live), upd_session = lse_id live,
       upd_username = username', upd_email = email', upd_name = name', upd_timezone = timezone',
       upd_hash = hash, upd_at = now\<rparr> s) (\<lambda>(u, s').
     Inr (live\<lparr>lse_user := u\<rparr>, s'))))))))))"

definition auth_ResetPassword ::
  "ext \<Rightarrow> string \<Rightarrow> string \<Rightarrow> string \<Rightarrow> msec \<Rightarrow> db \<Rightarrow> err + (credentials \<times> db)" where
  "auth_ResetPassword x username password salt now s =
     andthen (validate_Username x username) (\<lambda>normalized.
     andthen (store_ResetPassword normalized (HashPassword x salt password) now s) (\<lambda>(u, s').
     Inr ((usr_username u, password), s')))"

definition auth_Authenticate :: "ext \<Rightarrow> string \<Rightarrow> msec \<Rightarrow> db \<Rightarrow> err + live_session" where
  "auth_Authenticate x token now s =
     (if token = [] then Inl ErrUnauthorized
      else
        andthen (map_err (\<lambda>_. ErrUnauthorized) (store_SessionByTokenHash (tokenHash x token) now s)) (\<lambda>r.
        andthen (map_err (\<lambda>_. ErrUnauthorized) (store_UserByID (ses_user r) s)) (\<lambda>u.
        Inr \<lparr>lse_id = ses_id r, lse_user = u, lse_token = [], lse_csrf = ses_csrf r,
             lse_expires = ses_expires r\<rparr>)))"

definition auth_Logout :: "ext \<Rightarrow> string \<Rightarrow> db \<Rightarrow> db" where
  "auth_Logout x token s = (if token = [] then s else store_DeleteSession (tokenHash x token) s)"

section \<open>The middleware\<close>

record request =
  req_cookie :: "string option"
  req_csrf :: string
  req_path :: string

datatype admission = Denied nat string | Admitted live_session

definition withAuth :: "ext \<Rightarrow> bool \<Rightarrow> request \<Rightarrow> msec \<Rightarrow> db \<Rightarrow> admission" where
  "withAuth x csrf r now s =
     (case req_cookie r of
        None \<Rightarrow> Denied 401 ''unauthorized''
      | Some token \<Rightarrow>
          (case auth_Authenticate x token now s of
             Inl _ \<Rightarrow> Denied 401 ''unauthorized''
           | Inr live \<Rightarrow>
               if csrf \<and> req_csrf r \<noteq> lse_csrf live then Denied 403 ''invalid_csrf''
               else if usr_must_change (lse_user live) \<and> req_path r \<noteq> ''/api/v1/auth/me'' \<and>
                 req_path r \<noteq> ''/api/v1/auth/logout'' \<and> req_path r \<noteq> ''/api/v1/auth/profile''
               then Denied 403 ''password_change_required''
               else Admitted live))"

text \<open>The routes of \<open>New\<close> in the order they are registered: method, pattern, guard, handler.\<close>

datatype guard = Open | Guarded bool

definition routes :: "(string \<times> string \<times> guard \<times> string) list" where
  "routes =
    [(''GET'', ''/api/v1/health'', Open, ''health''),
     (''POST'', ''/api/v1/auth/login'', Open, ''login''),
     (''POST'', ''/api/v1/auth/logout'', Guarded True, ''logout''),
     (''GET'', ''/api/v1/auth/me'', Guarded False, ''me''),
     (''PATCH'', ''/api/v1/auth/profile'', Guarded True, ''updateProfile''),
     (''GET'', ''/api/v1/accounts'', Guarded False, ''listAccounts''),
     (''POST'', ''/api/v1/accounts'', Guarded True, ''createAccount''),
     (''PATCH'', ''/api/v1/accounts/{accountId}'', Guarded True, ''setAccount''),
     (''DELETE'', ''/api/v1/accounts/{accountId}'', Guarded True, ''deleteAccount''),
     (''PUT'', ''/api/v1/accounts/{accountId}/package'', Guarded True, ''assignAccountPackage''),
     (''GET'', ''/api/v1/packages'', Guarded False, ''listPackages''),
     (''POST'', ''/api/v1/packages'', Guarded True, ''createPackage''),
     (''PATCH'', ''/api/v1/packages/{packageId}'', Guarded True, ''updatePackage''),
     (''DELETE'', ''/api/v1/packages/{packageId}'', Guarded True, ''deletePackage''),
     (''GET'', ''/api/v1/websites'', Guarded False, ''listWebsites''),
     (''POST'', ''/api/v1/websites'', Guarded True, ''createWebsite''),
     (''PATCH'', ''/api/v1/websites/{websiteId}'', Guarded True, ''setWebsite''),
     (''DELETE'', ''/api/v1/websites/{websiteId}'', Guarded True, ''deleteWebsite''),
     (''GET'', ''/api/v1/website-domains'', Guarded False, ''listWebsiteDomains''),
     (''GET'', ''/api/v1/websites/{websiteId}/domains'', Guarded False, ''listWebsiteDomainsForWebsite''),
     (''POST'', ''/api/v1/websites/{websiteId}/domains'', Guarded True, ''createWebsiteDomain''),
     (''PATCH'', ''/api/v1/website-domains/{websiteDomainId}'', Guarded True, ''setWebsiteDomain''),
     (''DELETE'', ''/api/v1/website-domains/{websiteDomainId}'', Guarded True, ''deleteWebsiteDomain''),
     (''GET'', ''/api/v1/databases'', Guarded False, ''listDatabases''),
     (''POST'', ''/api/v1/databases'', Guarded True, ''createDatabase''),
     (''DELETE'', ''/api/v1/databases/{databaseId}'', Guarded True, ''deleteDatabase''),
     (''GET'', ''/api/v1/database-users'', Guarded False, ''listDatabaseUsers''),
     (''POST'', ''/api/v1/database-users'', Guarded True, ''createDatabaseUser''),
     (''DELETE'', ''/api/v1/database-users/{databaseUserId}'', Guarded True, ''deleteDatabaseUser''),
     (''GET'', ''/api/v1/database-grants'', Guarded False, ''listDatabaseGrants''),
     (''PUT'', ''/api/v1/databases/{databaseId}/users/{databaseUserId}'', Guarded True, ''createDatabaseGrant''),
     (''DELETE'', ''/api/v1/databases/{databaseId}/users/{databaseUserId}'', Guarded True, ''deleteDatabaseGrant''),
     (''GET'', ''/api/v1/scheduled-tasks'', Guarded False, ''listScheduledTasks''),
     (''GET'', ''/api/v1/ftp-accounts'', Guarded False, ''listFTPAccounts''),
     (''POST'', ''/api/v1/ftp-accounts'', Guarded True, ''createFTPAccount''),
     (''PATCH'', ''/api/v1/ftp-accounts/{ftpAccountId}'', Guarded True, ''updateFTPAccount''),
     (''DELETE'', ''/api/v1/ftp-accounts/{ftpAccountId}'', Guarded True, ''deleteFTPAccount''),
     (''POST'', ''/api/v1/scheduled-tasks'', Guarded True, ''createScheduledTask''),
     (''PATCH'', ''/api/v1/scheduled-tasks/{scheduledTaskId}'', Guarded True, ''setScheduledTask''),
     (''DELETE'', ''/api/v1/scheduled-tasks/{scheduledTaskId}'', Guarded True, ''deleteScheduledTask''),
     (''GET'', ''/api/v1/certificates'', Guarded False, ''listCertificates''),
     (''POST'', ''/api/v1/websites/{websiteId}/certificate'', Guarded True, ''issueWebsiteCertificate''),
     (''POST'', ''/api/v1/certificates/panel'', Guarded True, ''issuePanelCertificate''),
     (''POST'', ''/api/v1/certificates/{certificateId}/renew'', Guarded True, ''renewCertificate''),
     (''PATCH'', ''/api/v1/certificates/{certificateId}'', Guarded True, ''setCertificate''),
     (''GET'', ''/api/v1/backup-plans'', Guarded False, ''listBackupPlans''),
     (''POST'', ''/api/v1/backup-plans'', Guarded True, ''createBackupPlan''),
     (''PATCH'', ''/api/v1/backup-plans/{backupPlanId}'', Guarded True, ''setBackupPlan''),
     (''DELETE'', ''/api/v1/backup-plans/{backupPlanId}'', Guarded True, ''deleteBackupPlan''),
     (''POST'', ''/api/v1/backup-plans/{backupPlanId}/runs'', Guarded True, ''runBackupPlan''),
     (''GET'', ''/api/v1/backup-runs'', Guarded False, ''listBackupRuns''),
     (''GET'', ''/api/v1/backup-artifacts'', Guarded False, ''listBackupArtifacts''),
     (''DELETE'', ''/api/v1/backup-artifacts/{backupArtifactId}'', Guarded True, ''deleteBackupArtifact''),
     (''GET'', ''/api/v1/backup-artifacts/{backupArtifactId}/restore'', Guarded False, ''previewBackupRestore''),
     (''POST'', ''/api/v1/backup-artifacts/{backupArtifactId}/restore'', Guarded True, ''restoreBackup''),
     (''GET'', ''/api/v1/dns/providers'', Guarded False, ''listDNSProviders''),
     (''GET'', ''/api/v1/dns/settings'', Guarded False, ''getDNSSettings''),
     (''PUT'', ''/api/v1/dns/settings'', Guarded True, ''updateDNSSettings''),
     (''GET'', ''/api/v1/dns/zones'', Guarded False, ''listDNSZones''),
     (''POST'', ''/api/v1/dns/zones'', Guarded True, ''createDNSZone''),
     (''GET'', ''/api/v1/dns/zones/{dnsZoneId}'', Guarded False, ''getDNSZone''),
     (''DELETE'', ''/api/v1/dns/zones/{dnsZoneId}'', Guarded True, ''deleteDNSZone''),
     (''GET'', ''/api/v1/dns/zones/{dnsZoneId}/records'', Guarded False, ''listDNSRecords''),
     (''POST'', ''/api/v1/dns/zones/{dnsZoneId}/records'', Guarded True, ''createDNSRecord''),
     (''PATCH'', ''/api/v1/dns/records/{dnsRecordId}'', Guarded True, ''updateDNSRecord''),
     (''DELETE'', ''/api/v1/dns/records/{dnsRecordId}'', Guarded True, ''deleteDNSRecord''),
     (''GET'', ''/api/v1/nodes'', Guarded False, ''listNodes''),
     (''GET'', ''/api/v1/service-settings'', Guarded False, ''getServiceSettings''),
     (''PUT'', ''/api/v1/service-settings'', Guarded True, ''updateServiceSettings''),
     (''POST'', ''/api/v1/nodes/{nodeId}/probe'', Guarded True, ''probeNode''),
     (''GET'', ''/api/v1/jobs'', Guarded False, ''listJobs''),
     (''GET'', ''/api/v1/jobs/{jobId}'', Guarded False, ''getJob''),
     (''GET'', ''/api/v1/audit-events'', Guarded False, ''listAuditEvents'')]"

section \<open>Invariant of users and sessions\<close>

definition auth_inv :: "db \<Rightarrow> bool" where
  "auth_inv s \<longleftrightarrow>
     distinct (map usr_id (users s)) \<and> distinct (map (nocase \<circ> usr_username) (users s)) \<and>
     distinct (map ses_id (sessions s)) \<and> distinct (map ses_token_hash (sessions s)) \<and>
     (\<forall>x \<in> set (sessions s). ses_user x \<in> usr_id ` set (users s))"

inductive auth_step :: "ext \<Rightarrow> db \<Rightarrow> db \<Rightarrow> bool" for x where
  init_admin: "auth_InitAdmin x pw i salt now s = Inr (c, s') \<Longrightarrow> auth_step x s s'"
| login: "auth_Login x u pw i token csrf now s = Inr (live, s') \<Longrightarrow> auth_step x s s'"
| profile: "auth_UpdateProfile x live u n e tz cur pw salt now s = Inr (live', s') \<Longrightarrow> auth_step x s s'"
| reset: "auth_ResetPassword x u pw salt now s = Inr (cr, s') \<Longrightarrow> auth_step x s s'"
| logout: "auth_step x s (auth_Logout x token s)"

lemma user_rows [simp]:
  "usr_id (profile_row u r) = usr_id r" "usr_id (password_row h m now r) = usr_id r"
  "usr_username (profile_row u r) = upd_username u"
  "usr_username (password_row h m now r) = usr_username r"
  by (simp_all add: profile_row_def password_row_def)

lemma insert_user_inv: "insert_user u s = Inr s' \<Longrightarrow> auth_inv s \<Longrightarrow> auth_inv s'"
  by (auto simp: insert_user_def auth_inv_def exists_by_iff split: if_splits)

lemma create_session_inv: "store_CreateSession r s = Inr s' \<Longrightarrow> auth_inv s \<Longrightarrow> auth_inv s'"
  by (auto simp: store_CreateSession_def auth_inv_def exists_by_iff split: if_splits)

lemma password_update_users:
  "map usr_id (update_by usr_id i (password_row h m now) us) = map usr_id us"
  "map (nocase \<circ> usr_username) (update_by usr_id i (password_row h m now) us) =
    map (nocase \<circ> usr_username) us"
  by (simp_all add: update_by_def)

lemma fewer_sessions_inv:
  assumes "auth_inv s" "map usr_id us = map usr_id (users s)"
    "distinct (map (nocase \<circ> usr_username) us)"
  shows "auth_inv (s\<lparr>users := us, sessions := filter P (sessions s)\<rparr>)"
proof -
  have "usr_id ` set us = usr_id ` set (users s)"
    by (metis assms(2) set_map)
  with assms show ?thesis
    by (simp add: auth_inv_def distinct_map_filter)
qed

lemma renamed_distinct:
  assumes "distinct (map usr_id us)" "distinct (map (nocase \<circ> usr_username) us)"
    "\<not> list_ex (\<lambda>r. nocase (usr_username r) = nocase (upd_username u) \<and> usr_id r \<noteq> upd_id u) us"
  shows "distinct (map (nocase \<circ> usr_username) (update_by usr_id (upd_id u) (profile_row u) us))"
  using assms
  by (intro update_by_distinct [where c = "nocase (upd_username u)"]) (auto simp: list_ex_iff)

lemma UpdateProfile_Inr:
  assumes "store_UpdateProfile u s = Inr (r', s')"
  obtains r us where "find_by usr_id (upd_id u) (users s) = Some r"
    "\<not> list_ex (\<lambda>r. nocase (usr_username r) = nocase (upd_username u) \<and> usr_id r \<noteq> upd_id u) (users s)"
    "us = update_by usr_id (upd_id u) (profile_row u) (users s)"
    "upd_hash u = [] \<and> r' = profile_row u r \<and> s' = s\<lparr>users := us\<rparr> \<or>
     upd_hash u \<noteq> [] \<and> r' = password_row (upd_hash u) False (upd_at u) (profile_row u r) \<and>
       s' = s\<lparr>users := update_by usr_id (upd_id u) (password_row (upd_hash u) False (upd_at u)) us,
         sessions := filter (\<lambda>x. \<not> (ses_user x = upd_id u \<and> ses_id x \<noteq> upd_session u)) (sessions s)\<rparr>"
  using assms by (auto simp: store_UpdateProfile_def Let_def split: if_splits)

lemma update_profile_inv:
  assumes "store_UpdateProfile u s = Inr (r', s')" "auth_inv s"
  shows "auth_inv s'"
  using assms(1)
proof (rule UpdateProfile_Inr)
  fix r us
  assume free: "\<not> list_ex (\<lambda>r. nocase (usr_username r) = nocase (upd_username u) \<and> usr_id r \<noteq> upd_id u) (users s)"
    and us: "us = update_by usr_id (upd_id u) (profile_row u) (users s)"
    and s': "upd_hash u = [] \<and> r' = profile_row u r \<and> s' = s\<lparr>users := us\<rparr> \<or>
     upd_hash u \<noteq> [] \<and> r' = password_row (upd_hash u) False (upd_at u) (profile_row u r) \<and>
       s' = s\<lparr>users := update_by usr_id (upd_id u) (password_row (upd_hash u) False (upd_at u)) us,
         sessions := filter (\<lambda>x. \<not> (ses_user x = upd_id u \<and> ses_id x \<noteq> upd_session u)) (sessions s)\<rparr>"
  have ids: "map usr_id us = map usr_id (users s)"
    unfolding us by (rule update_by_keys) simp
  have names: "distinct (map (nocase \<circ> usr_username) us)"
    unfolding us using assms(2) free by (intro renamed_distinct) (auto simp: auth_inv_def)
  from s' show "auth_inv s'"
  proof
    assume "upd_hash u = [] \<and> r' = profile_row u r \<and> s' = s\<lparr>users := us\<rparr>"
    then show ?thesis
      using fewer_sessions_inv [OF assms(2) ids names, of "\<lambda>_. True"] by simp
  next
    assume "upd_hash u \<noteq> [] \<and> r' = password_row (upd_hash u) False (upd_at u) (profile_row u r) \<and>
       s' = s\<lparr>users := update_by usr_id (upd_id u) (password_row (upd_hash u) False (upd_at u)) us,
         sessions := filter (\<lambda>x. \<not> (ses_user x = upd_id u \<and> ses_id x \<noteq> upd_session u)) (sessions s)\<rparr>"
    then show ?thesis
      using ids names by (auto intro!: fewer_sessions_inv [OF assms(2)] simp: password_update_users)
  qed
qed

lemma ResetPassword_Inr:
  assumes "auth_ResetPassword x username password salt now s = Inr (c, s')"
  obtains v r where "store_UserByUsername v s = Inr r" "c = (usr_username r, password)"
    "s' = s\<lparr>users := update_by usr_id (usr_id r) (password_row (HashPassword x salt password) True now) (users s),
       sessions := filter (\<lambda>y. ses_user y \<noteq> usr_id r) (sessions s)\<rparr>"
  using assms by (auto simp: auth_ResetPassword_def store_ResetPassword_def)

lemma auth_step_inv:
  assumes "auth_step x s s'" "auth_inv s"
  shows "auth_inv s'"
  using assms
proof cases
  case init_admin
  then show ?thesis using assms(2)
    by (auto simp: auth_InitAdmin_def store_InitAdmin_def split: if_splits sum.splits
        dest: insert_user_inv)
next
  case login
  then show ?thesis using assms(2)
    by (auto simp: auth_Login_def newSession_def dest: create_session_inv)
next
  case profile
  then show ?thesis using assms(2)
    by (auto simp: auth_UpdateProfile_def dest: update_profile_inv)
next
  case (reset u pw salt now cr)
  then obtain r :: user where "s' = s\<lparr>users := update_by usr_id (usr_id r)
      (password_row (HashPassword x salt pw) True now) (users s),
      sessions := filter (\<lambda>y. ses_user y \<noteq> usr_id r) (sessions s)\<rparr>"
    by (elim ResetPassword_Inr) (erule that)
  moreover have "distinct (map (nocase \<circ> usr_username) (users s))"
    using assms(2) by (simp add: auth_inv_def)
  ultimately show ?thesis
    using assms(2) by (auto intro!: fewer_sessions_inv simp: password_update_users)
next
  case logout
  then show ?thesis using assms(2)
    fewer_sessions_inv [of s "users s"]
    by (auto simp: auth_Logout_def store_DeleteSession_def delete_by_def auth_inv_def
        distinct_map_filter)
qed

section \<open>Properties\<close>

lemma login_Inr:
  assumes "auth_Login x username password i token csrf now s = Inr (live, s')"
  obtains u row where "u \<in> set (users s)" "VerifyPassword x password (usr_hash u)"
    "live = \<lparr>lse_id = i, lse_user = u, lse_token = token, lse_csrf = csrf, lse_expires = now + sessionTTL\<rparr>"
    "row = \<lparr>ses_id = i, ses_user = usr_id u, ses_token_hash = tokenHash x token, ses_csrf = csrf,
       ses_expires = now + sessionTTL, ses_created = now\<rparr>"
    "tokenHash x token \<notin> ses_token_hash ` set (sessions s)" "s' = s\<lparr>sessions := sessions s @ [row]\<rparr>"
  using assms
  by (auto simp: auth_Login_def newSession_def store_CreateSession_def store_UserByUsername_def
      find_by_def exists_by_iff dest!: find_Some_iff_mem split: if_splits)

lemma find_append_fresh:
  "k \<notin> ses_token_hash ` set rs \<Longrightarrow>
    List.find (\<lambda>x. ses_token_hash x = k \<and> P x) (rs @ [r]) =
      (if ses_token_hash r = k \<and> P r then Some r else None)"
  by (induction rs) auto

text \<open>C24: a login opens a session that the token it returns authenticates, for the user whose
  password was verified, until 24 hours after the login and not a moment longer.\<close>

theorem login_then_authenticate:
  assumes "auth_inv s" "token \<noteq> []"
    and "auth_Login x username password i token csrf now s = Inr (live, s')"
  shows "auth_Authenticate x token later s' =
    (if later < now + 24 * 60 * 60 * 1000 then Inr (live\<lparr>lse_token := []\<rparr>) else Inl ErrUnauthorized) \<and>
    VerifyPassword x password (usr_hash (lse_user live))"
  using assms(3)
proof (rule login_Inr)
  fix u row
  assume u: "u \<in> set (users s)" "VerifyPassword x password (usr_hash u)"
    and live: "live = \<lparr>lse_id = i, lse_user = u, lse_token = token, lse_csrf = csrf,
      lse_expires = now + sessionTTL\<rparr>"
    and row: "row = \<lparr>ses_id = i, ses_user = usr_id u, ses_token_hash = tokenHash x token,
      ses_csrf = csrf, ses_expires = now + sessionTTL, ses_created = now\<rparr>"
    and fresh: "tokenHash x token \<notin> ses_token_hash ` set (sessions s)"
    and s': "s' = s\<lparr>sessions := sessions s @ [row]\<rparr>"
  have "store_UserByID (usr_id u) s' = Inr u"
    using user_table.find_unique [of s u] assms(1) u(1)
    by (simp add: store_UserByID_def s' auth_inv_def)
  then show ?thesis
    using assms(2) u(2)
    by (simp add: auth_Authenticate_def store_SessionByTokenHash_def s' find_append_fresh [OF fresh]
        row live sessionTTL_def)
qed

definition sample_admin :: user where
  "sample_admin = \<lparr>usr_id = ''u1'', usr_username = ''admin'', usr_email = ''a@b.pt'', usr_name = ''Admin'',
     usr_timezone = ''UTC'', usr_role = ''admin'', usr_must_change = False,
     usr_hash = HashPassword plain_ext (replicate 16 CHR ''s'') ''long password'', usr_created = 0,
     usr_updated = 0\<rparr>"

definition sample_users :: db where
  "sample_users = empty_db\<lparr>users := [sample_admin]\<rparr>"

lemma sample_login:
  "auth_Login plain_ext ''admin'' ''long password'' ''s1'' ''token'' ''csrf'' 10 sample_users =
    Inr (\<lparr>lse_id = ''s1'', lse_user = sample_admin, lse_token = ''token'', lse_csrf = ''csrf'',
        lse_expires = 10 + sessionTTL\<rparr>,
      sample_users\<lparr>sessions := [\<lparr>ses_id = ''s1'', ses_user = ''u1'', ses_token_hash = ''token'',
        ses_csrf = ''csrf'', ses_expires = 10 + sessionTTL, ses_created = 10\<rparr>]\<rparr>)"
proof -
  have "validate_Username plain_ext ''admin'' = Inr ''admin''"
    by (simp add: validate_Username_def Let_def ascii_eval usernamePattern_def)
  moreover have "VerifyPassword plain_ext ''long password'' (usr_hash sample_admin)"
    by (simp add: sample_admin_def) (rule hash_verifies; simp add: plain_ext_def passwordSaltLen_def)
  moreover have "store_UserByUsername ''admin'' sample_users = Inr sample_admin"
    by (simp add: store_UserByUsername_def find_by_def sample_users_def sample_admin_def)
  ultimately show ?thesis
    by (simp add: auth_Login_def newSession_def tokenHash_def store_CreateSession_def
        sample_users_def exists_by_def plain_ext_def empty_db_def)
      (simp add: sample_admin_def)
qed

lemma sample_users_inv: "auth_inv sample_users"
  by (simp add: auth_inv_def sample_users_def empty_db_def)

theorem login_then_authenticate_witness:
  "auth_Authenticate plain_ext ''token'' 11 (sample_users\<lparr>sessions := [\<lparr>ses_id = ''s1'',
      ses_user = ''u1'', ses_token_hash = ''token'', ses_csrf = ''csrf'',
      ses_expires = 10 + sessionTTL, ses_created = 10\<rparr>]\<rparr>) =
    Inr \<lparr>lse_id = ''s1'', lse_user = sample_admin, lse_token = [], lse_csrf = ''csrf'',
        lse_expires = 10 + sessionTTL\<rparr>"
  using login_then_authenticate [OF sample_users_inv _ sample_login, of 11] by simp

text \<open>C25: the middleware lets a request through only with the token of a session that has not
  expired, of an existing user, with that session's CSRF token where the route asks for one,
  and, while the user must change the password, only to the three routes that allow it.\<close>

theorem admitted_request:
  assumes "withAuth x csrf r now s = Admitted live"
  shows "\<exists>token row u. req_cookie r = Some token \<and> row \<in> set (sessions s) \<and>
    ses_token_hash row = tokenHash x token \<and> now < ses_expires row \<and>
    u \<in> set (users s) \<and> usr_id u = ses_user row \<and> lse_user live = u \<and> lse_id live = ses_id row \<and>
    (csrf \<longrightarrow> req_csrf r = ses_csrf row) \<and>
    (usr_must_change u \<longrightarrow>
      req_path r \<in> {''/api/v1/auth/me'', ''/api/v1/auth/logout'', ''/api/v1/auth/profile''})"
  using assms
  by (fastforce simp: withAuth_def auth_Authenticate_def store_SessionByTokenHash_def
      store_UserByID_def find_by_def dest!: find_Some_iff_mem split: option.splits sum.splits if_splits)

definition sample_request :: request where
  "sample_request = \<lparr>req_cookie = Some ''token'', req_csrf = ''csrf'', req_path = ''/api/v1/accounts''\<rparr>"

lemma sample_admitted:
  "withAuth plain_ext True sample_request 11 (sample_users\<lparr>sessions := [\<lparr>ses_id = ''s1'',
      ses_user = ''u1'', ses_token_hash = ''token'', ses_csrf = ''csrf'',
      ses_expires = 90, ses_created = 10\<rparr>]\<rparr>) =
    Admitted \<lparr>lse_id = ''s1'', lse_user = sample_admin, lse_token = [], lse_csrf = ''csrf'', lse_expires = 90\<rparr>"
  by (simp add: withAuth_def sample_request_def auth_Authenticate_def store_SessionByTokenHash_def
      tokenHash_def plain_ext_def store_UserByID_def find_by_def sample_users_def)
    (simp add: sample_admin_def)

theorem admitted_request_witness:
  "\<exists>token row (u :: user). req_cookie sample_request = Some token \<and> row \<in> set [\<lparr>ses_id = ''s1'',
      ses_user = ''u1'', ses_token_hash = ''token'', ses_csrf = ''csrf'', ses_expires = 90, ses_created = 10\<rparr>] \<and>
    ses_token_hash row = tokenHash plain_ext token \<and> usr_id u = ses_user row"
  using admitted_request [OF sample_admitted] by (auto simp: sample_request_def)

text \<open>Changing the password of a profile requires the current password (or, after a reset, a
  new one that differs), stores a hash of the new password, clears the obligation to change it,
  and closes every other session of that user and of nobody else.\<close>

theorem password_change:
  assumes "auth_UpdateProfile x live username name email tz current password salt now s = Inr (live', s')"
    and "password \<noteq> []" "length salt = passwordSaltLen"
    and "\<And>pw s t m p. length (ext_argon2 x pw s t m p passwordKeyLen) = passwordKeyLen"
  shows "\<exists>old. find_by usr_id (usr_id (lse_user live)) (users s) = Some old \<and>
    (if usr_must_change old then \<not> VerifyPassword x password (usr_hash old)
     else VerifyPassword x current (usr_hash old)) \<and>
    usr_id (lse_user live') = usr_id (lse_user live) \<and>
    VerifyPassword x password (usr_hash (lse_user live')) \<and>
    \<not> usr_must_change (lse_user live') \<and>
    find_by usr_id (usr_id (lse_user live)) (users s') = Some (lse_user live') \<and>
    sessions s' = filter (\<lambda>r. ses_user r = usr_id (lse_user live) \<longrightarrow> ses_id r = lse_id live) (sessions s)"
proof -
  from assms(1,2) obtain old u' upd where
    old: "find_by usr_id (usr_id (lse_user live)) (users s) = Some old"
    and chk: "if usr_must_change old then \<not> VerifyPassword x password (usr_hash old)
      else VerifyPassword x current (usr_hash old)"
    and upd: "store_UpdateProfile upd s = Inr (u', s')" "live' = live\<lparr>lse_user := u'\<rparr>"
      "upd_id upd = usr_id (lse_user live)" "upd_session upd = lse_id live"
      "upd_hash upd = HashPassword x salt password"
    by (auto simp: auth_UpdateProfile_def store_UserByID_def split: if_splits)
  have nonempty: "HashPassword x salt password \<noteq> []"
    by (simp add: HashPassword_def)
  from upd(1) obtain r us where
    r: "find_by usr_id (upd_id upd) (users s) = Some r"
    and us: "us = update_by usr_id (upd_id upd) (profile_row upd) (users s)"
    and u': "u' = password_row (upd_hash upd) False (upd_at upd) (profile_row upd r)"
    and s': "s' = s\<lparr>users := update_by usr_id (upd_id upd) (password_row (upd_hash upd) False (upd_at upd)) us,
         sessions := filter (\<lambda>x. \<not> (ses_user x = upd_id upd \<and> ses_id x \<noteq> upd_session upd)) (sessions s)\<rparr>"
    by (rule UpdateProfile_Inr) (use nonempty upd(5) in auto)
  have rid: "usr_id r = usr_id (lse_user live)"
    using user_table.find_mem r upd(3) by metis
  have "find_by usr_id (upd_id upd) us = Some (profile_row upd r)"
    using user_table.find_after_update [of "upd_id upd" "profile_row upd" "upd_id upd" s] r
    by (simp add: us)
  then have "find_by usr_id (upd_id upd) (users s') = Some u'"
    using user_table.find_after_update [of "upd_id upd" "password_row (upd_hash upd) False (upd_at upd)"
        "upd_id upd" "s\<lparr>users := us\<rparr>"]
    by (simp add: s' u')
  then show ?thesis
    using old chk upd rid hash_verifies [OF assms(3,4), of password]
    by (auto simp: u' s' password_row_def profile_row_def intro!: filter_cong)
qed

theorem password_change_witness:
  "\<exists>live' s'. auth_UpdateProfile plain_ext \<lparr>lse_id = ''s1'', lse_user = sample_admin, lse_token = [],
      lse_csrf = ''csrf'', lse_expires = 90\<rparr> ''admin'' ''Admin'' ''a@b.pt'' ''UTC'' ''long password''
      ''another-password'' (replicate 16 CHR ''t'') 20 sample_users = Inr (live', s') \<and>
    VerifyPassword plain_ext ''another-password'' (usr_hash (lse_user live'))"
proof -
  let ?live = "\<lparr>lse_id = ''s1'', lse_user = sample_admin, lse_token = [], lse_csrf = ''csrf'',
    lse_expires = 90\<rparr>"
  let ?r = "auth_UpdateProfile plain_ext ?live ''admin'' ''Admin'' ''a@b.pt'' ''UTC'' ''long password''
      ''another-password'' (replicate 16 CHR ''t'') 20 sample_users"
  have "VerifyPassword plain_ext ''long password'' (usr_hash sample_admin)"
    by (simp add: sample_admin_def) (rule hash_verifies; simp add: plain_ext_def passwordSaltLen_def)
  moreover have "validate_Username plain_ext ''admin'' = Inr ''admin''"
    "validate_Name ''Admin'' = Inr ''Admin''" "validate_Password ''another-password'' = Inr ()"
    "validate_Email plain_ext ''a@b.pt'' = Inr ''a@b.pt''"
    "validate_Timezone plain_ext ''UTC'' = Inr ''UTC''"
    by (simp_all add: validate_Username_def validate_Name_def validate_Email_def validate_Timezone_def
        validate_Password_def Let_def ascii_eval usernamePattern_def plain_ext_def)
  moreover have "store_UserByID ''u1'' sample_users = Inr sample_admin"
    "usr_id sample_admin = ''u1''" "\<not> usr_must_change sample_admin" "users sample_users = [sample_admin]"
    by (simp_all add: store_UserByID_def find_by_def sample_users_def sample_admin_def)
  ultimately have "\<exists>p. ?r = Inr p"
    by (simp add: auth_UpdateProfile_def store_UpdateProfile_def find_by_def HashPassword_def)
  then obtain live' s' where r: "?r = Inr (live', s')" by fastforce
  from password_change [OF r] show ?thesis
    using r by (auto simp: passwordSaltLen_def)
qed

text \<open>After a password reset no session of that user is left, so the next request of
  anybody holding one of them is refused, and the new password is temporary: a login with it is
  admitted only to the routes where the password can be changed.\<close>

theorem reset_closes_sessions:
  assumes "auth_ResetPassword x username password salt now s = Inr (c, s')" "auth_inv s"
  shows "\<exists>u \<in> set (users s). fst c = usr_username u \<and>
    (\<forall>row \<in> set (sessions s'). ses_user row \<noteq> usr_id u) \<and>
    (\<forall>token later live. auth_Authenticate x token later s' = Inr live \<longrightarrow> usr_id (lse_user live) \<noteq> usr_id u) \<and>
    (\<forall>login pw i token csrf t live s''. auth_Login x login pw i token csrf t s' = Inr (live, s'') \<longrightarrow>
      usr_id (lse_user live) = usr_id u \<longrightarrow> usr_must_change (lse_user live))"
proof -
  from assms(1) obtain v r where r: "store_UserByUsername v s = Inr r" "c = (usr_username r, password)"
    and s': "s' = s\<lparr>users := update_by usr_id (usr_id r) (password_row (HashPassword x salt password) True now) (users s),
       sessions := filter (\<lambda>y. ses_user y \<noteq> usr_id r) (sessions s)\<rparr>"
    by (rule ResetPassword_Inr)
  have mem: "r \<in> set (users s)"
    using r(1) by (auto simp: store_UserByUsername_def find_by_def dest: find_Some_iff_mem)
  have "usr_must_change u" if "u \<in> set (users s')" "usr_id u = usr_id r" for u
    using that by (auto simp: s' password_row_def elim!: update_by_cases)
  then have login: "usr_must_change (lse_user live)"
    if "auth_Login x login pw i token csrf t s' = Inr (live, s'')" "usr_id (lse_user live) = usr_id r"
    for login pw i token csrf t live s''
    using login_Inr [OF that(1)] that(2) by (metis live_session.select_convs(2))
  have none: "ses_user row \<noteq> usr_id r" if "row \<in> set (sessions s')" for row
    using that by (simp add: s')
  have auth: "usr_id (lse_user live) \<noteq> usr_id r" if "auth_Authenticate x token later s' = Inr live"
    for token later live
    using that none
    by (auto simp: auth_Authenticate_def store_SessionByTokenHash_def store_UserByID_def find_by_def
        dest!: find_Some_iff_mem split: if_splits)
  show ?thesis
    using mem r(2) none login auth by (intro bexI [of _ r]) auto
qed

lemma sample_reset:
  "auth_ResetPassword plain_ext ''admin'' ''temporary-password'' (replicate 16 CHR ''t'') 20 sample_users =
    Inr ((''admin'', ''temporary-password''), sample_users\<lparr>users := [password_row
      (HashPassword plain_ext (replicate 16 CHR ''t'') ''temporary-password'') True 20 sample_admin]\<rparr>)"
proof -
  have "validate_Username plain_ext ''admin'' = Inr ''admin''"
    by (simp add: validate_Username_def Let_def ascii_eval usernamePattern_def)
  moreover have "store_UserByUsername ''admin'' sample_users = Inr sample_admin"
    by (simp add: store_UserByUsername_def find_by_def sample_users_def sample_admin_def)
  moreover have "usr_username sample_admin = ''admin''"
    by (simp add: sample_admin_def)
  ultimately show ?thesis
    by (simp add: auth_ResetPassword_def store_ResetPassword_def sample_users_def empty_db_def)
qed

theorem reset_closes_sessions_witness:
  "\<exists>u \<in> set (users sample_users). ''admin'' = usr_username u"
  using reset_closes_sessions [OF sample_reset sample_users_inv] by auto

text \<open>C26: every operation of the authentication service keeps users and sessions consistent:
  identifiers, usernames (ignoring case) and token hashes stay unique, and every session
  belongs to an existing user.\<close>

theorem auth_keeps_invariant:
  assumes "auth_step x s s'" "auth_inv s"
  shows "auth_inv s'"
  using assms by (rule auth_step_inv)

theorem auth_keeps_invariant_witness: "auth_inv (auth_Logout plain_ext ''token'' sample_users)"
  by (rule auth_keeps_invariant [OF auth_step.logout sample_users_inv])

text \<open>The rule the route table follows: reading needs a session, changing needs the CSRF token
  as well, and only the health check and the login are open.\<close>

definition guarded_route :: "string \<times> string \<times> guard \<times> string \<Rightarrow> bool" where
  "guarded_route r =
     (case r of (meth, _, g, h) \<Rightarrow>
        if h = ''health'' \<or> h = ''login'' then g = Open
        else g = Guarded (meth \<noteq> ''GET''))"

text \<open>Every route of the public API except the health check and the login runs behind the
  middleware, every route that is not a \<open>GET\<close> demands the CSRF token, and no method and
  pattern is registered twice.\<close>

theorem every_route_guarded:
  "list_all guarded_route routes \<and> distinct (map (\<lambda>(m, p, g, h). (m, p)) routes)"
  by (simp add: routes_def guarded_route_def)

end
