(* ===== verification/Nodes.thy ===== *)
theory Nodes
  imports Jobs
begin

text \<open>
  Managed nodes (\<open>internal/nodes\<close>, \<open>store/sqlite/nodes.go\<close>) and the service defaults
  (\<open>internal/services\<close>, \<open>store/sqlite/services.go\<close>).  The capabilities column is the decoded
  value, since the store only writes what \<open>json.Marshal\<close> of the same type produced.
\<close>

interpretation node_table: table nodes "\<lambda>rs s. s\<lparr>nodes := rs\<rparr>" nod_id
  by unfold_locales auto

section \<open>Store operations\<close>

text \<open>\<open>EnsureLocal\<close>: at most one row has kind \<open>local\<close> (a unique index).\<close>

definition store_EnsureLocal :: "string \<Rightarrow> string \<Rightarrow> ident \<Rightarrow> msec \<Rightarrow> db \<Rightarrow> err + (node \<times> db)" where
  "store_EnsureLocal name endpoint i now s =
     (let upd = (\<lambda>n. n\<lparr>nod_name := name, nod_endpoint := endpoint, nod_updated := now\<rparr>) in
      case find_by nod_kind ''local'' (nodes s) of
        Some n \<Rightarrow> Inr (upd n, s\<lparr>nodes := update_by nod_kind ''local'' upd (nodes s)\<rparr>)
      | None \<Rightarrow>
          if exists_by nod_id i (nodes s) then Inl (Wrapped ''create local node'' UniqueViolation)
          else
            (let n = \<lparr>nod_id = i, nod_name = name, nod_kind = ''local'', nod_endpoint = endpoint,
               nod_status = Unknown, nod_last_seen = None, nod_capabilities = None,
               nod_capabilities_at = None, nod_created = now, nod_updated = now\<rparr> in
             Inr (n, s\<lparr>nodes := nodes s @ [n]\<rparr>)))"

definition store_Node :: "ident \<Rightarrow> db \<Rightarrow> err + node" where
  "store_Node i s = some_or ErrNoRows (find_by nod_id i (nodes s))"

definition store_Nodes :: "db \<Rightarrow> node list" where
  "store_Nodes s = order_asc nod_created (nodes s)"

text \<open>\<open>COALESCE(new, old)\<close> keeps what is already there when the new value is \<open>NULL\<close>.\<close>

definition coalesce :: "'a option \<Rightarrow> 'a option \<Rightarrow> 'a option" where
  "coalesce a b = (case a of None \<Rightarrow> b | Some x \<Rightarrow> Some x)"

definition store_UpdateProbe ::
  "ident \<Rightarrow> status \<Rightarrow> msec option \<Rightarrow> capabilities option \<Rightarrow> msec \<Rightarrow> db \<Rightarrow> db" where
  "store_UpdateProbe i st seen caps now s =
     s\<lparr>nodes := update_by nod_id i (\<lambda>n. n\<lparr>nod_status := st,
         nod_last_seen := coalesce seen (nod_last_seen n),
         nod_capabilities := coalesce caps (nod_capabilities n),
         nod_capabilities_at := coalesce seen (nod_capabilities_at n),
         nod_updated := now\<rparr>) (nodes s)\<rparr>"

section \<open>Services\<close>

text \<open>\<open>Probe\<close>: the prober is the agent client; its reply is an error or the capabilities.\<close>

definition nodes_Probe ::
  "(string \<Rightarrow> err + capabilities) \<Rightarrow> ident \<Rightarrow> msec \<Rightarrow> db \<Rightarrow> err option \<times> db" where
  "nodes_Probe prober i now s =
     (case store_Node i s of
        Inl e \<Rightarrow> (Some (Wrapped ''get node'' e), s)
      | Inr n \<Rightarrow>
          (case prober (nod_endpoint n) of
             Inl e \<Rightarrow> (Some e, store_UpdateProbe (nod_id n) Offline None None now s)
           | Inr caps \<Rightarrow> (None, store_UpdateProbe (nod_id n) Online (Some now) (Some caps) now s)))"

definition service_checks :: "service_defaults \<Rightarrow> (string \<times> string \<times> string) list" where
  "service_checks v =
     [(''webDriver'', def_web v, ''nginx''), (''runtimeDriver'', def_runtime v, ''phpfpm''),
      (''runtimeVersion'', def_runtime_version v, ''8.3''), (''databaseDriver'', def_database v, ''mysql''),
      (''schedulerDriver'', def_scheduler v, ''crontab''), (''backupDriver'', def_backup v, ''local'')]"

fun first_check :: "(string \<times> string \<times> string) list \<Rightarrow> err + unit" where
  "first_check [] = Inr ()"
| "first_check ((field, v, want) # cs) =
     (if v \<noteq> want then Inl (ValidationErr field ''The selected service is not supported'')
      else first_check cs)"

definition ValidateDefaults :: "service_defaults \<Rightarrow> err + unit" where
  "ValidateDefaults v = first_check (service_checks v)"

definition services_Update :: "service_defaults \<Rightarrow> msec \<Rightarrow> db \<Rightarrow> err + (service_settings \<times> db)" where
  "services_Update v now s =
     andthen (ValidateDefaults v) (\<lambda>_.
     let row = \<lparr>svc_defaults = v, svc_updated = now\<rparr> in Inr (row, s\<lparr>settings := row\<rparr>))"

definition services_Settings :: "db \<Rightarrow> service_settings" where
  "services_Settings s = settings s"

section \<open>Facts\<close>

lemma services_Update_supported:
  "services_Update v now s = Inr (r, s') \<Longrightarrow> v = svc_defaults default_settings"
  by (auto simp: services_Update_def ValidateDefaults_def service_checks_def default_settings_def
      split: if_splits)

lemma probe_keeps_jobs [row_simps]: "jobs (snd (nodes_Probe p i now s)) = jobs s"
  by (simp add: nodes_Probe_def store_UpdateProbe_def split: sum.split)

text \<open>A failed probe keeps the last sighting and the last known capabilities.\<close>

lemma probe_offline_keeps_capabilities:
  assumes "distinct (map nod_id (nodes s))" "find_by nod_id i (nodes s) = Some n"
    "prober (nod_endpoint n) = Inl e"
  shows "find_by nod_id i (nodes (snd (nodes_Probe prober i now s))) =
    Some (n\<lparr>nod_status := Offline, nod_updated := now\<rparr>)"
  using assms node_table.find_mem [of i s n]
    node_table.find_after_update [of i "\<lambda>n. n\<lparr>nod_status := Offline,
      nod_last_seen := coalesce None (nod_last_seen n),
      nod_capabilities := coalesce None (nod_capabilities n),
      nod_capabilities_at := coalesce None (nod_capabilities_at n), nod_updated := now\<rparr>" i s]
  by (auto simp: nodes_Probe_def store_Node_def store_UpdateProbe_def coalesce_def)

end
