(* ===== verification/Packages.thy ===== *)
theory Packages
  imports Validate Pagination
begin

text \<open>
  Packages and quotas: \<open>internal/packages\<close> and \<open>store/sqlite/packages.go\<close>.  A package bounds
  what the accounts it is assigned to may own; \<open>requireCapacity\<close> is the check every creating
  transaction makes.  Its contract with those transactions is the locale \<open>capped_create\<close>.
\<close>

interpretation package_table: table packages "\<lambda>rs s. s\<lparr>packages := rs\<rparr>" pkg_id
  by unfold_locales auto

section \<open>Store operations\<close>

definition package_account_count :: "ident \<Rightarrow> db \<Rightarrow> int" where
  "package_account_count i s = count_by apk_package i (account_packages s)"

definition package_name_exists :: "string \<Rightarrow> ident \<Rightarrow> db \<Rightarrow> bool" where
  "package_name_exists name i s \<longleftrightarrow>
     list_ex (\<lambda>p. nocase (pkg_name p) = nocase name \<and> pkg_id p \<noteq> i) (packages s)"

definition limits_checked :: "limits \<Rightarrow> bool" where
  "limits_checked l \<longleftrightarrow>
     list_all (\<lambda>v. 0 \<le> v \<and> v \<le> 1000000) [lim_websites l, lim_domains l, lim_aliases l, lim_databases l,
       lim_database_users l, lim_scheduled_tasks l, lim_backup_plans l] \<and>
     1 \<le> lim_backup_retention l \<and> lim_backup_retention l \<le> 100 \<and>
     0 \<le> lim_ftp_accounts l \<and> lim_ftp_accounts l \<le> 100"

definition store_CreatePackage :: "pkg \<Rightarrow> db \<Rightarrow> err + (pkg \<times> db)" where
  "store_CreatePackage v s =
     (if package_name_exists (pkg_name v) (pkg_id v) s then Inl PkgErrNameExists
      else if \<not> limits_checked (pkg_limits v) then Inl CheckViolation
      else if exists_by pkg_id (pkg_id v) (packages s) then Inl UniqueViolation
      else Inr (v, s\<lparr>packages := packages s @ [v]\<rparr>))"

definition store_Package :: "ident \<Rightarrow> db \<Rightarrow> err + (pkg \<times> int)" where
  "store_Package i s =
     andthen (some_or ErrNoRows (find_by pkg_id i (packages s))) (\<lambda>p.
     Inr (p, package_account_count i s))"

definition store_PackagePage :: "query \<Rightarrow> db \<Rightarrow> (pkg \<times> int) result" where
  "store_PackagePage q s =
     store_page (map (\<lambda>p. (p, package_account_count (pkg_id p) s))
       (order_asc (nocase \<circ> pkg_name) (packages s))) q"

definition package_row :: "pkg \<Rightarrow> pkg \<Rightarrow> pkg" where
  "package_row v p = p\<lparr>pkg_name := pkg_name v, pkg_limits := pkg_limits v, pkg_updated := pkg_updated v\<rparr>"

definition store_UpdatePackage :: "pkg \<Rightarrow> db \<Rightarrow> err + (pkg \<times> db)" where
  "store_UpdatePackage v s =
     (if package_name_exists (pkg_name v) (pkg_id v) s then Inl PkgErrNameExists
      else case find_by pkg_id (pkg_id v) (packages s) of
        None \<Rightarrow> Inl ErrNoRows
      | Some p \<Rightarrow>
          if \<not> limits_checked (pkg_limits v) then Inl CheckViolation
          else Inr (package_row v p,
            s\<lparr>packages := update_by pkg_id (pkg_id v) (package_row v) (packages s)\<rparr>))"

definition store_DeletePackage :: "ident \<Rightarrow> db \<Rightarrow> err + db" where
  "store_DeletePackage i s =
     (if exists_by pkg_id i (packages s) \<and> \<not> exists_by apk_package i (account_packages s)
      then Inr (s\<lparr>packages := delete_by pkg_id i (packages s)\<rparr>)
      else if \<not> exists_by pkg_id i (packages s) then Inl ErrNoRows
      else Inl PkgErrInUse)"

text \<open>The upsert \<open>ON CONFLICT(account_id) DO UPDATE\<close>, with both foreign keys.\<close>

definition store_AssignPackage :: "ident \<Rightarrow> ident \<Rightarrow> msec \<Rightarrow> db \<Rightarrow> err + db" where
  "store_AssignPackage a p now s =
     (if \<not> exists_by acc_id a (accounts s) \<or> \<not> exists_by pkg_id p (packages s)
      then Inl ForeignKeyViolation
      else if exists_by apk_account a (account_packages s)
      then Inr (s\<lparr>account_packages := update_by apk_account a
        (\<lambda>r. r\<lparr>apk_package := p, apk_updated := now\<rparr>) (account_packages s)\<rparr>)
      else Inr (s\<lparr>account_packages := account_packages s @
        [\<lparr>apk_account = a, apk_package = p, apk_created = now, apk_updated = now\<rparr>]\<rparr>))"

section \<open>Quotas\<close>

text \<open>The limit of each kind, and what the subqueries of \<open>requireCapacity\<close> count.\<close>

fun limit_of :: "resource \<Rightarrow> limits \<Rightarrow> int" where
  "limit_of Websites l = lim_websites l"
| "limit_of Domains l = lim_domains l"
| "limit_of Aliases l = lim_aliases l"
| "limit_of Databases l = lim_databases l"
| "limit_of DatabaseUsers l = lim_database_users l"
| "limit_of ScheduledTasks l = lim_scheduled_tasks l"
| "limit_of BackupPlans l = lim_backup_plans l"
| "limit_of FTPAccounts l = lim_ftp_accounts l"
| "limit_of BackupRetentionResource l = lim_backup_retention l"

definition domains_of_kind :: "domain_kind \<Rightarrow> ident \<Rightarrow> db \<Rightarrow> domain list" where
  "domains_of_kind k a s =
     filter (\<lambda>d. dom_kind d = k \<and>
       list_ex (\<lambda>w. web_id w = dom_website d \<and> web_account w = a) (websites s)) (domains s)"

fun used_of :: "resource \<Rightarrow> ident \<Rightarrow> db \<Rightarrow> int" where
  "used_of Websites a s = count_by web_account a (websites s)"
| "used_of Domains a s = int (length (domains_of_kind Primary a s))"
| "used_of Aliases a s = int (length (domains_of_kind Alias a s))"
| "used_of Databases a s = count_by dba_account a (databases s)"
| "used_of DatabaseUsers a s = count_by dbu_account a (database_users s)"
| "used_of ScheduledTasks a s = count_by tsk_account a (tasks s)"
| "used_of BackupPlans a s = count_by pln_account a (backup_plans s)"
| "used_of FTPAccounts a s = count_by ftp_account_id a (ftp_accounts s)"
| "used_of BackupRetentionResource a s = 0"

text \<open>The package of an account: \<open>accounts JOIN account_packages JOIN packages\<close>.\<close>

definition account_package_limits :: "ident \<Rightarrow> db \<Rightarrow> limits option" where
  "account_package_limits a s =
     (case find_by apk_account a (account_packages s) of
        None \<Rightarrow> None
      | Some r \<Rightarrow> map_option pkg_limits (find_by pkg_id (apk_package r) (packages s)))"

definition requireCapacity :: "resource \<Rightarrow> ident \<Rightarrow> db \<Rightarrow> err + unit" where
  "requireCapacity k a s =
     (if k = BackupRetentionResource then Inl (Plain ''unknown package limit'')
      else if \<not> exists_by acc_id a (accounts s) then Inl ErrNoRows
      else case account_package_limits a s of
        None \<Rightarrow> Inl ErrNoRows
      | Some l \<Rightarrow> fail_when (limit_of k l \<le> used_of k a s) (LimitErr k (limit_of k l)))"

definition requireRetention :: "ident \<Rightarrow> int \<Rightarrow> int \<Rightarrow> db \<Rightarrow> err + unit" where
  "requireRetention a requested current s =
     (case account_package_limits a s of
        None \<Rightarrow> Inl ErrNoRows
      | Some l \<Rightarrow> fail_when (lim_backup_retention l < requested \<and> current < requested)
          (LimitErr BackupRetentionResource (lim_backup_retention l)))"

section \<open>Service\<close>

fun check_limits :: "(string \<times> int) list \<Rightarrow> err + unit" where
  "check_limits [] = Inr ()"
| "check_limits ((field, v) # ls) =
     (if v < 0 \<or> 1000000 < v then Inl (ValidationErr field ''Use a limit between 0 and 1000000'')
      else check_limits ls)"

definition packages_prepare :: "pkg \<Rightarrow> err + pkg" where
  "packages_prepare p =
     (let v = p\<lparr>pkg_name := TrimSpace (pkg_name p)\<rparr>; l = pkg_limits v in
      andthen (fail_when (length (pkg_name v) < 2 \<or> 80 < length (pkg_name v))
        (ValidationErr ''name'' ''Use a name between 2 and 80 characters'')) (\<lambda>_.
      andthen (check_limits [(''maxWebsites'', lim_websites l), (''maxDomains'', lim_domains l),
        (''maxAliases'', lim_aliases l), (''maxDatabases'', lim_databases l),
        (''maxDatabaseUsers'', lim_database_users l), (''maxScheduledTasks'', lim_scheduled_tasks l),
        (''maxBackupPlans'', lim_backup_plans l)]) (\<lambda>_.
      andthen (fail_when (lim_backup_retention l < 1 \<or> 100 < lim_backup_retention l)
        (ValidationErr ''maxBackupRetention'' ''Use a retention between 1 and 100'')) (\<lambda>_.
      andthen (fail_when (lim_ftp_accounts l < 0 \<or> 100 < lim_ftp_accounts l)
        (ValidationErr ''maxFTPAccounts'' ''Use an FTP account limit between 0 and 100'')) (\<lambda>_.
      andthen (fail_when (lim_domains l < lim_websites l)
        (ValidationErr ''maxDomains'' (''Use at least '' @ int_text (lim_websites l) @ '' domains for '' @
          int_text (lim_websites l) @ '' websites''))) (\<lambda>_.
      Inr v))))))"

definition packages_Create :: "pkg \<Rightarrow> ident \<Rightarrow> msec \<Rightarrow> db \<Rightarrow> err + (pkg \<times> db)" where
  "packages_Create v i now s =
     andthen (packages_prepare v) (\<lambda>v'.
     store_CreatePackage (v'\<lparr>pkg_id := i, pkg_created := now, pkg_updated := now\<rparr>) s)"

definition packages_Update :: "ident \<Rightarrow> pkg \<Rightarrow> msec \<Rightarrow> db \<Rightarrow> err + (pkg \<times> db)" where
  "packages_Update i v now s =
     andthen (validate_ID ''packageId'' i) (\<lambda>_.
     andthen (store_Package i s) (\<lambda>(current, _).
     andthen (packages_prepare v) (\<lambda>v'.
     store_UpdatePackage (v'\<lparr>pkg_id := i, pkg_created := pkg_created current, pkg_updated := now\<rparr>) s)))"

definition packages_Delete :: "ident \<Rightarrow> db \<Rightarrow> err + db" where
  "packages_Delete i s = andthen (validate_ID ''packageId'' i) (\<lambda>_. store_DeletePackage i s)"

definition packages_Package :: "ident \<Rightarrow> db \<Rightarrow> err + (pkg \<times> int)" where
  "packages_Package i s = andthen (validate_ID ''packageId'' i) (\<lambda>_. store_Package i s)"

definition packages_Page :: "query \<Rightarrow> db \<Rightarrow> (pkg \<times> int) result" where
  "packages_Page q s = store_PackagePage q s"

definition packages_Assign :: "ident \<Rightarrow> ident \<Rightarrow> msec \<Rightarrow> db \<Rightarrow> err + db" where
  "packages_Assign a p now s =
     andthen (validate_ID ''accountId'' a) (\<lambda>_.
     andthen (packages_Package p s) (\<lambda>_.
     store_AssignPackage a p now s))"

section \<open>Invariant\<close>

definition packages_inv :: "db \<Rightarrow> bool" where
  "packages_inv s \<longleftrightarrow>
     distinct (map pkg_id (packages s)) \<and> distinct (map (nocase \<circ> pkg_name) (packages s)) \<and>
     (\<forall>p \<in> set (packages s). limits_checked (pkg_limits p) \<and>
        lim_websites (pkg_limits p) \<le> lim_domains (pkg_limits p)) \<and>
     distinct (map apk_account (account_packages s)) \<and>
     (\<forall>r \<in> set (account_packages s). apk_package r \<in> pkg_id ` set (packages s))"

inductive package_step :: "db \<Rightarrow> db \<Rightarrow> bool" where
  create: "packages_Create v i now s = Inr (p, s') \<Longrightarrow> package_step s s'"
| update: "packages_Update i v now s = Inr (p, s') \<Longrightarrow> package_step s s'"
| delete: "packages_Delete i s = Inr s' \<Longrightarrow> package_step s s'"
| assign: "packages_Assign a p now s = Inr s' \<Longrightarrow> package_step s s'"

lemma check_limits_Inr: "check_limits ls = Inr u \<longleftrightarrow> list_all (\<lambda>(f, v). 0 \<le> v \<and> v \<le> 1000000) ls"
  by (induction ls) auto

lemma prepare_Inr:
  assumes "packages_prepare p = Inr v"
  shows "v = p\<lparr>pkg_name := TrimSpace (pkg_name p)\<rparr>" "limits_checked (pkg_limits v)"
    "lim_websites (pkg_limits v) \<le> lim_domains (pkg_limits v)"
    "2 \<le> length (pkg_name v) \<and> length (pkg_name v) \<le> 80"
  using assms by (auto simp: packages_prepare_def Let_def check_limits_Inr limits_checked_def)

lemma package_ids_update:
  "map pkg_id (update_by pkg_id i (package_row v) ps) = map pkg_id ps"
  by (rule update_by_keys) (simp add: package_row_def)

lemma package_renamed_distinct:
  assumes "distinct (map pkg_id ps)" "distinct (map (nocase \<circ> pkg_name) ps)"
    "\<not> list_ex (\<lambda>p. nocase (pkg_name p) = nocase (pkg_name v) \<and> pkg_id p \<noteq> i) ps"
  shows "distinct (map (nocase \<circ> pkg_name) (update_by pkg_id i (package_row v) ps))"
  using assms
  by (intro update_by_distinct [where c = "nocase (pkg_name v)"])
    (auto simp: list_ex_iff package_row_def)

lemma package_step_inv:
  assumes "package_step s s'" "packages_inv s"
  shows "packages_inv s'"
  using assms(1)
proof cases
  case (create v i now p)
  then show ?thesis
    using assms(2) prepare_Inr
    by (auto simp: packages_Create_def store_CreatePackage_def packages_inv_def
        package_table.exists_iff package_name_exists_def list_ex_iff split: if_splits) (metis imageI)
next
  case (update i v now p)
  then obtain current :: pkg and n v' where v': "packages_prepare v = Inr v'"
    "store_UpdatePackage (v'\<lparr>pkg_id := i, pkg_created := pkg_created current, pkg_updated := now\<rparr>) s = Inr (p, s')"
    by (auto simp: packages_Update_def)
  define u where "u = v'\<lparr>pkg_id := i, pkg_created := pkg_created current, pkg_updated := now\<rparr>"
  have u: "limits_checked (pkg_limits u)" "lim_websites (pkg_limits u) \<le> lim_domains (pkg_limits u)"
    "pkg_id u = i"
    using prepare_Inr [OF v'(1)] by (simp_all add: u_def)
  have s': "s' = s\<lparr>packages := update_by pkg_id i (package_row u) (packages s)\<rparr>"
    and free: "\<not> list_ex (\<lambda>p. nocase (pkg_name p) = nocase (pkg_name u) \<and> pkg_id p \<noteq> i) (packages s)"
    using v'(2) u(3) unfolding u_def [symmetric]
    by (auto simp: store_UpdatePackage_def package_name_exists_def split: if_splits option.splits)
  have "pkg_id ` set (packages s') = pkg_id ` set (packages s)"
    by (metis package_ids_update s' package_table.rows_put set_map)
  moreover have "distinct (map (nocase \<circ> pkg_name) (packages s'))"
    using package_renamed_distinct free assms(2) by (simp add: s' packages_inv_def)
  moreover have "limits_checked (pkg_limits q) \<and> lim_websites (pkg_limits q) \<le> lim_domains (pkg_limits q)"
    if "q \<in> set (packages s')" for q
    using that u assms(2) by (auto simp: s' packages_inv_def package_row_def elim!: update_by_cases)
  ultimately show ?thesis
    using assms(2) by (simp add: packages_inv_def s' package_ids_update)
next
  case (delete i)
  then show ?thesis
    using assms(2)
    by (fastforce simp: packages_Delete_def store_DeletePackage_def packages_inv_def delete_by_def
        exists_by_def list_ex_iff distinct_map_filter split: if_splits)
next
  case (assign a p now)
  then have "store_AssignPackage a p now s = Inr s'"
    by (simp add: packages_Assign_def)
  then show ?thesis
    using assms(2) update_by_keys [of apk_account "\<lambda>r. r\<lparr>apk_package := p, apk_updated := now\<rparr>"
        apk_account a "account_packages s"]
    by (auto simp: store_AssignPackage_def packages_inv_def exists_by_def list_ex_iff
        split: if_splits elim!: update_by_cases) blast
qed

section \<open>The contract of creating transactions\<close>

text \<open>
  A transaction that creates a resource of kind \<open>kind\<close> for the account \<open>owner\<close>, checks the
  capacity first and adds one.  Then no success takes the account past its package's limit.
  \<open>inv\<close> is the invariant of the tables the count joins, where the count needs one.
\<close>

locale capped_create =
  fixes create :: "'a \<Rightarrow> db \<Rightarrow> err + ('b \<times> db)" and kind :: resource
    and owner :: "'a \<Rightarrow> db \<Rightarrow> ident" and inv :: "db \<Rightarrow> bool"
  assumes checked: "create a s = Inr (v, s') \<Longrightarrow> requireCapacity kind (owner a s) s = Inr ()"
    and keeps_packages: "create a s = Inr (v, s') \<Longrightarrow>
      packages s' = packages s \<and> account_packages s' = account_packages s"
    and adds_one: "inv s \<Longrightarrow> create a s = Inr (v, s') \<Longrightarrow>
      used_of kind (owner a s) s' = used_of kind (owner a s) s + 1"
begin

lemma within_limit:
  assumes "inv s" "create a s = Inr (v, s')"
  shows "\<exists>l. account_package_limits (owner a s) s' = Some l \<and> used_of kind (owner a s) s' \<le> limit_of kind l"
proof -
  obtain l where "account_package_limits (owner a s) s = Some l"
    "used_of kind (owner a s) s < limit_of kind l"
    using checked [OF assms(2)] by (auto simp: requireCapacity_def split: if_splits option.splits)
  moreover have "account_package_limits (owner a s) s' = account_package_limits (owner a s) s"
    using keeps_packages [OF assms(2)] by (simp add: account_package_limits_def split: option.split)
  ultimately show ?thesis
    using adds_one [OF assms] by auto
qed

lemma refused_at_limit:
  assumes "account_package_limits (owner a s) s = Some l" "limit_of kind l \<le> used_of kind (owner a s) s"
  shows "\<exists>e. create a s = Inl e"
proof (cases "create a s")
  case (Inr p)
  then obtain v s' where "create a s = Inr (v, s')"
    by (cases p) auto
  from checked [OF this] show ?thesis
    using assms by (auto simp: requireCapacity_def split: if_splits)
qed auto

end

lemma count_by_append [simp]:
  "count_by key k (rs @ [r]) = count_by key k rs + (if key r = k then 1 else 0)"
  by (simp add: count_by_def)

section \<open>Properties\<close>

text \<open>The operations on packages keep the catalogue well formed: unique identifiers, unique
  names ignoring case, every limit inside the bounds the forms promise with at least one domain
  per website, one package per account, and no account left with a package that was deleted.\<close>

theorem packages_stay_well_formed:
  assumes "package_step s s'" "packages_inv s"
  shows "packages_inv s'"
  using assms by (rule package_step_inv)

theorem packages_stay_well_formed_witness:
  "packages_inv (empty_db\<lparr>packages := []\<rparr>)"
proof (rule packages_stay_well_formed)
  show "package_step empty_db (empty_db\<lparr>packages := []\<rparr>)"
    by (rule package_step.delete [of default_package_id])
      (simp add: packages_Delete_def validate_ID_def idPattern_def default_package_id_def is_hex_lower_def
        is_digit_def bytes_between_def byte_def store_DeletePackage_def exists_by_def empty_db_def
        delete_by_def)
  show "packages_inv empty_db"
    by (simp add: packages_inv_def empty_db_def default_limits_def limits_checked_def)
qed

end
