(* ===== verification/Accounts.thy ===== *)
theory Accounts
  imports Packages Nodes
begin

text \<open>
  Hosting accounts: \<open>internal/accounts/service.go\<close> and \<open>store/sqlite/accounts.go\<close>.  An account is
  one system user on a node; every resource belongs to an account, and \<open>accounts_Account\<close> is the
  access check all services share (locale \<open>owned_resource\<close>).  Deleting the row cascades to what
  the schema says \<open>ON DELETE CASCADE\<close>, and is refused by what it says \<open>RESTRICT\<close>.
\<close>

interpretation account_table: table accounts "\<lambda>rs s. s\<lparr>accounts := rs\<rparr>" acc_id
  by unfold_locales auto

section \<open>Store operations\<close>

definition insert_account :: "account \<Rightarrow> db \<Rightarrow> err + db" where
  "insert_account a s =
     (if exists_by acc_id (acc_id a) (accounts s) \<or> exists_by acc_name (acc_name a) (accounts s) \<or>
        exists_by acc_system_user (acc_system_user a) (accounts s) then Inl UniqueViolation
      else if acc_node a \<noteq> [] \<and> \<not> exists_by nod_id (acc_node a) (nodes s) then Inl ForeignKeyViolation
      else Inr (s\<lparr>accounts := accounts s @ [a\<lparr>acc_status := Pending, acc_enabled := True\<rparr>]\<rparr>))"

definition insert_member :: "member \<Rightarrow> db \<Rightarrow> err + db" where
  "insert_member m s =
     (if list_ex (\<lambda>r. mem_account r = mem_account m \<and> mem_user r = mem_user m) (members s)
      then Inl UniqueViolation
      else if \<not> exists_by acc_id (mem_account m) (accounts s) \<or> \<not> exists_by usr_id (mem_user m) (users s)
      then Inl ForeignKeyViolation
      else Inr (s\<lparr>members := members s @ [m]\<rparr>))"

definition store_CreateProvision ::
  "account \<Rightarrow> ident \<Rightarrow> ident \<Rightarrow> job \<Rightarrow> db \<Rightarrow> err + ((account \<times> job) \<times> db)" where
  "store_CreateProvision a owner package j s =
     (if list_ex (\<lambda>r. nocase (acc_name r) = nocase (acc_name a)) (accounts s) then Inl AccErrNameExists
      else
        andthen (map_err (Wrapped ''insert account'') (insert_account a s)) (\<lambda>s1.
        andthen (map_err (Wrapped ''add account owner'') (insert_member
          \<lparr>mem_account = acc_id a, mem_user = owner, mem_created = acc_created a\<rparr> s1)) (\<lambda>s2.
        andthen (map_err (Wrapped ''assign account package'')
          (store_AssignPackage (acc_id a) package (acc_created a) s2)) (\<lambda>s3.
        andthen (map_err (Wrapped ''insert account job'') (store_CreateJob j s3)) (\<lambda>(j', s4).
        Inr ((a\<lparr>acc_status := Pending, acc_enabled := True\<rparr>, j'), s4))))))"

definition store_Account :: "ident \<Rightarrow> db \<Rightarrow> err + account" where
  "store_Account i s = some_or ErrNoRows (find_by acc_id i (accounts s))"

definition store_AccountMember :: "ident \<Rightarrow> ident \<Rightarrow> db \<Rightarrow> bool" where
  "store_AccountMember a u s \<longleftrightarrow> list_ex (\<lambda>r. mem_account r = a \<and> mem_user r = u) (members s)"

definition store_Accounts :: "ident \<Rightarrow> bool \<Rightarrow> db \<Rightarrow> account list" where
  "store_Accounts u admin s =
     order_asc acc_created (if admin then accounts s
       else filter (\<lambda>a. store_AccountMember (acc_id a) u s) (accounts s))"

text \<open>A row of the view \<open>account_overviews\<close>: the account, its package and its usage.\<close>

record overview =
  ovw_account :: account
  ovw_package :: pkg
  ovw_package_accounts :: int
  ovw_usage :: "resource \<Rightarrow> int"

definition account_overview :: "account \<Rightarrow> db \<Rightarrow> overview option" where
  "account_overview a s =
     (case find_by apk_account (acc_id a) (account_packages s) of
        None \<Rightarrow> None
      | Some r \<Rightarrow> (case find_by pkg_id (apk_package r) (packages s) of
          None \<Rightarrow> None
        | Some p \<Rightarrow> Some \<lparr>ovw_account = a, ovw_package = p,
            ovw_package_accounts = package_account_count (pkg_id p) s,
            ovw_usage = (\<lambda>k. used_of k (acc_id a) s)\<rparr>))"

definition store_AccountOverview :: "ident \<Rightarrow> db \<Rightarrow> err + overview" where
  "store_AccountOverview i s =
     some_or ErrNoRows (case find_by acc_id i (accounts s) of
       None \<Rightarrow> None | Some a \<Rightarrow> account_overview a s)"

text \<open>The page counts accounts and lists overviews; both have one row per account.\<close>

definition store_AccountPage :: "ident \<Rightarrow> bool \<Rightarrow> query \<Rightarrow> db \<Rightarrow> overview result" where
  "store_AccountPage u admin q s =
     (let tot = int (length (store_Accounts u admin s)); q' = Clamp q tot;
          rows = List.map_filter (\<lambda>a. account_overview a s) (store_Accounts u admin s) in
      \<lparr>res_items = limit_offset (qry_size q') (Offset q') rows, res_query = q', res_total = tot\<rparr>)"

definition store_ResourceCount :: "ident \<Rightarrow> db \<Rightarrow> int" where
  "store_ResourceCount a s =
     count_by web_account a (websites s) + count_by dba_account a (databases s) +
     count_by dbu_account a (database_users s) + count_by tsk_account a (tasks s) +
     count_by ftp_account_id a (ftp_accounts s) + count_by pln_account a (backup_plans s) +
     count_by art_account a (artifacts s) + count_by dzn_account a (dns_zones s)"

definition queue_account_row :: "bool \<Rightarrow> msec \<Rightarrow> account \<Rightarrow> account" where
  "queue_account_row enabled now a = a\<lparr>acc_enabled := enabled, acc_status := Pending, acc_updated := now\<rparr>"

definition store_QueueAction ::
  "ident \<Rightarrow> bool \<Rightarrow> job \<Rightarrow> msec \<Rightarrow> db \<Rightarrow> err + ((account \<times> job) \<times> db)" where
  "store_QueueAction i enabled j now s =
     andthen (fail_when (job_kind_of j = KindAccountDelete \<and> store_ResourceCount i s \<noteq> 0) AccErrNotEmpty) (\<lambda>_.
     andthen (some_or ErrNoRows (List.find (\<lambda>a. acc_id a = i \<and> acc_status a \<noteq> Pending) (accounts s))) (\<lambda>a.
     andthen (store_CreateJob j
       (s\<lparr>accounts := map (\<lambda>r. if acc_id r = i \<and> acc_status r \<noteq> Pending
          then queue_account_row enabled now r else r) (accounts s)\<rparr>)) (\<lambda>(j', s').
     Inr ((queue_account_row enabled now a, j'), s'))))"

definition store_UpdateStatus :: "ident \<Rightarrow> status \<Rightarrow> msec \<Rightarrow> db \<Rightarrow> db" where
  "store_UpdateStatus i st now s =
     s\<lparr>accounts := update_by acc_id i (\<lambda>a. a\<lparr>acc_status := st, acc_updated := now\<rparr>) (accounts s)\<rparr>"

text \<open>\<open>DELETE FROM accounts\<close> with the foreign keys that point at the account.\<close>

definition detach_plans :: "ident set \<Rightarrow> backup_run \<Rightarrow> backup_run" where
  "detach_plans P r = (if run_plan r \<in> P then r\<lparr>run_plan := []\<rparr> else r)"

definition cascade_account :: "ident \<Rightarrow> db \<Rightarrow> db" where
  "cascade_account i s =
     (let webs = map web_id (filter (\<lambda>w. web_account w = i) (websites s));
          dbs = map dba_id (filter (\<lambda>d. dba_account d = i) (databases s));
          dbus = map dbu_id (filter (\<lambda>u. dbu_account u = i) (database_users s));
          plans = map pln_id (filter (\<lambda>p. pln_account p = i) (backup_plans s));
          runs = map run_id (filter (\<lambda>r. run_account r = i) (backup_runs s));
          crts = map crt_id (filter (\<lambda>c. crt_website c \<in> set webs) (certificates s)) in
      s\<lparr>accounts := delete_by acc_id i (accounts s),
        members := delete_by mem_account i (members s),
        account_packages := delete_by apk_account i (account_packages s),
        websites := delete_by web_account i (websites s),
        domains := filter (\<lambda>d. dom_website d \<notin> set webs) (domains s),
        certificates := filter (\<lambda>c. crt_website c \<notin> set webs) (certificates s),
        certificate_names := filter (\<lambda>n. fst n \<notin> set crts) (certificate_names s),
        databases := delete_by dba_account i (databases s),
        database_users := delete_by dbu_account i (database_users s),
        grants := filter (\<lambda>g. gra_database g \<notin> set dbs \<and> gra_user g \<notin> set dbus) (grants s),
        tasks := delete_by tsk_account i (tasks s),
        backup_plans := delete_by pln_account i (backup_plans s),
        backup_runs := map (detach_plans (set plans)) (delete_by run_account i (backup_runs s)),
        artifacts := filter (\<lambda>a. art_account a \<noteq> i \<and> art_run a \<notin> set runs) (artifacts s)\<rparr>)"

definition store_DeleteAccount :: "ident \<Rightarrow> db \<Rightarrow> err + db" where
  "store_DeleteAccount i s =
     (if exists_by acc_id i (accounts s) \<and>
        (exists_by dzn_account i (dns_zones s) \<or> exists_by ftp_account_id i (ftp_accounts s))
      then Inl ForeignKeyViolation
      else if \<not> exists_by acc_id i (accounts s) then Inr s
      else Inr (cascade_account i s))"

section \<open>Service\<close>

text \<open>The access check: an administrator sees every account, a user those they are a member of.\<close>

definition accounts_Account :: "ident \<Rightarrow> ident \<Rightarrow> bool \<Rightarrow> db \<Rightarrow> err + account" where
  "accounts_Account i u admin s =
     andthen (store_Account i s) (\<lambda>a.
     if admin then Inr a
     else if store_AccountMember i u s then Inr a else Inl AccErrForbidden)"

definition accounts_Get :: "ident \<Rightarrow> db \<Rightarrow> err + account" where
  "accounts_Get i s = store_Account i s"

definition accounts_Accounts :: "ident \<Rightarrow> bool \<Rightarrow> db \<Rightarrow> account list" where
  "accounts_Accounts u admin s = store_Accounts u admin s"

definition accounts_AccountPage :: "ident \<Rightarrow> bool \<Rightarrow> query \<Rightarrow> db \<Rightarrow> overview result" where
  "accounts_AccountPage u admin q s = store_AccountPage u admin q s"

definition account_payload :: "ident \<Rightarrow> payload" where
  "account_payload a = [(''accountId'', JStr a)]"

definition new_job ::
  "ident \<Rightarrow> ident \<Rightarrow> ident \<Rightarrow> job_kind \<Rightarrow> payload \<Rightarrow> int \<Rightarrow> msec \<Rightarrow> job" where
  "new_job i node u k p attempts now =
     \<lparr>job_id = i, job_node = node, job_user = u, job_kind_of = k, job_status = Queued,
      job_payload = p, job_attempts = 0, job_max = attempts, job_error = [], job_created = now,
      job_started = None, job_finished = None\<rparr>"

definition accounts_Create ::
  "string \<Rightarrow> ident \<Rightarrow> ident \<Rightarrow> ident \<Rightarrow> ident \<Rightarrow> ident \<Rightarrow> msec \<Rightarrow> db \<Rightarrow> err + ((account \<times> job) \<times> db)" where
  "accounts_Create name node package owner i jid now s =
     andthen (validate_AccountName name) (\<lambda>name'.
     andthen (fail_when (node = []) (ValidationErr ''nodeId'' ''Select a managed node'')) (\<lambda>_.
     andthen (map_err (Wrapped ''get account node'') (store_Node node s)) (\<lambda>_.
     andthen (map_err (Wrapped ''get account package'') (packages_Package package s)) (\<lambda>_.
     map_err (Wrapped ''create account provision'') (store_CreateProvision
       \<lparr>acc_id = i, acc_node = node, acc_name = name', acc_system_user = ''wcp_'' @ take 12 i,
        acc_status = Pending, acc_enabled = True, acc_created = now, acc_updated = now\<rparr>
       owner package (new_job jid node owner KindAccountCreate (account_payload i) 2 now) s)))))"

definition newActionJob :: "account \<Rightarrow> ident \<Rightarrow> job_kind \<Rightarrow> ident \<Rightarrow> msec \<Rightarrow> job" where
  "newActionJob a u k jid now = new_job jid (acc_node a) u k (account_payload (acc_id a)) 2 now"

definition accounts_Set ::
  "ident \<Rightarrow> ident \<Rightarrow> bool \<Rightarrow> bool \<Rightarrow> ident \<Rightarrow> msec \<Rightarrow> db \<Rightarrow> err + ((account \<times> job) \<times> db)" where
  "accounts_Set i u admin enabled jid now s =
     andthen (accounts_Account i u admin s) (\<lambda>a.
     andthen (fail_when (acc_status a = Pending) AccErrBusy) (\<lambda>_.
     store_QueueAction (acc_id a) enabled (newActionJob a u
       (if enabled then KindAccountEnable else KindAccountDisable) jid now) now s))"

definition accounts_Delete ::
  "ident \<Rightarrow> ident \<Rightarrow> bool \<Rightarrow> ident \<Rightarrow> msec \<Rightarrow> db \<Rightarrow> err + ((account \<times> job) \<times> db)" where
  "accounts_Delete i u admin jid now s =
     andthen (accounts_Account i u admin s) (\<lambda>a.
     andthen (fail_when (acc_status a = Pending) AccErrBusy) (\<lambda>_.
     andthen (fail_when (store_ResourceCount (acc_id a) s \<noteq> 0) AccErrNotEmpty) (\<lambda>_.
     store_QueueAction (acc_id a) False (newActionJob a u KindAccountDelete jid now) now s)))"

definition accounts_AssignPackage ::
  "ident \<Rightarrow> ident \<Rightarrow> ident \<Rightarrow> bool \<Rightarrow> msec \<Rightarrow> db \<Rightarrow> err + (overview \<times> db)" where
  "accounts_AssignPackage i package u admin now s =
     andthen (accounts_Account i u admin s) (\<lambda>_.
     andthen (packages_Assign i package now s) (\<lambda>s'.
     andthen (store_AccountOverview i s') (\<lambda>v. Inr (v, s'))))"

section \<open>Job handlers\<close>

text \<open>The agent's account operations: endpoint, account identifier, system user.\<close>

type_synonym account_call = "string \<Rightarrow> ident \<Rightarrow> string \<Rightarrow> err option"

record account_agent =
  agt_EnsureAccount :: account_call
  agt_DisableAccount :: account_call
  agt_EnableAccount :: account_call
  agt_DeleteAccount :: account_call

definition accounts_Provision :: "account_agent \<Rightarrow> msec \<Rightarrow> job \<Rightarrow> db \<Rightarrow> err option \<times> db" where
  "accounts_Provision ag now j s =
     (case payload_string ''accountId'' (job_payload j) of
        None \<Rightarrow> (Some (Plain ''decode account job payload''), s)
      | Some i \<Rightarrow>
          if i = [] then (Some (Plain ''decode account job payload''), s)
          else (case store_Account i s of
            Inl e \<Rightarrow> (Some (Wrapped ''get account'' e), s)
          | Inr a \<Rightarrow>
              (case store_Node (acc_node a) s of
                Inl e \<Rightarrow> (Some (Wrapped ''get account node'' e), s)
              | Inr n \<Rightarrow>
                  let s1 = store_UpdateStatus (acc_id a) Pending now s in
                  (case agt_EnsureAccount ag (nod_endpoint n) (acc_id a) (acc_system_user a) of
                    Some e \<Rightarrow> (Some (Wrapped ''ensure account'' e), store_UpdateStatus (acc_id a) Errored now s1)
                  | None \<Rightarrow> (None, store_UpdateStatus (acc_id a) Active now s1)))))"

definition account_operation :: "account_agent \<Rightarrow> job_kind \<Rightarrow> (account_call \<times> status) option" where
  "account_operation ag k =
     (case k of
        KindAccountDisable \<Rightarrow> Some (agt_DisableAccount ag, Disabled)
      | KindAccountEnable \<Rightarrow> Some (agt_EnableAccount ag, Active)
      | KindAccountDelete \<Rightarrow> Some (agt_DeleteAccount ag, Disabled)
      | _ \<Rightarrow> None)"

definition accounts_ProvisionAction :: "account_agent \<Rightarrow> msec \<Rightarrow> job \<Rightarrow> db \<Rightarrow> err option \<times> db" where
  "accounts_ProvisionAction ag now j s =
     (case payload_string ''accountId'' (job_payload j) of
        None \<Rightarrow> (Some (Plain ''decode account action payload''), s)
      | Some i \<Rightarrow>
          if i = [] then (Some (Plain ''decode account action payload''), s)
          else (case store_Account i s of
            Inl e \<Rightarrow> (Some (Wrapped ''get account'' e), s)
          | Inr a \<Rightarrow>
              (case store_Node (acc_node a) s of
                Inl e \<Rightarrow> (Some (Wrapped ''get account node'' e), s)
              | Inr n \<Rightarrow>
                  (case account_operation ag (job_kind_of j) of
                    None \<Rightarrow> (Some (Plain ''unsupported account action''), s)
                  | Some (operation, st) \<Rightarrow>
                      (case operation (nod_endpoint n) (acc_id a) (acc_system_user a) of
                        Some e \<Rightarrow> (Some (Wrapped ''account action'' e),
                          store_UpdateStatus (acc_id a) Errored now s)
                      | None \<Rightarrow>
                          if job_kind_of j = KindAccountDelete
                          then (case store_DeleteAccount (acc_id a) s of
                              Inl e \<Rightarrow> (Some e, s)
                            | Inr s' \<Rightarrow> (None, s'))
                          else (None, store_UpdateStatus (acc_id a) st now s))))))"

section \<open>Contracts\<close>

lemma new_job_max [simp]: "job_max (new_job i n u k p m now) = m"
  by (simp add: new_job_def)

lemma new_job_sel [simp]:
  "job_id (new_job i n u k p m now) = i" "job_kind_of (new_job i n u k p m now) = k"
  "job_payload (new_job i n u k p m now) = p"
  by (simp_all add: new_job_def)

lemma new_job_row_sel [simp]:
  "job_kind_of (new_job_row j) = job_kind_of j" "job_payload (new_job_row j) = job_payload j"
  by (simp_all add: new_job_row_def)

lemma insert_account_jobs: "insert_account a s = Inr s' \<Longrightarrow> jobs s' = jobs s"
  by (auto simp: insert_account_def)

lemma insert_member_jobs: "insert_member m s = Inr s' \<Longrightarrow> jobs s' = jobs s"
  by (auto simp: insert_member_def)

lemma AssignPackage_jobs: "store_AssignPackage a p now s = Inr s' \<Longrightarrow> jobs s' = jobs s"
  by (auto simp: store_AssignPackage_def split: if_splits)

lemma CreateProvision_queues:
  assumes "store_CreateProvision a ow p j s = Inr ((v, j'), s')" "1 \<le> job_max j"
  shows "queues_one s j' s'"
  using assms
  by (auto simp: store_CreateProvision_def intro!: CreateJob_queues
      dest!: insert_account_jobs insert_member_jobs AssignPackage_jobs)

lemma QueueAction_queues:
  assumes "store_QueueAction i en j now s = Inr ((v, j'), s')" "1 \<le> job_max j"
  shows "queues_one s j' s'"
  using assms by (auto simp: store_QueueAction_def intro: CreateJob_queues)

interpretation account_create: queued_operation
  "\<lambda>(name, node, package, owner, i, jid, now). accounts_Create name node package owner i jid now"
  by unfold_locales (auto simp: accounts_Create_def dest!: CreateProvision_queues)

interpretation account_set: queued_operation
  "\<lambda>(i, u, admin, enabled, jid, now). accounts_Set i u admin enabled jid now"
  by unfold_locales (auto simp: accounts_Set_def newActionJob_def dest!: QueueAction_queues)

interpretation account_delete: queued_operation
  "\<lambda>(i, u, admin, jid, now). accounts_Delete i u admin jid now"
  by unfold_locales (auto simp: accounts_Delete_def newActionJob_def dest!: QueueAction_queues)

text \<open>
  A resource of an account: reading it through the service first finds the row and then asks
  \<open>accounts_Account\<close> for its owner, so a user without membership never gets it.
\<close>

lemma accounts_Account_Inr:
  "accounts_Account a u admin s = Inr r \<longleftrightarrow>
    find_by acc_id a (accounts s) = Some r \<and> (admin \<or> store_AccountMember a u s)"
  by (auto simp: accounts_Account_def store_Account_def split: if_splits)

locale owned_resource =
  fixes get :: "ident \<Rightarrow> ident \<Rightarrow> bool \<Rightarrow> db \<Rightarrow> err + 'r"
    and rows :: "db \<Rightarrow> 'r list" and key :: "'r \<Rightarrow> ident" and owner :: "'r \<Rightarrow> ident"
  assumes found: "get i u admin s = Inr r \<Longrightarrow> r \<in> set (rows s) \<and> key r = i"
    and allowed: "get i u admin s = Inr r \<Longrightarrow> \<exists>a. accounts_Account (owner r) u admin s = Inr a"
begin

lemma member_only:
  "get i u False s = Inr r \<Longrightarrow> \<exists>m \<in> set (members s). mem_account m = owner r \<and> mem_user m = u"
  using allowed by (fastforce simp: accounts_Account_Inr store_AccountMember_def list_ex_iff)

lemma no_stranger:
  assumes "\<not> store_AccountMember a u s" "\<forall>r \<in> set (rows s). key r = i \<longrightarrow> owner r = a"
  shows "\<exists>e. get i u False s = Inl e"
proof (cases "get i u False s")
  case (Inr r)
  then show ?thesis
    using assms found [OF Inr] allowed [OF Inr] by (auto simp: accounts_Account_Inr)
qed auto

end

section \<open>Referential integrity\<close>

text \<open>Every foreign key of the schema; the empty string is \<open>NULL\<close> where the column allows it.\<close>

definition refs :: "('a \<Rightarrow> ident) \<Rightarrow> 'a list \<Rightarrow> ('b \<Rightarrow> ident) \<Rightarrow> 'b list \<Rightarrow> bool" where
  "refs f xs g ys \<longleftrightarrow> (\<forall>x \<in> set xs. f x \<in> g ` set ys)"

definition null_refs :: "('a \<Rightarrow> ident) \<Rightarrow> 'a list \<Rightarrow> ('b \<Rightarrow> ident) \<Rightarrow> 'b list \<Rightarrow> bool" where
  "null_refs f xs g ys \<longleftrightarrow> (\<forall>x \<in> set xs. f x = [] \<or> f x \<in> g ` set ys)"

definition account_keys :: "db \<Rightarrow> bool" where
  "account_keys s \<longleftrightarrow>
     refs mem_account (members s) acc_id (accounts s) \<and>
     refs apk_account (account_packages s) acc_id (accounts s) \<and>
     refs web_account (websites s) acc_id (accounts s) \<and>
     refs dba_account (databases s) acc_id (accounts s) \<and>
     refs dbu_account (database_users s) acc_id (accounts s) \<and>
     refs tsk_account (tasks s) acc_id (accounts s) \<and>
     refs pln_account (backup_plans s) acc_id (accounts s) \<and>
     refs run_account (backup_runs s) acc_id (accounts s) \<and>
     refs art_account (artifacts s) acc_id (accounts s) \<and>
     refs dzn_account (dns_zones s) acc_id (accounts s) \<and>
     refs ftp_account_id (ftp_accounts s) acc_id (accounts s)"

definition resource_keys :: "db \<Rightarrow> bool" where
  "resource_keys s \<longleftrightarrow>
     refs dom_website (domains s) web_id (websites s) \<and>
     null_refs crt_website (certificates s) web_id (websites s) \<and>
     refs fst (certificate_names s) crt_id (certificates s) \<and>
     refs gra_database (grants s) dba_id (databases s) \<and>
     refs gra_user (grants s) dbu_id (database_users s) \<and>
     null_refs run_plan (backup_runs s) pln_id (backup_plans s) \<and>
     refs art_run (artifacts s) run_id (backup_runs s)"

lemma refs_filter_both:
  assumes "refs f xs g ys" "\<And>x y. x \<in> set xs \<Longrightarrow> P x \<Longrightarrow> y \<in> set ys \<Longrightarrow> g y = f x \<Longrightarrow> Q y"
  shows "refs f (filter P xs) g (filter Q ys)"
  using assms by (fastforce simp: refs_def)

lemma null_refs_filter_both:
  assumes "null_refs f xs g ys"
    "\<And>x y. x \<in> set xs \<Longrightarrow> P x \<Longrightarrow> y \<in> set ys \<Longrightarrow> g y = f x \<Longrightarrow> Q y"
  shows "null_refs f (filter P xs) g (filter Q ys)"
  using assms by (fastforce simp: null_refs_def)

lemma refs_delete_owner:
  "refs f xs acc_id (accounts s) \<Longrightarrow> refs f (delete_by f i xs) acc_id (delete_by acc_id i (accounts s))"
  by (auto simp: refs_def delete_by_def image_iff)

lemma refs_delete_other:
  "refs f xs acc_id (accounts s) \<Longrightarrow> i \<notin> f ` set xs \<Longrightarrow> refs f xs acc_id (delete_by acc_id i (accounts s))"
  by (auto simp: refs_def delete_by_def image_iff) metis

lemma refs_subset: "refs f xs g ys \<Longrightarrow> f ` set xs' \<subseteq> f ` set xs \<Longrightarrow> refs f xs' g ys"
  by (force simp: refs_def)

lemma detach_plans_sel [simp]:
  "run_account (detach_plans P r) = run_account r" "run_id (detach_plans P r) = run_id r"
  "run_plan (detach_plans P r) = (if run_plan r \<in> P then [] else run_plan r)"
  by (simp_all add: detach_plans_def)

lemma cascade_account_keys:
  assumes "account_keys s" "i \<notin> dzn_account ` set (dns_zones s)"
    "i \<notin> ftp_account_id ` set (ftp_accounts s)"
  shows "account_keys (cascade_account i s)"
proof -
  have runs: "refs run_account (map (detach_plans P) (delete_by run_account i (backup_runs s)))
      acc_id (delete_by acc_id i (accounts s))" for P
    using refs_delete_owner [of run_account "backup_runs s" s i] assms(1)
    by (auto simp: refs_def account_keys_def)
  have arts: "refs art_account (filter (\<lambda>a. art_account a \<noteq> i \<and> art_run a \<notin> R) (artifacts s))
      acc_id (delete_by acc_id i (accounts s))" for R
    using refs_delete_owner [of art_account "artifacts s" s i] assms(1)
    by (auto simp: account_keys_def delete_by_def intro: refs_subset)
  show ?thesis
    using assms runs arts unfolding account_keys_def cascade_account_def Let_def
    by (simp add: refs_delete_owner refs_delete_other)
qed

lemma cascade_resource_keys:
  assumes "resource_keys s"
  shows "resource_keys (cascade_account i s)"
proof -
  note k = assms [unfolded resource_keys_def]
  let ?W = "web_id ` {w \<in> set (websites s). web_account w = i}"
  let ?P = "pln_id ` {p \<in> set (backup_plans s). pln_account p = i}"
  let ?R = "run_id ` {r \<in> set (backup_runs s). run_account r = i}"
  have "refs dom_website (filter (\<lambda>d. dom_website d \<notin> ?W) (domains s)) web_id
      (filter (\<lambda>w. web_account w \<noteq> i) (websites s))"
    using k by (intro refs_filter_both) (simp, metis (mono_tags, lifting) image_eqI mem_Collect_eq)
  moreover have "null_refs crt_website (filter (\<lambda>c. crt_website c \<notin> ?W) (certificates s)) web_id
      (filter (\<lambda>w. web_account w \<noteq> i) (websites s))"
    using k by (intro null_refs_filter_both) (simp, metis (mono_tags, lifting) image_eqI mem_Collect_eq)
  moreover have "refs fst (filter (\<lambda>n. fst n \<notin> crt_id ` {c \<in> set (certificates s). crt_website c \<in> ?W})
      (certificate_names s)) crt_id (filter (\<lambda>c. crt_website c \<notin> ?W) (certificates s))"
    using k by (intro refs_filter_both) (simp, metis (mono_tags, lifting) image_eqI mem_Collect_eq)
  moreover have "refs gra_database (filter (\<lambda>g. gra_database g \<notin> dba_id ` {d \<in> set (databases s). dba_account d = i} \<and>
      gra_user g \<notin> U) (grants s)) dba_id (filter (\<lambda>d. dba_account d \<noteq> i) (databases s))" for U
    using k by (intro refs_filter_both) (simp, metis (mono_tags, lifting) image_eqI mem_Collect_eq)
  moreover have "refs gra_user (filter (\<lambda>g. gra_database g \<notin> D \<and>
      gra_user g \<notin> dbu_id ` {u \<in> set (database_users s). dbu_account u = i}) (grants s)) dbu_id
      (filter (\<lambda>u. dbu_account u \<noteq> i) (database_users s))" for D
    using k by (intro refs_filter_both) (simp, metis (mono_tags, lifting) image_eqI mem_Collect_eq)
  moreover have "null_refs run_plan (map (detach_plans ?P) (filter (\<lambda>r. run_account r \<noteq> i) (backup_runs s)))
      pln_id (filter (\<lambda>p. pln_account p \<noteq> i) (backup_plans s))"
    using k by (fastforce simp: null_refs_def)
  moreover have "refs art_run (filter (\<lambda>a. art_account a \<noteq> i \<and> art_run a \<notin> ?R) (artifacts s)) run_id
      (map (detach_plans Q) (filter (\<lambda>r. run_account r \<noteq> i) (backup_runs s)))" for Q
    using k by (fastforce simp: refs_def image_iff)
  ultimately show ?thesis
    unfolding resource_keys_def cascade_account_def Let_def delete_by_def
    by simp
qed

section \<open>Properties\<close>

lemma find_update_status:
  "find_by acc_id i (accounts s) = Some a \<Longrightarrow>
    find_by acc_id i (accounts (store_UpdateStatus i st now s)) = Some (a\<lparr>acc_status := st, acc_updated := now\<rparr>)"
  using account_table.find_after_update [of i "\<lambda>a. a\<lparr>acc_status := st, acc_updated := now\<rparr>" i s]
  by (simp add: store_UpdateStatus_def)

lemma nodes_update_status [simp]: "nodes (store_UpdateStatus i st now s) = nodes s"
  by (simp add: store_UpdateStatus_def)

lemma find_queued_account:
  assumes "find_by acc_id i rs = Some a" "acc_status a \<noteq> Pending"
  shows "find_by acc_id i (map (\<lambda>r. if acc_id r = i \<and> acc_status r \<noteq> Pending
      then queue_account_row en now r else r) rs) = Some (queue_account_row en now a)"
    and "List.find (\<lambda>r. acc_id r = i \<and> acc_status r \<noteq> Pending) rs = Some a"
  using assms by (induction rs) (auto simp: find_by_def queue_account_row_def split: if_splits)

lemma accounts_Set_Inr:
  assumes "accounts_Set i u admin en jid now s = Inr ((a, j), s')"
  obtains a0 where "find_by acc_id i (accounts s) = Some a0" "acc_status a0 \<noteq> Pending"
    "a = queue_account_row en now a0" "find_by acc_id i (accounts s') = Some a" "nodes s' = nodes s"
    "job_kind_of j = (if en then KindAccountEnable else KindAccountDisable)"
    "job_payload j = account_payload i" "queues_one s j s'"
proof -
  from assms obtain a0 where a0: "accounts_Account i u admin s = Inr a0" "acc_status a0 \<noteq> Pending"
    "store_QueueAction (acc_id a0) en (newActionJob a0 u
       (if en then KindAccountEnable else KindAccountDisable) jid now) now s = Inr ((a, j), s')"
    by (auto simp: accounts_Set_def)
  have i: "find_by acc_id i (accounts s) = Some a0" "acc_id a0 = i"
    using a0(1) account_table.find_mem by (auto simp: accounts_Account_Inr)
  show ?thesis
    using a0 i find_queued_account(1) [OF i(1) a0(2), of en now] find_queued_account(2) [OF i(1) a0(2)]
      account_set.enqueues [of "(i, u, admin, en, jid, now)" s a j s'] assms
    by (intro that [of a0])
      (auto simp: store_QueueAction_def newActionJob_def dest!: CreateJob_eq)
qed

text \<open>C28: enabling or disabling an account converges: the request records the wish and queues one
  job; when the worker runs that job and the agent carries it out, the account is active
  exactly when it was asked to be enabled, and when the agent refuses, the account is in error
  and the wish is still recorded.\<close>

theorem account_action_converges:
  assumes "accounts_Set i u admin en jid now s = Inr ((a, j), s')"
    and "i \<noteq> []" "find_by nod_id (acc_node a) (nodes s) = Some n"
    and "reply = (if en then agt_EnableAccount ag else agt_DisableAccount ag)
      (nod_endpoint n) i (acc_system_user a)"
  shows "jobs s' = jobs s @ [j] \<and> runnable j \<and>
    (\<exists>r. find_by acc_id i (accounts (snd (accounts_ProvisionAction ag later j s'))) = Some r \<and>
      acc_enabled r = en \<and>
      acc_status r = (if reply \<noteq> None then Errored else if en then Active else Disabled)) \<and>
    (fst (accounts_ProvisionAction ag later j s') = None \<longleftrightarrow> reply = None)"
proof -
  from assms(1) obtain a0 where a0: "a = queue_account_row en now a0"
    "find_by acc_id i (accounts s') = Some a" "nodes s' = nodes s"
    "job_kind_of j = (if en then KindAccountEnable else KindAccountDisable)"
    "job_payload j = account_payload i"
    by (rule accounts_Set_Inr)
  have "acc_id a = i"
    using a0(2) account_table.find_mem by blast
  moreover have "jobs s' = jobs s @ [j] \<and> runnable j"
    using account_set.returned_job [of "(i, u, admin, en, jid, now)" s a j s'] assms(1) by simp
  ultimately show ?thesis
    using assms(2-) a0 find_update_status [OF a0(2)]
    by (auto simp: accounts_ProvisionAction_def account_payload_def store_Account_def store_Node_def
        account_operation_def queue_account_row_def split: option.split)
qed

definition sample_node :: node where
  "sample_node = \<lparr>nod_id = ''n1'', nod_name = ''local'', nod_kind = ''local'', nod_endpoint = ''/run/agent.sock'',
     nod_status = Online, nod_last_seen = None, nod_capabilities = None, nod_capabilities_at = None,
     nod_created = 0, nod_updated = 0\<rparr>"

definition sample_account :: account where
  "sample_account = \<lparr>acc_id = ''a1'', acc_node = ''n1'', acc_name = ''Shop'', acc_system_user = ''wcp_0123456789ab'',
     acc_status = Active, acc_enabled = True, acc_created = 0, acc_updated = 0\<rparr>"

definition sample_hosting :: db where
  "sample_hosting = empty_db\<lparr>nodes := [sample_node], accounts := [sample_account],
     account_packages := [\<lparr>apk_account = ''a1'', apk_package = default_package_id, apk_created = 0, apk_updated = 0\<rparr>]\<rparr>"

definition idle_agent :: account_agent where
  "idle_agent = \<lparr>agt_EnsureAccount = (\<lambda>_ _ _. None), agt_DisableAccount = (\<lambda>_ _ _. None),
     agt_EnableAccount = (\<lambda>_ _ _. None), agt_DeleteAccount = (\<lambda>_ _ _. None)\<rparr>"

lemma sample_disable:
  "accounts_Set ''a1'' [] True False ''j1'' 5 sample_hosting =
    Inr ((sample_account\<lparr>acc_enabled := False, acc_status := Pending, acc_updated := 5\<rparr>,
      new_job ''j1'' ''n1'' [] KindAccountDisable (account_payload ''a1'') 2 5),
      sample_hosting\<lparr>accounts := [sample_account\<lparr>acc_enabled := False, acc_status := Pending, acc_updated := 5\<rparr>],
        jobs := [new_job ''j1'' ''n1'' [] KindAccountDisable (account_payload ''a1'') 2 5]\<rparr>)"
  by (simp add: accounts_Set_def accounts_Account_def store_Account_def find_by_def store_QueueAction_def
      newActionJob_def store_CreateJob_def exists_by_def new_job_row_def new_job_def queue_account_row_def
      sample_hosting_def sample_account_def sample_node_def empty_db_def)

theorem account_action_converges_witness:
  "\<exists>r. find_by acc_id ''a1'' (accounts (snd (accounts_ProvisionAction idle_agent 9
      (new_job ''j1'' ''n1'' [] KindAccountDisable (account_payload ''a1'') 2 5)
      (sample_hosting\<lparr>accounts := [sample_account\<lparr>acc_enabled := False, acc_status := Pending, acc_updated := 5\<rparr>],
        jobs := [new_job ''j1'' ''n1'' [] KindAccountDisable (account_payload ''a1'') 2 5]\<rparr>)))) = Some r \<and>
    \<not> acc_enabled r \<and> acc_status r = Disabled"
  using account_action_converges [OF sample_disable, of sample_node None idle_agent 9]
  by (auto simp: sample_hosting_def sample_node_def sample_account_def find_by_def idle_agent_def)

text \<open>deleting the row of an account leaves no dangling reference: every foreign key of the
  schema that held before holds after the cascade, and the account is gone.  While a DNS zone
  or an FTP account still belongs to it, the deletion is refused.\<close>

theorem delete_account_keeps_integrity:
  assumes "account_keys s" "resource_keys s" "i \<in> acc_id ` set (accounts s)"
  shows "(case store_DeleteAccount i s of
      Inr s' \<Rightarrow> account_keys s' \<and> resource_keys s' \<and> acc_id ` set (accounts s') = acc_id ` set (accounts s) - {i}
    | Inl e \<Rightarrow> e = ForeignKeyViolation \<and>
        (i \<in> dzn_account ` set (dns_zones s) \<or> i \<in> ftp_account_id ` set (ftp_accounts s)))"
proof -
  have "accounts (cascade_account i s) = delete_by acc_id i (accounts s)"
    by (simp add: cascade_account_def Let_def)
  then show ?thesis
    using assms cascade_account_keys [of s i] cascade_resource_keys [of s i]
    by (simp add: store_DeleteAccount_def exists_by_iff delete_by_keys)
qed

theorem delete_account_keeps_integrity_witness:
  "case store_DeleteAccount ''a1'' sample_hosting of
     Inr s' \<Rightarrow> account_keys s' \<and> resource_keys s' \<and>
       acc_id ` set (accounts s') = acc_id ` set (accounts sample_hosting) - {''a1''}
   | Inl e \<Rightarrow> e = ForeignKeyViolation \<and> (''a1'' \<in> dzn_account ` set (dns_zones sample_hosting) \<or>
       ''a1'' \<in> ftp_account_id ` set (ftp_accounts sample_hosting))"
  by (rule delete_account_keeps_integrity)
    (simp_all add: account_keys_def resource_keys_def refs_def null_refs_def sample_hosting_def
      sample_account_def empty_db_def)

end
