(* ===== verification/Websites.thy ===== *)
theory Websites
  imports Accounts
begin

text \<open>
  Websites and their host names: \<open>internal/websites/service.go\<close> and
  \<open>store/sqlite/websites.go\<close>.  A website has one primary domain and aliases; a domain being
  renamed keeps its previous host name reserved until the job ends.  Host names compare with
  \<open>COLLATE NOCASE\<close>.  The agent is a parameter: each call returns an error or nothing.
  \<open>filepath.Join\<close> is written out for the clean path elements the service passes.
\<close>

interpretation website_table: table websites "\<lambda>rs s. s\<lparr>websites := rs\<rparr>" web_id
  by unfold_locales auto

interpretation domain_table: table domains "\<lambda>rs s. s\<lparr>domains := rs\<rparr>" dom_id
  by unfold_locales auto

section \<open>Store operations\<close>

text \<open>\<open>ensureHostnameAvailable\<close>: neither a host name nor the previous one of a pending rename.\<close>

definition hostname_exists :: "string \<Rightarrow> db \<Rightarrow> bool" where
  "hostname_exists h s \<longleftrightarrow>
     list_ex (\<lambda>d. nocase (dom_hostname d) = nocase h \<or>
       dom_previous d \<noteq> [] \<and> nocase (dom_previous d) = nocase h) (domains s)"

definition ensureHostnameAvailable :: "string \<Rightarrow> db \<Rightarrow> err + unit" where
  "ensureHostnameAvailable h s = fail_when (hostname_exists h s) ErrHostnameExists"

definition insert_website :: "website \<Rightarrow> db \<Rightarrow> err + (website \<times> db)" where
  "insert_website w s =
     (let row = w\<lparr>web_status := Pending, web_enabled := True\<rparr> in
      if web_kind w \<noteq> ''php'' \<or> web_web_driver w \<noteq> ''nginx'' \<or> web_runtime_driver w \<noteq> ''phpfpm'' \<or>
        web_runtime_version w \<noteq> ''8.3'' then Inl CheckViolation
      else if exists_by web_id (web_id w) (websites s) then Inl UniqueViolation
      else if \<not> exists_by acc_id (web_account w) (accounts s) \<or> \<not> exists_by nod_id (web_node w) (nodes s)
      then Inl ForeignKeyViolation
      else Inr (row, s\<lparr>websites := websites s @ [row]\<rparr>))"

text \<open>Unique: the identifier, the host name, and the primary domain of a website.\<close>

definition insert_domain :: "domain \<Rightarrow> db \<Rightarrow> err + (domain \<times> db)" where
  "insert_domain d s =
     (let row = d\<lparr>dom_status := Pending, dom_enabled := True, dom_previous := []\<rparr> in
      if dom_kind d \<noteq> Primary \<and> dom_kind d \<noteq> Alias then Inl CheckViolation
      else if exists_by dom_id (dom_id d) (domains s) \<or>
        exists_by (nocase \<circ> dom_hostname) (nocase (dom_hostname d)) (domains s) \<or>
        (dom_kind d = Primary \<and> list_ex (\<lambda>r. dom_website r = dom_website d \<and> dom_kind r = Primary) (domains s))
      then Inl UniqueViolation
      else if \<not> exists_by web_id (dom_website d) (websites s) then Inl ForeignKeyViolation
      else Inr (row, s\<lparr>domains := domains s @ [row]\<rparr>))"

definition store_CreateWebsiteProvision ::
  "website \<Rightarrow> domain \<Rightarrow> job \<Rightarrow> db \<Rightarrow> err + (((website \<times> domain) \<times> job) \<times> db)" where
  "store_CreateWebsiteProvision w d j s =
     andthen (requireCapacity Websites (web_account w) s) (\<lambda>_.
     andthen (requireCapacity Domains (web_account w) s) (\<lambda>_.
     andthen (ensureHostnameAvailable (dom_hostname d) s) (\<lambda>_.
     andthen (map_err (Wrapped ''insert website'') (insert_website w s)) (\<lambda>(w', s1).
     andthen (map_err (Wrapped ''insert primary domain'') (insert_domain d s1)) (\<lambda>(d', s2).
     andthen (createJob j s2) (\<lambda>(j', s3).
     Inr (((w', d'), j'), s3)))))))"

definition store_Website :: "ident \<Rightarrow> db \<Rightarrow> err + website" where
  "store_Website i s = some_or ErrNoRows (find_by web_id i (websites s))"

definition store_CreateWebsiteDomainProvision ::
  "domain \<Rightarrow> job \<Rightarrow> db \<Rightarrow> err + ((domain \<times> job) \<times> db)" where
  "store_CreateWebsiteDomainProvision d j s =
     andthen (store_Website (dom_website d) s) (\<lambda>w.
     andthen (requireCapacity Aliases (web_account w) s) (\<lambda>_.
     andthen (ensureHostnameAvailable (dom_hostname d) s) (\<lambda>_.
     andthen (map_err (Wrapped ''insert website domain'') (insert_domain d s)) (\<lambda>(d', s1).
     andthen (createJob j s1) (\<lambda>(j', s2).
     Inr ((d', j'), s2))))))"

definition visible_account :: "ident \<Rightarrow> bool \<Rightarrow> db \<Rightarrow> ident \<Rightarrow> bool" where
  "visible_account u admin s a \<longleftrightarrow> admin \<or> store_AccountMember a u s"

definition store_Websites :: "ident \<Rightarrow> bool \<Rightarrow> db \<Rightarrow> website list" where
  "store_Websites u admin s =
     order_asc web_created (filter (\<lambda>w. visible_account u admin s (web_account w)) (websites s))"

definition store_WebsitePage :: "ident \<Rightarrow> bool \<Rightarrow> query \<Rightarrow> db \<Rightarrow> website result" where
  "store_WebsitePage u admin q s = store_page (store_Websites u admin s) q"

definition store_WebsiteDomain :: "ident \<Rightarrow> db \<Rightarrow> err + domain" where
  "store_WebsiteDomain i s = some_or ErrNoRows (find_by dom_id i (domains s))"

definition store_PrimaryDomain :: "ident \<Rightarrow> db \<Rightarrow> err + domain" where
  "store_PrimaryDomain w s =
     some_or ErrNoRows (List.find (\<lambda>d. dom_website d = w \<and> dom_kind d = Primary) (domains s))"

text \<open>\<open>ORDER BY kind DESC, hostname ASC\<close>: the primary domain first.\<close>

definition order_domains :: "domain list \<Rightarrow> domain list" where
  "order_domains ds =
     order_asc (\<lambda>d. if dom_kind d = Primary then 0 else (1 :: int)) (order_asc (nocase \<circ> dom_hostname) ds)"

definition store_WebsiteDomains :: "ident \<Rightarrow> db \<Rightarrow> domain list" where
  "store_WebsiteDomains w s = order_domains (filter (\<lambda>d. dom_website d = w) (domains s))"

definition store_EnabledWebsiteDomains :: "ident \<Rightarrow> db \<Rightarrow> domain list" where
  "store_EnabledWebsiteDomains w s =
     order_domains (filter (\<lambda>d. dom_website d = w \<and> dom_enabled d) (domains s))"

definition store_WebsiteDomainPage ::
  "ident \<Rightarrow> bool \<Rightarrow> domain_kind \<Rightarrow> query \<Rightarrow> db \<Rightarrow> domain result" where
  "store_WebsiteDomainPage u admin k q s =
     store_page (order_asc dom_created (filter (\<lambda>d. dom_kind d = k \<and>
       list_ex (\<lambda>w. web_id w = dom_website d \<and> visible_account u admin s (web_account w)) (websites s))
       (domains s))) q"

definition queue_website_row :: "bool \<Rightarrow> msec \<Rightarrow> website \<Rightarrow> website" where
  "queue_website_row en now w = w\<lparr>web_enabled := en, web_status := Pending, web_updated := now\<rparr>"

definition store_QueueWebsiteAction ::
  "ident \<Rightarrow> bool \<Rightarrow> job \<Rightarrow> msec \<Rightarrow> db \<Rightarrow> err + ((website \<times> job) \<times> db)" where
  "store_QueueWebsiteAction i en j now s =
     andthen (some_or ErrWebsiteBusy (List.find (\<lambda>w. web_id w = i \<and> web_status w \<noteq> Pending) (websites s))) (\<lambda>w.
     andthen (createJob j
       (s\<lparr>websites := map (\<lambda>r. if web_id r = i \<and> web_status r \<noteq> Pending
          then queue_website_row en now r else r) (websites s)\<rparr>)) (\<lambda>(j', s').
     Inr ((queue_website_row en now w, j'), s')))"

definition queue_domain_row :: "bool \<Rightarrow> msec \<Rightarrow> domain \<Rightarrow> domain" where
  "queue_domain_row en now d = d\<lparr>dom_enabled := en, dom_status := Pending, dom_updated := now\<rparr>"

definition store_QueueWebsiteDomainAction ::
  "ident \<Rightarrow> bool \<Rightarrow> job \<Rightarrow> msec \<Rightarrow> db \<Rightarrow> err + ((domain \<times> job) \<times> db)" where
  "store_QueueWebsiteDomainAction i en j now s =
     (let sel = (\<lambda>d. dom_id d = i \<and> dom_kind d = Alias \<and> dom_status d \<noteq> Pending) in
      andthen (some_or ErrWebsiteDomainBusy (List.find sel (domains s))) (\<lambda>d.
      andthen (createJob j
        (s\<lparr>domains := map (\<lambda>r. if sel r then queue_domain_row en now r else r) (domains s)\<rparr>)) (\<lambda>(j', s').
      Inr ((queue_domain_row en now d, j'), s'))))"

definition rename_row :: "string \<Rightarrow> msec \<Rightarrow> domain \<Rightarrow> domain" where
  "rename_row h now d = d\<lparr>dom_previous := dom_hostname d, dom_hostname := h, dom_status := Pending,
     dom_updated := now\<rparr>"

definition store_QueueWebsiteDomainRename ::
  "ident \<Rightarrow> string \<Rightarrow> job \<Rightarrow> msec \<Rightarrow> db \<Rightarrow> err + ((domain \<times> job) \<times> db)" where
  "store_QueueWebsiteDomainRename i h j now s =
     (let sel = (\<lambda>d. dom_id d = i \<and> dom_status d \<noteq> Pending) in
      andthen (ensureHostnameAvailable h s) (\<lambda>_.
      andthen (some_or ErrWebsiteDomainBusy (List.find sel (domains s))) (\<lambda>d.
      andthen (createJob j
        (s\<lparr>domains := map (\<lambda>r. if sel r then rename_row h now r else r) (domains s)\<rparr>)) (\<lambda>(j', s').
      Inr ((rename_row h now d, j'), s')))))"

definition store_UpdateWebsiteStatus :: "ident \<Rightarrow> status \<Rightarrow> msec \<Rightarrow> db \<Rightarrow> db" where
  "store_UpdateWebsiteStatus i st now s =
     s\<lparr>websites := update_by web_id i (\<lambda>w. w\<lparr>web_status := st, web_updated := now\<rparr>) (websites s)\<rparr>"

definition store_UpdateWebsiteDomainStatus :: "ident \<Rightarrow> status \<Rightarrow> msec \<Rightarrow> db \<Rightarrow> db" where
  "store_UpdateWebsiteDomainStatus i st now s =
     s\<lparr>domains := update_by dom_id i (\<lambda>d. d\<lparr>dom_status := st, dom_updated := now\<rparr>) (domains s)\<rparr>"

definition complete_rename_row :: "msec \<Rightarrow> domain \<Rightarrow> domain" where
  "complete_rename_row now d = d\<lparr>dom_previous := [],
     dom_status := (if dom_enabled d then Active else Disabled), dom_updated := now\<rparr>"

definition store_CompleteWebsiteDomainRename :: "ident \<Rightarrow> msec \<Rightarrow> db \<Rightarrow> db" where
  "store_CompleteWebsiteDomainRename i now s =
     s\<lparr>domains := update_by dom_id i (complete_rename_row now) (domains s)\<rparr>"

definition fail_rename_row :: "msec \<Rightarrow> domain \<Rightarrow> domain" where
  "fail_rename_row now d = d\<lparr>dom_hostname := (if dom_previous d = [] then dom_hostname d else dom_previous d),
     dom_previous := [], dom_status := Errored, dom_updated := now\<rparr>"

text \<open>Going back to the previous host name meets the unique index on host names.\<close>

definition store_FailWebsiteDomainRename :: "ident \<Rightarrow> msec \<Rightarrow> db \<Rightarrow> err + db" where
  "store_FailWebsiteDomainRename i now s =
     (let ds = update_by dom_id i (fail_rename_row now) (domains s) in
      if distinct (map (nocase \<circ> dom_hostname) ds) then Inr (s\<lparr>domains := ds\<rparr>)
      else Inl UniqueViolation)"

definition store_DeleteWebsite :: "ident \<Rightarrow> db \<Rightarrow> db" where
  "store_DeleteWebsite i s =
     (let crts = map crt_id (filter (\<lambda>c. crt_website c = i) (certificates s)) in
      if exists_by web_id i (websites s) then
        s\<lparr>websites := delete_by web_id i (websites s),
          domains := delete_by dom_website i (domains s),
          certificates := delete_by crt_website i (certificates s),
          certificate_names := filter (\<lambda>n. fst n \<notin> set crts) (certificate_names s)\<rparr>
      else s)"

definition store_DeleteWebsiteDomain :: "ident \<Rightarrow> db \<Rightarrow> db" where
  "store_DeleteWebsiteDomain i s =
     s\<lparr>domains := filter (\<lambda>d. \<not> (dom_id d = i \<and> dom_kind d = Alias)) (domains s)\<rparr>"

section \<open>Service\<close>

definition website_payload :: "ident \<Rightarrow> payload" where
  "website_payload i = [(''websiteId'', JStr i)]"

definition domain_payload :: "ident \<Rightarrow> payload" where
  "domain_payload i = [(''websiteDomainId'', JStr i)]"

definition rename_payload :: "ident \<Rightarrow> string \<Rightarrow> string \<Rightarrow> payload" where
  "rename_payload i prev h =
     [(''websiteDomainId'', JStr i), (''previousHostname'', JStr prev), (''hostname'', JStr h)]"

definition website_of :: "ident \<Rightarrow> ident \<Rightarrow> bool \<Rightarrow> db \<Rightarrow> err + website" where
  "website_of i u admin s =
     andthen (validate_ID ''websiteId'' i) (\<lambda>_.
     andthen (store_Website i s) (\<lambda>w.
     andthen (accounts_Account (web_account w) u admin s) (\<lambda>_.
     Inr w)))"

definition domain_of :: "ident \<Rightarrow> ident \<Rightarrow> bool \<Rightarrow> db \<Rightarrow> err + (website \<times> domain)" where
  "domain_of i u admin s =
     andthen (validate_ID ''websiteDomainId'' i) (\<lambda>_.
     andthen (store_WebsiteDomain i s) (\<lambda>d.
     andthen (website_of (dom_website d) u admin s) (\<lambda>w.
     Inr (w, d))))"

definition account_ready :: "account \<Rightarrow> bool" where
  "account_ready a \<longleftrightarrow> acc_status a = Active \<and> acc_enabled a"

definition document_root :: "string \<Rightarrow> ident \<Rightarrow> string" where
  "document_root su i = ''/home/'' @ su @ ''/web/'' @ i @ ''/public_html''"

definition websites_Create ::
  "ext \<Rightarrow> website \<Rightarrow> string \<Rightarrow> ident \<Rightarrow> bool \<Rightarrow> ident \<Rightarrow> ident \<Rightarrow> ident \<Rightarrow> msec \<Rightarrow> db \<Rightarrow>
    err + (((website \<times> domain) \<times> job) \<times> db)" where
  "websites_Create x v host u admin wid did jid now s =
     andthen (validate_ID ''accountId'' (web_account v)) (\<lambda>_.
     andthen (validate_ResourceName (web_name v)) (\<lambda>name.
     andthen (validate_Domain x host) (\<lambda>hostname.
     andthen (fail_when (web_kind v \<noteq> ''php'' \<or> web_web_driver v \<noteq> ''nginx'' \<or>
       web_runtime_driver v \<noteq> ''phpfpm'' \<or> web_runtime_version v \<noteq> ''8.3'')
       (ValidationErr ''driver'' ''The selected website stack is not supported'')) (\<lambda>_.
     andthen (accounts_Account (web_account v) u admin s) (\<lambda>a.
     andthen (fail_when (\<not> account_ready a) AccErrBusy) (\<lambda>_.
     map_err (Wrapped ''create website provision'') (store_CreateWebsiteProvision
       (v\<lparr>web_id := wid, web_account := acc_id a, web_node := acc_node a, web_name := name,
          web_document_root := document_root (acc_system_user a) wid, web_status := Pending,
          web_enabled := True, web_created := now, web_updated := now\<rparr>)
       \<lparr>dom_id = did, dom_website = wid, dom_hostname = hostname, dom_kind = Primary, dom_status = Pending,
        dom_enabled = True, dom_previous = [], dom_created = now, dom_updated = now\<rparr>
       (new_job jid (acc_node a) u KindWebsiteCreate (website_payload wid) 2 now) s)))))))"

definition websites_Websites :: "ident \<Rightarrow> bool \<Rightarrow> db \<Rightarrow> website list" where
  "websites_Websites u admin s = store_Websites u admin s"

definition websites_PrimaryDomain :: "ident \<Rightarrow> ident \<Rightarrow> bool \<Rightarrow> db \<Rightarrow> err + domain" where
  "websites_PrimaryDomain w u admin s =
     andthen (website_of w u admin s) (\<lambda>_. store_PrimaryDomain w s)"

definition websites_Domains :: "ident \<Rightarrow> ident \<Rightarrow> bool \<Rightarrow> db \<Rightarrow> err + domain list" where
  "websites_Domains w u admin s =
     andthen (website_of w u admin s) (\<lambda>_. Inr (store_WebsiteDomains w s))"

definition websites_DomainPage ::
  "ident \<Rightarrow> bool \<Rightarrow> domain_kind \<Rightarrow> query \<Rightarrow> db \<Rightarrow> err + domain result" where
  "websites_DomainPage u admin k q s =
     (if k \<noteq> Primary \<and> k \<noteq> Alias then Inl (ValidationErr ''kind'' ''Website domain kind is invalid'')
      else Inr (store_WebsiteDomainPage u admin k q s))"

definition websites_CreateDomain ::
  "ext \<Rightarrow> ident \<Rightarrow> string \<Rightarrow> ident \<Rightarrow> bool \<Rightarrow> ident \<Rightarrow> ident \<Rightarrow> msec \<Rightarrow> db \<Rightarrow> err + ((domain \<times> job) \<times> db)" where
  "websites_CreateDomain x wid host u admin did jid now s =
     andthen (website_of wid u admin s) (\<lambda>w.
     andthen (fail_when (web_status w \<noteq> Active \<or> \<not> web_enabled w) ErrWebsiteInactive) (\<lambda>_.
     andthen (fail_when (int MaxDomainAliases \<le> int (length (store_WebsiteDomains (web_id w) s)) - 1)
       (ValidationErr ''hostname'' ''This website has reached its alias limit'')) (\<lambda>_.
     andthen (validate_Domain x host) (\<lambda>hostname.
     store_CreateWebsiteDomainProvision
       \<lparr>dom_id = did, dom_website = web_id w, dom_hostname = hostname, dom_kind = Alias, dom_status = Pending,
        dom_enabled = True, dom_previous = [], dom_created = now, dom_updated = now\<rparr>
       (new_job jid (web_node w) u KindWebsiteDomainCreate (domain_payload did) 2 now) s))))"

definition websites_SetWebsite ::
  "ident \<Rightarrow> ident \<Rightarrow> bool \<Rightarrow> bool \<Rightarrow> ident \<Rightarrow> msec \<Rightarrow> db \<Rightarrow> err + ((website \<times> job) \<times> db)" where
  "websites_SetWebsite i u admin en jid now s =
     andthen (website_of i u admin s) (\<lambda>w.
     andthen (fail_when (web_status w = Pending) ErrWebsiteBusy) (\<lambda>_.
     store_QueueWebsiteAction (web_id w) en (new_job jid (web_node w) u
       (if en then KindWebsiteEnable else KindWebsiteDisable) (website_payload (web_id w)) 2 now) now s))"

definition websites_DeleteWebsite ::
  "ident \<Rightarrow> ident \<Rightarrow> bool \<Rightarrow> ident \<Rightarrow> msec \<Rightarrow> db \<Rightarrow> err + ((website \<times> job) \<times> db)" where
  "websites_DeleteWebsite i u admin jid now s =
     andthen (website_of i u admin s) (\<lambda>w.
     andthen (fail_when (web_status w = Pending) ErrWebsiteBusy) (\<lambda>_.
     store_QueueWebsiteAction (web_id w) False (new_job jid (web_node w) u KindWebsiteDelete
       (website_payload (web_id w)) 2 now) now s))"

definition websites_SetDomain ::
  "ident \<Rightarrow> ident \<Rightarrow> bool \<Rightarrow> bool \<Rightarrow> ident \<Rightarrow> msec \<Rightarrow> db \<Rightarrow> err + ((domain \<times> job) \<times> db)" where
  "websites_SetDomain i u admin en jid now s =
     andthen (domain_of i u admin s) (\<lambda>(w, d).
     andthen (fail_when (dom_kind d = Primary) ErrPrimaryRequired) (\<lambda>_.
     andthen (fail_when (web_status w \<noteq> Active \<or> dom_status d = Pending) ErrWebsiteDomainBusy) (\<lambda>_.
     store_QueueWebsiteDomainAction (dom_id d) en (new_job jid (web_node w) u
       (if en then KindWebsiteDomainEnable else KindWebsiteDomainDisable) (domain_payload (dom_id d)) 2 now)
       now s)))"

definition websites_DeleteDomain ::
  "ident \<Rightarrow> ident \<Rightarrow> bool \<Rightarrow> ident \<Rightarrow> msec \<Rightarrow> db \<Rightarrow> err + ((domain \<times> job) \<times> db)" where
  "websites_DeleteDomain i u admin jid now s =
     andthen (domain_of i u admin s) (\<lambda>(w, d).
     andthen (fail_when (dom_kind d = Primary) ErrPrimaryRequired) (\<lambda>_.
     andthen (fail_when (web_status w \<noteq> Active \<or> dom_status d = Pending) ErrWebsiteDomainBusy) (\<lambda>_.
     store_QueueWebsiteDomainAction (dom_id d) False (new_job jid (web_node w) u KindWebsiteDomainDelete
       (domain_payload (dom_id d)) 2 now) now s)))"

definition websites_RenameDomain ::
  "ext \<Rightarrow> ident \<Rightarrow> string \<Rightarrow> ident \<Rightarrow> bool \<Rightarrow> ident \<Rightarrow> msec \<Rightarrow> db \<Rightarrow> err + ((domain \<times> job) \<times> db)" where
  "websites_RenameDomain x i host u admin jid now s =
     andthen (domain_of i u admin s) (\<lambda>(w, d).
     andthen (fail_when (web_status w \<noteq> Active \<or> dom_status d = Pending) ErrWebsiteDomainBusy) (\<lambda>_.
     andthen (validate_Domain x host) (\<lambda>hostname.
     andthen (fail_when (hostname = dom_hostname d) ErrHostnameSame) (\<lambda>_.
     store_QueueWebsiteDomainRename (dom_id d) hostname (new_job jid (web_node w) u KindWebsiteDomainUpdate
       (rename_payload (dom_id d) (dom_hostname d) hostname) 2 now) now s))))"

section \<open>Job handlers\<close>

record web_spec =
  wsp_account :: ident
  wsp_system_user :: string
  wsp_website :: ident
  wsp_document_root :: string
  wsp_kind :: string
  wsp_web_driver :: string
  wsp_runtime_driver :: string
  wsp_runtime_version :: string
  wsp_primary :: string
  wsp_aliases :: "string list"

type_synonym website_call = "string \<Rightarrow> web_spec \<Rightarrow> err option"

record website_agent =
  agt_EnsureWebsite :: website_call
  agt_DisableWebsite :: website_call
  agt_DeleteWebsite :: website_call

text \<open>The loop of \<open>spec\<close> over the enabled domains.\<close>

fun spec_domains :: "domain list \<Rightarrow> web_spec \<Rightarrow> web_spec" where
  "spec_domains [] sp = sp"
| "spec_domains (d # ds) sp =
     spec_domains ds (if dom_kind d = Primary then sp\<lparr>wsp_primary := dom_hostname d\<rparr>
       else sp\<lparr>wsp_aliases := wsp_aliases sp @ [dom_hostname d]\<rparr>)"

definition website_spec :: "website \<Rightarrow> bool \<Rightarrow> db \<Rightarrow> err + (web_spec \<times> node)" where
  "website_spec w active s =
     andthen (map_err (Wrapped ''get website account'') (accounts_Get (web_account w) s)) (\<lambda>a.
     andthen (fail_when (active \<and> \<not> account_ready a) AccErrBusy) (\<lambda>_.
     andthen (map_err (Wrapped ''get website node'') (store_Node (web_node w) s)) (\<lambda>n.
     let sp = spec_domains (store_EnabledWebsiteDomains (web_id w) s)
       \<lparr>wsp_account = acc_id a, wsp_system_user = acc_system_user a, wsp_website = web_id w,
        wsp_document_root = web_document_root w, wsp_kind = web_kind w, wsp_web_driver = web_web_driver w,
        wsp_runtime_driver = web_runtime_driver w, wsp_runtime_version = web_runtime_version w,
        wsp_primary = [], wsp_aliases = []\<rparr> in
     if wsp_primary sp = [] then Inl ErrPrimaryRequired else Inr (sp, n))))"

definition website_ensure :: "website_agent \<Rightarrow> website \<Rightarrow> db \<Rightarrow> err option" where
  "website_ensure ag w s =
     (case website_spec w True s of
        Inl e \<Rightarrow> Some e
      | Inr (sp, n) \<Rightarrow> agt_EnsureWebsite ag (nod_endpoint n) sp)"

definition websites_Provision :: "website_agent \<Rightarrow> msec \<Rightarrow> job \<Rightarrow> db \<Rightarrow> err option \<times> db" where
  "websites_Provision ag now j s =
     (case payload_string ''websiteId'' (job_payload j) of
        None \<Rightarrow> (Some (Plain ''decode website job payload''), s)
      | Some i \<Rightarrow>
          if i = [] then (Some (Plain ''decode website job payload''), s)
          else (case store_Website i s of
            Inl e \<Rightarrow> (Some (Wrapped ''get website'' e), s)
          | Inr w \<Rightarrow>
              (case store_PrimaryDomain (web_id w) s of
                Inl e \<Rightarrow> (Some (Wrapped ''get primary domain'' e), s)
              | Inr d \<Rightarrow>
                  (case website_ensure ag w s of
                    Some e \<Rightarrow> (Some (Wrapped ''ensure website'' e),
                      store_UpdateWebsiteDomainStatus (dom_id d) Errored now
                        (store_UpdateWebsiteStatus (web_id w) Errored now s))
                  | None \<Rightarrow> (None,
                      store_UpdateWebsiteDomainStatus (dom_id d) Active now
                        (store_UpdateWebsiteStatus (web_id w) Active now s))))))"

definition websites_ProvisionWebsiteAction ::
  "website_agent \<Rightarrow> msec \<Rightarrow> job \<Rightarrow> db \<Rightarrow> err option \<times> db" where
  "websites_ProvisionWebsiteAction ag now j s =
     (let k = job_kind_of j in
      if k \<noteq> KindWebsiteEnable \<and> k \<noteq> KindWebsiteDisable \<and> k \<noteq> KindWebsiteDelete
      then (Some (Plain ''unsupported website action''), s)
      else case payload_string ''websiteId'' (job_payload j) of
        None \<Rightarrow> (Some (Plain ''decode website action payload''), s)
      | Some i \<Rightarrow>
          if i = [] then (Some (Plain ''decode website action payload''), s)
          else (case store_Website i s of
            Inl e \<Rightarrow> (if k = KindWebsiteDelete \<and> error_is e ErrNoRows then None else Some e, s)
          | Inr w \<Rightarrow>
              (case website_spec w (k = KindWebsiteEnable) s of
                Inl e \<Rightarrow> (Some e, s)
              | Inr (sp, n) \<Rightarrow>
                  (case (if k = KindWebsiteEnable then agt_EnsureWebsite ag
                         else if k = KindWebsiteDisable then agt_DisableWebsite ag
                         else agt_DeleteWebsite ag) (nod_endpoint n) sp of
                    Some e \<Rightarrow> (Some (Wrapped ''reconcile website action'' e),
                      store_UpdateWebsiteStatus (web_id w) Errored now s)
                  | None \<Rightarrow>
                      if k = KindWebsiteDelete then (None, store_DeleteWebsite (web_id w) s)
                      else (None, store_UpdateWebsiteStatus (web_id w)
                        (if k = KindWebsiteEnable then Active else Disabled) now s)))))"

definition websites_ProvisionDomain :: "website_agent \<Rightarrow> msec \<Rightarrow> job \<Rightarrow> db \<Rightarrow> err option \<times> db" where
  "websites_ProvisionDomain ag now j s =
     (let k = job_kind_of j in
      if k \<noteq> KindWebsiteDomainCreate \<and> k \<noteq> KindWebsiteDomainEnable \<and> k \<noteq> KindWebsiteDomainDisable \<and>
        k \<noteq> KindWebsiteDomainDelete
      then (Some (Plain ''unsupported website domain action''), s)
      else case payload_string ''websiteDomainId'' (job_payload j) of
        None \<Rightarrow> (Some (Plain ''decode website domain payload''), s)
      | Some i \<Rightarrow>
          if i = [] then (Some (Plain ''decode website domain payload''), s)
          else (case store_WebsiteDomain i s of
            Inl e \<Rightarrow> (if k = KindWebsiteDomainDelete \<and> error_is e ErrNoRows then None else Some e, s)
          | Inr d \<Rightarrow>
              (case store_Website (dom_website d) s of
                Inl e \<Rightarrow> (Some e, s)
              | Inr w \<Rightarrow>
                  (case website_ensure ag w s of
                    Some e \<Rightarrow> (Some (Wrapped ''reconcile website domain'' e),
                      store_UpdateWebsiteDomainStatus (dom_id d) Errored now s)
                  | None \<Rightarrow>
                      if k = KindWebsiteDomainDelete then (None, store_DeleteWebsiteDomain (dom_id d) s)
                      else (None, store_UpdateWebsiteDomainStatus (dom_id d)
                        (if k = KindWebsiteDomainDisable then Disabled else Active) now s)))))"

definition websites_ProvisionDomainRename ::
  "website_agent \<Rightarrow> msec \<Rightarrow> job \<Rightarrow> db \<Rightarrow> err option \<times> db" where
  "websites_ProvisionDomainRename ag now j s =
     (if job_kind_of j \<noteq> KindWebsiteDomainUpdate then (Some (Plain ''unsupported website domain rename''), s)
      else case (payload_string ''websiteDomainId'' (job_payload j),
          payload_string ''previousHostname'' (job_payload j), payload_string ''hostname'' (job_payload j)) of
        (Some i, Some prev, Some h) \<Rightarrow>
          if i = [] \<or> prev = [] \<or> h = [] then (Some (Plain ''decode website domain rename payload''), s)
          else (case store_WebsiteDomain i s of
            Inl e \<Rightarrow> (Some e, s)
          | Inr d \<Rightarrow>
              if dom_previous d = [] \<and> dom_hostname d = h \<and> (dom_status d = Active \<or> dom_status d = Disabled)
              then (None, s)
              else if dom_previous d \<noteq> prev \<or> dom_hostname d \<noteq> h
              then (Some (Plain ''website domain rename state does not match job''), s)
              else
                (case (case store_Website (dom_website d) s of
                         Inl e \<Rightarrow> Some e | Inr w \<Rightarrow> website_ensure ag w s) of
                   Some e \<Rightarrow> (Some (Wrapped ''rename website domain'' e),
                     if job_max j \<le> job_attempts j
                     then (case store_FailWebsiteDomainRename (dom_id d) now s of Inl _ \<Rightarrow> s | Inr s' \<Rightarrow> s')
                     else s)
                 | None \<Rightarrow> (None, store_CompleteWebsiteDomainRename (dom_id d) now s)))
      | _ \<Rightarrow> (Some (Plain ''decode website domain rename payload''), s))"

section \<open>Invariant of websites and host names\<close>

definition reserved_names :: "domain \<Rightarrow> string list" where
  "reserved_names d = nocase (dom_hostname d) #
     (if dom_previous d = [] then [] else [nocase (dom_previous d)])"

definition domains_inv :: "website list \<Rightarrow> domain list \<Rightarrow> bool" where
  "domains_inv ws ds \<longleftrightarrow>
     distinct (map web_id ws) \<and> distinct (map dom_id ds) \<and>
     distinct (concat (map reserved_names ds)) \<and>
     distinct (map dom_website (filter (\<lambda>d. dom_kind d = Primary) ds)) \<and>
     (\<forall>w \<in> set ws. \<exists>d \<in> set ds. dom_website d = web_id w \<and> dom_kind d = Primary) \<and>
     (\<forall>d \<in> set ds. dom_website d \<in> web_id ` set ws \<and> dom_hostname d \<noteq> [] \<and>
        (dom_kind d = Primary \<or> dom_kind d = Alias) \<and> (dom_kind d = Primary \<longrightarrow> dom_enabled d))"

definition websites_inv :: "db \<Rightarrow> bool" where
  "websites_inv s \<longleftrightarrow> domains_inv (websites s) (domains s)"

lemma distinct_concat_shrink:
  assumes "distinct (concat (map g ds))"
    and "\<And>d. d \<in> set ds \<Longrightarrow> distinct (g' d) \<and> set (g' d) \<subseteq> set (g d)"
  shows "distinct (concat (map g' ds))"
  using assms
proof (induction ds)
  case (Cons d ds)
  have "set (concat (map g' ds)) \<subseteq> set (concat (map g ds))"
    using Cons.prems(2) by fastforce
  then show ?case
    using Cons by (auto simp del: set_concat)
qed simp

lemma distinct_concat_filter:
  "distinct (concat (map g ds)) \<Longrightarrow> distinct (concat (map g (filter P ds)))"
  by (induction ds) auto

lemma distinct_concat_one:
  assumes "distinct (concat (map g ds))" "distinct (map k ds)" "c \<notin> set (concat (map g ds))"
    and "\<And>d. d \<in> set ds \<Longrightarrow> k d \<noteq> i \<Longrightarrow> g' d = g d"
    and "\<And>d. d \<in> set ds \<Longrightarrow> k d = i \<Longrightarrow> distinct (g' d) \<and> set (g' d) \<subseteq> insert c (set (g d))"
  shows "distinct (concat (map g' ds))"
  using assms
proof (induction ds)
  case (Cons d ds)
  have IH: "distinct (concat (map g' ds))"
    using Cons by simp
  have sub: "set (concat (map g' ds)) \<subseteq> insert c (set (concat (map g ds)))"
  proof
    fix x assume "x \<in> set (concat (map g' ds))"
    then obtain e where "e \<in> set ds" "x \<in> set (g' e)" by auto
    then show "x \<in> insert c (set (concat (map g ds)))"
      using Cons.prems(4) [of e] Cons.prems(5) [of e] by (cases "k e = i") auto
  qed
  show ?case
  proof (cases "k d = i")
    case True
    have "k e \<noteq> i" if "e \<in> set ds" for e
      using Cons.prems(2) that True by (auto simp: image_iff)
    then have "concat (map g' (d # ds)) = g' d @ concat (map g ds)"
      using Cons.prems(4) by (simp cong: map_cong)
    moreover have "distinct (g' d)" "set (g' d) \<subseteq> insert c (set (g d))"
      using Cons.prems(5) [of d] True by auto
    ultimately show ?thesis
      using Cons.prems(1,3) by (auto simp del: set_concat map_eq_conv)
  next
    case False
    then have "g' d = g d"
      using Cons.prems(4) by simp
    then show ?thesis
      using Cons.prems(1,3) IH sub by (auto simp del: set_concat)
  qed
qed simp

text \<open>A change of rows that keeps identity, website and kind of every domain.\<close>

definition same_place :: "domain \<Rightarrow> domain \<Rightarrow> bool" where
  "same_place d' d \<longleftrightarrow> dom_id d' = dom_id d \<and> dom_website d' = dom_website d \<and> dom_kind d' = dom_kind d"

lemma domains_inv_map:
  assumes "domains_inv ws ds" "\<And>d. d \<in> set ds \<Longrightarrow> same_place (f d) d"
    and "\<And>d. d \<in> set ds \<Longrightarrow> dom_hostname (f d) \<noteq> [] \<and> (dom_kind d = Primary \<longrightarrow> dom_enabled (f d))"
    and "distinct (concat (map reserved_names (map f ds)))"
  shows "domains_inv ws (map f ds)"
proof -
  have "map (dom_id \<circ> f) ds = map dom_id ds"
    using assms(2) by (simp add: same_place_def)
  moreover have "distinct (map dom_id ds)"
    using assms(1) by (simp add: domains_inv_def)
  ultimately have ids: "distinct (map (dom_id \<circ> f) ds)"
    by metis
  have "filter (\<lambda>d. dom_kind d = Primary) (map f ds) = map f (filter (\<lambda>d. dom_kind d = Primary) ds)"
    using assms(2) unfolding filter_map by (auto simp: same_place_def intro!: arg_cong [where f = "map f"] filter_cong)
  then have prim: "map dom_website (filter (\<lambda>d. dom_kind d = Primary) (map f ds)) =
      map dom_website (filter (\<lambda>d. dom_kind d = Primary) ds)"
    using assms(2) by (auto simp: same_place_def)
  have "\<exists>d \<in> set (map f ds). dom_website d = web_id w \<and> dom_kind d = Primary" if "w \<in> set ws" for w
    using assms(1,2) that by (fastforce simp: domains_inv_def same_place_def)
  then show ?thesis
    using assms ids prim by (auto simp: domains_inv_def same_place_def)
qed

lemma domains_inv_rows:
  assumes "domains_inv ws ds" "\<And>d. d \<in> set ds \<Longrightarrow> same_place (f d) d"
    and "\<And>d. d \<in> set ds \<Longrightarrow> dom_hostname (f d) \<noteq> [] \<and> (dom_kind d = Primary \<longrightarrow> dom_enabled (f d))"
    and "\<And>d. d \<in> set ds \<Longrightarrow> set (reserved_names (f d)) \<subseteq> set (reserved_names d) \<and> distinct (reserved_names (f d))"
  shows "domains_inv ws (map f ds)"
proof (rule domains_inv_map [OF assms(1-3)])
  have "distinct (concat (map (reserved_names \<circ> f) ds))"
  proof (rule distinct_concat_shrink [of reserved_names])
    show "distinct (concat (map reserved_names ds))"
      using assms(1) by (simp add: domains_inv_def)
    show "distinct ((reserved_names \<circ> f) d) \<and> set ((reserved_names \<circ> f) d) \<subseteq> set (reserved_names d)"
      if "d \<in> set ds" for d
      using assms(4) [OF that] by simp
  qed
  then show "distinct (concat (map reserved_names (map f ds)))"
    by simp
qed

lemma reserved_distinct: "domains_inv ws ds \<Longrightarrow> d \<in> set ds \<Longrightarrow> distinct (reserved_names d)"
  unfolding domains_inv_def by (auto dest: split_list)

lemma reserved_same:
  "domains_inv ws ds \<Longrightarrow> d \<in> set ds \<Longrightarrow> dom_hostname d' = dom_hostname d \<Longrightarrow> dom_previous d' = dom_previous d \<Longrightarrow>
    set (reserved_names d') \<subseteq> set (reserved_names d) \<and> distinct (reserved_names d')"
proof -
  assume "domains_inv ws ds" "d \<in> set ds" "dom_hostname d' = dom_hostname d" "dom_previous d' = dom_previous d"
  moreover from this have "reserved_names d' = reserved_names d"
    by (simp add: reserved_names_def)
  ultimately show ?thesis
    using reserved_distinct [of ws ds d] by simp
qed

lemma hostname_reserved:
  "hostname_exists h s \<longleftrightarrow> nocase h \<in> set (concat (map reserved_names (domains s)))"
proof -
  have "(nocase (dom_hostname d) = nocase h \<or> dom_previous d \<noteq> [] \<and> nocase (dom_previous d) = nocase h) \<longleftrightarrow>
      nocase h \<in> set (reserved_names d)" for d
    by (auto simp: reserved_names_def)
  then show ?thesis
    by (simp add: hostname_exists_def list_ex_iff)
qed

lemma domains_inv_websites:
  assumes "domains_inv ws ds" "map web_id ws' = map web_id ws"
  shows "domains_inv ws' ds"
proof -
  have ids: "web_id ` set ws' = web_id ` set ws"
    by (metis assms(2) set_map)
  have "\<exists>d \<in> set ds. dom_website d = web_id w \<and> dom_kind d = Primary" if w: "w \<in> set ws'" for w
  proof -
    have "web_id w \<in> web_id ` set ws"
      using ids w by auto
    then obtain w' where "w' \<in> set ws" "web_id w' = web_id w"
      by auto
    moreover from this(1) obtain d where "d \<in> set ds" "dom_website d = web_id w'" "dom_kind d = Primary"
      using assms(1) unfolding domains_inv_def by blast
    ultimately show ?thesis
      by auto
  qed
  moreover have "distinct (map web_id ws')"
    using assms by (simp add: domains_inv_def)
  ultimately show ?thesis
    using assms(1) by (simp add: domains_inv_def ids)
qed

lemma domains_inv_filter:
  assumes "domains_inv ws ds"
    and "\<And>d. d \<in> set ds \<Longrightarrow> P d \<Longrightarrow> dom_website d \<in> web_id ` set (filter Q ws)"
    and "\<And>w d. w \<in> set ws \<Longrightarrow> Q w \<Longrightarrow> d \<in> set ds \<Longrightarrow> dom_website d = web_id w \<Longrightarrow> dom_kind d = Primary \<Longrightarrow> P d"
  shows "domains_inv (filter Q ws) (filter P ds)"
proof -
  have "distinct (concat (map reserved_names (filter P ds)))"
    using assms(1) by (simp add: domains_inv_def distinct_concat_filter)
  moreover have "distinct (map dom_website (filter (\<lambda>d. dom_kind d = Primary) (filter P ds)))"
  proof -
    have "filter (\<lambda>d. dom_kind d = Primary) (filter P ds) = filter P (filter (\<lambda>d. dom_kind d = Primary) ds)"
      by (simp add: conj_commute)
    then show ?thesis
      using assms(1) by (simp only: domains_inv_def distinct_map_filter)
  qed
  moreover have "\<exists>d \<in> set (filter P ds). dom_website d = web_id w \<and> dom_kind d = Primary"
    if "w \<in> set (filter Q ws)" for w
    using assms(1) assms(3) [of w] that unfolding domains_inv_def by fastforce
  moreover have "\<forall>d \<in> set (filter P ds). dom_website d \<in> web_id ` set (filter Q ws) \<and> dom_hostname d \<noteq> [] \<and>
        (dom_kind d = Primary \<or> dom_kind d = Alias) \<and> (dom_kind d = Primary \<longrightarrow> dom_enabled d)"
    using assms(1,2) unfolding domains_inv_def by auto
  ultimately show ?thesis
    using assms(1) unfolding domains_inv_def by (simp add: distinct_map_filter)
qed

lemma domains_inv_add_alias:
  assumes "domains_inv ws ds" "dom_kind d = Alias" "dom_hostname d \<noteq> []" "dom_previous d = []"
    "dom_id d \<notin> dom_id ` set ds" "nocase (dom_hostname d) \<notin> set (concat (map reserved_names ds))"
    "dom_website d \<in> web_id ` set ws"
  shows "domains_inv ws (ds @ [d])"
  using assms by (auto simp: domains_inv_def reserved_names_def)

lemma domains_inv_add_primary:
  assumes "domains_inv ws ds" "dom_kind d = Primary" "dom_enabled d" "dom_hostname d \<noteq> []" "dom_previous d = []"
    "dom_id d \<notin> dom_id ` set ds" "nocase (dom_hostname d) \<notin> set (concat (map reserved_names ds))"
    "dom_website d = web_id w" "web_id w \<notin> web_id ` set ws"
  shows "domains_inv (ws @ [w]) (ds @ [d])"
proof -
  have "dom_website e \<noteq> web_id w" if "e \<in> set ds" for e
    using assms(1,9) that unfolding domains_inv_def by metis
  then show ?thesis
    using assms by (auto simp: domains_inv_def reserved_names_def)
qed

lemma validate_Domain_nonempty: "validate_Domain x h = Inr v \<Longrightarrow> v \<noteq> []"
  by (auto simp: validate_Domain_def Let_def split: if_splits)

lemma insert_website_Inr:
  assumes "insert_website w s = Inr (w', s')"
  shows "w' = w\<lparr>web_status := Pending, web_enabled := True\<rparr>" "web_id w \<notin> web_id ` set (websites s)"
    "s' = s\<lparr>websites := websites s @ [w']\<rparr>"
  using assms by (auto simp: insert_website_def Let_def exists_by_iff)

lemma insert_domain_Inr:
  assumes "insert_domain d s = Inr (d', s')"
  shows "d' = d\<lparr>dom_status := Pending, dom_enabled := True, dom_previous := []\<rparr>"
    "dom_id d \<notin> dom_id ` set (domains s)" "dom_website d \<in> web_id ` set (websites s)"
    "s' = s\<lparr>domains := domains s @ [d']\<rparr>"
  using assms by (auto simp: insert_domain_def Let_def exists_by_iff)

lemma createJob_tables:
  "createJob j s = Inr (r, s') \<Longrightarrow> websites s' = websites s \<and> domains s' = domains s"
  by (auto dest: createJob_Inr)

lemma CreateWebsiteProvision_inv:
  assumes "store_CreateWebsiteProvision w d j s = Inr (((w', d'), j'), s')" "websites_inv s"
    "dom_kind d = Primary" "dom_website d = web_id w" "dom_hostname d \<noteq> []"
  shows "websites_inv s'"
proof -
  from assms(1) obtain s1 s2 where free: "\<not> hostname_exists (dom_hostname d) s"
    and w: "insert_website w s = Inr (w', s1)" and d: "insert_domain d s1 = Inr (d', s2)"
    and j: "createJob j s2 = Inr (j', s')"
    by (auto simp: store_CreateWebsiteProvision_def ensureHostnameAvailable_def)
  note w' = insert_website_Inr [OF w] and d' = insert_domain_Inr [OF d]
  have "domains_inv (websites s @ [w']) (domains s @ [d'])"
    using assms(2-) free w' d' hostname_reserved [of "dom_hostname d" s]
    by (intro domains_inv_add_primary) (auto simp: websites_inv_def)
  then show ?thesis
    using createJob_tables [OF j] w'(3) d'(4) by (simp add: websites_inv_def)
qed

lemma CreateWebsiteDomainProvision_inv:
  assumes "store_CreateWebsiteDomainProvision d j s = Inr ((d', j'), s')" "websites_inv s"
    "dom_kind d = Alias" "dom_hostname d \<noteq> []"
  shows "websites_inv s'"
proof -
  from assms(1) obtain s1 where free: "\<not> hostname_exists (dom_hostname d) s"
    and d: "insert_domain d s = Inr (d', s1)" and j: "createJob j s1 = Inr (j', s')"
    by (auto simp: store_CreateWebsiteDomainProvision_def ensureHostnameAvailable_def)
  note d' = insert_domain_Inr [OF d]
  have "domains_inv (websites s) (domains s @ [d'])"
    using assms(2-) free d' hostname_reserved [of "dom_hostname d" s]
    by (intro domains_inv_add_alias) (auto simp: websites_inv_def)
  then show ?thesis
    using createJob_tables [OF j] d'(4) by (simp add: websites_inv_def)
qed

lemma QueueWebsiteAction_inv:
  assumes "store_QueueWebsiteAction i en j now s = Inr ((w, j'), s')" "websites_inv s"
  shows "websites_inv s'"
proof -
  let ?ws = "map (\<lambda>r. if web_id r = i \<and> web_status r \<noteq> Pending then queue_website_row en now r else r) (websites s)"
  have "map web_id ?ws = map web_id (websites s)"
    by (simp add: queue_website_row_def)
  then have "domains_inv ?ws (domains s)"
    using assms(2) domains_inv_websites unfolding websites_inv_def by blast
  then show ?thesis
    using assms(1) by (auto simp: store_QueueWebsiteAction_def websites_inv_def dest!: createJob_tables)
qed

lemma QueueWebsiteDomainAction_inv:
  assumes "store_QueueWebsiteDomainAction i en j now s = Inr ((d, j'), s')" "websites_inv s"
  shows "websites_inv s'"
proof -
  let ?f = "\<lambda>r. if dom_id r = i \<and> dom_kind r = Alias \<and> dom_status r \<noteq> Pending then queue_domain_row en now r else r"
  have "domains_inv (websites s) (map ?f (domains s))"
    using assms(2) unfolding websites_inv_def
  proof (rule domains_inv_rows)
    fix d assume d: "d \<in> set (domains s)"
    show "same_place (?f d) d"
      by (simp add: same_place_def queue_domain_row_def)
    show "dom_hostname (?f d) \<noteq> [] \<and> (dom_kind d = Primary \<longrightarrow> dom_enabled (?f d))"
      using assms(2) d by (auto simp: websites_inv_def domains_inv_def queue_domain_row_def)
    show "set (reserved_names (?f d)) \<subseteq> set (reserved_names d) \<and> distinct (reserved_names (?f d))"
      using reserved_same [of "websites s" "domains s" d "?f d"] assms(2) d
      by (simp add: websites_inv_def queue_domain_row_def)
  qed
  then show ?thesis
    using assms(1)
    by (auto simp: store_QueueWebsiteDomainAction_def websites_inv_def Let_def dest!: createJob_tables)
qed

lemma UpdateWebsiteStatus_inv:
  "websites_inv s \<Longrightarrow> websites_inv (store_UpdateWebsiteStatus i st now s)"
proof -
  have "map web_id (update_by web_id i (\<lambda>w. w\<lparr>web_status := st, web_updated := now\<rparr>) (websites s)) =
      map web_id (websites s)"
    by (rule update_by_keys) simp
  then show "websites_inv s \<Longrightarrow> ?thesis"
    using domains_inv_websites by (simp add: websites_inv_def store_UpdateWebsiteStatus_def)
qed

lemma UpdateWebsiteDomainStatus_inv:
  assumes "websites_inv s"
  shows "websites_inv (store_UpdateWebsiteDomainStatus i st now s)"
proof -
  have "domains_inv (websites s) (update_by dom_id i (\<lambda>d. d\<lparr>dom_status := st, dom_updated := now\<rparr>) (domains s))"
    unfolding update_by_def
  proof (rule domains_inv_rows)
    fix d assume d: "d \<in> set (domains s)"
    let ?f = "\<lambda>r. if dom_id r = i then r\<lparr>dom_status := st, dom_updated := now\<rparr> else r"
    show "same_place (?f d) d"
      by (simp add: same_place_def)
    show "dom_hostname (?f d) \<noteq> [] \<and> (dom_kind d = Primary \<longrightarrow> dom_enabled (?f d))"
      using assms d by (auto simp: websites_inv_def domains_inv_def)
    show "set (reserved_names (?f d)) \<subseteq> set (reserved_names d) \<and> distinct (reserved_names (?f d))"
      using reserved_same [of "websites s" "domains s" d "?f d"] assms d by (simp add: websites_inv_def)
  qed (use assms in \<open>simp add: websites_inv_def\<close>)
  then show ?thesis
    by (simp add: websites_inv_def store_UpdateWebsiteDomainStatus_def)
qed

text \<open>Ending a rename, either way, gives back one of the two names it reserved.\<close>

lemma settle_rename_inv:
  assumes "domains_inv ws ds" "\<And>d. same_place (f d) d" "\<And>d. dom_enabled (f d) = dom_enabled d"
    "\<And>d. dom_previous (f d) = []"
    "\<And>d. dom_hostname (f d) = dom_hostname d \<or> dom_previous d \<noteq> [] \<and> dom_hostname (f d) = dom_previous d"
  shows "domains_inv ws (update_by dom_id i f ds)"
  unfolding update_by_def
proof (rule domains_inv_rows [OF assms(1)])
  fix d assume d: "d \<in> set ds"
  let ?f = "\<lambda>r. if dom_id r = i then f r else r"
  show "same_place (?f d) d"
    using assms(2) by (simp add: same_place_def)
  show "dom_hostname (?f d) \<noteq> [] \<and> (dom_kind d = Primary \<longrightarrow> dom_enabled (?f d))"
    using assms(1,3) assms(5) [of d] d by (auto simp: domains_inv_def)
  show "set (reserved_names (?f d)) \<subseteq> set (reserved_names d) \<and> distinct (reserved_names (?f d))"
    using reserved_distinct [OF assms(1) d] assms(4) [of d] assms(5) [of d]
    by (auto simp: reserved_names_def)
qed

lemma CompleteRename_inv: "websites_inv s \<Longrightarrow> websites_inv (store_CompleteWebsiteDomainRename i now s)"
  unfolding websites_inv_def store_CompleteWebsiteDomainRename_def
  by (simp, rule settle_rename_inv) (simp_all add: same_place_def complete_rename_row_def)

lemma FailRename_domains_inv:
  "domains_inv ws ds \<Longrightarrow> domains_inv ws (update_by dom_id i (fail_rename_row now) ds)"
  by (rule settle_rename_inv) (simp_all add: same_place_def fail_rename_row_def)

lemma reserved_hostnames_distinct:
  "distinct (concat (map reserved_names ds)) \<Longrightarrow> distinct (map (nocase \<circ> dom_hostname) ds)"
  by (induction ds) (auto simp: reserved_names_def)

lemma FailRename_succeeds:
  assumes "websites_inv s"
  shows "store_FailWebsiteDomainRename i now s =
    Inr (s\<lparr>domains := update_by dom_id i (fail_rename_row now) (domains s)\<rparr>)"
proof -
  have "domains_inv (websites s) (update_by dom_id i (fail_rename_row now) (domains s))"
    using assms FailRename_domains_inv by (simp add: websites_inv_def)
  then show ?thesis
    using reserved_hostnames_distinct by (simp add: store_FailWebsiteDomainRename_def domains_inv_def Let_def)
qed

lemma QueueRename_inv:
  assumes "store_QueueWebsiteDomainRename i h j now s = Inr ((d, j'), s')" "websites_inv s" "h \<noteq> []"
  shows "websites_inv s'"
proof -
  let ?f = "\<lambda>r. if dom_id r = i \<and> dom_status r \<noteq> Pending then rename_row h now r else r"
  note inv = assms(2) [unfolded websites_inv_def]
  have free: "nocase h \<notin> set (concat (map reserved_names (domains s)))"
    using assms(1) hostname_reserved [of h s]
    by (auto simp: store_QueueWebsiteDomainRename_def ensureHostnameAvailable_def Let_def)
  have "distinct (concat (map (reserved_names \<circ> ?f) (domains s)))"
  proof (rule distinct_concat_one [of reserved_names _ dom_id "nocase h" i])
    fix d assume d: "d \<in> set (domains s)"
    show "(reserved_names \<circ> ?f) d = reserved_names d" if "dom_id d \<noteq> i"
      using that by simp
    have "nocase h \<notin> set (reserved_names d)" "dom_hostname d \<noteq> []"
      using free inv d by (auto simp: domains_inv_def)
    then show "distinct ((reserved_names \<circ> ?f) d) \<and>
        set ((reserved_names \<circ> ?f) d) \<subseteq> insert (nocase h) (set (reserved_names d))"
      using reserved_distinct [OF inv d] by (auto simp: reserved_names_def rename_row_def)
  qed (use inv free in \<open>simp_all add: domains_inv_def\<close>)
  then have "domains_inv (websites s) (map ?f (domains s))"
    using inv assms(3)
    by (intro domains_inv_map) (auto simp: same_place_def rename_row_def domains_inv_def)
  then show ?thesis
    using assms(1)
    by (auto simp: store_QueueWebsiteDomainRename_def websites_inv_def Let_def dest!: createJob_tables)
qed

lemma DeleteWebsite_inv: "websites_inv s \<Longrightarrow> websites_inv (store_DeleteWebsite i s)"
proof -
  assume inv: "websites_inv s"
  have "domains_inv (filter (\<lambda>w. web_id w \<noteq> i) (websites s)) (filter (\<lambda>d. dom_website d \<noteq> i) (domains s))"
    using inv unfolding websites_inv_def
  proof (rule domains_inv_filter)
    fix d assume d: "d \<in> set (domains s)" "dom_website d \<noteq> i"
    then have "dom_website d \<in> web_id ` set (websites s)"
      using inv by (simp add: websites_inv_def domains_inv_def)
    with d(2) show "dom_website d \<in> web_id ` set (filter (\<lambda>w. web_id w \<noteq> i) (websites s))"
      by auto
  qed simp
  then show ?thesis
    using inv by (simp add: store_DeleteWebsite_def websites_inv_def Let_def delete_by_def)
qed

lemma DeleteWebsiteDomain_inv:
  assumes "websites_inv s"
  shows "websites_inv (store_DeleteWebsiteDomain i s)"
proof -
  have "domains_inv (filter (\<lambda>_. True) (websites s))
      (filter (\<lambda>d. \<not> (dom_id d = i \<and> dom_kind d = Alias)) (domains s))"
    using assms unfolding websites_inv_def by (rule domains_inv_filter)
      (use assms in \<open>auto simp: websites_inv_def domains_inv_def\<close>)
  then show ?thesis
    by (simp add: websites_inv_def store_DeleteWebsiteDomain_def)
qed

lemma cascade_websites_inv:
  assumes "websites_inv s"
  shows "websites_inv (cascade_account i s)"
proof -
  let ?W = "web_id ` {w \<in> set (websites s). web_account w = i}"
  have unique: "w = w'" if "w \<in> set (websites s)" "w' \<in> set (websites s)" "web_id w = web_id w'" for w w'
    using assms that unfolding websites_inv_def domains_inv_def by (metis distinct_key_unique)
  have "domains_inv (filter (\<lambda>w. web_account w \<noteq> i) (websites s)) (filter (\<lambda>d. dom_website d \<notin> ?W) (domains s))"
    using assms unfolding websites_inv_def
  proof (rule domains_inv_filter)
    fix d assume "d \<in> set (domains s)" "dom_website d \<notin> ?W"
    moreover from this(1) have "dom_website d \<in> web_id ` set (websites s)"
      using assms by (simp add: websites_inv_def domains_inv_def)
    ultimately show "dom_website d \<in> web_id ` set (filter (\<lambda>w. web_account w \<noteq> i) (websites s))"
      by (auto simp: image_iff)
  next
    fix w d assume "w \<in> set (websites s)" "web_account w \<noteq> i" "dom_website d = web_id w"
    then show "dom_website d \<notin> ?W"
      using unique by auto
  qed
  then show ?thesis
    by (simp add: websites_inv_def cascade_account_def Let_def delete_by_def)
qed

section \<open>Steps\<close>

text \<open>
  The requests and jobs of the website service, and the deletion of an account.  The restore of a
  backup's metadata writes the same tables by statements of its own and is not a step here.
\<close>

inductive website_step :: "ext \<Rightarrow> db \<Rightarrow> db \<Rightarrow> bool" for x where
  create: "websites_Create x v host u admin wid did jid now s = Inr (r, s') \<Longrightarrow> website_step x s s'"
| create_domain: "websites_CreateDomain x wid host u admin did jid now s = Inr (r2, s') \<Longrightarrow> website_step x s s'"
| set_website: "websites_SetWebsite i u admin en jid now s = Inr (r3, s') \<Longrightarrow> website_step x s s'"
| delete_website: "websites_DeleteWebsite i u admin jid now s = Inr (r3, s') \<Longrightarrow> website_step x s s'"
| set_domain: "websites_SetDomain i u admin en jid now s = Inr (r2, s') \<Longrightarrow> website_step x s s'"
| delete_domain: "websites_DeleteDomain i u admin jid now s = Inr (r2, s') \<Longrightarrow> website_step x s s'"
| rename: "websites_RenameDomain x i host u admin jid now s = Inr (r2, s') \<Longrightarrow> website_step x s s'"
| provision: "website_step x s (snd (websites_Provision ag now j s))"
| action: "website_step x s (snd (websites_ProvisionWebsiteAction ag now j s))"
| domain: "website_step x s (snd (websites_ProvisionDomain ag now j s))"
| rename_job: "website_step x s (snd (websites_ProvisionDomainRename ag now j s))"
| account_deleted: "website_step x s (cascade_account a s)"

lemma website_step_inv:
  assumes "website_step x s s'" "websites_inv s"
  shows "websites_inv s'"
  using assms(1)
proof cases
  case (create v host u admin wid did jid now r)
  obtain w d j where "r = ((w, d), j)" by (metis surj_pair)
  with create show ?thesis
    using assms(2)
    by (auto simp: websites_Create_def dest!: CreateWebsiteProvision_inv dest: validate_Domain_nonempty)
next
  case (create_domain wid host u admin did jid now r2)
  then show ?thesis
    using assms(2)
    by (cases r2) (auto simp: websites_CreateDomain_def
        dest!: CreateWebsiteDomainProvision_inv dest: validate_Domain_nonempty)
next
  case (set_website i u admin en jid now r3)
  then show ?thesis
    using assms(2) by (cases r3) (auto simp: websites_SetWebsite_def dest!: QueueWebsiteAction_inv)
next
  case (delete_website i u admin jid now r3)
  then show ?thesis
    using assms(2) by (cases r3) (auto simp: websites_DeleteWebsite_def dest!: QueueWebsiteAction_inv)
next
  case (set_domain i u admin en jid now r2)
  then show ?thesis
    using assms(2) by (cases r2) (auto simp: websites_SetDomain_def dest!: QueueWebsiteDomainAction_inv)
next
  case (delete_domain i u admin jid now r2)
  then show ?thesis
    using assms(2) by (cases r2) (auto simp: websites_DeleteDomain_def dest!: QueueWebsiteDomainAction_inv)
next
  case (rename i host u admin jid now r2)
  then show ?thesis
    using assms(2)
    by (cases r2) (auto simp: websites_RenameDomain_def dest!: QueueRename_inv dest: validate_Domain_nonempty)
next
  case (provision ag now j)
  then show ?thesis
    using assms(2)
    by (auto simp: websites_Provision_def split: option.split sum.split
        intro!: UpdateWebsiteDomainStatus_inv UpdateWebsiteStatus_inv)
next
  case (action ag now j)
  then show ?thesis
    using assms(2)
    by (auto simp: websites_ProvisionWebsiteAction_def Let_def split: option.split sum.split
        intro!: DeleteWebsite_inv UpdateWebsiteStatus_inv)
next
  case (domain ag now j)
  then show ?thesis
    using assms(2)
    by (auto simp: websites_ProvisionDomain_def Let_def split: option.split sum.split
        intro!: DeleteWebsiteDomain_inv UpdateWebsiteDomainStatus_inv)
next
  case (rename_job ag now j)
  have "websites_inv (s\<lparr>domains := update_by dom_id i (fail_rename_row now) (domains s)\<rparr>)" for i
    using assms(2) FailRename_domains_inv by (simp add: websites_inv_def)
  then show ?thesis
    unfolding rename_job using assms(2)
    by (auto simp: websites_ProvisionDomainRename_def FailRename_succeeds split: option.split sum.split
        intro!: CompleteRename_inv)
next
  case (account_deleted a)
  then show ?thesis using assms(2) by (simp add: cascade_websites_inv)
qed

section \<open>The specification sent to the agent\<close>

lemma spec_domains_eq:
  "spec_domains ds sp = sp\<lparr>
     wsp_primary := (case filter (\<lambda>d. dom_kind d = Primary) (rev ds) of [] \<Rightarrow> wsp_primary sp | d # _ \<Rightarrow> dom_hostname d),
     wsp_aliases := wsp_aliases sp @ map dom_hostname (filter (\<lambda>d. dom_kind d \<noteq> Primary) ds)\<rparr>"
proof (induction ds arbitrary: sp)
  case (Cons d ds)
  show ?case
    by (auto simp: Cons.IH split: list.split)
qed simp

lemma aliases_of_order:
  fixes ds :: "domain list"
  shows "filter (\<lambda>d. dom_kind d \<noteq> Primary) (order_domains ds) =
    sort_key (nocase \<circ> dom_hostname) (filter (\<lambda>d. dom_kind d \<noteq> Primary) ds)"
proof -
  let ?rank = "\<lambda>d. if dom_kind d = Primary then 0 else (1 :: int)"
  have "filter (\<lambda>d. dom_kind d \<noteq> Primary) xs = filter (\<lambda>d. ?rank d = 1) xs" for xs :: "domain list"
    by (rule filter_cong) simp_all
  then have "filter (\<lambda>d. dom_kind d \<noteq> Primary) (order_domains ds) =
      filter (\<lambda>d. dom_kind d \<noteq> Primary) (sort_key (nocase \<circ> dom_hostname) ds)"
    by (simp only: order_domains_def order_asc_def sort_key_stable)
  also have "\<dots> = sort_key (nocase \<circ> dom_hostname) (filter (\<lambda>d. dom_kind d \<noteq> Primary) ds)"
    by (rule filter_sort)
  finally show ?thesis .
qed

lemma set_order_domains [simp]: "set (order_domains ds) = set ds"
  by (simp add: order_domains_def)

lemma primary_of_website:
  assumes "websites_inv s" "w \<in> set (websites s)"
  obtains d where "d \<in> set (domains s)" "dom_website d = web_id w" "dom_kind d = Primary"
    "dom_enabled d" "dom_hostname d \<noteq> []"
    "\<And>e. e \<in> set (domains s) \<Longrightarrow> dom_website e = web_id w \<Longrightarrow> dom_kind e = Primary \<Longrightarrow> e = d"
proof -
  obtain d where d: "d \<in> set (domains s)" "dom_website d = web_id w" "dom_kind d = Primary"
    using assms unfolding websites_inv_def domains_inv_def by blast
  moreover have "dom_enabled d" "dom_hostname d \<noteq> []"
    using assms(1) d unfolding websites_inv_def domains_inv_def by blast+
  moreover have "e = d" if "e \<in> set (domains s)" "dom_website e = web_id w" "dom_kind e = Primary" for e
    using that d assms(1) distinct_key_unique [of dom_website "filter (\<lambda>d. dom_kind d = Primary) (domains s)" e d]
    by (simp add: websites_inv_def domains_inv_def)
  ultimately show ?thesis
    using that by blast
qed

section \<open>Properties\<close>

text \<open>C27: whatever requests and jobs of the website service run, and when an account is deleted, host names
  stay unique across all websites, including the names held back by pending renames and ignoring case;
  every domain belongs to an existing website; and every website keeps exactly one primary domain,
  which is never disabled.  The job that restores the metadata of a backup is not among these steps:
  it accepts metadata that breaks this form (theory \<open>Restore\<close>).\<close>

theorem websites_stay_consistent:
  assumes "website_step x s s'" "websites_inv s"
  shows "websites_inv s'"
  using assms by (rule website_step_inv)

definition sample_website :: website where
  "sample_website = \<lparr>web_id = replicate 32 CHR ''b'', web_account = ''a1'', web_node = ''n1'', web_name = ''Shop'',
     web_kind = ''php'', web_document_root = ''/home/x'', web_web_driver = ''nginx'',
     web_runtime_driver = ''phpfpm'', web_runtime_version = ''8.3'', web_status = Active,
     web_enabled = True, web_created = 0, web_updated = 0\<rparr>"

definition sample_domain :: domain where
  "sample_domain = \<lparr>dom_id = replicate 32 CHR ''d'', dom_website = replicate 32 CHR ''b'',
     dom_hostname = ''shop.pt'', dom_kind = Primary, dom_status = Active, dom_enabled = True,
     dom_previous = [], dom_created = 0, dom_updated = 0\<rparr>"

definition sample_site :: db where
  "sample_site = sample_hosting\<lparr>websites := [sample_website], domains := [sample_domain]\<rparr>"

lemma sample_site_inv: "websites_inv sample_site"
  by (simp add: websites_inv_def domains_inv_def sample_site_def sample_website_def sample_domain_def
      reserved_names_def)

theorem websites_stay_consistent_witness: "websites_inv (cascade_account ''a1'' sample_site)"
  by (rule websites_stay_consistent [OF website_step.account_deleted sample_site_inv])

text \<open>For every website of a consistent store the specification sent to the agent exists as
  soon as account and node do, names the primary domain, and lists exactly the host names of
  the enabled aliases, each once, in order.\<close>

theorem spec_names_enabled_domains:
  assumes "websites_inv s" "w \<in> set (websites s)"
    and "accounts_Get (web_account w) s = Inr a" "active \<longrightarrow> account_ready a"
    and "store_Node (web_node w) s = Inr n"
  shows "\<exists>sp d. website_spec w active s = Inr (sp, n) \<and>
    d \<in> set (domains s) \<and> dom_website d = web_id w \<and> dom_kind d = Primary \<and>
    wsp_primary sp = dom_hostname d \<and>
    set (wsp_aliases sp) = {dom_hostname e | e. e \<in> set (domains s) \<and> dom_website e = web_id w \<and>
      dom_enabled e \<and> dom_kind e \<noteq> Primary} \<and>
    sorted (map nocase (wsp_aliases sp)) \<and> distinct (map nocase (wsp_aliases sp))"
proof -
  let ?mine = "filter (\<lambda>d. dom_website d = web_id w \<and> dom_enabled d) (domains s)"
  obtain d where d: "d \<in> set (domains s)" "dom_website d = web_id w" "dom_kind d = Primary"
    "dom_enabled d" "dom_hostname d \<noteq> []"
    and only: "\<And>e. e \<in> set (domains s) \<Longrightarrow> dom_website e = web_id w \<Longrightarrow> dom_kind e = Primary \<Longrightarrow> e = d"
    using primary_of_website [OF assms(1,2)] by metis
  let ?ds = "store_EnabledWebsiteDomains (web_id w) s"
  have prim: "filter (\<lambda>d. dom_kind d = Primary) (rev ?ds) \<noteq> []"
    using d by (auto simp: store_EnabledWebsiteDomains_def filter_empty_conv)
  moreover have "e = d" if "e \<in> set (filter (\<lambda>d. dom_kind d = Primary) (rev ?ds))" for e
    using that only by (auto simp: store_EnabledWebsiteDomains_def)
  ultimately have hd: "\<exists>rest. filter (\<lambda>d. dom_kind d = Primary) (rev ?ds) = d # rest"
    by (cases "filter (\<lambda>d. dom_kind d = Primary) (rev ?ds)") auto
  define al where "al = sort_key (nocase \<circ> dom_hostname) (filter (\<lambda>d. dom_kind d \<noteq> Primary) ?mine)"
  have al: "filter (\<lambda>d. dom_kind d \<noteq> Primary) ?ds = al"
    unfolding al_def store_EnabledWebsiteDomains_def by (rule aliases_of_order)
  have "distinct (map (nocase \<circ> dom_hostname) (domains s))"
    using assms(1) reserved_hostnames_distinct by (simp add: websites_inv_def domains_inv_def)
  then have "distinct (map (nocase \<circ> dom_hostname) (filter (\<lambda>d. dom_kind d \<noteq> Primary) ?mine))"
    by (intro distinct_map_filter)
  then have dist: "distinct (map nocase (map dom_hostname al))"
    by (simp add: al_def distinct_map)
  have sorted: "sorted (map nocase (map dom_hostname al))"
    using sorted_sort_key [of "nocase \<circ> dom_hostname"] by (simp add: al_def)
  let ?base = "\<lparr>wsp_account = acc_id a, wsp_system_user = acc_system_user a, wsp_website = web_id w,
        wsp_document_root = web_document_root w, wsp_kind = web_kind w, wsp_web_driver = web_web_driver w,
        wsp_runtime_driver = web_runtime_driver w, wsp_runtime_version = web_runtime_version w,
        wsp_primary = [], wsp_aliases = []\<rparr>"
  have sp: "spec_domains ?ds ?base = ?base\<lparr>wsp_primary := dom_hostname d, wsp_aliases := map dom_hostname al\<rparr>"
    using hd by (auto simp: spec_domains_eq al)
  then have "website_spec w active s = Inr (spec_domains ?ds ?base, n)"
    using assms(3-5) d(5) by (simp add: website_spec_def)
  moreover have "set (map dom_hostname al) = {dom_hostname e | e. e \<in> set (domains s) \<and>
      dom_website e = web_id w \<and> dom_enabled e \<and> dom_kind e \<noteq> Primary}"
    by (auto simp: al_def)
  ultimately show ?thesis
    using d(1-3) dist sorted sp by auto
qed

theorem spec_names_enabled_domains_witness:
  "\<exists>sp d. website_spec sample_website True sample_site = Inr (sp, sample_node) \<and>
    d \<in> set (domains sample_site) \<and> wsp_primary sp = dom_hostname d"
  using spec_names_enabled_domains [OF sample_site_inv, of sample_website sample_account True sample_node]
  by (force simp: sample_site_def sample_hosting_def accounts_Get_def store_Account_def find_by_def
      sample_website_def sample_account_def sample_node_def account_ready_def store_Node_def)

text \<open>A rename settles.  The request reserves both names and queues one job.  When that job
  runs, success leaves the new name alone on the domain, active exactly when it is enabled;
  an error before the last attempt changes nothing, so the retry starts from the same state;
  an error on the last attempt restores the old name and marks the domain in error.\<close>

theorem rename_settles:
  assumes "websites_RenameDomain x i host u admin jid now s = Inr ((d, j), s')" "websites_inv s"
    and "find_by web_id (dom_website d) (websites s) = Some w"
    and "out = websites_ProvisionDomainRename ag later (j\<lparr>job_attempts := n\<rparr>) s'"
  shows "\<exists>old. find_by dom_id i (domains s) = Some old \<and> d = rename_row (dom_hostname d) now old \<and>
    jobs s' = jobs s @ [j] \<and>
    (case website_ensure ag w s' of
       None \<Rightarrow> fst out = None \<and> find_by dom_id i (domains (snd out)) = Some
         (old\<lparr>dom_hostname := dom_hostname d, dom_previous := [],
              dom_status := (if dom_enabled old then Active else Disabled), dom_updated := later\<rparr>)
     | Some e \<Rightarrow> fst out = Some (Wrapped ''rename website domain'' e) \<and>
         (if n < 2 then snd out = s'
          else find_by dom_id i (domains (snd out)) =
            Some (old\<lparr>dom_previous := [], dom_status := Errored, dom_updated := later\<rparr>)))"
proof -
  from assms(1) obtain w0 old h where "domain_of i u admin s = Inr (w0, old)"
    and st: "dom_status old \<noteq> Pending" and h: "validate_Domain x host = Inr h"
    and q: "store_QueueWebsiteDomainRename (dom_id old) h (new_job jid (web_node w0) u KindWebsiteDomainUpdate
       (rename_payload (dom_id old) (dom_hostname old) h) 2 now) now s = Inr ((d, j), s')"
    by (auto simp: websites_RenameDomain_def)
  then have old: "find_by dom_id i (domains s) = Some old" "dom_id old = i" "i \<noteq> []"
    using domain_table.find_mem [of i s old]
    by (auto simp: domain_of_def store_WebsiteDomain_def validate_ID_def idPattern_def)
  let ?sel = "\<lambda>r. dom_id r = i \<and> dom_status r \<noteq> Pending"
  let ?ds = "map (\<lambda>r. if ?sel r then rename_row h now r else r) (domains s)"
  have find: "List.find ?sel rs = Some old"
      "find_by dom_id i (map (\<lambda>r. if ?sel r then rename_row h now r else r) rs) = Some (rename_row h now old)"
    if "find_by dom_id i rs = Some old" for rs
    using that st by (induction rs) (auto simp: find_by_def rename_row_def split: if_splits)
  from q old(2) find(1) [OF old(1)] have d: "d = rename_row h now old"
    and j: "j = new_job_row (new_job jid (web_node w0) u KindWebsiteDomainUpdate (rename_payload i (dom_hostname old) h) 2 now)"
    and s': "s' = s\<lparr>domains := ?ds, jobs := jobs s @ [j]\<rparr>"
    by (auto simp: store_QueueWebsiteDomainRename_def Let_def dest!: createJob_Inr)
  have hn: "dom_hostname old \<noteq> []"
    using assms(2) old(1) domain_table.find_mem by (force simp: websites_inv_def domains_inv_def)
  have found: "find_by dom_id i (domains s') = Some d"
    using find(2) [OF old(1)] by (simp add: s' d)
  have upd: "find_by dom_id i (update_by dom_id i f (domains s')) = Some (f d)"
    if "\<And>r. dom_id (f r) = dom_id r" for f
    using domain_table.find_after_update [of i f i s'] found that by simp
  have inv': "websites_inv s'"
    using QueueRename_inv [OF q assms(2) validate_Domain_nonempty [OF h]] .
  have web: "store_Website (dom_website d) s' = Inr w"
    using assms(3) by (simp add: store_Website_def s')
  have out: "out = (case website_ensure ag w s' of
      Some e \<Rightarrow> (Some (Wrapped ''rename website domain'' e),
        if 2 \<le> n then (case store_FailWebsiteDomainRename i later s' of Inl _ \<Rightarrow> s' | Inr t \<Rightarrow> t) else s')
    | None \<Rightarrow> (None, store_CompleteWebsiteDomainRename i later s'))"
    using old(2,3) hn validate_Domain_nonempty [OF h] found web
    by (simp add: assms(4) websites_ProvisionDomainRename_def j new_job_row_def rename_payload_def
        store_WebsiteDomain_def d rename_row_def split: option.split)
  have jobs: "jobs s' = jobs s @ [j]"
    by (simp add: s')
  show ?thesis
    using old(1) jobs upd [of "fail_rename_row later"] upd [of "complete_rename_row later"] hn
    by (auto simp: out d rename_row_def FailRename_succeeds [OF inv'] fail_rename_row_def
        complete_rename_row_def store_CompleteWebsiteDomainRename_def split: option.split)
qed

lemma sample_hostname: "validate_Domain plain_ext ''new.pt'' = Inr ''new.pt''"
proof -
  have "ParseIP ''new.pt'' = None"
    by code_simp
  then show ?thesis
    by (simp add: validate_Domain_def Let_def ascii_eval TrimSuffix_def HasSuffix_def plain_ext_def
        domain_label_def runes_ascii domain_rune_def)
qed

lemma sample_rename:
  "\<exists>d j s'. websites_RenameDomain plain_ext (replicate 32 CHR ''d'') ''new.pt'' [] True ''j1'' 5 sample_site =
     Inr ((d, j), s') \<and> find_by web_id (dom_website d) (websites sample_site) = Some sample_website"
  by (simp add: websites_RenameDomain_def domain_of_def website_of_def sample_hostname store_WebsiteDomain_def
      store_Website_def accounts_Account_def store_Account_def find_by_def sample_site_def sample_hosting_def
      sample_domain_def sample_website_def sample_account_def validate_ID_def idPattern_def is_hex_lower_def
      is_digit_def bytes_between_def byte_def list_all_iff store_QueueWebsiteDomainRename_def
      ensureHostnameAvailable_def hostname_exists_def nocase_def lower_char_def createJob_def
      store_CreateJob_def exists_by_def empty_db_def new_job_def rename_row_def sample_node_def)

theorem rename_settles_witness:
  "\<exists>d j s'. websites_RenameDomain plain_ext (replicate 32 CHR ''d'') ''new.pt'' [] True ''j1'' 5 sample_site =
     Inr ((d, j), s') \<and> jobs s' = jobs sample_site @ [j]"
  using sample_rename rename_settles [OF _ sample_site_inv] by blast

text \<open>A job that enables a website whose account is not active fails without touching the
  website, which was set to pending when the job was queued; from then on every request to
  enable, disable or delete that website is refused as busy, although no job is left to end it.\<close>

theorem enable_refused_leaves_pending:
  assumes "find_by web_id i (websites s) = Some w" "web_status w = Pending" "i \<noteq> []"
    and "accounts_Get (web_account w) s = Inr a" "\<not> account_ready a"
    and "job_kind_of j = KindWebsiteEnable" "job_payload j = website_payload i"
  shows "websites_ProvisionWebsiteAction ag now j s = (Some AccErrBusy, s) \<and>
    \<not> succeeds (websites_SetWebsite i u admin en jid t s) \<and>
    \<not> succeeds (websites_DeleteWebsite i u admin jid t s)"
proof -
  have "websites_ProvisionWebsiteAction ag now j s = (Some AccErrBusy, s)"
    using assms by (simp add: websites_ProvisionWebsiteAction_def website_payload_def store_Website_def
        website_spec_def)
  moreover have "\<not> succeeds (websites_SetWebsite i u admin en jid t s)"
    using assms(1,2) by (auto simp: succeeds_iff websites_SetWebsite_def website_of_def store_Website_def)
  moreover have "\<not> succeeds (websites_DeleteWebsite i u admin jid t s)"
    using assms(1,2) by (auto simp: succeeds_iff websites_DeleteWebsite_def website_of_def store_Website_def)
  ultimately show ?thesis by blast
qed

theorem enable_refused_leaves_pending_witness:
  "\<not> succeeds (websites_DeleteWebsite (replicate 32 CHR ''b'') [] True ''j2'' 9
    (sample_site\<lparr>accounts := [sample_account\<lparr>acc_status := Disabled, acc_enabled := False\<rparr>],
       websites := [sample_website\<lparr>web_status := Pending\<rparr>]\<rparr>))"
  using enable_refused_leaves_pending [of "replicate 32 CHR ''b''"
      "sample_site\<lparr>accounts := [sample_account\<lparr>acc_status := Disabled, acc_enabled := False\<rparr>],
         websites := [sample_website\<lparr>web_status := Pending\<rparr>]\<rparr>"
      "sample_website\<lparr>web_status := Pending\<rparr>" "sample_account\<lparr>acc_status := Disabled, acc_enabled := False\<rparr>"
      "new_job ''j1'' ''n1'' [] KindWebsiteEnable (website_payload (replicate 32 CHR ''b'')) 2 0"]
  by (simp add: find_by_def sample_website_def sample_account_def accounts_Get_def store_Account_def
      account_ready_def)

section \<open>Contracts\<close>

lemma insert_jobs:
  "insert_website w s = Inr (w', s') \<Longrightarrow> jobs s' = jobs s"
  "insert_domain d s = Inr (d', s') \<Longrightarrow> jobs s' = jobs s"
  by (auto dest: insert_website_Inr insert_domain_Inr)

lemma CreateWebsiteProvision_queues:
  assumes "store_CreateWebsiteProvision w d j s = Inr ((v, j'), s')" "1 \<le> job_max j"
  shows "queues_one s j' s'"
  using assms by (auto simp: store_CreateWebsiteProvision_def dest!: insert_jobs intro: createJob_queues)

lemma website_stores_queue:
  "store_CreateWebsiteDomainProvision d j s = Inr ((v, j'), s') \<Longrightarrow> 1 \<le> job_max j \<Longrightarrow> queues_one s j' s'"
  "store_QueueWebsiteAction i en j now s = Inr ((w, j'), s') \<Longrightarrow> 1 \<le> job_max j \<Longrightarrow> queues_one s j' s'"
  "store_QueueWebsiteDomainAction i en j now s = Inr ((v, j'), s') \<Longrightarrow> 1 \<le> job_max j \<Longrightarrow> queues_one s j' s'"
  "store_QueueWebsiteDomainRename i h j now s = Inr ((v, j'), s') \<Longrightarrow> 1 \<le> job_max j \<Longrightarrow> queues_one s j' s'"
  by (auto simp: store_CreateWebsiteDomainProvision_def store_QueueWebsiteAction_def
      store_QueueWebsiteDomainAction_def store_QueueWebsiteDomainRename_def Let_def
      dest!: insert_jobs intro: createJob_queues)

interpretation website_create: queued_operation
  "\<lambda>(x, v, host, u, admin, wid, did, jid, now). websites_Create x v host u admin wid did jid now"
  by unfold_locales (auto simp: websites_Create_def dest!: CreateWebsiteProvision_queues)

interpretation website_create_domain: queued_operation
  "\<lambda>(x, wid, host, u, admin, did, jid, now). websites_CreateDomain x wid host u admin did jid now"
  by unfold_locales (auto simp: websites_CreateDomain_def dest!: website_stores_queue(1))

interpretation website_set: queued_operation
  "\<lambda>(i, u, admin, en, jid, now). websites_SetWebsite i u admin en jid now"
  by unfold_locales (auto simp: websites_SetWebsite_def dest!: website_stores_queue(2))

interpretation website_delete: queued_operation
  "\<lambda>(i, u, admin, jid, now). websites_DeleteWebsite i u admin jid now"
  by unfold_locales (auto simp: websites_DeleteWebsite_def dest!: website_stores_queue(2))

interpretation website_set_domain: queued_operation
  "\<lambda>(i, u, admin, en, jid, now). websites_SetDomain i u admin en jid now"
  by unfold_locales (auto simp: websites_SetDomain_def dest!: website_stores_queue(3))

interpretation website_delete_domain: queued_operation
  "\<lambda>(i, u, admin, jid, now). websites_DeleteDomain i u admin jid now"
  by unfold_locales (auto simp: websites_DeleteDomain_def dest!: website_stores_queue(3))

interpretation website_rename: queued_operation
  "\<lambda>(x, i, host, u, admin, jid, now). websites_RenameDomain x i host u admin jid now"
  by unfold_locales (auto simp: websites_RenameDomain_def dest!: website_stores_queue(4))

interpretation owned_website: owned_resource website_of websites web_id web_account
  by unfold_locales (auto simp: website_of_def store_Website_def dest: website_table.find_mem)

lemma insert_website_eq:
  "insert_website w s = Inr (w', s') \<Longrightarrow> w' = w\<lparr>web_status := Pending, web_enabled := True\<rparr> \<and>
    s' = s\<lparr>websites := websites s @ [w']\<rparr>"
  using insert_website_Inr by metis

lemma insert_domain_eq:
  "insert_domain d s = Inr (d', s') \<Longrightarrow>
    d' = d\<lparr>dom_status := Pending, dom_enabled := True, dom_previous := []\<rparr> \<and>
    s' = s\<lparr>domains := domains s @ [d']\<rparr>"
  using insert_domain_Inr by metis

text \<open>Quotas: the transactions of this component within the limits of the owner's package.\<close>

lemma insert_packages:
  "insert_website w s = Inr (w', s') \<Longrightarrow> packages s' = packages s \<and> account_packages s' = account_packages s"
  "insert_domain d s = Inr (d', s') \<Longrightarrow> packages s' = packages s \<and> account_packages s' = account_packages s"
  "createJob j s = Inr (j', s') \<Longrightarrow> packages s' = packages s \<and> account_packages s' = account_packages s"
  by (auto dest: insert_website_Inr insert_domain_Inr createJob_Inr)

interpretation website_quota: capped_create
  "\<lambda>(w, d, j). store_CreateWebsiteProvision w d j" Websites "\<lambda>(w, d, j) s. web_account w" "\<lambda>_. True"
  by unfold_locales
    (auto simp: store_CreateWebsiteProvision_def dest!: insert_website_eq insert_domain_eq createJob_Inr)

interpretation alias_quota: capped_create
  "\<lambda>(d, j). store_CreateWebsiteDomainProvision (d\<lparr>dom_kind := Alias\<rparr>) j" Aliases
  "\<lambda>(d, j) s. case find_by web_id (dom_website d) (websites s) of None \<Rightarrow> [] | Some w \<Rightarrow> web_account w" "\<lambda>_. True"
proof unfold_locales
  fix a :: "domain \<times> job" and s v s'
  obtain d j where a: "a = (d, j)" by (cases a)
  assume "(case a of (d, j) \<Rightarrow> store_CreateWebsiteDomainProvision (d\<lparr>dom_kind := Alias\<rparr>) j) s = Inr (v, s')"
  then obtain w d' s1 j' where w: "find_by web_id (dom_website d) (websites s) = Some w"
    and cap: "requireCapacity Aliases (web_account w) s = Inr ()"
    and d': "insert_domain (d\<lparr>dom_kind := Alias\<rparr>) s = Inr (d', s1)" and j: "createJob j s1 = Inr (j', s')"
    by (auto simp: a store_CreateWebsiteDomainProvision_def store_Website_def)
  let ?o = "\<lambda>(d, j :: job) s. case find_by web_id (dom_website d) (websites s) of None \<Rightarrow> [] | Some w \<Rightarrow> web_account w"
  have o: "?o a s = web_account w"
    using w by (simp add: a)
  show "requireCapacity Aliases (?o a s) s = Inr ()"
    using cap o by simp
  show "packages s' = packages s \<and> account_packages s' = account_packages s"
    using insert_packages(2) [OF d'] insert_packages(3) [OF j] by simp
  have s': "s' = s\<lparr>domains := domains s @ [d'], jobs := jobs s @ [j']\<rparr>" "dom_kind d' = Alias" "dom_website d' = dom_website d"
    using insert_domain_Inr(1,4) [OF d'] createJob_Inr [OF j] by auto
  have "list_ex (\<lambda>x. web_id x = dom_website d \<and> web_account x = web_account w) (websites s)"
    using website_table.find_mem [OF w] by (auto simp: list_ex_iff)
  then show "used_of Aliases (?o a s) s' = used_of Aliases (?o a s) s + 1"
    unfolding o by (simp add: s' domains_of_kind_def)
qed

end
