(* ===== verification/Databases.thy ===== *)
theory Databases
  imports Websites Passwords
begin

text \<open>
  Databases, database users and grants: \<open>internal/databases/service.go\<close>,
  \<open>store/sqlite/databases.go\<close>, and the agent's driver \<open>internal/agent/database/mysql\<close>, which
  builds the SQL text.  The driver hands an argument vector to \<open>run\<close>, a parameter; a driver
  function returns its error and the vectors it ran, in order.  A server-side name is
  \<open>wcp_<8 hex digits of the account>_<name>\<close>; the listings join \<open>account_members\<close>, so a row
  of an account without members is in no listing.
\<close>

interpretation database_table: table databases "\<lambda>rs s. s\<lparr>databases := rs\<rparr>" dba_id
  by unfold_locales auto

interpretation database_user_table: table database_users "\<lambda>rs s. s\<lparr>database_users := rs\<rparr>" dbu_id
  by unfold_locales auto

section \<open>Store operations\<close>

definition insert_database :: "database \<Rightarrow> db \<Rightarrow> err + (database \<times> db)" where
  "insert_database d s =
     (let row = d\<lparr>dba_status := Pending\<rparr> in
      if exists_by dba_id (dba_id d) (databases s) \<or> exists_by dba_system_name (dba_system_name d) (databases s) \<or>
        list_ex (\<lambda>r. dba_account r = dba_account d \<and> nocase (dba_name r) = nocase (dba_name d)) (databases s)
      then Inl UniqueViolation
      else if \<not> exists_by acc_id (dba_account d) (accounts s) \<or> \<not> exists_by nod_id (dba_node d) (nodes s)
      then Inl ForeignKeyViolation
      else Inr (row, s\<lparr>databases := databases s @ [row]\<rparr>))"

definition store_CreateDatabase :: "database \<Rightarrow> job \<Rightarrow> db \<Rightarrow> err + ((database \<times> job) \<times> db)" where
  "store_CreateDatabase d j s =
     andthen (requireCapacity Databases (dba_account d) s) (\<lambda>_.
     andthen (fail_when (list_ex (\<lambda>r. dba_account r = dba_account d \<and>
       nocase (dba_name r) = nocase (dba_name d)) (databases s)) DbErrNameExists) (\<lambda>_.
     andthen (insert_database d s) (\<lambda>(d', s1).
     andthen (createJob j s1) (\<lambda>(j', s2).
     Inr ((d', j'), s2)))))"

text \<open>\<open>JOIN account_members ... WHERE is_admin OR user_id = u GROUP BY id\<close>.\<close>

definition joined_member :: "ident \<Rightarrow> bool \<Rightarrow> db \<Rightarrow> ident \<Rightarrow> bool" where
  "joined_member u admin s a \<longleftrightarrow> list_ex (\<lambda>m. mem_account m = a \<and> (admin \<or> mem_user m = u)) (members s)"

definition store_Databases :: "ident \<Rightarrow> bool \<Rightarrow> db \<Rightarrow> database list" where
  "store_Databases u admin s =
     order_asc dba_created (filter (\<lambda>d. joined_member u admin s (dba_account d)) (databases s))"

definition store_DatabasePage :: "ident \<Rightarrow> bool \<Rightarrow> query \<Rightarrow> db \<Rightarrow> database result" where
  "store_DatabasePage u admin q s = store_page (store_Databases u admin s) q"

definition store_Database :: "ident \<Rightarrow> db \<Rightarrow> err + database" where
  "store_Database i s = some_or ErrNoRows (find_by dba_id i (databases s))"

definition database_status_row :: "status \<Rightarrow> msec \<Rightarrow> database \<Rightarrow> database" where
  "database_status_row st now d = d\<lparr>dba_status := st, dba_updated := now\<rparr>"

definition store_SetDatabaseStatus :: "ident \<Rightarrow> status \<Rightarrow> msec \<Rightarrow> db \<Rightarrow> db" where
  "store_SetDatabaseStatus i st now s =
     s\<lparr>databases := update_by dba_id i (database_status_row st now) (databases s)\<rparr>"

definition store_QueueDatabaseDelete ::
  "ident \<Rightarrow> job \<Rightarrow> msec \<Rightarrow> db \<Rightarrow> err + ((database \<times> job) \<times> db)" where
  "store_QueueDatabaseDelete i j now s =
     andthen (store_Database i s) (\<lambda>d.
     andthen (createJob j (store_SetDatabaseStatus i Pending now s)) (\<lambda>(j', s').
     Inr ((database_status_row Pending now d, j'), s')))"

definition store_DeleteDatabase :: "ident \<Rightarrow> db \<Rightarrow> db" where
  "store_DeleteDatabase i s =
     s\<lparr>databases := delete_by dba_id i (databases s), grants := delete_by gra_database i (grants s)\<rparr>"

definition insert_database_user :: "database_user \<Rightarrow> db \<Rightarrow> err + (database_user \<times> db)" where
  "insert_database_user d s =
     (let row = d\<lparr>dbu_status := Pending\<rparr> in
      if exists_by dbu_id (dbu_id d) (database_users s) \<or>
        exists_by dbu_system_name (dbu_system_name d) (database_users s) \<or>
        list_ex (\<lambda>r. dbu_account r = dbu_account d \<and> nocase (dbu_name r) = nocase (dbu_name d)) (database_users s)
      then Inl UniqueViolation
      else if \<not> exists_by acc_id (dbu_account d) (accounts s) \<or> \<not> exists_by nod_id (dbu_node d) (nodes s)
      then Inl ForeignKeyViolation
      else Inr (row, s\<lparr>database_users := database_users s @ [row]\<rparr>))"

definition store_CreateUser :: "database_user \<Rightarrow> job \<Rightarrow> db \<Rightarrow> err + ((database_user \<times> job) \<times> db)" where
  "store_CreateUser d j s =
     andthen (requireCapacity DatabaseUsers (dbu_account d) s) (\<lambda>_.
     andthen (fail_when (list_ex (\<lambda>r. dbu_account r = dbu_account d \<and>
       nocase (dbu_name r) = nocase (dbu_name d)) (database_users s)) DbErrNameExists) (\<lambda>_.
     andthen (insert_database_user d s) (\<lambda>(d', s1).
     andthen (createJob j s1) (\<lambda>(j', s2).
     Inr ((d', j'), s2)))))"

definition store_DatabaseUsers :: "ident \<Rightarrow> bool \<Rightarrow> db \<Rightarrow> database_user list" where
  "store_DatabaseUsers u admin s =
     order_asc dbu_created (filter (\<lambda>d. joined_member u admin s (dbu_account d)) (database_users s))"

definition store_DatabaseUserPage :: "ident \<Rightarrow> bool \<Rightarrow> query \<Rightarrow> db \<Rightarrow> database_user result" where
  "store_DatabaseUserPage u admin q s = store_page (store_DatabaseUsers u admin s) q"

definition store_DatabaseUser :: "ident \<Rightarrow> db \<Rightarrow> err + database_user" where
  "store_DatabaseUser i s = some_or ErrNoRows (find_by dbu_id i (database_users s))"

definition user_status_row :: "status \<Rightarrow> msec \<Rightarrow> database_user \<Rightarrow> database_user" where
  "user_status_row st now d = d\<lparr>dbu_status := st, dbu_updated := now\<rparr>"

definition store_SetUserStatus :: "ident \<Rightarrow> status \<Rightarrow> msec \<Rightarrow> db \<Rightarrow> db" where
  "store_SetUserStatus i st now s =
     s\<lparr>database_users := update_by dbu_id i (user_status_row st now) (database_users s)\<rparr>"

definition store_QueueUserDelete ::
  "ident \<Rightarrow> job \<Rightarrow> msec \<Rightarrow> db \<Rightarrow> err + ((database_user \<times> job) \<times> db)" where
  "store_QueueUserDelete i j now s =
     andthen (store_DatabaseUser i s) (\<lambda>d.
     andthen (createJob j (store_SetUserStatus i Pending now s)) (\<lambda>(j', s').
     Inr ((user_status_row Pending now d, j'), s')))"

definition store_DeleteUser :: "ident \<Rightarrow> db \<Rightarrow> db" where
  "store_DeleteUser i s =
     s\<lparr>database_users := delete_by dbu_id i (database_users s), grants := delete_by gra_user i (grants s)\<rparr>"

text \<open>Grants: the primary key is the pair of the database and the user.\<close>

definition grant_key :: "grant \<Rightarrow> ident \<times> ident" where
  "grant_key g = (gra_database g, gra_user g)"

definition grant_status_row :: "status \<Rightarrow> msec \<Rightarrow> grant \<Rightarrow> grant" where
  "grant_status_row st now g = g\<lparr>gra_status := st, gra_updated := now\<rparr>"

definition store_SetGrantStatus :: "ident \<Rightarrow> ident \<Rightarrow> status \<Rightarrow> msec \<Rightarrow> db \<Rightarrow> db" where
  "store_SetGrantStatus d u st now s =
     s\<lparr>grants := update_by grant_key (d, u) (grant_status_row st now) (grants s)\<rparr>"

definition upsert_grant :: "grant \<Rightarrow> db \<Rightarrow> err + (grant \<times> db)" where
  "upsert_grant g s =
     (case find_by grant_key (grant_key g) (grants s) of
        Some old \<Rightarrow> Inr (grant_status_row Pending (gra_updated g) old,
          store_SetGrantStatus (gra_database g) (gra_user g) Pending (gra_updated g) s)
      | None \<Rightarrow>
          if \<not> exists_by dba_id (gra_database g) (databases s) \<or> \<not> exists_by dbu_id (gra_user g) (database_users s)
          then Inl ForeignKeyViolation
          else Inr (g\<lparr>gra_status := Pending\<rparr>, s\<lparr>grants := grants s @ [g\<lparr>gra_status := Pending\<rparr>]\<rparr>))"

definition store_Grant :: "ident \<Rightarrow> ident \<Rightarrow> db \<Rightarrow> err + grant" where
  "store_Grant d u s = some_or ErrNoRows (find_by grant_key (d, u) (grants s))"

definition store_QueueGrant :: "grant \<Rightarrow> bool \<Rightarrow> job \<Rightarrow> msec \<Rightarrow> db \<Rightarrow> err + ((grant \<times> job) \<times> db)" where
  "store_QueueGrant g enabled j now s =
     andthen (if enabled then upsert_grant g s
       else andthen (store_Grant (gra_database g) (gra_user g) s) (\<lambda>old.
         Inr (grant_status_row Pending now old,
           store_SetGrantStatus (gra_database g) (gra_user g) Pending now s))) (\<lambda>(g', s1).
     andthen (createJob j s1) (\<lambda>(j', s2).
     Inr ((g', j'), s2)))"

definition store_Grants :: "ident \<Rightarrow> bool \<Rightarrow> db \<Rightarrow> grant list" where
  "store_Grants u admin s =
     order_asc gra_created (filter (\<lambda>g. list_ex (\<lambda>d. dba_id d = gra_database g \<and>
       joined_member u admin s (dba_account d)) (databases s)) (grants s))"

definition store_GrantPage :: "ident \<Rightarrow> bool \<Rightarrow> query \<Rightarrow> db \<Rightarrow> grant result" where
  "store_GrantPage u admin q s = store_page (store_Grants u admin s) q"

definition store_DeleteGrant :: "ident \<Rightarrow> ident \<Rightarrow> db \<Rightarrow> db" where
  "store_DeleteGrant d u s = s\<lparr>grants := delete_by grant_key (d, u) (grants s)\<rparr>"

section \<open>Service\<close>

definition databases_activeAccount :: "ident \<Rightarrow> ident \<Rightarrow> bool \<Rightarrow> db \<Rightarrow> err + account" where
  "databases_activeAccount i u admin s =
     andthen (accounts_Account i u admin s) (\<lambda>a.
     andthen (fail_when (acc_status a \<noteq> Active \<or> \<not> acc_enabled a) AccErrBusy) (\<lambda>_. Inr a))"

definition database_of :: "ident \<Rightarrow> ident \<Rightarrow> bool \<Rightarrow> db \<Rightarrow> err + database" where
  "database_of i u admin s =
     andthen (validate_ID ''databaseId'' i) (\<lambda>_.
     andthen (store_Database i s) (\<lambda>d.
     andthen (accounts_Account (dba_account d) u admin s) (\<lambda>_. Inr d)))"

definition database_user_of :: "ident \<Rightarrow> ident \<Rightarrow> bool \<Rightarrow> db \<Rightarrow> err + database_user" where
  "database_user_of i u admin s =
     andthen (validate_ID ''databaseUserId'' i) (\<lambda>_.
     andthen (store_DatabaseUser i s) (\<lambda>d.
     andthen (accounts_Account (dbu_account d) u admin s) (\<lambda>_. Inr d)))"

definition MySQL :: string where "MySQL = ''mysql''"

definition unsupported_driver :: err where
  "unsupported_driver = ValidationErr ''driver'' ''The selected database driver is not supported''"

definition system_name_of :: "ident \<Rightarrow> string \<Rightarrow> string" where
  "system_name_of a n = ''wcp_'' @ take 8 a @ ''_'' @ n"

definition databases_CreateDatabase ::
  "ext \<Rightarrow> ident \<Rightarrow> string \<Rightarrow> string \<Rightarrow> ident \<Rightarrow> bool \<Rightarrow> ident \<Rightarrow> ident \<Rightarrow> msec \<Rightarrow> db \<Rightarrow>
    err + ((database \<times> job) \<times> db)" where
  "databases_CreateDatabase x acc name driver u admin i jid now s =
     andthen (databases_activeAccount acc u admin s) (\<lambda>a.
     andthen (validate_DatabaseName x name) (\<lambda>n.
     andthen (fail_when (driver \<noteq> MySQL) unsupported_driver) (\<lambda>_.
     store_CreateDatabase
       \<lparr>dba_id = i, dba_account = acc_id a, dba_node = acc_node a, dba_name = n,
        dba_system_name = system_name_of (acc_id a) n, dba_driver = driver, dba_status = Pending,
        dba_created = now, dba_updated = now\<rparr>
       (new_job jid (acc_node a) u KindDatabaseCreate [(''databaseId'', JStr i)] 2 now) s)))"

definition databases_Databases :: "ident \<Rightarrow> bool \<Rightarrow> db \<Rightarrow> database list" where
  "databases_Databases u admin s = store_Databases u admin s"

definition databases_DeleteDatabase ::
  "ident \<Rightarrow> ident \<Rightarrow> bool \<Rightarrow> ident \<Rightarrow> msec \<Rightarrow> db \<Rightarrow> err + ((database \<times> job) \<times> db)" where
  "databases_DeleteDatabase i u admin jid now s =
     andthen (database_of i u admin s) (\<lambda>d.
     andthen (fail_when (dba_status d = Pending) DbErrBusy) (\<lambda>_.
     store_QueueDatabaseDelete i
       (new_job jid (dba_node d) u KindDatabaseDelete [(''databaseId'', JStr i)] 2 now) now s))"

text \<open>\<open>secret.Generate\<close>: base64url of the random bytes, the argument.\<close>

definition url_char :: "char \<Rightarrow> char" where
  "url_char c = (if c = CHR ''+'' then CHR ''-'' else if c = CHR ''/'' then CHR ''_'' else c)"

definition secret_Generate :: "string \<Rightarrow> string" where
  "secret_Generate bytes = map url_char (b64_encode bytes)"

text \<open>\<open>CreateUser\<close> returns the generated password with the user; the payload carries it too.\<close>

definition databases_CreateUser ::
  "ext \<Rightarrow> ident \<Rightarrow> string \<Rightarrow> string \<Rightarrow> ident \<Rightarrow> bool \<Rightarrow> ident \<Rightarrow> string \<Rightarrow> ident \<Rightarrow> msec \<Rightarrow> db \<Rightarrow>
    err + (((database_user \<times> string) \<times> job) \<times> db)" where
  "databases_CreateUser x acc name driver u admin i random jid now s =
     andthen (databases_activeAccount acc u admin s) (\<lambda>a.
     andthen (validate_DatabaseName x name) (\<lambda>n.
     andthen (fail_when (driver \<noteq> MySQL) unsupported_driver) (\<lambda>_.
     andthen (store_CreateUser
       \<lparr>dbu_id = i, dbu_account = acc_id a, dbu_node = acc_node a, dbu_name = n,
        dbu_system_name = system_name_of (acc_id a) n, dbu_driver = driver, dbu_status = Pending,
        dbu_created = now, dbu_updated = now\<rparr>
       (new_job jid (acc_node a) u KindDatabaseUserCreate
         [(''userId'', JStr i), (''password'', JStr (secret_Generate random))] 2 now) s) (\<lambda>((r, j), s').
     Inr (((r, secret_Generate random), j), s')))))"

definition databases_Users :: "ident \<Rightarrow> bool \<Rightarrow> db \<Rightarrow> database_user list" where
  "databases_Users u admin s = store_DatabaseUsers u admin s"

definition databases_DeleteUser ::
  "ident \<Rightarrow> ident \<Rightarrow> bool \<Rightarrow> ident \<Rightarrow> msec \<Rightarrow> db \<Rightarrow> err + ((database_user \<times> job) \<times> db)" where
  "databases_DeleteUser i u admin jid now s =
     andthen (database_user_of i u admin s) (\<lambda>d.
     andthen (fail_when (dbu_status d = Pending) DbErrBusy) (\<lambda>_.
     store_QueueUserDelete i
       (new_job jid (dbu_node d) u KindDatabaseUserDelete [(''userId'', JStr i)] 2 now) now s))"

definition databases_SetGrant ::
  "ident \<Rightarrow> ident \<Rightarrow> ident \<Rightarrow> bool \<Rightarrow> bool \<Rightarrow> ident \<Rightarrow> msec \<Rightarrow> db \<Rightarrow> err + ((grant \<times> job) \<times> db)" where
  "databases_SetGrant did uid u admin enabled jid now s =
     andthen (database_of did u admin s) (\<lambda>d.
     andthen (database_user_of uid u admin s) (\<lambda>v.
     andthen (fail_when (dba_account d \<noteq> dbu_account v) ErrCrossAccount) (\<lambda>_.
     andthen (fail_when (dba_driver d \<noteq> MySQL \<or> dbu_driver v \<noteq> MySQL) unsupported_driver) (\<lambda>_.
     andthen (fail_when (dba_status d \<noteq> Active \<or> dbu_status v \<noteq> Active) DbErrBusy) (\<lambda>_.
     store_QueueGrant
       \<lparr>gra_database = dba_id d, gra_user = dbu_id v, gra_status = Pending, gra_created = now, gra_updated = now\<rparr>
       enabled
       (new_job jid (dba_node d) u (if enabled then KindDatabaseGrantCreate else KindDatabaseGrantDelete)
         [(''databaseId'', JStr (dba_id d)), (''userId'', JStr (dbu_id v))] 2 now) now s)))))"

definition databases_Grants :: "ident \<Rightarrow> bool \<Rightarrow> db \<Rightarrow> grant list" where
  "databases_Grants u admin s = store_Grants u admin s"

section \<open>Job handler\<close>

record database_agent =
  agt_EnsureDatabase :: "string \<Rightarrow> string \<Rightarrow> err option"
  agt_DeleteDatabase :: "string \<Rightarrow> string \<Rightarrow> err option"
  agt_EnsureDatabaseUser :: "string \<Rightarrow> string \<Rightarrow> string \<Rightarrow> err option"
  agt_DeleteDatabaseUser :: "string \<Rightarrow> string \<Rightarrow> err option"
  agt_EnsureDatabaseGrant :: "string \<Rightarrow> string \<Rightarrow> string \<Rightarrow> err option"
  agt_DeleteDatabaseGrant :: "string \<Rightarrow> string \<Rightarrow> string \<Rightarrow> err option"

definition provision_database :: "database_agent \<Rightarrow> msec \<Rightarrow> bool \<Rightarrow> string \<Rightarrow> ident \<Rightarrow> db \<Rightarrow> err option \<times> db" where
  "provision_database ag now create endpoint i s =
     (case store_Database i s of
        Inl e \<Rightarrow> (Some e, s)
      | Inr d \<Rightarrow>
          if dba_driver d \<noteq> MySQL then (Some (Plain ''unsupported database driver''), s)
          else (case (if create then agt_EnsureDatabase ag endpoint (dba_system_name d)
              else agt_DeleteDatabase ag endpoint (dba_system_name d)) of
            Some e \<Rightarrow> (Some e, store_SetDatabaseStatus (dba_id d) Errored now s)
          | None \<Rightarrow> (None, if create then store_SetDatabaseStatus (dba_id d) Active now s
              else store_DeleteDatabase (dba_id d) s)))"

definition provision_user ::
  "database_agent \<Rightarrow> msec \<Rightarrow> bool \<Rightarrow> string \<Rightarrow> ident \<Rightarrow> string \<Rightarrow> db \<Rightarrow> err option \<times> db" where
  "provision_user ag now create endpoint i password s =
     (case store_DatabaseUser i s of
        Inl e \<Rightarrow> (Some e, s)
      | Inr v \<Rightarrow>
          if dbu_driver v \<noteq> MySQL then (Some (Plain ''unsupported database driver''), s)
          else (case (if create then agt_EnsureDatabaseUser ag endpoint (dbu_system_name v) password
              else agt_DeleteDatabaseUser ag endpoint (dbu_system_name v)) of
            Some e \<Rightarrow> (Some e, store_SetUserStatus (dbu_id v) Errored now s)
          | None \<Rightarrow> (None, if create then store_SetUserStatus (dbu_id v) Active now s
              else store_DeleteUser (dbu_id v) s)))"

definition provision_grant ::
  "database_agent \<Rightarrow> msec \<Rightarrow> bool \<Rightarrow> string \<Rightarrow> ident \<Rightarrow> ident \<Rightarrow> db \<Rightarrow> err option \<times> db" where
  "provision_grant ag now create endpoint i u s =
     (case store_Database i s of
        Inl e \<Rightarrow> (Some e, s)
      | Inr d \<Rightarrow>
          (case store_DatabaseUser u s of
            Inl e \<Rightarrow> (Some e, s)
          | Inr v \<Rightarrow>
              if dba_account d \<noteq> dbu_account v then (Some ErrCrossAccount, s)
              else (case (if create
                  then agt_EnsureDatabaseGrant ag endpoint (dba_system_name d) (dbu_system_name v)
                  else agt_DeleteDatabaseGrant ag endpoint (dba_system_name d) (dbu_system_name v)) of
                Some e \<Rightarrow> (Some e, store_SetGrantStatus (dba_id d) (dbu_id v) Errored now s)
              | None \<Rightarrow> (None, if create then store_SetGrantStatus (dba_id d) (dbu_id v) Active now s
                  else store_DeleteGrant (dba_id d) (dbu_id v) s))))"

definition databases_Provision :: "database_agent \<Rightarrow> msec \<Rightarrow> job \<Rightarrow> db \<Rightarrow> err option \<times> db" where
  "databases_Provision ag now j s =
     (case (payload_string ''databaseId'' (job_payload j), payload_string ''userId'' (job_payload j),
         payload_string ''password'' (job_payload j)) of
        (Some d, Some u, Some password) \<Rightarrow>
          (case store_Node (job_node j) s of
            Inl e \<Rightarrow> (Some (Wrapped ''get database node'' e), s)
          | Inr n \<Rightarrow>
              (case job_kind_of j of
                KindDatabaseCreate \<Rightarrow> provision_database ag now True (nod_endpoint n) d s
              | KindDatabaseDelete \<Rightarrow> provision_database ag now False (nod_endpoint n) d s
              | KindDatabaseUserCreate \<Rightarrow> provision_user ag now True (nod_endpoint n) u password s
              | KindDatabaseUserDelete \<Rightarrow> provision_user ag now False (nod_endpoint n) u password s
              | KindDatabaseGrantCreate \<Rightarrow> provision_grant ag now True (nod_endpoint n) d u s
              | KindDatabaseGrantDelete \<Rightarrow> provision_grant ag now False (nod_endpoint n) d u s
              | _ \<Rightarrow> (Some (Plain ''unsupported database job''), s)))
      | _ \<Rightarrow> (Some (Plain ''decode database job payload''), s))"

section \<open>The MySQL driver\<close>

type_synonym runner = "string list \<Rightarrow> err option"

definition mysqlPath :: string where "mysqlPath = ''/usr/bin/mysql''"

definition mysql_argv :: "string \<Rightarrow> string list" where
  "mysql_argv statement =
     [mysqlPath, ''--protocol=socket'', ''--batch'', ''--skip-column-names'', ''--execute'', statement]"

definition mysql_sql :: "runner \<Rightarrow> string \<Rightarrow> err option \<times> string list list" where
  "mysql_sql run statement =
     (map_option (Wrapped ''execute MySQL operation'') (run (mysql_argv statement)), [mysql_argv statement])"

definition passwordPattern :: "string \<Rightarrow> bool" where
  "passwordPattern s \<longleftrightarrow> 32 \<le> length s \<and> length s \<le> 128 \<and>
     list_all (\<lambda>c. bytes_between 65 90 c \<or> is_lower c \<or> is_digit c \<or> c = CHR ''_'' \<or> c = CHR ''-'') s"

abbreviation backtick :: char where "backtick \<equiv> CHR 0x60"
abbreviation quote :: char where "quote \<equiv> CHR 0x27"

definition at_localhost :: "string \<Rightarrow> string" where
  "at_localhost name = [quote] @ name @ [quote] @ ''@'' @ [quote] @ ''localhost'' @ [quote]"

definition in_backticks :: "string \<Rightarrow> string" where
  "in_backticks name = [backtick] @ name @ [backtick]"

definition mysql_EnsureDatabase :: "runner \<Rightarrow> string \<Rightarrow> err option \<times> string list list" where
  "mysql_EnsureDatabase run name =
     (case validate_DatabaseSystemName name of
        Inl e \<Rightarrow> (Some e, [])
      | Inr _ \<Rightarrow> mysql_sql run (''CREATE DATABASE IF NOT EXISTS '' @ in_backticks name @
          '' CHARACTER SET utf8mb4 COLLATE utf8mb4_unicode_ci''))"

definition mysql_DeleteDatabase :: "runner \<Rightarrow> string \<Rightarrow> err option \<times> string list list" where
  "mysql_DeleteDatabase run name =
     (case validate_DatabaseSystemName name of
        Inl e \<Rightarrow> (Some e, [])
      | Inr _ \<Rightarrow> mysql_sql run (''DROP DATABASE IF EXISTS '' @ in_backticks name))"

definition mysql_EnsureUser :: "runner \<Rightarrow> string \<Rightarrow> string \<Rightarrow> err option \<times> string list list" where
  "mysql_EnsureUser run name password =
     (case validate_DatabaseSystemName name of
        Inl e \<Rightarrow> (Some e, [])
      | Inr _ \<Rightarrow>
          if \<not> passwordPattern password
          then (Some (ValidationErr ''password'' ''Generated database password is invalid''), [])
          else (case mysql_sql run (''CREATE USER IF NOT EXISTS '' @ at_localhost name @
              '' IDENTIFIED BY '' @ [quote] @ password @ [quote]) of
            (Some e, cmds) \<Rightarrow> (Some e, cmds)
          | (None, cmds) \<Rightarrow>
              (case mysql_sql run (''ALTER USER '' @ at_localhost name @
                  '' IDENTIFIED BY '' @ [quote] @ password @ [quote]) of
                (e, cmds') \<Rightarrow> (e, cmds @ cmds'))))"

definition mysql_DeleteUser :: "runner \<Rightarrow> string \<Rightarrow> err option \<times> string list list" where
  "mysql_DeleteUser run name =
     (case validate_DatabaseSystemName name of
        Inl e \<Rightarrow> (Some e, [])
      | Inr _ \<Rightarrow> mysql_sql run (''DROP USER IF EXISTS '' @ at_localhost name))"

definition mysql_EnsureGrant :: "runner \<Rightarrow> string \<Rightarrow> string \<Rightarrow> err option \<times> string list list" where
  "mysql_EnsureGrant run database user =
     (case andthen (validate_DatabaseSystemName database) (\<lambda>_. validate_DatabaseSystemName user) of
        Inl e \<Rightarrow> (Some e, [])
      | Inr _ \<Rightarrow> mysql_sql run (''GRANT ALL PRIVILEGES ON '' @ in_backticks database @ ''.* TO '' @ at_localhost user))"

definition mysql_DeleteGrant :: "runner \<Rightarrow> string \<Rightarrow> string \<Rightarrow> err option \<times> string list list" where
  "mysql_DeleteGrant run database user =
     (case andthen (validate_DatabaseSystemName database) (\<lambda>_. validate_DatabaseSystemName user) of
        Inl e \<Rightarrow> (Some e, [])
      | Inr _ \<Rightarrow> mysql_sql run (''REVOKE IF EXISTS ALL PRIVILEGES ON '' @ in_backticks database @ ''.* FROM '' @
          at_localhost user @ '' IGNORE UNKNOWN USER''))"

text \<open>The agent's six database endpoints are the six driver operations.\<close>

definition mysql_agent :: "runner \<Rightarrow> database_agent" where
  "mysql_agent run = \<lparr>
     agt_EnsureDatabase = (\<lambda>_ n. fst (mysql_EnsureDatabase run n)),
     agt_DeleteDatabase = (\<lambda>_ n. fst (mysql_DeleteDatabase run n)),
     agt_EnsureDatabaseUser = (\<lambda>_ n p. fst (mysql_EnsureUser run n p)),
     agt_DeleteDatabaseUser = (\<lambda>_ n. fst (mysql_DeleteUser run n)),
     agt_EnsureDatabaseGrant = (\<lambda>_ d u. fst (mysql_EnsureGrant run d u)),
     agt_DeleteDatabaseGrant = (\<lambda>_ d u. fst (mysql_DeleteGrant run d u))\<rparr>"

section \<open>What the driver executes\<close>

text \<open>
  The lexical rule of MySQL that matters for injection: outside quotes every character is
  itself; a literal runs to its closing quote, a doubled quote stands for one, and a backslash
  escapes inside single quotes.  An unterminated literal is no statement.
\<close>

datatype sql_piece = Bare char | Quoted char string

fun sql_lex :: "(char \<times> string) option \<Rightarrow> string \<Rightarrow> sql_piece list option" where
  "sql_lex None [] = Some []"
| "sql_lex None (c # r) =
     (if c = quote \<or> c = backtick then sql_lex (Some (c, [])) r
      else map_option (Cons (Bare c)) (sql_lex None r))"
| "sql_lex (Some _) [] = None"
| "sql_lex (Some (q, acc)) [c] =
     (if c = q then Some [Quoted q acc] else None)"
| "sql_lex (Some (q, acc)) (c # d # r) =
     (if c = q then if d = q then sql_lex (Some (q, acc @ [q])) r
        else map_option (Cons (Quoted q acc)) (sql_lex None (d # r))
      else if c = CHR 0x5C \<and> q = quote then sql_lex (Some (q, acc @ [d])) r
      else sql_lex (Some (q, acc @ [c])) (d # r))"

definition sql_bare :: "sql_piece list \<Rightarrow> string" where
  "sql_bare ps = List.map_filter (\<lambda>p. case p of Bare c \<Rightarrow> Some c | Quoted _ _ \<Rightarrow> None) ps"

definition sql_literals :: "sql_piece list \<Rightarrow> (char \<times> string) list" where
  "sql_literals ps = List.map_filter (\<lambda>p. case p of Bare _ \<Rightarrow> None | Quoted q v \<Rightarrow> Some (q, v)) ps"

definition plain_literal :: "string \<Rightarrow> bool" where
  "plain_literal v \<longleftrightarrow> list_all (\<lambda>c. c \<noteq> quote \<and> c \<noteq> backtick \<and> c \<noteq> CHR 0x5C) v"

lemma sql_lex_literal:
  assumes "plain_literal v" "q = quote \<or> q = backtick" "r = [] \<or> hd r \<noteq> q"
  shows "sql_lex (Some (q, acc)) (v @ q # r) = map_option (Cons (Quoted q (acc @ v))) (sql_lex None r)"
  using assms(1)
proof (induction v arbitrary: acc)
  case Nil
  then show ?case using assms(2,3) by (cases r) auto
next
  case (Cons c v)
  have "sql_lex (Some (q, acc)) ((c # v) @ q # r) = sql_lex (Some (q, acc @ [c])) (v @ q # r)"
    using Cons.prems assms(2) by (cases "v @ q # r") (auto simp: plain_literal_def)
  with Cons show ?case by (simp add: plain_literal_def)
qed

lemma sql_lex_backticks:
  assumes "plain_literal v" "r = [] \<or> hd r \<noteq> backtick"
  shows "sql_lex None (in_backticks v @ r) = map_option (Cons (Quoted backtick v)) (sql_lex None r)"
  using sql_lex_literal [OF assms(1), of backtick r "[]"] assms(2) by (simp add: in_backticks_def)

lemma sql_lex_quotes:
  assumes "plain_literal v" "r = [] \<or> hd r \<noteq> quote"
  shows "sql_lex None (quote # v @ quote # r) = map_option (Cons (Quoted quote v)) (sql_lex None r)"
  using sql_lex_literal [OF assms(1), of quote r "[]"] assms(2) by simp

lemma sql_lex_localhost:
  assumes "plain_literal v" "r = [] \<or> hd r \<noteq> quote"
  shows "sql_lex None (at_localhost v @ r) =
    map_option (\<lambda>ps. Quoted quote v # Bare CHR ''@'' # Quoted quote ''localhost'' # ps) (sql_lex None r)"
proof -
  have "plain_literal ''localhost''"
    by (simp add: plain_literal_def)
  with sql_lex_quotes [OF this assms(2)]
  show ?thesis
    using sql_lex_quotes [OF assms(1), of "CHR ''@'' # quote # ''localhost'' @ quote # r"]
    by (simp add: at_localhost_def option.map_comp comp_def)
qed

lemmas sql_lex_names = sql_lex_backticks sql_lex_localhost sql_lex_quotes
  sql_lex_backticks [where r = "[]", simplified] sql_lex_localhost [where r = "[]", simplified]

lemma sql_safe_plain: "list_all sql_safe v \<Longrightarrow> plain_literal v"
  unfolding plain_literal_def
  by (erule list.pred_mono_strong) (auto simp: sql_safe_def is_lower_def is_digit_def bytes_between_def byte_def)

lemma valid_name_plain: "validate_DatabaseSystemName n = Inr () \<Longrightarrow> plain_literal n"
  by (intro sql_safe_plain databaseSystemNamePattern_safe) (simp add: validate_DatabaseSystemName_def)

lemma password_plain: "passwordPattern p \<Longrightarrow> plain_literal p"
  unfolding plain_literal_def passwordPattern_def
  by (elim conjE, erule list.pred_mono_strong)
    (auto simp: is_lower_def is_digit_def bytes_between_def byte_def)

datatype mysql_op = OpEnsureDatabase string | OpDeleteDatabase string | OpEnsureUser string string
  | OpDeleteUser string | OpEnsureGrant string string | OpDeleteGrant string string

definition mysql_exec :: "runner \<Rightarrow> mysql_op \<Rightarrow> err option \<times> string list list" where
  "mysql_exec run op =
     (case op of
        OpEnsureDatabase n \<Rightarrow> mysql_EnsureDatabase run n
      | OpDeleteDatabase n \<Rightarrow> mysql_DeleteDatabase run n
      | OpEnsureUser n p \<Rightarrow> mysql_EnsureUser run n p
      | OpDeleteUser n \<Rightarrow> mysql_DeleteUser run n
      | OpEnsureGrant d u \<Rightarrow> mysql_EnsureGrant run d u
      | OpDeleteGrant d u \<Rightarrow> mysql_DeleteGrant run d u)"

text \<open>The text outside the quotes, by operation, and the values inside them.\<close>

definition op_skeletons :: "mysql_op \<Rightarrow> string list" where
  "op_skeletons op =
     (case op of
        OpEnsureDatabase _ \<Rightarrow> [''CREATE DATABASE IF NOT EXISTS  CHARACTER SET utf8mb4 COLLATE utf8mb4_unicode_ci'']
      | OpDeleteDatabase _ \<Rightarrow> [''DROP DATABASE IF EXISTS '']
      | OpEnsureUser _ _ \<Rightarrow> [''CREATE USER IF NOT EXISTS @ IDENTIFIED BY '', ''ALTER USER @ IDENTIFIED BY '']
      | OpDeleteUser _ \<Rightarrow> [''DROP USER IF EXISTS @'']
      | OpEnsureGrant _ _ \<Rightarrow> [''GRANT ALL PRIVILEGES ON .* TO @'']
      | OpDeleteGrant _ _ \<Rightarrow> [''REVOKE IF EXISTS ALL PRIVILEGES ON .* FROM @ IGNORE UNKNOWN USER''])"

definition op_literals :: "mysql_op \<Rightarrow> (char \<times> string) list" where
  "op_literals op =
     (case op of
        OpEnsureDatabase n \<Rightarrow> [(backtick, n)]
      | OpDeleteDatabase n \<Rightarrow> [(backtick, n)]
      | OpEnsureUser n p \<Rightarrow> [(quote, n), (quote, ''localhost''), (quote, p)]
      | OpDeleteUser n \<Rightarrow> [(quote, n), (quote, ''localhost'')]
      | OpEnsureGrant d u \<Rightarrow> [(backtick, d), (quote, u), (quote, ''localhost'')]
      | OpDeleteGrant d u \<Rightarrow> [(backtick, d), (quote, u), (quote, ''localhost'')])"

definition reads_as :: "string \<Rightarrow> string \<Rightarrow> (char \<times> string) list \<Rightarrow> bool" where
  "reads_as stmt bare lits \<longleftrightarrow>
     (case sql_lex None stmt of None \<Rightarrow> False | Some ps \<Rightarrow> sql_bare ps = bare \<and> sql_literals ps = lits)"

lemmas sql_eval = reads_as_def sql_lex_names sql_bare_def sql_literals_def List.map_filter_simps

lemma ex_argv: "(\<exists>stmt. mysql_argv s = mysql_argv stmt \<and> P stmt) \<longleftrightarrow> P s"
  by (auto simp: mysql_argv_def)

lemma reads_databases:
  assumes "plain_literal n"
  shows "reads_as (''CREATE DATABASE IF NOT EXISTS '' @ in_backticks n @ '' CHARACTER SET utf8mb4 COLLATE utf8mb4_unicode_ci'')
      ''CREATE DATABASE IF NOT EXISTS  CHARACTER SET utf8mb4 COLLATE utf8mb4_unicode_ci'' [(backtick, n)]"
    "reads_as (''DROP DATABASE IF EXISTS '' @ in_backticks n) ''DROP DATABASE IF EXISTS '' [(backtick, n)]"
    "reads_as (''DROP USER IF EXISTS '' @ at_localhost n) ''DROP USER IF EXISTS @'' [(quote, n), (quote, ''localhost'')]"
  using assms by (simp_all add: sql_eval)

lemma reads_users:
  assumes "plain_literal n" "plain_literal p"
  shows "reads_as (''CREATE USER IF NOT EXISTS '' @ at_localhost n @ '' IDENTIFIED BY '' @ [quote] @ p @ [quote])
      ''CREATE USER IF NOT EXISTS @ IDENTIFIED BY '' [(quote, n), (quote, ''localhost''), (quote, p)]"
    "reads_as (''ALTER USER '' @ at_localhost n @ '' IDENTIFIED BY '' @ [quote] @ p @ [quote])
      ''ALTER USER @ IDENTIFIED BY '' [(quote, n), (quote, ''localhost''), (quote, p)]"
  using assms sql_lex_literal [OF assms(2), of quote "[]" "[]"] by (simp_all add: sql_eval)

lemma reads_grants:
  assumes "plain_literal d" "plain_literal u"
  shows "reads_as (''GRANT ALL PRIVILEGES ON '' @ in_backticks d @ ''.* TO '' @ at_localhost u)
      ''GRANT ALL PRIVILEGES ON .* TO @'' [(backtick, d), (quote, u), (quote, ''localhost'')]"
    "reads_as (''REVOKE IF EXISTS ALL PRIVILEGES ON '' @ in_backticks d @ ''.* FROM '' @ at_localhost u @ '' IGNORE UNKNOWN USER'')
      ''REVOKE IF EXISTS ALL PRIVILEGES ON .* FROM @ IGNORE UNKNOWN USER'' [(backtick, d), (quote, u), (quote, ''localhost'')]"
  using assms by (simp_all add: sql_eval)

text \<open>C29: no SQL injection.  Whatever names and passwords reach the driver, every command it runs
  is \<open>mysql\<close> with one statement whose text outside the quotes is the fixed text of that operation,
  and whose quoted literals are exactly the given names and password and \<open>localhost\<close>.\<close>

theorem statements_quote_their_arguments:
  assumes "cmd \<in> set (snd (mysql_exec run op))"
  shows "\<exists>stmt. cmd = mysql_argv stmt \<and> (\<exists>bare \<in> set (op_skeletons op). reads_as stmt bare (op_literals op))"
  using assms
  by (cases op)
    (auto simp: mysql_exec_def op_skeletons_def op_literals_def mysql_EnsureDatabase_def mysql_DeleteDatabase_def
      mysql_EnsureUser_def mysql_DeleteUser_def mysql_EnsureGrant_def mysql_DeleteGrant_def mysql_sql_def
      ex_argv valid_name_plain password_plain reads_databases reads_users reads_grants
      simp del: append.simps split: sum.splits if_splits option.splits)

theorem statements_quote_their_arguments_witness:
  "\<exists>stmt. mysql_argv (''DROP USER IF EXISTS '' @ at_localhost ''wcp_0123abcd_app'') = mysql_argv stmt \<and>
    (\<exists>bare \<in> set (op_skeletons (OpDeleteUser ''wcp_0123abcd_app'')).
      reads_as stmt bare (op_literals (OpDeleteUser ''wcp_0123abcd_app'')))"
proof -
  have "validate_DatabaseSystemName ''wcp_0123abcd_app'' = Inr ()"
    by code_simp
  then show ?thesis
    by (intro statements_quote_their_arguments [of _ "\<lambda>_. None"])
      (simp add: mysql_exec_def mysql_DeleteUser_def mysql_sql_def)
qed

section \<open>Invariant\<close>

definition settled_status :: "status \<Rightarrow> bool" where
  "settled_status st \<longleftrightarrow> st = Pending \<or> st = Active \<or> st = Errored"

definition databases_ok :: "database list \<Rightarrow> bool" where
  "databases_ok ds \<longleftrightarrow> distinct (map dba_id ds) \<and> distinct (map dba_system_name ds) \<and>
     (\<forall>d \<in> set ds. dba_system_name d = system_name_of (dba_account d) (dba_name d) \<and>
        databaseNamePattern (dba_name d) \<and> idPattern (dba_account d) \<and> dba_driver d = MySQL \<and>
        settled_status (dba_status d))"

definition database_users_ok :: "database_user list \<Rightarrow> bool" where
  "database_users_ok ds \<longleftrightarrow> distinct (map dbu_id ds) \<and> distinct (map dbu_system_name ds) \<and>
     (\<forall>d \<in> set ds. dbu_system_name d = system_name_of (dbu_account d) (dbu_name d) \<and>
        databaseNamePattern (dbu_name d) \<and> idPattern (dbu_account d) \<and> dbu_driver d = MySQL \<and>
        settled_status (dbu_status d))"

definition grants_ok :: "database list \<Rightarrow> database_user list \<Rightarrow> grant list \<Rightarrow> bool" where
  "grants_ok ds us gs \<longleftrightarrow> distinct (map grant_key gs) \<and>
     (\<forall>g \<in> set gs. settled_status (gra_status g) \<and>
        (\<exists>a. (gra_database g, a) \<in> (\<lambda>d. (dba_id d, dba_account d)) ` set ds \<and>
             (gra_user g, a) \<in> (\<lambda>u. (dbu_id u, dbu_account u)) ` set us))"

definition databases_inv :: "db \<Rightarrow> bool" where
  "databases_inv s \<longleftrightarrow> (\<forall>a \<in> set (accounts s). idPattern (acc_id a)) \<and>
     databases_ok (databases s) \<and> database_users_ok (database_users s) \<and>
     grants_ok (databases s) (database_users s) (grants s)"

inductive database_step :: "db \<Rightarrow> db \<Rightarrow> bool" where
  create_database: "databases_CreateDatabase x acc name driver u admin i jid now s = Inr (v, s') \<Longrightarrow> database_step s s'"
| delete_database: "databases_DeleteDatabase i u admin jid now s = Inr (v, s') \<Longrightarrow> database_step s s'"
| create_user: "databases_CreateUser x acc name driver u admin i random jid now s = Inr (w, s') \<Longrightarrow> database_step s s'"
| delete_user: "databases_DeleteUser i u admin jid now s = Inr (w', s') \<Longrightarrow> database_step s s'"
| set_grant: "databases_SetGrant i k u admin en jid now s = Inr (g, s') \<Longrightarrow> database_step s s'"
| provision: "databases_Provision ag now j s = (e, s') \<Longrightarrow> database_step s s'"

lemma status_rows [simp]:
  "dba_id (database_status_row st now d) = dba_id d" "dba_account (database_status_row st now d) = dba_account d"
  "dba_name (database_status_row st now d) = dba_name d" "dba_driver (database_status_row st now d) = dba_driver d"
  "dba_system_name (database_status_row st now d) = dba_system_name d"
  "dba_status (database_status_row st now d) = st"
  "dbu_id (user_status_row st now v) = dbu_id v" "dbu_account (user_status_row st now v) = dbu_account v"
  "dbu_name (user_status_row st now v) = dbu_name v" "dbu_driver (user_status_row st now v) = dbu_driver v"
  "dbu_system_name (user_status_row st now v) = dbu_system_name v"
  "dbu_status (user_status_row st now v) = st"
  "grant_key (grant_status_row st now g) = grant_key g" "gra_status (grant_status_row st now g) = st"
  "gra_database (grant_status_row st now g) = gra_database g" "gra_user (grant_status_row st now g) = gra_user g"
  by (simp_all add: database_status_row_def user_status_row_def grant_status_row_def grant_key_def)

lemma databases_ok_status:
  "databases_ok ds \<Longrightarrow> settled_status st \<Longrightarrow> databases_ok (update_by dba_id i (database_status_row st now) ds)"
  by (auto simp: databases_ok_def update_by_keys elim!: update_by_cases)

lemma database_users_ok_status:
  "database_users_ok us \<Longrightarrow> settled_status st \<Longrightarrow> database_users_ok (update_by dbu_id i (user_status_row st now) us)"
  by (auto simp: database_users_ok_def update_by_keys elim!: update_by_cases)

lemma owners_status [simp]:
  "(\<lambda>d. (dba_id d, dba_account d)) ` set (update_by dba_id i (database_status_row st now) ds) =
    (\<lambda>d. (dba_id d, dba_account d)) ` set ds"
  "(\<lambda>u. (dbu_id u, dbu_account u)) ` set (update_by dbu_id i (user_status_row st now) us) =
    (\<lambda>u. (dbu_id u, dbu_account u)) ` set us"
  by (rule update_by_key_set, simp)+

lemma grants_ok_status:
  "grants_ok ds us gs \<Longrightarrow> settled_status st \<Longrightarrow> grants_ok ds us (update_by grant_key k (grant_status_row st now) gs)"
  by (auto simp: grants_ok_def update_by_keys elim!: update_by_cases)

lemma grants_ok_mono:
  "grants_ok ds us gs \<Longrightarrow> set ds \<subseteq> set ds' \<Longrightarrow> set us \<subseteq> set us' \<Longrightarrow> grants_ok ds' us' gs"
  unfolding grants_ok_def by (meson image_mono subsetD)

lemma databases_inv_status:
  assumes "databases_inv s" "settled_status st"
  shows "databases_inv (store_SetDatabaseStatus i st now s)" "databases_inv (store_SetUserStatus i st now s)"
    "databases_inv (store_SetGrantStatus i k st now s)"
  using assms
  by (auto simp: databases_inv_def store_SetDatabaseStatus_def store_SetUserStatus_def store_SetGrantStatus_def
      databases_ok_status database_users_ok_status grants_ok_status)
    (simp_all add: grants_ok_def)

lemma databases_inv_delete:
  assumes "databases_inv s"
  shows "databases_inv (store_DeleteDatabase i s)" "databases_inv (store_DeleteUser i s)"
    "databases_inv (store_DeleteGrant i k s)"
  using assms
  by (auto simp: databases_inv_def store_DeleteDatabase_def store_DeleteUser_def store_DeleteGrant_def
      databases_ok_def database_users_ok_def grants_ok_def delete_by_def distinct_map_filter_key image_iff)
    (fastforce+)?

lemma insert_database_Inr:
  "insert_database d s = Inr (d', s') \<Longrightarrow> d' = d\<lparr>dba_status := Pending\<rparr> \<and>
    s' = s\<lparr>databases := databases s @ [d']\<rparr> \<and> dba_id d \<notin> dba_id ` set (databases s) \<and>
    dba_system_name d \<notin> dba_system_name ` set (databases s)"
  by (auto simp: insert_database_def Let_def exists_by_iff split: if_splits)

lemma insert_database_user_Inr:
  "insert_database_user d s = Inr (d', s') \<Longrightarrow> d' = d\<lparr>dbu_status := Pending\<rparr> \<and>
    s' = s\<lparr>database_users := database_users s @ [d']\<rparr> \<and> dbu_id d \<notin> dbu_id ` set (database_users s) \<and>
    dbu_system_name d \<notin> dbu_system_name ` set (database_users s)"
  by (auto simp: insert_database_user_def Let_def exists_by_iff split: if_splits)

lemma databases_inv_jobs [simp]: "databases_inv (s\<lparr>jobs := js\<rparr>) = databases_inv s"
  by (simp add: databases_inv_def)

lemma activeAccount_Inr:
  "databases_activeAccount i u admin s = Inr a \<Longrightarrow>
    a \<in> set (accounts s) \<and> acc_id a = i \<and> acc_status a = Active \<and> acc_enabled a"
  by (auto simp: databases_activeAccount_def accounts_Account_Inr dest: account_table.find_mem)

lemma databases_inv_create_database:
  assumes "databases_inv s" "databases_CreateDatabase x acc name driver u admin i jid now s = Inr ((d, j), s')"
  shows "databases_inv s'"
proof -
  from assms(2) obtain a n where a: "databases_activeAccount acc u admin s = Inr a"
    "databaseNamePattern n" and
    d: "s' = s\<lparr>databases := databases s @ [d], jobs := jobs s @ [j]\<rparr>" "dba_status d = Pending" "dba_name d = n"
    "dba_account d = acc_id a" "dba_driver d = MySQL" "dba_system_name d = system_name_of (acc_id a) n"
    "dba_id d \<notin> dba_id ` set (databases s)" "dba_system_name d \<notin> dba_system_name ` set (databases s)"
    by (auto simp: databases_CreateDatabase_def store_CreateDatabase_def
        dest!: insert_database_Inr createJob_Inr validate_DatabaseName_shape)
  have "databases_ok (databases s @ [d])"
    using assms(1) activeAccount_Inr [OF a(1)] a(2) d
    by (auto simp: databases_inv_def databases_ok_def settled_status_def)
  then show ?thesis
    using assms(1) d(1) grants_ok_mono [of "databases s" "database_users s" "grants s" "databases s @ [d]" "database_users s"]
    by (auto simp: databases_inv_def)
qed

lemma databases_inv_create_user:
  assumes "databases_inv s"
    "databases_CreateUser x acc name driver u admin i random jid now s = Inr (((d, pw), j), s')"
  shows "databases_inv s'"
proof -
  from assms(2) obtain a n where a: "databases_activeAccount acc u admin s = Inr a"
    "databaseNamePattern n" and
    d: "s' = s\<lparr>database_users := database_users s @ [d], jobs := jobs s @ [j]\<rparr>" "dbu_status d = Pending"
    "dbu_name d = n" "dbu_account d = acc_id a" "dbu_driver d = MySQL"
    "dbu_system_name d = system_name_of (acc_id a) n" "dbu_id d \<notin> dbu_id ` set (database_users s)"
    "dbu_system_name d \<notin> dbu_system_name ` set (database_users s)"
    by (auto simp: databases_CreateUser_def store_CreateUser_def
        dest!: insert_database_user_Inr createJob_Inr validate_DatabaseName_shape)
  have "database_users_ok (database_users s @ [d])"
    using assms(1) activeAccount_Inr [OF a(1)] a(2) d
    by (auto simp: databases_inv_def database_users_ok_def settled_status_def)
  then show ?thesis
    using assms(1) d(1) grants_ok_mono [of "databases s" "database_users s" "grants s" "databases s" "database_users s @ [d]"]
    by (auto simp: databases_inv_def)
qed

lemma databases_inv_set_grant:
  assumes "databases_inv s" "databases_SetGrant did uid u admin en jid now s = Inr ((g, j), s')"
  shows "databases_inv s'"
proof -
  from assms(2) obtain d v where dv: "d \<in> set (databases s)" "v \<in> set (database_users s)"
    "dba_account d = dbu_account v" and q: "store_QueueGrant
       \<lparr>gra_database = dba_id d, gra_user = dbu_id v, gra_status = Pending, gra_created = now, gra_updated = now\<rparr> en
       (new_job jid (dba_node d) u (if en then KindDatabaseGrantCreate else KindDatabaseGrantDelete)
         [(''databaseId'', JStr (dba_id d)), (''userId'', JStr (dbu_id v))] 2 now) now s = Inr ((g, j), s')"
    by (auto simp: databases_SetGrant_def database_of_def database_user_of_def store_Database_def
        store_DatabaseUser_def dest: database_table.find_mem database_user_table.find_mem)
  have pair: "(dba_id d, dbu_account v) \<in> (\<lambda>d. (dba_id d, dba_account d)) ` set (databases s)"
    "(dbu_id v, dbu_account v) \<in> (\<lambda>u. (dbu_id u, dbu_account u)) ` set (database_users s)"
    using dv by (auto simp: image_iff)
  have new: "databases_inv (s\<lparr>grants := grants s @ [g']\<rparr>)"
    if "gra_status g' = Pending" "gra_database g' = dba_id d" "gra_user g' = dbu_id v"
      "find_by grant_key (dba_id d, dbu_id v) (grants s) = None" for g'
    using assms(1) that pair
    by (auto simp: databases_inv_def grants_ok_def settled_status_def find_by_def find_None_iff grant_key_def)
  show ?thesis
    using q new databases_inv_status(3) [OF assms(1), of Pending]
    by (auto simp: store_QueueGrant_def upsert_grant_def grant_key_def settled_status_def dest!: createJob_Inr
        split: if_splits option.splits)
qed

lemma databases_inv_provision:
  assumes "databases_inv s" "databases_Provision ag now j s = (e, s')"
  shows "databases_inv s'"
proof -
  have "databases_inv (snd (provision_database ag now c ep i s))"
    "databases_inv (snd (provision_user ag now c ep i pw s))"
    "databases_inv (snd (provision_grant ag now c ep i k s))" for c ep i k pw
    using assms(1)
    by (simp_all add: provision_database_def provision_user_def provision_grant_def databases_inv_status
        databases_inv_delete settled_status_def split: sum.split option.split)
  then have "databases_inv (snd (databases_Provision ag now j s))"
    using assms(1) by (simp add: databases_Provision_def split: sum.split option.split job_kind.split)
  then show ?thesis using assms(2) by simp
qed

text \<open>C30: tenants' databases stay apart.  From a state where it holds, every operation and every run
  of the job handler keeps: names on the server are unique and spell out the owning account and a
  valid name, no value but \<open>mysql\<close> is stored as driver, and each grant joins a database and a user
  that exist and belong to the same account.  The restore of a backup's metadata, which writes
  databases by statements of its own, is not among these operations.\<close>

theorem databases_stay_apart:
  assumes "database_step s s'" "databases_inv s"
  shows "databases_inv s'"
  using assms
proof (cases rule: database_step.cases)
  case (delete_database i u admin jid now v)
  then show ?thesis
    using databases_inv_status(1) [OF assms(2), of Pending]
    by (cases v) (auto simp: databases_DeleteDatabase_def store_QueueDatabaseDelete_def settled_status_def dest!: createJob_Inr)
next
  case (delete_user i u admin jid now w')
  then show ?thesis
    using databases_inv_status(2) [OF assms(2), of Pending]
    by (cases w') (auto simp: databases_DeleteUser_def store_QueueUserDelete_def settled_status_def dest!: createJob_Inr)
qed (auto intro: databases_inv_create_database databases_inv_create_user databases_inv_set_grant databases_inv_provision)

definition sample_tenant :: db where
  "sample_tenant = sample_hosting\<lparr>accounts := [sample_account\<lparr>acc_id := replicate 32 CHR ''a''\<rparr>],
     account_packages := [\<lparr>apk_account = replicate 32 CHR ''a'', apk_package = default_package_id,
       apk_created = 0, apk_updated = 0\<rparr>]\<rparr>"

lemmas sample_tenant_eval = sample_tenant_def sample_hosting_def sample_account_def sample_node_def
  empty_db_def

lemma databases_inv_tenant: "databases_inv sample_tenant"
  by (simp add: databases_inv_def sample_tenant_eval databases_ok_def database_users_ok_def grants_ok_def
      idPattern_def list_all_iff is_hex_lower_def is_digit_def bytes_between_def byte_def)

definition sample_user :: database_user where
  "sample_user = \<lparr>dbu_id = ''u1'', dbu_account = replicate 32 CHR ''a'', dbu_node = ''n1'', dbu_name = ''app'',
     dbu_system_name = ''wcp_'' @ replicate 8 CHR ''a'' @ ''_app'', dbu_driver = MySQL, dbu_status = Pending,
     dbu_created = 5, dbu_updated = 5\<rparr>"

definition sample_user_job :: "string \<Rightarrow> job" where
  "sample_user_job random = new_job ''j1'' ''n1'' [] KindDatabaseUserCreate
     [(''userId'', JStr ''u1''), (''password'', JStr (secret_Generate random))] 2 5"

lemma sample_create_user:
  "databases_CreateUser plain_ext (replicate 32 CHR ''a'') ''App'' ''mysql'' [] True ''u1'' random ''j1'' 5 sample_tenant =
    Inr (((sample_user, secret_Generate random), sample_user_job random),
      sample_tenant\<lparr>database_users := [sample_user], jobs := [sample_user_job random]\<rparr>)"
proof -
  have c: "char_of (97 :: nat) = CHR ''a''"
    by (simp add: char_of_def bit_Suc_0_iff)
  have "validate_DatabaseName plain_ext ''App'' = Inr ''app''"
    by (simp add: validate_DatabaseName_def ascii_eval plain_ext_def databaseNamePattern_def c)
  then show ?thesis
    by (simp add: databases_CreateUser_def databases_activeAccount_def accounts_Account_def store_Account_def
        find_by_def MySQL_def store_CreateUser_def requireCapacity_def account_package_limits_def count_by_def
        insert_database_user_def exists_by_def createJob_def store_CreateJob_def new_job_row_def new_job_def
        system_name_of_def sample_tenant_eval sample_user_def sample_user_job_def default_limits_def Let_def)
qed

theorem databases_stay_apart_witness:
  "databases_inv (sample_tenant\<lparr>database_users := [sample_user], jobs := [sample_user_job []]\<rparr>)"
  by (rule databases_stay_apart [OF database_step.create_user [OF sample_create_user] databases_inv_tenant])

section \<open>The panel and the driver agree\<close>

lemma b64_char_url:
  "n < 64 \<Longrightarrow> (\<lambda>c. bytes_between 65 90 c \<or> is_lower c \<or> is_digit c \<or> c = CHR ''_'' \<or> c = CHR ''-'')
    (url_char (b64_char n))"
  by (auto simp: b64_char_def url_char_def bytes_between_def is_lower_def is_digit_def byte_def)

lemma secret_pattern:
  assumes "length bytes = 24"
  shows "passwordPattern (secret_Generate bytes)"
proof -
  have "list_all (\<lambda>c. bytes_between 65 90 c \<or> is_lower c \<or> is_digit c \<or> c = CHR ''_'' \<or> c = CHR ''-'')
      (secret_Generate bytes)"
    unfolding secret_Generate_def
    by (induction bytes rule: b64_encode.induct) (simp_all add: b64_char_url)
  then show ?thesis
    by (simp add: passwordPattern_def secret_Generate_def length_b64_encode assms)
qed

lemma system_name_agrees:
  assumes "idPattern a" "databaseNamePattern n"
  shows "validate_DatabaseSystemName (system_name_of a n) = Inr ()"
  using systemName_of_id [OF assms] by (simp add: system_name_of_def)

lemma EnsureUser_None:
  assumes "validate_DatabaseSystemName n = Inr ()" "passwordPattern p"
  shows "fst (mysql_EnsureUser run n p) = None \<longleftrightarrow>
    run (mysql_argv (''CREATE USER IF NOT EXISTS '' @ at_localhost n @ '' IDENTIFIED BY '' @ [quote] @ p @ [quote])) = None \<and>
    run (mysql_argv (''ALTER USER '' @ at_localhost n @ '' IDENTIFIED BY '' @ [quote] @ p @ [quote])) = None"
  using assms by (auto simp: mysql_EnsureUser_def mysql_sql_def simp del: append.simps split: option.split)

lemma find_status_user:
  "find_by dbu_id i (database_users s) = Some v \<Longrightarrow>
    find_by dbu_id i (database_users (store_SetUserStatus i st now s)) = Some (user_status_row st now v)"
  using database_user_table.find_after_update [of i "user_status_row st now" i s]
  by (simp add: store_SetUserStatus_def)

lemma CreateUser_created:
  assumes "databases_CreateUser x acc name driver u admin i random jid now s = Inr (((v, pw), j), s')"
  shows "pw = secret_Generate random" "dbu_driver v = MySQL" "dbu_id v = i"
    "job_kind_of j = KindDatabaseUserCreate" "job_payload j = [(''userId'', JStr i), (''password'', JStr pw)]"
    "job_node j = dbu_node v" "nodes s' = nodes s" "jobs s' = jobs s @ [j]"
    "find_by dbu_id i (database_users s') = Some v" "dbu_node v \<in> nod_id ` set (nodes s)"
    "dbu_system_name v = system_name_of acc (dbu_name v)" "databaseNamePattern (dbu_name v)"
proof -
  from assms obtain a n s1 j0 where a: "databases_activeAccount acc u admin s = Inr a"
    "validate_DatabaseName x name = Inr n" "driver = MySQL" and
    ins: "insert_database_user \<lparr>dbu_id = i, dbu_account = acc_id a, dbu_node = acc_node a, dbu_name = n,
        dbu_system_name = system_name_of (acc_id a) n, dbu_driver = driver, dbu_status = Pending,
        dbu_created = now, dbu_updated = now\<rparr> s = Inr (v, s1)" and
    j0: "createJob j0 s1 = Inr (j, s')" "pw = secret_Generate random" and
    new: "j0 = new_job jid (acc_node a) u KindDatabaseUserCreate
         [(''userId'', JStr i), (''password'', JStr (secret_Generate random))] 2 now"
    by (auto simp: databases_CreateUser_def store_CreateUser_def)
  from ins have "acc_node a \<in> nod_id ` set (nodes s)"
    by (auto simp: insert_database_user_def Let_def exists_by_iff split: if_splits)
  moreover have "find_by dbu_id i (database_users s @ [v]) = Some v"
    using insert_database_user_Inr [OF ins] database_user_table.find_after_insert [of v s i]
    by (simp add: exists_by_iff)
  moreover have "j = new_job_row j0"
    using createJob_Inr [OF j0(1)] by simp
  ultimately show "pw = secret_Generate random" "dbu_driver v = MySQL" "dbu_id v = i"
    "job_kind_of j = KindDatabaseUserCreate" "job_payload j = [(''userId'', JStr i), (''password'', JStr pw)]"
    "job_node j = dbu_node v" "nodes s' = nodes s" "jobs s' = jobs s @ [j]"
    "find_by dbu_id i (database_users s') = Some v" "dbu_node v \<in> nod_id ` set (nodes s)"
    "dbu_system_name v = system_name_of acc (dbu_name v)" "databaseNamePattern (dbu_name v)"
    using insert_database_user_Inr [OF ins] createJob_Inr [OF j0(1)] a j0(2) new
      activeAccount_Inr [OF a(1)] validate_DatabaseName_shape [OF a(2)]
    by (simp_all add: new_job_row_def new_job_def)
qed

text \<open>A created database user can log in with the password the panel returned.  The name the
  panel composes and the password it generates pass the driver's checks, so the job's outcome is
  MySQL's alone: the user becomes active exactly when MySQL accepts the statement that creates
  the account and the one that sets this very password; otherwise it is in error.\<close>

theorem created_user_gets_password:
  assumes "databases_CreateUser x acc name driver u admin i random jid now s = Inr (((v, pw), j), s')"
    and "databases_inv s" "length random = 24"
  shows "(fst (databases_Provision (mysql_agent run) later j s') = None \<longleftrightarrow>
      run (mysql_argv (''CREATE USER IF NOT EXISTS '' @ at_localhost (dbu_system_name v) @
        '' IDENTIFIED BY '' @ [quote] @ pw @ [quote])) = None \<and>
      run (mysql_argv (''ALTER USER '' @ at_localhost (dbu_system_name v) @
        '' IDENTIFIED BY '' @ [quote] @ pw @ [quote])) = None) \<and>
    find_by dbu_id i (database_users (snd (databases_Provision (mysql_agent run) later j s'))) =
      Some (user_status_row
        (if fst (databases_Provision (mysql_agent run) later j s') = None then Active else Errored) later v)"
proof -
  note c = CreateUser_created [OF assms(1)]
  obtain a where "databases_activeAccount acc u admin s = Inr a"
    using assms(1) by (auto simp: databases_CreateUser_def)
  from activeAccount_Inr [OF this] have "idPattern acc"
    using assms(2) by (auto simp: databases_inv_def)
  then have name: "validate_DatabaseSystemName (dbu_system_name v) = Inr ()"
    using c by (simp add: system_name_agrees)
  obtain n where n: "find_by nod_id (dbu_node v) (nodes s) = Some n"
    using c(10) node_table.find_None [of "dbu_node v" s] by auto
  have run: "databases_Provision (mysql_agent run) later j s' =
      provision_user (mysql_agent run) later True (nod_endpoint n) i pw s'"
    using c n by (simp add: databases_Provision_def store_Node_def)
  have pw: "passwordPattern pw"
    using c(1) secret_pattern [OF assms(3)] by simp
  have out: "databases_Provision (mysql_agent run) later j s' =
      (case fst (mysql_EnsureUser run (dbu_system_name v) pw) of
        Some e \<Rightarrow> (Some e, store_SetUserStatus i Errored later s')
      | None \<Rightarrow> (None, store_SetUserStatus i Active later s'))"
    unfolding run using c by (simp add: provision_user_def store_DatabaseUser_def mysql_agent_def split: option.split)
  show ?thesis
    using find_status_user [OF c(9)] EnsureUser_None [OF name pw, of run] unfolding out
    by (auto simp del: append.simps split: option.split)
qed

theorem created_user_gets_password_witness:
  "find_by dbu_id ''u1'' (database_users (snd (databases_Provision (mysql_agent (\<lambda>_. None)) 9
      (sample_user_job (replicate 24 CHR ''x''))
      (sample_tenant\<lparr>database_users := [sample_user], jobs := [sample_user_job (replicate 24 CHR ''x'')]\<rparr>)))) =
    Some (user_status_row Active 9 sample_user)"
  using created_user_gets_password [OF sample_create_user databases_inv_tenant length_replicate, of "\<lambda>_. None" 9]
  by (simp del: replicate.simps)

section \<open>Contracts\<close>

lemma database_stores_queue:
  "store_CreateDatabase d j s = Inr ((v, j'), s') \<Longrightarrow> 1 \<le> job_max j \<Longrightarrow> queues_one s j' s'"
  "store_CreateUser w j s = Inr ((w', j'), s') \<Longrightarrow> 1 \<le> job_max j \<Longrightarrow> queues_one s j' s'"
  "store_QueueDatabaseDelete i j now s = Inr ((v, j'), s') \<Longrightarrow> 1 \<le> job_max j \<Longrightarrow> queues_one s j' s'"
  "store_QueueUserDelete i j now s = Inr ((w', j'), s') \<Longrightarrow> 1 \<le> job_max j \<Longrightarrow> queues_one s j' s'"
  "store_QueueGrant g en j now s = Inr ((g', j'), s') \<Longrightarrow> 1 \<le> job_max j \<Longrightarrow> queues_one s j' s'"
  by (auto simp: store_CreateDatabase_def store_CreateUser_def store_QueueDatabaseDelete_def
      store_QueueUserDelete_def store_QueueGrant_def store_SetDatabaseStatus_def store_SetUserStatus_def
      store_SetGrantStatus_def upsert_grant_def intro: createJob_queues
      dest!: insert_database_Inr insert_database_user_Inr split: if_splits option.splits)

interpretation database_create: queued_operation
  "\<lambda>(x, acc, name, driver, u, admin, i, jid, now). databases_CreateDatabase x acc name driver u admin i jid now"
  by unfold_locales (auto simp: databases_CreateDatabase_def dest!: database_stores_queue(1))

interpretation database_delete: queued_operation
  "\<lambda>(i, u, admin, jid, now). databases_DeleteDatabase i u admin jid now"
  by unfold_locales (auto simp: databases_DeleteDatabase_def dest!: database_stores_queue(3))

interpretation database_user_create: queued_operation
  "\<lambda>(x, acc, name, driver, u, admin, i, random, jid, now). databases_CreateUser x acc name driver u admin i random jid now"
  by unfold_locales (auto simp: databases_CreateUser_def dest!: database_stores_queue(2))

interpretation database_user_delete: queued_operation
  "\<lambda>(i, u, admin, jid, now). databases_DeleteUser i u admin jid now"
  by unfold_locales (auto simp: databases_DeleteUser_def dest!: database_stores_queue(4))

interpretation grant_set: queued_operation
  "\<lambda>(d, k, u, admin, en, jid, now). databases_SetGrant d k u admin en jid now"
  by unfold_locales (auto simp: databases_SetGrant_def dest!: database_stores_queue(5))

interpretation owned_database: owned_resource database_of databases dba_id dba_account
  by unfold_locales (auto simp: database_of_def store_Database_def dest: database_table.find_mem)

interpretation owned_database_user: owned_resource database_user_of database_users dbu_id dbu_account
  by unfold_locales (auto simp: database_user_of_def store_DatabaseUser_def dest: database_user_table.find_mem)

interpretation database_quota: capped_create "\<lambda>(d, j). store_CreateDatabase d j" Databases
  "\<lambda>(d, j) s. dba_account d" "\<lambda>_. True"
  by unfold_locales (auto simp: store_CreateDatabase_def dest!: insert_database_Inr createJob_Inr)

interpretation database_user_quota: capped_create "\<lambda>(d, j). store_CreateUser d j" DatabaseUsers
  "\<lambda>(d, j) s. dbu_account d" "\<lambda>_. True"
  by unfold_locales (auto simp: store_CreateUser_def dest!: insert_database_user_Inr createJob_Inr)

end
