(* ===== verification/Host.thy ===== *)
theory Host
  imports Runes Pagination
begin

text \<open>
  What the agent's drivers share on the host: \<open>internal/agent/hostuser\<close> (which system user a
  request may act as) and \<open>internal/agent/configfile\<close> (atomic replacement of configuration
  files, snapshots).  The file system is a map from paths to entries; every system call may
  fail, which the argument \<open>io\<close> decides, and the name of a temporary file is an argument.
\<close>

section \<open>System users\<close>

record host_user =
  hu_uid :: string
  hu_gid :: string
  hu_name :: string
  hu_home :: string

record identity =
  idn_home :: string
  idn_user :: string
  idn_uid :: int
  idn_gid :: int

definition hostuser_Marker :: "ident \<Rightarrow> string" where
  "hostuser_Marker a = ''WEBYCP-'' @ a"

definition hostuser_ValidateNames :: "ident \<Rightarrow> string \<Rightarrow> err + unit" where
  "hostuser_ValidateNames a su =
     andthen (validate_ID ''accountId'' a) (\<lambda>_.
     andthen (validate_SystemUser su) (\<lambda>_.
     fail_when (su \<noteq> ''wcp_'' @ take 12 a)
       (ValidationErr ''systemUser'' ''System user does not match account ID'')))"

definition hostuser_Validate :: "host_user \<Rightarrow> string \<Rightarrow> ident \<Rightarrow> string \<Rightarrow> err + identity" where
  "hostuser_Validate found root a su =
     andthen (hostuser_ValidateNames a su) (\<lambda>_.
     andthen (fail_when (hu_uid found = ''0'') (Plain ''system user resolves to root'')) (\<lambda>_.
     andthen (fail_when (hu_home found \<noteq> root @ ''/'' @ su) (Plain ''system user home'')) (\<lambda>_.
     andthen (fail_when (hu_name found \<noteq> hostuser_Marker a)
       (Plain ''system user is not owned by this account'')) (\<lambda>_.
     case Atoi (hu_uid found) of
       None \<Rightarrow> Inl (Plain ''invalid system user UID'')
     | Some uid \<Rightarrow>
         if uid \<le> 0 then Inl (Plain ''invalid system user UID'')
         else (case Atoi (hu_gid found) of
           None \<Rightarrow> Inl (Plain ''invalid system user GID'')
         | Some gid \<Rightarrow>
             if gid \<le> 0 then Inl (Plain ''invalid system user GID'')
             else Inr \<lparr>idn_home = root @ ''/'' @ su, idn_user = su, idn_uid = uid, idn_gid = gid\<rparr>)))))"

text \<open>The agent never acts as root or as a user it does not own.  An accepted system user has
  a positive user and group number, is the one whose name derives from the account, carries the
  account's mark in the password database, and lives in its own directory.\<close>

theorem accepted_user_owns_account:
  assumes "hostuser_Validate found root a su = Inr i"
  shows "0 < idn_uid i \<and> 0 < idn_gid i \<and> idPattern a \<and> su = ''wcp_'' @ take 12 a \<and>
    hu_name found = ''WEBYCP-'' @ a \<and> hu_home found = root @ ''/'' @ su \<and> idn_home i = hu_home found \<and>
    Atoi (hu_uid found) = Some (idn_uid i)"
  using assms
  by (auto simp: hostuser_Validate_def hostuser_ValidateNames_def validate_ID_def hostuser_Marker_def
      split: option.splits if_splits)

section \<open>Configuration files\<close>

datatype fs_entry = File string nat | Directory | Symlink string

type_synonym fs = "string \<Rightarrow> fs_entry option"

datatype syscall = MkdirAll string | Lstat string | ReadFile string | CreateTemp string
  | Chmod string | WriteFile string | Fsync string | CloseFile string | Rename string string | Remove string
  | MakeLink string string | ReadLink string

type_synonym io = "syscall \<Rightarrow> err option"

definition configfile_EnsureDir :: "io \<Rightarrow> string \<Rightarrow> fs \<Rightarrow> err option \<times> fs" where
  "configfile_EnsureDir io path fs =
     (case (case io (MkdirAll path) of Some e \<Rightarrow> Some e
         | None \<Rightarrow> (case fs path of Some (File _ _) \<Rightarrow> Some (Plain ''not a directory'') | _ \<Rightarrow> None)) of
        Some e \<Rightarrow> (Some (Wrapped ''create config directory'' e), fs)
      | None \<Rightarrow>
          let fs1 = (if fs path = None then fs(path \<mapsto> Directory) else fs) in
          (case io (Lstat path) of
            Some e \<Rightarrow> (Some (Wrapped ''inspect config directory'' e), fs1)
          | None \<Rightarrow> (if fs1 path = Some Directory then None
              else Some (Plain ''config path is not a directory''), fs1)))"

record snapshot =
  snp_path :: string
  snp_data :: string
  snp_mode :: nat
  snp_exists :: bool

definition configfile_Take :: "io \<Rightarrow> string \<Rightarrow> fs \<Rightarrow> err + snapshot" where
  "configfile_Take io path fs =
     (case fs path of
        None \<Rightarrow> Inr \<lparr>snp_path = path, snp_data = [], snp_mode = 0, snp_exists = False\<rparr>
      | Some entry \<Rightarrow>
          (case io (Lstat path) of
            Some e \<Rightarrow> Inl (Wrapped ''inspect config file'' e)
          | None \<Rightarrow>
              (case entry of
                File data mode \<Rightarrow>
                  (case io (ReadFile path) of
                    Some e \<Rightarrow> Inl (Wrapped ''read config file'' e)
                  | None \<Rightarrow> Inr \<lparr>snp_path = path, snp_data = data, snp_mode = mode, snp_exists = True\<rparr>)
              | _ \<Rightarrow> Inl (Plain ''config path is not a regular file''))))"

text \<open>\<open>Write\<close>: the deferred \<open>os.Remove\<close> runs on every path; after the rename it finds nothing.\<close>

definition removed :: "io \<Rightarrow> string \<Rightarrow> fs \<Rightarrow> fs" where
  "removed io path fs = (if io (Remove path) = None then fs(path := None) else fs)"

definition configfile_Write :: "io \<Rightarrow> string \<Rightarrow> string \<Rightarrow> string \<Rightarrow> nat \<Rightarrow> fs \<Rightarrow> err option \<times> fs" where
  "configfile_Write io tmp path data mode fs =
     (case io (CreateTemp path) of
        Some e \<Rightarrow> (Some (Wrapped ''create config candidate'' e), fs)
      | None \<Rightarrow>
          (case io (Chmod tmp) of
            Some e \<Rightarrow> (Some (Wrapped ''set config candidate mode'' e), removed io tmp (fs(tmp \<mapsto> File [] 0x180)))
          | None \<Rightarrow>
              (case io (WriteFile tmp) of
                Some e \<Rightarrow> (Some (Wrapped ''write config candidate'' e), removed io tmp (fs(tmp \<mapsto> File [] mode)))
              | None \<Rightarrow>
                  (case io (Fsync tmp) of
                    Some e \<Rightarrow> (Some (Wrapped ''sync config candidate'' e), removed io tmp (fs(tmp \<mapsto> File data mode)))
                  | None \<Rightarrow>
                      (case io (CloseFile tmp) of
                        Some e \<Rightarrow> (Some (Wrapped ''close config candidate'' e), removed io tmp (fs(tmp \<mapsto> File data mode)))
                      | None \<Rightarrow>
                          (case (if fs path = Some Directory then Some (Plain ''file exists'') else io (Rename tmp path)) of
                            Some e \<Rightarrow> (Some (Wrapped ''install config candidate'' e),
                              removed io tmp (fs(tmp \<mapsto> File data mode)))
                          | None \<Rightarrow> (None, fs(tmp := None, path \<mapsto> File data mode))))))))"

definition configfile_Restore :: "io \<Rightarrow> string \<Rightarrow> snapshot \<Rightarrow> fs \<Rightarrow> err option \<times> fs" where
  "configfile_Restore io tmp p fs =
     (if \<not> snp_exists p then
        (if fs (snp_path p) = None then (None, fs)
         else (case io (Remove (snp_path p)) of
            Some e \<Rightarrow> (Some (Wrapped ''remove config candidate'' e), fs)
          | None \<Rightarrow> (None, fs(snp_path p := None))))
      else (case configfile_Write io tmp (snp_path p) (snp_data p) (snp_mode p) fs of
          (Some e, fs') \<Rightarrow> (Some (Wrapped ''restore config file'' e), fs')
        | (None, fs') \<Rightarrow> (None, fs')))"

lemma configfile_Write_cases:
  assumes "fs tmp = None" "tmp \<noteq> path"
  shows "fst (configfile_Write io tmp path data mode fs) = None \<Longrightarrow>
      snd (configfile_Write io tmp path data mode fs) path = Some (File data mode)"
    and "q \<noteq> path \<Longrightarrow> q \<noteq> tmp \<Longrightarrow> snd (configfile_Write io tmp path data mode fs) q = fs q"
    and "fst (configfile_Write io tmp path data mode fs) \<noteq> None \<Longrightarrow>
      snd (configfile_Write io tmp path data mode fs) path = fs path"
  using assms by (auto simp: configfile_Write_def removed_def split: option.splits)

text \<open>C39: a configuration file is replaced completely or not at all, whichever system call fails:
  on success it holds the new contents, on any error the old ones; no other file changes but the
  temporary one, and that is gone unless removing it failed too.\<close>

theorem config_write_is_atomic:
  assumes "fs tmp = None" "tmp \<noteq> path"
  shows "snd (configfile_Write io tmp path data mode fs) path =
      (if fst (configfile_Write io tmp path data mode fs) = None then Some (File data mode) else fs path) \<and>
    (\<forall>q. q \<noteq> path \<and> q \<noteq> tmp \<longrightarrow> snd (configfile_Write io tmp path data mode fs) q = fs q) \<and>
    (snd (configfile_Write io tmp path data mode fs) tmp = None \<or> io (Remove tmp) \<noteq> None)"
  using configfile_Write_cases [of fs tmp path, OF assms] assms
  by (auto simp: configfile_Write_def removed_def split: option.splits)

text \<open>A snapshot undoes a change: whatever happened to the file since the snapshot was taken,
  restoring it without an error brings back the contents and mode, or the absence, of before.\<close>

theorem snapshot_restores:
  assumes "configfile_Take io path fs = Inr p" "fs' tmp = None" "tmp \<noteq> path"
    and "configfile_Restore io' tmp p fs' = (None, fs'')"
  shows "fs'' path = fs path \<and> (\<forall>q. q \<noteq> path \<and> q \<noteq> tmp \<longrightarrow> fs'' q = fs' q)"
proof -
  have p: "snp_path p = path" "fs path = (if snp_exists p then Some (File (snp_data p) (snp_mode p)) else None)"
    using assms(1) by (auto simp: configfile_Take_def split: option.splits fs_entry.splits)
  let ?w = "configfile_Write io' tmp path (snp_data p) (snp_mode p) fs'"
  show ?thesis
  proof (cases "snp_exists p")
    case True
    then have w: "fst ?w = None" "fs'' = snd ?w"
      using assms(4) p(1) by (cases ?w; cases "fst ?w"; simp add: configfile_Restore_def)+
    then show ?thesis
      using p True configfile_Write_cases(1,2) [of fs' tmp path, OF assms(2,3)]
      by simp
  next
    case False
    then show ?thesis
      using assms(4) p by (auto simp: configfile_Restore_def split: if_splits option.splits)
  qed
qed

theorem accepted_user_owns_account_witness:
  "hostuser_Validate \<lparr>hu_uid = ''1001'', hu_gid = ''1002'', hu_name = ''WEBYCP-0123456789abcdef0123456789abcdef'',
      hu_home = ''/home/wcp_0123456789ab''\<rparr> ''/home'' ''0123456789abcdef0123456789abcdef'' ''wcp_0123456789ab'' =
    Inr \<lparr>idn_home = ''/home/wcp_0123456789ab'', idn_user = ''wcp_0123456789ab'', idn_uid = 1001, idn_gid = 1002\<rparr> \<and>
    idPattern ''0123456789abcdef0123456789abcdef''"
proof -
  have v: "hostuser_Validate \<lparr>hu_uid = ''1001'', hu_gid = ''1002'', hu_name = ''WEBYCP-0123456789abcdef0123456789abcdef'',
      hu_home = ''/home/wcp_0123456789ab''\<rparr> ''/home'' ''0123456789abcdef0123456789abcdef'' ''wcp_0123456789ab'' =
    Inr \<lparr>idn_home = ''/home/wcp_0123456789ab'', idn_user = ''wcp_0123456789ab'', idn_uid = 1001, idn_gid = 1002\<rparr>"
    by code_simp
  with accepted_user_owns_account [OF v] show ?thesis by blast
qed

theorem config_write_is_atomic_witness:
  "snd (configfile_Write (\<lambda>c. if c = Fsync ''t'' then Some ErrNone else None) ''t'' ''p'' ''new'' 0
      [''p'' \<mapsto> File ''old'' 0]) ''p'' = Some (File ''old'' 0)"
  using config_write_is_atomic [of "[''p'' \<mapsto> File ''old'' 0]" "''t''" "''p''"
      "\<lambda>c. if c = Fsync ''t'' then Some ErrNone else None" "''new''" 0]
  by (simp add: configfile_Write_def)

theorem snapshot_restores_witness:
  "snd (configfile_Restore (\<lambda>_. None) ''t'' \<lparr>snp_path = ''p'', snp_data = ''old'', snp_mode = 0, snp_exists = True\<rparr>
      [''p'' \<mapsto> File ''new'' 0]) ''p'' = Some (File ''old'' 0)"
proof -
  have t: "configfile_Take (\<lambda>_. None) ''p'' [''p'' \<mapsto> File ''old'' 0] =
      Inr \<lparr>snp_path = ''p'', snp_data = ''old'', snp_mode = 0, snp_exists = True\<rparr>"
    by (simp add: configfile_Take_def)
  have r: "configfile_Restore (\<lambda>_. None) ''t'' \<lparr>snp_path = ''p'', snp_data = ''old'', snp_mode = 0, snp_exists = True\<rparr>
      [''p'' \<mapsto> File ''new'' 0] = (None, snd (configfile_Restore (\<lambda>_. None) ''t''
        \<lparr>snp_path = ''p'', snp_data = ''old'', snp_mode = 0, snp_exists = True\<rparr> [''p'' \<mapsto> File ''new'' 0]))"
    by (simp add: configfile_Restore_def configfile_Write_def)
  show ?thesis
    using snapshot_restores [OF t _ _ r] by simp
qed

end
