(* ===== verification/Tasks.thy ===== *)
theory Tasks
  imports Databases Host
begin

text \<open>
  Scheduled tasks: \<open>internal/tasks/service.go\<close>, \<open>store/sqlite/tasks.go\<close> and the agent's driver
  \<open>internal/agent/scheduler/crontab\<close>.  Every change queues a synchronisation of the whole
  account; \<open>tasks_Reconcile\<close> hands the agent all entries that should run and the driver replaces
  the account's file under \<open>/etc/cron.d\<close>, a system crontab whose sixth column is the user;
  \<open>read_cron_line\<close> is how cron reads it.
\<close>

interpretation task_table: table tasks "\<lambda>rs s. s\<lparr>tasks := rs\<rparr>" tsk_id
  by unfold_locales auto

section \<open>Store operations\<close>

definition insert_task :: "task \<Rightarrow> db \<Rightarrow> err + (task \<times> db)" where
  "insert_task t s =
     (let row = t\<lparr>tsk_status := Pending\<rparr> in
      if tsk_kind t \<noteq> ''command'' then Inl CheckViolation
      else if exists_by tsk_id (tsk_id t) (tasks s) then Inl UniqueViolation
      else if \<not> exists_by acc_id (tsk_account t) (accounts s) \<or> \<not> exists_by nod_id (tsk_node t) (nodes s)
      then Inl ForeignKeyViolation
      else Inr (row, s\<lparr>tasks := tasks s @ [row]\<rparr>))"

definition store_CreateScheduledTask :: "task \<Rightarrow> job \<Rightarrow> db \<Rightarrow> err + ((task \<times> job) \<times> db)" where
  "store_CreateScheduledTask t j s =
     andthen (requireCapacity ScheduledTasks (tsk_account t) s) (\<lambda>_.
     andthen (insert_task t s) (\<lambda>(t', s1).
     andthen (createJob j s1) (\<lambda>(j', s2).
     Inr ((t', j'), s2))))"

definition task_row :: "task \<Rightarrow> task \<Rightarrow> task" where
  "task_row t r = r\<lparr>tsk_name := tsk_name t, tsk_schedule := tsk_schedule t, tsk_command := tsk_command t,
     tsk_driver := tsk_driver t, tsk_kind := tsk_kind t, tsk_enabled := tsk_enabled t,
     tsk_status := Pending, tsk_updated := tsk_updated t\<rparr>"

definition store_UpdateScheduledTask :: "task \<Rightarrow> job \<Rightarrow> db \<Rightarrow> err + ((task \<times> job) \<times> db)" where
  "store_UpdateScheduledTask t j s =
     andthen (some_or ErrNoRows (find_by tsk_id (tsk_id t) (tasks s))) (\<lambda>r.
     andthen (fail_when (tsk_kind t \<noteq> ''command'') CheckViolation) (\<lambda>_.
     andthen (createJob j (s\<lparr>tasks := update_by tsk_id (tsk_id t) (task_row t) (tasks s)\<rparr>)) (\<lambda>(j', s').
     Inr ((task_row t r, j'), s'))))"

definition store_DeleteScheduledTask :: "ident \<Rightarrow> job \<Rightarrow> db \<Rightarrow> err + (job \<times> db)" where
  "store_DeleteScheduledTask i j s = createJob j (s\<lparr>tasks := delete_by tsk_id i (tasks s)\<rparr>)"

definition store_ScheduledTasks :: "ident \<Rightarrow> bool \<Rightarrow> db \<Rightarrow> task list" where
  "store_ScheduledTasks u admin s =
     order_asc tsk_created (filter (\<lambda>t. joined_member u admin s (tsk_account t)) (tasks s))"

definition store_ScheduledTaskPage :: "ident \<Rightarrow> bool \<Rightarrow> query \<Rightarrow> db \<Rightarrow> task result" where
  "store_ScheduledTaskPage u admin q s = store_page (store_ScheduledTasks u admin s) q"

definition store_ScheduledTask :: "ident \<Rightarrow> db \<Rightarrow> err + task" where
  "store_ScheduledTask i s = some_or ErrNoRows (find_by tsk_id i (tasks s))"

definition store_AccountScheduledTasks :: "ident \<Rightarrow> db \<Rightarrow> task list" where
  "store_AccountScheduledTasks a s = order_asc tsk_created (filter (\<lambda>t. tsk_account t = a) (tasks s))"

definition task_status_row :: "status \<Rightarrow> status \<Rightarrow> msec \<Rightarrow> task \<Rightarrow> task" where
  "task_status_row on off now t = t\<lparr>tsk_status := (if tsk_enabled t then on else off), tsk_updated := now\<rparr>"

definition store_SetTaskStatuses :: "ident \<Rightarrow> status \<Rightarrow> status \<Rightarrow> msec \<Rightarrow> db \<Rightarrow> db" where
  "store_SetTaskStatuses a on off now s =
     s\<lparr>tasks := update_by tsk_account a (task_status_row on off now) (tasks s)\<rparr>"

section \<open>Service\<close>

definition Crontab :: string where "Crontab = ''crontab''"

definition tasks_account :: "ident \<Rightarrow> ident \<Rightarrow> bool \<Rightarrow> db \<Rightarrow> err + account" where
  "tasks_account i u admin s =
     andthen (accounts_Account i u admin s) (\<lambda>a.
     andthen (fail_when (acc_status a \<noteq> Active \<or> \<not> acc_enabled a) AccErrBusy) (\<lambda>_. Inr a))"

definition task_of :: "ident \<Rightarrow> ident \<Rightarrow> bool \<Rightarrow> db \<Rightarrow> err + task" where
  "task_of i u admin s =
     andthen (validate_ID ''scheduledTaskId'' i) (\<lambda>_.
     andthen (store_ScheduledTask i s) (\<lambda>t.
     andthen (accounts_Account (tsk_account t) u admin s) (\<lambda>_. Inr t)))"

text \<open>What a request may set: name, schedule, command, driver, kind and the enabled flag.\<close>

record task_input =
  tin_name :: string
  tin_schedule :: string
  tin_command :: string
  tin_driver :: string
  tin_kind :: string
  tin_enabled :: bool

definition tasks_build :: "ext \<Rightarrow> task \<Rightarrow> task_input \<Rightarrow> err + task" where
  "tasks_build x t v =
     andthen (fail_when (tsk_kind t \<noteq> ''command'')
       (ValidationErr ''kind'' ''The selected task kind is not supported'')) (\<lambda>_.
     andthen (validate_ResourceName (tin_name v)) (\<lambda>name.
     andthen (validate_CronSchedule x (tin_schedule v) False) (\<lambda>schedule.
     andthen (validate_CronCommand (tin_command v)) (\<lambda>command.
     andthen (fail_when (tin_driver v \<noteq> Crontab)
       (ValidationErr ''schedulerDriver'' ''The selected scheduler driver is not supported'')) (\<lambda>_.
     Inr (t\<lparr>tsk_name := name, tsk_schedule := schedule, tsk_command := command, tsk_driver := tin_driver v,
       tsk_enabled := tin_enabled v, tsk_status := Pending\<rparr>))))))"

definition task_job :: "ident \<Rightarrow> ident \<Rightarrow> ident \<Rightarrow> ident \<Rightarrow> msec \<Rightarrow> job" where
  "task_job node u a jid now = new_job jid node u KindTaskSync (account_payload a) 2 now"

definition tasks_Create ::
  "ext \<Rightarrow> ident \<Rightarrow> task_input \<Rightarrow> ident \<Rightarrow> bool \<Rightarrow> ident \<Rightarrow> ident \<Rightarrow> msec \<Rightarrow> db \<Rightarrow> err + ((task \<times> job) \<times> db)" where
  "tasks_Create x acc v u admin i jid now s =
     andthen (tasks_account acc u admin s) (\<lambda>a.
     andthen (tasks_build x
       \<lparr>tsk_id = [], tsk_account = acc_id a, tsk_node = acc_node a, tsk_name = [], tsk_schedule = [],
        tsk_command = [], tsk_driver = [], tsk_kind = tin_kind v, tsk_enabled = False, tsk_status = Pending,
        tsk_created = 0, tsk_updated = 0\<rparr> v) (\<lambda>t.
     store_CreateScheduledTask (t\<lparr>tsk_id := i, tsk_created := now, tsk_updated := now\<rparr>)
       (task_job (acc_node a) u (acc_id a) jid now) s))"

definition tasks_Update ::
  "ext \<Rightarrow> ident \<Rightarrow> ident \<Rightarrow> task_input \<Rightarrow> ident \<Rightarrow> bool \<Rightarrow> ident \<Rightarrow> msec \<Rightarrow> db \<Rightarrow> err + ((task \<times> job) \<times> db)" where
  "tasks_Update x i acc v u admin jid now s =
     andthen (task_of i u admin s) (\<lambda>current.
     andthen (fail_when (tsk_account current \<noteq> acc) AccErrForbidden) (\<lambda>_.
     andthen (tasks_account acc u admin s) (\<lambda>_.
     andthen (tasks_build x (current\<lparr>tsk_kind := tin_kind v\<rparr>) v) (\<lambda>t.
     store_UpdateScheduledTask (t\<lparr>tsk_updated := now\<rparr>)
       (task_job (tsk_node t) u (tsk_account t) jid now) s))))"

definition tasks_Delete :: "ident \<Rightarrow> ident \<Rightarrow> bool \<Rightarrow> ident \<Rightarrow> msec \<Rightarrow> db \<Rightarrow> err + (job \<times> db)" where
  "tasks_Delete i u admin jid now s =
     andthen (task_of i u admin s) (\<lambda>t.
     store_DeleteScheduledTask (tsk_id t) (task_job (tsk_node t) u (tsk_account t) jid now) s)"

definition tasks_ScheduledTasks :: "ident \<Rightarrow> bool \<Rightarrow> db \<Rightarrow> task list" where
  "tasks_ScheduledTasks u admin s = store_ScheduledTasks u admin s"

record cron_entry =
  cre_id :: ident
  cre_schedule :: string
  cre_command :: string
  cre_kind :: string

type_synonym task_agent = "string \<Rightarrow> ident \<Rightarrow> string \<Rightarrow> cron_entry list \<Rightarrow> err option"

definition cron_entry_of :: "task \<Rightarrow> cron_entry" where
  "cron_entry_of t = \<lparr>cre_id = tsk_id t, cre_schedule = tsk_schedule t, cre_command = tsk_command t,
     cre_kind = tsk_kind t\<rparr>"

definition wanted_tasks :: "account \<Rightarrow> db \<Rightarrow> task list" where
  "wanted_tasks a s = filter (\<lambda>t. tsk_enabled t \<and> acc_enabled a \<and> acc_status a = Active)
     (store_AccountScheduledTasks (acc_id a) s)"

definition tasks_Reconcile :: "task_agent \<Rightarrow> msec \<Rightarrow> ident \<Rightarrow> db \<Rightarrow> err option \<times> db" where
  "tasks_Reconcile ag now i s =
     (case accounts_Get i s of
        Inl e \<Rightarrow> (Some e, s)
      | Inr a \<Rightarrow>
          (case store_Node (acc_node a) s of
            Inl e \<Rightarrow> (Some e, s)
          | Inr n \<Rightarrow>
              if list_ex (\<lambda>t. tsk_driver t \<noteq> Crontab) (store_AccountScheduledTasks (acc_id a) s)
              then (Some (Plain ''unsupported scheduler driver''), s)
              else (case ag (nod_endpoint n) (acc_id a) (acc_system_user a)
                  (map cron_entry_of (wanted_tasks a s)) of
                Some e \<Rightarrow> (Some e, store_SetTaskStatuses (acc_id a) Errored Errored now s)
              | None \<Rightarrow> (None, store_SetTaskStatuses (acc_id a) Active Disabled now s))))"

definition tasks_Sync :: "task_agent \<Rightarrow> msec \<Rightarrow> job \<Rightarrow> db \<Rightarrow> err option \<times> db" where
  "tasks_Sync ag now j s =
     (case payload_string ''accountId'' (job_payload j) of
        None \<Rightarrow> (Some (Plain ''decode task sync payload''), s)
      | Some i \<Rightarrow>
          if i = [] then (Some (Plain ''decode task sync payload''), s) else tasks_Reconcile ag now i s)"

section \<open>The crontab driver\<close>

abbreviation newline :: string where "newline \<equiv> [CHR 0x0A]"

definition crontab_header :: "string \<Rightarrow> string list" where
  "crontab_header su =
     [''# Managed by WEBYCP. Manual changes will be replaced.'', ''SHELL=/bin/sh'',
      ''PATH=/usr/local/bin:/usr/bin:/bin'', ''MAILTO='' @ [CHR 0x22, CHR 0x22], ''HOME=/home/'' @ su, []]"

definition crontab_lines :: "string \<Rightarrow> cron_entry \<Rightarrow> string list" where
  "crontab_lines su e =
     [''# '' @ cre_id e, cre_schedule e @ '' '' @ su @ '' cd -- /home/'' @ su @ '' && '' @ cre_command e]"

definition write_lines :: "string list \<Rightarrow> string" where
  "write_lines ls = concat (map (\<lambda>l. l @ newline) ls)"

definition entry_error :: "ext \<Rightarrow> cron_entry \<Rightarrow> err option" where
  "entry_error x e =
     (if cre_kind e \<noteq> ''command'' then Some (ValidationErr ''kind'' ''The selected task kind is not supported'')
      else if \<not> idPattern (cre_id e) then Some (ValidationErr ''id'' ''Cron entry ID is invalid'')
      else if validate_CronSchedule x (cre_schedule e) False \<noteq> Inr (cre_schedule e)
      then Some (ValidationErr ''schedule'' ''Cron schedule is invalid'')
      else if validate_CronCommand (cre_command e) \<noteq> Inr (cre_command e)
      then Some (ValidationErr ''command'' ''Cron command is invalid'')
      else None)"

fun first_entry_error :: "ext \<Rightarrow> cron_entry list \<Rightarrow> err option" where
  "first_entry_error x [] = None"
| "first_entry_error x (e # es) = (case entry_error x e of Some m \<Rightarrow> Some m | None \<Rightarrow> first_entry_error x es)"

definition crontab_dir :: string where "crontab_dir = ''/etc/cron.d''"

definition crontab_path :: "ident \<Rightarrow> string" where
  "crontab_path a = crontab_dir @ ''/webycp-'' @ a"

definition crontab_Sync ::
  "ext \<Rightarrow> io \<Rightarrow> (string \<Rightarrow> err + host_user) \<Rightarrow> string \<Rightarrow> ident \<Rightarrow> string \<Rightarrow> cron_entry list \<Rightarrow> fs \<Rightarrow> err option \<times> fs" where
  "crontab_Sync x io lookup tmp a su es fs =
     (case hostuser_ValidateNames a su of
        Inl _ \<Rightarrow> (Some (ValidationErr ''accountId'' ''The account identity is invalid''), fs)
      | Inr _ \<Rightarrow>
     (case lookup su of
        Inl e \<Rightarrow> (Some (Wrapped ''lookup scheduled task account'' e), fs)
      | Inr found \<Rightarrow>
     (case hostuser_Validate found ''/home'' a su of
        Inl e \<Rightarrow> (Some e, fs)
      | Inr _ \<Rightarrow>
     if 100 < length es then (Some (ValidationErr ''entries'' ''Too many cron entries''), fs)
     else (case configfile_EnsureDir io crontab_dir fs of
        (Some e, fs1) \<Rightarrow> (Some e, fs1)
      | (None, fs1) \<Rightarrow>
          if es = [] then
            (if fs1 (crontab_path a) = None then (None, fs1)
             else (case io (Remove (crontab_path a)) of
                Some e \<Rightarrow> (Some (Wrapped ''remove account crontab'' e), fs1)
              | None \<Rightarrow> (None, fs1(crontab_path a := None))))
          else (case first_entry_error x es of
              Some e \<Rightarrow> (Some e, fs1)
            | None \<Rightarrow>
                (case configfile_Write io tmp (crontab_path a)
                    (write_lines (crontab_header su @ concat (map (crontab_lines su) es))) 0x1A4 fs1 of
                  (Some e, fs2) \<Rightarrow> (Some (Wrapped ''install account crontab'' e), fs2)
                | (None, fs2) \<Rightarrow> (None, fs2)))))))"

section \<open>What the file says\<close>

lemma Split_write_lines:
  assumes "\<And>l. l \<in> set ls \<Longrightarrow> CHR 0x0A \<notin> set l"
  shows "Split (write_lines ls) (CHR 0x0A) = ls @ [[]]"
  using assms by (induction ls) (simp_all add: write_lines_def Split_append)

lemma hex_line: "list_all is_hex_lower s \<Longrightarrow> CHR 0x0A \<notin> set s"
  by (auto simp: list_all_iff is_hex_lower_def is_digit_def bytes_between_def byte_def)

lemma system_user_line: "idPattern a \<Longrightarrow> su = ''wcp_'' @ take 12 a \<Longrightarrow> CHR 0x0A \<notin> set su"
  using hex_line [of a] by (auto simp: idPattern_def dest: in_set_takeD)

lemma first_entry_error_None: "first_entry_error x es = None \<longleftrightarrow> (\<forall>e \<in> set es. entry_error x e = None)"
  by (induction es) (auto split: option.split)

lemma entry_lines:
  assumes "entry_error x e = None" "CHR 0x0A \<notin> set su" "l \<in> set (crontab_lines su e)"
  shows "CHR 0x0A \<notin> set l"
  using assms validate_CronSchedule_line [of x "cre_schedule e" False "cre_schedule e"]
    validate_CronCommand_line [of "cre_command e" "cre_command e"] hex_line [of "cre_id e"]
  by (auto simp: entry_error_def crontab_lines_def idPattern_def split: if_splits)

lemma ValidateNames_Inr:
  "hostuser_ValidateNames a su = Inr u \<longleftrightarrow> idPattern a \<and> systemUserPattern su \<and> su = ''wcp_'' @ take 12 a"
  by (auto simp: hostuser_ValidateNames_def validate_ID_def validate_SystemUser_def)

section \<open>How cron reads it\<close>

text \<open>
  A line of a file in \<open>/etc/cron.d\<close>, as \<open>crontab(5)\<close> documents it: blank lines and lines that begin
  with \<open>#\<close> say nothing, \<open>name = value\<close> sets a variable for the jobs that follow, and every other line
  has five time fields, a user and a command, the rest of the line, cut at the first \<open>%\<close> that no
  backslash protects, after which it is the input of the command.
\<close>

datatype cron_line = Idle | Setting string string | Job "string list" string string "string option" | Garbled

definition blank :: "char \<Rightarrow> bool" where
  "blank c \<longleftrightarrow> c = CHR '' '' \<or> c = CHR 0x09"

definition setting_of :: "string \<Rightarrow> (string \<times> string) option" where
  "setting_of line =
     (let name = takeWhile (\<lambda>c. \<not> blank c \<and> c \<noteq> CHR ''='') line;
          rest = dropWhile blank (drop (length name) line) in
      if name \<noteq> [] \<and> rest \<noteq> [] \<and> hd rest = CHR ''='' then Some (name, dropWhile blank (tl rest)) else None)"

fun cron_words :: "nat \<Rightarrow> string \<Rightarrow> string list \<times> string" where
  "cron_words 0 line = ([], dropWhile blank line)"
| "cron_words (Suc n) line =
     (let word = takeWhile (\<lambda>c. \<not> blank c) (dropWhile blank line);
          (words, rest) = cron_words n (dropWhile (\<lambda>c. \<not> blank c) (dropWhile blank line)) in
      (word # words, rest))"

fun cut_percent :: "string \<Rightarrow> string \<times> string option" where
  "cut_percent [] = ([], None)"
| "cut_percent (c # r) =
     (if c = CHR ''%'' then ([], Some r)
      else if c = CHR 0x5C \<and> r \<noteq> [] \<and> hd r = CHR ''%'' then (case cut_percent (tl r) of (a, b) \<Rightarrow> (CHR ''%'' # a, b))
      else (case cut_percent r of (a, b) \<Rightarrow> (c # a, b)))"

definition read_cron_line :: "string \<Rightarrow> cron_line" where
  "read_cron_line line =
     (let text = dropWhile blank line in
      if text = [] \<or> hd text = CHR ''#'' then Idle
      else case setting_of text of
        Some (name, v) \<Rightarrow> Setting name v
      | None \<Rightarrow>
          (case cron_words 6 text of
            (words, command) \<Rightarrow>
              if [] \<in> set words \<or> command = [] then Garbled
              else (case cut_percent command of (a, b) \<Rightarrow> Job (take 5 words) (words ! 5) a b)))"

text \<open>
  The parser of \<open>robfig/cron\<close> with its five fields and no descriptors, as it is documented: a schedule
  it accepts may begin with a time zone; otherwise it has exactly five fields of numbers, names, \<open>*\<close>,
  \<open>?\<close>, \<open>/\<close>, \<open>,\<close> and \<open>-\<close>, and in particular no field has a \<open>=\<close> or a \<open>#\<close>.
\<close>

definition zoned :: "string \<Rightarrow> bool" where
  "zoned schedule \<longleftrightarrow> HasPrefix schedule ''TZ='' \<or> HasPrefix schedule ''CRON_TZ=''"

definition cron_law :: "ext \<Rightarrow> bool" where
  "cron_law x \<longleftrightarrow> (\<forall>v. ext_cron x v \<and> \<not> zoned v \<longrightarrow> length (Fields v) = 5 \<and> (\<forall>f \<in> set (Fields v). CHR ''='' \<notin> set f \<and> CHR ''#'' \<notin> set f))"

text \<open>What cron makes of the entry of a task, and of the lines above the entries.\<close>

fun means_task :: "string \<Rightarrow> cron_entry \<Rightarrow> cron_line \<Rightarrow> bool" where
  "means_task su e l \<longleftrightarrow>
     (if zoned (cre_schedule e) then (\<exists>name v. l = Setting name v \<and> name \<in> {''TZ'', ''CRON_TZ''})
      else length (Fields (cre_schedule e)) = 5 \<and>
        l = Job (Fields (cre_schedule e)) su (''cd -- /home/'' @ su @ '' && '' @ cre_command e) None)"

declare means_task.simps [simp del]

definition header_means :: "string \<Rightarrow> cron_line list" where
  "header_means su = [Idle, Setting ''SHELL'' ''/bin/sh'', Setting ''PATH'' ''/usr/local/bin:/usr/bin:/bin'',
     Setting ''MAILTO'' [CHR 0x22, CHR 0x22], Setting ''HOME'' (''/home/'' @ su), Idle]"

lemma cut_percent_none: "CHR ''%'' \<notin> set s \<Longrightarrow> cut_percent s = (s, None)"
  by (induction s) (auto dest: list.set_sel(1))

definition cron_word :: "string \<Rightarrow> bool" where
  "cron_word w \<longleftrightarrow> w \<noteq> [] \<and> (\<forall>c \<in> set w. \<not> blank c)"

lemma word_start: "cron_word w \<Longrightarrow> dropWhile blank (w @ r) = w @ r"
  by (cases w) (auto simp: cron_word_def)

lemma word_taken:
  assumes "cron_word w"
  shows "takeWhile (\<lambda>c. \<not> blank c) (w @ CHR '' '' # r) = w" "dropWhile (\<lambda>c. \<not> blank c) (w @ CHR '' '' # r) = CHR '' '' # r"
  using assms by (auto simp: cron_word_def blank_def)

lemma cron_words_read:
  assumes "\<forall>w \<in> set ws. cron_word w" "cmd \<noteq> []" "\<not> blank (hd cmd)"
  shows "cron_words (length ws) (concat (map (\<lambda>w. w @ '' '') ws) @ cmd) = (ws, cmd)"
    "cron_words (length ws) (CHR '' '' # concat (map (\<lambda>w. w @ '' '') ws) @ cmd) = (ws, cmd)"
proof -
  have start: "dropWhile blank cmd = cmd"
    using assms(2,3) by (cases cmd) auto
  have "cron_words (length ws) (pre @ concat (map (\<lambda>w. w @ '' '') ws) @ cmd) = (ws, cmd)" if "pre \<in> {[], '' ''}" for pre
    using assms(1) that
  proof (induction ws arbitrary: pre)
    case Nil
    then show ?case
      using start by (auto simp: blank_def)
  next
    case (Cons w ws)
    then have w: "cron_word w" and IH: "cron_words (length ws) ('' '' @ concat (map (\<lambda>w. w @ '' '') ws) @ cmd) = (ws, cmd)"
      using Cons.IH [of "'' ''"] by simp_all
    have "dropWhile blank (pre @ w @ r) = w @ r" for r
      using word_start [OF w] Cons.prems(2) by (auto simp: blank_def)
    then show ?case
      using word_taken [OF w] IH by simp
  qed
  from this [of "[]"] this [of "'' ''"] show
    "cron_words (length ws) (concat (map (\<lambda>w. w @ '' '') ws) @ cmd) = (ws, cmd)"
    "cron_words (length ws) (CHR '' '' # concat (map (\<lambda>w. w @ '' '') ws) @ cmd) = (ws, cmd)"
    by simp_all
qed

lemma Join_words: "ws \<noteq> [] \<Longrightarrow> Join ws '' '' @ '' '' = concat (map (\<lambda>w. w @ '' '') ws)"
  by (induction ws rule: induct_list012) simp_all

lemma no_setting:
  assumes "cron_word v" "cron_word w" "CHR ''='' \<notin> set v" "CHR ''='' \<notin> set w"
  shows "setting_of (v @ '' '' @ w @ r) = None"
proof -
  have "takeWhile (\<lambda>c. \<not> blank c \<and> c \<noteq> CHR ''='') (v @ '' '' @ w @ r) = v"
    using assms(1,3) by (subst takeWhile_append2) (auto simp: cron_word_def blank_def)
  moreover have "dropWhile blank ('' '' @ w @ r) = w @ r"
    using word_start [OF assms(2)] by (simp add: blank_def)
  moreover have "hd (w @ r) \<noteq> CHR ''=''"
    using assms(2,4) by (cases w) (auto simp: cron_word_def)
  ultimately show ?thesis
    by (simp add: setting_of_def)
qed

lemma field_words:
  assumes "w \<in> set (Fields s)"
  shows "cron_word w"
proof -
  have "c \<notin> set w" if "c = CHR '' '' \<or> c = CHR 0x09" for c
  proof
    assume "c \<in> set w"
    then have "byte c \<in> fst ` set (rune_parts w)"
      using that ascii_in_parts [of c w] by (auto simp: byte_def)
    then show False
      using that Fields_words [OF assms] by (auto simp: spaceless_def list_all_iff IsSpace_def byte_def)
  qed
  then show ?thesis
    using Fields_words [OF assms] by (auto simp: cron_word_def blank_def)
qed

lemma read_job:
  assumes ws: "\<forall>w \<in> set ws. cron_word w" "length ws = 5" "\<forall>w \<in> set ws. CHR ''='' \<notin> set w \<and> CHR ''#'' \<notin> set w"
    and su: "cron_word su" and cmd: "cmd \<noteq> []" "\<not> blank (hd cmd)" "CHR ''%'' \<notin> set cmd"
  shows "read_cron_line (Join ws '' '' @ '' '' @ su @ '' '' @ cmd) = Job ws su cmd None"
proof -
  let ?line = "Join ws '' '' @ '' '' @ su @ '' '' @ cmd"
  obtain v w us where v: "ws = v # w # us"
    using ws(2) by (cases ws; cases "tl ws") auto
  then have "?line = v @ '' '' @ w @ drop (length v + 1 + length w) ?line"
    by (cases us) simp_all
  then obtain r where r: "?line = v @ '' '' @ w @ r"
    by blast
  have start: "dropWhile blank ?line = ?line" "?line \<noteq> []" "hd ?line \<noteq> CHR ''#''"
    using word_start [of v "'' '' @ w @ r"] ws v unfolding r by (auto simp: cron_word_def) (metis hd_append2 list.set_sel(1))
  have "setting_of ?line = None"
    unfolding r using no_setting [of v w r] ws v by simp
  moreover have "cron_words 6 ?line = (ws @ [su], cmd)"
  proof -
    have "?line = (Join ws '' '' @ '' '') @ su @ '' '' @ cmd"
      by simp
    also have "\<dots> = concat (map (\<lambda>w. w @ '' '') (ws @ [su])) @ cmd"
      using Join_words [of ws] v by simp
    finally have line: "?line = concat (map (\<lambda>w. w @ '' '') (ws @ [su])) @ cmd" .
    have "length (ws @ [su]) = 6"
      using ws(2) by simp
    then show ?thesis
      unfolding line using cron_words_read(1) [of "ws @ [su]" cmd] ws(1) su cmd(1,2) by (metis Un_iff empty_iff empty_set insert_iff list.simps(15) set_append)
  qed
  moreover have "[] \<notin> set (ws @ [su])"
    using ws(1) su by (auto simp: cron_word_def)
  ultimately show ?thesis
    using start cmd cut_percent_none [OF cmd(3)] ws(2) by (simp add: read_cron_line_def Let_def nth_append)
qed

lemma read_zoned:
  assumes "zoned s"
  shows "\<exists>name v. read_cron_line (s @ r) = Setting name v \<and> name \<in> {''TZ'', ''CRON_TZ''}"
proof -
  have "setting_of (''TZ'' @ ''='' @ t) = Some (''TZ'', dropWhile blank t)"
    "setting_of (''CRON_TZ'' @ ''='' @ t) = Some (''CRON_TZ'', dropWhile blank t)" for t
    by (simp_all add: setting_of_def Let_def blank_def)
  then have "read_cron_line (''TZ'' @ ''='' @ t) = Setting ''TZ'' (dropWhile blank t)"
    "read_cron_line (''CRON_TZ'' @ ''='' @ t) = Setting ''CRON_TZ'' (dropWhile blank t)" for t
    by (simp_all add: read_cron_line_def Let_def blank_def)
  then have go: "read_cron_line (name @ ''='' @ t) = Setting name (dropWhile blank t)" if "name \<in> {''TZ'', ''CRON_TZ''}" for name t
    using that by blast
  have split: "take n s = a @ b \<Longrightarrow> s = a @ b @ drop n s" for n a b
    using append_take_drop_id [of n s] by simp
  have "take 3 s = ''TZ'' @ ''='' \<or> take 8 s = ''CRON_TZ'' @ ''=''"
    using assms by (simp add: zoned_def HasPrefix_def eval_nat_numeral)
  then have "s = ''TZ'' @ ''='' @ drop 3 s \<or> s = ''CRON_TZ'' @ ''='' @ drop 8 s"
    using split by blast
  then obtain name t where "s = name @ ''='' @ t" and name: "name \<in> {''TZ'', ''CRON_TZ''}"
    by blast
  then have "s @ r = name @ ''='' @ (t @ r)"
    by simp
  then have "read_cron_line (s @ r) = Setting name (dropWhile blank (t @ r))"
    using go [OF name, of "t @ r"] by simp
  then show ?thesis
    using name by blast
qed

text \<open>What a successful synchronisation wrote.\<close>

lemma crontab_written:
  assumes "crontab_Sync x io lookup tmp a su es fs = (None, fs')" "es \<noteq> []"
    and "fs tmp = None" "tmp \<noteq> crontab_path a" "tmp \<noteq> crontab_dir"
  shows "idPattern a" "su = ''wcp_'' @ take 12 a" "length es \<le> 100" "\<forall>e \<in> set es. entry_error x e = None"
    "fs' (crontab_path a) = Some (File (write_lines (crontab_header su @ concat (map (crontab_lines su) es))) 0x1A4)"
    "Split (write_lines (crontab_header su @ concat (map (crontab_lines su) es))) (CHR 0x0A) =
      crontab_header su @ concat (map (crontab_lines su) es) @ [[]]"
proof -
  from assms(1,2) obtain found u i fs1 where h: "hostuser_ValidateNames a su = Inr u" "lookup su = Inr found"
    "hostuser_Validate found ''/home'' a su = Inr i" "length es \<le> 100"
    "configfile_EnsureDir io crontab_dir fs = (None, fs1)" "first_entry_error x es = None"
    and w: "configfile_Write io tmp (crontab_path a)
      (write_lines (crontab_header su @ concat (map (crontab_lines su) es))) 0x1A4 fs1 = (None, fs')"
    by (auto simp: crontab_Sync_def split: sum.splits if_splits option.splits prod.splits)
  have su: "idPattern a" "su = ''wcp_'' @ take 12 a"
    using h(1) by (simp_all add: ValidateNames_Inr)
  have "fs1 tmp = None"
    using h(5) assms(3,5) by (auto simp: configfile_EnsureDir_def Let_def split: option.splits fs_entry.splits if_splits)
  then have written: "fs' (crontab_path a) =
      Some (File (write_lines (crontab_header su @ concat (map (crontab_lines su) es))) 0x1A4)"
    using configfile_Write_cases(1) [of fs1 tmp "crontab_path a" io
        "write_lines (crontab_header su @ concat (map (crontab_lines su) es))" "0x1A4"] assms(4) w by simp
  have nl: "CHR 0x0A \<notin> set su"
    using system_user_line [OF su] .
  then have "CHR 0x0A \<notin> set l" if "l \<in> set (crontab_header su)" for l
    using that by (auto simp: crontab_header_def)
  moreover have "CHR 0x0A \<notin> set l" if "l \<in> set (concat (map (crontab_lines su) es))" for l
    using that h(6) entry_lines [OF _ nl] by (auto simp: first_entry_error_None)
  ultimately have "Split (write_lines (crontab_header su @ concat (map (crontab_lines su) es))) (CHR 0x0A) =
      (crontab_header su @ concat (map (crontab_lines su) es)) @ [[]]"
    by (intro Split_write_lines) auto
  then show "Split (write_lines (crontab_header su @ concat (map (crontab_lines su) es))) (CHR 0x0A) =
      crontab_header su @ concat (map (crontab_lines su) es) @ [[]]"
    by simp
  show "idPattern a" "su = ''wcp_'' @ take 12 a" "length es \<le> 100" "\<forall>e \<in> set es. entry_error x e = None"
    "fs' (crontab_path a) = Some (File (write_lines (crontab_header su @ concat (map (crontab_lines su) es))) 0x1A4)"
    using written su h(4,6) by (simp_all add: first_entry_error_None)
qed

lemma system_user_word: "idPattern a \<Longrightarrow> cron_word (''wcp_'' @ take 12 a)"
proof -
  assume "idPattern a"
  then have "\<not> blank c" if "c \<in> set (take 12 a)" for c
    using in_set_takeD [OF that]
    by (auto simp: idPattern_def list_all_iff is_hex_lower_def is_digit_def bytes_between_def byte_def blank_def)
  then show ?thesis
    by (auto simp: cron_word_def blank_def)
qed

lemma header_read: "map read_cron_line (crontab_header su) = header_means su"
  by (simp add: crontab_header_def header_means_def read_cron_line_def setting_of_def blank_def Let_def)

lemma entry_read:
  assumes law: "cron_law x" and e: "entry_error x e = None" and su: "idPattern a" "su = ''wcp_'' @ take 12 a"
  shows "\<exists>l. map read_cron_line (crontab_lines su e) = [Idle, l] \<and> means_task su e l"
proof -
  have s: "cre_schedule e = Join (Fields (cre_schedule e)) '' ''" and c: "ext_cron x (cre_schedule e)"
    and cmd: "CHR ''%'' \<notin> set (cre_command e)"
    using e validate_CronCommand_line by (auto simp: entry_error_def validate_CronSchedule_def Let_def split: if_splits)
  let ?cmd = "''cd -- /home/'' @ su @ '' && '' @ cre_command e"
  let ?line = "cre_schedule e @ '' '' @ su @ '' '' @ ?cmd"
  have lines: "crontab_lines su e = [''# '' @ cre_id e, ?line]"
    by (simp add: crontab_lines_def)
  have idle: "read_cron_line (''# '' @ r) = Idle" for r
    by (simp add: read_cron_line_def blank_def)
  have user: "cron_word su"
    using system_user_word [OF su(1)] su(2) by simp
  have "means_task su e (read_cron_line ?line)"
  proof (cases "zoned (cre_schedule e)")
    case True
    then show ?thesis
      using read_zoned [OF True, of "'' '' @ su @ '' '' @ ?cmd"] unfolding means_task.simps by metis
  next
    case False
    then have five: "length (Fields (cre_schedule e)) = 5"
      "\<forall>w \<in> set (Fields (cre_schedule e)). CHR ''='' \<notin> set w \<and> CHR ''#'' \<notin> set w"
      using law c by (auto simp: cron_law_def)
    have "\<not> is_hex_lower (CHR ''%'')"
      by (simp add: is_hex_lower_def is_digit_def bytes_between_def byte_def)
    then have "CHR ''%'' \<notin> set a"
      using su(1) by (auto simp: idPattern_def list_all_iff)
    then have "CHR ''%'' \<notin> set su"
      using in_set_takeD [of "CHR ''%''" 12 a] su(2) by auto
    then have "CHR ''%'' \<notin> set ?cmd"
      using cmd by simp
    then have "read_cron_line (Join (Fields (cre_schedule e)) '' '' @ '' '' @ su @ '' '' @ ?cmd) = Job (Fields (cre_schedule e)) su ?cmd None"
      using five user field_words by (intro read_job) (simp_all add: blank_def)
    then have "read_cron_line ?line = Job (Fields (cre_schedule e)) su ?cmd None"
      by (simp only: s [symmetric])
    then show ?thesis
      using False five(1) unfolding means_task.simps by metis
  qed
  moreover have "map read_cron_line (crontab_lines su e) = [Idle, read_cron_line ?line]"
    by (simp only: lines idle list.map)
  ultimately show ?thesis
    by (intro exI conjI)
qed

lemma entries_read:
  assumes "cron_law x" "\<forall>e \<in> set es. entry_error x e = None" "idPattern a" "su = ''wcp_'' @ take 12 a"
  shows "\<exists>ls. map read_cron_line (concat (map (crontab_lines su) es)) = concat (map (\<lambda>l. [Idle, l]) ls) \<and> list_all2 (means_task su) es ls"
  using assms(2)
proof (induction es)
  case (Cons e es)
  have "entry_error x e = None"
    using Cons.prems by simp
  from entry_read [OF assms(1) this assms(3,4)]
  obtain l where l: "map read_cron_line (crontab_lines su e) = [Idle, l]" "means_task su e l"
    by (elim exE conjE)
  obtain ls where "map read_cron_line (concat (map (crontab_lines su) es)) = concat (map (\<lambda>l. [Idle, l]) ls)" "list_all2 (means_task su) es ls"
    using Cons by auto
  with l show ?case
    by (intro exI [of _ "l # ls"]) simp
qed simp

text \<open>C31: a task cannot add a line to the system crontab or run as another user.  When the driver has
  synchronised entries, the account's file has its fixed header and, for each entry, a comment and one
  line; read the way cron reads it, the header sets the shell, the path, no mail and the user's home,
  and each entry is one job with the five fields of its schedule, the account's own system user as
  the user, and the command, run from that user's home, without any input; nothing else, whatever the
  commands contain.  An accepted schedule that begins with a time zone is the exception: cron reads
  its line as the setting of a variable, and the task never runs.  Assumed of the cron parser, which is
  not under \<open>src\<close>: any other schedule it accepts has five fields without \<open>=\<close> and \<open>#\<close>.\<close>

theorem crontab_one_line_per_task:
  assumes "crontab_Sync x io lookup tmp a su es fs = (None, fs')" "es \<noteq> []"
    and "fs tmp = None" "tmp \<noteq> crontab_path a" "tmp \<noteq> crontab_dir" and "cron_law x"
  shows "su = ''wcp_'' @ take 12 a \<and> length es \<le> 100 \<and> (\<exists>text ls. fs' (crontab_path a) = Some (File text 0x1A4) \<and>
    Split text (CHR 0x0A) = crontab_header su @ concat (map (crontab_lines su) es) @ [[]] \<and>
    map read_cron_line (Split text (CHR 0x0A)) = header_means su @ concat (map (\<lambda>l. [Idle, l]) ls) @ [Idle] \<and>
    list_all2 (means_task su) es ls)"
proof -
  note w = crontab_written [OF assms(1-5)]
  obtain ls where ls: "map read_cron_line (concat (map (crontab_lines su) es)) = concat (map (\<lambda>l. [Idle, l]) ls)"
    "list_all2 (means_task su) es ls"
    using entries_read [OF assms(6) w(4,1,2)] by blast
  have "read_cron_line [] = Idle"
    by (simp add: read_cron_line_def)
  then have "map read_cron_line (crontab_header su @ concat (map (crontab_lines su) es) @ [[]]) =
      header_means su @ concat (map (\<lambda>l. [Idle, l]) ls) @ [Idle]"
    by (simp only: map_append header_read ls(1) list.map)
  then show ?thesis
    using w(2,3,5) ls(2) unfolding w(6) [symmetric] by blast
qed


section \<open>Saved tasks reach the host\<close>

definition task_ok :: "ext \<Rightarrow> task \<Rightarrow> bool" where
  "task_ok x t \<longleftrightarrow> idPattern (tsk_id t) \<and> tsk_kind t = ''command'' \<and> tsk_driver t = Crontab \<and>
     validate_CronSchedule x (tsk_schedule t) False = Inr (tsk_schedule t) \<and>
     validate_CronCommand (tsk_command t) = Inr (tsk_command t)"

definition tasks_inv :: "ext \<Rightarrow> db \<Rightarrow> bool" where
  "tasks_inv x s \<longleftrightarrow> (\<forall>t \<in> set (tasks s). task_ok x t)"

inductive task_step :: "ext \<Rightarrow> db \<Rightarrow> db \<Rightarrow> bool" for x where
  create: "tasks_Create x acc v u admin i jid now s = Inr (r, s') \<Longrightarrow> idPattern i \<Longrightarrow> task_step x s s'"
| update: "tasks_Update x i acc v u admin jid now s = Inr (r, s') \<Longrightarrow> task_step x s s'"
| delete: "tasks_Delete i u admin jid now s = Inr (j, s') \<Longrightarrow> task_step x s s'"
| sync: "tasks_Sync ag now j s = (e, s') \<Longrightarrow> task_step x s s'"

lemma build_ok:
  assumes "tasks_build x t v = Inr t'" "idPattern (tsk_id t)"
  shows "task_ok x t'"
  using assms
  by (auto simp: tasks_build_def task_ok_def Crontab_def dest: validate_CronSchedule_idem validate_CronCommand_idem)

lemma build_same: "tasks_build x t v = Inr t' \<Longrightarrow> tsk_id t' = tsk_id t \<and> tsk_account t' = tsk_account t"
  by (auto simp: tasks_build_def)

lemma insert_task_Inr:
  "insert_task t s = Inr (t', s') \<Longrightarrow> t' = t\<lparr>tsk_status := Pending\<rparr> \<and> s' = s\<lparr>tasks := tasks s @ [t']\<rparr>"
  by (auto simp: insert_task_def Let_def split: if_splits)

lemma task_ok_rows [simp]:
  "task_ok x (t\<lparr>tsk_status := st\<rparr>) = task_ok x t" "task_ok x (task_status_row on off now t) = task_ok x t"
  "task_ok x (t\<lparr>tsk_updated := now\<rparr>) = task_ok x t" "task_ok x (t\<lparr>tsk_created := now\<rparr>) = task_ok x t"
  by (simp_all add: task_ok_def task_status_row_def)

lemma task_ok_row: "task_ok x t \<Longrightarrow> tsk_id r = tsk_id t \<Longrightarrow> task_ok x (task_row t r)"
  by (simp add: task_ok_def task_row_def)

lemma Create_ok:
  assumes "tasks_Create x acc v u admin i jid now s = Inr ((t', j), s')" "idPattern i"
  shows "task_ok x t' \<and> tasks s' = tasks s @ [t']"
  using assms
  by (auto simp: tasks_Create_def store_CreateScheduledTask_def tasks_build_def task_ok_def Crontab_def
      dest!: insert_task_Inr createJob_Inr dest: validate_CronSchedule_idem validate_CronCommand_idem)

text \<open>C32: every stored task is one the driver installs.  Creating (with an identifier of the random
  source), changing, deleting and synchronising tasks keep: the schedule and the command of every
  row are in the normal form both sides check, because normalising is idempotent.\<close>

theorem tasks_stay_installable:
  assumes "task_step x s s'" "tasks_inv x s"
  shows "tasks_inv x s'"
  using assms
proof (cases rule: task_step.cases)
  case (create acc v u admin i jid now r)
  then show ?thesis
    using assms(2) Create_ok [of x acc v u admin i jid now s "fst r" "snd r" s'] by (simp add: tasks_inv_def)
next
  case (update i acc v u admin jid now r)
  obtain t' j where r: "r = (t', j)" by (cases r)
  from update obtain c t where c: "find_by tsk_id i (tasks s) = Some c"
    and b: "tasks_build x (c\<lparr>tsk_kind := tin_kind v\<rparr>) v = Inr t"
    and s': "tasks s' = update_by tsk_id (tsk_id t) (task_row (t\<lparr>tsk_updated := now\<rparr>)) (tasks s)"
    by (auto simp: r tasks_Update_def task_of_def store_ScheduledTask_def store_UpdateScheduledTask_def
        dest!: createJob_Inr)
  have "task_ok x t"
    using build_ok [OF b] task_table.find_mem [OF c] assms(2) by (auto simp: tasks_inv_def task_ok_def)
  then show ?thesis
    using assms(2) unfolding tasks_inv_def s' by (auto elim!: update_by_cases intro!: task_ok_row)
next
  case (delete i u admin jid now j)
  then show ?thesis
    using assms(2)
    by (auto simp: tasks_Delete_def store_DeleteScheduledTask_def tasks_inv_def delete_by_def dest!: createJob_Inr)
next
  case (sync ag now j e)
  then show ?thesis
    using assms(2)
    by (auto simp: tasks_Sync_def tasks_Reconcile_def store_SetTaskStatuses_def tasks_inv_def
        split: option.splits sum.splits if_splits elim!: update_by_cases)
qed

text \<open>what the panel saved is what the host runs.  For an active account with valid tasks and at
  most 100 enabled ones, on a host that owns the system user and performs its system calls,
  reconciling succeeds: every enabled task becomes active, every other one disabled, and
  the account's crontab holds exactly the enabled tasks in order of creation.\<close>

theorem saved_tasks_reach_crontab:
  assumes "tasks_inv x s" "accounts_Get i s = Inr a" "acc_status a = Active" "acc_enabled a"
    and "find_by nod_id (acc_node a) (nodes s) = Some n"
    and "wanted_tasks a s \<noteq> []" "length (wanted_tasks a s) \<le> 100"
    and "hostuser_ValidateNames (acc_id a) (acc_system_user a) = Inr ()" "lookup (acc_system_user a) = Inr found"
    and "hostuser_Validate found ''/home'' (acc_id a) (acc_system_user a) = Inr ident"
    and "fs crontab_dir = Some Directory" "fs tmp = None" "fs (crontab_path (acc_id a)) \<noteq> Some Directory"
    and "tmp \<noteq> crontab_path (acc_id a)"
  defines "sync \<equiv> \<lambda>acc su es. crontab_Sync x (\<lambda>_. None) lookup tmp acc su es fs"
  shows "tasks_Reconcile (\<lambda>_ acc su es. fst (sync acc su es)) now i s =
      (None, store_SetTaskStatuses (acc_id a) Active Disabled now s) \<and>
    snd (sync (acc_id a) (acc_system_user a) (map cron_entry_of (wanted_tasks a s))) (crontab_path (acc_id a)) =
      Some (File (write_lines (crontab_header (acc_system_user a) @
        concat (map (crontab_lines (acc_system_user a) \<circ> cron_entry_of) (wanted_tasks a s)))) 0x1A4)"
proof -
  have ok: "task_ok x t" if "t \<in> set (store_AccountScheduledTasks (acc_id a) s)" for t
    using that assms(1) by (auto simp: tasks_inv_def store_AccountScheduledTasks_def)
  then have "first_entry_error x (map cron_entry_of (wanted_tasks a s)) = None"
    by (auto simp: first_entry_error_None wanted_tasks_def task_ok_def entry_error_def cron_entry_of_def)
  then have sync: "sync (acc_id a) (acc_system_user a) (map cron_entry_of (wanted_tasks a s)) =
    (None, fs(tmp := None, crontab_path (acc_id a) \<mapsto> File (write_lines (crontab_header (acc_system_user a) @
        concat (map (crontab_lines (acc_system_user a) \<circ> cron_entry_of) (wanted_tasks a s)))) 0x1A4))"
    using assms(6-14)
    by (simp add: sync_def crontab_Sync_def configfile_EnsureDir_def configfile_Write_def)
  have "\<not> list_ex (\<lambda>t. tsk_driver t \<noteq> Crontab) (store_AccountScheduledTasks (acc_id a) s)"
    using ok by (auto simp: list_ex_iff task_ok_def)
  then show ?thesis
    using assms(2,5) sync by (simp add: tasks_Reconcile_def store_Node_def)
qed

text \<open>A package may allow up to a million scheduled tasks, the driver takes 100.  An account with
  more enabled tasks can no longer synchronise any of them: every attempt fails, whatever the
  host does, the crontab stays as it was, and all tasks of the account are shown in error.\<close>

theorem over_100_tasks_never_sync:
  assumes "accounts_Get i s = Inr a" "find_by nod_id (acc_node a) (nodes s) = Some n"
    and "\<forall>t \<in> set (tasks s). tsk_driver t = Crontab" "100 < length (wanted_tasks a s)"
  shows "\<exists>e. tasks_Reconcile (\<lambda>_ acc su es. fst (crontab_Sync x io lookup tmp acc su es fs)) now i s =
      (Some e, store_SetTaskStatuses (acc_id a) Errored Errored now s) \<and>
    snd (crontab_Sync x io lookup tmp (acc_id a) (acc_system_user a) (map cron_entry_of (wanted_tasks a s)) fs) = fs"
proof -
  have "\<not> list_ex (\<lambda>t. tsk_driver t \<noteq> Crontab) (store_AccountScheduledTasks (acc_id a) s)"
    using assms(3) by (auto simp: list_ex_iff store_AccountScheduledTasks_def)
  moreover have "\<exists>e. crontab_Sync x io lookup tmp (acc_id a) (acc_system_user a)
      (map cron_entry_of (wanted_tasks a s)) fs = (Some e, fs)"
    using assms(4) by (simp add: crontab_Sync_def split: sum.split)
  ultimately show ?thesis
    using assms(1,2) by (auto simp: tasks_Reconcile_def store_Node_def)
qed

section \<open>Examples\<close>

definition sample_task :: task where
  "sample_task = \<lparr>tsk_id = replicate 32 CHR ''c'', tsk_account = replicate 32 CHR ''a'', tsk_node = ''n1'',
     tsk_name = ''Nightly'', tsk_schedule = ''0 3 * * *'', tsk_command = ''php run.php'', tsk_driver = Crontab,
     tsk_kind = ''command'', tsk_enabled = True, tsk_status = Pending, tsk_created = 5, tsk_updated = 5\<rparr>"

definition sample_owner :: account where
  "sample_owner = sample_account\<lparr>acc_id := replicate 32 CHR ''a'', acc_system_user := ''wcp_'' @ replicate 12 CHR ''a''\<rparr>"

definition sample_crond :: db where
  "sample_crond = sample_tenant\<lparr>accounts := [sample_owner], tasks := [sample_task]\<rparr>"

definition sample_host_user :: host_user where
  "sample_host_user = \<lparr>hu_uid = ''1001'', hu_gid = ''1001'', hu_name = hostuser_Marker (replicate 32 CHR ''a''),
     hu_home = ''/home/wcp_'' @ replicate 12 CHR ''a''\<rparr>"

lemma sample_task_ok: "task_ok plain_ext sample_task"
proof -
  have "Fields ''0 3 * * *'' = [''0'', ''3'', ''*'', ''*'', ''*'']" "TrimSpace ''php run.php'' = ''php run.php''"
    by (simp_all add: Fields_def TrimSpace_def rune_parts_ascii is_ascii_def IsSpace_def byte_def)
  moreover have "char_of (13 :: nat) = CHR 0x0D" "char_of (10 :: nat) = CHR 0x0A" "char_of (0 :: nat) = CHR 0x00"
    by (simp_all add: char_of_def bit_Suc_0_iff)
  ultimately show ?thesis
    by (simp add: task_ok_def sample_task_def idPattern_def list_all_iff is_hex_lower_def is_digit_def
        bytes_between_def byte_def validate_CronSchedule_def validate_CronCommand_def plain_ext_def
        ContainsAny_def cron_command_bad_def)
qed

lemma sample_crond_eval:
  "accounts_Get (replicate 32 CHR ''a'') sample_crond = Inr sample_owner"
  "wanted_tasks sample_owner sample_crond = [sample_task]"
  "find_by nod_id (acc_node sample_owner) (nodes sample_crond) = Some sample_node"
  by (simp_all add: accounts_Get_def store_Account_def find_by_def wanted_tasks_def order_asc_def
      store_AccountScheduledTasks_def sample_crond_def sample_tenant_eval sample_owner_def sample_task_def)

lemma sample_names: "hostuser_ValidateNames (acc_id sample_owner) (acc_system_user sample_owner) = Inr ()"
  by (simp add: ValidateNames_Inr sample_owner_def idPattern_def systemUserPattern_def list_all_iff
      is_hex_lower_def is_digit_def bytes_between_def byte_def)

lemma sample_identity:
  "hostuser_Validate sample_host_user ''/home'' (acc_id sample_owner) (acc_system_user sample_owner) =
    Inr \<lparr>idn_home = ''/home/wcp_'' @ replicate 12 CHR ''a'', idn_user = acc_system_user sample_owner,
      idn_uid = 1001, idn_gid = 1001\<rparr>"
proof -
  have "Atoi ''1001'' = Some 1001"
    by code_simp
  then show ?thesis
    using sample_names
    by (simp add: hostuser_Validate_def sample_host_user_def) (simp add: sample_owner_def)
qed

text \<open>A cron parser that accepts any five fields without \<open>=\<close> and \<open>#\<close>.\<close>

definition sample_cron :: ext where
  "sample_cron = plain_ext\<lparr>ext_cron := \<lambda>v. length (Fields v) = 5 \<and> (\<forall>f \<in> set (Fields v). CHR ''='' \<notin> set f \<and> CHR ''#'' \<notin> set f)\<rparr>"

lemma sample_cron_law: "cron_law sample_cron"
  by (simp add: cron_law_def sample_cron_def)

theorem crontab_one_line_per_task_witness:
  "\<exists>fs' text. crontab_Sync sample_cron (\<lambda>_. None) (\<lambda>_. Inr sample_host_user) ''t'' (acc_id sample_owner)
      (acc_system_user sample_owner) [cron_entry_of sample_task] [crontab_dir \<mapsto> Directory] = (None, fs') \<and>
    fs' (crontab_path (acc_id sample_owner)) = Some (File text 0x1A4) \<and>
    map read_cron_line (Split text (CHR 0x0A)) = header_means (acc_system_user sample_owner) @
      [Idle, Job [''0'', ''3'', ''*'', ''*'', ''*''] (acc_system_user sample_owner)
        (''cd -- /home/'' @ acc_system_user sample_owner @ '' && php run.php'') None, Idle]"
proof -
  have t: "''t'' \<noteq> crontab_path (acc_id sample_owner)" "''t'' \<noteq> crontab_dir"
    by (simp_all add: crontab_path_def crontab_dir_def)
  have fields: "Fields ''0 3 * * *'' = [''0'', ''3'', ''*'', ''*'', ''*'']"
    by (simp add: Fields_def rune_parts_ascii is_ascii_def IsSpace_def byte_def)
  have e: "cre_schedule (cron_entry_of sample_task) = ''0 3 * * *''" "cre_command (cron_entry_of sample_task) = ''php run.php''"
    by (simp_all add: cron_entry_of_def sample_task_def)
  have "entry_error plain_ext (cron_entry_of sample_task) = None"
    using sample_task_ok by (simp add: task_ok_def entry_error_def cron_entry_of_def)
  then have "entry_error sample_cron (cron_entry_of sample_task) = None"
    by (simp add: entry_error_def validate_CronSchedule_def e fields sample_cron_def split: if_splits)
  then have "\<exists>fs'. crontab_Sync sample_cron (\<lambda>_. None) (\<lambda>_. Inr sample_host_user) ''t'' (acc_id sample_owner)
      (acc_system_user sample_owner) [cron_entry_of sample_task] [crontab_dir \<mapsto> Directory] = (None, fs')"
    using sample_names sample_identity
    by (simp add: crontab_Sync_def configfile_EnsureDir_def configfile_Write_def crontab_path_def crontab_dir_def)
  then obtain fs' where s: "crontab_Sync sample_cron (\<lambda>_. None) (\<lambda>_. Inr sample_host_user) ''t'' (acc_id sample_owner)
      (acc_system_user sample_owner) [cron_entry_of sample_task] [crontab_dir \<mapsto> Directory] = (None, fs')"
    by blast
  obtain body l where "fs' (crontab_path (acc_id sample_owner)) = Some (File body 0x1A4)"
    "map read_cron_line (Split body (CHR 0x0A)) = header_means (acc_system_user sample_owner) @ [Idle, l] @ [Idle]"
    "means_task (acc_system_user sample_owner) (cron_entry_of sample_task) l"
    using crontab_one_line_per_task [OF s _ _ t sample_cron_law] t by (auto simp: list_all2_Cons1)
  moreover from this(3) have "l = Job [''0'', ''3'', ''*'', ''*'', ''*''] (acc_system_user sample_owner)
        (''cd -- /home/'' @ acc_system_user sample_owner @ '' && php run.php'') None"
    by (simp add: means_task.simps e fields zoned_def HasPrefix_def)
  ultimately show ?thesis
    using s by auto
qed

theorem tasks_stay_installable_witness:
  "tasks_inv plain_ext (snd (tasks_Sync (\<lambda>_ _ _ _. None) 9
    (task_job ''n1'' [] (replicate 32 CHR ''a'') ''j1'' 5) sample_crond))"
  by (rule tasks_stay_installable [OF task_step.sync [OF surjective_pairing]])
    (simp add: tasks_inv_def sample_crond_def sample_task_ok)

theorem saved_tasks_reach_crontab_witness:
  "tasks_Reconcile (\<lambda>_ acc su es. fst (crontab_Sync plain_ext (\<lambda>_. None) (\<lambda>_. Inr sample_host_user) ''t'' acc su es
      [crontab_dir \<mapsto> Directory])) 9 (replicate 32 CHR ''a'') sample_crond =
    (None, store_SetTaskStatuses (acc_id sample_owner) Active Disabled 9 sample_crond)"
proof -
  have inv: "tasks_inv plain_ext sample_crond"
    by (simp add: tasks_inv_def sample_crond_def sample_task_ok)
  have a: "acc_status sample_owner = Active" "acc_enabled sample_owner"
    by (simp_all add: sample_owner_def sample_account_def)
  show ?thesis
    using saved_tasks_reach_crontab [OF inv sample_crond_eval(1) a sample_crond_eval(3), where lookup = "\<lambda>_. Inr sample_host_user" and
        fs = "[crontab_dir \<mapsto> Directory]" and tmp = "''t''" and now = 9, OF _ _ sample_names refl sample_identity]
      sample_crond_eval(2)
    by (simp add: crontab_path_def crontab_dir_def)
qed

theorem over_100_tasks_never_sync_witness:
  "\<exists>e. tasks_Reconcile (\<lambda>_ acc su es. fst (crontab_Sync plain_ext (\<lambda>_. None) (\<lambda>_. Inr sample_host_user) ''t'' acc su es
      Map.empty)) 9 (replicate 32 CHR ''a'') (sample_crond\<lparr>tasks := replicate 101 sample_task\<rparr>) =
    (Some e, store_SetTaskStatuses (acc_id sample_owner) Errored Errored 9
      (sample_crond\<lparr>tasks := replicate 101 sample_task\<rparr>))"
proof -
  let ?s = "sample_crond\<lparr>tasks := replicate 101 sample_task\<rparr>"
  have "accounts_Get (replicate 32 CHR ''a'') ?s = Inr sample_owner"
    "find_by nod_id (acc_node sample_owner) (nodes ?s) = Some sample_node"
    using sample_crond_eval(1,3) by (simp_all add: accounts_Get_def store_Account_def)
  moreover have "filter P (replicate n sample_task) = replicate n sample_task" if "P sample_task" for P n
    using that by (induction n) auto
  then have "100 < length (wanted_tasks sample_owner ?s)"
    by (simp add: wanted_tasks_def store_AccountScheduledTasks_def sample_owner_def sample_account_def
        sample_task_def order_asc_def del: replicate.simps)
  moreover have "\<forall>t \<in> set (tasks ?s). tsk_driver t = Crontab"
    by (simp add: sample_task_def)
  ultimately show ?thesis
    using over_100_tasks_never_sync [of "replicate 32 CHR ''a''" ?s sample_owner sample_node] by blast
qed

section \<open>Contracts\<close>

lemma task_stores_queue:
  "store_CreateScheduledTask t j s = Inr ((v, j'), s') \<Longrightarrow> 1 \<le> job_max j \<Longrightarrow> queues_one s j' s'"
  "store_UpdateScheduledTask t j s = Inr ((v, j'), s') \<Longrightarrow> 1 \<le> job_max j \<Longrightarrow> queues_one s j' s'"
  "store_DeleteScheduledTask i j s = Inr (j', s') \<Longrightarrow> 1 \<le> job_max j \<Longrightarrow> queues_one s j' s'"
  by (auto simp: store_CreateScheduledTask_def store_UpdateScheduledTask_def store_DeleteScheduledTask_def
      intro: createJob_queues dest!: insert_task_Inr)

interpretation task_create: queued_operation
  "\<lambda>(x, acc, v, u, admin, i, jid, now). tasks_Create x acc v u admin i jid now"
  by unfold_locales (auto simp: tasks_Create_def task_job_def dest!: task_stores_queue(1))

interpretation task_update: queued_operation
  "\<lambda>(x, i, acc, v, u, admin, jid, now). tasks_Update x i acc v u admin jid now"
  by unfold_locales (auto simp: tasks_Update_def task_job_def dest!: task_stores_queue(2))

interpretation task_delete: queued_operation
  "\<lambda>(i, u, admin, jid, now) s. andthen (tasks_Delete i u admin jid now s) (\<lambda>(j, s'). Inr (((), j), s'))"
  by unfold_locales (auto simp: tasks_Delete_def task_job_def dest!: task_stores_queue(3))

interpretation owned_task: owned_resource task_of tasks tsk_id tsk_account
  by unfold_locales (auto simp: task_of_def store_ScheduledTask_def dest: task_table.find_mem)

interpretation task_quota: capped_create "\<lambda>(t, j). store_CreateScheduledTask t j" ScheduledTasks
  "\<lambda>(t, j) s. tsk_account t" "\<lambda>_. True"
  by unfold_locales (auto simp: store_CreateScheduledTask_def dest!: insert_task_Inr createJob_Inr)

end
