(* ===== verification/Ftp.thy ===== *)
theory Ftp
  imports Databases Host "HOL-Library.AList"
begin

text \<open>
  FTP logins: \<open>internal/ftp/service.go\<close>, \<open>store/sqlite/ftp.go\<close> and the agent's driver
  \<open>internal/agent/ftp/pureftpd\<close>.  Logins are virtual users of one system user.  A change is
  refused while a synchronisation of the same account is queued or running, so changes to an
  account are applied one at a time.  Of the view \<open>ftp_overviews\<close> the model keeps the join with
  \<open>accounts\<close> but not its three display columns.  The driver works on the decoded account files;
  a failed rebuild restores the previous file (\<open>Host.snapshot_restores\<close>), so it is modelled as no
  change.
\<close>

interpretation ftp_table: table ftp_accounts "\<lambda>rs s. s\<lparr>ftp_accounts := rs\<rparr>" ftp_id
  by unfold_locales auto

section \<open>Store operations\<close>

text \<open>\<open>FTPBusy\<close>: a queued or running \<open>ftp.sync\<close> job whose payload names the account.\<close>

definition ftp_job_of :: "ident \<Rightarrow> job \<Rightarrow> bool" where
  "ftp_job_of a j \<longleftrightarrow> job_kind_of j = KindFTPSync \<and> (job_status j = Queued \<or> job_status j = Running) \<and>
     map_of (job_payload j) ''accountId'' = Some (JStr a)"

definition FTPBusy :: "ident \<Rightarrow> db \<Rightarrow> bool" where
  "FTPBusy a s \<longleftrightarrow> list_ex (ftp_job_of a) (jobs s)"

definition FTPNameExists :: "ident \<Rightarrow> string \<Rightarrow> ident \<Rightarrow> db \<Rightarrow> bool" where
  "FTPNameExists node name i s \<longleftrightarrow>
     list_ex (\<lambda>f. ftp_node f = node \<and> nocase (ftp_username f) = nocase name \<and> ftp_id f \<noteq> i) (ftp_accounts s)"

definition requireFTP :: "ftp_account \<Rightarrow> bool \<Rightarrow> db \<Rightarrow> err + unit" where
  "requireFTP v creating s =
     andthen (store_Account (ftp_account_id v) s) (\<lambda>a.
     andthen (fail_when ((acc_status a \<noteq> Active \<and> acc_status a \<noteq> Disabled) \<or>
       creating \<and> (acc_status a \<noteq> Active \<or> \<not> acc_enabled a)) AccErrBusy) (\<lambda>_.
     andthen (fail_when (FTPBusy (ftp_account_id v) s) FtpErrBusy) (\<lambda>_.
     fail_when (FTPNameExists (ftp_node v) (ftp_username v) (ftp_id v) s) FtpErrNameExists)))"

definition insert_ftp :: "ftp_account \<Rightarrow> db \<Rightarrow> err + db" where
  "insert_ftp v s =
     (if exists_by ftp_id (ftp_id v) (ftp_accounts s) \<or>
        list_ex (\<lambda>f. ftp_node f = ftp_node v \<and> nocase (ftp_username f) = nocase (ftp_username v)) (ftp_accounts s)
      then Inl UniqueViolation
      else if \<not> exists_by acc_id (ftp_account_id v) (accounts s) \<or> \<not> exists_by nod_id (ftp_node v) (nodes s)
      then Inl ForeignKeyViolation
      else Inr (s\<lparr>ftp_accounts := ftp_accounts s @ [v\<lparr>ftp_status := Pending, ftp_deleting := False\<rparr>]\<rparr>))"

definition store_FTP :: "ident \<Rightarrow> db \<Rightarrow> err + ftp_account" where
  "store_FTP i s =
     some_or ErrNoRows (List.find (\<lambda>f. ftp_id f = i \<and> exists_by acc_id (ftp_account_id f) (accounts s))
       (ftp_accounts s))"

definition store_CreateFTP :: "ftp_account \<Rightarrow> job \<Rightarrow> db \<Rightarrow> err + ((ftp_account \<times> job) \<times> db)" where
  "store_CreateFTP v j s =
     andthen (requireFTP v True s) (\<lambda>_.
     andthen (requireCapacity FTPAccounts (ftp_account_id v) s) (\<lambda>_.
     andthen (insert_ftp v s) (\<lambda>s1.
     andthen (createJob j s1) (\<lambda>(j', s2).
     andthen (store_FTP (ftp_id v) s2) (\<lambda>r.
     Inr ((r, j'), s2))))))"

record ftp_changes =
  chg_username :: "string option"
  chg_hash :: "string option"
  chg_enabled :: "bool option"
  chg_deleting :: bool

definition changed_ftp :: "ftp_changes \<Rightarrow> msec \<Rightarrow> ftp_account \<Rightarrow> ftp_account" where
  "changed_ftp c now f = f\<lparr>
     ftp_username := (case chg_username c of None \<Rightarrow> ftp_username f | Some v \<Rightarrow> v),
     ftp_hash := (case chg_hash c of None \<Rightarrow> ftp_hash f | Some v \<Rightarrow> v),
     ftp_enabled := (case chg_enabled c of None \<Rightarrow> ftp_enabled f | Some v \<Rightarrow> v),
     ftp_deleting := chg_deleting c, ftp_status := Pending, ftp_updated := now\<rparr>"

definition store_ChangeFTP ::
  "ident \<Rightarrow> ftp_changes \<Rightarrow> job \<Rightarrow> msec \<Rightarrow> db \<Rightarrow> err + ((ftp_account \<times> job) \<times> db)" where
  "store_ChangeFTP i c j now s =
     andthen (store_FTP i s) (\<lambda>f.
     andthen (fail_when (ftp_deleting f \<and> \<not> chg_deleting c) FtpErrDeleting) (\<lambda>_.
     andthen (requireFTP (changed_ftp c now f) False s) (\<lambda>_.
     andthen (createJob j (s\<lparr>ftp_accounts := update_by ftp_id i (\<lambda>_. changed_ftp c now f) (ftp_accounts s)\<rparr>)) (\<lambda>(j', s').
     Inr ((changed_ftp c now f, j'), s')))))"

definition store_FTPPage :: "ident \<Rightarrow> bool \<Rightarrow> query \<Rightarrow> db \<Rightarrow> ftp_account result" where
  "store_FTPPage u admin q s =
     store_page (order_asc ftp_created (order_asc ftp_id
       (filter (\<lambda>f. visible_account u admin s (ftp_account_id f)) (ftp_accounts s)))) q"

definition store_AccountFTP :: "ident \<Rightarrow> db \<Rightarrow> ftp_account list" where
  "store_AccountFTP a s =
     order_asc ftp_created (order_asc ftp_id (filter (\<lambda>f. ftp_account_id f = a \<and>
       exists_by acc_id (ftp_account_id f) (accounts s)) (ftp_accounts s)))"

definition finish_row :: "bool \<Rightarrow> msec \<Rightarrow> ftp_account \<Rightarrow> ftp_account" where
  "finish_row failed now f = f\<lparr>ftp_status := (if failed then Errored else if ftp_enabled f then Active else Disabled),
     ftp_updated := now\<rparr>"

definition store_FinishFTP :: "ident \<Rightarrow> bool \<Rightarrow> msec \<Rightarrow> db \<Rightarrow> db" where
  "store_FinishFTP a failed now s =
     s\<lparr>ftp_accounts := update_by ftp_account_id a (finish_row failed now)
       (if failed then ftp_accounts s
        else filter (\<lambda>f. \<not> (ftp_account_id f = a \<and> ftp_deleting f)) (ftp_accounts s))\<rparr>"

section \<open>Service\<close>

definition ftp_of :: "ident \<Rightarrow> ident \<Rightarrow> bool \<Rightarrow> db \<Rightarrow> err + ftp_account" where
  "ftp_of i u admin s =
     andthen (validate_ID ''ftpAccountId'' i) (\<lambda>_.
     andthen (store_FTP i s) (\<lambda>f.
     andthen (accounts_Account (ftp_account_id f) u admin s) (\<lambda>_. Inr f)))"

definition ftp_passwordHash :: "ext \<Rightarrow> string \<Rightarrow> string \<Rightarrow> err + string" where
  "ftp_passwordHash x salt password =
     andthen (validate_Password password) (\<lambda>_. Inr (HashPassword x salt password))"

definition ftp_syncJob :: "ident \<Rightarrow> ident \<Rightarrow> ident \<Rightarrow> ident \<Rightarrow> msec \<Rightarrow> job" where
  "ftp_syncJob node u a jid now = new_job jid node u KindFTPSync (account_payload a) 2 now"

definition ftp_Create ::
  "ext \<Rightarrow> ident \<Rightarrow> string \<Rightarrow> string \<Rightarrow> ident \<Rightarrow> bool \<Rightarrow> bool \<Rightarrow> string \<Rightarrow> ident \<Rightarrow> ident \<Rightarrow> msec \<Rightarrow> db \<Rightarrow>
    err + ((ftp_account \<times> job) \<times> db)" where
  "ftp_Create x acc username password u admin enabled salt i jid now s =
     andthen (accounts_Account acc u admin s) (\<lambda>a.
     andthen (fail_when (acc_status a \<noteq> Active \<or> \<not> acc_enabled a) AccErrBusy) (\<lambda>_.
     andthen (validate_Username x username) (\<lambda>name.
     andthen (ftp_passwordHash x salt password) (\<lambda>hash.
     store_CreateFTP
       \<lparr>ftp_id = i, ftp_account_id = acc_id a, ftp_node = acc_node a, ftp_username = name, ftp_hash = hash,
        ftp_enabled = enabled, ftp_deleting = False, ftp_status = Pending, ftp_created = now, ftp_updated = now\<rparr>
       (ftp_syncJob (acc_node a) u (acc_id a) jid now) s))))"

definition ftp_change :: "ftp_account \<Rightarrow> ident \<Rightarrow> ftp_changes \<Rightarrow> ident \<Rightarrow> msec \<Rightarrow> db \<Rightarrow> err + ((ftp_account \<times> job) \<times> db)" where
  "ftp_change f u c jid now s =
     store_ChangeFTP (ftp_id f) c (ftp_syncJob (ftp_node f) u (ftp_account_id f) jid now) now s"

text \<open>The optional fields of the PATCH body are options, validated in the order of the code.\<close>

definition optional :: "('a \<Rightarrow> err + 'b) \<Rightarrow> 'a option \<Rightarrow> err + 'b option" where
  "optional f v = (case v of None \<Rightarrow> Inr None | Some a \<Rightarrow> andthen (f a) (\<lambda>b. Inr (Some b)))"

definition ftp_Update ::
  "ext \<Rightarrow> ident \<Rightarrow> ident \<Rightarrow> bool \<Rightarrow> string option \<Rightarrow> string option \<Rightarrow> bool option \<Rightarrow> string \<Rightarrow> ident \<Rightarrow> msec \<Rightarrow> db \<Rightarrow>
    err + ((ftp_account \<times> job) \<times> db)" where
  "ftp_Update x i u admin username password enabled salt jid now s =
     andthen (ftp_of i u admin s) (\<lambda>current.
     andthen (fail_when (username = None \<and> password = None \<and> enabled = None)
       (ValidationErr ''body'' ''Provide a username, password or enabled state'')) (\<lambda>_.
     andthen (optional (validate_Username x) username) (\<lambda>name.
     andthen (optional (ftp_passwordHash x salt) password) (\<lambda>hash.
     ftp_change current u \<lparr>chg_username = name, chg_hash = hash, chg_enabled = enabled, chg_deleting = False\<rparr>
       jid now s))))"

definition ftp_Delete :: "ident \<Rightarrow> ident \<Rightarrow> bool \<Rightarrow> ident \<Rightarrow> msec \<Rightarrow> db \<Rightarrow> err + (job \<times> db)" where
  "ftp_Delete i u admin jid now s =
     andthen (ftp_of i u admin s) (\<lambda>current.
     andthen (ftp_change current u \<lparr>chg_username = None, chg_hash = None, chg_enabled = None, chg_deleting = True\<rparr>
       jid now s) (\<lambda>((_, j), s'). Inr (j, s')))"

definition ftp_Page :: "ident \<Rightarrow> bool \<Rightarrow> query \<Rightarrow> db \<Rightarrow> ftp_account result" where
  "ftp_Page u admin q s = store_FTPPage u admin q s"

record ftp_entry =
  fte_id :: ident
  fte_username :: string
  fte_hash :: string
  fte_enabled :: bool

type_synonym ftp_agent = "string \<Rightarrow> ident \<Rightarrow> string \<Rightarrow> ftp_entry list \<Rightarrow> err option"

definition ftp_entry_of :: "ftp_account \<Rightarrow> ftp_entry" where
  "ftp_entry_of f = \<lparr>fte_id = ftp_id f, fte_username = ftp_username f, fte_hash = ftp_hash f, fte_enabled = ftp_enabled f\<rparr>"

definition ftp_entries :: "ident \<Rightarrow> db \<Rightarrow> ftp_entry list" where
  "ftp_entries a s = map ftp_entry_of (filter (\<lambda>f. \<not> ftp_deleting f) (store_AccountFTP a s))"

definition ftp_reconcile :: "ftp_agent \<Rightarrow> ident \<Rightarrow> db \<Rightarrow> err option" where
  "ftp_reconcile ag i s =
     (case accounts_Get i s of
        Inl e \<Rightarrow> Some e
      | Inr a \<Rightarrow>
          (case store_Node (acc_node a) s of
            Inl e \<Rightarrow> Some e
          | Inr n \<Rightarrow> ag (nod_endpoint n) i (acc_system_user a) (ftp_entries i s)))"

definition ftp_Sync :: "ftp_agent \<Rightarrow> msec \<Rightarrow> job \<Rightarrow> db \<Rightarrow> err option \<times> db" where
  "ftp_Sync ag now j s =
     (case payload_string ''accountId'' (job_payload j) of
        None \<Rightarrow> (Some (Plain ''invalid FTP sync payload''), s)
      | Some i \<Rightarrow>
          if \<not> idPattern i then (Some (Plain ''invalid FTP sync payload''), s)
          else (case ftp_reconcile ag i s of
            Some _ \<Rightarrow> (Some (Plain ''FTP synchronization failed; check the Agent and retry the change''),
              store_FinishFTP i True now s)
          | None \<Rightarrow> (None, store_FinishFTP i False now s)))"

section \<open>The Pure-FTPd driver\<close>

text \<open>An account file, decoded; \<open>Entries\<close> is \<open>nil\<close> until the first synchronisation.\<close>

record ftp_state =
  fst_id :: ident
  fst_user :: string
  fst_suspended :: bool
  fst_entries :: "ftp_entry list option"

type_synonym ftp_files = "(ident \<times> ftp_state) list"

fun check_logins :: "ext \<Rightarrow> ident list \<Rightarrow> string list \<Rightarrow> ftp_entry list \<Rightarrow> err option" where
  "check_logins x ids names [] = None"
| "check_logins x ids names (e # es) =
     (if \<not> idPattern (fte_id e) \<or> fte_id e \<in> set ids
      then Some (ValidationErr ''id'' ''FTP login IDs must be valid and unique'')
      else case validate_Username x (fte_username e) of
        Inl m \<Rightarrow> Some m
      | Inr name \<Rightarrow>
          if name \<noteq> fte_username e
          then Some (ValidationErr ''username'' ''Use a lowercase FTP username without surrounding whitespace'')
          else if fte_username e \<in> set names
          then Some (ValidationErr ''username'' ''FTP usernames must be unique'')
          else if \<not> ValidPasswordHash (fte_hash e)
          then Some (ValidationErr ''passwordHash'' ''The password hash is invalid'')
          else check_logins x (fte_id e # ids) (fte_username e # names) es)"

definition pureftpd_checkEntries :: "ext \<Rightarrow> ftp_entry list option \<Rightarrow> err option" where
  "pureftpd_checkEntries x v =
     (case v of
        None \<Rightarrow> Some (ValidationErr ''entries'' ''Provide at most 100 FTP logins'')
      | Some es \<Rightarrow>
          if 100 < length es then Some (ValidationErr ''entries'' ''Provide at most 100 FTP logins'')
          else check_logins x [] [] es)"

text \<open>
  The file of an account as the driver reads it.  That the directory of the files is secure, and the
  file readable JSON, is taken for granted: these failures end every operation before it changes
  anything, and are not modelled.
\<close>

definition pureftpd_read :: "ext \<Rightarrow> ftp_files \<Rightarrow> ident \<Rightarrow> string \<Rightarrow> err + ftp_state" where
  "pureftpd_read x files a su =
     (case map_of files a of
        None \<Rightarrow> Inr \<lparr>fst_id = a, fst_user = su, fst_suspended = False, fst_entries = None\<rparr>
      | Some v \<Rightarrow>
          if fst_id v \<noteq> a \<or> fst_user v \<noteq> su \<or> pureftpd_checkEntries x (fst_entries v) \<noteq> None
          then Inl (Plain ''FTP account state has an invalid ownership marker or entries'')
          else Inr v)"

text \<open>What the driver asks of the host, with \<open>fsx.OpenDir\<close> of the home as one answer.\<close>

record ftp_host =
  fho_lookup :: "string \<Rightarrow> err + host_user"
  fho_open :: "string \<Rightarrow> err option"
  fho_searchable :: "string \<Rightarrow> err + bool"
  fho_prepare :: "err option"
  fho_publish :: "string list \<Rightarrow> err option"
  fho_disconnect :: "int \<Rightarrow> err option"
  fho_remove :: "ident \<Rightarrow> err option"

definition pureftpd_identity :: "ftp_host \<Rightarrow> ident \<Rightarrow> string \<Rightarrow> err + identity" where
  "pureftpd_identity h a su =
     andthen (hostuser_ValidateNames a su) (\<lambda>_.
     andthen (map_err (Wrapped ''lookup FTP account identity'') (fho_lookup h su)) (\<lambda>found.
     andthen (hostuser_Validate found ''/home'' a su) (\<lambda>i.
     case fho_open h (idn_home i) of Some e \<Rightarrow> Inl e | None \<Rightarrow> Inr i)))"

definition ftp_line :: "identity \<Rightarrow> ftp_entry \<Rightarrow> string" where
  "ftp_line i e = fte_username e @ '':'' @ fte_hash e @ '':'' @ int_text (idn_uid i) @ '':'' @ int_text (idn_gid i) @
     '':WEBYCP-'' @ fte_id e @ '':'' @ idn_home i @ ''/./:::::::::::::''"

fun clash :: "string list \<Rightarrow> ftp_entry list \<Rightarrow> bool" where
  "clash names [] = False"
| "clash names (e # es) = (fte_username e \<in> set names \<or> clash (fte_username e # names) es)"

fun rebuild_lines :: "ext \<Rightarrow> ftp_host \<Rightarrow> ftp_files \<Rightarrow> string list \<Rightarrow> ident list \<Rightarrow> err + string list" where
  "rebuild_lines x h files names [] = Inr []"
| "rebuild_lines x h files names (a # as) =
     (if \<not> idPattern a then Inl (Plain ''unexpected file in FTP account state'')
      else
        andthen (pureftpd_read x files a (''wcp_'' @ take 12 a)) (\<lambda>v.
        let es = (case fst_entries v of None \<Rightarrow> [] | Some es \<Rightarrow> es) in
        if clash names es then Inl (ValidationErr ''username'' ''The FTP username is already assigned'')
        else
          andthen (if fst_suspended v \<or> es = [] then Inr []
            else andthen (pureftpd_identity h (fst_id v) (fst_user v)) (\<lambda>i.
              Inr (map (ftp_line i) (filter fte_enabled es)))) (\<lambda>ls.
          andthen (rebuild_lines x h files (map fte_username es @ names) as) (\<lambda>rest. Inr (ls @ rest)))))"

definition pureftpd_rebuild :: "ext \<Rightarrow> ftp_host \<Rightarrow> ftp_files \<Rightarrow> err + string list" where
  "pureftpd_rebuild x h files =
     andthen (rebuild_lines x h files [] (sort (map fst files))) (\<lambda>ls.
     case fho_publish h (sort ls) of Some e \<Rightarrow> Inl e | None \<Rightarrow> Inr (sort ls))"

text \<open>The driver's state: the account files and the compiled authentication database.\<close>

type_synonym ftp_driver = "ftp_files \<times> string list"

definition pureftpd_save :: "ext \<Rightarrow> ftp_host \<Rightarrow> ftp_state \<Rightarrow> ftp_driver \<Rightarrow> err option \<times> ftp_driver" where
  "pureftpd_save x h v d =
     (case fho_prepare h of
        Some e \<Rightarrow> (Some e, d)
      | None \<Rightarrow>
          let files = AList.update (fst_id v) v (fst d) in
          (case pureftpd_rebuild x h files of
            Inl e \<Rightarrow> (Some e, d)
          | Inr ls \<Rightarrow>
              (case pureftpd_identity h (fst_id v) (fst_user v) of
                Inl e \<Rightarrow> (Some e, (files, ls))
              | Inr i \<Rightarrow> (fho_disconnect h (idn_uid i), (files, ls)))))"

definition pureftpd_Sync ::
  "ext \<Rightarrow> ftp_host \<Rightarrow> ident \<Rightarrow> string \<Rightarrow> ftp_entry list option \<Rightarrow> ftp_driver \<Rightarrow> err option \<times> ftp_driver" where
  "pureftpd_Sync x h a su es d =
     (case pureftpd_identity h a su of
        Inl e \<Rightarrow> (Some e, d)
      | Inr _ \<Rightarrow>
     (case pureftpd_checkEntries x es of
        Some e \<Rightarrow> (Some e, d)
      | None \<Rightarrow>
     (case pureftpd_read x (fst d) a su of
        Inl e \<Rightarrow> (Some e, d)
      | Inr v \<Rightarrow>
     (case fho_searchable h (''/home/'' @ su) of
        Inl e \<Rightarrow> (Some e, d)
      | Inr searchable \<Rightarrow>
          if \<not> searchable \<and> \<not> fst_suspended v
          then (Some (ValidationErr ''accountId'' ''The account must be active before changing FTP logins''), d)
          else pureftpd_save x h (v\<lparr>fst_entries := es\<rparr>) d))))"

definition pureftpd_setEnabled ::
  "ext \<Rightarrow> ftp_host \<Rightarrow> ident \<Rightarrow> string \<Rightarrow> bool \<Rightarrow> ftp_driver \<Rightarrow> err option \<times> ftp_driver" where
  "pureftpd_setEnabled x h a su enabled d =
     (if \<not> succeeds (hostuser_ValidateNames a su)
      then (Some (ValidationErr ''accountId'' ''The account identity is invalid''), d)
      else case pureftpd_read x (fst d) a su of
        Inl e \<Rightarrow> (Some e, d)
      | Inr v \<Rightarrow>
          if fst_entries v = None then (None, d)
          else pureftpd_save x h (v\<lparr>fst_suspended := \<not> enabled\<rparr>) d)"

definition pureftpd_Delete :: "ext \<Rightarrow> ftp_host \<Rightarrow> ident \<Rightarrow> string \<Rightarrow> ftp_driver \<Rightarrow> err option \<times> ftp_driver" where
  "pureftpd_Delete x h a su d =
     (if \<not> succeeds (hostuser_ValidateNames a su)
      then (Some (ValidationErr ''accountId'' ''The account identity is invalid''), d)
      else case pureftpd_read x (fst d) a su of
        Inl e \<Rightarrow> (Some e, d)
      | Inr v \<Rightarrow>
          if fst_entries v = None then (None, d)
          else (case pureftpd_save x h (v\<lparr>fst_suspended := True\<rparr>) d of
            (Some e, d') \<Rightarrow> (Some e, d')
          | (None, d') \<Rightarrow>
              (case fho_remove h a of
                Some e \<Rightarrow> (Some e, d')
              | None \<Rightarrow> (None, (AList.delete a (fst d'), snd d')))))"

section \<open>One synchronisation at a time\<close>

definition one_ftp_sync :: "db \<Rightarrow> bool" where
  "one_ftp_sync s \<longleftrightarrow> (\<forall>a. length (filter (ftp_job_of a) (jobs s)) \<le> 1)"

text \<open>
  Requests and the worker: the FTP operations, any other operation (it queues a job of another
  kind, or none), and the statements of the worker on the job table.
\<close>

inductive ftp_queue_step :: "db \<Rightarrow> db \<Rightarrow> bool" where
  create: "ftp_Create x acc username password u admin enabled salt i jid now s = Inr (r, s') \<Longrightarrow> ftp_queue_step s s'"
| update: "ftp_Update x i u admin username password enabled salt jid now s = Inr (r, s') \<Longrightarrow> ftp_queue_step s s'"
| delete: "ftp_Delete i u admin jid now s = Inr (j, s') \<Longrightarrow> ftp_queue_step s s'"
| other: "queues_one s j s' \<Longrightarrow> job_kind_of j \<noteq> KindFTPSync \<Longrightarrow> ftp_queue_step s s'"
| internal: "jobs s' = jobs s \<Longrightarrow> ftp_queue_step s s'"
| claim: "store_ClaimJob now s = Inr (j, s') \<Longrightarrow> ftp_queue_step s s'"
| complete: "ftp_queue_step s (store_CompleteJob i now s)"
| retry: "ftp_queue_step s (store_RetryJob i msg s)"
| give_up: "ftp_queue_step s (store_FailJob i msg now s)"
| restart: "ftp_queue_step s (store_RecoverJobs s)"

lemma length_filter_map_le:
  "(\<And>r. r \<in> set rs \<Longrightarrow> P (f r) \<Longrightarrow> P r) \<Longrightarrow> length (filter P (map f rs)) \<le> length (filter P rs)"
  by (induction rs) auto

lemma one_sync_map:
  assumes "one_ftp_sync s" "jobs s' = map f (jobs s)" "\<And>a r. r \<in> set (jobs s) \<Longrightarrow> ftp_job_of a (f r) \<Longrightarrow> ftp_job_of a r"
  shows "one_ftp_sync s'"
proof -
  have "length (filter (ftp_job_of a) (map f (jobs s))) \<le> length (filter (ftp_job_of a) (jobs s))" for a
    using assms(3) by (rule length_filter_map_le)
  then show ?thesis
    using assms(1,2) unfolding one_ftp_sync_def by (metis le_trans)
qed

lemma ftp_job_rows:
  "ftp_job_of a (complete_row now r) \<Longrightarrow> ftp_job_of a r"
  "ftp_job_of a (retry_row msg r) \<Longrightarrow> ftp_job_of a r"
  "ftp_job_of a (fail_row msg now r) \<Longrightarrow> ftp_job_of a r"
  "ftp_job_of a (recover_row r) \<Longrightarrow> ftp_job_of a r"
  by (auto simp: ftp_job_of_def complete_row_def retry_row_def fail_row_def recover_row_def split: if_splits)

lemma one_sync_update:
  assumes "one_ftp_sync s" "jobs s' = update_by job_id i f (jobs s)" "\<And>a r. ftp_job_of a (f r) \<Longrightarrow> ftp_job_of a r"
  shows "one_ftp_sync s'"
  using assms by (intro one_sync_map [OF assms(1), of s' "\<lambda>r. if job_id r = i then f r else r"])
    (auto simp: update_by_def split: if_splits)

lemma requireFTP_idle: "requireFTP v c s = Inr u \<Longrightarrow> filter (ftp_job_of (ftp_account_id v)) (jobs s) = []"
  by (auto simp: requireFTP_def FTPBusy_def list_ex_iff filter_empty_conv)

lemma one_sync_snoc:
  assumes "one_ftp_sync s" "jobs s' = jobs s @ [new_job_row (ftp_syncJob node u a jid now)]"
    "filter (ftp_job_of a) (jobs s) = []"
  shows "one_ftp_sync s'"
  unfolding one_ftp_sync_def
proof
  fix b
  show "length (filter (ftp_job_of b) (jobs s')) \<le> 1"
    using assms by (cases "b = a")
      (simp_all add: one_ftp_sync_def ftp_job_of_def ftp_syncJob_def account_payload_def)
qed

lemma insert_ftp_Inr:
  "insert_ftp v s = Inr s' \<Longrightarrow> s' = s\<lparr>ftp_accounts := ftp_accounts s @ [v\<lparr>ftp_status := Pending, ftp_deleting := False\<rparr>]\<rparr>"
  by (auto simp: insert_ftp_def split: if_splits)

lemma ftp_change_sync:
  assumes "ftp_change f u c jid now s = Inr ((r, j), s')" "store_FTP (ftp_id f) s = Inr f" "one_ftp_sync s"
  shows "one_ftp_sync s'"
proof -
  from assms(1,2) have q: "requireFTP (changed_ftp c now f) False s = Inr ()"
    "jobs s' = jobs s @ [new_job_row (ftp_syncJob (ftp_node f) u (ftp_account_id f) jid now)]"
    by (auto simp: ftp_change_def store_ChangeFTP_def dest!: createJob_Inr)
  then show ?thesis
    using one_sync_snoc [OF assms(3) q(2)] requireFTP_idle [OF q(1)] by (simp add: changed_ftp_def)
qed

lemma ftp_of_Inr: "ftp_of i u admin s = Inr f \<Longrightarrow> store_FTP (ftp_id f) s = Inr f \<and> ftp_id f = i"
  by (auto simp: ftp_of_def store_FTP_def dest: find_Some_iff_mem)

text \<open>changes to the FTP logins of an account are serialised.  Whatever the order of requests and of
  the worker's claims, retries and restarts, at most one synchronisation of an account is queued
  or running, so no change is applied over one that is still on its way to the host.\<close>

theorem one_ftp_sync_per_account:
  assumes "ftp_queue_step s s'" "one_ftp_sync s" "queue_inv s"
  shows "one_ftp_sync s'"
  using assms(1)
proof (cases rule: ftp_queue_step.cases)
  case (create x acc username password u admin enabled salt i jid now r)
  obtain f j where r: "r = (f, j)" by (cases r)
  from create obtain v where q: "requireFTP v True s = Inr ()"
    "jobs s' = jobs s @ [new_job_row (ftp_syncJob (ftp_node v) u (ftp_account_id v) jid now)]"
    by (fastforce simp: r ftp_Create_def store_CreateFTP_def dest!: insert_ftp_Inr createJob_Inr)
  then show ?thesis
    using one_sync_snoc [OF assms(2) q(2)] requireFTP_idle [OF q(1)] by simp
next
  case (update x i u admin username password enabled salt jid now r)
  then show ?thesis
    using ftp_change_sync [OF _ _ assms(2)] by (cases r) (auto simp: ftp_Update_def dest: ftp_of_Inr)
next
  case (delete i u admin jid now j)
  then show ?thesis
    using ftp_change_sync [OF _ _ assms(2)] by (auto simp: ftp_Delete_def dest: ftp_of_Inr)
next
  case (other j)
  then show ?thesis
    using assms(2) by (simp add: queues_one_def one_ftp_sync_def ftp_job_of_def)
next
  case internal
  then show ?thesis
    using assms(2) by (simp add: one_ftp_sync_def)
next
  case (claim now j)
  from claim obtain t where t: "claim_target s = Some t"
    and s': "s' = s\<lparr>jobs := update_by job_id (job_id t) (claim_row now) (jobs s)\<rparr>"
    by (rule ClaimJob_Inr)
  have "r = t" if "r \<in> set (jobs s)" "job_id r = job_id t" for r
    using assms(3) claim_target_Some(1) [OF t] that unfolding queue_inv_def by (metis distinct_key_unique)
  then have "ftp_job_of a r" if "r \<in> set (jobs s)" "ftp_job_of a (if job_id r = job_id t then claim_row now r else r)" for a r
    using that claim_target_Some(2) [OF t] by (cases "job_id r = job_id t") (auto simp: ftp_job_of_def claim_row_def runnable_def)
  moreover have "jobs s' = map (\<lambda>r. if job_id r = job_id t then claim_row now r else r) (jobs s)"
    by (simp add: s' update_by_def)
  ultimately show ?thesis
    using one_sync_map [OF assms(2)] by blast
next
  case (complete i now)
  then show ?thesis
    using one_sync_update [OF assms(2), of s' i "complete_row now", OF _ ftp_job_rows(1)] by (simp add: store_CompleteJob_def)
next
  case (retry i msg)
  then show ?thesis
    using one_sync_update [OF assms(2), of s' i "retry_row msg", OF _ ftp_job_rows(2)] by (simp add: store_RetryJob_def)
next
  case (give_up i msg now)
  then show ?thesis
    using one_sync_update [OF assms(2), of s' i "fail_row msg now", OF _ ftp_job_rows(3)] by (simp add: store_FailJob_def)
next
  case restart
  then show ?thesis
    using one_sync_map [OF assms(2), of s' recover_row, OF _ ftp_job_rows(4)] by (simp add: store_RecoverJobs_def)
qed

section \<open>Stored logins satisfy the driver\<close>

definition ftp_row_ok :: "db \<Rightarrow> ftp_account \<Rightarrow> bool" where
  "ftp_row_ok s f \<longleftrightarrow> idPattern (ftp_id f) \<and> usernamePattern (ftp_username f) \<and> ValidPasswordHash (ftp_hash f) \<and>
     map_option acc_node (find_by acc_id (ftp_account_id f) (accounts s)) = Some (ftp_node f)"

definition ftp_inv :: "db \<Rightarrow> bool" where
  "ftp_inv s \<longleftrightarrow> distinct (map ftp_id (ftp_accounts s)) \<and>
     distinct (map (\<lambda>f. (ftp_node f, nocase (ftp_username f))) (ftp_accounts s)) \<and>
     (\<forall>f \<in> set (ftp_accounts s). ftp_row_ok s f) \<and>
     (\<forall>a. count_by ftp_account_id a (ftp_accounts s) \<le> 100) \<and>
     (\<forall>p \<in> set (packages s). lim_ftp_accounts (pkg_limits p) \<le> 100)"

inductive ftp_step :: "ext \<Rightarrow> db \<Rightarrow> db \<Rightarrow> bool" for x where
  create: "ftp_Create x acc username password u admin enabled salt i jid now s = Inr (r, s') \<Longrightarrow>
    idPattern i \<Longrightarrow> length salt = passwordSaltLen \<Longrightarrow> ftp_step x s s'"
| update: "ftp_Update x i u admin username password enabled salt jid now s = Inr (r, s') \<Longrightarrow>
    length salt = passwordSaltLen \<Longrightarrow> ftp_step x s s'"
| delete: "ftp_Delete i u admin jid now s = Inr (j, s') \<Longrightarrow> ftp_step x s s'"
| sync: "ftp_Sync ag now j s = (e, s') \<Longrightarrow> ftp_step x s s'"

lemma username_fixed:
  assumes "usernamePattern n"
  shows "validate_Username x n = Inr n"
proof -
  have n: "n \<noteq> []" "list_all (\<lambda>c. is_lower c \<or> is_digit c \<or> c = CHR ''.'' \<or> c = CHR ''_'' \<or> c = CHR ''-'') n"
    using assms by (cases n; auto simp: usernamePattern_def list_all_iff)+
  then have g: "graphic n"
    by (auto simp: list_all_iff graphic_def is_lower_def is_digit_def bytes_between_def byte_def)
  have "map lower_char n = n"
    using n(2) by (auto simp: list_all_iff lower_char_def is_lower_def is_digit_def bytes_between_def byte_def
        intro!: map_idI)
  moreover have "list_all is_ascii n"
    using n(2) by (auto simp: list_all_iff is_ascii_def is_lower_def is_digit_def bytes_between_def byte_def)
  ultimately show ?thesis
    using assms g by (simp add: validate_Username_def TrimSpace_graphic ToLower_def)
qed

lemma ftp_hash_valid:
  assumes "ftp_passwordHash x salt pw = Inr h" "length salt = passwordSaltLen"
    and "\<And>pw s t m p. length (ext_argon2 x pw s t m p passwordKeyLen) = passwordKeyLen"
  shows "ValidPasswordHash h"
  using assms(1) hash_verifies [OF assms(2,3), of pw]
  by (auto simp: ftp_passwordHash_def VerifyPassword_def ValidPasswordHash_def split: option.splits)

lemma check_logins_None:
  assumes "\<And>e. e \<in> set es \<Longrightarrow> idPattern (fte_id e) \<and> usernamePattern (fte_username e) \<and> ValidPasswordHash (fte_hash e)"
    and "distinct (ids @ map fte_id es)" "distinct (names @ map fte_username es)"
  shows "check_logins x ids names es = None"
  using assms
proof (induction x ids names es rule: check_logins.induct)
  case (2 x ids names e es)
  have "check_logins x (fte_id e # ids) (fte_username e # names) es = None"
    using "2.prems" username_fixed [of "fte_username e" x] by (intro "2.IH") auto
  then show ?case
    using "2.prems" username_fixed [of "fte_username e" x] by simp
qed simp

lemma distinct_order_asc [simp]: "distinct (map g (order_asc k rs)) = distinct (map g rs)"
  by (rule mset_eq_imp_distinct_iff) (simp add: order_asc_def)

lemma AccountFTP_rows: "set (store_AccountFTP a s) \<subseteq> {f \<in> set (ftp_accounts s). ftp_account_id f = a}"
  by (auto simp: store_AccountFTP_def)

lemma ftp_entries_accepted:
  assumes "ftp_inv s"
  shows "pureftpd_checkEntries x (Some (ftp_entries a s)) = None"
proof -
  let ?rs = "filter (\<lambda>f. \<not> ftp_deleting f) (store_AccountFTP a s)"
  have ok: "ftp_row_ok s f \<and> ftp_account_id f = a" if "f \<in> set ?rs" for f
    using that AccountFTP_rows [of a s] assms by (auto simp: ftp_inv_def)
  have ids: "distinct (map ftp_id ?rs)"
    and keys: "distinct (map (\<lambda>f. (ftp_node f, nocase (ftp_username f))) ?rs)"
    using assms by (simp_all add: ftp_inv_def store_AccountFTP_def distinct_map_filter_key)
  have "ftp_node f = ftp_node g" if "f \<in> set ?rs" "g \<in> set ?rs" for f g
    using ok [OF that(1)] ok [OF that(2)] by (auto simp: ftp_row_ok_def)
  with keys have names: "distinct (map ftp_username ?rs)"
    unfolding distinct_map inj_on_def by (metis (mono_tags, lifting))
  have "int (length (store_AccountFTP a s)) \<le> count_by ftp_account_id a (ftp_accounts s)"
    by (simp add: store_AccountFTP_def order_asc_def count_by_def flip: filter_filter)
  moreover have "count_by ftp_account_id a (ftp_accounts s) \<le> 100"
    using assms by (simp add: ftp_inv_def)
  moreover have "length ?rs \<le> length (store_AccountFTP a s)"
    by simp
  ultimately have "length ?rs \<le> 100"
    by linarith
  then have "length (ftp_entries a s) \<le> 100"
    by (simp add: ftp_entries_def)
  moreover have "check_logins x [] [] (ftp_entries a s) = None"
    using ids names ok
    by (intro check_logins_None) (auto simp: ftp_entries_def ftp_entry_of_def ftp_row_ok_def comp_def)
  ultimately show ?thesis
    by (simp add: pureftpd_checkEntries_def)
qed

lemma ftp_row_ok_jobs [simp]: "ftp_row_ok (s\<lparr>ftp_accounts := fs, jobs := js\<rparr>) f = ftp_row_ok s f"
  "ftp_row_ok (s\<lparr>ftp_accounts := fs\<rparr>) f = ftp_row_ok s f"
  by (simp_all add: ftp_row_ok_def)

lemma count_by_update_other:
  assumes "\<And>r. r \<in> set rs \<Longrightarrow> key r = k \<Longrightarrow> g (f r) = g r"
  shows "count_by g a (update_by key k f rs) = count_by g a rs"
  using assms by (induction rs) (auto simp: count_by_def update_by_def)

lemma store_FTP_Inr: "store_FTP i s = Inr f \<Longrightarrow> f \<in> set (ftp_accounts s) \<and> ftp_id f = i"
  by (auto simp: store_FTP_def dest: find_Some_iff_mem)

lemma ftp_inv_change:
  assumes "ftp_inv s" "ftp_change f u c jid now s = Inr (r, s')" "store_FTP (ftp_id f) s = Inr f"
    and "\<And>v. chg_username c = Some v \<Longrightarrow> usernamePattern v" "\<And>v. chg_hash c = Some v \<Longrightarrow> ValidPasswordHash v"
  shows "ftp_inv s'"
proof -
  let ?f = "changed_ftp c now f"
  from assms(2,3) obtain js where req: "requireFTP ?f False s = Inr ()"
    and s': "s' = s\<lparr>ftp_accounts := update_by ftp_id (ftp_id f) (\<lambda>_. ?f) (ftp_accounts s), jobs := js\<rparr>"
    by (cases r) (auto simp: ftp_change_def store_ChangeFTP_def dest!: createJob_Inr)
  have f: "f \<in> set (ftp_accounts s)"
    using store_FTP_Inr [OF assms(3)] by simp
  have same: "ftp_id ?f = ftp_id f" "ftp_account_id ?f = ftp_account_id f" "ftp_node ?f = ftp_node f"
    by (simp_all add: changed_ftp_def)
  have uniq: "g = f" if "g \<in> set (ftp_accounts s)" "ftp_id g = ftp_id f" for g
    using that f assms(1) unfolding ftp_inv_def by (metis distinct_key_unique)
  have ok: "ftp_row_ok s ?f"
    using assms(1,4,5) f by (auto simp: ftp_inv_def ftp_row_ok_def changed_ftp_def split: option.splits)
  have "\<not> FTPNameExists (ftp_node f) (ftp_username ?f) (ftp_id f) s"
    using req same by (auto simp: requireFTP_def)
  then have "distinct (map (\<lambda>f. (ftp_node f, nocase (ftp_username f))) (update_by ftp_id (ftp_id f) (\<lambda>_. ?f) (ftp_accounts s)))"
    using assms(1)
    by (intro update_by_distinct [where c = "(ftp_node f, nocase (ftp_username ?f))"])
      (auto simp: ftp_inv_def FTPNameExists_def list_ex_iff same)
  moreover have "map ftp_id (update_by ftp_id (ftp_id f) (\<lambda>_. ?f) (ftp_accounts s)) = map ftp_id (ftp_accounts s)"
    by (simp add: update_by_def same)
  moreover have "count_by ftp_account_id a (update_by ftp_id (ftp_id f) (\<lambda>_. ?f) (ftp_accounts s)) =
      count_by ftp_account_id a (ftp_accounts s)" for a
    using uniq by (intro count_by_update_other) (auto simp: same)
  ultimately show ?thesis
    using assms(1) ok unfolding s' ftp_inv_def by (auto elim!: update_by_cases)
qed

lemma ftp_inv_create:
  assumes "ftp_inv s" "ftp_Create x acc username password u admin enabled salt i jid now s = Inr (r, s')"
    "idPattern i" "length salt = passwordSaltLen"
    and argon2: "\<And>pw s t m p. length (ext_argon2 x pw s t m p passwordKeyLen) = passwordKeyLen"
  shows "ftp_inv s'"
proof -
  obtain f j where r: "r = (f, j)" by (cases r)
  from assms(2) obtain a name hash where a: "find_by acc_id acc (accounts s) = Some a"
    and ok: "validate_Username x username = Inr name" "ftp_passwordHash x salt password = Inr hash"
    and st: "store_CreateFTP
       \<lparr>ftp_id = i, ftp_account_id = acc_id a, ftp_node = acc_node a, ftp_username = name, ftp_hash = hash,
        ftp_enabled = enabled, ftp_deleting = False, ftp_status = Pending, ftp_created = now, ftp_updated = now\<rparr>
       (ftp_syncJob (acc_node a) u (acc_id a) jid now) s = Inr ((f, j), s')"
    by (auto simp: ftp_Create_def accounts_Account_Inr r)
  let ?f = "\<lparr>ftp_id = i, ftp_account_id = acc_id a, ftp_node = acc_node a, ftp_username = name, ftp_hash = hash,
        ftp_enabled = enabled, ftp_deleting = False, ftp_status = Pending, ftp_created = now, ftp_updated = now\<rparr>"
  from st obtain s1 js where cap: "requireCapacity FTPAccounts (acc_id a) s = Inr ()"
    and ins: "insert_ftp ?f s = Inr s1" and s': "s' = s1\<lparr>jobs := js\<rparr>"
    by (auto simp: store_CreateFTP_def dest!: createJob_Inr)
  from cap obtain l where l: "account_package_limits (acc_id a) s = Some l"
    "count_by ftp_account_id (acc_id a) (ftp_accounts s) < lim_ftp_accounts l"
    by (auto simp: requireCapacity_def split: if_splits option.splits)
  then have "lim_ftp_accounts l \<le> 100"
    using assms(1) package_table.find_mem
    by (fastforce simp: account_package_limits_def ftp_inv_def split: option.splits)
  with l(2) have "count_by ftp_account_id b (ftp_accounts s @ [?f]) \<le> 100" for b
    using assms(1) by (auto simp: ftp_inv_def)
  moreover have "ftp_row_ok s ?f"
    using assms(3) a validate_Username_shape [OF ok(1)] ftp_hash_valid [OF ok(2) assms(4) argon2]
      account_table.find_mem [OF a] by (auto simp: ftp_row_ok_def)
  moreover have "i \<notin> ftp_id ` set (ftp_accounts s)"
    "\<forall>g \<in> set (ftp_accounts s). \<not> (ftp_node g = acc_node a \<and> nocase (ftp_username g) = nocase name)"
    using ins by (auto simp: insert_ftp_def exists_by_iff list_ex_iff split: if_splits)
  ultimately show ?thesis
    using assms(1) insert_ftp_Inr [OF ins] by (auto simp: s' ftp_inv_def)
qed

lemma ftp_inv_finish:
  assumes "ftp_inv s"
  shows "ftp_inv (store_FinishFTP a failed now s)"
proof -
  define rs where "rs = (if failed then ftp_accounts s
    else filter (\<lambda>f. \<not> (ftp_account_id f = a \<and> ftp_deleting f)) (ftp_accounts s))"
  have sub: "set rs \<subseteq> set (ftp_accounts s)" "distinct (map ftp_id rs)"
    "distinct (map (\<lambda>f. (ftp_node f, nocase (ftp_username f))) rs)"
    using assms by (auto simp: rs_def ftp_inv_def distinct_map_filter_key)
  have "length (filter P (filter Q ys)) \<le> length (filter P ys)" for P Q and ys :: "ftp_account list"
    by (induction ys) auto
  then have "count_by ftp_account_id b rs \<le> count_by ftp_account_id b (ftp_accounts s)" for b
    by (simp add: count_by_def rs_def)
  then have "count_by ftp_account_id b rs \<le> 100" for b
    using assms unfolding ftp_inv_def by (meson order_trans)
  moreover have "count_by ftp_account_id b (update_by ftp_account_id a (finish_row failed now) rs) = count_by ftp_account_id b rs" for b
    by (intro count_by_update_other) (simp add: finish_row_def)
  moreover have "ftp_row_ok s f" if "f \<in> set (update_by ftp_account_id a (finish_row failed now) rs)" for f
    using that assms sub(1) by (auto simp: update_by_def ftp_inv_def ftp_row_ok_def finish_row_def)
  moreover have "map ftp_id (update_by ftp_account_id a (finish_row failed now) rs) = map ftp_id rs"
    "map (\<lambda>f. (ftp_node f, nocase (ftp_username f))) (update_by ftp_account_id a (finish_row failed now) rs) =
      map (\<lambda>f. (ftp_node f, nocase (ftp_username f))) rs"
    by (simp_all add: update_by_def finish_row_def)
  moreover have "store_FinishFTP a failed now s = s\<lparr>ftp_accounts := update_by ftp_account_id a (finish_row failed now) rs\<rparr>"
    by (simp add: store_FinishFTP_def rs_def)
  ultimately show ?thesis
    using assms sub(2,3) by (simp add: ftp_inv_def)
qed

lemma optional_Inr: "optional f v = Inr (Some b) \<Longrightarrow> \<exists>a. v = Some a \<and> f a = Inr b"
  by (auto simp: optional_def split: option.splits)

lemma ftp_Update_change:
  assumes "ftp_Update x i u admin username password enabled salt jid now s = Inr (r, s')"
    "length salt = passwordSaltLen"
    and "\<And>pw s t m p. length (ext_argon2 x pw s t m p passwordKeyLen) = passwordKeyLen"
  obtains f c where "ftp_change f u c jid now s = Inr (r, s')" "store_FTP (ftp_id f) s = Inr f"
    "\<And>v. chg_username c = Some v \<Longrightarrow> usernamePattern v" "\<And>v. chg_hash c = Some v \<Longrightarrow> ValidPasswordHash v"
proof -
  from assms(1) obtain f name hash where f: "ftp_of i u admin s = Inr f"
    and n: "optional (validate_Username x) username = Inr name" "optional (ftp_passwordHash x salt) password = Inr hash"
    and c: "ftp_change f u \<lparr>chg_username = name, chg_hash = hash, chg_enabled = enabled, chg_deleting = False\<rparr>
       jid now s = Inr (r, s')"
    by (auto simp: ftp_Update_def)
  show thesis
  proof (rule that [OF c])
    show "store_FTP (ftp_id f) s = Inr f"
      using ftp_of_Inr [OF f] by blast
    show "usernamePattern v" if "chg_username \<lparr>chg_username = name, chg_hash = hash, chg_enabled = enabled, chg_deleting = False\<rparr> = Some v" for v
      using optional_Inr [of "validate_Username x" username v] n(1) that by (auto dest: validate_Username_shape)
    show "ValidPasswordHash v" if "chg_hash \<lparr>chg_username = name, chg_hash = hash, chg_enabled = enabled, chg_deleting = False\<rparr> = Some v" for v
      using optional_Inr [of "ftp_passwordHash x salt" password v] n(2) that
      by (auto dest: ftp_hash_valid [OF _ assms(2,3)])
  qed
qed

text \<open>the driver never refuses what the panel stored.  Every operation on FTP logins keeps their
  rows valid: unique names per node, normal forms, password hashes in the canonical encoding, at
  most 100 logins per account (the quota's upper bound); so the list handed to the agent passes
  the agent's own check.  Argon2 is assumed to return keys of the requested length.\<close>

theorem stored_logins_accepted:
  assumes "ftp_step x s s'" "ftp_inv s"
    and "\<And>pw s t m p. length (ext_argon2 x pw s t m p passwordKeyLen) = passwordKeyLen"
  shows "ftp_inv s' \<and> pureftpd_checkEntries x (Some (ftp_entries a s')) = None"
proof -
  have "ftp_inv s'"
    using assms(1)
  proof (cases rule: ftp_step.cases)
    case (create acc username password u admin enabled salt i jid now r)
    then show ?thesis
      using ftp_inv_create [OF assms(2) create(1) create(2,3) assms(3)] by simp
  next
    case (update i u admin username password enabled salt jid now r)
    from ftp_Update_change [OF update assms(3)] obtain f c where
      "ftp_change f u c jid now s = Inr (r, s')" "store_FTP (ftp_id f) s = Inr f"
      "\<And>v. chg_username c = Some v \<Longrightarrow> usernamePattern v" "\<And>v. chg_hash c = Some v \<Longrightarrow> ValidPasswordHash v"
      by metis
    then show ?thesis
      by (rule ftp_inv_change [OF assms(2)])
  next
    case (delete i u admin jid now j)
    then obtain f r c where "ftp_change f u c jid now s = Inr (r, s')" "store_FTP (ftp_id f) s = Inr f"
      "chg_username c = None" "chg_hash c = None"
      by (fastforce simp: ftp_Delete_def dest!: ftp_of_Inr)
    then show ?thesis
      using ftp_inv_change [OF assms(2)] by fastforce
  next
    case (sync ag now j e)
    then show ?thesis
      using assms(2) by (auto simp: ftp_Sync_def ftp_inv_finish split: option.splits if_splits)
  qed
  then show ?thesis
    by (simp add: ftp_entries_accepted)
qed

section \<open>The published database\<close>

text \<open>Who may log in: an enabled entry of an account file that is not suspended, as the account's own user.\<close>

definition granted :: "ftp_host \<Rightarrow> ftp_files \<Rightarrow> ident \<Rightarrow> ftp_entry \<Rightarrow> identity \<Rightarrow> bool" where
  "granted h files a e i \<longleftrightarrow> (\<exists>v es. map_of files a = Some v \<and> \<not> fst_suspended v \<and> fst_entries v = Some es \<and>
     e \<in> set es \<and> fte_enabled e \<and> pureftpd_identity h a (fst_user v) = Inr i)"

definition line_safe :: "string \<Rightarrow> bool" where
  "line_safe s \<longleftrightarrow> CHR '':'' \<notin> set s \<and> CHR 0x0A \<notin> set s"

lemma line_safe_append [simp]: "line_safe (s @ t) \<longleftrightarrow> line_safe s \<and> line_safe t"
  by (auto simp: line_safe_def)

lemma line_safe_Cons [simp]:
  "line_safe []" "line_safe (c # s) \<longleftrightarrow> c \<noteq> CHR '':'' \<and> c \<noteq> CHR 0x0A \<and> line_safe s"
  by (auto simp: line_safe_def)

lemma digit_line_safe: "is_digit c \<Longrightarrow> c \<noteq> CHR '':'' \<and> c \<noteq> CHR 0x0A"
  by (auto simp: is_digit_def bytes_between_def byte_def)

lemma nat_text_line_safe [simp]: "line_safe (nat_text n)"
  unfolding line_safe_def using nat_text_digits digit_line_safe by blast

lemma int_text_line_safe [simp]: "line_safe (int_text n)"
  by (simp add: int_text_def)

lemma b64_line_safe [simp]: "line_safe (b64_encode s)"
proof -
  have "c \<noteq> CHR '':'' \<and> c \<noteq> CHR 0x0A" if "c \<in> set (b64_encode s)" for c
    using b64_encode_values [OF that]
    by (auto simp: b64_value_def bytes_between_def byte_def split: if_splits)
  then show ?thesis
    by (auto simp: line_safe_def)
qed

lemma hash_line_safe:
  assumes "ValidPasswordHash p"
  shows "line_safe p"
proof -
  from assms obtain m t q a b where
    parts: "Split p (CHR ''$'') = [[], ''argon2id'', ''v=19'', cost_text m t q, b64_encode a, b64_encode b]"
    by (auto simp: ValidPasswordHash_def parsePasswordHash_def canonical_bytes_def
        split: if_splits option.splits list.splits prod.splits)
  have "line_safe (cost_text m t q)"
    by (simp add: cost_text_def)
  with Split_chars [of p "CHR ''$''"] show ?thesis
    using b64_line_safe [of a] b64_line_safe [of b] unfolding parts by (auto simp: line_safe_def)
qed

lemma id_line_safe: "idPattern i \<Longrightarrow> line_safe i"
proof -
  assume "idPattern i"
  then have "c \<noteq> CHR '':'' \<and> c \<noteq> CHR 0x0A" if "c \<in> set i" for c
    using that by (auto simp: idPattern_def list_all_iff is_hex_lower_def is_digit_def bytes_between_def byte_def)
  then show ?thesis
    by (auto simp: line_safe_def)
qed

lemma username_line_safe: "usernamePattern n \<Longrightarrow> line_safe n"
proof -
  assume "usernamePattern n"
  then have "c \<noteq> CHR '':'' \<and> c \<noteq> CHR 0x0A" if "c \<in> set n" for c
    using that by (cases n)
      (auto simp: usernamePattern_def list_all_iff is_lower_def is_digit_def bytes_between_def byte_def)
  then show ?thesis
    by (auto simp: line_safe_def)
qed


lemma Split_Join_fields:
  assumes "fs \<noteq> []" "\<forall>f \<in> set fs. line_safe f"
  shows "Split (Join fs '':'') (CHR '':'') = fs"
  using assms by (induction fs rule: induct_list012) (auto simp: line_safe_def Split_append Split_no_sep)

definition ftp_fields :: "identity \<Rightarrow> ftp_entry \<Rightarrow> string list" where
  "ftp_fields i e = [fte_username e, fte_hash e, int_text (idn_uid i), int_text (idn_gid i),
     ''WEBYCP-'' @ fte_id e, idn_home i @ ''/./''] @ replicate 13 []"

lemma Split_ftp_line:
  assumes "line_safe (fte_username e)" "line_safe (fte_hash e)" "line_safe (fte_id e)" "line_safe (idn_home i)"
  shows "Split (ftp_line i e) (CHR '':'') = ftp_fields i e"
proof -
  have "ftp_line i e = Join (ftp_fields i e) '':''"
    by (simp add: ftp_line_def ftp_fields_def numeral_eq_Suc)
  moreover have "\<forall>f \<in> set (ftp_fields i e). line_safe f" "ftp_fields i e \<noteq> []"
    using assms by (simp_all add: ftp_fields_def)
  ultimately show ?thesis
    using Split_Join_fields by metis
qed

lemma check_logins_ok:
  "check_logins x ids names es = None \<Longrightarrow>
    \<forall>e \<in> set es. idPattern (fte_id e) \<and> usernamePattern (fte_username e) \<and> ValidPasswordHash (fte_hash e)"
proof (induction x ids names es rule: check_logins.induct)
  case (2 x ids names e es)
  from "2.prems" have i: "idPattern (fte_id e) \<and> fte_id e \<notin> set ids"
    by (simp split: if_splits)
  with "2.prems" obtain n where n: "validate_Username x (fte_username e) = Inr n"
    by (cases "validate_Username x (fte_username e)") auto
  with "2.prems" i have e: "n = fte_username e" "fte_username e \<notin> set names" "ValidPasswordHash (fte_hash e)"
    and rest: "check_logins x (fte_id e # ids) (fte_username e # names) es = None"
    by (auto split: if_splits)
  have "\<forall>e \<in> set es. idPattern (fte_id e) \<and> usernamePattern (fte_username e) \<and> ValidPasswordHash (fte_hash e)"
    using i n e rest by (intro "2.IH") auto
  with i n e show ?case
    using validate_Username_shape by auto
qed simp

lemma read_ok:
  assumes "pureftpd_read x files a su = Inr v" "fst_entries v = Some es"
  shows "map_of files a = Some v \<and> fst_id v = a \<and> fst_user v = su \<and>
    (\<forall>e \<in> set es. idPattern (fte_id e) \<and> usernamePattern (fte_username e) \<and> ValidPasswordHash (fte_hash e))"
proof -
  have v: "map_of files a = Some v \<and> fst_id v = a \<and> fst_user v = su \<and> pureftpd_checkEntries x (Some es) = None"
    using assms by (cases "map_of files a") (auto simp: pureftpd_read_def)
  then have "check_logins x [] [] es = None"
    by (simp add: pureftpd_checkEntries_def split: if_splits)
  with v show ?thesis
    using check_logins_ok by blast
qed

lemma not_clash:
  "\<not> clash names es \<Longrightarrow> distinct (map fte_username es) \<and> fte_username ` set es \<inter> set names = {}"
proof (induction es arbitrary: names)
  case (Cons e es)
  from Cons.IH [of "fte_username e # names"] Cons.prems show ?case
    by auto
qed simp

lemma hd_Split_ftp_line: "line_safe (fte_username e) \<Longrightarrow> hd (Split (ftp_line i e) (CHR '':'')) = fte_username e"
  by (simp add: ftp_line_def line_safe_def Split_append)

definition login_name :: "string \<Rightarrow> string" where
  "login_name l = hd (Split l (CHR '':''))"

text \<open>What one account contributes, and the induction over the directory.\<close>

lemma rebuild_one:
  assumes "pureftpd_read x files a su = Inr v"
    and "(if fst_suspended v \<or> es = [] then Inr []
       else andthen (pureftpd_identity h (fst_id v) (fst_user v)) (\<lambda>i. Inr (map (ftp_line i) (filter fte_enabled es)))) = Inr ls"
    and "es = (case fst_entries v of None \<Rightarrow> [] | Some es \<Rightarrow> es)"
  shows "set ls = {ftp_line i e | e i. granted h files a e i}"
    and "\<not> clash names es \<Longrightarrow> distinct (map login_name ls) \<and> login_name ` set ls \<inter> set names = {} \<and>
      login_name ` set ls \<subseteq> fte_username ` set es"
proof -
  have safe: "line_safe (fte_username e)" if "e \<in> set es" for e
    using that read_ok [OF assms(1)] assms(3) username_line_safe by (auto split: option.splits)
  have none: "map_of files a = Some w \<Longrightarrow> w = v" for w
    using assms(1) by (auto simp: pureftpd_read_def split: if_splits)
  have some: "map_of files a = Some v \<and> fst_id v = a" if "fst_entries v \<noteq> None"
    using that read_ok [OF assms(1)] by auto
  consider (empty) "fst_suspended v \<or> es = []" "ls = []"
    | (lines) i where "\<not> fst_suspended v" "fst_entries v = Some es" "pureftpd_identity h (fst_id v) (fst_user v) = Inr i"
        "ls = map (ftp_line i) (filter fte_enabled es)"
    using assms(2,3) by (auto split: if_splits option.splits)
  then have "set ls = {ftp_line i e | e i. granted h files a e i} \<and>
    (\<not> clash names es \<longrightarrow> distinct (map login_name ls) \<and> login_name ` set ls \<inter> set names = {} \<and>
      login_name ` set ls \<subseteq> fte_username ` set es)"
  proof cases
    case empty
    then show ?thesis
      using none assms(3) by (auto simp: granted_def)
  next
    case (lines i)
    have v: "map_of files a = Some v" "fst_id v = a"
      using some lines(2) by auto
    have granted: "granted h files a e k \<longleftrightarrow> e \<in> set es \<and> fte_enabled e \<and> k = i" for e k
      using lines(1-3) v by (auto simp: granted_def)
    have names: "map login_name ls = map fte_username (filter fte_enabled es)"
      using safe by (auto simp: lines(4) login_name_def hd_Split_ftp_line)
    then have "login_name ` set ls = fte_username ` set (filter fte_enabled es)"
      by (metis list.set_map)
    moreover have "set ls = {ftp_line i e | e i. granted h files a e i}"
      unfolding granted by (auto simp: lines(4))
    ultimately show ?thesis
      using names not_clash [of names es] distinct_map_filter_key [of fte_username es fte_enabled] by auto
  qed
  then show "set ls = {ftp_line i e | e i. granted h files a e i}"
    and "\<not> clash names es \<Longrightarrow> distinct (map login_name ls) \<and> login_name ` set ls \<inter> set names = {} \<and>
      login_name ` set ls \<subseteq> fte_username ` set es"
    by blast+
qed

lemma rebuild_lines_granted:
  assumes "rebuild_lines x h files names as = Inr ls"
  shows "set ls = {ftp_line i e | a e i. a \<in> set as \<and> granted h files a e i} \<and>
    distinct (map login_name ls) \<and> login_name ` set ls \<inter> set names = {}"
  using assms
proof (induction as arbitrary: names ls)
  case (Cons a as)
  from Cons.prems obtain v where v: "pureftpd_read x files a (''wcp_'' @ take 12 a) = Inr v"
    by (auto split: if_splits)
  define es where "es = (case fst_entries v of None \<Rightarrow> [] | Some es \<Rightarrow> es)"
  from Cons.prems v obtain l rest where ls: "ls = l @ rest" and free: "\<not> clash names es"
    and one: "(if fst_suspended v \<or> es = [] then Inr []
       else andthen (pureftpd_identity h (fst_id v) (fst_user v)) (\<lambda>i. Inr (map (ftp_line i) (filter fte_enabled es)))) = Inr l"
    and rest: "rebuild_lines x h files (map fte_username es @ names) as = Inr rest"
    by (auto simp: Let_def es_def [symmetric] split: if_splits)
  note here = rebuild_one(1) [OF v one es_def] and names = rebuild_one(2) [OF v one es_def free]
  note IH = Cons.IH [OF rest]
  have "set ls = {ftp_line i e | b e i. b \<in> set (a # as) \<and> granted h files b e i}"
    using here conjunct1 [OF IH] unfolding ls set_append by (simp only: set_simps) blast
  moreover have free_rest: "login_name ` set rest \<inter> (fte_username ` set es \<union> set names) = {}"
    using conjunct2 [OF conjunct2 [OF IH]] by (simp only: set_append set_map list.set_map)
  then have "login_name ` set l \<inter> login_name ` set rest = {}"
    using names by blast
  then have "distinct (map login_name ls)"
    using names IH by (simp add: ls)
  moreover have "login_name ` set ls \<inter> set names = {}"
    using names free_rest by (simp add: ls image_Un) blast
  ultimately show ?case
    by blast
qed simp


lemma rebuild_reads:
  "rebuild_lines x h files names as = Inr ls \<Longrightarrow> a \<in> set as \<Longrightarrow>
    \<exists>v. pureftpd_read x files a (''wcp_'' @ take 12 a) = Inr v"
  by (induction as arbitrary: names ls) (auto simp: Let_def split: if_splits)

lemma granted_line:
  assumes "rebuild_lines x h files names as = Inr ls" "a \<in> set as" "granted h files a e i"
  shows "line_safe (fte_username e) \<and> line_safe (fte_hash e) \<and> line_safe (fte_id e) \<and> line_safe (idn_home i) \<and>
    idn_home i = ''/home/wcp_'' @ take 12 a \<and> 0 < idn_uid i \<and> 0 < idn_gid i"
proof -
  from rebuild_reads [OF assms(1,2)] obtain v where v: "pureftpd_read x files a (''wcp_'' @ take 12 a) = Inr v"
    by blast
  from assms(3) obtain w es where w: "map_of files a = Some w" "fst_entries w = Some es" "e \<in> set es"
    "pureftpd_identity h a (fst_user w) = Inr i"
    by (auto simp: granted_def)
  have "w = v"
    using v w(1) by (auto simp: pureftpd_read_def split: if_splits)
  with read_ok [OF v] w have ok: "fst_user w = ''wcp_'' @ take 12 a"
    "idPattern (fte_id e) \<and> usernamePattern (fte_username e) \<and> ValidPasswordHash (fte_hash e)"
    by auto
  from w(4) obtain found where "hostuser_Validate found ''/home'' a (fst_user w) = Inr i"
    by (auto simp: pureftpd_identity_def split: option.splits)
  then have i: "0 < idn_uid i" "0 < idn_gid i" "idPattern a" "idn_home i = ''/home'' @ ''/'' @ fst_user w"
    by (auto simp: hostuser_Validate_def hostuser_ValidateNames_def validate_ID_def split: option.splits if_splits)
  have "line_safe (take 12 a)"
    using id_line_safe [OF i(3)] by (auto simp: line_safe_def dest: in_set_takeD)
  then show ?thesis
    using i ok by (simp add: hash_line_safe id_line_safe username_line_safe)
qed

text \<open>The compiled database holds the logins the account files grant, and no others.\<close>

definition ftp_published :: "ftp_host \<Rightarrow> ftp_driver \<Rightarrow> bool" where
  "ftp_published h d \<longleftrightarrow> set (snd d) = {ftp_line i e | a e i. granted h (fst d) a e i}"

lemma rebuild_publishes:
  assumes "pureftpd_rebuild x h files = Inr ls"
  shows "ftp_published h (files, ls)"
proof -
  from assms obtain rs where rs: "rebuild_lines x h files [] (sort (map fst files)) = Inr rs" and ls: "ls = sort rs"
    by (auto simp: pureftpd_rebuild_def split: option.splits)
  have "a \<in> set (sort (map fst files))" if "granted h files a e i" for a e i
    using that by (force simp: granted_def dest: map_of_SomeD)
  then have "set ls = {ftp_line i e | a e i. granted h files a e i}"
    using conjunct1 [OF rebuild_lines_granted [OF rs]] unfolding ls set_sort by blast
  then show ?thesis
    by (simp add: ftp_published_def)
qed

lemma save_publishes: "pureftpd_save x h v d = (err, d') \<Longrightarrow> ftp_published h d \<Longrightarrow> ftp_published h d'"
  by (auto simp: pureftpd_save_def Let_def dest!: rebuild_publishes split: option.splits sum.splits)

lemma setEnabled_publishes:
  "pureftpd_setEnabled x h a su on d = (err, d') \<Longrightarrow> ftp_published h d \<Longrightarrow> ftp_published h d'"
  by (auto simp: pureftpd_setEnabled_def dest: save_publishes split: sum.splits if_splits)

lemma setEnabled_others:
  assumes "pureftpd_setEnabled x h a su on d = (err, d')" "b \<noteq> a"
  shows "granted h (fst d') b e i = granted h (fst d) b e i"
proof -
  have save: "granted h (fst d2) b e i = granted h (fst d) b e i" if "pureftpd_save x h v d = (er, d2)" "fst_id v = a" for v er d2
    using that assms(2) by (auto simp: pureftpd_save_def granted_def Let_def update_conv' split: option.splits sum.splits)
  have "fst_id v = a" if "pureftpd_read x (fst d) a su = Inr v" for v
    using that by (auto simp: pureftpd_read_def split: option.splits if_splits)
  then show ?thesis
    using assms(1) save by (auto simp: pureftpd_setEnabled_def split: sum.splits if_splits)
qed

text \<open>C33: the authentication database Pure-FTPd is given says what the panel decided and nothing else.
  It has one line per enabled login of an account that is not suspended; no login name occurs
  twice on the node; each line splits at its colons into exactly the nineteen fields of the
  format, without a line break, jails the login in the account's own home directory and runs it
  as that account's user, never as root.\<close>

theorem published_ftp_database:
  assumes "pureftpd_rebuild x h files = Inr ls"
  shows "set ls = {ftp_line i e | a e i. granted h files a e i} \<and> distinct (map login_name ls) \<and>
    (\<forall>a e i. granted h files a e i \<longrightarrow> CHR 0x0A \<notin> set (ftp_line i e) \<and>
      Split (ftp_line i e) (CHR '':'') = [fte_username e, fte_hash e, int_text (idn_uid i), int_text (idn_gid i),
        ''WEBYCP-'' @ fte_id e, ''/home/wcp_'' @ take 12 a @ ''/./''] @ replicate 13 [] \<and>
      0 < idn_uid i \<and> 0 < idn_gid i)"
proof -
  from assms obtain rs where rs: "rebuild_lines x h files [] (sort (map fst files)) = Inr rs" and ls: "ls = sort rs"
    by (auto simp: pureftpd_rebuild_def split: option.splits)
  have mem: "a \<in> set (sort (map fst files))" if "granted h files a e i" for a e i
    using that by (force simp: granted_def dest: map_of_SomeD)
  have "set ls = {ftp_line i e | a e i. granted h files a e i}"
    using rebuild_publishes [OF assms] by (simp add: ftp_published_def)
  moreover have "distinct (map login_name ls)"
    using rebuild_lines_granted [OF rs] mset_eq_imp_distinct_iff [of "map login_name (sort rs)" "map login_name rs"]
    by (simp add: ls)
  moreover have "CHR 0x0A \<notin> set (ftp_line i e) \<and>
      Split (ftp_line i e) (CHR '':'') = [fte_username e, fte_hash e, int_text (idn_uid i), int_text (idn_gid i),
        ''WEBYCP-'' @ fte_id e, ''/home/wcp_'' @ take 12 a @ ''/./''] @ replicate 13 [] \<and>
      0 < idn_uid i \<and> 0 < idn_gid i" if "granted h files a e i" for a e i
  proof -
    note g = granted_line [OF rs mem [OF that] that]
    have "CHR 0x0A \<notin> set (int_text n)" for n
      using int_text_line_safe [of n] unfolding line_safe_def by blast
    moreover have "CHR 0x0A \<notin> set (idn_home i)" "CHR 0x0A \<notin> set (fte_username e)"
      "CHR 0x0A \<notin> set (fte_hash e)" "CHR 0x0A \<notin> set (fte_id e)"
      using g by (auto simp only: line_safe_def)
    ultimately have "CHR 0x0A \<notin> set (ftp_line i e)"
      unfolding ftp_line_def by simp
    moreover have "Split (ftp_line i e) (CHR '':'') = ftp_fields i e"
      using g by (intro Split_ftp_line) auto
    ultimately show ?thesis
      using g by (simp add: ftp_fields_def)
  qed
  ultimately show ?thesis
    by blast
qed


section \<open>Witnesses\<close>

definition ftp_owner :: account where
  "ftp_owner = sample_account\<lparr>acc_id := replicate 32 CHR ''a'', acc_system_user := ''wcp_'' @ replicate 12 CHR ''a''\<rparr>"

definition sample_hash :: string where
  "sample_hash = HashPassword plain_ext (replicate 16 CHR ''s'') ''long password''"

definition sample_ftp :: ftp_account where
  "sample_ftp = \<lparr>ftp_id = replicate 32 CHR ''b'', ftp_account_id = acc_id ftp_owner, ftp_node = acc_node ftp_owner,
     ftp_username = ''deploy'', ftp_hash = sample_hash, ftp_enabled = True, ftp_deleting = False,
     ftp_status = Pending, ftp_created = 0, ftp_updated = 0\<rparr>"

definition sample_ftp_db :: db where
  "sample_ftp_db = empty_db\<lparr>nodes := [sample_node], accounts := [ftp_owner], ftp_accounts := [sample_ftp],
     jobs := [(ftp_syncJob (acc_node ftp_owner) [] (acc_id ftp_owner) ''j1'' 5)
       \<lparr>job_status := Running, job_attempts := 1, job_started := Some 6\<rparr>]\<rparr>"

lemma sample_hash_valid: "ValidPasswordHash sample_hash"
  using hash_verifies [of "replicate 16 CHR ''s''" plain_ext "''long password''"]
  by (auto simp: sample_hash_def VerifyPassword_def ValidPasswordHash_def passwordSaltLen_def split: option.splits)

lemma sample_ids: "idPattern (replicate 32 CHR ''b'')" "idPattern (replicate 32 CHR ''a'')" "usernamePattern ''deploy''"
  by (code_simp, code_simp, code_simp)

lemma sample_ftp_inv: "ftp_inv sample_ftp_db"
  using sample_ids sample_hash_valid
  by (simp add: ftp_inv_def sample_ftp_db_def ftp_row_ok_def find_by_def empty_db_def count_by_def default_limits_def
      sample_ftp_def del: replicate.simps)

theorem one_ftp_sync_per_account_witness:
  "one_ftp_sync (store_RecoverJobs sample_ftp_db)"
  by (rule one_ftp_sync_per_account [OF ftp_queue_step.restart])
    (simp_all add: one_ftp_sync_def queue_inv_def sample_ftp_db_def ftp_syncJob_def new_job_def job_ok_def no_secret_def
      account_payload_def del: replicate.simps)

theorem stored_logins_accepted_witness:
  "pureftpd_checkEntries plain_ext (Some (ftp_entries (acc_id ftp_owner)
     (snd (ftp_Sync (\<lambda>_ _ _ _. None) 9 (ftp_syncJob ''n1'' [] (acc_id ftp_owner) ''j1'' 5) sample_ftp_db)))) = None"
  using stored_logins_accepted [OF ftp_step.sync [OF surjective_pairing] sample_ftp_inv] by simp

definition sample_ftp_host :: ftp_host where
  "sample_ftp_host = \<lparr>fho_lookup = (\<lambda>_. Inr \<lparr>hu_uid = ''1001'', hu_gid = ''1001'',
       hu_name = hostuser_Marker (acc_id ftp_owner), hu_home = ''/home/'' @ acc_system_user ftp_owner\<rparr>),
     fho_open = (\<lambda>_. None), fho_searchable = (\<lambda>_. Inr True), fho_prepare = None, fho_publish = (\<lambda>_. None),
     fho_disconnect = (\<lambda>_. None), fho_remove = (\<lambda>_. None)\<rparr>"

definition sample_ftp_files :: ftp_files where
  "sample_ftp_files = [(acc_id ftp_owner, \<lparr>fst_id = acc_id ftp_owner, fst_user = acc_system_user ftp_owner,
     fst_suspended = False, fst_entries = Some [ftp_entry_of sample_ftp]\<rparr>)]"

lemma sample_ftp_identity:
  "pureftpd_identity sample_ftp_host (acc_id ftp_owner) (acc_system_user ftp_owner) =
    Inr \<lparr>idn_home = ''/home/'' @ acc_system_user ftp_owner, idn_user = acc_system_user ftp_owner, idn_uid = 1001, idn_gid = 1001\<rparr>"
  by code_simp

lemma sample_entries_valid: "pureftpd_checkEntries plain_ext (Some [ftp_entry_of sample_ftp]) = None"
proof -
  have "check_logins plain_ext [] [] [ftp_entry_of sample_ftp] = None"
    using sample_ids sample_hash_valid
    by (intro check_logins_None) (auto simp: ftp_entry_of_def sample_ftp_def simp del: replicate.simps)
  then show ?thesis
    by (simp add: pureftpd_checkEntries_def)
qed

lemma sample_rebuild:
  "pureftpd_rebuild plain_ext sample_ftp_host sample_ftp_files =
    Inr [ftp_line \<lparr>idn_home = ''/home/'' @ acc_system_user ftp_owner, idn_user = acc_system_user ftp_owner, idn_uid = 1001,
      idn_gid = 1001\<rparr> (ftp_entry_of sample_ftp)]"
proof -
  note c = sample_entries_valid
  have a: "idPattern (acc_id ftp_owner)" "''wcp_'' @ take 12 (acc_id ftp_owner) = acc_system_user ftp_owner"
    by (code_simp, simp add: ftp_owner_def)
  have r: "pureftpd_read plain_ext sample_ftp_files (acc_id ftp_owner) (acc_system_user ftp_owner) =
      Inr \<lparr>fst_id = acc_id ftp_owner, fst_user = acc_system_user ftp_owner,
        fst_suspended = False, fst_entries = Some [ftp_entry_of sample_ftp]\<rparr>"
    by (simp add: pureftpd_read_def c sample_ftp_files_def)
  have s: "map fst sample_ftp_files = [acc_id ftp_owner]"
    by (simp add: sample_ftp_files_def)
  have a': "CHR ''w'' # CHR ''c'' # CHR ''p'' # CHR ''_'' # take 12 (acc_id ftp_owner) = acc_system_user ftp_owner"
    using a(2) by simp
  have p: "fte_enabled (ftp_entry_of sample_ftp)" "fho_publish sample_ftp_host ls = None" for ls
    by (simp_all add: ftp_entry_of_def sample_ftp_def sample_ftp_host_def)
  show ?thesis
    by (simp add: pureftpd_rebuild_def s a(1) a' r p sample_ftp_identity Let_def)
qed

theorem published_ftp_database_witness:
  "hd (Split (ftp_line \<lparr>idn_home = ''/home/'' @ acc_system_user ftp_owner, idn_user = acc_system_user ftp_owner,
     idn_uid = 1001, idn_gid = 1001\<rparr> (ftp_entry_of sample_ftp)) (CHR '':'')) = ''deploy''"
proof -
  have g: "granted sample_ftp_host sample_ftp_files (acc_id ftp_owner) (ftp_entry_of sample_ftp)
      \<lparr>idn_home = ''/home/'' @ acc_system_user ftp_owner, idn_user = acc_system_user ftp_owner, idn_uid = 1001, idn_gid = 1001\<rparr>"
    using sample_ftp_identity by (simp add: granted_def sample_ftp_files_def ftp_entry_of_def sample_ftp_def)
  from published_ftp_database [OF sample_rebuild] g show ?thesis
    by (simp add: ftp_entry_of_def sample_ftp_def)
qed

section \<open>Contracts\<close>

lemma ftp_stores_queue:
  "store_CreateFTP f j s = Inr ((v, j'), s') \<Longrightarrow> 1 \<le> job_max j \<Longrightarrow> queues_one s j' s'"
  "store_ChangeFTP i c j now s = Inr ((v, j'), s') \<Longrightarrow> 1 \<le> job_max j \<Longrightarrow> queues_one s j' s'"
  by (auto simp: store_CreateFTP_def store_ChangeFTP_def intro: createJob_queues dest!: insert_ftp_Inr)

interpretation ftp_create: queued_operation
  "\<lambda>(x, acc, username, password, u, admin, enabled, salt, i, jid, now).
    ftp_Create x acc username password u admin enabled salt i jid now"
  by unfold_locales (auto simp: ftp_Create_def ftp_syncJob_def dest!: ftp_stores_queue(1))

interpretation ftp_update: queued_operation
  "\<lambda>(x, i, u, admin, username, password, enabled, salt, jid, now).
    ftp_Update x i u admin username password enabled salt jid now"
  by unfold_locales (auto simp: ftp_Update_def ftp_change_def ftp_syncJob_def dest!: ftp_stores_queue(2))

interpretation ftp_delete: queued_operation
  "\<lambda>(i, u, admin, jid, now) s. andthen (ftp_Delete i u admin jid now s) (\<lambda>(j, s'). Inr (((), j), s'))"
  by unfold_locales (auto simp: ftp_Delete_def ftp_change_def ftp_syncJob_def dest!: ftp_stores_queue(2))

interpretation owned_ftp: owned_resource ftp_of ftp_accounts ftp_id ftp_account_id
  by unfold_locales (auto simp: ftp_of_def store_FTP_def dest: find_Some_iff_mem)

interpretation ftp_quota: capped_create "\<lambda>(f, j). store_CreateFTP f j" FTPAccounts
  "\<lambda>(f, j) s. ftp_account_id f" "\<lambda>_. True"
  by unfold_locales (auto simp: store_CreateFTP_def dest!: insert_ftp_Inr createJob_Inr)

end
