(* ===== verification/Dns.thy ===== *)
theory Dns
  imports Websites
begin

text \<open>
  DNS zones and records: \<open>internal/dns/service.go\<close>, \<open>internal/dns/validation.go\<close>,
  \<open>store/sqlite/dns.go\<close> and the checks of the agent's \<open>internal/agent/dns/model.go\<close>.  A record
  remembers under which name and type it was last published; a synchronisation replaces the
  record sets of that key and of the current one.  The PowerDNS driver is in \<open>PowerDns\<close>.
\<close>

interpretation dns_provider_table: table dns_providers "\<lambda>rs s. s\<lparr>dns_providers := rs\<rparr>" dpr_id
  by unfold_locales auto

interpretation dns_zone_table: table dns_zones "\<lambda>rs s. s\<lparr>dns_zones := rs\<rparr>" dzn_id
  by unfold_locales auto

interpretation dns_record_table: table dns_records "\<lambda>rs s. s\<lparr>dns_records := rs\<rparr>" drc_id
  by unfold_locales auto

section \<open>Validation\<close>

definition PowerDNS :: string where "PowerDNS = ''powerdns''"
definition MinTTL :: int where "MinTTL = 60"
definition MaxTTL :: int where "MaxTTL = 86400"

definition dns_ValidateSettings :: "ext \<Rightarrow> dns_settings \<Rightarrow> err + dns_settings" where
  "dns_ValidateSettings x v =
     (if dst_default_ttl v < MinTTL \<or> MaxTTL < dst_default_ttl v
      then Inl (ValidationErr ''defaultTtl'' ''Use a TTL between 60 and 86400 seconds'')
      else
        let primary = TrimSpace (dst_primary v); secondary = TrimSpace (dst_secondary v) in
        if primary = [] \<and> secondary = [] then Inr (v\<lparr>dst_primary := [], dst_secondary := []\<rparr>)
        else if primary = [] \<or> secondary = []
        then Inl (ValidationErr ''primaryNameserver'' ''Configure both nameservers'')
        else (case validate_Domain x primary of
            Inl _ \<Rightarrow> Inl (ValidationErr ''primaryNameserver'' ''Enter a valid nameserver'')
          | Inr p \<Rightarrow>
              (case validate_Domain x secondary of
                Inl _ \<Rightarrow> Inl (ValidationErr ''secondaryNameserver'' ''Enter a valid nameserver'')
              | Inr q \<Rightarrow>
                  if p = q then Inl (ValidationErr ''secondaryNameserver'' ''Nameservers must be different'')
                  else Inr (v\<lparr>dst_primary := p, dst_secondary := q\<rparr>))))"

text \<open>
  A label of a record name; \<open>*\<close> may stand first.  The service and the agent have the same loop.
\<close>

definition name_rune :: "nat \<Rightarrow> bool" where
  "name_rune r \<longleftrightarrow> r = 45 \<or> r = 95 \<or> 97 \<le> r \<and> r \<le> 122 \<or> 48 \<le> r \<and> r \<le> 57"

definition name_label :: "string \<Rightarrow> bool" where
  "name_label l \<longleftrightarrow> l \<noteq> [] \<and> length l \<le> 63 \<and> hd l \<noteq> CHR ''-'' \<and> last l \<noteq> CHR ''-'' \<and>
     list_all name_rune (runes l)"

definition name_labels :: "string \<Rightarrow> bool" where
  "name_labels name =
     (case Split name (CHR ''.'') of
        [] \<Rightarrow> True
      | l # ls \<Rightarrow> (l = ''*'' \<or> name_label l) \<and> list_all name_label ls)"

definition in_zone :: "string \<Rightarrow> string \<Rightarrow> bool" where
  "in_zone name zone \<longleftrightarrow> name = zone \<or> HasSuffix name (''.'' @ zone)"

definition dns_recordName :: "ext \<Rightarrow> string \<Rightarrow> string \<Rightarrow> err + string" where
  "dns_recordName x v zone =
     (let name0 = TrimSuffix (ToLower (ext_lower x) (TrimSpace v)) ''.'' in
      if name0 = ''@'' then Inr zone
      else
        let name = (if CHR ''.'' \<notin> set name0 then name0 @ ''.'' @ zone else name0) in
        if \<not> in_zone name zone then Inl (ValidationErr ''name'' ''Record name must belong to the selected zone'')
        else if \<not> name_labels name then Inl (ValidationErr ''name'' ''Enter a valid DNS record name'')
        else Inr name)"

definition record_type :: "string \<Rightarrow> bool" where
  "record_type t \<longleftrightarrow> t = ''A'' \<or> t = ''AAAA'' \<or> t = ''CNAME'' \<or> t = ''MX'' \<or> t = ''TXT''"

definition dns_recordContent :: "ext \<Rightarrow> string \<Rightarrow> string \<Rightarrow> int \<Rightarrow> err + (string \<times> int)" where
  "dns_recordContent x kind v priority =
     (let content = TrimSpace v in
      if kind = ''A'' then
        (case Option.bind (ParseIP content) To4 of
           None \<Rightarrow> Inl (ValidationErr ''content'' ''Enter a valid IPv4 address'')
         | Some a \<Rightarrow> Inr (ipv4_text a, 0))
      else if kind = ''AAAA'' then
        (case ParseIP content of
           None \<Rightarrow> Inl (ValidationErr ''content'' ''Enter a valid IPv6 address'')
         | Some a \<Rightarrow>
             if To4 a \<noteq> None then Inl (ValidationErr ''content'' ''Enter a valid IPv6 address'')
             else Inr (ip_text a, 0))
      else if kind = ''CNAME'' \<or> kind = ''MX'' then
        (case validate_Domain x content of
           Inl _ \<Rightarrow> Inl (ValidationErr ''content'' ''Enter a valid target hostname'')
         | Inr target \<Rightarrow>
             if kind = ''MX'' then
               (if priority < 0 \<or> 65535 < priority
                then Inl (ValidationErr ''priority'' ''Use a priority between 0 and 65535'')
                else Inr (target, priority))
             else Inr (target, 0))
      else if kind = ''TXT'' then
        (if content = [] \<or> 1000 < length content \<or> ContainsAny content [CHR 0x00, CHR 0x0D, CHR 0x0A]
         then Inl (ValidationErr ''content'' ''Use a single line of at most 1000 bytes'')
         else Inr (content, 0))
      else Inl (ValidationErr ''type'' ''Choose a supported DNS record type''))"

definition dns_NormalizeRecord :: "ext \<Rightarrow> dns_record \<Rightarrow> string \<Rightarrow> err + dns_record" where
  "dns_NormalizeRecord x v zone =
     andthen (dns_recordName x (drc_name v) zone) (\<lambda>name.
     let kind = ToUpper (ext_upper x) (TrimSpace (drc_type v)) in
     andthen (fail_when (\<not> record_type kind) (ValidationErr ''type'' ''Choose a supported DNS record type'')) (\<lambda>_.
     andthen (fail_when (drc_ttl v < MinTTL \<or> MaxTTL < drc_ttl v)
       (ValidationErr ''ttl'' ''Use a TTL between 60 and 86400 seconds'')) (\<lambda>_.
     andthen (dns_recordContent x kind (drc_content v) (drc_priority v)) (\<lambda>(content, priority).
     andthen (fail_when (kind = ''CNAME'' \<and> name = zone)
       (ValidationErr ''name'' ''The zone apex cannot be a CNAME'')) (\<lambda>_.
     Inr (v\<lparr>drc_name := name, drc_type := kind, drc_content := content, drc_priority := priority\<rparr>))))))"

text \<open>\<open>strconv.Quote\<close>, rune by rune; beyond ASCII the table of printable runes is a parameter.\<close>

definition hex_pad :: "nat \<Rightarrow> nat \<Rightarrow> string" where
  "hex_pad k n = map (\<lambda>i. hex_digit (n div 16 ^ i mod 16)) (rev [0..<k])"

definition is_print :: "ext \<Rightarrow> nat \<Rightarrow> bool" where
  "is_print x r \<longleftrightarrow> (if r < 128 then 32 \<le> r \<and> r < 127 else ext_print x r)"

definition backslash :: char where "backslash = CHR 0x5C"

definition quote_rune :: "ext \<Rightarrow> nat \<times> string \<Rightarrow> string" where
  "quote_rune x p = (case p of (r, bs) \<Rightarrow>
     if length bs = 1 \<and> r = rune_error then backslash # CHR ''x'' # hex_pad 2 (byte (hd bs))
     else if r = 34 \<or> r = 92 then [backslash, char_of r]
     else if is_print x r then bs
     else if r = 7 then [backslash, CHR ''a''] else if r = 8 then [backslash, CHR ''b'']
     else if r = 12 then [backslash, CHR ''f''] else if r = 10 then [backslash, CHR ''n'']
     else if r = 13 then [backslash, CHR ''r''] else if r = 9 then [backslash, CHR ''t'']
     else if r = 11 then [backslash, CHR ''v'']
     else if r < 32 \<or> r = 127 then backslash # CHR ''x'' # hex_pad 2 r
     else if r < 65536 then backslash # CHR ''u'' # hex_pad 4 r
     else backslash # CHR ''U'' # hex_pad 8 r)"

definition strconv_Quote :: "ext \<Rightarrow> string \<Rightarrow> string" where
  "strconv_Quote x s = CHR 0x22 # concat (map (quote_rune x) (rune_parts s)) @ [CHR 0x22]"

definition dns_ProviderContent :: "ext \<Rightarrow> dns_record \<Rightarrow> string" where
  "dns_ProviderContent x v =
     (if drc_type v = ''CNAME'' then drc_content v @ ''.''
      else if drc_type v = ''MX'' then int_text (drc_priority v) @ '' '' @ drc_content v @ ''.''
      else if drc_type v = ''TXT'' then strconv_Quote x (drc_content v)
      else drc_content v)"

section \<open>Store operations\<close>

text \<open>\<open>ON CONFLICT (node_id, driver) DO UPDATE SET name\<close>.\<close>

definition store_EnsureDNSProvider :: "dns_provider \<Rightarrow> db \<Rightarrow> err + (dns_provider \<times> db)" where
  "store_EnsureDNSProvider v s =
     (case List.find (\<lambda>p. dpr_node p = dpr_node v \<and> dpr_driver p = dpr_driver v) (dns_providers s) of
        Some p \<Rightarrow> Inr (p\<lparr>dpr_name := dpr_name v\<rparr>,
          s\<lparr>dns_providers := update_by dpr_id (dpr_id p) (\<lambda>p. p\<lparr>dpr_name := dpr_name v\<rparr>) (dns_providers s)\<rparr>)
      | None \<Rightarrow>
          if dpr_driver v \<noteq> PowerDNS then Inl CheckViolation
          else if exists_by dpr_id (dpr_id v) (dns_providers s) then Inl UniqueViolation
          else if \<not> exists_by nod_id (dpr_node v) (nodes s) then Inl ForeignKeyViolation
          else Inr (v, s\<lparr>dns_providers := dns_providers s @ [v]\<rparr>))"

definition store_DNSProviders :: "db \<Rightarrow> dns_provider list" where
  "store_DNSProviders s = order_asc dpr_created (dns_providers s)"

definition store_DNSProvider :: "ident \<Rightarrow> db \<Rightarrow> err + dns_provider" where
  "store_DNSProvider i s = some_or ErrNoRows (find_by dpr_id i (dns_providers s))"

definition store_DNSSettings :: "db \<Rightarrow> dns_settings" where
  "store_DNSSettings s = dns_settings s"

definition store_UpdateDNSSettings :: "dns_settings \<Rightarrow> db \<Rightarrow> err + (dns_settings \<times> db)" where
  "store_UpdateDNSSettings v s =
     (if dst_default_ttl v < 60 \<or> 86400 < dst_default_ttl v then Inl CheckViolation
      else Inr (v, s\<lparr>dns_settings := v\<rparr>))"

definition insert_zone :: "dns_zone \<Rightarrow> db \<Rightarrow> err + db" where
  "insert_zone z s =
     (if exists_by dzn_id (dzn_id z) (dns_zones s) \<or>
        list_ex (\<lambda>r. nocase (dzn_name r) = nocase (dzn_name z)) (dns_zones s) then Inl UniqueViolation
      else if \<not> exists_by acc_id (dzn_account z) (accounts s) \<or> \<not> exists_by nod_id (dzn_node z) (nodes s) \<or>
        \<not> exists_by dpr_id (dzn_provider z) (dns_providers s) then Inl ForeignKeyViolation
      else Inr (s\<lparr>dns_zones := dns_zones s @ [z\<lparr>dzn_status := Pending\<rparr>]\<rparr>))"

text \<open>\<open>if constraint(err) { return ErrNameExists }\<close> and its like.\<close>

definition constraint_as :: "err \<Rightarrow> err + 'a \<Rightarrow> err + 'a" where
  "constraint_as e r = map_err (\<lambda>e'. if e' = UniqueViolation then e else e') r"

definition store_CreateDNSZoneProvision :: "dns_zone \<Rightarrow> job \<Rightarrow> db \<Rightarrow> err + ((dns_zone \<times> job) \<times> db)" where
  "store_CreateDNSZoneProvision z j s =
     andthen (constraint_as DnsErrNameExists (insert_zone z s)) (\<lambda>s1.
     andthen (createJob j s1) (\<lambda>(j', s2).
     Inr ((z\<lparr>dzn_status := Pending\<rparr>, j'), s2)))"

definition store_DNSZone :: "ident \<Rightarrow> db \<Rightarrow> err + dns_zone" where
  "store_DNSZone i s = some_or ErrNoRows (find_by dzn_id i (dns_zones s))"

definition store_DNSZonePage :: "ident \<Rightarrow> bool \<Rightarrow> query \<Rightarrow> db \<Rightarrow> dns_zone result" where
  "store_DNSZonePage u admin q s =
     store_page (order_desc dzn_created (filter (\<lambda>z. visible_account u admin s (dzn_account z)) (dns_zones s))) q"

definition unsettled :: "status \<Rightarrow> bool" where
  "unsettled st \<longleftrightarrow> st = Pending \<or> st = Deleting"

definition zone_row :: "status \<Rightarrow> msec \<Rightarrow> dns_zone \<Rightarrow> dns_zone" where
  "zone_row st now z = z\<lparr>dzn_status := st, dzn_updated := now\<rparr>"

definition store_UpdateDNSZoneStatus :: "ident \<Rightarrow> status \<Rightarrow> msec \<Rightarrow> db \<Rightarrow> db" where
  "store_UpdateDNSZoneStatus i st now s = s\<lparr>dns_zones := update_by dzn_id i (zone_row st now) (dns_zones s)\<rparr>"

definition store_QueueDNSZoneDelete :: "ident \<Rightarrow> job \<Rightarrow> msec \<Rightarrow> db \<Rightarrow> err + ((dns_zone \<times> job) \<times> db)" where
  "store_QueueDNSZoneDelete i j now s =
     (case find_by dzn_id i (dns_zones s) of
        None \<Rightarrow> Inl DnsErrBusy
      | Some z \<Rightarrow>
          if unsettled (dzn_status z) \<or> list_ex (\<lambda>r. drc_zone r = i \<and> unsettled (drc_status r)) (dns_records s)
          then Inl DnsErrBusy
          else andthen (createJob j (store_UpdateDNSZoneStatus i Deleting now s)) (\<lambda>(j', s').
            Inr ((zone_row Deleting now z, j'), s')))"

text \<open>Deleting a zone cascades to its records.\<close>

definition store_DeleteDNSZone :: "ident \<Rightarrow> db \<Rightarrow> db" where
  "store_DeleteDNSZone i s =
     s\<lparr>dns_zones := delete_by dzn_id i (dns_zones s), dns_records := delete_by drc_zone i (dns_records s)\<rparr>"

definition record_conflict :: "dns_record \<Rightarrow> ident \<Rightarrow> dns_record \<Rightarrow> err option" where
  "record_conflict v except r =
     (if drc_id r = except then None
      else if drc_type r = drc_type v \<and> drc_content r = drc_content v \<and> drc_priority r = drc_priority v
      then Some ErrRecordExists
      else if drc_type r = ''CNAME'' \<or> drc_type v = ''CNAME'' then Some ErrRecordConflict
      else if drc_type r = drc_type v \<and> drc_ttl r \<noteq> drc_ttl v then Some ErrRecordConflict
      else None)"

definition ensureDNSRecordAvailable :: "dns_record \<Rightarrow> ident \<Rightarrow> db \<Rightarrow> err + unit" where
  "ensureDNSRecordAvailable v except s =
     (case List.find (\<lambda>e. e \<noteq> None) (map (record_conflict v except) (filter (\<lambda>r. drc_zone r = drc_zone v \<and>
          nocase (drc_name r) = nocase (drc_name v)) (dns_records s))) of
        Some (Some e) \<Rightarrow> Inl e
      | _ \<Rightarrow> Inr ())"

text \<open>The \<open>UNIQUE\<close> and \<open>CHECK\<close> constraints of a row, against the other rows.\<close>

definition same_record :: "dns_record \<Rightarrow> dns_record \<Rightarrow> bool" where
  "same_record r v \<longleftrightarrow> drc_zone r = drc_zone v \<and> nocase (drc_name r) = nocase (drc_name v) \<and> drc_type r = drc_type v \<and>
     drc_content r = drc_content v \<and> drc_priority r = drc_priority v"

definition record_checks :: "dns_record \<Rightarrow> bool" where
  "record_checks v \<longleftrightarrow> record_type (drc_type v) \<and> 60 \<le> drc_ttl v \<and> drc_ttl v \<le> 86400 \<and>
     0 \<le> drc_priority v \<and> drc_priority v \<le> 65535"

definition active_zone :: "ident \<Rightarrow> db \<Rightarrow> bool" where
  "active_zone i s \<longleftrightarrow> list_ex (\<lambda>z. dzn_id z = i \<and> dzn_status z = Active) (dns_zones s)"

definition insert_record :: "dns_record \<Rightarrow> db \<Rightarrow> err + (dns_record \<times> db)" where
  "insert_record v s =
     (let row = v\<lparr>drc_synced_name := [], drc_synced_type := [], drc_status := Pending\<rparr> in
      if \<not> active_zone (drc_zone v) s then Inl ErrNoRows
      else if \<not> record_checks v then Inl CheckViolation
      else if exists_by drc_id (drc_id v) (dns_records s) \<or> list_ex (same_record v) (dns_records s)
      then Inl UniqueViolation
      else Inr (row, s\<lparr>dns_records := dns_records s @ [row]\<rparr>))"

text \<open>No row comes back as \<open>ErrBusy\<close>, a broken constraint as \<open>ErrRecordExists\<close>.\<close>

definition record_err :: "err + 'a \<Rightarrow> err + 'a" where
  "record_err r = map_err (\<lambda>e. if e = ErrNoRows then DnsErrBusy else if e = UniqueViolation then ErrRecordExists else e) r"

definition store_CreateDNSRecordProvision :: "dns_record \<Rightarrow> job \<Rightarrow> db \<Rightarrow> err + ((dns_record \<times> job) \<times> db)" where
  "store_CreateDNSRecordProvision v j s =
     andthen (ensureDNSRecordAvailable v [] s) (\<lambda>_.
     andthen (record_err (insert_record v s)) (\<lambda>(row, s1).
     andthen (createJob j s1) (\<lambda>(j', s2).
     Inr ((row, j'), s2))))"

definition store_DNSRecord :: "ident \<Rightarrow> db \<Rightarrow> err + dns_record" where
  "store_DNSRecord i s = some_or ErrNoRows (find_by drc_id i (dns_records s))"

definition store_DNSRecords :: "ident \<Rightarrow> db \<Rightarrow> dns_record list" where
  "store_DNSRecords z s =
     order_asc (\<lambda>r. nocase (drc_name r)) (order_asc drc_type (order_asc drc_content
       (filter (\<lambda>r. drc_zone r = z) (dns_records s))))"

definition store_DNSRecordPage :: "ident \<Rightarrow> query \<Rightarrow> db \<Rightarrow> dns_record result" where
  "store_DNSRecordPage z q s = store_page (store_DNSRecords z s) q"

definition changed_record :: "dns_record \<Rightarrow> dns_record \<Rightarrow> dns_record" where
  "changed_record v r = r\<lparr>drc_name := drc_name v, drc_type := drc_type v, drc_content := drc_content v,
     drc_ttl := drc_ttl v, drc_priority := drc_priority v, drc_status := Pending, drc_updated := drc_updated v\<rparr>"

definition update_record :: "dns_record \<Rightarrow> db \<Rightarrow> err + (dns_record \<times> db)" where
  "update_record v s =
     (case find_by drc_id (drc_id v) (dns_records s) of
        None \<Rightarrow> Inl ErrNoRows
      | Some r \<Rightarrow>
          if unsettled (drc_status r) \<or> \<not> active_zone (drc_zone r) s then Inl ErrNoRows
          else if \<not> record_checks v then Inl CheckViolation
          else if list_ex (\<lambda>o'. drc_id o' \<noteq> drc_id v \<and> same_record (changed_record v r) o') (dns_records s)
          then Inl UniqueViolation
          else Inr (changed_record v r,
            s\<lparr>dns_records := update_by drc_id (drc_id v) (changed_record v) (dns_records s)\<rparr>))"

definition store_QueueDNSRecordUpdate :: "dns_record \<Rightarrow> job \<Rightarrow> db \<Rightarrow> err + ((dns_record \<times> job) \<times> db)" where
  "store_QueueDNSRecordUpdate v j s =
     andthen (ensureDNSRecordAvailable v (drc_id v) s) (\<lambda>_.
     andthen (record_err (update_record v s)) (\<lambda>(row, s1).
     andthen (createJob j s1) (\<lambda>(j', s2).
     Inr ((row, j'), s2))))"

definition record_row :: "status \<Rightarrow> msec \<Rightarrow> dns_record \<Rightarrow> dns_record" where
  "record_row st now r = r\<lparr>drc_status := st, drc_updated := now\<rparr>"

definition store_UpdateDNSRecordStatus :: "ident \<Rightarrow> status \<Rightarrow> msec \<Rightarrow> db \<Rightarrow> db" where
  "store_UpdateDNSRecordStatus i st now s =
     s\<lparr>dns_records := update_by drc_id i (record_row st now) (dns_records s)\<rparr>"

definition store_QueueDNSRecordDelete :: "ident \<Rightarrow> job \<Rightarrow> msec \<Rightarrow> db \<Rightarrow> err + ((dns_record \<times> job) \<times> db)" where
  "store_QueueDNSRecordDelete i j now s =
     (case find_by drc_id i (dns_records s) of
        None \<Rightarrow> Inl DnsErrBusy
      | Some r \<Rightarrow>
          if unsettled (drc_status r) \<or> \<not> active_zone (drc_zone r) s then Inl DnsErrBusy
          else andthen (createJob j (store_UpdateDNSRecordStatus i Deleting now s)) (\<lambda>(j', s').
            Inr ((record_row Deleting now r, j'), s')))"

definition synced_row :: "msec \<Rightarrow> dns_record \<Rightarrow> dns_record" where
  "synced_row now r = r\<lparr>drc_status := Active, drc_synced_name := drc_name r, drc_synced_type := drc_type r,
     drc_updated := now\<rparr>"

definition store_CompleteDNSRecordSync :: "ident \<Rightarrow> msec \<Rightarrow> db \<Rightarrow> db" where
  "store_CompleteDNSRecordSync i now s = s\<lparr>dns_records := update_by drc_id i (synced_row now) (dns_records s)\<rparr>"

definition store_DeleteDNSRecord :: "ident \<Rightarrow> db \<Rightarrow> db" where
  "store_DeleteDNSRecord i s = s\<lparr>dns_records := delete_by drc_id i (dns_records s)\<rparr>"

section \<open>Service\<close>

record zone_spec =
  zsp_id :: ident
  zsp_name :: string
  zsp_nameservers :: "string list"

record record_set =
  rst_name :: string
  rst_type :: string
  rst_ttl :: int
  rst_records :: "string list"

record dns_agent =
  agt_EnsureDNSZone :: "string \<Rightarrow> zone_spec \<Rightarrow> err option"
  agt_DeleteDNSZone :: "string \<Rightarrow> zone_spec \<Rightarrow> err option"
  agt_SyncDNSRecordSets :: "string \<Rightarrow> zone_spec \<Rightarrow> record_set list \<Rightarrow> err option"

definition dns_EnsureLocalProvider :: "ident \<Rightarrow> ident \<Rightarrow> msec \<Rightarrow> db \<Rightarrow> err + (dns_provider \<times> db)" where
  "dns_EnsureLocalProvider node i now s =
     store_EnsureDNSProvider \<lparr>dpr_id = i, dpr_node = node, dpr_name = ''Local PowerDNS'', dpr_driver = PowerDNS,
       dpr_created = now\<rparr> s"

text \<open>The status of a provider is the capability its node last reported.\<close>

definition provider_status :: "dns_provider \<Rightarrow> db \<Rightarrow> string" where
  "provider_status p s =
     (case store_Node (dpr_node p) s of
        Inl _ \<Rightarrow> ''unknown''
      | Inr n \<Rightarrow>
          (case nod_capabilities n of
            None \<Rightarrow> ''unknown''
          | Some c \<Rightarrow>
              (case List.find (\<lambda>k. cap_driver k = dpr_driver p) (cap_dns c) of
                None \<Rightarrow> ''unknown''
              | Some k \<Rightarrow> cap_status k)))"

definition dns_Providers :: "db \<Rightarrow> (dns_provider \<times> string) list" where
  "dns_Providers s = map (\<lambda>p. (p, provider_status p s)) (store_DNSProviders s)"

definition dns_Settings :: "db \<Rightarrow> dns_settings" where
  "dns_Settings s = store_DNSSettings s"

definition dns_UpdateSettings :: "ext \<Rightarrow> dns_settings \<Rightarrow> msec \<Rightarrow> db \<Rightarrow> err + (dns_settings \<times> db)" where
  "dns_UpdateSettings x v now s =
     andthen (dns_ValidateSettings x v) (\<lambda>v'. store_UpdateDNSSettings (v'\<lparr>dst_updated := now\<rparr>) s)"

definition dns_ZonePage :: "ident \<Rightarrow> bool \<Rightarrow> query \<Rightarrow> db \<Rightarrow> dns_zone result" where
  "dns_ZonePage u admin q s = store_DNSZonePage u admin q s"

definition dns_Zone :: "ident \<Rightarrow> ident \<Rightarrow> bool \<Rightarrow> db \<Rightarrow> err + dns_zone" where
  "dns_Zone i u admin s =
     andthen (store_DNSZone i s) (\<lambda>z.
     andthen (accounts_Account (dzn_account z) u admin s) (\<lambda>_. Inr z))"

definition dns_job :: "ident \<Rightarrow> ident \<Rightarrow> job_kind \<Rightarrow> payload \<Rightarrow> ident \<Rightarrow> msec \<Rightarrow> job" where
  "dns_job node u k p jid now = new_job jid node u k p 2 now"

definition zone_payload :: "ident \<Rightarrow> payload" where
  "zone_payload i = [(''zoneId'', JStr i)]"

text \<open>\<open>omitempty\<close>: the flag is only written when it is set.\<close>

definition record_payload :: "ident \<Rightarrow> bool \<Rightarrow> payload" where
  "record_payload i del = (''recordId'', JStr i) # (if del then [(''delete'', JBool True)] else [])"

definition dns_CreateZone ::
  "ext \<Rightarrow> ident \<Rightarrow> ident \<Rightarrow> string \<Rightarrow> ident \<Rightarrow> bool \<Rightarrow> ident \<Rightarrow> ident \<Rightarrow> msec \<Rightarrow> db \<Rightarrow>
    err + ((dns_zone \<times> job) \<times> db)" where
  "dns_CreateZone x acc provider name u admin i jid now s =
     andthen (accounts_Account acc u admin s) (\<lambda>a.
     andthen (fail_when (acc_status a \<noteq> Active \<or> \<not> acc_enabled a) AccErrBusy) (\<lambda>_.
     andthen (map_err (Wrapped ''get DNS provider'') (store_DNSProvider provider s)) (\<lambda>p.
     andthen (fail_when (dpr_driver p \<noteq> PowerDNS \<or> dpr_node p \<noteq> acc_node a)
       (ValidationErr ''providerId'' ''Choose a DNS provider on the hosting account server'')) (\<lambda>_.
     let st = store_DNSSettings s in
     andthen (fail_when (dst_primary st = [] \<or> dst_secondary st = []) ErrNotConfigured) (\<lambda>_.
     andthen (validate_Domain x name) (\<lambda>n.
     store_CreateDNSZoneProvision
       \<lparr>dzn_id = i, dzn_account = acc_id a, dzn_node = acc_node a, dzn_provider = dpr_id p, dzn_name = n,
        dzn_primary = dst_primary st, dzn_secondary = dst_secondary st, dzn_status = Pending,
        dzn_created = now, dzn_updated = now\<rparr>
       (dns_job (acc_node a) u KindDNSZoneCreate (zone_payload i) jid now) s))))))"

definition dns_DeleteZone :: "ident \<Rightarrow> ident \<Rightarrow> bool \<Rightarrow> ident \<Rightarrow> msec \<Rightarrow> db \<Rightarrow> err + ((dns_zone \<times> job) \<times> db)" where
  "dns_DeleteZone i u admin jid now s =
     andthen (dns_Zone i u admin s) (\<lambda>z.
     andthen (fail_when (unsettled (dzn_status z)) DnsErrBusy) (\<lambda>_.
     store_QueueDNSZoneDelete (dzn_id z)
       (dns_job (dzn_node z) u KindDNSZoneDelete (zone_payload (dzn_id z)) jid now) now s))"

definition dns_RecordPage :: "ident \<Rightarrow> ident \<Rightarrow> bool \<Rightarrow> query \<Rightarrow> db \<Rightarrow> err + dns_record result" where
  "dns_RecordPage z u admin q s = andthen (dns_Zone z u admin s) (\<lambda>_. Inr (store_DNSRecordPage z q s))"

definition dns_CreateRecord ::
  "ext \<Rightarrow> ident \<Rightarrow> string \<Rightarrow> string \<Rightarrow> string \<Rightarrow> int \<Rightarrow> int \<Rightarrow> ident \<Rightarrow> bool \<Rightarrow> ident \<Rightarrow> ident \<Rightarrow> msec \<Rightarrow> db \<Rightarrow>
    err + ((dns_record \<times> job) \<times> db)" where
  "dns_CreateRecord x zi name kind content ttl priority u admin i jid now s =
     andthen (dns_Zone zi u admin s) (\<lambda>z.
     andthen (fail_when (dzn_status z \<noteq> Active) DnsErrBusy) (\<lambda>_.
     andthen (dns_NormalizeRecord x
       \<lparr>drc_id = [], drc_zone = dzn_id z, drc_name = name, drc_type = kind, drc_content = content, drc_ttl = ttl,
        drc_priority = priority, drc_synced_name = [], drc_synced_type = [], drc_status = Pending,
        drc_created = 0, drc_updated = 0\<rparr> (dzn_name z)) (\<lambda>r.
     store_CreateDNSRecordProvision
       (r\<lparr>drc_id := i, drc_status := Pending, drc_created := now, drc_updated := now\<rparr>)
       (dns_job (dzn_node z) u KindDNSRecordSync (record_payload i False) jid now) s)))"

definition dns_record_of :: "ident \<Rightarrow> ident \<Rightarrow> bool \<Rightarrow> db \<Rightarrow> err + (dns_record \<times> dns_zone)" where
  "dns_record_of i u admin s =
     andthen (store_DNSRecord i s) (\<lambda>r.
     andthen (dns_Zone (drc_zone r) u admin s) (\<lambda>z. Inr (r, z)))"

definition dns_UpdateRecord ::
  "ext \<Rightarrow> ident \<Rightarrow> string \<Rightarrow> string \<Rightarrow> string \<Rightarrow> int \<Rightarrow> int \<Rightarrow> ident \<Rightarrow> bool \<Rightarrow> ident \<Rightarrow> msec \<Rightarrow> db \<Rightarrow>
    err + ((dns_record \<times> job) \<times> db)" where
  "dns_UpdateRecord x i name kind content ttl priority u admin jid now s =
     andthen (dns_record_of i u admin s) (\<lambda>(r, z).
     andthen (fail_when (unsettled (drc_status r) \<or> dzn_status z \<noteq> Active) DnsErrBusy) (\<lambda>_.
     andthen (dns_NormalizeRecord x
       \<lparr>drc_id = drc_id r, drc_zone = drc_zone r, drc_name = name, drc_type = kind, drc_content = content, drc_ttl = ttl,
        drc_priority = priority, drc_synced_name = [], drc_synced_type = [], drc_status = Pending,
        drc_created = drc_created r, drc_updated = now\<rparr> (dzn_name z)) (\<lambda>v.
     store_QueueDNSRecordUpdate v
       (dns_job (dzn_node z) u KindDNSRecordSync (record_payload (drc_id r) False) jid now) s)))"

definition dns_DeleteRecord ::
  "ident \<Rightarrow> ident \<Rightarrow> bool \<Rightarrow> ident \<Rightarrow> msec \<Rightarrow> db \<Rightarrow> err + ((dns_record \<times> job) \<times> db)" where
  "dns_DeleteRecord i u admin jid now s =
     andthen (dns_record_of i u admin s) (\<lambda>(r, z).
     andthen (fail_when (unsettled (drc_status r) \<or> dzn_status z \<noteq> Active) DnsErrBusy) (\<lambda>_.
     store_QueueDNSRecordDelete (drc_id r)
       (dns_job (dzn_node z) u KindDNSRecordSync (record_payload (drc_id r) True) jid now) now s))"

section \<open>Job handlers\<close>

definition zone_spec_of :: "dns_zone \<Rightarrow> zone_spec" where
  "zone_spec_of z = \<lparr>zsp_id = dzn_id z, zsp_name = dzn_name z, zsp_nameservers = [dzn_primary z, dzn_secondary z]\<rparr>"

definition dns_zoneSpec :: "dns_zone \<Rightarrow> db \<Rightarrow> err + (dns_provider \<times> node \<times> zone_spec)" where
  "dns_zoneSpec z s =
     andthen (map_err (Wrapped ''get DNS provider'') (store_DNSProvider (dzn_provider z) s)) (\<lambda>p.
     andthen (map_err (Wrapped ''get DNS node'') (store_Node (dzn_node z) s)) (\<lambda>n.
     Inr (p, n, zone_spec_of z)))"

definition dns_ProvisionZone :: "dns_agent \<Rightarrow> msec \<Rightarrow> job \<Rightarrow> db \<Rightarrow> err option \<times> db" where
  "dns_ProvisionZone ag now j s =
     (case payload_string ''zoneId'' (job_payload j) of
        None \<Rightarrow> (Some (Plain ''decode DNS zone job payload''), s)
      | Some i \<Rightarrow>
     if i = [] then (Some (Plain ''decode DNS zone job payload''), s)
     else (case store_DNSZone i s of
        Inl e \<Rightarrow> (Some (Wrapped ''get DNS zone'' e), s)
      | Inr z \<Rightarrow>
     (case dns_zoneSpec z s of
        Inl e \<Rightarrow> (Some e, s)
      | Inr (p, n, spec) \<Rightarrow>
     if dpr_driver p \<noteq> PowerDNS then (Some (Plain ''unsupported DNS provider''), s)
     else if job_kind_of j = KindDNSZoneDelete then
       (case agt_DeleteDNSZone ag (nod_endpoint n) spec of
          Some e \<Rightarrow> (Some (Wrapped ''delete DNS zone'' e), store_UpdateDNSZoneStatus (dzn_id z) Errored now s)
        | None \<Rightarrow> (None, store_DeleteDNSZone (dzn_id z) s))
     else if job_kind_of j \<noteq> KindDNSZoneCreate then (Some (Plain ''unsupported DNS zone job kind''), s)
     else
       let s1 = store_UpdateDNSZoneStatus (dzn_id z) Pending now s in
       (case agt_EnsureDNSZone ag (nod_endpoint n) spec of
          Some e \<Rightarrow> (Some (Wrapped ''ensure DNS zone'' e), store_UpdateDNSZoneStatus (dzn_id z) Errored now s1)
        | None \<Rightarrow> (None, store_UpdateDNSZoneStatus (dzn_id z) Active now s1)))))"

text \<open>The record set of one key: the stored records of that name and type that are staying.\<close>

definition set_members :: "dns_record list \<Rightarrow> ident \<Rightarrow> bool \<Rightarrow> string \<times> string \<Rightarrow> dns_record list" where
  "set_members rs i del k =
     filter (\<lambda>r. drc_name r = fst k \<and> drc_type r = snd k \<and> drc_status r \<noteq> Deleting \<and> \<not> (del \<and> drc_id r = i)) rs"

definition record_set_of :: "ext \<Rightarrow> dns_record list \<Rightarrow> ident \<Rightarrow> bool \<Rightarrow> string \<times> string \<Rightarrow> record_set" where
  "record_set_of x rs i del k =
     (let ms = set_members rs i del k in
      \<lparr>rst_name = fst k, rst_type = snd k, rst_ttl = (if ms = [] then 0 else drc_ttl (last ms)),
       rst_records = sort (map (dns_ProviderContent x) ms)\<rparr>)"

definition sync_keys :: "dns_record \<Rightarrow> (string \<times> string) list" where
  "sync_keys r =
     (if drc_synced_name r \<noteq> [] \<and> (drc_synced_name r \<noteq> drc_name r \<or> drc_synced_type r \<noteq> drc_type r)
      then [(drc_synced_name r, drc_synced_type r)] else []) @ [(drc_name r, drc_type r)]"

definition dns_recordSets :: "ext \<Rightarrow> dns_record list \<Rightarrow> dns_record \<Rightarrow> ident \<Rightarrow> bool \<Rightarrow> record_set list" where
  "dns_recordSets x rs r i del = map (record_set_of x rs i del) (sync_keys r)"

definition payload_flag :: "string \<Rightarrow> payload \<Rightarrow> bool option" where
  "payload_flag k p =
     (case map_of p k of None \<Rightarrow> Some False | Some (JBool b) \<Rightarrow> Some b | Some _ \<Rightarrow> None)"

definition dns_ProvisionRecord :: "ext \<Rightarrow> dns_agent \<Rightarrow> msec \<Rightarrow> job \<Rightarrow> db \<Rightarrow> err option \<times> db" where
  "dns_ProvisionRecord x ag now j s =
     (case (payload_string ''recordId'' (job_payload j), payload_flag ''delete'' (job_payload j)) of
        (Some i, Some del) \<Rightarrow>
     if i = [] then (Some (Plain ''decode DNS record job payload''), s)
     else (case store_DNSRecord i s of
        Inl e \<Rightarrow> (Some (Wrapped ''get DNS record'' e), s)
      | Inr r \<Rightarrow>
     (case store_DNSZone (drc_zone r) s of
        Inl e \<Rightarrow> (Some (Wrapped ''get DNS zone'' e), s)
      | Inr z \<Rightarrow>
     (case dns_zoneSpec z s of
        Inl e \<Rightarrow> (Some e, s)
      | Inr (p, n, spec) \<Rightarrow>
     if dpr_driver p \<noteq> PowerDNS then (Some (Plain ''unsupported DNS provider''), s)
     else
       let rs = store_DNSRecords (dzn_id z) s;
           s1 = (if del then s else store_UpdateDNSRecordStatus (drc_id r) Pending now s) in
       (case agt_SyncDNSRecordSets ag (nod_endpoint n) spec (dns_recordSets x rs r i del) of
          Some e \<Rightarrow> (Some (Wrapped ''sync DNS records'' e), store_UpdateDNSRecordStatus (drc_id r) Errored now s1)
        | None \<Rightarrow> (None, if del then store_DeleteDNSRecord (drc_id r) s1
            else store_CompleteDNSRecordSync (drc_id r) now s1)))))
      | _ \<Rightarrow> (Some (Plain ''decode DNS record job payload''), s))"

section \<open>The agent's checks\<close>

definition agent_ValidateZoneIdentity :: "ext \<Rightarrow> zone_spec \<Rightarrow> err option" where
  "agent_ValidateZoneIdentity x v =
     (if \<not> idPattern (zsp_id v) then Some (ValidationErr ''id'' ''Invalid resource ID'')
      else if validate_Domain x (zsp_name v) \<noteq> Inr (zsp_name v) then Some (Plain ''invalid DNS zone'')
      else None)"

definition agent_ValidateZone :: "ext \<Rightarrow> zone_spec \<Rightarrow> err option" where
  "agent_ValidateZone x v =
     (case agent_ValidateZoneIdentity x v of
        Some e \<Rightarrow> Some e
      | None \<Rightarrow>
          (case zsp_nameservers v of
            [a, b] \<Rightarrow>
              if validate_Domain x a \<noteq> Inr a \<or> validate_Domain x b \<noteq> Inr b \<or> a = b
              then Some (Plain ''invalid DNS nameservers'') else None
          | _ \<Rightarrow> Some (Plain ''invalid DNS zone'')))"

definition agent_recordName :: "ext \<Rightarrow> string \<Rightarrow> string \<Rightarrow> bool" where
  "agent_recordName x v zone \<longleftrightarrow>
     v = ToLower (ext_lower x) (TrimSuffix v ''.'') \<and> in_zone v zone \<and> name_labels v"

definition content_ok :: "string \<Rightarrow> bool" where
  "content_ok c \<longleftrightarrow> c \<noteq> [] \<and> length c \<le> 2048 \<and> \<not> ContainsAny c [CHR 0x00, CHR 0x0D, CHR 0x0A]"

fun check_sets :: "ext \<Rightarrow> string \<Rightarrow> (string \<times> string) list \<Rightarrow> record_set list \<Rightarrow> err option" where
  "check_sets x zone seen [] = None"
| "check_sets x zone seen (v # vs) =
     (if \<not> agent_recordName x (rst_name v) zone \<or> \<not> record_type (rst_type v) then Some (Plain ''invalid DNS record set'')
      else if (rst_name v, rst_type v) \<in> set seen then Some (Plain ''duplicate DNS record set'')
      else if rst_records v = [] then
        (if rst_ttl v \<noteq> 0 then Some (Plain ''deleted DNS record set has a TTL'')
         else check_sets x zone ((rst_name v, rst_type v) # seen) vs)
      else if rst_ttl v < 60 \<or> 86400 < rst_ttl v \<or> 100 < length (rst_records v)
      then Some (Plain ''invalid DNS record set TTL or size'')
      else if \<not> list_all content_ok (rst_records v) then Some (Plain ''invalid DNS record content'')
      else check_sets x zone ((rst_name v, rst_type v) # seen) vs)"

definition agent_ValidateRecordSets :: "ext \<Rightarrow> zone_spec \<Rightarrow> record_set list \<Rightarrow> err option" where
  "agent_ValidateRecordSets x z vs =
     (case agent_ValidateZoneIdentity x z of
        Some e \<Rightarrow> Some e
      | None \<Rightarrow>
          if length vs < 1 \<or> 2 < length vs then Some (Plain ''invalid DNS record set count'')
          else check_sets x (zsp_name z) [] vs)"

section \<open>Names and contents the agent accepts\<close>

lemma name_rune_byte: "name_rune (byte c) \<longleftrightarrow> is_lower c \<or> is_digit c \<or> c = CHR ''-'' \<or> c = CHR ''_''"
  using byte_inj [of c "CHR ''-''"] byte_inj [of c "CHR ''_''"]
  by (auto simp: name_rune_def is_lower_def is_digit_def bytes_between_def byte_def)

lemma name_label_iff:
  "list_all name_rune (runes l) \<longleftrightarrow> (\<forall>c \<in> set l. is_lower c \<or> is_digit c \<or> c = CHR ''-'' \<or> c = CHR ''_'')"
proof -
  have "name_rune r \<Longrightarrow> r < 128" for r
    by (auto simp: name_rune_def)
  then show ?thesis
    using runes_list_all_iff [of name_rune l] by (simp add: name_rune_byte list_all_iff)
qed

definition plain_char :: "char \<Rightarrow> bool" where
  "plain_char c \<longleftrightarrow> 33 \<le> byte c \<and> byte c < 127 \<and> lower_char c = c"

lemma plain_chars [simp]:
  "is_lower c \<Longrightarrow> plain_char c" "is_digit c \<Longrightarrow> plain_char c" "plain_char CHR ''-''" "plain_char CHR ''_''"
  "plain_char CHR ''.''" "plain_char CHR ''*''" "plain_char CHR '':''"
  by (auto simp: plain_char_def is_lower_def is_digit_def bytes_between_def byte_def lower_char_def)

lemma name_label_plain: "name_label l \<Longrightarrow> c \<in> set l \<Longrightarrow> plain_char c"
  by (auto simp: name_label_def name_label_iff)

lemma name_labels_parts: "name_labels v \<Longrightarrow> l \<in> set (Split v (CHR ''.'')) \<Longrightarrow> l = ''*'' \<or> name_label l"
  by (auto simp: name_labels_def list_all_iff split: list.splits)

lemma name_labels_plain:
  assumes "name_labels v" "c \<in> set v"
  shows "plain_char c"
proof -
  from assms(2) Split_chars [of v "CHR ''.''"] consider "c = CHR ''.''" | l where "l \<in> set (Split v (CHR ''.''))" "c \<in> set l"
    by blast
  then show ?thesis
    using name_labels_parts [OF assms(1)] name_label_plain by cases fastforce+
qed

lemma name_labels_agent: "name_labels v \<Longrightarrow> in_zone v zone \<Longrightarrow> agent_recordName x v zone"
proof -
  assume v: "name_labels v" and "in_zone v zone"
  have "[] \<notin> set (Split v (CHR ''.''))"
    using name_labels_parts [OF v] by (auto simp: name_label_def)
  then have "TrimSuffix v ''.'' = v"
    by (rule TrimSuffix_labels)
  moreover have "ToLower (ext_lower x) v = v"
    using graphic_chars [of v "ext_lower x"] name_labels_plain [OF v] by (auto simp: plain_char_def)
  ultimately show ?thesis
    using v \<open>in_zone v zone\<close> by (simp add: agent_recordName_def)
qed

lemma domain_label_name: "domain_label l \<Longrightarrow> name_label l"
  by (auto simp: domain_label_def name_label_def list_all_iff domain_rune_def name_rune_def)

lemma domain_name_labels: "validate_Domain x v = Inr a \<Longrightarrow> name_labels a"
  using validate_Domain_Inr(4) [of x v a] domain_label_name
  by (auto simp: name_labels_def list_all_iff split: list.split)

lemma recordName_agent:
  assumes "dns_recordName x v zone = Inr n" "name_labels zone"
  shows "agent_recordName x n zone"
  using assms name_labels_agent [of n zone x]
  by (auto simp: dns_recordName_def Let_def in_zone_def split: if_splits)

lemma content_okI: "c \<noteq> [] \<Longrightarrow> length c \<le> 2048 \<Longrightarrow> (\<And>d. d \<in> set c \<Longrightarrow> 32 \<le> byte d) \<Longrightarrow> content_ok c"
  by (fastforce simp: content_ok_def ContainsAny_def list_ex_iff byte_def)

lemma plain_byte: "plain_char c \<Longrightarrow> 32 \<le> byte c"
  by (simp add: plain_char_def)

lemma domain_plain: "validate_Domain x v = Inr a \<Longrightarrow> c \<in> set a \<Longrightarrow> plain_char c"
  using domain_name_labels name_labels_plain by blast

lemma ip_char_plain: "ip_char c \<Longrightarrow> plain_char c"
  by (auto simp: ip_char_def plain_char_def bytes_between_def is_digit_def byte_def lower_char_def)

lemma priority_text: "0 \<le> p \<Longrightarrow> p \<le> 65535 \<Longrightarrow> length (int_text p) \<le> 5 \<and> (\<forall>c \<in> set (int_text p). plain_char c)"
proof -
  assume "0 \<le> p" "p \<le> 65535"
  then have "int_text p = nat_text (nat p)" "nat p < 65536"
    by (auto simp: int_text_def)
  moreover have "n < 65536 \<Longrightarrow> length (nat_text n) \<le> 5" for n
    by (simp add: nat_text.simps)
  ultimately show ?thesis
    using nat_text_digits by auto
qed

text \<open>What may be in the column \<open>content\<close> of a record of each type.\<close>

definition txt_ok :: "string \<Rightarrow> bool" where
  "txt_ok c \<longleftrightarrow> c \<noteq> [] \<and> length c \<le> 1000 \<and> \<not> ContainsAny c [CHR 0x00, CHR 0x0D, CHR 0x0A]"

text \<open>For a \<open>TXT\<close> this is the bound of the service; the agent checks the quoted text, which may be longer.\<close>

definition record_fits :: "ext \<Rightarrow> dns_record \<Rightarrow> bool" where
  "record_fits x r \<longleftrightarrow> (if drc_type r = ''TXT'' then txt_ok (drc_content r) else content_ok (dns_ProviderContent x r))"

lemma recordContent_fits:
  assumes "dns_recordContent x kind v p = Inr (c, q)" "drc_type r = kind" "drc_content r = c" "drc_priority r = q"
  shows "record_fits x r"
proof -
  consider "kind = ''A''" | "kind = ''AAAA''" | "kind = ''CNAME''" | "kind = ''MX''" | "kind = ''TXT''"
    using assms(1) by (auto simp: dns_recordContent_def Let_def split: if_splits)
  then show ?thesis
  proof cases
    case 1
    with assms(1) obtain a b where a: "ParseIP (TrimSpace v) = Some a" "To4 a = Some b" "c = ipv4_text b"
      by (auto simp: dns_recordContent_def Let_def bind_eq_Some_conv split: option.splits)
    have b: "length b = 4 \<and> (\<forall>n \<in> set b. n < 256)"
      using To4_octets [of a b] ParseIP_ok [OF a(1)] a(2) by blast
    have "content_ok c"
      using ipv4_text_ok [of b] b by (intro content_okI) (auto simp: a(3) intro: plain_byte ip_char_plain)
    with 1 assms show ?thesis
      by (simp add: record_fits_def dns_ProviderContent_def)
  next
    case 2
    with assms(1) obtain a where a: "ParseIP (TrimSpace v) = Some a" "To4 a = None" "c = ip_text a"
      by (auto simp: dns_recordContent_def Let_def split: option.splits if_splits)
    have "content_ok c"
      using ipv6_text_ok [of a] ParseIP_ok [OF a(1)]
      by (intro content_okI) (auto simp: a(2,3) ip_text_def intro: plain_byte ip_char_plain)
    with 2 assms show ?thesis
      by (simp add: record_fits_def dns_ProviderContent_def)
  next
    case 3
    with assms(1) have d: "validate_Domain x (TrimSpace v) = Inr c"
      by (auto simp: dns_recordContent_def Let_def split: sum.splits)
    have "content_ok (c @ ''.'')"
      using domain_plain [OF d] validate_Domain_Inr(1) [OF d] plain_byte [of "CHR ''.''"]
      by (intro content_okI) (auto intro: plain_byte)
    with 3 assms show ?thesis
      by (simp add: record_fits_def dns_ProviderContent_def)
  next
    case 4
    with assms(1) have d: "validate_Domain x (TrimSpace v) = Inr c" "0 \<le> q" "q \<le> 65535"
      by (auto simp: dns_recordContent_def Let_def split: sum.splits if_splits)
    have "32 \<le> byte (CHR '' '')"
      by (simp add: byte_def)
    then have "content_ok (int_text q @ '' '' @ c @ ''.'')"
      using domain_plain [OF d(1)] validate_Domain_Inr(1) [OF d(1)] priority_text [OF d(2,3)] plain_byte [of "CHR ''.''"]
      by (intro content_okI) (auto intro: plain_byte)
    with 4 assms show ?thesis
      by (simp add: record_fits_def dns_ProviderContent_def)
  next
    case 5
    with assms show ?thesis
      by (auto simp: record_fits_def dns_recordContent_def Let_def txt_ok_def split: if_splits)
  qed
qed

section \<open>Record sets stay consistent\<close>

text \<open>
  Two records of one name: not the same record, no \<open>CNAME\<close> beside another record, one TTL per
  type.
\<close>

definition apart :: "dns_record \<Rightarrow> dns_record \<Rightarrow> bool" where
  "apart r v \<longleftrightarrow> (drc_zone r = drc_zone v \<and> nocase (drc_name r) = nocase (drc_name v) \<longrightarrow>
     \<not> same_record r v \<and> drc_type r \<noteq> ''CNAME'' \<and> drc_type v \<noteq> ''CNAME'' \<and>
     (drc_type r = drc_type v \<longrightarrow> drc_ttl r = drc_ttl v))"

definition record_ok :: "ext \<Rightarrow> string \<Rightarrow> dns_record \<Rightarrow> bool" where
  "record_ok x zone r \<longleftrightarrow> agent_recordName x (drc_name r) zone \<and> record_type (drc_type r) \<and>
     60 \<le> drc_ttl r \<and> drc_ttl r \<le> 86400 \<and> (drc_type r = ''CNAME'' \<longrightarrow> drc_name r \<noteq> zone) \<and> record_fits x r \<and>
     (drc_synced_name r \<noteq> [] \<longrightarrow> agent_recordName x (drc_synced_name r) zone \<and> record_type (drc_synced_type r))"

definition nameservers_ok :: "ext \<Rightarrow> string \<Rightarrow> string \<Rightarrow> bool" where
  "nameservers_ok x a b \<longleftrightarrow> validate_Domain x a = Inr a \<and> validate_Domain x b = Inr b \<and> a \<noteq> b"

definition zone_ok :: "ext \<Rightarrow> dns_zone \<Rightarrow> bool" where
  "zone_ok x z \<longleftrightarrow> idPattern (dzn_id z) \<and> validate_Domain x (dzn_name z) = Inr (dzn_name z) \<and>
     nameservers_ok x (dzn_primary z) (dzn_secondary z)"

definition dns_inv :: "ext \<Rightarrow> db \<Rightarrow> bool" where
  "dns_inv x s \<longleftrightarrow>
     distinct (map dzn_id (dns_zones s)) \<and> distinct (map (\<lambda>z. nocase (dzn_name z)) (dns_zones s)) \<and>
     (\<forall>z \<in> set (dns_zones s). zone_ok x z) \<and>
     distinct (map drc_id (dns_records s)) \<and> (\<forall>r \<in> set (dns_records s). idPattern (drc_id r)) \<and>
     (\<forall>r \<in> set (dns_records s). \<exists>z \<in> set (dns_zones s). dzn_id z = drc_zone r \<and> record_ok x (dzn_name z) r) \<and>
     (\<forall>r \<in> set (dns_records s). \<forall>v \<in> set (dns_records s). drc_id r \<noteq> drc_id v \<longrightarrow> apart r v) \<and>
     (let st = dns_settings s in dst_primary st \<noteq> [] \<and> dst_secondary st \<noteq> [] \<longrightarrow>
       nameservers_ok x (dst_primary st) (dst_secondary st))"

text \<open>
  Everything that writes these tables.  A new zone or record gets a generated identifier.
\<close>

inductive dns_step :: "ext \<Rightarrow> db \<Rightarrow> db \<Rightarrow> bool" for x where
  provider: "dns_EnsureLocalProvider node i now s = Inr (p, s') \<Longrightarrow> dns_step x s s'"
| settings: "dns_UpdateSettings x v now s = Inr (r, s') \<Longrightarrow> dns_step x s s'"
| create_zone: "dns_CreateZone x acc provider name u admin i jid now s = Inr (r, s') \<Longrightarrow> idPattern i \<Longrightarrow> dns_step x s s'"
| delete_zone: "dns_DeleteZone i u admin jid now s = Inr (r, s') \<Longrightarrow> dns_step x s s'"
| create_record: "dns_CreateRecord x zi name kind content ttl priority u admin i jid now s = Inr (r, s') \<Longrightarrow>
    idPattern i \<Longrightarrow> dns_step x s s'"
| update_record: "dns_UpdateRecord x i name kind content ttl priority u admin jid now s = Inr (r, s') \<Longrightarrow> dns_step x s s'"
| delete_record: "dns_DeleteRecord i u admin jid now s = Inr (r, s') \<Longrightarrow> dns_step x s s'"
| zone_job: "dns_ProvisionZone ag now j s = (e, s') \<Longrightarrow> dns_step x s s'"
| record_job: "dns_ProvisionRecord x ag now j s = (e, s') \<Longrightarrow> dns_step x s s'"
| elsewhere: "dns_zones s' = dns_zones s \<Longrightarrow> dns_records s' = dns_records s \<Longrightarrow> dns_settings s' = dns_settings s \<Longrightarrow>
    dns_step x s s'"

lemma apart_sym: "apart r v \<longleftrightarrow> apart v r"
  by (auto simp: apart_def same_record_def)

lemma available_apart:
  assumes "ensureDNSRecordAvailable v except s = Inr u" "r \<in> set (dns_records s)" "drc_id r \<noteq> except"
  shows "apart r v"
proof (rule ccontr)
  assume n: "\<not> apart r v"
  let ?es = "map (record_conflict v except) (filter (\<lambda>r. drc_zone r = drc_zone v \<and>
          nocase (drc_name r) = nocase (drc_name v)) (dns_records s))"
  have "record_conflict v except r \<in> set ?es"
    using n assms(2) by (auto simp: apart_def)
  moreover have "record_conflict v except r \<noteq> None"
    using n assms(3) by (auto simp: apart_def same_record_def record_conflict_def)
  ultimately obtain e where "List.find (\<lambda>e. e \<noteq> None) ?es = Some (Some e)"
    by (cases "List.find (\<lambda>e. e \<noteq> None) ?es") (auto simp only: find_None_iff dest: find_Some_iff_mem)
  with assms(1) show False
    by (simp add: ensureDNSRecordAvailable_def)
qed

lemma NormalizeRecord_ok:
  assumes "dns_NormalizeRecord x v zone = Inr r" "validate_Domain x zone = Inr zone" "drc_synced_name v = []"
  shows "record_ok x zone r \<and> drc_id r = drc_id v \<and> drc_zone r = drc_zone v \<and> drc_synced_name r = [] \<and>
    drc_synced_type r = drc_synced_type v"
proof -
  from assms(1) obtain name content priority where n: "dns_recordName x (drc_name v) zone = Inr name"
    and k: "record_type (drc_type r)" "\<not> (drc_ttl v < MinTTL \<or> MaxTTL < drc_ttl v)" "\<not> (drc_type r = ''CNAME'' \<and> name = zone)"
    and c: "dns_recordContent x (drc_type r) (drc_content v) (drc_priority v) = Inr (content, priority)"
    and r: "r = v\<lparr>drc_name := name, drc_type := drc_type r, drc_content := content, drc_priority := priority\<rparr>"
    by (auto simp: dns_NormalizeRecord_def Let_def)
  have f: "drc_content r = content" "drc_priority r = priority" "drc_name r = name" "drc_ttl r = drc_ttl v" "drc_id r = drc_id v"
    "drc_zone r = drc_zone v" "drc_synced_name r = drc_synced_name v" "drc_synced_type r = drc_synced_type v"
    by (subst r, simp)+
  show ?thesis
    using recordName_agent [OF n domain_name_labels [OF assms(2)]] recordContent_fits [OF c refl f(1,2)] k f assms(3)
    by (auto simp: record_ok_def MinTTL_def MaxTTL_def)
qed

lemma dns_inv_jobs [simp]: "dns_inv x (s\<lparr>jobs := js\<rparr>) = dns_inv x s"
  by (simp add: dns_inv_def)

lemma dns_inv_update:
  assumes "dns_inv x s" "\<And>r. drc_id (f r) = drc_id r"
    and "\<And>r. r \<in> set (dns_records s) \<Longrightarrow> drc_id r = i \<Longrightarrow>
      (\<exists>z \<in> set (dns_zones s). dzn_id z = drc_zone (f r) \<and> record_ok x (dzn_name z) (f r)) \<and>
      (\<forall>v \<in> set (dns_records s). drc_id v \<noteq> i \<longrightarrow> apart (f r) v)"
  shows "dns_inv x (s\<lparr>dns_records := update_by drc_id i f (dns_records s)\<rparr>)"
proof -
  let ?rs = "update_by drc_id i f (dns_records s)"
  have "distinct (map drc_id ?rs)" "\<forall>r \<in> set ?rs. idPattern (drc_id r)"
    using assms(1,2) by (auto simp: dns_inv_def update_by_keys elim!: update_by_cases)
  moreover have "\<exists>z \<in> set (dns_zones s). dzn_id z = drc_zone r \<and> record_ok x (dzn_name z) r" if "r \<in> set ?rs" for r
    using that
  proof (rule update_by_cases)
    fix q assume "q \<in> set (dns_records s)" "drc_id q = i" "r = f q"
    then show ?thesis using assms(3) by blast
  next
    assume "r \<in> set (dns_records s)"
    then show ?thesis using assms(1) unfolding dns_inv_def by blast
  qed
  moreover have "apart r v" if "r \<in> set ?rs" "v \<in> set ?rs" "drc_id r \<noteq> drc_id v" for r v
  proof -
    have old: "apart r v" if "r \<in> set (dns_records s)" "v \<in> set (dns_records s)" "drc_id r \<noteq> drc_id v" for r v
      using that assms(1) unfolding dns_inv_def by blast
    from that(1) show ?thesis
    proof (rule update_by_cases)
      fix q assume q: "q \<in> set (dns_records s)" "drc_id q = i" "r = f q"
      from that(2) show ?thesis
      proof (rule update_by_cases)
        fix p assume "p \<in> set (dns_records s)" "drc_id p = i" "v = f p"
        then show ?thesis using that(3) q assms(2) by simp
      next
        assume "v \<in> set (dns_records s)" "drc_id v \<noteq> i"
        then show ?thesis using assms(3) q by blast
      qed
    next
      assume r: "r \<in> set (dns_records s)" "drc_id r \<noteq> i"
      from that(2) show ?thesis
      proof (rule update_by_cases)
        fix p assume "p \<in> set (dns_records s)" "drc_id p = i" "v = f p"
        then show ?thesis using assms(3) r apart_sym by metis
      next
        assume "v \<in> set (dns_records s)" "drc_id v \<noteq> i"
        then show ?thesis using old r that(3) by blast
      qed
    qed
  qed
  ultimately show ?thesis
    using assms(1) by (simp add: dns_inv_def)
qed

lemma dns_inv_row:
  assumes "dns_inv x s"
    and "\<And>r. drc_id (f r) = drc_id r \<and> drc_zone (f r) = drc_zone r \<and> drc_name (f r) = drc_name r \<and>
      drc_type (f r) = drc_type r \<and> drc_content (f r) = drc_content r \<and> drc_priority (f r) = drc_priority r \<and>
      drc_ttl (f r) = drc_ttl r \<and>
      (drc_synced_name (f r) = drc_synced_name r \<and> drc_synced_type (f r) = drc_synced_type r \<or>
       drc_synced_name (f r) = drc_name r \<and> drc_synced_type (f r) = drc_type r)"
  shows "dns_inv x (s\<lparr>dns_records := update_by drc_id i f (dns_records s)\<rparr>)"
proof (rule dns_inv_update [OF assms(1)])
  fix r assume r: "r \<in> set (dns_records s)" "drc_id r = i"
  have "record_ok x zone (f r)" if "record_ok x zone r" for zone
    using that assms(2) [of r] by (auto simp: record_ok_def record_fits_def dns_ProviderContent_def)
  moreover have "apart (f r) v" if "apart r v" for v
    using that assms(2) [of r] by (simp add: apart_def same_record_def)
  ultimately show "(\<exists>z \<in> set (dns_zones s). dzn_id z = drc_zone (f r) \<and> record_ok x (dzn_name z) (f r)) \<and>
      (\<forall>v \<in> set (dns_records s). drc_id v \<noteq> i \<longrightarrow> apart (f r) v)"
    using assms r unfolding dns_inv_def by metis
qed (use assms(2) in simp)

lemma dns_inv_record_status [simp]: "dns_inv x s \<Longrightarrow> dns_inv x (store_UpdateDNSRecordStatus i st now s)"
  unfolding store_UpdateDNSRecordStatus_def by (rule dns_inv_row) (auto simp: record_row_def)

lemma dns_inv_synced [simp]: "dns_inv x s \<Longrightarrow> dns_inv x (store_CompleteDNSRecordSync i now s)"
  unfolding store_CompleteDNSRecordSync_def by (rule dns_inv_row) (auto simp: synced_row_def)

lemma dns_inv_delete_record [simp]: "dns_inv x s \<Longrightarrow> dns_inv x (store_DeleteDNSRecord i s)"
  by (simp add: store_DeleteDNSRecord_def dns_inv_def delete_by_def distinct_map_filter_key)

lemma dns_inv_zone_status [simp]: "dns_inv x s \<Longrightarrow> dns_inv x (store_UpdateDNSZoneStatus i st now s)"
proof -
  assume inv: "dns_inv x s"
  let ?zs = "update_by dzn_id i (zone_row st now) (dns_zones s)"
  have "map dzn_id ?zs = map dzn_id (dns_zones s)"
    "map (\<lambda>z. nocase (dzn_name z)) ?zs = map (\<lambda>z. nocase (dzn_name z)) (dns_zones s)"
    by (auto simp: update_by_def zone_row_def)
  moreover have "zone_ok x z" if "z \<in> set ?zs" for z
    using that inv by (rule_tac update_by_cases [OF that]) (auto simp: dns_inv_def zone_ok_def zone_row_def)
  moreover have "\<exists>z \<in> set ?zs. dzn_id z = drc_zone r \<and> record_ok x (dzn_name z) r" if r: "r \<in> set (dns_records s)" for r
  proof -
    obtain z where z: "z \<in> set (dns_zones s)" "dzn_id z = drc_zone r" "record_ok x (dzn_name z) r"
      using inv r unfolding dns_inv_def by blast
    then show ?thesis
      by (intro bexI [OF _ update_by_mem [OF z(1), of dzn_id i "zone_row st now"]]) (simp add: zone_row_def)
  qed
  ultimately show ?thesis
    using inv by (simp add: dns_inv_def store_UpdateDNSZoneStatus_def)
qed

lemma dns_inv_delete_zone [simp]: "dns_inv x s \<Longrightarrow> dns_inv x (store_DeleteDNSZone i s)"
proof -
  assume inv: "dns_inv x s"
  have "\<exists>z \<in> set (delete_by dzn_id i (dns_zones s)). dzn_id z = drc_zone r \<and> record_ok x (dzn_name z) r"
    if "r \<in> set (delete_by drc_zone i (dns_records s))" for r
  proof -
    from that inv obtain z where "z \<in> set (dns_zones s)" "dzn_id z = drc_zone r" "record_ok x (dzn_name z) r" "drc_zone r \<noteq> i"
      unfolding dns_inv_def delete_by_def by fastforce
    then show ?thesis
      by (auto simp: delete_by_def)
  qed
  then show ?thesis
    using inv by (simp add: store_DeleteDNSZone_def dns_inv_def delete_by_def distinct_map_filter_key)
qed

lemma insert_record_Inr:
  "insert_record v s = Inr (row, s') \<Longrightarrow> row = v\<lparr>drc_synced_name := [], drc_synced_type := [], drc_status := Pending\<rparr> \<and>
    s' = s\<lparr>dns_records := dns_records s @ [row]\<rparr> \<and> drc_id v \<notin> drc_id ` set (dns_records s)"
  by (auto simp: insert_record_def Let_def exists_by_iff split: if_splits)

lemma update_record_Inr:
  "update_record v s = Inr (row, s') \<Longrightarrow> \<exists>r. r \<in> set (dns_records s) \<and> drc_id r = drc_id v \<and> row = changed_record v r \<and>
    s' = s\<lparr>dns_records := update_by drc_id (drc_id v) (changed_record v) (dns_records s)\<rparr>"
  by (auto simp: update_record_def split: option.splits if_splits dest: dns_record_table.find_mem)

lemma insert_zone_Inr:
  "insert_zone z s = Inr s' \<Longrightarrow> s' = s\<lparr>dns_zones := dns_zones s @ [z\<lparr>dzn_status := Pending\<rparr>]\<rparr> \<and>
    dzn_id z \<notin> dzn_id ` set (dns_zones s) \<and> (\<forall>r \<in> set (dns_zones s). nocase (dzn_name r) \<noteq> nocase (dzn_name z))"
  by (auto simp: insert_zone_def exists_by_iff list_ex_iff split: if_splits)

lemma record_err_Inr [simp]: "record_err r = Inr v \<longleftrightarrow> r = Inr v"
  by (simp add: record_err_def)

lemma constraint_as_Inr [simp]: "constraint_as e r = Inr v \<longleftrightarrow> r = Inr v"
  by (simp add: constraint_as_def)

lemma zone_found: "dns_Zone i u admin s = Inr z \<Longrightarrow> z \<in> set (dns_zones s) \<and> dzn_id z = i"
  by (auto simp: dns_Zone_def store_DNSZone_def dest: dns_zone_table.find_mem)

lemma dns_inv_create_zone:
  assumes inv: "dns_inv x s" and "idna_stable x" "idPattern i"
    and c: "dns_CreateZone x acc provider name u admin i jid now s = Inr (r, s')"
  shows "dns_inv x s'"
proof -
  obtain z' j where r: "r = (z', j)" by (cases r)
  let ?st = "dns_settings s"
  from c obtain n where n: "validate_Domain x name = Inr n" "dst_primary ?st \<noteq> []" "dst_secondary ?st \<noteq> []"
    by (auto simp: dns_CreateZone_def store_DNSSettings_def Let_def)
  with c obtain a :: account and p :: dns_provider where st: "store_CreateDNSZoneProvision
       \<lparr>dzn_id = i, dzn_account = acc_id a, dzn_node = acc_node a, dzn_provider = dpr_id p, dzn_name = n,
        dzn_primary = dst_primary ?st, dzn_secondary = dst_secondary ?st, dzn_status = Pending,
        dzn_created = now, dzn_updated = now\<rparr>
       (dns_job (acc_node a) u KindDNSZoneCreate (zone_payload i) jid now) s = Inr ((z', j), s')"
    by (auto simp: dns_CreateZone_def store_DNSSettings_def Let_def r)
  let ?z = "\<lparr>dzn_id = i, dzn_account = acc_id a, dzn_node = acc_node a, dzn_provider = dpr_id p, dzn_name = n,
        dzn_primary = dst_primary ?st, dzn_secondary = dst_secondary ?st, dzn_status = Pending,
        dzn_created = now, dzn_updated = now\<rparr>"
  from st obtain s1 js where ins: "insert_zone ?z s = Inr s1" and s': "s' = s1\<lparr>jobs := js\<rparr>"
    by (auto simp: store_CreateDNSZoneProvision_def dest!: createJob_Inr)
  have "zone_ok x ?z"
    using validate_Domain_idem [OF n(1) assms(2)] assms(3) inv n(2,3) by (simp add: zone_ok_def dns_inv_def Let_def)
  moreover have "distinct (map (\<lambda>z. nocase (dzn_name z)) (dns_zones s @ [?z]))"
    using inv insert_zone_Inr [OF ins] by (auto simp: dns_inv_def)
  moreover have "\<exists>z \<in> set (dns_zones s @ [?z]). dzn_id z = drc_zone q \<and> record_ok x (dzn_name z) q" if "q \<in> set (dns_records s)" for q
    using inv that unfolding dns_inv_def by auto
  ultimately show ?thesis
    using inv insert_zone_Inr [OF ins] unfolding s' dns_inv_jobs by (simp add: dns_inv_def)
qed

lemma dns_inv_create_record:
  assumes inv: "dns_inv x s" and "idPattern i"
    and c: "dns_CreateRecord x zi name kind content ttl priority u admin i jid now s = Inr (r, s')"
  shows "dns_inv x s'"
proof -
  obtain q j where r: "r = (q, j)" by (cases r)
  from c obtain z v where z: "dns_Zone zi u admin s = Inr z"
    and v: "dns_NormalizeRecord x
       \<lparr>drc_id = [], drc_zone = dzn_id z, drc_name = name, drc_type = kind, drc_content = content, drc_ttl = ttl,
        drc_priority = priority, drc_synced_name = [], drc_synced_type = [], drc_status = Pending,
        drc_created = 0, drc_updated = 0\<rparr> (dzn_name z) = Inr v"
    and st: "store_CreateDNSRecordProvision
       (v\<lparr>drc_id := i, drc_status := Pending, drc_created := now, drc_updated := now\<rparr>)
       (dns_job (dzn_node z) u KindDNSRecordSync (record_payload i False) jid now) s = Inr ((q, j), s')"
    by (auto simp: dns_CreateRecord_def r)
  let ?v = "v\<lparr>drc_id := i, drc_status := Pending, drc_created := now, drc_updated := now\<rparr>"
  from st obtain s1 js where av: "ensureDNSRecordAvailable ?v [] s = Inr ()" and ins: "insert_record ?v s = Inr (q, s1)"
    and s': "s' = s1\<lparr>jobs := js\<rparr>"
    by (auto simp: store_CreateDNSRecordProvision_def dest!: createJob_Inr)
  have zin: "z \<in> set (dns_zones s)" and "zone_ok x z"
    using zone_found [OF z] inv by (auto simp: dns_inv_def)
  then have v': "record_ok x (dzn_name z) v \<and> drc_zone v = dzn_id z \<and> drc_synced_name v = []"
    using NormalizeRecord_ok [OF v] by (simp add: zone_ok_def)
  note ins' = insert_record_Inr [OF ins]
  have q: "record_ok x (dzn_name z) q" "drc_zone q = dzn_id z" "drc_id q = i"
    using v' ins' by (auto simp: record_ok_def record_fits_def dns_ProviderContent_def)
  have apart: "apart p q" if "p \<in> set (dns_records s)" for p
  proof -
    have "drc_id p \<noteq> []"
      using inv that by (auto simp: dns_inv_def idPattern_def)
    then show ?thesis
      using available_apart [OF av that] ins' by (simp add: apart_def same_record_def)
  qed
  have "\<exists>z \<in> set (dns_zones s). dzn_id z = drc_zone p \<and> record_ok x (dzn_name z) p" if "p \<in> set (dns_records s @ [q])" for p
    using that inv zin q unfolding dns_inv_def by auto
  moreover have "apart p p'" if "p \<in> set (dns_records s @ [q])" "p' \<in> set (dns_records s @ [q])" "drc_id p \<noteq> drc_id p'" for p p'
    using that inv apart apart_sym [of q] unfolding dns_inv_def by auto
  ultimately show ?thesis
    using inv ins' q assms(2) unfolding s' dns_inv_jobs by (auto simp: dns_inv_def)
qed

lemma dns_inv_update_record:
  assumes inv: "dns_inv x s"
    and c: "dns_UpdateRecord x i name kind content ttl priority u admin jid now s = Inr (r, s')"
  shows "dns_inv x s'"
proof -
  obtain q j where r: "r = (q, j)" by (cases r)
  from c obtain old z v where z: "dns_record_of i u admin s = Inr (old, z)"
    and v: "dns_NormalizeRecord x
       \<lparr>drc_id = drc_id old, drc_zone = drc_zone old, drc_name = name, drc_type = kind, drc_content = content, drc_ttl = ttl,
        drc_priority = priority, drc_synced_name = [], drc_synced_type = [], drc_status = Pending,
        drc_created = drc_created old, drc_updated = now\<rparr> (dzn_name z) = Inr v"
    and st: "store_QueueDNSRecordUpdate v
       (dns_job (dzn_node z) u KindDNSRecordSync (record_payload (drc_id old) False) jid now) s = Inr ((q, j), s')"
    by (auto simp: dns_UpdateRecord_def r)
  from z have zin: "z \<in> set (dns_zones s)" "dzn_id z = drc_zone old" and old: "old \<in> set (dns_records s)" "drc_id old = i"
    by (auto simp: dns_record_of_def store_DNSRecord_def dest: zone_found dns_record_table.find_mem)
  from st obtain s1 js where av: "ensureDNSRecordAvailable v (drc_id v) s = Inr ()" and upd: "update_record v s = Inr (q, s1)"
    and s': "s' = s1\<lparr>jobs := js\<rparr>"
    by (auto simp: store_QueueDNSRecordUpdate_def dest!: createJob_Inr)
  have v': "record_ok x (dzn_name z) v \<and> drc_zone v = drc_zone old \<and> drc_id v = i"
    using NormalizeRecord_ok [OF v] inv zin(1) old(2) by (simp add: zone_ok_def dns_inv_def)
  have only: "p = old" if "p \<in> set (dns_records s)" "drc_id p = i" for p
    using that old inv unfolding dns_inv_def by (metis distinct_key_unique)
  have "record_ok x (dzn_name z) old"
    using inv old(1) zin unfolding dns_inv_def by (metis distinct_key_unique)
  then have ok: "record_ok x (dzn_name z) (changed_record v old)"
    using v' by (auto simp: record_ok_def changed_record_def record_fits_def dns_ProviderContent_def)
  have apart: "apart (changed_record v old) p" if "p \<in> set (dns_records s)" "drc_id p \<noteq> i" for p
    using available_apart [OF av that(1)] that(2) v' by (auto simp: apart_def same_record_def changed_record_def)
  have "dns_inv x (s\<lparr>dns_records := update_by drc_id (drc_id v) (changed_record v) (dns_records s)\<rparr>)"
  proof (rule dns_inv_update [OF inv])
    fix p assume "p \<in> set (dns_records s)" "drc_id p = drc_id v"
    then have p: "p = old"
      using only v' by simp
    show "(\<exists>z \<in> set (dns_zones s). dzn_id z = drc_zone (changed_record v p) \<and> record_ok x (dzn_name z) (changed_record v p)) \<and>
      (\<forall>p' \<in> set (dns_records s). drc_id p' \<noteq> drc_id v \<longrightarrow> apart (changed_record v p) p')"
      using ok apart zin v' unfolding p by (auto simp: changed_record_def)
  qed (simp add: changed_record_def)
  then show ?thesis
    using update_record_Inr [OF upd] unfolding s' by auto
qed


lemma dns_inv_provision_zone: "dns_inv x s \<Longrightarrow> dns_inv x (snd (dns_ProvisionZone ag now j s))"
  by (simp add: dns_ProvisionZone_def Let_def split: option.split sum.split prod.split)

lemma dns_inv_provision_record: "dns_inv x s \<Longrightarrow> dns_inv x (snd (dns_ProvisionRecord x ag now j s))"
  by (simp add: dns_ProvisionRecord_def Let_def split: option.split sum.split prod.split)

lemma ValidateSettings_ok:
  assumes "dns_ValidateSettings x v = Inr w" "idna_stable x" "dst_primary w \<noteq> []" "dst_secondary w \<noteq> []"
  shows "nameservers_ok x (dst_primary w) (dst_secondary w)"
proof -
  from assms(1,3) obtain p q where "validate_Domain x (TrimSpace (dst_primary v)) = Inr p"
    "validate_Domain x (TrimSpace (dst_secondary v)) = Inr q" "p \<noteq> q" "w = v\<lparr>dst_primary := p, dst_secondary := q\<rparr>"
    by (auto simp: dns_ValidateSettings_def Let_def split: if_splits sum.splits)
  then show ?thesis
    using validate_Domain_idem [OF _ assms(2)] by (auto simp: nameservers_ok_def)
qed

text \<open>C34: whatever the panel and its jobs do, the records of a zone never contradict one another.  No
  two records of a zone are the same, a name with a \<open>CNAME\<close> has no other record, the records of
  one name and type share one TTL; every record is inside its zone, has a name, type and TTL the agent
  accepts, and is never a \<open>CNAME\<close> at the apex; the content of every record but a \<open>TXT\<close> is one the agent
  accepts, that of a \<open>TXT\<close> satisfies the service's own bound (one line of at most 1000 bytes); zone
  names are unique and normalised, with two distinct name servers.  That the agent accepts the sets is
  not claimed: a quoted \<open>TXT\<close> may exceed its limit, and a set may have more than 100 records
  (the statement on whole sets below has both as hypotheses).  \<open>ToASCII\<close> is assumed to map its results to
  themselves.\<close>

theorem records_never_conflict:
  assumes "dns_step x s s'" "idna_stable x" "dns_inv x s"
  shows "dns_inv x s'"
  using assms(1)
proof (cases rule: dns_step.cases)
  case (provider node i now p)
  then show ?thesis
    using assms(3) by (auto simp: dns_EnsureLocalProvider_def store_EnsureDNSProvider_def dns_inv_def split: option.splits if_splits)
next
  case (settings v now r)
  then obtain w where w: "dns_ValidateSettings x v = Inr w" "s' = s\<lparr>dns_settings := w\<lparr>dst_updated := now\<rparr>\<rparr>"
    by (auto simp: dns_UpdateSettings_def store_UpdateDNSSettings_def)
  then show ?thesis
    using assms(3) ValidateSettings_ok [OF w(1) assms(2)] by (auto simp: dns_inv_def Let_def)
next
  case (create_zone acc provider name u admin i jid now r)
  then show ?thesis
    using dns_inv_create_zone [OF assms(3,2)] by blast
next
  case (delete_zone i u admin jid now r)
  then show ?thesis
    using assms(3) by (cases r)
      (auto simp: dns_DeleteZone_def store_QueueDNSZoneDelete_def split: option.splits if_splits dest!: createJob_Inr)
next
  case (create_record zi name kind content ttl priority u admin i jid now r)
  then show ?thesis
    using dns_inv_create_record [OF assms(3)] by blast
next
  case (update_record i name kind content ttl priority u admin jid now r)
  then show ?thesis
    using dns_inv_update_record [OF assms(3)] by blast
next
  case (delete_record i u admin jid now r)
  then show ?thesis
    using assms(3) by (cases r)
      (auto simp: dns_DeleteRecord_def store_QueueDNSRecordDelete_def split: option.splits if_splits dest!: createJob_Inr)
next
  case (zone_job ag now j e)
  then show ?thesis
    using dns_inv_provision_zone [OF assms(3), of ag now j] by simp
next
  case (record_job ag now j e)
  then show ?thesis
    using dns_inv_provision_record [OF assms(3), of ag now j] by simp
next
  case elsewhere
  then show ?thesis
    using assms(3) by (simp add: dns_inv_def)
qed

section \<open>What a synchronisation publishes\<close>

definition printable :: "string \<Rightarrow> bool" where
  "printable s \<longleftrightarrow> list_all (\<lambda>c. 32 \<le> byte c \<and> byte c < 127) s"

lemma byte_quote: "byte (CHR 0x22) = 34" "byte backslash = 92"
  by (simp_all add: byte_def backslash_def)

lemma quote_rune_printable:
  assumes "32 \<le> byte c" "byte c < 127"
  shows "quote_rune x (byte c, [c]) = (if c = CHR 0x22 \<or> c = backslash then [backslash, c] else [c])"
proof -
  have "byte c = 34 \<longleftrightarrow> c = CHR 0x22" "byte c = 92 \<longleftrightarrow> c = backslash"
    using byte_inj [of c "CHR 0x22"] byte_inj [of c backslash] by (simp_all add: byte_quote)
  moreover have "byte c \<noteq> rune_error"
    using assms by (simp add: rune_error_def)
  ultimately show ?thesis
    using assms by (simp add: quote_rune_def is_print_def)
qed

lemma Quote_printable:
  assumes "printable s"
  shows "strconv_Quote x s =
    CHR 0x22 # concat (map (\<lambda>c. if c = CHR 0x22 \<or> c = backslash then [backslash, c] else [c]) s) @ [CHR 0x22]"
proof -
  have "list_all is_ascii s"
    using assms by (auto simp: printable_def list_all_iff is_ascii_def)
  then have "map (quote_rune x) (rune_parts s) =
      map (\<lambda>c. if c = CHR 0x22 \<or> c = backslash then [backslash, c] else [c]) s"
    using assms quote_rune_printable by (simp add: rune_parts_ascii printable_def list_all_iff)
  then show ?thesis
    by (simp add: strconv_Quote_def)
qed

lemma Quote_content_ok:
  assumes "printable s" "length s \<le> 1000"
  shows "content_ok (strconv_Quote x s)"
proof -
  let ?q = "\<lambda>c. if c = CHR 0x22 \<or> c = backslash then [backslash, c] else [c]"
  have "length (concat (map ?q t)) \<le> 2 * length t" for t
    by (induction t) auto
  then have "length (concat (map ?q s)) \<le> 2000"
    using assms(2) order_trans [of "length (concat (map ?q s))" "2 * length s" 2000] by simp
  moreover have "32 \<le> byte c" if "c \<in> set (concat (map ?q s))" for c
    using that assms(1) by (auto simp: printable_def list_all_iff byte_quote split: if_splits)
  ultimately show ?thesis
    unfolding Quote_printable [OF assms(1)] by (intro content_okI) (auto simp: byte_quote)
qed

lemma set_DNSRecords: "set (store_DNSRecords z s) = {r \<in> set (dns_records s). drc_zone r = z}"
  by (auto simp: store_DNSRecords_def)

lemma inv_record:
  assumes "dns_inv x s" "r \<in> set (dns_records s)" "z \<in> set (dns_zones s)" "dzn_id z = drc_zone r"
  shows "record_ok x (dzn_name z) r"
  using assms unfolding dns_inv_def by (metis distinct_key_unique)

lemma same_ttl:
  assumes "dns_inv x s" "r \<in> set (dns_records s)" "v \<in> set (dns_records s)" "drc_zone r = drc_zone v"
    "drc_name r = drc_name v" "drc_type r = drc_type v"
  shows "drc_ttl r = drc_ttl v"
proof (cases "drc_id r = drc_id v")
  case True
  then show ?thesis
    using assms(1-3) unfolding dns_inv_def by (metis distinct_key_unique)
next
  case False
  then have "apart r v"
    using assms(1-3) unfolding dns_inv_def by blast
  then show ?thesis
    using assms(4-6) by (simp add: apart_def)
qed

lemma sync_keys_two: "distinct (sync_keys r) \<and> 1 \<le> length (sync_keys r) \<and> length (sync_keys r) \<le> 2"
  by (auto simp: sync_keys_def)

lemma sync_keys_ok:
  "record_ok x zone r \<Longrightarrow> k \<in> set (sync_keys r) \<Longrightarrow> agent_recordName x (fst k) zone \<and> record_type (snd k)"
  by (auto simp: sync_keys_def record_ok_def split: if_splits)

lemma record_set_of_sel [simp]:
  "rst_name (record_set_of x rs i del k) = fst k" "rst_type (record_set_of x rs i del k) = snd k"
  "rst_records (record_set_of x rs i del k) = sort (map (dns_ProviderContent x) (set_members rs i del k))"
  "rst_ttl (record_set_of x rs i del k) =
    (if set_members rs i del k = [] then 0 else drc_ttl (last (set_members rs i del k)))"
  by (simp_all add: record_set_of_def Let_def)

lemma sort_eq_Nil [simp]: "sort xs = [] \<longleftrightarrow> xs = []"
  by (metis length_sort length_0_conv)

lemma check_sets_None:
  assumes "\<And>v. v \<in> set vs \<Longrightarrow> agent_recordName x (rst_name v) zone \<and> record_type (rst_type v) \<and>
      (rst_records v = [] \<longrightarrow> rst_ttl v = 0) \<and>
      (rst_records v \<noteq> [] \<longrightarrow> 60 \<le> rst_ttl v \<and> rst_ttl v \<le> 86400 \<and> length (rst_records v) \<le> 100 \<and>
        (\<forall>c \<in> set (rst_records v). content_ok c))"
    and "distinct (map (\<lambda>v. (rst_name v, rst_type v)) vs)"
    and "set seen \<inter> (\<lambda>v. (rst_name v, rst_type v)) ` set vs = {}"
  shows "check_sets x zone seen vs = None"
  using assms
proof (induction vs arbitrary: seen)
  case (Cons v vs)
  have "check_sets x zone ((rst_name v, rst_type v) # seen) vs = None"
    using Cons.prems by (intro Cons.IH) auto
  then show ?case
    using Cons.prems(1) [of v] Cons.prems(3) by (auto simp: list_all_iff)
qed simp

text \<open>C36: what the service sends, the agent accepts.  For every stored record, the record sets its
  synchronisation job builds from the tables pass the agent's own validation, as does the zone:
  names inside the zone, one set per key, TTLs and contents in range.  Two things the service does
  not check are hypotheses: at most 100 records per name and type, and \<open>TXT\<close> contents of
  printable ASCII.\<close>

theorem synced_sets_accepted:
  assumes "dns_inv x s" "r \<in> set (dns_records s)" "z \<in> set (dns_zones s)" "dzn_id z = drc_zone r"
    and "\<And>k. length (set_members (store_DNSRecords (dzn_id z) s) i del k) \<le> 100"
    and "\<And>v. v \<in> set (dns_records s) \<Longrightarrow> drc_type v = ''TXT'' \<Longrightarrow> printable (drc_content v)"
  shows "agent_ValidateRecordSets x (zone_spec_of z)
      (dns_recordSets x (store_DNSRecords (dzn_id z) s) r i del) = None \<and>
    agent_ValidateZone x (zone_spec_of z) = None"
proof -
  let ?rs = "store_DNSRecords (dzn_id z) s"
  have member: "v \<in> set (dns_records s) \<and> drc_zone v = dzn_id z" if "v \<in> set (set_members ?rs i del k)" for v k
    using that by (auto simp: set_members_def set_DNSRecords)
  have fits: "content_ok (dns_ProviderContent x v)" if "v \<in> set (set_members ?rs i del k)" for v k
  proof -
    have "record_fits x v"
      using member [OF that] inv_record [OF assms(1) _ assms(3)] by (auto simp: record_ok_def)
    then show ?thesis
      using member [OF that] assms(6) Quote_content_ok [of "drc_content v" x]
      by (auto simp: record_fits_def dns_ProviderContent_def txt_ok_def split: if_splits)
  qed
  have ttl: "60 \<le> drc_ttl (last ms) \<and> drc_ttl (last ms) \<le> 86400" if "ms = set_members ?rs i del k" "ms \<noteq> []" for ms k
    using member [of "last ms" k] that last_in_set [of ms] inv_record [OF assms(1) _ assms(3)] by (auto simp: record_ok_def)
  have "check_sets x (dzn_name z) [] (map (record_set_of x ?rs i del) (sync_keys r)) = None"
  proof (rule check_sets_None)
    fix v assume "v \<in> set (map (record_set_of x ?rs i del) (sync_keys r))"
    then obtain k where k: "k \<in> set (sync_keys r)" and v: "v = record_set_of x ?rs i del k"
      by auto
    show "agent_recordName x (rst_name v) (dzn_name z) \<and> record_type (rst_type v) \<and>
      (rst_records v = [] \<longrightarrow> rst_ttl v = 0) \<and>
      (rst_records v \<noteq> [] \<longrightarrow> 60 \<le> rst_ttl v \<and> rst_ttl v \<le> 86400 \<and> length (rst_records v) \<le> 100 \<and>
        (\<forall>c \<in> set (rst_records v). content_ok c))"
      using sync_keys_ok [OF inv_record [OF assms(1-4)] k] assms(5) [of k] fits [of _ k] ttl [OF refl, of k] by (simp add: v)
  qed (use sync_keys_two [of r] in \<open>simp_all add: comp_def\<close>)
  moreover have "zone_ok x z"
    using assms(1,3) by (simp add: dns_inv_def)
  moreover have "sync_keys r \<noteq> []"
    by (simp add: sync_keys_def)
  ultimately show ?thesis
    using sync_keys_two [of r]
    by (simp add: agent_ValidateRecordSets_def dns_recordSets_def agent_ValidateZoneIdentity_def agent_ValidateZone_def
        zone_spec_of_def zone_ok_def nameservers_ok_def)
qed

text \<open>
  What the provider serves for a zone, and what \<open>REPLACE\<close> and \<open>DELETE\<close> of a record set do to it;
  \<open>stored_set\<close> is what the tables say should be served.
\<close>

type_synonym publication = "string \<times> string \<Rightarrow> (int \<times> string list) option"

definition apply_set :: "publication \<Rightarrow> record_set \<Rightarrow> publication" where
  "apply_set pub v = pub((rst_name v, rst_type v) := if rst_records v = [] then None else Some (rst_ttl v, rst_records v))"

definition staying :: "ident \<Rightarrow> string \<times> string \<Rightarrow> dns_record \<Rightarrow> bool" where
  "staying z k r \<longleftrightarrow> drc_zone r = z \<and> (drc_name r, drc_type r) = k \<and> drc_status r \<noteq> Deleting"

definition stored_set :: "ext \<Rightarrow> ident \<Rightarrow> string \<times> string \<Rightarrow> db \<Rightarrow> (int \<times> string list) option" where
  "stored_set x z k s =
     (let ms = filter (staying z k) (dns_records s) in
      if ms = [] then None else Some (drc_ttl (hd ms), sort (map (dns_ProviderContent x) ms)))"

lemma foldl_apply_set:
  "distinct ks \<Longrightarrow> foldl apply_set pub (map (record_set_of x rs i del) ks) k =
    (if k \<in> set ks then (let v = record_set_of x rs i del k in
      if rst_records v = [] then None else Some (rst_ttl v, rst_records v)) else pub k)"
proof (induction ks arbitrary: pub)
  case (Cons a ks)
  then show ?case
    by (cases "k = a") (auto simp: apply_set_def Let_def)
qed simp

lemma mset_store_DNSRecords: "mset (store_DNSRecords z s) = mset (filter (\<lambda>r. drc_zone r = z) (dns_records s))"
  by (simp add: store_DNSRecords_def order_asc_def)

lemma mset_set_members:
  "mset (set_members (store_DNSRecords z s) i del k) =
    mset (filter (\<lambda>r. staying z k r \<and> \<not> (del \<and> drc_id r = i)) (dns_records s))"
  unfolding set_members_def mset_filter mset_store_DNSRecords
  by (auto simp: filter_filter_mset staying_def intro!: arg_cong2 [where f = filter_mset])

lemma served_eq:
  assumes "dns_inv x s" "mset ms = mset ns" "\<And>r. r \<in> set ns \<Longrightarrow> r \<in> set (dns_records s) \<and> staying z k r"
    and "map (dns_ProviderContent x) ps = map (dns_ProviderContent x) ns" "map drc_ttl ps = map drc_ttl ns"
  shows "(if ms = [] then None else Some (drc_ttl (last ms), sort (map (dns_ProviderContent x) ms))) =
    (if ps = [] then None else Some (drc_ttl (hd ps), sort (map (dns_ProviderContent x) ps)))"
proof (cases "ms = []")
  case True
  with assms show ?thesis by simp
next
  case False
  then have n: "ns \<noteq> []" "ps \<noteq> []" and sets: "set ms = set ns"
    using assms(2,4) mset_eq_setD [OF assms(2)] by auto
  have "mset (map (dns_ProviderContent x) ms) = mset (map (dns_ProviderContent x) ps)"
    using assms(2,4) by (metis mset_map)
  then have "sort (map (dns_ProviderContent x) ms) = sort (map (dns_ProviderContent x) ps)"
    by (intro properties_for_sort) simp_all
  moreover have "drc_ttl (hd ps) = drc_ttl (hd ns)"
    using assms(5) n by (metis hd_map)
  moreover have "drc_ttl (last ms) = drc_ttl (hd ns)"
    using assms(3) [of "last ms"] assms(3) [of "hd ns"] last_in_set [OF False] hd_in_set [OF n(1)] unfolding sets
    by (intro same_ttl [OF assms(1)]) (auto simp: staying_def)
  ultimately show ?thesis
    using False n by simp
qed

lemma ProvisionRecord_sets:
  assumes "dns_ProvisionRecord x ag now j s = (None, s')" "job_payload j = record_payload i del"
  obtains r z n where "r \<in> set (dns_records s)" "drc_id r = i" "z \<in> set (dns_zones s)" "dzn_id z = drc_zone r"
    "store_Node (dzn_node z) s = Inr n"
    "agt_SyncDNSRecordSets ag (nod_endpoint n) (zone_spec_of z) (dns_recordSets x (store_DNSRecords (dzn_id z) s) r i del) = None"
    "s' = (if del then store_DeleteDNSRecord i s
      else store_CompleteDNSRecordSync i now (store_UpdateDNSRecordStatus i Pending now s))"
proof -
  have p: "payload_string ''recordId'' (job_payload j) = Some i" "payload_flag ''delete'' (job_payload j) = Some del"
    using assms(2) by (auto simp: record_payload_def payload_flag_def)
  from assms(1) obtain r z pv spec and n :: node where r: "store_DNSRecord i s = Inr r" and z: "store_DNSZone (drc_zone r) s = Inr z"
    and spec: "dns_zoneSpec z s = Inr (pv, n, spec)"
    and ag: "agt_SyncDNSRecordSets ag (nod_endpoint n) spec (dns_recordSets x (store_DNSRecords (dzn_id z) s) r i del) = None"
    and s': "s' = (if del then store_DeleteDNSRecord (drc_id r) s
      else store_CompleteDNSRecordSync (drc_id r) now (store_UpdateDNSRecordStatus (drc_id r) Pending now s))"
    unfolding dns_ProvisionRecord_def p by (auto simp: Let_def split: if_splits sum.splits option.splits)
  have "r \<in> set (dns_records s) \<and> drc_id r = i"
    using r by (auto simp: store_DNSRecord_def dest: dns_record_table.find_mem)
  moreover have "z \<in> set (dns_zones s) \<and> dzn_id z = drc_zone r"
    using z by (auto simp: store_DNSZone_def dest: dns_zone_table.find_mem)
  moreover have "spec = zone_spec_of z" "store_Node (dzn_node z) s = Inr n"
    using spec by (auto simp: dns_zoneSpec_def)
  ultimately show thesis
    using ag s' by (intro that [of r z n]) auto
qed

text \<open>
  What the job publishes is judged by the tables as it found them, a record it deletes left out.  They
  agree with the tables it leaves unless the record was itself being deleted: a retried job then
  publishes the set without it and still marks it as active.
\<close>

definition sync_base :: "bool \<Rightarrow> ident \<Rightarrow> db \<Rightarrow> db" where
  "sync_base del i s = (if del then store_DeleteDNSRecord i s else s)"

lemma stored_set_before_sync:
  assumes inv: "dns_inv x s"
  shows "(let ms = set_members (store_DNSRecords z s) i del k in
      if ms = [] then None else Some (drc_ttl (last ms), sort (map (dns_ProviderContent x) ms))) =
    stored_set x z k (sync_base del i s)"
proof -
  let ?P = "\<lambda>q. staying z k q \<and> \<not> (del \<and> drc_id q = i)"
  have row: "filter (staying z k) (dns_records (sync_base del i s)) = filter ?P (dns_records s)"
    by (simp add: sync_base_def store_DeleteDNSRecord_def delete_by_def conj_commute)
  have mem: "q \<in> set (dns_records s) \<and> staying z k q" if "q \<in> set (filter ?P (dns_records s))" for q
    using that by auto
  show ?thesis
    unfolding stored_set_def Let_def by (intro served_eq [OF inv mset_set_members mem]) (simp_all add: row)
qed

definition settled_row :: "ident \<Rightarrow> msec \<Rightarrow> dns_record \<Rightarrow> dns_record" where
  "settled_row i now q = (if drc_id q = i then synced_row now (record_row Pending now q) else q)"

lemma settled_row_keeps:
  "dns_ProviderContent x (settled_row i now q) = dns_ProviderContent x q" "drc_ttl (settled_row i now q) = drc_ttl q"
  "staying z k q \<Longrightarrow> staying z k (settled_row i now q)"
  by (simp_all add: settled_row_def dns_ProviderContent_def synced_row_def record_row_def staying_def)

lemma settled_records:
  "dns_records (store_CompleteDNSRecordSync i now (store_UpdateDNSRecordStatus i Pending now s)) = map (settled_row i now) (dns_records s)"
  by (simp add: store_CompleteDNSRecordSync_def store_UpdateDNSRecordStatus_def update_by_def settled_row_def synced_row_def record_row_def)

lemma stored_set_settled:
  assumes inv: "dns_inv x s" and r: "r \<in> set (dns_records s)" "drc_id r = i"
    and s': "s' = store_CompleteDNSRecordSync i now (store_UpdateDNSRecordStatus i Pending now s)"
  shows "drc_status r \<noteq> Deleting \<Longrightarrow> stored_set x z k s' = stored_set x z k s"
    and "drc_status r = Deleting \<Longrightarrow> stored_set x (drc_zone r) (drc_name r, drc_type r) s' \<noteq> stored_set x (drc_zone r) (drc_name r, drc_type r) s"
proof -
  note rows = settled_records [of i now s, folded s']
  show "stored_set x z k s' = stored_set x z k s" if live: "drc_status r \<noteq> Deleting"
  proof -
    have "staying z k (settled_row i now q) = staying z k q" if "q \<in> set (dns_records s)" for q
    proof (cases "drc_id q = i")
      case True
      then have "q = r"
        using that r inv unfolding dns_inv_def by (metis distinct_key_unique)
      then show ?thesis
        using True live by (simp add: settled_row_def staying_def synced_row_def record_row_def)
    qed (simp add: settled_row_def)
    then have "filter (staying z k) (dns_records s') = map (settled_row i now) (filter (staying z k) (dns_records s))"
      by (simp add: rows filter_map comp_def cong: filter_cong)
    then show ?thesis
      by (cases "filter (staying z k) (dns_records s)")
        (simp_all add: stored_set_def settled_row_keeps comp_def)
  qed
  show "stored_set x (drc_zone r) (drc_name r, drc_type r) s' \<noteq> stored_set x (drc_zone r) (drc_name r, drc_type r) s"
    if gone: "drc_status r = Deleting"
  proof -
    let ?old = "staying (drc_zone r) (drc_name r, drc_type r)"
    let ?now = "\<lambda>q. ?old (settled_row i now q)"
    have "filter ?old (dns_records s) = filter ?old (filter ?now (dns_records s))"
      by (auto intro!: filter_cong simp: settled_row_keeps)
    moreover have "r \<in> set (filter ?now (dns_records s))" "\<not> ?old r"
      using r gone by (simp_all add: settled_row_def staying_def synced_row_def record_row_def)
    ultimately have "length (filter ?old (dns_records s)) < length (filter ?now (dns_records s))"
      by (metis length_filter_less)
    moreover have "length (filter ?old (dns_records s')) = length (filter ?now (dns_records s))"
      by (simp add: rows filter_map comp_def)
    ultimately have "length (filter ?old (dns_records s)) \<noteq> length (filter ?old (dns_records s'))" "filter ?old (dns_records s') \<noteq> []"
      by auto
    moreover have "stored_set x z k t = Some (ttl, cs) \<Longrightarrow> length cs = length (filter (staying z k) (dns_records t))" for z k t ttl cs
      by (auto simp: stored_set_def Let_def split: if_splits)
    ultimately show ?thesis
      by (cases "filter ?old (dns_records s) = []") (auto simp: stored_set_def Let_def dest!: arg_cong [where f = length])
  qed
qed

lemma stored_set_after_sync:
  assumes "dns_inv x s" "r \<in> set (dns_records s)" "drc_id r = i"
    and s': "s' = (if del then store_DeleteDNSRecord i s
      else store_CompleteDNSRecordSync i now (store_UpdateDNSRecordStatus i Pending now s))"
  shows "del \<or> drc_status r \<noteq> Deleting \<longleftrightarrow> (\<forall>k. stored_set x (drc_zone r) k s' = stored_set x (drc_zone r) k (sync_base del i s))"
  using stored_set_settled [OF assms(1-3) refl, where now = now] unfolding s' sync_base_def by (cases del) auto

text \<open>C35: a successful synchronisation leaves the provider serving what the tables said.  Applied to
  whatever the zone served before, the sets the job sent make every touched key serve exactly the
  stored records of that name and type which were not being deleted when the job began, a record the
  job deletes left out, with their TTL, and leave every other key alone; the touched keys are the one
  the record was last published under and the current one, and the record becomes active and remembers
  the latter, or is gone.  This is also what the tables say after the job, unless the record itself
  was already being deleted and the job was not its deletion (a retried synchronisation overtaken by
  a request to delete): then it is published without the record, which is nevertheless marked as
  active, and tables and provider differ.\<close>

theorem record_sync_publishes:
  assumes "dns_ProvisionRecord x ag now j s = (None, s')" "job_payload j = record_payload i del" "dns_inv x s"
  shows "\<exists>r z n vs. store_DNSRecord i s = Inr r \<and> store_DNSZone (drc_zone r) s = Inr z \<and> store_Node (dzn_node z) s = Inr n \<and>
    agt_SyncDNSRecordSets ag (nod_endpoint n) (zone_spec_of z) vs = None \<and>
    (\<forall>pub k. foldl apply_set pub vs k = (if k \<in> set (sync_keys r) then stored_set x (drc_zone r) k (sync_base del i s) else pub k)) \<and>
    (del \<or> drc_status r \<noteq> Deleting \<longleftrightarrow>
      (\<forall>k. stored_set x (drc_zone r) k s' = stored_set x (drc_zone r) k (sync_base del i s))) \<and>
    (if del then store_DNSRecord i s' = Inl ErrNoRows
     else \<exists>r'. store_DNSRecord i s' = Inr r' \<and> drc_status r' = Active \<and> sync_keys r' = [(drc_name r, drc_type r)])"
proof -
  from ProvisionRecord_sets [OF assms(1,2)] obtain r z n where r: "r \<in> set (dns_records s)" "drc_id r = i"
    and z: "z \<in> set (dns_zones s)" "dzn_id z = drc_zone r" and node: "store_Node (dzn_node z) s = Inr n"
    and ag: "agt_SyncDNSRecordSets ag (nod_endpoint n) (zone_spec_of z) (dns_recordSets x (store_DNSRecords (dzn_id z) s) r i del) = None"
    and s': "s' = (if del then store_DeleteDNSRecord i s
      else store_CompleteDNSRecordSync i now (store_UpdateDNSRecordStatus i Pending now s))"
    by metis
  have found: "store_DNSRecord i s = Inr r" "store_DNSZone (drc_zone r) s = Inr z"
    using assms(3) dns_record_table.find_unique [OF _ r(1)] dns_zone_table.find_unique [OF _ z(1)]
    by (simp_all add: dns_inv_def store_DNSRecord_def store_DNSZone_def r(2) z(2))
  have served: "(let ms = set_members (store_DNSRecords (dzn_id z) s) i del k in
      if ms = [] then None else Some (drc_ttl (last ms), sort (map (dns_ProviderContent x) ms))) =
      stored_set x (drc_zone r) k (sync_base del i s)" for k
    using stored_set_before_sync [OF assms(3)] by (simp add: z(2))
  have pub: "foldl apply_set pub (dns_recordSets x (store_DNSRecords (dzn_id z) s) r i del) k =
      (if k \<in> set (sync_keys r) then stored_set x (drc_zone r) k (sync_base del i s) else pub k)" for pub k
    unfolding dns_recordSets_def
    using sync_keys_two [of r] by (simp add: foldl_apply_set Let_def served [unfolded Let_def, symmetric])
  have after: "if del then store_DNSRecord i s' = Inl ErrNoRows
     else \<exists>r'. store_DNSRecord i s' = Inr r' \<and> drc_status r' = Active \<and> sync_keys r' = [(drc_name r, drc_type r)]"
  proof (cases del)
    case True
    then show ?thesis
      by (auto simp: s' store_DNSRecord_def store_DeleteDNSRecord_def delete_by_def find_by_def find_None_iff_all)
  next
    case False
    have keep: "drc_id q = i \<Longrightarrow> drc_id (synced_row now q) = i" "drc_id q = i \<Longrightarrow> drc_id (record_row Pending now q) = i" for q
      by (simp_all add: synced_row_def record_row_def)
    have "find_by drc_id i (dns_records s') = Some (synced_row now (record_row Pending now r))"
      using False found(1)
        dns_record_table.find_after_update [of i "synced_row now" i "store_UpdateDNSRecordStatus i Pending now s", OF keep(1)]
        dns_record_table.find_after_update [of i "record_row Pending now" i s, OF keep(2)]
      by (simp add: s' store_DNSRecord_def store_CompleteDNSRecordSync_def store_UpdateDNSRecordStatus_def)
    then show ?thesis
      using False by (simp add: store_DNSRecord_def synced_row_def record_row_def sync_keys_def)
  qed
  show ?thesis
    using found node ag pub after stored_set_after_sync [OF assms(3) r s'] by blast
qed

text \<open>A record whose move failed can leave its content published for good.  Record \<open>r\<close> was to be
  moved to a new key, the job failed, and it stands there as failed.  When another record of that
  key is synchronised, the set it publishes contains \<open>r\<close>'s content; when \<open>r\<close> is then moved
  to a third key, its synchronisation names neither that key nor anything else that would withdraw
  it, so the provider goes on serving a content no stored record of that key has.\<close>

theorem failed_move_stays_published:
  assumes "r \<in> set (dns_records s)" "drc_status r = Errored" "other \<in> set (dns_records s)" "drc_id other \<noteq> drc_id r"
    "drc_zone other = drc_zone r" "drc_name other = drc_name r" "drc_type other = drc_type r"
    and "(drc_synced_name r, drc_synced_type r) \<noteq> (drc_name r, drc_type r)" "(drc_name v, drc_type v) \<noteq> (drc_name r, drc_type r)"
  shows "\<exists>ttl cs. foldl apply_set (foldl apply_set pub
        (dns_recordSets x (store_DNSRecords (drc_zone r) s) other (drc_id other) False))
        (dns_recordSets x rs (changed_record v r) (drc_id r) False) (drc_name r, drc_type r) = Some (ttl, cs) \<and>
      dns_ProviderContent x r \<in> set cs"
proof -
  let ?k = "(drc_name r, drc_type r)" and ?all = "store_DNSRecords (drc_zone r) s"
  have "r \<in> set (set_members ?all (drc_id other) False ?k)"
    using assms(1,2) by (simp add: set_members_def set_DNSRecords)
  then have "set_members ?all (drc_id other) False ?k \<noteq> []"
    "dns_ProviderContent x r \<in> set (rst_records (record_set_of x ?all (drc_id other) False ?k))"
    by auto
  moreover have "?k \<in> set (sync_keys other)"
    using assms(6,7) by (simp add: sync_keys_def)
  moreover have "?k \<notin> set (sync_keys (changed_record v r))"
    using assms(8,9) by (auto simp: sync_keys_def changed_record_def)
  ultimately show ?thesis
    using sync_keys_two [of other] sync_keys_two [of "changed_record v r"]
    by (simp add: dns_recordSets_def foldl_apply_set Let_def)
qed

section \<open>Witnesses\<close>

definition sample_zone :: dns_zone where
  "sample_zone = \<lparr>dzn_id = replicate 32 CHR ''c'', dzn_account = ''a1'', dzn_node = ''n1'', dzn_provider = ''p1'',
     dzn_name = ''example.test'', dzn_primary = ''ns1.example.net'', dzn_secondary = ''ns2.example.net'',
     dzn_status = Active, dzn_created = 0, dzn_updated = 0\<rparr>"

definition sample_record :: dns_record where
  "sample_record = \<lparr>drc_id = replicate 32 CHR ''d'', drc_zone = dzn_id sample_zone, drc_name = ''www.example.test'',
     drc_type = ''A'', drc_content = ''192.0.2.1'', drc_ttl = 3600, drc_priority = 0,
     drc_synced_name = ''old.example.test'', drc_synced_type = ''A'', drc_status = Errored, drc_created = 0, drc_updated = 0\<rparr>"

definition sample_record2 :: dns_record where
  "sample_record2 = sample_record\<lparr>drc_id := replicate 32 CHR ''e'', drc_content := ''192.0.2.2'',
     drc_synced_name := [], drc_synced_type := []\<rparr>"

definition sample_dns :: db where
  "sample_dns = sample_hosting\<lparr>dns_providers := [\<lparr>dpr_id = ''p1'', dpr_node = ''n1'', dpr_name = ''Local PowerDNS'',
     dpr_driver = PowerDNS, dpr_created = 0\<rparr>], dns_zones := [sample_zone], dns_records := [sample_record, sample_record2]\<rparr>"

lemma runes_label: "list_all domain_char l \<Longrightarrow> list_all domain_rune (runes l)"
  by (simp add: domain_runes_iff)

lemma plain_domain:
  assumes "list_all (\<lambda>c. domain_char c \<or> c = CHR ''.'') d" "length d \<le> 253" "ParseIP d = None"
    "2 \<le> length (Split d (CHR ''.''))"
    "list_all (\<lambda>l. l \<noteq> [] \<and> length l \<le> 63 \<and> hd l \<noteq> CHR ''-'' \<and> last l \<noteq> CHR ''-'' \<and> list_all domain_char l) (Split d (CHR ''.''))"
  shows "validate_Domain plain_ext d = Inr d"
proof -
  have "TrimSpace d = d \<and> ToLower id d = d"
    using graphic_chars [of d id] domain_char_graphic assms(1) by (auto simp: list_all_iff)
  moreover have "TrimSuffix d ''.'' = d"
    using assms(5) by (intro TrimSuffix_labels) (auto simp: list_all_iff)
  moreover have "list_all domain_label (Split d (CHR ''.''))"
    using assms(5) by (auto simp: list_all_iff domain_label_def domain_runes_iff [unfolded list_all_iff])
  ultimately show ?thesis
    using assms(2-4) by (simp add: validate_Domain_def Let_def plain_ext_def)
qed

lemma sample_domains:
  "validate_Domain plain_ext ''example.test'' = Inr ''example.test''"
  "validate_Domain plain_ext ''ns1.example.net'' = Inr ''ns1.example.net''"
  "validate_Domain plain_ext ''ns2.example.net'' = Inr ''ns2.example.net''"
  by (rule plain_domain; code_simp)+

lemma plain_idna: "idna_stable plain_ext"
  by (simp add: idna_stable_def plain_ext_def)

lemma plain_name:
  assumes "list_all (\<lambda>l. l \<noteq> [] \<and> length l \<le> 63 \<and> hd l \<noteq> CHR ''-'' \<and> last l \<noteq> CHR ''-'' \<and>
    list_all (\<lambda>c. is_lower c \<or> is_digit c \<or> c = CHR ''-'' \<or> c = CHR ''_'') l) (Split v (CHR ''.''))"
  shows "name_labels v"
proof -
  have "list_all name_label (Split v (CHR ''.''))"
    using assms by (auto simp: list_all_iff name_label_def name_label_iff [unfolded list_all_iff])
  then show ?thesis
    by (auto simp: name_labels_def split: list.split)
qed

lemma sample_names_ok:
  "agent_recordName x ''www.example.test'' ''example.test''" "agent_recordName x ''old.example.test'' ''example.test''"
  by (rule name_labels_agent; (rule plain_name)?; code_simp)+

lemma sample_dns_sel [simp]:
  "dns_zones sample_dns = [sample_zone]" "dns_records sample_dns = [sample_record, sample_record2]"
  "nodes sample_dns = [sample_node]" "dns_settings sample_dns = dns_settings empty_db"
  "dns_providers sample_dns = [\<lparr>dpr_id = ''p1'', dpr_node = ''n1'', dpr_name = ''Local PowerDNS'',
     dpr_driver = PowerDNS, dpr_created = 0\<rparr>]"
  by (simp_all add: sample_dns_def sample_hosting_def)

lemma sample_contents: "content_ok ''192.0.2.1''" "content_ok ''192.0.2.2''"
  by code_simp+

lemma sample_dns_inv: "dns_inv plain_ext sample_dns"
proof -
  have ids: "idPattern (replicate 32 CHR ''c'')" "idPattern (replicate 32 CHR ''d'')" "idPattern (replicate 32 CHR ''e'')"
    by (code_simp, code_simp, code_simp)
  have z: "zone_ok plain_ext sample_zone"
    using ids sample_domains by (simp add: zone_ok_def nameservers_ok_def sample_zone_def del: replicate.simps)
  have r: "record_ok plain_ext ''example.test'' sample_record" "record_ok plain_ext ''example.test'' sample_record2"
    using sample_names_ok sample_contents
    by (simp_all add: record_ok_def record_fits_def dns_ProviderContent_def record_type_def sample_record_def sample_record2_def
        del: replicate.simps)
  have "apart sample_record sample_record2" "drc_id sample_record \<noteq> drc_id sample_record2" "drc_zone sample_record2 = drc_zone sample_record"
    by (simp_all add: apart_def same_record_def sample_record_def sample_record2_def)
  moreover have "dzn_name sample_zone = ''example.test''" "dzn_id sample_zone = drc_zone sample_record"
    by (simp_all add: sample_zone_def sample_record_def del: replicate.simps)
  moreover have "idPattern (drc_id sample_record)" "idPattern (drc_id sample_record2)"
    using ids by (simp_all add: sample_record_def sample_record2_def del: replicate.simps)
  ultimately show ?thesis
    using z r apart_sym [of sample_record sample_record2] by (simp add: dns_inv_def Let_def empty_db_def)
qed

theorem records_never_conflict_witness:
  "dns_inv plain_ext (snd (dns_ProvisionRecord plain_ext \<lparr>agt_EnsureDNSZone = \<lambda>_ _. None, agt_DeleteDNSZone = \<lambda>_ _. None,
     agt_SyncDNSRecordSets = \<lambda>_ _ _. Some (AgentErr ''down'')\<rparr> 9
     (dns_job ''n1'' [] KindDNSRecordSync (record_payload (drc_id sample_record) False) ''j1'' 5) sample_dns))"
  by (rule records_never_conflict [OF dns_step.record_job [OF surjective_pairing] plain_idna sample_dns_inv])

theorem synced_sets_accepted_witness:
  "agent_ValidateRecordSets plain_ext (zone_spec_of sample_zone)
      (dns_recordSets plain_ext (store_DNSRecords (dzn_id sample_zone) sample_dns) sample_record (drc_id sample_record) False) = None"
proof -
  have "length (set_members (store_DNSRecords (dzn_id sample_zone) sample_dns) i del k) \<le> 100" for i del k
  proof -
    have "length (set_members (store_DNSRecords (dzn_id sample_zone) sample_dns) i del k) \<le>
        length (store_DNSRecords (dzn_id sample_zone) sample_dns)"
      by (simp add: set_members_def)
    also have "\<dots> \<le> 2"
      by (simp add: store_DNSRecords_def)
    finally show ?thesis by simp
  qed
  moreover have "drc_type v \<noteq> ''TXT''" if "v \<in> set (dns_records sample_dns)" for v
    using that by (auto simp: sample_record_def sample_record2_def)
  moreover have "dzn_id sample_zone = drc_zone sample_record"
    by (simp add: sample_zone_def sample_record_def)
  ultimately show ?thesis
    using synced_sets_accepted [OF sample_dns_inv, of sample_record sample_zone "drc_id sample_record" False] by auto
qed

definition willing_dns :: dns_agent where
  "willing_dns = \<lparr>agt_EnsureDNSZone = \<lambda>_ _. None, agt_DeleteDNSZone = \<lambda>_ _. None, agt_SyncDNSRecordSets = \<lambda>_ _ _. None\<rparr>"

lemma sample_dns_found:
  "store_DNSRecord (drc_id sample_record) sample_dns = Inr sample_record"
  "store_DNSZone (drc_zone sample_record) sample_dns = Inr sample_zone"
  by (simp_all add: store_DNSRecord_def store_DNSZone_def find_by_def sample_zone_def sample_record_def del: replicate.simps)

theorem record_sync_publishes_witness:
  "\<exists>s'. dns_ProvisionRecord plain_ext willing_dns 9
     (dns_job ''n1'' [] KindDNSRecordSync (record_payload (drc_id sample_record) False) ''j1'' 5) sample_dns = (None, s') \<and>
    (\<exists>r'. store_DNSRecord (drc_id sample_record) s' = Inr r' \<and> drc_status r' = Active)"
proof -
  let ?j = "dns_job ''n1'' [] KindDNSRecordSync (record_payload (drc_id sample_record) False) ''j1'' 5"
  have p: "job_payload ?j = record_payload (drc_id sample_record) False" "drc_id sample_record \<noteq> []"
    by (simp_all add: dns_job_def new_job_def sample_record_def)
  have f: "payload_string ''recordId'' (record_payload i False) = Some i" "payload_flag ''delete'' (record_payload i False) = Some False" for i
    by (simp_all add: record_payload_def payload_flag_def)
  have spec: "dns_zoneSpec sample_zone sample_dns = Inr (\<lparr>dpr_id = ''p1'', dpr_node = ''n1'', dpr_name = ''Local PowerDNS'',
     dpr_driver = PowerDNS, dpr_created = 0\<rparr>, sample_node, zone_spec_of sample_zone)"
    by (simp add: dns_zoneSpec_def store_DNSProvider_def store_Node_def find_by_def sample_zone_def sample_node_def del: replicate.simps)
  obtain s' where s': "dns_ProvisionRecord plain_ext willing_dns 9 ?j sample_dns = (None, s')"
    using p f sample_dns_found spec by (simp add: dns_ProvisionRecord_def willing_dns_def Let_def)
  then show ?thesis
    using record_sync_publishes [OF s' p(1) sample_dns_inv] by force
qed

theorem failed_move_stays_published_witness:
  "\<exists>ttl cs. foldl apply_set (foldl apply_set Map.empty
        (dns_recordSets plain_ext (store_DNSRecords (drc_zone sample_record) sample_dns) sample_record2 (drc_id sample_record2) False))
        (dns_recordSets plain_ext [] (changed_record (sample_record\<lparr>drc_name := ''new.example.test''\<rparr>) sample_record)
          (drc_id sample_record) False) (''www.example.test'', ''A'') = Some (ttl, cs) \<and> ''192.0.2.1'' \<in> set cs"
proof -
  have "dns_ProviderContent plain_ext sample_record = ''192.0.2.1''" "drc_name sample_record = ''www.example.test''"
    "drc_type sample_record = ''A''"
    by (simp_all add: dns_ProviderContent_def sample_record_def)
  then show ?thesis
    using failed_move_stays_published [of sample_record sample_dns sample_record2 "sample_record\<lparr>drc_name := ''new.example.test''\<rparr>"
        Map.empty plain_ext "[]"]
    by (simp add: sample_record2_def) (simp add: sample_record_def)
qed

section \<open>Contracts\<close>

lemma dns_stores_queue:
  "store_CreateDNSZoneProvision z j s = Inr ((z', j'), s') \<Longrightarrow> 1 \<le> job_max j \<Longrightarrow> queues_one s j' s'"
  "store_QueueDNSZoneDelete i j now s = Inr ((z', j'), s') \<Longrightarrow> 1 \<le> job_max j \<Longrightarrow> queues_one s j' s'"
  "store_CreateDNSRecordProvision v j s = Inr ((r, j'), s') \<Longrightarrow> 1 \<le> job_max j \<Longrightarrow> queues_one s j' s'"
  "store_QueueDNSRecordUpdate v j s = Inr ((r, j'), s') \<Longrightarrow> 1 \<le> job_max j \<Longrightarrow> queues_one s j' s'"
  "store_QueueDNSRecordDelete i j now s = Inr ((r, j'), s') \<Longrightarrow> 1 \<le> job_max j \<Longrightarrow> queues_one s j' s'"
  by (auto simp: store_CreateDNSZoneProvision_def store_QueueDNSZoneDelete_def store_CreateDNSRecordProvision_def
      store_QueueDNSRecordUpdate_def store_QueueDNSRecordDelete_def store_UpdateDNSZoneStatus_def store_UpdateDNSRecordStatus_def
      split: option.splits if_splits intro: createJob_queues dest!: insert_zone_Inr insert_record_Inr update_record_Inr)

interpretation zone_create: queued_operation
  "\<lambda>(x, acc, provider, name, u, admin, i, jid, now). dns_CreateZone x acc provider name u admin i jid now"
  by unfold_locales (auto simp: dns_CreateZone_def dns_job_def Let_def dest!: dns_stores_queue(1))

interpretation zone_delete: queued_operation "\<lambda>(i, u, admin, jid, now). dns_DeleteZone i u admin jid now"
  by unfold_locales (auto simp: dns_DeleteZone_def dns_job_def dest!: dns_stores_queue(2))

interpretation record_create: queued_operation
  "\<lambda>(x, zi, name, kind, content, ttl, priority, u, admin, i, jid, now).
    dns_CreateRecord x zi name kind content ttl priority u admin i jid now"
  by unfold_locales (auto simp: dns_CreateRecord_def dns_job_def dest!: dns_stores_queue(3))

interpretation record_update: queued_operation
  "\<lambda>(x, i, name, kind, content, ttl, priority, u, admin, jid, now).
    dns_UpdateRecord x i name kind content ttl priority u admin jid now"
  by unfold_locales (auto simp: dns_UpdateRecord_def dns_job_def dest!: dns_stores_queue(4))

interpretation record_delete: queued_operation "\<lambda>(i, u, admin, jid, now). dns_DeleteRecord i u admin jid now"
  by unfold_locales (auto simp: dns_DeleteRecord_def dns_job_def dest!: dns_stores_queue(5))

interpretation owned_zone: owned_resource dns_Zone dns_zones dzn_id dzn_account
  by unfold_locales (auto simp: dns_Zone_def store_DNSZone_def dest: dns_zone_table.find_mem)

end
