(* ===== verification/PowerDns.thy ===== *)
theory PowerDns
  imports Dns
begin

text \<open>
  The agent's PowerDNS driver, \<open>internal/agent/dns/powerdns\<close>.  The PowerDNS server is a
  parameter: it answers a request from the history of the requests before it, with an error of
  the transport or a response.  A driver function returns its error and the history extended
  by its own requests, so what it asked for, in which order and after which answers, is a value.
  Bodies are the Go values before JSON encoding; a response body is the zone it decodes to.
\<close>

section \<open>Requests and responses\<close>

record rrset =
  rrs_name :: string
  rrs_type :: string
  rrs_change :: string
  rrs_ttl :: int
  rrs_records :: "string list"

record pdns_zone =
  pdz_name :: string
  pdz_kind :: string
  pdz_account :: string
  pdz_soa_edit :: string
  pdz_rrsets :: "rrset list"

datatype req_body = NoBody | ZoneBody pdns_zone | SetsBody "rrset list"

record pdns_request =
  req_method :: string
  req_path :: string
  req_body :: req_body

record pdns_response =
  rsp_status :: int
  rsp_zone :: "pdns_zone option"

type_synonym pdns_log = "(pdns_request \<times> (err + pdns_response)) list"

type_synonym pdns_server = "pdns_log \<Rightarrow> pdns_request \<Rightarrow> err + pdns_response"

record pdns_client =
  pdc_url :: string
  pdc_key :: string

definition markerPrefix :: string where "markerPrefix = ''webycp:''"

definition powerdns_fqdn :: "string \<Rightarrow> string" where
  "powerdns_fqdn v = TrimSuffix v ''.'' @ ''.''"

text \<open>\<open>url.PathEscape\<close>.\<close>

definition path_plain :: "char \<Rightarrow> bool" where
  "path_plain c \<longleftrightarrow> is_lower c \<or> is_digit c \<or> bytes_between 65 90 c \<or>
     c \<in> set ''-_.~$&+=:@''"

definition PathEscape :: "string \<Rightarrow> string" where
  "PathEscape s = concat (map (\<lambda>c. if path_plain c then [c]
     else CHR ''%'' # map upper_char [hex_digit (byte c div 16), hex_digit (byte c mod 16)]) s)"

definition zones_path :: string where
  "zones_path = ''/api/v1/servers/localhost/zones''"

definition powerdns_zonePath :: "string \<Rightarrow> string" where
  "powerdns_zonePath name = zones_path @ ''/'' @ PathEscape (powerdns_fqdn name)"

text \<open>\<open>request\<close>: nothing is sent while the API is not configured.\<close>

definition powerdns_request ::
  "pdns_client \<Rightarrow> pdns_server \<Rightarrow> string \<Rightarrow> string \<Rightarrow> req_body \<Rightarrow> pdns_log \<Rightarrow> (err + pdns_response) \<times> pdns_log" where
  "powerdns_request c srv method path body lg =
     (if pdc_url c = [] \<or> pdc_key c = [] then (Inl (Plain ''PowerDNS API is not configured''), lg)
      else
        let q = \<lparr>req_method = method, req_path = path, req_body = body\<rparr>; a = srv lg q in
        (map_err (Wrapped ''request PowerDNS API'') a, lg @ [(q, a)]))"

section \<open>Operations\<close>

definition powerdns_Health :: "pdns_client \<Rightarrow> pdns_server \<Rightarrow> pdns_log \<Rightarrow> err option \<times> pdns_log" where
  "powerdns_Health c srv lg =
     (case powerdns_request c srv ''GET'' zones_path NoBody lg of
        (Inl e, lg') \<Rightarrow> (Some e, lg')
      | (Inr r, lg') \<Rightarrow> (if rsp_status r \<noteq> 200 then Some (Plain ''PowerDNS health'') else None, lg'))"

definition powerdns_getZone ::
  "pdns_client \<Rightarrow> pdns_server \<Rightarrow> string \<Rightarrow> pdns_log \<Rightarrow> (err + pdns_zone option) \<times> pdns_log" where
  "powerdns_getZone c srv name lg =
     (case powerdns_request c srv ''GET'' (powerdns_zonePath name) NoBody lg of
        (Inl e, lg') \<Rightarrow> (Inl e, lg')
      | (Inr r, lg') \<Rightarrow>
          (if rsp_status r = 404 then Inr None
           else if rsp_status r \<noteq> 200 then Inl (Plain ''PowerDNS zone lookup'')
           else (case rsp_zone r of None \<Rightarrow> Inl (Plain ''decode PowerDNS zone'') | Some z \<Rightarrow> Inr (Some z)), lg'))"

text \<open>The SOA serial is the day of the request and \<open>01\<close>; the day is an argument.\<close>

definition initialRRSets :: "string \<Rightarrow> zone_spec \<Rightarrow> rrset list" where
  "initialRRSets day v =
     (let name = powerdns_fqdn (zsp_name v); nss = map powerdns_fqdn (zsp_nameservers v) in
      [\<lparr>rrs_name = name, rrs_type = ''SOA'', rrs_change = [], rrs_ttl = 3600,
        rrs_records = [powerdns_fqdn (hd (zsp_nameservers v)) @ '' hostmaster.'' @ name @ '' '' @ day @ ''01 10800 3600 604800 3600'']\<rparr>,
       \<lparr>rrs_name = name, rrs_type = ''NS'', rrs_change = [], rrs_ttl = 3600, rrs_records = nss\<rparr>])"

definition powerdns_EnsureZone ::
  "ext \<Rightarrow> pdns_client \<Rightarrow> pdns_server \<Rightarrow> string \<Rightarrow> zone_spec \<Rightarrow> pdns_log \<Rightarrow> err option \<times> pdns_log" where
  "powerdns_EnsureZone x c srv day v lg =
     (case agent_ValidateZone x v of
        Some e \<Rightarrow> (Some e, lg)
      | None \<Rightarrow>
          let z = \<lparr>pdz_name = powerdns_fqdn (zsp_name v), pdz_kind = ''Native'', pdz_account = markerPrefix @ zsp_id v,
            pdz_soa_edit = ''DEFAULT'', pdz_rrsets = initialRRSets day v\<rparr> in
          (case powerdns_request c srv ''POST'' zones_path (ZoneBody z) lg of
            (Inl e, lg1) \<Rightarrow> (Some e, lg1)
          | (Inr r, lg1) \<Rightarrow>
              if rsp_status r = 201 \<or> rsp_status r = 200 then (None, lg1)
              else if rsp_status r \<noteq> 409 \<and> rsp_status r \<noteq> 422 then (Some (Plain ''PowerDNS zone create''), lg1)
              else (case powerdns_getZone c srv (zsp_name v) lg1 of
                (Inl e, lg2) \<Rightarrow> (Some e, lg2)
              | (Inr old, lg2) \<Rightarrow>
                  (case old of
                    Some o' \<Rightarrow> if pdz_account o' = markerPrefix @ zsp_id v then (None, lg2)
                      else (Some (Plain ''PowerDNS zone name is already owned by another resource''), lg2)
                  | None \<Rightarrow> (Some (Plain ''PowerDNS zone name is already owned by another resource''), lg2)))))"

definition powerdns_DeleteZone ::
  "ext \<Rightarrow> pdns_client \<Rightarrow> pdns_server \<Rightarrow> zone_spec \<Rightarrow> pdns_log \<Rightarrow> err option \<times> pdns_log" where
  "powerdns_DeleteZone x c srv v lg =
     (case agent_ValidateZoneIdentity x v of
        Some e \<Rightarrow> (Some e, lg)
      | None \<Rightarrow>
          (case powerdns_getZone c srv (zsp_name v) lg of
            (Inl e, lg1) \<Rightarrow> (Some e, lg1)
          | (Inr None, lg1) \<Rightarrow> (None, lg1)
          | (Inr (Some old), lg1) \<Rightarrow>
              if pdz_account old \<noteq> markerPrefix @ zsp_id v then (None, lg1)
              else (case powerdns_request c srv ''DELETE'' (powerdns_zonePath (zsp_name v)) NoBody lg1 of
                (Inl e, lg2) \<Rightarrow> (Some e, lg2)
              | (Inr r, lg2) \<Rightarrow>
                  (if rsp_status r \<noteq> 204 \<and> rsp_status r \<noteq> 404 then Some (Plain ''PowerDNS zone delete'') else None, lg2))))"

definition rrset_of :: "record_set \<Rightarrow> rrset" where
  "rrset_of v =
     (if rst_records v = [] then
        \<lparr>rrs_name = powerdns_fqdn (rst_name v), rrs_type = rst_type v, rrs_change = ''DELETE'', rrs_ttl = 0, rrs_records = []\<rparr>
      else
        \<lparr>rrs_name = powerdns_fqdn (rst_name v), rrs_type = rst_type v, rrs_change = ''REPLACE'', rrs_ttl = rst_ttl v,
         rrs_records = rst_records v\<rparr>)"

definition powerdns_SyncRecordSets ::
  "ext \<Rightarrow> pdns_client \<Rightarrow> pdns_server \<Rightarrow> zone_spec \<Rightarrow> record_set list \<Rightarrow> pdns_log \<Rightarrow> err option \<times> pdns_log" where
  "powerdns_SyncRecordSets x c srv v vs lg =
     (case agent_ValidateRecordSets x v vs of
        Some e \<Rightarrow> (Some e, lg)
      | None \<Rightarrow>
          (case powerdns_getZone c srv (zsp_name v) lg of
            (Inl e, lg1) \<Rightarrow> (Some e, lg1)
          | (Inr old, lg1) \<Rightarrow>
              if map_option pdz_account old \<noteq> Some (markerPrefix @ zsp_id v)
              then (Some (Plain ''PowerDNS zone is not owned by this resource''), lg1)
              else (case powerdns_request c srv ''PATCH'' (powerdns_zonePath (zsp_name v)) (SetsBody (map rrset_of vs)) lg1 of
                (Inl e, lg2) \<Rightarrow> (Some e, lg2)
              | (Inr r, lg2) \<Rightarrow> (if rsp_status r \<noteq> 204 then Some (Plain ''PowerDNS record sync'') else None, lg2))))"

section \<open>Only owned zones change\<close>

text \<open>The agent's requests, as the handlers of its API call the driver.\<close>

datatype pdns_op = EnsureOp string | DeleteOp | SyncOp "record_set list" | HealthOp

definition pdns_run :: "ext \<Rightarrow> pdns_client \<Rightarrow> pdns_server \<Rightarrow> zone_spec \<Rightarrow> pdns_op \<Rightarrow> err option \<times> pdns_log" where
  "pdns_run x c srv v p =
     (case p of
        EnsureOp day \<Rightarrow> powerdns_EnsureZone x c srv day v []
      | DeleteOp \<Rightarrow> powerdns_DeleteZone x c srv v []
      | SyncOp vs \<Rightarrow> powerdns_SyncRecordSets x c srv v vs []
      | HealthOp \<Rightarrow> powerdns_Health c srv [])"

text \<open>A lookup of the zone that found the mark of this resource.\<close>

definition owned_answer :: "zone_spec \<Rightarrow> pdns_request \<times> (err + pdns_response) \<Rightarrow> bool" where
  "owned_answer v p \<longleftrightarrow> fst p = \<lparr>req_method = ''GET'', req_path = powerdns_zonePath (zsp_name v), req_body = NoBody\<rparr> \<and>
     (\<exists>r z. snd p = Inr r \<and> rsp_status r = 200 \<and> rsp_zone r = Some z \<and> pdz_account z = markerPrefix @ zsp_id v)"

text \<open>A request that changes nothing, creates a zone with the resource's mark, or follows such a lookup.\<close>

definition allowed_at :: "zone_spec \<Rightarrow> pdns_log \<Rightarrow> nat \<Rightarrow> bool" where
  "allowed_at v lg k \<longleftrightarrow>
     (let q = fst (lg ! k) in
      req_method q = ''GET'' \<or>
      (req_method q = ''POST'' \<and> req_path q = zones_path \<and>
        (\<exists>z. req_body q = ZoneBody z \<and> pdz_account z = markerPrefix @ zsp_id v \<and> pdz_name z = powerdns_fqdn (zsp_name v))) \<or>
      ((req_method q = ''DELETE'' \<or> req_method q = ''PATCH'') \<and> req_path q = powerdns_zonePath (zsp_name v) \<and>
        (\<exists>k'. k = Suc k' \<and> owned_answer v (lg ! k'))))"

lemma request_log:
  "powerdns_request c srv m p b lg = (a, lg') \<Longrightarrow>
    lg' = lg \<and> (\<exists>e. a = Inl e) \<or> (\<exists>r. lg' = lg @ [(\<lparr>req_method = m, req_path = p, req_body = b\<rparr>, r)] \<and>
      a = map_err (Wrapped ''request PowerDNS API'') r)"
  by (auto simp: powerdns_request_def Let_def split: if_splits)

lemma getZone_log:
  assumes "powerdns_getZone c srv name lg = (a, lg')"
  shows "lg' = lg \<or> (\<exists>r. lg' = lg @ [(\<lparr>req_method = ''GET'', req_path = powerdns_zonePath name, req_body = NoBody\<rparr>, r)])"
    and "a = Inr (Some z) \<Longrightarrow> \<exists>r. lg' = lg @ [(\<lparr>req_method = ''GET'', req_path = powerdns_zonePath name, req_body = NoBody\<rparr>, Inr r)] \<and>
      rsp_status r = 200 \<and> rsp_zone r = Some z"
proof -
  obtain b lg1 where q: "powerdns_request c srv ''GET'' (powerdns_zonePath name) NoBody lg = (b, lg1)"
    by fastforce
  then have "lg1 = lg'"
    using assms by (auto simp: powerdns_getZone_def split: sum.splits)
  note log = request_log [OF q, unfolded this]
  then show "lg' = lg \<or> (\<exists>r. lg' = lg @ [(\<lparr>req_method = ''GET'', req_path = powerdns_zonePath name, req_body = NoBody\<rparr>, r)])"
    by blast
  show "\<exists>r. lg' = lg @ [(\<lparr>req_method = ''GET'', req_path = powerdns_zonePath name, req_body = NoBody\<rparr>, Inr r)] \<and>
      rsp_status r = 200 \<and> rsp_zone r = Some z" if "a = Inr (Some z)"
  proof -
    from assms that q obtain r where r: "b = Inr r" "rsp_status r = 200" "rsp_zone r = Some z"
      by (auto simp: powerdns_getZone_def split: sum.splits if_splits option.splits)
    with log obtain ra where "lg' = lg @ [(\<lparr>req_method = ''GET'', req_path = powerdns_zonePath name, req_body = NoBody\<rparr>, ra)]"
      "map_err (Wrapped ''request PowerDNS API'') ra = Inr r"
      by (metis Inl_Inr_False)
    with r(2,3) show ?thesis
      by simp
  qed
qed

lemma allowed_get:
  "lg = [(\<lparr>req_method = ''GET'', req_path = p, req_body = b\<rparr>, r)] \<Longrightarrow> k < length lg \<Longrightarrow> allowed_at v lg k"
  by (simp add: allowed_at_def Let_def)

lemma allowed_change:
  assumes "lg = [(\<lparr>req_method = ''GET'', req_path = powerdns_zonePath (zsp_name v), req_body = NoBody\<rparr>, Inr r),
      (\<lparr>req_method = m, req_path = powerdns_zonePath (zsp_name v), req_body = b\<rparr>, a)]"
    "rsp_status r = 200" "rsp_zone r = Some z" "pdz_account z = markerPrefix @ zsp_id v" "m = ''DELETE'' \<or> m = ''PATCH''" "k < length lg"
  shows "allowed_at v lg k"
proof -
  from assms(1,6) have "k = 0 \<or> k = Suc 0"
    by auto
  then show ?thesis
    using assms by (auto simp: allowed_at_def owned_answer_def Let_def)
qed

lemma guarded_change:
  assumes g: "powerdns_getZone c srv (zsp_name v) [] = (Inr (Some z), lg1)" "pdz_account z = markerPrefix @ zsp_id v"
    and q: "powerdns_request c srv m (powerdns_zonePath (zsp_name v)) b lg1 = (a, lg2)"
    and m: "m = ''DELETE'' \<or> m = ''PATCH''" "k < length lg2"
  shows "allowed_at v lg2 k"
proof -
  from getZone_log(2) [OF g(1) refl] obtain r where
    r: "lg1 = [(\<lparr>req_method = ''GET'', req_path = powerdns_zonePath (zsp_name v), req_body = NoBody\<rparr>, Inr r)]"
      "rsp_status r = 200" "rsp_zone r = Some z"
    by auto
  from request_log [OF q] consider "lg2 = lg1"
    | a' where "lg2 = lg1 @ [(\<lparr>req_method = m, req_path = powerdns_zonePath (zsp_name v), req_body = b\<rparr>, a')]"
    by blast
  then show ?thesis
  proof cases
    case 1
    then show ?thesis
      using allowed_get [of lg2] r(1) m(2) by simp
  next
    case (2 a')
    then show ?thesis
      using allowed_change [of lg2 v r m b a' z k] r g(2) m by simp
  qed
qed

text \<open>C37: the agent changes only zones of its own resource.  Whatever the server answers, in every run
  of the driver each \<open>PATCH\<close> and each \<open>DELETE\<close> addresses the zone of the request and comes directly
  after a lookup of that zone that was answered with this resource's mark; the only other request
  that changes anything creates a zone with that mark.\<close>

theorem only_owned_zones_change:
  assumes "k < length (snd (pdns_run x c srv v p))"
  shows "allowed_at v (snd (pdns_run x c srv v p)) k"
proof (cases p)
  case (EnsureOp day)
  obtain e lg where run: "powerdns_EnsureZone x c srv day v [] = (e, lg)" by fastforce
  define z where "z = \<lparr>pdz_name = powerdns_fqdn (zsp_name v), pdz_kind = ''Native'', pdz_account = markerPrefix @ zsp_id v,
            pdz_soa_edit = ''DEFAULT'', pdz_rrsets = initialRRSets day v\<rparr>"
  obtain a lg1 where q: "powerdns_request c srv ''POST'' zones_path (ZoneBody z) [] = (a, lg1)" by fastforce
  obtain g lg2 where get: "powerdns_getZone c srv (zsp_name v) lg1 = (g, lg2)" by fastforce
  have "lg = [] \<or> lg = lg1 \<or> lg = lg2"
    using run q get unfolding powerdns_EnsureZone_def z_def by (auto simp: Let_def split: option.splits sum.splits if_splits)
  moreover have "lg1 = [] \<or> (\<exists>r. lg1 = [(\<lparr>req_method = ''POST'', req_path = zones_path, req_body = ZoneBody z\<rparr>, r)])"
    using request_log [OF q] by auto
  ultimately have "set lg \<subseteq> {q. req_method (fst q) = ''GET'' \<or> fst q = \<lparr>req_method = ''POST'', req_path = zones_path, req_body = ZoneBody z\<rparr>}"
    using getZone_log(1) [OF get] by auto
  moreover have "lg ! k \<in> set lg"
    using assms EnsureOp run by (simp add: pdns_run_def)
  ultimately have "req_method (fst (lg ! k)) = ''GET'' \<or>
      fst (lg ! k) = \<lparr>req_method = ''POST'', req_path = zones_path, req_body = ZoneBody z\<rparr>"
    by blast
  then show ?thesis
    using EnsureOp run by (auto simp: pdns_run_def allowed_at_def Let_def z_def)
next
  case DeleteOp
  obtain e lg where run: "powerdns_DeleteZone x c srv v [] = (e, lg)" by fastforce
  obtain g lg1 where get: "powerdns_getZone c srv (zsp_name v) [] = (g, lg1)" by fastforce
  obtain a lg2 where q: "powerdns_request c srv ''DELETE'' (powerdns_zonePath (zsp_name v)) NoBody lg1 = (a, lg2)" by fastforce
  have "lg = [] \<or> lg = lg1 \<or> lg = lg2 \<and> (\<exists>z. g = Inr (Some z) \<and> pdz_account z = markerPrefix @ zsp_id v)"
    using run get q unfolding powerdns_DeleteZone_def by (auto split: option.splits sum.splits if_splits)
  then show ?thesis
    using assms DeleteOp run guarded_change [OF _ _ q] get getZone_log(1) [OF get] allowed_get [of lg1 "powerdns_zonePath (zsp_name v)" NoBody _ k v]
    by (auto simp: pdns_run_def)
next
  case (SyncOp vs)
  obtain e lg where run: "powerdns_SyncRecordSets x c srv v vs [] = (e, lg)" by fastforce
  obtain g lg1 where get: "powerdns_getZone c srv (zsp_name v) [] = (g, lg1)" by fastforce
  obtain a lg2 where q: "powerdns_request c srv ''PATCH'' (powerdns_zonePath (zsp_name v)) (SetsBody (map rrset_of vs)) lg1 = (a, lg2)"
    by fastforce
  have "lg = [] \<or> lg = lg1 \<or> lg = lg2 \<and> (\<exists>z. g = Inr (Some z) \<and> pdz_account z = markerPrefix @ zsp_id v)"
    using run get q unfolding powerdns_SyncRecordSets_def by (auto split: option.splits sum.splits if_splits)
  then show ?thesis
    using assms SyncOp run guarded_change [OF _ _ q] get getZone_log(1) [OF get] allowed_get [of lg1 "powerdns_zonePath (zsp_name v)" NoBody _ k v]
    by (auto simp: pdns_run_def)
next
  case HealthOp
  then show ?thesis
    using assms request_log [of c srv "''GET''" zones_path NoBody "[]"]
    by (auto simp: pdns_run_def powerdns_Health_def allowed_at_def Let_def split: prod.splits sum.splits)
qed

text \<open>A creation whose answer was lost is repeated without harm: the conflict is resolved by the mark.\<close>

lemma ensure_zone_retry:
  assumes "agent_ValidateZone x v = None" "pdc_url c \<noteq> []" "pdc_key c \<noteq> []"
    and "\<And>lg q. req_method q = ''POST'' \<Longrightarrow> srv lg q = Inr \<lparr>rsp_status = 409, rsp_zone = None\<rparr>"
    and "\<And>lg q. req_method q = ''GET'' \<Longrightarrow> srv lg q = Inr \<lparr>rsp_status = 200, rsp_zone = Some z\<rparr>"
  shows "fst (powerdns_EnsureZone x c srv day v lg) = None \<longleftrightarrow> pdz_account z = markerPrefix @ zsp_id v"
  using assms by (simp add: powerdns_EnsureZone_def powerdns_getZone_def powerdns_request_def Let_def)

section \<open>Witness\<close>

definition sample_server :: pdns_server where
  "sample_server lg q = (if req_method q = ''GET''
     then Inr \<lparr>rsp_status = 200, rsp_zone = Some \<lparr>pdz_name = ''example.test.'', pdz_kind = ''Native'',
       pdz_account = markerPrefix @ dzn_id sample_zone, pdz_soa_edit = ''DEFAULT'', pdz_rrsets = []\<rparr>\<rparr>
     else Inr \<lparr>rsp_status = 204, rsp_zone = None\<rparr>)"

theorem only_owned_zones_change_witness:
  "let lg = snd (pdns_run plain_ext \<lparr>pdc_url = ''http://127.0.0.1:8081'', pdc_key = ''k''\<rparr> sample_server
      (zone_spec_of sample_zone) DeleteOp)
    in req_method (fst (lg ! 1)) = ''DELETE'' \<and> allowed_at (zone_spec_of sample_zone) lg 1"
proof -
  let ?run = "pdns_run plain_ext \<lparr>pdc_url = ''http://127.0.0.1:8081'', pdc_key = ''k''\<rparr> sample_server (zone_spec_of sample_zone) DeleteOp"
  have "zone_ok plain_ext sample_zone"
    using sample_dns_inv by (simp add: dns_inv_def)
  then have "agent_ValidateZoneIdentity plain_ext (zone_spec_of sample_zone) = None"
    by (simp add: agent_ValidateZoneIdentity_def zone_spec_of_def zone_ok_def)
  moreover have "zsp_id (zone_spec_of sample_zone) = dzn_id sample_zone"
    by (simp add: zone_spec_of_def)
  ultimately have lg: "length (snd ?run) = 2" "req_method (fst (snd ?run ! 1)) = ''DELETE''"
    by (simp_all add: pdns_run_def powerdns_DeleteZone_def powerdns_getZone_def powerdns_request_def sample_server_def Let_def)
  then show ?thesis
    using only_owned_zones_change [of 1 plain_ext "\<lparr>pdc_url = ''http://127.0.0.1:8081'', pdc_key = ''k''\<rparr>" sample_server
        "zone_spec_of sample_zone" DeleteOp]
    by (simp add: Let_def)
qed

end
