(* ===== verification/Certificates.thy ===== *)
theory Certificates
  imports Websites
begin

text \<open>
  TLS certificates of websites and of the panel: \<open>internal/certificates/service.go\<close> and
  \<open>store/sqlite/certificates.go\<close>.  A certificate's names are rows of \<open>certificate_names\<close>, replaced as
  a whole; the Go value is the row with its names.  Issuing at the certificate authority is the
  agent's, a parameter that answers the names it obtained and the expiry, or an error.
\<close>

interpretation certificate_table: table certificates "\<lambda>rs s. s\<lparr>certificates := rs\<rparr>" crt_id
  by unfold_locales auto

section \<open>Store operations\<close>

type_synonym cert_value = "certificate \<times> string list"

definition cert_names :: "ident \<Rightarrow> db \<Rightarrow> string list" where
  "cert_names i s = map snd (order_asc (nocase \<circ> snd) (filter (\<lambda>p. fst p = i) (certificate_names s)))"

definition certificateValue :: "certificate \<Rightarrow> db \<Rightarrow> cert_value" where
  "certificateValue c s = (c, cert_names (crt_id c) s)"

definition cert_visible :: "ident \<Rightarrow> bool \<Rightarrow> db \<Rightarrow> certificate \<Rightarrow> bool" where
  "cert_visible u admin s c \<longleftrightarrow> admin \<or>
     list_ex (\<lambda>w. web_id w = crt_website c \<and> store_AccountMember (web_account w) u s) (websites s)"

definition store_Certificates :: "ident \<Rightarrow> bool \<Rightarrow> db \<Rightarrow> cert_value list" where
  "store_Certificates u admin s =
     map (\<lambda>c. certificateValue c s) (order_desc crt_created (filter (cert_visible u admin s) (certificates s)))"

definition store_CertificatePage :: "ident \<Rightarrow> bool \<Rightarrow> string \<Rightarrow> query \<Rightarrow> db \<Rightarrow> cert_value result" where
  "store_CertificatePage u admin kind q s =
     store_page (map (\<lambda>c. certificateValue c s) (order_desc crt_created
       (filter (\<lambda>c. (kind = [] \<or> crt_kind c = kind) \<and> cert_visible u admin s c) (certificates s)))) q"

definition store_Certificate :: "ident \<Rightarrow> db \<Rightarrow> err + cert_value" where
  "store_Certificate i s =
     andthen (some_or ErrNoRows (find_by crt_id i (certificates s))) (\<lambda>c. Inr (certificateValue c s))"

text \<open>\<open>NULL\<close> website identifiers are the empty string and match nothing.\<close>

definition store_WebsiteCertificate :: "ident \<Rightarrow> db \<Rightarrow> err + cert_value" where
  "store_WebsiteCertificate w s =
     andthen (some_or ErrNoRows (List.find (\<lambda>c. w \<noteq> [] \<and> crt_website c = w) (certificates s))) (\<lambda>c.
     Inr (certificateValue c s))"

definition store_PanelCertificate :: "db \<Rightarrow> err + cert_value" where
  "store_PanelCertificate s =
     andthen (some_or ErrNoRows (find_by crt_kind ''panel'' (certificates s))) (\<lambda>c. Inr (certificateValue c s))"

definition insert_certificate :: "certificate \<Rightarrow> msec \<Rightarrow> db \<Rightarrow> err + (certificate \<times> db)" where
  "insert_certificate c now s =
     (let row = c\<lparr>crt_status := Pending, crt_expires := None, crt_renew_after := None, crt_error := [], crt_updated := now\<rparr> in
      if \<not> (crt_kind c = ''website'' \<and> crt_website c \<noteq> [] \<or> crt_kind c = ''panel'' \<and> crt_website c = []) then Inl CheckViolation
      else if exists_by crt_id (crt_id c) (certificates s) \<or>
        list_ex (\<lambda>r. crt_website c \<noteq> [] \<and> crt_website r = crt_website c) (certificates s) \<or>
        list_ex (\<lambda>r. crt_kind c = ''panel'' \<and> crt_kind r = ''panel'') (certificates s)
      then Inl UniqueViolation
      else if (crt_website c \<noteq> [] \<and> \<not> exists_by web_id (crt_website c) (websites s)) \<or> \<not> exists_by nod_id (crt_node c) (nodes s)
      then Inl ForeignKeyViolation
      else Inr (row, s\<lparr>certificates := certificates s @ [row]\<rparr>))"

definition queued_certificate :: "certificate \<Rightarrow> msec \<Rightarrow> certificate \<Rightarrow> certificate" where
  "queued_certificate v now c = c\<lparr>crt_name := crt_name v, crt_email := crt_email v, crt_redirect := crt_redirect v,
     crt_status := Pending, crt_error := [], crt_updated := now\<rparr>"

text \<open>\<open>INSERT OR IGNORE\<close>, name by name, after deleting the old names.\<close>

definition add_name :: "ident \<Rightarrow> string \<Rightarrow> (ident \<times> string) list \<Rightarrow> (ident \<times> string) list" where
  "add_name i n ps = (if list_ex (\<lambda>p. fst p = i \<and> nocase (snd p) = nocase n) ps then ps else ps @ [(i, n)])"

definition replaceCertificateNames :: "ident \<Rightarrow> string list \<Rightarrow> db \<Rightarrow> db" where
  "replaceCertificateNames i names s =
     s\<lparr>certificate_names := fold (add_name i) names (filter (\<lambda>p. fst p \<noteq> i) (certificate_names s))\<rparr>"

definition store_QueueCertificate ::
  "cert_value \<Rightarrow> job \<Rightarrow> bool \<Rightarrow> msec \<Rightarrow> db \<Rightarrow> err + ((cert_value \<times> job) \<times> db)" where
  "store_QueueCertificate v j create now s =
     andthen (if create then insert_certificate (fst v) now s
       else (let s1 = s\<lparr>certificates := update_by crt_id (crt_id (fst v)) (queued_certificate (fst v) now) (certificates s)\<rparr> in
         andthen (some_or ErrNoRows (find_by crt_id (crt_id (fst v)) (certificates s1))) (\<lambda>c. Inr (c, s1)))) (\<lambda>(row, s1).
     andthen (createJob j (replaceCertificateNames (crt_id (fst v)) (snd v) s1)) (\<lambda>(j', s2).
     Inr (((row, snd v), j'), s2)))"

definition result_row :: "status \<Rightarrow> msec option \<Rightarrow> msec option \<Rightarrow> string \<Rightarrow> msec \<Rightarrow> certificate \<Rightarrow> certificate" where
  "result_row st expires renew msg now c =
     c\<lparr>crt_status := st, crt_expires := expires, crt_renew_after := renew, crt_error := msg, crt_updated := now\<rparr>"

text \<open>Names of a certificate that is gone break the foreign key; an empty list inserts none.\<close>

definition store_SetResult ::
  "ident \<Rightarrow> string list \<Rightarrow> status \<Rightarrow> msec option \<Rightarrow> msec option \<Rightarrow> string \<Rightarrow> msec \<Rightarrow> db \<Rightarrow> err + db" where
  "store_SetResult i names st expires renew msg now s =
     (if names \<noteq> [] \<and> \<not> exists_by crt_id i (certificates s) then Inl ForeignKeyViolation
      else Inr (replaceCertificateNames i names
        (s\<lparr>certificates := update_by crt_id i (result_row st expires renew msg now) (certificates s)\<rparr>)))"

definition due :: "msec \<Rightarrow> certificate \<Rightarrow> bool" where
  "due now c \<longleftrightarrow> crt_status c = Active \<and> (case crt_renew_after c of None \<Rightarrow> False | Some t \<Rightarrow> t \<le> now)"

definition store_DueCertificates :: "msec \<Rightarrow> db \<Rightarrow> cert_value list" where
  "store_DueCertificates now s =
     map (\<lambda>c. certificateValue c s)
       (order_asc (\<lambda>c. case crt_renew_after c of None \<Rightarrow> 0 | Some t \<Rightarrow> t) (filter (due now) (certificates s)))"

definition renew_job_of :: "ident \<Rightarrow> job \<Rightarrow> bool" where
  "renew_job_of i j \<longleftrightarrow> job_kind_of j = KindCertificateRenew \<and> (job_status j = Queued \<or> job_status j = Running) \<and>
     map_of (job_payload j) ''certificateId'' = Some (JStr i)"

definition store_CertificateJobPending :: "ident \<Rightarrow> db \<Rightarrow> bool" where
  "store_CertificateJobPending i s \<longleftrightarrow> list_ex (renew_job_of i) (jobs s)"

section \<open>Service\<close>

definition certificates_Certificates :: "ident \<Rightarrow> bool \<Rightarrow> db \<Rightarrow> cert_value list" where
  "certificates_Certificates u admin s = store_Certificates u admin s"

definition certificates_CertificatePage :: "ident \<Rightarrow> bool \<Rightarrow> string \<Rightarrow> query \<Rightarrow> db \<Rightarrow> err + cert_value result" where
  "certificates_CertificatePage u admin kind q s =
     (if kind \<noteq> [] \<and> kind \<noteq> ''website'' \<and> kind \<noteq> ''panel''
      then Inl (ValidationErr ''kind'' ''Certificate kind is invalid'')
      else Inr (store_CertificatePage u admin kind q s))"

definition certificates_queue ::
  "cert_value \<Rightarrow> ident \<Rightarrow> job_kind \<Rightarrow> bool \<Rightarrow> ident \<Rightarrow> msec \<Rightarrow> db \<Rightarrow> err + ((cert_value \<times> job) \<times> db)" where
  "certificates_queue v u k create jid now s =
     store_QueueCertificate v
       (new_job jid (crt_node (fst v)) u k [(''certificateId'', JStr (crt_id (fst v)))] 2 now) create now s"

text \<open>The loop over the domains of a website: the primary host name and the names to certify.\<close>

definition primary_name :: "domain list \<Rightarrow> string" where
  "primary_name ds = foldl (\<lambda>n d. if dom_kind d = Primary then dom_hostname d else n) [] ds"

definition live_names :: "domain list \<Rightarrow> string list" where
  "live_names ds = map dom_hostname (filter (\<lambda>d. dom_enabled d \<and> dom_status d = Active) ds)"

definition new_certificate :: "ident \<Rightarrow> ident \<Rightarrow> ident \<Rightarrow> string \<Rightarrow> msec \<Rightarrow> certificate" where
  "new_certificate i w node kind now =
     \<lparr>crt_id = i, crt_website = w, crt_node = node, crt_kind = kind, crt_name = [], crt_email = [], crt_status = Pending,
      crt_redirect = True, crt_expires = None, crt_renew_after = None, crt_error = [], crt_created = now, crt_updated = now\<rparr>"

definition certificates_websiteValue ::
  "website \<Rightarrow> string \<Rightarrow> string \<Rightarrow> string list \<Rightarrow> ident \<Rightarrow> msec \<Rightarrow> db \<Rightarrow> err + (cert_value \<times> bool)" where
  "certificates_websiteValue w name email names i now s =
     (case store_WebsiteCertificate (web_id w) s of
        Inl _ \<Rightarrow> Inr (((new_certificate i (web_id w) (web_node w) ''website'' now)\<lparr>crt_name := name, crt_email := email\<rparr>, names), True)
      | Inr (c, _) \<Rightarrow>
          if crt_status c = Pending then Inl CertErrBusy
          else Inr ((c\<lparr>crt_name := name, crt_email := email\<rparr>, names), False))"

definition certificates_IssueWebsite ::
  "ext \<Rightarrow> ident \<Rightarrow> string \<Rightarrow> ident \<Rightarrow> bool \<Rightarrow> ident \<Rightarrow> ident \<Rightarrow> msec \<Rightarrow> db \<Rightarrow> err + ((cert_value \<times> job) \<times> db)" where
  "certificates_IssueWebsite x wid email u admin i jid now s =
     andthen (website_of wid u admin s) (\<lambda>w.
     andthen (fail_when (web_status w \<noteq> Active \<or> \<not> web_enabled w) ErrWebsiteInactive) (\<lambda>_.
     andthen (validate_Email x email) (\<lambda>mail.
     andthen (websites_Domains (web_id w) u admin s) (\<lambda>ds.
     andthen (fail_when (primary_name ds = []) ErrPrimaryRequired) (\<lambda>_.
     andthen (certificates_websiteValue w (primary_name ds) mail (live_names ds) i now s) (\<lambda>(v, create).
     certificates_queue v u KindCertificateIssue create jid now s))))))"

definition certificates_IssuePanel ::
  "ext \<Rightarrow> string \<Rightarrow> string \<Rightarrow> ident \<Rightarrow> ident \<Rightarrow> ident \<Rightarrow> msec \<Rightarrow> db \<Rightarrow> err + ((cert_value \<times> job) \<times> db)" where
  "certificates_IssuePanel x hostname email u i jid now s =
     andthen (validate_Domain x hostname) (\<lambda>host.
     andthen (validate_Email x email) (\<lambda>mail.
     (case store_Nodes s of
        [] \<Rightarrow> Inl (Plain ''get panel node'')
      | n # _ \<Rightarrow>
          (case store_PanelCertificate s of
            Inl _ \<Rightarrow> certificates_queue ((new_certificate i [] (nod_id n) ''panel'' now)\<lparr>crt_name := host, crt_email := mail\<rparr>, [host])
              u KindCertificateIssue True jid now s
          | Inr (c, _) \<Rightarrow>
              if crt_status c = Pending then Inl CertErrBusy
              else certificates_queue (c\<lparr>crt_name := host, crt_email := mail\<rparr>, [host]) u KindCertificateIssue False jid now s))))"

definition certificates_access :: "ident \<Rightarrow> ident \<Rightarrow> bool \<Rightarrow> db \<Rightarrow> err + cert_value" where
  "certificates_access i u admin s =
     andthen (validate_ID ''certificateId'' i) (\<lambda>_.
     andthen (store_Certificate i s) (\<lambda>v.
     if crt_kind (fst v) = ''panel'' then (if admin then Inr v else Inl AccErrForbidden)
     else andthen (website_of (crt_website (fst v)) u admin s) (\<lambda>_. Inr v)))"

definition certificates_refreshWebsite :: "cert_value \<Rightarrow> ident \<Rightarrow> bool \<Rightarrow> db \<Rightarrow> err + cert_value" where
  "certificates_refreshWebsite v u admin s =
     (if crt_kind (fst v) \<noteq> ''website'' then Inr v
      else
        andthen (website_of (crt_website (fst v)) u admin s) (\<lambda>w.
        andthen (websites_Domains (web_id w) u admin s) (\<lambda>ds.
        andthen (fail_when (primary_name ds = []) ErrPrimaryRequired) (\<lambda>_.
        Inr ((fst v)\<lparr>crt_name := primary_name ds\<rparr>, live_names ds)))))"

definition certificates_Renew ::
  "ident \<Rightarrow> ident \<Rightarrow> bool \<Rightarrow> ident \<Rightarrow> msec \<Rightarrow> db \<Rightarrow> err + ((cert_value \<times> job) \<times> db)" where
  "certificates_Renew i u admin jid now s =
     andthen (certificates_access i u admin s) (\<lambda>v.
     andthen (fail_when (crt_status (fst v) = Pending) CertErrBusy) (\<lambda>_.
     andthen (certificates_refreshWebsite v u admin s) (\<lambda>v'.
     certificates_queue v' u KindCertificateRenew False jid now s)))"

definition certificates_SetRedirect ::
  "ident \<Rightarrow> ident \<Rightarrow> bool \<Rightarrow> bool \<Rightarrow> ident \<Rightarrow> msec \<Rightarrow> db \<Rightarrow> err + ((cert_value \<times> job) \<times> db)" where
  "certificates_SetRedirect i u admin redirect jid now s =
     andthen (certificates_access i u admin s) (\<lambda>v.
     andthen (fail_when (crt_kind (fst v) \<noteq> ''website'' \<or> crt_status (fst v) = Pending) CertErrBusy) (\<lambda>_.
     andthen (certificates_refreshWebsite v u admin s) (\<lambda>v'.
     certificates_queue ((fst v')\<lparr>crt_redirect := redirect\<rparr>, snd v') u KindCertificateRenew False jid now s)))"

text \<open>The hourly loop; the first error ends it.  The job identifiers are drawn from a list.\<close>

fun queue_due_loop :: "cert_value list \<Rightarrow> ident list \<Rightarrow> msec \<Rightarrow> db \<Rightarrow> err option \<times> db" where
  "queue_due_loop [] ids now s = (None, s)"
| "queue_due_loop (v # vs) ids now s =
     (case certificates_refreshWebsite v [] True s of
        Inl e \<Rightarrow> (Some e, s)
      | Inr v' \<Rightarrow>
          if store_CertificateJobPending (crt_id (fst v')) s then queue_due_loop vs ids now s
          else (case ids of
            [] \<Rightarrow> (Some (Plain ''generate ID''), s)
          | jid # ids' \<Rightarrow>
              (case certificates_queue v' [] KindCertificateRenew False jid now s of
                Inl e \<Rightarrow> (Some e, s)
              | Inr (_, s') \<Rightarrow> queue_due_loop vs ids' now s')))"

definition certificates_QueueDue :: "ident list \<Rightarrow> msec \<Rightarrow> db \<Rightarrow> err option \<times> db" where
  "certificates_QueueDue ids now s = queue_due_loop (store_DueCertificates now s) ids now s"

section \<open>Job handler\<close>

record cert_request =
  crq_certificate :: ident
  crq_kind :: string
  crq_website :: ident
  crq_account :: ident
  crq_system_user :: string
  crq_name :: string
  crq_email :: string
  crq_document_root :: string
  crq_runtime_version :: string
  crq_names :: "string list"
  crq_redirect :: bool

type_synonym cert_agent = "string \<Rightarrow> cert_request \<Rightarrow> err + (string list \<times> msec)"

definition renewal_lead :: msec where
  "renewal_lead = 30 * 24 * 60 * 60 * 1000"

definition certificates_safeError :: "(err \<Rightarrow> string) \<Rightarrow> err \<Rightarrow> string" where
  "certificates_safeError render e = (if 500 < length (render e) then take 500 (render e) else render e)"

definition cert_request_of :: "cert_value \<Rightarrow> db \<Rightarrow> err + cert_request" where
  "cert_request_of v s =
     (let c = fst v; q = \<lparr>crq_certificate = crt_id c, crq_kind = crt_kind c, crq_website = crt_website c, crq_account = [],
        crq_system_user = [], crq_name = crt_name c, crq_email = crt_email c, crq_document_root = [],
        crq_runtime_version = [], crq_names = snd v, crq_redirect = crt_redirect c\<rparr> in
      if crt_kind c = ''website'' then
        andthen (store_Website (crt_website c) s) (\<lambda>w.
        andthen (accounts_Get (web_account w) s) (\<lambda>a.
        Inr (q\<lparr>crq_account := acc_id a, crq_system_user := acc_system_user a,
          crq_document_root := web_document_root w, crq_runtime_version := web_runtime_version w\<rparr>)))
      else Inr q)"

definition certificates_provision ::
  "(err \<Rightarrow> string) \<Rightarrow> cert_agent \<Rightarrow> msec \<Rightarrow> cert_value \<Rightarrow> db \<Rightarrow> err option \<times> db" where
  "certificates_provision render ag now v s =
     (case store_Node (crt_node (fst v)) s of
        Inl e \<Rightarrow> (Some e, s)
      | Inr n \<Rightarrow>
     (case cert_request_of v s of
        Inl e \<Rightarrow> (Some e, s)
      | Inr q \<Rightarrow>
     (case ag (nod_endpoint n) q of
        Inl e \<Rightarrow>
          (Some e, case store_SetResult (crt_id (fst v)) (snd v) Errored None None (certificates_safeError render e) now s of
            Inl _ \<Rightarrow> s | Inr s' \<Rightarrow> s')
      | Inr (names, expires) \<Rightarrow>
          (case store_SetResult (crt_id (fst v)) names Active (Some expires) (Some (expires - renewal_lead)) [] now s of
            Inl e \<Rightarrow> (Some e, s) | Inr s' \<Rightarrow> (None, s')))))"

definition certificates_Provision ::
  "(err \<Rightarrow> string) \<Rightarrow> cert_agent \<Rightarrow> msec \<Rightarrow> job \<Rightarrow> db \<Rightarrow> err option \<times> db" where
  "certificates_Provision render ag now j s =
     (case payload_string ''certificateId'' (job_payload j) of
        None \<Rightarrow> (Some (Plain ''decode certificate job payload''), s)
      | Some i \<Rightarrow>
          if i = [] then (Some (Plain ''decode certificate job payload''), s)
          else (case store_Certificate i s of
            Inl e \<Rightarrow> (Some e, s)
          | Inr v \<Rightarrow> certificates_provision render ag now v s))"

text \<open>Called when a restored backup changed a website: the certificate is issued for its names again.\<close>

definition certificates_ReconcileWebsite ::
  "(err \<Rightarrow> string) \<Rightarrow> cert_agent \<Rightarrow> msec \<Rightarrow> ident \<Rightarrow> db \<Rightarrow> err option \<times> db" where
  "certificates_ReconcileWebsite render ag now w s =
     (case store_WebsiteCertificate w s of
        Inl _ \<Rightarrow> (None, s)
      | Inr v \<Rightarrow>
          if crt_status (fst v) \<noteq> Active then (None, s)
          else (case certificates_refreshWebsite v [] True s of
            Inl e \<Rightarrow> (Some e, s)
          | Inr v' \<Rightarrow> certificates_provision render ag now v' s))"

section \<open>Renewal\<close>

lemma certificates_found: "store_Certificate i s = Inr v \<Longrightarrow> fst v \<in> set (certificates s) \<and> crt_id (fst v) = i"
  by (auto simp: store_Certificate_def certificateValue_def dest: certificate_table.find_mem)

lemma replace_names_tables [simp]:
  "certificates (replaceCertificateNames i names s) = certificates s" "jobs (replaceCertificateNames i names s) = jobs s"
  by (simp_all add: replaceCertificateNames_def)

lemma due_after_result:
  assumes "store_SetResult i names st expires renew msg now s = Inr s'" "exists_by crt_id i (certificates s)"
  shows "(\<exists>v \<in> set (store_DueCertificates t s'). crt_id (fst v) = i) \<longleftrightarrow>
    st = Active \<and> (case renew of None \<Rightarrow> False | Some r \<Rightarrow> r \<le> t)"
proof -
  have "certificates s' = update_by crt_id i (result_row st expires renew msg now) (certificates s)"
    using assms(1) by (auto simp: store_SetResult_def split: if_splits)
  moreover have "(\<exists>c \<in> set (update_by crt_id i (result_row st expires renew msg now) (certificates s)). due t c \<and> crt_id c = i) \<longleftrightarrow>
      st = Active \<and> (case renew of None \<Rightarrow> False | Some r \<Rightarrow> r \<le> t)"
  proof -
    let ?f = "result_row st expires renew msg now"
    have due: "due t (?f c) \<longleftrightarrow> st = Active \<and> (case renew of None \<Rightarrow> False | Some r \<Rightarrow> r \<le> t)" for c
      by (simp add: due_def result_row_def)
    have id: "crt_id (?f c) = crt_id c" for c
      by (simp add: result_row_def)
    obtain c where "c \<in> set (certificates s)" "crt_id c = i"
      using assms(2) by (auto simp: exists_by_iff)
    then have "?f c \<in> set (update_by crt_id i ?f (certificates s))" "crt_id (?f c) = i"
      by (auto simp: update_by_def id intro!: image_eqI [of _ _ c])
    moreover have "\<exists>c0. c = ?f c0" if "c \<in> set (update_by crt_id i ?f (certificates s))" "crt_id c = i" for c
      using that by (auto simp: update_by_def split: if_splits)
    ultimately show ?thesis
      using due by metis
  qed
  ultimately show ?thesis
    by (auto simp: store_DueCertificates_def certificateValue_def)
qed

text \<open>A certificate that was issued falls due thirty days before it expires, and not earlier.  After a
  successful job, the certificate is active with the expiry the authority gave, and the hourly
  loop sees it from \<open>expires - 30 days\<close> on.\<close>

theorem issued_certificate_falls_due:
  assumes "certificates_Provision render ag now j s = (None, s')" "payload_string ''certificateId'' (job_payload j) = Some i"
  shows "\<exists>v n q names expires. store_Certificate i s = Inr v \<and> ag n q = Inr (names, expires) \<and> crq_names q = snd v \<and>
    (\<forall>t. (\<exists>v' \<in> set (store_DueCertificates t s'). crt_id (fst v') = i) \<longleftrightarrow> expires - 30 * 24 * 60 * 60 * 1000 \<le> t)"
proof -
  from assms obtain v where v: "store_Certificate i s = Inr v" and p: "certificates_provision render ag now v s = (None, s')"
    by (auto simp: certificates_Provision_def split: if_splits sum.splits)
  from p obtain n q names expires where q: "cert_request_of v s = Inr q" and ag: "ag n q = Inr (names, expires)"
    and st: "store_SetResult (crt_id (fst v)) names Active (Some expires) (Some (expires - renewal_lead)) [] now s = Inr s'"
    by (auto simp: certificates_provision_def split: sum.splits)
  have "crq_names q = snd v"
    using q by (auto simp: cert_request_of_def Let_def split: if_splits)
  moreover have "crt_id (fst v) = i" "exists_by crt_id i (certificates s)"
    using certificates_found [OF v] by (auto simp: exists_by_iff)
  ultimately show ?thesis
    using v ag due_after_result [OF st] by (fastforce simp: renewal_lead_def)
qed

text \<open>A failed renewal ends the hourly renewals.  When the agent answers a certificate job with an
  error, the handler stores the status \<open>error\<close> and drops the expiry and the renewal time; in the
  state it leaves, the hourly loop never finds the certificate due, however far off its expiry was.\<close>

theorem failed_renewal_never_due:
  assumes "store_Certificate i s = Inr v" "store_Node (crt_node (fst v)) s = Inr n" "cert_request_of v s = Inr q"
    "ag (nod_endpoint n) q = Inl e" "payload_string ''certificateId'' (job_payload j) = Some i" "i \<noteq> []"
  shows "\<exists>s'. certificates_Provision render ag now j s = (Some e, s') \<and>
    (\<forall>t. \<not> (\<exists>v' \<in> set (store_DueCertificates t s'). crt_id (fst v') = i))"
proof -
  have i: "crt_id (fst v) = i" "exists_by crt_id i (certificates s)"
    using certificates_found [OF assms(1)] by (auto simp: exists_by_iff)
  then obtain s' where s': "store_SetResult i (snd v) Errored None None (certificates_safeError render e) now s = Inr s'"
    by (auto simp: store_SetResult_def)
  then have "certificates_Provision render ag now j s = (Some e, s')"
    using assms i(1) by (simp add: certificates_Provision_def certificates_provision_def)
  moreover have "\<not> (\<exists>v' \<in> set (store_DueCertificates t s'). crt_id (fst v') = i)" for t
    using due_after_result [OF s' i(2), of t] by simp
  ultimately show ?thesis
    by blast
qed

lemma QueueCertificate_jobs:
  "store_QueueCertificate v j create now s = Inr ((v', j'), s') \<Longrightarrow> j' = new_job_row j \<and> jobs s' = jobs s @ [new_job_row j]"
  by (auto simp: store_QueueCertificate_def insert_certificate_def Let_def split: if_splits dest!: createJob_Inr)

lemma queue_renewal:
  assumes "certificates_queue v u KindCertificateRenew create jid now s = Inr ((v', j), s')"
  shows "\<exists>j. jobs s' = jobs s @ [j] \<and> (\<forall>i. renew_job_of i j \<longleftrightarrow> i = crt_id (fst v))"
  using QueueCertificate_jobs [OF assms [unfolded certificates_queue_def]]
  by (auto simp: renew_job_of_def new_job_row_def new_job_def)

lemma refresh_id: "certificates_refreshWebsite v u admin s = Inr v' \<Longrightarrow> crt_id (fst v') = crt_id (fst v)"
  by (auto simp: certificates_refreshWebsite_def split: if_splits)

definition renewals :: "ident \<Rightarrow> db \<Rightarrow> nat" where
  "renewals i s = length (filter (renew_job_of i) (jobs s))"

lemma pending_renewals: "store_CertificateJobPending i s \<longleftrightarrow> 0 < renewals i s"
  by (auto simp: store_CertificateJobPending_def renewals_def list_ex_iff filter_empty_conv)

lemma queue_due_loop_effect:
  "queue_due_loop vs ids now s = (e, s') \<Longrightarrow>
    (\<forall>i. renewals i s \<le> renewals i s' \<and> renewals i s' \<le> max 1 (renewals i s)) \<and>
    (e = None \<longrightarrow> (\<forall>v \<in> set vs. 0 < renewals (crt_id (fst v)) s'))"
proof (induction vs arbitrary: ids s)
  case (Cons v vs)
  show ?case
  proof (cases "certificates_refreshWebsite v [] True s")
    case (Inl e')
    with Cons.prems show ?thesis by auto
  next
    case (Inr v')
    note id = refresh_id [OF Inr]
    show ?thesis
    proof (cases "store_CertificateJobPending (crt_id (fst v')) s")
      case True
      with Cons.prems Inr have "queue_due_loop vs ids now s = (e, s')"
        by simp
      from Cons.IH [OF this] True show ?thesis
        unfolding pending_renewals id by (metis less_le_trans list.set_cases set_ConsD)
    next
      case False
      show ?thesis
      proof (cases ids)
        case Nil
        with Cons.prems Inr False show ?thesis by auto
      next
        case (Cons jid ids')
        show ?thesis
        proof (cases "certificates_queue v' [] KindCertificateRenew False jid now s")
          case (Inl e')
          with Cons.prems Inr False Cons show ?thesis by auto
        next
          case q: (Inr p)
          obtain r s1 where p: "p = (r, s1)" by (cases p)
          from Cons.prems Inr False Cons q p have rest: "queue_due_loop vs ids' now s1 = (e, s')"
            by simp
          from q p obtain j where j: "jobs s1 = jobs s @ [j]" "\<forall>i. renew_job_of i j \<longleftrightarrow> i = crt_id (fst v')"
            using queue_renewal by (cases r) blast
          have one: "renewals i s1 = (if i = crt_id (fst v) then 1 else renewals i s)" for i
            using j False by (simp add: renewals_def pending_renewals id)
          have zero: "renewals (crt_id (fst v)) s = 0"
            using False by (simp add: pending_renewals id)
          have le: "renewals i s1 \<le> renewals i s'" and up: "renewals i s' \<le> max 1 (renewals i s1)"
            and rest': "e = None \<Longrightarrow> \<forall>v \<in> set vs. 0 < renewals (crt_id (fst v)) s'" for i
            using Cons.IH [OF rest] by auto
          have "renewals i s \<le> renewals i s' \<and> renewals i s' \<le> max 1 (renewals i s)" for i
            using le [of i] up [of i] one [of i] zero by (cases "i = crt_id (fst v)") simp_all
          moreover have "0 < renewals (crt_id (fst v)) s'"
            using le [of "crt_id (fst v)"] one [of "crt_id (fst v)"] by simp
          ultimately show ?thesis
            using rest' by auto
        qed
      qed
    qed
  qed
qed simp

text \<open>C38: every due certificate gets its renewal, and no certificate two.  When the hourly loop ends
  without error, each certificate that was due has a renewal job that is queued or running, and no
  certificate has more of them than before, unless it had none.\<close>

theorem due_certificates_get_renewals:
  assumes "certificates_QueueDue ids now s = (None, s')"
  shows "(\<forall>v \<in> set (store_DueCertificates now s). store_CertificateJobPending (crt_id (fst v)) s') \<and>
    (\<forall>i. renewals i s' \<le> max 1 (renewals i s))"
  using queue_due_loop_effect [OF assms [unfolded certificates_QueueDue_def]] by (simp add: pending_renewals)

section \<open>Examples\<close>

definition sample_certificate :: certificate where
  "sample_certificate = (new_certificate ''c1'' [] ''n1'' ''panel'' 1)\<lparr>crt_name := ''panel.example.com'',
     crt_status := Active, crt_expires := Some 9, crt_renew_after := Some 5\<rparr>"

definition sample_certificates :: db where
  "sample_certificates = sample_hosting\<lparr>certificates := [sample_certificate],
     certificate_names := [(''c1'', ''panel.example.com'')]\<rparr>"

definition sample_renewal :: job where
  "sample_renewal = new_job ''j1'' ''n1'' [] KindCertificateRenew [(''certificateId'', JStr ''c1'')] 2 5"

lemmas sample_certificate_eval = sample_certificates_def sample_certificate_def sample_renewal_def new_certificate_def
  sample_hosting_def sample_node_def empty_db_def new_job_def find_by_def exists_by_def order_asc_def

lemma sample_certificate_found:
  "store_Certificate ''c1'' sample_certificates = Inr (sample_certificate, [''panel.example.com''])"
  by (simp add: store_Certificate_def certificateValue_def cert_names_def sample_certificate_eval)

lemma sample_cert_request:
  "\<exists>q. cert_request_of (sample_certificate, [''panel.example.com'']) sample_certificates = Inr q"
  by (simp add: cert_request_of_def sample_certificate_eval Let_def)

lemma sample_issue:
  "\<exists>s'. certificates_Provision (\<lambda>_. []) (\<lambda>_ _. Inr ([''panel.example.com''], 3000000000)) 5 sample_renewal sample_certificates = (None, s')"
  using sample_cert_request sample_certificate_found
  by (auto simp: certificates_Provision_def certificates_provision_def store_SetResult_def store_Node_def sample_certificate_eval)

theorem issued_certificate_falls_due_witness:
  "\<exists>s'. certificates_Provision (\<lambda>_. []) (\<lambda>_ _. Inr ([''panel.example.com''], 3000000000)) 5 sample_renewal sample_certificates = (None, s') \<and>
     (\<exists>v \<in> set (store_DueCertificates 500000000 s'). crt_id (fst v) = ''c1'') \<and>
     \<not> (\<exists>v \<in> set (store_DueCertificates 400000000 s'). crt_id (fst v) = ''c1'')"
proof -
  obtain s' where s': "certificates_Provision (\<lambda>_. []) (\<lambda>_ _. Inr ([''panel.example.com''], 3000000000)) 5 sample_renewal
      sample_certificates = (None, s')"
    using sample_issue by blast
  have "payload_string ''certificateId'' (job_payload sample_renewal) = Some ''c1''"
    by (simp add: sample_renewal_def new_job_def)
  from issued_certificate_falls_due [OF s' this] have
    "(\<exists>v \<in> set (store_DueCertificates t s'). crt_id (fst v) = ''c1'') \<longleftrightarrow> 3000000000 - 30 * 24 * 60 * 60 * 1000 \<le> t" for t
    by auto
  then show ?thesis
    by (intro exI [of _ s'] conjI s') simp_all
qed

theorem failed_renewal_never_due_witness:
  "\<exists>s'. certificates_Provision (\<lambda>_. []) (\<lambda>_ _. Inl (AgentErr ''refused'')) 5 sample_renewal sample_certificates = (Some (AgentErr ''refused''), s') \<and>
     (\<forall>t. \<not> (\<exists>v \<in> set (store_DueCertificates t s'). crt_id (fst v) = ''c1''))"
proof -
  obtain q where "cert_request_of (sample_certificate, [''panel.example.com'']) sample_certificates = Inr q"
    using sample_cert_request by blast
  then show ?thesis
    using failed_renewal_never_due [OF sample_certificate_found, of sample_node q "\<lambda>_ _. Inl (AgentErr ''refused'')" "AgentErr ''refused''" sample_renewal "\<lambda>_. []" 5]
    by (simp add: store_Node_def sample_certificate_eval)
qed

theorem due_certificates_get_renewals_witness:
  "\<exists>s'. certificates_QueueDue [''j1''] 5 sample_certificates = (None, s') \<and> store_CertificateJobPending ''c1'' s'"
proof -
  have due: "store_DueCertificates 5 sample_certificates = [(sample_certificate, [''panel.example.com''])]"
    by (simp add: store_DueCertificates_def due_def certificateValue_def cert_names_def sample_certificate_eval)
  have "\<exists>s'. certificates_QueueDue [''j1''] 5 sample_certificates = (None, s')"
    unfolding certificates_QueueDue_def due
    by (simp add: certificates_refreshWebsite_def store_CertificateJobPending_def
        certificates_queue_def store_QueueCertificate_def createJob_def store_CreateJob_def update_by_def queued_certificate_def
        replaceCertificateNames_def new_job_row_def sample_certificate_eval)
  then show ?thesis
    using due_certificates_get_renewals [of "[''j1'']" 5 sample_certificates] due by (fastforce simp: sample_certificate_def new_certificate_def)
qed

section \<open>Contracts\<close>

lemma certificate_store_queues:
  "store_QueueCertificate v j create now s = Inr ((v', j'), s') \<Longrightarrow> 1 \<le> job_max j \<Longrightarrow> queues_one s j' s'"
  by (auto simp: store_QueueCertificate_def insert_certificate_def Let_def queues_one_def replaceCertificateNames_def
      split: if_splits dest!: createJob_queues)

interpretation certificate_issue: queued_operation
  "\<lambda>(x, w, email, u, admin, i, jid, now). certificates_IssueWebsite x w email u admin i jid now"
  by unfold_locales (auto simp: certificates_IssueWebsite_def certificates_queue_def dest!: certificate_store_queues)

lemma panel_issue_queue:
  assumes "certificates_IssuePanel x h email u i jid now s = Inr (r, s')"
  shows "\<exists>v create. certificates_queue v u KindCertificateIssue create jid now s = Inr (r, s')"
proof (cases "store_Nodes s")
  case Nil
  with assms show ?thesis by (auto simp: certificates_IssuePanel_def)
next
  case (Cons n ns)
  with assms show ?thesis
    by (cases "store_PanelCertificate s") (auto simp: certificates_IssuePanel_def split: if_splits, blast+)
qed

interpretation panel_issue: queued_operation
  "\<lambda>(x, h, email, u, i, jid, now). certificates_IssuePanel x h email u i jid now"
  by unfold_locales (auto simp: certificates_queue_def dest!: panel_issue_queue certificate_store_queues)

interpretation certificate_renew: queued_operation
  "\<lambda>(i, u, admin, jid, now). certificates_Renew i u admin jid now"
  by unfold_locales (auto simp: certificates_Renew_def certificates_queue_def dest!: certificate_store_queues)

interpretation certificate_redirect: queued_operation
  "\<lambda>(i, u, admin, redirect, jid, now). certificates_SetRedirect i u admin redirect jid now"
  by unfold_locales (auto simp: certificates_SetRedirect_def certificates_queue_def dest!: certificate_store_queues)

end
