(* ===== verification/Paths.thy ===== *)
theory Paths
  imports Prelude
begin

text \<open>\<open>filepath.Clean\<close>, \<open>Rel\<close> and \<open>Join\<close> on the slash-separated paths of the hosts.\<close>

fun clean_parts :: "bool \<Rightarrow> string list \<Rightarrow> string list \<Rightarrow> string list" where
  "clean_parts rooted acc [] = rev acc"
| "clean_parts rooted acc (p # ps) =
     (if p = [] \<or> p = ''.'' then clean_parts rooted acc ps
      else if p = ''..'' then
        (case acc of
          [] \<Rightarrow> if rooted then clean_parts rooted [] ps else clean_parts rooted [p] ps
        | a # as \<Rightarrow> if a = ''..'' then clean_parts rooted (p # acc) ps else clean_parts rooted as ps)
      else clean_parts rooted (p # acc) ps)"

definition is_rooted :: "string \<Rightarrow> bool" where
  "is_rooted p \<longleftrightarrow> take 1 p = ''/''"

definition path_parts :: "string \<Rightarrow> string list" where
  "path_parts p = clean_parts (is_rooted p) [] (Split p (CHR ''/''))"

definition path_Clean :: "string \<Rightarrow> string" where
  "path_Clean p =
     (if is_rooted p then CHR ''/'' # Join (path_parts p) ''/''
      else if path_parts p = [] then ''.'' else Join (path_parts p) ''/'')"

definition path_Join :: "string list \<Rightarrow> string" where
  "path_Join ps = (let qs = dropWhile (\<lambda>p. p = []) ps in if qs = [] then [] else path_Clean (Join qs ''/''))"

definition path_Base :: "string \<Rightarrow> string" where
  "path_Base s =
     (if s = [] then ''.''
      else case filter (\<lambda>p. p \<noteq> []) (Split s (CHR ''/'')) of [] \<Rightarrow> ''/'' | ps \<Rightarrow> last ps)"

definition path_Dir :: "string \<Rightarrow> string" where
  "path_Dir s = path_Clean (rev (dropWhile (\<lambda>c. c \<noteq> CHR ''/'') (rev s)))"

fun rel_parts :: "string list \<Rightarrow> string list \<Rightarrow> string list option" where
  "rel_parts (b # bs) (t # ts) =
     (if b = t then rel_parts bs ts
      else if b = ''..'' then None else Some (replicate (length (b # bs)) ''..'' @ t # ts))"
| "rel_parts [] ts = Some ts"
| "rel_parts bs [] = (if hd bs = ''..'' then None else Some (replicate (length bs) ''..''))"

definition path_Rel :: "string \<Rightarrow> string \<Rightarrow> string option" where
  "path_Rel base targ =
     (if is_rooted base \<noteq> is_rooted targ then None
      else case rel_parts (path_parts base) (path_parts targ) of
        None \<Rightarrow> None
      | Some ps \<Rightarrow> Some (if ps = [] then ''.'' else Join ps ''/''))"

section \<open>Clean paths\<close>

text \<open>A part that \<open>Clean\<close> keeps as it is.\<close>

definition plain_part :: "string \<Rightarrow> bool" where
  "plain_part p \<longleftrightarrow> p \<noteq> [] \<and> p \<noteq> ''.'' \<and> p \<noteq> ''..'' \<and> CHR ''/'' \<notin> set p"

lemma Split_parts: "w \<in> set (Split s c) \<Longrightarrow> c \<notin> set w"
  by (induction s arbitrary: w) (auto split: list.splits if_splits)

lemma Split_Join:
  "ps \<noteq> [] \<Longrightarrow> \<forall>p \<in> set ps. c \<notin> set p \<Longrightarrow> Split (Join ps [c]) c = ps"
  by (induction ps rule: induct_list012) (simp_all add: Split_append Split_no_sep)

lemma clean_parts_plain:
  "\<forall>p \<in> set ps. plain_part p \<Longrightarrow> clean_parts r acc ps = rev acc @ ps"
  by (induction ps arbitrary: acc) (simp_all add: plain_part_def)

lemma clean_parts_subset:
  "q \<in> set (clean_parts r acc ps) \<Longrightarrow> q \<in> set acc \<or> q \<in> set ps \<and> q \<noteq> []"
proof (induction ps arbitrary: acc)
  case (Cons p ps)
  show ?case
  proof (cases "p = ''..'' \<and> acc \<noteq> [] \<and> hd acc \<noteq> ''..''")
    case True
    then obtain a as where "acc = a # as" by (cases acc) auto
    then show ?thesis
      using Cons.IH [of as] Cons.prems True by auto
  next
    case False
    then show ?thesis
      using Cons.IH [of acc] Cons.IH [of "p # acc"] Cons.IH [of "[p]"] Cons.IH [of "[]"] Cons.prems
      by (cases acc) (auto split: if_splits)
  qed
qed simp

text \<open>Of a rooted path, no part is \<open>..\<close> after cleaning.\<close>

lemma clean_parts_rooted:
  "\<forall>p \<in> set acc. plain_part p \<Longrightarrow> \<forall>p \<in> set ps. CHR ''/'' \<notin> set p \<Longrightarrow> p \<in> set (clean_parts True acc ps) \<Longrightarrow> plain_part p"
proof (induction ps arbitrary: acc)
  case (Cons q qs)
  show ?case
  proof (cases "q = [] \<or> q = ''.''")
    case True
    then show ?thesis
      using Cons.IH [OF Cons.prems(1)] Cons.prems(2,3) by simp
  next
    case False
    show ?thesis
    proof (cases "q = ''..''")
      case dots: True
      show ?thesis
      proof (cases acc)
        case Nil
        then show ?thesis
          using Cons.IH [of "[]"] Cons.prems(2,3) dots by simp
      next
        case (Cons a as)
        then have "a \<noteq> ''..''"
          using Cons.prems(1) by (simp add: plain_part_def)
        then show ?thesis
          using Cons.IH [of as] Cons.prems Cons dots by simp
      qed
    next
      case plain: False
      have "\<forall>p \<in> set (q # acc). plain_part p"
        using Cons.prems(1,2) False plain by (simp add: plain_part_def)
      moreover have "p \<in> set (clean_parts True (q # acc) qs)"
        using Cons.prems(3) False plain by simp
      ultimately show ?thesis
        using Cons.IH [of "q # acc"] Cons.prems(2) by simp
    qed
  qed
qed simp

lemma path_parts_rooted: "is_rooted p \<Longrightarrow> q \<in> set (path_parts p) \<Longrightarrow> plain_part q"
  unfolding path_parts_def using clean_parts_rooted [of "[]" "Split p (CHR ''/'')" q] Split_parts by auto

lemma path_parts_slash: "\<forall>p \<in> set ps. plain_part p \<Longrightarrow> path_parts (CHR ''/'' # Join ps ''/'') = ps"
proof -
  assume *: "\<forall>p \<in> set ps. plain_part p"
  show ?thesis
  proof (cases "ps = []")
    case False
    then have "Split (Join ps ''/'') (CHR ''/'') = ps"
      using * by (intro Split_Join) (auto simp: plain_part_def)
    then show ?thesis
      using clean_parts_plain [OF *] by (simp add: path_parts_def is_rooted_def)
  qed (simp add: path_parts_def is_rooted_def)
qed

lemma path_Clean_rooted:
  assumes "is_rooted p"
  shows "path_Clean p = CHR ''/'' # Join (path_parts p) ''/''" "is_rooted (path_Clean p)"
    "path_parts (path_Clean p) = path_parts p"
proof -
  show c: "path_Clean p = CHR ''/'' # Join (path_parts p) ''/''"
    using assms by (simp add: path_Clean_def)
  then show "is_rooted (path_Clean p)"
    by (simp add: is_rooted_def)
  show "path_parts (path_Clean p) = path_parts p"
    unfolding c using path_parts_rooted [OF assms] by (intro path_parts_slash) simp
qed

lemma path_Clean_relative:
  assumes "\<not> is_rooted p"
  shows "\<not> is_rooted (path_Clean p)"
proof (cases "path_parts p")
  case (Cons q qs)
  then have "q \<in> set (Split p (CHR ''/''))" "q \<noteq> []"
    using clean_parts_subset [of q "is_rooted p" "[]" "Split p (CHR ''/'')"] by (auto simp: path_parts_def)
  then have "CHR ''/'' \<notin> set q" "q \<noteq> []"
    by (simp_all add: Split_parts)
  then obtain c cs where "q = c # cs" "c \<noteq> CHR ''/''"
    by (cases q) auto
  then show ?thesis
    using assms Cons by (cases qs) (simp_all add: path_Clean_def is_rooted_def)
qed (use assms in \<open>simp add: path_Clean_def is_rooted_def\<close>)

lemma path_Clean_idem: "is_rooted p \<Longrightarrow> path_Clean (path_Clean p) = path_Clean p"
  by (metis path_Clean_rooted)

lemma rel_parts_below: "rel_parts bs ts = Some (p # ps) \<Longrightarrow> p \<noteq> ''..'' \<Longrightarrow> ts = bs @ p # ps"
  by (induction bs ts rule: rel_parts.induct) (auto split: if_splits)

text \<open>A relative path that does not start with \<open>..\<close> names something below the base.\<close>

lemma path_Rel_below:
  assumes "path_Rel base targ = Some r" "is_rooted base" "Split r (CHR ''/'') = p # ps" "p \<noteq> ''..''" "r \<noteq> ''.''"
  shows "is_rooted targ \<and> path_parts targ = path_parts base @ p # ps"
proof -
  have t: "is_rooted targ"
    using assms(1,2) by (auto simp: path_Rel_def split: if_splits)
  obtain qs where q: "rel_parts (path_parts base) (path_parts targ) = Some qs" "qs \<noteq> []" "r = Join qs ''/''"
    using assms(1,5) by (auto simp: path_Rel_def split: if_splits option.splits)
  have "CHR ''/'' \<notin> set a" if "a \<in> set qs" for a
  proof -
    have "rel_parts bs ts = Some qs \<Longrightarrow> a \<in> set ts \<union> {''..''}" for bs ts
      using that by (induction bs ts rule: rel_parts.induct) (auto split: if_splits)
    then have "a \<in> set (path_parts targ) \<union> {''..''}"
      using q(1) by blast
    then show ?thesis
      using path_parts_rooted [OF t, of a] by (auto simp: plain_part_def)
  qed
  then have "Split r (CHR ''/'') = qs"
    unfolding q(3) using q(2) by (intro Split_Join) auto
  then show ?thesis
    using rel_parts_below q(1) assms(3,4) t by auto
qed

lemma HasPrefix_iff: "HasPrefix s p \<longleftrightarrow> (\<exists>r. s = p @ r)"
proof
  assume "HasPrefix s p"
  then have "s = p @ drop (length p) s"
    using append_take_drop_id [of "length p" s] by (simp add: HasPrefix_def)
  then show "\<exists>r. s = p @ r" ..
qed (auto simp: HasPrefix_def)

section \<open>Names in a directory\<close>

lemma Split_last_part: "c \<notin> set r \<Longrightarrow> Split (s @ c # r) c = Split s c @ [r]"
  by (induction s) (auto simp: Split_no_sep split: list.splits)

lemma clean_parts_snoc: "plain_part a \<Longrightarrow> clean_parts r acc (ps @ [a]) = clean_parts r acc ps @ [a]"
  by (induction r acc ps rule: clean_parts.induct) (auto simp: plain_part_def split: list.splits)

lemma path_parts_join:
  assumes "is_rooted dir" "plain_part a"
  shows "path_parts (dir @ ''/'' @ a) = path_parts dir @ [a]"
proof -
  obtain r where "dir = CHR ''/'' # r"
    using assms(1) by (cases dir) (auto simp: is_rooted_def)
  then show ?thesis
    using assms Split_last_part [of "CHR ''/''" a dir] clean_parts_snoc [OF assms(2)]
    by (simp add: path_parts_def is_rooted_def plain_part_def)
qed

lemma path_Join_name:
  assumes "is_rooted dir" "plain_part a"
  shows "path_Join [dir, a] = CHR ''/'' # Join (path_parts dir @ [a]) ''/''" "path_parts (path_Join [dir, a]) = path_parts dir @ [a]"
proof -
  obtain r where dir: "dir = CHR ''/'' # r"
    using assms(1) by (cases dir) (auto simp: is_rooted_def)
  have "path_Join [dir, a] = path_Clean (dir @ ''/'' @ a)"
    by (simp add: path_Join_def dir)
  moreover note path_parts_join [OF assms]
  moreover have "is_rooted (dir @ ''/'' @ a)"
    by (simp add: dir is_rooted_def)
  note path_Clean_rooted [OF this]
  ultimately show "path_Join [dir, a] = CHR ''/'' # Join (path_parts dir @ [a]) ''/''" "path_parts (path_Join [dir, a]) = path_parts dir @ [a]"
    by metis+
qed

lemma path_Join_inj:
  "is_rooted dir \<Longrightarrow> plain_part a \<Longrightarrow> plain_part b \<Longrightarrow> path_Join [dir, a] = path_Join [dir, b] \<Longrightarrow> a = b"
  using path_Join_name(2) by (metis last_snoc)

section \<open>Relative paths\<close>

text \<open>A relative path between clean rooted paths: some \<open>..\<close>, then plain names.\<close>

definition relative_parts :: "string list \<Rightarrow> bool" where
  "relative_parts ps \<longleftrightarrow> (\<exists>k qs. ps = replicate k ''..'' @ qs \<and> (\<forall>q \<in> set qs. plain_part q))"

lemma relative_partsI: "ps = replicate k ''..'' @ qs \<Longrightarrow> \<forall>q \<in> set qs. plain_part q \<Longrightarrow> relative_parts ps"
  unfolding relative_parts_def by blast

lemma rel_parts_relative: "rel_parts bs ts = Some ps \<Longrightarrow> \<forall>t \<in> set ts. plain_part t \<Longrightarrow> relative_parts ps"
proof (induction bs ts rule: rel_parts.induct)
  case (1 b bs t ts)
  show ?case
  proof (cases "b = t")
    case False
    then show ?thesis
      using 1 by (intro relative_partsI [of ps "length (b # bs)" "t # ts"]) (auto split: if_splits)
  qed (use 1 in simp)
next
  case (2 ts)
  then show ?case
    by (intro relative_partsI [of ps 0 ts]) simp_all
next
  case (3 b bs)
  then show ?case
    by (intro relative_partsI [of ps "length (b # bs)" "[]"]) (auto split: if_splits)
qed

lemma clean_relative:
  assumes "relative_parts ps"
  shows "clean_parts False [] ps = ps"
proof -
  obtain k qs where ps: "ps = replicate k ''..'' @ qs" "\<forall>q \<in> set qs. plain_part q"
    using assms by (auto simp: relative_parts_def)
  have "clean_parts False (replicate j ''..'') (replicate k ''..'' @ qs) = replicate (j + k) ''..'' @ qs" for j
  proof (induction k arbitrary: j)
    case 0
    then show ?case
      using clean_parts_plain [OF ps(2)] by simp
  next
    case (Suc k)
    have "clean_parts False (replicate j ''..'') (''..'' # r) = clean_parts False (replicate (Suc j) ''..'') r" for r
      by (cases j) simp_all
    from this [of "replicate k ''..'' @ qs"] show ?case
      unfolding Suc.IH [of "Suc j"] by simp
  qed
  from this [of 0] show ?thesis
    by (simp add: ps(1))
qed

lemma relative_butlast: "relative_parts ps \<Longrightarrow> relative_parts (butlast ps)"
proof -
  assume "relative_parts ps"
  then obtain k qs where ps: "ps = replicate k ''..'' @ qs" "\<forall>q \<in> set qs. plain_part q"
    by (auto simp: relative_parts_def)
  show ?thesis
  proof (cases "qs = []")
    case True
    have "butlast (replicate k x) = replicate (k - 1) x" for x :: string
      by (simp add: butlast_conv_take)
    then show ?thesis
      using True ps(1) relative_partsI [of "butlast ps" "k - 1" "[]"] by (metis append_Nil2 empty_iff list.set(1))
  next
    case False
    then show ?thesis
      using ps by (intro relative_partsI [of _ k "butlast qs"]) (auto simp: butlast_append dest: in_set_butlastD)
  qed
qed

lemma relative_snoc: "relative_parts ps \<Longrightarrow> plain_part q \<Longrightarrow> relative_parts (ps @ [q])"
proof -
  assume "relative_parts ps" "plain_part q"
  then obtain k qs where "ps = replicate k ''..'' @ qs" "\<forall>x \<in> set (qs @ [q]). plain_part x"
    by (auto simp: relative_parts_def)
  then show ?thesis
    by (intro relative_partsI [of _ k "qs @ [q]"]) simp_all
qed

lemma relative_up: "relative_parts (ps @ [''..'']) \<Longrightarrow> relative_parts (ps @ [''..''] @ [''..''])"
proof -
  assume "relative_parts (ps @ [''..''])"
  then obtain k qs where k: "ps @ [''..''] = replicate k ''..'' @ qs" "\<forall>q \<in> set qs. plain_part q"
    by (auto simp: relative_parts_def)
  have "qs = []"
  proof (rule ccontr)
    assume "qs \<noteq> []"
    then have "last qs = ''..''" "last qs \<in> set qs"
      using arg_cong [OF k(1), of last] by simp_all
    then show False
      using k(2) by (auto simp: plain_part_def)
  qed
  then have "ps @ [''..''] @ [''..''] = replicate (Suc k) ''..'' @ []"
    using k(1) by (simp flip: replicate_append_same)
  then show ?thesis
    by (rule relative_partsI) simp
qed

text \<open>Of a path that is not rooted, only leading parts are \<open>..\<close> after cleaning.\<close>

lemma clean_parts_relative:
  "relative_parts (rev acc) \<Longrightarrow> \<forall>p \<in> set ps. CHR ''/'' \<notin> set p \<Longrightarrow> relative_parts (clean_parts False acc ps)"
proof (induction ps arbitrary: acc)
  case (Cons q qs)
  consider "q = [] \<or> q = ''.''" | (up) "q = ''..''" | (plain) "plain_part q"
    using Cons.prems(2) by (auto simp: plain_part_def)
  then show ?case
  proof cases
    case up
    show ?thesis
    proof (cases acc)
      case Nil
      have "relative_parts [''..'']"
        by (rule relative_partsI [of _ 1 "[]"]) simp_all
      then show ?thesis
        using Cons.IH [of "[''..'']"] Cons.prems(2) up Nil by simp
    next
      case acc: (Cons a as)
      show ?thesis
      proof (cases "a = ''..''")
        case True
        then show ?thesis
          using Cons.IH [of "''..'' # acc"] Cons.prems up acc relative_up [of "rev as"] by simp
      next
        case False
        have "relative_parts (rev as)"
          using relative_butlast [OF Cons.prems(1)] by (simp add: acc butlast_append)
        then show ?thesis
          using Cons.IH [of as] Cons.prems(2) up acc False by simp
      qed
    qed
  next
    case plain
    then have "q \<noteq> [] \<and> q \<noteq> ''.'' \<and> q \<noteq> ''..''"
      by (simp add: plain_part_def)
    then show ?thesis
      using Cons.IH [of "q # acc"] Cons.prems relative_snoc [OF Cons.prems(1) plain] by simp
  qed (use Cons in auto)
qed simp

lemma relative_leads: "relative_parts ps \<Longrightarrow> ''..'' \<in> set ps \<Longrightarrow> \<exists>qs. ps = ''..'' # qs"
proof -
  assume rel: "relative_parts ps" and up: "''..'' \<in> set ps"
  obtain k qs where k: "ps = replicate k ''..'' @ qs" "\<forall>q \<in> set qs. plain_part q"
    using rel by (auto simp: relative_parts_def)
  have "''..'' \<notin> set qs"
    using k(2) by (auto simp: plain_part_def)
  then have "k \<noteq> 0"
    using k(1) up by auto
  then show ?thesis
    using k(1) by (cases k) auto
qed

lemma relative_each: "relative_parts ps \<Longrightarrow> q \<in> set ps \<Longrightarrow> q = ''..'' \<or> plain_part q"
  unfolding relative_parts_def by (elim exE conjE) (metis Un_iff in_set_replicate set_append)

lemma relative_named: "relative_parts ps \<Longrightarrow> q \<in> set ps \<Longrightarrow> q \<noteq> [] \<and> CHR ''/'' \<notin> set q"
  by (drule (1) relative_each) (auto simp: plain_part_def)

lemma Join_butlast: "ps \<noteq> [] \<Longrightarrow> Join ps sep = (if butlast ps = [] then last ps else Join (butlast ps) sep @ sep @ last ps)"
  by (induction ps rule: induct_list012) auto

lemma relative_rooted: "relative_parts ps \<Longrightarrow> \<not> is_rooted (Join ps ''/'')"
proof (cases ps)
  case (Cons p qs)
  assume "relative_parts ps"
  then obtain c cs where "p = c # cs" "c \<noteq> CHR ''/''"
    using relative_named [of ps p] Cons by (cases p) auto
  then show ?thesis
    using Cons by (cases qs) (simp_all add: is_rooted_def)
qed (simp add: is_rooted_def)

lemma relative_Dir:
  assumes rel: "relative_parts ps" "ps \<noteq> []"
  shows "path_Dir (Join ps ''/'') = (if butlast ps = [] then ''.'' else Join (butlast ps) ''/'')" "path_Base (Join ps ''/'') = last ps"
proof -
  have split: "Split (Join ps ''/'') (CHR ''/'') = ps"
    using relative_named [OF rel(1)] rel(2) by (intro Split_Join) auto
  have named: "Join ps ''/'' \<noteq> []" "filter (\<lambda>p. p \<noteq> []) ps = ps"
    using relative_named [OF rel(1)] rel(2) Join_neq_Nil [of ps] by (auto simp: filter_id_conv)
  show "path_Base (Join ps ''/'') = last ps"
    unfolding path_Base_def split named(2) using named(1) rel(2) by (simp split: list.split)
  have l: "CHR ''/'' \<notin> set (last ps)"
    using relative_named [OF rel(1)] rel(2) by simp
  show "path_Dir (Join ps ''/'') = (if butlast ps = [] then ''.'' else Join (butlast ps) ''/'')"
  proof (cases "butlast ps = []")
    case True
    have "dropWhile (\<lambda>c. c \<noteq> CHR ''/'') (rev (last ps)) = []"
      using l by (auto simp: dropWhile_eq_Nil_conv)
    moreover have "path_Clean [] = ''.''"
      by code_simp
    moreover have "Join ps ''/'' = last ps"
      using True Join_butlast [OF rel(2)] by simp
    ultimately show ?thesis
      using True unfolding path_Dir_def by (metis rev.simps(1))
  next
    case False
    let ?b = "Join (butlast ps) ''/''"
    have "rev (dropWhile (\<lambda>c. c \<noteq> CHR ''/'') (rev (Join ps ''/''))) = ?b @ ''/''"
      using l False by (simp add: Join_butlast [OF rel(2)] dropWhile_append)
    moreover have "?b \<noteq> []"
      using False relative_named [OF relative_butlast [OF rel(1)]] by (intro Join_neq_Nil) auto
    then have nr: "\<not> is_rooted (?b @ ''/'')"
      using relative_rooted [OF relative_butlast [OF rel(1)]] by (cases "?b") (auto simp: is_rooted_def)
    moreover have "path_parts (?b @ ''/'') = butlast ps"
    proof -
      have "Split (?b @ ''/'') (CHR ''/'') = butlast ps @ [[]]"
        using relative_named [OF relative_butlast [OF rel(1)]] False by (simp add: Split_snoc Split_Join)
      moreover have "clean_parts r acc (xs @ [[]]) = clean_parts r acc xs" for r acc xs
        by (induction r acc xs rule: clean_parts.induct) (auto split: list.splits)
      ultimately show ?thesis
        using clean_relative [OF relative_butlast [OF rel(1)]] nr by (simp add: path_parts_def)
    qed
    ultimately show ?thesis
      using False by (simp add: path_Dir_def path_Clean_def)
  qed
qed

lemma relative_dot: "relative_parts ps \<Longrightarrow> Join ps ''/'' \<noteq> ''.''"
proof
  assume rel: "relative_parts ps" and dot: "Join ps ''/'' = ''.''"
  then have "ps \<noteq> []"
    by auto
  then have "Split (Join ps ''/'') (CHR ''/'') = ps"
    using relative_named [OF rel] by (intro Split_Join) auto
  then have "ps = [''.'']"
    by (simp add: dot)
  then have "''.'' \<in> set ps"
    by simp
  then show False
    using relative_each [OF rel] by (auto simp: plain_part_def)
qed

lemma rel_parts_up: "rel_parts bs ts = Some (''..'' # ps) \<Longrightarrow> ''..'' \<notin> set ps \<Longrightarrow> ''..'' \<notin> set ts \<Longrightarrow> bs \<noteq> [] \<and> ts = butlast bs @ ps"
proof (induction bs ts rule: rel_parts.induct)
  case (1 b bs t ts)
  show ?case
  proof (cases "b = t")
    case True
    then show ?thesis
      using 1 by simp
  next
    case False
    then have "replicate (length bs) ''..'' @ t # ts = ps"
      using 1 by (simp split: if_splits)
    then have "''..'' \<notin> set (replicate (length bs) ''..'')"
      using 1(3) by auto
    then have "bs = []"
      by simp
    then show ?thesis
      using \<open>_ = ps\<close> by simp
  qed
next
  case (3 b bs)
  then have ps: "ps = replicate (length bs) ''..''"
    by (simp split: if_splits)
  have "''..'' \<notin> set (replicate (length bs) ''..'')"
    using 3(2) unfolding ps .
  then have "bs = []"
    by simp
  then show ?case
    using 3 by (simp split: if_splits)
qed simp

lemma path_Join_below:
  assumes "is_rooted home" "plain_part su" "plain_part web"
  shows "is_rooted (path_Join [home, su, web])" "path_parts (path_Join [home, su, web]) = path_parts home @ [su, web]"
proof -
  obtain r where home: "home = CHR ''/'' # r"
    using assms(1) by (cases home) (auto simp: is_rooted_def)
  have "path_Join [home, su, web] = path_Clean ((home @ ''/'' @ su) @ ''/'' @ web)"
    by (simp add: path_Join_def home)
  moreover have rooted: "is_rooted ((home @ ''/'' @ su) @ ''/'' @ web)" "is_rooted (home @ ''/'' @ su)"
    by (simp_all add: home is_rooted_def)
  moreover have "path_parts ((home @ ''/'' @ su) @ ''/'' @ web) = path_parts home @ [su, web]"
    using path_parts_join [OF rooted(2) assms(3)] path_parts_join [OF assms(1,2)] by simp
  ultimately show "is_rooted (path_Join [home, su, web])" "path_parts (path_Join [home, su, web]) = path_parts home @ [su, web]"
    using path_Clean_rooted [OF rooted(1)] by simp_all
qed

end
