(* ===== verification/Backups.thy ===== *)
theory Backups
  imports Tasks Certificates Paths
begin

text \<open>
  Backups as the panel sees them: \<open>internal/backups/service.go\<close>, \<open>internal/backupfmt\<close> and
  \<open>store/sqlite/backups.go\<close>.  A plan is run on request or by its schedule; a run is a job whose
  handler exports the account's metadata, lets the agent write the artifact, records it and deletes
  what the retention of the plan no longer covers.  A restore hands the artifact back to the agent
  and, where asked, writes the exported metadata into the tables again.  Archives are the agent's
  (theory \<open>LocalBackup\<close>), here a parameter.
\<close>

interpretation plan_table: table backup_plans "\<lambda>rs s. s\<lparr>backup_plans := rs\<rparr>" pln_id
  by unfold_locales auto

interpretation run_table: table backup_runs "\<lambda>rs s. s\<lparr>backup_runs := rs\<rparr>" run_id
  by unfold_locales auto

interpretation artifact_table: table artifacts "\<lambda>rs s. s\<lparr>artifacts := rs\<rparr>" art_id
  by unfold_locales auto

section \<open>The exchange format\<close>

definition backupfmt_Version :: int where "backupfmt_Version = 4"

definition backupfmt_ValidateScope :: "manifest \<Rightarrow> bool \<Rightarrow> bool \<Rightarrow> bool \<Rightarrow> err + unit" where
  "backupfmt_ValidateScope m files dbs meta =
     (if \<not> files \<and> \<not> dbs \<and> \<not> meta then Inl (ValidationErr ''scope'' ''Select at least one restore scope'')
      else if files \<and> \<not> man_files m \<or> dbs \<and> \<not> man_databases m \<or> meta \<and> \<not> man_metadata m
      then Inl (ValidationErr ''scope'' ''The selected content is not present in this backup'')
      else Inr ())"

record meta_domain =
  mdo_id :: ident
  mdo_hostname :: string
  mdo_kind :: domain_kind
  mdo_enabled :: bool

record meta_website =
  mwe_id :: ident
  mwe_node :: ident
  mwe_name :: string
  mwe_kind :: string
  mwe_document_root :: string
  mwe_web_driver :: string
  mwe_runtime_driver :: string
  mwe_runtime_version :: string
  mwe_enabled :: bool
  mwe_domains :: "meta_domain list"

record meta_database =
  mdb_id :: ident
  mdb_node :: ident
  mdb_name :: string
  mdb_system_name :: string
  mdb_driver :: string

record meta_task =
  mta_kind :: string
  mta_id :: ident
  mta_node :: ident
  mta_name :: string
  mta_schedule :: string
  mta_command :: string
  mta_driver :: string
  mta_enabled :: bool

record metadata =
  met_version :: int
  met_account :: ident
  met_websites :: "meta_website list"
  met_databases :: "meta_database list"
  met_tasks :: "meta_task list"

section \<open>Store operations: plans\<close>

definition store_BackupPlans :: "ident \<Rightarrow> bool \<Rightarrow> db \<Rightarrow> backup_plan list" where
  "store_BackupPlans u admin s =
     order_asc pln_created (filter (\<lambda>p. joined_member u admin s (pln_account p)) (backup_plans s))"

definition store_BackupPlanPage :: "ident \<Rightarrow> bool \<Rightarrow> query \<Rightarrow> db \<Rightarrow> backup_plan result" where
  "store_BackupPlanPage u admin q s = store_page (store_BackupPlans u admin s) q"

definition store_BackupPlan :: "ident \<Rightarrow> db \<Rightarrow> err + backup_plan" where
  "store_BackupPlan i s = some_or ErrNoRows (find_by pln_id i (backup_plans s))"

definition insert_plan :: "backup_plan \<Rightarrow> db \<Rightarrow> err + (backup_plan \<times> db)" where
  "insert_plan p s =
     (let row = p\<lparr>pln_last_run := None\<rparr> in
      if pln_retention p < 1 \<or> 100 < pln_retention p then Inl CheckViolation
      else if exists_by pln_id (pln_id p) (backup_plans s) then Inl UniqueViolation
      else if \<not> exists_by acc_id (pln_account p) (accounts s) \<or> \<not> exists_by nod_id (pln_node p) (nodes s)
      then Inl ForeignKeyViolation
      else Inr (row, s\<lparr>backup_plans := backup_plans s @ [row]\<rparr>))"

definition store_CreateBackupPlan :: "backup_plan \<Rightarrow> db \<Rightarrow> err + (backup_plan \<times> db)" where
  "store_CreateBackupPlan p s =
     andthen (requireCapacity BackupPlans (pln_account p) s) (\<lambda>_.
     andthen (requireRetention (pln_account p) (pln_retention p) 0 s) (\<lambda>_.
     insert_plan p s))"

definition plan_row :: "backup_plan \<Rightarrow> backup_plan \<Rightarrow> backup_plan" where
  "plan_row p r = r\<lparr>pln_name := pln_name p, pln_schedule := pln_schedule p, pln_retention := pln_retention p,
     pln_files := pln_files p, pln_databases := pln_databases p, pln_driver := pln_driver p,
     pln_enabled := pln_enabled p, pln_next_run := pln_next_run p, pln_updated := pln_updated p\<rparr>"

definition store_UpdateBackupPlan :: "backup_plan \<Rightarrow> int \<Rightarrow> db \<Rightarrow> err + (backup_plan \<times> db)" where
  "store_UpdateBackupPlan p current s =
     andthen (requireRetention (pln_account p) (pln_retention p) current s) (\<lambda>_.
     andthen (some_or ErrNoRows (find_by pln_id (pln_id p) (backup_plans s))) (\<lambda>r.
     if pln_retention p < 1 \<or> 100 < pln_retention p then Inl CheckViolation
     else Inr (plan_row p r, s\<lparr>backup_plans := update_by pln_id (pln_id p) (plan_row p) (backup_plans s)\<rparr>)))"

definition store_DeleteBackupPlan :: "ident \<Rightarrow> db \<Rightarrow> db" where
  "store_DeleteBackupPlan i s =
     s\<lparr>backup_plans := delete_by pln_id i (backup_plans s),
       backup_runs := (if exists_by pln_id i (backup_plans s) then map (detach_plans {i}) (backup_runs s)
         else backup_runs s)\<rparr>"

definition plan_due :: "msec \<Rightarrow> backup_plan \<Rightarrow> bool" where
  "plan_due now p \<longleftrightarrow> pln_enabled p \<and> pln_schedule p \<noteq> [] \<and>
     (case pln_next_run p of None \<Rightarrow> False | Some t \<Rightarrow> t \<le> now)"

definition store_DueBackupPlans :: "msec \<Rightarrow> db \<Rightarrow> backup_plan list" where
  "store_DueBackupPlans now s =
     order_asc (\<lambda>p. case pln_next_run p of None \<Rightarrow> 0 | Some t \<Rightarrow> t) (filter (plan_due now) (backup_plans s))"

section \<open>Store operations: runs and artifacts\<close>

text \<open>The unique index on active runs, and \<open>BackupRunPending\<close>, see runs of one plan only.\<close>

definition active_run :: "ident \<Rightarrow> backup_run \<Rightarrow> bool" where
  "active_run p r \<longleftrightarrow> p \<noteq> [] \<and> run_plan r = p \<and> (run_status r = Queued \<or> run_status r = Running)"

definition store_BackupRunPending :: "ident \<Rightarrow> db \<Rightarrow> bool" where
  "store_BackupRunPending p s \<longleftrightarrow> list_ex (active_run p) (backup_runs s)"

definition insert_run :: "backup_run \<Rightarrow> db \<Rightarrow> err + (backup_run \<times> db)" where
  "insert_run r s =
     (let row = r\<lparr>run_status := Queued, run_error := [], run_started := None, run_finished := None\<rparr> in
      if exists_by run_id (run_id r) (backup_runs s) \<or> store_BackupRunPending (run_plan r) s then Inl UniqueViolation
      else if (run_plan r \<noteq> [] \<and> \<not> exists_by pln_id (run_plan r) (backup_plans s)) \<or>
        \<not> exists_by acc_id (run_account r) (accounts s) \<or> \<not> exists_by nod_id (run_node r) (nodes s)
      then Inl ForeignKeyViolation
      else Inr (row, s\<lparr>backup_runs := backup_runs s @ [row]\<rparr>))"

definition mark_plan :: "msec \<Rightarrow> msec option \<Rightarrow> backup_plan \<Rightarrow> backup_plan" where
  "mark_plan now nxt p = p\<lparr>pln_last_run := Some now, pln_next_run := nxt, pln_updated := now\<rparr>"

definition store_QueueBackupRun ::
  "backup_run \<Rightarrow> job \<Rightarrow> msec option \<Rightarrow> db \<Rightarrow> err + ((backup_run \<times> job) \<times> db)" where
  "store_QueueBackupRun r j nxt s =
     andthen (insert_run r s) (\<lambda>(row, s1).
     andthen (createJob j (s1\<lparr>backup_plans :=
       update_by pln_id (run_plan r) (mark_plan (run_created r) nxt) (backup_plans s1)\<rparr>)) (\<lambda>(j', s2).
     Inr ((row, j'), s2)))"

definition coalesce_time :: "msec option \<Rightarrow> msec option \<Rightarrow> msec option" where
  "coalesce_time a b = (case a of None \<Rightarrow> b | Some t \<Rightarrow> Some t)"

definition run_row :: "status \<Rightarrow> string \<Rightarrow> msec option \<Rightarrow> msec option \<Rightarrow> backup_run \<Rightarrow> backup_run" where
  "run_row st msg started finished r = r\<lparr>run_status := st, run_error := msg,
     run_started := coalesce_time started (run_started r), run_finished := coalesce_time finished (run_finished r)\<rparr>"

text \<open>An active status must keep the index on active runs.\<close>

definition store_SetBackupRun ::
  "ident \<Rightarrow> status \<Rightarrow> string \<Rightarrow> msec option \<Rightarrow> msec option \<Rightarrow> db \<Rightarrow> err + db" where
  "store_SetBackupRun i st msg started finished s =
     (if (st = Queued \<or> st = Running) \<and>
        list_ex (\<lambda>r. run_id r = i \<and> list_ex (\<lambda>o'. run_id o' \<noteq> i \<and> active_run (run_plan r) o') (backup_runs s)) (backup_runs s)
      then Inl UniqueViolation
      else Inr (s\<lparr>backup_runs := update_by run_id i (run_row st msg started finished) (backup_runs s)\<rparr>))"

definition insert_artifact :: "artifact \<Rightarrow> db \<Rightarrow> err + (artifact \<times> db)" where
  "insert_artifact a s =
     (if art_size a < 0 then Inl CheckViolation
      else if exists_by art_id (art_id a) (artifacts s) \<or> exists_by art_run (art_run a) (artifacts s) \<or>
        exists_by art_path (art_path a) (artifacts s) then Inl UniqueViolation
      else if \<not> exists_by run_id (art_run a) (backup_runs s) \<or> \<not> exists_by acc_id (art_account a) (accounts s) \<or>
        \<not> exists_by nod_id (art_node a) (nodes s) then Inl ForeignKeyViolation
      else Inr (a, s\<lparr>artifacts := artifacts s @ [a]\<rparr>))"

definition store_CompleteBackup :: "backup_run \<Rightarrow> artifact \<Rightarrow> msec \<Rightarrow> db \<Rightarrow> err + (artifact \<times> db)" where
  "store_CompleteBackup r a now s =
     andthen (insert_artifact a s) (\<lambda>(a', s1).
     andthen (store_SetBackupRun (run_id r) Succeeded [] None (Some now) s1) (\<lambda>s2. Inr (a', s2)))"

definition store_BackupRuns :: "ident \<Rightarrow> bool \<Rightarrow> db \<Rightarrow> backup_run list" where
  "store_BackupRuns u admin s =
     order_desc run_created (filter (\<lambda>r. joined_member u admin s (run_account r)) (backup_runs s))"

definition store_BackupRunPage :: "ident \<Rightarrow> bool \<Rightarrow> query \<Rightarrow> db \<Rightarrow> backup_run result" where
  "store_BackupRunPage u admin q s = store_page (store_BackupRuns u admin s) q"

definition store_BackupArtifact :: "ident \<Rightarrow> db \<Rightarrow> err + artifact" where
  "store_BackupArtifact i s = some_or ErrNoRows (find_by art_id i (artifacts s))"

definition store_BackupArtifacts :: "ident \<Rightarrow> bool \<Rightarrow> db \<Rightarrow> artifact list" where
  "store_BackupArtifacts u admin s =
     order_desc art_created (filter (\<lambda>a. joined_member u admin s (art_account a)) (artifacts s))"

definition store_BackupArtifactPage :: "ident \<Rightarrow> bool \<Rightarrow> query \<Rightarrow> db \<Rightarrow> artifact result" where
  "store_BackupArtifactPage u admin q s = store_page (store_BackupArtifacts u admin s) q"

definition run_of_plan :: "ident \<Rightarrow> db \<Rightarrow> artifact \<Rightarrow> bool" where
  "run_of_plan p s a \<longleftrightarrow> list_ex (\<lambda>r. run_id r = art_run a \<and> p \<noteq> [] \<and> run_plan r = p) (backup_runs s)"

definition store_ExpiredBackupArtifacts :: "ident \<Rightarrow> int \<Rightarrow> db \<Rightarrow> artifact list" where
  "store_ExpiredBackupArtifacts p keep s =
     drop (nat keep) (order_desc art_created (filter (run_of_plan p s) (artifacts s)))"

definition store_DeleteBackupArtifact :: "ident \<Rightarrow> db \<Rightarrow> db" where
  "store_DeleteBackupArtifact i s = s\<lparr>artifacts := delete_by art_id i (artifacts s)\<rparr>"

section \<open>Store operations: restored metadata\<close>

definition restored_status :: "bool \<Rightarrow> status" where
  "restored_status enabled = (if enabled then Active else Disabled)"

definition restored_website :: "meta_website \<Rightarrow> msec \<Rightarrow> website \<Rightarrow> website" where
  "restored_website w now r = r\<lparr>web_name := mwe_name w, web_kind := mwe_kind w, web_document_root := mwe_document_root w,
     web_web_driver := mwe_web_driver w, web_runtime_driver := mwe_runtime_driver w,
     web_runtime_version := mwe_runtime_version w, web_status := restored_status (mwe_enabled w),
     web_enabled := mwe_enabled w, web_updated := now\<rparr>"

definition upsert_website :: "meta_website \<Rightarrow> ident \<Rightarrow> msec \<Rightarrow> db \<Rightarrow> err + db" where
  "upsert_website w a now s =
     (if exists_by web_id (mwe_id w) (websites s)
      then Inr (s\<lparr>websites := update_by web_id (mwe_id w) (restored_website w now) (websites s)\<rparr>)
      else if \<not> exists_by acc_id a (accounts s) \<or> \<not> exists_by nod_id (mwe_node w) (nodes s) then Inl ForeignKeyViolation
      else Inr (s\<lparr>websites := websites s @ [\<lparr>web_id = mwe_id w, web_account = a, web_node = mwe_node w,
        web_name = mwe_name w, web_kind = mwe_kind w, web_document_root = mwe_document_root w,
        web_web_driver = mwe_web_driver w, web_runtime_driver = mwe_runtime_driver w,
        web_runtime_version = mwe_runtime_version w, web_status = restored_status (mwe_enabled w),
        web_enabled = mwe_enabled w, web_created = now, web_updated = now\<rparr>]\<rparr>))"

definition restored_domain :: "meta_domain \<Rightarrow> msec \<Rightarrow> domain \<Rightarrow> domain" where
  "restored_domain d now r = r\<lparr>dom_hostname := mdo_hostname d, dom_kind := mdo_kind d,
     dom_status := restored_status (mdo_enabled d), dom_enabled := mdo_enabled d, dom_updated := now\<rparr>"

definition upsert_domain :: "meta_domain \<Rightarrow> ident \<Rightarrow> msec \<Rightarrow> db \<Rightarrow> err + db" where
  "upsert_domain d w now s =
     (if list_ex (\<lambda>r. dom_id r \<noteq> mdo_id d \<and> nocase (dom_hostname r) = nocase (mdo_hostname d)) (domains s) \<or>
        (mdo_kind d = Primary \<and> list_ex (\<lambda>r. dom_id r \<noteq> mdo_id d \<and> dom_website r = w \<and> dom_kind r = Primary) (domains s))
      then Inl UniqueViolation
      else if exists_by dom_id (mdo_id d) (domains s)
      then Inr (s\<lparr>domains := update_by dom_id (mdo_id d) (restored_domain d now) (domains s)\<rparr>)
      else if \<not> exists_by web_id w (websites s) then Inl ForeignKeyViolation
      else Inr (s\<lparr>domains := domains s @ [\<lparr>dom_id = mdo_id d, dom_website = w, dom_hostname = mdo_hostname d,
        dom_kind = mdo_kind d, dom_status = restored_status (mdo_enabled d), dom_enabled = mdo_enabled d,
        dom_previous = [], dom_created = now, dom_updated = now\<rparr>]\<rparr>))"

definition restored_database :: "meta_database \<Rightarrow> msec \<Rightarrow> database \<Rightarrow> database" where
  "restored_database d now r = r\<lparr>dba_name := mdb_name d, dba_system_name := mdb_system_name d,
     dba_driver := mdb_driver d, dba_status := Active, dba_updated := now\<rparr>"

definition upsert_database :: "meta_database \<Rightarrow> ident \<Rightarrow> msec \<Rightarrow> db \<Rightarrow> err + db" where
  "upsert_database d a now s =
     (if list_ex (\<lambda>r. dba_id r \<noteq> mdb_id d \<and> dba_system_name r = mdb_system_name d) (databases s) \<or>
        list_ex (\<lambda>r. dba_id r \<noteq> mdb_id d \<and> dba_account r = a \<and> nocase (dba_name r) = nocase (mdb_name d)) (databases s)
      then Inl UniqueViolation
      else if exists_by dba_id (mdb_id d) (databases s)
      then Inr (s\<lparr>databases := update_by dba_id (mdb_id d) (restored_database d now) (databases s)\<rparr>)
      else if \<not> exists_by acc_id a (accounts s) \<or> \<not> exists_by nod_id (mdb_node d) (nodes s) then Inl ForeignKeyViolation
      else Inr (s\<lparr>databases := databases s @ [\<lparr>dba_id = mdb_id d, dba_account = a, dba_node = mdb_node d,
        dba_name = mdb_name d, dba_system_name = mdb_system_name d, dba_driver = mdb_driver d, dba_status = Active,
        dba_created = now, dba_updated = now\<rparr>]\<rparr>))"

definition restored_task :: "meta_task \<Rightarrow> msec \<Rightarrow> task \<Rightarrow> task" where
  "restored_task t now r = r\<lparr>tsk_name := mta_name t, tsk_schedule := mta_schedule t, tsk_command := mta_command t,
     tsk_driver := mta_driver t, tsk_kind := mta_kind t, tsk_enabled := mta_enabled t,
     tsk_status := restored_status (mta_enabled t), tsk_updated := now\<rparr>"

definition upsert_task :: "meta_task \<Rightarrow> ident \<Rightarrow> msec \<Rightarrow> db \<Rightarrow> err + db" where
  "upsert_task t a now s =
     (if exists_by tsk_id (mta_id t) (tasks s)
      then Inr (s\<lparr>tasks := update_by tsk_id (mta_id t) (restored_task t now) (tasks s)\<rparr>)
      else if \<not> exists_by acc_id a (accounts s) \<or> \<not> exists_by nod_id (mta_node t) (nodes s) then Inl ForeignKeyViolation
      else Inr (s\<lparr>tasks := tasks s @ [\<lparr>tsk_id = mta_id t, tsk_account = a, tsk_node = mta_node t, tsk_name = mta_name t,
        tsk_schedule = mta_schedule t, tsk_command = mta_command t, tsk_driver = mta_driver t, tsk_kind = mta_kind t,
        tsk_enabled = mta_enabled t, tsk_status = restored_status (mta_enabled t), tsk_created = now, tsk_updated = now\<rparr>]\<rparr>))"

text \<open>\<open>RestoreMetadata\<close> is one transaction; its loops, in their order.\<close>

definition services_Local :: string where "services_Local = ''local''"

definition restore_root_ok :: "account \<Rightarrow> meta_website \<Rightarrow> bool" where
  "restore_root_ok a w \<longleftrightarrow>
     (case path_Rel (path_Join [''/home'', acc_system_user a, ''web'']) (path_Clean (mwe_document_root w)) of
        None \<Rightarrow> False
      | Some r \<Rightarrow> \<not> is_rooted r \<and>
          (case Split r (CHR ''/'') of
            [p, q] \<Rightarrow> p \<noteq> [] \<and> p \<noteq> ''..'' \<and> q = ''public_html''
          | _ \<Rightarrow> False))"

definition restore_website_ok :: "account \<Rightarrow> meta_website \<Rightarrow> bool" where
  "restore_website_ok a w \<longleftrightarrow> idPattern (mwe_id w) \<and> acc_node a \<noteq> [] \<and> mwe_node w = acc_node a \<and>
     mwe_kind w = ''php'' \<and> mwe_web_driver w = ''nginx'' \<and> mwe_runtime_driver w = ''phpfpm'' \<and>
     mwe_runtime_version w = ''8.3'' \<and> succeeds (validate_ResourceName (mwe_name w))"

definition owned_or_new :: "resource \<Rightarrow> ident \<Rightarrow> ident option \<Rightarrow> string \<Rightarrow> db \<Rightarrow> err + unit" where
  "owned_or_new k a current msg s =
     (case current of
        None \<Rightarrow> requireCapacity k a s
      | Some owner \<Rightarrow> fail_when (owner \<noteq> a) (Plain msg))"

definition restore_domain_ok :: "ext \<Rightarrow> meta_domain \<Rightarrow> bool" where
  "restore_domain_ok x d \<longleftrightarrow> idPattern (mdo_id d) \<and> validate_Domain x (mdo_hostname d) = Inr (mdo_hostname d) \<and>
     (mdo_kind d = Primary \<or> mdo_kind d = Alias)"

fun restore_domains :: "ext \<Rightarrow> ident \<Rightarrow> ident \<Rightarrow> msec \<Rightarrow> meta_domain list \<Rightarrow> nat \<Rightarrow> db \<Rightarrow> err + (nat \<times> db)" where
  "restore_domains x a w now [] n s = Inr (n, s)"
| "restore_domains x a w now (d # ds) n s =
     andthen (fail_when (\<not> restore_domain_ok x d) (Plain ''restored website domain metadata is invalid'')) (\<lambda>_.
     andthen (case find_by dom_id (mdo_id d) (domains s) of
         None \<Rightarrow> requireCapacity (if mdo_kind d = Primary then Domains else Aliases) a s
       | Some r \<Rightarrow> fail_when (dom_website r \<noteq> w) (Plain ''restored domain belongs to another website'')) (\<lambda>_.
     andthen (upsert_domain d w now s) (\<lambda>s'.
     restore_domains x a w now ds (if mdo_kind d = Primary then Suc n else n) s')))"

fun restore_websites :: "ext \<Rightarrow> account \<Rightarrow> msec \<Rightarrow> meta_website list \<Rightarrow> db \<Rightarrow> err + db" where
  "restore_websites x a now [] s = Inr s"
| "restore_websites x a now (w # ws) s =
     andthen (fail_when (\<not> restore_website_ok a w) (Plain ''restored website metadata is invalid'')) (\<lambda>_.
     andthen (fail_when (\<not> restore_root_ok a w) (Plain ''restored website document root is invalid'')) (\<lambda>_.
     andthen (owned_or_new Websites (acc_id a) (map_option web_account (find_by web_id (mwe_id w) (websites s)))
       ''restored website belongs to another account'' s) (\<lambda>_.
     andthen (upsert_website w (acc_id a) now s) (\<lambda>s1.
     andthen (restore_domains x (acc_id a) (mwe_id w) now (mwe_domains w) 0 s1) (\<lambda>(n, s2).
     andthen (fail_when (n \<noteq> 1) (Plain ''restored website must have one primary domain'')) (\<lambda>_.
     restore_websites x a now ws s2))))))"

definition restore_database_ok :: "ext \<Rightarrow> account \<Rightarrow> meta_database \<Rightarrow> bool" where
  "restore_database_ok x a d \<longleftrightarrow> idPattern (mdb_id d) \<and> acc_node a \<noteq> [] \<and> mdb_node d = acc_node a \<and>
     validate_DatabaseName x (mdb_name d) = Inr (mdb_name d) \<and>
     succeeds (validate_DatabaseSystemName (mdb_system_name d)) \<and> mdb_driver d = MySQL"

fun restore_databases :: "ext \<Rightarrow> account \<Rightarrow> msec \<Rightarrow> meta_database list \<Rightarrow> db \<Rightarrow> err + db" where
  "restore_databases x a now [] s = Inr s"
| "restore_databases x a now (d # ds) s =
     andthen (fail_when (\<not> restore_database_ok x a d) (Plain ''restored database metadata is invalid'')) (\<lambda>_.
     andthen (owned_or_new Databases (acc_id a) (map_option dba_account (find_by dba_id (mdb_id d) (databases s)))
       ''restored database belongs to another account'' s) (\<lambda>_.
     andthen (upsert_database d (acc_id a) now s) (\<lambda>s'.
     restore_databases x a now ds s')))"

definition restore_task_check :: "ext \<Rightarrow> account \<Rightarrow> meta_task \<Rightarrow> err + unit" where
  "restore_task_check x a t =
     andthen (fail_when (\<not> (idPattern (mta_id t) \<and> acc_node a \<noteq> [] \<and> mta_node t = acc_node a \<and>
       mta_driver t = Crontab \<and> mta_kind t = ''command'')) (Plain ''restored scheduled task metadata is invalid'')) (\<lambda>_.
     andthen (validate_ResourceName (mta_name t)) (\<lambda>_.
     andthen (validate_CronSchedule x (mta_schedule t) False) (\<lambda>_.
     andthen (validate_CronCommand (mta_command t)) (\<lambda>_. Inr ()))))"

fun restore_tasks :: "ext \<Rightarrow> account \<Rightarrow> msec \<Rightarrow> meta_task list \<Rightarrow> db \<Rightarrow> err + db" where
  "restore_tasks x a now [] s = Inr s"
| "restore_tasks x a now (t # ts) s =
     andthen (restore_task_check x a t) (\<lambda>_.
     andthen (owned_or_new ScheduledTasks (acc_id a) (map_option tsk_account (find_by tsk_id (mta_id t) (tasks s)))
       ''restored scheduled task belongs to another account'' s) (\<lambda>_.
     andthen (upsert_task t (acc_id a) now s) (\<lambda>s'.
     restore_tasks x a now ts s')))"

definition store_RestoreMetadata :: "ext \<Rightarrow> metadata \<Rightarrow> msec \<Rightarrow> db \<Rightarrow> err + db" where
  "store_RestoreMetadata x m now s =
     andthen (fail_when (met_version m \<noteq> backupfmt_Version \<or> \<not> idPattern (met_account m))
       (Plain ''restored metadata identity is invalid'')) (\<lambda>_.
     andthen (store_Account (met_account m) s) (\<lambda>a.
     andthen (restore_websites x a now (met_websites m) s) (\<lambda>s1.
     andthen (restore_databases x a now (met_databases m) s1) (\<lambda>s2.
     restore_tasks x a now (met_tasks m) s2))))"

section \<open>Service\<close>

type_synonym codec = "(metadata \<Rightarrow> string) \<times> (string \<Rightarrow> metadata option)"

record create_request =
  crr_run :: ident
  crr_account :: ident
  crr_user :: string
  crr_metadata :: string
  crr_files :: bool
  crr_databases :: "string list"

record agent_artifact =
  aar_path :: string
  aar_checksum :: string
  aar_size :: int
  aar_manifest :: manifest

record artifact_request =
  arq_account :: ident
  arq_path :: string
  arq_checksum :: string

record restore_request = artifact_request +
  rrq_user :: string
  rrq_files :: bool
  rrq_databases :: bool
  rrq_metadata :: bool

record backup_agent =
  bag_create :: "string \<Rightarrow> create_request \<Rightarrow> err + agent_artifact"
  bag_preview :: "string \<Rightarrow> artifact_request \<Rightarrow> err + manifest"
  bag_restore :: "string \<Rightarrow> restore_request \<Rightarrow> err + string"
  bag_delete :: "string \<Rightarrow> artifact_request \<Rightarrow> err option"
  bag_website :: website_call

definition backups_activeAccount :: "ident \<Rightarrow> ident \<Rightarrow> bool \<Rightarrow> db \<Rightarrow> err + account" where
  "backups_activeAccount i u admin s =
     andthen (accounts_Account i u admin s) (\<lambda>a.
     andthen (fail_when (\<not> account_ready a) AccErrBusy) (\<lambda>_. Inr a))"

definition backups_plan :: "ident \<Rightarrow> ident \<Rightarrow> bool \<Rightarrow> db \<Rightarrow> err + backup_plan" where
  "backups_plan i u admin s =
     andthen (validate_ID ''backupPlanId'' i) (\<lambda>_.
     andthen (store_BackupPlan i s) (\<lambda>p.
     andthen (accounts_Account (pln_account p) u admin s) (\<lambda>_. Inr p)))"

definition backups_artifact :: "ident \<Rightarrow> ident \<Rightarrow> bool \<Rightarrow> db \<Rightarrow> err + (artifact \<times> account \<times> node)" where
  "backups_artifact i u admin s =
     andthen (validate_ID ''backupArtifactId'' i) (\<lambda>_.
     andthen (store_BackupArtifact i s) (\<lambda>f.
     andthen (accounts_Account (art_account f) u admin s) (\<lambda>a.
     andthen (store_Node (art_node f) s) (\<lambda>n. Inr (f, a, n)))))"

definition backups_preparePlan :: "ext \<Rightarrow> backup_plan \<Rightarrow> err + backup_plan" where
  "backups_preparePlan x p =
     andthen (validate_ResourceName (pln_name p)) (\<lambda>name.
     andthen (validate_CronSchedule x (pln_schedule p) True) (\<lambda>schedule.
     andthen (fail_when (pln_retention p < 1 \<or> 100 < pln_retention p)
       (ValidationErr ''retentionCount'' ''Use a retention between 1 and 100'')) (\<lambda>_.
     andthen (fail_when (pln_driver p \<noteq> services_Local)
       (ValidationErr ''storageDriver'' ''The selected backup driver is not supported'')) (\<lambda>_.
     andthen (fail_when (\<not> pln_files p \<and> \<not> pln_databases p) ErrScope) (\<lambda>_.
     Inr (p\<lparr>pln_name := name, pln_schedule := schedule\<rparr>))))))"

definition backups_nextRun :: "ext \<Rightarrow> string \<Rightarrow> bool \<Rightarrow> msec \<Rightarrow> msec option" where
  "backups_nextRun x schedule enabled now = (if \<not> enabled \<or> schedule = [] then None else ext_cron_next x schedule now)"

definition backups_safeMessage :: "(err \<Rightarrow> string) \<Rightarrow> err \<Rightarrow> string" where
  "backups_safeMessage render e = (if 500 < length (render e) then take 500 (render e) else render e)"

definition backups_Plans :: "ident \<Rightarrow> bool \<Rightarrow> db \<Rightarrow> backup_plan list" where
  "backups_Plans u admin s = store_BackupPlans u admin s"

definition backups_PlanPage :: "ident \<Rightarrow> bool \<Rightarrow> query \<Rightarrow> db \<Rightarrow> backup_plan result" where
  "backups_PlanPage u admin q s = store_BackupPlanPage u admin q s"

definition backups_Runs :: "ident \<Rightarrow> bool \<Rightarrow> db \<Rightarrow> backup_run list" where
  "backups_Runs u admin s = store_BackupRuns u admin s"

definition backups_RunPage :: "ident \<Rightarrow> bool \<Rightarrow> query \<Rightarrow> db \<Rightarrow> backup_run result" where
  "backups_RunPage u admin q s = store_BackupRunPage u admin q s"

definition backups_Artifacts :: "ident \<Rightarrow> bool \<Rightarrow> db \<Rightarrow> artifact list" where
  "backups_Artifacts u admin s = store_BackupArtifacts u admin s"

definition backups_ArtifactPage :: "ident \<Rightarrow> bool \<Rightarrow> query \<Rightarrow> db \<Rightarrow> artifact result" where
  "backups_ArtifactPage u admin q s = store_BackupArtifactPage u admin q s"

definition backups_CreatePlan ::
  "ext \<Rightarrow> backup_plan \<Rightarrow> ident \<Rightarrow> bool \<Rightarrow> ident \<Rightarrow> msec \<Rightarrow> db \<Rightarrow> err + (backup_plan \<times> db)" where
  "backups_CreatePlan x p u admin i now s =
     andthen (backups_activeAccount (pln_account p) u admin s) (\<lambda>a.
     andthen (backups_preparePlan x (p\<lparr>pln_id := i, pln_node := acc_node a\<rparr>)) (\<lambda>v.
     store_CreateBackupPlan (v\<lparr>pln_created := now, pln_updated := now,
       pln_next_run := backups_nextRun x (pln_schedule v) (pln_enabled v) now\<rparr>) s))"

definition backups_UpdatePlan ::
  "ext \<Rightarrow> ident \<Rightarrow> backup_plan \<Rightarrow> ident \<Rightarrow> bool \<Rightarrow> msec \<Rightarrow> db \<Rightarrow> err + (backup_plan \<times> db)" where
  "backups_UpdatePlan x i p u admin now s =
     andthen (backups_plan i u admin s) (\<lambda>current.
     andthen (fail_when (pln_account current \<noteq> pln_account p) AccErrForbidden) (\<lambda>_.
     andthen (backups_preparePlan x (p\<lparr>pln_id := pln_id current, pln_node := pln_node current,
       pln_created := pln_created current, pln_last_run := pln_last_run current\<rparr>)) (\<lambda>v.
     store_UpdateBackupPlan (v\<lparr>pln_updated := now,
       pln_next_run := backups_nextRun x (pln_schedule v) (pln_enabled v) now\<rparr>) (pln_retention current) s)))"

definition backups_DeletePlan :: "ident \<Rightarrow> ident \<Rightarrow> bool \<Rightarrow> db \<Rightarrow> err + db" where
  "backups_DeletePlan i u admin s =
     andthen (backups_plan i u admin s) (\<lambda>p.
     andthen (fail_when (store_BackupRunPending (pln_id p) s) BackupErrBusy) (\<lambda>_.
     Inr (store_DeleteBackupPlan (pln_id p) s)))"

definition run_payload :: "ident \<Rightarrow> payload" where
  "run_payload r = [(''runId'', JStr r)]"

definition backups_queue ::
  "ext \<Rightarrow> backup_plan \<Rightarrow> ident \<Rightarrow> ident \<Rightarrow> ident \<Rightarrow> msec \<Rightarrow> db \<Rightarrow> err + ((backup_run \<times> job) \<times> db)" where
  "backups_queue x p u rid jid now s =
     andthen (fail_when (store_BackupRunPending (pln_id p) s) BackupErrBusy) (\<lambda>_.
     store_QueueBackupRun
       \<lparr>run_id = rid, run_plan = pln_id p, run_account = pln_account p, run_node = pln_node p, run_driver = pln_driver p,
        run_status = Queued, run_error = [], run_created = now, run_started = None, run_finished = None\<rparr>
       (new_job jid (pln_node p) u KindBackupCreate (run_payload rid) 1 now)
       (backups_nextRun x (pln_schedule p) (pln_enabled p) now) s)"

definition backups_Run ::
  "ext \<Rightarrow> ident \<Rightarrow> ident \<Rightarrow> bool \<Rightarrow> ident \<Rightarrow> ident \<Rightarrow> msec \<Rightarrow> db \<Rightarrow> err + ((backup_run \<times> job) \<times> db)" where
  "backups_Run x i u admin rid jid now s =
     andthen (backups_plan i u admin s) (\<lambda>p.
     andthen (backups_activeAccount (pln_account p) u admin s) (\<lambda>_.
     backups_queue x p u rid jid now s))"

text \<open>The minutely loop: a busy plan is skipped, any other error ends the loop.\<close>

fun queue_due_plans ::
  "ext \<Rightarrow> backup_plan list \<Rightarrow> (ident \<times> ident) list \<Rightarrow> msec \<Rightarrow> db \<Rightarrow> err option \<times> db" where
  "queue_due_plans x [] ids now s = (None, s)"
| "queue_due_plans x (p # ps) ids now s =
     (if store_BackupRunPending (pln_id p) s then queue_due_plans x ps ids now s
      else (case ids of
        [] \<Rightarrow> (Some (Plain ''generate ID''), s)
      | (rid, jid) # ids' \<Rightarrow>
          (case backups_queue x p [] rid jid now s of
            Inl e \<Rightarrow> if error_is e BackupErrBusy then queue_due_plans x ps ids' now s else (Some e, s)
          | Inr (_, s') \<Rightarrow> queue_due_plans x ps ids' now s')))"

definition backups_QueueDue :: "ext \<Rightarrow> (ident \<times> ident) list \<Rightarrow> msec \<Rightarrow> db \<Rightarrow> err option \<times> db" where
  "backups_QueueDue x ids now s = queue_due_plans x (store_DueBackupPlans now s) ids now s"

section \<open>Requests on artifacts\<close>

definition unsupported_backup :: "string \<Rightarrow> err" where
  "unsupported_backup driver = Plain (''unsupported backup driver '' @ driver)"

definition artifact_request_of :: "artifact \<Rightarrow> artifact_request" where
  "artifact_request_of f = \<lparr>arq_account = art_account f, arq_path = art_path f, arq_checksum = art_checksum f\<rparr>"

definition backups_DeleteArtifact :: "backup_agent \<Rightarrow> ident \<Rightarrow> ident \<Rightarrow> bool \<Rightarrow> db \<Rightarrow> err option \<times> db" where
  "backups_DeleteArtifact ag i u admin s =
     (case backups_artifact i u admin s of
        Inl e \<Rightarrow> (Some e, s)
      | Inr (f, _, n) \<Rightarrow>
          if art_driver f \<noteq> services_Local then (Some (unsupported_backup (art_driver f)), s)
          else (case bag_delete ag (nod_endpoint n) (artifact_request_of f) of
            Some e \<Rightarrow> (Some e, s)
          | None \<Rightarrow> (None, store_DeleteBackupArtifact (art_id f) s)))"

definition backups_Preview :: "backup_agent \<Rightarrow> ident \<Rightarrow> ident \<Rightarrow> bool \<Rightarrow> db \<Rightarrow> err + manifest" where
  "backups_Preview ag i u admin s =
     andthen (backups_artifact i u admin s) (\<lambda>(f, _, n).
     andthen (fail_when (art_driver f \<noteq> services_Local) (unsupported_backup (art_driver f))) (\<lambda>_.
     bag_preview ag (nod_endpoint n) (artifact_request_of f)))"

definition restore_payload :: "ident \<Rightarrow> bool \<Rightarrow> bool \<Rightarrow> bool \<Rightarrow> payload" where
  "restore_payload i files dbs meta =
     [(''artifactId'', JStr i), (''scope'', JObj [(''Files'', files), (''Databases'', dbs), (''Metadata'', meta)])]"

definition backups_Restore ::
  "ident \<Rightarrow> ident \<Rightarrow> bool \<Rightarrow> bool \<Rightarrow> bool \<Rightarrow> bool \<Rightarrow> ident \<Rightarrow> msec \<Rightarrow> db \<Rightarrow> err + (job \<times> db)" where
  "backups_Restore i u admin files dbs meta jid now s =
     andthen (backups_artifact i u admin s) (\<lambda>(f, _, _).
     andthen (backupfmt_ValidateScope (art_manifest f) files dbs meta) (\<lambda>_.
     store_CreateJob (new_job jid (art_node f) u KindBackupRestore (restore_payload (art_id f) files dbs meta) 1 now) s))"

section \<open>Exported metadata\<close>

definition meta_domain_of :: "domain \<Rightarrow> meta_domain" where
  "meta_domain_of d = \<lparr>mdo_id = dom_id d, mdo_hostname = dom_hostname d, mdo_kind = dom_kind d, mdo_enabled = dom_enabled d\<rparr>"

definition meta_website_of :: "website \<Rightarrow> domain list \<Rightarrow> meta_website" where
  "meta_website_of w ds = \<lparr>mwe_id = web_id w, mwe_node = web_node w, mwe_name = web_name w, mwe_kind = web_kind w,
     mwe_document_root = web_document_root w, mwe_web_driver = web_web_driver w,
     mwe_runtime_driver = web_runtime_driver w, mwe_runtime_version = web_runtime_version w,
     mwe_enabled = web_enabled w, mwe_domains = map meta_domain_of ds\<rparr>"

definition meta_database_of :: "database \<Rightarrow> meta_database" where
  "meta_database_of d = \<lparr>mdb_id = dba_id d, mdb_node = dba_node d, mdb_name = dba_name d,
     mdb_system_name = dba_system_name d, mdb_driver = dba_driver d\<rparr>"

definition meta_task_of :: "task \<Rightarrow> meta_task" where
  "meta_task_of t = \<lparr>mta_kind = tsk_kind t, mta_id = tsk_id t, mta_node = tsk_node t, mta_name = tsk_name t,
     mta_schedule = tsk_schedule t, mta_command = tsk_command t, mta_driver = tsk_driver t, mta_enabled = tsk_enabled t\<rparr>"

fun export_websites :: "website list \<Rightarrow> db \<Rightarrow> err + meta_website list" where
  "export_websites [] s = Inr []"
| "export_websites (w # ws) s =
     andthen (websites_Domains (web_id w) [] True s) (\<lambda>ds.
     andthen (export_websites ws s) (\<lambda>ms. Inr (meta_website_of w ds # ms)))"

definition exported_databases :: "ident \<Rightarrow> db \<Rightarrow> database list" where
  "exported_databases a s = filter (\<lambda>d. dba_account d = a \<and> dba_status d = Active) (databases_Databases [] True s)"

definition backups_metadata :: "ident \<Rightarrow> bool \<Rightarrow> db \<Rightarrow> err + (metadata \<times> string list)" where
  "backups_metadata a include s =
     andthen (export_websites (filter (\<lambda>w. web_account w = a) (websites_Websites [] True s)) s) (\<lambda>ws.
     Inr (\<lparr>met_version = backupfmt_Version, met_account = a, met_websites = ws,
        met_databases = map meta_database_of (exported_databases a s),
        met_tasks = map meta_task_of (filter (\<lambda>t. tsk_account t = a) (tasks_ScheduledTasks [] True s))\<rparr>,
      if include then map dba_system_name (exported_databases a s) else []))"

section \<open>Job handlers\<close>

definition backups_run :: "ident \<Rightarrow> db \<Rightarrow> err + backup_run" where
  "backups_run i s = some_or ErrNoRows (List.find (\<lambda>r. run_id r = i) (store_BackupRuns [] True s))"

definition backups_failRun :: "(err \<Rightarrow> string) \<Rightarrow> ident \<Rightarrow> msec \<Rightarrow> err \<Rightarrow> db \<Rightarrow> err option \<times> db" where
  "backups_failRun render i now e s =
     (Some e, case store_SetBackupRun i Failed (backups_safeMessage render e) None (Some now) s of Inl _ \<Rightarrow> s | Inr s' \<Rightarrow> s')"

fun apply_retention :: "backup_agent \<Rightarrow> string \<Rightarrow> artifact list \<Rightarrow> db \<Rightarrow> err option \<times> db" where
  "apply_retention ag socket [] s = (None, s)"
| "apply_retention ag socket (f # fs) s =
     (if art_driver f \<noteq> services_Local then (Some (unsupported_backup (art_driver f)), s)
      else (case bag_delete ag socket (artifact_request_of f) of
        Some e \<Rightarrow> (Some e, s)
      | None \<Rightarrow> apply_retention ag socket fs (store_DeleteBackupArtifact (art_id f) s)))"

definition backups_applyRetention :: "backup_agent \<Rightarrow> backup_plan \<Rightarrow> string \<Rightarrow> db \<Rightarrow> err option \<times> db" where
  "backups_applyRetention ag p socket s =
     apply_retention ag socket (store_ExpiredBackupArtifacts (pln_id p) (pln_retention p) s) s"

definition create_request_of :: "codec \<Rightarrow> backup_run \<Rightarrow> backup_plan \<Rightarrow> account \<Rightarrow> db \<Rightarrow> err + create_request" where
  "create_request_of c r p a s =
     andthen (backups_metadata (acc_id a) (pln_databases p) s) (\<lambda>(m, names).
     Inr \<lparr>crr_run = run_id r, crr_account = acc_id a, crr_user = acc_system_user a, crr_metadata = fst c m,
       crr_files = pln_files p, crr_databases = names\<rparr>)"

definition artifact_of :: "ident \<Rightarrow> backup_run \<Rightarrow> agent_artifact \<Rightarrow> msec \<Rightarrow> artifact" where
  "artifact_of i r f now = \<lparr>art_id = i, art_run = run_id r, art_account = run_account r, art_node = run_node r,
     art_driver = run_driver r, art_path = aar_path f, art_checksum = aar_checksum f, art_size = aar_size f,
     art_manifest = aar_manifest f, art_created = now\<rparr>"

text \<open>What \<open>Create\<close> gathers before it asks the agent, in its order.\<close>

definition backup_inputs ::
  "codec \<Rightarrow> backup_run \<Rightarrow> db \<Rightarrow> err + (backup_plan \<times> node \<times> create_request)" where
  "backup_inputs c r s =
     andthen (store_BackupPlan (run_plan r) s) (\<lambda>p.
     andthen (accounts_Get (run_account r) s) (\<lambda>a.
     andthen (store_Node (run_node r) s) (\<lambda>n.
     andthen (create_request_of c r p a s) (\<lambda>q. Inr (p, n, q)))))"

definition backups_Create ::
  "codec \<Rightarrow> (err \<Rightarrow> string) \<Rightarrow> backup_agent \<Rightarrow> ident \<Rightarrow> msec \<Rightarrow> job \<Rightarrow> db \<Rightarrow> err option \<times> db" where
  "backups_Create c render ag i now j s =
     (case payload_string ''runId'' (job_payload j) of
        None \<Rightarrow> (Some (Plain ''decode backup job payload''), s)
      | Some rid \<Rightarrow>
     if rid = [] then (Some (Plain ''decode backup job payload''), s)
     else (case backups_run rid s of
        Inl e \<Rightarrow> (Some e, s)
      | Inr r \<Rightarrow>
     if run_driver r \<noteq> services_Local then backups_failRun render (run_id r) now (unsupported_backup (run_driver r)) s
     else (case store_SetBackupRun (run_id r) Running [] (Some now) None s of
        Inl e \<Rightarrow> (Some e, s)
      | Inr s1 \<Rightarrow>
     (case backup_inputs c r s1 of
        Inl e \<Rightarrow> backups_failRun render (run_id r) now e s1
      | Inr (p, n, q) \<Rightarrow>
     (case bag_create ag (nod_endpoint n) q of
        Inl e \<Rightarrow> backups_failRun render (run_id r) now e s1
      | Inr f \<Rightarrow>
     (case store_CompleteBackup r (artifact_of i r f now) now s1 of
        Inl e \<Rightarrow> backups_failRun render (run_id r) now e s1
      | Inr (_, s2) \<Rightarrow> backups_applyRetention ag p (nod_endpoint n) s2))))))"

definition meta_spec :: "account \<Rightarrow> meta_website \<Rightarrow> web_spec" where
  "meta_spec a w = fold (\<lambda>d sp. if \<not> mdo_enabled d then sp
      else if mdo_kind d = Primary then sp\<lparr>wsp_primary := mdo_hostname d\<rparr>
      else sp\<lparr>wsp_aliases := wsp_aliases sp @ [mdo_hostname d]\<rparr>) (mwe_domains w)
     \<lparr>wsp_account = acc_id a, wsp_system_user = acc_system_user a, wsp_website = mwe_id w,
      wsp_document_root = mwe_document_root w, wsp_kind = mwe_kind w, wsp_web_driver = mwe_web_driver w,
      wsp_runtime_driver = mwe_runtime_driver w, wsp_runtime_version = mwe_runtime_version w,
      wsp_primary = [], wsp_aliases = []\<rparr>"

fun reconcile_websites ::
  "(err \<Rightarrow> string) \<Rightarrow> backup_agent \<Rightarrow> cert_agent \<Rightarrow> msec \<Rightarrow> account \<Rightarrow> string \<Rightarrow> meta_website list \<Rightarrow> db \<Rightarrow> err option \<times> db" where
  "reconcile_websites render ag certs now a socket [] s = (None, s)"
| "reconcile_websites render ag certs now a socket (w # ws) s =
     (if \<not> mwe_enabled w then reconcile_websites render ag certs now a socket ws s
      else (case bag_website ag socket (meta_spec a w) of
        Some e \<Rightarrow> (Some (Wrapped ''reconcile restored website'' e), s)
      | None \<Rightarrow>
          (case certificates_ReconcileWebsite render certs now (mwe_id w) s of
            (Some e, s') \<Rightarrow> (Some (Wrapped ''reconcile restored certificate'' e), s')
          | (None, s') \<Rightarrow> reconcile_websites render ag certs now a socket ws s')))"

definition restore_scope :: "payload \<Rightarrow> (bool \<times> bool \<times> bool) option" where
  "restore_scope p =
     (case map_of p ''scope'' of
        None \<Rightarrow> Some (False, False, False)
      | Some (JObj fs) \<Rightarrow>
          (let get = \<lambda>k. (case map_of fs k of None \<Rightarrow> False | Some b \<Rightarrow> b) in
           Some (get ''Files'', get ''Databases'', get ''Metadata''))
      | Some _ \<Rightarrow> None)"

definition restore_metadata_step ::
  "ext \<Rightarrow> codec \<Rightarrow> (err \<Rightarrow> string) \<Rightarrow> backup_agent \<Rightarrow> cert_agent \<Rightarrow> task_agent \<Rightarrow> msec \<Rightarrow> account \<Rightarrow> string \<Rightarrow>
   string \<Rightarrow> db \<Rightarrow> err option \<times> db" where
  "restore_metadata_step x c render ag certs cron now a socket text s =
     (case snd c text of
        None \<Rightarrow> (Some (Plain ''decode restored metadata''), s)
      | Some m \<Rightarrow>
     (case store_RestoreMetadata x m now s of
        Inl e \<Rightarrow> (Some e, s)
      | Inr s1 \<Rightarrow>
     (case tasks_Reconcile cron now (acc_id a) s1 of
        (Some e, s2) \<Rightarrow> (Some (Wrapped ''reconcile restored scheduled tasks'' e), s2)
      | (None, s2) \<Rightarrow> reconcile_websites render ag certs now a socket (met_websites m) s2)))"

definition backups_RestoreJob ::
  "ext \<Rightarrow> codec \<Rightarrow> (err \<Rightarrow> string) \<Rightarrow> backup_agent \<Rightarrow> cert_agent \<Rightarrow> task_agent \<Rightarrow> msec \<Rightarrow> job \<Rightarrow> db \<Rightarrow> err option \<times> db" where
  "backups_RestoreJob x c render ag certs cron now j s =
     (case (payload_string ''artifactId'' (job_payload j), restore_scope (job_payload j)) of
        (Some i, Some (files, dbs, meta)) \<Rightarrow>
     if i = [] then (Some (Plain ''decode restore job payload''), s)
     else (case store_BackupArtifact i s of
        Inl e \<Rightarrow> (Some e, s)
      | Inr f \<Rightarrow>
     if art_driver f \<noteq> services_Local then (Some (unsupported_backup (art_driver f)), s)
     else (case accounts_Get (art_account f) s of
        Inl e \<Rightarrow> (Some e, s)
      | Inr a \<Rightarrow>
     (case store_Node (art_node f) s of
        Inl e \<Rightarrow> (Some e, s)
      | Inr n \<Rightarrow>
     (case bag_restore ag (nod_endpoint n) \<lparr>arq_account = art_account f, arq_path = art_path f,
          arq_checksum = art_checksum f, rrq_user = acc_system_user a, rrq_files = files, rrq_databases = dbs,
          rrq_metadata = meta\<rparr> of
        Inl e \<Rightarrow> (Some e, s)
      | Inr text \<Rightarrow>
     if meta then restore_metadata_step x c render ag certs cron now a (nod_endpoint n) text s else (None, s)))))
      | _ \<Rightarrow> (Some (Plain ''decode restore job payload''), s))"

section \<open>Retention\<close>

lemma filter_drop_take:
  "distinct (map k xs) \<Longrightarrow> filter (\<lambda>x. k x \<notin> k ` set (drop n xs)) xs = take n xs"
proof -
  assume d: "distinct (map k xs)"
  then have disj: "k ` set (take n xs) \<inter> k ` set (drop n xs) = {}"
    by (metis append_take_drop_id distinct_append map_append set_map)
  have "filter (\<lambda>x. k x \<notin> k ` set (drop n xs)) (take n xs @ drop n xs) = take n xs"
    unfolding filter_append using disj by (subst filter_True; force)
  then show ?thesis by simp
qed

lemma order_desc_filter: "filter P (order_desc k xs) = order_desc k (filter P xs)"
  by (simp add: order_desc_def filter_sort)

lemma distinct_order_desc: "distinct (map key (order_desc k xs)) \<longleftrightarrow> distinct (map key xs)"
  by (rule mset_eq_imp_distinct_iff) (metis mset_map mset_order_desc)

lemma apply_retention_None:
  "apply_retention ag socket fs s = (None, s') \<Longrightarrow>
    s' = s\<lparr>artifacts := filter (\<lambda>a. art_id a \<notin> art_id ` set fs) (artifacts s)\<rparr> \<and>
    (\<forall>f \<in> set fs. bag_delete ag socket (artifact_request_of f) = None)"
proof (induction fs arbitrary: s)
  case (Cons f fs)
  then show ?case
    by (fastforce simp: store_DeleteBackupArtifact_def delete_by_def conj_commute split: if_splits option.splits)
qed simp

definition plan_artifacts :: "ident \<Rightarrow> db \<Rightarrow> artifact list" where
  "plan_artifacts p s = order_desc art_created (filter (run_of_plan p s) (artifacts s))"

lemma set_run_Inr:
  "store_SetBackupRun i st msg b e s = Inr s' \<Longrightarrow>
    s' = s\<lparr>backup_runs := update_by run_id i (run_row st msg b e) (backup_runs s)\<rparr>"
  by (auto simp: store_SetBackupRun_def split: if_splits)

lemma run_row_sel [simp]:
  "run_id (run_row st msg b e r) = run_id r" "run_plan (run_row st msg b e r) = run_plan r"
  "run_status (run_row st msg b e r) = st" "run_account (run_row st msg b e r) = run_account r"
  by (simp_all add: run_row_def)

definition run_keys :: "db \<Rightarrow> (ident \<times> ident) list" where
  "run_keys s = map (\<lambda>r. (run_id r, run_plan r)) (backup_runs s)"

lemma run_of_plan_keys: "run_keys s' = run_keys s \<Longrightarrow> run_of_plan p s' a = run_of_plan p s a"
proof -
  have "run_of_plan p s a \<longleftrightarrow> p \<noteq> [] \<and> (art_run a, p) \<in> set (run_keys s)" for s
    by (force simp: run_of_plan_def run_keys_def list_ex_iff)
  then show "run_keys s' = run_keys s \<Longrightarrow> run_of_plan p s' a = run_of_plan p s a"
    by simp
qed

lemma run_keys_update [simp]:
  "map (\<lambda>r. (run_id r, run_plan r)) (update_by run_id i (run_row st msg b e) rs) =
    map (\<lambda>r. (run_id r, run_plan r)) rs"
  by (rule update_by_keys) simp

lemma retention_effect:
  assumes "backups_applyRetention ag p socket s = (None, s')" "distinct (map art_id (artifacts s))"
  shows "plan_artifacts (pln_id p) s' = take (nat (pln_retention p)) (plan_artifacts (pln_id p) s) \<and>
    filter (\<lambda>a. \<not> run_of_plan (pln_id p) s a) (artifacts s') = filter (\<lambda>a. \<not> run_of_plan (pln_id p) s a) (artifacts s) \<and>
    (\<forall>f \<in> set (drop (nat (pln_retention p)) (plan_artifacts (pln_id p) s)).
      f \<notin> set (artifacts s') \<and> bag_delete ag socket (artifact_request_of f) = None)"
proof -
  define L where "L = plan_artifacts (pln_id p) s"
  define E where "E = drop (nat (pln_retention p)) L"
  have exp: "store_ExpiredBackupArtifacts (pln_id p) (pln_retention p) s = E"
    by (simp add: store_ExpiredBackupArtifacts_def L_def E_def plan_artifacts_def)
  have s': "s' = s\<lparr>artifacts := filter (\<lambda>a. art_id a \<notin> art_id ` set E) (artifacts s)\<rparr>"
    and del: "\<forall>f \<in> set E. bag_delete ag socket (artifact_request_of f) = None"
    using apply_retention_None [OF assms(1) [unfolded backups_applyRetention_def exp]] by auto
  have "run_keys s' = run_keys s"
    by (simp add: run_keys_def s')
  then have same: "run_of_plan q s' = run_of_plan q s" for q
    using run_of_plan_keys by blast
  have dL: "distinct (map art_id L)"
    by (simp add: L_def plan_artifacts_def distinct_order_desc distinct_map_filter assms(2))
  have "plan_artifacts (pln_id p) s' = filter (\<lambda>a. art_id a \<notin> art_id ` set E) L"
    unfolding plan_artifacts_def L_def same by (simp add: s' order_desc_filter conj_commute)
  then have "plan_artifacts (pln_id p) s' = take (nat (pln_retention p)) L"
    using filter_drop_take [OF dL] by (simp add: E_def)
  moreover have "filter (\<lambda>a. \<not> run_of_plan (pln_id p) s a) (artifacts s') =
      filter (\<lambda>a. \<not> run_of_plan (pln_id p) s a) (artifacts s)"
  proof -
    have "art_id a \<notin> art_id ` set E" if "a \<in> set (artifacts s)" "\<not> run_of_plan (pln_id p) s a" for a
    proof
      assume "art_id a \<in> art_id ` set E"
      then obtain f where "f \<in> set E" "art_id a = art_id f" by blast
      then have "f \<in> set (artifacts s)" "run_of_plan (pln_id p) s f"
        by (auto simp: E_def L_def plan_artifacts_def dest!: in_set_dropD)
      then show False
        using that \<open>art_id a = art_id f\<close> distinct_key_unique [OF assms(2)] by blast
    qed
    then show ?thesis
      by (auto simp: s' intro!: filter_cong)
  qed
  ultimately show ?thesis
    using del by (auto simp: E_def [symmetric] L_def [symmetric] s')
qed

text \<open>What a successful backup job did, step by step.\<close>

lemma Create_None:
  assumes "backups_Create c render ag i now j s = (None, s')"
  obtains r p and n :: node and f :: agent_artifact and s2 where "payload_string ''runId'' (job_payload j) = Some (run_id r)" "r \<in> set (backup_runs s)"
    "store_BackupPlan (run_plan r) s = Inr p" "art_id (artifact_of i r f now) \<notin> art_id ` set (artifacts s)"
    "artifacts s2 = artifacts s @ [artifact_of i r f now]"
    "\<And>q a. run_of_plan q s2 a = run_of_plan q s a"
    "backups_applyRetention ag p (nod_endpoint n) s2 = (None, s')"
proof -
  from assms obtain rid r s1 p n q f a' s2 where rid: "payload_string ''runId'' (job_payload j) = Some rid"
    and r: "backups_run rid s = Inr r" and s1: "store_SetBackupRun (run_id r) Running [] (Some now) None s = Inr s1"
    and q: "backup_inputs c r s1 = Inr (p, n, q)"
    and s2: "store_CompleteBackup r (artifact_of i r f now) now s1 = Inr (a', s2)"
    and ret: "backups_applyRetention ag p (nod_endpoint n) s2 = (None, s')"
    by (auto simp: backups_Create_def backups_failRun_def split: option.splits if_splits sum.splits prod.splits)
  have r': "r \<in> set (backup_runs s)" "run_id r = rid"
    using r by (auto simp: backups_run_def store_BackupRuns_def dest!: find_Some_iff_mem)
  from s2 obtain s1' where ins: "insert_artifact (artifact_of i r f now) s1 = Inr (a', s1')"
    and fin: "store_SetBackupRun (run_id r) Succeeded [] None (Some now) s1' = Inr s2"
    by (auto simp: store_CompleteBackup_def)
  note s1' = set_run_Inr [OF s1]
  from ins have new: "art_id (artifact_of i r f now) \<notin> art_id ` set (artifacts s1)"
    and art: "s1' = s1\<lparr>artifacts := artifacts s1 @ [artifact_of i r f now]\<rparr>"
    by (auto simp: insert_artifact_def exists_by_iff split: if_splits)
  have keys: "run_keys s2 = run_keys s" and arts: "artifacts s2 = artifacts s @ [artifact_of i r f now]"
    unfolding run_keys_def set_run_Inr [OF fin] art s1' by simp_all
  show ?thesis
  proof (rule that)
    show "payload_string ''runId'' (job_payload j) = Some (run_id r)" "r \<in> set (backup_runs s)"
      using rid r' by simp_all
    show "store_BackupPlan (run_plan r) s = Inr p"
      using q by (auto simp: backup_inputs_def store_BackupPlan_def s1')
    show "art_id (artifact_of i r f now) \<notin> art_id ` set (artifacts s)"
      using new by (simp add: s1')
    show "run_of_plan q s2 a = run_of_plan q s a" for q a
      by (rule run_of_plan_keys) (rule keys)
  qed (rule arts, rule ret)
qed

text \<open>C21: retention.  A backup job that ends without error leaves, of the artifacts of its plan and the one
  it made, exactly the newest ones the plan keeps; every older one was deleted on the host and is
  gone from the table, and no artifact of another plan is touched.\<close>

theorem retention_keeps_newest:
  assumes "backups_Create c render ag i now j s = (None, s')" "distinct (map art_id (artifacts s))"
  shows "\<exists>(r :: backup_run) p f (n :: node). payload_string ''runId'' (job_payload j) = Some (run_id r) \<and> r \<in> set (backup_runs s) \<and>
    store_BackupPlan (run_plan r) s = Inr p \<and> art_run f = run_id r \<and> art_created f = now \<and>
    (let mine = order_desc art_created (filter (run_of_plan (pln_id p) s) (artifacts s @ [f])); keep = nat (pln_retention p) in
      plan_artifacts (pln_id p) s' = take keep mine \<and>
      (\<forall>a \<in> set (drop keep mine). a \<notin> set (artifacts s') \<and> bag_delete ag (nod_endpoint n) (artifact_request_of a) = None) \<and>
      filter (\<lambda>a. \<not> run_of_plan (pln_id p) s a) (artifacts s') =
        filter (\<lambda>a. \<not> run_of_plan (pln_id p) s a) (artifacts s @ [f]))"
proof -
  obtain r :: backup_run and p and n :: node and f :: agent_artifact and s2 where h: "payload_string ''runId'' (job_payload j) = Some (run_id r)"
    "r \<in> set (backup_runs s)" "store_BackupPlan (run_plan r) s = Inr p" "art_id (artifact_of i r f now) \<notin> art_id ` set (artifacts s)"
    "artifacts s2 = artifacts s @ [artifact_of i r f now]" "\<And>q a. run_of_plan q s2 a = run_of_plan q s a"
    and ret: "backups_applyRetention ag p (nod_endpoint n) s2 = (None, s')"
    by (rule Create_None [OF assms(1)]) (rule that)
  have d: "distinct (map art_id (artifacts s2))"
    using h(4,5) assms(2) by simp
  have same: "run_of_plan (pln_id p) s2 = run_of_plan (pln_id p) s"
    by (rule ext) (rule h(6))
  have run: "art_run (artifact_of i r f now) = run_id r" "art_created (artifact_of i r f now) = now"
    by (simp_all add: artifact_of_def)
  show ?thesis
    using retention_effect [OF ret d] h(1-3) run
    unfolding plan_artifacts_def [of _ s2] same h(5) Let_def by blast
qed

section \<open>One active run per plan\<close>

definition runs_ok :: "backup_run list \<Rightarrow> bool" where
  "runs_ok rs \<longleftrightarrow> distinct (map run_id rs) \<and>
     (\<forall>p. \<forall>r \<in> set rs. \<forall>r' \<in> set rs. active_run p r \<longrightarrow> active_run p r' \<longrightarrow> run_id r = run_id r')"

definition backups_inv :: "db \<Rightarrow> bool" where
  "backups_inv s \<longleftrightarrow> runs_ok (backup_runs s) \<and>
     distinct (map pln_id (backup_plans s)) \<and> [] \<notin> pln_id ` set (backup_plans s) \<and>
     (\<forall>p \<in> set (backup_plans s). 1 \<le> pln_retention p \<and> pln_retention p \<le> 100) \<and>
     distinct (map art_id (artifacts s)) \<and> distinct (map art_run (artifacts s))"

lemma active_run_row [simp]:
  "active_run p (run_row st msg b e r) \<longleftrightarrow> p \<noteq> [] \<and> run_plan r = p \<and> (st = Queued \<or> st = Running)"
  "active_run p (detach_plans P r) \<longleftrightarrow> active_run p r \<and> p \<notin> P"
  by (auto simp: active_run_def detach_plans_def)

lemma runs_ok_pair:
  "runs_ok rs \<Longrightarrow> r \<in> set rs \<Longrightarrow> r' \<in> set rs \<Longrightarrow> active_run p r \<Longrightarrow> active_run p r' \<Longrightarrow> run_id r = run_id r'"
  unfolding runs_ok_def by blast

lemma runs_okI:
  "distinct (map run_id rs) \<Longrightarrow>
    (\<And>p r r'. r \<in> set rs \<Longrightarrow> r' \<in> set rs \<Longrightarrow> active_run p r \<Longrightarrow> active_run p r' \<Longrightarrow> run_id r = run_id r') \<Longrightarrow> runs_ok rs"
  unfolding runs_ok_def by blast

lemma runs_ok_set:
  assumes "runs_ok (backup_runs s)" "store_SetBackupRun i st msg b e s = Inr s'"
  shows "runs_ok (backup_runs s')"
proof -
  note s' = set_run_Inr [OF assms(2)]
  have "distinct (map run_id (backup_runs s'))"
    using assms(1) by (simp add: s' runs_ok_def update_by_keys)
  moreover have "run_id r = run_id r'" if m: "r \<in> set (backup_runs s')" "r' \<in> set (backup_runs s')"
    and a: "active_run p r" "active_run p r'" for p r r'
  proof -
    have free: "\<not> active_run (run_plan o1) o2" if "st = Queued \<or> st = Running" "o1 \<in> set (backup_runs s)" "run_id o1 = i"
      "o2 \<in> set (backup_runs s)" "run_id o2 \<noteq> i" for o1 o2
      using assms(2) that by (auto simp: store_SetBackupRun_def list_ex_iff split: if_splits)
    obtain o1 o2 where o: "o1 \<in> set (backup_runs s)" "r = (if run_id o1 = i then run_row st msg b e o1 else o1)"
      "o2 \<in> set (backup_runs s)" "r' = (if run_id o2 = i then run_row st msg b e o2 else o2)"
      using m by (auto simp: s' update_by_def)
    have old: "active_run p o1 \<Longrightarrow> active_run p o2 \<Longrightarrow> run_id o1 = run_id o2"
      using runs_ok_pair [OF assms(1) o(1,3)] .
    show ?thesis
    proof (cases "run_id o1 = i"; cases "run_id o2 = i")
      assume "run_id o1 = i" "run_id o2 \<noteq> i"
      then show ?thesis using o(2,4) a free [OF _ o(1) _ o(3)] by simp
    next
      assume "run_id o1 \<noteq> i" "run_id o2 = i"
      then show ?thesis using o(2,4) a free [OF _ o(3) _ o(1)] by simp
    qed (use o(2,4) a old in simp_all)
  qed
  ultimately show ?thesis
    by (rule runs_okI)
qed

lemma runs_ok_filter_map:
  assumes "runs_ok rs" "\<And>r. r \<in> set rs \<Longrightarrow> run_id (f r) = run_id r \<and> (\<forall>p. active_run p (f r) \<longrightarrow> active_run p r)"
  shows "runs_ok (map f (filter P rs))"
proof -
  have "map run_id (map f (filter P rs)) = map run_id (filter P rs)"
    using assms(2) by (induction rs) auto
  then have "distinct (map run_id (map f (filter P rs)))"
    using assms(1) by (simp add: runs_ok_def distinct_map_filter del: map_map)
  moreover have "run_id r = run_id r'" if r: "r \<in> set (map f (filter P rs))" "r' \<in> set (map f (filter P rs))"
    and a: "active_run p r" "active_run p r'" for p r r'
  proof -
    obtain o1 o2 where "o1 \<in> set rs" "r = f o1" "o2 \<in> set rs" "r' = f o2"
      using r by auto
    then show ?thesis
      using runs_ok_pair [OF assms(1), of o1 o2 p] assms(2) a by metis
  qed
  ultimately show ?thesis
    by (rule runs_okI)
qed

lemma runs_ok_insert:
  assumes ok: "runs_ok (backup_runs s)" and ins: "insert_run r s = Inr (row, s')"
  shows "runs_ok (backup_runs s')"
proof -
  from ins have row: "backup_runs s' = backup_runs s @ [row]" "run_id row = run_id r" "run_plan row = run_plan r"
    and new: "run_id r \<notin> run_id ` set (backup_runs s)" and free: "\<not> store_BackupRunPending (run_plan r) s"
    by (auto simp: insert_run_def Let_def exists_by_iff split: if_splits)
  have "\<not> active_run p o'" if "o' \<in> set (backup_runs s)" "active_run p row" for o' p
    using free that row(3) by (auto simp: store_BackupRunPending_def list_ex_iff active_run_def)
  then have "run_id o1 = run_id o2" if "o1 \<in> set (backup_runs s')" "o2 \<in> set (backup_runs s')" "active_run p o1" "active_run p o2"
    for p o1 o2
    using that runs_ok_pair [OF ok, of o1 o2 p] unfolding row(1) by auto
  moreover have "distinct (map run_id (backup_runs s'))"
    using ok new by (simp add: row runs_ok_def)
  ultimately show ?thesis
    by (intro runs_okI)
qed

lemma QueueBackupRun_effect:
  assumes "store_QueueBackupRun r j nxt s = Inr ((row, j'), s')"
  shows "row = r\<lparr>run_status := Queued, run_error := [], run_started := None, run_finished := None\<rparr>"
    "backup_runs s' = backup_runs s @ [row]" "artifacts s' = artifacts s"
    "backup_plans s' = update_by pln_id (run_plan r) (mark_plan (run_created r) nxt) (backup_plans s)"
    "insert_run r s = Inr (row, s\<lparr>backup_runs := backup_runs s @ [row]\<rparr>)"
proof -
  from assms obtain s1 where i: "insert_run r s = Inr (row, s1)" and j: "createJob j
      (s1\<lparr>backup_plans := update_by pln_id (run_plan r) (mark_plan (run_created r) nxt) (backup_plans s1)\<rparr>) = Inr (j', s')"
    by (auto simp: store_QueueBackupRun_def)
  from i have s1: "row = r\<lparr>run_status := Queued, run_error := [], run_started := None, run_finished := None\<rparr>"
    "s1 = s\<lparr>backup_runs := backup_runs s @ [row]\<rparr>"
    by (auto simp: insert_run_def Let_def split: if_splits)
  then show "row = r\<lparr>run_status := Queued, run_error := [], run_started := None, run_finished := None\<rparr>"
    by simp
  show "insert_run r s = Inr (row, s\<lparr>backup_runs := backup_runs s @ [row]\<rparr>)"
    using i s1(2) by simp
  from createJob_Inr [OF j] show "backup_runs s' = backup_runs s @ [row]" "artifacts s' = artifacts s"
    "backup_plans s' = update_by pln_id (run_plan r) (mark_plan (run_created r) nxt) (backup_plans s)"
    by (simp_all add: s1(2))
qed

lemma mark_plan_sel [simp]:
  "pln_id (mark_plan now nxt p) = pln_id p" "pln_retention (mark_plan now nxt p) = pln_retention p"
  "pln_schedule (mark_plan now nxt p) = pln_schedule p" "pln_enabled (mark_plan now nxt p) = pln_enabled p"
  "pln_next_run (mark_plan now nxt p) = nxt"
  by (simp_all add: mark_plan_def)

lemma plan_row_sel [simp]:
  "pln_id (plan_row p r) = pln_id r" "pln_retention (plan_row p r) = pln_retention p"
  by (simp_all add: plan_row_def)

lemma backups_inv_queue:
  assumes "backups_inv s" "backups_queue x p u rid jid now s = Inr (v, s')"
  shows "backups_inv s'"
proof -
  obtain row j' where v: "v = (row, j')" by (cases v)
  from assms(2) obtain r j nxt where "store_QueueBackupRun r j nxt s = Inr ((row, j'), s')"
    unfolding backups_queue_def v by auto
  note e = QueueBackupRun_effect [OF this]
  have "runs_ok (backup_runs s')"
    using runs_ok_insert [OF _ e(5)] assms(1) e(2) by (simp add: backups_inv_def)
  moreover have "map pln_id (backup_plans s') = map pln_id (backup_plans s)"
    unfolding e(4) by (rule update_by_keys) simp
  moreover have "\<forall>p \<in> set (backup_plans s'). 1 \<le> pln_retention p \<and> pln_retention p \<le> 100"
    using assms(1) unfolding e(4) by (auto simp: backups_inv_def elim!: update_by_cases)
  ultimately show ?thesis
    using assms(1) e(3) by (simp add: backups_inv_def flip: set_map)
qed

lemma backups_inv_queue_due:
  "queue_due_plans x ps ids now s = (e, s') \<Longrightarrow> backups_inv s \<Longrightarrow> backups_inv s'"
proof (induction x ps ids now s rule: queue_due_plans.induct)
  case (2 x p ps ids now s)
  show ?case
  proof (cases "store_BackupRunPending (pln_id p) s \<or> ids = []")
    case True
    then show ?thesis
      using 2 by (auto split: if_splits)
  next
    case False
    then obtain rid jid ids' where ids: "ids = (rid, jid) # ids'"
      by (cases ids) auto
    show ?thesis
      using 2 False ids by (cases "backups_queue x p [] rid jid now s") (auto split: if_splits dest: backups_inv_queue)
  qed
qed simp

inductive backup_step :: "db \<Rightarrow> db \<Rightarrow> bool" where
  create_plan: "backups_CreatePlan x p u admin i now s = Inr (v, s') \<Longrightarrow> i \<noteq> [] \<Longrightarrow> backup_step s s'"
| update_plan: "backups_UpdatePlan x i p u admin now s = Inr (v, s') \<Longrightarrow> backup_step s s'"
| delete_plan: "backups_DeletePlan i u admin s = Inr s' \<Longrightarrow> backup_step s s'"
| run: "backups_Run x i u admin rid jid now s = Inr (w, s') \<Longrightarrow> backup_step s s'"
| queue_due: "backups_QueueDue x ids now s = (e, s') \<Longrightarrow> backup_step s s'"
| delete_artifact: "backups_DeleteArtifact ag i u admin s = (e, s') \<Longrightarrow> backup_step s s'"
| create: "backups_Create c render ag i now j s = (e, s') \<Longrightarrow> backup_step s s'"
| account_deleted: "backup_step s (cascade_account i s)"

inductive_cases backup_stepE: "backup_step s s'"

lemma backups_inv_runs: "backups_inv s \<Longrightarrow> runs_ok rs \<Longrightarrow> backups_inv (s\<lparr>backup_runs := rs\<rparr>)"
  by (simp add: backups_inv_def)

lemma backups_inv_set: "backups_inv s \<Longrightarrow> store_SetBackupRun i st msg b e s = Inr s' \<Longrightarrow> backups_inv s'"
  using runs_ok_set [of s i st msg b e s'] set_run_Inr [of i st msg b e s s'] by (simp add: backups_inv_def)

lemma backups_inv_artifacts:
  "backups_inv s \<Longrightarrow> backups_inv (s\<lparr>artifacts := filter P (artifacts s)\<rparr>)"
  by (simp add: backups_inv_def distinct_map_filter)

lemma backups_inv_apply: "apply_retention ag socket fs s = (e, s') \<Longrightarrow> backups_inv s \<Longrightarrow> backups_inv s'"
  by (induction fs arbitrary: s)
    (auto simp: store_DeleteBackupArtifact_def delete_by_def backups_inv_artifacts split: if_splits option.splits)

lemma backups_inv_fail: "backups_failRun render i now e s = (e', s') \<Longrightarrow> backups_inv s \<Longrightarrow> backups_inv s'"
  by (auto simp: backups_failRun_def intro: backups_inv_set split: sum.splits)

lemma backups_inv_complete:
  assumes "store_CompleteBackup r a now s = Inr (v, s')" "backups_inv s"
  shows "backups_inv s'"
proof -
  from assms(1) obtain s1 where "insert_artifact a s = Inr (v, s1)"
    and fin: "store_SetBackupRun (run_id r) Succeeded [] None (Some now) s1 = Inr s'"
    by (auto simp: store_CompleteBackup_def)
  then have "backups_inv s1"
    using assms(2) by (auto simp: insert_artifact_def backups_inv_def exists_by_iff split: if_splits)
  then show ?thesis
    using fin by (rule backups_inv_set)
qed

text \<open>The ways a backup job whose run exists can end.\<close>

lemma Create_cases:
  assumes "backups_Create c render ag i now j s = (e, s')" "payload_string ''runId'' (job_payload j) = Some rid"
    "backups_run rid s = Inr r"
  obtains "s' = s" "rid = [] \<or> (\<exists>e1. store_SetBackupRun (run_id r) Running [] (Some now) None s = Inl e1)"
  | e0 where "backups_failRun render (run_id r) now e0 s = (e, s')"
  | e0 s1 where "store_SetBackupRun (run_id r) Running [] (Some now) None s = Inr s1"
    "backups_failRun render (run_id r) now e0 s1 = (e, s')"
  | s1 f v s2 socket fs where "store_SetBackupRun (run_id r) Running [] (Some now) None s = Inr s1"
    "store_CompleteBackup r (artifact_of i r f now) now s1 = Inr (v, s2)" "apply_retention ag socket fs s2 = (e, s')"
proof (cases "rid = [] \<or> run_driver r \<noteq> services_Local")
  case True
  then show ?thesis
    using assms that(1,2) by (auto simp: backups_Create_def split: if_splits)
next
  case False
  show ?thesis
  proof (cases "store_SetBackupRun (run_id r) Running [] (Some now) None s")
    case (Inl e1)
    then show ?thesis
      using assms False that(1) by (auto simp: backups_Create_def)
  next
    case s1: (Inr s1)
    show ?thesis
    proof (cases "backup_inputs c r s1")
      case (Inl e1)
      then show ?thesis
        using assms False s1 that(3) by (simp add: backups_Create_def)
    next
      case q: (Inr t)
      obtain p n q' where t: "t = (p, n, q')" by (cases t)
      show ?thesis
      proof (cases "bag_create ag (nod_endpoint n) q'")
        case (Inl e1)
        then show ?thesis
          using assms False s1 q t that(3) by (simp add: backups_Create_def)
      next
        case f: (Inr f)
        show ?thesis
        proof (cases "store_CompleteBackup r (artifact_of i r f now) now s1")
          case (Inl e1)
          then show ?thesis
            using assms False s1 q t f that(3) by (simp add: backups_Create_def)
        next
          case (Inr v)
          obtain a s2 where "v = (a, s2)" by (cases v)
          then show ?thesis
            using assms False s1 q t f Inr that(4) by (simp add: backups_Create_def backups_applyRetention_def)
        qed
      qed
    qed
  qed
qed

lemma backups_inv_create:
  assumes "backups_Create c render ag i now j s = (e, s')" "backups_inv s"
  shows "backups_inv s'"
proof (cases "\<exists>rid r. payload_string ''runId'' (job_payload j) = Some rid \<and> backups_run rid s = Inr r")
  case True
  then obtain rid r where "payload_string ''runId'' (job_payload j) = Some rid" "backups_run rid s = Inr r"
    by blast
  from assms(1) this show ?thesis
  proof (cases rule: Create_cases)
    case (4 s1 f v s2 socket fs)
    then show ?thesis
      using backups_inv_apply [OF 4(3)] backups_inv_complete [OF 4(2)] backups_inv_set [OF assms(2) 4(1)] by simp
  qed (use assms(2) backups_inv_fail backups_inv_set in \<open>blast+\<close>)
next
  case False
  then have "s' = s"
    using assms(1) by (auto simp: backups_Create_def split: option.splits if_splits sum.splits)
  with assms(2) show ?thesis by simp
qed

lemma backup_step_inv: "backup_step s s' \<Longrightarrow> backups_inv s \<Longrightarrow> backups_inv s'"
proof (induction rule: backup_step.induct)
  case (create_plan x p u admin i now s v s')
  then show ?case
    by (auto simp: backups_CreatePlan_def store_CreateBackupPlan_def insert_plan_def Let_def backups_inv_def exists_by_iff
        backups_preparePlan_def split: if_splits)
next
  case (update_plan x i p u admin now s v s')
  from update_plan(1) obtain q current where "store_UpdateBackupPlan q current s = Inr (v, s')"
    by (auto simp: backups_UpdatePlan_def)
  then have q: "1 \<le> pln_retention q" "pln_retention q \<le> 100"
    and s': "s' = s\<lparr>backup_plans := update_by pln_id (pln_id q) (plan_row q) (backup_plans s)\<rparr>"
    by (auto simp: store_UpdateBackupPlan_def split: if_splits)
  have "map pln_id (backup_plans s') = map pln_id (backup_plans s)"
    unfolding s' by (simp add: update_by_keys)
  moreover have "\<forall>p \<in> set (backup_plans s'). 1 \<le> pln_retention p \<and> pln_retention p \<le> 100"
    using update_plan(2) q unfolding s' by (auto simp: backups_inv_def elim!: update_by_cases)
  ultimately show ?case
    using update_plan(2) by (simp add: s' backups_inv_def flip: set_map)
next
  case (delete_plan i u admin s s')
  have "runs_ok (map (detach_plans {j}) (backup_runs s))" for j
    using runs_ok_filter_map [of "backup_runs s" "detach_plans {j}" "\<lambda>_. True"] delete_plan(2) by (simp add: backups_inv_def)
  then show ?case
    using delete_plan
    by (auto simp: backups_DeletePlan_def store_DeleteBackupPlan_def backups_inv_def delete_by_def distinct_map_filter)
next
  case (account_deleted s i)
  have "runs_ok (map (detach_plans P) (delete_by run_account i (backup_runs s)))" for P
    unfolding delete_by_def using account_deleted by (intro runs_ok_filter_map) (auto simp: backups_inv_def)
  then show ?case
    using account_deleted
    by (auto simp: cascade_account_def Let_def backups_inv_def delete_by_def distinct_map_filter)
qed (auto simp: backups_Run_def backups_QueueDue_def backups_DeleteArtifact_def store_DeleteBackupArtifact_def delete_by_def
    intro: backups_inv_queue backups_inv_queue_due backups_inv_create backups_inv_artifacts split: sum.splits if_splits option.splits)

text \<open>C19: the backup tables stay consistent: whatever requests, schedule, jobs and account deletions do, a
  plan has at most one run that is queued or running, identifiers are unique, a run has at most one
  artifact, and every plan keeps between 1 and 100 artifacts.\<close>

theorem one_active_run_per_plan:
  assumes "backup_step s s'" "backups_inv s"
  shows "backups_inv s'"
  using assms by (rule backup_step_inv)

section \<open>Runs settle\<close>

lemma settled_run:
  assumes "runs_ok (backup_runs s)" "r \<in> set (backup_runs s)" "active_run (run_plan r) r \<or> run_plan r = []"
    "store_SetBackupRun (run_id r) st msg b e s = Inr s'" "st = Failed \<or> st = Succeeded"
  shows "\<not> store_BackupRunPending (run_plan r) s'"
proof
  assume "store_BackupRunPending (run_plan r) s'"
  then obtain r' where r': "r' \<in> set (backup_runs s')" "active_run (run_plan r) r'"
    by (auto simp: store_BackupRunPending_def list_ex_iff)
  then obtain o' where "o' \<in> set (backup_runs s)" "r' = (if run_id o' = run_id r then run_row st msg b e o' else o')"
    by (auto simp: set_run_Inr [OF assms(4)] update_by_def)
  moreover have "active_run (run_plan r) r"
    using assms(3) r'(2) by (auto simp: active_run_def)
  ultimately show False
    using r'(2) assms(5) runs_ok_pair [OF assms(1) _ assms(2), of o' "run_plan r"] by (auto split: if_splits)
qed

lemma apply_retention_runs: "apply_retention ag socket fs s = (e, s') \<Longrightarrow> backup_runs s' = backup_runs s"
  by (induction fs arbitrary: s) (auto simp: store_DeleteBackupArtifact_def split: if_splits option.splits)

lemma set_run_mem:
  assumes "store_SetBackupRun (run_id r) st msg b e s = Inr s'" "r \<in> set (backup_runs s)"
  shows "run_row st msg b e r \<in> set (backup_runs s')"
  using update_by_mem [OF assms(2), of run_id "run_id r" "run_row st msg b e"] by (simp add: set_run_Inr [OF assms(1)])

lemma set_run_found:
  assumes "store_SetBackupRun i st msg b e s = Inr s'" "i \<in> run_id ` set (backup_runs s)"
  shows "\<exists>r' \<in> set (backup_runs s'). run_id r' = i \<and> run_status r' = st"
proof -
  obtain r where "r \<in> set (backup_runs s)" "i = run_id r"
    using assms(2) by blast
  then show ?thesis
    using set_run_mem [of r] assms(1) by (intro bexI [of _ "run_row st msg b e r"]) auto
qed

lemma failRun_settles:
  assumes "backups_failRun render (run_id r) now e0 s = (e, s')" "runs_ok (backup_runs s)" "r0 \<in> set (backup_runs s)"
    "active_run (run_plan r) r0 \<or> run_plan r = []" "run_id r0 = run_id r" "run_plan r0 = run_plan r"
  shows "\<not> store_BackupRunPending (run_plan r) s' \<and>
    (\<exists>r' \<in> set (backup_runs s'). run_id r' = run_id r \<and> run_status r' = Failed) \<and> e \<noteq> None"
proof -
  have e: "e = Some e0" and s': "store_SetBackupRun (run_id r0) Failed (backups_safeMessage render e0) None (Some now) s = Inr s'"
    using assms(1,5) by (auto simp: backups_failRun_def store_SetBackupRun_def)
  have "run_id r \<in> run_id ` set (backup_runs s)"
    using assms(3,5) by (metis imageI)
  then show ?thesis
    using settled_run [OF assms(2,3) _ s'] set_run_found [OF s'] assms(4,5,6) e by simp
qed

lemma run_can_start:
  assumes ok: "runs_ok (backup_runs s)" and r: "r \<in> set (backup_runs s)" and act: "active_run (run_plan r) r \<or> run_plan r = []"
  shows "\<exists>s1. store_SetBackupRun (run_id r) Running [] (Some now) None s = Inr s1"
proof -
  have other: "run_id o' = run_id r" if "o' \<in> set (backup_runs s)" "x \<in> set (backup_runs s)" "run_id x = run_id r"
    "active_run (run_plan x) o'" for x o'
  proof -
    have "distinct (map run_id (backup_runs s))"
      using ok by (simp add: runs_ok_def)
    then have "x = r"
      using that(2) r that(3) by (rule distinct_key_unique)
    then show ?thesis
      using that(4) runs_ok_pair [OF ok that(1) r, of "run_plan r"] act by (auto simp: active_run_def)
  qed
  have "\<not> list_ex (\<lambda>x. run_id x = run_id r \<and>
      list_ex (\<lambda>o'. run_id o' \<noteq> run_id r \<and> active_run (run_plan x) o') (backup_runs s)) (backup_runs s)"
    unfolding list_ex_iff using other by blast
  then show ?thesis
    by (simp add: store_SetBackupRun_def)
qed

text \<open>C20: a backup job always settles its run.  Whichever of its steps fails - the plan or account is gone,
  the agent refuses, the artifact cannot be recorded, an old artifact cannot be deleted - when the
  handler returns the run has succeeded, or has failed and the job reports the error; and its plan
  is free for the next run.\<close>

theorem backup_job_settles:
  assumes "backups_Create c render ag i now j s = (e, s')" "backups_inv s"
    "payload_string ''runId'' (job_payload j) = Some rid" "rid \<noteq> []" "backups_run rid s = Inr r"
    "run_status r = Queued \<or> run_status r = Running"
  shows "\<not> store_BackupRunPending (run_plan r) s' \<and> (\<exists>r' \<in> set (backup_runs s'). run_id r' = rid \<and>
    (run_status r' = Succeeded \<or> run_status r' = Failed \<and> e \<noteq> None))"
proof -
  have r: "r \<in> set (backup_runs s)" "run_id r = rid"
    using assms(5) by (auto simp: backups_run_def store_BackupRuns_def dest!: find_Some_iff_mem)
  have act: "active_run (run_plan r) r \<or> run_plan r = []"
    using assms(6) by (auto simp: active_run_def)
  have ok: "runs_ok (backup_runs s)"
    using assms(2) by (simp add: backups_inv_def)
  note running = run_can_start [OF ok r(1) act]
  have marked: "\<exists>r0 \<in> set (backup_runs s1). (active_run (run_plan r) r0 \<or> run_plan r = []) \<and> run_id r0 = run_id r \<and>
      run_plan r0 = run_plan r \<and> runs_ok (backup_runs s1)"
    if s1: "store_SetBackupRun (run_id r) Running [] (Some now) None s = Inr s1" for s1
  proof (intro bexI [of _ "run_row Running [] (Some now) None r"])
    show "run_row Running [] (Some now) None r \<in> set (backup_runs s1)"
      by (rule set_run_mem [OF s1 r(1)])
  qed (use runs_ok_set [OF ok s1] in \<open>auto simp: active_run_def run_row_def\<close>)
  from assms(1,3,5) show ?thesis
  proof (cases rule: Create_cases)
    case 1
    then show ?thesis
      using running [of now] assms(4) by auto
  next
    case (2 e0)
    then show ?thesis
      using failRun_settles [OF 2 ok r(1)] act r(2) by blast
  next
    case (3 e0 s1)
    obtain r0 where "r0 \<in> set (backup_runs s1)" "active_run (run_plan r) r0 \<or> run_plan r = []"
      "run_id r0 = run_id r" "run_plan r0 = run_plan r" "runs_ok (backup_runs s1)"
      using marked [OF 3(1)] by blast
    then show ?thesis
      using failRun_settles [OF 3(2), of r0] r(2) by blast
  next
    case (4 s1 f v s2 socket fs)
    obtain r0 where r0: "r0 \<in> set (backup_runs s1)" "active_run (run_plan r) r0 \<or> run_plan r = []"
      "run_id r0 = run_id r" "run_plan r0 = run_plan r" "runs_ok (backup_runs s1)"
      using marked [OF 4(1)] by blast
    from 4(2) obtain s1' where ins: "insert_artifact (artifact_of i r f now) s1 = Inr (v, s1')"
      and fin: "store_SetBackupRun (run_id r0) Succeeded [] None (Some now) s1' = Inr s2"
      using r0(3) by (auto simp: store_CompleteBackup_def)
    from ins have "backup_runs s1' = backup_runs s1"
      by (auto simp: insert_artifact_def split: if_splits)
    then show ?thesis
      using settled_run [of s1' r0, OF _ _ _ fin] set_run_found [OF fin] r0 r(2) apply_retention_runs [OF 4(3)]
      by (auto simp: store_BackupRunPending_def)
  qed
qed

section \<open>The schedule\<close>

lemma backups_queue_effect:
  assumes "backups_queue x p u rid jid now s = Inr (v, s')" "pln_id p \<noteq> []"
  shows "store_BackupRunPending (pln_id p) s'"
    "store_BackupRunPending q s' \<longleftrightarrow> store_BackupRunPending q s \<or> q = pln_id p"
    "backup_plans s' = update_by pln_id (pln_id p)
      (mark_plan now (backups_nextRun x (pln_schedule p) (pln_enabled p) now)) (backup_plans s)"
proof -
  obtain row j' where v: "v = (row, j')" by (cases v)
  obtain r j where q: "store_QueueBackupRun r j (backups_nextRun x (pln_schedule p) (pln_enabled p) now) s = Inr ((row, j'), s')"
    and r: "run_plan r = pln_id p" "run_created r = now"
    using assms(1) unfolding backups_queue_def v by auto
  note e = QueueBackupRun_effect [OF q]
  have act: "active_run q row \<longleftrightarrow> q = pln_id p" for q
    using e(1) r assms(2) by (auto simp: active_run_def)
  then show "store_BackupRunPending q s' \<longleftrightarrow> store_BackupRunPending q s \<or> q = pln_id p" for q
    by (auto simp: store_BackupRunPending_def e(2))
  then show "store_BackupRunPending (pln_id p) s'"
    by simp
  show "backup_plans s' = update_by pln_id (pln_id p)
      (mark_plan now (backups_nextRun x (pln_schedule p) (pln_enabled p) now)) (backup_plans s)"
    using e(4) r by simp
qed

lemma queue_not_busy:
  "backups_queue x p u rid jid now s = Inl e \<Longrightarrow> \<not> store_BackupRunPending (pln_id p) s \<Longrightarrow> \<not> error_is e BackupErrBusy"
  by (auto simp: backups_queue_def store_QueueBackupRun_def insert_run_def createJob_def store_CreateJob_def Let_def
      split: if_splits)

text \<open>The rows of the plans in \<open>I\<close>, marked as run.\<close>

definition marked :: "ext \<Rightarrow> msec \<Rightarrow> ident set \<Rightarrow> backup_plan \<Rightarrow> backup_plan" where
  "marked x now I r = (if pln_id r \<in> I
     then mark_plan now (backups_nextRun x (pln_schedule r) (pln_enabled r) now) r else r)"

definition snapshot_of :: "backup_plan list \<Rightarrow> backup_plan list \<Rightarrow> bool" where
  "snapshot_of ps rows \<longleftrightarrow> (\<forall>p \<in> set ps. \<forall>r \<in> set rows. pln_id r = pln_id p \<longrightarrow>
     pln_schedule r = pln_schedule p \<and> pln_enabled r = pln_enabled p)"

definition idle_ids :: "backup_plan list \<Rightarrow> db \<Rightarrow> ident set" where
  "idle_ids ps s = {i \<in> pln_id ` set ps. \<not> store_BackupRunPending i s}"

lemma queue_due_effect:
  assumes "queue_due_plans x ps ids now s = (None, s')" "\<forall>p \<in> set ps. pln_id p \<noteq> []"
    "distinct (map pln_id ps)" "snapshot_of ps (backup_plans s)"
  shows "(\<forall>q. store_BackupRunPending q s' \<longleftrightarrow> store_BackupRunPending q s \<or> q \<in> pln_id ` set ps) \<and>
    backup_plans s' = map (marked x now (idle_ids ps s)) (backup_plans s)"
  using assms
proof (induction x ps ids now s rule: queue_due_plans.induct)
  case (1 x ids now s)
  then show ?case by (simp add: marked_def idle_ids_def)
next
  case (2 x p ps ids now s)
  show ?case
  proof (cases "store_BackupRunPending (pln_id p) s")
    case True
    then have q: "queue_due_plans x ps ids now s = (None, s')"
      using 2(4) by simp
    have "idle_ids (p # ps) s = idle_ids ps s"
      using True by (auto simp: idle_ids_def)
    then show ?thesis
      using 2(1) [OF True q] 2(5-7) True by (auto simp: snapshot_of_def)
  next
    case False
    obtain rid jid ids' where ids: "ids = (rid, jid) # ids'"
      using 2(4) False by (cases ids) auto
    obtain v s1 where q: "backups_queue x p [] rid jid now s = Inr (v, s1)"
      and rest: "queue_due_plans x ps ids' now s1 = (None, s')"
      using 2(4) False ids queue_not_busy [of x p "[]" rid jid now s]
      by (cases "backups_queue x p [] rid jid now s") auto
    have id: "pln_id p \<noteq> []" and ps: "\<forall>p \<in> set ps. pln_id p \<noteq> []" "distinct (map pln_id ps)" "pln_id p \<notin> pln_id ` set ps"
      using 2(5,6) by auto
    note e = backups_queue_effect [OF q id]
    have rows: "backup_plans s1 = map (marked x now {pln_id p}) (backup_plans s)"
      using 2(7) by (auto simp: e(3) update_by_def marked_def snapshot_of_def)
    have "snapshot_of ps (backup_plans s1)"
      using 2(7) by (auto simp: rows snapshot_of_def marked_def)
    from 2(3) [OF False ids refl q refl rest ps(1,2) this]
    have IH: "\<forall>q. store_BackupRunPending q s' \<longleftrightarrow> store_BackupRunPending q s1 \<or> q \<in> pln_id ` set ps"
      "backup_plans s' = map (marked x now (idle_ids ps s1)) (backup_plans s1)"
      by simp_all
    have idle: "idle_ids (p # ps) s = insert (pln_id p) (idle_ids ps s1)" "pln_id p \<notin> idle_ids ps s1"
      using False ps(3) by (auto simp: idle_ids_def e(2))
    have "marked x now (idle_ids ps s1) (marked x now {pln_id p} r) = marked x now (idle_ids (p # ps) s) r" for r
      unfolding idle(1) using idle(2) by (auto simp: marked_def)
    then show ?thesis
      using IH by (auto simp: rows e(2))
  qed
qed

lemma due_snapshot:
  assumes "backups_inv s"
  shows "\<forall>p \<in> set (store_DueBackupPlans now s). pln_id p \<noteq> []" "distinct (map pln_id (store_DueBackupPlans now s))"
    "snapshot_of (store_DueBackupPlans now s) (backup_plans s)"
proof -
  let ?due = "store_DueBackupPlans now s"
  have d: "distinct (map pln_id (backup_plans s))" and e: "[] \<notin> pln_id ` set (backup_plans s)"
    using assms by (auto simp: backups_inv_def)
  show "\<forall>p \<in> set ?due. pln_id p \<noteq> []"
    using e by (force simp: store_DueBackupPlans_def)
  have "mset (map pln_id ?due) = mset (map pln_id (filter (plan_due now) (backup_plans s)))"
    by (simp add: store_DueBackupPlans_def order_asc_def)
  then show "distinct (map pln_id ?due)"
    using mset_eq_imp_distinct_iff distinct_map_filter [OF d] by blast
  show "snapshot_of ?due (backup_plans s)"
    using distinct_key_unique [OF d] by (auto simp: snapshot_of_def store_DueBackupPlans_def)
qed

text \<open>Scheduled backups run.  When the minutely loop ends without error, every due plan has a run that is
  queued or running, no other plan got one, and each plan that was idle is next due at the time its
  schedule gives - so, if that lies in the future, it is not queued again before then.\<close>

theorem due_plans_run:
  assumes "backups_QueueDue x ids now s = (None, s')" "backups_inv s"
  shows "(\<forall>i. store_BackupRunPending i s' \<longleftrightarrow>
      store_BackupRunPending i s \<or> i \<in> pln_id ` set (store_DueBackupPlans now s)) \<and>
    (\<forall>p \<in> set (store_DueBackupPlans now s). \<forall>p' \<in> set (backup_plans s'). pln_id p' = pln_id p \<longrightarrow>
      \<not> store_BackupRunPending (pln_id p) s \<longrightarrow> pln_next_run p' = ext_cron_next x (pln_schedule p) now)"
proof -
  note h = queue_due_effect [OF assms(1) [unfolded backups_QueueDue_def] due_snapshot [OF assms(2)]]
  have "pln_next_run p' = ext_cron_next x (pln_schedule p) now"
    if p: "p \<in> set (store_DueBackupPlans now s)" "p' \<in> set (backup_plans s')" "pln_id p' = pln_id p"
      "\<not> store_BackupRunPending (pln_id p) s" for p p'
  proof -
    obtain r where r: "r \<in> set (backup_plans s)" "p' = marked x now (idle_ids (store_DueBackupPlans now s) s) r"
      using p(2) h by auto
    then have "pln_id r = pln_id p"
      using p(3) by (simp add: marked_def split: if_splits)
    moreover have "pln_id p \<in> idle_ids (store_DueBackupPlans now s) s"
      using p by (auto simp: idle_ids_def)
    moreover have "pln_enabled p" "pln_schedule p \<noteq> []"
      using p(1) by (auto simp: store_DueBackupPlans_def plan_due_def)
    ultimately show ?thesis
      using r due_snapshot(3) [OF assms(2), of now] p(1) by (auto simp: marked_def snapshot_of_def backups_nextRun_def)
  qed
  then show ?thesis
    using h by blast
qed

text \<open>
  \<open>cron.Schedule.Next\<close> answers the zero time for a schedule that matches no date in five years,
  such as 30 February; \<open>timeValue\<close> stores it as a number of milliseconds long past.
\<close>

definition zero_time :: msec where "zero_time = - 62135596800000"

text \<open>A plan whose schedule never matches runs all the time.  The forms accept such a schedule, and
  after the loop has queued the plan it is due again at once, and at every later time until the plan
  is changed: a backup starts every minute and retention deletes the older ones.\<close>

theorem impossible_schedule_always_due:
  assumes "backups_QueueDue x ids now s = (None, s')" "backups_inv s" "p \<in> set (store_DueBackupPlans now s)"
    "\<not> store_BackupRunPending (pln_id p) s" "ext_cron_next x (pln_schedule p) now = Some zero_time" "zero_time \<le> t"
  shows "\<exists>p' \<in> set (store_DueBackupPlans t s'). pln_id p' = pln_id p \<and> pln_schedule p' = pln_schedule p"
proof -
  note h = queue_due_effect [OF assms(1) [unfolded backups_QueueDue_def] due_snapshot [OF assms(2)]]
  have p: "p \<in> set (backup_plans s)" "pln_enabled p" "pln_schedule p \<noteq> []"
    using assms(3) by (auto simp: store_DueBackupPlans_def plan_due_def)
  let ?p = "marked x now (idle_ids (store_DueBackupPlans now s) s) p"
  have "pln_id p \<in> idle_ids (store_DueBackupPlans now s) s"
    using assms(3,4) by (auto simp: idle_ids_def)
  then have "plan_due t ?p" "pln_id ?p = pln_id p" "pln_schedule ?p = pln_schedule p"
    using p assms(5,6) by (simp_all add: plan_due_def marked_def backups_nextRun_def)
  moreover have "?p \<in> set (backup_plans s')"
    using h p(1) by auto
  ultimately show ?thesis
    by (intro bexI [of _ ?p]) (simp_all add: store_DueBackupPlans_def)
qed

section \<open>Restored metadata stays in its account\<close>

text \<open>
  What a restore into the account \<open>a\<close> may change, table by table: rows of others keep their place
  and value, and a row of the account keeps its owner.  A domain's owner is its website's.
\<close>

definition others_kept :: "('r \<Rightarrow> ident) \<Rightarrow> ident set \<Rightarrow> 'r list \<Rightarrow> 'r list \<Rightarrow> bool" where
  "others_kept owner A rs rs' \<longleftrightarrow> filter (\<lambda>r. owner r \<notin> A) rs' = filter (\<lambda>r. owner r \<notin> A) rs"

lemma others_kept_refl [simp]: "others_kept owner A rs rs"
  by (simp add: others_kept_def)

lemma others_kept_trans:
  "others_kept owner A rs rs1 \<Longrightarrow> others_kept owner A rs1 rs2 \<Longrightarrow> others_kept owner A rs rs2"
  by (simp add: others_kept_def)

lemma others_kept_insert: "owner r \<in> A \<Longrightarrow> others_kept owner A rs (rs @ [r])"
  by (simp add: others_kept_def)

lemma others_kept_update:
  assumes "\<And>r. r \<in> set rs \<Longrightarrow> key r = k \<Longrightarrow> owner r \<in> A" "\<And>r. owner (f r) = owner r"
  shows "others_kept owner A rs (update_by key k f rs)"
  using assms(1) by (induction rs) (auto simp: others_kept_def assms(2))

lemma others_kept_mono: "others_kept owner A rs rs' \<Longrightarrow> A \<subseteq> B \<Longrightarrow> others_kept owner B rs rs'"
proof -
  assume *: "others_kept owner A rs rs'" "A \<subseteq> B"
  have "filter (\<lambda>r. owner r \<notin> B) xs = filter (\<lambda>r. owner r \<notin> B) (filter (\<lambda>r. owner r \<notin> A) xs)" for xs
    using *(2) by (auto intro: filter_cong)
  then show ?thesis
    using *(1) unfolding others_kept_def by metis
qed

definition account_sites :: "ident \<Rightarrow> db \<Rightarrow> ident set" where
  "account_sites a s = web_id ` {w \<in> set (websites s). web_account w = a}"

text \<open>A restore writes these four tables only.\<close>

definition same_elsewhere :: "db \<Rightarrow> db \<Rightarrow> bool" where
  "same_elsewhere s s' \<longleftrightarrow>
     s'\<lparr>websites := [], domains := [], databases := [], tasks := []\<rparr> =
     s\<lparr>websites := [], domains := [], databases := [], tasks := []\<rparr>"

definition restored_into :: "ident \<Rightarrow> db \<Rightarrow> db \<Rightarrow> bool" where
  "restored_into a s s' \<longleftrightarrow> same_elsewhere s s' \<and>
     others_kept web_account {a} (websites s) (websites s') \<and>
     others_kept dom_website (account_sites a s') (domains s) (domains s') \<and>
     others_kept dba_account {a} (databases s) (databases s') \<and>
     others_kept tsk_account {a} (tasks s) (tasks s') \<and>
     account_sites a s \<subseteq> account_sites a s'"

definition keys_distinct :: "db \<Rightarrow> bool" where
  "keys_distinct s \<longleftrightarrow> distinct (map web_id (websites s)) \<and> distinct (map dom_id (domains s)) \<and>
     distinct (map dba_id (databases s)) \<and> distinct (map tsk_id (tasks s))"

lemma same_elsewhere_refl [simp]: "same_elsewhere s s"
  by (simp add: same_elsewhere_def)

lemma same_elsewhere_trans: "same_elsewhere s s1 \<Longrightarrow> same_elsewhere s1 s2 \<Longrightarrow> same_elsewhere s s2"
  unfolding same_elsewhere_def by (rule trans)

lemma same_elsewhere_put [simp]:
  "same_elsewhere s (s\<lparr>websites := ws\<rparr>)" "same_elsewhere s (s\<lparr>domains := ds\<rparr>)"
  "same_elsewhere s (s\<lparr>databases := bs\<rparr>)" "same_elsewhere s (s\<lparr>tasks := ts\<rparr>)"
  by (simp_all add: same_elsewhere_def)

lemma restored_into_refl [simp]: "restored_into a s s"
  by (simp add: restored_into_def)

lemma restored_into_trans:
  assumes "restored_into a s s1" "restored_into a s1 s2"
  shows "restored_into a s s2"
proof -
  note h = assms [unfolded restored_into_def]
  have "others_kept dom_website (account_sites a s2) (domains s) (domains s1)"
    using h by (blast intro: others_kept_mono [of _ "account_sites a s1"])
  then have "others_kept dom_website (account_sites a s2) (domains s) (domains s2)"
    using h(2) by (blast intro: others_kept_trans [of _ _ "domains s" "domains s1"])
  then show ?thesis
    unfolding restored_into_def using h
    by (intro conjI) (blast intro: same_elsewhere_trans others_kept_trans)+
qed

lemma owned_row:
  assumes "distinct (map key rs)" "owned_or_new k a (map_option owner (find_by key i rs)) msg s = Inr u"
    "r \<in> set rs" "key r = i"
  shows "owner r = a"
proof -
  obtain r' where r': "find_by key i rs = Some r'"
    using assms(3,4) by (cases "find_by key i rs") (auto simp: find_by_def find_None_iff)
  then have "r' \<in> set rs" "key r' = i"
    by (auto simp: find_by_def find_Some_iff)
  then have "r' = r"
    using distinct_key_unique [OF assms(1)] assms(3,4) by blast
  then show ?thesis
    using assms(2) r' by (auto simp: owned_or_new_def)
qed

lemma restored_rows_sel [simp]:
  "web_id (restored_website w now r) = web_id r" "web_account (restored_website w now r) = web_account r"
  "dom_id (restored_domain d now q) = dom_id q" "dom_website (restored_domain d now q) = dom_website q"
  "dba_id (restored_database b now v) = dba_id v" "dba_account (restored_database b now v) = dba_account v"
  "tsk_id (restored_task t now u) = tsk_id u" "tsk_account (restored_task t now u) = tsk_account u"
  by (simp_all add: restored_website_def restored_domain_def restored_database_def restored_task_def)

lemma keys_after [simp]:
  "map web_id (update_by web_id i (restored_website w now) rs) = map web_id rs"
  "map dom_id (update_by dom_id i (restored_domain d now) ds) = map dom_id ds"
  "map dba_id (update_by dba_id i (restored_database b now) bs) = map dba_id bs"
  "map tsk_id (update_by tsk_id i (restored_task t now) ts) = map tsk_id ts"
  by (simp_all add: update_by_keys)

lemma upsert_website_into:
  assumes "keys_distinct s" "owned_or_new Websites a (map_option web_account (find_by web_id (mwe_id w) (websites s))) msg s = Inr u"
    "upsert_website w a now s = Inr s'"
  shows "restored_into a s s' \<and> keys_distinct s' \<and> mwe_id w \<in> account_sites a s'"
proof (cases "exists_by web_id (mwe_id w) (websites s)")
  case True
  then have s': "s' = s\<lparr>websites := update_by web_id (mwe_id w) (restored_website w now) (websites s)\<rparr>"
    using assms(3) by (simp add: upsert_website_def)
  have own: "web_account r = a" if "r \<in> set (websites s)" "web_id r = mwe_id w" for r
    using owned_row [OF _ assms(2) that] assms(1) by (simp add: keys_distinct_def)
  have "others_kept web_account {a} (websites s) (websites s')"
    unfolding s' using own by (simp add: others_kept_update)
  moreover have "account_sites a s' = account_sites a s"
  proof -
    have "(\<lambda>w. (web_id w, web_account w)) ` set (websites s') = (\<lambda>w. (web_id w, web_account w)) ` set (websites s)"
      unfolding s' by (simp add: update_by_key_set)
    moreover have "account_sites a t = {i. (i, a) \<in> (\<lambda>w. (web_id w, web_account w)) ` set (websites t)}" for t
      by (force simp: account_sites_def)
    ultimately show ?thesis
      by simp
  qed
  moreover have "mwe_id w \<in> account_sites a s"
    using True own by (auto simp: account_sites_def exists_by_iff)
  ultimately show ?thesis
    using assms(1) by (simp add: s' restored_into_def keys_distinct_def)
next
  case False
  then obtain r where s': "s' = s\<lparr>websites := websites s @ [r]\<rparr>" and r: "web_id r = mwe_id w" "web_account r = a"
    using assms(3) by (auto simp: upsert_website_def split: if_splits)
  have "account_sites a s' = insert (mwe_id w) (account_sites a s)"
    using r by (force simp: account_sites_def s')
  moreover have "others_kept web_account {a} (websites s) (websites s @ [r])"
    by (rule others_kept_insert) (simp add: r)
  moreover have "mwe_id w \<notin> web_id ` set (websites s)"
    using False by (simp add: exists_by_iff)
  ultimately show ?thesis
    using assms(1) r by (auto simp: s' restored_into_def keys_distinct_def)
qed

lemma upsert_domain_into:
  assumes "keys_distinct s" "\<forall>r. find_by dom_id (mdo_id d) (domains s) = Some r \<longrightarrow> dom_website r = w"
    "w \<in> account_sites a s" "upsert_domain d w now s = Inr s'"
  shows "restored_into a s s' \<and> keys_distinct s' \<and> account_sites a s' = account_sites a s"
proof (cases "exists_by dom_id (mdo_id d) (domains s)")
  case True
  then have s': "s' = s\<lparr>domains := update_by dom_id (mdo_id d) (restored_domain d now) (domains s)\<rparr>"
    using assms(4) by (simp add: upsert_domain_def split: if_splits)
  have own: "dom_website r = w" if "r \<in> set (domains s)" "dom_id r = mdo_id d" for r
    using domain_table.find_unique [OF _ that(1)] assms(1,2) that(2) by (simp add: keys_distinct_def)
  have "others_kept dom_website (account_sites a s') (domains s) (domains s')"
    using own assms(3) by (simp add: s' others_kept_update account_sites_def)
  then show ?thesis
    using assms(1) by (simp add: s' restored_into_def keys_distinct_def account_sites_def)
next
  case False
  then obtain r where s': "s' = s\<lparr>domains := domains s @ [r]\<rparr>" and r: "dom_id r = mdo_id d" "dom_website r = w"
    using assms(4) by (auto simp: upsert_domain_def split: if_splits)
  have "others_kept dom_website (account_sites a s) (domains s) (domains s @ [r])"
    by (rule others_kept_insert) (simp add: r assms(3))
  moreover have "mdo_id d \<notin> dom_id ` set (domains s)"
    using False by (simp add: exists_by_iff)
  moreover have "account_sites a s' = account_sites a s"
    by (simp add: account_sites_def s')
  ultimately show ?thesis
    using assms(1) r by (simp add: s' restored_into_def keys_distinct_def)
qed

lemma upsert_database_into:
  assumes "keys_distinct s" "owned_or_new Databases a (map_option dba_account (find_by dba_id (mdb_id d) (databases s))) msg s = Inr u"
    "upsert_database d a now s = Inr s'"
  shows "restored_into a s s' \<and> keys_distinct s'"
proof (cases "exists_by dba_id (mdb_id d) (databases s)")
  case True
  then have s': "s' = s\<lparr>databases := update_by dba_id (mdb_id d) (restored_database d now) (databases s)\<rparr>"
    using assms(3) by (simp add: upsert_database_def split: if_splits)
  have "dba_account r = a" if "r \<in> set (databases s)" "dba_id r = mdb_id d" for r
    using owned_row [OF _ assms(2) that] assms(1) by (simp add: keys_distinct_def)
  then have "others_kept dba_account {a} (databases s) (databases s')"
    by (simp add: s' others_kept_update)
  then show ?thesis
    using assms(1) by (simp add: s' restored_into_def keys_distinct_def account_sites_def)
next
  case False
  then obtain r where s': "s' = s\<lparr>databases := databases s @ [r]\<rparr>" and r: "dba_id r = mdb_id d" "dba_account r = a"
    using assms(3) by (auto simp: upsert_database_def split: if_splits)
  have "others_kept dba_account {a} (databases s) (databases s @ [r])"
    by (rule others_kept_insert) (simp add: r)
  moreover have "mdb_id d \<notin> dba_id ` set (databases s)"
    using False by (simp add: exists_by_iff)
  ultimately show ?thesis
    using assms(1) r by (simp add: s' restored_into_def keys_distinct_def account_sites_def)
qed

lemma upsert_task_into:
  assumes "keys_distinct s" "owned_or_new ScheduledTasks a (map_option tsk_account (find_by tsk_id (mta_id t) (tasks s))) msg s = Inr u"
    "upsert_task t a now s = Inr s'"
  shows "restored_into a s s' \<and> keys_distinct s'"
proof (cases "exists_by tsk_id (mta_id t) (tasks s)")
  case True
  then have s': "s' = s\<lparr>tasks := update_by tsk_id (mta_id t) (restored_task t now) (tasks s)\<rparr>"
    using assms(3) by (simp add: upsert_task_def)
  have "tsk_account r = a" if "r \<in> set (tasks s)" "tsk_id r = mta_id t" for r
    using owned_row [OF _ assms(2) that] assms(1) by (simp add: keys_distinct_def)
  then have "others_kept tsk_account {a} (tasks s) (tasks s')"
    by (simp add: s' others_kept_update)
  then show ?thesis
    using assms(1) by (simp add: s' restored_into_def keys_distinct_def account_sites_def)
next
  case False
  then obtain r where s': "s' = s\<lparr>tasks := tasks s @ [r]\<rparr>" and r: "tsk_id r = mta_id t" "tsk_account r = a"
    using assms(3) by (auto simp: upsert_task_def split: if_splits)
  have "others_kept tsk_account {a} (tasks s) (tasks s @ [r])"
    by (rule others_kept_insert) (simp add: r)
  moreover have "mta_id t \<notin> tsk_id ` set (tasks s)"
    using False by (simp add: exists_by_iff)
  ultimately show ?thesis
    using assms(1) r by (simp add: s' restored_into_def keys_distinct_def account_sites_def)
qed

lemma restore_domains_into:
  "restore_domains x a w now ds n s = Inr (m, s') \<Longrightarrow> keys_distinct s \<Longrightarrow> w \<in> account_sites a s \<Longrightarrow>
    restored_into a s s' \<and> keys_distinct s'"
proof (induction ds arbitrary: n s)
  case (Cons d ds)
  from Cons.prems(1) obtain s1 where own: "\<forall>r. find_by dom_id (mdo_id d) (domains s) = Some r \<longrightarrow> dom_website r = w"
    and up: "upsert_domain d w now s = Inr s1"
    and rest: "restore_domains x a w now ds (if mdo_kind d = Primary then Suc n else n) s1 = Inr (m, s')"
    by (auto split: option.splits)
  note one = upsert_domain_into [OF Cons.prems(2) own Cons.prems(3) up]
  show ?case
    using Cons.IH [OF rest] one Cons.prems(3) restored_into_trans by blast
qed simp

lemma restore_websites_into:
  "restore_websites x a now ws s = Inr s' \<Longrightarrow> keys_distinct s \<Longrightarrow> restored_into (acc_id a) s s' \<and> keys_distinct s'"
proof (induction ws arbitrary: s)
  case (Cons w ws)
  from Cons.prems(1) obtain s1 n s2 u msg where own: "owned_or_new Websites (acc_id a)
      (map_option web_account (find_by web_id (mwe_id w) (websites s))) msg s = Inr u"
    and up: "upsert_website w (acc_id a) now s = Inr s1"
    and ds: "restore_domains x (acc_id a) (mwe_id w) now (mwe_domains w) 0 s1 = Inr (n, s2)"
    and rest: "restore_websites x a now ws s2 = Inr s'"
    by auto
  note one = upsert_website_into [OF Cons.prems(2) own up]
  have "restored_into (acc_id a) s1 s2 \<and> keys_distinct s2"
    using restore_domains_into [OF ds] one by blast
  then show ?case
    using one Cons.IH [OF rest] restored_into_trans by blast
qed simp

lemma restore_databases_into:
  "restore_databases x a now ds s = Inr s' \<Longrightarrow> keys_distinct s \<Longrightarrow> restored_into (acc_id a) s s' \<and> keys_distinct s'"
proof (induction ds arbitrary: s)
  case (Cons d ds)
  from Cons.prems(1) obtain s1 u msg where own: "owned_or_new Databases (acc_id a)
      (map_option dba_account (find_by dba_id (mdb_id d) (databases s))) msg s = Inr u"
    and up: "upsert_database d (acc_id a) now s = Inr s1" and rest: "restore_databases x a now ds s1 = Inr s'"
    by auto
  then show ?case
    using upsert_database_into [OF Cons.prems(2) own up] Cons.IH [OF rest] restored_into_trans by blast
qed simp

lemma restore_tasks_into:
  "restore_tasks x a now ts s = Inr s' \<Longrightarrow> keys_distinct s \<Longrightarrow> restored_into (acc_id a) s s' \<and> keys_distinct s'"
proof (induction ts arbitrary: s)
  case (Cons t ts)
  from Cons.prems(1) obtain s1 u msg where own: "owned_or_new ScheduledTasks (acc_id a)
      (map_option tsk_account (find_by tsk_id (mta_id t) (tasks s))) msg s = Inr u"
    and up: "upsert_task t (acc_id a) now s = Inr s1" and rest: "restore_tasks x a now ts s1 = Inr s'"
    by auto
  then show ?case
    using upsert_task_into [OF Cons.prems(2) own up] Cons.IH [OF rest] restored_into_trans by blast
qed simp

lemma system_user_part: "systemUserPattern su \<Longrightarrow> plain_part su"
proof -
  assume *: "systemUserPattern su"
  then have e: "su = ''wcp_'' @ drop 4 su"
    by (metis append_take_drop_id systemUserPattern_def)
  have "CHR ''/'' \<notin> set (drop 4 su)"
    using * by (auto simp: systemUserPattern_def list_all_iff is_hex_lower_def is_digit_def bytes_between_def byte_def)
  then have "CHR ''/'' \<notin> set su"
    by (subst e) simp
  moreover have "su \<noteq> []" "su \<noteq> ''.''" "su \<noteq> ''..''"
    using * by (auto simp: systemUserPattern_def)
  ultimately show ?thesis
    by (simp add: plain_part_def)
qed

lemma web_base_parts:
  assumes "systemUserPattern su"
  shows "is_rooted (path_Join [''/home'', su, ''web''])" "path_parts (path_Join [''/home'', su, ''web'']) = [''home'', su, ''web'']"
proof -
  let ?p = "CHR ''/'' # Join [''home'', su, ''web''] ''/''"
  have e: "path_Join [''/home'', su, ''web''] = path_Clean ?p"
    by (simp add: path_Join_def)
  have r: "is_rooted ?p"
    by (simp add: is_rooted_def)
  have "path_parts ?p = [''home'', su, ''web'']"
    using system_user_part [OF assms] by (intro path_parts_slash) (simp add: plain_part_def)
  then show "is_rooted (path_Join [''/home'', su, ''web''])" "path_parts (path_Join [''/home'', su, ''web'']) = [''home'', su, ''web'']"
    using path_Clean_rooted [OF r] unfolding e by simp_all
qed

lemma restore_root_below:
  assumes "restore_root_ok a w" "systemUserPattern (acc_system_user a)"
  shows "\<exists>p. path_parts (mwe_document_root w) = [''home'', acc_system_user a, ''web'', p, ''public_html'']"
proof -
  obtain r p where r: "path_Rel (path_Join [''/home'', acc_system_user a, ''web'']) (path_Clean (mwe_document_root w)) = Some r"
    "Split r (CHR ''/'') = [p, ''public_html'']" "p \<noteq> ''..''"
    using assms(1) by (auto simp: restore_root_ok_def split: option.splits list.splits)
  have "r \<noteq> ''.''"
    using r(2) by (auto simp: Split_no_sep)
  note below = path_Rel_below [OF r(1) web_base_parts(1) [OF assms(2)] r(2,3) this]
  then have "is_rooted (mwe_document_root w)"
    using path_Clean_relative by blast
  then show ?thesis
    using below web_base_parts(2) [OF assms(2)] path_Clean_rooted(3) by auto
qed

definition in_web_home :: "account \<Rightarrow> website \<Rightarrow> bool" where
  "in_web_home a r \<longleftrightarrow> (\<exists>p. path_parts (web_document_root r) = [''home'', acc_system_user a, ''web'', p, ''public_html''])"

lemma restore_domains_websites:
  "restore_domains x a w now ds n s = Inr (m, s') \<Longrightarrow> websites s' = websites s"
  by (induction ds arbitrary: n s) (fastforce simp: upsert_domain_def split: if_splits)+

lemma restore_databases_websites: "restore_databases x a now ds s = Inr s' \<Longrightarrow> websites s' = websites s"
  by (induction ds arbitrary: s) (fastforce simp: upsert_database_def split: if_splits)+

lemma restore_tasks_websites: "restore_tasks x a now ts s = Inr s' \<Longrightarrow> websites s' = websites s"
  by (induction ts arbitrary: s) (fastforce simp: upsert_task_def split: if_splits)+

lemma restore_websites_home:
  assumes "restore_websites x a now ws s = Inr s'" "systemUserPattern (acc_system_user a)" "r \<in> set (websites s')"
  shows "r \<in> set (websites s) \<or> in_web_home a r"
  using assms(1,3)
proof (induction ws arbitrary: s)
  case (Cons w ws)
  from Cons.prems(1) obtain s1 n s2 where root: "restore_root_ok a w" and up: "upsert_website w (acc_id a) now s = Inr s1"
    and ds: "restore_domains x (acc_id a) (mwe_id w) now (mwe_domains w) 0 s1 = Inr (n, s2)"
    and rest: "restore_websites x a now ws s2 = Inr s'"
    by auto
  obtain p where p: "path_parts (mwe_document_root w) = [''home'', acc_system_user a, ''web'', p, ''public_html'']"
    using restore_root_below [OF root assms(2)] by blast
  have "q \<in> set (websites s) \<or> in_web_home a q" if "q \<in> set (websites s1)" for q
    using that up p by (auto simp: upsert_website_def in_web_home_def restored_website_def split: if_splits elim!: update_by_cases)
  then show ?case
    using Cons.IH [OF rest Cons.prems(2)] restore_domains_websites [OF ds] by auto
qed simp

lemma restored_rows:
  assumes "store_RestoreMetadata x m now s = Inr s'" "keys_distinct s"
  shows "restored_into (met_account m) s s'"
    "store_Account (met_account m) s = Inr a \<Longrightarrow> systemUserPattern (acc_system_user a) \<Longrightarrow>
      \<forall>r \<in> set (websites s'). r \<in> set (websites s) \<or> in_web_home a r"
proof -
  from assms(1) obtain b s1 s2 where a: "store_Account (met_account m) s = Inr b"
    and w: "restore_websites x b now (met_websites m) s = Inr s1"
    and d: "restore_databases x b now (met_databases m) s1 = Inr s2"
    and t: "restore_tasks x b now (met_tasks m) s2 = Inr s'"
    by (auto simp: store_RestoreMetadata_def)
  have id: "acc_id b = met_account m"
    using a by (auto simp: store_Account_def dest: account_table.find_mem)
  show "restored_into (met_account m) s s'"
    using restore_websites_into [OF w assms(2)] restore_databases_into [OF d] restore_tasks_into [OF t]
      restored_into_trans unfolding id by blast
  have "websites s' = websites s1"
    using restore_databases_websites [OF d] restore_tasks_websites [OF t] by simp
  then show "\<forall>r \<in> set (websites s'). r \<in> set (websites s) \<or> in_web_home a r"
    if "store_Account (met_account m) s = Inr a" "systemUserPattern (acc_system_user a)"
    using that a restore_websites_home [OF w] by auto
qed

text \<open>What the rest of the job writes: statuses of the account's tasks, and certificates.\<close>

definition certs_only :: "db \<Rightarrow> db \<Rightarrow> bool" where
  "certs_only s s' \<longleftrightarrow> s'\<lparr>certificates := [], certificate_names := []\<rparr> = s\<lparr>certificates := [], certificate_names := []\<rparr>"

lemma certs_only_refl [simp]: "certs_only s s"
  by (simp add: certs_only_def)

lemma certs_only_trans: "certs_only s s1 \<Longrightarrow> certs_only s1 s2 \<Longrightarrow> certs_only s s2"
  by (simp add: certs_only_def)

lemma certs_only_tables:
  assumes "certs_only s s'"
  shows "websites s' = websites s" "domains s' = domains s" "databases s' = databases s" "tasks s' = tasks s"
proof -
  note e = assms [unfolded certs_only_def]
  show "websites s' = websites s"
    using arg_cong [OF e, of websites] by simp
  show "domains s' = domains s"
    using arg_cong [OF e, of domains] by simp
  show "databases s' = databases s"
    using arg_cong [OF e, of databases] by simp
  show "tasks s' = tasks s"
    using arg_cong [OF e, of tasks] by simp
qed

lemma SetResult_certs: "store_SetResult i names st expires renew msg now s = Inr s' \<Longrightarrow> certs_only s s'"
  by (auto simp: store_SetResult_def certs_only_def replaceCertificateNames_def split: if_splits)

lemma ReconcileWebsite_certs: "certificates_ReconcileWebsite render ag now w s = (e, s') \<Longrightarrow> certs_only s s'"
  by (auto simp: certificates_ReconcileWebsite_def certificates_provision_def dest: SetResult_certs
      split: sum.splits if_splits prod.splits)

lemma reconcile_websites_certs: "reconcile_websites render ag certs now a socket ws s = (e, s') \<Longrightarrow> certs_only s s'"
proof (induction ws arbitrary: s)
  case (Cons w ws)
  obtain e1 s1 where r: "certificates_ReconcileWebsite render certs now (mwe_id w) s = (e1, s1)"
    by fastforce
  have "certs_only s s1"
    by (rule ReconcileWebsite_certs [OF r])
  then show ?case
    using Cons.IH [of s] Cons.IH [of s1] Cons.prems r certs_only_trans by (auto split: if_splits option.splits)
qed simp

lemma Reconcile_tasks:
  assumes "tasks_Reconcile ag now i s = (e, s')"
  shows "s' = s\<lparr>tasks := tasks s'\<rparr>" "others_kept tsk_account {i} (tasks s) (tasks s')"
proof -
  have id: "accounts_Get i s = Inr a \<Longrightarrow> acc_id a = i" for a
    by (auto simp: accounts_Get_def store_Account_def dest: account_table.find_mem)
  have keep: "others_kept tsk_account {i} ts (update_by tsk_account i (task_status_row on off now) ts)" for on off ts
    by (rule others_kept_update) (simp_all add: task_status_row_def)
  show "s' = s\<lparr>tasks := tasks s'\<rparr>" "others_kept tsk_account {i} (tasks s) (tasks s')"
    using assms id keep by (auto simp: tasks_Reconcile_def store_SetTaskStatuses_def split: sum.splits option.splits if_splits)
qed

text \<open>The tables of a state that neither metadata nor its aftermath concern.\<close>

definition same_outside_restore :: "db \<Rightarrow> db \<Rightarrow> bool" where
  "same_outside_restore s s' \<longleftrightarrow>
     s'\<lparr>websites := [], domains := [], databases := [], tasks := [], certificates := [], certificate_names := []\<rparr> =
     s\<lparr>websites := [], domains := [], databases := [], tasks := [], certificates := [], certificate_names := []\<rparr>"

text \<open>C8: a restore job touches one account's data, the account its archive names.  Whatever the archive
  says and however the job ends, if it changes the database at all, then with metadata the agent
  returned for the artifact; every website, database and domain of any other account than the one the
  metadata names keeps value and order, and so does every task but those of that account and of the
  account of the backup, which the job synchronises; a website it wrote has its document root in the
  web directory of the named account's home, if that account's system user has the form the panel gives
  it; the tables of certificates may change, and every other table is as before.  That the named account
  is the account of the backup is not shown, and it need not be: neither the job nor the agent compares
  the two, and the example below rewrites another account's task.\<close>

theorem restore_stays_in_account:
  assumes "backups_RestoreJob x c render ag certs cron now j s = (err, s')" "keys_distinct s"
  shows "s' = s \<or> (\<exists>i f a n q body m. payload_string ''artifactId'' (job_payload j) = Some i \<and> store_BackupArtifact i s = Inr f \<and>
    bag_restore ag n q = Inr body \<and> arq_account q = art_account f \<and> arq_path q = art_path f \<and> snd c body = Some m \<and> store_Account (met_account m) s = Inr a \<and>
    others_kept web_account {met_account m} (websites s) (websites s') \<and>
    others_kept dom_website (account_sites (met_account m) s') (domains s) (domains s') \<and>
    others_kept dba_account {met_account m} (databases s) (databases s') \<and>
    others_kept tsk_account {met_account m, art_account f} (tasks s) (tasks s') \<and>
    (systemUserPattern (acc_system_user a) \<longrightarrow> (\<forall>r \<in> set (websites s'). r \<in> set (websites s) \<or> in_web_home a r)) \<and>
    same_outside_restore s s')"
proof (cases "s' = s")
  case False
  then obtain i files dbs f a body and n :: node where i: "payload_string ''artifactId'' (job_payload j) = Some i" "store_BackupArtifact i s = Inr f"
    "accounts_Get (art_account f) s = Inr a"
    and got: "bag_restore ag (nod_endpoint n) \<lparr>arq_account = art_account f, arq_path = art_path f, arq_checksum = art_checksum f,
        rrq_user = acc_system_user a, rrq_files = files, rrq_databases = dbs, rrq_metadata = True\<rparr> = Inr body"
    and step: "restore_metadata_step x c render ag certs cron now a (nod_endpoint n) body s = (err, s')"
    using assms(1) by (auto simp: backups_RestoreJob_def split: option.splits sum.splits if_splits)
  have id: "acc_id a = art_account f"
    using i(3) by (auto simp: accounts_Get_def store_Account_def dest: account_table.find_mem)
  obtain m s1 where m: "snd c body = Some m" "store_RestoreMetadata x m now s = Inr s1"
    using step False by (auto simp: restore_metadata_step_def split: option.splits sum.splits)
  obtain e2 s2 where t: "tasks_Reconcile cron now (acc_id a) s1 = (e2, s2)"
    by fastforce
  have "certs_only s2 s'"
    using step m t reconcile_websites_certs by (auto simp: restore_metadata_step_def split: option.splits)
  note rows = restored_rows [OF m(2) assms(2)] and after = certs_only_tables [OF this] and tail = this
  have s2: "websites s2 = websites s1" "domains s2 = domains s1" "databases s2 = databases s1"
    by (subst Reconcile_tasks(1) [OF t], simp)+
  have kept: "others_kept tsk_account {met_account m, art_account f} (tasks s) (tasks s2)"
    using others_kept_trans [OF others_kept_mono others_kept_mono] rows(1) Reconcile_tasks(2) [OF t] unfolding restored_into_def id
    by blast
  obtain b where b: "store_Account (met_account m) s = Inr b"
    using m(2) by (auto simp: store_RestoreMetadata_def)
  have "account_sites (met_account m) s' = account_sites (met_account m) s1"
    by (simp add: account_sites_def after s2)
  moreover have "same_outside_restore s s'"
  proof -
    have elsewhere: "same_elsewhere s s1"
      using rows(1) by (simp add: restored_into_def)
    have "same_outside_restore s s1"
      using arg_cong [OF elsewhere [unfolded same_elsewhere_def], of "\<lambda>t. t\<lparr>certificates := [], certificate_names := []\<rparr>"]
      by (simp add: same_outside_restore_def)
    moreover have "same_outside_restore s1 s2"
      unfolding same_outside_restore_def by (subst Reconcile_tasks(1) [OF t]) simp
    moreover have "same_outside_restore s2 s'"
      using tail by (cases s2; cases s') (simp add: certs_only_def same_outside_restore_def)
    ultimately show ?thesis
      by (simp add: same_outside_restore_def)
  qed
  ultimately have "store_Account (met_account m) s = Inr b \<and>
      others_kept web_account {met_account m} (websites s) (websites s') \<and>
      others_kept dom_website (account_sites (met_account m) s') (domains s) (domains s') \<and>
      others_kept dba_account {met_account m} (databases s) (databases s') \<and>
      others_kept tsk_account {met_account m, art_account f} (tasks s) (tasks s') \<and>
      (systemUserPattern (acc_system_user b) \<longrightarrow> (\<forall>r \<in> set (websites s'). r \<in> set (websites s) \<or> in_web_home b r)) \<and>
      same_outside_restore s s'"
    using rows(1) rows(2) [OF b] b kept by (simp add: restored_into_def after s2)
  then show ?thesis
    using i(1,2) m(1) got
    by (intro disjI2 exI [of _ i] exI [of _ f] exI [of _ b] exI [of _ "nod_endpoint n"] exI conjI [OF _ conjI]) auto
qed simp

section \<open>Examples\<close>

definition sample_plan :: backup_plan where
  "sample_plan = \<lparr>pln_id = ''p1'', pln_account = ''a1'', pln_node = ''n1'', pln_name = ''Nightly'',
     pln_schedule = ''0 3 * * *'', pln_driver = ''local'', pln_retention = 1, pln_files = True, pln_databases = True,
     pln_enabled = True, pln_last_run = None, pln_next_run = Some 5, pln_created = 0, pln_updated = 0\<rparr>"

definition sample_run :: backup_run where
  "sample_run = \<lparr>run_id = ''r2'', run_plan = ''p1'', run_account = ''a1'', run_node = ''n1'', run_driver = ''local'',
     run_status = Queued, run_error = [], run_created = 6, run_started = None, run_finished = None\<rparr>"

definition sample_manifest :: manifest where
  "sample_manifest = \<lparr>man_version = 4, man_run = ''r1'', man_account = ''a1'', man_created = 1, man_files = True,
     man_databases = True, man_metadata = True, man_entries = []\<rparr>"

definition sample_artifact :: artifact where
  "sample_artifact = \<lparr>art_id = ''f1'', art_run = ''r1'', art_account = ''a1'', art_node = ''n1'', art_driver = ''local'',
     art_path = ''/var/backups/webycp/a1/r1.tar.gz'', art_checksum = ''c1'', art_size = 10, art_manifest = sample_manifest,
     art_created = 2\<rparr>"

definition sample_backups :: db where
  "sample_backups = sample_hosting\<lparr>members := [\<lparr>mem_account = ''a1'', mem_user = ''u1'', mem_created = 0\<rparr>],
     backup_plans := [sample_plan], artifacts := [sample_artifact],
     backup_runs := [sample_run\<lparr>run_id := ''r1'', run_status := Succeeded\<rparr>, sample_run]\<rparr>"

definition willing_backups :: backup_agent where
  "willing_backups = \<lparr>bag_create = (\<lambda>_ q. Inr \<lparr>aar_path = ''/var/backups/webycp/a1/r2.tar.gz'', aar_checksum = ''c2'', aar_size = 20,
       aar_manifest = sample_manifest\<rparr>),
     bag_preview = (\<lambda>_ _. Inr sample_manifest), bag_restore = (\<lambda>_ _. Inr ''{}''), bag_delete = (\<lambda>_ _. None),
     bag_website = (\<lambda>_ _. None)\<rparr>"

definition sample_backup_job :: job where
  "sample_backup_job = new_job ''j1'' ''n1'' [] KindBackupCreate (run_payload ''r2'') 1 6"

lemmas sample_backup_eval = sample_backups_def sample_plan_def sample_run_def sample_artifact_def willing_backups_def
  sample_backup_job_def new_job_def run_payload_def sample_hosting_def sample_node_def sample_account_def empty_db_def
  find_by_def exists_by_def

lemma sample_backups_inv: "backups_inv sample_backups"
  by (auto simp: backups_inv_def runs_ok_def active_run_def sample_backup_eval)

lemma sample_backup_created:
  "\<exists>s'. backups_Create (\<lambda>_. ''{}'', \<lambda>_. None) (\<lambda>_. []) willing_backups ''f2'' 7 sample_backup_job sample_backups = (None, s')"
proof -
  have "fst (backups_Create (\<lambda>_. ''{}'', \<lambda>_. None) (\<lambda>_. []) willing_backups ''f2'' 7 sample_backup_job sample_backups) = None"
    by code_simp
  then show ?thesis
    by (metis prod.collapse)
qed

abbreviation sample_backup_run :: "err option \<times> db" where
  "sample_backup_run \<equiv>
     backups_Create (\<lambda>_. ''{}'', \<lambda>_. None) (\<lambda>_. []) willing_backups ''f2'' 7 sample_backup_job sample_backups"

lemma sample_runs:
  "r \<in> set (backup_runs sample_backups) \<Longrightarrow> run_id r = ''r2'' \<Longrightarrow> r = sample_run"
  "payload_string ''runId'' (job_payload sample_backup_job) = Some ''r2''"
  "store_BackupPlan ''p1'' sample_backups = Inr sample_plan"
  by (auto simp: store_BackupPlan_def sample_backup_eval)

theorem retention_keeps_newest_witness:
  "\<exists>s'. sample_backup_run = (None, s') \<and> sample_artifact \<notin> set (artifacts s')"
proof -
  obtain s' where s': "sample_backup_run = (None, s')"
    using sample_backup_created by blast
  have "distinct (map art_id (artifacts sample_backups))"
    by (simp add: sample_backup_eval)
  from retention_keeps_newest [OF s' this] obtain r :: backup_run and p f and n :: node where
    r: "run_id r = ''r2''" "r \<in> set (backup_runs sample_backups)" "store_BackupPlan (run_plan r) sample_backups = Inr p"
    and f: "art_run f = run_id r" "art_created f = 7"
    and gone: "\<forall>a \<in> set (drop (nat (pln_retention p)) (order_desc art_created
      (filter (run_of_plan (pln_id p) sample_backups) (artifacts sample_backups @ [f])))). a \<notin> set (artifacts s')"
    by (auto simp: sample_runs(2) Let_def)
  have r': "r = sample_run"
    using sample_runs(1) [OF r(2,1)] .
  then have p: "p = sample_plan"
    using sample_runs(3) r(3) by (simp add: sample_run_def)
  have "run_of_plan ''p1'' sample_backups a \<longleftrightarrow> art_run a = ''r1'' \<or> art_run a = ''r2''" for a
    by (auto simp: run_of_plan_def sample_backup_eval)
  then have "order_desc art_created (filter (run_of_plan (pln_id p) sample_backups) (artifacts sample_backups @ [f])) =
      [f, sample_artifact]"
    using f r' by (simp add: p sample_backups_def sample_plan_def sample_run_def sample_artifact_def order_desc_def)
  then have "sample_artifact \<notin> set (artifacts s')"
    using gone by (simp add: p sample_plan_def)
  with s' show ?thesis by blast
qed

theorem one_active_run_per_plan_witness: "\<exists>s'. sample_backup_run = (None, s') \<and> backups_inv s'"
proof -
  obtain s' where s': "sample_backup_run = (None, s')"
    using sample_backup_created by blast
  then show ?thesis
    using one_active_run_per_plan [OF backup_step.create [OF s'] sample_backups_inv] by blast
qed

theorem backup_job_settles_witness: "\<exists>s'. sample_backup_run = (None, s') \<and> \<not> store_BackupRunPending ''p1'' s'"
proof -
  obtain s' where s': "sample_backup_run = (None, s')"
    using sample_backup_created by blast
  have "backups_run ''r2'' sample_backups = Inr sample_run"
    by code_simp
  from backup_job_settles [OF s' sample_backups_inv sample_runs(2) _ this] s' show ?thesis
    by (auto simp: sample_run_def)
qed

definition sample_idle :: db where
  "sample_idle = sample_backups\<lparr>backup_runs := [sample_run\<lparr>run_id := ''r1'', run_status := Succeeded\<rparr>]\<rparr>"

lemma sample_idle_facts:
  "backups_inv sample_idle" "store_DueBackupPlans 6 sample_idle = [sample_plan]" "\<not> store_BackupRunPending ''p1'' sample_idle"
proof -
  show "backups_inv sample_idle"
    by (auto simp: backups_inv_def runs_ok_def active_run_def sample_idle_def sample_backup_eval)
  show "store_DueBackupPlans 6 sample_idle = [sample_plan]"
    by (simp add: store_DueBackupPlans_def plan_due_def sample_idle_def sample_backup_eval order_asc_def)
  show "\<not> store_BackupRunPending ''p1'' sample_idle"
    by (simp add: store_BackupRunPending_def active_run_def sample_idle_def sample_backup_eval)
qed

lemma sample_queue_due:
  "\<exists>s'. backups_QueueDue x [(''r3'', ''j3'')] 6 sample_idle = (None, s')"
  unfolding backups_QueueDue_def sample_idle_facts(2)
  by (simp add: backups_queue_def store_QueueBackupRun_def insert_run_def store_BackupRunPending_def active_run_def
      createJob_def store_CreateJob_def Let_def sample_idle_def sample_backup_eval)

theorem due_plans_run_witness:
  "\<exists>s'. backups_QueueDue plain_ext [(''r3'', ''j3'')] 6 sample_idle = (None, s') \<and> store_BackupRunPending ''p1'' s'"
proof -
  obtain s' where s': "backups_QueueDue plain_ext [(''r3'', ''j3'')] 6 sample_idle = (None, s')"
    using sample_queue_due by blast
  from due_plans_run [OF s' sample_idle_facts(1)] s' sample_idle_facts(2) show ?thesis
    by (auto simp: sample_plan_def)
qed

theorem impossible_schedule_always_due_witness:
  "\<exists>s'. backups_QueueDue (plain_ext\<lparr>ext_cron_next := \<lambda>_ _. Some zero_time\<rparr>) [(''r3'', ''j3'')] 6 sample_idle = (None, s') \<and>
     (\<exists>p \<in> set (store_DueBackupPlans 60000 s'). pln_id p = ''p1'')"
proof -
  let ?x = "plain_ext\<lparr>ext_cron_next := \<lambda>_ _. Some zero_time\<rparr>"
  obtain s' where s': "backups_QueueDue ?x [(''r3'', ''j3'')] 6 sample_idle = (None, s')"
    using sample_queue_due by blast
  have "sample_plan \<in> set (store_DueBackupPlans 6 sample_idle)" "\<not> store_BackupRunPending (pln_id sample_plan) sample_idle"
    "ext_cron_next ?x (pln_schedule sample_plan) 6 = Some zero_time" "zero_time \<le> 60000"
    using sample_idle_facts by (simp_all add: sample_plan_def zero_time_def)
  from impossible_schedule_always_due [OF s' sample_idle_facts(1) this] s' show ?thesis
    by (auto simp: sample_plan_def)
qed

text \<open>An archive with one task of an account.\<close>

definition sample_meta_task :: meta_task where
  "sample_meta_task = meta_task_of sample_task"

definition sample_metadata :: metadata where
  "sample_metadata = \<lparr>met_version = 4, met_account = replicate 32 CHR ''a'', met_websites = [], met_databases = [],
     met_tasks = [sample_meta_task]\<rparr>"

lemma sample_task_name: "validate_ResourceName ''Nightly'' = Inr ''Nightly''"
  by (simp add: validate_ResourceName_def Let_def ascii_eval runes_ascii IsControl_def)

text \<open>
  The archive of a backup of one account whose metadata names another one: the job of the first account
  rewrites the second one's task.
\<close>

definition sample_intruder :: account where
  "sample_intruder = sample_owner\<lparr>acc_id := ''a1'', acc_system_user := ''wcp_a1''\<rparr>"

definition sample_crossed :: db where
  "sample_crossed = sample_crond\<lparr>accounts := [sample_intruder, sample_owner], artifacts := [sample_artifact],
     tasks := [sample_task\<lparr>tsk_status := Active\<rparr>]\<rparr>"

definition sample_restore_job :: job where
  "sample_restore_job = new_job ''j1'' ''n1'' [] KindBackupRestore
     (restore_payload ''f1'' False False True) 1 6"

abbreviation sample_restore :: "err option \<times> db" where
  "sample_restore \<equiv> backups_RestoreJob plain_ext (\<lambda>_. ''{}'', \<lambda>_. Some sample_metadata) (\<lambda>_. []) willing_backups
     (\<lambda>_ _. Inl ErrNone) (\<lambda>_ _ _ _. None) 9 sample_restore_job sample_crossed"

lemma sample_crossed_sel:
  "accounts sample_crossed = [sample_intruder, sample_owner]" "nodes sample_crossed = [sample_node]"
  "artifacts sample_crossed = [sample_artifact]" "tasks sample_crossed = [sample_task\<lparr>tsk_status := Active\<rparr>]"
  by (simp_all add: sample_crossed_def sample_crond_def sample_tenant_eval)

lemma sample_ids_differ: "acc_id sample_intruder = ''a1''" "acc_id sample_owner = replicate 32 CHR ''a''"
    "''a1'' \<noteq> replicate 32 CHR ''a''" "tsk_account sample_task = replicate 32 CHR ''a''"
proof -
  have "length ''a1'' \<noteq> length (replicate 32 CHR ''a'')"
    by simp
  then show "''a1'' \<noteq> replicate 32 CHR ''a''"
    by metis
qed (simp_all add: sample_intruder_def sample_owner_def sample_task_def)

lemma sample_crossing:
  "\<exists>s'. sample_restore = (None, s') \<and> tasks s' \<noteq> tasks sample_crossed"
proof -
  define s1 where "s1 = sample_crossed\<lparr>tasks := [restored_task sample_meta_task 9 (sample_task\<lparr>tsk_status := Active\<rparr>)]\<rparr>"
  have m: "idPattern (replicate 32 CHR ''a'')" "mta_id sample_meta_task = tsk_id sample_task"
    by (code_simp, simp add: sample_meta_task_def meta_task_of_def)
  have check: "restore_task_check plain_ext sample_owner sample_meta_task = Inr ()"
    using sample_task_ok sample_task_name
    by (auto simp: restore_task_check_def sample_meta_task_def meta_task_of_def task_ok_def sample_task_def sample_owner_def
        sample_account_def)
  have "restore_tasks plain_ext sample_owner 9 [sample_meta_task] sample_crossed = Inr s1"
    using check by (simp add: owned_or_new_def upsert_task_def exists_by_def find_by_def sample_crossed_sel m(2) update_by_def s1_def sample_ids_differ
        del: replicate.simps)
  moreover have "store_Account (replicate 32 CHR ''a'') sample_crossed = Inr sample_owner"
    using sample_ids_differ by (simp add: store_Account_def find_by_def sample_crossed_sel del: replicate.simps)
  ultimately have restored: "store_RestoreMetadata plain_ext sample_metadata 9 sample_crossed = Inr s1"
    using m(1) by (simp add: store_RestoreMetadata_def sample_metadata_def backupfmt_Version_def del: replicate.simps)
  have a1: "accounts_Get ''a1'' s = Inr sample_intruder" "store_Node ''n1'' s = Inr sample_node"
    if "s \<in> {s1, sample_crossed}" for s
    using that by (auto simp: accounts_Get_def store_Account_def store_Node_def find_by_def s1_def sample_crossed_sel sample_ids_differ sample_node_def)
  have node: "acc_node sample_intruder = ''n1''"
    by (simp add: sample_intruder_def sample_owner_def sample_account_def)
  have "tsk_account (restored_task sample_meta_task 9 (sample_task\<lparr>tsk_status := Active\<rparr>)) \<noteq> ''a1''"
    using sample_ids_differ by (simp add: restored_task_def del: replicate.simps)
  then have mine: "store_AccountScheduledTasks ''a1'' s1 = []" "store_SetTaskStatuses ''a1'' on off 9 s1 = s1" for on off
    by (simp_all add: store_AccountScheduledTasks_def store_SetTaskStatuses_def order_asc_def s1_def update_by_def)
  have "tasks_Reconcile (\<lambda>_ _ _ _. None) 9 ''a1'' s1 = (None, s1)"
    using a1 [of s1] node mine by (simp add: tasks_Reconcile_def sample_ids_differ wanted_tasks_def)
  moreover have "store_BackupArtifact ''f1'' sample_crossed = Inr sample_artifact"
    by (simp add: store_BackupArtifact_def find_by_def sample_crossed_sel sample_artifact_def)
  moreover have "art_driver sample_artifact = services_Local" "art_account sample_artifact = ''a1''" "art_node sample_artifact = ''n1''"
    by (simp_all add: sample_artifact_def services_Local_def)
  ultimately have "sample_restore = (None, s1)"
    using restored a1 [of sample_crossed]
    by (simp add: backups_RestoreJob_def sample_restore_job_def new_job_def restore_payload_def restore_scope_def
        restore_metadata_step_def willing_backups_def sample_ids_differ) (simp add: sample_metadata_def)
  moreover have "tasks s1 \<noteq> tasks sample_crossed"
    by (simp add: s1_def sample_crossed_sel restored_task_def sample_meta_task_def meta_task_of_def sample_task_def restored_status_def)
  ultimately show ?thesis
    by blast
qed

theorem restore_stays_in_account_witness:
  "\<exists>s'. sample_restore = (None, s') \<and> tasks s' \<noteq> tasks sample_crossed \<and> same_outside_restore sample_crossed s' \<and>
     others_kept dba_account {replicate 32 CHR ''a''} (databases sample_crossed) (databases s')"
proof -
  obtain s' where s': "sample_restore = (None, s')" "tasks s' \<noteq> tasks sample_crossed"
    using sample_crossing by blast
  have "keys_distinct sample_crossed"
    by (simp add: keys_distinct_def sample_crossed_def sample_crond_def sample_tenant_eval)
  from restore_stays_in_account [OF s'(1) this] s'(2) obtain m where "Some sample_metadata = Some m"
    "others_kept dba_account {met_account m} (databases sample_crossed) (databases s')" "same_outside_restore sample_crossed s'"
    unfolding snd_conv by metis
  then show ?thesis
    using s' by (auto simp: sample_metadata_def)
qed

section \<open>Contracts\<close>

lemma QueueBackupRun_queues:
  "store_QueueBackupRun r j nxt s = Inr ((v, j'), s') \<Longrightarrow> 1 \<le> job_max j \<Longrightarrow> queues_one s j' s'"
  by (auto simp: store_QueueBackupRun_def insert_run_def Let_def split: if_splits intro: createJob_queues)

interpretation backup_run_request: queued_operation
  "\<lambda>(x, i, u, admin, rid, jid, now). backups_Run x i u admin rid jid now"
  by unfold_locales (auto simp: backups_Run_def backups_queue_def new_job_def dest!: QueueBackupRun_queues)

interpretation backup_restore_request: queued_operation
  "\<lambda>(i, u, admin, files, dbs, meta, jid, now) s.
    andthen (backups_Restore i u admin files dbs meta jid now s) (\<lambda>(j, s'). Inr (((), j), s'))"
  by unfold_locales (auto simp: backups_Restore_def new_job_def dest!: CreateJob_queues [OF _ _ refl refl])

interpretation owned_plan: owned_resource backups_plan backup_plans pln_id pln_account
  by unfold_locales (auto simp: backups_plan_def store_BackupPlan_def dest: plan_table.find_mem)

lemma insert_plan_Inr:
  "insert_plan p s = Inr (r, s') \<Longrightarrow> r = p\<lparr>pln_last_run := None\<rparr> \<and> s' = s\<lparr>backup_plans := backup_plans s @ [r]\<rparr>"
  by (auto simp: insert_plan_def Let_def split: if_splits)

interpretation plan_quota: capped_create store_CreateBackupPlan BackupPlans "\<lambda>p s. pln_account p" "\<lambda>_. True"
  by unfold_locales (auto simp: store_CreateBackupPlan_def dest!: insert_plan_Inr)

end
