(* ===== verification/Restore.thy ===== *)
theory Restore
  imports Backups
begin

text \<open>
  Export and restore of an account's metadata, composed: what \<open>metadata\<close> of
  \<open>internal/backups/service.go\<close> writes into an archive, \<open>RestoreMetadata\<close> of
  \<open>store/sqlite/backups.go\<close> accepts and turns back into the same rows.
\<close>

section \<open>Writing a row back\<close>

definition touched :: "('r \<Rightarrow> 'r) \<Rightarrow> ('r \<Rightarrow> ident) \<Rightarrow> ident set \<Rightarrow> 'r list \<Rightarrow> 'r list" where
  "touched g key I rs = map (\<lambda>r. if key r \<in> I then g r else r) rs"

lemma touched_empty [simp]: "touched g key {} rs = rs"
  by (simp add: touched_def)

lemma touched_mem: "r' \<in> set (touched g key I rs) \<Longrightarrow> \<exists>r \<in> set rs. r' = r \<or> r' = g r"
  by (auto simp: touched_def)

lemma find_touched:
  assumes "\<And>r. key (g r) = key r"
  shows "find_by key i (touched g key I rs) = map_option (\<lambda>r. if i \<in> I then g r else r) (find_by key i rs)"
  using assms by (induction rs) (auto simp: find_by_def touched_def)

lemma update_touched:
  assumes "distinct (map key rs)" "r0 \<in> set rs" "\<And>r. key (g r) = key r" "f r0 = g r0" "f (g r0) = g r0"
  shows "update_by key (key r0) f (touched g key I rs) = touched g key (insert (key r0) I) rs"
proof -
  have "(if key (if key r \<in> I then g r else r) = key r0 then f (if key r \<in> I then g r else r)
      else if key r \<in> I then g r else r) = (if key r \<in> insert (key r0) I then g r else r)" if "r \<in> set rs" for r
  proof (cases "key r = key r0")
    case True
    then have "r = r0"
      using distinct_key_unique [OF assms(1) that assms(2)] by simp
    with assms(3-5) show ?thesis by simp
  qed (simp add: assms(3))
  then show ?thesis
    by (simp add: update_by_def touched_def)
qed

definition refreshed_website :: "msec \<Rightarrow> website \<Rightarrow> website" where
  "refreshed_website now r = r\<lparr>web_status := restored_status (web_enabled r), web_updated := now\<rparr>"

definition refreshed_domain :: "msec \<Rightarrow> domain \<Rightarrow> domain" where
  "refreshed_domain now d = d\<lparr>dom_status := restored_status (dom_enabled d), dom_updated := now\<rparr>"

definition refreshed_database :: "msec \<Rightarrow> database \<Rightarrow> database" where
  "refreshed_database now d = d\<lparr>dba_status := Active, dba_updated := now\<rparr>"

definition refreshed_task :: "msec \<Rightarrow> task \<Rightarrow> task" where
  "refreshed_task now t = t\<lparr>tsk_status := restored_status (tsk_enabled t), tsk_updated := now\<rparr>"

lemma refreshed_sel [simp]:
  "web_id (refreshed_website now w) = web_id w" "web_account (refreshed_website now w) = web_account w"
  "dom_id (refreshed_domain now d) = dom_id d" "dom_website (refreshed_domain now d) = dom_website d"
  "dom_hostname (refreshed_domain now d) = dom_hostname d" "dom_kind (refreshed_domain now d) = dom_kind d"
  "dba_id (refreshed_database now b) = dba_id b" "dba_account (refreshed_database now b) = dba_account b"
  "dba_system_name (refreshed_database now b) = dba_system_name b" "dba_name (refreshed_database now b) = dba_name b"
  "tsk_id (refreshed_task now t) = tsk_id t" "tsk_account (refreshed_task now t) = tsk_account t"
  by (simp_all add: refreshed_website_def refreshed_domain_def refreshed_database_def refreshed_task_def)

lemma restored_is_refreshed [simp]:
  "restored_website (meta_website_of w ds) now w = refreshed_website now w"
  "restored_website (meta_website_of w ds) now (refreshed_website now w) = refreshed_website now w"
  "restored_domain (meta_domain_of d) now d = refreshed_domain now d"
  "restored_domain (meta_domain_of d) now (refreshed_domain now d) = refreshed_domain now d"
  "restored_task (meta_task_of t) now t = refreshed_task now t"
  "restored_task (meta_task_of t) now (refreshed_task now t) = refreshed_task now t"
  "restored_database (meta_database_of b) now b = refreshed_database now b"
  "restored_database (meta_database_of b) now (refreshed_database now b) = refreshed_database now b"
  by (simp_all add: restored_website_def meta_website_of_def refreshed_website_def restored_domain_def meta_domain_of_def
      refreshed_domain_def restored_task_def meta_task_of_def refreshed_task_def restored_database_def meta_database_of_def
      refreshed_database_def)

section \<open>What the services store\<close>

text \<open>
  The form of the rows of an account, as the creating operations write them: normalised names,
  the supported stack, the account's node, the document root in the account's home.
\<close>

definition site_form :: "account \<Rightarrow> website \<Rightarrow> bool" where
  "site_form a w \<longleftrightarrow> idPattern (web_id w) \<and> web_node w = acc_node a \<and> web_kind w = ''php'' \<and> web_web_driver w = ''nginx'' \<and>
     web_runtime_driver w = ''phpfpm'' \<and> web_runtime_version w = ''8.3'' \<and> succeeds (validate_ResourceName (web_name w)) \<and>
     web_document_root w = document_root (acc_system_user a) (web_id w)"

definition domain_form :: "ext \<Rightarrow> domain \<Rightarrow> bool" where
  "domain_form x d \<longleftrightarrow> idPattern (dom_id d) \<and> validate_Domain x (dom_hostname d) = Inr (dom_hostname d)"

definition database_form :: "ext \<Rightarrow> account \<Rightarrow> database \<Rightarrow> bool" where
  "database_form x a d \<longleftrightarrow> idPattern (dba_id d) \<and> dba_node d = acc_node a \<and>
     validate_DatabaseName x (dba_name d) = Inr (dba_name d) \<and> succeeds (validate_DatabaseSystemName (dba_system_name d))"

definition task_form :: "ext \<Rightarrow> account \<Rightarrow> task \<Rightarrow> bool" where
  "task_form x a t \<longleftrightarrow> task_ok x t \<and> tsk_node t = acc_node a \<and> succeeds (validate_ResourceName (tsk_name t))"

definition rows_form :: "ext \<Rightarrow> account \<Rightarrow> db \<Rightarrow> bool" where
  "rows_form x a s \<longleftrightarrow> idPattern (acc_id a) \<and> systemUserPattern (acc_system_user a) \<and> acc_node a \<noteq> [] \<and>
     (\<forall>w \<in> set (websites s). web_account w = acc_id a \<longrightarrow> site_form a w) \<and>
     (\<forall>d \<in> set (domains s). domain_form x d) \<and>
     (\<forall>d \<in> set (databases s). dba_account d = acc_id a \<longrightarrow> database_form x a d) \<and>
     (\<forall>t \<in> set (tasks s). tsk_account t = acc_id a \<longrightarrow> task_form x a t)"

lemma document_root_ok:
  assumes "systemUserPattern (acc_system_user a)" "idPattern i"
    "mwe_document_root w = document_root (acc_system_user a) i"
  shows "restore_root_ok a w"
proof -
  let ?su = "acc_system_user a"
  have i: "plain_part i"
  proof -
    have "CHR ''/'' \<notin> set i"
      using assms(2) by (auto simp: idPattern_def list_all_iff is_hex_lower_def is_digit_def bytes_between_def byte_def)
    then show ?thesis
      using assms(2) by (auto simp: plain_part_def idPattern_def)
  qed
  have root: "document_root ?su i = CHR ''/'' # Join [''home'', ?su, ''web'', i, ''public_html''] ''/''"
    by (simp add: document_root_def)
  have r: "is_rooted (document_root ?su i)"
    by (simp add: root is_rooted_def)
  have parts: "path_parts (document_root ?su i) = [''home'', ?su, ''web'', i, ''public_html'']"
    unfolding root using system_user_part [OF assms(1)] i by (intro path_parts_slash) (simp add: plain_part_def)
  have "path_Rel (path_Join [''/home'', ?su, ''web'']) (path_Clean (document_root ?su i)) = Some (i @ ''/public_html'')"
    using web_base_parts [OF assms(1)] path_Clean_rooted [OF r] parts by (simp add: path_Rel_def)
  moreover have "Split (i @ ''/public_html'') (CHR ''/'') = [i, ''public_html'']"
    using i by (simp add: Split_append plain_part_def)
  moreover have "\<not> is_rooted (i @ ''/public_html'')" "i \<noteq> []" "i \<noteq> ''..''"
  proof -
    obtain c cs where c: "i = c # cs"
      using i by (cases i) (simp_all add: plain_part_def)
    then show "\<not> is_rooted (i @ ''/public_html'')" "i \<noteq> []" "i \<noteq> ''..''"
      using i by (auto simp: is_rooted_def plain_part_def)
  qed
  ultimately show ?thesis
    using assms(3) by (simp add: restore_root_ok_def)
qed

section \<open>Restoring an export\<close>

text \<open>The store while an export is written back: the rows of the given identifiers are done.\<close>

definition partly :: "msec \<Rightarrow> ident set \<Rightarrow> ident set \<Rightarrow> ident set \<Rightarrow> ident set \<Rightarrow> db \<Rightarrow> db" where
  "partly now W D B T s = s\<lparr>websites := touched (refreshed_website now) web_id W (websites s),
     domains := touched (refreshed_domain now) dom_id D (domains s),
     databases := touched (refreshed_database now) dba_id B (databases s),
     tasks := touched (refreshed_task now) tsk_id T (tasks s)\<rparr>"

lemma partly_none: "partly now {} {} {} {} s = s"
  by (simp add: partly_def)

lemma partly_sel [simp]:
  "websites (partly now W D B T s) = touched (refreshed_website now) web_id W (websites s)"
  "domains (partly now W D B T s) = touched (refreshed_domain now) dom_id D (domains s)"
  "databases (partly now W D B T s) = touched (refreshed_database now) dba_id B (databases s)"
  "tasks (partly now W D B T s) = touched (refreshed_task now) tsk_id T (tasks s)"
  by (simp_all add: partly_def)

lemma exists_touched:
  assumes "\<And>r. key (g r) = key r"
  shows "exists_by key i (touched g key I rs) \<longleftrightarrow> i \<in> key ` set rs"
  using assms by (induction rs) (auto simp: exists_by_def touched_def)

lemma meta_ids [simp]:
  "mwe_id (meta_website_of w ds) = web_id w" "mdo_id (meta_domain_of d) = dom_id d"
  "mdb_id (meta_database_of b) = dba_id b" "mta_id (meta_task_of t) = tsk_id t"
  "mdo_hostname (meta_domain_of d) = dom_hostname d" "mdo_kind (meta_domain_of d) = dom_kind d"
  "mdb_system_name (meta_database_of b) = dba_system_name b" "mdb_name (meta_database_of b) = dba_name b"
  "mwe_domains (meta_website_of w ds) = map meta_domain_of ds"
  "mwe_document_root (meta_website_of w ds) = web_document_root w"
  by (simp_all add: meta_website_of_def meta_domain_of_def meta_database_of_def meta_task_of_def)

lemma upsert_website_back:
  assumes "distinct (map web_id (websites s))" "w \<in> set (websites s)"
  shows "upsert_website (meta_website_of w ds) a now (partly now W D B T s) = Inr (partly now (insert (web_id w) W) D B T s)"
  using update_touched [OF assms, of "refreshed_website now" "restored_website (meta_website_of w ds) now" W] assms(2)
  by (simp add: upsert_website_def exists_touched partly_def)

lemma upsert_task_back:
  assumes "distinct (map tsk_id (tasks s))" "t \<in> set (tasks s)"
  shows "upsert_task (meta_task_of t) a now (partly now W D B T s) = Inr (partly now W D B (insert (tsk_id t) T) s)"
  using update_touched [OF assms, of "refreshed_task now" "restored_task (meta_task_of t) now" T] assms(2)
  by (simp add: upsert_task_def exists_touched partly_def)

lemma upsert_domain_back:
  assumes "websites_inv s" "d \<in> set (domains s)"
  shows "upsert_domain (meta_domain_of d) (dom_website d) now (partly now W D B T s) = Inr (partly now W (insert (dom_id d) D) B T s)"
proof -
  have ids: "distinct (map dom_id (domains s))" and hosts: "distinct (map (nocase \<circ> dom_hostname) (domains s))"
    and prim: "distinct (map dom_website (filter (\<lambda>d. dom_kind d = Primary) (domains s)))"
    using assms(1) reserved_hostnames_distinct by (auto simp: websites_inv_def domains_inv_def)
  have host: "e = d" if "e \<in> set (domains s)" "nocase (dom_hostname e) = nocase (dom_hostname d)" for e
    using distinct_key_unique [OF hosts that(1) assms(2)] that(2) by simp
  have primary: "e = d" if "e \<in> set (domains s)" "dom_website e = dom_website d" "dom_kind e = Primary" "dom_kind d = Primary" for e
    using distinct_key_unique [OF prim, of e d] that assms(2) by simp
  have "\<not> list_ex (\<lambda>r. dom_id r \<noteq> dom_id d \<and> nocase (dom_hostname r) = nocase (dom_hostname d))
      (touched (refreshed_domain now) dom_id D (domains s))"
    using host by (fastforce simp: list_ex_iff dest!: touched_mem)
  moreover have "\<not> (dom_kind d = Primary \<and> list_ex (\<lambda>r. dom_id r \<noteq> dom_id d \<and> dom_website r = dom_website d \<and> dom_kind r = Primary)
      (touched (refreshed_domain now) dom_id D (domains s)))"
    using primary by (fastforce simp: list_ex_iff dest!: touched_mem)
  ultimately show ?thesis
    using update_touched [OF ids assms(2), of "refreshed_domain now" "restored_domain (meta_domain_of d) now" D] assms(2)
    by (simp add: upsert_domain_def exists_touched partly_def)
qed

lemma upsert_database_back:
  assumes "distinct (map dba_id (databases s))" "d \<in> set (databases s)"
    "\<And>e. e \<in> set (databases s) \<Longrightarrow> dba_system_name e = dba_system_name d \<or>
      dba_account e = dba_account d \<and> nocase (dba_name e) = nocase (dba_name d) \<Longrightarrow> e = d"
  shows "upsert_database (meta_database_of d) (dba_account d) now (partly now W D B T s) =
    Inr (partly now W D (insert (dba_id d) B) T s)"
proof -
  have "\<not> list_ex (\<lambda>r. dba_id r \<noteq> dba_id d \<and> dba_system_name r = dba_system_name d)
      (touched (refreshed_database now) dba_id B (databases s))"
    using assms(3) by (fastforce simp: list_ex_iff dest!: touched_mem)
  moreover have "\<not> list_ex (\<lambda>r. dba_id r \<noteq> dba_id d \<and> dba_account r = dba_account d \<and> nocase (dba_name r) = nocase (dba_name d))
      (touched (refreshed_database now) dba_id B (databases s))"
    using assms(3) by (fastforce simp: list_ex_iff dest!: touched_mem)
  ultimately show ?thesis
    using update_touched [OF assms(1,2), of "refreshed_database now" "restored_database (meta_database_of d) now" B] assms(2)
    by (simp add: upsert_database_def exists_touched partly_def)
qed

lemma domains_back:
  assumes "websites_inv s" "\<forall>d \<in> set (domains s). domain_form x d"
    "set ds \<subseteq> {d \<in> set (domains s). dom_website d = w}"
  shows "restore_domains x a w now (map meta_domain_of ds) n (partly now W D B T s) =
    Inr (n + length (filter (\<lambda>d. dom_kind d = Primary) ds), partly now W (dom_id ` set ds \<union> D) B T s)"
  using assms(3)
proof (induction ds arbitrary: n D)
  case (Cons d ds)
  have d: "d \<in> set (domains s)" "dom_website d = w"
    using Cons.prems by auto
  have "distinct (map dom_id (domains s))" "dom_kind d = Primary \<or> dom_kind d = Alias"
    using assms(1) d(1) by (auto simp: websites_inv_def domains_inv_def)
  moreover have "find_by dom_id (dom_id d) (domains s) = Some d"
    using domain_table.find_unique [OF calculation(1) d(1)] .
  moreover have "restore_domain_ok x (meta_domain_of d)"
    using assms(2) d(1) calculation(2) by (auto simp: restore_domain_ok_def domain_form_def)
  ultimately show ?case
    using upsert_domain_back [OF assms(1) d(1)] d(2) Cons.IH Cons.prems
    by (simp add: find_touched)
qed simp

lemma one_of_distinct: "distinct (map k xs) \<Longrightarrow> i \<in> k ` set xs \<Longrightarrow> length (filter (\<lambda>x. k x = i) xs) = 1"
  by (induction xs) (auto simp: filter_empty_conv image_iff)

lemma one_primary:
  assumes "websites_inv s" "w \<in> set (websites s)"
  shows "length (filter (\<lambda>d. dom_kind d = Primary) (store_WebsiteDomains (web_id w) s)) = 1"
proof -
  let ?ds = "filter (\<lambda>d. dom_kind d = Primary) (domains s)"
  have "mset (filter (\<lambda>d. dom_kind d = Primary) (store_WebsiteDomains (web_id w) s)) =
      mset (filter (\<lambda>d. dom_website d = web_id w) ?ds)"
    by (simp add: store_WebsiteDomains_def order_domains_def order_asc_def filter_filter_mset conj_commute)
  then have "length (filter (\<lambda>d. dom_kind d = Primary) (store_WebsiteDomains (web_id w) s)) =
      length (filter (\<lambda>d. dom_website d = web_id w) ?ds)"
    by (rule mset_eq_length)
  moreover have "distinct (map dom_website ?ds)"
    using assms(1) by (simp add: websites_inv_def domains_inv_def)
  moreover obtain d where "d \<in> set (domains s)" "dom_website d = web_id w" "dom_kind d = Primary"
    by (rule primary_of_website [OF assms])
  then have "web_id w \<in> dom_website ` set ?ds"
    by force
  ultimately show ?thesis
    using one_of_distinct [of dom_website ?ds "web_id w"] by (simp only:)
qed

lemma websites_back:
  assumes "websites_inv s" "rows_form x a s" "set ws \<subseteq> {w \<in> set (websites s). web_account w = acc_id a}"
  shows "restore_websites x a now (map (\<lambda>w. meta_website_of w (store_WebsiteDomains (web_id w) s)) ws) (partly now W D B T s) =
    Inr (partly now (web_id ` set ws \<union> W)
      (dom_id ` {d \<in> set (domains s). dom_website d \<in> web_id ` set ws} \<union> D) B T s)"
  using assms(3)
proof (induction ws arbitrary: W D)
  case (Cons w ws)
  let ?ds = "store_WebsiteDomains (web_id w) s"
  have w: "w \<in> set (websites s)" "web_account w = acc_id a"
    using Cons.prems by auto
  have form: "site_form a w" and su: "systemUserPattern (acc_system_user a)" "acc_node a \<noteq> []"
    and dform: "\<forall>d \<in> set (domains s). domain_form x d"
    using assms(2) w by (auto simp: rows_form_def)
  have ok: "restore_website_ok a (meta_website_of w ?ds)" "restore_root_ok a (meta_website_of w ?ds)"
    using form su document_root_ok [OF su(1), of "web_id w" "meta_website_of w ?ds"]
    by (auto simp: restore_website_ok_def site_form_def meta_website_of_def)
  have ids: "distinct (map web_id (websites s))"
    using assms(1) by (simp add: websites_inv_def domains_inv_def)
  have found: "find_by web_id (web_id w) (websites s) = Some w"
    by (rule website_table.find_unique [OF ids w(1)])
  have sub: "set ?ds \<subseteq> {d \<in> set (domains s). dom_website d = web_id w}"
    by (auto simp: store_WebsiteDomains_def)
  have one: "length (filter (\<lambda>d. dom_kind d = Primary) ?ds) = 1"
    by (rule one_primary [OF assms(1) w(1)])
  note up = upsert_website_back [OF ids w(1), of ?ds "acc_id a" now W D B T]
  note ds = domains_back [OF assms(1) dform sub, of "acc_id a" now 0 "insert (web_id w) W" D B T]
  have all: "dom_id ` set ?ds = dom_id ` {d \<in> set (domains s). dom_website d = web_id w}"
    by (auto simp: store_WebsiteDomains_def)
  have "restore_websites x a now (map (\<lambda>w. meta_website_of w (store_WebsiteDomains (web_id w) s)) ws)
      (partly now (insert (web_id w) W) (dom_id ` set ?ds \<union> D) B T s) =
    Inr (partly now (web_id ` set ws \<union> insert (web_id w) W)
      (dom_id ` {d \<in> set (domains s). dom_website d \<in> web_id ` set ws} \<union> (dom_id ` set ?ds \<union> D)) B T s)"
    using Cons.prems by (intro Cons.IH) auto
  moreover have "dom_id ` {d \<in> set (domains s). dom_website d \<in> web_id ` set ws} \<union> (dom_id ` set ?ds \<union> D) =
      dom_id ` {d \<in> set (domains s). dom_website d \<in> web_id ` set (w # ws)} \<union> D"
    unfolding all by auto
  moreover have "web_id ` set ws \<union> insert (web_id w) W = web_id ` set (w # ws) \<union> W"
    by auto
  ultimately show ?case
    using ok up ds one w(2) found by (simp add: owned_or_new_def find_touched)
qed simp

lemma nocase_database_name: "databaseNamePattern n \<Longrightarrow> nocase n = n"
proof -
  assume *: "databaseNamePattern n"
  have "lower_char c = c" if "c \<in> set n" for c
    using * that by (cases n)
      (auto simp: databaseNamePattern_def list_all_iff is_lower_def is_digit_def bytes_between_def byte_def lower_char_def)
  then show ?thesis
    by (simp add: nocase_def map_idI)
qed

lemma databases_back:
  assumes "databases_ok (databases s)" "rows_form x a s" "set ds \<subseteq> {d \<in> set (databases s). dba_account d = acc_id a}"
  shows "restore_databases x a now (map meta_database_of ds) (partly now W D B T s) =
    Inr (partly now W D (dba_id ` set ds \<union> B) T s)"
  using assms(3)
proof (induction ds arbitrary: B)
  case (Cons d ds)
  have d: "d \<in> set (databases s)" "dba_account d = acc_id a"
    using Cons.prems by auto
  have ids: "distinct (map dba_id (databases s))" and sys: "distinct (map dba_system_name (databases s))"
    and rows: "\<forall>d \<in> set (databases s). dba_system_name d = system_name_of (dba_account d) (dba_name d) \<and> databaseNamePattern (dba_name d)"
    "dba_driver d = MySQL"
    using assms(1) d(1) by (auto simp: databases_ok_def)
  have "dba_system_name e = dba_system_name d" if "e \<in> set (databases s)" "dba_account e = dba_account d"
    "nocase (dba_name e) = nocase (dba_name d)" for e
    using that rows(1) d(1) by (simp add: nocase_database_name)
  then have unique: "e = d" if "e \<in> set (databases s)" "dba_system_name e = dba_system_name d \<or>
      dba_account e = dba_account d \<and> nocase (dba_name e) = nocase (dba_name d)" for e
    using that distinct_key_unique [OF sys that(1) d(1)] by blast
  have "restore_database_ok x a (meta_database_of d)"
    using assms(2) d rows(2) by (auto simp: rows_form_def database_form_def restore_database_ok_def meta_database_of_def)
  moreover have "find_by dba_id (dba_id d) (databases s) = Some d"
    by (rule database_table.find_unique [OF ids d(1)])
  ultimately show ?case
    using upsert_database_back [OF ids d(1) unique, of now W D B T] d(2) Cons.IH Cons.prems
    by (simp add: owned_or_new_def find_touched)
qed simp

lemma tasks_back:
  assumes "distinct (map tsk_id (tasks s))" "rows_form x a s" "set ts \<subseteq> {t \<in> set (tasks s). tsk_account t = acc_id a}"
  shows "restore_tasks x a now (map meta_task_of ts) (partly now W D B T s) = Inr (partly now W D B (tsk_id ` set ts \<union> T) s)"
  using assms(3)
proof (induction ts arbitrary: T)
  case (Cons t ts)
  have t: "t \<in> set (tasks s)" "tsk_account t = acc_id a"
    using Cons.prems by auto
  have "restore_task_check x a (meta_task_of t) = Inr ()"
    using assms(2) t
    by (cases "validate_ResourceName (tsk_name t)")
      (auto simp: rows_form_def task_form_def task_ok_def restore_task_check_def meta_task_of_def succeeds_def)
  moreover have "find_by tsk_id (tsk_id t) (tasks s) = Some t"
    by (rule task_table.find_unique [OF assms(1) t(1)])
  ultimately show ?case
    using upsert_task_back [OF assms(1) t(1), of "acc_id a" now W D B T] t(2) Cons.IH Cons.prems
    by (simp add: owned_or_new_def find_touched)
qed simp

lemma export_websites_Inr:
  "export_websites ws s = Inr ms \<Longrightarrow> ms = map (\<lambda>w. meta_website_of w (store_WebsiteDomains (web_id w) s)) ws"
  by (induction ws arbitrary: ms) (auto simp: websites_Domains_def)

text \<open>The store after a restore of the account's own export: its rows, marked as restored.\<close>

definition refreshed :: "msec \<Rightarrow> ident \<Rightarrow> db \<Rightarrow> db" where
  "refreshed now a s = s\<lparr>
     websites := map (\<lambda>w. if web_account w = a then refreshed_website now w else w) (websites s),
     domains := map (\<lambda>d. if dom_website d \<in> account_sites a s then refreshed_domain now d else d) (domains s),
     databases := map (\<lambda>d. if dba_account d = a \<and> dba_status d = Active then refreshed_database now d else d) (databases s),
     tasks := map (\<lambda>t. if tsk_account t = a then refreshed_task now t else t) (tasks s)\<rparr>"

lemma touched_where:
  assumes "distinct (map key rs)"
  shows "touched g key (key ` {r \<in> set rs. P r}) rs = map (\<lambda>r. if P r then g r else r) rs"
proof -
  have "key r \<in> key ` {r \<in> set rs. P r} \<longleftrightarrow> P r" if "r \<in> set rs" for r
    using that distinct_key_unique [OF assms] by auto
  then show ?thesis
    by (simp add: touched_def)
qed

text \<open>C7: a backup's metadata restores.  What the panel exports of an account, it accepts again: for an account
  whose rows have the form the services store, restoring the export into the same store succeeds and
  changes nothing but the status and the time of the exported rows.\<close>

theorem metadata_roundtrip:
  assumes "backups_metadata i include s = Inr (m, names)" "store_Account i s = Inr a" "rows_form x a s"
    "websites_inv s" "databases_ok (databases s)" "distinct (map tsk_id (tasks s))" "i \<in> mem_account ` set (members s)"
  shows "store_RestoreMetadata x m now s = Inr (refreshed now i s)"
proof -
  have i: "acc_id a = i"
    using assms(2) by (auto simp: store_Account_def dest: account_table.find_mem)
  let ?ws = "filter (\<lambda>w. web_account w = i) (websites_Websites [] True s)"
  let ?ts = "filter (\<lambda>t. tsk_account t = i) (tasks_ScheduledTasks [] True s)"
  from assms(1) have m: "met_version m = 4" "met_account m = i"
    "met_websites m = map (\<lambda>w. meta_website_of w (store_WebsiteDomains (web_id w) s)) ?ws"
    "met_databases m = map meta_database_of (exported_databases i s)" "met_tasks m = map meta_task_of ?ts"
    by (auto simp: backups_metadata_def backupfmt_Version_def dest: export_websites_Inr)
  have member: "joined_member [] True s i"
    using assms(7) by (auto simp: joined_member_def list_ex_iff)
  have sets: "set ?ws = {w \<in> set (websites s). web_account w = i}" "set ?ts = {t \<in> set (tasks s). tsk_account t = i}"
    "set (exported_databases i s) = {d \<in> set (databases s). dba_account d = i \<and> dba_status d = Active}"
    using member by (auto simp: websites_Websites_def store_Websites_def visible_account_def tasks_ScheduledTasks_def
        store_ScheduledTasks_def exported_databases_def databases_Databases_def store_Databases_def)
  have keys: "distinct (map web_id (websites s))" "distinct (map dom_id (domains s))" "distinct (map dba_id (databases s))"
    using assms(4,5) by (auto simp: websites_inv_def domains_inv_def databases_ok_def)
  have w: "restore_websites x a now (met_websites m) (partly now {} {} {} {} s) =
      Inr (partly now (web_id ` set ?ws) (dom_id ` {d \<in> set (domains s). dom_website d \<in> web_id ` set ?ws}) {} {} s)"
    using websites_back [OF assms(4,3), of ?ws now "{}" "{}" "{}" "{}"] sets(1) by (simp add: m(3) i)
  have d: "restore_databases x a now (met_databases m) (partly now W D {} {} s) =
      Inr (partly now W D (dba_id ` set (exported_databases i s)) {} s)" for W D
    using databases_back [OF assms(5,3), of "exported_databases i s" now W D "{}" "{}"] sets(3) by (auto simp: m(4) i)
  have t: "restore_tasks x a now (met_tasks m) (partly now W D B {} s) = Inr (partly now W D B (tsk_id ` set ?ts) s)" for W D B
    using tasks_back [OF assms(6,3), of ?ts now W D B "{}"] sets(2) by (simp add: m(5) i)
  have "idPattern i"
    using assms(3) i by (simp add: rows_form_def)
  then have "store_RestoreMetadata x m now s = Inr (partly now (web_id ` set ?ws)
      (dom_id ` {d \<in> set (domains s). dom_website d \<in> web_id ` set ?ws}) (dba_id ` set (exported_databases i s)) (tsk_id ` set ?ts) s)"
    using m(1,2) assms(2) w d t by (simp add: store_RestoreMetadata_def backupfmt_Version_def partly_none)
  also have "partly now (web_id ` set ?ws) (dom_id ` {d \<in> set (domains s). dom_website d \<in> web_id ` set ?ws})
      (dba_id ` set (exported_databases i s)) (tsk_id ` set ?ts) s = refreshed now i s"
    unfolding partly_def refreshed_def sets account_sites_def
    by (simp add: touched_where keys assms(6))
  finally show ?thesis .
qed

section \<open>Examples\<close>

definition sample_shop :: website where
  "sample_shop = sample_website\<lparr>web_account := replicate 32 CHR ''a'',
     web_document_root := document_root (acc_system_user sample_owner) (replicate 32 CHR ''b'')\<rparr>"

definition sample_shop_database :: database where
  "sample_shop_database = \<lparr>dba_id = replicate 32 CHR ''e'', dba_account = replicate 32 CHR ''a'', dba_node = ''n1'',
     dba_name = ''shop'', dba_system_name = system_name_of (replicate 32 CHR ''a'') ''shop'', dba_driver = MySQL,
     dba_status = Active, dba_created = 0, dba_updated = 0\<rparr>"

definition sample_full :: db where
  "sample_full = sample_crond\<lparr>members := [\<lparr>mem_account = replicate 32 CHR ''a'', mem_user = ''u1'', mem_created = 0\<rparr>],
     websites := [sample_shop], domains := [sample_domain], databases := [sample_shop_database]\<rparr>"

lemmas sample_pattern = idPattern_def is_hex_lower_def is_digit_def bytes_between_def byte_def list_all_iff

lemma sample_full_sel:
  "websites sample_full = [sample_shop]" "domains sample_full = [sample_domain]" "databases sample_full = [sample_shop_database]"
  "tasks sample_full = [sample_task]" "accounts sample_full = [sample_owner]"
  by (simp_all add: sample_full_def sample_crond_def)

lemma sample_full_export: "\<exists>m names. backups_metadata (replicate 32 CHR ''a'') True sample_full = Inr (m, names)"
proof -
  have "\<exists>ms. export_websites [sample_shop] sample_full = Inr ms"
    by (simp add: websites_Domains_def website_of_def validate_ID_def store_Website_def find_by_def sample_full_sel
        accounts_Account_def store_Account_def sample_shop_def sample_website_def sample_owner_def sample_pattern)
  moreover have "filter (\<lambda>w. web_account w = replicate 32 CHR ''a'') (websites_Websites [] True sample_full) = [sample_shop]"
    by (simp add: websites_Websites_def store_Websites_def visible_account_def order_asc_def sample_full_sel sample_shop_def)
  ultimately show ?thesis
    by (auto simp: backups_metadata_def)
qed

lemma sample_shop_names:
  "validate_ResourceName ''Shop'' = Inr ''Shop''" "validate_DatabaseName plain_ext ''shop'' = Inr ''shop''"
  "validate_Domain plain_ext ''shop.pt'' = Inr ''shop.pt''"
proof -
  show "validate_ResourceName ''Shop'' = Inr ''Shop''"
    by (simp add: validate_ResourceName_def Let_def ascii_eval runes_ascii IsControl_def)
  show "validate_DatabaseName plain_ext ''shop'' = Inr ''shop''"
    by (simp add: validate_DatabaseName_def Let_def ascii_eval databaseNamePattern_def)
  have "ParseIP ''shop.pt'' = None"
    by code_simp
  then show "validate_Domain plain_ext ''shop.pt'' = Inr ''shop.pt''"
    by (simp add: validate_Domain_def Let_def ascii_eval TrimSuffix_def HasSuffix_def plain_ext_def
        domain_label_def runes_ascii domain_rune_def)
qed

lemma sample_full_form: "rows_form plain_ext sample_owner sample_full"
proof -
  have "site_form sample_owner sample_shop"
    using sample_shop_names(1)
    by (simp add: site_form_def sample_shop_def sample_website_def sample_owner_def sample_account_def succeeds_def sample_pattern)
  moreover have "domain_form plain_ext sample_domain"
    using sample_shop_names(3) by (simp add: domain_form_def sample_domain_def sample_pattern)
  moreover have "succeeds (validate_DatabaseSystemName (dba_system_name sample_shop_database))"
    by code_simp
  then have "database_form plain_ext sample_owner sample_shop_database"
    using sample_shop_names(2)
    by (simp add: database_form_def sample_shop_database_def sample_owner_def sample_account_def sample_pattern)
  moreover have "task_form plain_ext sample_owner sample_task"
    using sample_task_ok sample_task_name
    by (simp add: task_form_def sample_task_def sample_owner_def sample_account_def succeeds_def)
  ultimately show ?thesis
    by (simp add: rows_form_def sample_full_sel)
      (simp add: sample_owner_def sample_account_def systemUserPattern_def sample_pattern)
qed

theorem metadata_roundtrip_witness:
  "\<exists>m names. backups_metadata (replicate 32 CHR ''a'') True sample_full = Inr (m, names) \<and>
     store_RestoreMetadata plain_ext m 9 sample_full = Inr (refreshed 9 (replicate 32 CHR ''a'') sample_full)"
proof -
  obtain m names where m: "backups_metadata (replicate 32 CHR ''a'') True sample_full = Inr (m, names)"
    using sample_full_export by blast
  have a: "store_Account (replicate 32 CHR ''a'') sample_full = Inr sample_owner"
    by (simp add: store_Account_def find_by_def sample_full_sel sample_owner_def)
  have w: "websites_inv sample_full"
    by (simp add: websites_inv_def domains_inv_def sample_full_sel sample_shop_def sample_website_def sample_domain_def
        reserved_names_def)
  have d: "databases_ok (databases sample_full)"
    by (simp add: databases_ok_def sample_full_sel sample_shop_database_def databaseNamePattern_def is_lower_def
        settled_status_def sample_pattern)
  have t: "distinct (map tsk_id (tasks sample_full))" "replicate 32 CHR ''a'' \<in> mem_account ` set (members sample_full)"
    by (simp_all add: sample_full_sel) (simp add: sample_full_def)
  show ?thesis
    using metadata_roundtrip [OF m a sample_full_form w d t] m by blast
qed

text \<open>
  A restore does not keep the form of the website tables.  Metadata whose primary domain is disabled is
  accepted, and leaves a website whose only primary domain is disabled, which no request can do.
\<close>

definition sample_dark :: metadata where
  "sample_dark = \<lparr>met_version = 4, met_account = replicate 32 CHR ''a'',
     met_websites = [meta_website_of sample_shop [sample_domain\<lparr>dom_enabled := False\<rparr>]], met_databases = [], met_tasks = []\<rparr>"

theorem restore_breaks_websites:
  "websites_inv sample_full" "\<exists>s'. store_RestoreMetadata plain_ext sample_dark 9 sample_full = Inr s' \<and> \<not> websites_inv s'"
proof -
  show "websites_inv sample_full"
    by (simp add: websites_inv_def domains_inv_def sample_full_sel sample_shop_def sample_website_def sample_domain_def
        reserved_names_def)
  let ?w = "meta_website_of sample_shop [sample_domain\<lparr>dom_enabled := False\<rparr>]" and ?d = "meta_domain_of (sample_domain\<lparr>dom_enabled := False\<rparr>)"
  let ?a = "replicate 32 CHR ''a''"
  have form: "site_form sample_owner sample_shop" "domain_form plain_ext sample_domain" "systemUserPattern (acc_system_user sample_owner)"
    "acc_node sample_owner \<noteq> []" "idPattern ?a"
    using sample_full_form by (auto simp: rows_form_def sample_full_sel sample_shop_def sample_owner_def)
  have a: "store_Account ?a sample_full = Inr sample_owner" "acc_id sample_owner = ?a"
    by (simp_all add: store_Account_def find_by_def sample_full_sel sample_owner_def)
  have ids: "mwe_id ?w = web_id sample_shop" "mdo_id ?d = dom_id sample_domain" "mwe_domains ?w = [?d]" "mdo_kind ?d = Primary"
    "mdo_hostname ?d = dom_hostname sample_domain" "web_account sample_shop = ?a" "dom_website sample_domain = web_id sample_shop"
    by (simp_all add: meta_website_of_def meta_domain_of_def sample_domain_def sample_shop_def sample_website_def)
  have site: "restore_website_ok sample_owner ?w" "restore_root_ok sample_owner ?w"
    using form by (auto simp: restore_website_ok_def site_form_def meta_website_of_def intro: document_root_ok)
  have domain: "restore_domain_ok plain_ext ?d"
    using form(2) ids by (simp add: restore_domain_ok_def domain_form_def)
  define s1 where "s1 = sample_full\<lparr>websites := [restored_website ?w 9 sample_shop]\<rparr>"
  define s2 where "s2 = s1\<lparr>domains := [restored_domain ?d 9 sample_domain]\<rparr>"
  have "owned_or_new Websites (acc_id sample_owner) (map_option web_account (find_by web_id (mwe_id ?w) (websites sample_full))) msg sample_full = Inr ()" for msg
    using ids a(2) by (simp add: owned_or_new_def find_by_def sample_full_sel)
  moreover have "upsert_website ?w (acc_id sample_owner) 9 sample_full = Inr s1"
    by (simp add: upsert_website_def exists_by_def sample_full_sel ids(1) update_by_def s1_def)
  moreover have "restore_domains plain_ext (acc_id sample_owner) (mwe_id ?w) 9 (mwe_domains ?w) 0 s1 = Inr (1, s2)"
    using domain ids(2,4,5,7) unfolding ids(1,3)
    by (simp add: find_by_def upsert_domain_def exists_by_def update_by_def s2_def s1_def sample_full_sel)
  ultimately have "store_RestoreMetadata plain_ext sample_dark 9 sample_full = Inr s2"
    using site a(1) form(5) by (simp add: store_RestoreMetadata_def sample_dark_def backupfmt_Version_def del: replicate.simps)
  moreover have "\<not> websites_inv s2"
    by (simp add: websites_inv_def domains_inv_def s2_def s1_def restored_domain_def meta_domain_of_def sample_domain_def)
  ultimately show "\<exists>s'. store_RestoreMetadata plain_ext sample_dark 9 sample_full = Inr s' \<and> \<not> websites_inv s'"
    by blast
qed

end
