(* ===== verification/LocalBackup.thy ===== *)
theory LocalBackup
  imports Backups Host Runes "HOL-Library.AList"
begin

text \<open>
  The backup driver of the agent, \<open>internal/agent/backup/local/local.go\<close>: the archive of an
  account (its home directory, its database dumps and its metadata), the inspection of an archive
  before it is trusted, and the restore into a home directory.

  An archive file is a string of bytes.  gzip and tar are the functions \<open>ldr_pack\<close> and
  \<open>ldr_read\<close>: reading yields the entries up to the first read error, that error, and the error of
  the gzip trailer.  JSON is the pair \<open>ldr_enc\<close>, \<open>ldr_dec\<close>, the programs \<open>mysqldump\<close> and
  \<open>mysql\<close> are \<open>ldr_dump\<close> and \<open>ldr_input\<close>, and \<open>ldr_io\<close> says which system call fails.
\<close>

unbundle bit_operations_syntax

section \<open>Archives and home directories\<close>

datatype tar_type = TypeReg | TypeDir | TypeOther

record tar_entry =
  tar_name :: string
  tar_type :: tar_type
  tar_mode :: nat
  tar_data :: string

text \<open>
  A home directory below its root: the parts of a path lead to its node.  Regular files and
  directories carry mode bits, owner and group.
\<close>

datatype hnode = HFile nat int int string | HDir nat int int | HSymlink | HSpecial

type_synonym home = "(string list \<times> hnode) list"

datatype local_call = StageDir | DumpFile string | ArchiveFile | WriteArchive | HashArchive
  | InstallArchive | RestoreEntry string | RemoveArchive

record local_driver =
  ldr_ext :: ext
  ldr_root :: string
  ldr_home :: string
  ldr_dump :: "string \<Rightarrow> err + string"
  ldr_input :: "string \<Rightarrow> err option"
  ldr_lookup :: "string \<Rightarrow> err + host_user"
  ldr_group :: "err + string"
  ldr_pack :: "tar_entry list \<Rightarrow> string"
  ldr_read :: "string \<Rightarrow> err + (tar_entry list \<times> err option \<times> err option)"
  ldr_enc :: "manifest \<Rightarrow> string"
  ldr_dec :: "string \<Rightarrow> manifest option"
  ldr_io :: "local_call \<Rightarrow> err option"

text \<open>What the driver changes: the archive files, the home directory, the scripts \<open>mysql\<close> ran.\<close>

record local_state =
  lst_files :: "(string \<times> string) list"
  lst_home :: "home option"
  lst_sql :: "string list"

definition defaultRoot :: string where "defaultRoot = ''/var/backups/webycp''"

definition defaultHome :: string where "defaultHome = ''/home''"

text \<open>The digests are hexadecimal text, as everywhere in the model.\<close>

definition sha256_hex :: "local_driver \<Rightarrow> string \<Rightarrow> string" where
  "sha256_hex d s = ext_sha256 (ldr_ext d) s"

definition checksumPattern :: "string \<Rightarrow> bool" where
  "checksumPattern s \<longleftrightarrow> length s = 64 \<and> list_all is_hex_lower s"

definition backupfmt_ErrVersion :: err where
  "backupfmt_ErrVersion =
     Plain ''This backup format is not supported. Create a new backup with the current version of WEBYCP''"

definition backupfmt_ErrInvalid :: err where
  "backupfmt_ErrInvalid = Plain ''The backup archive is invalid or damaged. Use another verified backup''"

definition TrimPrefix :: "string \<Rightarrow> string \<Rightarrow> string" where
  "TrimPrefix s pre = (if HasPrefix s pre then drop (length pre) s else s)"

text \<open>\<open>json.Marshal\<close> writes U+FFFD for every byte that is not part of valid UTF-8.\<close>

definition bad_part :: "nat \<times> string \<Rightarrow> bool" where
  "bad_part p \<longleftrightarrow> fst p = rune_error \<and> length (snd p) = 1"

definition utf8_valid :: "string \<Rightarrow> bool" where
  "utf8_valid s \<longleftrightarrow> list_all (\<lambda>p. \<not> bad_part p) (rune_parts s)"

definition to_utf8 :: "string \<Rightarrow> string" where
  "to_utf8 s = concat (map (\<lambda>p. if bad_part p then [CHR 0xEF, CHR 0xBF, CHR 0xBD] else snd p) (rune_parts s))"

section \<open>Checks\<close>

definition local_validateAccount :: "ident \<Rightarrow> string \<Rightarrow> err + unit" where
  "local_validateAccount a su =
     fail_when (\<not> idPattern a \<or> \<not> systemUserPattern su \<or> su \<noteq> ''wcp_'' @ take 12 a)
       (ValidationErr ''accountId'' ''The backup account identity is invalid'')"

definition local_validateArtifact :: "local_driver \<Rightarrow> artifact_request \<Rightarrow> err + unit" where
  "local_validateArtifact d q =
     andthen (fail_when (\<not> idPattern (arq_account q) \<or> \<not> checksumPattern (arq_checksum q))
       (ValidationErr ''artifact'' ''The backup artifact identity is invalid'')) (\<lambda>_.
     fail_when (case path_Rel (path_Join [ldr_root d, arq_account q]) (arq_path q) of
         None \<Rightarrow> True
       | Some r \<Rightarrow> r = ''.'' \<or> HasPrefix r ''../'' \<or> \<not> HasSuffix (arq_path q) ''.gz'')
       (ValidationErr ''artifact'' ''The backup artifact path is invalid''))"

definition validEntryPath :: "string \<Rightarrow> bool" where
  "validEntryPath v \<longleftrightarrow> v \<noteq> [] \<and> v = path_Clean v \<and> \<not> is_rooted v \<and> v \<noteq> ''..'' \<and> \<not> HasPrefix v ''../''"

section \<open>Writing an archive\<close>

text \<open>\<open>addPath\<close> for a dump in the staging directory and for a node of the home directory.\<close>

definition manifest_of :: "local_driver \<Rightarrow> tar_entry list \<Rightarrow> manifest_entry list" where
  "manifest_of d es = map (\<lambda>e. \<lparr>ent_path = tar_name e, ent_size = int (length (tar_data e)),
     ent_checksum = sha256_hex d (tar_data e)\<rparr>) (filter (\<lambda>e. tar_type e = TypeReg) es)"

definition stage_entry :: "string \<times> string \<Rightarrow> tar_entry" where
  "stage_entry f = \<lparr>tar_name = path_Join [''databases'', fst f], tar_type = TypeReg, tar_mode = 0x180,
     tar_data = snd f\<rparr>"

definition bytes_entry :: "string \<Rightarrow> string \<Rightarrow> tar_entry" where
  "bytes_entry name data = \<lparr>tar_name = name, tar_type = TypeReg, tar_mode = 0x180, tar_data = data\<rparr>"

fun home_entries :: "home \<Rightarrow> err + tar_entry list" where
  "home_entries [] = Inr []"
| "home_entries ((ps, n) # ns) =
     (let name = path_Join [''files'', Join ps ''/''] in
      case n of
        HSymlink \<Rightarrow> Inl (Plain ''backup source contains a symlink'')
      | HSpecial \<Rightarrow> Inl (Plain ''unsupported backup source'')
      | HDir m _ _ \<Rightarrow>
          if \<not> utf8_valid (Join ps ''/'') then Inl (Plain ''invalid argument'')
          else andthen (home_entries ns) (\<lambda>es.
            Inr (\<lparr>tar_name = name, tar_type = TypeDir, tar_mode = m, tar_data = []\<rparr> # es))
      | HFile m _ _ data \<Rightarrow>
          andthen (home_entries ns) (\<lambda>es.
            Inr (\<lparr>tar_name = name, tar_type = TypeReg, tar_mode = m, tar_data = data\<rparr> # es)))"

definition walk_order :: "home \<Rightarrow> home" where
  "walk_order h = sort_key fst h"

text \<open>The dumps, in the order of the request; a name that is already staged is refused by \<open>O_EXCL\<close>.\<close>

fun stage_dumps :: "local_driver \<Rightarrow> string list \<Rightarrow> (string \<times> string) list \<Rightarrow> err + (string \<times> string) list" where
  "stage_dumps d [] fs = Inr fs"
| "stage_dumps d (n # ns) fs =
     andthen (validate_DatabaseSystemName n) (\<lambda>_.
     andthen (fail_when (n @ ''.sql'' \<in> fst ` set fs) (Plain ''create database dump'')) (\<lambda>_.
     andthen (case ldr_io d (DumpFile n) of Some e \<Rightarrow> Inl (Wrapped ''create database dump'' e) | None \<Rightarrow> Inr ()) (\<lambda>_.
     andthen (ldr_dump d n) (\<lambda>data.
     stage_dumps d ns (fs @ [(n @ ''.sql'', data)])))))"

definition local_writeArchive ::
  "local_driver \<Rightarrow> create_request \<Rightarrow> (string \<times> string) list \<Rightarrow> manifest \<Rightarrow> home option \<Rightarrow> err + (manifest \<times> tar_entry list)" where
  "local_writeArchive d q stage m h =
     andthen (if crr_files q
        then (case h of None \<Rightarrow> Inl (Plain ''open home directory'') | Some t \<Rightarrow> home_entries (walk_order t))
        else Inr []) (\<lambda>fs.
     let es = fs @ map stage_entry (sort_key fst stage) @
           (if crr_metadata q \<noteq> [] then [bytes_entry ''metadata.json'' (crr_metadata q)] else []);
         m' = m\<lparr>man_entries := manifest_of d es\<rparr> in
     case ldr_io d WriteArchive of
       Some e \<Rightarrow> Inl e
     | None \<Rightarrow> Inr (m', es @ [bytes_entry ''manifest.json'' (ldr_enc d m')]))"

definition archive_path :: "local_driver \<Rightarrow> ident \<Rightarrow> string \<Rightarrow> string" where
  "archive_path d a name = path_Join [path_Join [ldr_root d, a], name]"

definition fault :: "local_driver \<Rightarrow> local_call \<Rightarrow> string \<Rightarrow> err + unit" where
  "fault d c msg = (case ldr_io d c of Some e \<Rightarrow> Inl (Wrapped msg e) | None \<Rightarrow> Inr ())"

text \<open>
  \<open>Create\<close>.  Its temporary file has a name of its own and is removed on every error, so only the
  installed archive shows in the state.
\<close>

definition local_Create ::
  "local_driver \<Rightarrow> create_request \<Rightarrow> msec \<Rightarrow> local_state \<Rightarrow> err + (agent_artifact \<times> local_state)" where
  "local_Create d q now st =
     andthen (local_validateAccount (crr_account q) (crr_user q)) (\<lambda>_.
     andthen (fail_when (\<not> idPattern (crr_run q) \<or> 4 * 2 ^ 20 < length (crr_metadata q))
       (ValidationErr ''runId'' ''The backup request is invalid'')) (\<lambda>_.
     andthen (fault d StageDir ''create backup staging directory'') (\<lambda>_.
     andthen (stage_dumps d (crr_databases q) []) (\<lambda>stage.
     andthen (fail_when (archive_path d (crr_account q) (''.'' @ crr_run q @ ''.tmp'') \<in> fst ` set (lst_files st))
       (Plain ''create backup artifact'')) (\<lambda>_.
     andthen (fault d ArchiveFile ''create backup artifact'') (\<lambda>_.
     andthen (local_writeArchive d q stage
       \<lparr>man_version = backupfmt_Version, man_run = crr_run q, man_account = crr_account q, man_created = now,
        man_files = crr_files q, man_databases = crr_databases q \<noteq> [], man_metadata = crr_metadata q \<noteq> [],
        man_entries = []\<rparr> (lst_home st)) (\<lambda>(m, es).
     andthen (fault d HashArchive ''hash backup artifact'') (\<lambda>_.
     andthen (fault d InstallArchive ''install backup artifact'') (\<lambda>_.
     let path = archive_path d (crr_account q) (crr_run q @ ''.tar.gz''); data = ldr_pack d es in
     Inr (\<lparr>aar_path = path, aar_checksum = sha256_hex d data, aar_size = int (length data), aar_manifest = m\<rparr>,
       st\<lparr>lst_files := AList.update path data (lst_files st)\<rparr>))))))))))"

section \<open>Inspecting an archive\<close>

record inspection =
  ins_seen :: "string list"
  ins_computed :: "(string \<times> manifest_entry) list"
  ins_files :: bool
  ins_databases :: bool
  ins_metadata :: bool
  ins_manifest :: "manifest option"

definition nothing_seen :: inspection where
  "nothing_seen = \<lparr>ins_seen = [], ins_computed = [], ins_files = False, ins_databases = False, ins_metadata = False,
     ins_manifest = None\<rparr>"

definition invalid_archive :: "string \<Rightarrow> err" where
  "invalid_archive msg = Wrapped msg backupfmt_ErrInvalid"

definition note_entry :: "tar_entry \<Rightarrow> inspection \<Rightarrow> inspection" where
  "note_entry e i = i\<lparr>ins_seen := tar_name e # ins_seen i,
     ins_files := ins_files i \<or> HasPrefix (tar_name e) ''files/'',
     ins_databases := ins_databases i \<or> (HasPrefix (tar_name e) ''databases/'' \<and> tar_type e = TypeReg),
     ins_metadata := ins_metadata i \<or> (tar_name e = ''metadata.json'' \<and> tar_type e = TypeReg)\<rparr>"

definition inspect_entry :: "local_driver \<Rightarrow> tar_entry \<Rightarrow> inspection \<Rightarrow> err + inspection" where
  "inspect_entry d e i =
     (if \<not> validEntryPath (tar_name e) \<or> tar_type e = TypeOther then Inl (invalid_archive ''unsafe entry'')
      else if tar_name e \<in> set (ins_seen i) then Inl (invalid_archive ''duplicate entry'')
      else let j = note_entry e i in
        if tar_name e = ''manifest.json'' then
          (if 2 ^ 20 < length (tar_data e) then Inl (invalid_archive ''malformed manifest'')
           else case ldr_dec d (tar_data e) of
             None \<Rightarrow> Inl (invalid_archive ''malformed manifest'')
           | Some m \<Rightarrow> Inr (j\<lparr>ins_manifest := Some m\<rparr>))
        else if tar_type e = TypeReg then
          Inr (j\<lparr>ins_computed := (tar_name e, \<lparr>ent_path = tar_name e, ent_size = int (length (tar_data e)),
            ent_checksum = sha256_hex d (tar_data e)\<rparr>) # ins_computed j\<rparr>)
        else Inr j)"

fun inspect_entries :: "local_driver \<Rightarrow> tar_entry list \<Rightarrow> inspection \<Rightarrow> err + inspection" where
  "inspect_entries d [] i = Inr i"
| "inspect_entries d (e # es) i = andthen (inspect_entry d e i) (inspect_entries d es)"

fun check_entries :: "manifest_entry list \<Rightarrow> (string \<times> manifest_entry) list \<Rightarrow> bool" where
  "check_entries [] c = True"
| "check_entries (e # es) c =
     (case map_of c (ent_path e) of
        None \<Rightarrow> False
      | Some a \<Rightarrow> ent_size a = ent_size e \<and> ent_checksum a = ent_checksum e \<and>
          check_entries es (AList.delete (ent_path e) c))"

definition archive_verdict :: "inspection \<Rightarrow> ident \<Rightarrow> err + manifest" where
  "archive_verdict i account =
     (case ins_manifest i of
        None \<Rightarrow> Inl (invalid_archive ''invalid manifest identity'')
      | Some m \<Rightarrow>
          andthen (fail_when (man_version m \<le> 0 \<or> man_account m \<noteq> account \<or> \<not> idPattern (man_run m))
            (invalid_archive ''invalid manifest identity'')) (\<lambda>_.
          andthen (fail_when (man_version m \<noteq> backupfmt_Version) backupfmt_ErrVersion) (\<lambda>_.
          andthen (fail_when ((ins_files i \<and> \<not> man_files m) \<or> ins_databases i \<noteq> man_databases m \<or>
            ins_metadata i \<noteq> man_metadata m) (invalid_archive ''scope mismatch'')) (\<lambda>_.
          andthen (fail_when (length (man_entries m) \<noteq> length (ins_computed i))
            (invalid_archive ''entry count mismatch'')) (\<lambda>_.
          andthen (fail_when (\<not> check_entries (man_entries m) (ins_computed i))
            (invalid_archive ''entry checksum mismatch'')) (\<lambda>_. Inr m))))))"

definition local_inspectArchive :: "local_driver \<Rightarrow> string \<Rightarrow> ident \<Rightarrow> err + manifest" where
  "local_inspectArchive d data account =
     andthen (ldr_read d data) (\<lambda>(es, stop, trailer).
     andthen (inspect_entries d es nothing_seen) (\<lambda>i.
     case stop of
       Some e \<Rightarrow> Inl e
     | None \<Rightarrow>
         (case trailer of
            Some e \<Rightarrow> Inl (Wrapped ''read backup trailer'' e)
          | None \<Rightarrow> archive_verdict i account)))"

definition damaged :: "err \<Rightarrow> bool" where
  "damaged e \<longleftrightarrow> list_ex (error_is e) [Plain ''EOF'', Plain ''unexpected EOF'', Plain ''gzip: invalid header'',
     Plain ''gzip: invalid checksum'', Plain ''archive/tar: invalid tar header'']"

definition local_Preview :: "local_driver \<Rightarrow> artifact_request \<Rightarrow> local_state \<Rightarrow> err + manifest" where
  "local_Preview d q st =
     andthen (local_validateArtifact d q) (\<lambda>_.
     andthen (some_or (Plain ''no such file or directory'') (map_of (lst_files st) (arq_path q))) (\<lambda>data.
     andthen (fail_when (sha256_hex d data \<noteq> arq_checksum q) (invalid_archive ''artifact checksum mismatch'')) (\<lambda>_.
     map_err (\<lambda>e. if damaged e then invalid_archive ''damaged archive'' else e)
       (local_inspectArchive d data (arq_account q)))))"

section \<open>Restoring an archive\<close>

fun safe_target :: "home \<Rightarrow> string list \<Rightarrow> string list \<Rightarrow> err + unit" where
  "safe_target h done [] = Inr ()"
| "safe_target h done (p # ps) =
     (case map_of h (done @ [p]) of
        Some HSymlink \<Rightarrow> Inl (Plain ''restore target contains a symlink'')
      | _ \<Rightarrow>
          (case map_of h done of
             Some (HFile _ _ _ _) \<Rightarrow> Inl (Plain ''not a directory'')
           | Some HSpecial \<Rightarrow> Inl (Plain ''not a directory'')
           | _ \<Rightarrow> safe_target h (done @ [p]) ps))"

fun mkdir_all :: "nat \<Rightarrow> string list \<Rightarrow> string list \<Rightarrow> home \<Rightarrow> err + home" where
  "mkdir_all m done [] h = Inr h"
| "mkdir_all m done (p # ps) h =
     (case map_of h (done @ [p]) of
        None \<Rightarrow> mkdir_all m (done @ [p]) ps (AList.update (done @ [p]) (HDir m 0 0) h)
      | Some (HDir _ _ _) \<Rightarrow> mkdir_all m (done @ [p]) ps h
      | Some _ \<Rightarrow> Inl (Plain ''not a directory''))"

definition is_dir :: "hnode option \<Rightarrow> bool" where
  "is_dir n \<longleftrightarrow> (case n of Some (HDir _ _ _) \<Rightarrow> True | _ \<Rightarrow> False)"

definition entry_gid :: "string \<Rightarrow> identity \<Rightarrow> int \<Rightarrow> int" where
  "entry_gid relative idn webgid =
     (if relative = ''web'' \<or> HasPrefix relative ''web/'' then webgid else idn_gid idn)"

definition local_restoreFile ::
  "local_driver \<Rightarrow> identity \<Rightarrow> int \<Rightarrow> tar_entry \<Rightarrow> home \<Rightarrow> err option \<times> home" where
  "local_restoreFile d idn webgid e h =
     (let relative = TrimPrefix (tar_name e) ''files/''; ps = Split relative (CHR ''/'');
          gid = entry_gid relative idn webgid in
      if \<not> validEntryPath relative then (Some (Plain ''unsafe restore path''), h)
      else case safe_target h [] ps of
        Inl err \<Rightarrow> (Some err, h)
      | Inr _ \<Rightarrow>
          (case tar_type e of
             TypeDir \<Rightarrow>
               (case mkdir_all (tar_mode e AND 0x1F8) [] ps h of
                  Inl err \<Rightarrow> (Some err, h)
                | Inr h1 \<Rightarrow>
                    (case ldr_io d (RestoreEntry (tar_name e)) of
                       Some err \<Rightarrow> (Some err, h1)
                     | None \<Rightarrow> (None, AList.update ps
                         (HDir ((tar_mode e AND 0x1F8) OR (tar_mode e AND 0x400)) (idn_uid idn) gid) h1)))
           | TypeOther \<Rightarrow> (Some (Plain ''unsupported file backup entry''), h)
           | TypeReg \<Rightarrow>
               (case mkdir_all 0x1E8 [] (butlast ps) h of
                  Inl err \<Rightarrow> (Some err, h)
                | Inr h1 \<Rightarrow>
                    (case ldr_io d (RestoreEntry (tar_name e)) of
                       Some err \<Rightarrow> (Some err, h1)
                     | None \<Rightarrow>
                         if is_dir (map_of h1 ps) then (Some (Plain ''file exists''), h1)
                         else (None, AList.update ps
                           (HFile (tar_mode e AND 0x1B0) (idn_uid idn) gid (tar_data e)) h1)))))"

text \<open>The loop of \<open>Restore\<close>; the last component is the metadata found so far.\<close>

fun restore_entries ::
  "local_driver \<Rightarrow> restore_request \<Rightarrow> identity \<Rightarrow> int \<Rightarrow> tar_entry list \<Rightarrow> home \<Rightarrow> string list \<Rightarrow> string \<Rightarrow>
    err option \<times> home \<times> string list \<times> string" where
  "restore_entries d q idn webgid [] h sql meta = (None, h, sql, meta)"
| "restore_entries d q idn webgid (e # es) h sql meta =
     (if rrq_files q \<and> HasPrefix (tar_name e) ''files/'' then
        (case local_restoreFile d idn webgid e h of
           (Some err, h') \<Rightarrow> (Some err, h', sql, meta)
         | (None, h') \<Rightarrow> restore_entries d q idn webgid es h' sql meta)
      else if rrq_databases q \<and> HasPrefix (tar_name e) ''databases/'' \<and> tar_type e = TypeReg then
        (case validate_DatabaseSystemName (TrimSuffix (path_Base (tar_name e)) ''.sql'') of
           Inl err \<Rightarrow> (Some err, h, sql, meta)
         | Inr _ \<Rightarrow>
             (case ldr_input d (tar_data e) of
                Some err \<Rightarrow> (Some (Wrapped ''restore database'' err), h, sql, meta)
              | None \<Rightarrow> restore_entries d q idn webgid es h (sql @ [tar_data e]) meta))
      else if rrq_metadata q \<and> tar_name e = ''metadata.json'' \<and> tar_type e = TypeReg then
        restore_entries d q idn webgid es h sql (take (4 * 2 ^ 20) (tar_data e))
      else restore_entries d q idn webgid es h sql meta)"

definition local_restoreIdentity :: "local_driver \<Rightarrow> ident \<Rightarrow> string \<Rightarrow> err + (identity \<times> int)" where
  "local_restoreIdentity d a su =
     andthen (map_err (Wrapped ''lookup backup account'') (ldr_lookup d su)) (\<lambda>found.
     andthen (hostuser_Validate found (ldr_home d) a su) (\<lambda>idn.
     andthen (map_err (Wrapped ''lookup web server group'') (ldr_group d)) (\<lambda>gid.
     case Atoi gid of
       None \<Rightarrow> Inl (Plain ''invalid web server GID'')
     | Some g \<Rightarrow> if g \<le> 0 then Inl (Plain ''invalid web server GID'') else Inr (idn, g))))"

text \<open>What \<open>Restore\<close> checks before it writes anything.\<close>

definition restore_checks ::
  "local_driver \<Rightarrow> restore_request \<Rightarrow> local_state \<Rightarrow>
    err + (manifest \<times> identity \<times> int \<times> home \<times> tar_entry list \<times> err option)" where
  "restore_checks d q st =
     andthen (local_Preview d \<lparr>arq_account = arq_account q, arq_path = arq_path q, arq_checksum = arq_checksum q\<rparr> st) (\<lambda>m.
     andthen (backupfmt_ValidateScope m (rrq_files q) (rrq_databases q) (rrq_metadata q)) (\<lambda>_.
     andthen (local_validateAccount (arq_account q) (rrq_user q)) (\<lambda>_.
     andthen (local_restoreIdentity d (arq_account q) (rrq_user q)) (\<lambda>(idn, webgid).
     andthen (if rrq_files q then some_or (Plain ''open home directory'') (lst_home st) else Inr []) (\<lambda>h.
     andthen (some_or (Plain ''no such file or directory'') (map_of (lst_files st) (arq_path q))) (\<lambda>data.
     andthen (ldr_read d data) (\<lambda>(es, stop, trailer).
     Inr (m, idn, webgid, h, es, stop))))))))"

definition local_Restore ::
  "local_driver \<Rightarrow> restore_request \<Rightarrow> local_state \<Rightarrow> (err + string) \<times> local_state" where
  "local_Restore d q st =
     (case restore_checks d q st of
        Inl e \<Rightarrow> (Inl e, st)
      | Inr (m, idn, webgid, h, es, stop) \<Rightarrow>
          (case restore_entries d q idn webgid es h (lst_sql st) [] of
            (err, h', sql, meta) \<Rightarrow>
              (case err of
                 Some e \<Rightarrow> Inl e
               | None \<Rightarrow>
                   (case stop of
                      Some e \<Rightarrow> Inl (Wrapped ''read backup entry'' e)
                    | None \<Rightarrow>
                        if rrq_metadata q \<and> man_metadata m \<and> meta = [] then Inl (Plain ''backup metadata is missing'')
                        else Inr meta),
               st\<lparr>lst_home := if rrq_files q then Some h' else lst_home st, lst_sql := sql\<rparr>)))"

definition local_Delete :: "local_driver \<Rightarrow> artifact_request \<Rightarrow> local_state \<Rightarrow> err option \<times> local_state" where
  "local_Delete d q st =
     (case local_validateArtifact d q of
        Inl e \<Rightarrow> (Some e, st)
      | Inr _ \<Rightarrow>
          if map_of (lst_files st) (arq_path q) = None then (None, st)
          else (case ldr_io d RemoveArchive of
            Some e \<Rightarrow> (Some (Wrapped ''delete backup artifact'' e), st)
          | None \<Rightarrow> (None, st\<lparr>lst_files := AList.delete (arq_path q) (lst_files st)\<rparr>)))"

section \<open>Entry names\<close>

lemma Join_Cons: "ps \<noteq> [] \<Longrightarrow> Join (a # ps) sep = a @ sep @ Join ps sep"
  by (cases ps) simp_all

lemma path_parts_plain:
  assumes "ps \<noteq> []" "\<forall>p \<in> set ps. plain_part p"
  shows "Split (Join ps ''/'') (CHR ''/'') = ps" "\<not> is_rooted (Join ps ''/'')" "path_parts (Join ps ''/'') = ps"
    "path_Clean (Join ps ''/'') = Join ps ''/''"
proof -
  show s: "Split (Join ps ''/'') (CHR ''/'') = ps"
    using assms by (intro Split_Join) (auto simp: plain_part_def)
  obtain a qs where a: "ps = a # qs" "plain_part a"
    using assms by (cases ps) auto
  then obtain c cs where "ps = (c # cs) # qs" "c \<noteq> CHR ''/''"
    by (cases a) (auto simp: plain_part_def)
  then show r: "\<not> is_rooted (Join ps ''/'')"
    by (cases qs) (simp_all add: is_rooted_def)
  then show p: "path_parts (Join ps ''/'') = ps"
    using s clean_parts_plain [OF assms(2)] by (simp add: path_parts_def)
  show "path_Clean (Join ps ''/'') = Join ps ''/''"
    using r p assms(1) by (simp add: path_Clean_def)
qed

lemma path_Join_plain:
  assumes "plain_part a" "ps \<noteq> []" "\<forall>p \<in> set ps. plain_part p"
  shows "path_Join [a, Join ps ''/''] = Join (a # ps) ''/''"
proof -
  have a: "a \<noteq> []" and j: "Join [a, Join ps ''/''] ''/'' = Join (a # ps) ''/''"
    using assms by (simp_all add: plain_part_def Join_Cons)
  have "path_Join [a, Join ps ''/''] = path_Clean (Join [a, Join ps ''/''] ''/'')"
    using a by (simp add: path_Join_def Let_def)
  also have "\<dots> = Join (a # ps) ''/''"
    unfolding j using assms(1,3) by (intro path_parts_plain(4)) auto
  finally show ?thesis .
qed

lemma valid_entry_plain:
  assumes "ps \<noteq> []" "\<forall>p \<in> set ps. plain_part p"
  shows "validEntryPath (Join ps ''/'')"
proof -
  let ?v = "Join ps ''/''"
  note pl = path_parts_plain [OF assms]
  have "?v \<noteq> []"
    using assms by (intro Join_neq_Nil) (auto simp: plain_part_def)
  moreover have False if up: "?v = ''..'' \<or> HasPrefix ?v ''../''"
  proof -
    have "hd (Split ?v (CHR ''/'')) = ''..''"
    proof (cases "?v = ''..''")
      case False
      then have "take 3 ?v = ''../''"
        using up by (simp add: HasPrefix_def numeral_3_eq_3)
      then have v: "?v = ''..'' @ CHR ''/'' # drop 3 ?v"
        using append_take_drop_id [of 3 ?v] by simp
      show ?thesis
        by (subst v, subst Split_append) simp_all
    qed simp
    then show False
      using pl(1) assms by (cases ps) (auto simp: plain_part_def)
  qed
  ultimately show ?thesis
    using pl by (auto simp: validEntryPath_def)
qed

text \<open>Conversely, every part of a valid entry path but of \<open>.\<close> itself is a plain name.\<close>

lemma entry_parts:
  assumes "validEntryPath v"
  shows "v = ''.'' \<or> (\<forall>p \<in> set (Split v (CHR ''/'')). plain_part p)"
proof (cases "path_parts v = []")
  case True
  then have "path_Clean v = ''.''" "v = path_Clean v"
    using assms unfolding validEntryPath_def by (simp add: path_Clean_def, blast)
  then have "v = ''.''"
    by argo
  then show ?thesis ..
next
  case False
  let ?ps = "path_parts v"
  have rooted: "\<not> is_rooted v" and up: "v \<noteq> ''..''" "\<not> HasPrefix v ''../''"
    using assms by (simp_all add: validEntryPath_def)
  have "v = path_Clean v"
    using assms by (simp add: validEntryPath_def)
  then have v: "v = Join ?ps ''/''"
    unfolding path_Clean_def using rooted False by simp
  have rel: "relative_parts ?ps"
    unfolding path_parts_def using rooted Split_parts by (simp, intro clean_parts_relative relative_partsI [of _ 0]) auto
  have split: "Split v (CHR ''/'') = ?ps"
    using False relative_named [OF rel] by (subst v, intro Split_Join) auto
  have "''..'' \<notin> set ?ps"
  proof
    assume "''..'' \<in> set ?ps"
    then obtain qs where "?ps = ''..'' # qs"
      using relative_leads [OF rel] by blast
    then show False
      using v up by (cases qs) (simp_all add: HasPrefix_def)
  qed
  then show ?thesis
    unfolding split using relative_each [OF rel] by blast
qed

lemma scope_parts [simp]: "plain_part ''files''" "plain_part ''databases''" "plain_part ''metadata.json''"
  "plain_part ''manifest.json''"
  by (simp_all add: plain_part_def)

section \<open>UTF-8\<close>

lemma length_rune_parts: "length s = sum_list (map (\<lambda>p. length (snd p)) (rune_parts s))"
  using arg_cong [OF part_bytes_rune_parts [of s], where f = length] by (simp add: part_bytes_def length_concat comp_def)

lemma length_to_utf8: "length (to_utf8 s) = length s + 2 * length (filter bad_part (rune_parts s))"
proof -
  have "sum_list (map (\<lambda>p. length (if bad_part p then [CHR 0xEF, CHR 0xBF, CHR 0xBD] else snd p)) ps) =
      sum_list (map (\<lambda>p. length (snd p)) ps) + 2 * length (filter bad_part ps)" for ps
    by (induction ps) (auto simp: bad_part_def)
  then show ?thesis
    unfolding to_utf8_def length_rune_parts [of s] by (simp add: length_concat comp_def)
qed

lemma to_utf8_valid: "utf8_valid s \<Longrightarrow> to_utf8 s = s"
proof -
  assume "utf8_valid s"
  then have "map (\<lambda>p. if bad_part p then [CHR 0xEF, CHR 0xBF, CHR 0xBD] else snd p) (rune_parts s) = map snd (rune_parts s)"
    by (auto simp: utf8_valid_def list_all_iff)
  then show ?thesis
    using part_bytes_rune_parts [of s] unfolding to_utf8_def part_bytes_def by argo
qed

lemma to_utf8_longer: "\<not> utf8_valid s \<Longrightarrow> length s < length (to_utf8 s)"
  by (auto simp: length_to_utf8 utf8_valid_def list_all_iff filter_empty_conv)

lemma ascii_utf8: "list_all is_ascii s \<Longrightarrow> utf8_valid s"
  by (auto simp: utf8_valid_def rune_parts_ascii list_all_iff bad_part_def rune_error_def is_ascii_def)

section \<open>What the inspection computes\<close>

definition computed_entry :: "local_driver \<Rightarrow> tar_entry \<Rightarrow> string \<times> manifest_entry" where
  "computed_entry d e = (tar_name e, \<lparr>ent_path = tar_name e, ent_size = int (length (tar_data e)),
     ent_checksum = sha256_hex d (tar_data e)\<rparr>)"

definition regular :: "tar_entry \<Rightarrow> bool" where
  "regular e \<longleftrightarrow> tar_type e = TypeReg"

lemma manifest_of_computed: "manifest_of d es = map (snd \<circ> computed_entry d) (filter regular es)"
  by (simp add: manifest_of_def computed_entry_def regular_def [abs_def] comp_def)

lemma inspect_append:
  "inspect_entries d (es @ fs) i = andthen (inspect_entries d es i) (inspect_entries d fs)"
proof (induction es arbitrary: i)
  case (Cons e es)
  then show ?case
    by (cases "inspect_entry d e i") simp_all
qed simp

definition plain_entry :: "tar_entry \<Rightarrow> bool" where
  "plain_entry e \<longleftrightarrow> validEntryPath (tar_name e) \<and> tar_type e \<noteq> TypeOther \<and> tar_name e \<noteq> ''manifest.json''"

lemma inspect_plain:
  assumes "\<forall>e \<in> set es. plain_entry e" "distinct (map tar_name es)" "tar_name ` set es \<inter> set (ins_seen i) = {}"
  shows "inspect_entries d es i = Inr (i\<lparr>ins_seen := rev (map tar_name es) @ ins_seen i,
    ins_computed := rev (map (computed_entry d) (filter regular es)) @ ins_computed i,
    ins_files := ins_files i \<or> list_ex (\<lambda>e. HasPrefix (tar_name e) ''files/'') es,
    ins_databases := ins_databases i \<or> list_ex (\<lambda>e. HasPrefix (tar_name e) ''databases/'' \<and> regular e) es,
    ins_metadata := ins_metadata i \<or> list_ex (\<lambda>e. tar_name e = ''metadata.json'' \<and> regular e) es\<rparr>)"
  using assms
proof (induction es arbitrary: i)
  case (Cons e es)
  let ?j = "if regular e then note_entry e i\<lparr>ins_computed := computed_entry d e # ins_computed i\<rparr> else note_entry e i"
  have "inspect_entry d e i = Inr ?j"
    using Cons.prems by (auto simp: inspect_entry_def plain_entry_def regular_def computed_entry_def Let_def note_entry_def)
  moreover have "tar_name ` set es \<inter> set (ins_seen ?j) = {}"
    using Cons.prems by (auto simp: note_entry_def)
  ultimately show ?case
    using Cons by (simp add: note_entry_def regular_def)
qed simp

lemma delete_dom: "fst ` set (AList.delete k c) = fst ` set c - {k}"
  using arg_cong [OF delete_keys [of k c], where f = set] by auto

lemma check_success:
  assumes "check_entries es c" "distinct (map fst c)"
  shows "distinct (map ent_path es) \<and> ent_path ` set es \<subseteq> fst ` set c"
  using assms
proof (induction es arbitrary: c)
  case (Cons e es)
  then obtain a where a: "map_of c (ent_path e) = Some a" "check_entries es (AList.delete (ent_path e) c)"
    by (auto split: option.splits)
  from Cons.IH [OF a(2) distinct_delete [OF Cons.prems(2)]]
  have "distinct (map ent_path es)" "ent_path ` set es \<subseteq> fst ` set c - {ent_path e}"
    by (simp_all add: delete_dom)
  then show ?case
    using a(1) by (force dest: map_of_SomeD)
qed simp

lemma check_same:
  assumes "\<forall>e \<in> set es. map_of c (ent_path e) = Some e" "distinct (map ent_path es)"
  shows "check_entries es c"
  using assms
proof (induction es arbitrary: c)
  case (Cons e es)
  have "\<forall>e' \<in> set es. map_of (AList.delete (ent_path e) c) (ent_path e') = Some e'"
  proof
    fix e'
    assume e': "e' \<in> set es"
    then have "ent_path e' \<in> ent_path ` set es"
      by (rule imageI)
    then have "ent_path e' \<noteq> ent_path e"
      using Cons.prems(2) by (simp add: image_iff) metis
    moreover have "map_of c (ent_path e') = Some e'"
      using bspec [OF Cons.prems(1), of e'] e' by simp
    ultimately show "map_of (AList.delete (ent_path e) c) (ent_path e') = Some e'"
      by (simp add: delete_conv')
  qed
  moreover have "map_of c (ent_path e) = Some e"
    using bspec [OF Cons.prems(1), of e] by simp
  moreover have "distinct (map ent_path es)"
    using Cons.prems(2) by simp
  ultimately show ?case
    using Cons.IH [of "AList.delete (ent_path e) c"] by simp
qed simp

section \<open>What the libraries promise\<close>

text \<open>
  gzip and tar give back the entries that were written, JSON gives back the manifest with its
  strings coerced to valid UTF-8, and a SHA-256 digest has 64 hexadecimal digits.
\<close>

definition utf8_manifest :: "manifest \<Rightarrow> manifest" where
  "utf8_manifest m = m\<lparr>man_run := to_utf8 (man_run m), man_account := to_utf8 (man_account m),
     man_entries := map (\<lambda>e. e\<lparr>ent_path := to_utf8 (ent_path e), ent_checksum := to_utf8 (ent_checksum e)\<rparr>) (man_entries m)\<rparr>"

definition library_laws :: "local_driver \<Rightarrow> bool" where
  "library_laws d \<longleftrightarrow> (\<forall>es. ldr_read d (ldr_pack d es) = Inr (es, None, None)) \<and>
     (\<forall>m. ldr_dec d (ldr_enc d m) = Some (utf8_manifest m)) \<and> (\<forall>s. checksumPattern (sha256_hex d s))"

text \<open>A home directory as a file system keeps it: names are plain, every parent is a directory.\<close>

definition home_ok :: "home \<Rightarrow> bool" where
  "home_ok h \<longleftrightarrow> distinct (map fst h) \<and>
     (\<forall>(ps, n) \<in> set h. ps \<noteq> [] \<and> (\<forall>p \<in> set ps. plain_part p) \<and>
       (butlast ps = [] \<or> is_dir (map_of h (butlast ps))))"

section \<open>The entries of a created archive\<close>

definition home_entry :: "string list \<times> hnode \<Rightarrow> tar_entry" where
  "home_entry x = \<lparr>tar_name = path_Join [''files'', Join (fst x) ''/''],
     tar_type = (case snd x of HFile _ _ _ _ \<Rightarrow> TypeReg | HDir _ _ _ \<Rightarrow> TypeDir | _ \<Rightarrow> TypeOther),
     tar_mode = (case snd x of HFile m _ _ _ \<Rightarrow> m | HDir m _ _ \<Rightarrow> m | _ \<Rightarrow> 0),
     tar_data = (case snd x of HFile _ _ _ data \<Rightarrow> data | _ \<Rightarrow> [])\<rparr>"

definition archived :: "hnode \<Rightarrow> bool" where
  "archived n \<longleftrightarrow> n \<noteq> HSymlink \<and> n \<noteq> HSpecial"

lemma home_entries_Inr: "home_entries ns = Inr es \<Longrightarrow> es = map home_entry ns \<and> (\<forall>x \<in> set ns. archived (snd x))"
  by (induction ns arbitrary: es rule: home_entries.induct)
    (auto simp: home_entry_def archived_def Let_def split: hnode.splits if_splits)

lemma stage_dumps_Inr:
  "stage_dumps d ns fs = Inr gs \<Longrightarrow> distinct (map fst fs) \<Longrightarrow>
    distinct (map fst gs) \<and> map fst gs = map fst fs @ map (\<lambda>n. n @ ''.sql'') ns \<and>
    (\<forall>n \<in> set ns. databaseSystemNamePattern n)"
proof (induction ns arbitrary: fs)
  case (Cons n ns)
  then obtain data where n: "databaseSystemNamePattern n" "n @ ''.sql'' \<notin> fst ` set fs"
    and gs: "stage_dumps d ns (fs @ [(n @ ''.sql'', data)]) = Inr gs"
    by (auto simp: validate_DatabaseSystemName_def)
  have "distinct (map fst (fs @ [(n @ ''.sql'', data)]))"
    using Cons.prems(2) n(2) by simp
  note ih = Cons.IH [OF gs this]
  show ?case
    using ih [THEN conjunct2] n(1) by (intro conjI ih [THEN conjunct1]) simp_all
qed simp

lemma dump_name_plain: "databaseSystemNamePattern n \<Longrightarrow> plain_part (n @ ''.sql'')"
proof -
  assume n: "databaseSystemNamePattern n"
  then have "CHR ''/'' \<notin> set n"
    using databaseSystemNamePattern_safe [OF n]
    by (auto simp: list_all_iff sql_safe_def is_lower_def is_digit_def bytes_between_def byte_def)
  then show ?thesis
    by (simp add: plain_part_def append_eq_Cons_conv)
qed

text \<open>Every entry name is the join of a key; keys are lists of plain parts.\<close>

definition plain_key :: "string list \<Rightarrow> bool" where
  "plain_key k \<longleftrightarrow> k \<noteq> [] \<and> (\<forall>p \<in> set k. plain_part p)"

lemma join_inj: "plain_key k \<Longrightarrow> plain_key k' \<Longrightarrow> Join k ''/'' = Join k' ''/'' \<Longrightarrow> k = k'"
  using path_parts_plain(1) by (metis plain_key_def)

lemma prefix_parts:
  assumes "plain_key k" "plain_part a"
  shows "HasPrefix (Join k ''/'') (a @ ''/'') \<longleftrightarrow> (\<exists>ks. ks \<noteq> [] \<and> k = a # ks)"
proof
  assume "HasPrefix (Join k ''/'') (a @ ''/'')"
  then obtain r where r: "Join k ''/'' = a @ CHR ''/'' # r"
    by (auto simp: HasPrefix_iff)
  have "CHR ''/'' \<notin> set a"
    using assms(2) by (simp add: plain_part_def)
  then have "k = a # Split r (CHR ''/'')"
    using path_parts_plain(1) [of k] assms(1) by (simp add: r Split_append plain_key_def)
  then show "\<exists>ks. ks \<noteq> [] \<and> k = a # ks"
    using Split_neq_Nil by blast
next
  assume "\<exists>ks. ks \<noteq> [] \<and> k = a # ks"
  then show "HasPrefix (Join k ''/'') (a @ ''/'')"
    by (auto simp: HasPrefix_iff Join_Cons)
qed

lemma join_single: "plain_key k \<Longrightarrow> plain_part a \<Longrightarrow> Join k ''/'' = a \<longleftrightarrow> k = [a]"
  using join_inj [of k "[a]"] by (auto simp: plain_key_def)

definition content_of :: "create_request \<Rightarrow> home option \<Rightarrow> (string \<times> string) list \<Rightarrow> tar_entry list \<Rightarrow> bool" where
  "content_of q h stage es \<longleftrightarrow> (\<exists>ns. (if crr_files q then \<exists>t. h = Some t \<and> ns = walk_order t else ns = []) \<and>
     (\<forall>x \<in> set ns. archived (snd x)) \<and>
     es = map home_entry ns @ map stage_entry (sort_key fst stage) @
       (if crr_metadata q \<noteq> [] then [bytes_entry ''metadata.json'' (crr_metadata q)] else []))"

definition manifest_for :: "local_driver \<Rightarrow> create_request \<Rightarrow> msec \<Rightarrow> tar_entry list \<Rightarrow> manifest" where
  "manifest_for d q now es = \<lparr>man_version = backupfmt_Version, man_run = crr_run q, man_account = crr_account q,
     man_created = now, man_files = crr_files q, man_databases = crr_databases q \<noteq> [],
     man_metadata = crr_metadata q \<noteq> [], man_entries = manifest_of d es\<rparr>"

lemma create_Inr:
  assumes "local_Create d q now st = Inr (f, st')"
  obtains stage es where "idPattern (crr_account q)" "idPattern (crr_run q)" "systemUserPattern (crr_user q)"
    "crr_user q = ''wcp_'' @ take 12 (crr_account q)" "length (crr_metadata q) \<le> 4 * 2 ^ 20"
    "stage_dumps d (crr_databases q) [] = Inr stage" "content_of q (lst_home st) stage es"
    "aar_manifest f = manifest_for d q now es" "aar_path f = archive_path d (crr_account q) (crr_run q @ ''.tar.gz'')"
    "aar_checksum f = sha256_hex d (ldr_pack d (es @ [bytes_entry ''manifest.json'' (ldr_enc d (aar_manifest f))]))"
    "st' = st\<lparr>lst_files := AList.update (aar_path f)
      (ldr_pack d (es @ [bytes_entry ''manifest.json'' (ldr_enc d (aar_manifest f))])) (lst_files st)\<rparr>"
proof -
  let ?m = "\<lparr>man_version = backupfmt_Version, man_run = crr_run q, man_account = crr_account q, man_created = now,
        man_files = crr_files q, man_databases = crr_databases q \<noteq> [], man_metadata = crr_metadata q \<noteq> [],
        man_entries = []\<rparr>"
  from assms obtain stage m es' where
    who: "idPattern (crr_account q)" "idPattern (crr_run q)" "systemUserPattern (crr_user q)"
      "crr_user q = ''wcp_'' @ take 12 (crr_account q)" "length (crr_metadata q) \<le> 4 * 2 ^ 20"
    and stage: "stage_dumps d (crr_databases q) [] = Inr stage"
    and ar: "local_writeArchive d q stage ?m (lst_home st) = Inr (m, es')"
    and f: "f = \<lparr>aar_path = archive_path d (crr_account q) (crr_run q @ ''.tar.gz''),
      aar_checksum = sha256_hex d (ldr_pack d es'), aar_size = int (length (ldr_pack d es')), aar_manifest = m\<rparr>"
    and st': "st' = st\<lparr>lst_files := AList.update (archive_path d (crr_account q) (crr_run q @ ''.tar.gz''))
      (ldr_pack d es') (lst_files st)\<rparr>"
    by (auto simp: local_Create_def local_validateAccount_def Let_def not_less)
  define hp where "hp = (if crr_files q
    then case lst_home st of None \<Rightarrow> Inl (Plain ''open home directory'') | Some t \<Rightarrow> home_entries (walk_order t) else Inr [])"
  from ar obtain fs where fs: "hp = Inr fs"
    and m: "m = ?m\<lparr>man_entries := manifest_of d (fs @ map stage_entry (sort_key fst stage) @
      (if crr_metadata q \<noteq> [] then [bytes_entry ''metadata.json'' (crr_metadata q)] else []))\<rparr>"
    and es': "es' = (fs @ map stage_entry (sort_key fst stage) @
      (if crr_metadata q \<noteq> [] then [bytes_entry ''metadata.json'' (crr_metadata q)] else [])) @
      [bytes_entry ''manifest.json'' (ldr_enc d m)]"
    unfolding local_writeArchive_def hp_def [symmetric] by (auto simp: Let_def split: option.splits)
  let ?es = "fs @ map stage_entry (sort_key fst stage) @
      (if crr_metadata q \<noteq> [] then [bytes_entry ''metadata.json'' (crr_metadata q)] else [])"
  have "content_of q (lst_home st) stage ?es"
    using fs unfolding content_of_def hp_def by (auto dest!: home_entries_Inr split: if_splits option.splits)
  moreover have "m = manifest_for d q now ?es"
    by (simp add: m manifest_for_def)
  ultimately show thesis
    using that [of stage ?es] who stage by (simp add: f st' es')
qed

definition content_keys :: "create_request \<Rightarrow> home \<Rightarrow> (string \<times> string) list \<Rightarrow> string list list" where
  "content_keys q ns stage = map (\<lambda>x. ''files'' # fst x) ns @ map (\<lambda>x. [''databases'', fst x]) (sort_key fst stage) @
     (if crr_metadata q \<noteq> [] then [[''metadata.json'']] else [])"

lemma bytes_entry_sel [simp]:
  "tar_name (bytes_entry n data) = n" "tar_type (bytes_entry n data) = TypeReg" "tar_data (bytes_entry n data) = data"
  by (simp_all add: bytes_entry_def)

lemma home_entry_name:
  "plain_key ps \<Longrightarrow> tar_name (home_entry (ps, n)) = Join (''files'' # ps) ''/''"
  by (simp add: home_entry_def path_Join_plain plain_key_def)

lemma stage_entry_name:
  "plain_part x \<Longrightarrow> tar_name (stage_entry (x, data)) = Join [''databases'', x] ''/''"
  using path_Join_plain [of "''databases''" "[x]"] by (simp add: stage_entry_def)

lemma distinct_joins:
  assumes "\<forall>k \<in> set ks. plain_key k" "distinct ks"
  shows "distinct (map (\<lambda>k. Join k ''/'') ks)"
  using assms join_inj by (auto simp: distinct_map intro!: inj_onI)

lemma distinct_sorted [simp]: "distinct (map f (sort_key g xs)) \<longleftrightarrow> distinct (map f xs)"
  by (rule mset_eq_imp_distinct_iff) (simp add: mset_map)

lemma home_okD: "home_ok h \<Longrightarrow> (ps, n) \<in> set h \<Longrightarrow> plain_key ps" "home_ok h \<Longrightarrow> distinct (map fst h)"
  by (auto simp: home_ok_def plain_key_def)

lemma content_facts:
  assumes c: "content_of q h stage es" and stage: "stage_dumps d (crr_databases q) [] = Inr stage"
    and h: "\<forall>t. h = Some t \<longrightarrow> home_ok t"
  obtains ns where "if crr_files q then \<exists>t. h = Some t \<and> ns = walk_order t else ns = []"
    "\<forall>x \<in> set ns. archived (snd x) \<and> plain_key (fst x)"
    "map tar_name es = map (\<lambda>k. Join k ''/'') (content_keys q ns stage)"
    "\<forall>k \<in> set (content_keys q ns stage). plain_key k" "distinct (content_keys q ns stage)"
    "es = map home_entry ns @ map stage_entry (sort_key fst stage) @
       (if crr_metadata q \<noteq> [] then [bytes_entry ''metadata.json'' (crr_metadata q)] else [])"
proof -
  from c obtain ns where ns: "if crr_files q then \<exists>t. h = Some t \<and> ns = walk_order t else ns = []"
    "\<forall>x \<in> set ns. archived (snd x)" and es: "es = map home_entry ns @ map stage_entry (sort_key fst stage) @
       (if crr_metadata q \<noteq> [] then [bytes_entry ''metadata.json'' (crr_metadata q)] else [])"
    unfolding content_of_def by blast
  have keys: "\<forall>x \<in> set ns. plain_key (fst x)" "distinct (map fst ns)"
    using ns(1) h by (auto simp: walk_order_def home_okD split: if_splits)
  have dumps: "\<forall>x \<in> set stage. plain_part (fst x)" "distinct (map fst stage)"
  proof -
    have s: "distinct (map fst stage)" "map fst stage = map (\<lambda>n. n @ ''.sql'') (crr_databases q)"
      "\<forall>n \<in> set (crr_databases q). databaseSystemNamePattern n"
      using stage_dumps_Inr [OF stage] unfolding list.map append_Nil by (blast intro: distinct.simps(1) [THEN iffD2])+
    show "distinct (map fst stage)"
      by (rule s(1))
    have "plain_part n" if "n \<in> set (map fst stage)" for n
      using that s(3) dump_name_plain unfolding s(2) by auto
    then show "\<forall>x \<in> set stage. plain_part (fst x)"
      by simp
  qed
  have "map tar_name (map home_entry ns) = map (\<lambda>k. Join k ''/'') (map (\<lambda>x. ''files'' # fst x) ns)"
    using keys(1) home_entry_name by (auto simp del: Join.simps)
  moreover have "map tar_name (map stage_entry (sort_key fst stage)) =
      map (\<lambda>k. Join k ''/'') (map (\<lambda>x. [''databases'', fst x]) (sort_key fst stage))"
    using dumps(1) stage_entry_name by (auto simp del: Join.simps)
  ultimately have "map tar_name es = map (\<lambda>k. Join k ''/'') (content_keys q ns stage)"
    by (simp add: es content_keys_def)
  moreover have "\<forall>k \<in> set (content_keys q ns stage). plain_key k"
  proof
    fix k
    assume "k \<in> set (content_keys q ns stage)"
    then consider x where "x \<in> set ns" "k = ''files'' # fst x" | x where "x \<in> set stage" "k = [''databases'', fst x]"
      | "k = [''metadata.json'']"
      unfolding content_keys_def by (auto split: if_splits)
    then show "plain_key k"
      using keys(1) dumps(1) by cases (simp_all add: plain_key_def)
  qed
  moreover have "distinct (content_keys q ns stage)"
    using keys(2) dumps(2) by (auto simp: content_keys_def distinct_map inj_on_def)
  ultimately show thesis
    using that [OF ns(1) _ _ _ _ es] ns(2) keys(1) by blast
qed

section \<open>Created archives that are accepted\<close>

definition coerced :: "manifest_entry \<Rightarrow> manifest_entry" where
  "coerced e = e\<lparr>ent_path := to_utf8 (ent_path e), ent_checksum := to_utf8 (ent_checksum e)\<rparr>"

lemma digest_utf8: "checksumPattern s \<Longrightarrow> to_utf8 s = s"
  by (intro to_utf8_valid ascii_utf8)
    (auto simp: checksumPattern_def list_all_iff is_hex_lower_def is_digit_def bytes_between_def is_ascii_def)

lemma id_utf8: "idPattern s \<Longrightarrow> to_utf8 s = s"
  by (intro to_utf8_valid ascii_utf8)
    (auto simp: idPattern_def list_all_iff is_hex_lower_def is_digit_def bytes_between_def is_ascii_def)

lemma sum_length_coerced:
  "(\<Sum>s\<leftarrow>ss. length s) \<le> (\<Sum>s\<leftarrow>ss. length (to_utf8 s))"
  "s \<in> set ss \<Longrightarrow> \<not> utf8_valid s \<Longrightarrow> (\<Sum>s\<leftarrow>ss. length s) < (\<Sum>s\<leftarrow>ss. length (to_utf8 s))"
proof -
  show le: "(\<Sum>s\<leftarrow>ss. length s) \<le> (\<Sum>s\<leftarrow>ss. length (to_utf8 s))" for ss
    by (rule sum_list_mono) (simp add: length_to_utf8)
  show "s \<in> set ss \<Longrightarrow> \<not> utf8_valid s \<Longrightarrow> (\<Sum>s\<leftarrow>ss. length s) < (\<Sum>s\<leftarrow>ss. length (to_utf8 s))"
  proof (induction ss)
    case (Cons a ss)
    have "length a \<le> length (to_utf8 a)"
      by (simp add: length_to_utf8)
    then show ?case
      using Cons le [of ss] to_utf8_longer [of s] by fastforce
  qed simp
qed

lemma check_coerced:
  assumes names: "distinct (map tar_name rs)" and sha: "\<forall>s. checksumPattern (sha256_hex d s)"
  shows "check_entries (map (coerced \<circ> snd \<circ> computed_entry d) rs) (rev (map (computed_entry d) rs)) \<longleftrightarrow>
    (\<forall>e \<in> set rs. utf8_valid (tar_name e))"
    (is "check_entries ?es ?c \<longleftrightarrow> _")
proof
  have keys: "map fst (map (computed_entry d) rs) = map tar_name rs"
    by (simp add: computed_entry_def comp_def)
  have paths: "map ent_path ?es = map (to_utf8 \<circ> tar_name) rs"
    by (simp add: coerced_def computed_entry_def comp_def)
  {
    assume "check_entries ?es ?c"
    moreover have "distinct (map fst ?c)"
      using names keys by (metis distinct_rev rev_map)
    ultimately have "distinct (map ent_path ?es)" "ent_path ` set ?es \<subseteq> fst ` set ?c"
      using check_success [of ?es ?c] by blast+
    moreover have "fst ` set ?c = set (map tar_name rs)"
      by (simp add: image_image computed_entry_def)
    ultimately have "distinct (map ent_path ?es)" "set (map ent_path ?es) \<subseteq> set (map tar_name rs)"
      by (simp_all only: set_map)
    then have "mset (map ent_path ?es) = mset (map tar_name rs)"
      using names paths by (metis card_subset_eq distinct_card finite_set length_map set_eq_iff_mset_eq_distinct)
    then have "(\<Sum>s\<leftarrow>map ent_path ?es. length s) = (\<Sum>s\<leftarrow>map tar_name rs. length s)"
      by (metis mset_map sum_mset_sum_list)
    then have "(\<Sum>s\<leftarrow>map tar_name rs. length (to_utf8 s)) = (\<Sum>s\<leftarrow>map tar_name rs. length s)"
      unfolding paths by (simp add: comp_def)
    then show "\<forall>e \<in> set rs. utf8_valid (tar_name e)"
      using sum_length_coerced(2) [of _ "map tar_name rs"] by fastforce
  }
  assume valid: "\<forall>e \<in> set rs. utf8_valid (tar_name e)"
  have same: "coerced (snd (computed_entry d e)) = snd (computed_entry d e)" if "e \<in> set rs" for e
    using that valid sha by (simp add: coerced_def computed_entry_def to_utf8_valid digest_utf8)
  show "check_entries ?es ?c"
  proof (rule check_same)
    show "distinct (map ent_path ?es)"
      unfolding paths using names valid by (auto simp: distinct_map inj_on_def to_utf8_valid)
    show "\<forall>e \<in> set ?es. map_of ?c (ent_path e) = Some e"
    proof
      fix x
      assume "x \<in> set ?es"
      then obtain e where e: "e \<in> set rs" "x = snd (computed_entry d e)"
        using same by auto
      have "computed_entry d e \<in> set (map (computed_entry d) rs)"
        using e(1) by simp
      moreover have "distinct (map fst ?c)"
        using names keys by (metis distinct_rev rev_map)
      moreover have "computed_entry d e = (ent_path x, x)"
        using e(2) by (simp add: computed_entry_def)
      ultimately show "map_of ?c (ent_path x) = Some x"
        by (metis map_of_is_SomeI set_rev)
    qed
  qed
qed

lemma entry_named:
  "plain_key ps \<Longrightarrow> tar_name (home_entry (ps, n)) = ''files/'' @ Join ps ''/''"
  "plain_part x \<Longrightarrow> tar_name (stage_entry (x, data)) = ''databases/'' @ x"
  using home_entry_name [of ps n] stage_entry_name [of x data] by (simp_all add: Join_Cons plain_key_def)

lemma content_entries:
  assumes ns: "\<forall>x \<in> set ns. archived (snd x) \<and> plain_key (fst x)"
    and names: "map tar_name es = map (\<lambda>k. Join k ''/'') (content_keys q ns stage)"
    and keys: "\<forall>k \<in> set (content_keys q ns stage). plain_key k" "distinct (content_keys q ns stage)"
    and es: "es = map home_entry ns @ map stage_entry (sort_key fst stage) @
       (if crr_metadata q \<noteq> [] then [bytes_entry ''metadata.json'' (crr_metadata q)] else [])"
  shows "\<forall>e \<in> set es. plain_entry e" "distinct (map tar_name es)"
    "list_ex (\<lambda>e. HasPrefix (tar_name e) ''files/'') es \<Longrightarrow> ns \<noteq> []"
    "list_ex (\<lambda>e. HasPrefix (tar_name e) ''databases/'' \<and> regular e) es \<longleftrightarrow> stage \<noteq> []"
    "list_ex (\<lambda>e. tar_name e = ''metadata.json'' \<and> regular e) es \<longleftrightarrow> crr_metadata q \<noteq> []"
proof -
  show "distinct (map tar_name es)"
    unfolding names using keys by (rule distinct_joins)
  have hn: "tar_name (home_entry x) = ''files/'' @ Join (fst x) ''/''" "tar_type (home_entry x) \<noteq> TypeOther" if "x \<in> set ns" for x
    using that ns entry_named(1) [of "fst x" "snd x"]
    by (auto simp: home_entry_def archived_def split: hnode.splits)
  have sn: "tar_name (stage_entry x) = ''databases/'' @ fst x" "regular (stage_entry x)" if "x \<in> set stage" for x
  proof -
    have "plain_key [''databases'', fst x]"
      using keys(1) that by (auto simp: content_keys_def)
    then show "tar_name (stage_entry x) = ''databases/'' @ fst x"
      using entry_named(2) [of "fst x" "snd x"] by (simp add: plain_key_def)
  qed (simp add: regular_def stage_entry_def)
  have "e \<in> set es \<Longrightarrow> (\<exists>x \<in> set ns. e = home_entry x) \<or> (\<exists>x \<in> set stage. e = stage_entry x) \<or>
      (e = bytes_entry ''metadata.json'' (crr_metadata q) \<and> crr_metadata q \<noteq> [])" for e
    by (auto simp: es split: if_splits)
  note cases = this
  show "\<forall>e \<in> set es. plain_entry e"
  proof
    fix e
    assume e: "e \<in> set es"
    then obtain k where k: "k \<in> set (content_keys q ns stage)" "tar_name e = Join k ''/''"
      using names by (metis (no_types, lifting) imageE image_eqI list.set_map)
    then have "validEntryPath (tar_name e)"
      using keys(1) valid_entry_plain by (auto simp: plain_key_def)
    then show "plain_entry e"
      using cases [OF e] hn sn by (auto simp: plain_entry_def stage_entry_def)
  qed
  show "list_ex (\<lambda>e. HasPrefix (tar_name e) ''files/'') es \<Longrightarrow> ns \<noteq> []"
    using cases sn(1) by (fastforce simp: list_ex_iff HasPrefix_iff)
  show "list_ex (\<lambda>e. HasPrefix (tar_name e) ''databases/'' \<and> regular e) es \<longleftrightarrow> stage \<noteq> []"
  proof
    show "stage \<noteq> []" if "list_ex (\<lambda>e. HasPrefix (tar_name e) ''databases/'' \<and> regular e) es"
      using that cases hn(1) by (fastforce simp: list_ex_iff HasPrefix_iff)
    assume "stage \<noteq> []"
    then obtain x where "x \<in> set stage"
      by (cases stage) auto
    then have "stage_entry x \<in> set es" "tar_name (stage_entry x) = ''databases/'' @ fst x" "regular (stage_entry x)"
      using sn [of x] by (simp_all add: es)
    then show "list_ex (\<lambda>e. HasPrefix (tar_name e) ''databases/'' \<and> regular e) es"
      unfolding list_ex_iff HasPrefix_iff by blast
  qed
  show "list_ex (\<lambda>e. tar_name e = ''metadata.json'' \<and> regular e) es \<longleftrightarrow> crr_metadata q \<noteq> []"
    using cases hn(1) sn(1) by (fastforce simp: list_ex_iff es regular_def)
qed

text \<open>The request that previews and restores what \<open>Create\<close> returned.\<close>

definition artifact_for :: "create_request \<Rightarrow> agent_artifact \<Rightarrow> artifact_request" where
  "artifact_for q f = \<lparr>arq_account = crr_account q, arq_path = aar_path f, arq_checksum = aar_checksum f\<rparr>"

lemma id_part: "idPattern i \<Longrightarrow> plain_part (i @ s)" if "CHR ''/'' \<notin> set s"
  using that by (cases i; cases "tl i")
    (auto simp: idPattern_def plain_part_def list_all_iff is_hex_lower_def is_digit_def bytes_between_def byte_def)

lemma created_path:
  assumes "ldr_root d = defaultRoot" "idPattern (crr_account q)" "idPattern (crr_run q)" "checksumPattern (aar_checksum f)"
    "aar_path f = archive_path d (crr_account q) (crr_run q @ ''.tar.gz'')"
  shows "local_validateArtifact d (artifact_for q f) = Inr ()"
proof -
  let ?dir = "[''var'', ''backups'', ''webycp'', crr_account q]" and ?name = "crr_run q @ ''.tar.gz''"
  have a: "plain_part (crr_account q)" "plain_part ?name"
    using id_part [of "[]" "crr_account q"] id_part [of "''.tar.gz''" "crr_run q"] assms(2,3) by simp_all
  have slash: "path_Clean (CHR ''/'' # Join ps ''/'') = CHR ''/'' # Join ps ''/''" "path_parts (CHR ''/'' # Join ps ''/'') = ps"
    if "\<forall>p \<in> set ps. plain_part p" for ps
    using path_parts_slash [OF that] path_Clean_rooted(1) [of "CHR ''/'' # Join ps ''/''"] by (simp_all add: is_rooted_def)
  have dirs: "\<forall>p \<in> set ?dir. plain_part p" "\<forall>p \<in> set (?dir @ [?name]). plain_part p"
    using a by (simp_all add: plain_part_def)
  have root: "path_Join [ldr_root d, crr_account q] = CHR ''/'' # Join ?dir ''/''"
    using slash(1) [OF dirs(1)] a(1) by (simp add: path_Join_def defaultRoot_def assms(1) plain_part_def)
  have path: "aar_path f = CHR ''/'' # Join (?dir @ [?name]) ''/''"
    using slash(1) [OF dirs(2)] a(2) unfolding assms(5) archive_path_def root by (simp add: path_Join_def plain_part_def)
  have "path_Rel (path_Join [ldr_root d, crr_account q]) (aar_path f) = Some ?name"
    unfolding root path path_Rel_def slash(2) [OF dirs(1)] slash(2) [OF dirs(2)] by (simp add: is_rooted_def)
  moreover have "?name \<noteq> ''.''" "HasSuffix (aar_path f) ''.gz''" "\<not> HasPrefix ?name ''../''"
  proof -
    show "HasSuffix (aar_path f) ''.gz''"
    proof -
      have "HasSuffix (p @ s) s" for p s
        by (simp add: HasSuffix_def)
      moreover have "aar_path f = (CHR ''/'' # Join ?dir ''/'' @ CHR ''/'' # crr_run q @ ''.tar'') @ ''.gz''"
        by (simp add: path)
      ultimately show ?thesis
        by metis
    qed
    show "\<not> HasPrefix ?name ''../''"
      using assms(3) by (cases "crr_run q") (auto simp: HasPrefix_iff idPattern_def is_hex_lower_def is_digit_def bytes_between_def byte_def)
  qed (cases "crr_run q", auto)
  ultimately show ?thesis
    using assms(2,4) by (simp add: local_validateArtifact_def artifact_for_def)
qed

lemma inspect_created:
  assumes laws: "library_laws d" and plain: "\<forall>e \<in> set es. plain_entry e" and names: "distinct (map tar_name es)"
    and ids: "idPattern (crr_account q)" "idPattern (crr_run q)" and small: "length (ldr_enc d m) \<le> 2 ^ 20"
    and m: "m = manifest_for d q now es"
    and files: "list_ex (\<lambda>e. HasPrefix (tar_name e) ''files/'') es \<Longrightarrow> crr_files q"
    and dbs: "list_ex (\<lambda>e. HasPrefix (tar_name e) ''databases/'' \<and> regular e) es \<longleftrightarrow> crr_databases q \<noteq> []"
    and meta: "list_ex (\<lambda>e. tar_name e = ''metadata.json'' \<and> regular e) es \<longleftrightarrow> crr_metadata q \<noteq> []"
  shows "local_inspectArchive d (ldr_pack d (es @ [bytes_entry ''manifest.json'' (ldr_enc d m)])) (crr_account q) =
    (if \<forall>e \<in> set (man_entries m). utf8_valid (ent_path e) then Inr m else Inl (invalid_archive ''entry checksum mismatch''))"
proof -
  let ?i = "nothing_seen\<lparr>ins_seen := rev (map tar_name es),
    ins_computed := rev (map (computed_entry d) (filter regular es)),
    ins_files := list_ex (\<lambda>e. HasPrefix (tar_name e) ''files/'') es,
    ins_databases := crr_databases q \<noteq> [], ins_metadata := crr_metadata q \<noteq> []\<rparr>"
  let ?j = "?i\<lparr>ins_seen := ''manifest.json'' # ins_seen ?i, ins_manifest := Some (utf8_manifest m)\<rparr>"
  have "inspect_entries d es nothing_seen = Inr ?i"
    using inspect_plain [OF plain names, of nothing_seen d] dbs meta by (simp add: nothing_seen_def)
  moreover have "inspect_entry d (bytes_entry ''manifest.json'' (ldr_enc d m)) ?i = Inr ?j"
  proof -
    have "validEntryPath ''manifest.json''"
      using valid_entry_plain [of "[''manifest.json'']"] by simp
    moreover have "''manifest.json'' \<notin> set (ins_seen ?i)"
      using plain by (auto simp: plain_entry_def)
    ultimately show ?thesis
      using laws small by (simp add: inspect_entry_def note_entry_def library_laws_def Let_def HasPrefix_def)
  qed
  ultimately have "local_inspectArchive d (ldr_pack d (es @ [bytes_entry ''manifest.json'' (ldr_enc d m)])) (crr_account q) =
      archive_verdict ?j (crr_account q)"
    using laws by (simp add: local_inspectArchive_def library_laws_def inspect_append)
  moreover have um: "utf8_manifest m = m\<lparr>man_entries := map coerced (man_entries m)\<rparr>"
    using ids by (simp add: utf8_manifest_def m manifest_for_def id_utf8 coerced_def [abs_def])
  moreover have "man_entries m = map (snd \<circ> computed_entry d) (filter regular es)"
    by (simp add: m manifest_for_def manifest_of_computed)
  moreover have "check_entries (map coerced (man_entries m)) (ins_computed ?j) \<longleftrightarrow>
      (\<forall>e \<in> set (man_entries m). utf8_valid (ent_path e))"
  proof -
    have "distinct (map tar_name (filter regular es))"
      using names by (rule distinct_map_filter)
    from check_coerced [OF this, of d] show ?thesis
      using laws by (simp add: library_laws_def m manifest_for_def manifest_of_computed computed_entry_def comp_assoc)
  qed
  moreover have "map coerced (man_entries m) = man_entries m" if "\<forall>e \<in> set (man_entries m). utf8_valid (ent_path e)"
  proof (rule map_idI)
    fix e
    assume e: "e \<in> set (man_entries m)"
    then have "to_utf8 (ent_checksum e) = ent_checksum e"
      using laws by (auto simp: m manifest_for_def manifest_of_def library_laws_def digest_utf8)
    then show "coerced e = e"
      using that e by (simp add: coerced_def to_utf8_valid)
  qed
  moreover have "archive_verdict ?j (crr_account q) =
      (if check_entries (map coerced (man_entries m)) (ins_computed ?j) then Inr (m\<lparr>man_entries := map coerced (man_entries m)\<rparr>)
       else Inl (invalid_archive ''entry checksum mismatch''))"
  proof -
    have f: "(list_ex (\<lambda>e. HasPrefix (tar_name e) ''files/'') es \<and> \<not> crr_files q) = False"
      using files by blast
    have "length (man_entries m) = length (ins_computed ?j)"
      by (simp add: m manifest_for_def manifest_of_computed)
    moreover have "man_version m = 4" "man_account m = crr_account q" "man_run m = crr_run q" "man_files m = crr_files q"
      "man_databases m \<longleftrightarrow> crr_databases q \<noteq> []" "man_metadata m \<longleftrightarrow> crr_metadata q \<noteq> []"
      by (simp_all add: m manifest_for_def backupfmt_Version_def)
    ultimately show ?thesis
      using ids by (simp add: f archive_verdict_def um backupfmt_Version_def)
  qed
  ultimately show ?thesis
    by (simp split: if_splits)
qed

text \<open>What the preview makes of a fresh archive.\<close>

lemma preview_created:
  assumes created: "local_Create d q now st = Inr (f, st')" and laws: "library_laws d" and root: "ldr_root d = defaultRoot"
    and home: "\<forall>t. lst_home st = Some t \<longrightarrow> home_ok t"
  shows "local_Preview d (artifact_for q f) st' =
    (if 2 ^ 20 < length (ldr_enc d (aar_manifest f)) then Inl (invalid_archive ''malformed manifest'')
     else if \<forall>e \<in> set (man_entries (aar_manifest f)). utf8_valid (ent_path e) then Inr (aar_manifest f)
     else Inl (invalid_archive ''entry checksum mismatch''))"
proof -
  from created obtain stage es where ids: "idPattern (crr_account q)" "idPattern (crr_run q)"
    and stage: "stage_dumps d (crr_databases q) [] = Inr stage" and c: "content_of q (lst_home st) stage es"
    and m: "aar_manifest f = manifest_for d q now es"
    and p: "aar_path f = archive_path d (crr_account q) (crr_run q @ ''.tar.gz'')"
    and sum: "aar_checksum f = sha256_hex d (ldr_pack d (es @ [bytes_entry ''manifest.json'' (ldr_enc d (aar_manifest f))]))"
    and st': "st' = st\<lparr>lst_files := AList.update (aar_path f)
      (ldr_pack d (es @ [bytes_entry ''manifest.json'' (ldr_enc d (aar_manifest f))])) (lst_files st)\<rparr>"
    by (rule create_Inr) (rule that)
  from c stage home obtain ns where ns: "if crr_files q then \<exists>t. lst_home st = Some t \<and> ns = walk_order t else ns = []"
    and e: "\<forall>x \<in> set ns. archived (snd x) \<and> plain_key (fst x)"
      "map tar_name es = map (\<lambda>k. Join k ''/'') (content_keys q ns stage)"
      "\<forall>k \<in> set (content_keys q ns stage). plain_key k" "distinct (content_keys q ns stage)"
      "es = map home_entry ns @ map stage_entry (sort_key fst stage) @
       (if crr_metadata q \<noteq> [] then [bytes_entry ''metadata.json'' (crr_metadata q)] else [])"
    by (rule content_facts) (rule that)
  note ce = content_entries [OF e]
  have files: "list_ex (\<lambda>e. HasPrefix (tar_name e) ''files/'') es \<Longrightarrow> crr_files q"
    using ce(3) ns by (auto split: if_splits)
  have dbs: "stage \<noteq> [] \<longleftrightarrow> crr_databases q \<noteq> []"
    using stage_dumps_Inr [OF stage] by (auto dest: arg_cong [where f = length])
  have sha: "checksumPattern (aar_checksum f)"
    using laws by (simp add: sum library_laws_def)
  have "local_Preview d (artifact_for q f) st' = map_err (\<lambda>e. if damaged e then invalid_archive ''damaged archive'' else e)
      (local_inspectArchive d (ldr_pack d (es @ [bytes_entry ''manifest.json'' (ldr_enc d (aar_manifest f))])) (crr_account q))"
    using created_path [OF root ids sha p] by (simp add: local_Preview_def artifact_for_def st' sum update_conv')
  moreover have "\<not> damaged (invalid_archive msg)" for msg
    by (simp add: damaged_def invalid_archive_def backupfmt_ErrInvalid_def)
  moreover have "local_inspectArchive d (ldr_pack d (es @ [bytes_entry ''manifest.json'' (ldr_enc d (aar_manifest f))])) (crr_account q) =
      Inl (invalid_archive ''malformed manifest'')" if "2 ^ 20 < length (ldr_enc d (aar_manifest f))"
  proof -
    have "validEntryPath ''manifest.json''" "''manifest.json'' \<notin> set (map tar_name es)"
      using valid_entry_plain [of "[''manifest.json'']"] ce(1) by (auto simp: plain_entry_def)
    then show ?thesis
      using laws that inspect_plain [OF ce(1,2), of nothing_seen d]
      by (simp add: local_inspectArchive_def library_laws_def inspect_append inspect_entry_def nothing_seen_def)
  qed
  ultimately show ?thesis
    using inspect_created [OF laws ce(1,2) ids _ m files] ce(4,5) dbs m by simp
qed

text \<open>Which created backups can be used again.  When \<open>Create\<close> succeeds on a home directory,
  a preview of its artifact is accepted exactly if the manifest is at most 1 MiB long and every
  archived path is valid UTF-8, and then it returns the manifest \<open>Create\<close> reported.  \<open>Create\<close>
  checks neither condition, so a home directory with some ten thousand files, or with one file
  name in another encoding, yields a backup that every preview and every restore refuses.\<close>

theorem created_backup_accepted:
  assumes created: "local_Create d q now st = Inr (f, st')" and laws: "library_laws d" and root: "ldr_root d = defaultRoot"
    and home: "\<forall>t. lst_home st = Some t \<longrightarrow> home_ok t"
  shows "local_Preview d (artifact_for q f) st' =
    (if 2 ^ 20 < length (ldr_enc d (aar_manifest f)) then Inl (invalid_archive ''malformed manifest'')
     else if \<forall>e \<in> set (man_entries (aar_manifest f)). utf8_valid (ent_path e) then Inr (aar_manifest f)
     else Inl (invalid_archive ''entry checksum mismatch''))"
  using assms by (rule preview_created)

section \<open>Restoring what was created\<close>

lemma home_parents:
  assumes "home_ok h" "map_of h (qs @ rs) = Some n" "qs \<noteq> []" "rs \<noteq> []"
  shows "is_dir (map_of h qs)"
  using assms(2,4)
proof (induction rs arbitrary: n rule: rev_induct)
  case (snoc r rs)
  have "(qs @ rs @ [r], n) \<in> set h"
    using snoc.prems(1) by (auto dest: map_of_SomeD)
  then have up: "is_dir (map_of h (qs @ rs))"
    using assms(1,3) by (fastforce simp: home_ok_def butlast_append)
  show ?case
  proof (cases "rs = []")
    case False
    then show ?thesis
      using up snoc.IH by (cases "map_of h (qs @ rs)") (auto simp: is_dir_def)
  qed (use up in simp)
qed simp

lemma proper_prefix_less: "r \<noteq> [] \<Longrightarrow> (q :: string list) < q @ r"
  by (induction q) (auto simp: neq_Nil_conv)

text \<open>Every directory on the way to \<open>ps\<close>, below \<open>done\<close>, is there.\<close>

definition way :: "home \<Rightarrow> string list \<Rightarrow> string list \<Rightarrow> bool" where
  "way h done ps \<longleftrightarrow> (\<forall>qs rs. ps = qs @ rs \<and> qs \<noteq> [] \<and> rs \<noteq> [] \<longrightarrow> is_dir (map_of h (done @ qs)))"

lemma way_Cons:
  "way h done (p # ps) \<Longrightarrow> way h (done @ [p]) ps \<and> (ps \<noteq> [] \<longrightarrow> is_dir (map_of h (done @ [p])))"
  unfolding way_def
proof (intro conjI allI impI)
  assume w: "\<forall>qs rs. p # ps = qs @ rs \<and> qs \<noteq> [] \<and> rs \<noteq> [] \<longrightarrow> is_dir (map_of h (done @ qs))"
  show "is_dir (map_of h ((done @ [p]) @ qs))" if "ps = qs @ rs \<and> qs \<noteq> [] \<and> rs \<noteq> []" for qs rs
    using w [rule_format, of "p # qs" rs] that by simp
  show "is_dir (map_of h (done @ [p]))" if "ps \<noteq> []"
    using w [rule_format, of "[p]" ps] that by simp
qed

lemma safe_way:
  assumes "way h done ps" "map_of h done = None \<or> is_dir (map_of h done)" "ps \<noteq> []" "map_of h (done @ ps) \<noteq> Some HSymlink"
  shows "safe_target h done ps = Inr ()"
  using assms
proof (induction ps arbitrary: "done")
  case (Cons p ps)
  have sym: "map_of h (done @ [p]) \<noteq> Some HSymlink"
    using way_Cons [OF Cons.prems(1)] Cons.prems(4) by (cases "ps = []") (auto simp: is_dir_def split: option.splits hnode.splits)
  have "safe_target h (done @ [p]) ps = Inr ()"
  proof (cases "ps = []")
    case False
    then show ?thesis
      using way_Cons [OF Cons.prems(1)] Cons.IH [of "done @ [p]"] Cons.prems(4) by simp
  qed simp
  then show ?case
    using sym Cons.prems(2) by (auto simp: is_dir_def split: option.splits hnode.splits)
qed simp

lemma mkdir_way:
  assumes "way h done ps" "ps \<noteq> []"
  shows "is_dir (map_of h (done @ ps)) \<Longrightarrow> mkdir_all m done ps h = Inr h"
    "map_of h (done @ ps) = None \<Longrightarrow> mkdir_all m done ps h = Inr (AList.update (done @ ps) (HDir m 0 0) h)"
  using assms
proof (induction ps arbitrary: "done")
  case (Cons p ps)
  {
    case 1
    then have "is_dir (map_of h (done @ [p]))"
      using way_Cons [OF 1(2)] by (cases "ps = []") auto
    moreover have "mkdir_all m (done @ [p]) ps h = Inr h"
      using way_Cons [OF 1(2)] Cons.IH(1) [of "done @ [p]"] 1 by (cases "ps = []") auto
    ultimately show ?case
      by (auto simp: is_dir_def split: option.splits hnode.splits)
  next
    case 2
    show ?case
    proof (cases "ps = []")
      case False
      then have "is_dir (map_of h (done @ [p]))"
        using way_Cons [OF 2(2)] by auto
      moreover have "mkdir_all m (done @ [p]) ps h = Inr (AList.update (done @ p # ps) (HDir m 0 0) h)"
        using way_Cons [OF 2(2)] Cons.IH(2) [of "done @ [p]"] 2 False by auto
      ultimately show ?thesis
        by (auto simp: is_dir_def split: option.splits hnode.splits)
    qed (use 2 in simp)
  }
qed simp_all

lemma way_butlast: "way h [] ps \<Longrightarrow> butlast ps \<noteq> [] \<Longrightarrow> way h [] (butlast ps) \<and> is_dir (map_of h (butlast ps))"
proof -
  assume w: "way h [] ps" "butlast ps \<noteq> []"
  then have ps: "ps = butlast ps @ [last ps]"
    by (metis append_butlast_last_id butlast.simps(1))
  have "is_dir (map_of h qs)" if "butlast ps = qs @ rs" "qs \<noteq> []" for qs rs
    using w(1) [unfolded way_def, rule_format, of qs "rs @ [last ps]"] that ps by (metis append_Nil append_assoc snoc_eq_iff_butlast)
  then show ?thesis
    using w(2) by (auto simp: way_def)
qed

text \<open>What a restored node looks like, and the homes a node can be restored into.\<close>

definition restored_node :: "identity \<Rightarrow> int \<Rightarrow> string list \<Rightarrow> hnode \<Rightarrow> hnode" where
  "restored_node idn webgid ps n =
     (let gid = entry_gid (Join ps ''/'') idn webgid in
      case n of
        HFile m _ _ data \<Rightarrow> HFile (m AND 0x1B0) (idn_uid idn) gid data
      | HDir m _ _ \<Rightarrow> HDir ((m AND 0x1F8) OR (m AND 0x400)) (idn_uid idn) gid
      | _ \<Rightarrow> n)"

definition fits :: "hnode option \<Rightarrow> hnode \<Rightarrow> bool" where
  "fits old n \<longleftrightarrow> (case old of
     None \<Rightarrow> True
   | Some (HDir _ _ _) \<Rightarrow> is_dir (Some n)
   | Some (HFile _ _ _ _) \<Rightarrow> \<not> is_dir (Some n)
   | _ \<Rightarrow> False)"

lemma home_entry_sel [simp]:
  "tar_type (home_entry (ps, HFile m u g data)) = TypeReg" "tar_mode (home_entry (ps, HFile m u g data)) = m"
  "tar_data (home_entry (ps, HFile m u g data)) = data" "tar_type (home_entry (ps, HDir m u g)) = TypeDir"
  "tar_mode (home_entry (ps, HDir m u g)) = m"
  by (simp_all add: home_entry_def)

lemma restore_one:
  assumes key: "plain_key ps" and n: "archived n" and w: "way h [] ps" and fit: "fits (map_of h ps) n"
    and root: "map_of h [] = None" and io: "\<forall>c. ldr_io d (RestoreEntry c) = None"
  shows "\<exists>h'. local_restoreFile d idn webgid (home_entry (ps, n)) h = (None, h') \<and>
    map_of h' = (map_of h)(ps \<mapsto> restored_node idn webgid ps n)"
proof -
  have ps: "ps \<noteq> []" "Split (Join ps ''/'') (CHR ''/'') = ps" "validEntryPath (Join ps ''/'')"
    using key path_parts_plain(1) valid_entry_plain by (auto simp: plain_key_def)
  have rel: "TrimPrefix (tar_name (home_entry (ps, n))) ''files/'' = Join ps ''/''"
    using entry_named(1) [OF key, of n] by (simp add: TrimPrefix_def HasPrefix_def)
  have safe: "safe_target h [] ps = Inr ()"
  proof (rule safe_way [OF w])
    show "map_of h ([] @ ps) \<noteq> Some HSymlink"
      using fit by (auto simp: fits_def)
  qed (use root ps(1) in simp_all)
  show ?thesis
  proof (cases n)
    case (HDir m u g)
    have "\<exists>h1. mkdir_all (m AND 0x1F8) [] ps h = Inr h1 \<and> (map_of h1)(ps \<mapsto> x) = (map_of h)(ps \<mapsto> x)" for x
      using mkdir_way [OF w ps(1), of "m AND 0x1F8"] fit
      by (cases "map_of h ps") (auto simp: fits_def HDir is_dir_def update_conv' split: hnode.splits)
    then obtain h1 where "mkdir_all (m AND 0x1F8) [] ps h = Inr h1"
      "\<And>x. (map_of h1)(ps \<mapsto> x) = (map_of h)(ps \<mapsto> x)"
      by (metis sum.inject(2))
    then show ?thesis
      using io rel by (simp add: local_restoreFile_def ps safe HDir restored_node_def Let_def update_conv')
  next
    case (HFile m u g data)
    have up: "mkdir_all 0x1E8 [] (butlast ps) h = Inr h"
    proof (cases "butlast ps = []")
      case False
      then show ?thesis
        using mkdir_way(1) [of h "[]" "butlast ps"] way_butlast [OF w False] by simp
    qed simp
    have "\<not> is_dir (map_of h ps)"
      using fit by (auto simp: fits_def HFile is_dir_def split: option.splits hnode.splits)
    then show ?thesis
      using io up rel by (simp add: local_restoreFile_def ps safe HFile restored_node_def Let_def update_conv')
  qed (use n in \<open>simp_all add: archived_def\<close>)
qed

definition restored_over :: "identity \<Rightarrow> int \<Rightarrow> home \<Rightarrow> home \<Rightarrow> string list \<Rightarrow> hnode option" where
  "restored_over idn webgid ns t p =
     (case map_of ns p of None \<Rightarrow> map_of t p | Some n \<Rightarrow> Some (restored_node idn webgid p n))"

lemma walk_home:
  assumes "home_ok t"
  shows "map_of (walk_order t) = map_of t" "sorted (map fst (walk_order t))" "distinct (map fst (walk_order t))"
    "set (walk_order t) = set t"
proof -
  show d: "distinct (map fst (walk_order t))" "set (walk_order t) = set t" "sorted (map fst (walk_order t))"
    using assms by (simp_all add: walk_order_def home_okD)
  have "distinct (map fst t)"
    using assms by (rule home_okD)
  then show "map_of (walk_order t) = map_of t"
    using d by (intro map_of_eqI) (auto intro: map_of_eqI simp: map_of_is_SomeI dest!: map_of_SomeD)
qed

text \<open>The home directory, entry by entry: after \<open>done\<close>, its nodes are restored over \<open>t\<close>.\<close>

lemma restore_home:
  assumes ok: "home_ok t0" and nodes: "\<forall>x \<in> set (walk_order t0). archived (snd x)"
    and fit: "\<forall>(ps, n) \<in> set t0. fits (map_of t ps) n" and root: "map_of t [] = None"
    and io: "\<forall>c. ldr_io d (RestoreEntry c) = None" and q: "rrq_files q"
    and w: "walk_order t0 = done @ ns" and h: "\<forall>p. map_of h p = restored_over idn webgid done t p"
  shows "\<exists>h'. restore_entries d q idn webgid (map home_entry ns @ es) h sql meta =
      restore_entries d q idn webgid es h' sql meta \<and> (\<forall>p. map_of h' p = restored_over idn webgid t0 t p)"
  using w h
proof (induction ns arbitrary: "done" h)
  case Nil
  then show ?case
    using walk_home(1) [OF ok] by (auto simp: restored_over_def)
next
  case (Cons x ns)
  obtain ps n where x: "x = (ps, n)" by (cases x)
  have mem: "(ps, n) \<in> set t0" and key: "plain_key ps" and arch: "archived n"
    using Cons.prems(1) nodes walk_home(4) [OF ok] home_okD(1) [OF ok] by (auto simp: x)
  have fst_x: "ps \<notin> fst ` set done"
    using walk_home(3) [OF ok] by (auto simp: Cons.prems(1) x)
  have "is_dir (map_of h qs)" if p: "ps = qs @ rs" "qs \<noteq> []" "rs \<noteq> []" for qs rs
  proof -
    have "map_of t0 (qs @ rs) = Some n"
      using mem home_okD(2) [OF ok] by (simp add: p(1))
    then have d: "is_dir (map_of t0 qs)"
      using home_parents [OF ok _ p(2,3)] by blast
    then obtain m where m: "(qs, m) \<in> set t0" "map_of t0 qs = Some m"
      by (cases "map_of t0 qs") (auto simp: is_dir_def dest: map_of_SomeD)
    have "qs < ps"
      using proper_prefix_less [OF p(3)] by (simp add: p(1))
    moreover have "\<forall>k \<in> fst ` set (x # ns). ps \<le> k"
      using walk_home(2) [OF ok] by (auto simp: Cons.prems(1) x sorted_append)
    ultimately have "(qs, m) \<in> set done"
      using m(1) walk_home(4) [OF ok] Cons.prems(1) by (fastforce simp: x)
    then have "map_of done qs = Some m"
      using walk_home(3) [OF ok] by (simp add: Cons.prems(1))
    then show ?thesis
      using Cons.prems(2) d m(2) by (auto simp: restored_over_def restored_node_def is_dir_def Let_def split: hnode.splits)
  qed
  then have "way h [] ps"
    by (simp add: way_def)
  moreover have "fits (map_of h ps) n"
    using Cons.prems(2) fst_x fit mem by (auto simp: restored_over_def map_of_eq_None_iff [THEN iffD2])
  moreover have "map_of h [] = None"
  proof -
    have "set done \<subseteq> set t0"
      using walk_home(4) [OF ok] Cons.prems(1) by auto
    then have "[] \<notin> fst ` set done"
      using home_okD(1) [OF ok, of "[]"] by (fastforce simp: plain_key_def)
    then show ?thesis
      using Cons.prems(2) root by (simp add: restored_over_def map_of_eq_None_iff [THEN iffD2])
  qed
  ultimately obtain h1 where h1: "local_restoreFile d idn webgid (home_entry (ps, n)) h = (None, h1)"
    "map_of h1 = (map_of h)(ps \<mapsto> restored_node idn webgid ps n)"
    using restore_one [OF key arch _ _ _ io] by blast
  have "HasPrefix (tar_name (home_entry x)) ''files/''"
    using entry_named(1) [OF key, of n] by (simp add: HasPrefix_def x)
  then have "restore_entries d q idn webgid (map home_entry (x # ns) @ es) h sql meta =
      restore_entries d q idn webgid (map home_entry ns @ es) h1 sql meta"
    using q h1(1) by (simp add: x)
  moreover have "\<forall>p. map_of h1 p = restored_over idn webgid (done @ [x]) t p"
    using h1(2) Cons.prems(2) fst_x
    by (auto simp: restored_over_def x map_add_def map_of_eq_None_iff [THEN iffD2] split: option.split)
  ultimately show ?case
    using Cons.IH [of "done @ [x]" h1] Cons.prems(1) by simp
qed

lemma skip_home:
  assumes "\<forall>x \<in> set ns. plain_key (fst x)" "\<not> rrq_files q"
  shows "restore_entries d q idn webgid (map home_entry ns @ es) h sql meta = restore_entries d q idn webgid es h sql meta"
  using assms(1)
proof (induction ns)
  case (Cons x ns)
  have "tar_name (home_entry x) = ''files/'' @ Join (fst x) ''/''"
    using entry_named(1) [of "fst x" "snd x"] Cons.prems by simp
  then show ?case
    using Cons assms(2) by (simp add: HasPrefix_def)
qed simp

lemma restore_dumps:
  assumes "\<forall>x \<in> set fs. \<exists>n. fst x = n @ ''.sql'' \<and> databaseSystemNamePattern n" "\<forall>s. ldr_input d s = None"
  shows "restore_entries d q idn webgid (map stage_entry fs @ es) h sql meta =
    restore_entries d q idn webgid es h (sql @ (if rrq_databases q then map snd fs else [])) meta"
  using assms(1)
proof (induction fs arbitrary: sql)
  case (Cons x fs)
  then obtain n where n: "fst x = n @ ''.sql''" "databaseSystemNamePattern n"
    by auto
  have plain: "plain_part (fst x)"
    using dump_name_plain [OF n(2)] by (simp add: n(1))
  have name: "tar_name (stage_entry x) = ''databases/'' @ fst x"
    using entry_named(2) [OF plain, of "snd x"] by simp
  have "Split (''databases'' @ CHR ''/'' # fst x) (CHR ''/'') = [''databases'', fst x]"
    using plain by (subst Split_append) (simp_all add: plain_part_def Split_no_sep)
  then have "path_Base (tar_name (stage_entry x)) = fst x"
    using plain by (simp add: path_Base_def name plain_part_def)
  then have base: "TrimSuffix (path_Base (tar_name (stage_entry x))) ''.sql'' = n"
    by (simp add: TrimSuffix_def HasSuffix_def n(1))
  have "length n \<le> 64"
    using n(2) databaseNamePattern_length [of "drop 13 n"] by (simp add: databaseSystemNamePattern_def)
  then have "validate_DatabaseSystemName n = Inr ()"
    using n(2) by (simp add: validate_DatabaseSystemName_def)
  then show ?case
    using Cons base assms(2) by (simp add: HasPrefix_def name) (simp add: stage_entry_def)
qed simp

lemma restore_tail:
  assumes "length (crr_metadata q) \<le> 4 * 2 ^ 20"
  shows "restore_entries d r idn webgid ((if crr_metadata q \<noteq> [] then [bytes_entry ''metadata.json'' (crr_metadata q)] else []) @
      [bytes_entry ''manifest.json'' data]) h sql [] = (None, h, sql, if rrq_metadata r then crr_metadata q else [])"
  using assms by (simp add: HasPrefix_def)

definition restore_for :: "create_request \<Rightarrow> agent_artifact \<Rightarrow> bool \<Rightarrow> bool \<Rightarrow> bool \<Rightarrow> restore_request" where
  "restore_for q f files dbs meta = \<lparr>arq_account = crr_account q, arq_path = aar_path f, arq_checksum = aar_checksum f,
     rrq_user = crr_user q, rrq_files = files, rrq_databases = dbs, rrq_metadata = meta\<rparr>"

text \<open>C9: a backup restores what it saved.  An accepted artifact of \<open>Create\<close>, restored later
  with any part of its content and onto any home directory whose nodes have the kinds of the saved
  ones, gives back every saved file with its bytes and every saved directory, owned by the account
  and without permissions for others; every other path keeps its node.  The dumps reach \<open>mysql\<close> in
  the order of their names, and the metadata comes back as it was given.\<close>

theorem backup_restores:
  assumes created: "local_Create d q now st = Inr (f, st')" and laws: "library_laws d" and root: "ldr_root d = defaultRoot"
    and home: "lst_home st = Some t0" "home_ok t0" and stage: "stage_dumps d (crr_databases q) [] = Inr stage"
    and later: "map_of (lst_files st2) (aar_path f) = map_of (lst_files st') (aar_path f)"
      "lst_home st2 = Some t" "map_of t [] = None" "\<forall>(ps, n) \<in> set t0. fits (map_of t ps) n"
    and accepted: "local_Preview d (artifact_for q f) st2 = Inr m"
    and scope: "backupfmt_ValidateScope m files dbs meta = Inr ()"
    and who: "local_restoreIdentity d (crr_account q) (crr_user q) = Inr (idn, webgid)"
    and calls: "\<forall>c. ldr_io d c = None" "\<forall>s. ldr_input d s = None"
  shows "\<exists>t'. local_Restore d (restore_for q f files dbs meta) st2 =
      (Inr (if meta then crr_metadata q else []),
       st2\<lparr>lst_home := Some t', lst_sql := lst_sql st2 @ (if dbs then map snd (sort_key fst stage) else [])\<rparr>) \<and>
    (\<forall>p. map_of t' p = (if files then restored_over idn webgid t0 t p else map_of t p))"
proof -
  from created obtain stage' es where ids: "idPattern (crr_account q)" "systemUserPattern (crr_user q)"
      "crr_user q = ''wcp_'' @ take 12 (crr_account q)" "length (crr_metadata q) \<le> 4 * 2 ^ 20"
    and stage': "stage_dumps d (crr_databases q) [] = Inr stage'" and c: "content_of q (lst_home st) stage' es"
    and mf: "aar_manifest f = manifest_for d q now es"
    and st': "st' = st\<lparr>lst_files := AList.update (aar_path f)
      (ldr_pack d (es @ [bytes_entry ''manifest.json'' (ldr_enc d (aar_manifest f))])) (lst_files st)\<rparr>"
    by (rule create_Inr) (rule that)
  have [simp]: "stage' = stage"
    using stage stage' by simp
  from c stage' obtain ns where ns: "if crr_files q then \<exists>t. lst_home st = Some t \<and> ns = walk_order t else ns = []"
    and e: "\<forall>x \<in> set ns. archived (snd x) \<and> plain_key (fst x)"
      "es = map home_entry ns @ map stage_entry (sort_key fst stage') @
       (if crr_metadata q \<noteq> [] then [bytes_entry ''metadata.json'' (crr_metadata q)] else [])"
    by (rule content_facts) (use home that in auto)
  let ?tail = "(if crr_metadata q \<noteq> [] then [bytes_entry ''metadata.json'' (crr_metadata q)] else []) @
      [bytes_entry ''manifest.json'' (ldr_enc d (aar_manifest f))]"
  let ?r = "restore_for q f files dbs meta" and ?sql = "lst_sql st2 @ (if dbs then map snd (sort_key fst stage) else [])"
  have "local_Preview d (artifact_for q f) st2 = local_Preview d (artifact_for q f) st'"
    using later(1) by (simp add: local_Preview_def artifact_for_def)
  then have m: "m = manifest_for d q now es"
    using accepted preview_created [OF created laws root] home mf by (simp split: if_splits)
  have checks: "restore_checks d ?r st2 = Inr (m, idn, webgid, if files then t else [],
      map home_entry ns @ map stage_entry (sort_key fst stage) @ ?tail, None)"
    using accepted scope who later(1,2) ids laws
    by (simp add: restore_checks_def restore_for_def artifact_for_def local_validateAccount_def st' update_conv' library_laws_def e(2))
  have files: "files \<Longrightarrow> ns = walk_order t0"
    using scope ns home(1) by (auto simp: m manifest_for_def backupfmt_ValidateScope_def)
  have "\<exists>t'. restore_entries d ?r idn webgid (map home_entry ns @ map stage_entry (sort_key fst stage) @ ?tail)
      (if files then t else []) (lst_sql st2) [] =
      restore_entries d ?r idn webgid (map stage_entry (sort_key fst stage) @ ?tail) t' (lst_sql st2) [] \<and>
      (files \<longrightarrow> (\<forall>p. map_of t' p = restored_over idn webgid t0 t p))"
  proof (cases files)
    case True
    have r: "rrq_files ?r" and over: "\<forall>p. map_of t p = restored_over idn webgid [] t p"
      using True by (simp_all add: restore_for_def restored_over_def)
    have "\<forall>x \<in> set (walk_order t0). archived (snd x)" "\<forall>c. ldr_io d (RestoreEntry c) = None" "walk_order t0 = [] @ ns"
      using e(1) files [OF True] calls(1) by simp_all
    from restore_home [OF home(2) this(1) later(4,3) this(2) r this(3) over] show ?thesis
      using True by simp
  next
    case False
    then show ?thesis
      using skip_home [of ns ?r d idn webgid] e(1) by (auto simp: restore_for_def)
  qed
  then obtain t' where t': "restore_entries d ?r idn webgid (map home_entry ns @ map stage_entry (sort_key fst stage) @ ?tail)
      (if files then t else []) (lst_sql st2) [] =
      restore_entries d ?r idn webgid (map stage_entry (sort_key fst stage) @ ?tail) t' (lst_sql st2) []"
    "files \<Longrightarrow> \<forall>p. map_of t' p = restored_over idn webgid t0 t p"
    by blast
  have dumps: "\<forall>x \<in> set (sort_key fst stage). \<exists>n. fst x = n @ ''.sql'' \<and> databaseSystemNamePattern n"
  proof
    have names: "map fst stage = map (\<lambda>n. n @ ''.sql'') (crr_databases q)" "\<forall>n \<in> set (crr_databases q). databaseSystemNamePattern n"
      using stage_dumps_Inr [OF stage] unfolding list.map append_Nil by (blast intro: distinct.simps(1) [THEN iffD2])+
    fix x
    assume "x \<in> set (sort_key fst stage)"
    then have "fst x \<in> set (map fst stage)"
      by simp
    then show "\<exists>n. fst x = n @ ''.sql'' \<and> databaseSystemNamePattern n"
      unfolding names(1) using names(2) by auto
  qed
  have "restore_entries d ?r idn webgid (map home_entry ns @ map stage_entry (sort_key fst stage) @ ?tail)
      (if files then t else []) (lst_sql st2) [] = (None, t', ?sql, if meta then crr_metadata q else [])"
    unfolding t'(1) restore_dumps [OF dumps calls(2)] restore_tail [OF ids(4)] by (simp add: restore_for_def)
  moreover have "\<not> (meta \<and> man_metadata m \<and> crr_metadata q = [])"
    by (simp add: m manifest_for_def)
  ultimately have "local_Restore d ?r st2 = (Inr (if meta then crr_metadata q else []),
      st2\<lparr>lst_home := if files then Some t' else lst_home st2, lst_sql := ?sql\<rparr>)"
    unfolding local_Restore_def checks by (simp add: restore_for_def)
  then show ?thesis
    using t'(2) later(2) by (intro exI [of _ "if files then t' else t"]) auto
qed

section \<open>Restoring an archive of unknown origin\<close>

definition no_link_on :: "home \<Rightarrow> string list \<Rightarrow> bool" where
  "no_link_on h p \<longleftrightarrow> (\<forall>q r. p = q @ r \<longrightarrow> map_of h q \<noteq> Some HSymlink)"

definition private_file :: "int \<Rightarrow> hnode option \<Rightarrow> bool" where
  "private_file uid n \<longleftrightarrow> n \<noteq> Some HSymlink \<and> (\<forall>m u g data. n = Some (HFile m u g data) \<longrightarrow> u = uid \<and> m AND 0x1B0 = m)"

definition confined :: "int \<Rightarrow> home \<Rightarrow> home \<Rightarrow> bool" where
  "confined uid h h' \<longleftrightarrow> (\<forall>p. map_of h' p \<noteq> map_of h p \<longrightarrow> no_link_on h p \<and> private_file uid (map_of h' p))"

lemma confined_refl [simp]: "confined uid h h"
  by (simp add: confined_def)

lemma confined_link: "confined uid h h' \<Longrightarrow> map_of h' p = Some HSymlink \<longleftrightarrow> map_of h p = Some HSymlink"
proof (cases "map_of h' p = map_of h p")
  case False
  assume "confined uid h h'"
  then have "no_link_on h p" "private_file uid (map_of h' p)"
    using False unfolding confined_def by blast+
  then show ?thesis
    by (auto simp: no_link_on_def private_file_def)
qed simp

lemma confined_trans: "confined uid h h1 \<Longrightarrow> confined uid h1 h2 \<Longrightarrow> confined uid h h2"
proof -
  assume 1: "confined uid h h1" and 2: "confined uid h1 h2"
  have "no_link_on h1 p \<longleftrightarrow> no_link_on h p" for p
    unfolding no_link_on_def using confined_link [OF 1] by blast
  then show ?thesis
    using 1 2 unfolding confined_def by metis
qed

lemma safe_target_links:
  "safe_target h done ps = Inr () \<Longrightarrow> ps = q @ r \<Longrightarrow> q \<noteq> [] \<Longrightarrow> map_of h (done @ q) \<noteq> Some HSymlink"
proof (induction ps arbitrary: "done" q)
  case (Cons p ps)
  then obtain qs where q: "q = p # qs" "ps = qs @ r"
    by (cases q) auto
  have "map_of h (done @ [p]) \<noteq> Some HSymlink" "safe_target h (done @ [p]) ps = Inr ()"
    using Cons.prems(1) by (auto split: option.splits hnode.splits)
  then show ?case
    using Cons.IH [of "done @ [p]" qs] q by (cases "qs = []") auto
qed simp

lemma mkdir_all_changes:
  "mkdir_all m done ps h = Inr h' \<Longrightarrow> map_of h' p \<noteq> map_of h p \<Longrightarrow>
    map_of h' p = Some (HDir m 0 0) \<and> (\<exists>q r. p = done @ q \<and> ps = q @ r \<and> q \<noteq> [])"
proof (induction ps arbitrary: "done" h)
  case (Cons x ps)
  consider (new) "map_of h (done @ [x]) = None"
      "mkdir_all m (done @ [x]) ps (AList.update (done @ [x]) (HDir m 0 0) h) = Inr h'"
    | (old) "mkdir_all m (done @ [x]) ps h = Inr h'"
    using Cons.prems(1) by (auto split: option.splits hnode.splits)
  then show ?case
  proof cases
    case new
    show ?thesis
    proof (cases "map_of h' p = map_of (AList.update (done @ [x]) (HDir m 0 0) h) p")
      case True
      then have "p = done @ [x]" "map_of h' p = Some (HDir m 0 0)"
        using Cons.prems(2) by (auto simp: update_conv' split: if_splits)
      then show ?thesis by auto
    next
      case False
      then show ?thesis
        using Cons.IH [OF new(2) False] by auto
    qed
  next
    case old
    then show ?thesis
      using Cons.IH [OF old Cons.prems(2)] by auto
  qed
qed simp

lemma mkdir_confined:
  assumes "mkdir_all m [] ps h = Inr h'" "\<forall>q r. ps = q @ r \<longrightarrow> map_of h q \<noteq> Some HSymlink"
  shows "confined uid h h'"
proof -
  have "no_link_on h p \<and> private_file uid (map_of h' p)" if c: "map_of h' p \<noteq> map_of h p" for p
  proof -
    obtain r where r: "map_of h' p = Some (HDir m 0 0)" "ps = p @ r"
      using mkdir_all_changes [OF assms(1) c] by auto
    then show ?thesis
      using assms(2) by (auto simp: no_link_on_def private_file_def)
  qed
  then show ?thesis
    by (simp add: confined_def)
qed

lemma update_confined:
  assumes "confined uid h h1" "no_link_on h ps" "private_file uid (Some n)"
  shows "confined uid h (AList.update ps n h1)"
  using assms by (auto simp: confined_def update_conv')

lemma restore_file_confined:
  assumes "local_restoreFile d idn webgid e h = (err, h')" "map_of h [] \<noteq> Some HSymlink"
  shows "confined (idn_uid idn) h h'"
proof -
  let ?ps = "Split (TrimPrefix (tar_name e) ''files/'') (CHR ''/'')"
  show ?thesis
  proof (cases "safe_target h [] ?ps")
    case (Inl a)
    then show ?thesis
      using assms(1) by (auto simp: local_restoreFile_def Let_def split: if_splits)
  next
    case (Inr u)
    have safe: "map_of h q \<noteq> Some HSymlink" if "?ps = q @ r" for q r
      using safe_target_links [of h "[]" ?ps q r] Inr that assms(2) by (cases "q = []") auto
    then have link: "no_link_on h ?ps"
      by (auto simp: no_link_on_def)
    have mk: "confined (idn_uid idn) h h1" if "mkdir_all m [] ?ps h = Inr h1" for m h1
      using mkdir_confined [OF that] safe by blast
    have mk': "confined (idn_uid idn) h h1" if "mkdir_all m [] (butlast ?ps) h = Inr h1" for m h1
    proof (rule mkdir_confined [OF that], intro allI impI)
      fix q r
      assume "butlast ?ps = q @ r"
      then have "?ps = q @ r @ [last ?ps]"
        by (metis append_assoc append_butlast_last_id Split_neq_Nil)
      then show "map_of h q \<noteq> Some HSymlink"
        by (rule safe)
    qed
    have "private_file u (Some (HDir m u' g))" "private_file u (Some (HFile (m AND 0x1B0) u g data))" for m u u' g data
      by (auto simp: private_file_def and.assoc)
    then show ?thesis
      using assms(1) Inr mk mk' update_confined [OF _ link]
      by (auto simp: local_restoreFile_def Let_def split: if_splits tar_type.splits sum.splits option.splits)
  qed
qed

lemma restore_entries_confined:
  "restore_entries d r idn webgid es h sql meta = (err, h', sql', meta') \<Longrightarrow> map_of h [] \<noteq> Some HSymlink \<Longrightarrow>
    confined (idn_uid idn) h h' \<and> (\<not> rrq_files r \<longrightarrow> h' = h)"
proof (induction es arbitrary: h sql meta)
  case (Cons e es)
  show ?case
  proof (cases "rrq_files r \<and> HasPrefix (tar_name e) ''files/''")
    case True
    obtain err1 h1 where one: "local_restoreFile d idn webgid e h = (err1, h1)"
      by (cases "local_restoreFile d idn webgid e h")
    note c = restore_file_confined [OF one Cons.prems(2)]
    show ?thesis
    proof (cases err1)
      case None
      have "map_of h1 [] \<noteq> Some HSymlink"
        using confined_link [OF c] Cons.prems(2) by simp
      then show ?thesis
        using Cons.IH [of h1 sql meta] Cons.prems(1) True one None confined_trans [OF c] by simp
    qed (use Cons.prems(1) True one c in simp)
  next
    case False
    then consider sql1 meta1 where "restore_entries d r idn webgid es h sql1 meta1 = (err, h', sql', meta')" | "h' = h"
      using Cons.prems(1) by (auto split: if_splits sum.splits option.splits)
    then show ?thesis
      using Cons.IH Cons.prems(2) by cases auto
  qed
qed simp

text \<open>The places one entry may touch: the way to the place it names, none of whose parts leads upwards.\<close>

definition named_by :: "string \<Rightarrow> string list \<Rightarrow> bool" where
  "named_by relative p \<longleftrightarrow> p \<noteq> [] \<and> prefix p (Split relative (CHR ''/'')) \<and> ''..'' \<notin> set p \<and> [] \<notin> set p"

lemma restore_file_changes:
  assumes "local_restoreFile d idn webgid e h = (err, h')" "map_of h' p \<noteq> map_of h p"
  shows "named_by (TrimPrefix (tar_name e) ''files/'') p"
proof -
  let ?rel = "TrimPrefix (tar_name e) ''files/''"
  let ?ps = "Split ?rel (CHR ''/'')"
  have valid: "validEntryPath ?rel"
    using assms by (auto simp: local_restoreFile_def Let_def split: if_splits)
  have mk: "p \<noteq> [] \<and> prefix p qs" if "mkdir_all m [] qs h = Inr h1" "map_of h1 p \<noteq> map_of h p" for m qs h1
    using mkdir_all_changes [OF that] by (auto simp: prefix_def)
  have before: "prefix p (butlast ?ps) \<Longrightarrow> prefix p ?ps"
    using prefix_order.trans prefixeq_butlast by blast
  have ne: "?ps \<noteq> []" "[] \<noteq> ?ps"
    using Split_neq_Nil by metis+
  have "p \<noteq> [] \<and> prefix p ?ps"
    using ne assms mk [of _ ?ps] mk [of _ "butlast ?ps"] before
    by (auto simp: local_restoreFile_def Let_def update_conv' split: if_splits tar_type.splits sum.splits option.splits)
  moreover have "''..'' \<notin> set ?ps" "[] \<notin> set ?ps"
    using entry_parts [OF valid] by (auto simp: plain_part_def)
  ultimately show ?thesis
    using set_mono_prefix [of p ?ps] by (auto simp: named_by_def)
qed

lemma restore_entries_changes:
  "restore_entries d r idn webgid es h sql meta = (err, h', sql', meta') \<Longrightarrow> map_of h' p \<noteq> map_of h p \<Longrightarrow>
    \<exists>e \<in> set es. HasPrefix (tar_name e) ''files/'' \<and> named_by (TrimPrefix (tar_name e) ''files/'') p"
proof (induction es arbitrary: h sql meta)
  case (Cons e es)
  show ?case
  proof (cases "rrq_files r \<and> HasPrefix (tar_name e) ''files/''")
    case True
    obtain err1 h1 where one: "local_restoreFile d idn webgid e h = (err1, h1)"
      by (cases "local_restoreFile d idn webgid e h")
    show ?thesis
    proof (cases "map_of h1 p = map_of h p")
      case same: True
      then have "err1 = None"
        using Cons.prems True one by (cases err1) auto
      then have "restore_entries d r idn webgid es h1 sql meta = (err, h', sql', meta')"
        using Cons.prems(1) True one by simp
      then show ?thesis
        using Cons.IH [of h1 sql meta] Cons.prems(2) same by auto
    next
      case False
      then show ?thesis
        using restore_file_changes [OF one] True by auto
    qed
  next
    case False
    then consider sql1 meta1 where "restore_entries d r idn webgid es h sql1 meta1 = (err, h', sql', meta')" | "h' = h"
      using Cons.prems(1) by (auto split: if_splits sum.splits option.splits)
    then show ?thesis
      using Cons.IH Cons.prems(2) by cases auto
  qed
qed simp

text \<open>
  What the preview approves: the archive of the request, whole and with the checksum asked for, made
  for the account, with distinct and valid names only, every file of which its manifest lists.
\<close>

definition approved :: "local_driver \<Rightarrow> artifact_request \<Rightarrow> local_state \<Rightarrow> manifest \<Rightarrow> tar_entry list \<Rightarrow> bool" where
  "approved d q st m es \<longleftrightarrow> local_validateArtifact d q = Inr () \<and>
     (\<exists>data. map_of (lst_files st) (arq_path q) = Some data \<and> sha256_hex d data = arq_checksum q \<and> ldr_read d data = Inr (es, None, None)) \<and>
     man_account m = arq_account q \<and> man_version m = backupfmt_Version \<and>
     distinct (map tar_name es) \<and> (\<forall>e \<in> set es. validEntryPath (tar_name e) \<and> tar_type e \<noteq> TypeOther \<and>
       (regular e \<and> tar_name e \<noteq> ''manifest.json'' \<longrightarrow>
         (\<exists>v \<in> set (man_entries m). ent_path v = tar_name e \<and> ent_size v = int (length (tar_data e)) \<and>
           ent_checksum v = sha256_hex d (tar_data e))))"

lemma check_lists:
  assumes "check_entries vs c" "distinct (map fst c)" "length vs = length c" "(k, a) \<in> set c"
  shows "\<exists>v \<in> set vs. ent_path v = k \<and> ent_size v = ent_size a \<and> ent_checksum v = ent_checksum a"
  using assms
proof (induction vs arbitrary: c)
  case (Cons v vs)
  obtain b where b: "map_of c (ent_path v) = Some b" "ent_size b = ent_size v" "ent_checksum b = ent_checksum v"
    "check_entries vs (AList.delete (ent_path v) c)"
    using Cons.prems(1) by (auto split: option.splits)
  show ?case
  proof (cases "k = ent_path v")
    case True
    then have "map_of c (ent_path v) = Some a"
      using Cons.prems(4) unfolding map_of_eq_Some_iff [OF Cons.prems(2), symmetric] by simp
    then show ?thesis
      using True b by auto
  next
    case False
    let ?c = "AList.delete (ent_path v) c"
    have d: "distinct (map fst ?c)"
      using Cons.prems(2) by (rule distinct_delete)
    have "ent_path v \<in> fst ` set c"
      using b(1) by (force dest: map_of_SomeD)
    then have "card (fst ` set ?c) = card (fst ` set c) - 1"
      by (simp add: delete_dom)
    moreover have "card (fst ` set ?c) = length ?c" "card (fst ` set c) = length c"
      using distinct_card [OF d] distinct_card [OF Cons.prems(2)] by simp_all
    ultimately have "length vs = length ?c"
      using Cons.prems(3) by simp
    moreover have "map_of ?c k = map_of c k"
      using False by (simp add: delete_conv')
    then have "map_of ?c k = Some a"
      using Cons.prems(4) unfolding map_of_eq_Some_iff [OF Cons.prems(2), symmetric] by (rule trans)
    then have "(k, a) \<in> set ?c"
      by (rule map_of_SomeD)
    ultimately show ?thesis
      using Cons.IH [OF b(4) d] by auto
  qed
qed simp

lemma inspect_one:
  assumes "inspect_entry d e i = Inr k"
  shows "validEntryPath (tar_name e) \<and> tar_type e \<noteq> TypeOther \<and> tar_name e \<notin> set (ins_seen i) \<and>
    ins_seen k = tar_name e # ins_seen i \<and>
    ins_computed k = (if regular e \<and> tar_name e \<noteq> ''manifest.json'' then [computed_entry d e] else []) @ ins_computed i"
  using assms
  by (auto simp: inspect_entry_def Let_def note_entry_def regular_def computed_entry_def split: if_splits option.splits)

lemma inspect_all:
  assumes "inspect_entries d es i = Inr k" "fst ` set (ins_computed i) \<subseteq> set (ins_seen i)" "distinct (map fst (ins_computed i))"
  shows "distinct (map tar_name es) \<and> (\<forall>e \<in> set es. validEntryPath (tar_name e) \<and> tar_type e \<noteq> TypeOther \<and>
      tar_name e \<notin> set (ins_seen i) \<and> (regular e \<and> tar_name e \<noteq> ''manifest.json'' \<longrightarrow> computed_entry d e \<in> set (ins_computed k))) \<and>
    set (ins_computed i) \<subseteq> set (ins_computed k) \<and> distinct (map fst (ins_computed k))"
  using assms
proof (induction es arbitrary: i)
  case (Cons e es)
  obtain j where j: "inspect_entry d e i = Inr j" "inspect_entries d es j = Inr k"
    using Cons.prems(1) by auto
  note one = inspect_one [OF j(1)]
  have "fst ` set (ins_computed j) \<subseteq> set (ins_seen j)" "distinct (map fst (ins_computed j))"
    using one Cons.prems(2,3) by (auto simp: computed_entry_def)
  from Cons.IH [OF j(2) this] show ?case
    using one by auto
qed simp

lemma preview_approves:
  assumes "local_Preview d q st = Inr m"
  shows "\<exists>es. approved d q st m es"
proof -
  obtain data where v: "local_validateArtifact d q = Inr ()" "map_of (lst_files st) (arq_path q) = Some data"
    "sha256_hex d data = arq_checksum q" "local_inspectArchive d data (arq_account q) = Inr m"
    using assms by (auto simp: local_Preview_def)
  obtain es stop trailer where r: "ldr_read d data = Inr (es, stop, trailer)"
    using v(4) by (auto simp: local_inspectArchive_def)
  then obtain i where i: "inspect_entries d es nothing_seen = Inr i" "stop = None" "trailer = None" "archive_verdict i (arq_account q) = Inr m"
    using v(4) by (auto simp: local_inspectArchive_def split: option.splits)
  have m: "man_account m = arq_account q" "man_version m = backupfmt_Version" "length (man_entries m) = length (ins_computed i)"
    "check_entries (man_entries m) (ins_computed i)"
    using i(4) by (auto simp: archive_verdict_def split: option.splits)
  have a: "distinct (map tar_name es)" "distinct (map fst (ins_computed i))"
    "\<And>e. e \<in> set es \<Longrightarrow> validEntryPath (tar_name e) \<and> tar_type e \<noteq> TypeOther"
    "\<And>e. e \<in> set es \<Longrightarrow> regular e \<Longrightarrow> tar_name e \<noteq> ''manifest.json'' \<Longrightarrow> computed_entry d e \<in> set (ins_computed i)"
    using inspect_all [OF i(1)] by (simp_all add: nothing_seen_def)
  have "\<exists>w \<in> set (man_entries m). ent_path w = tar_name e \<and> ent_size w = int (length (tar_data e)) \<and> ent_checksum w = sha256_hex d (tar_data e)"
    if "e \<in> set es" "regular e" "tar_name e \<noteq> ''manifest.json''" for e
    using check_lists [OF m(4) a(2) m(3) a(4) [OF that, unfolded computed_entry_def]] by simp
  then have "approved d q st m es"
    using v(1-3) r i(2,3) m(1,2) a(1,3) unfolding approved_def by simp
  then show ?thesis ..
qed

lemma approved_plain:
  assumes "approved d q st m es" "e \<in> set es" "HasPrefix (tar_name e) ''files/''" "named_by (TrimPrefix (tar_name e) ''files/'') p"
  shows "\<forall>x \<in> set p. plain_part x"
proof -
  obtain rel where name: "tar_name e = ''files/'' @ rel"
    using assms(3) by (auto simp: HasPrefix_iff)
  then have rel: "TrimPrefix (tar_name e) ''files/'' = rel"
    using assms(3) by (simp add: TrimPrefix_def)
  have "Split (tar_name e) (CHR ''/'') = ''files'' # Split rel (CHR ''/'')"
    using Split_append [of "CHR ''/''" "''files''" rel] by (simp add: name)
  moreover have "validEntryPath (tar_name e)" "tar_name e \<noteq> ''.''"
    using assms(1,2) name by (auto simp: approved_def)
  ultimately have "\<forall>x \<in> set (Split rel (CHR ''/'')). plain_part x"
    using entry_parts by fastforce
  then show ?thesis
    using assms(4) set_mono_prefix unfolding named_by_def rel by blast
qed

text \<open>C10: a restore stays inside the home directory.  Whatever bytes an archive file holds, a restore
  changes nothing unless the archive passed the preview, which means: it is whole, has the checksum
  asked for and was made for the account, its names are distinct and valid, and its manifest lists
  every file with its size and checksum.  Every place of the home directory it changes is on the way
  to a place some entry of \<open>files/\<close> names, and is a path of plain names (none is \<open>..\<close>).  It never
  writes at or below a symbolic link and never makes one, and every file it writes belongs to the
  account and carries no permission for others and no set-uid bit; archives and, without the files
  scope, the home directory stay as they are.  The second line of defence holds by itself: the
  restoring of one entry, whatever its name and whether or not a preview ran, refuses a name that is
  not valid without any change, and changes nothing but places on the way to the place it names.\<close>

theorem restore_stays_in_home:
  assumes "local_Restore d r st = (res, st')" "lst_home st = Some h" "map_of h [] = None"
  shows "(\<exists>h'. lst_home st' = Some h' \<and> lst_files st' = lst_files st \<and> (\<not> rrq_files r \<longrightarrow> h' = h) \<and>
      (st' \<noteq> st \<longrightarrow> (\<exists>m es. approved d \<lparr>arq_account = arq_account r, arq_path = arq_path r, arq_checksum = arq_checksum r\<rparr> st m es \<and>
        (\<forall>p. map_of h' p \<noteq> map_of h p \<longrightarrow> (\<forall>x \<in> set p. plain_part x) \<and>
          (\<exists>e \<in> set es. HasPrefix (tar_name e) ''files/'' \<and> named_by (TrimPrefix (tar_name e) ''files/'') p)))) \<and>
      (\<forall>p. map_of h' p \<noteq> map_of h p \<longrightarrow> no_link_on h p \<and>
        (\<exists>idn g. local_restoreIdentity d (arq_account r) (rrq_user r) = Inr (idn, g) \<and> private_file (idn_uid idn) (map_of h' p)))) \<and>
    (\<forall>idn g e h0 err h1. local_restoreFile d idn g e h0 = (err, h1) \<longrightarrow>
      (\<not> validEntryPath (TrimPrefix (tar_name e) ''files/'') \<longrightarrow> err \<noteq> None \<and> h1 = h0) \<and>
      (\<forall>p. map_of h1 p \<noteq> map_of h0 p \<longrightarrow> named_by (TrimPrefix (tar_name e) ''files/'') p))"
proof (intro conjI)
  show "\<forall>idn g e h0 err h1. local_restoreFile d idn g e h0 = (err, h1) \<longrightarrow>
      (\<not> validEntryPath (TrimPrefix (tar_name e) ''files/'') \<longrightarrow> err \<noteq> None \<and> h1 = h0) \<and>
      (\<forall>p. map_of h1 p \<noteq> map_of h0 p \<longrightarrow> named_by (TrimPrefix (tar_name e) ''files/'') p)"
    using restore_file_changes by (auto simp: local_restoreFile_def Let_def)
next
  let ?q = "\<lparr>arq_account = arq_account r, arq_path = arq_path r, arq_checksum = arq_checksum r\<rparr>"
  show "\<exists>h'. lst_home st' = Some h' \<and> lst_files st' = lst_files st \<and> (\<not> rrq_files r \<longrightarrow> h' = h) \<and>
      (st' \<noteq> st \<longrightarrow> (\<exists>m es. approved d ?q st m es \<and>
        (\<forall>p. map_of h' p \<noteq> map_of h p \<longrightarrow> (\<forall>x \<in> set p. plain_part x) \<and>
          (\<exists>e \<in> set es. HasPrefix (tar_name e) ''files/'' \<and> named_by (TrimPrefix (tar_name e) ''files/'') p)))) \<and>
      (\<forall>p. map_of h' p \<noteq> map_of h p \<longrightarrow> no_link_on h p \<and>
        (\<exists>idn g. local_restoreIdentity d (arq_account r) (rrq_user r) = Inr (idn, g) \<and> private_file (idn_uid idn) (map_of h' p)))"
  proof (cases "restore_checks d r st")
    case (Inl e)
    then show ?thesis
      using assms(1,2) by (simp add: local_Restore_def)
  next
    case (Inr c)
    obtain m idn g h0 es stop where c: "c = (m, idn, g, h0, es, stop)"
      by (cases c) auto
    obtain data trailer where k: "local_Preview d ?q st = Inr m" "map_of (lst_files st) (arq_path r) = Some data"
      "ldr_read d data = Inr (es, stop, trailer)"
      "local_restoreIdentity d (arq_account r) (rrq_user r) = Inr (idn, g)" "h0 = (if rrq_files r then h else [])"
      using Inr assms(2) by (auto simp: c restore_checks_def split: if_splits)
    obtain fs where "approved d ?q st m fs"
      using preview_approves [OF k(1)] by blast
    then have ok: "approved d ?q st m es"
      using k(2,3) by (auto simp: approved_def)
    obtain err h1 sql meta where run: "restore_entries d r idn g es h0 (lst_sql st) [] = (err, h1, sql, meta)"
      by (metis prod_cases4)
    note c1 = restore_entries_confined [OF run] and ch = restore_entries_changes [OF run]
    define h' where "h' = (if rrq_files r then h1 else h)"
    have h': "map_of h' p \<noteq> map_of h p \<Longrightarrow> map_of h1 p \<noteq> map_of h0 p" "map_of h1 p \<noteq> map_of h0 p \<Longrightarrow> h' = h1 \<and> h0 = h" for p
      using c1 assms(3) k(5) by (auto simp: h'_def split: if_splits)
    have "confined (idn_uid idn) h0 h1"
      using c1 assms(3) k(5) by simp
    then have own: "no_link_on h p \<and> private_file (idn_uid idn) (map_of h' p)" if "map_of h' p \<noteq> map_of h p" for p
      using h'(1) [OF that] h'(2) [OF h'(1) [OF that]] unfolding confined_def by metis
    have st': "st' = st\<lparr>lst_home := if rrq_files r then Some h1 else lst_home st, lst_sql := sql\<rparr>"
      using assms(1) Inr run by (simp add: local_Restore_def c)
    have "(\<forall>x \<in> set p. plain_part x) \<and>
        (\<exists>e \<in> set es. HasPrefix (tar_name e) ''files/'' \<and> named_by (TrimPrefix (tar_name e) ''files/'') p)"
      if "map_of h' p \<noteq> map_of h p" for p
      using ch [OF h'(1) [OF that]] approved_plain [OF ok] by blast
    then have "\<exists>m es. approved d ?q st m es \<and>
        (\<forall>p. map_of h' p \<noteq> map_of h p \<longrightarrow> (\<forall>x \<in> set p. plain_part x) \<and>
          (\<exists>e \<in> set es. HasPrefix (tar_name e) ''files/'' \<and> named_by (TrimPrefix (tar_name e) ''files/'') p))"
      using ok by blast
    moreover have "lst_home st' = Some h'" "lst_files st' = lst_files st" "\<not> rrq_files r \<longrightarrow> h' = h"
      using assms(2) by (simp_all add: st' h'_def)
    moreover have "\<exists>idn g. local_restoreIdentity d (arq_account r) (rrq_user r) = Inr (idn, g) \<and> private_file (idn_uid idn) (map_of h' p)"
      if "map_of h' p \<noteq> map_of h p" for p
      using k(4) own [OF that] by blast
    ultimately show ?thesis
      using own by blast
  qed
qed

section \<open>Examples\<close>

text \<open>An encoding of lists of strings that stands for gzip, tar and JSON: \<open>+\<close> before every
  character and a dot after every string.\<close>

definition put_string :: "string \<Rightarrow> string" where
  "put_string s = concat (map (\<lambda>c. [CHR ''+'', c]) s) @ ''.''"

fun get_strings :: "string \<Rightarrow> string \<Rightarrow> string list" where
  "get_strings acc [] = []"
| "get_strings acc [a] = [acc]"
| "get_strings acc (a # c # r) =
     (if a = CHR ''+'' then get_strings (acc @ [c]) r else acc # get_strings [] (c # r))"

lemma get_put: "get_strings acc (put_string s @ t) = (acc @ s) # get_strings [] t"
proof (induction s arbitrary: acc)
  case Nil
  then show ?case
    by (cases t) (simp_all add: put_string_def)
next
  case (Cons c s)
  have "put_string (c # s) @ t = CHR ''+'' # c # (put_string s @ t)"
    by (simp add: put_string_def)
  then show ?case
    using Cons by simp
qed

lemma get_put_all: "get_strings [] (concat (map put_string ss)) = ss"
  by (induction ss) (simp_all add: get_put)

definition put_int :: "int \<Rightarrow> string" where
  "put_int i = (if i < 0 then CHR ''-'' # replicate (nat (- i)) (CHR ''1'') else replicate (nat i) (CHR ''1''))"

definition get_int :: "string \<Rightarrow> int" where
  "get_int s = (if take 1 s = ''-'' then - int (length (tl s)) else int (length s))"

lemma get_put_int [simp]: "get_int (put_int i) = i"
proof (cases "i < 0")
  case False
  then show ?thesis
    by (cases "nat i") (auto simp: get_int_def put_int_def)
qed (simp add: get_int_def put_int_def)

definition put_bool :: "bool \<Rightarrow> string" where
  "put_bool b = (if b then ''t'' else [])"

definition put_entry :: "tar_entry \<Rightarrow> string list" where
  "put_entry e = [tar_name e, case tar_type e of TypeReg \<Rightarrow> ''r'' | TypeDir \<Rightarrow> ''d'' | TypeOther \<Rightarrow> [],
     replicate (tar_mode e) (CHR ''1''), tar_data e]"

fun get_entries :: "string list \<Rightarrow> tar_entry list" where
  "get_entries (n # t # m # x # r) = \<lparr>tar_name = n,
     tar_type = if t = ''r'' then TypeReg else if t = ''d'' then TypeDir else TypeOther,
     tar_mode = length m, tar_data = x\<rparr> # get_entries r"
| "get_entries r = []"

lemma get_put_entries: "get_entries (concat (map put_entry es)) = es"
  by (induction es) (auto simp: put_entry_def split: tar_type.splits)

definition put_line :: "manifest_entry \<Rightarrow> string list" where
  "put_line e = [ent_path e, put_int (ent_size e), ent_checksum e]"

fun get_lines :: "string list \<Rightarrow> manifest_entry list" where
  "get_lines (p # z # c # r) = \<lparr>ent_path = p, ent_size = get_int z, ent_checksum = c\<rparr> # get_lines r"
| "get_lines r = []"

lemma get_put_lines: "get_lines (concat (map put_line es)) = es"
  by (induction es) (auto simp: put_line_def)

definition put_manifest :: "manifest \<Rightarrow> string list" where
  "put_manifest m = [put_int (man_version m), man_run m, man_account m, put_int (man_created m), put_bool (man_files m),
     put_bool (man_databases m), put_bool (man_metadata m)] @ concat (map put_line (man_entries m))"

fun get_manifest :: "string list \<Rightarrow> manifest option" where
  "get_manifest (v # r # a # c # f # b # m # ls) = Some \<lparr>man_version = get_int v, man_run = r, man_account = a,
     man_created = get_int c, man_files = (f \<noteq> []), man_databases = (b \<noteq> []), man_metadata = (m \<noteq> []),
     man_entries = get_lines ls\<rparr>"
| "get_manifest r = None"

lemma get_put_manifest: "get_manifest (put_manifest m) = Some m"
  by (simp add: put_manifest_def put_bool_def get_put_lines)

definition sample_local :: local_driver where
  "sample_local = \<lparr>ldr_ext = plain_ext\<lparr>ext_sha256 := \<lambda>_. replicate 64 CHR ''0''\<rparr>, ldr_root = defaultRoot,
     ldr_home = defaultHome, ldr_dump = \<lambda>_. Inr ''-- dump'', ldr_input = \<lambda>_. None,
     ldr_lookup = \<lambda>_. Inr \<lparr>hu_uid = ''1001'', hu_gid = ''1001'', hu_name = ''WEBYCP-'' @ replicate 32 CHR ''a'',
       hu_home = ''/home/wcp_aaaaaaaaaaaa''\<rparr>, ldr_group = Inr ''33'',
     ldr_pack = \<lambda>es. concat (map put_string (concat (map put_entry es))),
     ldr_read = \<lambda>s. Inr (get_entries (get_strings [] s), None, None),
     ldr_enc = \<lambda>m. concat (map put_string (put_manifest (utf8_manifest m))),
     ldr_dec = \<lambda>s. get_manifest (get_strings [] s), ldr_io = \<lambda>_. None\<rparr>"

lemma sample_laws: "library_laws sample_local"
  by (simp add: library_laws_def sample_local_def get_put_all get_put_entries get_put_manifest sha256_hex_def
      checksumPattern_def list_all_iff is_hex_lower_def is_digit_def bytes_between_def byte_def)

definition sample_create :: create_request where
  "sample_create = \<lparr>crr_run = replicate 32 CHR ''b'', crr_account = replicate 32 CHR ''a'', crr_user = ''wcp_aaaaaaaaaaaa'',
     crr_metadata = ''{}'', crr_files = True, crr_databases = [''wcp_aaaaaaaa_shop'']\<rparr>"

definition sample_tree :: home where
  "sample_tree = [([''web'', ''index''], HFile 0x1A4 1001 33 ''hi''), ([''web''], HDir 0x1ED 1001 33)]"

definition sample_disk :: local_state where
  "sample_disk = \<lparr>lst_files = [], lst_home = Some sample_tree, lst_sql = []\<rparr>"

lemma sample_tree_ok: "home_ok sample_tree"
  by (simp add: home_ok_def sample_tree_def plain_part_def is_dir_def)


definition sample_dumps :: "(string \<times> string) list" where
  "sample_dumps = [(''wcp_aaaaaaaa_shop.sql'', ''-- dump'')]"

lemma sample_staged: "stage_dumps sample_local (crr_databases sample_create) [] = Inr sample_dumps"
proof -
  have "validate_DatabaseSystemName ''wcp_aaaaaaaa_shop'' = Inr ()"
    by code_simp
  then show ?thesis
    by (simp add: sample_create_def sample_local_def sample_dumps_def)
qed

lemma sample_walk: "walk_order sample_tree = rev sample_tree"
  by (simp add: walk_order_def sample_tree_def)

lemma sample_utf8: "utf8_valid ''web''" "utf8_valid ''files/web/index''" "utf8_valid ''databases/wcp_aaaaaaaa_shop.sql''"
  "utf8_valid ''metadata.json''"
  by (simp_all add: ascii_utf8 is_ascii_def byte_def)

definition sample_content :: "tar_entry list" where
  "sample_content = [\<lparr>tar_name = ''files/web'', tar_type = TypeDir, tar_mode = 0x1ED, tar_data = []\<rparr>,
     \<lparr>tar_name = ''files/web/index'', tar_type = TypeReg, tar_mode = 0x1A4, tar_data = ''hi''\<rparr>,
     \<lparr>tar_name = ''databases/wcp_aaaaaaaa_shop.sql'', tar_type = TypeReg, tar_mode = 0x180, tar_data = ''-- dump''\<rparr>,
     bytes_entry ''metadata.json'' ''{}'']"

lemma archived_names: "path_Join [''files'', ''web''] = ''files/web''" "path_Join [''files'', ''web/index''] = ''files/web/index''"
  "path_Join [''databases'', ''wcp_aaaaaaaa_shop.sql''] = ''databases/wcp_aaaaaaaa_shop.sql''"
  by code_simp+

lemma sample_created:
  "\<exists>f st'. local_Create sample_local sample_create 7 sample_disk = Inr (f, st') \<and>
    aar_manifest f = manifest_for sample_local sample_create 7 sample_content"
proof -
  have walk: "home_entries (walk_order sample_tree) = Inr (take 2 sample_content)"
    using sample_utf8(1) archived_names unfolding sample_walk by (simp add: sample_tree_def sample_content_def)
  have "local_writeArchive sample_local sample_create sample_dumps m (Some sample_tree) =
      Inr (m\<lparr>man_entries := manifest_of sample_local sample_content\<rparr>, sample_content @ [bytes_entry ''manifest.json''
        (ldr_enc sample_local (m\<lparr>man_entries := manifest_of sample_local sample_content\<rparr>))])" for m
    using archived_names walk
    by (simp add: local_writeArchive_def Let_def sample_content_def sample_dumps_def stage_entry_def sample_create_def)
      (simp add: sample_local_def)
  moreover have "local_validateAccount (crr_account sample_create) (crr_user sample_create) = Inr ()"
    by code_simp
  moreover have "idPattern (crr_run sample_create)"
    by code_simp
  moreover have "length (crr_metadata sample_create) \<le> 4 * 2 ^ 20"
    by (simp add: sample_create_def)
  moreover have "fault sample_local c msg = Inr ()" for c msg
    by (simp add: fault_def sample_local_def)
  moreover have "lst_files sample_disk = []" "lst_home sample_disk = Some sample_tree"
    by (simp_all add: sample_disk_def)
  ultimately show ?thesis
    using sample_staged by (simp add: local_Create_def Let_def manifest_for_def)
qed

lemma length_put [simp]: "length (put_string s) = 2 * length s + 1"
  by (induction s) (simp_all add: put_string_def)

lemma sample_manifest_small:
  "length (ldr_enc sample_local (manifest_for sample_local sample_create 7 sample_content)) \<le> 2 ^ 20"
  "\<forall>e \<in> set (manifest_of sample_local sample_content). utf8_valid (ent_path e)"
proof -
  have sha: "sha256_hex sample_local s = replicate 64 CHR ''0''" for s
    by (simp add: sha256_hex_def sample_local_def)
  show valid: "\<forall>e \<in> set (manifest_of sample_local sample_content). utf8_valid (ent_path e)"
    using sample_utf8 by (simp add: manifest_of_def sample_content_def)
  have "utf8_manifest (manifest_for sample_local sample_create 7 sample_content) = manifest_for sample_local sample_create 7 sample_content"
    using sample_utf8 by (simp add: utf8_manifest_def manifest_for_def manifest_of_def sample_content_def sha sample_create_def
        to_utf8_valid ascii_utf8 is_ascii_def byte_def list_all_iff)
  then have "ldr_enc sample_local (manifest_for sample_local sample_create 7 sample_content) =
      concat (map put_string (put_manifest (manifest_for sample_local sample_create 7 sample_content)))"
    by (simp add: sample_local_def)
  then show "length (ldr_enc sample_local (manifest_for sample_local sample_create 7 sample_content)) \<le> 2 ^ 20"
    by (simp add: put_manifest_def manifest_for_def manifest_of_def sample_content_def sha sample_create_def put_line_def
        put_int_def put_bool_def backupfmt_Version_def)
qed


lemma sample_found: "lst_home sample_disk = Some sample_tree" "ldr_root sample_local = defaultRoot"
  "\<forall>t. lst_home sample_disk = Some t \<longrightarrow> home_ok t"
  using sample_tree_ok by (simp_all add: sample_disk_def sample_local_def)

lemma sample_made:
  obtains f st' where "local_Create sample_local sample_create 7 sample_disk = Inr (f, st')"
    "aar_manifest f = manifest_for sample_local sample_create 7 sample_content"
    "2 ^ 20 \<ge> length (ldr_enc sample_local (aar_manifest f))"
    "\<forall>e \<in> set (man_entries (aar_manifest f)). utf8_valid (ent_path e)"
    "local_Preview sample_local (artifact_for sample_create f) st' = Inr (aar_manifest f)"
proof -
  obtain f st' where f: "local_Create sample_local sample_create 7 sample_disk = Inr (f, st')"
    "aar_manifest f = manifest_for sample_local sample_create 7 sample_content"
    using sample_created by blast
  moreover have small: "2 ^ 20 \<ge> length (ldr_enc sample_local (aar_manifest f))"
    "\<forall>e \<in> set (man_entries (aar_manifest f)). utf8_valid (ent_path e)"
    using sample_manifest_small unfolding f(2) by (simp_all add: manifest_for_def)
  moreover have "local_Preview sample_local (artifact_for sample_create f) st' = Inr (aar_manifest f)"
    using preview_created [OF f(1) sample_laws sample_found(2,3)] small by simp
  ultimately show thesis
    using that by blast
qed

theorem created_backup_accepted_witness:
  "\<exists>f st'. local_Create sample_local sample_create 7 sample_disk = Inr (f, st') \<and>
     local_Preview sample_local (artifact_for sample_create f) st' = Inr (aar_manifest f)"
proof -
  obtain f st' where f: "local_Create sample_local sample_create 7 sample_disk = Inr (f, st')"
    "2 ^ 20 \<ge> length (ldr_enc sample_local (aar_manifest f))"
    "\<forall>e \<in> set (man_entries (aar_manifest f)). utf8_valid (ent_path e)"
    using sample_made by metis
  from created_backup_accepted [OF f(1) sample_laws sample_found(2,3)] f show ?thesis
    by simp
qed

definition sample_owner_id :: identity where
  "sample_owner_id = \<lparr>idn_home = ''/home/wcp_aaaaaaaaaaaa'', idn_user = ''wcp_aaaaaaaaaaaa'', idn_uid = 1001, idn_gid = 1001\<rparr>"

lemma sample_restore_id: "local_restoreIdentity sample_local (crr_account sample_create) (crr_user sample_create) = Inr (sample_owner_id, 33)"
proof -
  have "replicate 32 CHR ''a'' = ''aaaaaaaaaaaaaaaaaaaaaaaaaaaaaaaa''"
    by (simp add: numeral_eq_Suc)
  moreover have "hostuser_Validate \<lparr>hu_uid = ''1001'', hu_gid = ''1001'', hu_name = ''WEBYCP-aaaaaaaaaaaaaaaaaaaaaaaaaaaaaaaa'',
      hu_home = ''/home/wcp_aaaaaaaaaaaa''\<rparr> defaultHome ''aaaaaaaaaaaaaaaaaaaaaaaaaaaaaaaa'' ''wcp_aaaaaaaaaaaa'' = Inr sample_owner_id"
    by code_simp
  moreover have "Atoi ''33'' = Some 33"
    by code_simp
  ultimately show ?thesis
    by (simp add: local_restoreIdentity_def sample_local_def sample_create_def)
qed

theorem backup_restores_witness:
  "\<exists>f st' t' s'. local_Create sample_local sample_create 7 sample_disk = Inr (f, st') \<and>
     local_Restore sample_local (restore_for sample_create f True True True) (st'\<lparr>lst_home := Some []\<rparr>) = (Inr ''{}'', s') \<and>
     lst_home s' = Some t' \<and> map_of t' [''web'', ''index''] = Some (HFile 0x1A0 1001 33 ''hi'')"
proof -
  obtain f st' where f: "local_Create sample_local sample_create 7 sample_disk = Inr (f, st')"
    "aar_manifest f = manifest_for sample_local sample_create 7 sample_content"
    and preview: "local_Preview sample_local (artifact_for sample_create f) st' = Inr (aar_manifest f)"
    using sample_made by metis
  let ?s = "st'\<lparr>lst_home := Some []\<rparr>"
  have p: "local_Preview sample_local (artifact_for sample_create f) ?s = Inr (aar_manifest f)"
    using preview by (simp add: local_Preview_def)
  have b: "backupfmt_ValidateScope (aar_manifest f) True True True = Inr ()"
    "\<forall>(ps, n) \<in> set sample_tree. fits (map_of [] ps) n"
    "\<forall>c. ldr_io sample_local c = None" "\<forall>s. ldr_input sample_local s = None"
    by (simp_all add: f(2) manifest_for_def sample_create_def backupfmt_ValidateScope_def fits_def sample_local_def)
  from backup_restores [OF f(1) sample_laws sample_found(2,1) sample_tree_ok sample_staged, of ?s "[]" "aar_manifest f" True True True
      sample_owner_id 33] p b sample_restore_id
  obtain t' where "local_Restore sample_local (restore_for sample_create f True True True) ?s = (Inr (crr_metadata sample_create),
      ?s\<lparr>lst_home := Some t', lst_sql := lst_sql ?s @ map snd (sort_key fst sample_dumps)\<rparr>)"
    "\<forall>p. map_of t' p = restored_over sample_owner_id 33 sample_tree [] p"
    by auto
  moreover have "restored_over sample_owner_id 33 sample_tree [] [''web'', ''index''] = Some (HFile 0x1A0 1001 33 ''hi'')"
    by (simp add: restored_over_def sample_tree_def restored_node_def entry_gid_def HasPrefix_def sample_owner_id_def)
  ultimately show ?thesis
    using f(1) by (intro exI [of _ f] exI [of _ st'] exI [of _ t']
        exI [of _ "?s\<lparr>lst_home := Some t', lst_sql := lst_sql ?s @ map snd (sort_key fst sample_dumps)\<rparr>"])
      (simp add: sample_create_def)
qed

text \<open>The same archive restored into a home directory where \<open>web\<close> became a symbolic link: the
  archive is accepted, and nothing is written behind the link.\<close>

theorem restore_stays_in_home_witness:
  "\<exists>f st' h'. local_Preview sample_local (artifact_for sample_create f) st' = Inr (aar_manifest f) \<and>
     lst_home (snd (local_Restore sample_local (restore_for sample_create f True True True)
       (st'\<lparr>lst_home := Some [([''web''], HSymlink)]\<rparr>))) = Some h' \<and>
     map_of h' [''web''] = Some HSymlink \<and> map_of h' [''web'', ''index''] = None"
proof -
  obtain f st' where f: "local_Preview sample_local (artifact_for sample_create f) st' = Inr (aar_manifest f)"
    using sample_made by metis
  let ?r = "restore_for sample_create f True True True" and ?h = "[([''web''], HSymlink)]"
  obtain res s' where run: "local_Restore sample_local ?r (st'\<lparr>lst_home := Some ?h\<rparr>) = (res, s')"
    by (cases "local_Restore sample_local ?r (st'\<lparr>lst_home := Some ?h\<rparr>)")
  have "\<not> no_link_on ?h ([''web''] @ ps)" for ps
    by (auto simp: no_link_on_def)
  note link = this [of "[]", unfolded append_Nil2] this [of "[''index'']", unfolded append.simps]
  from restore_stays_in_home [OF run, of ?h]
  obtain h' where h': "lst_home s' = Some h'" "\<forall>p. map_of h' p \<noteq> map_of ?h p \<longrightarrow> no_link_on ?h p"
    by auto
  then have "map_of h' [''web''] = map_of ?h [''web'']" "map_of h' [''web'', ''index''] = map_of ?h [''web'', ''index'']"
    using link by blast+
  note h'(1) this
  then show ?thesis
    using f run by (intro exI [of _ f] exI [of _ st'] exI [of _ h']) simp
qed
end
