(* ===== verification/Reload.thy ===== *)
theory Reload
  imports Host Paths
begin

text \<open>
  What the drivers of the agent share that change the configuration of a running service: files
  are written, the service's own test command judges them, a reload activates them, and on an
  error everything is put back (\<open>Driver.install\<close> and \<open>remove\<close> of
  \<open>internal/agent/webserver/nginx/nginx.go\<close>, \<open>Ensure\<close> and \<open>Delete\<close> of
  \<open>internal/agent/runtime/phpfpm/phpfpm.go\<close>).

  The state is the files of the host and the commands run so far, each with the files it saw and
  its error.  A command is judged by a parameter that sees how many ran before it, its arguments
  and the files, so the same command may fail now and succeed later.
\<close>

section \<open>Steps\<close>

record host_run =
  run_args :: "string list"
  run_fs :: fs
  run_err :: "err option"

record web_state =
  wst_fs :: fs
  wst_runs :: "host_run list"

type_synonym 's step = "'s \<Rightarrow> err option \<times> 's"

type_synonym commands = "nat \<Rightarrow> string list \<Rightarrow> fs \<Rightarrow> err option"

definition onto :: "err option \<times> 's \<Rightarrow> 's step \<Rightarrow> err option \<times> 's" where
  "onto r f = (case r of (Some e, s) \<Rightarrow> (Some e, s) | (None, s) \<Rightarrow> f s)"

text \<open>The error of a step, wrapped in what it was for.\<close>

definition saying :: "string \<Rightarrow> err option \<times> 's \<Rightarrow> err option \<times> 's" where
  "saying msg r = (map_option (Wrapped msg) (fst r), snd r)"

text \<open>\<open>errors.Join\<close> of the error so far and that of a step that runs in any case.\<close>

fun err_join :: "err option \<Rightarrow> err option \<Rightarrow> err option" where
  "err_join None e = e"
| "err_join (Some e) None = Some e"
| "err_join (Some e) (Some e') = Some (Joined e e')"

definition joining :: "err option \<times> 's \<Rightarrow> 's step \<Rightarrow> err option \<times> 's" where
  "joining r f = (case f (snd r) of (e, s) \<Rightarrow> (err_join (fst r) e, s))"

definition wrapRecoveryError :: "string \<Rightarrow> err option \<Rightarrow> err option" where
  "wrapRecoveryError msg e = map_option (Wrapped msg) e"

definition on_fs :: "(fs \<Rightarrow> err option \<times> fs) \<Rightarrow> web_state step" where
  "on_fs f s = (case f (wst_fs s) of (e, fs) \<Rightarrow> (e, s\<lparr>wst_fs := fs\<rparr>))"

definition run_command :: "commands \<Rightarrow> string list \<Rightarrow> web_state step" where
  "run_command run args s =
     (let e = run (length (wst_runs s)) args (wst_fs s) in
      (e, s\<lparr>wst_runs := wst_runs s @ [\<lparr>run_args = args, run_fs = wst_fs s, run_err = e\<rparr>]\<rparr>))"

definition os_Remove :: "io \<Rightarrow> string \<Rightarrow> fs \<Rightarrow> err option \<times> fs" where
  "os_Remove io path fs =
     (if fs path = None then (Some (Plain ''no such file or directory''), fs)
      else case io (Remove path) of Some e \<Rightarrow> (Some e, fs) | None \<Rightarrow> (None, fs(path := None)))"

text \<open>Test, reload, and the way back.\<close>

definition apply_config :: "commands \<Rightarrow> string list \<Rightarrow> string list \<Rightarrow> string \<Rightarrow> web_state step \<Rightarrow> web_state step" where
  "apply_config run test reload what rollback s =
     (case run_command run test s of
        (Some e, s1) \<Rightarrow> joining (Some (Wrapped (''validate '' @ what @ '' configuration'') e), s1) rollback
      | (None, s1) \<Rightarrow>
          (case run_command run reload s1 of
             (Some e, s2) \<Rightarrow>
               joining (joining (joining (Some (Wrapped (''reload '' @ what) e), s2) rollback)
                 (\<lambda>s. case run_command run test s of (e, s') \<Rightarrow>
                   (wrapRecoveryError (''validate restored '' @ what @ '' configuration'') e, s')))
                 (\<lambda>s. case run_command run reload s of (e, s') \<Rightarrow>
                   (wrapRecoveryError (''reload restored '' @ what @ '' configuration'') e, s'))
           | (None, s2) \<Rightarrow> (None, s2)))"

section \<open>What the service runs\<close>

text \<open>
  A service runs with the files it loaded last: those its last successful reload saw.  A log is
  orderly if every reload comes directly after a test of the very same files, and a reload that is
  not part of a way back after a test that passed.
\<close>

fun loaded :: "string list \<Rightarrow> fs \<Rightarrow> host_run list \<Rightarrow> fs" where
  "loaded reload start [] = start"
| "loaded reload start (r # rs) =
     loaded reload (if run_args r = reload \<and> run_err r = None then run_fs r else start) rs"

lemma loaded_append: "loaded reload start (rs @ qs) = loaded reload (loaded reload start rs) qs"
  by (induction rs arbitrary: start) simp_all

fun orderly :: "string list \<Rightarrow> string list \<Rightarrow> host_run option \<Rightarrow> host_run list \<Rightarrow> bool" where
  "orderly test reload before [] = True"
| "orderly test reload before (r # rs) =
     ((run_args r = reload \<longrightarrow> (case before of None \<Rightarrow> False | Some t \<Rightarrow> run_args t = test \<and> run_fs t = run_fs r)) \<and>
      orderly test reload (Some r) rs)"

lemma orderly_append:
  "orderly test reload b (rs @ qs) \<longleftrightarrow>
     orderly test reload b rs \<and> orderly test reload (if rs = [] then b else Some (last rs)) qs"
  by (induction rs arbitrary: b) auto

lemma onto_simps [simp]: "onto (Some e, s) f = (Some e, s)" "onto (None, s) f = f s"
  by (simp_all add: onto_def)

lemma onto_None: "onto r f = (None, s') \<longleftrightarrow> (\<exists>s. r = (None, s) \<and> f s = (None, s'))"
  by (auto simp: onto_def split: prod.splits option.splits)

lemma saying_None [simp]: "saying msg r = (None, s') \<longleftrightarrow> r = (None, s')"
  by (cases r) (auto simp: saying_def)

lemma err_join_None [simp]: "err_join a b = None \<longleftrightarrow> a = None \<and> b = None"
  by (cases a; cases b) simp_all

lemma err_join_ex [simp]: "(\<exists>y. err_join a b = Some y) \<longleftrightarrow> (\<exists>y. a = Some y) \<or> (\<exists>y. b = Some y)"
  by (cases a; cases b) simp_all

lemma joining_simps [simp]: "joining (e, s) f = (err_join e (fst (f s)), snd (f s))"
  by (simp add: joining_def split: prod.splits)

lemma snd_joining: "snd (joining r f) = snd (f (snd r))"
  by (simp add: joining_def split: prod.splits)

lemma on_fs_simps [simp]: "fst (on_fs f s) = fst (f (wst_fs s))" "wst_fs (snd (on_fs f s)) = snd (f (wst_fs s))"
  "wst_runs (snd (on_fs f s)) = wst_runs s"
  by (simp_all add: on_fs_def split: prod.splits)

lemma wrapRecovery_None [simp]: "wrapRecoveryError msg e = None \<longleftrightarrow> e = None"
  by (simp add: wrapRecoveryError_def)

text \<open>A rollback only changes files.\<close>

definition files_only :: "web_state step \<Rightarrow> bool" where
  "files_only f \<longleftrightarrow> (\<forall>s. wst_runs (snd (f s)) = wst_runs s)"

text \<open>
  The three ways a change can end: it is loaded after its test passed; the test failed and it was
  taken back; the reload failed, it was taken back, and the files of before were tested and loaded.
\<close>

lemma apply_config_runs:
  fixes run :: commands
  assumes files: "files_only rollback" and app: "apply_config run test reload what rollback s = (err, s')"
    and b: "test \<noteq> reload"
  defines "back \<equiv> \<lambda>s1. wst_fs (snd (rollback s1))"
  obtains (loaded) r1 r2 where "err = None" "wst_fs s' = wst_fs s" "wst_runs s' = wst_runs s @ [r1, r2]"
      "r1 = \<lparr>run_args = test, run_fs = wst_fs s, run_err = None\<rparr>" "r2 = \<lparr>run_args = reload, run_fs = wst_fs s, run_err = None\<rparr>"
  | (refused) r1 s1 where "err \<noteq> None" "wst_runs s' = wst_runs s @ [r1]" "run_args r1 = test" "run_err r1 \<noteq> None"
      "wst_fs s1 = wst_fs s" "wst_fs s' = back s1"
  | (failed) r1 r2 r3 r4 s1 where "err \<noteq> None" "wst_runs s' = wst_runs s @ [r1, r2, r3, r4]"
      "run_args r1 = test" "run_fs r1 = wst_fs s" "run_args r2 = reload" "run_fs r2 = wst_fs s" "run_err r2 \<noteq> None"
      "run_args r3 = test" "run_fs r3 = wst_fs s'" "run_args r4 = reload" "run_fs r4 = wst_fs s'"
      "wst_fs s1 = wst_fs s" "wst_fs s' = back s1"
proof -
  have f: "wst_runs (snd (rollback s1)) = wst_runs s1" for s1
    using files by (simp add: files_only_def)
  let ?n = "length (wst_runs s)"
  let ?r1 = "\<lparr>run_args = test, run_fs = wst_fs s, run_err = run ?n test (wst_fs s)\<rparr>"
  let ?s1 = "s\<lparr>wst_runs := wst_runs s @ [?r1]\<rparr>"
  let ?r2 = "\<lparr>run_args = reload, run_fs = wst_fs s, run_err = run (Suc ?n) reload (wst_fs s)\<rparr>"
  let ?s2 = "s\<lparr>wst_runs := wst_runs s @ [?r1, ?r2]\<rparr>"
  show thesis
  proof (cases "run ?n test (wst_fs s)")
    case (Some e)
    have err: "err = err_join (Some (Wrapped (''validate '' @ what @ '' configuration'') e)) (fst (rollback ?s1))"
      and s': "s' = snd (rollback ?s1)"
      using app Some by (simp_all add: apply_config_def run_command_def Let_def)
    have "err \<noteq> None"
      unfolding err err_join_None by simp
    then show thesis
      using Some f [of ?s1] by (intro refused [of ?r1 ?s1]) (simp_all add: s' back_def)
  next
    case tested: None
    show thesis
    proof (cases "run (Suc ?n) reload (wst_fs s)")
      case None
      then show thesis
        using app tested by (intro loaded [of ?r1 ?r2]) (auto simp: apply_config_def run_command_def Let_def)
    next
      case (Some e)
      let ?s3 = "snd (rollback ?s2)"
      let ?r3 = "\<lparr>run_args = test, run_fs = wst_fs ?s3, run_err = run (?n + 2) test (wst_fs ?s3)\<rparr>"
      let ?r4 = "\<lparr>run_args = reload, run_fs = wst_fs ?s3, run_err = run (?n + 3) reload (wst_fs ?s3)\<rparr>"
      have err: "\<exists>a b c. err = err_join (err_join (err_join (Some (Wrapped (''reload '' @ what) e)) a) b) c"
        and s': "s' = ?s3\<lparr>wst_runs := wst_runs s @ [?r1, ?r2, ?r3, ?r4]\<rparr>"
        using app tested Some f [of ?s2]
        by (auto simp: apply_config_def run_command_def Let_def numeral_3_eq_3)
      have "err \<noteq> None"
        using err err_join_None by (metis option.distinct(1))
      then show thesis
        using tested Some by (intro failed [of ?r1 ?r2 ?r3 ?r4 ?s2]) (simp_all add: s' back_def)
    qed
  qed
qed

section \<open>File operations that do not fail\<close>

definition calm :: "io \<Rightarrow> bool" where
  "calm io \<longleftrightarrow> (\<forall>c. io c = None)"

lemma calmD [simp]: "calm io \<Longrightarrow> io c = None"
  by (simp add: calm_def)

text \<open>The same files, with some more directories.\<close>

definition dirs_added :: "fs \<Rightarrow> fs \<Rightarrow> bool" where
  "dirs_added fs fs' \<longleftrightarrow> (\<forall>p. fs' p = fs p \<or> (fs p = None \<and> fs' p = Some Directory))"

lemma dirs_added_refl [simp]: "dirs_added fs fs"
  by (simp add: dirs_added_def)

lemma dirs_added_trans [trans]: "dirs_added fs fs1 \<Longrightarrow> dirs_added fs1 fs2 \<Longrightarrow> dirs_added fs fs2"
  by (smt (verit) dirs_added_def)

lemma dirs_added_file:
  "dirs_added fs fs' \<Longrightarrow> fs' p = Some (File c m) \<longleftrightarrow> fs p = Some (File c m)"
  "dirs_added fs fs' \<Longrightarrow> fs' p = Some (Symlink t) \<longleftrightarrow> fs p = Some (Symlink t)"
  by (metis dirs_added_def fs_entry.distinct(1,3,5) not_None_eq option.inject option.distinct(1))+

lemma EnsureDir_dirs:
  "configfile_EnsureDir io path fs = (e, fs') \<Longrightarrow> dirs_added fs fs' \<and> (\<forall>p. p \<noteq> path \<longrightarrow> fs' p = fs p)"
  by (auto simp: configfile_EnsureDir_def dirs_added_def Let_def split: option.splits fs_entry.splits if_splits)

lemma Take_Inr:
  "configfile_Take io path fs = Inr p \<Longrightarrow>
     snp_path p = path \<and> (if snp_exists p then fs path = Some (File (snp_data p) (snp_mode p)) else fs path = None)"
  by (auto simp: configfile_Take_def split: option.splits fs_entry.splits)

lemma Write_calm:
  "calm io \<Longrightarrow> fs tmp = None \<Longrightarrow> tmp \<noteq> path \<Longrightarrow> fs path \<noteq> Some Directory \<Longrightarrow>
     configfile_Write io tmp path data mode fs = (None, fs(path \<mapsto> File data mode))"
  by (auto simp: configfile_Write_def fun_upd_idem fun_upd_twist)

lemma Restore_calm:
  assumes "calm io" "fs' tmp = None" "tmp \<noteq> path" "fs' path \<noteq> Some Directory" "configfile_Take io0 path fs = Inr p"
  shows "configfile_Restore io tmp p fs' = (None, fs'(path := fs path))"
  using assms Take_Inr [OF assms(5)] by (auto simp: configfile_Restore_def Write_calm fun_upd_idem)

lemma Remove_calm: "calm io \<Longrightarrow> fs path \<noteq> None \<Longrightarrow> os_Remove io path fs = (None, fs(path := None))"
  by (simp add: os_Remove_def)

text \<open>Directories made one after the other, each by a file operation of its own.\<close>

definition ensure_dirs :: "(nat \<Rightarrow> io) \<Rightarrow> (nat \<times> string) list \<Rightarrow> web_state step" where
  "ensure_dirs io ds s =
     foldl (\<lambda>r (k, p). onto r (on_fs (configfile_EnsureDir (io k) p))) (None, s) ds"

lemma ensure_dirs:
  assumes "ensure_dirs io ds s = (e, s')"
  shows "dirs_added (wst_fs s) (wst_fs s')" "wst_runs s' = wst_runs s" "p \<notin> snd ` set ds \<Longrightarrow> wst_fs s' p = wst_fs s p"
proof -
  have "dirs_added (wst_fs s) (wst_fs s') \<and> wst_runs s' = wst_runs s \<and> (\<forall>p. p \<notin> snd ` set ds \<longrightarrow> wst_fs s' p = wst_fs s p)"
    using assms unfolding ensure_dirs_def
  proof (induction ds arbitrary: e s' rule: rev_induct)
    case (snoc x ds)
    obtain k p e1 s1 where x: "x = (k, p)" and r: "foldl (\<lambda>r (k, p). onto r (on_fs (configfile_EnsureDir (io k) p))) (None, s) ds = (e1, s1)"
      by (metis prod.exhaust)
    note ih = snoc.IH [OF r]
    show ?case
    proof (cases e1)
      case None
      obtain e2 fs2 where "configfile_EnsureDir (io k) p (wst_fs s1) = (e2, fs2)"
        by (cases "configfile_EnsureDir (io k) p (wst_fs s1)")
      moreover note EnsureDir_dirs [OF this]
      moreover have "s' = s1\<lparr>wst_fs := fs2\<rparr>"
        using snoc.prems None calculation(1) unfolding x foldl_append foldl.simps r by (simp add: on_fs_def)
      ultimately show ?thesis
        using ih dirs_added_trans by (auto simp: x)
    next
      case (Some err)
      then have "s' = s1"
        using snoc.prems unfolding x foldl_append foldl.simps r by simp
      then show ?thesis
        using ih by (simp add: x)
    qed
  qed simp
  then show "dirs_added (wst_fs s) (wst_fs s')" "wst_runs s' = wst_runs s" "p \<notin> snd ` set ds \<Longrightarrow> wst_fs s' p = wst_fs s p"
    by blast+
qed

section \<open>A service that is reloaded\<close>

text \<open>
  \<open>view\<close> is what the service does with the files it has.  The service is in step with its files if
  what it loaded last amounts to the same as what is there now.
\<close>

definition in_step :: "(fs \<Rightarrow> 'v) \<Rightarrow> string list \<Rightarrow> fs \<Rightarrow> web_state \<Rightarrow> bool" where
  "in_step view reload start s \<longleftrightarrow> view (loaded reload start (wst_runs s)) = view (wst_fs s)"

locale reloaded_service =
  fixes view :: "fs \<Rightarrow> 'v" and test reload :: "string list" and what :: string
  assumes view_dirs: "dirs_added fs fs' \<Longrightarrow> view fs' = view fs"
    and test_reload: "test \<noteq> reload"
begin

lemma quiet_step:
  "in_step view reload start s \<Longrightarrow> orderly test reload None (wst_runs s) \<Longrightarrow> wst_runs s' = wst_runs s \<Longrightarrow>
     view (wst_fs s') = view (wst_fs s) \<Longrightarrow> in_step view reload start s' \<and> orderly test reload None (wst_runs s')"
  by (simp add: in_step_def)

lemma dirs_step:
  "in_step view reload start s \<Longrightarrow> orderly test reload None (wst_runs s) \<Longrightarrow> wst_runs s' = wst_runs s \<Longrightarrow>
     dirs_added (wst_fs s) (wst_fs s') \<Longrightarrow> in_step view reload start s' \<and> orderly test reload None (wst_runs s')"
  using quiet_step view_dirs by blast

text \<open>However the commands end, a change that can be taken back leaves the service in step.\<close>

lemma apply_step:
  assumes app: "apply_config run test reload what rollback s2 = (err, s')" and files: "files_only rollback"
    and undo: "\<forall>t. wst_fs t = wst_fs s2 \<longrightarrow> wst_fs (snd (rollback t)) = fs1"
    and before: "dirs_added (wst_fs s) fs1" "wst_runs s2 = wst_runs s"
    and sync: "in_step view reload start s" "orderly test reload None (wst_runs s)"
  shows "in_step view reload start s' \<and> orderly test reload None (wst_runs s') \<and>
    wst_fs s' = (if err = None then wst_fs s2 else fs1)"
  using files app test_reload
proof (cases rule: apply_config_runs)
  case (loaded r1 r2)
  then show ?thesis
    using before sync test_reload by (auto simp: in_step_def loaded_append orderly_append)
next
  case (refused r1 s1)
  then show ?thesis
    using before sync undo test_reload view_dirs [OF before(1)] by (auto simp: in_step_def loaded_append orderly_append)
next
  case (failed r1 r2 r3 r4 s1)
  then have "wst_fs s' = fs1"
    using undo by simp
  with failed show ?thesis
    using before sync test_reload view_dirs [OF before(1)] by (auto simp: in_step_def loaded_append orderly_append)
qed

end

end
