(* ===== verification/Nginx.thy ===== *)
theory Nginx
  imports Reload Validate
begin

text \<open>
  The web server driver of the agent, \<open>internal/agent/webserver/nginx/nginx.go\<close>: the text of
  a site, and the operations that install, disable and delete it as one transaction over the
  configuration files and the running nginx.
\<close>

section \<open>The driver\<close>

record web_site =
  wsi_id :: string
  wsi_name :: string
  wsi_aliases :: "string list"
  wsi_root :: string
  wsi_socket :: string
  wsi_cert :: string
  wsi_key :: string
  wsi_redirect :: bool

text \<open>
  Every file operation has a number, its place in the operation that makes it, by which the
  parameter says which system calls fail there and which name its temporary file gets.
\<close>

record nginx_driver =
  ngx_ext :: ext
  ngx_available :: string
  ngx_enabled :: string
  ngx_include :: string
  ngx_run :: commands
  ngx_io :: "nat \<Rightarrow> io"
  ngx_tmp :: "nat \<Rightarrow> string"

definition nginxPath :: string where "nginxPath = ''/usr/sbin/nginx''"

definition systemctlPath :: string where "systemctlPath = ''/usr/bin/systemctl''"

definition nginx_test :: "string list" where "nginx_test = [nginxPath, ''-t'']"

definition nginx_reload :: "string list" where "nginx_reload = [systemctlPath, ''reload'', ''nginx'']"

definition nginx_config_path :: "nginx_driver \<Rightarrow> string \<Rightarrow> string" where
  "nginx_config_path d i = path_Join [ngx_available d, i @ ''.conf'']"

definition nginx_link_path :: "nginx_driver \<Rightarrow> string \<Rightarrow> string" where
  "nginx_link_path d i = path_Join [ngx_enabled d, i @ ''.conf'']"

definition nginx_link_target :: "string \<Rightarrow> string" where
  "nginx_link_target i = path_Join [''..'', ''sites-available'', i @ ''.conf'']"

section \<open>The text of a site\<close>

definition config_lines :: "string list \<Rightarrow> string" where
  "config_lines ls = concat (map (\<lambda>l. l @ [CHR 0x0A]) ls)"

definition renderLocations :: "string \<Rightarrow> string list" where
  "renderLocations socket =
     [[],
      ''    location / {'',
      ''        try_files $uri $uri/ =404;'',
      ''    }'',
      [],
      ''    location ~ /'' @ [CHR 0x5C] @ ''. {'',
      ''        deny all;'',
      ''    }'',
      [],
      ''    location ~ '' @ [CHR 0x5C] @ ''.php$ {'',
      ''        try_files $uri =404;'',
      ''        include fastcgi_params;'',
      ''        fastcgi_param SCRIPT_FILENAME $document_root$fastcgi_script_name;'',
      ''        fastcgi_pass unix:'' @ socket @ '';'',
      ''    }'']"

definition challenge_lines :: "string list" where
  "challenge_lines =
     [''    location ^~ /.well-known/acme-challenge/ {'',
      ''        root /var/lib/webycp/acme;'',
      ''        try_files $uri =404;'',
      ''    }'']"

definition nginx_render :: "web_site \<Rightarrow> string" where
  "nginx_render v =
     (let names = Join (wsi_name v # wsi_aliases v) '' '' in
      if wsi_cert v \<noteq> [] then config_lines (
       [''server {'',
        ''    listen 80;'',
        ''    listen [::]:80;'',
        ''    server_name '' @ names @ '';'',
        []] @ challenge_lines @
       (if wsi_redirect v then
         [[],
          ''    location / {'',
          ''        return 301 https://$host$request_uri;'',
          ''    }'']
        else renderLocations (wsi_socket v)) @
       [''}'',
        [],
        ''server {'',
        ''    listen 443 ssl;'',
        ''    listen [::]:443 ssl;'',
        ''    server_name '' @ names @ '';'',
        ''    root '' @ wsi_root v @ '';'',
        ''    index index.php index.html;'',
        [],
        ''    ssl_certificate '' @ wsi_cert v @ '';'',
        ''    ssl_certificate_key '' @ wsi_key v @ '';'',
        ''    ssl_protocols TLSv1.2 TLSv1.3;'',
        [],
        ''    access_log /var/log/nginx/webycp-'' @ wsi_id v @ ''.access.log;'',
        ''    error_log /var/log/nginx/webycp-'' @ wsi_id v @ ''.error.log;''] @
       renderLocations (wsi_socket v) @
       [''}''])
      else config_lines (
       [''server {'',
        ''    listen 80;'',
        ''    listen [::]:80;'',
        [],
        ''    server_name '' @ names @ '';'',
        ''    root '' @ wsi_root v @ '';'',
        ''    index index.php index.html;'',
        [],
        ''    access_log /var/log/nginx/webycp-'' @ wsi_id v @ ''.access.log;'',
        ''    error_log /var/log/nginx/webycp-'' @ wsi_id v @ ''.error.log;'',
        []] @ challenge_lines @ renderLocations (wsi_socket v) @
       [''}'']))"

definition panel_proxy :: "string \<Rightarrow> string list" where
  "panel_proxy proto =
     [''        proxy_pass http://127.0.0.1:3000;'',
      ''        proxy_set_header Host $host;'',
      ''        proxy_set_header X-Forwarded-Proto '' @ proto @ '';'',
      ''        proxy_set_header X-Forwarded-For $proxy_add_x_forwarded_for;'']"

definition panel_challenge :: "string \<Rightarrow> string list \<Rightarrow> string list" where
  "panel_challenge name handler =
     [''server {'',
      ''    listen 80;'',
      ''    listen [::]:80;'',
      ''    server_name '' @ name @ '';''] @ challenge_lines @
     [''    location / {''] @ handler @
     [''    }'',
      ''}'']"

definition panel_header :: string where "panel_header = ''# Managed by WEBYCP.'' @ [CHR 0x0A]"

definition renderPanel :: "string \<Rightarrow> string \<Rightarrow> string \<Rightarrow> string" where
  "renderPanel name cert key =
     panel_header @ config_lines (
       if cert = [] then panel_challenge name (panel_proxy ''http'')
       else panel_challenge name [''        return 301 https://$host$request_uri;''] @
        [[],
         ''server {'',
         ''    listen 443 ssl;'',
         ''    listen [::]:443 ssl;'',
         ''    server_name '' @ name @ '';'',
         ''    ssl_certificate '' @ cert @ '';'',
         ''    ssl_certificate_key '' @ key @ '';'',
         ''    ssl_protocols TLSv1.2 TLSv1.3;'',
         ''    location / {''] @ panel_proxy ''https'' @
        [''    }'',
         ''}''])"

definition renderPanelChallenge :: "string \<Rightarrow> string" where
  "renderPanelChallenge name = config_lines ([] # panel_challenge name (panel_proxy ''http''))"

definition validPath :: "string \<Rightarrow> string \<Rightarrow> err + unit" where
  "validPath field path =
     fail_when (\<not> is_rooted path \<or> path_Clean path \<noteq> path \<or>
         ContainsAny path ('' '' @ [CHR 0x09, CHR 0x0D, CHR 0x0A] @ '';{}''))
       (ValidationErr field ''Site path is invalid'')"

section \<open>Links and the include file\<close>

definition inspectLink :: "io \<Rightarrow> string \<Rightarrow> string \<Rightarrow> fs \<Rightarrow> err + bool" where
  "inspectLink io path targ fs =
     (case fs path of
        None \<Rightarrow> Inr False
      | Some entry \<Rightarrow>
          (case io (Lstat path) of
             Some e \<Rightarrow> Inl (Wrapped ''inspect nginx symlink'' e)
           | None \<Rightarrow>
               (case entry of
                  Symlink current \<Rightarrow>
                    (case io (ReadLink path) of
                       Some e \<Rightarrow> Inl (Wrapped ''read nginx symlink'' e)
                     | None \<Rightarrow>
                         if current \<noteq> targ then Inl (Plain ''nginx symlink has unexpected target'') else Inr True)
                | _ \<Rightarrow> Inl (Plain ''nginx enabled path is not a symlink''))))"

definition ensureLink :: "io \<Rightarrow> string \<Rightarrow> string \<Rightarrow> fs \<Rightarrow> (err + bool) \<times> fs" where
  "ensureLink io path targ fs =
     (case inspectLink io path targ fs of
        Inl e \<Rightarrow> (Inl e, fs)
      | Inr True \<Rightarrow> (Inr False, fs)
      | Inr False \<Rightarrow>
          (case io (MakeLink targ path) of
             Some e \<Rightarrow> (Inl (Wrapped ''enable nginx site'' e), fs)
           | None \<Rightarrow> (Inr True, fs(path \<mapsto> Symlink targ))))"

definition restoreLink :: "io \<Rightarrow> string \<Rightarrow> string \<Rightarrow> bool \<Rightarrow> fs \<Rightarrow> err option \<times> fs" where
  "restoreLink io path targ restore fs =
     (if \<not> restore then (None, fs)
      else case ensureLink io path targ fs of
        (Inl e, fs') \<Rightarrow> (Some (Wrapped ''restore nginx site'' e), fs')
      | (Inr _, fs') \<Rightarrow> (None, fs'))"

definition include_text :: "nginx_driver \<Rightarrow> string" where
  "include_text d = ''include '' @ path_Join [ngx_enabled d, ''*.conf''] @ '';'' @ [CHR 0x0A]"

definition ensureInclude :: "nginx_driver \<Rightarrow> fs \<Rightarrow> (err + bool) \<times> fs" where
  "ensureInclude d fs =
     (case configfile_Take (ngx_io d 3) (ngx_include d) fs of
        Inl e \<Rightarrow> (Inl e, fs)
      | Inr p \<Rightarrow>
          if \<not> snp_exists p then
            (case configfile_Write (ngx_io d 4) (ngx_tmp d 4) (ngx_include d) (include_text d) 0x1A4 fs of
               (Some e, fs') \<Rightarrow> (Inl e, fs')
             | (None, fs') \<Rightarrow> (Inr True, fs'))
          else if snp_data p \<noteq> include_text d then (Inl (Plain ''nginx include has unexpected contents''), fs)
          else (Inr False, fs))"

definition removeInclude :: "nginx_driver \<Rightarrow> bool \<Rightarrow> fs \<Rightarrow> err option \<times> fs" where
  "removeInclude d created fs =
     (if \<not> created \<or> fs (ngx_include d) = None then (None, fs)
      else case os_Remove (ngx_io d 9) (ngx_include d) fs of
        (Some e, fs') \<Rightarrow> (Some (Wrapped ''remove nginx include'' e), fs')
      | (None, fs') \<Rightarrow> (None, fs'))"

section \<open>Installing a site\<close>

definition install_rollback :: "nginx_driver \<Rightarrow> string \<Rightarrow> snapshot \<Rightarrow> bool \<Rightarrow> bool \<Rightarrow> web_state step" where
  "install_rollback d i previous linked created s =
     (let unlinked = (if linked then on_fs (os_Remove (ngx_io d 7) (nginx_link_path d i)) s else (None, s));
          restored = on_fs (configfile_Restore (ngx_io d 8) (ngx_tmp d 8) previous) (snd unlinked);
          excluded = on_fs (removeInclude d created) (snd restored) in
      (err_join (fst restored) (err_join (fst unlinked) (fst excluded)), snd excluded))"

definition nginx_install :: "nginx_driver \<Rightarrow> string \<Rightarrow> string \<Rightarrow> web_state step" where
  "nginx_install d i contents s0 =
     onto (ensure_dirs (ngx_io d) [(0, ngx_available d), (1, ngx_enabled d), (2, path_Dir (ngx_include d))] s0) (\<lambda>s.
     case ensureInclude d (wst_fs s) of
       (Inl e, fs1) \<Rightarrow> (Some e, s\<lparr>wst_fs := fs1\<rparr>)
     | (Inr created, fs1) \<Rightarrow>
         (case configfile_Take (ngx_io d 5) (nginx_config_path d i) fs1 of
            Inl e \<Rightarrow> joining (Some e, s\<lparr>wst_fs := fs1\<rparr>) (on_fs (removeInclude d created))
          | Inr previous \<Rightarrow>
              (case configfile_Write (ngx_io d 5) (ngx_tmp d 5) (nginx_config_path d i) contents 0x1A4 fs1 of
                 (Some e, fs2) \<Rightarrow> joining (Some e, s\<lparr>wst_fs := fs2\<rparr>) (on_fs (removeInclude d created))
               | (None, fs2) \<Rightarrow>
                   (case ensureLink (ngx_io d 6) (nginx_link_path d i) (nginx_link_target i) fs2 of
                      (Inl e, fs3) \<Rightarrow>
                        joining (joining (Some e, s\<lparr>wst_fs := fs3\<rparr>)
                          (on_fs (configfile_Restore (ngx_io d 8) (ngx_tmp d 8) previous)))
                          (on_fs (removeInclude d created))
                    | (Inr linked, fs3) \<Rightarrow>
                        apply_config (ngx_run d) nginx_test nginx_reload ''nginx''
                          (install_rollback d i previous linked created) (s\<lparr>wst_fs := fs3\<rparr>)))))"

definition nginx_Ensure :: "nginx_driver \<Rightarrow> web_site \<Rightarrow> web_state step" where
  "nginx_Ensure d v s =
     (case andthen (validate_ID ''websiteId'' (wsi_id v)) (\<lambda>_.
           andthen (validate_DomainAliases (ngx_ext d) (wsi_name v) (wsi_aliases v)) (\<lambda>aliases.
           andthen (validPath ''root'' (wsi_root v)) (\<lambda>_.
           andthen (validPath ''phpSocket'' (wsi_socket v)) (\<lambda>_.
           andthen (if wsi_cert v \<noteq> [] then andthen (validPath ''certificate'' (wsi_cert v)) (\<lambda>_. validPath ''key'' (wsi_key v))
             else Inr ()) (\<lambda>_. Inr (v\<lparr>wsi_aliases := aliases\<rparr>)))))) of
        Inl e \<Rightarrow> (Some e, s)
      | Inr w \<Rightarrow> nginx_install d (wsi_id w) (nginx_render w) s)"

definition nginx_EnsureTLS :: "nginx_driver \<Rightarrow> web_site \<Rightarrow> string \<Rightarrow> string \<Rightarrow> bool \<Rightarrow> web_state step" where
  "nginx_EnsureTLS d v cert key redirect =
     nginx_Ensure d (v\<lparr>wsi_cert := cert, wsi_key := key, wsi_redirect := redirect\<rparr>)"

text \<open>\<open>os.ReadFile\<close> follows at most 40 symbolic links.\<close>

fun read_file :: "nat \<Rightarrow> io \<Rightarrow> fs \<Rightarrow> string \<Rightarrow> err + string option" where
  "read_file n io fs path =
     (case fs path of
        None \<Rightarrow> Inr None
      | Some Directory \<Rightarrow> Inl (Plain ''is a directory'')
      | Some (File data _) \<Rightarrow> (case io (ReadFile path) of Some e \<Rightarrow> Inl e | None \<Rightarrow> Inr (Some data))
      | Some (Symlink t) \<Rightarrow>
          (case n of
             0 \<Rightarrow> Inl (Plain ''too many levels of symbolic links'')
           | Suc m \<Rightarrow> read_file m io fs (if is_rooted t then t else path_Join [path_Dir path, t])))"

declare read_file.simps [simp del]

definition Contains :: "string \<Rightarrow> string \<Rightarrow> bool" where
  "Contains s sub \<longleftrightarrow> list_ex (\<lambda>k. HasPrefix (drop k s) sub) [0..<Suc (length s)]"

definition nginx_EnsurePanelChallenge :: "nginx_driver \<Rightarrow> string \<Rightarrow> web_state step" where
  "nginx_EnsurePanelChallenge d name0 s =
     (case validate_Domain (ngx_ext d) name0 of
        Inl e \<Rightarrow> (Some e, s)
      | Inr name \<Rightarrow>
          (case read_file 40 (ngx_io d 10) (wst_fs s) (path_Join [ngx_available d, ''panel.conf'']) of
             Inl e \<Rightarrow> (Some (Wrapped ''read panel nginx configuration'' e), s)
           | Inr None \<Rightarrow> nginx_install d ''panel'' (renderPanel name [] []) s
           | Inr (Some current) \<Rightarrow>
               if \<not> HasPrefix current panel_header
               then (Some (Plain ''panel nginx configuration is not managed by WEBYCP''), s)
               else nginx_install d ''panel''
                 (if Contains current (''server_name '' @ name @ '';'') then current
                  else current @ renderPanelChallenge name) s))"

definition nginx_EnsurePanelTLS :: "nginx_driver \<Rightarrow> string \<Rightarrow> string \<Rightarrow> string \<Rightarrow> web_state step" where
  "nginx_EnsurePanelTLS d name0 cert key s =
     (case andthen (validate_Domain (ngx_ext d) name0) (\<lambda>name.
           andthen (validPath ''certificate'' cert) (\<lambda>_.
           andthen (validPath ''key'' key) (\<lambda>_. Inr name))) of
        Inl e \<Rightarrow> (Some e, s)
      | Inr name \<Rightarrow> nginx_install d ''panel'' (renderPanel name cert key) s)"

section \<open>Removing a site\<close>

definition remove_rollback :: "nginx_driver \<Rightarrow> string \<Rightarrow> snapshot \<Rightarrow> bool \<Rightarrow> web_state step" where
  "remove_rollback d i previous deleteConfig s =
     joining (if deleteConfig then on_fs (configfile_Restore (ngx_io d 8) (ngx_tmp d 8) previous) s else (None, s))
       (on_fs (restoreLink (ngx_io d 9) (nginx_link_path d i) (nginx_link_target i) True))"

definition nginx_remove :: "nginx_driver \<Rightarrow> string \<Rightarrow> bool \<Rightarrow> web_state step" where
  "nginx_remove d i deleteConfig s0 =
     (case validate_ID ''websiteId'' i of
        Inl e \<Rightarrow> (Some e, s0)
      | Inr _ \<Rightarrow>
     onto (ensure_dirs (ngx_io d) [(0, ngx_available d), (1, ngx_enabled d)] s0) (\<lambda>s.
     let config = nginx_config_path d i; link = nginx_link_path d i; targ = nginx_link_target i in
     case configfile_Take (ngx_io d 5) config (wst_fs s) of
       Inl e \<Rightarrow> (Some e, s)
     | Inr previous \<Rightarrow>
         (case inspectLink (ngx_io d 6) link targ (wst_fs s) of
            Inl e \<Rightarrow> (Some e, s)
          | Inr linked \<Rightarrow>
              if \<not> linked \<and> (\<not> deleteConfig \<or> \<not> snp_exists previous) then (None, s)
              else case (if linked then on_fs (os_Remove (ngx_io d 6) link) s else (None, s)) of
                (Some e, s1) \<Rightarrow> (Some (Wrapped ''disable nginx site'' e), s1)
              | (None, s1) \<Rightarrow>
                  (case (if deleteConfig \<and> snp_exists previous then on_fs (os_Remove (ngx_io d 7) config) s1 else (None, s1)) of
                     (Some e, s2) \<Rightarrow>
                       joining (Some (Wrapped ''delete nginx site'' e), s2) (on_fs (restoreLink (ngx_io d 9) link targ linked))
                   | (None, s2) \<Rightarrow>
                       if \<not> linked then (None, s2)
                       else apply_config (ngx_run d) nginx_test nginx_reload ''nginx''
                         (remove_rollback d i previous deleteConfig) s2))))"

definition nginx_Disable :: "nginx_driver \<Rightarrow> string \<Rightarrow> web_state step" where
  "nginx_Disable d i = nginx_remove d i False"

definition nginx_Delete :: "nginx_driver \<Rightarrow> string \<Rightarrow> web_state step" where
  "nginx_Delete d i = nginx_remove d i True"

section \<open>Transactions\<close>

definition nginx_site_id :: "string \<Rightarrow> bool" where
  "nginx_site_id i \<longleftrightarrow> idPattern i \<or> i = ''panel''"

text \<open>What nginx serves for a site: the file behind its link, once the include file is there.\<close>

definition served :: "nginx_driver \<Rightarrow> fs \<Rightarrow> string \<Rightarrow> string option" where
  "served d fs i =
     (case fs (ngx_include d) of
        Some (File inc _) \<Rightarrow>
          if nginx_site_id i \<and> inc = include_text d \<and> fs (nginx_link_path d i) = Some (Symlink (nginx_link_target i))
          then (case fs (nginx_config_path d i) of Some (File c _) \<Rightarrow> Some c | _ \<Rightarrow> None)
          else None
      | _ \<Rightarrow> None)"

definition nginx_paths :: "nginx_driver \<Rightarrow> string \<Rightarrow> string set" where
  "nginx_paths d i = {nginx_config_path d i, nginx_link_path d i, ngx_include d}"

text \<open>No file operation fails, temporary names are fresh, and the places of the files are apart.\<close>

definition nginx_calm :: "nginx_driver \<Rightarrow> string \<Rightarrow> fs \<Rightarrow> bool" where
  "nginx_calm d i fs \<longleftrightarrow> (\<forall>k. calm (ngx_io d k)) \<and> is_rooted (ngx_available d) \<and> is_rooted (ngx_enabled d) \<and>
     path_parts (ngx_available d) \<noteq> path_parts (ngx_enabled d) \<and>
     distinct [nginx_config_path d i, nginx_link_path d i, ngx_include d] \<and>
     (\<forall>k. fs (ngx_tmp d k) = None \<and>
       ngx_tmp d k \<notin> nginx_paths d i \<union> {ngx_available d, ngx_enabled d, path_Dir (ngx_include d)})"

lemma served_dirs: "dirs_added fs fs' \<Longrightarrow> served d fs' = served d fs"
proof
  fix i
  assume "dirs_added fs fs'"
  then have "fs' p = fs p \<or> (fs p = None \<and> fs' p = Some Directory)" for p
    by (simp add: dirs_added_def)
  from this [of "ngx_include d"] this [of "nginx_link_path d i"] this [of "nginx_config_path d i"]
  show "served d fs' i = served d fs i"
    by (elim disjE conjE) (simp_all add: served_def split: option.splits fs_entry.splits)
qed

section \<open>Reading a configuration\<close>

text \<open>
  How nginx reads a file: words, separated by white space, and the signs \<open>;\<close>, \<open>{\<close> and
  \<open>}\<close>.  A word may be quoted; a backslash takes the next character as it is; \<open>{\<close> after \<open>$\<close> belongs
  to the word; \<open>#\<close> between words starts a comment.
\<close>

datatype ngx_token = Word string | Semi | Open | Close

datatype ngx_mode = Between | InWord string bool | InQuote char string | AfterQuote | InComment

definition ngx_space :: "char \<Rightarrow> bool" where
  "ngx_space c \<longleftrightarrow> c = CHR '' '' \<or> c = CHR 0x09 \<or> c = CHR 0x0D \<or> c = CHR 0x0A"

fun ngx_lex :: "ngx_mode \<Rightarrow> string \<Rightarrow> ngx_token list option" where
  "ngx_lex m [] = (case m of Between \<Rightarrow> Some [] | InComment \<Rightarrow> Some [] | _ \<Rightarrow> None)"
| "ngx_lex Between (c # r) =
     (if ngx_space c then ngx_lex Between r
      else if c = CHR '';'' then map_option (Cons Semi) (ngx_lex Between r)
      else if c = CHR ''{'' then map_option (Cons Open) (ngx_lex Between r)
      else if c = CHR ''}'' then map_option (Cons Close) (ngx_lex Between r)
      else if c = CHR ''#'' then ngx_lex InComment r
      else if c = CHR 0x22 \<or> c = CHR 0x27 then ngx_lex (InQuote c []) r
      else if c = CHR 0x5C then (case r of [] \<Rightarrow> None | e # r' \<Rightarrow> ngx_lex (InWord [c, e] False) r')
      else ngx_lex (InWord [c] (c = CHR ''$'')) r)"
| "ngx_lex (InWord acc v) (c # r) =
     (if c = CHR ''{'' \<and> v then ngx_lex (InWord (acc @ [c]) v) r
      else if c = CHR 0x5C then (case r of [] \<Rightarrow> None | e # r' \<Rightarrow> ngx_lex (InWord (acc @ [c, e]) False) r')
      else if ngx_space c then map_option (Cons (Word acc)) (ngx_lex Between r)
      else if c = CHR '';'' then map_option (\<lambda>ts. Word acc # Semi # ts) (ngx_lex Between r)
      else if c = CHR ''{'' then map_option (\<lambda>ts. Word acc # Open # ts) (ngx_lex Between r)
      else ngx_lex (InWord (acc @ [c]) (c = CHR ''$'')) r)"
| "ngx_lex (InQuote q acc) (c # r) =
     (if c = CHR 0x5C then (case r of [] \<Rightarrow> None | e # r' \<Rightarrow> ngx_lex (InQuote q (acc @ [c, e])) r')
      else if c = q then map_option (Cons (Word acc)) (ngx_lex AfterQuote r)
      else ngx_lex (InQuote q (acc @ [c])) r)"
| "ngx_lex AfterQuote (c # r) =
     (if ngx_space c then ngx_lex Between r
      else if c = CHR '';'' then map_option (Cons Semi) (ngx_lex Between r)
      else if c = CHR ''{'' then map_option (Cons Open) (ngx_lex Between r)
      else None)"
| "ngx_lex InComment (c # r) = ngx_lex (if c = CHR 0x0A then Between else InComment) r"

text \<open>Directives, and the words they are written with.\<close>

datatype directive = Simple "string list" | Block "string list" "directive list"

fun tokens_of :: "directive \<Rightarrow> ngx_token list" where
  "tokens_of (Simple ws) = map Word ws @ [Semi]"
| "tokens_of (Block ws ds) = map Word ws @ [Open] @ concat (map tokens_of ds) @ [Close]"

definition reads_config :: "string \<Rightarrow> directive list \<Rightarrow> bool" where
  "reads_config text ds \<longleftrightarrow> ngx_lex Between text = Some (concat (map tokens_of ds))"

text \<open>A text that is one word wherever it stands, and one that may also start a word.\<close>

definition raw_char :: "char \<Rightarrow> bool" where
  "raw_char c \<longleftrightarrow> \<not> ngx_space c \<and> c \<noteq> CHR '';'' \<and> c \<noteq> CHR ''{'' \<and> c \<noteq> CHR 0x5C"

definition raw_word :: "string \<Rightarrow> bool" where
  "raw_word w \<longleftrightarrow> list_all raw_char w \<and> w \<noteq> [] \<and> hd w \<notin> {CHR ''}'', CHR ''#'', CHR 0x22, CHR 0x27}"

lemma lex_in_word:
  assumes "list_all raw_char w"
  shows "\<exists>v'. ngx_lex (InWord acc v) (w @ r) = ngx_lex (InWord (acc @ w) v') r"
  using assms
proof (induction w arbitrary: acc v)
  case (Cons c w)
  then have "ngx_lex (InWord acc v) ((c # w) @ r) = ngx_lex (InWord (acc @ [c]) (c = CHR ''$'')) (w @ r)"
    by (simp add: raw_char_def)
  then show ?case
    using Cons.IH [of "acc @ [c]" "c = CHR ''$''"] Cons.prems by auto
qed auto

text \<open>The end of a word does not depend on how it went.\<close>

lemma lex_value:
  assumes "list_all raw_char w"
  shows "ngx_lex (InWord acc v) (w @ CHR '';'' # r) = map_option (\<lambda>ts. Word (acc @ w) # Semi # ts) (ngx_lex Between r)"
    "ngx_lex (InWord acc v) (w @ CHR '' '' # r) = map_option (\<lambda>ts. Word (acc @ w) # ts) (ngx_lex Between r)"
  using lex_in_word [OF assms, of acc v "CHR '';'' # r"] lex_in_word [OF assms, of acc v "CHR '' '' # r"]
  by (auto simp: ngx_space_def)

lemma lex_word:
  assumes "raw_word w"
  shows "ngx_lex Between (w @ CHR '';'' # r) = map_option (\<lambda>ts. Word w # Semi # ts) (ngx_lex Between r)"
    "ngx_lex Between (w @ CHR '' '' # r) = map_option (\<lambda>ts. Word w # ts) (ngx_lex Between r)"
proof -
  obtain c u where w: "w = c # u" "list_all raw_char u" "raw_char c" "c \<notin> {CHR ''}'', CHR ''#'', CHR 0x22, CHR 0x27}"
    using assms by (cases w) (auto simp: raw_word_def)
  then have "ngx_lex Between (w @ r') = ngx_lex (InWord [c] (c = CHR ''$'')) (u @ r')" for r'
    by (simp add: raw_char_def)
  then show "ngx_lex Between (w @ CHR '';'' # r) = map_option (\<lambda>ts. Word w # Semi # ts) (ngx_lex Between r)"
    "ngx_lex Between (w @ CHR '' '' # r) = map_option (\<lambda>ts. Word w # ts) (ngx_lex Between r)"
    using lex_value [OF w(2)] w(1) by simp_all
qed

lemma lex_words:
  "\<forall>w \<in> set ws. raw_word w \<Longrightarrow> ws \<noteq> [] \<Longrightarrow>
     ngx_lex Between (Join ws '' '' @ CHR '';'' # r) = map_option (\<lambda>ts. map Word ws @ Semi # ts) (ngx_lex Between r)"
  by (induction ws rule: induct_list012) (simp_all add: lex_word option.map_comp comp_def)

text \<open>Line by line.\<close>

definition reads_line :: "string \<Rightarrow> ngx_token list \<Rightarrow> bool" where
  "reads_line l ts \<longleftrightarrow> (\<forall>r. ngx_lex Between (l @ CHR 0x0A # r) = map_option (\<lambda>us. ts @ us) (ngx_lex Between r))"

lemma line_fixed:
  "reads_line [] []"
  "reads_line ''}'' [Close]" "reads_line ''    }'' [Close]"
  "reads_line ''server {'' [Word ''server'', Open]"
  "reads_line ''    listen 80;'' [Word ''listen'', Word ''80'', Semi]"
  "reads_line ''    listen [::]:80;'' [Word ''listen'', Word ''[::]:80'', Semi]"
  "reads_line ''    listen 443 ssl;'' [Word ''listen'', Word ''443'', Word ''ssl'', Semi]"
  "reads_line ''    listen [::]:443 ssl;'' [Word ''listen'', Word ''[::]:443'', Word ''ssl'', Semi]"
  "reads_line ''    index index.php index.html;'' [Word ''index'', Word ''index.php'', Word ''index.html'', Semi]"
  "reads_line ''    ssl_protocols TLSv1.2 TLSv1.3;'' [Word ''ssl_protocols'', Word ''TLSv1.2'', Word ''TLSv1.3'', Semi]"
  by (simp_all add: reads_line_def ngx_space_def option.map_comp comp_def option.map_ident)

lemma line_location:
  "reads_line ''    location / {'' [Word ''location'', Word ''/'', Open]"
  "reads_line (''    location ~ /'' @ [CHR 0x5C] @ ''. {'') [Word ''location'', Word ''~'', Word (''/'' @ [CHR 0x5C] @ ''.''), Open]"
  "reads_line (''    location ~ '' @ [CHR 0x5C] @ ''.php$ {'') [Word ''location'', Word ''~'', Word ([CHR 0x5C] @ ''.php$''), Open]"
  "reads_line ''        try_files $uri $uri/ =404;'' [Word ''try_files'', Word ''$uri'', Word ''$uri/'', Word ''=404'', Semi]"
  "reads_line ''        try_files $uri =404;'' [Word ''try_files'', Word ''$uri'', Word ''=404'', Semi]"
  "reads_line ''        deny all;'' [Word ''deny'', Word ''all'', Semi]"
  "reads_line ''        include fastcgi_params;'' [Word ''include'', Word ''fastcgi_params'', Semi]"
  "reads_line ''        return 301 https://$host$request_uri;'' [Word ''return'', Word ''301'', Word ''https://$host$request_uri'', Semi]"
  "reads_line ''        root /var/lib/webycp/acme;'' [Word ''root'', Word ''/var/lib/webycp/acme'', Semi]"
  by (simp_all add: reads_line_def ngx_space_def option.map_comp comp_def option.map_ident)

lemma line_challenge:
  "reads_line ''    location ^~ /.well-known/acme-challenge/ {'' [Word ''location'', Word ''^~'', Word ''/.well-known/acme-challenge/'', Open]"
  by (simp add: reads_line_def ngx_space_def option.map_comp comp_def option.map_ident)

lemma line_script:
  "reads_line ''        fastcgi_param SCRIPT_FILENAME $document_root$fastcgi_script_name;''
     [Word ''fastcgi_param'', Word ''SCRIPT_FILENAME'', Word ''$document_root$fastcgi_script_name'', Semi]"
  by (simp add: reads_line_def ngx_space_def option.map_comp comp_def option.map_ident)

lemma line_words:
  "\<forall>w \<in> set ws. raw_word w \<Longrightarrow> ws \<noteq> [] \<Longrightarrow>
     reads_line (''    server_name '' @ Join ws '' '' @ '';'') (Word ''server_name'' # map Word ws @ [Semi])"
  using lex_words [of ws] by (simp add: reads_line_def ngx_space_def option.map_comp comp_def)

lemma line_value:
  assumes "raw_word w"
  shows "reads_line (''    root '' @ w @ '';'') [Word ''root'', Word w, Semi]"
    "reads_line (''    ssl_certificate '' @ w @ '';'') [Word ''ssl_certificate'', Word w, Semi]"
    "reads_line (''    ssl_certificate_key '' @ w @ '';'') [Word ''ssl_certificate_key'', Word w, Semi]"
  using lex_word(1) [OF assms] by (simp_all add: reads_line_def ngx_space_def option.map_comp comp_def)

lemma line_part:
  assumes "list_all raw_char w"
  shows "reads_line (''        fastcgi_pass unix:'' @ w @ '';'') [Word ''fastcgi_pass'', Word (''unix:'' @ w), Semi]"
    "reads_line (''    access_log /var/log/nginx/webycp-'' @ w @ ''.access.log;'')
       [Word ''access_log'', Word (''/var/log/nginx/webycp-'' @ w @ ''.access.log''), Semi]"
    "reads_line (''    error_log /var/log/nginx/webycp-'' @ w @ ''.error.log;'')
       [Word ''error_log'', Word (''/var/log/nginx/webycp-'' @ w @ ''.error.log''), Semi]"
proof -
  have "list_all raw_char (w @ ''.access.log'')" "list_all raw_char (w @ ''.error.log'')"
    using assms by (simp_all add: raw_char_def ngx_space_def)
  note v = lex_value(1) [OF assms] lex_value(1) [OF this(1), unfolded append_assoc append.simps]
    lex_value(1) [OF this(2), unfolded append_assoc append.simps]
  show "reads_line (''        fastcgi_pass unix:'' @ w @ '';'') [Word ''fastcgi_pass'', Word (''unix:'' @ w), Semi]"
    "reads_line (''    access_log /var/log/nginx/webycp-'' @ w @ ''.access.log;'')
       [Word ''access_log'', Word (''/var/log/nginx/webycp-'' @ w @ ''.access.log''), Semi]"
    "reads_line (''    error_log /var/log/nginx/webycp-'' @ w @ ''.error.log;'')
       [Word ''error_log'', Word (''/var/log/nginx/webycp-'' @ w @ ''.error.log''), Semi]"
    using v by (simp_all add: reads_line_def ngx_space_def option.map_comp comp_def)
qed

section \<open>A site reads as it was meant\<close>

definition location_tree :: "string \<Rightarrow> directive list" where
  "location_tree socket =
     [Block [''location'', ''/''] [Simple [''try_files'', ''$uri'', ''$uri/'', ''=404'']],
      Block [''location'', ''~'', ''/'' @ [CHR 0x5C] @ ''.''] [Simple [''deny'', ''all'']],
      Block [''location'', ''~'', [CHR 0x5C] @ ''.php$'']
       [Simple [''try_files'', ''$uri'', ''=404''], Simple [''include'', ''fastcgi_params''],
        Simple [''fastcgi_param'', ''SCRIPT_FILENAME'', ''$document_root$fastcgi_script_name''],
        Simple [''fastcgi_pass'', ''unix:'' @ socket]]]"

definition challenge_tree :: directive where
  "challenge_tree = Block [''location'', ''^~'', ''/.well-known/acme-challenge/'']
     [Simple [''root'', ''/var/lib/webycp/acme''], Simple [''try_files'', ''$uri'', ''=404'']]"

definition log_tree :: "string \<Rightarrow> directive list" where
  "log_tree i = [Simple [''access_log'', ''/var/log/nginx/webycp-'' @ i @ ''.access.log''],
     Simple [''error_log'', ''/var/log/nginx/webycp-'' @ i @ ''.error.log'']]"

definition site_tree :: "web_site \<Rightarrow> directive list" where
  "site_tree v =
     (let names = Simple (''server_name'' # wsi_name v # wsi_aliases v);
          place = [Simple [''root'', wsi_root v], Simple [''index'', ''index.php'', ''index.html'']];
          http = [Simple [''listen'', ''80''], Simple [''listen'', ''[::]:80'']] in
      if wsi_cert v = []
      then [Block [''server''] (http @ [names] @ place @ log_tree (wsi_id v) @ [challenge_tree] @ location_tree (wsi_socket v))]
      else
       [Block [''server''] (http @ [names, challenge_tree] @
          (if wsi_redirect v then [Block [''location'', ''/''] [Simple [''return'', ''301'', ''https://$host$request_uri'']]]
           else location_tree (wsi_socket v))),
        Block [''server''] ([Simple [''listen'', ''443'', ''ssl''], Simple [''listen'', ''[::]:443'', ''ssl'']] @ [names] @ place @
          [Simple [''ssl_certificate'', wsi_cert v], Simple [''ssl_certificate_key'', wsi_key v],
           Simple [''ssl_protocols'', ''TLSv1.2'', ''TLSv1.3'']] @ log_tree (wsi_id v) @ location_tree (wsi_socket v))])"

lemma lines_append: "config_lines (ls @ ls') = config_lines ls @ config_lines ls'"
  by (simp add: config_lines_def)

text \<open>Lines that together read as a list of tokens.\<close>

definition lines_read :: "string list \<Rightarrow> ngx_token list \<Rightarrow> bool" where
  "lines_read ls ts \<longleftrightarrow> (\<forall>r. ngx_lex Between (config_lines ls @ r) = map_option (\<lambda>us. ts @ us) (ngx_lex Between r))"

lemma lines_read_Nil: "lines_read [] []"
  by (simp add: lines_read_def config_lines_def option.map_ident)

lemma lines_read_Cons: "reads_line l ts \<Longrightarrow> lines_read ls us \<Longrightarrow> lines_read (l # ls) (ts @ us)"
  by (simp add: lines_read_def reads_line_def config_lines_def option.map_comp comp_def)

lemma lines_read_append: "lines_read ls ts \<Longrightarrow> lines_read ls' us \<Longrightarrow> lines_read (ls @ ls') (ts @ us)"
  by (simp add: lines_read_def lines_append option.map_comp comp_def)

lemma lines_read_eq: "lines_read ls ts \<Longrightarrow> ts = us \<Longrightarrow> lines_read ls us"
  by simp

lemmas line_rules = line_fixed line_location line_challenge line_script line_words line_value line_part

lemmas lines_rules = lines_read_append lines_read_Cons lines_read_Nil

lemma locations_read:
  assumes "list_all raw_char socket"
  shows "lines_read (renderLocations socket) (concat (map tokens_of (location_tree socket)))"
proof (rule lines_read_eq)
  show "lines_read (renderLocations socket) ([] @ [Word ''location'', Word ''/'', Open] @
      [Word ''try_files'', Word ''$uri'', Word ''$uri/'', Word ''=404'', Semi] @ [Close] @ [] @
      [Word ''location'', Word ''~'', Word (''/'' @ [CHR 0x5C] @ ''.''), Open] @ [Word ''deny'', Word ''all'', Semi] @ [Close] @ [] @
      [Word ''location'', Word ''~'', Word ([CHR 0x5C] @ ''.php$''), Open] @
      [Word ''try_files'', Word ''$uri'', Word ''=404'', Semi] @ [Word ''include'', Word ''fastcgi_params'', Semi] @
      [Word ''fastcgi_param'', Word ''SCRIPT_FILENAME'', Word ''$document_root$fastcgi_script_name'', Semi] @
      [Word ''fastcgi_pass'', Word (''unix:'' @ socket), Semi] @ [Close] @ [])"
    unfolding renderLocations_def by (intro lines_rules line_rules assms)
qed (simp add: location_tree_def)

lemma challenge_read: "lines_read challenge_lines (tokens_of challenge_tree)"
proof (rule lines_read_eq)
  show "lines_read challenge_lines ([Word ''location'', Word ''^~'', Word ''/.well-known/acme-challenge/'', Open] @
      [Word ''root'', Word ''/var/lib/webycp/acme'', Semi] @ [Word ''try_files'', Word ''$uri'', Word ''=404'', Semi] @ [Close] @ [])"
    unfolding challenge_lines_def by (intro lines_rules line_rules)
qed (simp add: challenge_tree_def)

lemma reads_lines: "lines_read ls (concat (map tokens_of ds)) \<Longrightarrow> reads_config (config_lines ls) ds"
  unfolding lines_read_def reads_config_def by (drule spec [of _ "[]"]) simp

lemma site_reads:
  assumes names: "\<forall>w \<in> set (wsi_name v # wsi_aliases v). raw_word w" and root: "raw_word (wsi_root v)"
    and socket: "list_all raw_char (wsi_socket v)" and i: "list_all raw_char (wsi_id v)"
    and tls: "wsi_cert v \<noteq> [] \<Longrightarrow> raw_word (wsi_cert v) \<and> raw_word (wsi_key v)"
  shows "reads_config (nginx_render v) (site_tree v)"
proof -
  note rules = lines_rules line_rules names root socket i list.simps(3) challenge_read locations_read [OF socket]
  show ?thesis
  proof (cases "wsi_cert v = []")
    case True
    have "reads_config (config_lines (
       [''server {'', ''    listen 80;'', ''    listen [::]:80;'', [],
        ''    server_name '' @ Join (wsi_name v # wsi_aliases v) '' '' @ '';'',
        ''    root '' @ wsi_root v @ '';'', ''    index index.php index.html;'', [],
        ''    access_log /var/log/nginx/webycp-'' @ wsi_id v @ ''.access.log;'',
        ''    error_log /var/log/nginx/webycp-'' @ wsi_id v @ ''.error.log;'', []] @
       challenge_lines @ renderLocations (wsi_socket v) @ [''}''])) (site_tree v)"
      by (rule reads_lines, rule lines_read_eq, (rule rules)+, simp add: site_tree_def True Let_def log_tree_def)
    then show ?thesis
      using True by (simp add: nginx_render_def Let_def)
  next
    case False
    note tls = tls [OF False, THEN conjunct1] tls [OF False, THEN conjunct2]
    have head: "lines_read (
       [''server {'', ''    listen 80;'', ''    listen [::]:80;'',
        ''    server_name '' @ Join (wsi_name v # wsi_aliases v) '' '' @ '';'', []] @ challenge_lines)
       ([Word ''server'', Open, Word ''listen'', Word ''80'', Semi, Word ''listen'', Word ''[::]:80'', Semi, Word ''server_name''] @
        map Word (wsi_name v # wsi_aliases v) @ [Semi] @ tokens_of challenge_tree)"
      by (rule lines_read_eq, (rule rules)+, simp)
    have redirect: "lines_read [[], ''    location / {'', ''        return 301 https://$host$request_uri;'', ''    }'']
        (tokens_of (Block [''location'', ''/''] [Simple [''return'', ''301'', ''https://$host$request_uri'']]))"
      by (rule lines_read_eq, (rule rules)+, simp)
    have tail: "lines_read (
       [''}'', [], ''server {'', ''    listen 443 ssl;'', ''    listen [::]:443 ssl;'',
        ''    server_name '' @ Join (wsi_name v # wsi_aliases v) '' '' @ '';'',
        ''    root '' @ wsi_root v @ '';'', ''    index index.php index.html;'', [],
        ''    ssl_certificate '' @ wsi_cert v @ '';'', ''    ssl_certificate_key '' @ wsi_key v @ '';'',
        ''    ssl_protocols TLSv1.2 TLSv1.3;'', [],
        ''    access_log /var/log/nginx/webycp-'' @ wsi_id v @ ''.access.log;'',
        ''    error_log /var/log/nginx/webycp-'' @ wsi_id v @ ''.error.log;''] @
       renderLocations (wsi_socket v) @ [''}''])
       (Close # tokens_of (site_tree v ! 1))"
      by (rule lines_read_eq, (rule rules tls)+, simp add: site_tree_def False Let_def log_tree_def)
    note all = lines_read_append [OF head lines_read_append [OF redirect tail]]
      lines_read_append [OF head lines_read_append [OF locations_read [OF socket] tail]]
    show ?thesis
    proof (cases "wsi_redirect v")
      case True
      then show ?thesis
        using reads_lines [of _ "site_tree v", OF lines_read_eq [OF all(1)]] False
        by (simp add: nginx_render_def site_tree_def Let_def)
    next
      case plain: False
      then show ?thesis
        using reads_lines [of _ "site_tree v", OF lines_read_eq [OF all(2)]] False
        by (simp add: nginx_render_def site_tree_def Let_def)
    qed
  qed
qed

section \<open>Installing and removing\<close>

lemma ensureInclude_calm:
  assumes "nginx_calm d i fs"
  shows "ensureInclude d fs = (r, fs') \<Longrightarrow> fs' = (if r = Inr True then fs(ngx_include d \<mapsto> File (include_text d) 0x1A4) else fs) \<and>
      (\<forall>created. r = Inr created \<longrightarrow> (if created then fs (ngx_include d) = None else \<exists>m. fs (ngx_include d) = Some (File (include_text d) m)))"
proof (cases "configfile_Take (ngx_io d 3) (ngx_include d) fs")
  case (Inr p)
  assume e: "ensureInclude d fs = (r, fs')"
  have w: "fs (ngx_include d) = None \<Longrightarrow>
      configfile_Write (ngx_io d 4) (ngx_tmp d 4) (ngx_include d) (include_text d) 0x1A4 fs = (None, fs(ngx_include d \<mapsto> File (include_text d) 0x1A4))"
    using assms by (intro Write_calm) (auto simp: nginx_calm_def nginx_paths_def)
  show ?thesis
    using e Take_Inr [OF Inr] w by (auto simp: ensureInclude_def Inr split: if_splits)
qed (auto simp: ensureInclude_def)

lemma conf_name: "nginx_site_id i \<Longrightarrow> plain_part (i @ ''.conf'')"
  by (auto simp: nginx_site_id_def idPattern_def plain_part_def list_all_iff append_eq_Cons_conv is_hex_lower_def is_digit_def bytes_between_def byte_def)

lemma nginx_paths_apart:
  assumes "nginx_calm d i fs" "nginx_site_id i" "nginx_site_id j"
  shows "nginx_link_path d j \<noteq> nginx_config_path d i" "nginx_config_path d j = nginx_config_path d i \<longleftrightarrow> j = i"
proof -
  have r: "is_rooted (ngx_available d)" "is_rooted (ngx_enabled d)" "path_parts (ngx_available d) \<noteq> path_parts (ngx_enabled d)"
    using assms(1) by (auto simp: nginx_calm_def)
  note a = path_Join_name(2) [OF r(1) conf_name [OF assms(2)]] path_Join_name(2) [OF r(1) conf_name [OF assms(3)]]
    path_Join_name(2) [OF r(2) conf_name [OF assms(3)]]
  show "nginx_link_path d j \<noteq> nginx_config_path d i"
    using a(1,3) r(3) by (auto simp: nginx_link_path_def nginx_config_path_def)
  show "nginx_config_path d j = nginx_config_path d i \<longleftrightarrow> j = i"
    using a(1,2) by (auto simp: nginx_config_path_def)
qed

text \<open>Of a site without link the configuration does not matter.\<close>

lemma served_unlinked:
  assumes "nginx_calm d i fs0" "nginx_site_id i" "fs (nginx_link_path d i) = None"
  shows "served d (fs(nginx_config_path d i := c)) = served d fs"
proof
  fix j
  have "nginx_config_path d i \<noteq> ngx_include d"
    using assms(1) by (auto simp: nginx_calm_def)
  then show "served d (fs(nginx_config_path d i := c)) j = served d fs j"
    using nginx_paths_apart [OF assms(1,2), of j] assms(2,3)
    by (cases "nginx_site_id j"; cases "j = i") (simp_all add: served_def split: option.splits fs_entry.splits)
qed

lemma removeInclude_calm:
  "calm (ngx_io d 9) \<Longrightarrow> snd (removeInclude d created fs) = (if created then fs(ngx_include d := None) else fs)"
  by (auto simp: removeInclude_def Remove_calm fun_upd_idem)

lemma ensureLink_calm:
  assumes "calm io" "ensureLink io path targ fs = (r, fs')"
  shows "fs' = (if r = Inr True then fs(path \<mapsto> Symlink targ) else fs) \<and>
    (\<forall>made. r = Inr made \<longrightarrow> (if made then fs path = None else fs path = Some (Symlink targ)))"
  using assms by (auto simp: ensureLink_def inspectLink_def split: option.splits fs_entry.splits if_splits)

lemma install_rollback_files: "files_only (install_rollback d i p linked created)"
  by (auto simp: files_only_def install_rollback_def Let_def)

lemma install_calm:
  assumes calm: "nginx_calm d i (wst_fs s)" and inst: "nginx_install d i contents s = (err, s')"
  obtains (stopped) "err \<noteq> None" "wst_runs s' = wst_runs s" "dirs_added (wst_fs s) (wst_fs s')"
  | (applied) fs1 s2 rb where "dirs_added (wst_fs s) fs1" "wst_runs s2 = wst_runs s"
      "\<exists>inc. wst_fs s2 = fs1(ngx_include d := inc, nginx_config_path d i \<mapsto> File contents 0x1A4, nginx_link_path d i \<mapsto> Symlink (nginx_link_target i)) \<and>
        (\<exists>m. inc = Some (File (include_text d) m))"
      "apply_config (ngx_run d) nginx_test nginx_reload ''nginx'' rb s2 = (err, s')" "files_only rb"
      "\<forall>t. wst_fs t = wst_fs s2 \<longrightarrow> wst_fs (snd (rb t)) = fs1"
proof -
  let ?inc = "ngx_include d" and ?cfg = "nginx_config_path d i" and ?link = "nginx_link_path d i"
  obtain e1 s1 where dirs: "ensure_dirs (ngx_io d) [(0, ngx_available d), (1, ngx_enabled d), (2, path_Dir ?inc)] s = (e1, s1)"
    by (metis prod.exhaust)
  note d1 = ensure_dirs [OF dirs]
  have io: "calm (ngx_io d k)" and tmp: "wst_fs s1 (ngx_tmp d k) = None" "ngx_tmp d k \<noteq> ?inc" "ngx_tmp d k \<noteq> ?cfg" "ngx_tmp d k \<noteq> ?link" for k
    using calm d1(3) by (auto simp: nginx_calm_def nginx_paths_def)
  have ne: "?cfg \<noteq> ?link" "?cfg \<noteq> ?inc" "?link \<noteq> ?inc"
    using calm by (auto simp: nginx_calm_def)
  have calm1: "nginx_calm d i (wst_fs s1)"
    using calm tmp(1) by (simp add: nginx_calm_def)
  show thesis
  proof (cases e1)
    case (Some e)
    then show thesis
      using inst [unfolded nginx_install_def dirs Some onto_simps] d1 by (intro stopped) auto
  next
    case None
    obtain r fs1 where inc: "ensureInclude d (wst_fs s1) = (r, fs1)"
      by (metis prod.exhaust)
    note i1 = ensureInclude_calm [OF calm1 inc]
    note start = inst [unfolded nginx_install_def dirs None onto_simps inc prod.case]
    show thesis
    proof (cases r)
      case (Inl e)
      then show thesis
        using start d1 i1 by (intro stopped) auto
    next
      case (Inr created)
      have f1: "fs1 = (wst_fs s1)(?inc := fs1 ?inc)" "\<exists>m. fs1 ?inc = Some (File (include_text d) m)"
        "fs1(?inc := wst_fs s1 ?inc) = wst_fs s1" "\<not> created \<Longrightarrow> fs1 = wst_fs s1" "created \<Longrightarrow> wst_fs s1 ?inc = None"
        using i1 Inr by (auto simp: fun_upd_idem split: if_splits)
      have ri: "snd (removeInclude d created (fs1(?inc := fs1 ?inc))) = wst_fs s1"
        using f1 removeInclude_calm [OF io] by auto
      show thesis
      proof (cases "configfile_Take (ngx_io d 5) ?cfg fs1")
        case (Inl e)
        then show thesis
          using start Inr d1 ri by (intro stopped) (auto simp: on_fs_def split: prod.splits)
      next
        case (Inr p)
        note p = Take_Inr [OF Inr]
        have t1: "fs1 (ngx_tmp d k) = None" for k
          using f1(1) tmp(1,2) [of k] by (metis fun_upd_other)
        have plain: "fs1 ?cfg \<noteq> Some Directory"
          using p by (auto split: if_splits)
        let ?fs2 = "fs1(?cfg \<mapsto> File contents 0x1A4)"
        have w: "configfile_Write (ngx_io d 5) (ngx_tmp d 5) ?cfg contents 0x1A4 fs1 = (None, ?fs2)"
          using io t1 tmp plain by (intro Write_calm) auto
        have undo: "configfile_Restore (ngx_io d 8) (ngx_tmp d 8) p g = (None, g(?cfg := fs1 ?cfg))"
          if "g (ngx_tmp d 8) = None" "g ?cfg \<noteq> Some Directory" for g
          using Restore_calm [OF io that(1) tmp(3) that(2) Inr] .
        obtain r2 fs3 where link: "ensureLink (ngx_io d 6) ?link (nginx_link_target i) ?fs2 = (r2, fs3)"
          by (metis prod.exhaust)
        note l = ensureLink_calm [OF io link]
        note start = start [unfolded \<open>r = Inr created\<close> sum.case prod.case Inr w option.case link]
        show thesis
        proof (cases r2)
          case (Inl e)
          have "wst_fs s' = snd (removeInclude d created fs1)"
            using start l Inl undo [of ?fs2] t1 tmp(3) by (auto simp: fun_upd_idem)
          then show thesis
            using start l Inl d1 ri by (intro stopped) (auto simp: fun_upd_idem)
        next
          case (Inr linked)
          have fs3: "fs3 = ?fs2(?link := fs3 ?link)" "fs3 ?link = Some (Symlink (nginx_link_target i))" "fs3(?link := fs1 ?link) = ?fs2"
            "\<not> linked \<Longrightarrow> fs3 = ?fs2" "linked \<Longrightarrow> fs1 ?link = None"
            using l Inr ne by (auto simp: fun_upd_idem fun_upd_twist split: if_splits)
          show thesis
          proof (rule applied)
            show "dirs_added (wst_fs s) (wst_fs s1)" "wst_runs (s1\<lparr>wst_fs := fs3\<rparr>) = wst_runs s"
              using d1 by auto
            show "\<exists>inc. wst_fs (s1\<lparr>wst_fs := fs3\<rparr>) = (wst_fs s1)(?inc := inc, ?cfg \<mapsto> File contents 0x1A4,
                ?link \<mapsto> Symlink (nginx_link_target i)) \<and> (\<exists>m. inc = Some (File (include_text d) m))"
              using fs3(1,2) f1(1,2) by (intro exI [of _ "fs1 ?inc"]) simp
            show "apply_config (ngx_run d) nginx_test nginx_reload ''nginx'' (install_rollback d i p linked created) (s1\<lparr>wst_fs := fs3\<rparr>) = (err, s')"
              using start Inr by simp
            show "files_only (install_rollback d i p linked created)"
              by (rule install_rollback_files)
            show "\<forall>t. wst_fs t = wst_fs (s1\<lparr>wst_fs := fs3\<rparr>) \<longrightarrow> wst_fs (snd (install_rollback d i p linked created t)) = wst_fs s1"
            proof (intro allI impI)
              fix t :: web_state
              assume t: "wst_fs t = wst_fs (s1\<lparr>wst_fs := fs3\<rparr>)"
              have "wst_fs (snd (if linked then on_fs (os_Remove (ngx_io d 7) ?link) t else (None, t))) = ?fs2"
                using t fs3 io by (auto simp: Remove_calm)
              then show "wst_fs (snd (install_rollback d i p linked created t)) = wst_fs s1"
                using undo [of ?fs2] t1 tmp(3) ri by (simp add: install_rollback_def Let_def fun_upd_idem)
            qed
          qed
        qed
      qed
    qed
  qed
qed

lemma remove_rollback_files: "files_only (remove_rollback d i p del)"
  by (auto simp: files_only_def remove_rollback_def joining_def on_fs_def split: prod.splits)

lemma remove_calm:
  assumes calm: "nginx_calm d i (wst_fs s)" and rem: "nginx_remove d i del s = (err, s')"
  obtains (stopped) "err \<noteq> None" "wst_runs s' = wst_runs s" "dirs_added (wst_fs s) (wst_fs s')"
  | (unlinked) fs1 where "err = None" "wst_runs s' = wst_runs s" "dirs_added (wst_fs s) fs1" "fs1 (nginx_link_path d i) = None"
      "wst_fs s' = fs1 \<or> wst_fs s' = fs1(nginx_config_path d i := None)"
  | (applied) fs1 s2 rb where "dirs_added (wst_fs s) fs1" "wst_runs s2 = wst_runs s"
      "wst_fs s2 = fs1(nginx_link_path d i := None) \<or> wst_fs s2 = fs1(nginx_link_path d i := None, nginx_config_path d i := None)"
      "apply_config (ngx_run d) nginx_test nginx_reload ''nginx'' rb s2 = (err, s')" "files_only rb"
      "\<forall>t. wst_fs t = wst_fs s2 \<longrightarrow> wst_fs (snd (rb t)) = fs1"
proof (cases "validate_ID ''websiteId'' i")
  case (Inl e)
  then show thesis
    using rem by (intro stopped) (auto simp: nginx_remove_def)
next
  case valid: (Inr u)
  let ?cfg = "nginx_config_path d i" and ?link = "nginx_link_path d i" and ?targ = "nginx_link_target i"
  obtain e1 s1 where dirs: "ensure_dirs (ngx_io d) [(0, ngx_available d), (1, ngx_enabled d)] s = (e1, s1)"
    by (metis prod.exhaust)
  note d1 = ensure_dirs [OF dirs]
  have io: "calm (ngx_io d k)" and tmp: "wst_fs s1 (ngx_tmp d k) = None" "ngx_tmp d k \<noteq> ?cfg" "ngx_tmp d k \<noteq> ?link" for k
    using calm d1(3) by (auto simp: nginx_calm_def nginx_paths_def)
  have ne: "?cfg \<noteq> ?link"
    using calm by (auto simp: nginx_calm_def)
  note start = rem [unfolded nginx_remove_def valid sum.case dirs]
  show thesis
  proof (cases e1)
    case (Some e)
    then show thesis
      using start d1 by (intro stopped) auto
  next
    case None
    note start = start [unfolded None onto_simps Let_def]
    show thesis
    proof (cases "configfile_Take (ngx_io d 5) ?cfg (wst_fs s1)")
      case (Inl e)
      then show thesis
        using start d1 by (intro stopped) auto
    next
      case take: (Inr p)
      note p = Take_Inr [OF take]
      note start = start [unfolded take sum.case]
      show thesis
      proof (cases "inspectLink (ngx_io d 6) ?link ?targ (wst_fs s1)")
        case (Inl e)
        then show thesis
          using start d1 by (intro stopped) auto
      next
        case (Inr linked)
        then have l: "wst_fs s1 ?link = (if linked then Some (Symlink ?targ) else None)"
          using io by (auto simp: inspectLink_def split: option.splits fs_entry.splits if_splits)
        note start = start [unfolded Inr sum.case]
        let ?gone = "del \<and> snp_exists p"
        have cfg: "wst_fs s1 ?cfg \<noteq> None \<longleftrightarrow> snp_exists p" "wst_fs s1 ?cfg \<noteq> Some Directory"
          using p by (auto split: if_splits)
        show thesis
        proof (cases linked)
          case False
          then show thesis
            using start d1 l cfg io by (intro unlinked [of "wst_fs s1"]) (auto simp: on_fs_def Remove_calm split: if_splits)
        next
          case True
          let ?fs2 = "if ?gone then (wst_fs s1)(?link := None, ?cfg := None) else (wst_fs s1)(?link := None)"
          have app: "apply_config (ngx_run d) nginx_test nginx_reload ''nginx'' (remove_rollback d i p del) (s1\<lparr>wst_fs := ?fs2\<rparr>) = (err, s')"
            using start l cfg(1) ne io True by (auto simp: on_fs_def Remove_calm split: if_splits)
          show thesis
          proof (rule applied [OF d1(1) _ _ app remove_rollback_files])
            show "\<forall>t. wst_fs t = wst_fs (s1\<lparr>wst_fs := ?fs2\<rparr>) \<longrightarrow> wst_fs (snd (remove_rollback d i p del t)) = wst_fs s1"
            proof (intro allI impI)
              fix t :: web_state
              assume t: "wst_fs t = wst_fs (s1\<lparr>wst_fs := ?fs2\<rparr>)"
              have "wst_fs t (ngx_tmp d 8) = None" "wst_fs t ?cfg \<noteq> Some Directory"
                using t tmp cfg by auto
              note r = Restore_calm [where fs' = "wst_fs t", OF io this(1) tmp(2) this(2) take]
              let ?t1 = "(wst_fs s1)(?link := None)"
              have eq: "?t1(?cfg := wst_fs s1 ?cfg) = ?t1"
                using ne by (simp add: fun_upd_idem_iff)
              have "snd (if del then on_fs (configfile_Restore (ngx_io d 8) (ngx_tmp d 8) p) t else (None, t)) = t\<lparr>wst_fs := ?t1\<rparr>"
                using r t eq by (auto simp: on_fs_def)
              moreover have "snd (restoreLink (ngx_io d 9) ?link ?targ True ?t1) = wst_fs s1"
                using io l True by (simp add: restoreLink_def ensureLink_def inspectLink_def fun_upd_idem)
              ultimately show "wst_fs (snd (remove_rollback d i p del t)) = wst_fs s1"
                unfolding remove_rollback_def snd_joining by simp
            qed
          qed (use d1 in auto)
        qed
      qed
    qed
  qed
qed

interpretation nginx: reloaded_service "served d" nginx_test nginx_reload "''nginx''" for d
  by unfold_locales (simp_all add: served_dirs nginx_test_def nginx_reload_def nginxPath_def systemctlPath_def)

datatype nginx_op = SiteEnsure web_site | SiteDisable string | SiteDelete string
  | PanelChallenge string | PanelTLS string string string

fun nginx_exec :: "nginx_driver \<Rightarrow> nginx_op \<Rightarrow> web_state step" where
  "nginx_exec d (SiteEnsure v) = nginx_Ensure d v"
| "nginx_exec d (SiteDisable i) = nginx_Disable d i"
| "nginx_exec d (SiteDelete i) = nginx_Delete d i"
| "nginx_exec d (PanelChallenge n) = nginx_EnsurePanelChallenge d n"
| "nginx_exec d (PanelTLS n c k) = nginx_EnsurePanelTLS d n c k"

fun nginx_op_id :: "nginx_op \<Rightarrow> string" where
  "nginx_op_id (SiteEnsure v) = wsi_id v"
| "nginx_op_id (SiteDisable i) = i"
| "nginx_op_id (SiteDelete i) = i"
| "nginx_op_id _ = ''panel''"

text \<open>
  The text of the panel's site that answers certificate challenges for a name: a new text, or the text
  found before, extended by a challenge block unless the name is already served.
\<close>

definition panel_place :: "nginx_driver \<Rightarrow> string" where
  "panel_place d = path_Join [ngx_available d, ''panel.conf'']"

fun challenge_text :: "string \<Rightarrow> string option \<Rightarrow> string" where
  "challenge_text name None = renderPanel name [] []"
| "challenge_text name (Some old) =
     (if Contains old (''server_name '' @ name @ '';'') then old else old @ renderPanelChallenge name)"

text \<open>
  What may be served for the site of an operation after it succeeded, given the files before it.
\<close>

fun nginx_outcome :: "nginx_driver \<Rightarrow> fs \<Rightarrow> nginx_op \<Rightarrow> string option \<Rightarrow> bool" where
  "nginx_outcome d fs (SiteEnsure v) c \<longleftrightarrow> c = Some (nginx_render (v\<lparr>wsi_aliases := sort (wsi_aliases v)\<rparr>))"
| "nginx_outcome d fs (SiteDisable i) c \<longleftrightarrow> c = None"
| "nginx_outcome d fs (SiteDelete i) c \<longleftrightarrow> c = None"
| "nginx_outcome d fs (PanelChallenge n) c \<longleftrightarrow>
     (\<exists>m old. validate_Domain (ngx_ext d) n = Inr m \<and> read_file 40 (ngx_io d 10) fs (panel_place d) = Inr old \<and>
       c = Some (challenge_text m old) \<and> HasPrefix (challenge_text m old) panel_header \<and>
       Contains (challenge_text m old) (''server_name '' @ m @ '';''))"
| "nginx_outcome d fs (PanelTLS n cert key) c \<longleftrightarrow>
     (\<exists>m. validate_Domain (ngx_ext d) n = Inr m \<and> c = Some (renderPanel m cert key))"

lemma ContainsI: "Contains (a @ sub @ b) sub"
  by (auto simp: Contains_def list_ex_iff HasPrefix_iff intro!: bexI [of _ "length a"])

lemma Contains_line: "a @ sub @ b \<in> set ls \<Longrightarrow> Contains (config_lines ls) sub"
proof -
  assume "a @ sub @ b \<in> set ls"
  then obtain us vs where "ls = us @ (a @ sub @ b) # vs"
    by (auto simp: in_set_conv_decomp)
  then have "config_lines ls = (config_lines us @ a) @ sub @ (b @ [CHR 0x0A] @ config_lines vs)"
    by (simp add: config_lines_def)
  then show ?thesis
    using ContainsI by metis
qed

lemma Contains_append: "Contains t sub \<Longrightarrow> Contains (s @ t) sub"
proof -
  assume "Contains t sub"
  then obtain k r where "drop k t = sub @ r"
    by (auto simp: Contains_def list_ex_iff HasPrefix_iff)
  then have "s @ t = (s @ take k t) @ sub @ r"
    by (metis append.assoc append_take_drop_id)
  then show ?thesis
    using ContainsI by metis
qed

lemma panel_challenge_serves: "''    '' @ (''server_name '' @ name @ '';'') @ [] \<in> set (panel_challenge name body)"
  by (simp add: panel_challenge_def)

lemma challenge_text_serves: "Contains (challenge_text name old) (''server_name '' @ name @ '';'')"
proof -
  define sub where "sub = ''server_name '' @ name @ '';''"
  have lines: "Contains (config_lines ls) sub" if "set (panel_challenge name body) \<subseteq> set ls" for body ls
    using Contains_line [of "''    ''" sub "[]" ls] panel_challenge_serves [of name body] that unfolding sub_def by blast
  have "Contains (renderPanelChallenge name) sub"
    unfolding renderPanelChallenge_def by (rule lines) auto
  moreover have "Contains (renderPanel name [] []) sub"
    unfolding renderPanel_def by (simp only: if_True simp_thms) (intro Contains_append lines [of "panel_proxy ''http''"] subset_refl)
  ultimately show ?thesis
    unfolding sub_def [symmetric]
    by (cases old) (simp_all add: Contains_append sub_def)
qed

lemma alias_loop_Inr: "alias_loop x seen as res = Inr r \<Longrightarrow> r = res @ as"
  by (induction x seen as res rule: alias_loop.induct) (auto split: if_splits)

lemma DomainAliases_Inr: "validate_DomainAliases x n as = Inr r \<Longrightarrow> r = sort as"
  using alias_loop_Inr by (fastforce simp: validate_DomainAliases_def)

lemma panel_header_prefix: "HasPrefix (renderPanel n c k) panel_header"
  by (simp add: renderPanel_def HasPrefix_iff)

lemma install_step:
  assumes inst: "nginx_install d i contents s = (err, s')" and i: "nginx_site_id i" and calm: "nginx_calm d i (wst_fs s)"
    and sync: "in_step (served d) nginx_reload start s" "orderly nginx_test nginx_reload None (wst_runs s)"
  shows "in_step (served d) nginx_reload start s' \<and> orderly nginx_test nginx_reload None (wst_runs s') \<and>
    (err \<noteq> None \<longrightarrow> dirs_added (wst_fs s) (wst_fs s')) \<and> (err = None \<longrightarrow> served d (wst_fs s') i = Some contents)"
  using calm inst
proof (cases rule: install_calm)
  case stopped
  then show ?thesis
    using nginx.dirs_step [OF sync] by blast
next
  case (applied fs1 s2 rb)
  have "distinct [nginx_config_path d i, nginx_link_path d i, ngx_include d]"
    using calm by (simp add: nginx_calm_def)
  then have "served d (wst_fs s2) i = Some contents"
    using applied(3) i by (auto simp: served_def)
  then show ?thesis
    using nginx.apply_step [OF applied(4,5,6,1,2) sync] applied(1) by (auto split: if_splits)
qed

lemma remove_step:
  assumes rem: "nginx_remove d i del s = (err, s')" and calm: "nginx_calm d i (wst_fs s)"
    and sync: "in_step (served d) nginx_reload start s" "orderly nginx_test nginx_reload None (wst_runs s)"
  shows "in_step (served d) nginx_reload start s' \<and> orderly nginx_test nginx_reload None (wst_runs s') \<and>
    (err \<noteq> None \<longrightarrow> dirs_added (wst_fs s) (wst_fs s')) \<and> (err = None \<longrightarrow> served d (wst_fs s') i = None)"
  using calm rem
proof (cases rule: remove_calm)
  case stopped
  then show ?thesis
    using nginx.dirs_step [OF sync] by blast
next
  case (unlinked fs1)
  then have "nginx_site_id i"
    using rem by (cases "idPattern i") (simp_all add: nginx_remove_def validate_ID_def nginx_site_id_def fail_when_def)
  from served_unlinked [OF calm this, of fs1 None] have "served d (wst_fs s') = served d fs1"
    using unlinked(4,5) by auto
  moreover have "served d fs1 i = None"
    using unlinked(4) by (auto simp: served_def split: option.splits fs_entry.splits)
  moreover note served_dirs [OF unlinked(3)]
  ultimately show ?thesis
    using nginx.quiet_step [OF sync unlinked(2)] unlinked(1) by simp
next
  case (applied fs1 s2 rb)
  have "distinct [nginx_config_path d i, nginx_link_path d i, ngx_include d]"
    using calm by (simp add: nginx_calm_def)
  then have "served d (wst_fs s2) i = None"
    using applied(3) by (auto simp: served_def split: option.splits fs_entry.splits)
  then show ?thesis
    using nginx.apply_step [OF applied(4,5,6,1,2) sync] applied(1) by (auto split: if_splits)
qed

text \<open>
  A site whose link is already gone is not reloaded: an operation that was stopped between removing
  the link and the reload leaves nginx serving the site, and its repetition succeeds without changing
  that.
\<close>

theorem unlinked_site_is_not_reloaded:
  assumes rem: "nginx_remove d i del s = (None, s')" and gone: "wst_fs s (nginx_link_path d i) = None"
  shows "loaded nginx_reload start (wst_runs s') = loaded nginx_reload start (wst_runs s)"
proof -
  obtain s1 where dirs: "ensure_dirs (ngx_io d) [(0, ngx_available d), (1, ngx_enabled d)] s = (None, s1)"
    using rem by (auto simp: nginx_remove_def onto_None split: sum.splits)
  note d1 = ensure_dirs(1,2) [OF dirs]
  have "wst_fs s1 (nginx_link_path d i) = None \<or> wst_fs s1 (nginx_link_path d i) = Some Directory"
    using d1 gone unfolding dirs_added_def by metis
  then have "\<not> linked" if "inspectLink io (nginx_link_path d i) targ (wst_fs s1) = Inr linked" for io targ linked
    using that by (auto simp: inspectLink_def split: option.splits)
  moreover obtain u where "validate_ID ''websiteId'' i = Inr u"
    using rem by (auto simp: nginx_remove_def split: sum.splits)
  note start = rem [unfolded nginx_remove_def this sum.case dirs onto_simps Let_def]
  ultimately have "wst_runs s' = wst_runs s1"
    using start by (cases del) (auto simp: on_fs_def split: sum.splits if_splits prod.splits option.splits)
  then show ?thesis
    using d1(2) by simp
qed

text \<open>C11: nginx runs what the files say.  As long as file operations succeed, after every operation of
  the driver, and however its test and reload commands end, the sites nginx serves are those the
  configuration files describe; nothing is loaded that was not tested directly before; an operation
  that fails leaves every file as it was (directories may be added), and one that succeeds leaves
  exactly the configuration it was asked for: the rendered site, no site, the panel's TLS site, or for
  a challenge of the panel the text that was there, extended by a challenge block of the name unless
  it already served the name (a new text if there was none).\<close>

theorem nginx_runs_its_files:
  assumes exec: "nginx_exec d op s = (err, s')" and calm: "nginx_calm d (nginx_op_id op) (wst_fs s)"
    and sync: "in_step (served d) nginx_reload start s" "orderly nginx_test nginx_reload None (wst_runs s)"
  shows "in_step (served d) nginx_reload start s' \<and> orderly nginx_test nginx_reload None (wst_runs s') \<and>
    (err \<noteq> None \<longrightarrow> dirs_added (wst_fs s) (wst_fs s')) \<and>
    (err = None \<longrightarrow> nginx_outcome d (wst_fs s) op (served d (wst_fs s') (nginx_op_id op)))"
proof (cases op)
  case (SiteEnsure v)
  then show ?thesis
    using exec sync install_step [of d "wsi_id v" _ s err s' start] calm
    by (auto simp: nginx_Ensure_def validate_ID_def nginx_site_id_def andthen_def dest!: DomainAliases_Inr split: sum.splits if_splits)
next
  case (SiteDisable i)
  then show ?thesis
    using exec sync remove_step [of d i False s err s' start] calm by (auto simp: nginx_Disable_def)
next
  case (SiteDelete i)
  then show ?thesis
    using exec sync remove_step [of d i True s err s' start] calm by (auto simp: nginx_Delete_def)
next
  case (PanelChallenge n)
  show ?thesis
  proof (cases "validate_Domain (ngx_ext d) n")
    case (Inr m)
    note exec = exec [unfolded PanelChallenge nginx_exec.simps nginx_EnsurePanelChallenge_def Inr sum.case, folded panel_place_def]
    show ?thesis
    proof (cases "read_file 40 (ngx_io d 10) (wst_fs s) (panel_place d)")
      case (Inr old)
      show ?thesis
      proof (cases "\<exists>t. old = Some t \<and> \<not> HasPrefix t panel_header")
        case False
        then have "nginx_install d ''panel'' (challenge_text m old) s = (err, s')" "HasPrefix (challenge_text m old) panel_header"
          using exec panel_header_prefix by (cases old; auto simp: Inr HasPrefix_iff)+
        then show ?thesis
          using install_step [OF _ _ _ sync] calm \<open>validate_Domain (ngx_ext d) n = Inr m\<close> Inr challenge_text_serves
          by (auto simp: PanelChallenge nginx_site_id_def)
      qed (use exec sync dirs_added_refl in \<open>auto simp: Inr\<close>)
    qed (use exec sync dirs_added_refl in auto)
  qed (use exec sync dirs_added_refl in \<open>auto simp: PanelChallenge nginx_EnsurePanelChallenge_def\<close>)
next
  case (PanelTLS n cert key)
  then show ?thesis
    using exec sync install_step [of d "''panel''" _ s err s' start] calm
    by (auto simp: nginx_EnsurePanelTLS_def nginx_site_id_def andthen_def split: sum.splits if_splits)
qed

text \<open>What passes the checks of the driver is one word.\<close>

lemma domain_raw: "validate_Domain x v = Inr a \<Longrightarrow> raw_word a"
proof -
  assume v: "validate_Domain x v = Inr a"
  have "raw_char c \<and> c \<notin> {CHR ''}'', CHR ''#'', CHR 0x22, CHR 0x27}" if "c \<in> set a" for c
    using validate_Domain_chars [OF v that]
    by (auto simp: raw_char_def ngx_space_def domain_char_def is_lower_def is_digit_def bytes_between_def byte_def)
  moreover have "a \<noteq> []"
    using validate_Domain_Inr [OF v] by auto
  ultimately show "raw_word a"
    by (auto simp: raw_word_def list_all_iff)
qed

lemma path_raw: "validPath f p = Inr u \<Longrightarrow> CHR 0x5C \<notin> set p \<Longrightarrow> raw_word p"
  by (cases p) (auto simp: validPath_def is_rooted_def ContainsAny_def raw_word_def raw_char_def ngx_space_def list_all_iff list_ex_iff)

lemma id_raw: "idPattern i \<Longrightarrow> list_all raw_char i"
  by (auto simp: idPattern_def list_all_iff raw_char_def ngx_space_def is_hex_lower_def is_digit_def bytes_between_def byte_def)

lemma alias_loop_valid: "alias_loop x seen as res = Inr r \<Longrightarrow> \<forall>a \<in> set as. validate_Domain x a = Inr a"
  by (induction x seen as res rule: alias_loop.induct) (auto split: if_splits)

text \<open>What a successful installation leaves on disk.\<close>

lemma install_files:
  assumes inst: "nginx_install d i contents s = (None, s')" and calm: "nginx_calm d i (wst_fs s)"
  obtains fs1 m where "dirs_added (wst_fs s) fs1"
    "wst_fs s' = fs1(ngx_include d \<mapsto> File (include_text d) m, nginx_config_path d i \<mapsto> File contents 0x1A4,
       nginx_link_path d i \<mapsto> Symlink (nginx_link_target i))"
  using calm inst
proof (cases rule: install_calm)
  case (applied fs1 s2 rb)
  then have "wst_fs s' = wst_fs s2"
    using apply_config_runs [OF applied(5,4) nginx.test_reload] by (metis option.distinct(1))
  then show thesis
    using applied(1,3) that by metis
qed simp

lemma install_served:
  assumes inst: "nginx_install d i contents s = (None, s')" and i: "nginx_site_id i" and calm: "nginx_calm d i (wst_fs s)"
  shows "served d (wst_fs s') i = Some contents"
proof -
  have "distinct [nginx_config_path d i, nginx_link_path d i, ngx_include d]"
    using calm by (simp add: nginx_calm_def)
  moreover obtain fs1 m where "wst_fs s' = fs1(ngx_include d \<mapsto> File (include_text d) m, nginx_config_path d i \<mapsto> File contents 0x1A4,
       nginx_link_path d i \<mapsto> Symlink (nginx_link_target i))"
    using install_files [OF inst calm] by metis
  ultimately show ?thesis
    using i by (simp add: served_def) auto
qed

lemma Ensure_site:
  assumes ensure: "nginx_Ensure d v s = (None, s')" and paths: "\<forall>p \<in> {wsi_root v, wsi_socket v, wsi_cert v, wsi_key v}. CHR 0x5C \<notin> set p"
  defines "w \<equiv> v\<lparr>wsi_aliases := sort (wsi_aliases v)\<rparr>"
  shows "idPattern (wsi_id v)" "nginx_install d (wsi_id v) (nginx_render w) s = (None, s')" "reads_config (nginx_render w) (site_tree w)"
    "path_Clean (wsi_root v) = wsi_root v"
proof -
  show i: "idPattern (wsi_id v)" and clean: "path_Clean (wsi_root v) = wsi_root v"
    using ensure by (auto simp: nginx_Ensure_def validate_ID_def validPath_def andthen_def split: sum.splits if_splits)
  have names: "validate_DomainAliases (ngx_ext d) (wsi_name v) (wsi_aliases v) = Inr (sort (wsi_aliases v))"
    and p: "validPath ''root'' (wsi_root v) = Inr ()" "validPath ''phpSocket'' (wsi_socket v) = Inr ()"
      "wsi_cert v \<noteq> [] \<Longrightarrow> validPath ''certificate'' (wsi_cert v) = Inr () \<and> validPath ''key'' (wsi_key v) = Inr ()"
    and inst: "nginx_install d (wsi_id v) (nginx_render w) s = (None, s')"
    using ensure by (auto simp: nginx_Ensure_def validate_ID_def andthen_def w_def dest: DomainAliases_Inr split: sum.splits if_splits)
  show "nginx_install d (wsi_id v) (nginx_render w) s = (None, s')"
    by (rule inst)
  have "\<forall>a \<in> set (wsi_name v # wsi_aliases v). validate_Domain (ngx_ext d) a = Inr a"
    using names by (auto simp: validate_DomainAliases_def dest: alias_loop_valid split: if_splits)
  then have "\<forall>a \<in> set (wsi_name w # wsi_aliases w). raw_word a"
    using domain_raw by (auto simp: w_def)
  moreover have "raw_word (wsi_root w)" "list_all raw_char (wsi_socket w)" "list_all raw_char (wsi_id w)"
    "wsi_cert w \<noteq> [] \<Longrightarrow> raw_word (wsi_cert w) \<and> raw_word (wsi_key w)"
    using p paths path_raw id_raw [OF i] by (auto simp: raw_word_def w_def)
  ultimately show "reads_config (nginx_render w) (site_tree w)"
    by (rule site_reads)
qed

text \<open>C12: a site is served as it was asked for.  After a successful installation, nginx reads the
  file of the site as exactly the server blocks meant for it: the names, the document root, the
  socket, the certificate and the log files stand where they belong, each as one word, and no value
  adds, ends or changes a directive (backslashes in paths apart, which the check lets through).\<close>

theorem installed_site_reads_back:
  assumes ensure: "nginx_Ensure d v s = (None, s')" and calm: "nginx_calm d (wsi_id v) (wst_fs s)"
    and paths: "\<forall>p \<in> {wsi_root v, wsi_socket v, wsi_cert v, wsi_key v}. CHR 0x5C \<notin> set p"
  shows "\<exists>c. served d (wst_fs s') (wsi_id v) = Some c \<and> reads_config c (site_tree (v\<lparr>wsi_aliases := sort (wsi_aliases v)\<rparr>))"
proof -
  note e = Ensure_site [OF ensure paths]
  have "served d (wst_fs s') (wsi_id v) = Some (nginx_render (v\<lparr>wsi_aliases := sort (wsi_aliases v)\<rparr>))"
    using install_served [OF e(2) _ calm] e(1) by (simp add: nginx_site_id_def)
  then show ?thesis
    using e(3) by blast
qed

text \<open>Nothing stands in the way of an installation: then it succeeds.\<close>

definition nginx_ready :: "nginx_driver \<Rightarrow> string \<Rightarrow> fs \<Rightarrow> bool" where
  "nginx_ready d i fs \<longleftrightarrow>
     (\<forall>p \<in> {ngx_available d, ngx_enabled d, path_Dir (ngx_include d)}.
        (fs p = None \<or> fs p = Some Directory) \<and> p \<notin> nginx_paths d i) \<and>
     (fs (ngx_include d) = None \<or> (\<exists>m. fs (ngx_include d) = Some (File (include_text d) m))) \<and>
     (fs (nginx_config_path d i) = None \<or> (\<exists>c m. fs (nginx_config_path d i) = Some (File c m))) \<and>
     (fs (nginx_link_path d i) = None \<or> fs (nginx_link_path d i) = Some (Symlink (nginx_link_target i)))"

lemma EnsureDir_calm:
  "calm io \<Longrightarrow> fs p = None \<or> fs p = Some Directory \<Longrightarrow> configfile_EnsureDir io p fs = (None, fs(p \<mapsto> Directory))"
  by (auto simp: configfile_EnsureDir_def Let_def fun_upd_idem)

lemma Take_calm:
  "calm io \<Longrightarrow> fs p = None \<or> (\<exists>c m. fs p = Some (File c m)) \<Longrightarrow> \<exists>q. configfile_Take io p fs = Inr q"
  by (auto simp: configfile_Take_def)

lemma install_succeeds:
  assumes calm: "nginx_calm d i (wst_fs s)" and ready: "nginx_ready d i (wst_fs s)" and run: "\<forall>n args g. ngx_run d n args g = None"
  shows "fst (nginx_install d i contents s) = None"
proof -
  let ?inc = "ngx_include d" and ?cfg = "nginx_config_path d i" and ?link = "nginx_link_path d i" and ?fs = "wst_fs s"
  let ?fs1 = "?fs(ngx_available d \<mapsto> Directory, ngx_enabled d \<mapsto> Directory, path_Dir ?inc \<mapsto> Directory)"
  have io: "calm (ngx_io d k)" for k
    using calm by (simp add: nginx_calm_def)
  have dirs: "ensure_dirs (ngx_io d) [(0, ngx_available d), (1, ngx_enabled d), (2, path_Dir ?inc)] s = (None, s\<lparr>wst_fs := ?fs1\<rparr>)"
    using ready io by (simp add: ensure_dirs_def on_fs_def EnsureDir_calm nginx_ready_def)
  have same: "?fs1 p = ?fs p" if "p \<in> nginx_paths d i" for p
    using ready that by (auto simp: nginx_ready_def)
  have t1: "?fs1 (ngx_tmp d k) = None" "ngx_tmp d k \<noteq> ?inc" "ngx_tmp d k \<noteq> ?cfg" for k
    using calm by (auto simp: nginx_calm_def nginx_paths_def)
  have ne: "?cfg \<noteq> ?link" "?cfg \<noteq> ?inc" "?link \<noteq> ?inc"
    using calm by (auto simp: nginx_calm_def)
  have p1: "?fs1 ?inc = ?fs ?inc" "?fs1 ?cfg = ?fs ?cfg" "?fs1 ?link = ?fs ?link"
    using same by (simp_all add: nginx_paths_def)
  obtain created fs2 where inc: "ensureInclude d ?fs1 = (Inr created, fs2)" and fs2: "\<forall>p. p \<noteq> ?inc \<longrightarrow> fs2 p = ?fs1 p"
  proof (cases "?fs ?inc")
    case None
    then show thesis
      using that [of True "?fs1(?inc \<mapsto> File (include_text d) 0x1A4)"] p1(1) Write_calm [where fs = ?fs1 and tmp = "ngx_tmp d 4" and path = ?inc, OF io t1(1,2)]
      by (simp add: ensureInclude_def configfile_Take_def)
  next
    case (Some f)
    then obtain m where "?fs1 ?inc = Some (File (include_text d) m)"
      using ready p1(1) by (auto simp: nginx_ready_def)
    then show thesis
      using that [of False ?fs1] io by (simp add: ensureInclude_def configfile_Take_def)
  qed
  have f2: "fs2 ?cfg = ?fs ?cfg" "fs2 ?link = ?fs ?link" "fs2 (ngx_tmp d 5) = None"
    using fs2 p1 ne t1 by auto
  then obtain q where take: "configfile_Take (ngx_io d 5) ?cfg fs2 = Inr q"
    using Take_calm [OF io] ready by (metis nginx_ready_def)
  have w: "configfile_Write (ngx_io d 5) (ngx_tmp d 5) ?cfg contents 0x1A4 fs2 = (None, fs2(?cfg \<mapsto> File contents 0x1A4))"
    using f2 ready t1(3) io by (intro Write_calm) (auto simp: nginx_ready_def)
  obtain linked fs3 where link: "ensureLink (ngx_io d 6) ?link (nginx_link_target i) (fs2(?cfg \<mapsto> File contents 0x1A4)) = (Inr linked, fs3)"
    using ready f2(2) ne io by (auto simp: ensureLink_def inspectLink_def nginx_ready_def)
  show ?thesis
    unfolding nginx_install_def dirs onto_simps
    by (simp add: inc take w link apply_config_def run_command_def Let_def run)
qed

section \<open>Examples\<close>

text \<open>The driver as \<open>New\<close> makes it, on a host without files.\<close>

definition sample_nginx :: nginx_driver where
  "sample_nginx = \<lparr>ngx_ext = plain_ext, ngx_available = ''/etc/nginx/webycp/sites-available'',
     ngx_enabled = ''/etc/nginx/webycp/sites-enabled'', ngx_include = ''/etc/nginx/conf.d/webycp.conf'',
     ngx_run = \<lambda>_ _ _. None,
     ngx_io = \<lambda>_ _. None, ngx_tmp = \<lambda>_. ''/etc/.webycp-1''\<rparr>"

definition sample_web_site :: web_site where
  "sample_web_site = \<lparr>wsi_id = replicate 32 CHR ''a'', wsi_name = ''a.example'', wsi_aliases = [''b.example''],
     wsi_root = ''/home/u/web/a/public_html'', wsi_socket = ''/run/php/a.sock'', wsi_cert = [], wsi_key = [], wsi_redirect = False\<rparr>"

definition sample_host :: web_state where
  "sample_host = \<lparr>wst_fs = Map.empty, wst_runs = []\<rparr>"

lemma sample_places:
  "nginx_config_path sample_nginx (replicate 32 CHR ''a'') = ''/etc/nginx/webycp/sites-available/aaaaaaaaaaaaaaaaaaaaaaaaaaaaaaaa.conf''"
  "nginx_link_path sample_nginx (replicate 32 CHR ''a'') = ''/etc/nginx/webycp/sites-enabled/aaaaaaaaaaaaaaaaaaaaaaaaaaaaaaaa.conf''"
  "path_Dir (ngx_include sample_nginx) = ''/etc/nginx/conf.d''"
  "path_parts (ngx_available sample_nginx) \<noteq> path_parts (ngx_enabled sample_nginx)"
  by code_simp+

lemma sample_nginx_calm: "nginx_calm sample_nginx (replicate 32 CHR ''a'') Map.empty"
  using sample_places by (simp add: nginx_calm_def nginx_paths_def sample_nginx_def calm_def is_rooted_def)

lemma sample_site_domains:
  "validate_Domain plain_ext ''a.example'' = Inr ''a.example''"
  "validate_Domain plain_ext ''b.example'' = Inr ''b.example''"
proof -
  have "ParseIP ''a.example'' = None" "ParseIP ''b.example'' = None"
    by code_simp+
  then show "validate_Domain plain_ext ''a.example'' = Inr ''a.example''"
    "validate_Domain plain_ext ''b.example'' = Inr ''b.example''"
    by (simp_all add: validate_Domain_def Let_def ascii_eval TrimSuffix_def HasSuffix_def plain_ext_def
        domain_label_def runes_ascii domain_rune_def)
qed

lemma sample_checks:
  "validate_ID ''websiteId'' (wsi_id sample_web_site) = Inr ()"
  "validate_DomainAliases plain_ext (wsi_name sample_web_site) (wsi_aliases sample_web_site) = Inr [''b.example'']"
  "validPath ''root'' (wsi_root sample_web_site) = Inr ()" "validPath ''phpSocket'' (wsi_socket sample_web_site) = Inr ()"
proof -
  have "path_Clean ''/home/u/web/a/public_html'' = ''/home/u/web/a/public_html''" "path_Clean ''/run/php/a.sock'' = ''/run/php/a.sock''"
    by code_simp+
  then show "validPath ''root'' (wsi_root sample_web_site) = Inr ()" "validPath ''phpSocket'' (wsi_socket sample_web_site) = Inr ()"
    by (simp_all add: validPath_def sample_web_site_def is_rooted_def ContainsAny_def)
  show "validate_DomainAliases plain_ext (wsi_name sample_web_site) (wsi_aliases sample_web_site) = Inr [''b.example'']"
    using sample_site_domains by (simp add: validate_DomainAliases_def sample_web_site_def MaxDomainAliases_def)
qed (simp add: validate_ID_def idPattern_def sample_web_site_def list_all_iff is_hex_lower_def is_digit_def bytes_between_def byte_def)

lemma sample_nginx_ready: "nginx_ready sample_nginx (replicate 32 CHR ''a'') Map.empty"
  using sample_places by (simp add: nginx_ready_def nginx_paths_def sample_nginx_def)

lemma sample_ensured: obtains s' where "nginx_Ensure sample_nginx sample_web_site sample_host = (None, s')"
proof -
  have i: "wsi_id sample_web_site = replicate 32 CHR ''a''" "wsi_cert sample_web_site = []" "ngx_ext sample_nginx = plain_ext"
    by (simp_all add: sample_web_site_def sample_nginx_def)
  have "fst (nginx_install sample_nginx (replicate 32 CHR ''a'') c sample_host) = None" for c
    using sample_nginx_calm sample_nginx_ready by (intro install_succeeds) (simp_all add: sample_host_def sample_nginx_def)
  then have "fst (nginx_Ensure sample_nginx sample_web_site sample_host) = None"
    using sample_checks by (simp add: nginx_Ensure_def i)
  then show thesis
    using that by (metis prod.collapse)
qed

theorem installed_site_reads_back_witness:
  "\<exists>s' c. nginx_Ensure sample_nginx sample_web_site sample_host = (None, s') \<and>
     served sample_nginx (wst_fs s') (replicate 32 CHR ''a'') = Some c \<and>
     reads_config c (site_tree (sample_web_site\<lparr>wsi_aliases := [''b.example'']\<rparr>))"
proof -
  obtain s' where s': "nginx_Ensure sample_nginx sample_web_site sample_host = (None, s')"
    by (rule sample_ensured)
  have "nginx_calm sample_nginx (wsi_id sample_web_site) (wst_fs sample_host)"
    using sample_nginx_calm by (simp add: sample_web_site_def sample_host_def)
  then obtain c where c: "served sample_nginx (wst_fs s') (wsi_id sample_web_site) = Some c"
    "reads_config c (site_tree (sample_web_site\<lparr>wsi_aliases := sort (wsi_aliases sample_web_site)\<rparr>))"
    using installed_site_reads_back [OF s'] by (auto simp: sample_web_site_def)
  have "wsi_id sample_web_site = replicate 32 CHR ''a''"
    by (simp add: sample_web_site_def)
  then show ?thesis
    using c s' DomainAliases_Inr [OF sample_checks(2)] by (intro exI [of _ s'] exI [of _ c]) simp
qed

theorem nginx_runs_its_files_witness:
  "\<exists>s'. nginx_exec sample_nginx (SiteEnsure sample_web_site) sample_host = (None, s') \<and>
     in_step (served sample_nginx) nginx_reload Map.empty s' \<and>
     served sample_nginx (wst_fs s') (replicate 32 CHR ''a'') \<noteq> None"
proof -
  obtain s' where s': "nginx_exec sample_nginx (SiteEnsure sample_web_site) sample_host = (None, s')"
    using sample_ensured by auto
  have "nginx_calm sample_nginx (nginx_op_id (SiteEnsure sample_web_site)) (wst_fs sample_host)"
    using sample_nginx_calm by (simp add: sample_web_site_def sample_host_def)
  from nginx_runs_its_files [OF s' this, of Map.empty] s' show ?thesis
    by (auto simp: sample_host_def in_step_def sample_web_site_def)
qed

end
