(* ===== verification/PhpFpm.thy ===== *)
theory PhpFpm
  imports Reload
begin

text \<open>
  The PHP runtime driver of the agent, \<open>internal/agent/runtime/phpfpm/phpfpm.go\<close>: one PHP-FPM
  pool per account, written, tested and reloaded as one transaction.
\<close>

section \<open>The driver\<close>

record runtime_account =
  rta_id :: ident
  rta_user :: string
  rta_home :: string
  rta_version :: string

record fpm_driver =
  fpm_pools :: string
  fpm_run_dir :: string
  fpm_run :: commands
  fpm_io :: "nat \<Rightarrow> io"
  fpm_tmp :: "nat \<Rightarrow> string"

definition fpm_Version :: string where "fpm_Version = ''8.3''"

definition fpm_test :: "string list" where "fpm_test = [''/usr/sbin/php-fpm8.3'', ''-t'']"

definition fpm_reload :: "string list" where "fpm_reload = [''/usr/bin/systemctl'', ''reload'', ''php8.3-fpm'']"

definition WebGroup :: string where "WebGroup = ''www-data''"

definition fpm_pool_path :: "fpm_driver \<Rightarrow> ident \<Rightarrow> string" where
  "fpm_pool_path d a = path_Join [fpm_pools d, ''webycp-'' @ a @ ''.conf'']"

definition fpm_socket :: "fpm_driver \<Rightarrow> ident \<Rightarrow> string" where
  "fpm_socket d a = path_Join [fpm_run_dir d, ''webycp-'' @ fpm_Version @ ''-'' @ a @ ''.sock'']"

definition validHome :: "string \<Rightarrow> string \<Rightarrow> err + unit" where
  "validHome path su =
     fail_when (\<not> is_rooted path \<or> path_Clean path \<noteq> path \<or> path_Base path \<noteq> su \<or>
         ContainsAny path ('' '' @ [CHR 0x09, CHR 0x0D, CHR 0x0A] @ '';{}[]''))
       (ValidationErr ''home'' ''Account home is invalid'')"

definition pool_lines :: "runtime_account \<Rightarrow> string \<Rightarrow> string list" where
  "pool_lines a socket =
     [''[webycp-'' @ fpm_Version @ ''-'' @ rta_id a @ '']'',
      ''user = '' @ rta_user a,
      ''group = '' @ rta_user a,
      [],
      ''listen = '' @ socket,
      ''listen.owner = '' @ WebGroup,
      ''listen.group = '' @ WebGroup,
      ''listen.mode = 0660'',
      [],
      ''pm = ondemand'',
      ''pm.max_children = 5'',
      ''pm.process_idle_timeout = 10s'',
      ''pm.max_requests = 500'',
      [],
      ''chdir = '' @ rta_home a,
      ''clear_env = yes'',
      ''catch_workers_output = yes'',
      ''security.limit_extensions = .php'',
      [],
      ''php_admin_flag[log_errors] = on'',
      ''php_admin_value[error_log] = '' @ rta_home a @ ''/logs/php-error.log'',
      ''php_admin_value[open_basedir] = '' @ rta_home a @ '':/usr/share/php'',
      ''php_admin_value[upload_tmp_dir] = '' @ rta_home a @ ''/tmp'',
      ''php_admin_value[session.save_path] = '' @ rta_home a @ ''/tmp'']"

definition fpm_render :: "runtime_account \<Rightarrow> string \<Rightarrow> string" where
  "fpm_render a socket = concat (map (\<lambda>l. l @ [CHR 0x0A]) (pool_lines a socket))"

definition fpm_rollback :: "fpm_driver \<Rightarrow> snapshot \<Rightarrow> web_state step" where
  "fpm_rollback d previous = on_fs (configfile_Restore (fpm_io d 4) (fpm_tmp d 4) previous)"

definition fpm_Ensure :: "fpm_driver \<Rightarrow> runtime_account \<Rightarrow> web_state \<Rightarrow> (err + string) \<times> web_state" where
  "fpm_Ensure d a s0 =
     (case andthen (hostuser_ValidateNames (rta_id a) (rta_user a)) (\<lambda>_.
           andthen (fail_when (rta_version a \<noteq> fpm_Version) (ValidationErr ''phpVersion'' ''Unsupported PHP version'')) (\<lambda>_.
           validHome (rta_home a) (rta_user a))) of
        Inl e \<Rightarrow> (Inl e, s0)
      | Inr _ \<Rightarrow>
          let socket = fpm_socket d (rta_id a); path = fpm_pool_path d (rta_id a);
              (e, s') =
                onto (ensure_dirs (fpm_io d) [(0, fpm_pools d), (1, fpm_run_dir d)] s0) (\<lambda>s.
                case configfile_Take (fpm_io d 2) path (wst_fs s) of
                  Inl e \<Rightarrow> (Some e, s)
                | Inr previous \<Rightarrow>
                    onto (on_fs (configfile_Write (fpm_io d 3) (fpm_tmp d 3) path (fpm_render a socket) 0x1A4) s)
                      (apply_config (fpm_run d) fpm_test fpm_reload ''PHP-FPM'' (fpm_rollback d previous))) in
          (case e of Some err \<Rightarrow> Inl err | None \<Rightarrow> Inr socket, s'))"

definition fpm_Delete :: "fpm_driver \<Rightarrow> ident \<Rightarrow> web_state step" where
  "fpm_Delete d a s =
     (case validate_ID ''accountId'' a of
        Inl e \<Rightarrow> (Some e, s)
      | Inr _ \<Rightarrow>
          let path = fpm_pool_path d a in
          (case configfile_Take (fpm_io d 2) path (wst_fs s) of
             Inl e \<Rightarrow> (Some e, s)
           | Inr previous \<Rightarrow>
               if \<not> snp_exists previous then (None, s)
               else case on_fs (os_Remove (fpm_io d 3) path) s of
                 (Some e, s1) \<Rightarrow> (Some (Wrapped ''remove PHP-FPM pool'' e), s1)
               | (None, s1) \<Rightarrow> apply_config (fpm_run d) fpm_test fpm_reload ''PHP-FPM'' (fpm_rollback d previous) s1))"

section \<open>Reading a pool\<close>

text \<open>A pool file is lines: a section in brackets, or a key and a value around \<open>=\<close>.\<close>

datatype pool_line = Section string | Entry string string

definition pool_line_of :: "string \<Rightarrow> pool_line" where
  "pool_line_of l =
     (if take 1 l = ''['' then Section l
      else let k = takeWhile (\<lambda>c. c \<noteq> CHR ''='') l in Entry (butlast k) (drop (length k + 2) l))"

definition read_pool :: "string \<Rightarrow> pool_line list" where
  "read_pool text = map pool_line_of (filter (\<lambda>l. l \<noteq> []) (Split text (CHR 0x0A)))"

definition pool_meant :: "runtime_account \<Rightarrow> string \<Rightarrow> pool_line list" where
  "pool_meant a socket =
     [Section (''[webycp-8.3-'' @ rta_id a @ '']''), Entry ''user'' (rta_user a), Entry ''group'' (rta_user a),
      Entry ''listen'' socket, Entry ''listen.owner'' ''www-data'', Entry ''listen.group'' ''www-data'', Entry ''listen.mode'' ''0660'',
      Entry ''pm'' ''ondemand'', Entry ''pm.max_children'' ''5'', Entry ''pm.process_idle_timeout'' ''10s'',
      Entry ''pm.max_requests'' ''500'', Entry ''chdir'' (rta_home a), Entry ''clear_env'' ''yes'',
      Entry ''catch_workers_output'' ''yes'', Entry ''security.limit_extensions'' ''.php'',
      Entry ''php_admin_flag[log_errors]'' ''on'',
      Entry ''php_admin_value[error_log]'' (rta_home a @ ''/logs/php-error.log''),
      Entry ''php_admin_value[open_basedir]'' (rta_home a @ '':/usr/share/php''),
      Entry ''php_admin_value[upload_tmp_dir]'' (rta_home a @ ''/tmp''),
      Entry ''php_admin_value[session.save_path]'' (rta_home a @ ''/tmp'')]"

lemma Split_text: "\<forall>l \<in> set ls. c \<notin> set l \<Longrightarrow> Split (concat (map (\<lambda>l. l @ [c]) ls)) c = ls @ [[]]"
  by (induction ls) (simp_all add: Split_append)

lemma pool_reads:
  assumes "CHR 0x0A \<notin> set (rta_id a)" "CHR 0x0A \<notin> set (rta_user a)" "CHR 0x0A \<notin> set (rta_home a)" "CHR 0x0A \<notin> set socket"
  shows "read_pool (fpm_render a socket) = pool_meant a socket"
proof -
  have "\<forall>l \<in> set (pool_lines a socket). CHR 0x0A \<notin> set l"
    using assms by (simp add: pool_lines_def fpm_Version_def WebGroup_def)
  from Split_text [OF this] show ?thesis
    by (simp add: read_pool_def fpm_render_def) (simp add: pool_lines_def fpm_Version_def WebGroup_def pool_line_of_def pool_meant_def)
qed

section \<open>Transactions\<close>

text \<open>The pool PHP-FPM runs for an account is its file in the pool directory.\<close>

definition pool_of :: "fpm_driver \<Rightarrow> fs \<Rightarrow> ident \<Rightarrow> string option" where
  "pool_of d fs a = (case fs (fpm_pool_path d a) of Some (File c _) \<Rightarrow> Some c | _ \<Rightarrow> None)"

definition fpm_calm :: "fpm_driver \<Rightarrow> ident \<Rightarrow> fs \<Rightarrow> bool" where
  "fpm_calm d a fs \<longleftrightarrow> (\<forall>k. calm (fpm_io d k)) \<and>
     (\<forall>k. fs (fpm_tmp d k) = None \<and> fpm_tmp d k \<notin> {fpm_pool_path d a, fpm_pools d, fpm_run_dir d})"

lemma pool_dirs: "dirs_added fs fs' \<Longrightarrow> pool_of d fs' = pool_of d fs"
proof
  fix a
  assume "dirs_added fs fs'"
  then have "fs' p = fs p \<or> (fs p = None \<and> fs' p = Some Directory)" for p
    by (simp add: dirs_added_def)
  from this [of "fpm_pool_path d a"] show "pool_of d fs' a = pool_of d fs a"
    by (auto simp: pool_of_def)
qed

interpretation fpm: reloaded_service "pool_of d" fpm_test fpm_reload "''PHP-FPM''" for d
  by unfold_locales (simp_all add: pool_dirs fpm_test_def fpm_reload_def)

lemma fpm_rollback_files: "files_only (fpm_rollback d p)"
  by (simp add: files_only_def fpm_rollback_def)

lemma fpm_rollback_calm:
  assumes "fpm_calm d a fs0" "configfile_Take io (fpm_pool_path d a) fs1 = Inr p" "fs1 (fpm_tmp d 4) = None"
    and "wst_fs t = fs1(fpm_pool_path d a := c)" "c \<noteq> Some Directory"
  shows "wst_fs (snd (fpm_rollback d p t)) = fs1"
proof -
  have "calm (fpm_io d 4)" "wst_fs t (fpm_tmp d 4) = None" "fpm_tmp d 4 \<noteq> fpm_pool_path d a" "wst_fs t (fpm_pool_path d a) \<noteq> Some Directory"
    using assms by (auto simp: fpm_calm_def)
  from Restore_calm [where fs' = "wst_fs t", OF this assms(2)] show ?thesis
    by (simp add: fpm_rollback_def assms(4))
qed

datatype fpm_op = PoolEnsure runtime_account | PoolDelete ident

fun fpm_exec :: "fpm_driver \<Rightarrow> fpm_op \<Rightarrow> web_state step" where
  "fpm_exec d (PoolEnsure a) s =
     (case fpm_Ensure d a s of (r, s') \<Rightarrow> (case r of Inl e \<Rightarrow> Some e | Inr socket \<Rightarrow> None, s'))"
| "fpm_exec d (PoolDelete a) s = fpm_Delete d a s"

fun fpm_op_id :: "fpm_op \<Rightarrow> ident" where
  "fpm_op_id (PoolEnsure a) = rta_id a"
| "fpm_op_id (PoolDelete a) = a"

fun fpm_outcome :: "fpm_driver \<Rightarrow> fpm_op \<Rightarrow> string option \<Rightarrow> bool" where
  "fpm_outcome d (PoolEnsure a) c \<longleftrightarrow> (\<exists>t. c = Some t \<and> read_pool t = pool_meant a (fpm_socket d (rta_id a)))"
| "fpm_outcome d (PoolDelete a) c \<longleftrightarrow> c = None"

lemma id_one_line: "idPattern i \<Longrightarrow> CHR 0x0A \<notin> set i"
  by (auto simp: idPattern_def list_all_iff is_hex_lower_def is_digit_def bytes_between_def byte_def)

text \<open>One change of a pool file, from the snapshot on.\<close>

lemma pool_step:
  assumes calm: "fpm_calm d a (wst_fs s)" and sync: "in_step (pool_of d) fpm_reload start s" "orderly fpm_test fpm_reload None (wst_runs s)"
    and before: "dirs_added (wst_fs s) fs1" "fs1 (fpm_tmp d 4) = None" "configfile_Take io (fpm_pool_path d a) fs1 = Inr p"
    and app: "apply_config (fpm_run d) fpm_test fpm_reload ''PHP-FPM'' (fpm_rollback d p) s2 = (err, s')"
    and s2: "wst_fs s2 = fs1(fpm_pool_path d a := c)" "c \<noteq> Some Directory" "wst_runs s2 = wst_runs s"
  shows "in_step (pool_of d) fpm_reload start s' \<and> orderly fpm_test fpm_reload None (wst_runs s') \<and>
    wst_fs s' = (if err = None then fs1(fpm_pool_path d a := c) else fs1)"
proof -
  have "\<forall>t. wst_fs t = wst_fs s2 \<longrightarrow> wst_fs (snd (fpm_rollback d p t)) = fs1"
    using fpm_rollback_calm [OF calm before(3,2) _ s2(2)] s2(1) by auto
  from fpm.apply_step [OF app fpm_rollback_files this before(1) s2(3) sync] show ?thesis
    by (simp add: s2(1))
qed

text \<open>What a successful \<open>Ensure\<close> leaves on disk.\<close>

lemma Ensure_pool:
  assumes ensure: "fpm_Ensure d a s = (Inr socket, s')" and calm: "fpm_calm d (rta_id a) (wst_fs s)"
  obtains fs1 where "socket = fpm_socket d (rta_id a)" "dirs_added (wst_fs s) fs1"
    "\<forall>p. p \<notin> {fpm_pools d, fpm_run_dir d} \<longrightarrow> fs1 p = wst_fs s p"
    "wst_fs s' = fs1(fpm_pool_path d (rta_id a) \<mapsto> File (fpm_render a socket) 0x1A4)"
    "hostuser_ValidateNames (rta_id a) (rta_user a) = Inr ()" "validHome (rta_home a) (rta_user a) = Inr ()"
proof -
  let ?path = "fpm_pool_path d (rta_id a)" and ?text = "fpm_render a (fpm_socket d (rta_id a))"
  have v: "hostuser_ValidateNames (rta_id a) (rta_user a) = Inr ()" "validHome (rta_home a) (rta_user a) = Inr ()"
    "rta_version a = fpm_Version" and socket: "socket = fpm_socket d (rta_id a)"
    using ensure by (auto simp: fpm_Ensure_def Let_def split: sum.splits prod.splits option.splits if_splits)
  obtain e1 s1 where dirs: "ensure_dirs (fpm_io d) [(0, fpm_pools d), (1, fpm_run_dir d)] s = (e1, s1)"
    by (metis prod.exhaust)
  note d1 = ensure_dirs [OF dirs]
  have io: "calm (fpm_io d k)" and tmp: "wst_fs s1 (fpm_tmp d k) = None" "fpm_tmp d k \<noteq> ?path" for k
    using calm d1(3) by (auto simp: fpm_calm_def)
  have body: "onto (e1, s1) (\<lambda>s. case configfile_Take (fpm_io d 2) ?path (wst_fs s) of Inl e \<Rightarrow> (Some e, s)
       | Inr p \<Rightarrow> onto (on_fs (configfile_Write (fpm_io d 3) (fpm_tmp d 3) ?path ?text 0x1A4) s)
           (apply_config (fpm_run d) fpm_test fpm_reload ''PHP-FPM'' (fpm_rollback d p))) = (None, s')"
    using ensure by (auto simp: fpm_Ensure_def Let_def v dirs simp del: One_nat_def split: prod.splits option.splits)
  then have e1: "e1 = None"
    by (cases e1) auto
  then obtain p where take: "configfile_Take (fpm_io d 2) ?path (wst_fs s1) = Inr p"
    using body by (cases "configfile_Take (fpm_io d 2) ?path (wst_fs s1)") auto
  have "wst_fs s1 ?path \<noteq> Some Directory"
    using Take_Inr [OF take] by (auto split: if_splits)
  from Write_calm [where path = ?path, OF io tmp this]
  have app: "apply_config (fpm_run d) fpm_test fpm_reload ''PHP-FPM'' (fpm_rollback d p) (s1\<lparr>wst_fs := (wst_fs s1)(?path \<mapsto> File ?text 0x1A4)\<rparr>) = (None, s')"
    using body by (simp add: on_fs_def e1 take)
  then have "wst_fs s' = (wst_fs s1)(?path \<mapsto> File ?text 0x1A4)"
    using apply_config_runs [OF fpm_rollback_files app fpm.test_reload] by (auto dest: sym)
  then show thesis
    using that [of "wst_fs s1"] socket d1(1,3) v by simp
qed

text \<open>C18: PHP-FPM runs the pools its files describe.  As long as file operations succeed, after every
  operation, and however its test and reload commands end, the running pools are those of the files,
  and nothing was loaded that was not tested directly before; a failing operation leaves the files
  as they were; a successful one leaves no pool, or a pool that reads as exactly the entries meant
  for the account: its user and group, its socket, and an \<open>open_basedir\<close> of its home directory and
  \<open>/usr/share/php\<close>.\<close>

theorem pools_match_files:
  assumes exec: "fpm_exec d op s = (err, s')" and calm: "fpm_calm d (fpm_op_id op) (wst_fs s)"
    and sync: "in_step (pool_of d) fpm_reload start s" "orderly fpm_test fpm_reload None (wst_runs s)"
    and socket: "CHR 0x0A \<notin> set (fpm_socket d (fpm_op_id op))"
  shows "in_step (pool_of d) fpm_reload start s' \<and> orderly fpm_test fpm_reload None (wst_runs s') \<and>
    (err \<noteq> None \<longrightarrow> dirs_added (wst_fs s) (wst_fs s')) \<and>
    (err = None \<longrightarrow> fpm_outcome d op (pool_of d (wst_fs s') (fpm_op_id op)))"
proof (cases op)
  case (PoolEnsure a)
  let ?path = "fpm_pool_path d (rta_id a)" and ?text = "fpm_render a (fpm_socket d (rta_id a))"
  show ?thesis
  proof (cases "andthen (hostuser_ValidateNames (rta_id a) (rta_user a)) (\<lambda>_.
      andthen (fail_when (rta_version a \<noteq> fpm_Version) (ValidationErr ''phpVersion'' ''Unsupported PHP version'')) (\<lambda>_.
      validHome (rta_home a) (rta_user a)))")
    case (Inl e)
    then show ?thesis
      using exec sync PoolEnsure by (auto simp: fpm_Ensure_def)
  next
    case (Inr u)
    then have names: "idPattern (rta_id a)" "CHR 0x0A \<notin> set (rta_home a)"
      by (auto simp: hostuser_ValidateNames_def validate_ID_def validate_SystemUser_def validHome_def ContainsAny_def list_ex_iff)
    have "rta_user a = ''wcp_'' @ take 12 (rta_id a)"
      using Inr by (auto simp: hostuser_ValidateNames_def)
    then have "CHR 0x0A \<notin> set (rta_user a)" "CHR 0x0A \<notin> set (rta_id a)"
      using id_one_line [OF names(1)] by (auto dest: in_set_takeD)
    then have reads: "read_pool ?text = pool_meant a (fpm_socket d (rta_id a))"
      using names socket PoolEnsure by (intro pool_reads) simp_all
    obtain e1 s1 where dirs: "ensure_dirs (fpm_io d) [(0, fpm_pools d), (1, fpm_run_dir d)] s = (e1, s1)"
      by (metis prod.exhaust)
    note d1 = ensure_dirs [OF dirs]
    have io: "calm (fpm_io d k)" and tmp: "wst_fs s1 (fpm_tmp d k) = None" "fpm_tmp d k \<noteq> ?path" for k
      using calm d1(3) PoolEnsure by (auto simp: fpm_calm_def)
    have "fpm_exec d (PoolEnsure a) s = onto (ensure_dirs (fpm_io d) [(0, fpm_pools d), (1, fpm_run_dir d)] s)
        (\<lambda>s. case configfile_Take (fpm_io d 2) ?path (wst_fs s) of Inl e \<Rightarrow> (Some e, s)
         | Inr p \<Rightarrow> onto (on_fs (configfile_Write (fpm_io d 3) (fpm_tmp d 3) ?path ?text 0x1A4) s)
             (apply_config (fpm_run d) fpm_test fpm_reload ''PHP-FPM'' (fpm_rollback d p)))"
      unfolding fpm_exec.simps fpm_Ensure_def Inr sum.case Let_def by (simp split: prod.splits option.splits del: One_nat_def)
    then have split: "fpm_exec d (PoolEnsure a) s = (case e1 of Some e \<Rightarrow> (Some e, s1) | None \<Rightarrow>
        (case configfile_Take (fpm_io d 2) ?path (wst_fs s1) of Inl e \<Rightarrow> (Some e, s1)
         | Inr p \<Rightarrow> onto (on_fs (configfile_Write (fpm_io d 3) (fpm_tmp d 3) ?path ?text 0x1A4) s1)
             (apply_config (fpm_run d) fpm_test fpm_reload ''PHP-FPM'' (fpm_rollback d p))))"
      unfolding dirs by (cases e1) simp_all
    show ?thesis
    proof (cases "e1 = None \<and> (\<exists>p. configfile_Take (fpm_io d 2) ?path (wst_fs s1) = Inr p)")
      case False
      then have "err \<noteq> None \<and> s' = s1"
        using exec split PoolEnsure by (auto split: option.splits sum.splits)
      then show ?thesis
        using fpm.dirs_step [OF sync d1(2,1)] d1(1) by blast
    next
      case True
      then obtain p where take: "configfile_Take (fpm_io d 2) ?path (wst_fs s1) = Inr p"
        by blast
      let ?c = "Some (File ?text 0x1A4)"
      have "wst_fs s1 ?path \<noteq> Some Directory"
        using Take_Inr [OF take] by (auto split: if_splits)
      from Write_calm [where path = ?path, OF io tmp this]
      have "apply_config (fpm_run d) fpm_test fpm_reload ''PHP-FPM'' (fpm_rollback d p) (s1\<lparr>wst_fs := (wst_fs s1)(?path := ?c)\<rparr>) = (err, s')"
        using exec split PoolEnsure True take by (simp add: on_fs_def)
      from pool_step [where s = s, OF _ sync d1(1) tmp(1) take this, of ?c] d1(1,2) calm PoolEnsure reads show ?thesis
        by (auto simp: pool_of_def)
    qed
  qed
next
  case (PoolDelete a)
  let ?path = "fpm_pool_path d a"
  have io: "calm (fpm_io d k)" and tmp: "wst_fs s (fpm_tmp d k) = None" "fpm_tmp d k \<noteq> ?path" for k
    using calm PoolDelete by (auto simp: fpm_calm_def)
  show ?thesis
  proof (cases "idPattern a \<and> (\<exists>p. configfile_Take (fpm_io d 2) ?path (wst_fs s) = Inr p)")
    case False
    then show ?thesis
      using exec sync PoolDelete by (auto simp: fpm_Delete_def validate_ID_def fail_when_def Let_def split: sum.splits)
  next
    case True
    then obtain p where take: "configfile_Take (fpm_io d 2) ?path (wst_fs s) = Inr p"
      by blast
    note p = Take_Inr [OF take]
    show ?thesis
    proof (cases "snp_exists p")
      case gone: False
      then show ?thesis
        using exec sync PoolDelete True take p
        by (auto simp: fpm_Delete_def validate_ID_def fail_when_def Let_def pool_of_def)
    next
      case there: True
      then have "apply_config (fpm_run d) fpm_test fpm_reload ''PHP-FPM'' (fpm_rollback d p) (s\<lparr>wst_fs := (wst_fs s)(?path := None)\<rparr>) = (err, s')"
        using exec PoolDelete True take p io by (simp add: fpm_Delete_def validate_ID_def fail_when_def Let_def on_fs_def Remove_calm)
      from pool_step [where s = s, OF _ sync dirs_added_refl tmp(1) take this, of None] calm PoolDelete show ?thesis
        by (auto simp: pool_of_def)
    qed
  qed
qed

section \<open>Examples\<close>

text \<open>A host with one pool, where the first reload fails.\<close>

definition sample_fpm :: fpm_driver where
  "sample_fpm = \<lparr>fpm_pools = ''/etc/php/8.3/fpm/pool.d'', fpm_run_dir = ''/run/php'',
     fpm_run = \<lambda>n args fs. if n = 1 then Some (Plain ''failed'') else None,
     fpm_io = \<lambda>_ _. None, fpm_tmp = \<lambda>_. ''/etc/php/8.3/fpm/pool.d/.webycp-1''\<rparr>"

definition sample_pool_file :: string where
  "sample_pool_file = ''/etc/php/8.3/fpm/pool.d/webycp-aaaaaaaaaaaaaaaaaaaaaaaaaaaaaaaa.conf''"

definition sample_pools :: web_state where
  "sample_pools = \<lparr>wst_fs = [sample_pool_file \<mapsto> File ''old'' 0x1A4], wst_runs = []\<rparr>"

lemma sample_pool_path: "fpm_pool_path sample_fpm (replicate 32 CHR ''a'') = sample_pool_file"
  "CHR 0x0A \<notin> set (fpm_socket sample_fpm (replicate 32 CHR ''a''))"
  by code_simp+

lemma sample_pool_id: "idPattern (replicate 32 CHR ''a'')"
  by (simp add: idPattern_def is_hex_lower_def is_digit_def bytes_between_def byte_def list_all_iff)

lemma sample_pool_calm: "fpm_calm sample_fpm (replicate 32 CHR ''a'') (wst_fs sample_pools)"
  using sample_pool_path(1) by (simp add: fpm_calm_def sample_pools_def sample_pool_file_def) (simp add: sample_fpm_def calm_def)

theorem pools_match_files_witness:
  "\<exists>e s'. fpm_exec sample_fpm (PoolDelete (replicate 32 CHR ''a'')) sample_pools = (Some e, s') \<and> length (wst_runs s') = 4 \<and>
     pool_of sample_fpm (wst_fs s') (replicate 32 CHR ''a'') = Some ''old''"
proof -
  have "\<exists>e s'. fpm_exec sample_fpm (PoolDelete (replicate 32 CHR ''a'')) sample_pools = (Some e, s') \<and> length (wst_runs s') = 4"
    using sample_pool_id
    by (simp add: fpm_Delete_def validate_ID_def fail_when_def Let_def sample_pool_path(1) sample_pools_def)
      (simp add: sample_fpm_def configfile_Take_def on_fs_def os_Remove_def apply_config_def run_command_def fpm_rollback_def configfile_Restore_def configfile_Write_def Let_def)
  then obtain e s' where run: "fpm_exec sample_fpm (PoolDelete (replicate 32 CHR ''a'')) sample_pools = (Some e, s')" "length (wst_runs s') = 4"
    by blast
  have "in_step (pool_of sample_fpm) fpm_reload (wst_fs sample_pools) sample_pools" "orderly fpm_test fpm_reload None (wst_runs sample_pools)"
    by (simp_all add: in_step_def sample_pools_def)
  from pools_match_files [OF run(1) _ this] sample_pool_calm sample_pool_path
  have "dirs_added (wst_fs sample_pools) (wst_fs s')"
    by simp
  from pool_dirs [OF this] have "pool_of sample_fpm (wst_fs s') (replicate 32 CHR ''a'') = Some ''old''"
    by (simp add: pool_of_def sample_pool_path(1)) (simp add: sample_pools_def)
  then show ?thesis
    using run by blast
qed

end
