(* ===== verification/HostDirs.thy ===== *)
theory HostDirs
  imports Host Paths "HOL-Library.Sublist"
begin

text \<open>
  Directories of the host reached step by step without following symbolic links,
  \<open>internal/fsx/dir.go\<close>.  An open directory is the list of names that leads to it; the
  tree says what is at every such place.
\<close>

section \<open>The tree\<close>

datatype dnode = DDir nat int int | DFile string | DLink string

type_synonym tree = "string list \<Rightarrow> dnode option"

datatype dir_call = OpenAt "string list" | FchownAt "string list" | FchmodAt "string list"
  | MkdirAt "string list" | RenameAt "string list" "string list"
  | MkdirPath "string list" | ChmodPath "string list" | LstatPath "string list" | RenamePath "string list" "string list"

type_synonym dir_io = "dir_call \<Rightarrow> err option"

definition ENOENT :: err where "ENOENT = Plain ''ENOENT''"

definition fsx_validName :: "string \<Rightarrow> err + unit" where
  "fsx_validName name =
     fail_when (name = [] \<or> name = ''.'' \<or> name = ''..'' \<or> path_Base name \<noteq> name) (Plain ''invalid child directory name'')"

text \<open>The check lets the name \<open>/\<close> through, which \<open>openat\<close> takes for the root.\<close>

definition child_of :: "string list \<Rightarrow> string \<Rightarrow> string list" where
  "child_of d name = (if name = ''/'' then [] else d @ [name])"

text \<open>\<open>O_DIRECTORY\<close> and \<open>O_NOFOLLOW\<close>: only a directory opens.\<close>

definition open_fd :: "dir_io \<Rightarrow> string list \<Rightarrow> tree \<Rightarrow> err + string list" where
  "open_fd io p t =
     (case io (OpenAt p) of
        Some e \<Rightarrow> Inl e
      | None \<Rightarrow>
          (case t p of
             None \<Rightarrow> Inl ENOENT
           | Some (DDir _ _ _) \<Rightarrow> Inr p
           | Some _ \<Rightarrow> Inl (Plain ''ENOTDIR'')))"

definition fsx_OpenDir :: "dir_io \<Rightarrow> string \<Rightarrow> tree \<Rightarrow> err + string list" where
  "fsx_OpenDir io path t = map_err (Wrapped ''open directory'') (open_fd io (path_parts path) t)"

definition fsx_Open :: "dir_io \<Rightarrow> string list \<Rightarrow> string \<Rightarrow> tree \<Rightarrow> err + string list" where
  "fsx_Open io d name t =
     andthen (fsx_validName name) (\<lambda>_. map_err (Wrapped ''open child directory'') (open_fd io (child_of d name) t))"

fun chown_node :: "int \<Rightarrow> int \<Rightarrow> dnode \<Rightarrow> dnode" where
  "chown_node u g (DDir m _ _) = DDir m u g"
| "chown_node u g n = n"

fun chmod_node :: "nat \<Rightarrow> dnode \<Rightarrow> dnode" where
  "chmod_node m (DDir _ u g) = DDir m u g"
| "chmod_node m n = n"

definition fsx_Configure :: "dir_io \<Rightarrow> string list \<Rightarrow> nat \<Rightarrow> int \<Rightarrow> int \<Rightarrow> tree \<Rightarrow> err option \<times> tree" where
  "fsx_Configure io d mode uid gid t =
     (case io (FchownAt d) of
        Some e \<Rightarrow> (Some (Wrapped ''set directory owner'' e), t)
      | None \<Rightarrow>
          let t1 = t(d := map_option (chown_node uid gid) (t d)) in
          (case io (FchmodAt d) of
             Some e \<Rightarrow> (Some (Wrapped ''set directory mode'' e), t1)
           | None \<Rightarrow> (None, t1(d := map_option (chmod_node mode) (t1 d)))))"

definition fsx_Ensure :: "dir_io \<Rightarrow> string list \<Rightarrow> string \<Rightarrow> nat \<Rightarrow> int \<Rightarrow> int \<Rightarrow> tree \<Rightarrow> err option \<times> tree" where
  "fsx_Ensure io d name mode uid gid t =
     (case fsx_validName name of
        Inl e \<Rightarrow> (Some e, t)
      | Inr _ \<Rightarrow>
          (case io (MkdirAt (child_of d name)) of
             Some e \<Rightarrow> (Some (Wrapped ''create child directory'' e), t)
           | None \<Rightarrow>
               let t1 = (if t (child_of d name) = None then t(child_of d name \<mapsto> DDir mode 0 0) else t) in
               (case fsx_Open io d name t1 of
                  Inl e \<Rightarrow> (Some e, t1)
                | Inr child \<Rightarrow>
                    (case fsx_Configure io child mode uid gid t1 of
                       (Some e, t2) \<Rightarrow> (Some (Wrapped ''configure child directory'' e), t2)
                     | (None, t2) \<Rightarrow> (None, t2)))))"

text \<open>A directory moves with everything below it.\<close>

definition move_tree :: "string list \<Rightarrow> string list \<Rightarrow> tree \<Rightarrow> tree" where
  "move_tree src dst t = (\<lambda>p.
     if take (length dst) p = dst then t (src @ drop (length dst) p)
     else if take (length src) p = src then None
     else t p)"

definition fsx_Rename :: "dir_io \<Rightarrow> string list \<Rightarrow> string \<Rightarrow> string list \<Rightarrow> string \<Rightarrow> tree \<Rightarrow> err option \<times> tree" where
  "fsx_Rename io d name dst dname t =
     (case andthen (fsx_validName name) (\<lambda>_. fsx_validName dname) of
        Inl e \<Rightarrow> (Some e, t)
      | Inr _ \<Rightarrow>
          (case fsx_Open io dst dname t of
             Inr _ \<Rightarrow> (Some (Plain ''target directory already exists''), t)
           | Inl e \<Rightarrow>
               if \<not> error_is e ENOENT then (Some e, t)
               else
                 (case (if t (child_of d name) = None then Some ENOENT else io (RenameAt (child_of d name) (child_of dst dname))) of
                    Some e \<Rightarrow> (Some (Wrapped ''move child directory'' e), t)
                  | None \<Rightarrow> (None, move_tree (child_of d name) (child_of dst dname) t))))"

section \<open>Paths the kernel resolves\<close>

text \<open>
  The calls of the package \<open>os\<close> take whole paths, and the kernel follows the symbolic links in
  them, at most 40.
\<close>

function walk :: "nat \<Rightarrow> tree \<Rightarrow> string list \<Rightarrow> string list \<Rightarrow> string list option" where
  "walk n t cur [] = Some cur"
| "walk n t cur (x # xs) =
     (if x = [] \<or> x = ''.'' then walk n t cur xs
      else if x = ''..'' then walk n t (butlast cur) xs
      else case t (cur @ [x]) of
        Some (DLink targ) \<Rightarrow>
          (case n of
             0 \<Rightarrow> None
           | Suc m \<Rightarrow> walk m t (if is_rooted targ then [] else cur) (Split targ (CHR ''/'') @ xs))
      | _ \<Rightarrow> walk n t (cur @ [x]) xs)"
  by pat_completeness auto
termination
  by (relation "measures [\<lambda>(n, t, cur, xs). n, \<lambda>(n, t, cur, xs). length xs]") auto

definition ELOOP :: err where "ELOOP = Plain ''ELOOP''"

text \<open>The place a path names, its last part taken as it is.\<close>

definition walk_parent :: "tree \<Rightarrow> string list \<Rightarrow> string list option" where
  "walk_parent t p = (if p = [] then Some [] else map_option (\<lambda>d. d @ [last p]) (walk 40 t [] (butlast p)))"

definition os_Chmod :: "dir_io \<Rightarrow> string list \<Rightarrow> nat \<Rightarrow> tree \<Rightarrow> err option \<times> tree" where
  "os_Chmod io p mode t =
     (case io (ChmodPath p) of
        Some e \<Rightarrow> (Some e, t)
      | None \<Rightarrow>
          (case walk 40 t [] p of
             None \<Rightarrow> (Some ELOOP, t)
           | Some q \<Rightarrow> if t q = None then (Some ENOENT, t) else (None, t(q := map_option (chmod_node mode) (t q)))))"

definition os_Lstat :: "dir_io \<Rightarrow> string list \<Rightarrow> tree \<Rightarrow> err + dnode" where
  "os_Lstat io p t =
     (case io (LstatPath p) of
        Some e \<Rightarrow> Inl e
      | None \<Rightarrow> (case walk_parent t p of None \<Rightarrow> Inl ELOOP | Some q \<Rightarrow> some_or ENOENT (t q)))"

definition is_DDir :: "dnode option \<Rightarrow> bool" where
  "is_DDir n \<longleftrightarrow> (case n of Some (DDir _ _ _) \<Rightarrow> True | _ \<Rightarrow> False)"

fun mkdirs :: "nat \<Rightarrow> tree \<Rightarrow> string list \<Rightarrow> string list \<Rightarrow> err option \<times> tree" where
  "mkdirs mode t cur [] = (None, t)"
| "mkdirs mode t cur (x # xs) =
     (case t (cur @ [x]) of
        None \<Rightarrow> mkdirs mode (t(cur @ [x] \<mapsto> DDir mode 0 0)) (cur @ [x]) xs
      | Some (DDir _ _ _) \<Rightarrow> mkdirs mode t (cur @ [x]) xs
      | Some (DFile _) \<Rightarrow> (Some (Plain ''ENOTDIR''), t)
      | Some (DLink _) \<Rightarrow>
          (case walk 40 t cur [x] of
             None \<Rightarrow> (Some ELOOP, t)
           | Some q \<Rightarrow> if is_DDir (t q) then mkdirs mode t q xs else (Some (Plain ''EEXIST''), t)))"

definition os_MkdirAll :: "dir_io \<Rightarrow> string list \<Rightarrow> nat \<Rightarrow> tree \<Rightarrow> err option \<times> tree" where
  "os_MkdirAll io p mode t = (case io (MkdirPath p) of Some e \<Rightarrow> (Some e, t) | None \<Rightarrow> mkdirs mode t [] p)"

definition os_Rename :: "dir_io \<Rightarrow> string list \<Rightarrow> string list \<Rightarrow> tree \<Rightarrow> err option \<times> tree" where
  "os_Rename io src dst t =
     (case (walk_parent t src, walk_parent t dst) of
        (Some a, Some b) \<Rightarrow>
          if t a = None then (Some ENOENT, t)
          else (case io (RenamePath src dst) of Some e \<Rightarrow> (Some e, t) | None \<Rightarrow> (None, move_tree a b t))
      | _ \<Rightarrow> (Some ELOOP, t))"

lemma walk_plain:
  "\<forall>x \<in> set xs. plain_part x \<Longrightarrow> (\<forall>ys zs. xs = ys @ zs \<longrightarrow> ys \<noteq> [] \<longrightarrow> (\<forall>g. t (cur @ ys) \<noteq> Some (DLink g))) \<Longrightarrow>
     walk n t cur xs = Some (cur @ xs)"
proof (induction xs arbitrary: cur)
  case (Cons x xs)
  have "walk n t (cur @ [x]) xs = Some ((cur @ [x]) @ xs)"
  proof (rule Cons.IH)
    show "\<forall>ys zs. xs = ys @ zs \<longrightarrow> ys \<noteq> [] \<longrightarrow> (\<forall>g. t ((cur @ [x]) @ ys) \<noteq> Some (DLink g))"
      using Cons.prems(2) [rule_format, of "x # _"] by auto
  qed (use Cons.prems in simp)
  moreover have "\<forall>g. t (cur @ [x]) \<noteq> Some (DLink g)"
    using Cons.prems(2) [rule_format, of "[x]" xs] by simp
  ultimately show ?case
    using Cons.prems(1) by (auto simp: plain_part_def split: option.splits dnode.splits)
qed simp

section \<open>What the operations do\<close>

lemma plain_child [simp]: "plain_part n \<Longrightarrow> child_of d n = d @ [n]"
  by (auto simp: child_of_def plain_part_def)

lemma validName_plain [simp]: "plain_part n \<Longrightarrow> fsx_validName n = Inr ()"
  by (simp add: fsx_validName_def plain_part_def path_Base_def Split_no_sep)

lemma open_fd_Inr: "open_fd io p t = Inr q \<Longrightarrow> q = p \<and> (\<exists>m u g. t p = Some (DDir m u g))"
  by (cases "io (OpenAt p)"; cases "t p"; cases "the (t p)") (auto simp: open_fd_def)

lemma Open_Inr:
  "plain_part n \<Longrightarrow> fsx_Open io d n t = Inr q \<Longrightarrow> q = d @ [n] \<and> (\<exists>m u g. t (d @ [n]) = Some (DDir m u g))"
  by (auto simp: fsx_Open_def dest: open_fd_Inr)

lemma Configure_None:
  "fsx_Configure io d m u g t = (None, t') \<Longrightarrow> t d = Some (DDir m0 u0 g0) \<Longrightarrow> t' = t(d \<mapsto> DDir m u g)"
  by (auto simp: fsx_Configure_def Let_def split: option.splits)

lemma Configure_other: "fsx_Configure io d m u g t = (e, t') \<Longrightarrow> p \<noteq> d \<Longrightarrow> t' p = t p"
  by (auto simp: fsx_Configure_def Let_def split: option.splits)

lemma Ensure_None:
  assumes "fsx_Ensure io d n m u g t = (None, t')" "plain_part n"
  shows "t' = t(d @ [n] \<mapsto> DDir m u g)"
proof -
  let ?t1 = "if t (d @ [n]) = None then t(d @ [n] \<mapsto> DDir m 0 0) else t"
  obtain c where c: "fsx_Open io d n ?t1 = Inr c" "fsx_Configure io c m u g ?t1 = (None, t')"
    using assms by (auto simp: fsx_Ensure_def Let_def split: sum.splits option.splits prod.splits if_splits)
  note o = Open_Inr [OF assms(2) c(1)]
  then have "t' = ?t1(d @ [n] \<mapsto> DDir m u g)"
    using c(2) Configure_None by blast
  then show ?thesis
    by simp
qed

lemma Ensure_other:
  assumes "fsx_Ensure io d n m u g t = (e, t')" "plain_part n" "p \<noteq> d @ [n]"
  shows "t' p = t p"
proof -
  let ?t1 = "if t (d @ [n]) = None then t(d @ [n] \<mapsto> DDir m 0 0) else t"
  consider "t' = t" | "t' = ?t1" | c e' where "fsx_Open io d n ?t1 = Inr c" "fsx_Configure io c m u g ?t1 = (e', t')"
    using assms(1,2) by (auto simp: fsx_Ensure_def Let_def split: sum.splits option.splits prod.splits if_splits)
  then show ?thesis
  proof cases
    case 3
    then have "c = d @ [n]"
      using Open_Inr assms(2) by blast
    with Configure_other [OF 3(2)] show ?thesis
      using assms(3) by auto
  qed (use assms(3) in auto)
qed

section \<open>Places without links\<close>

lemma is_DDir_chmod [simp]: "is_DDir (map_option (chmod_node m) n) = is_DDir n"
  by (cases n; cases "the n") (simp_all add: is_DDir_def)

text \<open>Every directory on the way to \<open>p\<close>, and \<open>p\<close> itself, is one.\<close>

definition real_dirs :: "tree \<Rightarrow> string list \<Rightarrow> bool" where
  "real_dirs t p \<longleftrightarrow> (\<forall>x \<in> set p. plain_part x) \<and> (\<forall>ys. prefix ys p \<longrightarrow> ys \<noteq> [] \<longrightarrow> is_DDir (t ys))"

text \<open>Nothing is below what is not a directory.\<close>

definition tree_ok :: "tree \<Rightarrow> bool" where
  "tree_ok t \<longleftrightarrow> (\<forall>p x. p \<noteq> [] \<longrightarrow> t (p @ [x]) \<noteq> None \<longrightarrow> is_DDir (t p))"

lemma tree_ok_below: "tree_ok t \<Longrightarrow> p \<noteq> [] \<Longrightarrow> t p = None \<Longrightarrow> t (p @ ps) = None"
proof (induction ps rule: rev_induct)
  case (snoc x ps)
  then have "\<not> is_DDir (t (p @ ps))"
    by (simp add: is_DDir_def)
  then show ?case
    using snoc.prems(1,2) unfolding tree_ok_def append_assoc [symmetric] by blast
qed simp

lemma real_dirs_walk:
  assumes "real_dirs t p"
  shows "walk n t [] p = Some p"
proof -
  have "t ys \<noteq> Some (DLink g)" if "p = ys @ zs" "ys \<noteq> []" for ys zs g
  proof -
    have "is_DDir (t ys)"
      using assms that by (simp add: real_dirs_def)
    then show ?thesis
      by (auto simp: is_DDir_def)
  qed
  then show ?thesis
    using walk_plain [of p t "[]" n] assms by (simp add: real_dirs_def)
qed

lemma real_dirs_parent: "real_dirs t p \<Longrightarrow> walk_parent t (p @ [x]) = Some (p @ [x])"
  by (simp add: walk_parent_def real_dirs_walk)

lemma real_dirs_snoc: "real_dirs t (p @ [x]) \<longleftrightarrow> real_dirs t p \<and> plain_part x \<and> is_DDir (t (p @ [x]))"
  by (auto simp: real_dirs_def)

lemma real_dirs_same:
  "real_dirs t p \<Longrightarrow> (\<And>ys. prefix ys p \<Longrightarrow> ys \<noteq> [] \<Longrightarrow> is_DDir (t' ys) = is_DDir (t ys)) \<Longrightarrow> real_dirs t' p"
  by (simp add: real_dirs_def)

lemma mkdirs_real:
  "(\<forall>ys. prefix ys ps \<longrightarrow> ys \<noteq> [] \<longrightarrow> is_DDir (t (cur @ ys))) \<Longrightarrow>
     mkdirs m t cur (ps @ qs) = mkdirs m t (cur @ ps) qs"
proof (induction ps arbitrary: cur)
  case (Cons p ps)
  have "is_DDir (t (cur @ [p]))"
    using Cons.prems [rule_format, of "[p]"] by simp
  moreover have "mkdirs m t (cur @ [p]) (ps @ qs) = mkdirs m t ((cur @ [p]) @ ps) qs"
  proof (rule Cons.IH, intro allI impI)
    fix ys
    assume "prefix ys ps" "ys \<noteq> []"
    then show "is_DDir (t ((cur @ [p]) @ ys))"
      using Cons.prems [rule_format, of "p # ys"] by simp
  qed
  ultimately show ?case
    by (cases "t (cur @ [p])"; cases "the (t (cur @ [p]))") (simp_all add: is_DDir_def)
qed simp

lemma mkdirs_last:
  assumes "real_dirs t p" "t (p @ [x]) = None \<or> is_DDir (t (p @ [x]))"
  shows "mkdirs m t [] (p @ [x]) = (None, if t (p @ [x]) = None then t(p @ [x] \<mapsto> DDir m 0 0) else t)"
proof -
  have "mkdirs m t [] (p @ [x]) = mkdirs m t p [x]"
    using mkdirs_real [of p t "[]" m "[x]"] assms(1) by (simp add: real_dirs_def)
  then show ?thesis
    using assms(2) by (cases "t (p @ [x])"; cases "the (t (p @ [x]))") (simp_all add: is_DDir_def)
qed

end
