(* ===== verification/SystemAccounts.thy ===== *)
theory SystemAccounts
  imports HostDirs PhpFpm Ftp
begin

text \<open>
  The system users of the hosting accounts, \<open>internal/agent/account/linux.go\<close>, and the manager that
  keeps their FTP access and PHP pool in line with them, \<open>internal/agent/account/manager.go\<close>.

  The user database is the map from login names to entries; \<open>useradd\<close> and \<open>userdel\<close> are the
  parameter \<open>lnx_run\<close>, which may change the whole host; the commands that ran are kept in a log.
\<close>

section \<open>System users\<close>

record lin_state =
  lin_tree :: tree
  lin_users :: "string \<Rightarrow> host_user option"
  lin_ran :: "string list list"

record linux_driver =
  lnx_home :: string
  lnx_trash :: string
  lnx_lookup :: "string \<Rightarrow> err option"
  lnx_group :: "err + string"
  lnx_run :: "string list \<Rightarrow> lin_state \<Rightarrow> err option \<times> lin_state"
  lnx_io :: dir_io

text \<open>\<open>user.Lookup\<close>: an error, or the entry, or \<open>UnknownUserError\<close>.\<close>

definition linux_lookup :: "linux_driver \<Rightarrow> string \<Rightarrow> lin_state \<Rightarrow> err + host_user option" where
  "linux_lookup d su s = (case lnx_lookup d su of Some e \<Rightarrow> Inl e | None \<Rightarrow> Inr (lin_users s su))"

definition UnknownUserError :: err where "UnknownUserError = Plain ''unknown user''"

definition linux_run :: "linux_driver \<Rightarrow> string list \<Rightarrow> lin_state \<Rightarrow> err option \<times> lin_state" where
  "linux_run d args s = (case lnx_run d args s of (e, s') \<Rightarrow> (e, s'\<lparr>lin_ran := lin_ran s @ [args]\<rparr>))"

definition on_tree :: "(tree \<Rightarrow> err option \<times> tree) \<Rightarrow> lin_state \<Rightarrow> err option \<times> lin_state" where
  "on_tree f s = (case f (lin_tree s) of (e, t) \<Rightarrow> (e, s\<lparr>lin_tree := t\<rparr>))"

definition linux_identity :: "linux_driver \<Rightarrow> ident \<Rightarrow> string \<Rightarrow> lin_state \<Rightarrow> err + identity" where
  "linux_identity d a su s =
     andthen (hostuser_ValidateNames a su) (\<lambda>_.
     andthen (map_err (Wrapped ''lookup system user'') (andthen (linux_lookup d su s) (some_or UnknownUserError))) (\<lambda>found.
     hostuser_Validate found (lnx_home d) a su))"

definition web_gid :: "err + string \<Rightarrow> err + int" where
  "web_gid grp =
     andthen (map_err (Wrapped ''lookup web server group'') grp) (\<lambda>gid.
     case Atoi gid of
       None \<Rightarrow> Inl (Plain ''invalid web server GID'')
     | Some g \<Rightarrow> if g \<le> 0 then Inl (Plain ''invalid web server GID'') else Inr g)"

definition linux_ensureLayout :: "linux_driver \<Rightarrow> identity \<Rightarrow> lin_state step" where
  "linux_ensureLayout d i s =
     (case web_gid (lnx_group d) of
        Inl e \<Rightarrow> (Some e, s)
      | Inr g \<Rightarrow>
     (case andthen (fsx_OpenDir (lnx_io d) (lnx_home d) (lin_tree s)) (\<lambda>root.
           fsx_Open (lnx_io d) root (idn_user i) (lin_tree s)) of
        Inl e \<Rightarrow> (Some e, s)
      | Inr home \<Rightarrow>
          onto (onto (onto
            (saying ''configure account home'' (on_tree (fsx_Configure (lnx_io d) home 0x1C8 (idn_uid i) g) s))
            (\<lambda>s. saying ''ensure account web directory'' (on_tree (fsx_Ensure (lnx_io d) home ''web'' 0x1C8 (idn_uid i) g) s)))
            (\<lambda>s. saying ''ensure account layout'' (on_tree (fsx_Ensure (lnx_io d) home ''logs'' 0x1E8 (idn_uid i) (idn_gid i)) s)))
            (\<lambda>s. saying ''ensure account layout'' (on_tree (fsx_Ensure (lnx_io d) home ''tmp'' 0x1C0 (idn_uid i) (idn_gid i)) s))))"

definition linux_Disable :: "linux_driver \<Rightarrow> ident \<Rightarrow> string \<Rightarrow> lin_state step" where
  "linux_Disable d a su s =
     (case linux_identity d a su s of
        Inl e \<Rightarrow> (Some e, s)
      | Inr i \<Rightarrow> saying ''disable account home'' (on_tree (os_Chmod (lnx_io d) (path_parts (idn_home i)) 0) s))"

definition linux_Enable :: "linux_driver \<Rightarrow> ident \<Rightarrow> string \<Rightarrow> lin_state step" where
  "linux_Enable d a su s =
     (case linux_identity d a su s of
        Inl e \<Rightarrow> (Some e, s)
      | Inr i \<Rightarrow>
          (case os_Lstat (lnx_io d) (path_parts (idn_home i)) (lin_tree s) of
             Inl e \<Rightarrow> (Some (Wrapped ''inspect account home'' e), s)
           | Inr n \<Rightarrow>
               if \<not> is_DDir (Some n) then (Some (Plain ''account home is not a directory''), s)
               else onto (saying ''enable account home'' (on_tree (os_Chmod (lnx_io d) (path_parts (idn_home i)) 0x1C8) s))
                 (linux_ensureLayout d i)))"

definition quarantineHome :: "linux_driver \<Rightarrow> ident \<Rightarrow> string \<Rightarrow> lin_state step" where
  "quarantineHome d a su s0 =
     (let trash = path_parts (lnx_trash d); targ = path_parts (path_Join [lnx_trash d, a]) in
      onto (onto (saying ''create account trash'' (on_tree (os_MkdirAll (lnx_io d) trash 0x1C0) s0))
        (\<lambda>s. saying ''secure account trash'' (on_tree (os_Chmod (lnx_io d) trash 0x1C0) s))) (\<lambda>s.
      case os_Lstat (lnx_io d) targ (lin_tree s) of
        Inr _ \<Rightarrow> (None, s)
      | Inl e \<Rightarrow>
          if \<not> error_is e ENOENT then (Some (Wrapped ''inspect account trash target'' e), s)
          else (case on_tree (os_Rename (lnx_io d) (path_parts (path_Join [lnx_home d, su])) targ) s of
            (Some e, s') \<Rightarrow> (if error_is e ENOENT then None else Some (Wrapped ''quarantine account home'' e), s')
          | (None, s') \<Rightarrow> (None, s'))))"

definition linux_Delete :: "linux_driver \<Rightarrow> ident \<Rightarrow> string \<Rightarrow> lin_state step" where
  "linux_Delete d a su s =
     (case hostuser_ValidateNames a su of
        Inl e \<Rightarrow> (Some e, s)
      | Inr _ \<Rightarrow>
          (case linux_lookup d su s of
             Inl e \<Rightarrow> (Some (Wrapped ''lookup system user'' e), s)
           | Inr None \<Rightarrow> quarantineHome d a su s
           | Inr (Some found) \<Rightarrow>
               (case hostuser_Validate found (lnx_home d) a su of
                  Inl e \<Rightarrow> (Some e, s)
                | Inr _ \<Rightarrow>
                    onto (saying ''delete system user'' (linux_run d [''/usr/sbin/userdel'', ''--'', su] s))
                      (quarantineHome d a su))))"

definition useradd_args :: "linux_driver \<Rightarrow> ident \<Rightarrow> string \<Rightarrow> string list" where
  "useradd_args d a su =
     [''/usr/sbin/useradd'', ''--create-home'', ''--home-dir'', path_Join [lnx_home d, su],
      ''--shell'', ''/usr/sbin/nologin'', ''--comment'', hostuser_Marker a, ''--user-group'', ''--'', su]"

definition linux_Ensure :: "linux_driver \<Rightarrow> ident \<Rightarrow> string \<Rightarrow> lin_state step" where
  "linux_Ensure d a su s =
     (case hostuser_ValidateNames a su of
        Inl e \<Rightarrow> (Some e, s)
      | Inr _ \<Rightarrow>
          (case linux_lookup d su s of
             Inl e \<Rightarrow> (Some (Wrapped ''lookup system user'' e), s)
           | Inr (Some found) \<Rightarrow>
               (case hostuser_Validate found (lnx_home d) a su of
                  Inl e \<Rightarrow> (Some e, s)
                | Inr i \<Rightarrow> linux_ensureLayout d i s)
           | Inr None \<Rightarrow>
               onto (saying ''create system user'' (linux_run d (useradd_args d a su) s)) (\<lambda>s.
               case andthen (map_err (Wrapped ''verify system user'') (andthen (linux_lookup d su s) (some_or UnknownUserError)))
                   (\<lambda>found. hostuser_Validate found (lnx_home d) a su) of
                 Inl e \<Rightarrow> (Some e, s)
               | Inr i \<Rightarrow> linux_ensureLayout d i s)))"

section \<open>The manager\<close>

record account_manager =
  acm_linux :: linux_driver
  acm_runtime :: fpm_driver
  acm_ext :: ext
  acm_ftp :: ftp_host

record account_host =
  ach_lin :: lin_state
  ach_web :: web_state
  ach_ftp :: ftp_driver

definition on_lin :: "lin_state step \<Rightarrow> account_host step" where
  "on_lin f s = (case f (ach_lin s) of (e, l) \<Rightarrow> (e, s\<lparr>ach_lin := l\<rparr>))"

definition on_web :: "web_state step \<Rightarrow> account_host step" where
  "on_web f s = (case f (ach_web s) of (e, w) \<Rightarrow> (e, s\<lparr>ach_web := w\<rparr>))"

definition on_ftp :: "(ftp_driver \<Rightarrow> err option \<times> ftp_driver) \<Rightarrow> account_host step" where
  "on_ftp f s = (case f (ach_ftp s) of (e, v) \<Rightarrow> (e, s\<lparr>ach_ftp := v\<rparr>))"

definition manager_ftp :: "account_manager \<Rightarrow> ident \<Rightarrow> string \<Rightarrow> bool \<Rightarrow> account_host step" where
  "manager_ftp m a su enabled = on_ftp (pureftpd_setEnabled (acm_ext m) (acm_ftp m) a su enabled)"

definition manager_Disable :: "account_manager \<Rightarrow> ident \<Rightarrow> string \<Rightarrow> account_host step" where
  "manager_Disable m a su s = joining (on_lin (linux_Disable (acm_linux m) a su) s) (manager_ftp m a su False)"

definition manager_Enable :: "account_manager \<Rightarrow> ident \<Rightarrow> string \<Rightarrow> account_host step" where
  "manager_Enable m a su s =
     onto (on_lin (linux_Enable (acm_linux m) a su) s) (\<lambda>s1.
     case manager_ftp m a su True s1 of
       (Some e, s2) \<Rightarrow>
         joining (joining (Some (Wrapped ''enable account FTP access'' e), s2) (manager_ftp m a su False))
           (on_lin (linux_Disable (acm_linux m) a su))
     | (None, s2) \<Rightarrow> (None, s2))"

definition manager_Delete :: "account_manager \<Rightarrow> ident \<Rightarrow> string \<Rightarrow> account_host step" where
  "manager_Delete m a su s =
     onto (onto (saying ''delete account FTP access'' (on_ftp (pureftpd_Delete (acm_ext m) (acm_ftp m) a su) s))
       (\<lambda>s. saying ''delete account runtime'' (on_web (fpm_Delete (acm_runtime m) a) s)))
       (on_lin (linux_Delete (acm_linux m) a su))"

section \<open>The layout of an account\<close>

lemma on_tree_None: "on_tree f s = (None, s') \<longleftrightarrow> (\<exists>t. f (lin_tree s) = (None, t) \<and> s' = s\<lparr>lin_tree := t\<rparr>)"
  by (auto simp: on_tree_def split: prod.splits)

definition account_home :: "linux_driver \<Rightarrow> string \<Rightarrow> string list" where
  "account_home d su = path_parts (lnx_home d) @ [su]"

text \<open>The home directory of an account and what is in it.\<close>

definition laid_out :: "linux_driver \<Rightarrow> identity \<Rightarrow> int \<Rightarrow> tree \<Rightarrow> bool" where
  "laid_out d i g t \<longleftrightarrow>
     t (account_home d (idn_user i)) = Some (DDir 0x1C8 (idn_uid i) g) \<and>
     t (account_home d (idn_user i) @ [''web'']) = Some (DDir 0x1C8 (idn_uid i) g) \<and>
     t (account_home d (idn_user i) @ [''logs'']) = Some (DDir 0x1E8 (idn_uid i) (idn_gid i)) \<and>
     t (account_home d (idn_user i) @ [''tmp'']) = Some (DDir 0x1C0 (idn_uid i) (idn_gid i))"

definition layout_places :: "linux_driver \<Rightarrow> string \<Rightarrow> string list set" where
  "layout_places d su = {account_home d su} \<union> (\<lambda>n. account_home d su @ [n]) ` {''web'', ''logs'', ''tmp''}"

lemma plain_names [simp]: "plain_part ''web''" "plain_part ''logs''" "plain_part ''tmp''"
  by (simp_all add: plain_part_def)

lemma layout_done:
  assumes "linux_ensureLayout d i s = (None, s')" "plain_part (idn_user i)"
  shows "\<exists>g. web_gid (lnx_group d) = Inr g \<and> laid_out d i g (lin_tree s')"
    "lin_users s' = lin_users s \<and> lin_ran s' = lin_ran s" "p \<notin> layout_places d (idn_user i) \<Longrightarrow> lin_tree s' p = lin_tree s p"
proof -
  let ?h = "account_home d (idn_user i)"
  obtain g home where g: "web_gid (lnx_group d) = Inr g"
    and h: "andthen (fsx_OpenDir (lnx_io d) (lnx_home d) (lin_tree s)) (\<lambda>root. fsx_Open (lnx_io d) root (idn_user i) (lin_tree s)) = Inr home"
    using assms(1) by (auto simp: linux_ensureLayout_def split: sum.splits)
  obtain root where root: "fsx_OpenDir (lnx_io d) (lnx_home d) (lin_tree s) = Inr root" "fsx_Open (lnx_io d) root (idn_user i) (lin_tree s) = Inr home"
    using h by auto
  have r: "root = path_parts (lnx_home d)"
    using root(1) by (auto simp: fsx_OpenDir_def dest: open_fd_Inr)
  obtain m0 u0 g0 where home: "home = ?h" "lin_tree s ?h = Some (DDir m0 u0 g0)"
    using Open_Inr [OF assms(2) root(2)] by (auto simp: account_home_def r)
  obtain t1 t2 t3 t4 where t: "fsx_Configure (lnx_io d) ?h 0x1C8 (idn_uid i) g (lin_tree s) = (None, t1)"
    "fsx_Ensure (lnx_io d) ?h ''web'' 0x1C8 (idn_uid i) g t1 = (None, t2)"
    "fsx_Ensure (lnx_io d) ?h ''logs'' 0x1E8 (idn_uid i) (idn_gid i) t2 = (None, t3)"
    "fsx_Ensure (lnx_io d) ?h ''tmp'' 0x1C0 (idn_uid i) (idn_gid i) t3 = (None, t4)"
    and s': "s' = s\<lparr>lin_tree := t4\<rparr>"
    using assms(1) by (auto simp: linux_ensureLayout_def g h home(1) onto_None on_tree_None)
  have t4: "t4 = (lin_tree s)(?h \<mapsto> DDir 0x1C8 (idn_uid i) g, ?h @ [''web''] \<mapsto> DDir 0x1C8 (idn_uid i) g,
      ?h @ [''logs''] \<mapsto> DDir 0x1E8 (idn_uid i) (idn_gid i), ?h @ [''tmp''] \<mapsto> DDir 0x1C0 (idn_uid i) (idn_gid i))"
    using Configure_None [OF t(1) home(2)] t(2-4) [THEN Ensure_None] by simp
  show "\<exists>g. web_gid (lnx_group d) = Inr g \<and> laid_out d i g (lin_tree s')"
    using g by (simp add: s' t4 laid_out_def)
  show "lin_users s' = lin_users s \<and> lin_ran s' = lin_ran s"
    by (simp add: s')
  show "p \<notin> layout_places d (idn_user i) \<Longrightarrow> lin_tree s' p = lin_tree s p"
    by (simp add: s' t4 layout_places_def)
qed

lemma system_user_plain: "hostuser_ValidateNames a su = Inr u \<Longrightarrow> plain_part su"
  by (auto simp: hostuser_ValidateNames_def validate_ID_def plain_part_def idPattern_def list_all_iff is_hex_lower_def
      is_digit_def bytes_between_def byte_def dest!: in_set_takeD)

lemma Validate_user: "hostuser_Validate found root a su = Inr i \<Longrightarrow> idn_user i = su \<and> hostuser_ValidateNames a su = Inr ()"
  by (auto simp: hostuser_Validate_def split: option.splits if_splits)

text \<open>C17: an account has its home.  After \<open>Ensure\<close> succeeds, the system user of the account exists and
  is the account's own, and its home directory and the directories \<open>web\<close>, \<open>logs\<close> and \<open>tmp\<close> are
  directories with exactly the owner, group and mode meant for them; a user that existed is left as
  it was, no command runs for it and no other place of the tree changes; otherwise \<open>useradd\<close> ran once.\<close>

theorem ensured_account_has_home:
  assumes "linux_Ensure d a su s = (None, s')"
  shows "\<exists>found i g. lin_users s' su = Some found \<and> hostuser_Validate found (lnx_home d) a su = Inr i \<and>
    web_gid (lnx_group d) = Inr g \<and> laid_out d i g (lin_tree s') \<and>
    (if lin_users s su = None then lin_ran s' = lin_ran s @ [useradd_args d a su]
     else lin_users s' = lin_users s \<and> lin_ran s' = lin_ran s \<and> (\<forall>p. p \<notin> layout_places d su \<longrightarrow> lin_tree s' p = lin_tree s p))"
proof -
  have plain: "plain_part su"
    using assms system_user_plain [of a su] by (auto simp: linux_Ensure_def split: sum.splits)
  show ?thesis
  proof (cases "lin_users s su")
    case (Some found)
    then obtain i where i: "hostuser_Validate found (lnx_home d) a su = Inr i" "linux_ensureLayout d i s = (None, s')"
      using assms by (auto simp: linux_Ensure_def linux_lookup_def split: sum.splits option.splits)
    then show ?thesis
      using layout_done [OF i(2)] Validate_user [OF i(1)] plain Some by auto
  next
    case None
    have v: "hostuser_ValidateNames a su = Inr ()" and lookup: "linux_lookup d su s = Inr None"
      using assms None by (auto simp: linux_Ensure_def linux_lookup_def split: sum.splits option.splits)
    let ?found = "\<lambda>s. andthen (map_err (Wrapped ''verify system user'') (andthen (linux_lookup d su s) (some_or UnknownUserError)))
      (\<lambda>found. hostuser_Validate found (lnx_home d) a su)"
    obtain s1 where s1: "linux_run d (useradd_args d a su) s = (None, s1)"
      "(case ?found s1 of Inl e \<Rightarrow> (Some e, s1) | Inr i \<Rightarrow> linux_ensureLayout d i s1) = (None, s')"
      using assms lookup unfolding linux_Ensure_def v sum.case option.case lookup onto_None saying_None by blast
    then obtain i where i: "?found s1 = Inr i" "linux_ensureLayout d i s1 = (None, s')"
      by (cases "?found s1") auto
    then obtain found where "linux_lookup d su s1 = Inr (Some found)" "hostuser_Validate found (lnx_home d) a su = Inr i"
      by auto
    with s1(1) i(2) have r: "linux_run d (useradd_args d a su) s = (None, s1)" "linux_lookup d su s1 = Inr (Some found)"
      "hostuser_Validate found (lnx_home d) a su = Inr i" "linux_ensureLayout d i s1 = (None, s')"
      by auto
    then show ?thesis
      using layout_done [OF r(4)] Validate_user [OF r(3)] plain None
      by (auto simp: linux_run_def linux_lookup_def split: prod.splits option.splits)
  qed
qed

section \<open>Deleting an account\<close>

text \<open>A fault of a system call is not the answer that a file does not exist, and \<open>userdel\<close>
  without \<open>-r\<close> leaves the files alone.\<close>

definition faults_are_faults :: "linux_driver \<Rightarrow> bool" where
  "faults_are_faults d \<longleftrightarrow> (\<forall>c e. lnx_io d c = Some e \<longrightarrow> \<not> error_is e ENOENT)"

definition userdel_keeps_files :: "linux_driver \<Rightarrow> bool" where
  "userdel_keeps_files d \<longleftrightarrow>
     (\<forall>su s. lin_tree (snd (lnx_run d [''/usr/sbin/userdel'', ''--'', su] s)) = lin_tree s)"

definition quarantined :: "string list \<Rightarrow> string list \<Rightarrow> tree \<Rightarrow> tree \<Rightarrow> bool" where
  "quarantined home place t t' \<longleftrightarrow> (\<forall>ps. t' (place @ ps) = t (home @ ps) \<and> t' (home @ ps) = None)"

lemma move_quarantines:
  assumes "\<not> prefix home place" "\<not> prefix place home"
  shows "quarantined home place t (move_tree home place t)"
    "\<not> prefix home p \<Longrightarrow> \<not> prefix place p \<Longrightarrow> move_tree home place t p = t p"
proof -
  have take: "take (length q) r = q \<longleftrightarrow> prefix q r" for q r :: "string list"
    by (metis append_take_drop_id prefix_def take_is_prefix append_eq_conv_conj)
  have "\<not> prefix place (home @ ps)" for ps
    using assms prefix_same_cases [of place "home @ ps" home] by auto
  then show "quarantined home place t (move_tree home place t)"
    by (auto simp: quarantined_def move_tree_def take)
  show "\<not> prefix home p \<Longrightarrow> \<not> prefix place p \<Longrightarrow> move_tree home place t p = t p"
    by (auto simp: move_tree_def take)
qed

lemma quarantine_moves:
  assumes q: "quarantineHome d a su s = (None, s')" and names: "plain_part a" "plain_part su"
    and roots: "is_rooted (lnx_home d)" "is_rooted (lnx_trash d)" "path_parts (lnx_trash d) = path_parts (lnx_home d) @ [x]" "x \<noteq> su"
    and t: "tree_ok (lin_tree s)" "real_dirs (lin_tree s) (path_parts (lnx_home d))"
      "lin_tree s (path_parts (lnx_trash d)) = None \<or> is_DDir (lin_tree s (path_parts (lnx_trash d)))" and faults: "faults_are_faults d"
  shows "lin_tree s (path_parts (lnx_trash d) @ [a]) = None \<Longrightarrow>
      quarantined (account_home d su) (path_parts (lnx_trash d) @ [a]) (lin_tree s) (lin_tree s')"
    "lin_tree s (path_parts (lnx_trash d) @ [a]) \<noteq> None \<Longrightarrow> p \<noteq> path_parts (lnx_trash d) \<Longrightarrow> lin_tree s' p = lin_tree s p"
    "\<not> prefix (account_home d su) p \<Longrightarrow> \<not> prefix (path_parts (lnx_trash d)) p \<Longrightarrow> lin_tree s' p = lin_tree s p"
    "lin_users s' = lin_users s \<and> lin_ran s' = lin_ran s"
proof -
  let ?H = "path_parts (lnx_home d)" and ?T = "path_parts (lnx_trash d)" and ?t = "lin_tree s"
  let ?t1 = "if ?t ?T = None then ?t(?T \<mapsto> DDir 0x1C0 0 0) else ?t"
  have x: "plain_part x"
    using path_parts_rooted [OF roots(2)] roots(3) by simp
  have r1: "real_dirs ?t1 ?T"
  proof -
    have "real_dirs ?t1 ?H"
      using t(2) roots(3) by (intro real_dirs_same [OF t(2)]) (auto simp: prefix_def)
    then show ?thesis
      using t(3) x unfolding roots(3) real_dirs_snoc by (auto simp: is_DDir_def)
  qed
  define t2 where "t2 = ?t1(?T := map_option (chmod_node 0x1C0) (?t1 ?T))"
  have r2: "real_dirs t2 ?T"
  proof (rule real_dirs_same [OF r1])
    fix ys
    show "is_DDir (t2 ys) = is_DDir (?t1 ys)"
      unfolding t2_def fun_upd_def by simp
  qed
  then have rH: "real_dirs t2 ?H"
    unfolding roots(3) real_dirs_snoc by simp
  have t2: "t2 p = ?t p" if "p \<noteq> ?T" for p
    using that by (simp add: t2_def)
  have ne: "?H @ [su] \<noteq> ?T" "\<And>ps. ?H @ [su] @ ps \<noteq> ?T" "\<And>ps. ?T @ [a] @ ps \<noteq> ?T"
    using roots(3,4) by simp_all
  have paths: "path_parts (path_Join [lnx_home d, su]) = ?H @ [su]" "path_parts (path_Join [lnx_trash d, a]) = ?T @ [a]"
    using path_Join_name(2) roots(1,2) names by simp_all
  have made: "saying ''create account trash'' (on_tree (os_MkdirAll (lnx_io d) ?T 0x1C0) s) = (None, s\<lparr>lin_tree := ?t1\<rparr>)"
    if "lnx_io d (MkdirPath ?T) = None"
    using mkdirs_last [where x = x and m = "0x1C0", OF t(2)] t(3) that by (simp add: on_tree_None os_MkdirAll_def roots(3))
  have io: "lnx_io d (MkdirPath ?T) = None"
    using q by (cases "lnx_io d (MkdirPath ?T)") (auto simp: quarantineHome_def Let_def onto_None on_tree_None os_MkdirAll_def)
  have chmod: "lnx_io d (ChmodPath ?T) = None"
    using q made [OF io] by (cases "lnx_io d (ChmodPath ?T)") (auto simp: quarantineHome_def Let_def onto_None on_tree_None os_Chmod_def)
  have "?t1 ?T \<noteq> None"
    by simp
  then have secured: "saying ''secure account trash'' (on_tree (os_Chmod (lnx_io d) ?T 0x1C0) (s\<lparr>lin_tree := ?t1\<rparr>)) = (None, s\<lparr>lin_tree := t2\<rparr>)"
    using chmod real_dirs_walk [OF r1, of 40] by (simp add: on_tree_None os_Chmod_def t2_def)
  note q = q [unfolded quarantineHome_def Let_def made [OF io] secured onto_simps paths]
  have goal: "t2 (?T @ [a]) = ?t (?T @ [a])"
    using t2 ne(3) [of "[]"] by simp
  have src: "t2 (?H @ [su]) = ?t (?H @ [su])"
    using t2 ne(1) by simp
  have moved: "lin_users s' = lin_users s \<and> lin_ran s' = lin_ran s \<and>
      lin_tree s' = (if ?t (?T @ [a]) \<noteq> None \<or> ?t (?H @ [su]) = None then t2 else move_tree (?H @ [su]) (?T @ [a]) t2)"
  proof (cases "?t (?T @ [a]) = None")
    case True
    then obtain e where e: "os_Lstat (lnx_io d) (?T @ [a]) t2 = Inl e" "lnx_io d (LstatPath (?T @ [a])) = None \<longrightarrow> e = ENOENT"
      "lnx_io d (LstatPath (?T @ [a])) \<noteq> None \<longrightarrow> \<not> error_is e ENOENT"
      using goal real_dirs_parent [OF r2, of a] faults by (cases "lnx_io d (LstatPath (?T @ [a]))") (auto simp: os_Lstat_def faults_are_faults_def)
    then show ?thesis
      using q True src real_dirs_parent [OF rH, of su] real_dirs_parent [OF r2, of a] faults
      by (auto simp: on_tree_def os_Rename_def faults_are_faults_def ENOENT_def split: if_splits option.splits)
  next
    case False
    then obtain n where "t2 (?T @ [a]) = Some n"
      using goal by (cases "t2 (?T @ [a])") auto
    then show ?thesis
      using q False real_dirs_parent [OF r2, of a] faults
      by (cases "lnx_io d (LstatPath (?T @ [a]))") (auto simp: os_Lstat_def faults_are_faults_def split: if_splits)
  qed
  then show "lin_users s' = lin_users s \<and> lin_ran s' = lin_ran s"
    by simp
  have apart: "\<not> prefix (?H @ [su]) (?T @ [a])" "\<not> prefix (?T @ [a]) (?H @ [su])"
    using roots(3,4) by simp_all
  note mv = move_quarantines [OF apart, where t = t2]
  show "lin_tree s' p = ?t p" if "?t (?T @ [a]) \<noteq> None" "p \<noteq> ?T"
    using that moved t2 by simp
  show "quarantined (account_home d su) (?T @ [a]) ?t (lin_tree s')" if free: "?t (?T @ [a]) = None"
  proof (cases "?t (?H @ [su]) = None")
    case True
    have "?t (?H @ [su] @ ps) = None" "?t (?T @ [a] @ ps) = None" for ps
      using tree_ok_below [OF t(1) _ True, of ps] tree_ok_below [OF t(1) _ free, of ps] by simp_all
    then show ?thesis
      using moved True free t2 ne(2,3) by (simp add: quarantined_def account_home_def)
  next
    case False
    then show ?thesis
      using moved free mv(1) t2 ne(2) by (auto simp: quarantined_def account_home_def)
  qed
  show "lin_tree s' p = ?t p" if "\<not> prefix (account_home d su) p" "\<not> prefix ?T p"
  proof -
    have "\<not> prefix (?T @ [a]) p" "p \<noteq> ?T"
      using that(2) append_prefixD by auto
    then show ?thesis
      using moved mv(2) [of p] t2 [of p] that(1) by (auto simp: account_home_def)
  qed
qed

lemma quarantine_quiet: "quarantineHome d a su s = (e, s') \<Longrightarrow> lin_users s' = lin_users s \<and> lin_ran s' = lin_ran s"
  by (auto simp: quarantineHome_def Let_def onto_def saying_def on_tree_def split: prod.splits option.splits sum.splits if_splits)

text \<open>
  What a deletion that succeeds leaves: the home in the trash if its place there was free; if
  something already lies there, all files stay where they are.
\<close>

definition files_kept :: "linux_driver \<Rightarrow> ident \<Rightarrow> string \<Rightarrow> tree \<Rightarrow> tree \<Rightarrow> bool" where
  "files_kept d a su t t' \<longleftrightarrow>
     (if t (path_parts (lnx_trash d) @ [a]) = None
      then quarantined (account_home d su) (path_parts (lnx_trash d) @ [a]) t t' \<and>
        (\<forall>p. \<not> prefix (account_home d su) p \<and> \<not> prefix (path_parts (lnx_trash d)) p \<longrightarrow> t' p = t p)
      else \<forall>p. p \<noteq> path_parts (lnx_trash d) \<longrightarrow> t' p = t p)"

text \<open>C15: deleting an account removes only its own user, and keeps its files.  \<open>userdel\<close> runs only
  for a user that carries the mark of the account and is not root, and it is the only command that
  runs; once the deletion succeeded, everything that was below the home directory is below the
  account's place in the trash, nothing is left in \<open>/home\<close>, and everything outside the home and
  the trash is as it was, provided that place was free.  If something already lies there, the deletion
  succeeds too, but moves nothing: the home stays in \<open>/home\<close>, and only the mode of the trash
  directory itself may change.  Assumed: \<open>userdel\<close> without \<open>-r\<close> leaves the files alone, a system call
  does not fail with \<open>file does not exist\<close> unless that is so, the tree is well formed, the way to
  \<open>/home\<close> has no symbolic link, and the trash, if there, is a directory.\<close>

theorem deleted_account_is_quarantined:
  assumes del: "linux_Delete d a su s = (e, s')" and laws: "faults_are_faults d" "userdel_keeps_files d"
    and roots: "is_rooted (lnx_home d)" "is_rooted (lnx_trash d)" "path_parts (lnx_trash d) = path_parts (lnx_home d) @ [''.webycp-trash'']"
    and t: "tree_ok (lin_tree s)" "real_dirs (lin_tree s) (path_parts (lnx_home d))"
      "lin_tree s (path_parts (lnx_trash d)) = None \<or> is_DDir (lin_tree s (path_parts (lnx_trash d)))"
  shows "(lin_ran s' \<noteq> lin_ran s \<longrightarrow> (\<exists>found. lin_users s su = Some found \<and> hu_name found = ''WEBYCP-'' @ a \<and> hu_uid found \<noteq> ''0'' \<and>
        lin_ran s' = lin_ran s @ [[''/usr/sbin/userdel'', ''--'', su]])) \<and>
    (e = None \<longrightarrow> files_kept d a su (lin_tree s) (lin_tree s'))"
proof (cases "hostuser_ValidateNames a su")
  case (Inl err)
  then show ?thesis
    using del by (auto simp: linux_Delete_def)
next
  case names: (Inr u)
  have plain: "plain_part a" "plain_part su" "''.webycp-trash'' \<noteq> su"
    using names system_user_plain [OF names] id_one_line
    by (auto simp: hostuser_ValidateNames_def validate_ID_def plain_part_def idPattern_def list_all_iff is_hex_lower_def
      is_digit_def bytes_between_def byte_def)
  have moves: "files_kept d a su (lin_tree s) (lin_tree s')"
    if "quarantineHome d a su s1 = (None, s')" "lin_tree s1 = lin_tree s" for s1
    using quarantine_moves(1-3) [OF that(1) plain(1,2) roots plain(3)] t laws(1) unfolding that(2) files_kept_def by simp
  obtain r0 s0 where ran: "linux_run d [''/usr/sbin/userdel'', ''--'', su] s = (r0, s0)"
    by (metis prod.exhaust)
  consider "s' = s" "e \<noteq> None" | (unknown) "linux_lookup d su s = Inr None" "quarantineHome d a su s = (e, s')"
    | (known) found i r s1 where "linux_lookup d su s = Inr (Some found)" "hostuser_Validate found (lnx_home d) a su = Inr i"
        "linux_run d [''/usr/sbin/userdel'', ''--'', su] s = (r, s1)"
        "(e, s') = (case r of None \<Rightarrow> quarantineHome d a su s1 | Some err \<Rightarrow> (Some (Wrapped ''delete system user'' err), s1))"
    using del names ran by (cases r0) (auto simp: linux_Delete_def saying_def split: sum.splits option.splits)
  then show ?thesis
  proof cases
    case unknown
    then show ?thesis
      using moves [of s] quarantine_quiet by auto
  next
    case known
    have s1: "lin_ran s1 = lin_ran s @ [[''/usr/sbin/userdel'', ''--'', su]]" "lin_tree s1 = lin_tree s"
      using known(3) laws(2) by (auto simp: linux_run_def userdel_keeps_files_def split: prod.splits) (metis snd_conv)
    have "lin_ran s' = lin_ran s1"
      using known(4) [symmetric] quarantine_quiet [of d a su s1 e s'] by (auto split: option.splits)
    moreover have "lin_users s su = Some found" "hu_name found = ''WEBYCP-'' @ a" "hu_uid found \<noteq> ''0''"
      using known(1,2) by (auto simp: linux_lookup_def hostuser_Validate_def hostuser_Marker_def split: option.splits if_splits)
    ultimately show ?thesis
      using s1 known(4) [symmetric] moves [of s1] by (cases r) auto
  qed auto
qed

section \<open>Suspending an account\<close>

definition shut :: "linux_driver \<Rightarrow> string \<Rightarrow> tree \<Rightarrow> bool" where
  "shut d su t \<longleftrightarrow> (\<exists>u g. t (account_home d su) = Some (DDir 0 u g))"

lemma identity_home:
  assumes "linux_identity d a su s = Inr i" "is_rooted (lnx_home d)"
  shows "path_parts (idn_home i) = account_home d su" "idn_user i = su" "plain_part su"
proof -
  obtain found where v: "hostuser_Validate found (lnx_home d) a su = Inr i" "hostuser_ValidateNames a su = Inr ()"
    using assms(1) by (auto simp: linux_identity_def)
  show plain: "plain_part su"
    using system_user_plain [OF v(2)] .
  show "idn_user i = su"
    using Validate_user [OF v(1)] by simp
  have "idn_home i = lnx_home d @ ''/'' @ su"
    using v(1) by (auto simp: hostuser_Validate_def split: option.splits if_splits)
  moreover have "path_parts (lnx_home d @ ''/'' @ su) = path_parts (lnx_home d) @ [su]"
    using path_parts_join [OF assms(2) plain] by simp
  ultimately show "path_parts (idn_home i) = account_home d su"
    by (simp add: account_home_def)
qed

lemma Chmod_real:
  assumes "os_Chmod io p m t = (None, t')" "real_dirs t p" "p \<noteq> []"
  shows "\<exists>u g. t' = t(p \<mapsto> DDir m u g)"
proof -
  have "is_DDir (t p)"
    using assms(2,3) by (simp add: real_dirs_def)
  then obtain m0 u g where "t p = Some (DDir m0 u g)"
    by (cases "t p"; cases "the (t p)") (auto simp: is_DDir_def)
  then show ?thesis
    using assms(1) real_dirs_walk [OF assms(2), of 40] by (auto simp: os_Chmod_def split: option.splits)
qed

lemma account_home_some: "account_home d su \<noteq> []"
  by (simp add: account_home_def)

lemma Disable_shuts:
  assumes "linux_Disable d a su s = (None, s')" "is_rooted (lnx_home d)" "real_dirs (lin_tree s) (account_home d su)"
  shows "shut d su (lin_tree s')"
proof -
  obtain i where i: "linux_identity d a su s = Inr i" "on_tree (os_Chmod (lnx_io d) (path_parts (idn_home i)) 0) s = (None, s')"
    using assms(1) by (auto simp: linux_Disable_def split: sum.splits)
  obtain t where t: "os_Chmod (lnx_io d) (account_home d su) 0 (lin_tree s) = (None, t)" "s' = s\<lparr>lin_tree := t\<rparr>"
    using i(2) unfolding identity_home(1) [OF i(1) assms(2)] on_tree_None by blast
  then show ?thesis
    using Chmod_real [OF t(1) assms(3) account_home_some] by (auto simp: shut_def)
qed

lemma Disable_works:
  assumes "linux_identity d a su s = Inr i" "is_rooted (lnx_home d)" "real_dirs (lin_tree s) (account_home d su)" "\<forall>c. lnx_io d c = None"
  shows "fst (linux_Disable d a su s) = None"
proof -
  have "is_DDir (lin_tree s (account_home d su))"
    using assms(3) account_home_some by (simp add: real_dirs_def)
  then show ?thesis
    using assms(1,4) real_dirs_walk [OF assms(3), of 40] identity_home(1) [OF assms(1,2)]
    by (cases "lin_tree s (account_home d su)") (auto simp: linux_Disable_def saying_def on_tree_def os_Chmod_def is_DDir_def)
qed

lemma Enable_keeps_way:
  assumes "linux_Enable d a su s = (None, s')" "is_rooted (lnx_home d)" "real_dirs (lin_tree s) (account_home d su)"
  shows "real_dirs (lin_tree s') (account_home d su)" "linux_identity d a su s' = linux_identity d a su s"
    "\<exists>i. linux_identity d a su s = Inr i"
proof -
  obtain i s1 where i: "linux_identity d a su s = Inr i" and s1: "on_tree (os_Chmod (lnx_io d) (path_parts (idn_home i)) 0x1C8) s = (None, s1)"
    and lay: "linux_ensureLayout d i s1 = (None, s')"
    using assms(1) by (auto simp: linux_Enable_def onto_None split: sum.splits if_splits)
  note h = identity_home [OF i assms(2)]
  obtain t where t: "os_Chmod (lnx_io d) (account_home d su) 0x1C8 (lin_tree s) = (None, t)" "s1 = s\<lparr>lin_tree := t\<rparr>"
    using s1 unfolding h(1) on_tree_None by blast
  then obtain u g where t1: "lin_tree s1 = (lin_tree s)(account_home d su \<mapsto> DDir 0x1C8 u g)" "lin_users s1 = lin_users s"
    using Chmod_real [OF t(1) assms(3) account_home_some] by auto
  obtain g' where l: "laid_out d i g' (lin_tree s')" "lin_users s' = lin_users s1"
    "\<And>p. p \<notin> layout_places d su \<Longrightarrow> lin_tree s' p = lin_tree s1 p"
    using layout_done [OF lay] h(2,3) by auto
  show "real_dirs (lin_tree s') (account_home d su)"
  proof (rule real_dirs_same [OF assms(3)])
    fix ys
    assume p: "prefix ys (account_home d su)" "ys \<noteq> []"
    then have dir: "is_DDir (lin_tree s ys)"
      using assms(3) by (simp add: real_dirs_def)
    show "is_DDir (lin_tree s' ys) = is_DDir (lin_tree s ys)"
    proof (cases "ys = account_home d su")
      case True
      then show ?thesis
        using l(1) h(2) dir by (simp add: laid_out_def is_DDir_def)
    next
      case False
      then have "ys \<notin> layout_places d su"
        using p(1) prefix_length_le [OF p(1)] by (auto simp: layout_places_def)
      then show ?thesis
        using l(3) t1 False by simp
    qed
  qed
  show "linux_identity d a su s' = linux_identity d a su s"
    using l(2) t1(2) by (simp add: linux_identity_def linux_lookup_def split: option.splits)
  show "\<exists>i. linux_identity d a su s = Inr i"
    using i by blast
qed

lemma ftp_disabled:
  assumes "pureftpd_setEnabled x h a su False v = (None, v')"
  shows "\<not> granted h (fst v') a e i"
  using assms
  by (auto simp: pureftpd_setEnabled_def pureftpd_save_def pureftpd_read_def granted_def Let_def update_conv'
      split: if_splits sum.splits option.splits)

lemma ftp_disabled_lines:
  assumes "pureftpd_setEnabled x h a su False v = (None, v')" "ftp_published h v"
  shows "set (snd v') = {ftp_line i e | b e i. b \<noteq> a \<and> granted h (fst v) b e i}"
proof -
  have "set (snd v') = {ftp_line i e | b e i. granted h (fst v') b e i}"
    using setEnabled_publishes [OF assms] by (simp add: ftp_published_def)
  moreover have "granted h (fst v') b e i \<longleftrightarrow> b \<noteq> a \<and> granted h (fst v) b e i" for b e i
    using ftp_disabled [OF assms(1)] setEnabled_others [OF assms(1)] by (cases "b = a") auto
  ultimately show ?thesis
    by simp
qed

text \<open>
  An enabling whose second step fails: the error is reported, and both steps are taken back as far as
  the host lets them.
\<close>

lemma manager_Enable_fails:
  assumes "linux_Enable (acm_linux m) a su (ach_lin s) = (None, l)"
    and "pureftpd_setEnabled (acm_ext m) (acm_ftp m) a su True (ach_ftp s) = (Some e, v)"
  shows "fst (manager_Enable m a su s) \<noteq> None"
    "ach_lin (snd (manager_Enable m a su s)) = snd (linux_Disable (acm_linux m) a su l)"
    "ach_ftp (snd (manager_Enable m a su s)) = snd (pureftpd_setEnabled (acm_ext m) (acm_ftp m) a su False v)"
  using assms by (simp_all add: manager_Enable_def manager_ftp_def on_lin_def on_ftp_def split: prod.splits)

lemma manager_Enable_works:
  "fst (manager_Enable m a su s) = None \<longleftrightarrow> fst (linux_Enable (acm_linux m) a su (ach_lin s)) = None \<and>
     fst (pureftpd_setEnabled (acm_ext m) (acm_ftp m) a su True (ach_ftp s)) = None"
  by (auto simp: manager_Enable_def manager_ftp_def on_lin_def on_ftp_def onto_def split: prod.splits option.splits)


section \<open>Examples\<close>

text \<open>A host whose user database starts empty, and the account of the FTP examples on it.\<close>

definition sample_passwd :: host_user where
  "sample_passwd = \<lparr>hu_uid = ''1001'', hu_gid = ''1001'', hu_name = hostuser_Marker (acc_id ftp_owner),
     hu_home = ''/home/'' @ acc_system_user ftp_owner\<rparr>"

definition sample_linux :: linux_driver where
  "sample_linux = \<lparr>lnx_home = ''/home'', lnx_trash = ''/home/.webycp-trash'', lnx_lookup = \<lambda>_. None, lnx_group = Inr ''33'',
     lnx_run = (\<lambda>args s. (None, if hd args = ''/usr/sbin/useradd''
        then s\<lparr>lin_users := (lin_users s)(last args \<mapsto> sample_passwd),
          lin_tree := (lin_tree s)([''home'', last args] \<mapsto> DDir 0x1C0 1001 1001)\<rparr>
        else s\<lparr>lin_users := (lin_users s)(last args := None)\<rparr>)),
     lnx_io = \<lambda>_. None\<rparr>"

definition sample_lin :: lin_state where
  "sample_lin = \<lparr>lin_tree = [[''home''] \<mapsto> DDir 0x1ED 0 0], lin_users = \<lambda>_. None, lin_ran = []\<rparr>"

definition sample_made :: lin_state where
  "sample_made = snd (linux_Ensure sample_linux (acc_id ftp_owner) (acc_system_user ftp_owner) sample_lin)"

theorem ensured_account_has_home_witness:
  "\<exists>found i g. lin_users sample_made (acc_system_user ftp_owner) = Some found \<and>
     hostuser_Validate found ''/home'' (acc_id ftp_owner) (acc_system_user ftp_owner) = Inr i \<and> web_gid (Inr ''33'') = Inr g \<and>
     laid_out sample_linux i g (lin_tree sample_made)"
proof -
  have "fst (linux_Ensure sample_linux (acc_id ftp_owner) (acc_system_user ftp_owner) sample_lin) = None"
    by code_simp
  then have "linux_Ensure sample_linux (acc_id ftp_owner) (acc_system_user ftp_owner) sample_lin = (None, sample_made)"
    unfolding sample_made_def by (metis prod.collapse)
  from ensured_account_has_home [OF this] show ?thesis
    by (auto simp: sample_linux_def)
qed

definition sample_occupied :: lin_state where
  "sample_occupied = \<lparr>lin_tree = [[''home''] \<mapsto> DDir 0x1ED 0 0, [''home'', acc_system_user ftp_owner] \<mapsto> DDir 0x1C8 1001 33,
       [''home'', acc_system_user ftp_owner, ''web''] \<mapsto> DDir 0x1C8 1001 33,
       [''home'', acc_system_user ftp_owner, ''web'', ''index.php''] \<mapsto> DFile ''hello''],
     lin_users = [acc_system_user ftp_owner \<mapsto> sample_passwd], lin_ran = []\<rparr>"

definition sample_deleted :: lin_state where
  "sample_deleted = snd (linux_Delete sample_linux (acc_id ftp_owner) (acc_system_user ftp_owner) sample_occupied)"

lemma sample_roots:
  "is_rooted (lnx_home sample_linux)" "is_rooted (lnx_trash sample_linux)"
  "path_parts (lnx_home sample_linux) = [''home'']" "path_parts (lnx_trash sample_linux) = [''home'', ''.webycp-trash'']"
  by code_simp+

lemma sample_home: "account_home sample_linux (acc_system_user ftp_owner) = [''home'', acc_system_user ftp_owner]"
  by (simp add: account_home_def sample_roots)

lemma sample_real: "real_dirs (lin_tree sample_occupied) [''home'', acc_system_user ftp_owner]"
  "real_dirs (lin_tree sample_occupied) [''home'']"
proof -
  have "plain_part (acc_system_user ftp_owner)"
    by code_simp
  then have "real_dirs (lin_tree sample_occupied) ([''home''] @ [acc_system_user ftp_owner])"
    unfolding real_dirs_snoc
    by (auto simp: real_dirs_def sample_occupied_def is_DDir_def plain_part_def prefix_Cons)
  then show "real_dirs (lin_tree sample_occupied) [''home'', acc_system_user ftp_owner]" "real_dirs (lin_tree sample_occupied) [''home'']"
    using real_dirs_snoc [of "lin_tree sample_occupied" "[''home'']"] by simp_all
qed

theorem deleted_account_is_quarantined_witness:
  "lin_tree sample_deleted [''home'', ''.webycp-trash'', acc_id ftp_owner, ''web'', ''index.php''] = Some (DFile ''hello'') \<and>
   lin_tree sample_deleted [''home'', acc_system_user ftp_owner] = None"
proof -
  have "fst (linux_Delete sample_linux (acc_id ftp_owner) (acc_system_user ftp_owner) sample_occupied) = None"
    by code_simp
  then have "linux_Delete sample_linux (acc_id ftp_owner) (acc_system_user ftp_owner) sample_occupied = (None, sample_deleted)"
    unfolding sample_deleted_def by (metis prod.collapse)
  moreover have "faults_are_faults sample_linux" "userdel_keeps_files sample_linux"
    by (simp_all add: faults_are_faults_def userdel_keeps_files_def sample_linux_def)
  moreover have "tree_ok (lin_tree sample_occupied)"
    by (auto simp: tree_ok_def sample_occupied_def is_DDir_def append_eq_Cons_conv split: if_splits)
  moreover have ne: "acc_system_user ftp_owner \<noteq> ''.webycp-trash''"
    by code_simp
  then have "lin_tree sample_occupied [''home'', ''.webycp-trash''] = None" "lin_tree sample_occupied [''home'', ''.webycp-trash'', acc_id ftp_owner] = None"
    by (simp_all add: sample_occupied_def)
  ultimately have q: "quarantined [''home'', acc_system_user ftp_owner] [''home'', ''.webycp-trash'', acc_id ftp_owner]
      (lin_tree sample_occupied) (lin_tree sample_deleted)"
    using deleted_account_is_quarantined [of sample_linux "acc_id ftp_owner" "acc_system_user ftp_owner" sample_occupied None sample_deleted]
      sample_roots sample_real sample_home by (simp add: files_kept_def)
  have "lin_tree sample_occupied [''home'', acc_system_user ftp_owner, ''web'', ''index.php''] = Some (DFile ''hello'')"
    by (simp add: sample_occupied_def)
  then show ?thesis
    using q [unfolded quarantined_def, THEN spec, of "[''web'', ''index.php'']"] q [unfolded quarantined_def, THEN spec, of "[]"] by simp
qed

text \<open>Suspending the account of the sample host, whose login was granted before.\<close>

definition sample_manager :: account_manager where
  "sample_manager = \<lparr>acm_linux = sample_linux, acm_runtime = sample_fpm, acm_ext = plain_ext, acm_ftp = sample_ftp_host\<rparr>"

definition sample_account_host :: account_host where
  "sample_account_host = \<lparr>ach_lin = sample_occupied, ach_web = sample_pools, ach_ftp = (sample_ftp_files, [])\<rparr>"

definition sample_suspended :: account_host where
  "sample_suspended = snd (manager_Disable sample_manager (acc_id ftp_owner) (acc_system_user ftp_owner) sample_account_host)"

lemma sample_suspends:
  "fst (manager_Disable sample_manager (acc_id ftp_owner) (acc_system_user ftp_owner) sample_account_host) = None"
proof -
  have "fst (linux_Disable sample_linux (acc_id ftp_owner) (acc_system_user ftp_owner) sample_occupied) = None"
    by code_simp
  moreover have "fst (pureftpd_setEnabled plain_ext sample_ftp_host (acc_id ftp_owner) (acc_system_user ftp_owner) False (sample_ftp_files, [])) = None"
  proof -
    let ?v = "\<lparr>fst_id = acc_id ftp_owner, fst_user = acc_system_user ftp_owner, fst_suspended = True, fst_entries = Some [ftp_entry_of sample_ftp]\<rparr>"
    have names: "hostuser_ValidateNames (acc_id ftp_owner) (acc_system_user ftp_owner) = Inr ()" "idPattern (acc_id ftp_owner)"
      "''wcp_'' @ take 12 (acc_id ftp_owner) = acc_system_user ftp_owner"
      by code_simp+
    have up: "AList.update (acc_id ftp_owner) ?v sample_ftp_files = [(acc_id ftp_owner, ?v)]"
      by (simp add: sample_ftp_files_def)
    have read: "pureftpd_read plain_ext sample_ftp_files (acc_id ftp_owner) (acc_system_user ftp_owner) = Inr (?v\<lparr>fst_suspended := False\<rparr>)"
      "pureftpd_read plain_ext [(acc_id ftp_owner, ?v)] (acc_id ftp_owner) (acc_system_user ftp_owner) = Inr ?v"
      using sample_entries_valid by (simp_all add: pureftpd_read_def sample_ftp_files_def)
    have "pureftpd_rebuild plain_ext sample_ftp_host [(acc_id ftp_owner, ?v)] = Inr []"
      using names read(2) by (simp add: pureftpd_rebuild_def Let_def) (simp add: sample_ftp_host_def)
    moreover have "fho_prepare sample_ftp_host = None" "fho_disconnect sample_ftp_host 1001 = None"
      by (simp_all add: sample_ftp_host_def)
    ultimately show ?thesis
      by (simp add: pureftpd_setEnabled_def pureftpd_save_def names read(1) sample_ftp_identity up Let_def)
  qed
  ultimately show ?thesis
    by (simp add: manager_Disable_def manager_ftp_def on_lin_def on_ftp_def sample_manager_def sample_account_host_def split: prod.splits) auto
qed


end
