(* ===== verification/HostWebsites.thy ===== *)
theory HostWebsites
  imports SystemAccounts Nginx
begin

text \<open>
  The website manager of the agent, \<open>internal/agent/website/manager.go\<close>: it puts together the
  directories of a website, the PHP pool of its account and its nginx configuration, for the
  descriptions the control plane sends.
\<close>

section \<open>The manager\<close>

record site_spec =
  hws_account :: ident
  hws_user :: string
  hws_website :: ident
  hws_root :: string
  hws_kind :: string
  hws_web :: string
  hws_runtime :: string
  hws_version :: string
  hws_name :: string
  hws_aliases :: "string list"

record website_manager =
  wsm_lookup :: "string \<Rightarrow> err + host_user"
  wsm_group :: "err + string"
  wsm_home :: string
  wsm_io :: dir_io
  wsm_fpm :: fpm_driver
  wsm_nginx :: nginx_driver

text \<open>The directories below the homes, and the files of the services.\<close>

record website_host =
  wsh_tree :: tree
  wsh_web :: web_state

definition hostsite_identity :: "website_manager \<Rightarrow> ident \<Rightarrow> string \<Rightarrow> err + identity" where
  "hostsite_identity m a su =
     andthen (map_err (Wrapped ''lookup system user'') (wsm_lookup m su)) (\<lambda>found. hostuser_Validate found (wsm_home m) a su)"

text \<open>The document root has to be \<open>public_html\<close> in a directory of the account's \<open>web\<close>; the name of that directory.\<close>

definition hostsite_root :: "string \<Rightarrow> string \<Rightarrow> err + string" where
  "hostsite_root home root =
     (case path_Rel (path_Join [home, ''web'']) (path_Clean root) of
        None \<Rightarrow> Inl (ValidationErr ''documentRoot'' ''Document root is outside the account web directory'')
      | Some rel \<Rightarrow>
          if rel = ''.'' \<or> is_rooted rel \<or> HasPrefix rel ''../''
          then Inl (ValidationErr ''documentRoot'' ''Document root is outside the account web directory'')
          else (case Split rel (CHR ''/'') of
            [p, q] \<Rightarrow>
              if p = [] \<or> p = ''.'' \<or> q \<noteq> ''public_html'' then Inl (ValidationErr ''documentRoot'' ''Document root is invalid'')
              else Inr p
          | _ \<Rightarrow> Inl (ValidationErr ''documentRoot'' ''Document root is invalid'')))"

definition hostsite_validate :: "website_manager \<Rightarrow> site_spec \<Rightarrow> err + identity \<times> string \<times> string list" where
  "hostsite_validate m v =
     andthen (fail_when (\<not> succeeds (validate_ID ''websiteId'' (hws_website v)) \<or> hws_kind v \<noteq> ''php'' \<or> hws_web v \<noteq> ''nginx'' \<or>
         hws_runtime v \<noteq> ''phpfpm'' \<or> hws_version v \<noteq> ''8.3'') (ValidationErr ''website'' ''Website stack is invalid'')) (\<lambda>_.
     andthen (validate_DomainAliases (ngx_ext (wsm_nginx m)) (hws_name v) (hws_aliases v)) (\<lambda>aliases.
     andthen (hostsite_identity m (hws_account v) (hws_user v)) (\<lambda>i.
     andthen (hostsite_root (idn_home i) (hws_root v)) (\<lambda>dir. Inr (i, dir, aliases)))))"

text \<open>The directories of a website, each reached through the one above it.\<close>

definition hostsite_dirs :: "website_manager \<Rightarrow> string \<Rightarrow> identity \<Rightarrow> string \<Rightarrow> int \<Rightarrow> tree step" where
  "hostsite_dirs m su i dir g t =
     (let io = wsm_io m in
      case andthen (fsx_OpenDir io (wsm_home m) t) (\<lambda>root. fsx_Open io root su t) of
        Inl e \<Rightarrow> (Some e, t)
      | Inr home \<Rightarrow>
          onto (saying ''configure account home for web server'' (fsx_Configure io home 0x1C8 (idn_uid i) g t)) (\<lambda>t.
          case fsx_Open io home ''web'' t of
            Inl e \<Rightarrow> (Some e, t)
          | Inr web \<Rightarrow>
              onto (onto (saying ''configure account web directory'' (fsx_Configure io web 0x1C8 (idn_uid i) g t))
                (\<lambda>t. saying ''ensure website directory'' (fsx_Ensure io web dir 0x1E8 (idn_uid i) g t))) (\<lambda>t.
              case fsx_Open io web dir t of
                Inl e \<Rightarrow> (Some e, t)
              | Inr site \<Rightarrow> saying ''ensure document root'' (fsx_Ensure io site ''public_html'' 0x5E8 (idn_uid i) g t))))"

definition on_dirs :: "tree step \<Rightarrow> website_host step" where
  "on_dirs f s = (case f (wsh_tree s) of (e, t) \<Rightarrow> (e, s\<lparr>wsh_tree := t\<rparr>))"

definition on_services :: "web_state step \<Rightarrow> website_host step" where
  "on_services f s = (case f (wsh_web s) of (e, w) \<Rightarrow> (e, s\<lparr>wsh_web := w\<rparr>))"

definition hostsite_account :: "site_spec \<Rightarrow> identity \<Rightarrow> runtime_account" where
  "hostsite_account v i = \<lparr>rta_id = hws_account v, rta_user = hws_user v, rta_home = idn_home i, rta_version = hws_version v\<rparr>"

definition hostsite_site :: "site_spec \<Rightarrow> string list \<Rightarrow> string \<Rightarrow> web_site" where
  "hostsite_site v aliases socket =
     \<lparr>wsi_id = hws_website v, wsi_name = hws_name v, wsi_aliases = aliases, wsi_root = hws_root v, wsi_socket = socket,
      wsi_cert = [], wsi_key = [], wsi_redirect = False\<rparr>"

definition hostsite_services :: "website_manager \<Rightarrow> site_spec \<Rightarrow> identity \<Rightarrow> string list \<Rightarrow> web_state step" where
  "hostsite_services m v i aliases s =
     (case fpm_Ensure (wsm_fpm m) (hostsite_account v i) s of
        (Inl e, s1) \<Rightarrow> (Some (Wrapped ''ensure website runtime'' e), s1)
      | (Inr socket, s1) \<Rightarrow> nginx_Ensure (wsm_nginx m) (hostsite_site v aliases socket) s1)"

definition hostsite_Ensure :: "website_manager \<Rightarrow> site_spec \<Rightarrow> website_host step" where
  "hostsite_Ensure m v s =
     (case andthen (hostsite_validate m v) (\<lambda>r. andthen (web_gid (wsm_group m)) (\<lambda>g. Inr (r, g))) of
        Inl e \<Rightarrow> (Some e, s)
      | Inr ((i, dir, aliases), g) \<Rightarrow>
          onto (on_dirs (hostsite_dirs m (hws_user v) i dir g) s) (on_services (hostsite_services m v i aliases)))"

definition hostsite_Disable :: "website_manager \<Rightarrow> site_spec \<Rightarrow> website_host step" where
  "hostsite_Disable m v s =
     (case hostsite_validate m v of
        Inl e \<Rightarrow> (Some e, s)
      | Inr _ \<Rightarrow> on_services (nginx_Disable (wsm_nginx m) (hws_website v)) s)"

definition hostsite_quarantine :: "website_manager \<Rightarrow> site_spec \<Rightarrow> identity \<Rightarrow> string \<Rightarrow> tree step" where
  "hostsite_quarantine m v i dir t =
     (let io = wsm_io m in
      case andthen (fsx_OpenDir io (wsm_home m) t) (\<lambda>root.
           andthen (fsx_Open io root (hws_user v) t) (\<lambda>home.
           andthen (fsx_Open io home ''web'' t) (\<lambda>web. Inr (home, web)))) of
        Inl e \<Rightarrow> (Some e, t)
      | Inr (home, web) \<Rightarrow>
          onto (saying ''ensure account trash'' (fsx_Ensure io home ''.webycp-trash'' 0x1C0 (idn_uid i) (idn_gid i) t)) (\<lambda>t.
          case fsx_Open io home ''.webycp-trash'' t of
            Inl e \<Rightarrow> (Some e, t)
          | Inr trash \<Rightarrow>
              (case fsx_Open io web dir t of
                 Inr _ \<Rightarrow> saying ''quarantine website directory'' (fsx_Rename io web dir trash (hws_website v) t)
               | Inl e \<Rightarrow>
                   if \<not> error_is e ENOENT then (Some e, t)
                   else (case fsx_Open io trash (hws_website v) t of
                     Inr _ \<Rightarrow> (None, t)
                   | Inl e' \<Rightarrow> (Some (if error_is e' ENOENT then Wrapped ''website directory does not exist'' e else e'), t)))))"

definition hostsite_Delete :: "website_manager \<Rightarrow> site_spec \<Rightarrow> website_host step" where
  "hostsite_Delete m v s =
     (case hostsite_validate m v of
        Inl e \<Rightarrow> (Some e, s)
      | Inr (i, dir, _) \<Rightarrow>
          onto (saying ''delete web server site'' (on_services (nginx_Delete (wsm_nginx m) (hws_website v)) s))
            (on_dirs (hostsite_quarantine m v i dir)))"

section \<open>What the operations do\<close>

lemma Join_Split: "Join (Split s c) [c] = s"
proof (induction s)
  case (Cons a s)
  then show ?case
    using Split_neq_Nil [of s c] by (cases "Split s c"; cases "tl (Split s c)") auto
qed simp

lemma plain_site_names [simp]: "plain_part ''public_html''" "plain_part ''.webycp-trash''"
  by (simp_all add: plain_part_def)

lemma hostsite_root_below:
  assumes "hostsite_root home root = Inr dir" "is_rooted home"
  shows "path_parts root = path_parts home @ [''web'', dir, ''public_html'']" "plain_part dir"
proof -
  let ?base = "path_Join [home, ''web'']"
  have web: "plain_part ''web''"
    by (simp add: plain_part_def)
  have base: "is_rooted ?base" "path_parts ?base = path_parts home @ [''web'']"
    using path_Join_name [OF assms(2) web] by (simp_all add: is_rooted_def)
  obtain rel where rel: "path_Rel ?base (path_Clean root) = Some rel" "rel \<noteq> ''.''" "\<not> HasPrefix rel ''../''"
    and c: "(case Split rel (CHR ''/'') of [p, q] \<Rightarrow>
        if p = [] \<or> p = ''.'' \<or> q \<noteq> ''public_html'' then Inl (ValidationErr ''documentRoot'' ''Document root is invalid'') else Inr p
      | _ \<Rightarrow> Inl (ValidationErr ''documentRoot'' ''Document root is invalid'')) = Inr dir"
    using assms(1) by (auto simp: hostsite_root_def split: option.splits if_splits)
  from c have parts: "Split rel (CHR ''/'') = [dir, ''public_html'']"
    by (auto split: list.splits if_splits)
  have "rel = dir @ ''/'' @ ''public_html''"
    using Join_Split [of rel "CHR ''/''"] parts by simp
  then have "dir \<noteq> ''..''"
    using rel(3) by (auto simp: HasPrefix_iff)
  note below = path_Rel_below [OF rel(1) base(1) parts this rel(2)]
  then have r: "is_rooted root"
    using path_Clean_relative by blast
  then show p: "path_parts root = path_parts home @ [''web'', dir, ''public_html'']"
    using below base(2) path_Clean_rooted(3) [OF r] by simp
  then show "plain_part dir"
    using path_parts_rooted [OF r, of dir] by simp
qed

lemma hostsite_validated:
  assumes "hostsite_validate m v = Inr (i, dir, aliases)" "is_rooted (wsm_home m)"
  shows "\<exists>found. wsm_lookup m (hws_user v) = Inr found \<and> hostuser_Validate found (wsm_home m) (hws_account v) (hws_user v) = Inr i"
    "plain_part (hws_user v)" "plain_part dir" "idPattern (hws_website v)" "aliases = sort (hws_aliases v)"
    "path_parts (hws_root v) = path_parts (wsm_home m) @ [hws_user v, ''web'', dir, ''public_html'']"
proof -
  have i: "hostsite_identity m (hws_account v) (hws_user v) = Inr i" and root: "hostsite_root (idn_home i) (hws_root v) = Inr dir"
    and names: "validate_DomainAliases (ngx_ext (wsm_nginx m)) (hws_name v) (hws_aliases v) = Inr aliases"
    and ok: "succeeds (validate_ID ''websiteId'' (hws_website v))"
    using assms(1) by (auto simp: hostsite_validate_def)
  then obtain found where f: "wsm_lookup m (hws_user v) = Inr found" "hostuser_Validate found (wsm_home m) (hws_account v) (hws_user v) = Inr i"
    by (auto simp: hostsite_identity_def)
  then show "\<exists>found. wsm_lookup m (hws_user v) = Inr found \<and> hostuser_Validate found (wsm_home m) (hws_account v) (hws_user v) = Inr i"
    by blast
  show user: "plain_part (hws_user v)"
    using Validate_user [OF f(2)] system_user_plain by blast
  have home: "idn_home i = wsm_home m @ ''/'' @ hws_user v"
    using f(2) by (auto simp: hostuser_Validate_def split: option.splits if_splits)
  then have r: "is_rooted (idn_home i)"
    using assms(2) by (cases "wsm_home m") (auto simp: is_rooted_def)
  note below = hostsite_root_below [OF root r]
  show "plain_part dir" "path_parts (hws_root v) = path_parts (wsm_home m) @ [hws_user v, ''web'', dir, ''public_html'']"
    using below path_parts_join [OF assms(2) user] home by simp_all
  show "aliases = sort (hws_aliases v)"
    using DomainAliases_Inr [OF names] .
  show "idPattern (hws_website v)"
    using ok by (auto simp: validate_ID_def fail_when_def succeeds_def split: if_splits)
qed

text \<open>The directories of a website as they are meant.\<close>

definition site_laid_out :: "string list \<Rightarrow> string \<Rightarrow> int \<Rightarrow> int \<Rightarrow> tree \<Rightarrow> tree" where
  "site_laid_out home dir u g t =
     t(home \<mapsto> DDir 0x1C8 u g, home @ [''web''] \<mapsto> DDir 0x1C8 u g, home @ [''web'', dir] \<mapsto> DDir 0x1E8 u g,
       home @ [''web'', dir, ''public_html''] \<mapsto> DDir 0x5E8 u g)"

lemma hostsite_dirs_done:
  assumes "hostsite_dirs m su i dir g t = (None, t')" "plain_part su" "plain_part dir"
  shows "t' = site_laid_out (path_parts (wsm_home m) @ [su]) dir (idn_uid i) g t"
proof -
  let ?io = "wsm_io m" and ?h = "path_parts (wsm_home m) @ [su]"
  obtain root home where root: "fsx_OpenDir ?io (wsm_home m) t = Inr root" and home: "fsx_Open ?io root su t = Inr home"
    using assms(1) by (auto simp: hostsite_dirs_def Let_def andthen_def split: sum.splits)
  have r: "root = path_parts (wsm_home m)"
    using root by (auto simp: fsx_OpenDir_def dest: open_fd_Inr)
  obtain m0 u0 g0 where h: "home = ?h" "t ?h = Some (DDir m0 u0 g0)"
    using Open_Inr [OF assms(2) home] r by auto
  obtain t1 where t1: "fsx_Configure ?io ?h 0x1C8 (idn_uid i) g t = (None, t1)"
    and rest1: "(case fsx_Open ?io ?h ''web'' t1 of Inl e \<Rightarrow> (Some e, t1) | Inr web \<Rightarrow>
      onto (onto (saying ''configure account web directory'' (fsx_Configure ?io web 0x1C8 (idn_uid i) g t1))
        (\<lambda>t. saying ''ensure website directory'' (fsx_Ensure ?io web dir 0x1E8 (idn_uid i) g t))) (\<lambda>t.
        case fsx_Open ?io web dir t of Inl e \<Rightarrow> (Some e, t)
        | Inr site \<Rightarrow> saying ''ensure document root'' (fsx_Ensure ?io site ''public_html'' 0x5E8 (idn_uid i) g t))) = (None, t')"
    using assms(1) by (auto simp: hostsite_dirs_def Let_def root home h(1) onto_None)
  obtain web where web: "fsx_Open ?io ?h ''web'' t1 = Inr web"
    using rest1 by (cases "fsx_Open ?io ?h ''web'' t1") auto
  obtain m1 u1 g1 where w: "web = ?h @ [''web'']" "t1 (?h @ [''web'']) = Some (DDir m1 u1 g1)"
    using Open_Inr [OF plain_names(1) web] by auto
  obtain t2 t3 where t23: "fsx_Configure ?io web 0x1C8 (idn_uid i) g t1 = (None, t2)" "fsx_Ensure ?io web dir 0x1E8 (idn_uid i) g t2 = (None, t3)"
    and rest3: "(case fsx_Open ?io web dir t3 of Inl e \<Rightarrow> (Some e, t3)
        | Inr site \<Rightarrow> saying ''ensure document root'' (fsx_Ensure ?io site ''public_html'' 0x5E8 (idn_uid i) g t3)) = (None, t')"
    using rest1 by (auto simp: web onto_None)
  obtain site where site: "fsx_Open ?io web dir t3 = Inr site"
    using rest3 by (cases "fsx_Open ?io web dir t3") auto
  then have "site = web @ [dir]"
    using Open_Inr [OF assms(3)] by blast
  moreover have "fsx_Ensure ?io site ''public_html'' 0x5E8 (idn_uid i) g t3 = (None, t')"
    using rest3 by (simp add: site)
  ultimately have "t' = t3(web @ [dir, ''public_html''] \<mapsto> DDir 0x5E8 (idn_uid i) g)"
    using Ensure_None by fastforce
  moreover have "t3 = t2(web @ [dir] \<mapsto> DDir 0x1E8 (idn_uid i) g)"
    using Ensure_None [OF t23(2) assms(3)] .
  moreover have "t2 = t1(web \<mapsto> DDir 0x1C8 (idn_uid i) g)" "t1 = t(?h \<mapsto> DDir 0x1C8 (idn_uid i) g)"
    using Configure_None [OF t23(1)] Configure_None [OF t1 h(2)] w by auto
  ultimately show ?thesis
    by (simp add: site_laid_out_def w(1))
qed

text \<open>File operations of both services succeed, and their files are apart.\<close>

definition hosting_calm :: "website_manager \<Rightarrow> site_spec \<Rightarrow> fs \<Rightarrow> bool" where
  "hosting_calm m v fs \<longleftrightarrow> fpm_calm (wsm_fpm m) (hws_account v) fs \<and> nginx_calm (wsm_nginx m) (hws_website v) fs \<and>
     fpm_pool_path (wsm_fpm m) (hws_account v) \<notin> nginx_paths (wsm_nginx m) (hws_website v) \<and>
     (\<forall>k. ngx_tmp (wsm_nginx m) k \<notin> {fpm_pool_path (wsm_fpm m) (hws_account v), fpm_pools (wsm_fpm m), fpm_run_dir (wsm_fpm m)})"

lemma hostsite_services_done:
  assumes run: "hostsite_services m v i aliases s = (None, s')" and calm: "hosting_calm m v (wst_fs s)"
    and plain: "CHR 0x5C \<notin> set (hws_root v)" "CHR 0x5C \<notin> set (fpm_socket (wsm_fpm m) (hws_account v))"
      "CHR 0x0A \<notin> set (fpm_socket (wsm_fpm m) (hws_account v))"
  defines "socket \<equiv> fpm_socket (wsm_fpm m) (hws_account v)"
  shows "\<exists>c t. served (wsm_nginx m) (wst_fs s') (hws_website v) = Some c \<and>
      reads_config c (site_tree ((hostsite_site v aliases socket)\<lparr>wsi_aliases := sort aliases\<rparr>)) \<and>
      pool_of (wsm_fpm m) (wst_fs s') (hws_account v) = Some t \<and> read_pool t = pool_meant (hostsite_account v i) socket"
proof -
  let ?a = "hostsite_account v i" and ?v = "hostsite_site v aliases socket" and ?path = "fpm_pool_path (wsm_fpm m) (hws_account v)"
  have ids: "rta_id ?a = hws_account v" "wsi_id ?v = hws_website v" "wsi_root ?v = hws_root v" "wsi_socket ?v = socket"
    "wsi_cert ?v = []" "wsi_key ?v = []" "wsi_aliases ?v = aliases"
    by (simp_all add: hostsite_account_def hostsite_site_def)
  obtain k s1 where k: "fpm_Ensure (wsm_fpm m) ?a s = (Inr k, s1)" "nginx_Ensure (wsm_nginx m) (hostsite_site v aliases k) s1 = (None, s')"
    using run by (auto simp: hostsite_services_def split: prod.splits sum.splits)
  have fc: "fpm_calm (wsm_fpm m) (rta_id ?a) (wst_fs s)"
    using calm by (simp add: hosting_calm_def ids)
  obtain fs1 where pool: "k = socket" "dirs_added (wst_fs s) fs1" "\<forall>p. p \<notin> {fpm_pools (wsm_fpm m), fpm_run_dir (wsm_fpm m)} \<longrightarrow> fs1 p = wst_fs s p"
    "wst_fs s1 = fs1(?path \<mapsto> File (fpm_render ?a socket) 0x1A4)"
    "hostuser_ValidateNames (hws_account v) (rta_user ?a) = Inr ()" "validHome (rta_home ?a) (rta_user ?a) = Inr ()"
    using Ensure_pool [OF k(1) fc] unfolding ids socket_def by metis
  have ne: "nginx_Ensure (wsm_nginx m) ?v s1 = (None, s')"
    using k(2) pool(1) by simp
  have nc: "nginx_calm (wsm_nginx m) (hws_website v) (wst_fs s1)"
    using calm pool(3,4) by (auto simp: hosting_calm_def nginx_calm_def)
  have noslash: "\<forall>p \<in> {wsi_root ?v, wsi_socket ?v, wsi_cert ?v, wsi_key ?v}. CHR 0x5C \<notin> set p"
    unfolding ids using plain by (simp add: socket_def)
  note site = Ensure_site [OF ne noslash, unfolded ids]
  obtain fs2 mode where final: "dirs_added (wst_fs s1) fs2"
    "wst_fs s' = fs2(ngx_include (wsm_nginx m) \<mapsto> File (include_text (wsm_nginx m)) mode,
       nginx_config_path (wsm_nginx m) (hws_website v) \<mapsto> File (nginx_render (?v\<lparr>wsi_aliases := sort aliases\<rparr>)) 0x1A4,
       nginx_link_path (wsm_nginx m) (hws_website v) \<mapsto> Symlink (nginx_link_target (hws_website v)))"
    using install_files [OF site(2) nc] by metis
  have "fs2 ?path = Some (File (fpm_render ?a socket) 0x1A4)"
    using dirs_added_file(1) [OF final(1)] pool(4) by simp
  then have p: "pool_of (wsm_fpm m) (wst_fs s') (hws_account v) = Some (fpm_render ?a socket)"
    using calm final(2) by (simp add: hosting_calm_def nginx_paths_def pool_of_def)
  have "CHR 0x0A \<notin> set (rta_id ?a)" "CHR 0x0A \<notin> set (rta_user ?a)" "CHR 0x0A \<notin> set (rta_home ?a)"
    using pool(5,6) id_one_line [of "hws_account v"] ids(1)
    by (auto simp: hostuser_ValidateNames_def validate_ID_def validHome_def ContainsAny_def list_ex_iff dest: in_set_takeD)
  then have "read_pool (fpm_render ?a socket) = pool_meant ?a socket"
    using plain(3) by (intro pool_reads) (simp_all add: socket_def)
  moreover have "served (wsm_nginx m) (wst_fs s') (hws_website v) = Some (nginx_render (?v\<lparr>wsi_aliases := sort aliases\<rparr>))"
    using install_served [OF site(2) _ nc] site(1) by (simp add: nginx_site_id_def)
  ultimately show ?thesis
    using site(3) p by blast
qed

text \<open>What a successful \<open>Ensure\<close> leaves on the host.\<close>

lemma Ensure_serves:
  assumes run: "hostsite_Ensure m v s = (None, s')" and home: "is_rooted (wsm_home m)"
    and calm: "hosting_calm m v (wst_fs (wsh_web s))"
    and plain: "CHR 0x5C \<notin> set (hws_root v)" "CHR 0x5C \<notin> set (fpm_socket (wsm_fpm m) (hws_account v))"
      "CHR 0x0A \<notin> set (fpm_socket (wsm_fpm m) (hws_account v))"
  shows "\<exists>found i dir g c t. wsm_lookup m (hws_user v) = Inr found \<and>
    hostuser_Validate found (wsm_home m) (hws_account v) (hws_user v) = Inr i \<and> web_gid (wsm_group m) = Inr g \<and>
    path_parts (hws_root v) = path_parts (wsm_home m) @ [hws_user v, ''web'', dir, ''public_html''] \<and>
    wsh_tree s' = site_laid_out (path_parts (wsm_home m) @ [hws_user v]) dir (idn_uid i) g (wsh_tree s) \<and>
    served (wsm_nginx m) (wst_fs (wsh_web s')) (hws_website v) = Some c \<and>
    reads_config c (site_tree (hostsite_site v (sort (hws_aliases v)) (fpm_socket (wsm_fpm m) (hws_account v)))) \<and>
    pool_of (wsm_fpm m) (wst_fs (wsh_web s')) (hws_account v) = Some t \<and>
    read_pool t = pool_meant (hostsite_account v i) (fpm_socket (wsm_fpm m) (hws_account v))"
proof -
  obtain i dir aliases g where v: "hostsite_validate m v = Inr (i, dir, aliases)" "web_gid (wsm_group m) = Inr g"
    and steps: "onto (on_dirs (hostsite_dirs m (hws_user v) i dir g) s) (on_services (hostsite_services m v i aliases)) = (None, s')"
    using run by (auto simp: hostsite_Ensure_def split: sum.splits)
  note valid = hostsite_validated [OF v(1) home]
  obtain t w where t: "hostsite_dirs m (hws_user v) i dir g (wsh_tree s) = (None, t)"
    and w: "hostsite_services m v i aliases (wsh_web s) = (None, w)" and s': "s' = s\<lparr>wsh_tree := t, wsh_web := w\<rparr>"
    using steps by (auto simp: onto_None on_dirs_def on_services_def split: prod.splits)
  have "(hostsite_site v aliases k)\<lparr>wsi_aliases := sort aliases\<rparr> = hostsite_site v (sort (hws_aliases v)) k" for k
    using valid(5) by (simp add: hostsite_site_def sorted_sort_id)
  then show ?thesis
    using hostsite_services_done [OF w calm plain] hostsite_dirs_done [OF t valid(2,3)] valid(1,6) v(2) s' by auto
qed

text \<open>C13: an ensured website is served from its account.  After \<open>Ensure\<close> succeeds, the system user is the
  account's own; the home, \<open>web\<close>, the website's directory and the document root are directories of that
  user and the web server's group with the modes meant for them, and nothing else of the tree changed;
  nginx serves exactly the site asked for, with that directory as its root; and the socket it passes
  PHP requests to is the one on which the pool of this account listens, as the account's user.\<close>

theorem ensured_website_is_served:
  assumes run: "hostsite_Ensure m v s = (None, s')" and home: "is_rooted (wsm_home m)"
    and calm: "hosting_calm m v (wst_fs (wsh_web s))"
    and plain: "CHR 0x5C \<notin> set (hws_root v)" "CHR 0x5C \<notin> set (fpm_socket (wsm_fpm m) (hws_account v))"
      "CHR 0x0A \<notin> set (fpm_socket (wsm_fpm m) (hws_account v))"
  shows "\<exists>found i dir g c t. wsm_lookup m (hws_user v) = Inr found \<and>
    hostuser_Validate found (wsm_home m) (hws_account v) (hws_user v) = Inr i \<and> web_gid (wsm_group m) = Inr g \<and>
    path_parts (hws_root v) = path_parts (wsm_home m) @ [hws_user v, ''web'', dir, ''public_html''] \<and>
    wsh_tree s' = site_laid_out (path_parts (wsm_home m) @ [hws_user v]) dir (idn_uid i) g (wsh_tree s) \<and>
    served (wsm_nginx m) (wst_fs (wsh_web s')) (hws_website v) = Some c \<and>
    reads_config c (site_tree (hostsite_site v (sort (hws_aliases v)) (fpm_socket (wsm_fpm m) (hws_account v)))) \<and>
    pool_of (wsm_fpm m) (wst_fs (wsh_web s')) (hws_account v) = Some t \<and>
    read_pool t = pool_meant (hostsite_account v i) (fpm_socket (wsm_fpm m) (hws_account v))"
  using assms by (rule Ensure_serves)

section \<open>Deleting a website\<close>

lemma remove_unserved:
  assumes rem: "nginx_remove d i del s = (None, s')" and calm: "nginx_calm d i (wst_fs s)"
  shows "served d (wst_fs s') i = None"
  using calm rem
proof (cases rule: remove_calm)
  case (unlinked fs1)
  have "nginx_config_path d i \<noteq> nginx_link_path d i"
    using calm by (simp add: nginx_calm_def)
  then have "wst_fs s' (nginx_link_path d i) = None"
    using unlinked by auto
  then show ?thesis
    by (simp add: served_def split: option.splits fs_entry.splits)
next
  case (applied fs1 s2 rb)
  then have "wst_fs s' = wst_fs s2"
    using apply_config_runs [OF applied(5,4) nginx.test_reload] by (metis option.distinct(1))
  moreover have "wst_fs s2 (nginx_link_path d i) = None"
    using applied(3) calm by (auto simp: nginx_calm_def)
  ultimately show ?thesis
    by (simp add: served_def split: option.splits fs_entry.splits)
qed simp

definition hostsite_places :: "website_manager \<Rightarrow> site_spec \<Rightarrow> string \<Rightarrow> string list \<times> string list" where
  "hostsite_places m v dir =
     (path_parts (wsm_home m) @ [hws_user v, ''web'', dir], path_parts (wsm_home m) @ [hws_user v, ''.webycp-trash'', hws_website v])"

lemma idPattern_plain: "idPattern a \<Longrightarrow> plain_part a"
  by (auto simp: plain_part_def idPattern_def list_all_iff is_hex_lower_def is_digit_def bytes_between_def byte_def)

lemma open_fd_ENOENT:
  assumes "open_fd io p t = Inl e" "error_is e ENOENT" "\<forall>c e. io c = Some e \<longrightarrow> \<not> error_is e ENOENT"
  shows "t p = None"
  using assms by (cases "t p"; cases "the (t p)") (auto simp: open_fd_def ENOENT_def split: option.splits)

lemma Open_ENOENT:
  assumes "fsx_Open io d n t = Inl e" "error_is e ENOENT" "plain_part n" "\<forall>c e. io c = Some e \<longrightarrow> \<not> error_is e ENOENT"
  shows "t (d @ [n]) = None"
  using assms(1-3) open_fd_ENOENT [OF _ _ assms(4), of "d @ [n]" t]
  by (cases "open_fd io (d @ [n]) t") (auto simp: fsx_Open_def ENOENT_def)

lemma Rename_None:
  assumes "fsx_Rename io d n dst k t = (None, t')" "plain_part n" "plain_part k" "\<forall>c e. io c = Some e \<longrightarrow> \<not> error_is e ENOENT"
  shows "t' = move_tree (d @ [n]) (dst @ [k]) t" "t (dst @ [k]) = None"
proof -
  obtain e where e: "fsx_Open io dst k t = Inl e" "error_is e ENOENT"
    using assms by (auto simp: fsx_Rename_def split: sum.splits if_splits)
  then show "t (dst @ [k]) = None"
    using Open_ENOENT assms(3,4) by blast
  show "t' = move_tree (d @ [n]) (dst @ [k]) t"
    using assms(1-3) e by (auto simp: fsx_Rename_def split: if_splits option.splits)
qed

lemma hostsite_quarantine_done:
  assumes q: "hostsite_quarantine m v i dir t = (None, t')" and plain: "plain_part (hws_user v)" "plain_part dir" "plain_part (hws_website v)"
    and faults: "\<forall>c e. wsm_io m c = Some e \<longrightarrow> \<not> error_is e ENOENT"
  defines "place \<equiv> fst (hostsite_places m v dir)" and "goal \<equiv> snd (hostsite_places m v dir)"
    and "t1 \<equiv> t(path_parts (wsm_home m) @ [hws_user v, ''.webycp-trash''] \<mapsto> DDir 0x1C0 (idn_uid i) (idn_gid i))"
  shows "(t place \<noteq> None \<and> t goal = None \<and> t' = move_tree place goal t1) \<or> (t place = None \<and> is_DDir (t goal) \<and> t' = t1)"
proof -
  let ?io = "wsm_io m" and ?h = "path_parts (wsm_home m) @ [hws_user v]"
  obtain root home web where o: "fsx_OpenDir ?io (wsm_home m) t = Inr root" "fsx_Open ?io root (hws_user v) t = Inr home"
    "fsx_Open ?io home ''web'' t = Inr web"
    using q by (auto simp: hostsite_quarantine_def Let_def andthen_def split: sum.splits)
  have "root = path_parts (wsm_home m)"
    using o(1) by (auto simp: fsx_OpenDir_def dest: open_fd_Inr)
  then have h: "home = ?h" "web = ?h @ [''web'']"
    using Open_Inr [OF plain(1) o(2)] Open_Inr [OF plain_names(1) o(3)] by auto
  obtain t2 where t2: "fsx_Ensure ?io home ''.webycp-trash'' 0x1C0 (idn_uid i) (idn_gid i) t = (None, t2)"
    and rest: "(case fsx_Open ?io home ''.webycp-trash'' t2 of Inl e \<Rightarrow> (Some e, t2)
      | Inr trash \<Rightarrow> (case fsx_Open ?io web dir t2 of
            Inr _ \<Rightarrow> saying ''quarantine website directory'' (fsx_Rename ?io web dir trash (hws_website v) t2)
          | Inl e \<Rightarrow> if \<not> error_is e ENOENT then (Some e, t2)
              else (case fsx_Open ?io trash (hws_website v) t2 of Inr _ \<Rightarrow> (None, t2)
              | Inl e' \<Rightarrow> (Some (if error_is e' ENOENT then Wrapped ''website directory does not exist'' e else e'), t2)))) = (None, t')"
    using q by (auto simp: hostsite_quarantine_def Let_def o onto_None)
  have "t2 = t1"
    using Ensure_None [OF t2] by (simp add: t1_def h(1))
  note rest = rest [unfolded this]
  obtain trash where trash: "fsx_Open ?io home ''.webycp-trash'' t1 = Inr trash"
    using rest by (cases "fsx_Open ?io home ''.webycp-trash'' t1") auto
  have tr: "trash = ?h @ [''.webycp-trash'']"
    using Open_Inr [OF plain_site_names(2) trash] h by auto
  have places: "web @ [dir] = place" "trash @ [hws_website v] = goal"
    by (simp_all add: place_def goal_def hostsite_places_def h tr)
  have same: "t1 place = t place" "t1 goal = t goal"
    by (simp_all add: t1_def place_def goal_def hostsite_places_def)
  show ?thesis
  proof (cases "fsx_Open ?io web dir t1")
    case (Inr q)
    then have "fsx_Rename ?io web dir trash (hws_website v) t1 = (None, t')"
      using rest by (simp add: trash)
    from Rename_None [OF this plain(2,3) faults] Open_Inr [OF plain(2) Inr] show ?thesis
      by (auto simp: places same)
  next
    case (Inl e)
    then have e: "error_is e ENOENT" and there: "\<exists>q. fsx_Open ?io trash (hws_website v) t1 = Inr q" "t' = t1"
      using rest by (auto simp: trash split: if_splits sum.splits)
    then obtain q where "fsx_Open ?io trash (hws_website v) t1 = Inr q"
      by blast
    from Open_Inr [OF plain(3) this] have "is_DDir (t goal)"
      by (auto simp: places same is_DDir_def)
    then show ?thesis
      using Open_ENOENT [OF Inl e plain(2) faults] there(2) by (auto simp: places same)
  qed
qed

text \<open>C14: a deleted website is no longer configured and its files are kept.  After \<open>Delete\<close> succeeds, the
  files of nginx describe no site for the website, and if nginx ran what its files described before,
  it no longer serves the website either (an earlier deletion stopped between removing the link and
  the reload breaks that premise, and its repetition does not reload); the website's directory is gone
  from \<open>web\<close>, and everything that was below it is in the account's trash under the website's
  identifier, where it already was when the deletion is repeated; nothing else but the trash directory
  itself changed.  File operations of the nginx driver are assumed to succeed, and a failing system
  call on the account's directories not to report \<open>file does not exist\<close>.\<close>

theorem deleted_website_is_quarantined:
  assumes del: "hostsite_Delete m v s = (None, s')" and home: "is_rooted (wsm_home m)"
    and calm: "nginx_calm (wsm_nginx m) (hws_website v) (wst_fs (wsh_web s))"
    and faults: "\<forall>c e. wsm_io m c = Some e \<longrightarrow> \<not> error_is e ENOENT"
  shows "\<exists>dir. path_parts (hws_root v) = path_parts (wsm_home m) @ [hws_user v, ''web'', dir, ''public_html''] \<and>
    served (wsm_nginx m) (wst_fs (wsh_web s')) (hws_website v) = None \<and>
    (in_step (served (wsm_nginx m)) nginx_reload start (wsh_web s) \<and> orderly nginx_test nginx_reload None (wst_runs (wsh_web s)) \<longrightarrow>
      served (wsm_nginx m) (loaded nginx_reload start (wst_runs (wsh_web s'))) (hws_website v) = None) \<and>
    (let (place, goal) = hostsite_places m v dir in
      (if wsh_tree s place = None then is_DDir (wsh_tree s goal) \<and> wsh_tree s' place = None \<and> wsh_tree s' goal = wsh_tree s goal
       else wsh_tree s goal = None \<and> quarantined place goal (wsh_tree s) (wsh_tree s')) \<and>
      (\<forall>p. \<not> prefix place p \<and> \<not> prefix (butlast goal) p \<longrightarrow> wsh_tree s' p = wsh_tree s p))"
proof -
  obtain i dir aliases where v: "hostsite_validate m v = Inr (i, dir, aliases)"
    and steps: "onto (saying ''delete web server site'' (on_services (nginx_Delete (wsm_nginx m) (hws_website v)) s))
        (on_dirs (hostsite_quarantine m v i dir)) = (None, s')"
    using del by (auto simp: hostsite_Delete_def split: sum.splits)
  note valid = hostsite_validated [OF v home]
  obtain t w where w: "nginx_remove (wsm_nginx m) (hws_website v) True (wsh_web s) = (None, w)"
    and t: "hostsite_quarantine m v i dir (wsh_tree s) = (None, t)" and s': "s' = s\<lparr>wsh_web := w, wsh_tree := t\<rparr>"
    using steps by (auto simp: onto_None on_dirs_def on_services_def nginx_Delete_def split: prod.splits)
  obtain place goal where pg: "hostsite_places m v dir = (place, goal)"
    by (metis prod.exhaust)
  let ?trash = "path_parts (wsm_home m) @ [hws_user v, ''.webycp-trash'']"
  let ?t1 = "(wsh_tree s)(?trash \<mapsto> DDir 0x1C0 (idn_uid i) (idn_gid i))"
  have p: "place = path_parts (wsm_home m) @ [hws_user v, ''web'', dir]" "goal = ?trash @ [hws_website v]"
    using pg by (auto simp: hostsite_places_def)
  have apart: "\<not> prefix place goal" "\<not> prefix goal place" and off: "place @ ps \<noteq> ?trash" "goal @ ps \<noteq> ?trash" for ps
    by (simp_all add: p)
  note q = hostsite_quarantine_done [OF t valid(2,3) idPattern_plain [OF valid(4)] faults, unfolded pg fst_conv snd_conv]
  have quiet: "wsh_tree s' x = wsh_tree s x" if "\<not> prefix place x" "\<not> prefix ?trash x" for x
  proof -
    have "\<not> prefix goal x" "x \<noteq> ?trash"
      using that(2) append_prefixD [of ?trash "[hws_website v]" x] unfolding p(2) by auto
    then show ?thesis
      using q move_quarantines(2) [OF apart that(1)] s' by auto
  qed
  have "if wsh_tree s place = None then is_DDir (wsh_tree s goal) \<and> wsh_tree s' place = None \<and> wsh_tree s' goal = wsh_tree s goal
      else wsh_tree s goal = None \<and> quarantined place goal (wsh_tree s) (wsh_tree s')"
  proof (cases "wsh_tree s place = None")
    case True
    then show ?thesis
      using q off [of "[]"] s' by auto
  next
    case False
    then have "t = move_tree place goal ?t1" "wsh_tree s goal = None"
      using q by auto
    then show ?thesis
      using False move_quarantines(1) [OF apart, of ?t1] off s' by (auto simp: quarantined_def)
  qed
  moreover have "served (wsm_nginx m) (loaded nginx_reload start (wst_runs (wsh_web s'))) (hws_website v) = None"
    if "in_step (served (wsm_nginx m)) nginx_reload start (wsh_web s)" "orderly nginx_test nginx_reload None (wst_runs (wsh_web s))"
    using remove_step [OF w calm that] s' by (simp add: in_step_def)
  ultimately show ?thesis
    using valid(6) remove_unserved [OF w calm] quiet s' by (intro exI [of _ dir]) (auto simp: pg p(2) butlast_append)
qed

section \<open>Examples\<close>

text \<open>The sample account gets a website on the sample nginx.\<close>

definition sample_site_fpm :: fpm_driver where
  "sample_site_fpm = sample_fpm\<lparr>fpm_run := \<lambda>_ _ _. None\<rparr>"

definition sample_websites :: website_manager where
  "sample_websites = \<lparr>wsm_lookup = \<lambda>_. Inr sample_passwd, wsm_group = Inr ''33'', wsm_home = ''/home'', wsm_io = \<lambda>_. None,
     wsm_fpm = sample_site_fpm, wsm_nginx = sample_nginx\<rparr>"

definition sample_spec :: site_spec where
  "sample_spec = \<lparr>hws_account = acc_id ftp_owner, hws_user = acc_system_user ftp_owner, hws_website = replicate 32 CHR ''a'',
     hws_root = ''/home/'' @ acc_system_user ftp_owner @ ''/web/site/public_html'', hws_kind = ''php'', hws_web = ''nginx'',
     hws_runtime = ''phpfpm'', hws_version = ''8.3'', hws_name = ''a.example'', hws_aliases = [''b.example'']\<rparr>"

definition sample_website_host :: website_host where
  "sample_website_host = \<lparr>wsh_tree = lin_tree sample_occupied, wsh_web = sample_host\<rparr>"

definition sample_site_made :: website_host where
  "sample_site_made = snd (hostsite_Ensure sample_websites sample_spec sample_website_host)"

lemma sample_site_identity:
  "hostsite_identity sample_websites (hws_account sample_spec) (hws_user sample_spec) =
     Inr \<lparr>idn_home = ''/home/'' @ acc_system_user ftp_owner, idn_user = acc_system_user ftp_owner, idn_uid = 1001, idn_gid = 1001\<rparr>"
  by code_simp

lemma sample_valid:
  "hostsite_validate sample_websites sample_spec =
     Inr (\<lparr>idn_home = ''/home/'' @ acc_system_user ftp_owner, idn_user = acc_system_user ftp_owner, idn_uid = 1001, idn_gid = 1001\<rparr>,
       ''site'', [''b.example''])"
proof -
  have "hostsite_root (''/home/'' @ acc_system_user ftp_owner) (hws_root sample_spec) = Inr ''site''"
    "succeeds (validate_ID ''websiteId'' (hws_website sample_spec))"
    by code_simp+
  moreover have "validate_DomainAliases (ngx_ext (wsm_nginx sample_websites)) (hws_name sample_spec) (hws_aliases sample_spec) = Inr [''b.example'']"
    using sample_checks(2) by (simp add: sample_websites_def sample_nginx_def sample_spec_def sample_web_site_def)
  ultimately show ?thesis
    unfolding hostsite_validate_def sample_site_identity by (simp add: sample_spec_def)
qed

lemma sample_site_paths:
  "fpm_pool_path sample_site_fpm (hws_account sample_spec) = ''/etc/php/8.3/fpm/pool.d/webycp-aaaaaaaaaaaaaaaaaaaaaaaaaaaaaaaa.conf''"
  "fpm_socket sample_site_fpm (hws_account sample_spec) = ''/run/php/webycp-8.3-aaaaaaaaaaaaaaaaaaaaaaaaaaaaaaaa.sock''"
  "hws_root sample_spec = ''/home/wcp_aaaaaaaaaaaa/web/site/public_html''"
  by code_simp+

lemma sample_hosting_calm: "hosting_calm sample_websites sample_spec (wst_fs sample_host)"
proof -
  have m: "wsm_fpm sample_websites = sample_site_fpm" "wsm_nginx sample_websites = sample_nginx"
    "hws_website sample_spec = replicate 32 CHR ''a''"
    by (simp_all add: sample_websites_def sample_spec_def)
  have "fpm_calm sample_site_fpm (hws_account sample_spec) Map.empty"
    unfolding fpm_calm_def sample_site_paths by (simp add: sample_site_fpm_def sample_fpm_def calm_def)
  moreover have "fpm_pool_path sample_site_fpm (hws_account sample_spec) \<notin> nginx_paths sample_nginx (replicate 32 CHR ''a'')"
    unfolding nginx_paths_def sample_site_paths sample_places by (simp add: sample_nginx_def)
  moreover have "ngx_tmp sample_nginx k \<notin> {fpm_pool_path sample_site_fpm (hws_account sample_spec), fpm_pools sample_site_fpm, fpm_run_dir sample_site_fpm}" for k
    unfolding sample_site_paths by (simp add: sample_nginx_def sample_site_fpm_def sample_fpm_def)
  ultimately show ?thesis
    using sample_nginx_calm by (simp add: hosting_calm_def m sample_host_def)
qed

lemma sample_services:
  assumes "aliases = [''b.example'']" "rta_home (hostsite_account sample_spec i) = ''/home/'' @ acc_system_user ftp_owner"
  shows "fst (hostsite_services sample_websites sample_spec i aliases sample_host) = None"
proof -
  let ?a = "hostsite_account sample_spec i" and ?d = "sample_site_fpm" and ?k = "''/run/php/webycp-8.3-aaaaaaaaaaaaaaaaaaaaaaaaaaaaaaaa.sock''"
  have a: "?a = \<lparr>rta_id = acc_id ftp_owner, rta_user = acc_system_user ftp_owner, rta_home = ''/home/'' @ acc_system_user ftp_owner, rta_version = ''8.3''\<rparr>"
    using assms(2) by (simp add: hostsite_account_def sample_spec_def)
  have "(case fst (fpm_Ensure ?d ?a sample_host) of Inr _ \<Rightarrow> True | Inl _ \<Rightarrow> False)"
    unfolding a by code_simp
  then obtain k s1 where f: "fpm_Ensure ?d ?a sample_host = (Inr k, s1)"
    by (cases "fpm_Ensure ?d ?a sample_host"; cases "fst (fpm_Ensure ?d ?a sample_host)") auto
  have m: "wsm_fpm sample_websites = ?d" "wsm_nginx sample_websites = sample_nginx" "rta_id ?a = hws_account sample_spec"
    by (simp_all add: sample_websites_def hostsite_account_def)
  have "fpm_calm ?d (rta_id ?a) (wst_fs sample_host)"
    using sample_hosting_calm by (simp add: hosting_calm_def m)
  from Ensure_pool [OF f this] obtain fs1 where s1: "k = fpm_socket ?d (hws_account sample_spec)"
    "\<forall>p. p \<notin> {fpm_pools ?d, fpm_run_dir ?d} \<longrightarrow> fs1 p = None"
    "wst_fs s1 = fs1(fpm_pool_path ?d (hws_account sample_spec) \<mapsto> File (fpm_render ?a k) 0x1A4)"
    unfolding m(3) by (metis sample_host_def web_state.select_convs(1))
  have gone: "wst_fs s1 p = None" if "p \<notin> {''/etc/php/8.3/fpm/pool.d'', ''/run/php'', ''/etc/php/8.3/fpm/pool.d/webycp-aaaaaaaaaaaaaaaaaaaaaaaaaaaaaaaa.conf''}" for p
    using s1(2,3) that unfolding sample_site_paths by (simp add: sample_site_fpm_def sample_fpm_def)
  have "nginx_calm sample_nginx (replicate 32 CHR ''a'') (wst_fs s1)"
    using sample_nginx_calm gone by (simp add: nginx_calm_def sample_nginx_def)
  moreover have "nginx_ready sample_nginx (replicate 32 CHR ''a'') (wst_fs s1)"
    using sample_nginx_ready gone unfolding nginx_ready_def sample_places by (simp add: sample_nginx_def)
  ultimately have inst: "fst (nginx_install sample_nginx (replicate 32 CHR ''a'') c s1) = None" for c
    by (intro install_succeeds) (simp_all add: sample_nginx_def)
  have "path_Clean ''/home/wcp_aaaaaaaaaaaa/web/site/public_html'' = ''/home/wcp_aaaaaaaaaaaa/web/site/public_html''" "path_Clean ?k = ?k"
    by code_simp+
  then have paths: "validPath ''root'' (hws_root sample_spec) = Inr ()" "validPath ''phpSocket'' k = Inr ()"
    unfolding s1(1) sample_site_paths by (simp_all add: validPath_def is_rooted_def ContainsAny_def)
  have v: "wsi_id (hostsite_site sample_spec aliases k) = replicate 32 CHR ''a''" "wsi_cert (hostsite_site sample_spec aliases k) = []"
    "wsi_root (hostsite_site sample_spec aliases k) = hws_root sample_spec" "wsi_socket (hostsite_site sample_spec aliases k) = k"
    "validate_DomainAliases (ngx_ext sample_nginx) (wsi_name (hostsite_site sample_spec aliases k)) (wsi_aliases (hostsite_site sample_spec aliases k)) = Inr [''b.example'']"
    "validate_ID ''websiteId'' (replicate 32 CHR ''a'') = Inr ()"
    using sample_checks(1,2) assms(1) by (simp_all add: hostsite_site_def sample_spec_def sample_web_site_def sample_nginx_def)
  have "fst (nginx_Ensure sample_nginx (hostsite_site sample_spec aliases k) s1) = None"
    using inst paths v by (simp add: nginx_Ensure_def)
  then show ?thesis
    by (simp add: hostsite_services_def m f)
qed

lemma sample_site_run: "hostsite_Ensure sample_websites sample_spec sample_website_host = (None, sample_site_made)"
proof -
  let ?i = "\<lparr>idn_home = ''/home/'' @ acc_system_user ftp_owner, idn_user = acc_system_user ftp_owner, idn_uid = 1001, idn_gid = 1001\<rparr>"
  have dirs: "fst (hostsite_dirs sample_websites (hws_user sample_spec) ?i ''site'' 33 (lin_tree sample_occupied)) = None"
    by code_simp
  have m: "web_gid (wsm_group sample_websites) = Inr 33" "wsm_home sample_websites = ''/home''" "is_rooted ''/home''"
    by code_simp+
  have h: "wsh_tree sample_website_host = lin_tree sample_occupied" "wsh_web sample_website_host = sample_host"
    by (simp_all add: sample_website_host_def)
  have "fst (hostsite_services sample_websites sample_spec ?i [''b.example''] sample_host) = None"
    by (rule sample_services) (simp_all add: hostsite_account_def)
  then have "fst (hostsite_Ensure sample_websites sample_spec sample_website_host) = None"
    using dirs by (auto simp: hostsite_Ensure_def sample_valid m(1) h on_dirs_def on_services_def onto_def split: prod.splits)
  then show ?thesis
    unfolding sample_site_made_def by (metis prod.collapse)
qed

theorem ensured_website_is_served_witness:
  "\<exists>c t. hostsite_Ensure sample_websites sample_spec sample_website_host = (None, sample_site_made) \<and>
     served sample_nginx (wst_fs (wsh_web sample_site_made)) (replicate 32 CHR ''a'') = Some c \<and>
     reads_config c (site_tree (hostsite_site sample_spec [''b.example''] ''/run/php/webycp-8.3-aaaaaaaaaaaaaaaaaaaaaaaaaaaaaaaa.sock'')) \<and>
     pool_of sample_site_fpm (wst_fs (wsh_web sample_site_made)) (replicate 32 CHR ''a'') = Some t \<and>
     Entry ''listen'' ''/run/php/webycp-8.3-aaaaaaaaaaaaaaaaaaaaaaaaaaaaaaaa.sock'' \<in> set (read_pool t)"
proof -
  note run = sample_site_run
  have m: "web_gid (wsm_group sample_websites) = Inr 33" "wsm_home sample_websites = ''/home''" "is_rooted ''/home''"
    by code_simp+
  have h: "wsh_tree sample_website_host = lin_tree sample_occupied" "wsh_web sample_website_host = sample_host"
    by (simp_all add: sample_website_host_def)
  have f: "wsm_fpm sample_websites = sample_site_fpm" "wsm_nginx sample_websites = sample_nginx" "hws_aliases sample_spec = [''b.example'']"
    "hws_website sample_spec = replicate 32 CHR ''a''" "hws_account sample_spec = replicate 32 CHR ''a''"
    by (simp_all add: sample_websites_def sample_spec_def ftp_owner_def)
  have "CHR 0x5C \<notin> set (hws_root sample_spec)" "CHR 0x5C \<notin> set (fpm_socket (wsm_fpm sample_websites) (hws_account sample_spec))"
    "CHR 0x0A \<notin> set (fpm_socket (wsm_fpm sample_websites) (hws_account sample_spec))"
    unfolding f(1) sample_site_paths by simp_all
  from ensured_website_is_served [OF run _ _ this] m(2,3) sample_hosting_calm h(2) obtain i c t where
    "served sample_nginx (wst_fs (wsh_web sample_site_made)) (hws_website sample_spec) = Some c"
    "reads_config c (site_tree (hostsite_site sample_spec (sort (hws_aliases sample_spec)) (fpm_socket sample_site_fpm (hws_account sample_spec))))"
    "pool_of sample_site_fpm (wst_fs (wsh_web sample_site_made)) (hws_account sample_spec) = Some t"
    "read_pool t = pool_meant (hostsite_account sample_spec i) (fpm_socket sample_site_fpm (hws_account sample_spec))"
    unfolding f(1,2) by auto
  then show ?thesis
    using run unfolding sample_site_paths unfolding f(3,4,5) by (intro exI [of _ c] exI [of _ t]) (simp add: pool_meant_def)
qed

definition sample_with_site :: website_host where
  "sample_with_site = \<lparr>wsh_tree = (lin_tree sample_occupied)([''home'', acc_system_user ftp_owner, ''web'', ''site''] \<mapsto> DDir 0x1E8 1001 33,
       [''home'', acc_system_user ftp_owner, ''web'', ''site'', ''index.php''] \<mapsto> DFile ''hello''), wsh_web = sample_host\<rparr>"

definition sample_without_site :: website_host where
  "sample_without_site = snd (hostsite_Delete sample_websites sample_spec sample_with_site)"

theorem deleted_website_is_quarantined_witness:
  "wsh_tree sample_without_site [''home'', acc_system_user ftp_owner, ''.webycp-trash'', replicate 32 CHR ''a'', ''index.php''] = Some (DFile ''hello'') \<and>
   wsh_tree sample_without_site [''home'', acc_system_user ftp_owner, ''web'', ''site''] = None \<and>
   served sample_nginx (loaded nginx_reload Map.empty (wst_runs (wsh_web sample_without_site))) (replicate 32 CHR ''a'') = None"
proof -
  let ?i = "\<lparr>idn_home = ''/home/'' @ acc_system_user ftp_owner, idn_user = acc_system_user ftp_owner, idn_uid = 1001, idn_gid = 1001\<rparr>"
  let ?place = "[''home'', acc_system_user ftp_owner, ''web'', ''site'']"
  let ?goal = "[''home'', acc_system_user ftp_owner, ''.webycp-trash'', replicate 32 CHR ''a'']"
  have parts: "fst (nginx_Delete sample_nginx (replicate 32 CHR ''a'') sample_host) = None"
    "fst (hostsite_quarantine sample_websites sample_spec ?i ''site'' (wsh_tree sample_with_site)) = None"
    by code_simp+
  have m: "wsm_nginx sample_websites = sample_nginx" "hws_website sample_spec = replicate 32 CHR ''a''" "wsm_home sample_websites = ''/home''"
    "\<forall>c e. wsm_io sample_websites c = Some e \<longrightarrow> \<not> error_is e ENOENT" "wsh_web sample_with_site = sample_host"
    "hws_user sample_spec = acc_system_user ftp_owner"
    by (simp_all add: sample_websites_def sample_spec_def sample_with_site_def)
  have "fst (hostsite_Delete sample_websites sample_spec sample_with_site) = None"
    using parts by (auto simp: hostsite_Delete_def sample_valid m onto_def saying_def on_services_def on_dirs_def split: prod.splits)
  then have del: "hostsite_Delete sample_websites sample_spec sample_with_site = (None, sample_without_site)"
    unfolding sample_without_site_def by (metis prod.collapse)
  have home: "path_parts ''/home'' = [''home'']" "is_rooted (wsm_home sample_websites)"
    "path_parts (hws_root sample_spec) = [''home'', acc_system_user ftp_owner, ''web'', ''site'', ''public_html'']"
    by code_simp+
  have "nginx_calm (wsm_nginx sample_websites) (hws_website sample_spec) (wst_fs (wsh_web sample_with_site))"
    using sample_nginx_calm by (simp add: m sample_host_def)
  from deleted_website_is_quarantined [OF del home(2) this m(4), where start = Map.empty] obtain dir where
    d: "[''site''] = [dir]" "in_step (served sample_nginx) nginx_reload Map.empty sample_host \<and> orderly nginx_test nginx_reload None (wst_runs sample_host) \<longrightarrow>
      served sample_nginx (loaded nginx_reload Map.empty (wst_runs (wsh_web sample_without_site))) (replicate 32 CHR ''a'') = None"
    "let (place, goal) = hostsite_places sample_websites sample_spec dir in
      (if wsh_tree sample_with_site place = None then is_DDir (wsh_tree sample_with_site goal) \<and> wsh_tree sample_without_site place = None \<and>
         wsh_tree sample_without_site goal = wsh_tree sample_with_site goal
       else wsh_tree sample_with_site goal = None \<and> quarantined place goal (wsh_tree sample_with_site) (wsh_tree sample_without_site))"
    unfolding home(3) m(1,2,3,5,6) home(1) by (auto simp: Let_def split: prod.splits)
  have "in_step (served sample_nginx) nginx_reload Map.empty sample_host" "orderly nginx_test nginx_reload None (wst_runs sample_host)"
    by (simp_all add: sample_host_def in_step_def)
  note d = d(1) d(2) [THEN mp, OF conjI [OF this]] d(3)
  have there: "wsh_tree sample_with_site ?place \<noteq> None" "wsh_tree sample_with_site (?place @ [''index.php'']) = Some (DFile ''hello'')"
    by (simp_all add: sample_with_site_def)
  have "hostsite_places sample_websites sample_spec dir = (?place, ?goal)"
    using d(1) by (simp add: hostsite_places_def m home(1))
  then have "quarantined ?place ?goal (wsh_tree sample_with_site) (wsh_tree sample_without_site)"
    using d(3) there(1) by simp
  from this [unfolded quarantined_def, rule_format, of "[''index.php'']"] this [unfolded quarantined_def, rule_format, of "[]"]
  show ?thesis
    using d(2) there(2) by simp
qed

end
