(* ===== verification/AgentServer.thy ===== *)
theory AgentServer
  imports HostWebsites Websites Databases Tasks Dns Certificates LocalBackup
begin

text \<open>
  How the control plane reaches the agent: the client \<open>internal/agent/client\<close> turns each operation
  into an HTTP request on the agent's Unix socket, the server \<open>internal/agent/server\<close> decodes and
  checks it and calls a driver.  The drivers are a record of operations over a host state \<open>'s\<close>; the
  JSON library, which also serves the generated message types, is the parameter \<open>wire\<close>.
\<close>

section \<open>Messages\<close>

datatype account_action = DoDisable | DoEnable | DoDelete

datatype website_action = SiteDoEnsure | SiteDoDisable | SiteDoDelete

record issue_request =
  isr_certificate :: ident
  isr_kind :: string
  isr_name :: string
  isr_names :: "string list"
  isr_email :: string
  isr_redirect :: bool
  isr_website :: "ident option"
  isr_account :: "ident option"
  isr_system_user :: "string option"
  isr_document_root :: "string option"
  isr_runtime_version :: "string option"

text \<open>A Boolean says whether the method is \<open>DELETE\<close>, where a path has two.\<close>

datatype agent_request =
    GetHealth
  | PutFTPAccounts ident string "ftp_entry list option"
  | PostAccounts ident string
  | PostAccountAction account_action ident string
  | DatabaseMessage bool string
  | DatabaseUserMessage bool string "string option"
  | DatabaseGrantMessage bool string string
  | PutScheduledTasks ident string "cron_entry list"
  | DNSZoneMessage bool zone_spec
  | PutDNSRecords zone_spec "record_set list"
  | PostCertificates issue_request
  | PostBackups create_request
  | PostBackupsPreview artifact_request
  | PostBackupsRestore restore_request
  | DeleteBackups artifact_request
  | PostWebsites website_action site_spec

datatype agent_body =
    NoBody
  | ErrorBody string string
  | HealthBody capabilities string string string string
  | CertificateBody "string list" msec
  | ArtifactBody agent_artifact
  | ManifestBody manifest
  | RestoredBody string

record agent_reply =
  rep_status :: nat
  rep_body :: agent_body

definition or_delete :: "bool \<Rightarrow> string" where
  "or_delete del = (if del then ''DELETE'' else ''POST'')"

text \<open>The method and path under which a request is sent.\<close>

fun route_of :: "agent_request \<Rightarrow> string \<times> string" where
  "route_of GetHealth = (''GET'', ''/agent/v1/health'')"
| "route_of (PutFTPAccounts a su es) = (''PUT'', ''/agent/v1/ftp-accounts'')"
| "route_of (PostAccounts a su) = (''POST'', ''/agent/v1/accounts'')"
| "route_of (PostAccountAction k a su) = (''POST'',
     (case k of DoDisable \<Rightarrow> ''/agent/v1/accounts/disable'' | DoEnable \<Rightarrow> ''/agent/v1/accounts/enable''
      | DoDelete \<Rightarrow> ''/agent/v1/accounts/delete''))"
| "route_of (DatabaseMessage del n) = (or_delete del, ''/agent/v1/databases'')"
| "route_of (DatabaseUserMessage del n p) = (or_delete del, ''/agent/v1/database-users'')"
| "route_of (DatabaseGrantMessage del n u) = (or_delete del, ''/agent/v1/database-grants'')"
| "route_of (PutScheduledTasks a su es) = (''PUT'', ''/agent/v1/scheduled-tasks'')"
| "route_of (DNSZoneMessage del z) = (or_delete del, ''/agent/v1/dns/zones'')"
| "route_of (PutDNSRecords z vs) = (''PUT'', ''/agent/v1/dns/records'')"
| "route_of (PostCertificates q) = (''POST'', ''/agent/v1/certificates'')"
| "route_of (PostBackups q) = (''POST'', ''/agent/v1/backups'')"
| "route_of (PostBackupsPreview q) = (''POST'', ''/agent/v1/backups/preview'')"
| "route_of (PostBackupsRestore q) = (''POST'', ''/agent/v1/backups/restore'')"
| "route_of (DeleteBackups q) = (''DELETE'', ''/agent/v1/backups'')"
| "route_of (PostWebsites k v) = (''POST'',
     (case k of SiteDoEnsure \<Rightarrow> ''/agent/v1/websites'' | SiteDoDisable \<Rightarrow> ''/agent/v1/websites/disable''
      | SiteDoDelete \<Rightarrow> ''/agent/v1/websites/delete''))"

section \<open>The server\<close>

record 's database_driver =
  ddr_EnsureDatabase :: "string \<Rightarrow> 's step"
  ddr_DeleteDatabase :: "string \<Rightarrow> 's step"
  ddr_EnsureUser :: "string \<Rightarrow> string \<Rightarrow> 's step"
  ddr_DeleteUser :: "string \<Rightarrow> 's step"
  ddr_EnsureGrant :: "string \<Rightarrow> string \<Rightarrow> 's step"
  ddr_DeleteGrant :: "string \<Rightarrow> string \<Rightarrow> 's step"

record 's dns_driver =
  zdr_EnsureZone :: "zone_spec \<Rightarrow> 's step"
  zdr_DeleteZone :: "zone_spec \<Rightarrow> 's step"
  zdr_SyncRecordSets :: "zone_spec \<Rightarrow> record_set list \<Rightarrow> 's step"

record 's backup_driver =
  bdr_Create :: "create_request \<Rightarrow> 's \<Rightarrow> (err + agent_artifact) \<times> 's"
  bdr_Preview :: "artifact_request \<Rightarrow> 's \<Rightarrow> (err + manifest) \<times> 's"
  bdr_Restore :: "restore_request \<Rightarrow> 's \<Rightarrow> (err + string) \<times> 's"
  bdr_Delete :: "artifact_request \<Rightarrow> 's step"

text \<open>The options of \<open>New\<close>; a driver that is not configured is \<open>None\<close>.\<close>

record 's agent_options =
  ago_ext :: ext
  ago_version :: string
  ago_capabilities :: "('s \<Rightarrow> capabilities) option"
  ago_accounts :: "(ident \<Rightarrow> string \<Rightarrow> 's step) option"
  ago_actions :: "(account_action \<Rightarrow> ident \<Rightarrow> string \<Rightarrow> 's step) option"
  ago_websites :: "(website_action \<Rightarrow> site_spec \<Rightarrow> 's step) option"
  ago_databases :: "'s database_driver option"
  ago_tasks :: "(ident \<Rightarrow> string \<Rightarrow> cron_entry list \<Rightarrow> 's step) option"
  ago_certificates :: "(cert_request \<Rightarrow> 's \<Rightarrow> (err + string list \<times> msec) \<times> 's) option"
  ago_backups :: "'s backup_driver option"
  ago_dns :: "'s dns_driver option"
  ago_ftp :: "(ident \<Rightarrow> string \<Rightarrow> ftp_entry list option \<Rightarrow> 's step) option"

definition failure :: "nat \<Rightarrow> string \<Rightarrow> string \<Rightarrow> agent_reply" where
  "failure status code msg = \<lparr>rep_status = status, rep_body = ErrorBody code msg\<rparr>"

definition no_content :: agent_reply where
  "no_content = \<lparr>rep_status = 204, rep_body = NoBody\<rparr>"

definition answer :: "agent_body \<Rightarrow> agent_reply" where
  "answer b = \<lparr>rep_status = 200, rep_body = b\<rparr>"

text \<open>\<open>errors.As\<close> of a \<open>validate.Error\<close>: its field and message.\<close>

fun validation_of :: "err \<Rightarrow> (string \<times> string) option" where
  "validation_of (ValidationErr f m) = Some (f, m)"
| "validation_of (Wrapped w e) = validation_of e"
| "validation_of (Joined d e) = (case validation_of d of None \<Rightarrow> validation_of e | r \<Rightarrow> r)"
| "validation_of e = None"

text \<open>A driver step and the reply to its error.\<close>

definition replying :: "(err \<Rightarrow> agent_reply) \<Rightarrow> err option \<times> 's \<Rightarrow> agent_reply \<times> 's" where
  "replying fail r = (case fst r of None \<Rightarrow> no_content | Some e \<Rightarrow> fail e, snd r)"

definition hostAccountInvalid :: "ident \<Rightarrow> string \<Rightarrow> bool" where
  "hostAccountInvalid a su \<longleftrightarrow> \<not> succeeds (validate_ID ''accountId'' a) \<or> \<not> succeeds (validate_SystemUser su)"

definition ftpHandler :: "'s agent_options \<Rightarrow> ident \<Rightarrow> string \<Rightarrow> ftp_entry list option \<Rightarrow> 's \<Rightarrow> agent_reply \<times> 's" where
  "ftpHandler cfg a su es s =
     (if \<not> succeeds (hostuser_ValidateNames a su) \<or> es = None \<or> 100 < length (the es)
      then (failure 422 ''validation_error'' ''The FTP account request is invalid'', s)
      else case ago_ftp cfg of
        None \<Rightarrow> (failure 503 ''ftp_unavailable'' ''The FTP driver is not configured'', s)
      | Some Sync \<Rightarrow> replying (\<lambda>e. case validation_of e of
            Some (_, m) \<Rightarrow> failure 422 ''validation_error'' m
          | None \<Rightarrow> failure 500 ''ftp_failed'' ''FTP access could not be synchronized'') (Sync a su es s))"

definition healthHandler :: "'s agent_options \<Rightarrow> 's \<Rightarrow> agent_reply \<times> 's" where
  "healthHandler cfg s =
     (case ago_capabilities cfg of
        None \<Rightarrow> (failure 500 ''internal_error'' ''An internal error occurred'', s)
      | Some observe \<Rightarrow> (answer (HealthBody (observe s) ''v1'' ''webycp-agent'' ''ok'' (ago_version cfg)), s))"

definition accountsHandler :: "'s agent_options \<Rightarrow> ident \<Rightarrow> string \<Rightarrow> 's \<Rightarrow> agent_reply \<times> 's" where
  "accountsHandler cfg a su s =
     (if \<not> succeeds (validate_ID ''accountId'' a)
      then (failure 422 ''validation_error'' ''Account ID is invalid'', s)
      else case ago_accounts cfg of
        None \<Rightarrow> (failure 500 ''internal_error'' ''An internal error occurred'', s)
      | Some Ensure \<Rightarrow> replying (\<lambda>e. case validation_of e of
            Some (_, m) \<Rightarrow> failure 422 ''validation_error'' m
          | None \<Rightarrow> failure 500 ''account_reconcile_failed'' ''The account could not be reconciled'') (Ensure a su s))"

definition accountActionHandler :: "'s agent_options \<Rightarrow> account_action \<Rightarrow> ident \<Rightarrow> string \<Rightarrow> 's \<Rightarrow> agent_reply \<times> 's" where
  "accountActionHandler cfg k a su s =
     (case ago_actions cfg of
        Some act \<Rightarrow>
          if hostAccountInvalid a su then (failure 422 ''validation_error'' ''The account identity is invalid'', s)
          else replying (\<lambda>_. failure 500 ''account_action_failed'' ''The account operation failed'') (act k a su s)
      | None \<Rightarrow> (failure 422 ''validation_error'' ''The account identity is invalid'', s))"

definition handleDatabase :: "'s agent_options \<Rightarrow> bool \<Rightarrow> string \<Rightarrow> 's \<Rightarrow> agent_reply \<times> 's" where
  "handleDatabase cfg del name s =
     (case ago_databases cfg of
        Some d \<Rightarrow>
          if \<not> succeeds (validate_DatabaseSystemName name)
          then (failure 422 ''validation_error'' ''The database request is invalid'', s)
          else replying (\<lambda>_. failure 500 ''database_failed'' ''The database operation failed'')
            (if del then ddr_DeleteDatabase d name s else ddr_EnsureDatabase d name s)
      | None \<Rightarrow> (failure 422 ''validation_error'' ''The database request is invalid'', s))"

definition handleDatabaseUser :: "'s agent_options \<Rightarrow> bool \<Rightarrow> string \<Rightarrow> string option \<Rightarrow> 's \<Rightarrow> agent_reply \<times> 's" where
  "handleDatabaseUser cfg del name password s =
     (case ago_databases cfg of
        Some d \<Rightarrow>
          if \<not> succeeds (validate_DatabaseSystemName name) \<or> \<not> del \<and> password = None
          then (failure 422 ''validation_error'' ''The database user request is invalid'', s)
          else replying (\<lambda>_. failure 500 ''database_user_failed'' ''The database user operation failed'')
            (if del then ddr_DeleteUser d name s else ddr_EnsureUser d name (the password) s)
      | None \<Rightarrow> (failure 422 ''validation_error'' ''The database user request is invalid'', s))"

definition handleGrant :: "'s agent_options \<Rightarrow> bool \<Rightarrow> string \<Rightarrow> string \<Rightarrow> 's \<Rightarrow> agent_reply \<times> 's" where
  "handleGrant cfg del database u s =
     (case ago_databases cfg of
        Some d \<Rightarrow>
          if \<not> succeeds (validate_DatabaseSystemName database) \<or> \<not> succeeds (validate_DatabaseSystemName u)
          then (failure 422 ''validation_error'' ''The database grant request is invalid'', s)
          else replying (\<lambda>_. failure 500 ''database_grant_failed'' ''The database grant operation failed'')
            (if del then ddr_DeleteGrant d database u s else ddr_EnsureGrant d database u s)
      | None \<Rightarrow> (failure 422 ''validation_error'' ''The database grant request is invalid'', s))"

definition tasksHandler :: "'s agent_options \<Rightarrow> ident \<Rightarrow> string \<Rightarrow> cron_entry list \<Rightarrow> 's \<Rightarrow> agent_reply \<times> 's" where
  "tasksHandler cfg a su es s =
     (case ago_tasks cfg of
        Some Sync \<Rightarrow>
          if hostAccountInvalid a su then (failure 422 ''validation_error'' ''The scheduled task request is invalid'', s)
          else replying (\<lambda>e. case validation_of e of
              Some (f, m) \<Rightarrow> failure 422 ''validation_error'' (f @ '': '' @ m)
            | None \<Rightarrow> failure 500 ''task_sync_failed'' ''The scheduled task operation failed'') (Sync a su es s)
      | None \<Rightarrow> (failure 422 ''validation_error'' ''The scheduled task request is invalid'', s))"

definition handleDNSZone :: "'s agent_options \<Rightarrow> bool \<Rightarrow> zone_spec \<Rightarrow> 's \<Rightarrow> agent_reply \<times> 's" where
  "handleDNSZone cfg del z s =
     (let bad = (if del then agent_ValidateZoneIdentity (ago_ext cfg) z else agent_ValidateZone (ago_ext cfg) z) in
      case ago_dns cfg of
        Some d \<Rightarrow>
          if bad \<noteq> None then (failure 422 ''validation_error'' ''The DNS zone request is invalid'', s)
          else replying (\<lambda>_. failure 500 ''dns_zone_failed'' ''The DNS zone operation failed'')
            (if del then zdr_DeleteZone d z s else zdr_EnsureZone d z s)
      | None \<Rightarrow> (failure 422 ''validation_error'' ''The DNS zone request is invalid'', s))"

definition recordsHandler :: "'s agent_options \<Rightarrow> zone_spec \<Rightarrow> record_set list \<Rightarrow> 's \<Rightarrow> agent_reply \<times> 's" where
  "recordsHandler cfg z vs s =
     (case ago_dns cfg of
        Some d \<Rightarrow>
          if agent_ValidateRecordSets (ago_ext cfg) z vs \<noteq> None
          then (failure 422 ''validation_error'' ''The DNS record request is invalid'', s)
          else replying (\<lambda>_. failure 500 ''dns_record_failed'' ''The DNS record operation failed'') (zdr_SyncRecordSets d z vs s)
      | None \<Rightarrow> (failure 422 ''validation_error'' ''The DNS record request is invalid'', s))"

definition issue_value :: "issue_request \<Rightarrow> cert_request" where
  "issue_value q =
     \<lparr>crq_certificate = isr_certificate q, crq_kind = isr_kind q, crq_website = case_option [] id (isr_website q),
      crq_account = case_option [] id (isr_account q), crq_system_user = case_option [] id (isr_system_user q),
      crq_name = isr_name q, crq_email = isr_email q, crq_document_root = case_option [] id (isr_document_root q),
      crq_runtime_version = case_option [] id (isr_runtime_version q), crq_names = isr_names q, crq_redirect = isr_redirect q\<rparr>"

definition certificatesHandler :: "'s agent_options \<Rightarrow> issue_request \<Rightarrow> 's \<Rightarrow> agent_reply \<times> 's" where
  "certificatesHandler cfg q s =
     (case ago_certificates cfg of
        None \<Rightarrow> (failure 500 ''internal_error'' ''Certificate driver is not configured'', s)
      | Some Issue \<Rightarrow>
          (case Issue (issue_value q) s of
             (Inl e, s') \<Rightarrow> (failure 500 ''certificate_issue_failed'' ''The certificate operation failed'', s')
           | (Inr (names, expires), s') \<Rightarrow> (answer (CertificateBody names expires), s')))"

definition writeBackupFailure :: "err \<Rightarrow> agent_reply" where
  "writeBackupFailure e =
     (if error_is e backupfmt_ErrVersion then failure 422 ''backup_version'' ''This backup format is not supported. Create a new backup with the current version of WEBYCP''
      else if error_is e backupfmt_ErrInvalid then failure 422 ''backup_invalid'' ''The backup archive is invalid or damaged. Use another verified backup''
      else case validation_of e of
        Some (_, m) \<Rightarrow> failure 422 ''validation_error'' m
      | None \<Rightarrow> failure 500 ''backup_failed'' ''The backup operation failed'')"

text \<open>The results of the drivers as reply bodies.\<close>

definition bodiless :: "'s step \<Rightarrow> 's \<Rightarrow> (err + agent_body) \<times> 's" where
  "bodiless f s = (case fst (f s) of None \<Rightarrow> Inr NoBody | Some e \<Rightarrow> Inl e, snd (f s))"

definition with_body :: "('a \<Rightarrow> agent_body) \<Rightarrow> ('s \<Rightarrow> (err + 'a) \<times> 's) \<Rightarrow> 's \<Rightarrow> (err + agent_body) \<times> 's" where
  "with_body b f s = (andthen (fst (f s)) (\<lambda>v. Inr (b v)), snd (f s))"

definition backupHandler :: "'s agent_options \<Rightarrow> ('s backup_driver \<Rightarrow> 's \<Rightarrow> (err + agent_body) \<times> 's) \<Rightarrow> 's \<Rightarrow> agent_reply \<times> 's" where
  "backupHandler cfg run s =
     (case ago_backups cfg of
        None \<Rightarrow> (failure 500 ''internal_error'' ''Backup driver is not configured'', s)
      | Some d \<Rightarrow>
          (case run d s of
             (Inl e, s') \<Rightarrow> (writeBackupFailure e, s')
           | (Inr NoBody, s') \<Rightarrow> (no_content, s')
           | (Inr b, s') \<Rightarrow> (answer b, s')))"

definition writeWebsiteFailure :: "website_action \<Rightarrow> err \<Rightarrow> agent_reply" where
  "writeWebsiteFailure k e =
     (case validation_of e of
        Some (_, m) \<Rightarrow> failure 422 ''validation_error'' m
      | None \<Rightarrow> failure 500 (''website_'' @ (case k of SiteDoEnsure \<Rightarrow> ''ensure'' | SiteDoDisable \<Rightarrow> ''disable'' | SiteDoDelete \<Rightarrow> ''delete'') @ ''_failed'')
          ''The website operation failed'')"

definition websitesHandler :: "'s agent_options \<Rightarrow> website_action \<Rightarrow> site_spec \<Rightarrow> 's \<Rightarrow> agent_reply \<times> 's" where
  "websitesHandler cfg k v s =
     (case ago_websites cfg of
        None \<Rightarrow> (failure 500 ''internal_error'' ''Website manager is not configured'', s)
      | Some act \<Rightarrow>
          if \<not> succeeds (validate_ID ''accountId'' (hws_account v)) \<or> \<not> succeeds (validate_ID ''websiteId'' (hws_website v)) \<or>
             \<not> succeeds (validate_SystemUser (hws_user v)) \<or> hws_kind v \<noteq> ''php'' \<or> hws_web v \<noteq> ''nginx'' \<or>
             hws_runtime v \<noteq> ''phpfpm'' \<or> hws_version v \<noteq> ''8.3''
          then (failure 422 ''validation_error'' ''The website request is invalid'', s)
          else replying (writeWebsiteFailure k) (act k v s))"

fun agent_dispatch :: "'s agent_options \<Rightarrow> agent_request \<Rightarrow> 's \<Rightarrow> agent_reply \<times> 's" where
  "agent_dispatch cfg GetHealth s = healthHandler cfg s"
| "agent_dispatch cfg (PutFTPAccounts a su es) s = ftpHandler cfg a su es s"
| "agent_dispatch cfg (PostAccounts a su) s = accountsHandler cfg a su s"
| "agent_dispatch cfg (PostAccountAction k a su) s = accountActionHandler cfg k a su s"
| "agent_dispatch cfg (DatabaseMessage del n) s = handleDatabase cfg del n s"
| "agent_dispatch cfg (DatabaseUserMessage del n p) s = handleDatabaseUser cfg del n p s"
| "agent_dispatch cfg (DatabaseGrantMessage del n u) s = handleGrant cfg del n u s"
| "agent_dispatch cfg (PutScheduledTasks a su es) s = tasksHandler cfg a su es s"
| "agent_dispatch cfg (DNSZoneMessage del z) s = handleDNSZone cfg del z s"
| "agent_dispatch cfg (PutDNSRecords z vs) s = recordsHandler cfg z vs s"
| "agent_dispatch cfg (PostCertificates q) s = certificatesHandler cfg q s"
| "agent_dispatch cfg (PostBackups q) s =
     backupHandler cfg (\<lambda>d. with_body ArtifactBody (bdr_Create d q)) s"
| "agent_dispatch cfg (PostBackupsPreview q) s =
     backupHandler cfg (\<lambda>d. with_body ManifestBody (bdr_Preview d q)) s"
| "agent_dispatch cfg (PostBackupsRestore q) s =
     backupHandler cfg (\<lambda>d. with_body RestoredBody (bdr_Restore d q)) s"
| "agent_dispatch cfg (DeleteBackups q) s =
     backupHandler cfg (\<lambda>d. bodiless (bdr_Delete d q)) s"
| "agent_dispatch cfg (PostWebsites k v) s = websitesHandler cfg k v s"

text \<open>The JSON library: encoding a message may fail, decoding depends on the message type of the route.\<close>

record wire =
  wir_encode :: "agent_request \<Rightarrow> err + string"
  wir_decode :: "string \<times> string \<Rightarrow> string \<Rightarrow> agent_request option"
  wir_reply_size :: "agent_body \<Rightarrow> nat"

definition maxJSONBody :: nat where "maxJSONBody = 2 ^ 20"

definition DecodeJSON :: "wire \<Rightarrow> string \<times> string \<Rightarrow> string \<Rightarrow> agent_request option" where
  "DecodeJSON w route body = (if maxJSONBody < length body then None else wir_decode w route body)"

text \<open>The routes registered in the order of \<open>New\<close>; the health check reads no body.\<close>

definition agent_routes :: "(string \<times> string) list" where
  "agent_routes =
     [(''PUT'', ''/agent/v1/ftp-accounts''), (''GET'', ''/agent/v1/health''), (''POST'', ''/agent/v1/accounts''),
      (''POST'', ''/agent/v1/accounts/disable''), (''POST'', ''/agent/v1/accounts/enable''), (''POST'', ''/agent/v1/accounts/delete''),
      (''POST'', ''/agent/v1/databases''), (''DELETE'', ''/agent/v1/databases''),
      (''POST'', ''/agent/v1/database-users''), (''DELETE'', ''/agent/v1/database-users''),
      (''POST'', ''/agent/v1/database-grants''), (''DELETE'', ''/agent/v1/database-grants''),
      (''PUT'', ''/agent/v1/scheduled-tasks''), (''POST'', ''/agent/v1/dns/zones''), (''DELETE'', ''/agent/v1/dns/zones''),
      (''PUT'', ''/agent/v1/dns/records''), (''POST'', ''/agent/v1/certificates''), (''POST'', ''/agent/v1/backups''),
      (''POST'', ''/agent/v1/backups/preview''), (''POST'', ''/agent/v1/backups/restore''), (''DELETE'', ''/agent/v1/backups''),
      (''POST'', ''/agent/v1/websites''), (''POST'', ''/agent/v1/websites/disable''), (''POST'', ''/agent/v1/websites/delete'')]"

definition agent_serve :: "wire \<Rightarrow> 's agent_options \<Rightarrow> string \<times> string \<Rightarrow> string \<Rightarrow> 's \<Rightarrow> agent_reply \<times> 's" where
  "agent_serve w cfg route body s =
     (if route \<notin> set agent_routes
      then (\<lparr>rep_status = (if snd route \<in> snd ` set agent_routes then 405 else 404), rep_body = NoBody\<rparr>, s)
      else if route = route_of GetHealth then agent_dispatch cfg GetHealth s
      else case DecodeJSON w route body of
        None \<Rightarrow> (failure 400 ''invalid_json'' ''The request body is invalid'', s)
      | Some r \<Rightarrow> agent_dispatch cfg r s)"

section \<open>The client\<close>

text \<open>
  What happens to a request on the socket: it does not reach the agent, the agent acts on it but the
  reply is lost (a time-out), or it is answered.
\<close>

datatype delivery = Refused err | Lost err | Answered

record 's link =
  lnk_wire :: wire
  lnk_agent :: "'s agent_options"
  lnk_net :: delivery

definition client_do :: "'s link \<Rightarrow> string \<times> string \<Rightarrow> string \<Rightarrow> 's \<Rightarrow> (err + agent_reply) \<times> 's" where
  "client_do c route body s =
     (case lnk_net c of
        Refused e \<Rightarrow> (Inl e, s)
      | Lost e \<Rightarrow> (Inl e, snd (agent_serve (lnk_wire c) (lnk_agent c) route body s))
      | Answered \<Rightarrow> (case agent_serve (lnk_wire c) (lnk_agent c) route body s of (rep, s') \<Rightarrow> (Inr rep, s')))"

definition status_error :: "string \<Rightarrow> agent_reply \<Rightarrow> err" where
  "status_error op rep = Plain (op @ '' returned status '' @ nat_text (rep_status rep))"

definition expectNoContent :: "agent_reply \<Rightarrow> string \<Rightarrow> err option" where
  "expectNoContent rep op = (if rep_status rep \<noteq> 204 then Some (status_error op rep) else None)"

definition client_sendJSON :: "'s link \<Rightarrow> agent_request \<Rightarrow> string \<Rightarrow> 's step" where
  "client_sendJSON c r op s =
     (case wir_encode (lnk_wire c) r of
        Inl e \<Rightarrow> (Some (Wrapped (''encode '' @ op @ '' request'') e), s)
      | Inr body \<Rightarrow>
          (case client_do c (route_of r) body s of
             (Inl e, s') \<Rightarrow> (Some (Wrapped (''request '' @ op) e), s')
           | (Inr rep, s') \<Rightarrow> (expectNoContent rep op, s')))"

definition decode_failure :: "string \<Rightarrow> err" where
  "decode_failure op = Wrapped (''decode '' @ op @ '' response'') (Plain ''unexpected EOF'')"

text \<open>A failure body is read up to 4 KiB, a result up to 1 MiB.\<close>

definition reply_failure :: "wire \<Rightarrow> string \<Rightarrow> agent_reply \<Rightarrow> err" where
  "reply_failure w op rep =
     (case rep_body rep of
        ErrorBody code msg \<Rightarrow>
          if rep_status rep = 422 \<and> wir_reply_size w (rep_body rep) \<le> 4096 \<and> code = ''backup_version'' then backupfmt_ErrVersion
          else if rep_status rep = 422 \<and> wir_reply_size w (rep_body rep) \<le> 4096 \<and> code = ''backup_invalid'' then backupfmt_ErrInvalid
          else status_error op rep
      | _ \<Rightarrow> status_error op rep)"

definition client_jsonResult :: "'s link \<Rightarrow> agent_request \<Rightarrow> string \<Rightarrow> 's \<Rightarrow> (err + agent_body) \<times> 's" where
  "client_jsonResult c r op s =
     (case wir_encode (lnk_wire c) r of
        Inl e \<Rightarrow> (Inl (Wrapped (''encode '' @ op @ '' request'') e), s)
      | Inr body \<Rightarrow>
          (case client_do c (route_of r) body s of
             (Inl e, s') \<Rightarrow> (Inl (Wrapped (''request '' @ op) e), s')
           | (Inr rep, s') \<Rightarrow>
               (if rep_status rep \<noteq> 200 then Inl (reply_failure (lnk_wire c) op rep)
                else if maxJSONBody < wir_reply_size (lnk_wire c) (rep_body rep) then Inl (decode_failure op)
                else Inr (rep_body rep), s')))"

definition protocolVersion :: string where "protocolVersion = ''v1''"

definition client_Probe :: "'s link \<Rightarrow> 's \<Rightarrow> (err + capabilities) \<times> 's" where
  "client_Probe c s =
     (case client_do c (route_of GetHealth) [] s of
        (Inl e, s') \<Rightarrow> (Inl (Wrapped ''request agent health'' e), s')
      | (Inr rep, s') \<Rightarrow>
          (if rep_status rep \<noteq> 200 then Inl (status_error ''agent health'' rep)
           else if 64 * 1024 < wir_reply_size (lnk_wire c) (rep_body rep) then Inl (Wrapped ''decode agent health'' (Plain ''unexpected EOF''))
           else case rep_body rep of
             HealthBody caps protocol service status version \<Rightarrow>
               if service \<noteq> ''webycp-agent'' \<or> status \<noteq> ''ok'' then Inl (Plain ''agent health response is invalid'')
               else if protocol \<noteq> protocolVersion then Inl (Plain (''agent protocol '' @ protocol @ '' is not supported''))
               else Inr caps
           | _ \<Rightarrow> Inl (Plain ''decode agent health''), s'))"

definition client_EnsureAccount :: "'s link \<Rightarrow> ident \<Rightarrow> string \<Rightarrow> 's step" where
  "client_EnsureAccount c a su = client_sendJSON c (PostAccounts a su) ''account reconcile''"

definition client_accountAction :: "'s link \<Rightarrow> account_action \<Rightarrow> ident \<Rightarrow> string \<Rightarrow> 's step" where
  "client_accountAction c k a su = client_sendJSON c (PostAccountAction k a su) ''account action''"

definition client_websiteRequest :: "web_spec \<Rightarrow> site_spec" where
  "client_websiteRequest v =
     \<lparr>hws_account = wsp_account v, hws_user = wsp_system_user v, hws_website = wsp_website v, hws_root = wsp_document_root v,
      hws_kind = wsp_kind v, hws_web = wsp_web_driver v, hws_runtime = wsp_runtime_driver v, hws_version = wsp_runtime_version v,
      hws_name = wsp_primary v, hws_aliases = wsp_aliases v\<rparr>"

definition client_EnsureWebsite :: "'s link \<Rightarrow> web_spec \<Rightarrow> 's step" where
  "client_EnsureWebsite c v = client_sendJSON c (PostWebsites SiteDoEnsure (client_websiteRequest v)) ''website reconcile''"

definition client_DisableWebsite :: "'s link \<Rightarrow> web_spec \<Rightarrow> 's step" where
  "client_DisableWebsite c v = client_sendJSON c (PostWebsites SiteDoDisable (client_websiteRequest v)) ''website disable''"

definition client_DeleteWebsite :: "'s link \<Rightarrow> web_spec \<Rightarrow> 's step" where
  "client_DeleteWebsite c v = client_sendJSON c (PostWebsites SiteDoDelete (client_websiteRequest v)) ''website delete''"

definition client_EnsureDatabase :: "'s link \<Rightarrow> string \<Rightarrow> 's step" where
  "client_EnsureDatabase c n = client_sendJSON c (DatabaseMessage False n) ''database create''"

definition client_DeleteDatabase :: "'s link \<Rightarrow> string \<Rightarrow> 's step" where
  "client_DeleteDatabase c n = client_sendJSON c (DatabaseMessage True n) ''database delete''"

definition client_EnsureDatabaseUser :: "'s link \<Rightarrow> string \<Rightarrow> string \<Rightarrow> 's step" where
  "client_EnsureDatabaseUser c n p = client_sendJSON c (DatabaseUserMessage False n (Some p)) ''database user create''"

definition client_DeleteDatabaseUser :: "'s link \<Rightarrow> string \<Rightarrow> 's step" where
  "client_DeleteDatabaseUser c n = client_sendJSON c (DatabaseUserMessage True n None) ''database user delete''"

definition client_EnsureDatabaseGrant :: "'s link \<Rightarrow> string \<Rightarrow> string \<Rightarrow> 's step" where
  "client_EnsureDatabaseGrant c n u = client_sendJSON c (DatabaseGrantMessage False n u) ''database grant create''"

definition client_DeleteDatabaseGrant :: "'s link \<Rightarrow> string \<Rightarrow> string \<Rightarrow> 's step" where
  "client_DeleteDatabaseGrant c n u = client_sendJSON c (DatabaseGrantMessage True n u) ''database grant delete''"

definition client_SyncTasks :: "'s link \<Rightarrow> ident \<Rightarrow> string \<Rightarrow> cron_entry list \<Rightarrow> 's step" where
  "client_SyncTasks c a su es = client_sendJSON c (PutScheduledTasks a su es) ''scheduled task sync''"

definition client_EnsureDNSZone :: "'s link \<Rightarrow> zone_spec \<Rightarrow> 's step" where
  "client_EnsureDNSZone c z = client_sendJSON c (DNSZoneMessage False z) ''DNS zone create''"

definition client_DeleteDNSZone :: "'s link \<Rightarrow> zone_spec \<Rightarrow> 's step" where
  "client_DeleteDNSZone c z = client_sendJSON c (DNSZoneMessage True z) ''DNS zone delete''"

definition client_SyncDNSRecordSets :: "'s link \<Rightarrow> zone_spec \<Rightarrow> record_set list \<Rightarrow> 's step" where
  "client_SyncDNSRecordSets c z vs = client_sendJSON c (PutDNSRecords z vs) ''DNS record sync''"

definition client_SyncFTP :: "'s link \<Rightarrow> ident \<Rightarrow> string \<Rightarrow> ftp_entry list \<Rightarrow> 's step" where
  "client_SyncFTP c a su es = client_sendJSON c (PutFTPAccounts a su (Some es)) ''FTP access synchronization''"

definition unless_empty :: "string \<Rightarrow> string option" where
  "unless_empty v = (if v \<noteq> [] then Some v else None)"

definition client_IssueCertificate :: "'s link \<Rightarrow> cert_request \<Rightarrow> 's \<Rightarrow> (err + string list \<times> msec) \<times> 's" where
  "client_IssueCertificate c q s =
     (case client_jsonResult c (PostCertificates
         \<lparr>isr_certificate = crq_certificate q, isr_kind = crq_kind q, isr_name = crq_name q, isr_names = crq_names q,
          isr_email = crq_email q, isr_redirect = crq_redirect q, isr_website = unless_empty (crq_website q),
          isr_account = unless_empty (crq_account q), isr_system_user = unless_empty (crq_system_user q),
          isr_document_root = unless_empty (crq_document_root q), isr_runtime_version = unless_empty (crq_runtime_version q)\<rparr>)
         ''certificate issue'' s of
        (Inl e, s') \<Rightarrow> (Inl e, s')
      | (Inr b, s') \<Rightarrow> (case b of CertificateBody names expires \<Rightarrow> Inr (names, expires) | _ \<Rightarrow> Inl (decode_failure ''certificate issue''), s'))"

definition client_CreateBackup :: "'s link \<Rightarrow> create_request \<Rightarrow> 's \<Rightarrow> (err + agent_artifact) \<times> 's" where
  "client_CreateBackup c q s =
     (case client_jsonResult c (PostBackups q) ''backup create'' s of
        (Inl e, s') \<Rightarrow> (Inl e, s')
      | (Inr b, s') \<Rightarrow> (case b of ArtifactBody a \<Rightarrow> Inr a | _ \<Rightarrow> Inl (decode_failure ''backup create''), s'))"

definition client_PreviewBackup :: "'s link \<Rightarrow> artifact_request \<Rightarrow> 's \<Rightarrow> (err + manifest) \<times> 's" where
  "client_PreviewBackup c q s =
     (case client_jsonResult c (PostBackupsPreview q) ''backup preview'' s of
        (Inl e, s') \<Rightarrow> (Inl e, s')
      | (Inr b, s') \<Rightarrow> (case b of ManifestBody m \<Rightarrow> Inr m | _ \<Rightarrow> Inl (decode_failure ''backup preview''), s'))"

definition client_RestoreBackup :: "'s link \<Rightarrow> restore_request \<Rightarrow> 's \<Rightarrow> (err + string) \<times> 's" where
  "client_RestoreBackup c q s =
     (case client_jsonResult c (PostBackupsRestore q) ''backup restore'' s of
        (Inl e, s') \<Rightarrow> (Inl e, s')
      | (Inr b, s') \<Rightarrow> (case b of RestoredBody m \<Rightarrow> Inr m | _ \<Rightarrow> Inl (decode_failure ''backup restore''), s'))"

definition client_DeleteBackup :: "'s link \<Rightarrow> artifact_request \<Rightarrow> 's step" where
  "client_DeleteBackup c q = client_sendJSON c (DeleteBackups q) ''backup delete''"

section \<open>What a request asks for\<close>

text \<open>The checks of the handlers, and the driver operation behind each of them.\<close>

fun request_ok :: "'s agent_options \<Rightarrow> agent_request \<Rightarrow> bool" where
  "request_ok cfg (PutFTPAccounts a su es) \<longleftrightarrow> succeeds (hostuser_ValidateNames a su) \<and> es \<noteq> None \<and> length (the es) \<le> 100"
| "request_ok cfg (PostAccounts a su) \<longleftrightarrow> succeeds (validate_ID ''accountId'' a)"
| "request_ok cfg (PostAccountAction k a su) \<longleftrightarrow> \<not> hostAccountInvalid a su"
| "request_ok cfg (DatabaseMessage del n) \<longleftrightarrow> succeeds (validate_DatabaseSystemName n)"
| "request_ok cfg (DatabaseUserMessage del n p) \<longleftrightarrow> succeeds (validate_DatabaseSystemName n) \<and> (del \<or> p \<noteq> None)"
| "request_ok cfg (DatabaseGrantMessage del n u) \<longleftrightarrow>
     succeeds (validate_DatabaseSystemName n) \<and> succeeds (validate_DatabaseSystemName u)"
| "request_ok cfg (PutScheduledTasks a su es) \<longleftrightarrow> \<not> hostAccountInvalid a su"
| "request_ok cfg (DNSZoneMessage del z) \<longleftrightarrow>
     (if del then agent_ValidateZoneIdentity (ago_ext cfg) z else agent_ValidateZone (ago_ext cfg) z) = None"
| "request_ok cfg (PutDNSRecords z vs) \<longleftrightarrow> agent_ValidateRecordSets (ago_ext cfg) z vs = None"
| "request_ok cfg (PostWebsites k v) \<longleftrightarrow> \<not> hostAccountInvalid (hws_account v) (hws_user v) \<and>
     succeeds (validate_ID ''websiteId'' (hws_website v)) \<and> hws_kind v = ''php'' \<and> hws_web v = ''nginx'' \<and>
     hws_runtime v = ''phpfpm'' \<and> hws_version v = ''8.3''"
| "request_ok cfg _ \<longleftrightarrow> True"

fun operation :: "'s agent_options \<Rightarrow> agent_request \<Rightarrow> ('s \<Rightarrow> (err + agent_body) \<times> 's) option" where
  "operation cfg GetHealth =
     map_option (\<lambda>observe s. (Inr (HealthBody (observe s) ''v1'' ''webycp-agent'' ''ok'' (ago_version cfg)), s)) (ago_capabilities cfg)"
| "operation cfg (PutFTPAccounts a su es) = map_option (\<lambda>f. bodiless (f a su es)) (ago_ftp cfg)"
| "operation cfg (PostAccounts a su) = map_option (\<lambda>f. bodiless (f a su)) (ago_accounts cfg)"
| "operation cfg (PostAccountAction k a su) = map_option (\<lambda>f. bodiless (f k a su)) (ago_actions cfg)"
| "operation cfg (DatabaseMessage del n) =
     map_option (\<lambda>d. bodiless (if del then ddr_DeleteDatabase d n else ddr_EnsureDatabase d n)) (ago_databases cfg)"
| "operation cfg (DatabaseUserMessage del n p) =
     map_option (\<lambda>d. bodiless (if del then ddr_DeleteUser d n else ddr_EnsureUser d n (the p))) (ago_databases cfg)"
| "operation cfg (DatabaseGrantMessage del n u) =
     map_option (\<lambda>d. bodiless (if del then ddr_DeleteGrant d n u else ddr_EnsureGrant d n u)) (ago_databases cfg)"
| "operation cfg (PutScheduledTasks a su es) = map_option (\<lambda>f. bodiless (f a su es)) (ago_tasks cfg)"
| "operation cfg (DNSZoneMessage del z) =
     map_option (\<lambda>d. bodiless (if del then zdr_DeleteZone d z else zdr_EnsureZone d z)) (ago_dns cfg)"
| "operation cfg (PutDNSRecords z vs) = map_option (\<lambda>d. bodiless (zdr_SyncRecordSets d z vs)) (ago_dns cfg)"
| "operation cfg (PostCertificates q) =
     map_option (\<lambda>f. with_body (\<lambda>(names, expires). CertificateBody names expires) (f (issue_value q))) (ago_certificates cfg)"
| "operation cfg (PostBackups q) = map_option (\<lambda>d. with_body ArtifactBody (bdr_Create d q)) (ago_backups cfg)"
| "operation cfg (PostBackupsPreview q) = map_option (\<lambda>d. with_body ManifestBody (bdr_Preview d q)) (ago_backups cfg)"
| "operation cfg (PostBackupsRestore q) = map_option (\<lambda>d. with_body RestoredBody (bdr_Restore d q)) (ago_backups cfg)"
| "operation cfg (DeleteBackups q) = map_option (\<lambda>d. bodiless (bdr_Delete d q)) (ago_backups cfg)"
| "operation cfg (PostWebsites k v) = map_option (\<lambda>f. bodiless (f k v)) (ago_websites cfg)"

text \<open>What happens when the request is acted on; \<open>None\<close> when it is refused.\<close>

definition asked :: "'s agent_options \<Rightarrow> agent_request \<Rightarrow> 's \<Rightarrow> ((err + agent_body) \<times> 's) option" where
  "asked cfg r s = (if request_ok cfg r then map_option (\<lambda>f. f s) (operation cfg r) else None)"

fun reply_to :: "(err + agent_body) \<Rightarrow> agent_reply \<Rightarrow> bool" where
  "reply_to (Inr b) rep \<longleftrightarrow> rep = (if b = NoBody then no_content else answer b)"
| "reply_to (Inl e) rep \<longleftrightarrow> rep_status rep \<noteq> 200 \<and> rep_status rep \<noteq> 204"

lemmas reply_defs = failure_def no_content_def answer_def writeBackupFailure_def writeWebsiteFailure_def

lemma backup_replies:
  assumes "backupHandler cfg run s = (rep, s')" "ago_backups cfg = Some d" "run d s = (r, t)"
  shows "s' = t \<and> reply_to r rep"
  using assms by (cases r) (auto simp: backupHandler_def reply_defs split: agent_body.splits option.splits if_splits)

text \<open>The server acts exactly on what is asked, and its reply says how that ended.\<close>

definition met :: "((err + agent_body) \<times> 's) option \<Rightarrow> 's \<Rightarrow> agent_reply \<times> 's \<Rightarrow> bool" where
  "met out s r \<longleftrightarrow> (case out of
       None \<Rightarrow> snd r = s \<and> rep_status (fst r) \<noteq> 200 \<and> rep_status (fst r) \<noteq> 204
     | Some (res, t) \<Rightarrow> snd r = t \<and> reply_to res (fst r))"

lemma met_bodiless:
  "(\<And>e. rep_status (fail e) \<notin> {200, 204}) \<Longrightarrow> met (Some (bodiless f s)) s (replying fail (f s))"
  by (auto simp: met_def replying_def bodiless_def split: option.splits)

lemma met_backup:
  "ago_backups cfg = Some d \<Longrightarrow> met (Some (run d s)) s (backupHandler cfg run s)"
  using backup_replies [of cfg run s "fst (backupHandler cfg run s)" "snd (backupHandler cfg run s)" d "fst (run d s)" "snd (run d s)"]
  by (auto simp: met_def split: prod.splits)

lemma met_refused:
  "status \<noteq> 200 \<Longrightarrow> status \<noteq> 204 \<Longrightarrow> met None s (failure status code msg, s)"
  by (simp add: met_def failure_def)

lemma reply_validation:
  "rep_status (case validation_of e of None \<Rightarrow> failure 500 code msg | Some (f, m) \<Rightarrow> failure 422 c (g f m)) \<notin> {200, 204}"
  by (simp add: failure_def split: option.split prod.split)

lemma met_validating:
  "met (Some (bodiless f s)) s
     (replying (\<lambda>e. case validation_of e of None \<Rightarrow> failure 500 code msg | Some (x, m) \<Rightarrow> failure 422 c (g x m)) (f s))"
  by (rule met_bodiless) (rule reply_validation)

lemma met_website: "met (Some (bodiless f s)) s (replying (writeWebsiteFailure k) (f s))"
  unfolding writeWebsiteFailure_def by (rule met_bodiless) (rule reply_validation)

lemma met_failing: "met (Some (bodiless f s)) s (replying (\<lambda>_. failure 500 code msg) (f s))"
  by (rule met_bodiless) (simp add: failure_def)

lemmas failing_replies = met_refused met_website met_failing

lemma unconfigured: "ago_backups cfg = None \<Longrightarrow> met None s (backupHandler cfg run s)"
  by (simp add: backupHandler_def met_refused)

lemma dispatch_meets: "met (asked cfg r s) s (agent_dispatch cfg r s)"
proof (cases r)
  case GetHealth
  then show ?thesis
    by (auto simp: asked_def healthHandler_def met_def reply_defs split: option.splits)
next
  case (PostCertificates q)
  then show ?thesis
    by (auto simp: asked_def certificatesHandler_def met_def reply_defs with_body_def split: option.splits prod.splits sum.splits)
next
  case (PostBackups q)
  then show ?thesis
    using met_backup [of cfg _ "\<lambda>d. with_body ArtifactBody (bdr_Create d q)"] by (cases "ago_backups cfg") (simp_all add: asked_def unconfigured)
next
  case (PostBackupsPreview q)
  then show ?thesis
    using met_backup [of cfg _ "\<lambda>d. with_body ManifestBody (bdr_Preview d q)"] by (cases "ago_backups cfg") (simp_all add: asked_def unconfigured)
next
  case (PostBackupsRestore q)
  then show ?thesis
    using met_backup [of cfg _ "\<lambda>d. with_body RestoredBody (bdr_Restore d q)"] by (cases "ago_backups cfg") (simp_all add: asked_def unconfigured)
next
  case (DeleteBackups q)
  then show ?thesis
    using met_backup [of cfg _ "\<lambda>d. bodiless (bdr_Delete d q)"] by (cases "ago_backups cfg") (simp_all add: asked_def unconfigured)
next
  case (PutFTPAccounts a su es)
  then show ?thesis
    by (cases "ago_ftp cfg"; cases es) (simp_all add: asked_def ftpHandler_def met_refused, auto intro!: met_validating)
next
  case (PostAccounts a su)
  then show ?thesis
    by (cases "ago_accounts cfg") (simp_all add: asked_def accountsHandler_def met_refused, auto intro!: met_validating)
next
  case (PostAccountAction k a su)
  then show ?thesis
    by (cases "ago_actions cfg") (simp_all add: asked_def accountActionHandler_def failing_replies)
next
  case (DatabaseMessage del n)
  then show ?thesis
    by (cases "ago_databases cfg") (simp_all add: asked_def handleDatabase_def failing_replies)
next
  case (DatabaseUserMessage del n p)
  then show ?thesis
    by (cases "ago_databases cfg") (auto simp: asked_def handleDatabaseUser_def failing_replies)
next
  case (DatabaseGrantMessage del n u)
  then show ?thesis
    by (cases "ago_databases cfg") (auto simp: asked_def handleGrant_def failing_replies)
next
  case (PutScheduledTasks a su es)
  then show ?thesis
    by (cases "ago_tasks cfg") (simp_all add: asked_def tasksHandler_def met_refused, auto intro!: met_validating)
next
  case (DNSZoneMessage del z)
  then show ?thesis
    by (cases "ago_dns cfg") (auto simp: asked_def handleDNSZone_def failing_replies)
next
  case (PutDNSRecords z vs)
  then show ?thesis
    by (cases "ago_dns cfg") (simp_all add: asked_def recordsHandler_def failing_replies)
next
  case (PostWebsites k v)
  then show ?thesis
    by (cases "ago_websites cfg") (simp_all add: asked_def websitesHandler_def hostAccountInvalid_def failing_replies)
qed

text \<open>
  The JSON library decodes the message it encoded, as it does for messages whose strings are valid
  UTF-8 (other bytes are replaced).
\<close>

definition wire_ok :: "wire \<Rightarrow> agent_request \<Rightarrow> bool" where
  "wire_ok w r \<longleftrightarrow> (\<forall>body. wir_encode w r = Inr body \<longrightarrow> wir_decode w (route_of r) body = Some r)"

lemma route_known: "route_of r \<in> set agent_routes"
  by (cases r) (auto simp: agent_routes_def or_delete_def split: account_action.splits website_action.splits)

lemma health_route: "route_of r = route_of GetHealth \<longleftrightarrow> r = GetHealth"
  by (cases r) (auto simp: or_delete_def split: account_action.splits website_action.splits)

lemma serve_meets:
  assumes "wire_ok w r" "wir_encode w r = Inr body"
  shows "agent_serve w cfg (route_of r) body s =
      (if r \<noteq> GetHealth \<and> maxJSONBody < length body then (failure 400 ''invalid_json'' ''The request body is invalid'', s)
       else agent_dispatch cfg r s)"
  using assms health_route [of r] route_known [of r]
  by (cases "r = GetHealth") (auto simp: agent_serve_def DecodeJSON_def wire_ok_def)

definition fits :: "wire \<Rightarrow> agent_request \<Rightarrow> bool" where
  "fits w r \<longleftrightarrow> (\<exists>body. wir_encode w r = Inr body \<and> length body \<le> maxJSONBody)"

lemma serve_or_not:
  assumes "wire_ok w r" "wir_encode w r = Inr body"
  shows "met (asked cfg r s) s (agent_serve w cfg (route_of r) body s) \<or>
    \<not> fits w r \<and> met None s (agent_serve w cfg (route_of r) body s)"
  using assms dispatch_meets [of cfg r s] met_refused [of 400 s] by (auto simp: serve_meets fits_def)

lemma remote_call:
  assumes "wire_ok (lnk_wire c) r"
  shows "(fst (client_sendJSON c r op s) = None \<longrightarrow> asked (lnk_agent c) r s = Some (Inr NoBody, snd (client_sendJSON c r op s))) \<and>
    (snd (client_sendJSON c r op s) = s \<or> (\<exists>res. asked (lnk_agent c) r s = Some (res, snd (client_sendJSON c r op s)))) \<and>
    (lnk_net c = Answered \<and> fits (lnk_wire c) r \<and> (\<exists>t. asked (lnk_agent c) r s = Some (Inr NoBody, t)) \<longrightarrow>
      fst (client_sendJSON c r op s) = None)"
proof (cases "wir_encode (lnk_wire c) r")
  case (Inl e)
  then show ?thesis
    by (simp add: client_sendJSON_def fits_def)
next
  case (Inr body)
  let ?out = "agent_serve (lnk_wire c) (lnk_agent c) (route_of r) body s"
  have m: "met (asked (lnk_agent c) r s) s ?out \<or> \<not> fits (lnk_wire c) r \<and> met None s ?out"
    by (rule serve_or_not [OF assms Inr])
  have none: "rep_status (fst ?out) = 204 \<Longrightarrow> asked (lnk_agent c) r s = Some (Inr NoBody, snd ?out)"
    using m by (auto simp: met_def answer_def split: option.splits prod.splits sum.splits if_splits elim!: reply_to.elims)
  have acted: "snd ?out = s \<or> (\<exists>res. asked (lnk_agent c) r s = Some (res, snd ?out))"
    using m by (auto simp: met_def split: option.splits prod.splits)
  have ok: "fits (lnk_wire c) r \<Longrightarrow> asked (lnk_agent c) r s = Some (Inr NoBody, t) \<Longrightarrow> rep_status (fst ?out) = 204" for t
    using m by (auto simp: met_def no_content_def)
  show ?thesis
    using none acted ok
    by (cases "lnk_net c") (auto simp: client_sendJSON_def Inr client_do_def expectNoContent_def split: prod.splits)
qed


lemma backup_marks: "error_is backupfmt_ErrVersion backupfmt_ErrVersion" "error_is backupfmt_ErrInvalid backupfmt_ErrInvalid"
    "\<not> error_is backupfmt_ErrVersion backupfmt_ErrInvalid" "\<not> error_is backupfmt_ErrInvalid backupfmt_ErrVersion"
    "backupfmt_ErrInvalid \<noteq> backupfmt_ErrVersion"
  by (simp_all add: backupfmt_ErrVersion_def backupfmt_ErrInvalid_def)

text \<open>
  The JSON text of a failure is an object of two members.  The library writes a byte of a string as at
  most six bytes (the escapes of control characters, of \<open><\<close>, \<open>>\<close> and \<open>&\<close>, and of invalid UTF-8), so
  its size is bounded by the lengths of the code and the message; a message may be of any length, and
  a failure longer than the 4 KiB the client reads is not decoded.
\<close>

definition json_bounded :: "wire \<Rightarrow> bool" where
  "json_bounded w \<longleftrightarrow> (\<forall>code msg. wir_reply_size w (ErrorBody code msg) \<le> 64 + 6 * (length code + length msg))"

lemma known_failures_fit:
  assumes "json_bounded w"
  shows "wir_reply_size w (ErrorBody ''backup_version'' ''This backup format is not supported. Create a new backup with the current version of WEBYCP'') \<le> 4096"
    and "wir_reply_size w (ErrorBody ''backup_invalid'' ''The backup archive is invalid or damaged. Use another verified backup'') \<le> 4096"
  using assms [unfolded json_bounded_def, rule_format, of "''backup_version''"
      "''This backup format is not supported. Create a new backup with the current version of WEBYCP''"]
    assms [unfolded json_bounded_def, rule_format, of "''backup_invalid''"
      "''The backup archive is invalid or damaged. Use another verified backup''"]
  by simp_all

text \<open>C5: the panel can tell why a backup is refused.  When an operation of the backup driver on an
  archive fails and the reply arrives, the error the client returns counts as an unsupported format, or
  as a damaged archive, exactly when the driver's error does, the former taking precedence; any other
  failure of the driver counts as neither, also one whose message is too long for the 4 KiB of a failure
  the client reads.  Assumed of the JSON library: it decodes what it encoded, and it writes a byte of a
  string as at most six.\<close>

theorem backup_errors_survive:
  assumes "wire_ok (lnk_wire c) r" "fits (lnk_wire c) r" "lnk_net c = Answered"
    and r: "r \<in> {PostBackups q1, PostBackupsPreview q2, PostBackupsRestore q3}"
    and fails: "asked (lnk_agent c) r s = Some (Inl e, t)"
    and op: "op \<in> {''backup create'', ''backup preview'', ''backup restore''}"
    and json: "json_bounded (lnk_wire c)"
  shows "\<exists>e'. client_jsonResult c r op s = (Inl e', t) \<and>
    (error_is e' backupfmt_ErrVersion \<longleftrightarrow> error_is e backupfmt_ErrVersion) \<and>
    (error_is e' backupfmt_ErrInvalid \<longleftrightarrow> error_is e backupfmt_ErrInvalid \<and> \<not> error_is e backupfmt_ErrVersion)"
proof -
  obtain body where body: "wir_encode (lnk_wire c) r = Inr body" "length body \<le> maxJSONBody"
    using assms(2) by (auto simp: fits_def)
  have serve: "agent_serve (lnk_wire c) (lnk_agent c) (route_of r) body s = agent_dispatch (lnk_agent c) r s"
    using serve_meets [OF assms(1) body(1)] body(2) by simp
  obtain d where d: "ago_backups (lnk_agent c) = Some d"
    using r fails by (cases "ago_backups (lnk_agent c)") (auto simp: asked_def)
  have out: "agent_dispatch (lnk_agent c) r s = (writeBackupFailure e, t)"
    using r fails by (auto simp: asked_def d backupHandler_def split: if_splits)
  have plain: "\<not> error_is (status_error op rep) backupfmt_ErrVersion" "\<not> error_is (status_error op rep) backupfmt_ErrInvalid" for rep
    using op by (auto simp: status_error_def backupfmt_ErrVersion_def backupfmt_ErrInvalid_def)
  have known: "error_is (reply_failure (lnk_wire c) op (writeBackupFailure e)) backupfmt_ErrVersion \<longleftrightarrow> error_is e backupfmt_ErrVersion"
    "error_is (reply_failure (lnk_wire c) op (writeBackupFailure e)) backupfmt_ErrInvalid \<longleftrightarrow>
      error_is e backupfmt_ErrInvalid \<and> \<not> error_is e backupfmt_ErrVersion"
    using known_failures_fit [OF json] plain
    by (auto simp: writeBackupFailure_def reply_failure_def failure_def backup_marks split: option.split)
  have "rep_status (writeBackupFailure e) \<noteq> 200"
    by (simp add: writeBackupFailure_def failure_def split: option.split)
  then show ?thesis
    using known by (simp add: client_jsonResult_def client_do_def assms(3) body(1) serve out)
qed

section \<open>Examples\<close>

text \<open>A JSON library that knows the message \<open>r\<close>, and an agent on which only MySQL and a damaged backup are found.\<close>

definition sample_wire :: "agent_request \<Rightarrow> wire" where
  "sample_wire r = \<lparr>wir_encode = \<lambda>q. if q = r then Inr ''{}'' else Inl (Plain ''json: unsupported value''),
     wir_decode = \<lambda>route body. if route = route_of r \<and> body = ''{}'' then Some r else None,
     wir_reply_size = \<lambda>b. case b of ErrorBody code msg \<Rightarrow> 25 + length code + length msg | _ \<Rightarrow> 200\<rparr>"

lemma sample_wire_ok: "wire_ok (sample_wire r) r" "fits (sample_wire r) r"
  by (auto simp: wire_ok_def fits_def sample_wire_def maxJSONBody_def)

definition logging :: "(string list \<Rightarrow> err option) \<Rightarrow> (runner \<Rightarrow> err option \<times> string list list) \<Rightarrow> string list list step" where
  "logging run f s = (fst (f run), s @ snd (f run))"

definition sample_damage :: err where
  "sample_damage = invalid_archive ''artifact checksum mismatch''"

definition sample_agent :: "string list list agent_options" where
  "sample_agent = \<lparr>ago_ext = plain_ext, ago_version = ''1'', ago_capabilities = None, ago_accounts = None, ago_actions = None,
     ago_websites = None,
     ago_databases = Some \<lparr>ddr_EnsureDatabase = \<lambda>n. logging (\<lambda>_. None) (\<lambda>r. mysql_EnsureDatabase r n),
       ddr_DeleteDatabase = \<lambda>n. logging (\<lambda>_. None) (\<lambda>r. mysql_DeleteDatabase r n),
       ddr_EnsureUser = \<lambda>n p. logging (\<lambda>_. None) (\<lambda>r. mysql_EnsureUser r n p),
       ddr_DeleteUser = \<lambda>n. logging (\<lambda>_. None) (\<lambda>r. mysql_DeleteUser r n),
       ddr_EnsureGrant = \<lambda>n u. logging (\<lambda>_. None) (\<lambda>r. mysql_EnsureGrant r n u),
       ddr_DeleteGrant = \<lambda>n u. logging (\<lambda>_. None) (\<lambda>r. mysql_DeleteGrant r n u)\<rparr>,
     ago_tasks = None, ago_certificates = None,
     ago_backups = Some \<lparr>bdr_Create = \<lambda>_ s. (Inl sample_damage, s), bdr_Preview = \<lambda>_ s. (Inl sample_damage, s),
       bdr_Restore = \<lambda>_ s. (Inl sample_damage, s), bdr_Delete = \<lambda>_ s. (None, s)\<rparr>,
     ago_dns = None, ago_ftp = None\<rparr>"

definition sample_link :: "agent_request \<Rightarrow> string list list link" where
  "sample_link r = \<lparr>lnk_wire = sample_wire r, lnk_agent = sample_agent, lnk_net = Answered\<rparr>"


definition sample_preview :: artifact_request where
  "sample_preview = \<lparr>arq_account = replicate 32 CHR ''a'', arq_path = ''/var/backups/a'', arq_checksum = replicate 64 CHR ''0''\<rparr>"

theorem backup_errors_survive_witness:
  "\<exists>e. client_PreviewBackup (sample_link (PostBackupsPreview sample_preview)) sample_preview [] = (Inl e, []) \<and>
     error_is e backupfmt_ErrInvalid \<and> \<not> error_is e backupfmt_ErrVersion"
proof -
  let ?r = "PostBackupsPreview sample_preview"
  have link: "lnk_wire (sample_link ?r) = sample_wire ?r" "lnk_net (sample_link ?r) = Answered"
    by (simp_all add: sample_link_def)
  have laws: "wire_ok (lnk_wire (sample_link ?r)) ?r" "fits (lnk_wire (sample_link ?r)) ?r"
    "json_bounded (lnk_wire (sample_link ?r))"
    by (simp_all add: link sample_wire_ok) (simp add: json_bounded_def sample_wire_def)
  have asked: "asked (lnk_agent (sample_link ?r)) ?r [] = Some (Inl sample_damage, [])"
    by (simp add: asked_def sample_link_def sample_agent_def with_body_def)
  have damage: "error_is sample_damage backupfmt_ErrInvalid" "\<not> error_is sample_damage backupfmt_ErrVersion"
    by (simp_all add: sample_damage_def invalid_archive_def backup_marks)
      (simp add: backupfmt_ErrVersion_def backupfmt_ErrInvalid_def)
  obtain e where "client_jsonResult (sample_link ?r) ?r ''backup preview'' [] = (Inl e, [])"
    "error_is e backupfmt_ErrInvalid \<and> \<not> error_is e backupfmt_ErrVersion"
    using backup_errors_survive [OF laws(1,2) link(2) _ asked _ laws(3), where op = "''backup preview''" and ?q2.0 = sample_preview] damage
    by auto
  then show ?thesis
    by (auto simp: client_PreviewBackup_def)
qed

end
