(* ===== verification/Addresses.thy ===== *)
theory Addresses
  imports Netip
begin

text \<open>
  Addresses as text and back: \<open>net.ParseIP\<close> reads what \<open>IP.String\<close> wrote, so two addresses with the same
  text are the same.  Code that compares addresses by their text, as the certificate driver of the agent
  does, compares the addresses.
\<close>

definition ip_ok :: "ip \<Rightarrow> bool" where
  "ip_ok a \<longleftrightarrow> length a = 8 \<and> (\<forall>n \<in> set a. n < 65536)"

lemma ParseIP_ip_ok: "ParseIP s = Some a \<Longrightarrow> ip_ok a"
  using ParseIP_ok by (simp add: ip_ok_def)

section \<open>IPv4\<close>

lemma dec_value_snoc: "dec_value (s @ [c]) = 10 * dec_value s + digit_value c"
  by (simp add: dec_value_def)

lemma dec_value_nat_text: "dec_value (nat_text n) = n"
proof (induction n rule: nat_text.induct)
  case (1 n)
  then show ?case
    by (cases "n < 10") (simp_all add: nat_text.simps [of n] dec_value_snoc digit_value_def byte_def, simp add: dec_value_def digit_value_def byte_def)
qed

lemma nat_text_hd: "hd (nat_text n) = CHR ''0'' \<Longrightarrow> n = 0"
proof (induction n rule: nat_text.induct)
  case (1 n)
  show ?case
  proof (cases "n < 10")
    case True
    then have "n = 0 \<or> n = 1 \<or> n = 2 \<or> n = 3 \<or> n = 4 \<or> n = 5 \<or> n = 6 \<or> n = 7 \<or> n = 8 \<or> n = 9"
      by arith
    then have "char_of (48 + n) = CHR ''0'' \<Longrightarrow> n = 0"
      by (elim disjE; simp add: char_of_def)
    then show ?thesis
      using 1 True by (simp add: nat_text.simps [of n])
  next
    case False
    have "nat_text (n div 10) \<noteq> []"
      by (subst nat_text.simps) simp
    then show ?thesis
      using 1 False by (simp add: nat_text.simps [of n])
  qed
qed

lemma octet_nat_text: "n < 256 \<Longrightarrow> octet (nat_text n) = Some n"
  using nat_text_octet [of n] nat_text_hd [of n] nat_text_digits [of _ n] dec_value_nat_text [of n]
  by (auto simp: octet_def list_all_iff nat_text.simps [of 0])

lemma dot_free: "CHR ''.'' \<notin> set (nat_text n)" "CHR '':'' \<notin> set (nat_text n)" "CHR ''%'' \<notin> set (nat_text n)"
  using nat_text_digits [of _ n] by (auto simp: is_digit_def bytes_between_def byte_def dest: nat_text_digits)

lemma parse_ipv4_text:
  assumes "length v = 4" "\<forall>n \<in> set v. n < 256"
  shows "parse_ipv4 (ipv4_text v) = Some v"
proof -
  obtain a b c d where v: "v = [a, b, c, d]"
    using assms(1) by (auto simp: numeral_eq_Suc length_Suc_conv)
  have "ipv4_text v = nat_text a @ CHR ''.'' # nat_text b @ CHR ''.'' # nat_text c @ CHR ''.'' # nat_text d"
    by (simp add: ipv4_text_def v)
  then have "Split (ipv4_text v) (CHR ''.'') = [nat_text a, nat_text b, nat_text c, nat_text d]"
    by (simp add: Split_append dot_free Split_no_sep)
  then show ?thesis
    using assms(2) by (simp add: parse_ipv4_def octet_nat_text v)
qed

section \<open>IPv6\<close>

lemma hex_digit_value: "n < 16 \<Longrightarrow> hex_value [hex_digit n] = n"
proof -
  assume "n < 16"
  then have "n \<in> set [0..<16]"
    by simp
  then show ?thesis
    by (simp add: upt_rec numeral_eq_Suc del: upt_Suc) (elim disjE; simp add: hex_value_def hex_digit_def is_digit_def bytes_between_def byte_def)
qed

lemma hex_value_snoc: "hex_value (s @ [c]) = 16 * hex_value s + hex_value [c]"
  by (simp add: hex_value_def)

lemma hex_value_text: "hex_value (hex_text n) = n"
proof (induction n rule: hex_text.induct)
  case (1 n)
  then show ?case
    by (cases "n < 16") (simp_all add: hex_text.simps [of n] hex_value_snoc hex_digit_value)
qed

lemma hex_text_hex: "list_all is_hex (hex_text n)"
  using hex_text_chars [of _ n] by (auto simp: list_all_iff is_hex_def)

lemma colon_free: "CHR ''.'' \<notin> set (hex_text n)" "CHR '':'' \<notin> set (hex_text n)" "CHR ''%'' \<notin> set (hex_text n)"
  by (auto simp: is_digit_def bytes_between_def byte_def dest!: hex_text_chars)

lemma hex_run:
  assumes "r = [] \<or> \<not> is_hex (hd r)"
  shows "takeWhile is_hex (hex_text n @ r) = hex_text n" "dropWhile is_hex (hex_text n @ r) = r"
  using assms hex_text_hex [of n]
  by (cases r; auto simp: list_all_iff takeWhile_append dropWhile_append)+

lemma hex_run_end: "takeWhile is_hex (hex_text n) = hex_text n" "dropWhile is_hex (hex_text n) = []"
  using hex_text_hex [of n] by (simp_all add: list_all_iff)

lemma colon_no_hex: "\<not> is_hex (CHR '':'')"
  by (simp add: is_hex_def is_digit_def bytes_between_def byte_def)

text \<open>One group in front of the end, of a colon, or of the ellipsis.\<close>

lemma groups6_end: "x < 65536 \<Longrightarrow> length g < 8 \<Longrightarrow> groups6 (hex_text x) g e = Some (g @ [x], e)"
  using hex_text_ok [of x] by (subst groups6.simps) (simp add: Let_def hex_value_text hex_run_end)

lemma groups6_colon:
  assumes "x < 65536" "length g < 8" "s \<noteq> []" "hd s \<noteq> CHR '':''"
  shows "groups6 (hex_text x @ CHR '':'' # s) g e = groups6 s (g @ [x]) e"
  using hex_run [of "CHR '':'' # s" x] hex_text_ok [of x] assms colon_no_hex
  by (subst groups6.simps) (simp add: Let_def hex_value_text)

lemma groups6_ellipsis:
  assumes "x < 65536" "length g < 8"
  shows "groups6 (hex_text x @ '':'' @ '':'' @ s) g None =
    (if s = [] then Some (g @ [x], Some (Suc (length g))) else groups6 s (g @ [x]) (Some (Suc (length g))))"
  using hex_run [of "'':'' @ '':'' @ s" x] hex_text_ok [of x] assms colon_no_hex
  by (subst groups6.simps) (simp add: Let_def hex_value_text)

lemma hex_text_hd: "hd (hex_text x @ r) \<noteq> CHR '':''"
  using colon_free(2) [of x] by (cases "hex_text x") (auto simp: hex_text.simps [of x] split: if_splits)

abbreviation groups_text :: "nat list \<Rightarrow> string" where
  "groups_text gs \<equiv> Join (map hex_text gs) '':''"

lemma groups_text_Cons: "\<exists>r. groups_text (x # xs) = hex_text x @ r"
  by (cases xs) auto

lemma groups_text_hd:
  assumes "gs \<noteq> []"
  shows "hd (groups_text gs @ r) \<noteq> CHR '':''" "groups_text gs \<noteq> []"
proof -
  obtain x xs where gs: "gs = x # xs"
    using assms by (cases gs) auto
  obtain q where q: "groups_text gs = hex_text x @ q"
    using groups_text_Cons unfolding gs by blast
  have "hex_text x \<noteq> []"
    by (subst hex_text.simps) simp
  then show "groups_text gs \<noteq> []"
    using q by simp
  show "hd (groups_text gs @ r) \<noteq> CHR '':''"
    using hex_text_hd [of x "q @ r"] unfolding q by simp
qed

lemma groups6_groups:
  "gs \<noteq> [] \<Longrightarrow> length g + length gs \<le> 8 \<Longrightarrow> \<forall>n \<in> set gs. n < 65536 \<Longrightarrow> groups6 (groups_text gs) g e = Some (g @ gs, e)"
proof (induction gs arbitrary: g)
  case (Cons x xs)
  show ?case
  proof (cases "xs = []")
    case True
    then show ?thesis
      using Cons.prems groups6_end by simp
  next
    case False
    then have "groups_text (x # xs) = hex_text x @ CHR '':'' # groups_text xs"
      by (cases xs) simp_all
    then show ?thesis
      using Cons groups6_colon [of x g "groups_text xs" e] groups_text_hd [OF False] groups_text_hd(1) [OF False, of "[]"] False by simp
  qed
qed simp

lemma groups6_before:
  "gs \<noteq> [] \<Longrightarrow> length g + length gs \<le> 8 \<Longrightarrow> \<forall>n \<in> set gs. n < 65536 \<Longrightarrow>
    groups6 (groups_text gs @ '':'' @ '':'' @ s) g None =
      (if s = [] then Some (g @ gs, Some (length g + length gs)) else groups6 s (g @ gs) (Some (length g + length gs)))"
proof (induction gs arbitrary: g)
  case (Cons x xs)
  show ?case
  proof (cases "xs = []")
    case True
    then show ?thesis
      using Cons.prems groups6_ellipsis [of x g s] by simp
  next
    case False
    then have "groups_text (x # xs) @ '':'' @ '':'' @ s = hex_text x @ CHR '':'' # groups_text xs @ '':'' @ '':'' @ s"
      by (cases xs) simp_all
    then have "groups6 (groups_text (x # xs) @ '':'' @ '':'' @ s) g None = groups6 (groups_text xs @ '':'' @ '':'' @ s) (g @ [x]) None"
      using Cons.prems groups6_colon [of x g "groups_text xs @ '':'' @ '':'' @ s" None] groups_text_hd [OF False] by simp
    also have "\<dots> = (if s = [] then Some ((g @ [x]) @ xs, Some (length (g @ [x]) + length xs))
        else groups6 s ((g @ [x]) @ xs) (Some (length (g @ [x]) + length xs)))"
      using Cons.prems False by (intro Cons.IH) simp_all
    finally show ?thesis
      by simp
  qed
qed simp

text \<open>The run of zeros that is left out.\<close>

definition zeros_at :: "ip \<Rightarrow> (nat \<times> nat) option \<Rightarrow> bool" where
  "zeros_at a best \<longleftrightarrow> (\<forall>j m. best = Some (j, m) \<longrightarrow> j < length a \<and> m = zero_run a j \<and> 2 \<le> m)"

lemma foldl_invariant: "P b \<Longrightarrow> (\<And>b x. x \<in> set xs \<Longrightarrow> P b \<Longrightarrow> P (f b x)) \<Longrightarrow> P (foldl f b xs)"
  by (induction xs arbitrary: b) auto

lemma best_run_zeros:
  assumes "best_run a = Some (i, n)"
  shows "i < length a" "n = zero_run a i" "2 \<le> n"
proof -
  have "zeros_at a (best_run a)"
    unfolding best_run_def by (rule foldl_invariant) (auto simp: zeros_at_def Let_def split: option.splits if_splits)
  then show "i < length a" "n = zero_run a i" "2 \<le> n"
    using assms by (simp_all add: zeros_at_def)
qed

lemma zero_run_split:
  assumes "n = zero_run a i" "i \<le> length a"
  shows "i + n \<le> length a" "a = take i a @ replicate n 0 @ drop (i + n) a"
proof -
  have "n \<le> length (drop i a)"
    unfolding assms(1) zero_run_def by (rule length_takeWhile_le)
  then show "i + n \<le> length a"
    using assms(2) by simp
  have "takeWhile (\<lambda>x. x = 0) (drop i a) = replicate n 0"
    unfolding assms(1) zero_run_def by (metis (mono_tags, lifting) replicate_eqI set_takeWhileD)
  then have "drop i a = replicate n 0 @ drop n (drop i a)"
    unfolding assms(1) zero_run_def by (metis takeWhile_dropWhile_id dropWhile_eq_drop)
  then show "a = take i a @ replicate n 0 @ drop (i + n) a"
    by (metis append_take_drop_id drop_drop add.commute)
qed

text \<open>The text of an address reads back as the address.\<close>

lemma parse_ipv6_text:
  assumes "ip_ok a"
  shows "parse_ipv6 (ipv6_text a) = Some a"
proof (cases "best_run a")
  case None
  then have shown: "ipv6_text a = groups_text a"
    by (simp add: ipv6_text_def)
  have ne: "a \<noteq> []"
    using assms by (auto simp: ip_ok_def)
  have "take 2 (groups_text a) \<noteq> ''::''"
    using groups_text_hd(1) [OF ne, of "[]"] by (cases "groups_text a") auto
  moreover have "groups6 (groups_text a) [] None = Some (a, None)"
    using groups6_groups [OF ne, of "[]"] assms by (simp add: ip_ok_def)
  ultimately show ?thesis
    using assms by (simp add: parse_ipv6_def shown expand6_def ip_ok_def)
next
  case (Some p)
  obtain i n where p: "p = (i, n)"
    by (cases p)
  note run = best_run_zeros [OF Some [unfolded p]]
  have bound: "i + n \<le> length a" and parts: "a = take i a @ replicate n 0 @ drop (i + n) a"
    using zero_run_split [OF run(2)] run(1) by simp_all
  let ?x = "take i a" and ?y = "drop (i + n) a"
  have shown: "ipv6_text a = groups_text ?x @ '':'' @ '':'' @ groups_text ?y"
    using Some p by (simp add: ipv6_text_def)
  have len: "length a = 8" and small: "\<forall>n \<in> set a. n < 65536"
    using assms by (simp_all add: ip_ok_def)
  have smalls: "\<forall>n \<in> set ?x. n < 65536" "\<forall>n \<in> set ?y. n < 65536"
    using small by (auto dest: in_set_takeD in_set_dropD)
  have rest: "(if groups_text ?y = [] then Some (?x, Some i) else groups6 (groups_text ?y) ?x (Some i)) = Some (?x @ ?y, Some i)"
  proof (cases "?y = []")
    case False
    then show ?thesis
      using groups6_groups [OF False, of ?x "Some i"] groups_text_hd(2) [OF False] smalls bound run len by simp
  qed simp
  have "expand6 (?x @ ?y, Some i) = Some (?x @ replicate n 0 @ ?y)"
    using bound run len by (simp add: expand6_def)
  then have whole: "expand6 (?x @ ?y, Some i) = Some a"
    using parts by simp
  show ?thesis
  proof (cases "i = 0")
    case True
    then show ?thesis
      using rest whole len run bound by (cases "?y = []") (auto simp: parse_ipv6_def shown expand6_def)
  next
    case False
    then have x: "?x \<noteq> []"
      using run by auto
    have no: "take 2 (ipv6_text a) \<noteq> ''::''"
      using groups_text_hd(1) [OF x, of "'':'' @ '':'' @ groups_text ?y"] groups_text_hd(2) [OF x]
      unfolding shown by (cases "groups_text ?x") auto
    have "groups6 (ipv6_text a) [] None = (if groups_text ?y = [] then Some (?x, Some i) else groups6 (groups_text ?y) ?x (Some i))"
      using groups6_before [OF x, of "[]" "groups_text ?y"] smalls len run(1) unfolding shown by (simp del: map_append)
    then have "groups6 (ipv6_text a) [] None = Some (?x @ ?y, Some i)"
      by (rule trans) (rule rest)
    then show ?thesis
      using no whole by (simp add: parse_ipv6_def)
  qed
qed

lemma find_first: "\<not> P c \<or> c = d \<Longrightarrow> (\<forall>x \<in> set s. \<not> P x) \<Longrightarrow> List.find P (s @ d # r) = (if P d then Some d else List.find P r)"
  by (induction s) auto

lemma To4_mapped: "ip_ok a \<Longrightarrow> To4 a = Some v \<Longrightarrow> mapped v = a"
  by (auto simp: ip_ok_def To4_def mapped_def split: list.splits if_splits)

lemma ParseIP_text:
  assumes "ip_ok a"
  shows "ParseIP (ip_text a) = Some a"
proof (cases "To4 a")
  case (Some v)
  have v: "length v = 4" "\<forall>n \<in> set v. n < 256"
    using To4_octets Some assms by (auto simp: ip_ok_def)
  then obtain p q r t where v4: "v = [p, q, r, t]"
    by (auto simp: numeral_eq_Suc length_Suc_conv)
  have shown: "ip_text a = nat_text p @ CHR ''.'' # nat_text q @ CHR ''.'' # nat_text r @ CHR ''.'' # nat_text t"
    by (simp add: ip_text_def Some ipv4_text_def v4)
  have "List.find (\<lambda>c. c = CHR ''.'' \<or> c = CHR '':'' \<or> c = CHR ''%'') (ip_text a) = Some (CHR ''.'')"
    using dot_free [of p] unfolding shown by (subst find_first) auto
  then show ?thesis
    using parse_ipv4_text [OF v] To4_mapped [OF assms Some] by (simp add: ParseIP_def ip_text_def Some)
next
  case None
  have shown: "ip_text a = ipv6_text a"
    by (simp add: ip_text_def None)
  have a: "length a = 8"
    using assms by (simp add: ip_ok_def)
  have free: "c \<notin> set (groups_text gs)" if "c = CHR ''.'' \<or> c = CHR ''%''" for gs c
    using that colon_free set_Join [of c "map hex_text gs" "'':''"] by auto
  have "CHR ''.'' \<notin> set (ipv6_text a)" "CHR ''%'' \<notin> set (ipv6_text a)"
    using free by (auto simp: ipv6_text_def split: option.splits)
  moreover have "CHR '':'' \<in> set (ipv6_text a)"
    using a by (cases "best_run a") (auto simp: ipv6_text_def numeral_eq_Suc length_Suc_conv)
  ultimately have "List.find (\<lambda>c. c = CHR ''.'' \<or> c = CHR '':'' \<or> c = CHR ''%'') (ipv6_text a) = Some (CHR '':'')"
    by (cases "List.find (\<lambda>c. c = CHR ''.'' \<or> c = CHR '':'' \<or> c = CHR ''%'') (ipv6_text a)")
      (auto simp: find_None_iff find_Some_iff dest: nth_mem)
  then show ?thesis
    using \<open>CHR ''%'' \<notin> set (ipv6_text a)\<close> parse_ipv6_text [OF assms] by (simp add: ParseIP_def shown)
qed

lemma ip_text_inj: "ip_ok a \<Longrightarrow> ip_ok b \<Longrightarrow> ip_text a = ip_text b \<Longrightarrow> a = b"
  using ParseIP_text by (metis option.inject)

end
