(* ===== verification/Certbot.thy ===== *)
theory Certbot
  imports Nginx Addresses Certificates
begin

text \<open>
  The certificate driver of the agent, \<open>internal/agent/certificate/certbot/certbot.go\<close>: the names of
  a request that reach this node, the run of certbot for them, and the installation of the
  certificate in nginx.  DNS, the addresses of the node, certbot itself and what the certificate file
  says are parameters; certbot's run is one of the commands of the host's log.
\<close>

section \<open>The driver\<close>

record certbot_driver =
  cbt_ext :: ext
  cbt_lookup :: "string \<Rightarrow> err + string list"
  cbt_addrs :: "err + ip list"
  cbt_run :: commands
  cbt_io :: io
  cbt_read :: "host_run list \<Rightarrow> string \<Rightarrow> err + string"
  cbt_pem :: "string \<Rightarrow> (string \<times> string) option"
  cbt_x509 :: "string \<Rightarrow> err + msec"
  cbt_web :: "nginx_driver option"
  cbt_home :: string
  cbt_live :: string
  cbt_root :: string

definition certbotPath :: string where "certbotPath = ''/usr/bin/certbot''"

text \<open>\<open>IP.IsGlobalUnicast\<close>: no broadcast, unspecified, loopback, multicast or link-local address.\<close>

definition IsGlobalUnicast :: "ip \<Rightarrow> bool" where
  "IsGlobalUnicast g \<longleftrightarrow>
     (case To4 g of
        Some v \<Rightarrow> v \<noteq> [255, 255, 255, 255] \<and> v \<noteq> [0, 0, 0, 0] \<and> v ! 0 \<noteq> 127 \<and> v ! 0 div 16 \<noteq> 14 \<and>
          (v ! 0, v ! 1) \<noteq> (169, 254)
      | None \<Rightarrow> length g = 8 \<and> g \<noteq> replicate 8 0 \<and> g \<noteq> replicate 7 0 @ [1] \<and> g ! 0 div 256 \<noteq> 255 \<and> g ! 0 div 64 \<noteq> 1018)"

definition localAddresses :: "certbot_driver \<Rightarrow> err + string list" where
  "localAddresses d = andthen (cbt_addrs d) (\<lambda>vs. Inr (map ip_text (filter IsGlobalUnicast vs)))"

definition hasAddress :: "string list \<Rightarrow> string set \<Rightarrow> bool" where
  "hasAddress values allowed \<longleftrightarrow> list_ex (\<lambda>v. case ParseIP v of None \<Rightarrow> False | Some a \<Rightarrow> ip_text a \<in> allowed) values"

text \<open>The loop over the names; \<open>seen\<close> holds exactly those taken so far.\<close>

fun eligible_names :: "certbot_driver \<Rightarrow> string set \<Rightarrow> string list \<Rightarrow> string list \<Rightarrow> string list" where
  "eligible_names d allowed taken [] = taken"
| "eligible_names d allowed taken (n # ns) =
     (if n \<in> set taken then eligible_names d allowed taken ns
      else if validate_Domain (cbt_ext d) n \<noteq> Inr n then eligible_names d allowed taken ns
      else case cbt_lookup d n of
        Inl _ \<Rightarrow> eligible_names d allowed taken ns
      | Inr values \<Rightarrow> eligible_names d allowed (if hasAddress values allowed then taken @ [n] else taken) ns)"

definition preflight :: "certbot_driver \<Rightarrow> string \<Rightarrow> string list \<Rightarrow> err + string list" where
  "preflight d primary names =
     (case cbt_lookup d primary of
        Inl _ \<Rightarrow> Inl (Plain (''DNS preflight failed for '' @ primary))
      | Inr [] \<Rightarrow> Inl (Plain (''DNS preflight failed for '' @ primary))
      | Inr primaryIPs \<Rightarrow>
     (case localAddresses d of
        Inl e \<Rightarrow> Inl (Wrapped ''inspect managed node addresses'' e)
      | Inr [] \<Rightarrow> Inl (Plain ''inspect managed node addresses: no global unicast addresses found'')
      | Inr localIPs \<Rightarrow>
          let addresses = set (map ip_text (List.map_filter ParseIP localIPs)) in
          if \<not> hasAddress primaryIPs addresses
          then Inl (Plain (''DNS preflight failed: '' @ primary @ '' does not resolve to this node''))
          else (let eligible = eligible_names d addresses [primary] names in Inr (hd eligible # sort (tl eligible)))))"

definition readExpiry :: "certbot_driver \<Rightarrow> host_run list \<Rightarrow> string \<Rightarrow> err + msec" where
  "readExpiry d runs path =
     andthen (map_err (Wrapped ''read issued certificate'') (cbt_read d runs path)) (\<lambda>data.
     case cbt_pem d data of
       Some (typ, block) \<Rightarrow>
         if typ \<noteq> ''CERTIFICATE'' then Inl (Plain ''issued certificate PEM is invalid'')
         else map_err (Wrapped ''parse issued certificate'') (cbt_x509 d block)
     | None \<Rightarrow> Inl (Plain ''issued certificate PEM is invalid''))"

definition os_MkdirAll :: "io \<Rightarrow> string \<Rightarrow> fs \<Rightarrow> err option \<times> fs" where
  "os_MkdirAll io path fs =
     (case io (MkdirAll path) of
        Some e \<Rightarrow> (Some e, fs)
      | None \<Rightarrow> (case fs path of
          None \<Rightarrow> (None, fs(path \<mapsto> Directory))
        | Some (File _ _) \<Rightarrow> (Some (Plain ''not a directory''), fs)
        | _ \<Rightarrow> (None, fs)))"

definition cert_name :: "cert_request \<Rightarrow> string" where
  "cert_name q = ''webycp-'' @ crq_certificate q"

definition certbot_args :: "certbot_driver \<Rightarrow> cert_request \<Rightarrow> string list \<Rightarrow> string list" where
  "certbot_args d q eligible =
     [certbotPath, ''certonly'', ''--non-interactive'', ''--agree-tos'', ''--preferred-challenges'', ''http'',
      ''--webroot'', ''--webroot-path'', cbt_root d, ''--cert-name'', cert_name q,
      ''--email'', crq_email q, ''--keep-until-expiring''] @ concat (map (\<lambda>n. [''--domain'', n]) eligible)"

definition live_file :: "certbot_driver \<Rightarrow> cert_request \<Rightarrow> string \<Rightarrow> string" where
  "live_file d q name = path_Join [path_Join [cbt_live d, cert_name q], name]"

text \<open>The document root of a hosted website, as \<open>Issue\<close> checks it.\<close>

definition certbot_root_ok :: "string \<Rightarrow> string \<Rightarrow> bool" where
  "certbot_root_ok base root \<longleftrightarrow>
     (case path_Rel base (path_Clean root) of
        None \<Rightarrow> False
      | Some rel \<Rightarrow> \<not> (rel = ''.'' \<or> is_rooted rel \<or> rel = ''..'' \<or> length rel < length ''x/public_html'' \<or>
          path_Base rel \<noteq> ''public_html'' \<or> path_Dir rel = ''.'' \<or> path_Dir (path_Dir rel) \<noteq> ''.''))"

definition certbot_site :: "certbot_driver \<Rightarrow> cert_request \<Rightarrow> string list \<Rightarrow> err + web_site" where
  "certbot_site d q eligible =
     andthen (fail_when (\<not> succeeds (validate_ID ''websiteId'' (crq_website q)) \<or> \<not> succeeds (validate_ID ''accountId'' (crq_account q)) \<or>
         \<not> succeeds (validate_SystemUser (crq_system_user q)) \<or> crq_system_user q \<noteq> ''wcp_'' @ take 12 (crq_account q) \<or>
         crq_runtime_version q \<noteq> ''8.3'')
       (ValidationErr ''websiteId'' ''The hosted website identity is invalid'')) (\<lambda>_.
     andthen (fail_when (\<not> certbot_root_ok (path_Join [cbt_home d, crq_system_user q, ''web'']) (crq_document_root q))
       (ValidationErr ''documentRoot'' ''The website document root is invalid'')) (\<lambda>_.
     Inr \<lparr>wsi_id = crq_website q, wsi_name = crq_name q, wsi_aliases = tl eligible, wsi_root = crq_document_root q,
       wsi_socket = path_Join [''/run/php'', ''webycp-8.3-'' @ crq_account q @ ''.sock''],
       wsi_cert = [], wsi_key = [], wsi_redirect = False\<rparr>))"

text \<open>The checks of \<open>Issue\<close> before anything changes, and the names it found.\<close>

definition certbot_request :: "certbot_driver \<Rightarrow> cert_request \<Rightarrow> err + string list" where
  "certbot_request d q =
     andthen (fail_when (\<not> succeeds (validate_ID ''certificateId'' (crq_certificate q)) \<or>
         (crq_kind q \<noteq> ''website'' \<and> crq_kind q \<noteq> ''panel''))
       (ValidationErr ''certificateId'' ''The certificate identity is invalid'')) (\<lambda>_.
     andthen (fail_when (validate_Domain (cbt_ext d) (crq_name q) \<noteq> Inr (crq_name q))
       (ValidationErr ''name'' ''The certificate name is invalid'')) (\<lambda>_.
     andthen (validate_Email (cbt_ext d) (crq_email q)) (\<lambda>_.
     preflight d (crq_name q) (crq_names q))))"

text \<open>A step of the web server, on which \<open>Issue\<close> may have to do without.\<close>

definition certbot_install :: "certbot_driver \<Rightarrow> cert_request \<Rightarrow> string list \<Rightarrow> web_state step" where
  "certbot_install d q eligible s =
     (let fullchain = live_file d q ''fullchain.pem''; privateKey = live_file d q ''privkey.pem'' in
      if crq_kind q = ''panel''
      then (case cbt_web d of
          None \<Rightarrow> (Some (Plain ''panel TLS driver is not configured''), s)
        | Some w \<Rightarrow> saying ''install certificate'' (nginx_EnsurePanelTLS w (crq_name q) fullchain privateKey s))
      else case certbot_site d q eligible of
          Inl e \<Rightarrow> (Some e, s)
        | Inr site \<Rightarrow> (case cbt_web d of
            None \<Rightarrow> (Some (Plain ''nil pointer dereference''), s)
          | Some w \<Rightarrow> saying ''install certificate'' (nginx_EnsureTLS w site fullchain privateKey (crq_redirect q) s)))"

definition certbot_challenge :: "certbot_driver \<Rightarrow> cert_request \<Rightarrow> web_state step" where
  "certbot_challenge d q s =
     (if crq_kind q = ''panel''
      then (case cbt_web d of
          None \<Rightarrow> (Some (Plain ''panel TLS driver is not configured''), s)
        | Some w \<Rightarrow> saying ''install panel ACME challenge route'' (nginx_EnsurePanelChallenge w (crq_name q) s))
      else (None, s))"

definition certbot_Issue :: "certbot_driver \<Rightarrow> cert_request \<Rightarrow> web_state \<Rightarrow> (err + string list \<times> msec) \<times> web_state" where
  "certbot_Issue d q s0 =
     (case certbot_request d q of
        Inl e \<Rightarrow> (Inl e, s0)
      | Inr eligible \<Rightarrow>
     (case onto (onto (saying ''create ACME webroot'' (on_fs (os_MkdirAll (cbt_io d) (cbt_root d)) s0))
         (certbot_challenge d q))
         (\<lambda>s. saying ''issue ACME certificate'' (run_command (cbt_run d) (certbot_args d q eligible) s)) of
        (Some e, s) \<Rightarrow> (Inl e, s)
      | (None, s) \<Rightarrow>
     (case readExpiry d (wst_runs s) (live_file d q ''fullchain.pem'') of
        Inl e \<Rightarrow> (Inl e, s)
      | Inr expires \<Rightarrow>
     (case certbot_install d q eligible s of
        (Some e, s') \<Rightarrow> (Inl e, s')
      | (None, s') \<Rightarrow> (Inr (eligible, expires), s')))))"

section \<open>The names of a certificate\<close>

text \<open>A name reaches the node if it resolves to one of the node's global addresses.\<close>

definition reaches :: "certbot_driver \<Rightarrow> string \<Rightarrow> bool" where
  "reaches d n \<longleftrightarrow> (\<exists>addrs vs v a. cbt_addrs d = Inr addrs \<and> cbt_lookup d n = Inr vs \<and> v \<in> set vs \<and>
     ParseIP v = Some a \<and> a \<in> set addrs \<and> IsGlobalUnicast a)"

definition node_addresses :: "certbot_driver \<Rightarrow> bool" where
  "node_addresses d \<longleftrightarrow> (\<forall>addrs. cbt_addrs d = Inr addrs \<longrightarrow> (\<forall>a \<in> set addrs. ip_ok a))"

lemma local_texts:
  assumes "localAddresses d = Inr ips" "node_addresses d"
  obtains addrs where "cbt_addrs d = Inr addrs" "set (map ip_text (List.map_filter ParseIP ips)) = ip_text ` {a \<in> set addrs. IsGlobalUnicast a}"
proof -
  obtain addrs where a: "cbt_addrs d = Inr addrs" "ips = map ip_text (filter IsGlobalUnicast addrs)"
    using assms(1) by (auto simp: localAddresses_def andthen_def split: sum.splits)
  moreover have "\<forall>a \<in> set addrs. ParseIP (ip_text a) = Some a"
    using assms(2) a(1) ParseIP_text by (simp add: node_addresses_def)
  ultimately show thesis
    by (intro that [OF a(1)]) (force simp: map_filter_def image_iff)
qed

lemma hasAddress_iff:
  assumes "\<forall>a \<in> set addrs. ip_ok a"
  shows "hasAddress vs (ip_text ` {a \<in> set addrs. IsGlobalUnicast a}) \<longleftrightarrow>
    (\<exists>v \<in> set vs. \<exists>a. ParseIP v = Some a \<and> a \<in> set addrs \<and> IsGlobalUnicast a)"
proof -
  have "ip_text a \<in> ip_text ` {a \<in> set addrs. IsGlobalUnicast a} \<longleftrightarrow> a \<in> set addrs \<and> IsGlobalUnicast a" if "ParseIP v = Some a" for v a
    using ip_text_inj [OF ParseIP_ip_ok [OF that]] assms by blast
  then show ?thesis
    by (auto simp: hasAddress_def list_ex_iff split: option.splits) metis+
qed

lemma eligible_reach:
  assumes "cbt_addrs d = Inr addrs" "\<forall>a \<in> set addrs. ip_ok a"
  shows "distinct taken \<Longrightarrow> distinct (eligible_names d (ip_text ` {a \<in> set addrs. IsGlobalUnicast a}) taken ns) \<and>
    set (eligible_names d (ip_text ` {a \<in> set addrs. IsGlobalUnicast a}) taken ns) =
      set taken \<union> {n \<in> set ns. validate_Domain (cbt_ext d) n = Inr n \<and> reaches d n} \<and>
    (\<exists>more. eligible_names d (ip_text ` {a \<in> set addrs. IsGlobalUnicast a}) taken ns = taken @ more)"
proof (induction ns arbitrary: taken)
  case (Cons n ns)
  have hit: "cbt_lookup d n = Inr vs \<Longrightarrow> hasAddress vs (ip_text ` {a \<in> set addrs. IsGlobalUnicast a}) \<longleftrightarrow> reaches d n" for vs
    using hasAddress_iff [OF assms(2)] assms(1) by (auto simp: reaches_def)
  have miss: "cbt_lookup d n = Inl e \<Longrightarrow> \<not> reaches d n" for e
    by (simp add: reaches_def)
  show ?case
    using Cons.IH [of taken] Cons.IH [of "taken @ [n]"] Cons.prems hit miss
    by (cases "cbt_lookup d n") (auto split: if_splits)
qed simp

lemma preflight_names:
  assumes "preflight d p ns = Inr names" "node_addresses d"
  shows "\<exists>rest. names = p # rest \<and> sorted rest" "distinct names" "reaches d p"
    "set names = insert p {n \<in> set ns. validate_Domain (cbt_ext d) n = Inr n \<and> reaches d n}"
proof -
  obtain ips where ips: "localAddresses d = Inr ips"
    using assms(1) by (cases "localAddresses d") (auto simp: preflight_def split: sum.splits list.splits)
  obtain addrs where a: "cbt_addrs d = Inr addrs"
    "set (map ip_text (List.map_filter ParseIP ips)) = ip_text ` {a \<in> set addrs. IsGlobalUnicast a}"
    by (rule local_texts [OF ips assms(2)])
  let ?all = "ip_text ` {a \<in> set addrs. IsGlobalUnicast a}"
  have ok: "\<forall>a \<in> set addrs. ip_ok a"
    using assms(2) a(1) by (simp add: node_addresses_def)
  obtain vs where v: "cbt_lookup d p = Inr vs" "hasAddress vs ?all"
    and names: "names = hd (eligible_names d ?all [p] ns) # sort (tl (eligible_names d ?all [p] ns))"
    using assms(1) a(2) by (auto simp: preflight_def ips Let_def split: sum.splits list.splits if_splits)
  show "reaches d p"
    using v hasAddress_iff [OF ok] a(1) by (auto simp: reaches_def)
  obtain more where e: "eligible_names d ?all [p] ns = p # more" "distinct (p # more)"
    "set (p # more) = insert p {n \<in> set ns. validate_Domain (cbt_ext d) n = Inr n \<and> reaches d n}"
    using eligible_reach [OF a(1) ok, of "[p]" ns] by auto
  then show "\<exists>rest. names = p # rest \<and> sorted rest" "distinct names"
    "set names = insert p {n \<in> set ns. validate_Domain (cbt_ext d) n = Inr n \<and> reaches d n}"
    using names by auto
qed

section \<open>The commands of a run\<close>

text \<open>A step only adds to the log of commands.\<close>

definition only_adds :: "web_state step \<Rightarrow> bool" where
  "only_adds f \<longleftrightarrow> (\<forall>s. prefix (wst_runs s) (wst_runs (snd (f s))))"

lemma only_addsD: "only_adds f \<Longrightarrow> f s = (e, s') \<Longrightarrow> prefix (wst_runs s) (wst_runs s')"
  unfolding only_adds_def by (metis snd_conv)

lemma runs_command: "prefix (wst_runs s) (wst_runs (snd (run_command run args s)))"
  by (simp add: run_command_def Let_def)

lemma runs_apply:
  assumes "files_only rb"
  shows "only_adds (apply_config run test reload what rb)"
proof -
  have rb: "wst_runs (snd (rb s)) = wst_runs s" for s
    using assms by (simp add: files_only_def)
  show ?thesis
    unfolding only_adds_def apply_config_def
    by (auto simp: run_command_def Let_def rb split: prod.splits option.splits)
qed

lemma runs_onto: "prefix rs (wst_runs (snd r)) \<Longrightarrow> only_adds f \<Longrightarrow> prefix rs (wst_runs (snd (onto r f)))"
  by (cases r; cases "fst r") (auto simp: only_adds_def intro: prefix_order.trans)

lemma runs_saying [simp]: "snd (saying msg r) = snd r"
  by (simp add: saying_def)

lemma runs_rollback: "prefix (wst_runs s) (wst_runs (snd (apply_config run test reload what (install_rollback d i p linked created) (s\<lparr>wst_fs := fs\<rparr>))))"
  using runs_apply [OF install_rollback_files] unfolding only_adds_def by (metis web_state.simps(2) web_state.ext_inject web_state.surjective web_state.update_convs(1))

lemma runs_install: "only_adds (nginx_install d i contents)"
proof -
  have "prefix (wst_runs s) (wst_runs (snd (nginx_install d i contents s)))" for s
    unfolding nginx_install_def
    by (rule runs_onto) (auto simp: only_adds_def runs_rollback snd_joining ensure_dirs(2) [OF surjective_pairing] split: prod.splits sum.splits option.splits)
  then show ?thesis
    by (simp add: only_adds_def)
qed

lemma runs_challenge: "only_adds (certbot_challenge d q)"
  using runs_install
  by (auto simp: only_adds_def certbot_challenge_def nginx_EnsurePanelChallenge_def split: option.splits sum.splits)

lemma runs_final: "only_adds (certbot_install d q eligible)"
  using runs_install
  by (auto simp: only_adds_def certbot_install_def Let_def nginx_EnsurePanelTLS_def nginx_EnsureTLS_def nginx_Ensure_def
      split: option.splits sum.splits)

section \<open>The document root\<close>

lemma certbot_root_places:
  assumes "certbot_root_ok base root" "is_rooted base" "is_rooted root"
  shows "(\<exists>dir. plain_part dir \<and> path_parts root = path_parts base @ [dir, ''public_html'']) \<or>
    path_parts root = butlast (path_parts base) @ [''public_html'']"
proof -
  note clean = path_Clean_rooted [OF assms(3)]
  obtain ps where ps: "rel_parts (path_parts base) (path_parts root) = Some ps" "ps \<noteq> []"
    and ends: "path_Base (Join ps ''/'') = ''public_html''" "path_Dir (Join ps ''/'') \<noteq> ''.''"
      "path_Dir (path_Dir (Join ps ''/'')) = ''.''"
    using assms(1,2) clean(2,3) by (auto simp: certbot_root_ok_def path_Rel_def split: option.splits if_splits)
  have plain: "\<forall>t \<in> set (path_parts root). plain_part t"
    using path_parts_rooted [OF assms(3)] by blast
  then have rel: "relative_parts ps"
    using rel_parts_relative [OF ps(1)] by blast
  note d = relative_Dir [OF rel ps(2)]
  have b: "butlast ps \<noteq> []" and l: "last ps = ''public_html''"
    using ends d by auto
  have "butlast (butlast ps) = []"
    using relative_Dir(1) [OF relative_butlast [OF rel] b] relative_dot [OF relative_butlast [OF relative_butlast [OF rel]]] ends(3) d(1) b
    by (auto split: if_splits)
  then obtain dir where two: "ps = [dir, ''public_html'']"
    using b l by (cases ps; cases "tl ps") (auto split: if_splits)
  show ?thesis
  proof (cases "dir = ''..''")
    case True
    then show ?thesis
      using rel_parts_up [of "path_parts base" "path_parts root" "[''public_html'']"] ps(1) plain two by (auto simp: plain_part_def)
  next
    case False
    then have "path_parts root = path_parts base @ ps"
      using rel_parts_below [of _ _ dir "[''public_html'']"] ps(1) two by simp
    then show ?thesis
      using plain two by simp
  qed
qed

section \<open>Issuing a certificate\<close>

text \<open>The site with its certificate, as nginx is meant to serve it.\<close>

definition certified_site :: "certbot_driver \<Rightarrow> cert_request \<Rightarrow> string list \<Rightarrow> web_site" where
  "certified_site d q aliases =
     \<lparr>wsi_id = crq_website q, wsi_name = crq_name q, wsi_aliases = aliases, wsi_root = crq_document_root q,
      wsi_socket = path_Join [''/run/php'', ''webycp-8.3-'' @ crq_account q @ ''.sock''],
      wsi_cert = live_file d q ''fullchain.pem'', wsi_key = live_file d q ''privkey.pem'', wsi_redirect = crq_redirect q\<rparr>"

lemma certbot_site_Inr:
  assumes "certbot_site d q eligible = Inr v" "is_rooted (cbt_home d)" "is_rooted (crq_document_root q)"
  shows "v\<lparr>wsi_cert := live_file d q ''fullchain.pem'', wsi_key := live_file d q ''privkey.pem'', wsi_redirect := crq_redirect q\<rparr> =
      certified_site d q (tl eligible)"
    "idPattern (crq_website q)" "crq_system_user q = ''wcp_'' @ take 12 (crq_account q)"
    "\<exists>below. path_parts (crq_document_root q) = path_parts (cbt_home d) @ crq_system_user q # below \<and> last below = ''public_html''"
proof -
  show v: "v\<lparr>wsi_cert := live_file d q ''fullchain.pem'', wsi_key := live_file d q ''privkey.pem'', wsi_redirect := crq_redirect q\<rparr> =
      certified_site d q (tl eligible)" "idPattern (crq_website q)" "crq_system_user q = ''wcp_'' @ take 12 (crq_account q)"
    using assms(1) by (auto simp: certbot_site_def certified_site_def andthen_def fail_when_def validate_ID_def succeeds_def
        split: sum.splits if_splits)
  have ok: "certbot_root_ok (path_Join [cbt_home d, crq_system_user q, ''web'']) (crq_document_root q)" "idPattern (crq_account q)"
    using assms(1) by (auto simp: certbot_site_def andthen_def fail_when_def validate_ID_def succeeds_def split: sum.splits if_splits)
  have "plain_part (crq_system_user q)"
    unfolding v(3) using ok(2)
    by (auto simp: plain_part_def idPattern_def list_all_iff is_hex_lower_def is_digit_def bytes_between_def byte_def dest!: in_set_takeD)
  moreover have "plain_part ''web''"
    by (simp add: plain_part_def)
  ultimately have base: "is_rooted (path_Join [cbt_home d, crq_system_user q, ''web''])"
    "path_parts (path_Join [cbt_home d, crq_system_user q, ''web'']) = path_parts (cbt_home d) @ [crq_system_user q, ''web'']"
    using path_Join_below assms(2) by blast+
  show "\<exists>below. path_parts (crq_document_root q) = path_parts (cbt_home d) @ crq_system_user q # below \<and> last below = ''public_html''"
    using certbot_root_places [OF ok(1) base(1) assms(3)] unfolding base(2) by (auto simp: butlast_append)
qed

text \<open>File operations succeed, temporary names are fresh, and the challenge directory is none of nginx's files.\<close>

definition certbot_calm :: "certbot_driver \<Rightarrow> nginx_driver \<Rightarrow> ident \<Rightarrow> fs \<Rightarrow> bool" where
  "certbot_calm d w i fs \<longleftrightarrow> nginx_calm w i fs \<and> (\<forall>k. ngx_tmp w k \<noteq> cbt_root d)"

text \<open>C3: a certificate covers the names that reach the node, and is served.  When \<open>Issue\<close> succeeds, its
  names are the primary name, followed in order by exactly those of the requested names that are valid
  and resolve to a global address of this node, each once; certbot ran for exactly these names and
  succeeded, and the end of validity is what the certificate file said after that.  For a website, the
  document root lies in the home directory of the account's own user, and nginx serves the site on its names
  with this certificate and key.\<close>

theorem issued_certificate_is_served:
  assumes issue: "certbot_Issue d q s = (Inr (names, expires), s')" and nodes: "node_addresses d"
    and web: "cbt_web d = Some w" and calm: "certbot_calm d w (crq_website q) (wst_fs s)" and home: "is_rooted (cbt_home d)"
    and plain: "\<forall>p \<in> {crq_document_root q, path_Join [''/run/php'', ''webycp-8.3-'' @ crq_account q @ ''.sock''],
        live_file d q ''fullchain.pem'', live_file d q ''privkey.pem''}. CHR 0x5C \<notin> set p"
  shows "(\<exists>rest. names = crq_name q # rest \<and> sorted rest) \<and> distinct names \<and> reaches d (crq_name q) \<and>
    set names = insert (crq_name q) {n \<in> set (crq_names q). validate_Domain (cbt_ext d) n = Inr n \<and> reaches d n} \<and>
    (\<exists>before r after. wst_runs s' = before @ r # after \<and> prefix (wst_runs s) before \<and> run_args r = certbot_args d q names \<and> run_err r = None \<and>
      readExpiry d (before @ [r]) (live_file d q ''fullchain.pem'') = Inr expires) \<and>
    (crq_kind q = ''website'' \<longrightarrow>
      crq_system_user q = ''wcp_'' @ take 12 (crq_account q) \<and>
      (\<exists>below. path_parts (crq_document_root q) = path_parts (cbt_home d) @ crq_system_user q # below \<and> last below = ''public_html'') \<and>
      (\<exists>c. served w (wst_fs s') (crq_website q) = Some c \<and> reads_config c (site_tree (certified_site d q (tl names)))))"
proof -
  let ?full = "live_file d q ''fullchain.pem''"
  obtain s1 s2 where names: "certbot_request d q = Inr names"
    and s1: "onto (saying ''create ACME webroot'' (on_fs (os_MkdirAll (cbt_io d) (cbt_root d)) s)) (certbot_challenge d q) = (None, s1)"
    and s2: "saying ''issue ACME certificate'' (run_command (cbt_run d) (certbot_args d q names) s1) = (None, s2)"
    and expires: "readExpiry d (wst_runs s2) ?full = Inr expires"
    and inst: "certbot_install d q names s2 = (None, s')"
    using issue by (auto simp: certbot_Issue_def onto_None split: sum.splits prod.splits option.splits)
  have pre: "preflight d (crq_name q) (crq_names q) = Inr names"
    using names by (auto simp: certbot_request_def andthen_def split: sum.splits)
  note p = preflight_names [OF pre nodes]
  have runs1: "prefix (wst_runs s) (wst_runs s1)"
    using runs_onto [OF _ runs_challenge, of "wst_runs s" "saying ''create ACME webroot'' (on_fs (os_MkdirAll (cbt_io d) (cbt_root d)) s)" d q] s1
    by simp
  have runs2: "wst_runs s2 = wst_runs s1 @ [\<lparr>run_args = certbot_args d q names, run_fs = wst_fs s1, run_err = None\<rparr>]" "wst_fs s2 = wst_fs s1"
    using s2 by (auto simp: saying_def run_command_def Let_def)
  obtain after where after: "wst_runs s' = wst_runs s2 @ after"
    using only_addsD [OF runs_final inst] by (auto simp: prefix_def)
  have log: "\<exists>before r after. wst_runs s' = before @ r # after \<and> prefix (wst_runs s) before \<and> run_args r = certbot_args d q names \<and>
      run_err r = None \<and> readExpiry d (before @ [r]) ?full = Inr expires"
    using after runs1 runs2(1) expires by (intro exI [of _ "wst_runs s1"] exI) (auto simp: append_assoc)
  have served: "crq_system_user q = ''wcp_'' @ take 12 (crq_account q) \<and>
      (\<exists>below. path_parts (crq_document_root q) = path_parts (cbt_home d) @ crq_system_user q # below \<and> last below = ''public_html'') \<and>
      (\<exists>c. served w (wst_fs s') (crq_website q) = Some c \<and> reads_config c (site_tree (certified_site d q (tl names))))"
    if kind: "crq_kind q = ''website''"
  proof -
    have "certbot_challenge d q t = (None, t)" for t
      by (simp add: certbot_challenge_def kind)
    then have "wst_fs s2 = snd (os_MkdirAll (cbt_io d) (cbt_root d) (wst_fs s))"
      using s1 runs2(2) by (auto simp: saying_def on_fs_def onto_None split: prod.splits)
    then have "wst_fs s2 p = wst_fs s p" if "p \<noteq> cbt_root d" for p
      using that by (simp add: os_MkdirAll_def split: option.splits fs_entry.splits)
    then have calm2: "nginx_calm w (crq_website q) (wst_fs s2)"
      using calm by (simp add: certbot_calm_def nginx_calm_def)
    obtain v where v: "certbot_site d q names = Inr v" "nginx_EnsureTLS w v ?full (live_file d q ''privkey.pem'') (crq_redirect q) s2 = (None, s')"
      using inst by (cases "certbot_site d q names") (auto simp: certbot_install_def kind web Let_def)
    then have ensure: "nginx_Ensure w (v\<lparr>wsi_cert := ?full, wsi_key := live_file d q ''privkey.pem'', wsi_redirect := crq_redirect q\<rparr>) s2 = (None, s')"
      by (simp add: nginx_EnsureTLS_def)
    have "is_rooted (crq_document_root q)"
      using ensure v(1) by (auto simp: nginx_Ensure_def certbot_site_def andthen_def validPath_def fail_when_def split: sum.splits if_splits)
    note site = certbot_site_Inr [OF v(1) home this]
    note ensure = ensure [unfolded site(1)]
    have fields: "wsi_id (certified_site d q (tl names)) = crq_website q" "wsi_root (certified_site d q (tl names)) = crq_document_root q"
      "wsi_cert (certified_site d q (tl names)) = ?full" "wsi_key (certified_site d q (tl names)) = live_file d q ''privkey.pem''"
      "wsi_socket (certified_site d q (tl names)) = path_Join [''/run/php'', ''webycp-8.3-'' @ crq_account q @ ''.sock'']"
      "wsi_aliases (certified_site d q (tl names)) = tl names"
      by (simp_all add: certified_site_def)
    have sorted: "(certified_site d q (tl names))\<lparr>wsi_aliases := sort (tl names)\<rparr> = certified_site d q (tl names)"
      using p(1) by (auto simp: certified_site_def sorted_sort_id)
    note made = Ensure_site [OF ensure, unfolded fields, OF plain]
    show ?thesis
      using install_served [OF made(2) _ calm2] made(1,3) site(3,4) by (simp add: nginx_site_id_def sorted)
  qed
  show ?thesis
    using p log served by blast
qed

section \<open>Examples\<close>

text \<open>A node with a public and a loopback address; two names resolve to it, one does not.\<close>

definition sample_certbot :: certbot_driver where
  "sample_certbot = \<lparr>cbt_ext = plain_ext,
     cbt_lookup = \<lambda>n. Inr (if n = ''c.example'' then [''203.0.113.20''] else [''203.0.113.10'']),
     cbt_addrs = Inr [mapped [127, 0, 0, 1], mapped [203, 0, 113, 10]], cbt_run = \<lambda>_ _ _. None, cbt_io = \<lambda>_. None,
     cbt_read = \<lambda>_ _. Inr ''pem'', cbt_pem = \<lambda>_. Some (''CERTIFICATE'', ''der''), cbt_x509 = \<lambda>_. Inr 90,
     cbt_web = Some sample_nginx, cbt_home = ''/home'', cbt_live = ''/etc/letsencrypt/live'', cbt_root = ''/var/lib/webycp/acme''\<rparr>"

definition sample_issue :: cert_request where
  "sample_issue = \<lparr>crq_certificate = replicate 32 CHR ''c'', crq_kind = ''website'', crq_website = replicate 32 CHR ''a'',
     crq_account = replicate 32 CHR ''a'', crq_system_user = ''wcp_aaaaaaaaaaaa'', crq_name = ''a.example'', crq_email = ''admin@a.example'',
     crq_document_root = ''/home/wcp_aaaaaaaaaaaa/web/a.example/public_html'', crq_runtime_version = ''8.3'',
     crq_names = [''c.example'', ''b.example''], crq_redirect = True\<rparr>"

lemma sample_preflight: "preflight sample_certbot ''a.example'' [''c.example'', ''b.example''] = Inr [''a.example'', ''b.example'']"
proof -
  have v: "validate_Domain plain_ext ''b.example'' = Inr ''b.example''"
    by (rule sample_site_domains)
  have shown: "ip_text (mapped [203, 0, 113, 10]) = ''203.0.113.10''" "ip_text (mapped [203, 0, 113, 20]) = ''203.0.113.20''"
    by (simp_all add: ip_text_def mapped_def To4_def ipv4_text_def nat_text.simps char_of_def bit_0)
  have "ip_ok (mapped [203, 0, 113, 10])" "ip_ok (mapped [203, 0, 113, 20])"
    by (simp_all add: ip_ok_def mapped_def)
  from this [THEN ParseIP_text] have ip: "ParseIP ''203.0.113.10'' = Some (mapped [203, 0, 113, 10])"
    "ParseIP ''203.0.113.20'' = Some (mapped [203, 0, 113, 20])"
    by (simp_all add: shown)
  have "filter IsGlobalUnicast [mapped [127, 0, 0, 1], mapped [203, 0, 113, 10]] = [mapped [203, 0, 113, 10]]"
    by (simp add: IsGlobalUnicast_def mapped_def To4_def)
  then have ips: "localAddresses sample_certbot = Inr [''203.0.113.10'']"
    "hasAddress [''203.0.113.10''] {''203.0.113.10''}" "\<not> hasAddress [''203.0.113.20''] {''203.0.113.10''}"
    by (simp_all add: localAddresses_def sample_certbot_def hasAddress_def ip shown)
  have f: "cbt_lookup sample_certbot n = Inr (if n = ''c.example'' then [''203.0.113.20''] else [''203.0.113.10''])" "cbt_ext sample_certbot = plain_ext" for n
    by (simp_all add: sample_certbot_def)
  show ?thesis
    by (simp add: preflight_def ips f v Let_def map_filter_simps ip shown)
qed

lemma sample_issue_files:
  "live_file sample_certbot sample_issue ''fullchain.pem'' = ''/etc/letsencrypt/live/webycp-cccccccccccccccccccccccccccccccc/fullchain.pem''"
  "live_file sample_certbot sample_issue ''privkey.pem'' = ''/etc/letsencrypt/live/webycp-cccccccccccccccccccccccccccccccc/privkey.pem''"
  "path_Join [''/run/php'', ''webycp-8.3-'' @ crq_account sample_issue @ ''.sock''] = ''/run/php/webycp-8.3-aaaaaaaaaaaaaaaaaaaaaaaaaaaaaaaa.sock''"
proof -
  have "path_Join [path_Join [''/etc/letsencrypt/live'', ''webycp-cccccccccccccccccccccccccccccccc''], ''fullchain.pem''] =
      ''/etc/letsencrypt/live/webycp-cccccccccccccccccccccccccccccccc/fullchain.pem''"
    "path_Join [path_Join [''/etc/letsencrypt/live'', ''webycp-cccccccccccccccccccccccccccccccc''], ''privkey.pem''] =
      ''/etc/letsencrypt/live/webycp-cccccccccccccccccccccccccccccccc/privkey.pem''"
    "path_Join [''/run/php'', ''webycp-8.3-aaaaaaaaaaaaaaaaaaaaaaaaaaaaaaaa.sock''] = ''/run/php/webycp-8.3-aaaaaaaaaaaaaaaaaaaaaaaaaaaaaaaa.sock''"
    by code_simp+
  then show "live_file sample_certbot sample_issue ''fullchain.pem'' = ''/etc/letsencrypt/live/webycp-cccccccccccccccccccccccccccccccc/fullchain.pem''"
    "live_file sample_certbot sample_issue ''privkey.pem'' = ''/etc/letsencrypt/live/webycp-cccccccccccccccccccccccccccccccc/privkey.pem''"
    "path_Join [''/run/php'', ''webycp-8.3-'' @ crq_account sample_issue @ ''.sock''] = ''/run/php/webycp-8.3-aaaaaaaaaaaaaaaaaaaaaaaaaaaaaaaa.sock''"
    by (simp_all add: live_file_def cert_name_def sample_certbot_def sample_issue_def numeral_eq_Suc)
qed

lemma sample_issue_checks:
  "certbot_request sample_certbot sample_issue = Inr [''a.example'', ''b.example'']"
  "certbot_site sample_certbot sample_issue [''a.example'', ''b.example''] =
    Inr (sample_web_site\<lparr>wsi_root := ''/home/wcp_aaaaaaaaaaaa/web/a.example/public_html'',
      wsi_socket := ''/run/php/webycp-8.3-aaaaaaaaaaaaaaaaaaaaaaaaaaaaaaaa.sock''\<rparr>)"
proof -
  have ids: "validate_ID f (replicate 32 CHR ''a'') = Inr ()" "validate_ID f (replicate 32 CHR ''c'') = Inr ()" for f
    by (simp_all add: validate_ID_def idPattern_def list_all_iff is_hex_lower_def is_digit_def bytes_between_def byte_def)
  have "validate_Email plain_ext ''admin@a.example'' = Inr ''admin@a.example''"
    by (simp add: validate_Email_def plain_ext_def Let_def ascii_eval)
  then show "certbot_request sample_certbot sample_issue = Inr [''a.example'', ''b.example'']"
    using sample_preflight sample_site_domains(1) ids
    by (simp add: certbot_request_def sample_issue_def) (simp add: sample_certbot_def)
  have "validate_SystemUser ''wcp_aaaaaaaaaaaa'' = Inr ()" "certbot_root_ok (path_Join [''/home'', ''wcp_aaaaaaaaaaaa'', ''web'']) ''/home/wcp_aaaaaaaaaaaa/web/a.example/public_html''"
    by code_simp+
  moreover have "path_Join [''/run/php'', ''webycp-8.3-aaaaaaaaaaaaaaaaaaaaaaaaaaaaaaaa.sock''] = ''/run/php/webycp-8.3-aaaaaaaaaaaaaaaaaaaaaaaaaaaaaaaa.sock''"
    by code_simp
  ultimately show "certbot_site sample_certbot sample_issue [''a.example'', ''b.example''] =
    Inr (sample_web_site\<lparr>wsi_root := ''/home/wcp_aaaaaaaaaaaa/web/a.example/public_html'',
      wsi_socket := ''/run/php/webycp-8.3-aaaaaaaaaaaaaaaaaaaaaaaaaaaaaaaa.sock''\<rparr>)"
    using ids by (simp add: certbot_site_def sample_issue_def sample_certbot_def sample_web_site_def numeral_eq_Suc)
qed

definition sample_challenged :: web_state where
  "sample_challenged = \<lparr>wst_fs = [''/var/lib/webycp/acme'' \<mapsto> Directory],
     wst_runs = [\<lparr>run_args = certbot_args sample_certbot sample_issue [''a.example'', ''b.example''],
       run_fs = [''/var/lib/webycp/acme'' \<mapsto> Directory], run_err = None\<rparr>]\<rparr>"

lemma sample_installed: "fst (certbot_install sample_certbot sample_issue [''a.example'', ''b.example''] sample_challenged) = None"
proof -
  have web: "cbt_web sample_certbot = Some sample_nginx" "crq_kind sample_issue = ''website''" "crq_redirect sample_issue"
    "ngx_ext sample_nginx = plain_ext" "\<forall>n args g. ngx_run sample_nginx n args g = None"
    by (simp_all add: sample_certbot_def sample_issue_def sample_nginx_def)
  have calm: "nginx_calm sample_nginx (replicate 32 CHR ''a'') (wst_fs sample_challenged)"
    using sample_places by (simp add: nginx_calm_def nginx_paths_def sample_nginx_def calm_def is_rooted_def sample_challenged_def)
  have ready: "nginx_ready sample_nginx (replicate 32 CHR ''a'') (wst_fs sample_challenged)"
    using sample_places by (simp add: nginx_ready_def nginx_paths_def sample_nginx_def sample_challenged_def)
  have inst: "fst (nginx_install sample_nginx (replicate 32 CHR ''a'') contents sample_challenged) = None" for contents
    using install_succeeds [OF calm ready web(5)] .
  have v: "wsi_id sample_web_site = replicate 32 CHR ''a''" "wsi_name sample_web_site = ''a.example''"
    by (simp_all add: sample_web_site_def)
  have "path_Clean ''/home/wcp_aaaaaaaaaaaa/web/a.example/public_html'' = ''/home/wcp_aaaaaaaaaaaa/web/a.example/public_html''"
    "path_Clean ''/run/php/webycp-8.3-aaaaaaaaaaaaaaaaaaaaaaaaaaaaaaaa.sock'' = ''/run/php/webycp-8.3-aaaaaaaaaaaaaaaaaaaaaaaaaaaaaaaa.sock''"
    "path_Clean ''/etc/letsencrypt/live/webycp-cccccccccccccccccccccccccccccccc/fullchain.pem'' = ''/etc/letsencrypt/live/webycp-cccccccccccccccccccccccccccccccc/fullchain.pem''"
    "path_Clean ''/etc/letsencrypt/live/webycp-cccccccccccccccccccccccccccccccc/privkey.pem'' = ''/etc/letsencrypt/live/webycp-cccccccccccccccccccccccccccccccc/privkey.pem''"
    by code_simp+
  then have paths: "validPath f ''/home/wcp_aaaaaaaaaaaa/web/a.example/public_html'' = Inr ()"
    "validPath f ''/run/php/webycp-8.3-aaaaaaaaaaaaaaaaaaaaaaaaaaaaaaaa.sock'' = Inr ()"
    "validPath f ''/etc/letsencrypt/live/webycp-cccccccccccccccccccccccccccccccc/fullchain.pem'' = Inr ()"
    "validPath f ''/etc/letsencrypt/live/webycp-cccccccccccccccccccccccccccccccc/privkey.pem'' = Inr ()" for f
    by (simp_all add: validPath_def is_rooted_def ContainsAny_def)
  show ?thesis
    using inst paths sample_checks(1,2)
    by (simp add: certbot_install_def web Let_def sample_issue_checks(2) sample_issue_files nginx_EnsureTLS_def nginx_Ensure_def v saying_def)
qed

lemma chosen:
  assumes "X = insert a {n \<in> N. Q n \<and> R n}"
  shows "b \<in> X \<Longrightarrow> b \<noteq> a \<Longrightarrow> R b" "b \<notin> X \<Longrightarrow> b \<in> N \<Longrightarrow> \<not> (R b \<and> Q b)"
  using assms by blast+

theorem issued_certificate_is_served_witness:
  "\<exists>s' c. certbot_Issue sample_certbot sample_issue sample_host = (Inr ([''a.example'', ''b.example''], 90), s') \<and>
     reaches sample_certbot ''b.example'' \<and> \<not> (reaches sample_certbot ''c.example'' \<and> validate_Domain plain_ext ''c.example'' = Inr ''c.example'') \<and>
     served sample_nginx (wst_fs s') (replicate 32 CHR ''a'') = Some c \<and>
     reads_config c (site_tree (certified_site sample_certbot sample_issue [''b.example'']))"
proof -
  have f: "cbt_web sample_certbot = Some sample_nginx" "crq_website sample_issue = replicate 32 CHR ''a''" "crq_name sample_issue = ''a.example''"
    "crq_names sample_issue = [''c.example'', ''b.example'']" "crq_kind sample_issue = ''website''" "cbt_home sample_certbot = ''/home''"
    "cbt_ext sample_certbot = plain_ext"
    by (simp_all add: sample_certbot_def sample_issue_def)
  obtain s' where inst: "certbot_install sample_certbot sample_issue [''a.example'', ''b.example''] sample_challenged = (None, s')"
    using sample_installed by (metis prod.collapse)
  have steps: "saying ''create ACME webroot'' (on_fs (os_MkdirAll (cbt_io sample_certbot) (cbt_root sample_certbot)) sample_host) =
      (None, \<lparr>wst_fs = [''/var/lib/webycp/acme'' \<mapsto> Directory], wst_runs = []\<rparr>)"
    "certbot_challenge sample_certbot sample_issue t = (None, t)"
    "run_command (cbt_run sample_certbot) (certbot_args sample_certbot sample_issue [''a.example'', ''b.example''])
      \<lparr>wst_fs = [''/var/lib/webycp/acme'' \<mapsto> Directory], wst_runs = []\<rparr> = (None, sample_challenged)"
    "readExpiry sample_certbot rs p = Inr 90" for t rs p
    by (simp_all add: sample_host_def on_fs_def os_MkdirAll_def saying_def certbot_challenge_def f run_command_def sample_challenged_def Let_def readExpiry_def)
      (simp_all add: sample_certbot_def)
  have quiet: "saying msg (None, t) = (None, t)" for msg and t :: web_state
    by simp
  have run: "certbot_Issue sample_certbot sample_issue sample_host = (Inr ([''a.example'', ''b.example''], 90), s')"
    unfolding certbot_Issue_def sample_issue_checks(1) sum.case steps(1) onto_simps steps(2,3) quiet prod.case option.case steps(4) inst ..
  have nodes: "node_addresses sample_certbot"
    by (simp add: node_addresses_def sample_certbot_def ip_ok_def mapped_def)
  have calm: "certbot_calm sample_certbot sample_nginx (crq_website sample_issue) (wst_fs sample_host)"
    using sample_nginx_calm unfolding f by (simp add: certbot_calm_def sample_host_def sample_nginx_def sample_certbot_def)
  have home: "is_rooted (cbt_home sample_certbot)"
    by (simp add: f is_rooted_def)
  have plain: "\<forall>p \<in> {crq_document_root sample_issue, path_Join [''/run/php'', ''webycp-8.3-'' @ crq_account sample_issue @ ''.sock''],
      live_file sample_certbot sample_issue ''fullchain.pem'', live_file sample_certbot sample_issue ''privkey.pem''}. CHR 0x5C \<notin> set p"
    unfolding sample_issue_files by (simp add: sample_issue_def)
  note c = issued_certificate_is_served [OF run nodes f(1) calm home plain, THEN conjunct2, THEN conjunct2, THEN conjunct2]
  note names = c [THEN conjunct1, unfolded f]
  note site = c [THEN conjunct2, THEN conjunct2, THEN mp, OF f(5), THEN conjunct2, THEN conjunct2, unfolded f]
  have "reaches sample_certbot ''b.example''"
    by (rule chosen(1) [OF names]) simp_all
  moreover have "\<not> (reaches sample_certbot ''c.example'' \<and> validate_Domain plain_ext ''c.example'' = Inr ''c.example'')"
    by (rule chosen(2) [OF names]) simp_all
  moreover obtain c where "served sample_nginx (wst_fs s') (replicate 32 CHR ''a'') = Some c"
    "reads_config c (site_tree (certified_site sample_certbot sample_issue [''b.example'']))"
    using site unfolding list.sel by blast
  ultimately show ?thesis
    using run by blast
qed

text \<open>
  The check of the document root lets \<open>public_html\<close> in the home directory itself pass, which the website
  manager of the agent refuses: \<open>..\<close> counts as the one directory above \<open>public_html\<close>.
\<close>

lemma root_beside_web:
  "certbot_root_ok ''/home/wcp_aaaaaaaaaaaa/web'' ''/home/wcp_aaaaaaaaaaaa/public_html''"
  by code_simp

end
