(* ===== verification/AgentMain.thy ===== *)
theory AgentMain
  imports AgentServer Certbot PowerDns Restore
begin

text \<open>
  The agent as \<open>cmd/webycp-agent/main.go\<close> puts it together: one nginx driver, shared by the website manager
  and the certificate driver, one PHP-FPM driver, shared by the website and the account manager, and the
  drivers for MySQL, cron, FTP, DNS and backups, all on one host.  On it rest the theorems about the whole
  way from the panel's tables to the host.
\<close>

section \<open>The host\<close>

text \<open>
  The directory tree, users, configuration files and services are one state for all drivers; the backup
  driver has its own view of each home directory, its archive files and the scripts it fed to mysql.
\<close>

record agent_host =
  agh_main :: account_host
  agh_homes :: "string \<Rightarrow> home option"
  agh_archives :: "(string \<times> string) list"
  agh_dumped :: "string list"
  agh_sql :: "string list list"
  agh_pdns :: pdns_log

text \<open>What the agent finds on its node: the drivers' own settings, and how the programs they call answer.\<close>

record agent_env =
  env_ext :: ext
  env_version :: string
  env_linux :: linux_driver
  env_ftp :: ftp_host
  env_fpm :: fpm_driver
  env_nginx :: nginx_driver
  env_certbot :: certbot_driver
  env_mysql :: runner
  env_cron_io :: io
  env_cron_tmp :: string
  env_backup :: local_driver
  env_now :: msec
  env_pdns :: pdns_client
  env_server :: pdns_server
  env_day :: string
  env_check :: "string list \<Rightarrow> err option"
  env_stat :: "string \<Rightarrow> err + bool"

section \<open>Capabilities\<close>

definition capability_command :: "agent_env \<Rightarrow> string \<Rightarrow> string \<Rightarrow> string list \<Rightarrow> capability" where
  "capability_command env driver version args =
     \<lparr>cap_driver = driver, cap_version = version,
      cap_status = if env_check env args = None then ''healthy'' else ''unavailable''\<rparr>"

definition capability_directory :: "agent_env \<Rightarrow> string \<Rightarrow> string \<Rightarrow> capability" where
  "capability_directory env driver path =
     \<lparr>cap_driver = driver, cap_version = [], cap_status = if env_stat env path = Inr True then ''healthy'' else ''unavailable''\<rparr>"

definition capability_check :: "agent_env \<Rightarrow> string \<Rightarrow> agent_host \<Rightarrow> capability" where
  "capability_check env driver s =
     \<lparr>cap_driver = driver, cap_version = [],
      cap_status = if fst (powerdns_Health (env_pdns env) (env_server env) (agh_pdns s)) = None then ''healthy'' else ''unavailable''\<rparr>"

definition capability_Observe :: "agent_env \<Rightarrow> agent_host \<Rightarrow> capabilities" where
  "capability_Observe env s =
     \<lparr>cap_webservers = [capability_command env ''nginx'' [] [''nginx'', ''-t'']],
      cap_runtimes = [capability_command env ''phpfpm'' ''8.3'' [''php-fpm8.3'', ''-t'']],
      cap_databases = [capability_command env ''mysql'' [] [''mysqladmin'', ''ping'', ''--silent'']],
      cap_schedulers = [capability_command env ''crontab'' [] [''systemctl'', ''is-active'', ''--quiet'', ''cron'']],
      cap_backups = [capability_directory env ''local'' ''/var/backups/webycp''],
      cap_dns = [capability_check env ''powerdns'' s]\<rparr>"

section \<open>The drivers on the host\<close>

definition on_main :: "account_host step \<Rightarrow> agent_host step" where
  "on_main f s = (case f (agh_main s) of (e, h) \<Rightarrow> (e, s\<lparr>agh_main := h\<rparr>))"

text \<open>\<open>user.Lookup\<close> in the user database of the host.\<close>

definition env_user :: "agent_env \<Rightarrow> agent_host \<Rightarrow> string \<Rightarrow> err + host_user" where
  "env_user env s su = andthen (linux_lookup (env_linux env) su (ach_lin (agh_main s))) (some_or UnknownUserError)"

definition env_accounts :: "agent_env \<Rightarrow> agent_host \<Rightarrow> account_manager" where
  "env_accounts env s =
     \<lparr>acm_linux = env_linux env, acm_runtime = env_fpm env, acm_ext = env_ext env,
      acm_ftp = (env_ftp env)\<lparr>fho_lookup := env_user env s\<rparr>\<rparr>"

definition env_websites :: "agent_env \<Rightarrow> agent_host \<Rightarrow> website_manager" where
  "env_websites env s =
     \<lparr>wsm_lookup = env_user env s, wsm_group = lnx_group (env_linux env), wsm_home = ''/home'', wsm_io = lnx_io (env_linux env),
      wsm_fpm = env_fpm env, wsm_nginx = env_nginx env\<rparr>"

definition agent_Account :: "agent_env \<Rightarrow> account_action \<Rightarrow> ident \<Rightarrow> string \<Rightarrow> agent_host step" where
  "agent_Account env k a su s =
     on_main (case k of DoDisable \<Rightarrow> manager_Disable (env_accounts env s) a su
       | DoEnable \<Rightarrow> manager_Enable (env_accounts env s) a su
       | DoDelete \<Rightarrow> manager_Delete (env_accounts env s) a su) s"

definition website_view :: "agent_host \<Rightarrow> website_host" where
  "website_view s = \<lparr>wsh_tree = lin_tree (ach_lin (agh_main s)), wsh_web = ach_web (agh_main s)\<rparr>"

definition website_written :: "website_host \<Rightarrow> agent_host \<Rightarrow> agent_host" where
  "website_written w s =
     s\<lparr>agh_main := (agh_main s)\<lparr>ach_lin := (ach_lin (agh_main s))\<lparr>lin_tree := wsh_tree w\<rparr>, ach_web := wsh_web w\<rparr>\<rparr>"

definition agent_Website :: "agent_env \<Rightarrow> website_action \<Rightarrow> site_spec \<Rightarrow> agent_host step" where
  "agent_Website env k v s =
     (case (case k of SiteDoEnsure \<Rightarrow> hostsite_Ensure (env_websites env s) v
         | SiteDoDisable \<Rightarrow> hostsite_Disable (env_websites env s) v
         | SiteDoDelete \<Rightarrow> hostsite_Delete (env_websites env s) v) (website_view s) of
       (e, w) \<Rightarrow> (e, website_written w s))"

definition on_sql :: "(runner \<Rightarrow> err option \<times> string list list) \<Rightarrow> agent_env \<Rightarrow> agent_host step" where
  "on_sql f env s = (case f (env_mysql env) of (e, cmds) \<Rightarrow> (e, s\<lparr>agh_sql := agh_sql s @ cmds\<rparr>))"

definition agent_Tasks :: "agent_env \<Rightarrow> ident \<Rightarrow> string \<Rightarrow> cron_entry list \<Rightarrow> agent_host step" where
  "agent_Tasks env a su es s =
     on_main (on_web (on_fs (crontab_Sync (env_ext env) (env_cron_io env) (env_user env s) (env_cron_tmp env) a su es))) s"

definition agent_Certificate :: "agent_env \<Rightarrow> cert_request \<Rightarrow> agent_host \<Rightarrow> (err + string list \<times> msec) \<times> agent_host" where
  "agent_Certificate env q s =
     (case certbot_Issue ((env_certbot env)\<lparr>cbt_web := Some (env_nginx env)\<rparr>) q (ach_web (agh_main s)) of
       (r, w) \<Rightarrow> (r, s\<lparr>agh_main := (agh_main s)\<lparr>ach_web := w\<rparr>\<rparr>))"

definition backup_view :: "string \<Rightarrow> agent_host \<Rightarrow> local_state" where
  "backup_view su s = \<lparr>lst_files = agh_archives s, lst_home = agh_homes s su, lst_sql = agh_dumped s\<rparr>"

definition backup_written :: "string \<Rightarrow> local_state \<Rightarrow> agent_host \<Rightarrow> agent_host" where
  "backup_written su st s =
     s\<lparr>agh_archives := lst_files st, agh_homes := (agh_homes s)(su := lst_home st), agh_dumped := lst_sql st\<rparr>"

definition agent_backups :: "agent_env \<Rightarrow> agent_host backup_driver" where
  "agent_backups env =
     \<lparr>bdr_Create = \<lambda>q s. (case local_Create (env_backup env) q (env_now env) (backup_view (crr_user q) s) of
        Inl e \<Rightarrow> (Inl e, s)
      | Inr (f, st) \<Rightarrow> (Inr f, backup_written (crr_user q) st s)),
      bdr_Preview = \<lambda>q s. (local_Preview (env_backup env) q (backup_view [] s), s),
      bdr_Restore = \<lambda>q s. (case local_Restore (env_backup env) q (backup_view (rrq_user q) s) of
        (r, st) \<Rightarrow> (r, backup_written (rrq_user q) st s)),
      bdr_Delete = \<lambda>q s. (case local_Delete (env_backup env) q (backup_view [] s) of
        (e, st) \<Rightarrow> (e, s\<lparr>agh_archives := lst_files st\<rparr>))\<rparr>"

definition on_pdns :: "(pdns_log \<Rightarrow> err option \<times> pdns_log) \<Rightarrow> agent_host step" where
  "on_pdns f s = (case f (agh_pdns s) of (e, lg) \<Rightarrow> (e, s\<lparr>agh_pdns := lg\<rparr>))"

definition agent_dns :: "agent_env \<Rightarrow> agent_host dns_driver" where
  "agent_dns env =
     \<lparr>zdr_EnsureZone = \<lambda>z. on_pdns (powerdns_EnsureZone (env_ext env) (env_pdns env) (env_server env) (env_day env) z),
      zdr_DeleteZone = \<lambda>z. on_pdns (powerdns_DeleteZone (env_ext env) (env_pdns env) (env_server env) z),
      zdr_SyncRecordSets = \<lambda>z vs. on_pdns (powerdns_SyncRecordSets (env_ext env) (env_pdns env) (env_server env) z vs)\<rparr>"

definition agent_databases :: "agent_env \<Rightarrow> agent_host database_driver" where
  "agent_databases env =
     \<lparr>ddr_EnsureDatabase = \<lambda>n. on_sql (\<lambda>run. mysql_EnsureDatabase run n) env,
      ddr_DeleteDatabase = \<lambda>n. on_sql (\<lambda>run. mysql_DeleteDatabase run n) env,
      ddr_EnsureUser = \<lambda>n p. on_sql (\<lambda>run. mysql_EnsureUser run n p) env,
      ddr_DeleteUser = \<lambda>n. on_sql (\<lambda>run. mysql_DeleteUser run n) env,
      ddr_EnsureGrant = \<lambda>n u. on_sql (\<lambda>run. mysql_EnsureGrant run n u) env,
      ddr_DeleteGrant = \<lambda>n u. on_sql (\<lambda>run. mysql_DeleteGrant run n u) env\<rparr>"

text \<open>The options of \<open>main\<close>.\<close>

definition webycp_agent :: "agent_env \<Rightarrow> agent_host agent_options" where
  "webycp_agent env =
     \<lparr>ago_ext = env_ext env, ago_version = env_version env, ago_capabilities = Some (capability_Observe env),
      ago_accounts = Some (\<lambda>a su s. on_main (on_lin (linux_Ensure (env_linux env) a su)) s),
      ago_actions = Some (agent_Account env), ago_websites = Some (agent_Website env),
      ago_databases = Some (agent_databases env), ago_tasks = Some (agent_Tasks env),
      ago_certificates = Some (agent_Certificate env), ago_backups = Some (agent_backups env),
      ago_dns = Some (agent_dns env),
      ago_ftp = Some (\<lambda>a su es s. on_main (on_ftp (pureftpd_Sync (env_ext env) (acm_ftp (env_accounts env s)) a su es)) s)\<rparr>"

end
