(* ===== verification/Provisioning.thy ===== *)
theory Provisioning
  imports AgentMain
begin

text \<open>
  From the panel to the host: the agent accepts every website the panel stored, and after a successful
  provisioning job the host serves the website as the panel's tables describe it.
\<close>

section \<open>What the panel stores of a website\<close>

text \<open>The stack of a row, its document root in the home of its account, and the names of a domain.\<close>

definition site_stored :: "account list \<Rightarrow> website \<Rightarrow> bool" where
  "site_stored as w \<longleftrightarrow> web_kind w = ''php'' \<and> web_web_driver w = ''nginx'' \<and> web_runtime_driver w = ''phpfpm'' \<and>
     web_runtime_version w = ''8.3'' \<and>
     (\<forall>a \<in> set as. acc_id a = web_account w \<longrightarrow> web_document_root w = document_root (acc_system_user a) (web_id w))"

definition names_stored :: "ext \<Rightarrow> domain \<Rightarrow> bool" where
  "names_stored x d \<longleftrightarrow> validate_Domain x (dom_hostname d) = Inr (dom_hostname d) \<and>
     (dom_previous d = [] \<or> validate_Domain x (dom_previous d) = Inr (dom_previous d))"

definition domains_of :: "ident \<Rightarrow> db \<Rightarrow> domain list" where
  "domains_of w s = filter (\<lambda>d. dom_website d = w) (domains s)"

definition website_rows_ok :: "ext \<Rightarrow> db \<Rightarrow> bool" where
  "website_rows_ok x s \<longleftrightarrow> websites_inv s \<and> distinct (map acc_id (accounts s)) \<and>
     (\<forall>w \<in> set (websites s). site_stored (accounts s) w) \<and> (\<forall>d \<in> set (domains s). names_stored x d) \<and>
     (\<forall>w. length (domains_of w s) \<le> Suc MaxDomainAliases)"

text \<open>Rows that keep what matters here.\<close>

definition same_site :: "website \<Rightarrow> website \<Rightarrow> bool" where
  "same_site w' w \<longleftrightarrow> web_id w' = web_id w \<and> web_account w' = web_account w \<and> web_document_root w' = web_document_root w \<and>
     web_kind w' = web_kind w \<and> web_web_driver w' = web_web_driver w \<and> web_runtime_driver w' = web_runtime_driver w \<and>
     web_runtime_version w' = web_runtime_version w"

lemma site_stored_same: "site_stored as w \<Longrightarrow> same_site w' w \<Longrightarrow> set bs \<subseteq> set as \<Longrightarrow> site_stored bs w'"
  by (auto simp: site_stored_def same_site_def)

text \<open>Changes of rows in place, and the loss of rows, keep the stored form.\<close>

definition rows_shrink :: "ext \<Rightarrow> db \<Rightarrow> db \<Rightarrow> bool" where
  "rows_shrink x s s' \<longleftrightarrow>
     (\<exists>P. accounts s' = filter P (accounts s)) \<and>
     (\<forall>w' \<in> set (websites s'). \<exists>w \<in> set (websites s). same_site w' w) \<and>
     (\<exists>f Q. domains s' = map f (filter Q (domains s)) \<and>
        (\<forall>d \<in> set (domains s). dom_website (f d) = dom_website d \<and> (names_stored x d \<longrightarrow> names_stored x (f d))))"

lemma rows_shrink_ok:
  assumes "rows_shrink x s s'" "website_rows_ok x s" "websites_inv s'"
  shows "website_rows_ok x s'"
proof -
  obtain P f Q where a: "accounts s' = filter P (accounts s)" and d: "domains s' = map f (filter Q (domains s))"
    and f: "\<forall>d \<in> set (domains s). dom_website (f d) = dom_website d \<and> (names_stored x d \<longrightarrow> names_stored x (f d))"
    using assms(1) by (auto simp: rows_shrink_def)
  have "length (domains_of w s') \<le> length (domains_of w s)" for w
  proof -
    have "filter (\<lambda>d. dom_website d = w) (map f (filter Q ds)) = map f (filter Q (filter (\<lambda>d. dom_website d = w) ds))"
      if "set ds \<subseteq> set (domains s)" for ds
      using that f by (induction ds) auto
    from this [of "domains s"] have "length (domains_of w s') = length (filter Q (domains_of w s))"
      unfolding domains_of_def d by simp
    then show ?thesis
      by simp
  qed
  then have "length (domains_of w s') \<le> Suc MaxDomainAliases" for w
    using assms(2) by (meson le_trans website_rows_ok_def)
  moreover have "\<forall>w \<in> set (websites s'). site_stored (accounts s') w"
    using assms(1,2) site_stored_same [of "accounts s"] a unfolding rows_shrink_def website_rows_ok_def
    by (metis filter_is_subset)
  moreover have "\<forall>d \<in> set (domains s'). names_stored x d"
    using assms(2) f by (auto simp: d website_rows_ok_def)
  moreover have "distinct (map acc_id (accounts s'))"
    using assms(2) by (simp add: a website_rows_ok_def distinct_map_filter)
  ultimately show ?thesis
    using assms(3) by (simp add: website_rows_ok_def)
qed

lemma same_site_refl [simp]: "same_site w w"
  by (simp add: same_site_def)

lemma same_site_trans: "same_site a b \<Longrightarrow> same_site b c \<Longrightarrow> same_site a c"
  by (simp add: same_site_def)

lemma shrink_filter:
  assumes "accounts s' = filter P (accounts s)" "websites s' = filter R (websites s)" "domains s' = filter Q (domains s)"
  shows "rows_shrink x s s'"
proof -
  have "domains s' = map (\<lambda>d. d) (filter Q (domains s))"
    using assms(3) by simp
  moreover have "\<forall>w' \<in> set (websites s'). \<exists>w \<in> set (websites s). same_site w' w"
    using assms(2) same_site_refl by (metis filter_is_subset subsetD)
  ultimately show ?thesis
    unfolding rows_shrink_def using assms(1) by blast
qed

lemma shrink_same: "accounts s' = accounts s \<Longrightarrow> websites s' = websites s \<Longrightarrow> domains s' = domains s \<Longrightarrow> rows_shrink x s s'"
  by (rule shrink_filter [where P = "\<lambda>_. True" and Q = "\<lambda>_. True" and R = "\<lambda>_. True"]) simp_all

lemma shrink_websites:
  assumes "accounts s' = accounts s" "domains s' = domains s" "websites s' = map g (websites s)" "\<And>w. same_site (g w) w"
  shows "rows_shrink x s s'"
proof -
  have "accounts s' = filter (\<lambda>_. True) (accounts s)" "domains s' = map (\<lambda>d. d) (filter (\<lambda>_. True) (domains s))"
    using assms by simp_all
  moreover have "\<forall>w' \<in> set (websites s'). \<exists>w \<in> set (websites s). same_site w' w"
    using assms(3,4) by auto
  ultimately show ?thesis
    unfolding rows_shrink_def by blast
qed

lemma shrink_domains:
  assumes "accounts s' = accounts s" "websites s' = websites s" "domains s' = map f (domains s)"
    "\<And>d. dom_website (f d) = dom_website d" "\<And>d. names_stored x d \<Longrightarrow> names_stored x (f d)"
  shows "rows_shrink x s s'"
proof -
  have "accounts s' = filter (\<lambda>_. True) (accounts s)" "domains s' = map f (filter (\<lambda>_. True) (domains s))"
    using assms by simp_all
  moreover have "\<forall>w' \<in> set (websites s'). \<exists>w \<in> set (websites s). same_site w' w"
    using assms(2) same_site_refl by metis
  ultimately show ?thesis
    unfolding rows_shrink_def using assms(4,5) by blast
qed

lemma shrink_trans:
  assumes "rows_shrink x s t" "rows_shrink x t u"
  shows "rows_shrink x s u"
proof -
  obtain P f Q where t: "accounts t = filter P (accounts s)" "domains t = map f (filter Q (domains s))"
    and f: "\<forall>d \<in> set (domains s). dom_website (f d) = dom_website d \<and> (names_stored x d \<longrightarrow> names_stored x (f d))"
    using assms(1) by (auto simp: rows_shrink_def)
  obtain P' g Q' where u: "accounts u = filter P' (accounts t)" "domains u = map g (filter Q' (domains t))"
    and g: "\<forall>d \<in> set (domains t). dom_website (g d) = dom_website d \<and> (names_stored x d \<longrightarrow> names_stored x (g d))"
    using assms(2) by (auto simp: rows_shrink_def)
  let ?h = "\<lambda>d. if Q d then g (f d) else d"
  have "domains u = map ?h (filter (\<lambda>d. Q d \<and> Q' (f d)) (domains s))"
    unfolding u(2) t(2) filter_map by (simp add: comp_def conj_commute)
  moreover have "\<forall>d \<in> set (domains s). dom_website (?h d) = dom_website d \<and> (names_stored x d \<longrightarrow> names_stored x (?h d))"
    using f g by (simp add: t(2))
  moreover have "accounts u = filter (\<lambda>a. P a \<and> P' a) (accounts s)"
    by (simp add: u(1) t(1) conj_commute)
  moreover have "\<forall>w' \<in> set (websites u). \<exists>w \<in> set (websites s). same_site w' w"
    using assms same_site_trans unfolding rows_shrink_def by meson
  ultimately show ?thesis
    unfolding rows_shrink_def by blast
qed

lemma createJob_accounts: "createJob j s = Inr (r, s') \<Longrightarrow> accounts s' = accounts s \<and> websites s' = websites s \<and> domains s' = domains s"
  by (auto dest: createJob_Inr)

text \<open>The operations of the store.\<close>

lemma QueueWebsiteAction_shrinks: "store_QueueWebsiteAction i en j now s = Inr (r, s') \<Longrightarrow> rows_shrink x s s'"
  by (rule shrink_websites [where g = "\<lambda>r. if web_id r = i \<and> web_status r \<noteq> Pending then queue_website_row en now r else r"])
    (auto simp: store_QueueWebsiteAction_def same_site_def queue_website_row_def dest!: createJob_accounts)

lemma QueueWebsiteDomainAction_shrinks: "store_QueueWebsiteDomainAction i en j now s = Inr (r, s') \<Longrightarrow> rows_shrink x s s'"
  by (rule shrink_domains [where f = "\<lambda>r. if dom_id r = i \<and> dom_kind r = Alias \<and> dom_status r \<noteq> Pending then queue_domain_row en now r else r"])
    (auto simp: store_QueueWebsiteDomainAction_def Let_def queue_domain_row_def names_stored_def dest!: createJob_accounts)

lemma QueueWebsiteDomainRename_shrinks:
  "store_QueueWebsiteDomainRename i h j now s = Inr (r, s') \<Longrightarrow> validate_Domain x h = Inr h \<Longrightarrow> rows_shrink x s s'"
  by (rule shrink_domains [where f = "\<lambda>r. if dom_id r = i \<and> dom_status r \<noteq> Pending then rename_row h now r else r"])
    (auto simp: store_QueueWebsiteDomainRename_def Let_def rename_row_def names_stored_def dest!: createJob_accounts)

lemma store_shrinks [intro]:
  "rows_shrink x s (store_UpdateWebsiteStatus i st now s)"
  "rows_shrink x s (store_UpdateWebsiteDomainStatus i st now s)"
  "rows_shrink x s (store_CompleteWebsiteDomainRename i now s)"
  "rows_shrink x s (store_DeleteWebsite i s)"
  "rows_shrink x s (store_DeleteWebsiteDomain i s)"
  "rows_shrink x s (cascade_account a s)"
proof -
  show "rows_shrink x s (store_UpdateWebsiteStatus i st now s)"
    by (rule shrink_websites [where g = "\<lambda>r. if web_id r = i then r\<lparr>web_status := st, web_updated := now\<rparr> else r"])
      (simp_all add: store_UpdateWebsiteStatus_def update_by_def same_site_def)
  show "rows_shrink x s (store_UpdateWebsiteDomainStatus i st now s)"
    by (rule shrink_domains [where f = "\<lambda>r. if dom_id r = i then r\<lparr>dom_status := st, dom_updated := now\<rparr> else r"])
      (simp_all add: store_UpdateWebsiteDomainStatus_def update_by_def names_stored_def)
  show "rows_shrink x s (store_CompleteWebsiteDomainRename i now s)"
    by (rule shrink_domains [where f = "\<lambda>r. if dom_id r = i then complete_rename_row now r else r"])
      (simp_all add: store_CompleteWebsiteDomainRename_def update_by_def names_stored_def complete_rename_row_def)
  show "rows_shrink x s (store_DeleteWebsite i s)"
    using shrink_same [of s s x]
    by (auto simp: store_DeleteWebsite_def Let_def delete_by_def
        intro!: shrink_filter [where P = "\<lambda>_. True" and Q = "\<lambda>d. dom_website d \<noteq> i" and R = "\<lambda>w. web_id w \<noteq> i"])
  show "rows_shrink x s (store_DeleteWebsiteDomain i s)"
    by (rule shrink_filter [where P = "\<lambda>_. True" and R = "\<lambda>_. True"]) (simp_all add: store_DeleteWebsiteDomain_def)
  show "rows_shrink x s (cascade_account a s)"
    by (rule shrink_filter) (simp_all add: cascade_account_def Let_def delete_by_def)
qed

lemma FailRename_shrinks: "store_FailWebsiteDomainRename i now s = Inr s' \<Longrightarrow> rows_shrink x s s'"
  by (rule shrink_domains [where f = "\<lambda>r. if dom_id r = i then fail_rename_row now r else r"])
    (auto simp: store_FailWebsiteDomainRename_def Let_def update_by_def names_stored_def fail_rename_row_def split: if_splits)

text \<open>The operations that add rows.\<close>

lemma domains_of_add: "domains s' = domains s @ [d] \<Longrightarrow> domains_of w s' = domains_of w s @ (if dom_website d = w then [d] else [])"
  by (simp add: domains_of_def)

lemma CreateWebsiteProvision_rows:
  assumes "store_CreateWebsiteProvision w d j s = Inr (((w', d'), j'), s')"
  shows "accounts s' = accounts s" "websites s' = websites s @ [w\<lparr>web_status := Pending, web_enabled := True\<rparr>]"
    "domains s' = domains s @ [d\<lparr>dom_status := Pending, dom_enabled := True, dom_previous := []\<rparr>]" "web_id w \<notin> web_id ` set (websites s)"
proof -
  obtain s1 s2 where w: "insert_website w s = Inr (w', s1)" and d: "insert_domain d s1 = Inr (d', s2)" and j: "createJob j s2 = Inr (j', s')"
    using assms by (auto simp: store_CreateWebsiteProvision_def)
  note w' = insert_website_Inr [OF w] and d' = insert_domain_Inr [OF d] and j' = createJob_accounts [OF j]
  show "accounts s' = accounts s" "websites s' = websites s @ [w\<lparr>web_status := Pending, web_enabled := True\<rparr>]"
    "domains s' = domains s @ [d\<lparr>dom_status := Pending, dom_enabled := True, dom_previous := []\<rparr>]" "web_id w \<notin> web_id ` set (websites s)"
    using w' d' j' by auto
qed

lemma CreateWebsiteDomainProvision_rows:
  assumes "store_CreateWebsiteDomainProvision d j s = Inr ((d', j'), s')"
  shows "accounts s' = accounts s" "websites s' = websites s"
    "domains s' = domains s @ [d\<lparr>dom_status := Pending, dom_enabled := True, dom_previous := []\<rparr>]"
proof -
  obtain s1 where d: "insert_domain d s = Inr (d', s1)" and j: "createJob j s1 = Inr (j', s')"
    using assms by (auto simp: store_CreateWebsiteDomainProvision_def)
  note d' = insert_domain_Inr [OF d] and j' = createJob_accounts [OF j]
  show "accounts s' = accounts s" "websites s' = websites s"
    "domains s' = domains s @ [d\<lparr>dom_status := Pending, dom_enabled := True, dom_previous := []\<rparr>]"
    using d' j' by auto
qed

lemma Create_rows_ok:
  assumes "websites_Create x v host u admin wid did jid now s = Inr (r, s')" "website_rows_ok x s" "idna_stable x" "websites_inv s'"
  shows "website_rows_ok x s'"
proof -
  obtain name hostname a w d j where h: "validate_Domain x host = Inr hostname"
    and st: "web_kind v = ''php''" "web_web_driver v = ''nginx''" "web_runtime_driver v = ''phpfpm''" "web_runtime_version v = ''8.3''"
    and a: "accounts_Account (web_account v) u admin s = Inr a"
    and made: "store_CreateWebsiteProvision
       (v\<lparr>web_id := wid, web_account := acc_id a, web_node := acc_node a, web_name := name,
          web_document_root := document_root (acc_system_user a) wid, web_status := Pending,
          web_enabled := True, web_created := now, web_updated := now\<rparr>)
       \<lparr>dom_id = did, dom_website = wid, dom_hostname = hostname, dom_kind = Primary, dom_status = Pending,
        dom_enabled = True, dom_previous = [], dom_created = now, dom_updated = now\<rparr>
       (new_job jid (acc_node a) u KindWebsiteCreate (website_payload wid) 2 now) s = Inr (((w, d), j), s')"
    using assms(1) by (cases r; cases "fst r") (auto simp: websites_Create_def)
  note rows = CreateWebsiteProvision_rows [OF made]
  have "a \<in> set (accounts s)"
    using a by (auto simp: accounts_Account_def store_Account_def find_by_def find_Some_iff split: if_splits dest: nth_mem)
  then have unique: "b = a" if "b \<in> set (accounts s)" "acc_id b = acc_id a" for b
    using that assms(2) distinct_key_unique [of acc_id "accounts s" b a] by (simp add: website_rows_ok_def)
  have stored: "site_stored (accounts s) w'" if "w' \<in> set (websites s')" for w'
    using that assms(2) rows(1,2) st by (auto simp: site_stored_def website_rows_ok_def dest: unique)
  have "domains_of wid s = []"
    using assms(2) rows(4) by (auto simp: domains_of_def filter_empty_conv website_rows_ok_def websites_inv_def domains_inv_def)
  then have "length (domains_of i s') \<le> Suc MaxDomainAliases" for i
    using domains_of_add [OF rows(3), of i] assms(2) by (auto simp: website_rows_ok_def)
  moreover have "\<forall>d \<in> set (domains s'). names_stored x d"
    using rows(3) assms(2) validate_Domain_idem [OF h assms(3)] by (auto simp: names_stored_def website_rows_ok_def)
  ultimately show ?thesis
    using stored assms(2,4) rows(1) by (simp add: website_rows_ok_def)
qed

lemma CreateDomain_rows_ok:
  assumes "websites_CreateDomain x wid host u admin did jid now s = Inr (r, s')" "website_rows_ok x s" "idna_stable x" "websites_inv s'"
  shows "website_rows_ok x s'"
proof -
  obtain d j where r: "r = (d, j)"
    by (cases r)
  obtain w where w: "website_of wid u admin s = Inr w"
    using assms(1) by (auto simp: websites_CreateDomain_def)
  obtain hostname where h: "validate_Domain x host = Inr hostname"
    using assms(1) by (auto simp: websites_CreateDomain_def w)
  have limit: "length (store_WebsiteDomains (web_id w) s) \<le> MaxDomainAliases"
    and made: "store_CreateWebsiteDomainProvision
       \<lparr>dom_id = did, dom_website = web_id w, dom_hostname = hostname, dom_kind = Alias, dom_status = Pending,
        dom_enabled = True, dom_previous = [], dom_created = now, dom_updated = now\<rparr>
       (new_job jid (web_node w) u KindWebsiteDomainCreate (domain_payload did) 2 now) s = Inr ((d, j), s')"
    using assms(1) by (auto simp: websites_CreateDomain_def w h r)
  note rows = CreateWebsiteDomainProvision_rows [OF made]
  have "length (domains_of (web_id w) s) \<le> MaxDomainAliases"
    using limit by (simp add: store_WebsiteDomains_def order_domains_def order_asc_def domains_of_def)
  then have "length (domains_of i s') \<le> Suc MaxDomainAliases" for i
    using domains_of_add [OF rows(3), of i] assms(2) by (auto simp: website_rows_ok_def)
  moreover have "\<forall>d \<in> set (domains s'). names_stored x d"
    using rows(3) assms(2) validate_Domain_idem [OF h assms(3)] by (auto simp: names_stored_def website_rows_ok_def)
  ultimately show ?thesis
    using assms(2,4) rows(1,2) by (simp add: website_rows_ok_def)
qed

lemma website_step_rows_ok:
  assumes step: "website_step x s s'" and ok: "website_rows_ok x s" and idna: "idna_stable x"
  shows "website_rows_ok x s'"
proof -
  have inv: "websites_inv s'"
    using website_step_inv [OF step] ok by (simp add: website_rows_ok_def)
  note keep = rows_shrink_ok [OF _ ok inv]
  show ?thesis
    using step
  proof cases
    case (create v host u admin wid did jid now r)
    then show ?thesis
      using Create_rows_ok ok idna inv by blast
  next
    case (create_domain wid host u admin did jid now r2)
    then show ?thesis
      using CreateDomain_rows_ok ok idna inv by blast
  next
    case (set_website i u admin en jid now r3)
    then show ?thesis
      by (intro keep) (auto simp: websites_SetWebsite_def intro: QueueWebsiteAction_shrinks)
  next
    case (delete_website i u admin jid now r3)
    then show ?thesis
      by (intro keep) (auto simp: websites_DeleteWebsite_def intro: QueueWebsiteAction_shrinks)
  next
    case (set_domain i u admin en jid now r2)
    then show ?thesis
      by (intro keep) (auto simp: websites_SetDomain_def intro: QueueWebsiteDomainAction_shrinks)
  next
    case (delete_domain i u admin jid now r2)
    then show ?thesis
      by (intro keep) (auto simp: websites_DeleteDomain_def intro: QueueWebsiteDomainAction_shrinks)
  next
    case (rename i host u admin jid now r2)
    then show ?thesis
      using validate_Domain_idem [OF _ idna]
      by (intro keep) (auto simp: websites_RenameDomain_def intro: QueueWebsiteDomainRename_shrinks)
  next
    case (provision ag now j)
    have "rows_shrink x s s'"
      unfolding provision by (auto simp: websites_Provision_def split: option.split sum.split intro: shrink_same shrink_trans)
    then show ?thesis
      by (rule keep)
  next
    case (action ag now j)
    have "rows_shrink x s s'"
      unfolding action by (auto simp: websites_ProvisionWebsiteAction_def Let_def split: option.split sum.split intro: shrink_same)
    then show ?thesis
      by (rule keep)
  next
    case (domain ag now j)
    have "rows_shrink x s s'"
      unfolding domain by (auto simp: websites_ProvisionDomain_def Let_def split: option.split sum.split intro: shrink_same)
    then show ?thesis
      by (rule keep)
  next
    case (rename_job ag now j)
    have "rows_shrink x s s'"
      unfolding rename_job
      by (auto simp: websites_ProvisionDomainRename_def split: option.split sum.split intro: shrink_same FailRename_shrinks)
    then show ?thesis
      by (rule keep)
  next
    case (account_deleted a)
    then show ?thesis
      by (intro keep) auto
  qed
qed

section \<open>The agent accepts what the panel stored\<close>

lemma stored_root:
  assumes "systemUserPattern su" "idPattern i"
  shows "hostsite_root (''/home/'' @ su) (document_root su i) = Inr i"
proof -
  have plain: "plain_part su" "plain_part i" "plain_part ''web''"
    using system_user_part [OF assms(1)] idPattern_plain [OF assms(2)] by (simp_all add: plain_part_def)
  have home: "is_rooted ''/home''" "path_parts ''/home'' = [''home'']"
    by code_simp+
  have "path_parts (''/home/'' @ su) = [''home'', su]" "is_rooted (''/home/'' @ su)"
    using path_parts_join [OF home(1) plain(1)] home(2) by (simp_all add: is_rooted_def)
  then have base: "path_parts (path_Join [''/home/'' @ su, ''web'']) = [''home'', su, ''web'']" "is_rooted (path_Join [''/home/'' @ su, ''web''])"
    using path_Join_name [of "''/home/'' @ su" "''web''"] plain(3) by (simp_all add: is_rooted_def)
  have root: "document_root su i = CHR ''/'' # Join [''home'', su, ''web'', i, ''public_html''] ''/''"
    by (simp add: document_root_def)
  have r: "is_rooted (document_root su i)"
    by (simp add: root is_rooted_def)
  have parts: "path_parts (document_root su i) = [''home'', su, ''web'', i, ''public_html'']"
    unfolding root using plain by (intro path_parts_slash) (simp add: plain_part_def)
  have rel: "path_Rel (path_Join [''/home/'' @ su, ''web'']) (path_Clean (document_root su i)) = Some (i @ ''/public_html'')"
    using base path_Clean_rooted [OF r] parts by (simp add: path_Rel_def)
  have split: "Split (i @ ''/public_html'') (CHR ''/'') = [i, ''public_html'']"
    using plain(2) by (simp add: Split_append plain_part_def)
  obtain c cs where c: "i = c # cs" "is_hex_lower c"
    using assms(2) by (cases i) (auto simp: idPattern_def)
  then have "\<not> is_rooted (i @ ''/public_html'')" "\<not> HasPrefix (i @ ''/public_html'') ''../''"
    by (auto simp: is_rooted_def HasPrefix_def is_hex_lower_def is_digit_def bytes_between_def byte_def)
  then show ?thesis
    unfolding hostsite_root_def rel option.case split using plain(2) c(1) by (simp add: plain_part_def)
qed

lemma alias_loop_distinct:
  "\<forall>a \<in> set as. validate_Domain x a = Inr a \<Longrightarrow> distinct as \<Longrightarrow> set as \<inter> set seen = {} \<Longrightarrow> alias_loop x seen as res = Inr (res @ as)"
  by (induction x seen as res rule: alias_loop.induct) auto

lemma distinct_nocase: "distinct (map nocase hs) \<Longrightarrow> distinct hs"
  by (simp add: distinct_map)

lemma stored_aliases:
  assumes ok: "website_rows_ok x s" and w: "w \<in> set (websites s)" and sp: "website_spec w active s = Inr (sp, n)"
  shows "validate_DomainAliases x (wsp_primary sp) (wsp_aliases sp) = Inr (sort (wsp_aliases sp))"
    "wsp_website sp = web_id w" "wsp_kind sp = web_kind w" "wsp_web_driver sp = web_web_driver w" "wsp_runtime_driver sp = web_runtime_driver w"
    "wsp_runtime_version sp = web_runtime_version w" "wsp_document_root sp = web_document_root w"
    "\<exists>a \<in> set (accounts s). acc_id a = web_account w \<and> wsp_account sp = acc_id a \<and> wsp_system_user sp = acc_system_user a"
proof -
  have inv: "websites_inv s" and names: "\<forall>d \<in> set (domains s). names_stored x d"
    and few: "length (domains_of (web_id w) s) \<le> Suc MaxDomainAliases"
    using ok by (simp_all add: website_rows_ok_def)
  obtain a where a: "accounts_Get (web_account w) s = Inr a" "active \<longrightarrow> account_ready a" "store_Node (web_node w) s = Inr n"
    and built: "sp = spec_domains (store_EnabledWebsiteDomains (web_id w) s)
       \<lparr>wsp_account = acc_id a, wsp_system_user = acc_system_user a, wsp_website = web_id w,
        wsp_document_root = web_document_root w, wsp_kind = web_kind w, wsp_web_driver = web_web_driver w,
        wsp_runtime_driver = web_runtime_driver w, wsp_runtime_version = web_runtime_version w,
        wsp_primary = [], wsp_aliases = []\<rparr>"
    using sp by (auto simp: website_spec_def Let_def split: if_splits)
  show "wsp_website sp = web_id w" "wsp_kind sp = web_kind w" "wsp_web_driver sp = web_web_driver w" "wsp_runtime_driver sp = web_runtime_driver w"
    "wsp_runtime_version sp = web_runtime_version w" "wsp_document_root sp = web_document_root w"
    by (simp_all add: built spec_domains_eq)
  have "a \<in> set (accounts s)" "acc_id a = web_account w"
    using a(1) by (auto simp: accounts_Get_def store_Account_def find_by_def find_Some_iff split: if_splits dest: nth_mem)
  then show "\<exists>a \<in> set (accounts s). acc_id a = web_account w \<and> wsp_account sp = acc_id a \<and> wsp_system_user sp = acc_system_user a"
    by (intro bexI [of _ a]) (simp_all add: built spec_domains_eq)
  obtain d where d: "d \<in> set (domains s)" "dom_website d = web_id w" "dom_kind d = Primary" "wsp_primary sp = dom_hostname d"
    and al: "set (wsp_aliases sp) = {dom_hostname e | e. e \<in> set (domains s) \<and> dom_website e = web_id w \<and> dom_enabled e \<and> dom_kind e \<noteq> Primary}"
      "distinct (map nocase (wsp_aliases sp))"
    using spec_names_enabled_domains [OF inv w a] sp by auto
  have apart: "dom_hostname e \<noteq> dom_hostname d" if "e \<in> set (domains s)" "dom_kind e \<noteq> Primary" for e
  proof
    assume "dom_hostname e = dom_hostname d"
    moreover have "distinct (map (nocase \<circ> dom_hostname) (domains s))"
      using inv reserved_hostnames_distinct by (simp add: websites_inv_def domains_inv_def)
    ultimately have "e = d"
      using that(1) d(1) distinct_key_unique [of "nocase \<circ> dom_hostname" "domains s" e d] by simp
    then show False
      using that(2) d(3) by simp
  qed
  have "wsp_primary sp \<notin> set (wsp_aliases sp)"
    unfolding al(1) d(4) using apart by fastforce
  moreover have "\<forall>h \<in> set (wsp_primary sp # wsp_aliases sp). validate_Domain x h = Inr h"
    using names d(1,4) by (auto simp: al(1) names_stored_def)
  moreover have "length (wsp_aliases sp) \<le> MaxDomainAliases"
  proof -
    have "set (wsp_aliases sp) \<subseteq> dom_hostname ` (set (domains_of (web_id w) s) - {d})"
      using d(3) by (auto simp: al(1) domains_of_def)
    then have "card (set (wsp_aliases sp)) \<le> card (set (domains_of (web_id w) s) - {d})"
      by (meson card_image_le card_mono finite_Diff finite_imageI finite_set le_trans)
    also have "\<dots> \<le> MaxDomainAliases"
      using few d(1,2) card_length [of "domains_of (web_id w) s"] by (simp add: domains_of_def card_Diff_singleton)
    finally show ?thesis
      using distinct_nocase [OF al(2)] by (simp add: distinct_card)
  qed
  ultimately show "validate_DomainAliases x (wsp_primary sp) (wsp_aliases sp) = Inr (sort (wsp_aliases sp))"
    using alias_loop_distinct [of "wsp_aliases sp" x "[wsp_primary sp]" "[]"] distinct_nocase [OF al(2)]
    by (simp add: validate_DomainAliases_def)
qed

text \<open>C4: the agent accepts every website the website service stored.  Every request and every job of
  that service, and the deletion of an account, keep the rows of the websites in the form the agent
  asks for: the supported stack, a document root in the account's own \<open>web\<close> directory, valid names that
  are all different, and at most 100 aliases.  Whenever the rows have it, the handler on the agent lets
  the request of a provisioning job pass, and its website manager finds nothing to refuse, as long as
  the host knows the account's user.  Rows written by the restore of a backup's metadata are not
  covered: that job is not among the steps, it may store a document root that is not normalised or more
  than 100 aliases, and breaks the form (theory \<open>Restore\<close>).\<close>

theorem stored_websites_accepted:
  assumes step: "website_step x s s'" and ok: "website_rows_ok x s" and idna: "idna_stable x"
  shows "website_rows_ok x s' \<and>
    (\<forall>w active sp n (m :: website_manager) found i cfg k.
      w \<in> set (websites s') \<and> idPattern (web_id w) \<and> website_spec w active s' = Inr (sp, n) \<and>
      ngx_ext (wsm_nginx m) = x \<and> wsm_home m = ''/home'' \<and> wsm_lookup m (wsp_system_user sp) = Inr found \<and>
      hostuser_Validate found ''/home'' (wsp_account sp) (wsp_system_user sp) = Inr i \<longrightarrow>
      request_ok cfg (PostWebsites k (client_websiteRequest sp)) \<and>
      hostsite_validate m (client_websiteRequest sp) = Inr (i, web_id w, sort (wsp_aliases sp)))"
proof (intro conjI allI impI; (elim conjE)?)
  show ok': "website_rows_ok x s'"
    by (rule website_step_rows_ok [OF step ok idna])
  fix w active sp n found i and m :: website_manager and cfg :: "'s agent_options" and k
  assume w: "w \<in> set (websites s')" "idPattern (web_id w)" and sp: "website_spec w active s' = Inr (sp, n)"
    and m: "ngx_ext (wsm_nginx m) = x" "wsm_home m = ''/home''" "wsm_lookup m (wsp_system_user sp) = Inr found"
    and user: "hostuser_Validate found ''/home'' (wsp_account sp) (wsp_system_user sp) = Inr i"
  note f = stored_aliases [OF ok' w(1) sp]
  have stack: "web_kind w = ''php''" "web_web_driver w = ''nginx''" "web_runtime_driver w = ''phpfpm''" "web_runtime_version w = ''8.3''"
    and root: "web_document_root w = document_root (wsp_system_user sp) (web_id w)"
    using ok' w(1) f(8) by (auto simp: website_rows_ok_def site_stored_def)
  have ids: "succeeds (validate_ID ''accountId'' (wsp_account sp))" "succeeds (validate_SystemUser (wsp_system_user sp))"
    "succeeds (validate_ID ''websiteId'' (web_id w))" "systemUserPattern (wsp_system_user sp)" "idn_home i = ''/home/'' @ wsp_system_user sp"
    using user w(2) by (auto simp: hostuser_Validate_def hostuser_ValidateNames_def validate_ID_def validate_SystemUser_def fail_when_def succeeds_def
        split: option.splits if_splits)
  show "request_ok cfg (PostWebsites k (client_websiteRequest sp))"
    using ids stack f(2-6) by (simp add: client_websiteRequest_def hostAccountInvalid_def)
  show "hostsite_validate m (client_websiteRequest sp) = Inr (i, web_id w, sort (wsp_aliases sp))"
    using ids stack f m user stored_root [OF ids(4) w(2)] root
    by (simp add: hostsite_validate_def client_websiteRequest_def hostsite_identity_def)
qed

section \<open>A provisioned website is served\<close>

text \<open>
  The panel reaches the agent of a node at its endpoint: a link, and the host as the job finds it.
  \<open>reached\<close> is that host after the call.
\<close>

type_synonym network = "string \<Rightarrow> agent_host link \<times> agent_host"

definition remote_websites :: "network \<Rightarrow> website_agent" where
  "remote_websites net =
     \<lparr>agt_EnsureWebsite = \<lambda>e v. fst (client_EnsureWebsite (fst (net e)) v (snd (net e))),
      agt_DisableWebsite = \<lambda>e v. fst (client_DisableWebsite (fst (net e)) v (snd (net e))),
      agt_DeleteWebsite = \<lambda>e v. fst (client_DeleteWebsite (fst (net e)) v (snd (net e)))\<rparr>"

definition reached :: "network \<Rightarrow> string \<Rightarrow> web_spec \<Rightarrow> agent_host" where
  "reached net e v = snd (client_EnsureWebsite (fst (net e)) v (snd (net e)))"

lemma remote_ensure:
  assumes "client_EnsureWebsite c v h = (None, h')" "wire_ok (lnk_wire c) (PostWebsites SiteDoEnsure (client_websiteRequest v))"
    "lnk_agent c = webycp_agent env"
  shows "\<exists>w. hostsite_Ensure (env_websites env h) (client_websiteRequest v) (website_view h) = (None, w) \<and> h' = website_written w h"
proof -
  have "asked (webycp_agent env) (PostWebsites SiteDoEnsure (client_websiteRequest v)) h = Some (Inr agent_body.NoBody, h')"
    using remote_call [OF assms(2), of "''website reconcile''" h] assms(1,3) by (simp add: client_EnsureWebsite_def)
  then show ?thesis
    by (auto simp: asked_def webycp_agent_def bodiless_def agent_Website_def split: if_splits option.splits prod.splits)
qed

lemma Provision_done:
  assumes "websites_Provision ag now j s = (None, s')"
  obtains w d sp n where "store_Website (web_id w) s = Inr w" "store_PrimaryDomain (web_id w) s = Inr d"
    "website_spec w True s = Inr (sp, n)" "agt_EnsureWebsite ag (nod_endpoint n) sp = None"
    "s' = store_UpdateWebsiteDomainStatus (dom_id d) Active now (store_UpdateWebsiteStatus (web_id w) Active now s)"
    "payload_string ''websiteId'' (job_payload j) = Some (web_id w)"
proof -
  obtain i w where i: "payload_string ''websiteId'' (job_payload j) = Some i" "i \<noteq> []" "store_Website i s = Inr w"
    using assms by (auto simp: websites_Provision_def split: option.splits if_splits sum.splits)
  have w: "web_id w = i"
    using i(3) by (auto simp: store_Website_def find_by_def find_Some_iff split: if_splits)
  obtain d where d: "store_PrimaryDomain (web_id w) s = Inr d"
    using assms i by (auto simp: websites_Provision_def split: sum.splits)
  have e: "website_ensure ag w s = None"
    and s': "s' = store_UpdateWebsiteDomainStatus (dom_id d) Active now (store_UpdateWebsiteStatus (web_id w) Active now s)"
    using assms i d by (auto simp: websites_Provision_def split: option.splits)
  obtain sp n where "website_spec w True s = Inr (sp, n)" "agt_EnsureWebsite ag (nod_endpoint n) sp = None"
    using e by (auto simp: website_ensure_def split: sum.splits)
  then show thesis
    using that i w d s' by metis
qed

lemma updated_row:
  assumes "r \<in> set rs" "\<And>q. key (f q) = key q" "\<And>q. g (f q) = v"
  shows "map_option g (find_by key (key r) (update_by key (key r) f rs)) = Some v"
  using assms by (induction rs) (auto simp: find_by_def)

text \<open>What the host of the node has to offer: its file operations succeed, and its paths have no control signs.\<close>

definition host_in_order :: "agent_env \<Rightarrow> site_spec \<Rightarrow> agent_host \<Rightarrow> bool" where
  "host_in_order env v h \<longleftrightarrow> hosting_calm (env_websites env h) v (wst_fs (ach_web (agh_main h))) \<and>
     CHR 0x5C \<notin> set (hws_root v) \<and> CHR 0x5C \<notin> set (fpm_socket (env_fpm env) (hws_account v)) \<and>
     CHR 0x0A \<notin> set (fpm_socket (env_fpm env) (hws_account v))"

text \<open>The site nginx serves for a website, and the directories below the home of its user.\<close>

definition serves_website :: "agent_env \<Rightarrow> agent_host \<Rightarrow> web_spec \<Rightarrow> agent_host \<Rightarrow> bool" where
  "serves_website env h v h' \<longleftrightarrow>
     (let r = client_websiteRequest v; socket = fpm_socket (env_fpm env) (wsp_account v); fs = wst_fs (ach_web (agh_main h')) in
      \<exists>found i dir g c t. env_user env h (wsp_system_user v) = Inr found \<and>
        hostuser_Validate found ''/home'' (wsp_account v) (wsp_system_user v) = Inr i \<and> web_gid (lnx_group (env_linux env)) = Inr g \<and>
        path_parts (wsp_document_root v) = [''home'', wsp_system_user v, ''web'', dir, ''public_html''] \<and>
        lin_tree (ach_lin (agh_main h')) =
          site_laid_out [''home'', wsp_system_user v] dir (idn_uid i) g (lin_tree (ach_lin (agh_main h))) \<and>
        served (env_nginx env) fs (wsp_website v) = Some c \<and>
        reads_config c (site_tree (hostsite_site r (sort (wsp_aliases v)) socket)) \<and>
        pool_of (env_fpm env) fs (wsp_account v) = Some t \<and> read_pool t = pool_meant (hostsite_account r i) socket)"

text \<open>C1: what the panel provisions, the host serves.  When a provisioning job ends without error, the
  website it names is active with its primary domain, and the job sent the agent of the website's node the
  primary host name and exactly the enabled aliases of the tables.  If that agent is the one \<open>main\<close> builds
  and its host is in order, then the home, \<open>web\<close>, site and document root directories now belong to the
  account's own user and the web server's group, nginx serves exactly these names from that document
  root, and PHP-FPM runs the account's pool, as its user, on the socket nginx passes PHP requests to.\<close>

theorem provisioned_website_is_served:
  assumes job: "websites_Provision (remote_websites net) now j s = (None, s')" and inv: "websites_inv s"
  shows "\<exists>w d sp n. store_Website (web_id w) s = Inr w \<and> payload_string ''websiteId'' (job_payload j) = Some (web_id w) \<and>
    website_spec w True s = Inr (sp, n) \<and>
    d \<in> set (domains s) \<and> dom_website d = web_id w \<and> dom_kind d = Primary \<and> wsp_primary sp = dom_hostname d \<and>
    set (wsp_aliases sp) = {dom_hostname e | e. e \<in> set (domains s) \<and> dom_website e = web_id w \<and> dom_enabled e \<and> dom_kind e \<noteq> Primary} \<and>
    map_option web_status (find_by web_id (web_id w) (websites s')) = Some Active \<and>
    map_option dom_status (find_by dom_id (dom_id d) (domains s')) = Some Active \<and>
    (\<forall>env. let e = nod_endpoint n; c = fst (net e); h = snd (net e); r = client_websiteRequest sp in
      lnk_agent c = webycp_agent env \<and> wire_ok (lnk_wire c) (PostWebsites SiteDoEnsure r) \<and> host_in_order env r h \<longrightarrow>
      serves_website env h sp (reached net e sp))"
proof -
  obtain w d sp n where w: "store_Website (web_id w) s = Inr w" and d: "store_PrimaryDomain (web_id w) s = Inr d"
    and sp: "website_spec w True s = Inr (sp, n)" and call: "agt_EnsureWebsite (remote_websites net) (nod_endpoint n) sp = None"
    and s': "s' = store_UpdateWebsiteDomainStatus (dom_id d) Active now (store_UpdateWebsiteStatus (web_id w) Active now s)"
    and j: "payload_string ''websiteId'' (job_payload j) = Some (web_id w)"
    by (rule Provision_done [OF job])
  have mem: "w \<in> set (websites s)"
    using w by (auto simp: store_Website_def find_by_def find_Some_iff split: if_splits dest: nth_mem)
  obtain a where a: "accounts_Get (web_account w) s = Inr a" "account_ready a" "store_Node (web_node w) s = Inr n"
    using sp by (auto simp: website_spec_def Let_def split: if_splits)
  obtain e where e: "e \<in> set (domains s)" "dom_website e = web_id w" "dom_kind e = Primary" "wsp_primary sp = dom_hostname e"
    and al: "set (wsp_aliases sp) = {dom_hostname e | e. e \<in> set (domains s) \<and> dom_website e = web_id w \<and> dom_enabled e \<and> dom_kind e \<noteq> Primary}"
    using spec_names_enabled_domains [OF inv mem a(1) _ a(3), of True] a(2) sp by auto
  have dm: "d \<in> set (domains s)" "dom_website d = web_id w" "dom_kind d = Primary"
    using d by (auto simp: store_PrimaryDomain_def find_Some_iff split: if_splits dest: nth_mem)
  have same: "e = d"
    using primary_of_website [OF inv mem] e(1-3) dm by metis
  have status: "map_option web_status (find_by web_id (web_id w) (websites s')) = Some Active"
    "map_option dom_status (find_by dom_id (dom_id d) (domains s')) = Some Active"
    using mem dm(1) by (simp_all add: s' store_UpdateWebsiteDomainStatus_def store_UpdateWebsiteStatus_def updated_row)
  have host: "serves_website env (snd (net (nod_endpoint n))) sp (reached net (nod_endpoint n) sp)"
    if link: "lnk_agent (fst (net (nod_endpoint n))) = webycp_agent env"
      and wire: "wire_ok (lnk_wire (fst (net (nod_endpoint n)))) (PostWebsites SiteDoEnsure (client_websiteRequest sp))"
      and order: "host_in_order env (client_websiteRequest sp) (snd (net (nod_endpoint n)))" for env
  proof -
    let ?c = "fst (net (nod_endpoint n))" and ?h = "snd (net (nod_endpoint n))" and ?r = "client_websiteRequest sp"
    have "client_EnsureWebsite ?c sp ?h = (None, reached net (nod_endpoint n) sp)"
      using call by (simp add: remote_websites_def reached_def prod_eq_iff)
    from remote_ensure [OF this wire link] obtain wh where run: "hostsite_Ensure (env_websites env ?h) ?r (website_view ?h) = (None, wh)"
      and h': "reached net (nod_endpoint n) sp = website_written wh ?h"
      by blast
    have m: "wsm_home (env_websites env ?h) = ''/home''" "wsm_lookup (env_websites env ?h) = env_user env ?h"
      "wsm_fpm (env_websites env ?h) = env_fpm env" "wsm_nginx (env_websites env ?h) = env_nginx env"
      "wsm_group (env_websites env ?h) = lnx_group (env_linux env)"
      by (simp_all add: env_websites_def)
    have r: "hws_user ?r = wsp_system_user sp" "hws_account ?r = wsp_account sp" "hws_website ?r = wsp_website sp"
      "hws_root ?r = wsp_document_root sp" "hws_aliases ?r = wsp_aliases sp"
      by (simp_all add: client_websiteRequest_def)
    have home: "is_rooted ''/home''" "path_parts ''/home'' = [''home'']"
      by code_simp+
    have "hosting_calm (env_websites env ?h) ?r (wst_fs (wsh_web (website_view ?h)))"
      using order by (simp add: host_in_order_def website_view_def)
    from Ensure_serves [OF run _ this, unfolded m r home] home(1) order show ?thesis
      unfolding host_in_order_def serves_website_def Let_def h' website_written_def website_view_def r
      by auto
  qed
  show ?thesis
    using w j sp e(4) dm al status host unfolding same Let_def by blast
qed

section \<open>Examples\<close>

text \<open>The job handler without a payload changes nothing.\<close>

theorem stored_websites_accepted_witness:
  "\<exists>sp. website_spec sample_shop True sample_full = Inr (sp, sample_node) \<and>
     hostsite_validate sample_websites (client_websiteRequest sp) =
       Inr (\<lparr>idn_home = ''/home/wcp_aaaaaaaaaaaa'', idn_user = ''wcp_aaaaaaaaaaaa'', idn_uid = 1001, idn_gid = 1001\<rparr>, replicate 32 CHR ''b'', [])"
proof -
  have step: "website_step plain_ext sample_full sample_full"
    using website_step.provision [of plain_ext sample_full _ 0 "new_job [] [] [] KindWebsiteCreate [] 2 0"]
    by (simp add: websites_Provision_def payload_string_def new_job_def)
  have inv: "websites_inv sample_full"
    by (simp add: websites_inv_def domains_inv_def sample_full_sel sample_shop_def sample_website_def sample_domain_def reserved_names_def)
  have ok: "website_rows_ok plain_ext sample_full"
    using inv sample_shop_names(3)
    by (auto simp: website_rows_ok_def sample_full_sel site_stored_def names_stored_def sample_shop_def sample_website_def sample_domain_def
        domains_of_def MaxDomainAliases_def)
  define sp where "sp = (\<lparr>wsp_account = replicate 32 CHR ''a'', wsp_system_user = ''wcp_'' @ replicate 12 CHR ''a'',
      wsp_website = replicate 32 CHR ''b'', wsp_document_root = document_root (acc_system_user sample_owner) (replicate 32 CHR ''b''),
      wsp_kind = ''php'', wsp_web_driver = ''nginx'', wsp_runtime_driver = ''phpfpm'', wsp_runtime_version = ''8.3'',
      wsp_primary = ''shop.pt'', wsp_aliases = []\<rparr> :: web_spec)"
  have spec: "website_spec sample_shop True sample_full = Inr (sp, sample_node)"
    unfolding sp_def
    by (simp add: website_spec_def accounts_Get_def store_Account_def find_by_def store_Node_def sample_full_sel account_ready_def
        store_EnabledWebsiteDomains_def order_domains_def order_asc_def sample_shop_def sample_website_def sample_domain_def
        sample_owner_def sample_full_def sample_crond_def sample_tenant_eval)
  have cfg: "ngx_ext (wsm_nginx sample_websites) = plain_ext" "wsm_home sample_websites = ''/home''"
    "wsm_lookup sample_websites (wsp_system_user sp) = Inr sample_passwd"
    by (simp_all add: sample_websites_def sample_nginx_def)
  define i where "i = \<lparr>idn_home = ''/home/wcp_aaaaaaaaaaaa'', idn_user = ''wcp_aaaaaaaaaaaa'', idn_uid = 1001, idn_gid = 1001\<rparr>"
  have "wsp_account sp = acc_id ftp_owner" "wsp_system_user sp = acc_system_user ftp_owner"
    by (simp_all add: sp_def ftp_owner_def)
  then have id: "hostuser_Validate sample_passwd ''/home'' (wsp_account sp) (wsp_system_user sp) = Inr i"
    using sample_site_identity by (simp add: hostsite_identity_def sample_websites_def sample_spec_def i_def) (simp add: ftp_owner_def eval_nat_numeral)
  have w: "sample_shop \<in> set (websites sample_full)" "idPattern (web_id sample_shop)"
    by (simp_all add: sample_full_sel sample_shop_def sample_website_def sample_pattern)
  have "hostsite_validate sample_websites (client_websiteRequest sp) = Inr (i, web_id sample_shop, sort (wsp_aliases sp))"
    using conjunct2 [OF stored_websites_accepted [OF step ok plain_idna]] w spec cfg id by blast
  moreover have "sort (wsp_aliases sp) = []" "web_id sample_shop = replicate 32 CHR ''b''"
    by (simp_all add: sp_def sample_shop_def sample_website_def)
  ultimately show ?thesis
    using spec by (auto simp: i_def)
qed


text \<open>A panel with a new website, and the agent of its node on the sample host.\<close>

definition panel_site :: website where
  "panel_site = \<lparr>web_id = replicate 32 CHR ''a'', web_account = acc_id ftp_owner, web_node = ''n1'', web_name = ''Shop'',
     web_kind = ''php'', web_document_root = hws_root sample_spec, web_web_driver = ''nginx'',
     web_runtime_driver = ''phpfpm'', web_runtime_version = ''8.3'', web_status = Pending,
     web_enabled = True, web_created = 0, web_updated = 0\<rparr>"

definition panel_domain :: "string \<Rightarrow> string \<Rightarrow> domain_kind \<Rightarrow> domain" where
  "panel_domain i h k = \<lparr>dom_id = i, dom_website = replicate 32 CHR ''a'', dom_hostname = h, dom_kind = k, dom_status = Pending,
     dom_enabled = True, dom_previous = [], dom_created = 0, dom_updated = 0\<rparr>"

definition sample_panel :: db where
  "sample_panel = sample_hosting\<lparr>accounts := [ftp_owner], websites := [panel_site],
     domains := [panel_domain ''d1'' ''b.example'' Alias, panel_domain ''d2'' ''a.example'' Primary]\<rparr>"

definition sample_env :: agent_env where
  "sample_env = \<lparr>env_ext = plain_ext, env_version = ''1'', env_linux = sample_linux, env_ftp = sample_ftp_host,
     env_fpm = sample_site_fpm, env_nginx = sample_nginx, env_certbot = sample_certbot, env_mysql = \<lambda>_. None,
     env_cron_io = \<lambda>_. None, env_cron_tmp = ''/etc/cron.d/.tmp'', env_backup = sample_local, env_now = 0,
     env_pdns = \<lparr>pdc_url = ''http://127.0.0.1:8081'', pdc_key = ''k''\<rparr>, env_server = sample_server, env_day = ''20250101'',
     env_check = \<lambda>_. None, env_stat = \<lambda>_. Inr True\<rparr>"

definition sample_main :: agent_host where
  "sample_main = \<lparr>agh_main = \<lparr>ach_lin = sample_occupied, ach_web = sample_host, ach_ftp = (sample_ftp_files, [])\<rparr>,
     agh_homes = \<lambda>_. None, agh_archives = [], agh_dumped = [], agh_sql = [], agh_pdns = []\<rparr>"

definition sample_network :: network where
  "sample_network e = (\<lparr>lnk_wire = sample_wire (PostWebsites SiteDoEnsure sample_spec), lnk_agent = webycp_agent sample_env, lnk_net = Answered\<rparr>, sample_main)"

definition sample_provision :: job where
  "sample_provision = new_job ''j1'' ''n1'' [] KindWebsiteCreate (website_payload (replicate 32 CHR ''a'')) 2 0"

definition panel_spec :: web_spec where
  "panel_spec = \<lparr>wsp_account = acc_id ftp_owner, wsp_system_user = acc_system_user ftp_owner, wsp_website = replicate 32 CHR ''a'',
     wsp_document_root = hws_root sample_spec, wsp_kind = ''php'', wsp_web_driver = ''nginx'', wsp_runtime_driver = ''phpfpm'',
     wsp_runtime_version = ''8.3'', wsp_primary = ''a.example'', wsp_aliases = [''b.example'']\<rparr>"

lemma panel_row: "store_Website (replicate 32 CHR ''a'') sample_panel = Inr panel_site" "web_id panel_site = replicate 32 CHR ''a''"
  by (simp_all add: store_Website_def sample_panel_def find_by_def panel_site_def)

lemma panel_spec_sent: "website_spec panel_site True sample_panel = Inr (panel_spec, sample_node)"
  by (simp add: website_spec_def accounts_Get_def store_Account_def find_by_def store_Node_def account_ready_def sample_panel_def
      sample_hosting_def store_EnabledWebsiteDomains_def order_domains_def order_asc_def panel_site_def panel_domain_def
      ftp_owner_def sample_account_def sample_node_def panel_spec_def)

lemma panel_request: "client_websiteRequest panel_spec = sample_spec"
  by (simp add: client_websiteRequest_def panel_spec_def sample_spec_def)

lemma sample_main_websites:
  "hostsite_Ensure (env_websites sample_env sample_main) sample_spec (website_view sample_main) = (None, sample_site_made)"
proof -
  have view: "website_view sample_main = sample_website_host"
    by (simp add: website_view_def sample_main_def sample_website_host_def)
  have "env_user sample_env sample_main (hws_user sample_spec) = Inr sample_passwd"
    by (simp add: env_user_def linux_lookup_def sample_env_def sample_linux_def sample_main_def sample_occupied_def sample_spec_def)
  moreover have same: "env_websites sample_env sample_main = sample_websites\<lparr>wsm_lookup := env_user sample_env sample_main\<rparr>"
    by (simp add: env_websites_def sample_env_def sample_websites_def sample_linux_def)
  moreover have "wsm_lookup sample_websites (hws_user sample_spec) = Inr sample_passwd"
    by (simp add: sample_websites_def)
  ultimately have "hostsite_validate (env_websites sample_env sample_main) sample_spec = hostsite_validate sample_websites sample_spec"
    by (simp add: hostsite_validate_def hostsite_identity_def)
  moreover have off: "hostsite_dirs (m\<lparr>wsm_lookup := f\<rparr>) = hostsite_dirs m" "hostsite_services (m\<lparr>wsm_lookup := f\<rparr>) = hostsite_services m"
    for m :: website_manager and f
    by (simp_all add: fun_eq_iff hostsite_dirs_def hostsite_services_def cong: prod.case_cong sum.case_cong)
  moreover have "wsm_group (env_websites sample_env sample_main) = wsm_group sample_websites"
    by (simp add: same)
  ultimately have "hostsite_Ensure (env_websites sample_env sample_main) sample_spec sample_website_host =
      hostsite_Ensure sample_websites sample_spec sample_website_host"
    unfolding hostsite_Ensure_def by (simp only: same off)
  then show ?thesis
    using sample_site_run by (simp add: view)
qed

lemma sample_main_in_order: "host_in_order sample_env sample_spec sample_main"
proof -
  have "hosting_calm (env_websites sample_env sample_main) sample_spec (wst_fs sample_host)"
    using sample_hosting_calm by (simp add: hosting_calm_def env_websites_def sample_env_def sample_websites_def)
  moreover have "env_fpm sample_env = sample_site_fpm" "wst_fs (ach_web (agh_main sample_main)) = wst_fs sample_host"
    by (simp_all add: sample_env_def sample_main_def)
  ultimately show ?thesis
    by (simp add: host_in_order_def sample_site_paths)
qed

theorem provisioned_website_is_served_witness:
  "\<exists>s'. websites_Provision (remote_websites sample_network) 9 sample_provision sample_panel = (None, s') \<and>
     map_option web_status (find_by web_id (replicate 32 CHR ''a'') (websites s')) = Some Active \<and>
     serves_website sample_env sample_main panel_spec (reached sample_network ''/run/agent.sock'' panel_spec)"
proof -
  have "nocase ''b.example'' \<noteq> nocase ''a.example''"
    by code_simp
  then have inv: "websites_inv sample_panel"
    by (simp add: websites_inv_def domains_inv_def sample_panel_def sample_hosting_def panel_site_def panel_domain_def reserved_names_def ftp_owner_def)
  have link: "lnk_wire (fst (sample_network e)) = sample_wire (PostWebsites SiteDoEnsure sample_spec)"
    "lnk_agent (fst (sample_network e)) = webycp_agent sample_env" "lnk_net (fst (sample_network e)) = Answered"
    "snd (sample_network e) = sample_main" for e
    by (simp_all add: sample_network_def)
  have ok: "request_ok (webycp_agent sample_env) (PostWebsites SiteDoEnsure sample_spec)"
  proof -
    have "\<not> hostAccountInvalid (hws_account sample_spec) (hws_user sample_spec)" "succeeds (validate_ID ''websiteId'' (hws_website sample_spec))"
      by code_simp+
    then show ?thesis
      by (simp add: sample_spec_def)
  qed
  have asked: "asked (webycp_agent sample_env) (PostWebsites SiteDoEnsure sample_spec) sample_main = Some (Inr agent_body.NoBody, website_written sample_site_made sample_main)"
    using ok by (simp add: asked_def webycp_agent_def bodiless_def agent_Website_def sample_main_websites)
  have wire: "wire_ok (lnk_wire (fst (sample_network e))) (PostWebsites SiteDoEnsure sample_spec)" for e
    by (simp add: link sample_wire_ok)
  have sent: "fst (client_EnsureWebsite (fst (sample_network e)) panel_spec sample_main) = None" for e
    using remote_call [OF wire [of e], of "''website reconcile''" sample_main] asked sample_wire_ok(2)
    by (simp add: client_EnsureWebsite_def panel_request link)
  have primary: "\<exists>d. store_PrimaryDomain (web_id panel_site) sample_panel = Inr d"
    by (simp add: store_PrimaryDomain_def sample_panel_def panel_site_def panel_domain_def)
  obtain s' where job: "websites_Provision (remote_websites sample_network) 9 sample_provision sample_panel = (None, s')"
    using primary sent panel_spec_sent panel_row link(4)
    by (auto simp: websites_Provision_def sample_provision_def new_job_def website_payload_def website_ensure_def remote_websites_def)
  obtain w d sp n where p: "store_Website (web_id w) sample_panel = Inr w"
    "payload_string ''websiteId'' (job_payload sample_provision) = Some (web_id w)" "website_spec w True sample_panel = Inr (sp, n)"
    "map_option web_status (find_by web_id (web_id w) (websites s')) = Some Active"
    and served: "\<forall>env. let e = nod_endpoint n; c = fst (sample_network e); h = snd (sample_network e); r = client_websiteRequest sp in
      lnk_agent c = webycp_agent env \<and> wire_ok (lnk_wire c) (PostWebsites SiteDoEnsure r) \<and> host_in_order env r h \<longrightarrow>
      serves_website env h sp (reached sample_network e sp)"
    using provisioned_website_is_served [OF job inv] by blast
  have "web_id w = replicate 32 CHR ''a''"
    using p(2) by (simp add: sample_provision_def new_job_def website_payload_def)
  then have w: "w = panel_site"
    using p(1) panel_row(1) by simp
  then have n: "sp = panel_spec" "n = sample_node"
    using p(3) panel_spec_sent by simp_all
  moreover have "nod_endpoint sample_node = ''/run/agent.sock''"
    by (simp add: sample_node_def)
  ultimately have "serves_website sample_env sample_main panel_spec (reached sample_network ''/run/agent.sock'' panel_spec)"
    using served [rule_format, of sample_env] wire sample_main_in_order by (simp add: Let_def link panel_request)
  then show ?thesis
    using job p(4) unfolding w panel_row(2) by blast
qed

end
