(* ===== verification/Server.thy ===== *)
theory Server
  imports Auth Ftp PowerDns Restore
begin

text \<open>
  The control plane put together, \<open>cmd/webycp-server/main.go\<close>: the table of job handlers, the
  drain of the worker over it, and the jobs the services queue.
\<close>

section \<open>The job table\<close>

text \<open>
  What a turn of the worker finds outside the store: the clock, a fresh identifier, the replies
  of the agent, and the library functions the handlers use.
\<close>

record server_env =
  env_ext :: ext
  env_render :: "err \<Rightarrow> string"
  env_codec :: codec
  env_now :: msec
  env_id :: ident
  env_prober :: "string \<Rightarrow> err + capabilities"
  env_accounts :: account_agent
  env_websites :: website_agent
  env_databases :: database_agent
  env_cron :: task_agent
  env_ftp :: ftp_agent
  env_certs :: cert_agent
  env_backups :: backup_agent
  env_dns :: dns_agent

text \<open>The calls of \<open>worker.Handle\<close>, in their order.\<close>

definition server_handlers :: "server_env \<Rightarrow> dispatcher" where
  "server_handlers e k =
     (let now = env_now e in
      case k of
        KindAccountCreate \<Rightarrow> Some (accounts_Provision (env_accounts e) now)
      | KindAccountDelete \<Rightarrow> Some (accounts_ProvisionAction (env_accounts e) now)
      | KindAccountDisable \<Rightarrow> Some (accounts_ProvisionAction (env_accounts e) now)
      | KindAccountEnable \<Rightarrow> Some (accounts_ProvisionAction (env_accounts e) now)
      | KindWebsiteCreate \<Rightarrow> Some (websites_Provision (env_websites e) now)
      | KindWebsiteDelete \<Rightarrow> Some (websites_ProvisionWebsiteAction (env_websites e) now)
      | KindWebsiteDisable \<Rightarrow> Some (websites_ProvisionWebsiteAction (env_websites e) now)
      | KindWebsiteEnable \<Rightarrow> Some (websites_ProvisionWebsiteAction (env_websites e) now)
      | KindWebsiteDomainCreate \<Rightarrow> Some (websites_ProvisionDomain (env_websites e) now)
      | KindWebsiteDomainDelete \<Rightarrow> Some (websites_ProvisionDomain (env_websites e) now)
      | KindWebsiteDomainDisable \<Rightarrow> Some (websites_ProvisionDomain (env_websites e) now)
      | KindWebsiteDomainEnable \<Rightarrow> Some (websites_ProvisionDomain (env_websites e) now)
      | KindWebsiteDomainUpdate \<Rightarrow> Some (websites_ProvisionDomainRename (env_websites e) now)
      | KindDatabaseCreate \<Rightarrow> Some (databases_Provision (env_databases e) now)
      | KindDatabaseDelete \<Rightarrow> Some (databases_Provision (env_databases e) now)
      | KindDatabaseUserCreate \<Rightarrow> Some (databases_Provision (env_databases e) now)
      | KindDatabaseUserDelete \<Rightarrow> Some (databases_Provision (env_databases e) now)
      | KindDatabaseGrantCreate \<Rightarrow> Some (databases_Provision (env_databases e) now)
      | KindDatabaseGrantDelete \<Rightarrow> Some (databases_Provision (env_databases e) now)
      | KindTaskSync \<Rightarrow> Some (tasks_Sync (env_cron e) now)
      | KindFTPSync \<Rightarrow> Some (ftp_Sync (env_ftp e) now)
      | KindCertificateIssue \<Rightarrow> Some (certificates_Provision (env_render e) (env_certs e) now)
      | KindCertificateRenew \<Rightarrow> Some (certificates_Provision (env_render e) (env_certs e) now)
      | KindBackupCreate \<Rightarrow> Some (backups_Create (env_codec e) (env_render e) (env_backups e) (env_id e) now)
      | KindBackupRestore \<Rightarrow> Some (backups_RestoreJob (env_ext e) (env_codec e) (env_render e) (env_backups e)
          (env_certs e) (env_cron e) now)
      | KindDNSZoneCreate \<Rightarrow> Some (dns_ProvisionZone (env_dns e) now)
      | KindDNSZoneDelete \<Rightarrow> Some (dns_ProvisionZone (env_dns e) now)
      | KindDNSRecordSync \<Rightarrow> Some (dns_ProvisionRecord (env_ext e) (env_dns e) now)
      | KindNodeProbe \<Rightarrow> Some (\<lambda>j. nodes_Probe (env_prober e) (job_node j) now)
      | KindOther _ \<Rightarrow> None)"

section \<open>Handlers leave the queue alone\<close>

lemma accounts_keep_jobs:
  "jobs (snd (accounts_Provision ag now j s)) = jobs s"
  "jobs (snd (accounts_ProvisionAction ag now j s)) = jobs s"
  by (simp_all add: accounts_Provision_def accounts_ProvisionAction_def Let_def store_UpdateStatus_def
      store_DeleteAccount_def cascade_account_def split: option.split sum.split prod.split)

lemma websites_keep_jobs:
  "jobs (snd (websites_Provision wag now j s)) = jobs s"
  "jobs (snd (websites_ProvisionWebsiteAction wag now j s)) = jobs s"
  "jobs (snd (websites_ProvisionDomain wag now j s)) = jobs s"
  by (simp_all add: websites_Provision_def websites_ProvisionWebsiteAction_def websites_ProvisionDomain_def Let_def
      store_UpdateWebsiteStatus_def store_UpdateWebsiteDomainStatus_def store_DeleteWebsite_def
      store_DeleteWebsiteDomain_def split: option.split sum.split prod.split)

lemma rename_keeps_jobs: "jobs (snd (websites_ProvisionDomainRename wag now j s)) = jobs s"
  by (simp add: websites_ProvisionDomainRename_def store_FailWebsiteDomainRename_def
      store_CompleteWebsiteDomainRename_def Let_def split: option.split sum.split prod.split)

lemma databases_keep_jobs: "jobs (snd (databases_Provision dag now j s)) = jobs s"
  by (simp add: databases_Provision_def provision_database_def provision_user_def provision_grant_def
      store_SetDatabaseStatus_def store_DeleteDatabase_def store_SetUserStatus_def store_DeleteUser_def
      store_SetGrantStatus_def store_DeleteGrant_def split: option.split sum.split job_kind.split)

lemma reconcile_keeps_jobs: "jobs (snd (tasks_Reconcile cron now i s)) = jobs s"
  by (simp add: tasks_Reconcile_def store_SetTaskStatuses_def split: option.split sum.split)

lemma syncs_keep_jobs:
  "jobs (snd (tasks_Sync cron now j s)) = jobs s"
  "jobs (snd (ftp_Sync fag now j s)) = jobs s"
  by (simp_all add: tasks_Sync_def ftp_Sync_def store_FinishFTP_def reconcile_keeps_jobs split: option.split)

lemma provision_keeps_jobs: "jobs (snd (certificates_provision render certs now v s)) = jobs s"
  by (auto simp: certificates_provision_def store_SetResult_def replaceCertificateNames_def
      split: option.split sum.split prod.split)

lemma certificates_keep_jobs:
  "jobs (snd (certificates_Provision render certs now j s)) = jobs s"
  "jobs (snd (certificates_ReconcileWebsite render certs now w s)) = jobs s"
  by (simp_all add: certificates_Provision_def certificates_ReconcileWebsite_def provision_keeps_jobs
      split: option.split sum.split)

lemma zones_keep_jobs: "jobs (snd (dns_ProvisionZone nag now j s)) = jobs s"
  by (simp add: dns_ProvisionZone_def Let_def store_UpdateDNSZoneStatus_def store_DeleteDNSZone_def
      split: option.split sum.split prod.split)

lemma records_keep_jobs: "jobs (snd (dns_ProvisionRecord x nag now j s)) = jobs s"
  by (simp add: dns_ProvisionRecord_def Let_def store_UpdateDNSRecordStatus_def store_DeleteDNSRecord_def
      store_CompleteDNSRecordSync_def split: option.split sum.split prod.split)

lemma apply_retention_keeps_jobs: "jobs (snd (apply_retention bag socket fs s)) = jobs s"
  by (induction bag socket fs s rule: apply_retention.induct)
    (simp_all add: store_DeleteBackupArtifact_def split: option.split)

lemma fail_run_keeps_jobs: "jobs (snd (backups_failRun render i now e s)) = jobs s"
  by (simp add: backups_failRun_def store_SetBackupRun_def split: sum.split)

lemma backup_run_keeps_jobs:
  "store_SetBackupRun i st msg b f s = Inr s' \<Longrightarrow> jobs s' = jobs s"
  "store_CompleteBackup r a now s = Inr (v, s') \<Longrightarrow> jobs s' = jobs s"
  by (auto simp: store_SetBackupRun_def store_CompleteBackup_def insert_artifact_def split: if_splits)

lemma backup_keeps_jobs: "jobs (snd (backups_Create c render bag i now j s)) = jobs s"
  by (auto simp: backups_Create_def backups_applyRetention_def fail_run_keeps_jobs apply_retention_keeps_jobs
      dest!: backup_run_keeps_jobs split: option.split sum.split)

lemma restore_domains_jobs: "restore_domains x a w now ds n s = Inr (n', s') \<Longrightarrow> jobs s' = jobs s"
  by (induction x a w now ds n s rule: restore_domains.induct)
    (auto simp: upsert_domain_def split: if_splits)

lemma upsert_website_jobs: "upsert_website w a now s = Inr s' \<Longrightarrow> jobs s' = jobs s"
  by (auto simp: upsert_website_def split: if_splits)

lemma restore_websites_jobs: "restore_websites x a now ws s = Inr s' \<Longrightarrow> jobs s' = jobs s"
  by (induction ws arbitrary: s) (fastforce dest: restore_domains_jobs upsert_website_jobs)+

lemma restore_databases_jobs: "restore_databases x a now ds s = Inr s' \<Longrightarrow> jobs s' = jobs s"
  by (induction x a now ds s rule: restore_databases.induct) (auto simp: upsert_database_def split: if_splits)

lemma restore_tasks_jobs: "restore_tasks x a now ts s = Inr s' \<Longrightarrow> jobs s' = jobs s"
  by (induction x a now ts s rule: restore_tasks.induct) (auto simp: upsert_task_def split: if_splits)

lemma restored_keeps_jobs: "store_RestoreMetadata x m now s = Inr s' \<Longrightarrow> jobs s' = jobs s"
  by (auto simp: store_RestoreMetadata_def dest!: restore_websites_jobs restore_databases_jobs restore_tasks_jobs)

lemma reconcile_websites_keeps_jobs: "jobs (snd (reconcile_websites render bag certs now a socket ws s)) = jobs s"
proof (induction render bag certs now a socket ws s rule: reconcile_websites.induct)
  case (2 render bag certs now a socket w ws s)
  obtain r s' where "certificates_ReconcileWebsite render certs now (mwe_id w) s = (r, s')"
    by (cases "certificates_ReconcileWebsite render certs now (mwe_id w) s")
  with 2 show ?case
    using certificates_keep_jobs(2) [of render certs now "mwe_id w" s]
    by (auto split: option.split)
qed simp

lemma restore_step_keeps_jobs:
  "jobs (snd (restore_metadata_step x c render bag certs cron now a socket text s)) = jobs s"
proof -
  have "jobs (snd (case tasks_Reconcile cron now i s1 of
        (Some e, s2) \<Rightarrow> (Some (f e), s2)
      | (None, s2) \<Rightarrow> reconcile_websites render bag certs now a socket ws s2)) = jobs s1" for i s1 ws and f :: "err \<Rightarrow> err"
    using reconcile_keeps_jobs [of cron now i s1]
    by (cases "tasks_Reconcile cron now i s1") (simp add: reconcile_websites_keeps_jobs split: option.split)
  then show ?thesis
    by (auto simp: restore_metadata_step_def dest: restored_keeps_jobs split: option.split sum.split)
qed

lemma restore_keeps_jobs: "jobs (snd (backups_RestoreJob x c render bag certs cron now j s)) = jobs s"
  by (simp add: backups_RestoreJob_def restore_step_keeps_jobs split: option.split sum.split prod.split)

lemmas handlers_keep_jobs = accounts_keep_jobs websites_keep_jobs rename_keeps_jobs databases_keep_jobs syncs_keep_jobs
  certificates_keep_jobs(1) zones_keep_jobs records_keep_jobs backup_keeps_jobs restore_keeps_jobs probe_keeps_jobs

interpretation server: job_handlers server_handlers
  by unfold_locales (auto simp: server_handlers_def Let_def handlers_keep_jobs split: job_kind.splits)

section \<open>The worker stops\<close>

text \<open>C6: the worker always comes to rest.  Started on any store, after the recovery of the jobs a
  crash left running, with any replies of the agents, any clock and any storage faults, the drain
  over the job table of \<open>main\<close> returns; it has only taken steps of the queue, and unless it asks
  to be called again (a job to retry or a storage fault) no runnable job is left.
\<close>

theorem drain_terminates:
  assumes "\<And>n. \<exists>e. trn_handlers (ts n) = server_handlers e"
  shows "\<exists>again s' ls. worker_boot render ts s = Some (again, s') \<and>
    queue_trace (store_RecoverJobs s) ls s' \<and> Restarted \<notin> set ls \<and> (\<not> again \<longrightarrow> claim_target s' = None)"
  unfolding worker_boot_def by (rule server.drain_ends) (rule assms)

definition sample_env :: server_env where
  "sample_env = \<lparr>env_ext = plain_ext, env_render = (\<lambda>_. ''failed''), env_codec = (\<lambda>_. ''{}'', \<lambda>_. None), env_now = 9,
     env_id = ''f2'', env_prober = (\<lambda>_. Inl (Plain ''offline'')), env_accounts = idle_agent,
     env_websites = \<lparr>agt_EnsureWebsite = \<lambda>_ _. None, agt_DisableWebsite = \<lambda>_ _. None, agt_DeleteWebsite = \<lambda>_ _. None\<rparr>,
     env_databases = \<lparr>agt_EnsureDatabase = \<lambda>_ _. None, agt_DeleteDatabase = \<lambda>_ _. None,
       agt_EnsureDatabaseUser = \<lambda>_ _ _. None, agt_DeleteDatabaseUser = \<lambda>_ _. None,
       agt_EnsureDatabaseGrant = \<lambda>_ _ _. None, agt_DeleteDatabaseGrant = \<lambda>_ _ _. None\<rparr>,
     env_cron = (\<lambda>_ _ _ _. None), env_ftp = (\<lambda>_ _ _ _. None), env_certs = (\<lambda>_ q. Inr (crq_names q, 90)),
     env_backups = willing_backups, env_dns = willing_dns\<rparr>"

definition sample_turn :: turn where
  "sample_turn = \<lparr>trn_now = 9, trn_claim_fault = False, trn_step_id = Some ''s1'',
     trn_step_fault = False, trn_finish_fault = False, trn_end_fault = False,
     trn_audit_id = Some ''e1'', trn_audit_fault = False, trn_handlers = server_handlers sample_env\<rparr>"

theorem drain_terminates_witness:
  "\<exists>again s'. worker_boot (\<lambda>_. ''failed'') (\<lambda>_. sample_turn) sample_backups = Some (again, s')"
proof -
  have "\<exists>e. trn_handlers sample_turn = server_handlers e"
    by (auto simp: sample_turn_def)
  from drain_terminates [of "\<lambda>_. sample_turn" "\<lambda>_. ''failed''" sample_backups, OF this] show ?thesis
    by blast
qed

end
