(* ===== verification/Spec2Isabelle.thy ===== *)
theory Spec2Isabelle
  imports Prelude Schema Netip Validate Runes Pagination Jobs Passwords Auth Nodes Packages Accounts Websites
    Databases Host Tasks Ftp Dns PowerDns Certificates Paths Backups Restore LocalBackup
    Reload Nginx PhpFpm HostDirs SystemAccounts HostWebsites
    AgentServer Addresses Certbot AgentMain Provisioning Server
begin

text \<open>
  WEBYCP is a control panel for web hosting, written in Go.  It consists of two programs.  The control
  plane \<open>cmd/webycp-server\<close> serves the HTTP API of the panel, keeps its state in a SQLite store and
  queues a job for every change of a hosted resource; its worker runs the jobs one at a time against the
  agent of the resource's node.  The agent \<open>cmd/webycp-agent\<close> runs as root on a node and changes the
  host: system users and homes, nginx, PHP-FPM, MySQL, cron, Pure-FTPd, PowerDNS, certificates and backup
  archives.  The two speak JSON over a Unix socket.

  A request therefore travels through these parts, in this order: the middleware and the route table
  (\<open>Auth\<close>), the service of the component, which checks and normalises its input (\<open>Validate\<close>), the store
  operation, which changes the tables and queues the job in one transaction, the worker and its table of
  handlers (\<open>Jobs\<close>, \<open>Server\<close>), the client of the agent, the agent's server (\<open>AgentServer\<close>), and a driver
  on the host.  The theories follow this division, and \<open>Provisioning\<close> joins the ends: what a successful
  job says in the panel's tables is what the host serves.
\<close>

section \<open>The theories and the code they model\<close>

text \<open>
  Names follow the code.  A store method \<open>Store.X\<close> is \<open>store_X\<close>, a method \<open>Service.X\<close> of a package is
  \<open><package>_X\<close>, a driver method carries the driver's name (\<open>nginx_Ensure\<close>, \<open>linux_Delete\<close>,
  \<open>hostsite_Ensure\<close>), a method of the agent's client is \<open>client_X\<close>, and a Go struct is a record whose
  fields have a three-letter prefix.  Unexported helpers keep their name where it is free.

  \<^bold>\<open>Shared.\<close>  \<open>Prelude\<close> has the sequencing of fallible steps (\<open>andthen\<close>, \<open>fail_when\<close>, \<open>some_or\<close>,
  \<open>map_err\<close> on \<open>err + 'a\<close>), the Go string functions on byte strings and the ordering of query results.
  \<open>Schema\<close> has the errors as a datatype, the tables as one record \<open>db\<close> of row lists (the row types of
  the \<open>model.go\<close> files and of \<open>internal/store/sqlite/dbgen\<close>), and the locale \<open>table\<close>, interpreted for
  every table.  \<open>Netip\<close> and \<open>Addresses\<close> model the part of Go's \<open>net\<close> that is used and show that the
  texts of addresses are unambiguous.  \<open>Validate\<close> and \<open>Runes\<close> model \<open>internal/validate\<close> and show that
  normalising is idempotent.  \<open>Pagination\<close> models \<open>internal/pagination\<close> with its 64-bit arithmetic,
  \<open>Paths\<close> the functions of \<open>path/filepath\<close>.

  \<^bold>\<open>Control plane.\<close>  \<open>Jobs\<close>: \<open>internal/jobs\<close> and the job, step and audit tables; the operations of
  the queue form a step relation, and the locale \<open>queued_operation\<close> is the contract of a service
  operation that queues a job.  \<open>Passwords\<close>, \<open>Auth\<close>: \<open>internal/auth\<close> and the middleware of
  \<open>internal/httpapi/handler.go\<close>.  \<open>Nodes\<close>, \<open>Packages\<close>, \<open>Accounts\<close>, \<open>Websites\<close>, \<open>Databases\<close>, \<open>Tasks\<close>,
  \<open>Ftp\<close>, \<open>Dns\<close>, \<open>Certificates\<close>, \<open>Backups\<close>: the service, the store file and the job handlers of the
  package of that name.  The locale \<open>owned_resource\<close> is the contract of access by account, \<open>capped_create\<close>
  that of package quotas; both are interpreted for the components that rely on them.  \<open>Restore\<close> composes
  export and restore of an account's metadata.  \<open>Server\<close>: the job table of
  \<open>cmd/webycp-server/main.go\<close> and the worker's drain over it, the interpretation of \<open>job_handlers\<close>.

  \<^bold>\<open>Agent.\<close>  \<open>Host\<close>: system user checks and atomic file replacement
  (\<open>internal/agent/hostuser\<close>, \<open>configfile\<close>).  \<open>Databases\<close>, \<open>Tasks\<close>, \<open>Ftp\<close> and \<open>PowerDns\<close> also hold
  the drivers of \<open>internal/agent/database/mysql\<close>, \<open>scheduler/crontab\<close>, \<open>ftp/pureftpd\<close> and
  \<open>dns/powerdns\<close>.  \<open>Reload\<close> is what the drivers of reloaded services share, with the locale
  \<open>reloaded_service\<close>, interpreted for \<open>Nginx\<close> (\<open>internal/agent/webserver/nginx\<close>) and \<open>PhpFpm\<close>
  (\<open>internal/agent/runtime/phpfpm\<close>).  \<open>HostDirs\<close>: \<open>internal/fsx\<close>, directories through descriptors.
  \<open>SystemAccounts\<close>: \<open>internal/agent/account\<close>.  \<open>HostWebsites\<close>: \<open>internal/agent/website\<close>.
  \<open>Certbot\<close>: \<open>internal/agent/certificate/certbot\<close>.  \<open>LocalBackup\<close>: \<open>internal/agent/backup/local\<close>.
  \<open>AgentServer\<close>: the routes of \<open>internal/agent/server\<close> and the methods of \<open>internal/agent/client\<close>.
  \<open>AgentMain\<close>: the wiring of \<open>cmd/webycp-agent/main.go\<close> on one host state, and
  \<open>internal/agent/capability\<close>.
\<close>

section \<open>State, steps and errors\<close>

text \<open>
  The state of the control plane is the record \<open>db\<close>; a store operation maps it to a result and a new
  state or to an error, and an error leaves the state unchanged, as a rolled back transaction does.  The
  constraints of the SQL migrations (unique indexes, foreign keys with their cascades, checks) are part of
  the operations.  A service operation is one step: what it checks before its transaction is taken to hold
  when the transaction runs, except where the store checks it again.  A job handler returns an optional
  error and a state, because its partial changes stay.

  The host is a map of paths to files, directories and links (\<open>fs\<close>) for the configuration files, a tree
  of directories with owners and modes (\<open>tree\<close>) for homes, the user database, and the log of the commands
  that ran.  Every system call and every command may fail: a driver has a function that says which of them
  do, and the theorems hold for all such functions unless they say that file operations succeed
  (\<open>calm\<close>, \<open>nginx_calm\<close>, \<open>hosting_calm\<close>).  A driver step returns an optional error and the host state, so
  what a failure leaves behind is visible.  The backup driver has its own view of a home directory.

  Identifiers, times, random bytes and temporary names are arguments.  Integers are unbounded where the
  code's bounds are proved (identifiers, counters below the limits of the schema) and wrapped to 64 bits
  where they matter (\<open>Pagination\<close>).
\<close>

section \<open>What is a parameter\<close>

text \<open>
  Code outside the repository is an argument of the definitions that use it: the record \<open>ext\<close> (IDNA, mail
  addresses, cron expressions, time zones, Argon2 and SHA-256), gzip, tar, JSON and checksums of archives
  (with their documented round trips, \<open>library_laws\<close>), the JSON messages between the programs
  (\<open>wire_ok\<close>: decoding gives back what was encoded; \<open>json_bounded\<close>: a byte of a string is written as at
  most six), the network between panel and agent (\<open>delivery\<close>: a
  message may be refused, or answered, or carried out while its reply is lost), the programs that run on
  the host, DNS answers and the addresses of the node, and the PowerDNS server, which may answer anything.
  The parser of cron expressions is only asked for the number of fields and their characters (\<open>cron_law\<close>).
  For nginx, PHP-FPM and cron the drivers' texts are read back by a reader of each configuration language,
  so that a theorem can say what the program will be told.
\<close>

section \<open>What the theorems show\<close>

text \<open>
  \<^bold>\<open>From the panel to the host.\<close>  After a successful provisioning job the host serves the website as the
  tables describe it; a remote call is the driver's operation, whatever the network does; the agent accepts
  every website the website service stored, and every record set of stored records within its limits on
  \<open>TXT\<close> texts and on the size of a set; what a synchronisation publishes is what the DNS tables said; the
  panel can tell why a backup is refused.

  \<^bold>\<open>The queue.\<close>  The worker comes to rest on every store and with any faults; a job is handed out a
  bounded number of times; a finished job is final; a backup job settles its run; account actions
  converge; due certificates get their renewal.

  \<^bold>\<open>Consistency.\<close>  Invariants of users and sessions, websites and host names, databases and grants, tasks,
  DNS records, backup plans and runs, kept by every operation of their components.  The restore of a
  backup's metadata writes the tables of websites, databases and tasks by statements of its own.  It is not
  a step of these invariants: what it may change is stated by itself, and \<open>restore_breaks_websites\<close>
  shows that it can break that of the websites.

  \<^bold>\<open>Safety of the host.\<close>  SQL statements quote what they are given; cron reads one job of the account's own
  user from the lines of a task; a restore stays in the home directory, and touches the account its archive
  names; deletions of accounts and websites keep their files; a suspended account is closed; only owned DNS zones change; configuration files are replaced completely or not at
  all; nginx and PHP-FPM run what their files say, also when a test or reload fails.

  \<^bold>\<open>Round trips and equivalences.\<close>  A backup restores what it saved, exported metadata restores, addresses
  are read back, pages partition a result.

  Several theorems record a behaviour that is hardly meant, among them
  \<open>failed_renewal_never_due\<close>, \<open>over_100_tasks_never_sync\<close>, \<open>enable_refused_leaves_pending\<close>,
  \<open>failed_move_stays_published\<close>, \<open>impossible_schedule_always_due\<close>, \<open>restore_breaks_websites\<close>,
  \<open>unlinked_site_is_not_reloaded\<close> and \<open>root_beside_web\<close>.
\<close>

section \<open>Bounds and fuel\<close>

text \<open>
  Recursion is structural or has a measure, with two exceptions that follow the kernel: the resolution of
  symbolic links in a path (\<open>walk\<close>) and in a file name (\<open>read_file\<close>) gives up after 40 links, as Linux
  does.  The worker's drain is a loop whose end is proved (\<open>drain_terminates\<close>): every turn takes an
  attempt from a finite budget, as handlers queue no jobs.  The limits of the code are kept: 100 cron
  entries and FTP logins for each account, 100 record contents in a set, bodies of 1 MiB, failure replies of
  4 KiB, aliases of a website, artifacts of a plan, manifests of 1 MiB.
\<close>

section \<open>Not modelled\<close>

text \<open>
  The HTTP handlers of \<open>internal/httpapi\<close> beyond the middleware and the route table decode a request, call
  one service operation and encode its result.  Generated code (\<open>dbgen\<close> beyond its SQL statements,
  \<open>spec\<close>, \<open>protocol\<close> beyond its messages) and the migrations' runner have no logic of their own.  The
  socket listener, settings from the environment, process execution, signals, \<open>/proc\<close> scanning for FTP
  sessions and the TLS file of Pure-FTPd are input and output of the operating system; what the drivers
  rely on of them is a parameter.  Time-outs appear as failing calls.  Concurrent requests are not
  interleaved within a service operation; the worker is the only reader of the queue, as in the program.
  The web front end, the packaging and the scripts are not Go.
\<close>

end
